(* ===== verification/Prelude.thy ===== *)
theory Prelude
  imports Complex_Main
begin

text \<open>
  Shared vocabulary of the development: the application errors of
  \<^verbatim>\<open>src/src/types/exceptions.ts\<close>, results as sums, the JavaScript string operations the
  code uses, database tables as lists of rows, and the contract of a conditional update.

  Strings are lists of characters below code 256; the case mappings are those of ASCII.
  A value of type \<open>app_error + 'a\<close> is a call that throws (\<open>Inl\<close>) or returns (\<open>Inr\<close>).
\<close>

named_theorems js_defs \<open>definitions of the string operations\<close>
named_theorems row_simps \<open>facts on tables of rows\<close>

section \<open>Application errors\<close>

datatype retry_tag = RETRYABLE | NON_RETRYABLE | USER_ACTION_REQUIRED

text \<open>
  One constructor per exception class; the classes that take a message carry it.
  \<open>Thrown\<close> is a plain \<^verbatim>\<open>throw new Error(message)\<close>; \<open>UniqueViolation\<close> is the
  database client's report of a violated unique constraint (code P2002);
  \<open>PortalVerificationFailed\<close> is the error of the portal, which carries a reason for the
  server's log and which its router answers with the status 401.
  \<open>UniqueTarget\<close> is a violated unique constraint whose columns the code reads, and
  \<open>Conflict\<close> the answer 409 with a message of its own.
\<close>

datatype app_error =
    ValidationError string
  | AuthenticationFailedError
  | AuthorizationError
  | SessionExpiredError
  | SessionRevokedError
  | TenantNotFoundError
  | ResourceNotFoundError
  | DuplicateResourceError string
  | OptimisticLockError
  | DeadlockDetectedError
  | DatabaseTimeoutError
  | DatabaseConnectionError
  | RateLimitExceededError
  | ExternalServiceTimeoutError
  | ExternalServiceUnavailableError
  | QueueUnavailableError
  | TemporaryServiceError
  | ConflictError
  | BusinessRuleViolationError string
  | CaseClosedError
  | InvitationAlreadyAcceptedError
  | DataIntegrityError
  | ConfigurationError string
  | ScannerUnavailableError
  | InfectedFileError
  | AuditWriteFailureError
  | AuditChainBranchError
  | CaseOperationsEngineDisabledError
  | Thrown string
  | PortalVerificationFailed string
  | UniqueViolation
  | UniqueTarget string
  | Conflict string

fun httpStatus :: "app_error \<Rightarrow> nat" where
  "httpStatus (ValidationError _) = 400"
| "httpStatus AuthenticationFailedError = 401"
| "httpStatus AuthorizationError = 403"
| "httpStatus SessionExpiredError = 401"
| "httpStatus SessionRevokedError = 401"
| "httpStatus TenantNotFoundError = 404"
| "httpStatus ResourceNotFoundError = 404"
| "httpStatus (DuplicateResourceError _) = 409"
| "httpStatus OptimisticLockError = 409"
| "httpStatus DeadlockDetectedError = 503"
| "httpStatus DatabaseTimeoutError = 503"
| "httpStatus DatabaseConnectionError = 503"
| "httpStatus RateLimitExceededError = 429"
| "httpStatus ExternalServiceTimeoutError = 504"
| "httpStatus ExternalServiceUnavailableError = 503"
| "httpStatus QueueUnavailableError = 503"
| "httpStatus TemporaryServiceError = 503"
| "httpStatus ConflictError = 409"
| "httpStatus (BusinessRuleViolationError _) = 422"
| "httpStatus CaseClosedError = 410"
| "httpStatus InvitationAlreadyAcceptedError = 409"
| "httpStatus DataIntegrityError = 500"
| "httpStatus (ConfigurationError _) = 503"
| "httpStatus ScannerUnavailableError = 503"
| "httpStatus InfectedFileError = 422"
| "httpStatus AuditWriteFailureError = 503"
| "httpStatus AuditChainBranchError = 500"
| "httpStatus CaseOperationsEngineDisabledError = 403"
| "httpStatus (Thrown _) = 500"
| "httpStatus (PortalVerificationFailed _) = 401"
| "httpStatus UniqueViolation = 500"
| "httpStatus (UniqueTarget _) = 500"
| "httpStatus (Conflict _) = 409"

fun retryTag :: "app_error \<Rightarrow> retry_tag option" where
  "retryTag (ValidationError _) = Some NON_RETRYABLE"
| "retryTag AuthenticationFailedError = Some USER_ACTION_REQUIRED"
| "retryTag AuthorizationError = Some NON_RETRYABLE"
| "retryTag SessionExpiredError = Some USER_ACTION_REQUIRED"
| "retryTag SessionRevokedError = Some USER_ACTION_REQUIRED"
| "retryTag TenantNotFoundError = Some NON_RETRYABLE"
| "retryTag ResourceNotFoundError = Some NON_RETRYABLE"
| "retryTag (DuplicateResourceError _) = Some NON_RETRYABLE"
| "retryTag OptimisticLockError = Some RETRYABLE"
| "retryTag DeadlockDetectedError = Some RETRYABLE"
| "retryTag DatabaseTimeoutError = Some RETRYABLE"
| "retryTag DatabaseConnectionError = Some RETRYABLE"
| "retryTag RateLimitExceededError = Some RETRYABLE"
| "retryTag ExternalServiceTimeoutError = Some RETRYABLE"
| "retryTag ExternalServiceUnavailableError = Some RETRYABLE"
| "retryTag QueueUnavailableError = Some RETRYABLE"
| "retryTag TemporaryServiceError = Some RETRYABLE"
| "retryTag ConflictError = Some USER_ACTION_REQUIRED"
| "retryTag (BusinessRuleViolationError _) = Some NON_RETRYABLE"
| "retryTag CaseClosedError = Some NON_RETRYABLE"
| "retryTag InvitationAlreadyAcceptedError = Some NON_RETRYABLE"
| "retryTag DataIntegrityError = Some NON_RETRYABLE"
| "retryTag (ConfigurationError _) = Some USER_ACTION_REQUIRED"
| "retryTag ScannerUnavailableError = Some RETRYABLE"
| "retryTag InfectedFileError = Some NON_RETRYABLE"
| "retryTag AuditWriteFailureError = Some RETRYABLE"
| "retryTag AuditChainBranchError = Some NON_RETRYABLE"
| "retryTag CaseOperationsEngineDisabledError = Some NON_RETRYABLE"
| "retryTag (Thrown _) = None"
| "retryTag (PortalVerificationFailed _) = None"
| "retryTag UniqueViolation = None"
| "retryTag (UniqueTarget _) = None"
| "retryTag (Conflict _) = Some USER_ACTION_REQUIRED"

section \<open>Results\<close>

definition res_bind :: "'e + 'a \<Rightarrow> ('a \<Rightarrow> 'e + 'b) \<Rightarrow> 'e + 'b" where
  "res_bind m f = (case m of Inl e \<Rightarrow> Inl e | Inr x \<Rightarrow> f x)"

lemma res_bind_simps [simp]:
  "res_bind (Inl e) f = Inl e"
  "res_bind (Inr x) f = f x"
  by (simp_all add: res_bind_def)

lemma res_bind_Inr_iff: "res_bind m f = Inr y \<longleftrightarrow> (\<exists>x. m = Inr x \<and> f x = Inr y)"
  by (cases m) auto

lemma res_bind_Inl_iff: "res_bind m f = Inl e \<longleftrightarrow> m = Inl e \<or> (\<exists>x. m = Inr x \<and> f x = Inl e)"
  by (cases m) auto

text \<open>\<^verbatim>\<open>if (!c) throw e\<close>.\<close>

text \<open>A call that returned, as a pair of its value and the new state.\<close>

lemma returned: "\<not> isl x \<Longrightarrow> x = Inr (fst (projr x), snd (projr x))"
  by (cases x) simp_all

lemma returned_handler: "\<not> isl (fst v) \<Longrightarrow> v = (Inr (fst (projr (fst v)), snd (projr (fst v))), snd v)"
  by (cases v; cases "fst v") simp_all

definition ensure :: "bool \<Rightarrow> 'e \<Rightarrow> 'e + unit" where
  "ensure c e = (if c then Inr () else Inl e)"

lemma ensure_simps [simp]:
  "ensure True e = Inr ()"
  "ensure False e = Inl e"
  "ensure c e = Inr u \<longleftrightarrow> c"
  "ensure c e = Inl e' \<longleftrightarrow> \<not> c \<and> e' = e"
  by (auto simp: ensure_def)

section \<open>Strings\<close>

abbreviation code :: "char \<Rightarrow> nat" where
  "code c \<equiv> of_char c"

definition is_digit :: "char \<Rightarrow> bool" where
  "is_digit c \<longleftrightarrow> 48 \<le> code c \<and> code c \<le> 57"

definition is_upper :: "char \<Rightarrow> bool" where
  "is_upper c \<longleftrightarrow> 65 \<le> code c \<and> code c \<le> 90"

definition is_lower :: "char \<Rightarrow> bool" where
  "is_lower c \<longleftrightarrow> 97 \<le> code c \<and> code c \<le> 122"

definition upper_char :: "char \<Rightarrow> char" where
  "upper_char c = (if is_lower c then char_of (code c - 32) else c)"

definition to_upper :: "string \<Rightarrow> string" where
  "to_upper s = List.map upper_char s"

text \<open>\<^verbatim>\<open>s.replace(/\D/g, '')\<close>\<close>
definition digits_only :: "string \<Rightarrow> string" where
  "digits_only s = filter is_digit s"

definition is_space :: "char \<Rightarrow> bool" where
  "is_space c \<longleftrightarrow> code c \<in> {9, 10, 11, 12, 13, 32, 160}"

text \<open>\<^verbatim>\<open>s.trim()\<close>\<close>
definition trim :: "string \<Rightarrow> string" where
  "trim s = rev (dropWhile is_space (rev (dropWhile is_space s)))"

text \<open>\<^verbatim>\<open>s.slice(-n)\<close> for a positive \<open>n\<close>\<close>
definition last_chars :: "nat \<Rightarrow> string \<Rightarrow> string" where
  "last_chars n s = drop (length s - n) s"

definition starts_with :: "string \<Rightarrow> string \<Rightarrow> bool" where
  "starts_with p s \<longleftrightarrow> take (length p) s = p"

definition digit_char :: "nat \<Rightarrow> char" where
  "digit_char n = char_of (48 + n mod 10)"

text \<open>Decimal numerals, as in a template literal.\<close>
fun nat_str :: "nat \<Rightarrow> string" where
  "nat_str n = (if n < 10 then [digit_char n] else nat_str (n div 10) @ [digit_char n])"

declare nat_str.simps [simp del]

definition int_str :: "int \<Rightarrow> string" where
  "int_str i = (if i < 0 then CHR ''-'' # nat_str (nat (- i)) else nat_str (nat i))"

lemmas [js_defs] = is_digit_def is_upper_def is_lower_def upper_char_def to_upper_def
  digits_only_def is_space_def trim_def last_chars_def starts_with_def

lemma length_to_upper [simp]: "length (to_upper s) = length s"
  by (simp add: to_upper_def)

lemma upper_char_idem [simp]: "upper_char (upper_char c) = upper_char c"
  by (auto simp: upper_char_def is_lower_def)

lemma to_upper_idem [simp]: "to_upper (to_upper s) = to_upper s"
  by (simp add: to_upper_def)

lemma to_upper_append [simp]: "to_upper (s @ t) = to_upper s @ to_upper t"
  by (simp add: to_upper_def)

lemma take_to_upper: "take n (to_upper s) = to_upper (take n s)"
  by (simp add: to_upper_def take_map)

lemma drop_to_upper: "drop n (to_upper s) = to_upper (drop n s)"
  by (simp add: to_upper_def drop_map)

lemma upper_char_id: "\<not> is_lower c \<Longrightarrow> upper_char c = c"
  by (simp add: upper_char_def)

lemma digits_only_digits: "list_all is_digit (digits_only s)"
  by (simp add: digits_only_def list_all_iff)

lemma digits_only_idem [simp]: "digits_only (digits_only s) = digits_only s"
  by (simp add: digits_only_def)

lemma digits_only_id: "list_all is_digit s \<Longrightarrow> digits_only s = s"
  by (simp add: digits_only_def list_all_iff)

lemma dropWhile_all_false: "(\<And>c. c \<in> set s \<Longrightarrow> \<not> P c) \<Longrightarrow> dropWhile P s = s"
  by (cases s) auto

lemma trim_id: "(\<And>c. c \<in> set s \<Longrightarrow> \<not> is_space c) \<Longrightarrow> trim s = s"
  unfolding trim_def by (subst dropWhile_all_false, simp)+ simp

lemma length_last_chars: "length (last_chars n s) = min n (length s)"
  by (simp add: last_chars_def)

section \<open>Tables\<close>

text \<open>
  A table is the list of its rows. \<open>find_first\<close>, \<open>update_many\<close> and \<open>count_rows\<close> are
  the client calls \<^verbatim>\<open>findFirst\<close>, \<^verbatim>\<open>updateMany\<close> and \<^verbatim>\<open>count\<close> with the
  \<^verbatim>\<open>where\<close> clause as a predicate; \<open>update_many\<close> also returns the number of rows hit.
\<close>

definition find_first :: "('r \<Rightarrow> bool) \<Rightarrow> 'r list \<Rightarrow> 'r option" where
  "find_first p rs = List.find p rs"

definition update_many :: "('r \<Rightarrow> bool) \<Rightarrow> ('r \<Rightarrow> 'r) \<Rightarrow> 'r list \<Rightarrow> 'r list \<times> nat" where
  "update_many p f rs = (List.map (\<lambda>r. if p r then f r else r) rs, length (filter p rs))"

definition count_rows :: "('r \<Rightarrow> bool) \<Rightarrow> 'r list \<Rightarrow> nat" where
  "count_rows p rs = length (filter p rs)"

lemma find_first_SomeD: "find_first p rs = Some r \<Longrightarrow> r \<in> set rs \<and> p r"
  by (auto simp: find_first_def find_Some_iff)

lemma find_first_None [row_simps]: "find_first p rs = None \<longleftrightarrow> (\<forall>r \<in> set rs. \<not> p r)"
  by (auto simp: find_first_def find_None_iff)

lemma find_first_Nil [simp]: "find_first p [] = None"
  by (simp add: find_first_def)

lemma find_first_Cons [simp]: "find_first p (r # rs) = (if p r then Some r else find_first p rs)"
  by (simp add: find_first_def)

lemma set_update_many [row_simps]: "set (fst (update_many p f rs)) = (\<lambda>r. if p r then f r else r) ` set rs"
  by (auto simp: update_many_def)

lemma update_many_none [row_simps]: "snd (update_many p f rs) = 0 \<longleftrightarrow> (\<forall>r \<in> set rs. \<not> p r)"
  by (auto simp: update_many_def filter_empty_conv)

lemma update_many_idle: "(\<And>r. r \<in> set rs \<Longrightarrow> \<not> p r) \<Longrightarrow> fst (update_many p f rs) = rs"
  by (simp add: update_many_def map_idI)

lemma length_update_many [row_simps]: "length (fst (update_many p f rs)) = length rs"
  by (simp add: update_many_def)

text \<open>
  The contract the services rely on for a conditional \<^verbatim>\<open>updateMany\<close>: it is an atomic
  test and set over the rows of the table.
\<close>

locale row_store =
  fixes rows :: "'t \<Rightarrow> 'r list"
    and upd :: "('r \<Rightarrow> bool) \<Rightarrow> ('r \<Rightarrow> 'r) \<Rightarrow> 't \<Rightarrow> 't \<times> nat"
  assumes rows_upd: "rows (fst (upd p f t)) = List.map (\<lambda>r. if p r then f r else r) (rows t)"
    and upd_count: "snd (upd p f t) = length (filter p (rows t))"
begin

text \<open>A write that leaves its own \<^verbatim>\<open>where\<close> clause cannot win twice.\<close>

lemma second_loses:
  assumes "\<And>r. p r \<Longrightarrow> \<not> p (f r)"
  shows "snd (upd p g (fst (upd p f t))) = 0"
  using assms by (auto simp: rows_upd upd_count filter_empty_conv)

text \<open>The same between two different writes, when the first leaves nothing for the second.\<close>

lemma shut_out:
  assumes "\<And>r. r \<in> set (rows t) \<Longrightarrow> p r \<Longrightarrow> \<not> q (f r)" and "\<And>r. r \<in> set (rows t) \<Longrightarrow> \<not> p r \<Longrightarrow> \<not> q r"
  shows "snd (upd q g (fst (upd p f t))) = 0"
  using assms by (auto simp: rows_upd upd_count filter_empty_conv)

lemma zero_iff: "snd (upd p f t) = 0 \<longleftrightarrow> (\<forall>r \<in> set (rows t). \<not> p r)"
  by (auto simp: upd_count filter_empty_conv)

lemma zero_unchanged: "snd (upd p f t) = 0 \<Longrightarrow> rows (fst (upd p f t)) = rows t"
  by (auto simp: rows_upd zero_iff map_idI)

lemma keeps_invariant:
  assumes "\<And>r. r \<in> set (rows t) \<Longrightarrow> I r" and "\<And>r. p r \<Longrightarrow> I r \<Longrightarrow> I (f r)"
  shows "r \<in> set (rows (fst (upd p f t))) \<Longrightarrow> I r"
  using assms by (auto simp: rows_upd)

lemma other_rows_kept:
  assumes "r \<in> set (rows t)" and "\<not> p r"
  shows "r \<in> set (rows (fst (upd p f t)))"
  using assms by (force simp: rows_upd)

end

interpretation tbl: row_store "\<lambda>t. t" update_many
  by unfold_locales (simp_all add: update_many_def)

section \<open>Lists\<close>

lemma find_map_key:
  assumes "\<And>r. k (f r) = k r"
  shows "List.find (\<lambda>r. k r = x) (List.map f rs) = map_option f (List.find (\<lambda>r. k r = x) rs)"
  using assms by (induction rs) auto

lemma distinct_map_key:
  assumes "\<And>r. k (f r) = k r"
  shows "List.map k (List.map f rs) = List.map k rs"
  using assms by simp

text \<open>Sorting the images of rows by a key of the rows.\<close>

lemma sort_key_map:
  assumes "\<And>x. g (f x) = h x"
  shows "sort_key g (map f xs) = map f (sort_key h xs)"
proof -
  have "insort_key g (f x) (map f ys) = map f (insort_key h x ys)" for x ys
    using assms by (induction ys) auto
  then show ?thesis by (induction xs) auto
qed

end
