(* ===== verification/Case_Number.thy ===== *)
theory Case_Number
  imports Prelude
begin

text \<open>
  \<^verbatim>\<open>src/src/domain/caseNumber.ts\<close> and \<^verbatim>\<open>src/src/utils/phone.util.ts\<close>: the public
  case number (its alphabet, validation, normalisation and generation) and the
  normalisation of phone numbers. The generator's random draws are a parameter: the
  \<open>k\<close>-th call of \<^verbatim>\<open>crypto.randomInt(0, 32)\<close> returns \<open>draw k\<close>.
\<close>

section \<open>Case numbers\<close>

definition ALPHABET :: string where
  "ALPHABET = ''ABCDEFGHJKLMNPQRSTUVWXYZ23456789''"

definition in_alphabet :: "char \<Rightarrow> bool" where
  "in_alphabet c \<longleftrightarrow> c \<in> set ALPHABET"

text \<open>\<^verbatim>\<open>/^HPX-[alphabet]{4}-[alphabet]{4}$/\<close>\<close>
definition case_number_regex :: "string \<Rightarrow> bool" where
  "case_number_regex s \<longleftrightarrow>
     length s = 13 \<and> take 4 s = ''HPX-'' \<and>
     list_all in_alphabet (take 4 (drop 4 s)) \<and> take 1 (drop 8 s) = ''-'' \<and>
     list_all in_alphabet (drop 9 s)"

definition isValidCaseNumber :: "string \<Rightarrow> bool" where
  "isValidCaseNumber value = case_number_regex (to_upper value)"

definition is_upper_or_digit :: "char \<Rightarrow> bool" where
  "is_upper_or_digit c \<longleftrightarrow> is_upper c \<or> is_digit c"

definition normaliseCaseNumber :: "string \<Rightarrow> string" where
  "normaliseCaseNumber raw =
     (let stripped = filter is_upper_or_digit (to_upper raw);
          body = (if starts_with ''HPX'' stripped then drop 3 stripped else stripped);
          seg1 = take 4 body;
          seg2 = take 4 (drop 4 body)
      in if seg1 = [] then ''HPX''
         else if seg2 = [] then ''HPX-'' @ seg1
         else ''HPX-'' @ seg1 @ ''-'' @ seg2)"

text \<open>
  \<^verbatim>\<open>ALPHABET[i]\<close> is undefined out of range and \<^verbatim>\<open>join('')\<close> renders that as the
  empty string.
\<close>
definition alphabet_at :: "nat \<Rightarrow> string" where
  "alphabet_at i = (if i < length ALPHABET then [ALPHABET ! i] else [])"

definition case_seg :: "(nat \<Rightarrow> nat) \<Rightarrow> nat \<Rightarrow> nat \<Rightarrow> string" where
  "case_seg draw from n = concat (List.map (\<lambda>k. alphabet_at (draw (from + k))) [0..<n])"

definition generateCaseNumber :: "(nat \<Rightarrow> nat) \<Rightarrow> string" where
  "generateCaseNumber draw = ''HPX-'' @ case_seg draw 0 4 @ ''-'' @ case_seg draw 4 4"

definition phoneLast4 :: "string \<Rightarrow> string" where
  "phoneLast4 phone = last_chars 4 (digits_only phone)"

definition normalisePhone :: "string \<Rightarrow> string" where
  "normalisePhone phone = digits_only phone"

section \<open>Phone numbers of leads\<close>

definition normalizePhone :: "string option \<Rightarrow> string option" where
  "normalizePhone input =
     (case input of None \<Rightarrow> None
      | Some s \<Rightarrow> if s = [] then None else
         (let d0 = digits_only s;
              digits = (if length d0 = 12 \<and> starts_with ''91'' d0 then drop 2 d0 else d0)
          in if 6 \<le> length digits then Some digits else None))"

definition isPhoneLikeTerm :: "string \<Rightarrow> bool" where
  "isPhoneLikeTerm term = (6 \<le> length (digits_only term))"

text \<open>
  The \<^verbatim>\<open>where\<close> fragment of \<^verbatim>\<open>phoneSearchCondition\<close>: the tenant and the normalised
  number an index lookup compares with; \<open>None\<close> is the code's \<^verbatim>\<open>null\<close>.
\<close>
definition phoneSearchCondition :: "string \<Rightarrow> string \<Rightarrow> (string \<times> string) option" where
  "phoneSearchCondition term tenantId =
     (if \<not> isPhoneLikeTerm term then None
      else case normalizePhone (Some term) of None \<Rightarrow> None
           | Some normalized \<Rightarrow> if normalized = [] then None else Some (tenantId, normalized))"

section \<open>Lemmas\<close>

lemma alphabet_upper_or_digit: "in_alphabet c \<Longrightarrow> is_upper_or_digit c \<and> \<not> is_lower c \<and> c \<noteq> CHR ''-''"
  by (auto simp: in_alphabet_def ALPHABET_def is_upper_or_digit_def js_defs)

lemma alphabet_upper [simp]: "in_alphabet c \<Longrightarrow> upper_char c = c"
  by (simp add: alphabet_upper_or_digit upper_char_id)

lemma length_alphabet [simp]: "length ALPHABET = 32"
  by (simp add: ALPHABET_def)

lemma distinct_alphabet: "distinct ALPHABET"
  by (simp add: ALPHABET_def)

lemma alphabet_at_in: "i < 32 \<Longrightarrow> \<exists>c. alphabet_at i = [c] \<and> in_alphabet c"
  by (auto simp: alphabet_at_def in_alphabet_def)

lemma alphabet_at_inj: "i < 32 \<Longrightarrow> j < 32 \<Longrightarrow> alphabet_at i = alphabet_at j \<Longrightarrow> i = j"
  using distinct_alphabet by (simp add: alphabet_at_def nth_eq_iff_index_eq)

lemma case_seg_4:
  "case_seg draw m 4 = alphabet_at (draw m) @ alphabet_at (draw (m + 1)) @ alphabet_at (draw (m + 2)) @ alphabet_at (draw (m + 3))"
  by (simp add: case_seg_def upt_rec numeral_eq_Suc)

lemma case_seg_length:
  assumes "\<forall>k. draw k < 32"
  shows "length (case_seg draw m 4) = 4 \<and> list_all in_alphabet (case_seg draw m 4)"
proof -
  have "\<forall>k. \<exists>c. alphabet_at (draw k) = [c] \<and> in_alphabet c"
    using assms alphabet_at_in by blast
  then obtain c where "\<forall>k. alphabet_at (draw k) = [c k] \<and> in_alphabet (c k)"
    by metis
  then show ?thesis by (simp add: case_seg_4)
qed

lemma case_number_shape:
  "case_number_regex s \<longleftrightarrow>
     (\<exists>a b. s = ''HPX-'' @ a @ ''-'' @ b \<and> length a = 4 \<and> length b = 4
        \<and> list_all in_alphabet a \<and> list_all in_alphabet b)" (is "?L \<longleftrightarrow> ?R")
proof
  assume L: ?L
  have s0: "s = take 4 s @ drop 4 s" and s4: "drop 4 s = take 4 (drop 4 s) @ drop 4 (drop 4 s)"
    and s8: "drop 8 s = take 1 (drop 8 s) @ drop 1 (drop 8 s)"
    by (simp_all only: append_take_drop_id)
  from s4 have s4': "drop 4 s = take 4 (drop 4 s) @ drop 8 s" by (simp only: drop_drop) simp
  from s8 have s8': "drop 8 s = ''-'' @ drop 9 s"
    using L by (simp only: drop_drop case_number_regex_def) simp
  have "s = ''HPX-'' @ take 4 (drop 4 s) @ ''-'' @ drop 9 s"
    using s0 s4' s8' L unfolding case_number_regex_def by metis
  moreover have "length (take 4 (drop 4 s)) = 4" "length (drop 9 s) = 4"
    using L by (simp_all add: case_number_regex_def)
  ultimately show ?R
    using L unfolding case_number_regex_def by blast
next
  assume ?R
  then show ?L by (auto simp: case_number_regex_def)
qed

lemma filter_alphabet [simp]:
  "list_all in_alphabet a \<Longrightarrow> filter is_upper_or_digit a = a"
  by (simp add: list_all_iff alphabet_upper_or_digit filter_id_conv)

lemma prefix_chars [simp]:
  "is_upper_or_digit CHR ''H''" "is_upper_or_digit CHR ''P''" "is_upper_or_digit CHR ''X''"
  "\<not> is_upper_or_digit CHR ''-''"
  "upper_char CHR ''H'' = CHR ''H''" "upper_char CHR ''P'' = CHR ''P''"
  "upper_char CHR ''X'' = CHR ''X''" "upper_char CHR ''-'' = CHR ''-''"
  by (simp_all add: is_upper_or_digit_def js_defs)

lemma to_upper_Cons [simp]: "to_upper (c # s) = upper_char c # to_upper s" "to_upper [] = []"
  by (simp_all add: to_upper_def)

lemma to_upper_alphabet [simp]: "list_all in_alphabet a \<Longrightarrow> to_upper a = a"
  by (simp add: to_upper_def list_all_iff map_idI)

definition clean :: "string \<Rightarrow> bool" where
  "clean s \<longleftrightarrow> (\<forall>c \<in> set s. is_upper_or_digit c)"

lemma clean_filter: "clean (filter is_upper_or_digit s)"
  by (simp add: clean_def)

lemma clean_upper: "clean s \<Longrightarrow> to_upper s = s"
  unfolding to_upper_def clean_def
  by (rule map_idI, rule upper_char_id) (auto simp: is_upper_or_digit_def js_defs)

lemma clean_filter_id: "clean s \<Longrightarrow> filter is_upper_or_digit s = s"
  by (simp add: clean_def)

lemma clean_take: "clean s \<Longrightarrow> clean (take n s)" and clean_drop: "clean s \<Longrightarrow> clean (drop n s)"
  by (auto simp: clean_def dest: in_set_takeD in_set_dropD)

text \<open>The three renderings of a body of upper-case letters and digits.\<close>

definition case_body :: "string \<Rightarrow> string" where
  "case_body b = (if take 4 b = [] then ''HPX''
     else if take 4 (drop 4 b) = [] then ''HPX-'' @ take 4 b
     else ''HPX-'' @ take 4 b @ ''-'' @ take 4 (drop 4 b))"

lemma normalise_is_body:
  "\<exists>b. clean b \<and> normaliseCaseNumber raw = case_body b"
  unfolding normaliseCaseNumber_def Let_def case_body_def
  by (intro exI conjI) (auto simp: clean_filter clean_drop)

lemma strip_body:
  assumes "clean b"
  shows "filter is_upper_or_digit (to_upper (case_body b)) = ''HPX'' @ take 4 b @ take 4 (drop 4 b)"
  using clean_take [OF assms, of 4] clean_take [OF clean_drop [OF assms, of 4], of 4]
  by (auto simp: case_body_def clean_upper clean_filter_id)

lemma normalise_stripped:
  assumes "filter is_upper_or_digit (to_upper raw) = ''HPX'' @ t"
  shows "normaliseCaseNumber raw = case_body t"
  using assms by (simp add: normaliseCaseNumber_def case_body_def starts_with_def)

lemma case_body_take: "case_body (take 4 b @ take 4 (drop 4 b)) = case_body b"
proof (cases "length b \<le> 4")
  case True
  then show ?thesis by (simp add: case_body_def)
next
  case False
  then have "take 4 (take 4 b @ take 4 (drop 4 b)) = take 4 b"
    "take 4 (drop 4 (take 4 b @ take 4 (drop 4 b))) = take 4 (drop 4 b)" by simp_all
  then show ?thesis by (simp only: case_body_def)
qed

lemma normalise_body: "clean b \<Longrightarrow> normaliseCaseNumber (case_body b) = case_body b"
  using normalise_stripped [OF strip_body, of b] by (simp only: case_body_take)

section \<open>Properties\<close>

text \<open>
  a generated case number passes the validator, for every sequence of draws inside the
  range the random source promises.
\<close>

theorem generate_valid:
  assumes "\<forall>k. draw k < 32"
  shows "isValidCaseNumber (generateCaseNumber draw)"
  using case_seg_length [OF assms, of 0] case_seg_length [OF assms, of 4]
  unfolding isValidCaseNumber_def generateCaseNumber_def case_number_shape
  by (rule_tac exI [of _ "case_seg draw 0 4"], rule_tac exI [of _ "case_seg draw 4 4"]) simp

theorem generate_valid_witness: "isValidCaseNumber (generateCaseNumber (\<lambda>k. k mod 32))"
  by (rule generate_valid) simp

text \<open>
  normalisation recovers the canonical form of a valid case number from any spelling
  that has the same letters and digits, whatever its case, dashes and spaces.
\<close>

theorem normalise_recovers:
  assumes "isValidCaseNumber v"
    and "filter is_upper_or_digit (to_upper raw) = filter is_upper_or_digit (to_upper v)"
  shows "normaliseCaseNumber raw = to_upper v"
proof -
  from assms(1) obtain a b where v: "to_upper v = ''HPX-'' @ a @ ''-'' @ b"
    and ab: "length a = 4" "length b = 4" "list_all in_alphabet a" "list_all in_alphabet b"
    by (auto simp: isValidCaseNumber_def case_number_shape)
  have "filter is_upper_or_digit (to_upper raw) = ''HPX'' @ a @ b"
    using assms(2) v ab by simp
  with v ab show ?thesis
    by (auto simp: normaliseCaseNumber_def starts_with_def)
qed

theorem normalise_recovers_witness:
  "normaliseCaseNumber ''hpx abcd 2345'' = to_upper ''HPX-ABCD-2345''"
proof (rule normalise_recovers)
  show "isValidCaseNumber ''HPX-ABCD-2345''" by code_simp
  show "filter is_upper_or_digit (to_upper ''hpx abcd 2345'')
      = filter is_upper_or_digit (to_upper ''HPX-ABCD-2345'')" by code_simp
qed

text \<open>normalisation of any input is stable under repetition.\<close>

theorem normalise_idempotent:
  "normaliseCaseNumber (normaliseCaseNumber raw) = normaliseCaseNumber raw"
  using normalise_is_body [of raw] normalise_body by auto

text \<open>
  distinct draws give distinct case numbers, so each of the 32 to the power 8 outcomes
  of the eight draws has a number of its own.
\<close>

theorem generate_injective:
  assumes "\<forall>k. draw k < 32" and "\<forall>k. draw' k < 32"
    and "generateCaseNumber draw = generateCaseNumber draw'" and "k < 8"
  shows "draw k = draw' k"
proof -
  have l: "length (alphabet_at (draw k)) = 1" "length (alphabet_at (draw' k)) = 1" for k
    using assms(1,2) by (simp_all add: alphabet_at_def)
  have "case_seg draw 0 4 = case_seg draw' 0 4 \<and> case_seg draw 4 4 = case_seg draw' 4 4"
    using assms(3) case_seg_length [OF assms(1)] case_seg_length [OF assms(2)]
    by (simp add: generateCaseNumber_def append_eq_append_conv)
  then have "\<forall>j \<in> {0,1,2,3,4,5,6,7}. alphabet_at (draw j) = alphabet_at (draw' j)"
    unfolding case_seg_4 using l by (simp add: append_eq_append_conv numeral_2_eq_2)
  moreover have "k \<in> {0,1,2,3,4,5,6,7}" using assms(4) by auto
  ultimately show ?thesis
    using alphabet_at_inj assms(1,2) by blast
qed

theorem generate_injective_witness: "(\<lambda>k::nat. k mod 32) 5 = 5"
  using generate_injective [of "\<lambda>k. k mod 32" "\<lambda>k. k mod 32" 5] by simp

text \<open>
  a normalised phone number is its own normal form: it has only digits, at least six of
  them, and never keeps the country prefix of a twelve-digit number.
\<close>

theorem normalizePhone_stable:
  assumes "normalizePhone input = Some p"
  shows "list_all is_digit p \<and> 6 \<le> length p
     \<and> \<not> (length p = 12 \<and> starts_with ''91'' p) \<and> normalizePhone (Some p) = Some p"
proof -
  from assms obtain s where s: "input = Some s" by (cases input) (auto simp: normalizePhone_def)
  let ?d = "digits_only s"
  have p: "p = (if length ?d = 12 \<and> starts_with ''91'' ?d then drop 2 ?d else ?d)" "6 \<le> length p"
    using assms s by (auto simp: normalizePhone_def Let_def split: if_splits)
  have d: "list_all is_digit p"
    using p(1) digits_only_digits [of s] by (auto simp: list_all_iff dest: in_set_dropD)
  moreover have n: "\<not> (length p = 12 \<and> starts_with ''91'' p)"
    using p(1) by (auto split: if_splits)
  ultimately show ?thesis
    using p(2) by (auto simp: normalizePhone_def digits_only_id Let_def)
qed

theorem normalizePhone_stable_witness:
  "normalizePhone (Some ''9876543210'') = Some ''9876543210''"
proof -
  have h: "normalizePhone (Some ''+91 98765-43210'') = Some ''9876543210''" by code_simp
  show ?thesis using normalizePhone_stable [OF h] by simp
qed

end
