(* ===== verification/Mandate_Domain.thy ===== *)
theory Mandate_Domain
  imports Prelude "HOL-Library.Word"
begin

text \<open>
  \<^verbatim>\<open>src/src/domain/mandate.ts\<close>: the upload policy of mandates, file-name sanitising and
  storage keys, the magic-byte check, masking of contact data and the status machine of a
  mandate request. The hash of an upload token is a parameter.
\<close>

section \<open>Policy\<close>

definition TOKEN_EXPIRY_DAYS :: int where "TOKEN_EXPIRY_DAYS = 7"
definition PRESIGNED_URL_SECONDS :: int where "PRESIGNED_URL_SECONDS = 900"
definition MAX_FILE_SIZE_BYTES :: int where "MAX_FILE_SIZE_BYTES = 5 * 1024 * 1024"
definition ALLOWED_CONTENT_TYPES :: "string list" where
  "ALLOWED_CONTENT_TYPES = [''application/pdf'', ''image/jpeg'', ''image/png'']"

definition hashUploadToken :: "(string \<Rightarrow> string) \<Rightarrow> string \<Rightarrow> string" where
  "hashUploadToken sha256 token = sha256 token"

definition tokenExpiry :: "int \<Rightarrow> int" where
  "tokenExpiry from = from + TOKEN_EXPIRY_DAYS * 24 * 60 * 60000"

definition isTokenExpired :: "int \<Rightarrow> int \<Rightarrow> bool" where
  "isTokenExpired now expiresAt \<longleftrightarrow> expiresAt \<le> now"

section \<open>File names and storage keys\<close>

text \<open>The class \<^verbatim>\<open>[\x00/\\:*?"<>|]\<close>.\<close>
definition unsafe_char :: "char \<Rightarrow> bool" where
  "unsafe_char c \<longleftrightarrow> code c \<in> {0, 47, 92, 58, 42, 63, 34, 60, 62, 124}"

definition dot :: char where "dot = CHR ''.''"

text \<open>\<^verbatim>\<open>replace(/\.{2,}/g, '.')\<close>: every run of dots becomes one dot.\<close>
fun collapse_dots :: "string \<Rightarrow> string" where
  "collapse_dots (a # b # s) =
     (if a = dot \<and> b = dot then collapse_dots (b # s) else a # collapse_dots (b # s))"
| "collapse_dots s = s"

definition sanitizeFileName :: "string \<Rightarrow> string" where
  "sanitizeFileName name =
     take 255 (collapse_dots (List.map (\<lambda>c. if unsafe_char c then CHR ''_'' else c) name))"

definition storage_key :: "string \<Rightarrow> string \<Rightarrow> string \<Rightarrow> string \<Rightarrow> string \<Rightarrow> string" where
  "storage_key area a b c f = area @ ''/'' @ a @ ''/'' @ b @ ''/'' @ c @ ''/'' @ f"

definition mandateStagingKey :: "string \<Rightarrow> string \<Rightarrow> string \<Rightarrow> string \<Rightarrow> string" where
  "mandateStagingKey tenantId requestId uploadId fileName =
     storage_key ''mandate-staging'' tenantId requestId uploadId (sanitizeFileName fileName)"

definition mandateFinalKey :: "string \<Rightarrow> string \<Rightarrow> string \<Rightarrow> string \<Rightarrow> string" where
  "mandateFinalKey tenantId requestId uploadId fileName =
     storage_key ''mandate-uploads'' tenantId requestId uploadId (sanitizeFileName fileName)"

definition mandateFirmStagingKey :: "string \<Rightarrow> string \<Rightarrow> string \<Rightarrow> string \<Rightarrow> string" where
  "mandateFirmStagingKey tenantId caseId uploadId fileName =
     storage_key ''mandate-firm-staging'' tenantId caseId uploadId (sanitizeFileName fileName)"

definition isAllowedContentType :: "string \<Rightarrow> bool" where
  "isAllowedContentType contentType \<longleftrightarrow> contentType \<in> set ALLOWED_CONTENT_TYPES"

section \<open>Magic bytes\<close>

type_synonym bytes = "8 word list"

definition MAGIC_BYTES :: "string \<Rightarrow> (bytes \<Rightarrow> bool) option" where
  "MAGIC_BYTES contentType =
     (if contentType = ''application/pdf''
      then Some (\<lambda>b. 5 \<le> length b \<and> b ! 0 = 0x25 \<and> b ! 1 = 0x50 \<and> b ! 2 = 0x44 \<and> b ! 3 = 0x46 \<and> b ! 4 = 0x2d)
      else if contentType = ''image/jpeg''
      then Some (\<lambda>b. 3 \<le> length b \<and> b ! 0 = 0xff \<and> b ! 1 = 0xd8 \<and> b ! 2 = 0xff)
      else if contentType = ''image/png''
      then Some (\<lambda>b. 4 \<le> length b \<and> b ! 0 = 0x89 \<and> b ! 1 = 0x50 \<and> b ! 2 = 0x4e \<and> b ! 3 = 0x47)
      else None)"

definition matchesMagicBytes :: "string \<Rightarrow> bytes \<Rightarrow> bool" where
  "matchesMagicBytes contentType b =
     (case MAGIC_BYTES contentType of None \<Rightarrow> False | Some check \<Rightarrow> check b)"

section \<open>Masking\<close>

text \<open>
  The two first parts of \<^verbatim>\<open>email.split('@')\<close>; the second is missing when there is no
  at sign. \<^verbatim>\<open>local[0]\<close> of an empty local part is undefined, which the template
  renders as that word.
\<close>
fun split_at :: "string \<Rightarrow> string \<times> string option" where
  "split_at [] = ([], None)"
| "split_at (c # s) =
     (if c = CHR ''@'' then ([], Some (takeWhile (\<lambda>x. x \<noteq> CHR ''@'') s))
      else case split_at s of (l, d) \<Rightarrow> (c # l, d))"

definition maskEmail :: "string \<Rightarrow> string" where
  "maskEmail email =
     (case split_at email of (loc, domain_part) \<Rightarrow>
        if domain_part = None \<or> domain_part = Some [] then ''***''
        else let visible = (if length loc \<le> 2 then (case loc of [] \<Rightarrow> ''undefined'' | c # _ \<Rightarrow> [c]) else take 2 loc)
             in visible @ ''***@'' @ the domain_part)"

definition maskPhone :: "string \<Rightarrow> string" where
  "maskPhone phone = (if length phone \<le> 4 then ''****'' else ''****'' @ last_chars 4 phone)"

section \<open>Status machine\<close>

datatype MandateRequestStatus =
    MR_PENDING_UPLOAD | MR_UPLOADED | MR_VERIFIED | MR_REJECTED | MR_EXPIRED | MR_SUPERSEDED

fun VALID_TRANSITIONS :: "MandateRequestStatus \<Rightarrow> MandateRequestStatus list" where
  "VALID_TRANSITIONS MR_PENDING_UPLOAD = [MR_UPLOADED, MR_EXPIRED, MR_SUPERSEDED]"
| "VALID_TRANSITIONS MR_UPLOADED = [MR_VERIFIED, MR_REJECTED, MR_SUPERSEDED]"
| "VALID_TRANSITIONS MR_VERIFIED = []"
| "VALID_TRANSITIONS MR_REJECTED = [MR_SUPERSEDED]"
| "VALID_TRANSITIONS MR_EXPIRED = [MR_SUPERSEDED]"
| "VALID_TRANSITIONS MR_SUPERSEDED = []"

definition canTransitionMandate :: "MandateRequestStatus \<Rightarrow> MandateRequestStatus \<Rightarrow> bool" where
  "canTransitionMandate from to \<longleftrightarrow> to \<in> set (VALID_TRANSITIONS from)"

text \<open>
  A status machine whose moves climb a rank. A run is a list of statuses in which each
  follows from the one before; it never visits a status twice and is no longer than the
  top rank allows.
\<close>

locale ranked_machine =
  fixes move :: "'s \<Rightarrow> 's \<Rightarrow> bool"
    and rank :: "'s \<Rightarrow> nat"
    and top :: nat
  assumes move_climbs: "move a b \<Longrightarrow> rank a < rank b"
    and rank_le: "rank a \<le> top"
begin

lemma run_sorted:
  "successively move (a # as) \<Longrightarrow> (\<forall>b \<in> set as. rank a < rank b) \<and> length as \<le> top - rank a"
proof (induction as arbitrary: a)
  case Nil
  show ?case by simp
next
  case (Cons b bs)
  then have ab: "rank a < rank b" and r: "\<forall>c \<in> set bs. rank b < rank c" "length bs \<le> top - rank b"
    by (auto simp: move_climbs)
  then show ?case using rank_le [of b] by (auto dest: less_trans)
qed

lemma run_bounded: "successively move as \<Longrightarrow> distinct as \<and> length as \<le> top + 1"
proof (induction as)
  case Nil
  show ?case by simp
next
  case (Cons a as)
  then have "successively move as" by (cases as) auto
  with Cons run_sorted [of a as] show ?case by force
qed

end

fun mandate_rank :: "MandateRequestStatus \<Rightarrow> nat" where
  "mandate_rank MR_PENDING_UPLOAD = 0"
| "mandate_rank MR_UPLOADED = 1"
| "mandate_rank MR_EXPIRED = 2"
| "mandate_rank MR_VERIFIED = 2"
| "mandate_rank MR_REJECTED = 2"
| "mandate_rank MR_SUPERSEDED = 3"

interpretation mandate: ranked_machine canTransitionMandate mandate_rank 3
proof
  show "canTransitionMandate a b \<Longrightarrow> mandate_rank a < mandate_rank b" for a b
    by (cases a) (auto simp: canTransitionMandate_def)
  show "mandate_rank a \<le> 3" for a by (cases a) simp_all
qed

section \<open>Lemmas on file names and keys\<close>

lemma set_collapse: "set (collapse_dots s) \<subseteq> set s"
  by (induction s rule: collapse_dots.induct) (auto split: if_splits)

lemma collapse_head: "s \<noteq> [] \<Longrightarrow> \<exists>t. collapse_dots s = hd s # t"
  by (induction s rule: collapse_dots.induct) auto

definition no_dotdot :: "string \<Rightarrow> bool" where
  "no_dotdot s \<longleftrightarrow> successively (\<lambda>a b. \<not> (a = dot \<and> b = dot)) s"

lemma no_dotdot_collapse: "no_dotdot (collapse_dots s)"
proof (induction s rule: collapse_dots.induct)
  case (1 a b s)
  obtain t where t: "collapse_dots (b # s) = b # t"
    using collapse_head [of "b # s"] by auto
  with 1 show ?case by (auto simp: no_dotdot_def)
qed (simp_all add: no_dotdot_def)

lemma collapse_id: "no_dotdot s \<Longrightarrow> collapse_dots s = s"
  by (induction s rule: collapse_dots.induct) (auto simp: no_dotdot_def)

lemma no_dotdot_take: "no_dotdot s \<Longrightarrow> no_dotdot (take n s)"
proof -
  assume "no_dotdot s"
  then have "no_dotdot (take n s @ drop n s)" by simp
  then show ?thesis
    unfolding no_dotdot_def by (simp only: successively_append_iff)
qed

lemma underscore_safe: "\<not> unsafe_char CHR ''_''"
  by (simp add: unsafe_char_def)

lemma sanitize_clean:
  assumes "c \<in> set (sanitizeFileName s)"
  shows "\<not> unsafe_char c"
proof -
  let ?t = "List.map (\<lambda>c. if unsafe_char c then CHR ''_'' else c) s"
  have "set (take 255 (collapse_dots ?t)) \<subseteq> set ?t"
    by (rule order_trans [OF set_take_subset set_collapse])
  with assms have "c \<in> set ?t" unfolding sanitizeFileName_def by (rule rev_subsetD)
  then obtain d where "c = (if unsafe_char d then CHR ''_'' else d)" unfolding set_map by (rule imageE)
  with underscore_safe show ?thesis by (cases "unsafe_char d") simp_all
qed

lemma sanitize_no_dotdot: "no_dotdot (sanitizeFileName s)"
  by (simp add: sanitizeFileName_def no_dotdot_take no_dotdot_collapse)

lemma sanitize_length: "length (sanitizeFileName s) \<le> 255"
  by (simp add: sanitizeFileName_def)

lemma sanitize_id:
  assumes "\<And>c. c \<in> set s \<Longrightarrow> \<not> unsafe_char c" and "no_dotdot s" and "length s \<le> 255"
  shows "sanitizeFileName s = s"
proof -
  have "List.map (\<lambda>c. if unsafe_char c then CHR ''_'' else c) s = s"
    using assms(1) by (simp add: map_idI)
  with assms(2,3) show ?thesis by (simp add: sanitizeFileName_def collapse_id)
qed

lemma slash_unsafe: "unsafe_char CHR ''/''"
  by (simp add: unsafe_char_def)

definition no_slash :: "string \<Rightarrow> bool" where
  "no_slash s \<longleftrightarrow> CHR ''/'' \<notin> set s"

lemma no_slash_sanitize [simp]: "no_slash (sanitizeFileName f)"
  using sanitize_clean slash_unsafe unfolding no_slash_def by blast

lemma split_slash:
  assumes "no_slash a" "no_slash a'" "a @ CHR ''/'' # s = a' @ CHR ''/'' # s'"
  shows "a = a' \<and> s = s'"
proof -
  have "takeWhile (\<lambda>c. c \<noteq> CHR ''/'') (a @ CHR ''/'' # s) = a" if "no_slash a" for a s
    using that by (induction a) (auto simp: no_slash_def)
  from this [OF assms(1), of s] this [OF assms(2), of s'] assms(3) have "a = a'" by simp
  with assms(3) show ?thesis by simp
qed

lemma storage_key_eq_iff:
  assumes "no_slash r" "no_slash a" "no_slash b" "no_slash c"
    and "no_slash r'" "no_slash a'" "no_slash b'" "no_slash c'"
  shows "storage_key r a b c f = storage_key r' a' b' c' f'
    \<longleftrightarrow> r = r' \<and> a = a' \<and> b = b' \<and> c = c' \<and> f = f'"
proof
  assume "storage_key r a b c f = storage_key r' a' b' c' f'"
  then have e: "r @ CHR ''/'' # (a @ CHR ''/'' # (b @ CHR ''/'' # (c @ CHR ''/'' # f)))
      = r' @ CHR ''/'' # (a' @ CHR ''/'' # (b' @ CHR ''/'' # (c' @ CHR ''/'' # f')))"
    by (simp add: storage_key_def)
  note e1 = split_slash [OF assms(1,5) e]
  note e2 = split_slash [OF assms(2,6) conjunct2 [OF e1]]
  note e3 = split_slash [OF assms(3,7) conjunct2 [OF e2]]
  note e4 = split_slash [OF assms(4,8) conjunct2 [OF e3]]
  show "r = r' \<and> a = a' \<and> b = b' \<and> c = c' \<and> f = f'"
    by (intro conjI conjunct1 [OF e1] conjunct1 [OF e2] conjunct1 [OF e3] conjunct1 [OF e4] conjunct2 [OF e4])
qed simp

lemma count_slash_no_slash: "no_slash s \<Longrightarrow> count_list s CHR ''/'' = 0"
  by (simp add: no_slash_def count_list_0_iff)

section \<open>Properties\<close>

text \<open>
  sanitising is stable. The two steps of an upload compute the staging key from the raw
  and from the already sanitised name, so both address the same object.
\<close>

theorem sanitize_idempotent:
  "sanitizeFileName (sanitizeFileName name) = sanitizeFileName name
   \<and> mandateStagingKey t r u (sanitizeFileName name) = mandateStagingKey t r u name
   \<and> mandateFirmStagingKey t k u (sanitizeFileName name) = mandateFirmStagingKey t k u name"
proof -
  have "sanitizeFileName (sanitizeFileName name) = sanitizeFileName name"
    by (rule sanitize_id) (simp_all add: sanitize_clean sanitize_no_dotdot sanitize_length)
  then show ?thesis by (simp add: mandateStagingKey_def mandateFirmStagingKey_def)
qed

text \<open>
  a sanitised name holds no separator, no control or wildcard character and no two
  dots in a row, and fits 255 characters, so it cannot leave its directory.
\<close>

theorem sanitize_safe:
  "length (sanitizeFileName name) \<le> 255
   \<and> \<not> (\<exists>c \<in> set (sanitizeFileName name). unsafe_char c)
   \<and> \<not> (\<exists>p s. sanitizeFileName name = p @ ''..'' @ s)"
proof -
  have "\<not> no_dotdot (p @ ''..'' @ s)" for p s
    by (simp add: no_dotdot_def successively_append_iff dot_def)
  then show ?thesis
    using sanitize_clean sanitize_length sanitize_no_dotdot by metis
qed

text \<open>
  storage keys separate tenants, requests and uploads. With identifiers free of the
  separator, two keys are the same only for the same area, tenant, request, upload and
  sanitised file name, whatever names the clients chose.
\<close>

theorem storage_keys_separate:
  assumes "no_slash t" "no_slash r" "no_slash u" "no_slash t'" "no_slash r'" "no_slash u'"
  shows "(mandateStagingKey t r u f = mandateStagingKey t' r' u' f'
            \<longleftrightarrow> t = t' \<and> r = r' \<and> u = u' \<and> sanitizeFileName f = sanitizeFileName f')
       \<and> (mandateFinalKey t r u f = mandateFinalKey t' r' u' f'
            \<longleftrightarrow> t = t' \<and> r = r' \<and> u = u' \<and> sanitizeFileName f = sanitizeFileName f')
       \<and> mandateStagingKey t r u f \<noteq> mandateFinalKey t' r' u' f'
       \<and> mandateFirmStagingKey t r u f \<noteq> mandateFinalKey t' r' u' f'
       \<and> mandateFirmStagingKey t r u f \<noteq> mandateStagingKey t' r' u' f'"
proof -
  have roots: "no_slash ''mandate-staging''" "no_slash ''mandate-uploads''" "no_slash ''mandate-firm-staging''"
    by (simp_all add: no_slash_def)
  have ne: "''mandate-staging'' \<noteq> ''mandate-uploads''" "''mandate-firm-staging'' \<noteq> ''mandate-uploads''"
    "''mandate-firm-staging'' \<noteq> ''mandate-staging''" by simp_all
  show ?thesis
    unfolding mandateStagingKey_def mandateFinalKey_def mandateFirmStagingKey_def
    using ne by (simp only: storage_key_eq_iff [OF _ assms(1,2,3) _ assms(4,5,6)] roots) blast
qed

theorem storage_keys_separate_witness:
  "mandateStagingKey ''t1'' ''r'' ''u'' ''../../t2/x.pdf'' \<noteq> mandateFinalKey ''t2'' ''r'' ''u'' ''x.pdf''"
  using storage_keys_separate [of "''t1''" "''r''" "''u''" "''t2''" "''r''" "''u''"] by (simp add: no_slash_def)

text \<open>
  file contents match at most one accepted content type, and only an accepted type has
  a signature at all.
\<close>

theorem magic_bytes_disjoint:
  "(matchesMagicBytes ty b \<longrightarrow> isAllowedContentType ty)
   \<and> (matchesMagicBytes ty b \<and> matchesMagicBytes ty' b \<longrightarrow> ty = ty')"
proof -
  have m: "ty = ''application/pdf'' \<and> b ! 0 = 0x25 \<or> ty = ''image/jpeg'' \<and> b ! 0 = 0xff \<or> ty = ''image/png'' \<and> b ! 0 = 0x89"
    if "matchesMagicBytes ty b" for ty
    using that unfolding matchesMagicBytes_def MAGIC_BYTES_def by (simp split: if_splits)
  have "(0x25 :: 8 word) \<noteq> 0xff" "(0x25 :: 8 word) \<noteq> 0x89" "(0xff :: 8 word) \<noteq> 0x89" by simp_all
  with m [of ty] m [of ty'] show ?thesis
    unfolding isAllowedContentType_def ALLOWED_CONTENT_TYPES_def by (metis list.set_intros)
qed

theorem magic_bytes_disjoint_witness:
  "isAllowedContentType ''image/jpeg'' \<and> \<not> matchesMagicBytes ''image/png'' [0xff, 0xd8, 0xff]"
proof -
  have h: "matchesMagicBytes ''image/jpeg'' [0xff, 0xd8, 0xff]"
    by (simp add: matchesMagicBytes_def MAGIC_BYTES_def)
  have "isAllowedContentType ''image/jpeg''"
    using magic_bytes_disjoint [of "''image/jpeg''" "[0xff, 0xd8, 0xff]"] h by blast
  moreover have "matchesMagicBytes ''image/png'' [0xff, 0xd8, 0xff] \<Longrightarrow> ''image/jpeg'' = ''image/png''"
    using magic_bytes_disjoint [of "''image/jpeg''" "[0xff, 0xd8, 0xff]" "''image/png''"] h by blast
  ultimately show ?thesis by auto
qed

text \<open>
  the mandate status machine cannot cycle: every run of allowed transitions visits each
  status once and stops after at most three moves; a verified or superseded request is final.
\<close>

theorem mandate_runs_bounded:
  assumes "successively canTransitionMandate run"
  shows "distinct run \<and> length run \<le> 4
     \<and> (\<forall>s. \<not> canTransitionMandate MR_VERIFIED s \<and> \<not> canTransitionMandate MR_SUPERSEDED s)"
  using mandate.run_bounded [OF assms] by (simp add: canTransitionMandate_def)

theorem mandate_runs_bounded_witness:
  "distinct [MR_PENDING_UPLOAD, MR_UPLOADED, MR_REJECTED, MR_SUPERSEDED]"
  using mandate_runs_bounded [of "[MR_PENDING_UPLOAD, MR_UPLOADED, MR_REJECTED, MR_SUPERSEDED]"]
  by (simp add: canTransitionMandate_def)

text \<open>
  masking an address shows its domain and at most two characters of a non-empty local
  part; an address without a domain is masked entirely.
\<close>

theorem maskEmail_hides:
  assumes "loc \<noteq> []" "CHR ''@'' \<notin> set loc" "dm \<noteq> []" "CHR ''@'' \<notin> set dm"
  shows "maskEmail loc = ''***''
     \<and> (\<exists>v. maskEmail (loc @ ''@'' @ dm) = v @ ''***@'' @ dm \<and> v = take (if length loc \<le> 2 then 1 else 2) loc)"
proof -
  have "split_at (l @ CHR ''@'' # d) = (l, Some d)" if "CHR ''@'' \<notin> set l" "CHR ''@'' \<notin> set d" for l d
    using that by (induction l) (auto simp: takeWhile_eq_all_conv)
  moreover have "split_at l = (l, None)" if "CHR ''@'' \<notin> set l" for l
    using that by (induction l) auto
  ultimately show ?thesis
    using assms by (cases loc) (auto simp: maskEmail_def)
qed

theorem maskEmail_hides_witness: "maskEmail ''alice@x.in'' = ''al***@x.in''"
  using maskEmail_hides [of "''alice''" "''x.in''"] by simp

end
