(* ===== verification/Js_Date.thy ===== *)
theory Js_Date
  imports Prelude
begin

text \<open>
  The UTC part of JavaScript's \<^verbatim>\<open>Date\<close>, as the language defines it, and the pure
  date functions of \<^verbatim>\<open>src/src/services/case-planning.dates.ts\<close> that need only it. A
  date is its time value: milliseconds since the epoch.
\<close>

type_synonym date = int

abbreviation DAY_MS :: int where "DAY_MS \<equiv> 86400000"

definition day_of :: "date \<Rightarrow> int" where
  "day_of t = t div DAY_MS"

section \<open>The proleptic Gregorian calendar\<close>

definition day_from_year :: "int \<Rightarrow> int" where
  "day_from_year y = 365 * (y - 1970) + (y - 1969) div 4 - (y - 1901) div 100 + (y - 1601) div 400"

definition leap :: "int \<Rightarrow> bool" where
  "leap y \<longleftrightarrow> 4 dvd y \<and> (\<not> 100 dvd y \<or> 400 dvd y)"

definition year_of_day :: "int \<Rightarrow> int" where
  "year_of_day d =
     (let y = 1970 + (400 * d) div 146097
      in if d < day_from_year y then y - 1 else if day_from_year (y + 1) \<le> d then y + 1 else y)"

text \<open>Days before month \<open>m\<close> (0 is January, 12 the whole year).\<close>
definition month_start :: "bool \<Rightarrow> int \<Rightarrow> int" where
  "month_start lp m =
     (if m \<le> 0 then 0 else if m = 1 then 31
      else (if lp then 1 else 0) +
        (if m = 2 then 59 else if m = 3 then 90 else if m = 4 then 120 else if m = 5 then 151
         else if m = 6 then 181 else if m = 7 then 212 else if m = 8 then 243 else if m = 9 then 273
         else if m = 10 then 304 else if m = 11 then 334 else 365))"

definition month_in_year :: "bool \<Rightarrow> int \<Rightarrow> int" where
  "month_in_year lp n =
     (if n < month_start lp 1 then 0 else if n < month_start lp 2 then 1
      else if n < month_start lp 3 then 2 else if n < month_start lp 4 then 3
      else if n < month_start lp 5 then 4 else if n < month_start lp 6 then 5
      else if n < month_start lp 7 then 6 else if n < month_start lp 8 then 7
      else if n < month_start lp 9 then 8 else if n < month_start lp 10 then 9
      else if n < month_start lp 11 then 10 else 11)"

definition getUTCFullYear :: "date \<Rightarrow> int" where
  "getUTCFullYear t = year_of_day (day_of t)"

definition day_in_year :: "date \<Rightarrow> int" where
  "day_in_year t = day_of t - day_from_year (getUTCFullYear t)"

definition getUTCMonth :: "date \<Rightarrow> int" where
  "getUTCMonth t = month_in_year (leap (getUTCFullYear t)) (day_in_year t)"

definition getUTCDate :: "date \<Rightarrow> int" where
  "getUTCDate t = day_in_year t - month_start (leap (getUTCFullYear t)) (getUTCMonth t) + 1"

definition getUTCDay :: "date \<Rightarrow> int" where
  "getUTCDay t = (day_of t + 4) mod 7"

text \<open>
  \<^verbatim>\<open>Date.UTC(y, m, d)\<close>: a year from 0 to 99 means one of the twentieth century, and a
  month outside 0 to 11 carries into the year.
\<close>
definition date_UTC :: "int \<Rightarrow> int \<Rightarrow> int \<Rightarrow> date" where
  "date_UTC y m d =
     (let fy = (if 0 \<le> y \<and> y \<le> 99 then 1900 + y else y);
          ym = fy + m div 12;
          mn = m mod 12
      in DAY_MS * (day_from_year ym + month_start (leap ym) mn + d - 1))"

section \<open>Keys\<close>

definition pad2 :: "int \<Rightarrow> string" where
  "pad2 n = [digit_char (nat (n div 10)), digit_char (nat n)]"

definition pad4 :: "int \<Rightarrow> string" where
  "pad4 n = [digit_char (nat (n div 1000)), digit_char (nat (n div 100)), digit_char (nat (n div 10)), digit_char (nat n)]"

definition pad6 :: "int \<Rightarrow> string" where
  "pad6 n = pad2 (n div 10000) @ pad4 (n mod 10000)"

text \<open>The date part of \<^verbatim>\<open>toISOString\<close>: years beyond four digits carry a sign and six digits.\<close>
definition iso_date :: "date \<Rightarrow> string" where
  "iso_date t =
     (let y = getUTCFullYear t;
          ys = (if 0 \<le> y \<and> y \<le> 9999 then pad4 y
                else (if y < 0 then CHR ''-'' else CHR ''+'') # pad6 \<bar>y\<bar>)
      in ys @ ''-'' @ pad2 (getUTCMonth t + 1) @ ''-'' @ pad2 (getUTCDate t))"

definition toKey :: "date \<Rightarrow> string" where
  "toKey t = take 10 (iso_date t)"

section \<open>Functions of the repository\<close>

definition addCalendarDays :: "date \<Rightarrow> int \<Rightarrow> date" where
  "addCalendarDays d n = d + n * DAY_MS"

definition addMonths :: "date \<Rightarrow> int \<Rightarrow> date" where
  "addMonths d n =
     (let y = getUTCFullYear d;
          m = getUTCMonth d + n;
          lastDay = getUTCDate (date_UTC y (m + 1) 0)
      in date_UTC y m (min (getUTCDate d) lastDay))"

definition dateOnly :: "date \<Rightarrow> date" where
  "dateOnly d = date_UTC (getUTCFullYear d) (getUTCMonth d) (getUTCDate d)"

section \<open>Calendar lemmas\<close>

lemma div_bounds: "0 < k \<Longrightarrow> k * (x div k) \<le> x \<and> x < k * (x div k) + (k :: int)"
  using mult_div_mod_eq [of k x] pos_mod_bound [of k x] pos_mod_sign [of k x] by linarith

lemma div_succ:
  assumes "0 < (k :: int)"
  shows "(x + 1) div k = x div k + (if k dvd x + 1 then 1 else 0)"
proof (cases "x mod k + 1 = k")
  case True
  then have "x + 1 = k * (x div k) + k" using mult_div_mod_eq [of k x] by linarith
  then have "x + 1 = k * (x div k + 1)" by (simp add: distrib_left)
  then show ?thesis using assms by (metis dvd_triv_left less_numeral_extra(3) nonzero_mult_div_cancel_left)
next
  case False
  then have r: "0 \<le> x mod k + 1" "x mod k + 1 < k"
    using pos_mod_bound [OF assms, of x] pos_mod_sign [OF assms, of x] by linarith+
  have e: "x + 1 = k * (x div k) + (x mod k + 1)" using mult_div_mod_eq [of k x] by linarith
  have "(x + 1) div k = x div k" using int_div_pos_eq [OF e r] .
  moreover have "(x + 1) mod k = x mod k + 1" using int_mod_pos_eq [OF e r] .
  ultimately show ?thesis using pos_mod_sign [OF assms, of x] by (auto simp: dvd_eq_mod_eq_0)
qed

lemma dvd_shift: "k dvd (c :: int) \<Longrightarrow> k dvd y - c \<longleftrightarrow> k dvd y"
  by (metis diff_add_cancel dvd_add_left_iff)

lemma year_step: "day_from_year (y + 1) = day_from_year y + 365 + (if leap y then 1 else 0)"
proof -
  let ?i = "\<lambda>b :: bool. if b then 1 else (0 :: int)"
  have d4: "(y - 1968) div 4 = (y - 1969) div 4 + ?i (4 dvd y)"
    using div_succ [of 4 "y - 1969"] dvd_shift [of 4 1968 y] by simp
  have d100: "(y - 1900) div 100 = (y - 1901) div 100 + ?i (100 dvd y)"
    using div_succ [of 100 "y - 1901"] dvd_shift [of 100 1900 y] by simp
  have d400: "(y - 1600) div 400 = (y - 1601) div 400 + ?i (400 dvd y)"
    using div_succ [of 400 "y - 1601"] dvd_shift [of 400 1600 y] by simp
  have n: "y + 1 - 1970 = y - 1970 + 1" "y + 1 - 1969 = y - 1968" "y + 1 - 1901 = y - 1900" "y + 1 - 1601 = y - 1600"
    by simp_all
  have "day_from_year (y + 1) = day_from_year y + 365 + ?i (4 dvd y) - ?i (100 dvd y) + ?i (400 dvd y)"
    unfolding day_from_year_def n d4 d100 d400 by (simp only: distrib_left)
  moreover have "400 dvd y \<Longrightarrow> 100 dvd y" by (rule dvd_trans [of 100 400]) simp_all
  moreover have "100 dvd y \<Longrightarrow> 4 dvd y" by (rule dvd_trans [of 4 100]) simp_all
  ultimately show ?thesis
    unfolding leap_def by (cases "4 dvd y"; cases "100 dvd y"; cases "400 dvd y") simp_all
qed

lemma year_of_day_bounds:
  "day_from_year (year_of_day d) \<le> d \<and> d < day_from_year (year_of_day d + 1)"
proof -
  define q where "q = (400 * d) div 146097"
  have q: "146097 * q \<le> 400 * d" "400 * d < 146097 * q + 146097"
    using div_bounds [of 146097 "400 * d"] by (simp_all add: q_def)
  have y: "day_from_year (1970 + z) = 365 * z + (z + 1) div 4 - (z + 69) div 100 + (z + 369) div 400" for z
    by (simp add: day_from_year_def algebra_simps)
  have lo: "day_from_year (1970 + (q - 1)) \<le> d"
    unfolding y using q div_bounds [of 4 "q - 1 + 1"] div_bounds [of 100 "q - 1 + 69"] div_bounds [of 400 "q - 1 + 369"]
    by simp
  have hi: "d < day_from_year (1970 + (q + 2))"
    unfolding y using q div_bounds [of 4 "q + 2 + 1"] div_bounds [of 100 "q + 2 + 69"] div_bounds [of 400 "q + 2 + 369"]
    by simp
  have "year_of_day d = (if d < day_from_year (1970 + q) then 1970 + (q - 1)
      else if day_from_year (1970 + (q + 1)) \<le> d then 1970 + (q + 1) else 1970 + q)"
    by (simp add: year_of_day_def q_def Let_def algebra_simps)
  then show ?thesis using lo hi by (auto simp: algebra_simps)
qed

lemma day_from_year_mono: "y \<le> z \<Longrightarrow> day_from_year y \<le> day_from_year z"
proof (induction z rule: int_ge_induct)
  case (step i)
  then show ?case using year_step [of i] by (simp split: if_splits)
qed simp

lemma year_of_day_unique:
  assumes "day_from_year y \<le> d" "d < day_from_year (y + 1)"
  shows "year_of_day d = y"
proof (rule ccontr)
  assume "year_of_day d \<noteq> y"
  then consider "year_of_day d + 1 \<le> y" | "y + 1 \<le> year_of_day d" by linarith
  then show False
    using assms year_of_day_bounds [of d] day_from_year_mono by cases (meson not_le order_less_le_trans order_trans)+
qed

lemma month_in_year_range: "0 \<le> month_in_year lp n \<and> month_in_year lp n < 12"
  by (simp add: month_in_year_def)

lemma getUTCMonth_range: "0 \<le> getUTCMonth t" "getUTCMonth t < 12"
  using month_in_year_range by (simp_all add: getUTCMonth_def)

lemma month_cases:
  assumes "0 \<le> m" "m < (12 :: int)"
  shows "m = 0 \<or> m = 1 \<or> m = 2 \<or> m = 3 \<or> m = 4 \<or> m = 5 \<or> m = 6 \<or> m = 7 \<or> m = 8 \<or> m = 9 \<or> m = 10 \<or> m = 11"
  using assms by arith

lemma month_in_year_unique:
  assumes "0 \<le> m" "m < 12" "month_start lp m \<le> n" "n < month_start lp (m + 1)"
  shows "month_in_year lp n = m"
  using month_cases [OF assms(1,2)] assms(3,4)
  by (elim disjE) (simp_all add: month_in_year_def month_start_def split: if_splits)

lemma month_exists:
  assumes "0 \<le> n" "n < 365 + (if lp then 1 else 0)"
  shows "\<exists>m. 0 \<le> m \<and> m < 12 \<and> month_start lp m \<le> n \<and> n < month_start lp (m + 1)"
proof -
  have step: "n < month_start lp (i + 1) \<Longrightarrow> 0 \<le> i \<Longrightarrow> i < 12 \<Longrightarrow>
      n < month_start lp i \<or> (\<exists>m. 0 \<le> m \<and> m < 12 \<and> month_start lp m \<le> n \<and> n < month_start lp (m + 1))" for i
    by (meson not_le)
  have "n < month_start lp (11 + 1)" and "\<not> n < month_start lp 0"
    using assms by (simp_all add: month_start_def)
  then show ?thesis
    using step [of 11] step [of 10] step [of 9] step [of 8] step [of 7] step [of 6] step [of 5]
      step [of 4] step [of 3] step [of 2] step [of 1] step [of 0] by simp blast
qed

lemma month_in_year_bounds:
  assumes "0 \<le> n" "n < 365 + (if lp then 1 else 0)"
  shows "month_start lp (month_in_year lp n) \<le> n \<and> n < month_start lp (month_in_year lp n + 1)"
  using month_exists [OF assms] month_in_year_unique by blast

lemma day_in_year_bounds:
  "0 \<le> day_in_year t" "day_in_year t < 365 + (if leap (getUTCFullYear t) then 1 else 0)"
  using year_of_day_bounds [of "day_of t"] year_step [of "getUTCFullYear t"]
  by (simp_all add: day_in_year_def getUTCFullYear_def split: if_splits)

definition days_in_month :: "int \<Rightarrow> int \<Rightarrow> int" where
  "days_in_month y m = month_start (leap y) (m + 1) - month_start (leap y) m"

lemma getUTCDate_bounds:
  "1 \<le> getUTCDate t" "getUTCDate t \<le> days_in_month (getUTCFullYear t) (getUTCMonth t)"
  using month_in_year_bounds [OF day_in_year_bounds [of t]]
  by (simp_all add: getUTCDate_def getUTCMonth_def days_in_month_def)

lemma days_in_month_range:
  assumes "0 \<le> m" "m < 12"
  shows "28 \<le> days_in_month y m \<and> days_in_month y m \<le> 31"
  using month_cases [OF assms] by (elim disjE) (simp_all add: days_in_month_def month_start_def)

text \<open>A date is determined by its civil fields.\<close>
lemma day_of_civil:
  "day_of t = day_from_year (getUTCFullYear t) + month_start (leap (getUTCFullYear t)) (getUTCMonth t) + getUTCDate t - 1"
  by (simp add: getUTCDate_def day_in_year_def)

lemma civil_of_day:
  assumes "0 \<le> m" "m < 12" "1 \<le> d" "d \<le> days_in_month y m"
    and "day_of t = day_from_year y + month_start (leap y) m + d - 1"
  shows "getUTCFullYear t = y \<and> getUTCMonth t = m \<and> getUTCDate t = d"
proof -
  have r: "0 \<le> month_start (leap y) m" "month_start (leap y) (m + 1) \<le> 365 + (if leap y then 1 else 0)"
    using month_cases [OF assms(1,2)] by (elim disjE; simp add: month_start_def)+
  then have y: "getUTCFullYear t = y"
    unfolding getUTCFullYear_def assms(5) using assms(3,4) year_step [of y]
    by (intro year_of_day_unique) (simp_all add: days_in_month_def split: if_splits)
  then have n: "day_in_year t = month_start (leap y) m + d - 1"
    by (simp add: day_in_year_def assms(5))
  then have "getUTCMonth t = m"
    unfolding getUTCMonth_def y using assms(1-4) by (intro month_in_year_unique) (simp_all add: days_in_month_def)
  with y n show ?thesis by (simp add: getUTCDate_def)
qed

lemma day_of_mult [simp]: "day_of (DAY_MS * d) = d"
  by (simp add: day_of_def)

lemma date_UTC_simple:
  assumes "\<not> (0 \<le> y \<and> y \<le> 99)" "0 \<le> m" "m < 12"
  shows "date_UTC y m d = DAY_MS * (day_from_year y + month_start (leap y) m + d - 1)"
  using assms by (auto simp: date_UTC_def Let_def)

lemma dateOnly_eq:
  assumes "\<not> (0 \<le> getUTCFullYear t \<and> getUTCFullYear t \<le> 99)"
  shows "dateOnly t = DAY_MS * day_of t"
  unfolding dateOnly_def date_UTC_simple [OF assms getUTCMonth_range] day_of_civil [of t] ..

lemma dateOnly_dateOnly:
  assumes "\<not> (0 \<le> getUTCFullYear t \<and> getUTCFullYear t \<le> 99)"
  shows "dateOnly (dateOnly t) = dateOnly t"
proof -
  have "day_of (dateOnly t) = day_of t" by (simp add: dateOnly_eq [OF assms])
  then have "getUTCFullYear (dateOnly t) = getUTCFullYear t" by (simp add: getUTCFullYear_def)
  then show ?thesis using assms by (simp add: dateOnly_eq)
qed

text \<open>Four-digit years.\<close>

definition plain_day :: "int \<Rightarrow> bool" where
  "plain_day d \<longleftrightarrow> day_from_year 0 \<le> d \<and> d < day_from_year 10000"

lemma plain_year: "plain_day (day_of t) \<longleftrightarrow> 0 \<le> getUTCFullYear t \<and> getUTCFullYear t \<le> 9999"
proof
  assume "plain_day (day_of t)"
  then show "0 \<le> getUTCFullYear t \<and> getUTCFullYear t \<le> 9999"
    using year_of_day_bounds [of "day_of t"] day_from_year_mono [of "getUTCFullYear t + 1" 0]
      day_from_year_mono [of 10000 "getUTCFullYear t"]
    unfolding plain_day_def getUTCFullYear_def by linarith
next
  assume "0 \<le> getUTCFullYear t \<and> getUTCFullYear t \<le> 9999"
  then show "plain_day (day_of t)"
    using year_of_day_bounds [of "day_of t"] day_from_year_mono [of 0 "getUTCFullYear t"]
      day_from_year_mono [of "getUTCFullYear t + 1" 10000]
    unfolding plain_day_def getUTCFullYear_def by linarith
qed

lemma digit_char_eq: "digit_char m = digit_char n \<longleftrightarrow> m mod 10 = n mod 10"
proof
  have c: "of_char (digit_char k) = (48 + k mod 10 :: nat)" for k
    using pos_mod_bound by (simp add: digit_char_def)
  assume "digit_char m = digit_char n"
  with c [of m] c [of n] show "m mod 10 = n mod 10" by simp
qed (simp add: digit_char_def)

lemma digit_nat_eq: "0 \<le> a \<Longrightarrow> 0 \<le> b \<Longrightarrow> digit_char (nat a) = digit_char (nat b) \<longleftrightarrow> a mod 10 = b mod 10"
  unfolding digit_char_eq by (metis nat_0_le nat_mod_distrib of_nat_mod of_nat_numeral zero_le_numeral nat_numeral)

lemma div_1000: "(a :: int) div 1000 = a div 100 div 10" "a div 100 = a div 10 div 10"
  by (simp_all add: zdiv_zmult2_eq [symmetric])

lemma pad2_inj:
  assumes "0 \<le> a" "a < 100" "0 \<le> b" "b < 100" "pad2 a = pad2 b"
  shows "a = b"
proof -
  have "a div 10 mod 10 = b div 10 mod 10" "a mod 10 = b mod 10"
    using assms by (simp_all add: pad2_def digit_nat_eq pos_imp_zdiv_nonneg_iff)
  moreover have "a div 10 mod 10 = a div 10" "b div 10 mod 10 = b div 10"
    using assms by (simp_all add: pos_imp_zdiv_nonneg_iff zdiv_mono1 int_one_le_iff_zero_less)
  ultimately show ?thesis by (metis div_mult_mod_eq)
qed

lemma pad4_inj:
  assumes "0 \<le> a" "a < 10000" "0 \<le> b" "b < 10000" "pad4 a = pad4 b"
  shows "a = b"
proof -
  have m: "a div 1000 mod 10 = b div 1000 mod 10" "a div 100 mod 10 = b div 100 mod 10"
    "a div 10 mod 10 = b div 10 mod 10" "a mod 10 = b mod 10"
    using assms by (simp_all add: pad4_def digit_nat_eq pos_imp_zdiv_nonneg_iff)
  have "a div 1000 mod 10 = a div 1000" "b div 1000 mod 10 = b div 1000"
    using assms by (simp_all add: pos_imp_zdiv_nonneg_iff)
  with m have "a div 100 div 10 = b div 100 div 10" by (simp only: div_1000(1))
  with m have "a div 10 div 10 = b div 10 div 10" by (metis div_mult_mod_eq div_1000(2))
  with m have "a div 10 = b div 10" by (metis div_mult_mod_eq)
  with m show ?thesis by (metis div_mult_mod_eq)
qed

lemma toKey_inj:
  assumes "plain_day (day_of s)" "plain_day (day_of t)" "toKey s = toKey t"
  shows "day_of s = day_of t"
proof -
  have k: "toKey u = pad4 (getUTCFullYear u) @ ''-'' @ pad2 (getUTCMonth u + 1) @ ''-'' @ pad2 (getUTCDate u)"
    if "plain_day (day_of u)" for u
    using that plain_year [of u] by (simp add: toKey_def iso_date_def pad4_def pad2_def Let_def)
  have m: "0 \<le> getUTCMonth u + 1" "getUTCMonth u + 1 < 100" "0 \<le> getUTCDate u" "getUTCDate u < 100" for u
    using getUTCMonth_range [of u] getUTCDate_bounds [of u]
      days_in_month_range [OF getUTCMonth_range [of u], of "getUTCFullYear u"] by simp_all
  from assms k have "pad4 (getUTCFullYear s) = pad4 (getUTCFullYear t)"
    "pad2 (getUTCMonth s + 1) = pad2 (getUTCMonth t + 1)" "pad2 (getUTCDate s) = pad2 (getUTCDate t)"
    by (simp_all add: pad4_def pad2_def)
  then have "getUTCFullYear s = getUTCFullYear t" "getUTCMonth s + 1 = getUTCMonth t + 1" "getUTCDate s = getUTCDate t"
    using assms(1,2) plain_year
      pad4_inj [of "getUTCFullYear s" "getUTCFullYear t"] pad2_inj [OF m(1,2) m(1,2)] pad2_inj [OF m(3,4) m(3,4)]
    by simp_all
  then show ?thesis using day_of_civil [of s] day_of_civil [of t] by simp
qed

section \<open>Adding months\<close>

text \<open>Months numbered through the years: \<open>month_day i\<close> is the first day of month \<open>i\<close>.\<close>

definition month_day :: "int \<Rightarrow> int" where
  "month_day i = day_from_year (i div 12) + month_start (leap (i div 12)) (i mod 12)"

definition month_days :: "int \<Rightarrow> int" where
  "month_days i = days_in_month (i div 12) (i mod 12)"

definition month_index :: "date \<Rightarrow> int" where
  "month_index t = 12 * getUTCFullYear t + getUTCMonth t"

lemma month_days_range: "28 \<le> month_days i" "month_days i \<le> 31"
  using days_in_month_range [of "i mod 12" "i div 12"] by (simp_all add: month_days_def)

lemma month_index_div: "month_index t div 12 = getUTCFullYear t" "month_index t mod 12 = getUTCMonth t"
  using getUTCMonth_range [of t] by (simp_all add: month_index_def)

lemma month_start_Suc_11: "month_start lp (11 + 1) = 365 + (if lp then 1 else 0)" "month_start lp 0 = 0"
  by (simp_all add: month_start_def)

lemma next_month_index:
  "(i + 1) div 12 = (if i mod 12 = 11 then i div 12 + 1 else i div (12 :: int))"
  "(i + 1) mod 12 = (if i mod 12 = 11 then 0 else i mod 12 + (1 :: int))"
proof -
  define q r where "q = i div 12" and "r = i mod 12"
  have i: "i = 12 * q + r" and r: "0 \<le> r" "r < 12" by (simp_all add: q_def r_def)
  show "(i + 1) div 12 = (if i mod 12 = 11 then i div 12 + 1 else i div 12)"
    unfolding q_def [symmetric] r_def [symmetric]
    by (rule int_div_pos_eq [where r = "if r = 11 then 0 else r + 1"]) (use i r in auto)
  show "(i + 1) mod 12 = (if i mod 12 = 11 then 0 else i mod 12 + 1)"
    unfolding q_def [symmetric] r_def [symmetric]
    by (rule int_mod_pos_eq [where q = "if r = 11 then q + 1 else q"]) (use i r in auto)
qed

lemma month_day_Suc: "month_day (i + 1) = month_day i + month_days i"
proof (cases "i mod 12 = 11")
  case True
  then have e: "(i + 1) div 12 = i div 12 + 1" "(i + 1) mod 12 = 0" by (simp_all add: next_month_index)
  have "month_day (i + 1) = day_from_year (i div 12) + 365 + (if leap (i div 12) then 1 else 0)"
    unfolding month_day_def e month_start_Suc_11 by (simp only: year_step add_0_right)
  moreover have "month_day i + month_days i = day_from_year (i div 12) + month_start (leap (i div 12)) (11 + 1)"
    unfolding month_day_def month_days_def days_in_month_def True by simp
  ultimately show ?thesis unfolding month_start_Suc_11 by (simp only: add.assoc)
next
  case False
  then have e: "(i + 1) div 12 = i div 12" "(i + 1) mod 12 = i mod 12 + 1" by (simp_all add: next_month_index)
  show ?thesis unfolding month_day_def month_days_def days_in_month_def e by (simp only: algebra_simps)
qed

lemma month_day_span: "28 * int n \<le> month_day (i + int n) - month_day i \<and> month_day (i + int n) - month_day i \<le> 31 * int n"
proof (induction n)
  case (Suc n)
  have "month_day (i + int (Suc n)) = month_day (i + int n) + month_days (i + int n)"
    using month_day_Suc [of "i + int n"] by (simp add: algebra_simps)
  then show ?case using Suc month_days_range [of "i + int n"] by simp
qed simp

lemma day_of_month_index: "day_of t = month_day (month_index t) + getUTCDate t - 1"
  unfolding month_day_def month_index_div by (rule day_of_civil)

lemma getUTCDate_le: "getUTCDate t \<le> month_days (month_index t)"
  unfolding month_days_def month_index_div by (rule getUTCDate_bounds)

lemma date_UTC_index:
  assumes "\<not> (0 \<le> y \<and> y \<le> 99)"
  shows "date_UTC y m d = DAY_MS * (month_day (12 * y + m) + d - 1)"
proof -
  have "(12 * y + m) div 12 = y + m div 12" "(12 * y + m) mod 12 = m mod 12" by simp_all
  then show ?thesis using assms by (auto simp: date_UTC_def month_day_def Let_def)
qed

lemma addMonths_day:
  assumes "\<not> (0 \<le> getUTCFullYear t \<and> getUTCFullYear t \<le> 99)"
  shows "addMonths t n =
    DAY_MS * (month_day (month_index t + n) + min (getUTCDate t) (month_days (month_index t + n)) - 1)"
proof -
  let ?y = "getUTCFullYear t" and ?i = "month_index t + n"
  have i: "12 * ?y + (getUTCMonth t + n) = ?i" "12 * ?y + (getUTCMonth t + n + 1) = ?i + 1"
    by (simp_all add: month_index_def)
  have l: "date_UTC ?y (getUTCMonth t + n + 1) 0 = DAY_MS * (month_day ?i + month_days ?i - 1)"
    using date_UTC_index [OF assms, of "getUTCMonth t + n + 1" 0] by (simp only: i month_day_Suc) simp
  have "day_of (date_UTC ?y (getUTCMonth t + n + 1) 0) =
      day_from_year (?i div 12) + month_start (leap (?i div 12)) (?i mod 12) + month_days ?i - 1"
    unfolding l day_of_mult month_day_def by simp
  then have "getUTCDate (date_UTC ?y (getUTCMonth t + n + 1) 0) = month_days ?i"
    using month_days_range [of ?i] civil_of_day [of "?i mod 12" "month_days ?i" "?i div 12"]
    by (simp add: month_days_def)
  then show ?thesis
    unfolding addMonths_def Let_def using date_UTC_index [OF assms] by (simp only: i)
qed

text \<open>Forward a month is 28 to 31 days; backward likewise, up to the shorter month reached.\<close>

lemma addMonths_forward:
  assumes "\<not> (0 \<le> getUTCFullYear t \<and> getUTCFullYear t \<le> 99)" "0 \<le> n"
  shows "day_of t + 28 * n \<le> day_of (addMonths t n)" "day_of (addMonths t n) \<le> day_of t + 31 * n"
proof -
  let ?i = "month_index t" and ?j = "month_index t + n"
  obtain k where k: "n = int k" using assms(2) nonneg_int_cases by blast
  note s = month_day_span [of k ?i] month_day_span [of k "?i + 1"]
  have e: "?i + 1 + int k = ?j + 1" using k by simp
  have "month_day ?j + month_days ?j - (month_day ?i + month_days ?i) \<ge> 28 * n"
    using s(2) k unfolding e month_day_Suc by simp
  moreover have "month_day ?j - month_day ?i \<ge> 28 * n" "month_day ?j - month_day ?i \<le> 31 * n"
    using s(1) k by simp_all
  ultimately show "day_of t + 28 * n \<le> day_of (addMonths t n)" "day_of (addMonths t n) \<le> day_of t + 31 * n"
    unfolding addMonths_day [OF assms(1)] day_of_mult using day_of_month_index [of t] getUTCDate_le [of t]
    by (simp_all add: min_def)
qed

lemma addMonths_backward:
  assumes "\<not> (0 \<le> getUTCFullYear t \<and> getUTCFullYear t \<le> 99)" "0 \<le> n"
  shows "day_of (addMonths t (- n)) \<le> day_of t - 28 * n + 3" "day_of t - 31 * n - 3 \<le> day_of (addMonths t (- n))"
proof -
  let ?i = "month_index t" and ?j = "month_index t - n"
  obtain k where k: "n = int k" using assms(2) nonneg_int_cases by blast
  have e: "?j + int k = ?i" using k by simp
  have "month_day ?i - month_day ?j \<ge> 28 * n" "month_day ?i - month_day ?j \<le> 31 * n"
    using month_day_span [of k ?j] k unfolding e by simp_all
  then show "day_of (addMonths t (- n)) \<le> day_of t - 28 * n + 3" "day_of t - 31 * n - 3 \<le> day_of (addMonths t (- n))"
    unfolding addMonths_day [OF assms(1)] day_of_mult
    using day_of_month_index [of t] getUTCDate_le [of t] month_days_range [of ?i] month_days_range [of ?j]
    by (simp_all add: min_def)
qed

lemma addMonths_aligned: "DAY_MS dvd addMonths t n"
  by (simp add: addMonths_def date_UTC_def Let_def)

lemma dateOnly_aligned: "DAY_MS dvd dateOnly t"
  by (simp add: dateOnly_def date_UTC_def Let_def)

end
