(* ===== verification/Planning_Dates.thy ===== *)
theory Planning_Dates
  imports Js_Date
begin

text \<open>
  The business-day arithmetic of \<^verbatim>\<open>src/src/services/case-planning.dates.ts\<close>. Two of its
  loops need not end (a calendar without working days, two dates that are not whole days
  apart), so their results have type \<open>run\<close>: \<open>None\<close> is a call that does not return,
  \<open>Some (Inl e)\<close> one that throws, \<open>Some (Inr x)\<close> one that returns \<open>x\<close>.
\<close>

type_synonym 'a run = "(app_error + 'a) option"

definition run_return :: "'a \<Rightarrow> 'a run" where
  "run_return x = Some (Inr x)"

definition run_bind :: "'a run \<Rightarrow> ('a \<Rightarrow> 'b run) \<Rightarrow> 'b run" where
  "run_bind m f = (case m of None \<Rightarrow> None | Some (Inl e) \<Rightarrow> Some (Inl e) | Some (Inr x) \<Rightarrow> f x)"

lemma run_simps [simp]:
  "run_bind None f = None"
  "run_bind (Some (Inl e)) f = Some (Inl e)"
  "run_bind (Some (Inr x)) f = f x"
  "run_bind (run_return x) f = f x"
  by (simp_all add: run_bind_def run_return_def)

lemma run_return_eq [simp]: "run_return x = Some (Inr y) \<longleftrightarrow> x = y"
  by (simp add: run_return_def)

lemma run_bind_Inr: "run_bind m f = Some (Inr y) \<longleftrightarrow> (\<exists>x. m = Some (Inr x) \<and> f x = Some (Inr y))"
  by (auto simp: run_bind_def split: option.splits sum.splits)

section \<open>Calendars\<close>

record PlanningCalendar =
  workingWeekdays :: "int list"
  holidays :: "string list"

definition isWorkingDay :: "date \<Rightarrow> PlanningCalendar \<Rightarrow> bool" where
  "isWorkingDay d cal \<longleftrightarrow> getUTCDay d \<in> set (workingWeekdays cal) \<and> toKey d \<notin> set (holidays cal)"

section \<open>Walking\<close>

partial_function (option) walk_loop :: "PlanningCalendar \<Rightarrow> int \<Rightarrow> int \<Rightarrow> date \<Rightarrow> date option" where
  "walk_loop cal dir left d =
     (if 0 < left
      then (let d' = addCalendarDays d dir
            in walk_loop cal dir (if isWorkingDay d' cal then left - 1 else left) d')
      else Some d)"

definition walk :: "date \<Rightarrow> int \<Rightarrow> int \<Rightarrow> PlanningCalendar \<Rightarrow> date run" where
  "walk d n dir cal =
     (if 0 < n \<and> workingWeekdays cal = [] then Some (Inl (Thrown ''workingWeekdays must not be empty''))
      else map_option Inr (walk_loop cal dir n d))"

definition addWorkingDays :: "date \<Rightarrow> int \<Rightarrow> PlanningCalendar \<Rightarrow> date run" where
  "addWorkingDays d n cal = walk d n 1 cal"

definition subtractWorkingDays :: "date \<Rightarrow> int \<Rightarrow> PlanningCalendar \<Rightarrow> date run" where
  "subtractWorkingDays d n cal = walk d n (- 1) cal"

partial_function (option) between_loop ::
  "PlanningCalendar \<Rightarrow> int \<Rightarrow> date \<Rightarrow> date \<Rightarrow> int \<Rightarrow> int option" where
  "between_loop cal dir b d n =
     (let n' = (if isWorkingDay d cal then n + 1 else n)
      in if d = b then Some n' else between_loop cal dir b (addCalendarDays d dir) n')"

definition workingDaysBetween :: "date \<Rightarrow> date \<Rightarrow> PlanningCalendar \<Rightarrow> int run" where
  "workingDaysBetween from to cal =
     (if from = to then run_return 0
      else let dir = (if from < to then 1 else - 1)
           in map_option (\<lambda>n. Inr (dir * n)) (between_loop cal dir to (addCalendarDays from dir) 0))"

section \<open>Counting working days\<close>

text \<open>\<open>step_work cal dir d k\<close>: the day \<open>k\<close> steps from \<open>d\<close> is a working day.\<close>

definition step_day :: "int \<Rightarrow> date \<Rightarrow> nat \<Rightarrow> date" where
  "step_day dir d k = d + dir * int k * DAY_MS"

definition work_count :: "PlanningCalendar \<Rightarrow> int \<Rightarrow> date \<Rightarrow> nat \<Rightarrow> nat" where
  "work_count cal dir d m = card {k. 1 \<le> k \<and> k \<le> m \<and> isWorkingDay (step_day dir d k) cal}"

lemma step_day_0 [simp]: "step_day dir d 0 = d"
  by (simp add: step_day_def)

lemma step_day_Suc: "step_day dir d (Suc k) = step_day dir (addCalendarDays d dir) k"
  by (simp add: step_day_def addCalendarDays_def algebra_simps)

lemma finite_steps [simp]: "finite {k. 1 \<le> k \<and> k \<le> (m :: nat) \<and> P k}"
  by (rule finite_subset [of _ "{1..m}"]) auto

lemma work_count_0 [simp]: "work_count cal dir d 0 = 0"
  by (simp add: work_count_def)

lemma work_count_Suc:
  "work_count cal dir d (Suc m) = work_count cal dir d m + (if isWorkingDay (step_day dir d (Suc m)) cal then 1 else 0)"
proof -
  let ?S = "\<lambda>m. {k. 1 \<le> k \<and> k \<le> m \<and> isWorkingDay (step_day dir d k) cal}"
  have "?S (Suc m) = (if isWorkingDay (step_day dir d (Suc m)) cal then insert (Suc m) (?S m) else ?S m)"
    by (auto simp: le_Suc_eq)
  then show ?thesis by (auto simp: work_count_def)
qed

lemma work_count_first:
  "work_count cal dir d (Suc m) =
     work_count cal dir (addCalendarDays d dir) m + (if isWorkingDay (addCalendarDays d dir) cal then 1 else 0)"
proof (induction m)
  case 0
  show ?case by (simp add: work_count_Suc step_day_Suc)
next
  case (Suc m)
  have "work_count cal dir d (Suc (Suc m)) =
      work_count cal dir d (Suc m) + (if isWorkingDay (step_day dir d (Suc (Suc m))) cal then 1 else 0)"
    by (rule work_count_Suc)
  with Suc show ?case by (simp add: work_count_Suc [of cal dir "addCalendarDays d dir"] step_day_Suc)
qed

lemma work_count_mono: "m \<le> m' \<Longrightarrow> work_count cal dir d m \<le> work_count cal dir d m'"
  unfolding work_count_def by (rule card_mono) auto

section \<open>What a walk returns\<close>

text \<open>
  \<open>lands cal dir d n m\<close>: after \<open>m\<close> steps exactly \<open>n\<close> working days have been passed, the
  last of them on the day reached.
\<close>

definition lands :: "PlanningCalendar \<Rightarrow> int \<Rightarrow> date \<Rightarrow> nat \<Rightarrow> nat \<Rightarrow> bool" where
  "lands cal dir d n m \<longleftrightarrow> work_count cal dir d m = n \<and> (n = 0 \<longrightarrow> m = 0) \<and>
     (0 < n \<longrightarrow> 0 < m \<and> isWorkingDay (step_day dir d m) cal)"

lemma lands_unique: "lands cal dir d n m \<Longrightarrow> lands cal dir d n m' \<Longrightarrow> m = m'"
proof (induction m m' rule: linorder_wlog)
  case (le m m')
  show ?case
  proof (rule ccontr)
    assume "m \<noteq> m'"
    then obtain j where j: "m' = Suc j" "m \<le> j" using le.hyps by (cases m') auto
    then have "0 < n" using le.prems by (auto simp: lands_def)
    then have "work_count cal dir d m' = Suc (work_count cal dir d j)"
      using le.prems j by (simp add: lands_def work_count_Suc)
    then show False using work_count_mono [OF j(2), of cal dir d] le.prems by (simp add: lands_def)
  qed
qed simp

lemma walk_loop_lands: "lands cal dir d n m \<Longrightarrow> walk_loop cal dir (int n) d = Some (step_day dir d m)"
proof (induction m arbitrary: d n)
  case 0
  then show ?case by (auto simp: lands_def walk_loop.simps [of cal dir 0])
next
  case (Suc m)
  let ?d = "addCalendarDays d dir"
  from Suc.prems have n: "0 < n" "work_count cal dir d (Suc m) = n" "isWorkingDay (step_day dir d (Suc m)) cal"
    by (auto simp: lands_def)
  have l: "lands cal dir ?d (if isWorkingDay ?d cal then n - 1 else n) m"
  proof (cases "m = 0")
    case True
    with n show ?thesis by (auto simp: lands_def work_count_first step_day_Suc)
  next
    case False
    have "0 < work_count cal dir ?d m"
    proof -
      obtain j where j: "m = Suc j" using False by (cases m) auto
      show ?thesis using n(3) by (simp add: j work_count_Suc step_day_Suc)
    qed
    with False n show ?thesis by (auto simp: lands_def work_count_first step_day_Suc)
  qed
  have "walk_loop cal dir (int n) d = walk_loop cal dir (int (if isWorkingDay ?d cal then n - 1 else n)) ?d"
    using n(1) by (subst walk_loop.simps) (simp add: Let_def of_nat_diff)
  also have "\<dots> = Some (step_day dir ?d m)" by (rule Suc.IH [OF l])
  finally show ?case by (simp add: step_day_Suc)
qed

lemma lands_exists:
  assumes "n \<le> work_count cal dir d M"
  shows "\<exists>m \<le> M. lands cal dir d n m"
proof (cases "n = 0")
  case True
  then show ?thesis by (auto simp: lands_def)
next
  case False
  define m where "m = (LEAST m. n \<le> work_count cal dir d m)"
  have m: "n \<le> work_count cal dir d m" "m \<le> M"
    unfolding m_def using assms by (auto intro: LeastI Least_le)
  with False obtain j where j: "m = Suc j" by (cases m) auto
  have "\<not> n \<le> work_count cal dir d j"
    using j not_less_Least [of j "\<lambda>m. n \<le> work_count cal dir d m"] by (simp add: m_def)
  with m j have "work_count cal dir d m = n \<and> isWorkingDay (step_day dir d m) cal"
    by (auto simp: work_count_Suc split: if_splits)
  with False m j show ?thesis by (auto simp: lands_def)
qed

text \<open>Conversely, a walk that returns has landed.\<close>

lemma walk_loop_returns:
  assumes "walk_loop cal dir l d = Some e"
  shows "\<exists>m. lands cal dir d (nat l) m \<and> e = step_day dir d m"
proof (rule walk_loop.raw_induct
    [where P = "\<lambda>cal dir l d e. \<exists>m. lands cal dir d (nat l) m \<and> e = step_day dir d m", OF _ assms])
  fix f cal dir l d e
  assume IH: "\<And>cal dir l d e. f cal dir l d = Some e \<Longrightarrow> \<exists>m. lands cal dir d (nat l) m \<and> e = step_day dir d m"
    and eq: "(if 0 < l then let d' = addCalendarDays d dir in f cal dir (if isWorkingDay d' cal then l - 1 else l) d'
      else Some d) = Some e"
  show "\<exists>m. lands cal dir d (nat l) m \<and> e = step_day dir d m"
  proof (cases "0 < l")
    case False
    with eq show ?thesis by (auto simp: lands_def intro!: exI [of _ 0])
  next
    case True
    let ?d = "addCalendarDays d dir"
    let ?l = "if isWorkingDay ?d cal then l - 1 else l"
    from eq True have "f cal dir ?l ?d = Some e" by (simp add: Let_def)
    with IH obtain m where m: "lands cal dir ?d (nat ?l) m" "e = step_day dir ?d m" by blast
    have "lands cal dir d (nat l) (Suc m)"
      using m(1) True by (auto simp: lands_def work_count_first step_day_Suc split: if_splits)
    with m(2) show ?thesis by (auto simp: step_day_Suc)
  qed
qed

lemma walk_Inr:
  "walk d n dir cal = Some (Inr e) \<longleftrightarrow>
     (0 < n \<longrightarrow> workingWeekdays cal \<noteq> []) \<and> (\<exists>m. lands cal dir d (nat n) m \<and> e = step_day dir d m)"
proof -
  have "walk_loop cal dir n d = Some e \<longleftrightarrow> (\<exists>m. lands cal dir d (nat n) m \<and> e = step_day dir d m)"
  proof
    assume "\<exists>m. lands cal dir d (nat n) m \<and> e = step_day dir d m"
    then obtain m where m: "lands cal dir d (nat n) m" "e = step_day dir d m" by blast
    show "walk_loop cal dir n d = Some e"
    proof (cases "0 \<le> n")
      case True
      with walk_loop_lands [OF m(1)] m(2) show ?thesis by simp
    next
      case False
      with m show ?thesis by (auto simp: lands_def walk_loop.simps [of cal dir n])
    qed
  qed (rule walk_loop_returns)
  then show ?thesis by (auto simp: walk_def)
qed


section \<open>Walks end\<close>

text \<open>
  A calendar with a working weekday has, among any \<open>7 * (n + h)\<close> consecutive days of
  four-digit years, at least \<open>n\<close> working days, where \<open>h\<close> is the number of holidays.
\<close>

definition usable :: "PlanningCalendar \<Rightarrow> bool" where
  "usable cal \<longleftrightarrow> (\<exists>w \<in> set (workingWeekdays cal). 0 \<le> w \<and> w \<le> 6)"

definition walk_bound :: "PlanningCalendar \<Rightarrow> nat \<Rightarrow> nat" where
  "walk_bound cal n = 7 * (n + length (holidays cal))"

lemma day_of_step: "day_of (step_day dir d k) = day_of d + dir * int k"
proof -
  have "step_day dir d k = d + (dir * int k) * DAY_MS" by (simp add: step_day_def)
  then show ?thesis by (simp add: day_of_def)
qed

lemma weekday_in_block:
  assumes "dir = 1 \<or> dir = - 1" "0 \<le> w" "w \<le> (6 :: int)"
  shows "\<exists>k. 7 * j + 1 \<le> k \<and> k \<le> 7 * j + 7 \<and> getUTCDay (step_day dir d k) = w"
proof -
  define r where "r = (dir * (w - day_of d - 4) - 1) mod 7"
  have r: "0 \<le> r" "r < 7" by (simp_all add: r_def)
  define k where "k = 7 * j + 1 + nat r"
  have k: "int k = 7 * int j + 1 + r" using r by (simp add: k_def)
  have "(day_of d + dir * int k + 4) mod 7 = w mod 7"
  proof -
    have e: "\<exists>q. dir * (w - day_of d - 4) - 1 = 7 * q + r"
      unfolding r_def by (metis mult_div_mod_eq)
    then obtain q where q: "dir * (w - day_of d - 4) - 1 = 7 * q + r" by blast
    have "day_of d + dir * int k + 4 = w + 7 * (dir * (int j - q))"
      using assms(1)
    proof
      assume "dir = 1" then show ?thesis using q k by simp
    next
      assume "dir = - 1" then show ?thesis using q k by simp
    qed
    then show ?thesis by simp
  qed
  moreover have "w mod 7 = w" using assms(2,3) by simp
  ultimately have "getUTCDay (step_day dir d k) = w" by (simp add: getUTCDay_def day_of_step)
  moreover have "7 * j + 1 \<le> k" "k \<le> 7 * j + 7" using r by (simp_all add: k_def)
  ultimately show ?thesis by blast
qed

lemma work_count_bound:
  assumes "usable cal" "dir = 1 \<or> dir = - 1"
    and plain: "\<And>k. k \<le> walk_bound cal n \<Longrightarrow> plain_day (day_of d + dir * int k)"
  shows "n \<le> work_count cal dir d (walk_bound cal n)"
proof -
  from assms(1) obtain w where w: "w \<in> set (workingWeekdays cal)" "0 \<le> w" "w \<le> 6" by (auto simp: usable_def)
  define N where "N = n + length (holidays cal)"
  have "\<forall>j. \<exists>k. 7 * j + 1 \<le> k \<and> k \<le> 7 * j + 7 \<and> getUTCDay (step_day dir d k) = w"
    using weekday_in_block [OF assms(2) w(2,3)] by blast
  then obtain g where g: "\<And>j. 7 * j + 1 \<le> g j \<and> g j \<le> 7 * j + 7 \<and> getUTCDay (step_day dir d (g j)) = w"
    using choice [of "\<lambda>j k. 7 * j + 1 \<le> k \<and> k \<le> 7 * j + 7 \<and> getUTCDay (step_day dir d k) = w"] by blast
  define A where "A = g ` {..<N}"
  have inj: "inj_on g {..<N}"
  proof (rule inj_onI)
    fix i j assume "g i = g j"
    then show "i = j" using g [of i] g [of j] by linarith
  qed
  have A: "finite A" "card A = N" using inj by (simp_all add: A_def card_image)
  have le: "1 \<le> k \<and> k \<le> walk_bound cal n \<and> getUTCDay (step_day dir d k) = w" if "k \<in> A" for k
  proof -
    from that obtain j where j: "j < N" "k = g j" by (auto simp: A_def)
    with g [of j] show ?thesis by (simp add: walk_bound_def N_def)
  qed
  define B where "B = {k \<in> A. toKey (step_day dir d k) \<in> set (holidays cal)}"
  have "inj_on (\<lambda>k. toKey (step_day dir d k)) B"
  proof (rule inj_onI)
    fix i j assume ij: "i \<in> B" "j \<in> B" "toKey (step_day dir d i) = toKey (step_day dir d j)"
    then have "day_of (step_day dir d i) = day_of (step_day dir d j)"
      by (intro toKey_inj) (auto simp: day_of_step B_def intro: plain dest: le)
    then show "i = j" using assms(2) by (auto simp: day_of_step)
  qed
  then have "card B \<le> card (set (holidays cal))"
    by (rule card_inj_on_le) (auto simp: B_def)
  then have B: "card B \<le> length (holidays cal)" using card_length order_trans by blast
  have "A - B \<subseteq> {k. 1 \<le> k \<and> k \<le> walk_bound cal n \<and> isWorkingDay (step_day dir d k) cal}"
    using le w(1) by (auto simp: B_def isWorkingDay_def)
  then have "card (A - B) \<le> work_count cal dir d (walk_bound cal n)"
    unfolding work_count_def by (rule card_mono [OF finite_steps])
  moreover have "card (A - B) = N - card B"
    using A by (subst card_Diff_subset) (auto simp: B_def intro: finite_subset [OF _ A(1)])
  ultimately show ?thesis using B by (simp add: N_def)
qed

text \<open>\<open>roomy cal d n\<close>: both directions stay within four-digit years for long enough.\<close>

definition roomy :: "PlanningCalendar \<Rightarrow> date \<Rightarrow> nat \<Rightarrow> bool" where
  "roomy cal d n \<longleftrightarrow>
     day_from_year 0 + int (walk_bound cal n) \<le> day_of d \<and> day_of d + int (walk_bound cal n) < day_from_year 10000"

lemma roomy_plain:
  "roomy cal d n \<Longrightarrow> dir = 1 \<or> dir = - 1 \<Longrightarrow> k \<le> walk_bound cal n \<Longrightarrow> plain_day (day_of d + dir * int k)"
  by (auto simp: roomy_def plain_day_def)

lemma walk_returns:
  assumes "usable cal" "roomy cal d n" "dir = 1 \<or> dir = - 1"
  shows "\<exists>m \<le> walk_bound cal n. lands cal dir d n m \<and> walk d (int n) dir cal = Some (Inr (step_day dir d m))"
proof -
  obtain m where m: "m \<le> walk_bound cal n" "lands cal dir d n m"
    using lands_exists [OF work_count_bound [OF assms(1,3) roomy_plain [OF assms(2,3)]]] by blast
  moreover have "workingWeekdays cal \<noteq> []" using assms(1) by (auto simp: usable_def)
  ultimately show ?thesis by (auto simp: walk_Inr)
qed

section \<open>Counting between two dates\<close>

lemma between_loop_counts:
  assumes "dir \<noteq> 0"
  shows "between_loop cal dir (step_day dir d (Suc m)) (addCalendarDays d dir) n = Some (n + int (work_count cal dir d (Suc m)))"
proof (induction m arbitrary: d n)
  case 0
  show ?case by (subst between_loop.simps) (simp add: Let_def work_count_Suc step_day_Suc)
next
  case (Suc m)
  let ?d = "addCalendarDays d dir"
  have ne: "?d \<noteq> step_day dir d (Suc (Suc m))"
    using assms by (simp add: step_day_def addCalendarDays_def)
  have "between_loop cal dir (step_day dir d (Suc (Suc m))) ?d n =
      between_loop cal dir (step_day dir ?d (Suc m)) (addCalendarDays ?d dir) (if isWorkingDay ?d cal then n + 1 else n)"
    using ne by (subst between_loop.simps) (simp add: Let_def step_day_Suc)
  also have "\<dots> = Some ((if isWorkingDay ?d cal then n + 1 else n) + int (work_count cal dir ?d (Suc m)))"
    by (rule Suc.IH)
  finally show ?case by (simp add: work_count_first [of cal dir d "Suc m"])
qed

lemma between_loop_aligned:
  assumes "between_loop cal dir b d n = Some r"
  shows "\<exists>k. b = step_day dir d k"
proof (rule between_loop.raw_induct [where P = "\<lambda>cal dir b d n r. \<exists>k. b = step_day dir d k", OF _ assms])
  fix f cal dir b d n r
  assume IH: "\<And>cal dir b d n r. f cal dir b d n = Some r \<Longrightarrow> \<exists>k. b = step_day dir d k"
    and eq: "(let n' = if isWorkingDay d cal then n + 1 else n
      in if d = b then Some n' else f cal dir b (addCalendarDays d dir) n') = Some r"
  show "\<exists>k. b = step_day dir d k"
  proof (cases "d = b")
    case True
    then show ?thesis by (auto intro!: exI [of _ 0])
  next
    case False
    with eq have "f cal dir b (addCalendarDays d dir) (if isWorkingDay d cal then n + 1 else n) = Some r"
      by (simp add: Let_def)
    with IH obtain k where "b = step_day dir (addCalendarDays d dir) k" by blast
    then show ?thesis by (metis step_day_Suc)
  qed
qed

lemma between_steps:
  assumes "dir = 1 \<or> dir = - 1" "0 < m"
  shows "workingDaysBetween d (step_day dir d m) cal = Some (Inr (dir * int (work_count cal dir d m)))"
proof -
  from assms(2) obtain j where j: "m = Suc j" by (cases m) auto
  have "d \<noteq> step_day dir d m" "(if d < step_day dir d m then 1 else - 1) = dir"
    using assms by (auto simp: step_day_def)
  then show ?thesis
    unfolding workingDaysBetween_def
    using between_loop_counts [of dir cal d j 0] assms(1) by (auto simp: j Let_def)
qed

section \<open>A concrete calendar\<close>

definition cal_weekdays :: PlanningCalendar where
  "cal_weekdays = \<lparr>workingWeekdays = [1, 2, 3, 4, 5], holidays = [''2026-05-01'']\<rparr>"

lemma walk_loop_code [code]:
  "walk_loop cal dir left d =
     (if 0 < left
      then (let d' = addCalendarDays d dir
            in walk_loop cal dir (if isWorkingDay d' cal then left - 1 else left) d')
      else Some d)"
  by (rule walk_loop.simps)

lemma between_loop_code [code]:
  "between_loop cal dir b d n =
     (let n' = (if isWorkingDay d cal then n + 1 else n)
      in if d = b then Some n' else between_loop cal dir b (addCalendarDays d dir) n')"
  by (rule between_loop.simps)

section \<open>Properties\<close>

text \<open>
  adding working days ends. With a working weekday in the calendar and room inside
  four-digit years the walk returns, after at most seven days for each working day and each
  holiday; the day it returns is a working day, and it has passed exactly \<open>n\<close> of them.
\<close>

theorem addWorkingDays_total:
  assumes "usable cal" "roomy cal d n"
  shows "\<exists>m \<le> walk_bound cal n. addWorkingDays d (int n) cal = Some (Inr (d + int m * DAY_MS))
     \<and> (0 < n \<longrightarrow> isWorkingDay (d + int m * DAY_MS) cal)
     \<and> card {k. 1 \<le> k \<and> k \<le> m \<and> isWorkingDay (d + int k * DAY_MS) cal} = n"
proof -
  obtain m where m: "m \<le> walk_bound cal n" "lands cal 1 d n m"
    "walk d (int n) 1 cal = Some (Inr (step_day 1 d m))"
    using walk_returns [OF assms, of 1] by blast
  then show ?thesis
    by (intro exI [of _ m]) (simp add: addWorkingDays_def lands_def work_count_def step_day_def)
qed

theorem addWorkingDays_total_witness:
  "\<exists>m \<le> walk_bound cal_weekdays 3. addWorkingDays 1777507200000 (int 3) cal_weekdays = Some (Inr (1777507200000 + int m * DAY_MS))
     \<and> (0 < (3::nat) \<longrightarrow> isWorkingDay (1777507200000 + int m * DAY_MS) cal_weekdays)
     \<and> card {k. 1 \<le> k \<and> k \<le> m \<and> isWorkingDay (1777507200000 + int k * DAY_MS) cal_weekdays} = 3"
  by (rule addWorkingDays_total) code_simp+

text \<open>
  counting undoes adding: the working days between a date and the result of adding
  \<open>n\<close> working days to it are \<open>n\<close>, and between it and the result of subtracting, \<open>-n\<close>.
\<close>

theorem between_add:
  assumes "0 \<le> n"
  shows "(addWorkingDays d n cal = Some (Inr e) \<longrightarrow> workingDaysBetween d e cal = Some (Inr n))
       \<and> (subtractWorkingDays d n cal = Some (Inr e) \<longrightarrow> workingDaysBetween d e cal = Some (Inr (- n)))"
proof -
  have "walk d n dir cal = Some (Inr e) \<Longrightarrow> workingDaysBetween d e cal = Some (Inr (dir * n))"
    if dir: "dir = 1 \<or> dir = - 1" for dir
  proof -
    assume "walk d n dir cal = Some (Inr e)"
    then obtain m where m: "lands cal dir d (nat n) m" "e = step_day dir d m" by (auto simp: walk_Inr)
    show ?thesis
    proof (cases "m = 0")
      case True
      with m assms show ?thesis by (auto simp: lands_def workingDaysBetween_def run_return_def)
    next
      case False
      with between_steps [OF dir, of m d cal] m assms show ?thesis by (simp add: lands_def)
    qed
  qed
  from this [of 1] this [of "- 1"] show ?thesis by (simp add: addWorkingDays_def subtractWorkingDays_def)
qed

theorem between_add_witness:
  "addWorkingDays 1777507200000 3 cal_weekdays = Some (Inr 1778025600000) \<and>
   workingDaysBetween 1777507200000 1778025600000 cal_weekdays = Some (Inr 3)"
proof -
  have "addWorkingDays 1777507200000 3 cal_weekdays = Some (Inr 1778025600000)" by code_simp
  with between_add [of 3 1777507200000 cal_weekdays 1778025600000] show ?thesis by simp
qed

text \<open>
  counting between two dates returns exactly when they are a whole number of days
  apart; otherwise the loop steps over its end and never stops.
\<close>

theorem between_returns_iff_aligned:
  "(\<exists>r. workingDaysBetween a b cal = Some r) \<longleftrightarrow> DAY_MS dvd b - a"
proof (cases "a = b")
  case True
  then show ?thesis by (simp add: workingDaysBetween_def run_return_def)
next
  case False
  define dir :: int where "dir = (if a < b then 1 else - 1)"
  have dir: "dir = 1 \<or> dir = - 1" "dir * dir = 1" by (simp_all add: dir_def)
  show ?thesis
  proof
    assume "\<exists>r. workingDaysBetween a b cal = Some r"
    then obtain n where "between_loop cal dir b (addCalendarDays a dir) 0 = Some n"
      using False by (auto simp: workingDaysBetween_def dir_def Let_def split: if_splits)
    then obtain k where "b = step_day dir (addCalendarDays a dir) k" using between_loop_aligned by blast
    then have "b - a = DAY_MS * (dir + dir * int k)"
      by (simp add: step_day_def addCalendarDays_def algebra_simps)
    then show "DAY_MS dvd b - a" by simp
  next
    assume "DAY_MS dvd b - a"
    then obtain q where q: "b - a = DAY_MS * q" by blast
    then have "b = step_day dir a (nat (dir * q))" "0 < nat (dir * q)"
      using False by (auto simp: step_day_def dir_def)
    with between_steps [OF dir(1)] show "\<exists>r. workingDaysBetween a b cal = Some r" by metis
  qed
qed

lemma step_day_back: "dir * dir = 1 \<Longrightarrow> k \<le> m \<Longrightarrow> step_day (- dir) (step_day dir d m) k = step_day dir d (m - k)"
  by (simp add: step_day_def of_nat_diff algebra_simps)

lemma lands_back:
  assumes "lands cal 1 d n m" "isWorkingDay d cal"
  shows "lands cal (- 1) (step_day 1 d m) n m"
proof (cases "n = 0")
  case True
  with assms show ?thesis by (simp add: lands_def)
next
  case False
  with assms have n: "0 < m" "work_count cal 1 d m = n" "isWorkingDay (step_day 1 d m) cal"
    by (auto simp: lands_def)
  let ?F = "\<lambda>k. isWorkingDay (step_day 1 d k) cal"
  have bk: "step_day (- 1) (step_day 1 d m) k = step_day 1 d (m - k)" if "k \<le> m" for k
    using step_day_back [of 1 k m d] that by simp
  have bij: "bij_betw (\<lambda>k. m - k) {k. k < m \<and> ?F k} {k. 1 \<le> k \<and> k \<le> m \<and> ?F (m - k)}"
    by (rule bij_betw_byWitness [where f' = "\<lambda>k. m - k"]) auto
  let ?S = "{k. 1 \<le> k \<and> k \<le> m \<and> ?F k}"
  have "{k. k < m \<and> ?F k} = insert 0 (?S - {m})"
    using n(1) assms(2) by (auto simp: Suc_le_eq)
  moreover have "m \<in> ?S" using n(1,3) by auto
  then have "Suc (card (?S - {m})) = card ?S" by (intro card_Suc_Diff1) auto
  moreover have "card (insert 0 (?S - {m})) = Suc (card (?S - {m}))" by (rule card_insert_disjoint) auto
  ultimately have "card {k. k < m \<and> ?F k} = card ?S" by argo
  then have "card {k. 1 \<le> k \<and> k \<le> m \<and> ?F (m - k)} = work_count cal 1 d m"
    using bij_betw_same_card [OF bij] by (simp only: work_count_def)
  moreover have "work_count cal (- 1) (step_day 1 d m) m = card {k. 1 \<le> k \<and> k \<le> m \<and> ?F (m - k)}"
    unfolding work_count_def by (rule arg_cong [where f = card]) (auto simp: bk)
  ultimately show ?thesis using n bk [of m] assms(2) False by (simp add: lands_def)
qed

lemma walk_back:
  assumes "isWorkingDay d cal" "addWorkingDays d n cal = Some (Inr e)"
  shows "subtractWorkingDays e n cal = Some (Inr d)"
proof -
  from assms(2) obtain m where m: "lands cal 1 d (nat n) m" "e = step_day 1 d m"
    and w: "0 < n \<longrightarrow> workingWeekdays cal \<noteq> []" by (auto simp: addWorkingDays_def walk_Inr)
  have "step_day (- 1) e m = d" using m(2) by (simp add: step_day_def)
  moreover have "lands cal (- 1) e (nat n) m" using lands_back [OF m(1) assms(1)] m(2) by simp
  ultimately show ?thesis
    using w by (auto simp: subtractWorkingDays_def walk_Inr intro!: exI [of _ m])
qed

text \<open>
  subtracting undoes adding from a working day. Started on a working day, going \<open>n\<close>
  working days forward and \<open>n\<close> back is the identity.
\<close>

theorem subtract_add:
  assumes "isWorkingDay d cal" "addWorkingDays d n cal = Some (Inr e)"
  shows "subtractWorkingDays e n cal = Some (Inr d)"
  using assms by (rule walk_back)

end
