(* ===== verification/Planning.thy ===== *)
theory Planning
  imports Planning_Dates
begin

text \<open>
  The pure planner of \<^verbatim>\<open>src/src/services/case-planning.service.ts\<close>: durations, the forward
  pass, the reverse pass and feasibility. The row updates of \<^verbatim>\<open>recalcInTx\<close> are in
  \<open>Timeline\<close>. The lemmas bound how far a stage can reach, so that both passes are shown to
  return; the properties state the shape of the plan.
\<close>

section \<open>Stages\<close>

datatype PlanDurationType = DT_DAYS | DT_WEEKS | DT_MONTHS

record PlanStageInput =
  durationValue :: "int option"
  durationType :: "PlanDurationType option"
  externalWaiting :: bool
  bufferDays :: "int option"
  dependsOnPrevious :: bool
  remainingDurationOverride :: "int option"
  startedAt :: "date option"

record ForwardResult =
  plannedStart :: date
  plannedFinish :: date

record ReverseResult =
  latestStart :: date
  latestFinish :: date

record Feasibility =
  feasible :: "bool option"
  deficitDays :: "int option"

text \<open>\<^verbatim>\<open>x ?? y\<close>\<close>
fun or_else :: "'a option \<Rightarrow> 'a \<Rightarrow> 'a" where
  "or_else None y = y"
| "or_else (Some x) y = x"

definition effectiveDuration :: "PlanStageInput \<Rightarrow> int option" where
  "effectiveDuration s =
     (case remainingDurationOverride s of Some v \<Rightarrow> Some v | None \<Rightarrow> durationValue s)"

definition occupiedEnd :: "date \<Rightarrow> PlanStageInput \<Rightarrow> PlanningCalendar \<Rightarrow> date run" where
  "occupiedEnd start s cal =
     (let v = or_else (effectiveDuration s) 0
      in if v = 0 then run_return start
         else case durationType s of
             Some DT_DAYS \<Rightarrow> (if externalWaiting s then run_return (addCalendarDays start (v - 1))
                             else addWorkingDays start (v - 1) cal)
           | Some DT_WEEKS \<Rightarrow> run_return (addCalendarDays start (v * 7 - 1))
           | Some DT_MONTHS \<Rightarrow> run_return (addCalendarDays (addMonths start v) (- 1))
           | None \<Rightarrow> run_return start)"

definition finish :: "date \<Rightarrow> PlanStageInput \<Rightarrow> PlanningCalendar \<Rightarrow> date run" where
  "finish start s cal =
     run_bind (occupiedEnd start s cal) (\<lambda>e. run_return (addCalendarDays e (or_else (bufferDays s) 0)))"

definition startFromFinish :: "date \<Rightarrow> PlanStageInput \<Rightarrow> PlanningCalendar \<Rightarrow> date run" where
  "startFromFinish fin s cal =
     (let occ = addCalendarDays fin (- (or_else (bufferDays s) 0));
          v = or_else (effectiveDuration s) 0
      in if v = 0 then run_return occ
         else case durationType s of
             Some DT_DAYS \<Rightarrow> (if externalWaiting s then run_return (addCalendarDays occ (- (v - 1)))
                             else subtractWorkingDays occ (v - 1) cal)
           | Some DT_WEEKS \<Rightarrow> run_return (addCalendarDays occ (- (v * 7 - 1)))
           | Some DT_MONTHS \<Rightarrow> run_return (addCalendarDays (addMonths occ (- v)) 1)
           | None \<Rightarrow> run_return occ)"

section \<open>The passes\<close>

text \<open>The forward loop; \<open>out\<close> holds the results of the stages before, \<open>out[i - 1]\<close> its last.\<close>

definition plan_start ::
  "date \<Rightarrow> PlanningCalendar \<Rightarrow> ForwardResult list \<Rightarrow> PlanStageInput \<Rightarrow> date run" where
  "plan_start now cal out s =
     (case startedAt s of
        Some t \<Rightarrow> run_return (dateOnly t)
      | None \<Rightarrow> if dependsOnPrevious s \<and> out \<noteq> [] then addWorkingDays (plannedFinish (last out)) 1 cal
                else run_return now)"

fun forward_loop ::
  "date \<Rightarrow> PlanningCalendar \<Rightarrow> ForwardResult list \<Rightarrow> PlanStageInput list \<Rightarrow> ForwardResult list run" where
  "forward_loop now cal out [] = run_return out"
| "forward_loop now cal out (s # ss) =
     run_bind (plan_start now cal out s) (\<lambda>ps.
     run_bind (finish ps s cal) (\<lambda>pf.
     forward_loop now cal (out @ [\<lparr>plannedStart = ps, plannedFinish = pf\<rparr>]) ss))"

definition forwardPlan :: "PlanStageInput list \<Rightarrow> date \<Rightarrow> PlanningCalendar \<Rightarrow> ForwardResult list run" where
  "forwardPlan stages now calendar = forward_loop (dateOnly now) calendar [] stages"

text \<open>The reverse loop takes the stages from the last to the first; \<open>out\<close> holds the results
  of the stages after.\<close>

definition reverse_finish :: "date \<Rightarrow> PlanningCalendar \<Rightarrow> ReverseResult list \<Rightarrow> date run" where
  "reverse_finish target cal out =
     (case out of [] \<Rightarrow> run_return target
      | nxt # _ \<Rightarrow> subtractWorkingDays (latestStart nxt) 1 cal)"

fun reverse_loop ::
  "date \<Rightarrow> PlanningCalendar \<Rightarrow> ReverseResult list \<Rightarrow> PlanStageInput list \<Rightarrow> ReverseResult list run" where
  "reverse_loop target cal out [] = run_return out"
| "reverse_loop target cal out (s # ss) =
     run_bind (reverse_finish target cal out) (\<lambda>lf.
     run_bind (startFromFinish lf s cal) (\<lambda>ls.
     reverse_loop target cal (\<lparr>latestStart = ls, latestFinish = lf\<rparr> # out) ss))"

definition reversePlan :: "PlanStageInput list \<Rightarrow> date \<Rightarrow> PlanningCalendar \<Rightarrow> ReverseResult list run" where
  "reversePlan stages targetDate calendar =
     reverse_loop (dateOnly targetDate) calendar [] (rev stages)"

definition computeFeasibility :: "date option \<Rightarrow> date option \<Rightarrow> PlanningCalendar \<Rightarrow> Feasibility run" where
  "computeFeasibility finalPlannedFinish targetDate cal =
     (case (targetDate, finalPlannedFinish) of
        (Some t, Some f) \<Rightarrow>
          (if f \<le> t then run_return \<lparr>feasible = Some True, deficitDays = Some 0\<rparr>
           else run_bind (workingDaysBetween t f cal) (\<lambda>n.
             run_return \<lparr>feasible = Some False, deficitDays = Some n\<rparr>))
      | _ \<Rightarrow> run_return \<lparr>feasible = None, deficitDays = None\<rparr>)"

section \<open>How far a stage reaches\<close>

definition sane :: "PlanStageInput \<Rightarrow> bool" where
  "sane s \<longleftrightarrow> 0 \<le> or_else (effectiveDuration s) 0 \<and> 0 \<le> or_else (bufferDays s) 0"

definition stage_reach :: "PlanningCalendar \<Rightarrow> PlanStageInput \<Rightarrow> int" where
  "stage_reach cal s =
     (let v = or_else (effectiveDuration s) 0
      in int (walk_bound cal (nat v)) + 31 * v + or_else (bufferDays s) 0 + 3)"

lemma day_of_add [simp]: "day_of (addCalendarDays d n) = day_of d + n"
  by (simp add: day_of_def addCalendarDays_def)

lemma add_aligned [simp]: "DAY_MS dvd addCalendarDays d n \<longleftrightarrow> DAY_MS dvd d"
  by (simp add: addCalendarDays_def dvd_add_left_iff)

lemma step_aligned [simp]: "DAY_MS dvd step_day dir d m \<longleftrightarrow> DAY_MS dvd d"
  by (simp add: step_day_def dvd_add_left_iff)

lemma walk_bound_mono: "m \<le> n \<Longrightarrow> walk_bound cal m \<le> walk_bound cal n"
  by (simp add: walk_bound_def)

lemma not_early: "day_from_year 100 \<le> day_of d \<Longrightarrow> \<not> (0 \<le> getUTCFullYear d \<and> getUTCFullYear d \<le> 99)"
proof -
  assume a: "day_from_year 100 \<le> day_of d"
  have "getUTCFullYear d \<le> 99 \<Longrightarrow> False"
    using a year_of_day_bounds [of "day_of d"] day_from_year_mono [of "getUTCFullYear d + 1" 100]
    unfolding getUTCFullYear_def by linarith
  then show ?thesis by blast
qed

lemma year_100: "day_from_year 0 \<le> day_from_year 100"
  by (simp add: day_from_year_def)

lemma walk_span:
  assumes "usable cal" "dir = 1 \<or> dir = - 1"
    and "\<And>k. k \<le> walk_bound cal (nat n) \<Longrightarrow> plain_day (day_of d + dir * int k)"
  shows "\<exists>m \<le> walk_bound cal (nat n). lands cal dir d (nat n) m \<and> walk d n dir cal = Some (Inr (step_day dir d m))"
proof -
  obtain m where m: "m \<le> walk_bound cal (nat n)" "lands cal dir d (nat n) m"
    using lands_exists [OF work_count_bound [OF assms]] by blast
  moreover have "workingWeekdays cal \<noteq> []" using assms(1) by (auto simp: usable_def)
  ultimately show ?thesis by (auto simp: walk_Inr)
qed

lemma forward_span:
  assumes "usable cal" "day_from_year 100 \<le> day_of d" "day_of d + int (walk_bound cal (nat n)) < day_from_year 10000"
  shows "\<exists>m \<le> walk_bound cal (nat n). lands cal 1 d (nat n) m \<and> addWorkingDays d n cal = Some (Inr (step_day 1 d m))"
  unfolding addWorkingDays_def using assms year_100 by (intro walk_span) (auto simp: plain_day_def)

lemma backward_span:
  assumes "usable cal" "day_from_year 100 \<le> day_of d - int (walk_bound cal (nat n))" "day_of d < day_from_year 10000"
  shows "\<exists>m \<le> walk_bound cal (nat n). lands cal (- 1) d (nat n) m \<and> subtractWorkingDays d n cal = Some (Inr (step_day (- 1) d m))"
  unfolding subtractWorkingDays_def using assms year_100 by (intro walk_span) (auto simp: plain_day_def)

lemma occupied_reaches:
  assumes "usable cal" "sane s" "day_from_year 100 \<le> day_of start"
    and "day_of start + stage_reach cal s < day_from_year 10000"
  shows "\<exists>e. occupiedEnd start s cal = Some (Inr e) \<and> day_of start \<le> day_of e
    \<and> day_of e \<le> day_of start + stage_reach cal s - or_else (bufferDays s) 0 \<and> (DAY_MS dvd start \<longrightarrow> DAY_MS dvd e)"
proof -
  define v where "v = or_else (effectiveDuration s) 0"
  have v: "0 \<le> v" "0 \<le> or_else (bufferDays s) 0" using assms(2) by (simp_all add: sane_def v_def)
  have r: "stage_reach cal s = int (walk_bound cal (nat v)) + 31 * v + or_else (bufferDays s) 0 + 3"
    by (simp add: stage_reach_def v_def Let_def)
  have w: "int (walk_bound cal (nat (v - 1))) \<le> int (walk_bound cal (nat v))"
    by (simp add: walk_bound_mono)
  consider "v = 0 \<or> durationType s = None" | "0 < v" "durationType s = Some DT_DAYS" "externalWaiting s"
    | "0 < v" "durationType s = Some DT_DAYS" "\<not> externalWaiting s" | "0 < v" "durationType s = Some DT_WEEKS"
    | "0 < v" "durationType s = Some DT_MONTHS"
    using v PlanDurationType.exhaust by (metis le_less option.exhaust)
  then show ?thesis
  proof cases
    case 1
    then have "occupiedEnd start s cal = Some (Inr start)"
      by (auto simp: occupiedEnd_def v_def [symmetric] Let_def run_return_def)
    then show ?thesis using r v by auto
  next
    case 2
    then have "occupiedEnd start s cal = Some (Inr (addCalendarDays start (v - 1)))"
      by (simp add: occupiedEnd_def v_def [symmetric] Let_def run_return_def)
    then show ?thesis using r v 2(1) by auto
  next
    case 3
    then have o: "occupiedEnd start s cal = addWorkingDays start (v - 1) cal"
      by (simp add: occupiedEnd_def v_def [symmetric] Let_def)
    obtain m where "m \<le> walk_bound cal (nat (v - 1))" "addWorkingDays start (v - 1) cal = Some (Inr (step_day 1 start m))"
      using forward_span [OF assms(1,3), of "v - 1"] assms(4) w v unfolding r by force
    then show ?thesis using r v w o by (auto simp: day_of_step)
  next
    case 4
    then have "occupiedEnd start s cal = Some (Inr (addCalendarDays start (v * 7 - 1)))"
      by (simp add: occupiedEnd_def v_def [symmetric] Let_def run_return_def)
    then show ?thesis using r v 4(1) by auto
  next
    case 5
    then have "occupiedEnd start s cal = Some (Inr (addCalendarDays (addMonths start v) (- 1)))"
      by (simp add: occupiedEnd_def v_def [symmetric] Let_def run_return_def)
    then show ?thesis
      using r v 5(1) addMonths_forward [OF not_early [OF assms(3)] v(1)] addMonths_aligned [of start v] by auto
  qed
qed

lemma finish_reaches:
  assumes "usable cal" "sane s" "day_from_year 100 \<le> day_of start"
    and "day_of start + stage_reach cal s < day_from_year 10000"
  shows "\<exists>e. finish start s cal = Some (Inr e) \<and> day_of start \<le> day_of e
    \<and> day_of e \<le> day_of start + stage_reach cal s \<and> (DAY_MS dvd start \<longrightarrow> DAY_MS dvd e)"
proof -
  obtain e where "occupiedEnd start s cal = Some (Inr e)" "day_of start \<le> day_of e"
    "day_of e \<le> day_of start + stage_reach cal s - or_else (bufferDays s) 0" "DAY_MS dvd start \<longrightarrow> DAY_MS dvd e"
    using occupied_reaches [OF assms] by blast
  moreover have "0 \<le> or_else (bufferDays s) 0" using assms(2) by (simp add: sane_def)
  ultimately show ?thesis by (auto simp: finish_def run_return_def)
qed

lemma start_reaches:
  assumes "usable cal" "sane s" "day_from_year 100 \<le> day_of fin - stage_reach cal s"
    and "day_of fin < day_from_year 10000"
  shows "\<exists>e. startFromFinish fin s cal = Some (Inr e) \<and> day_of e \<le> day_of fin + 3
    \<and> day_of fin - stage_reach cal s \<le> day_of e \<and> (DAY_MS dvd fin \<longrightarrow> DAY_MS dvd e)"
proof -
  define v where "v = or_else (effectiveDuration s) 0"
  define occ where "occ = addCalendarDays fin (- (or_else (bufferDays s) 0))"
  have v: "0 \<le> v" "0 \<le> or_else (bufferDays s) 0" using assms(2) by (simp_all add: sane_def v_def)
  have o: "day_of occ = day_of fin - or_else (bufferDays s) 0" "DAY_MS dvd occ \<longleftrightarrow> DAY_MS dvd fin"
    by (simp_all add: occ_def)
  have r: "stage_reach cal s = int (walk_bound cal (nat v)) + 31 * v + or_else (bufferDays s) 0 + 3"
    by (simp add: stage_reach_def v_def Let_def)
  have w: "int (walk_bound cal (nat (v - 1))) \<le> int (walk_bound cal (nat v))"
    by (simp add: walk_bound_mono)
  have early: "day_from_year 100 \<le> day_of occ" using assms(3) v o unfolding r by linarith
  note defs = startFromFinish_def v_def [symmetric] occ_def [symmetric] Let_def run_return_def
  consider "v = 0 \<or> durationType s = None" | "0 < v" "durationType s = Some DT_DAYS" "externalWaiting s"
    | "0 < v" "durationType s = Some DT_DAYS" "\<not> externalWaiting s" | "0 < v" "durationType s = Some DT_WEEKS"
    | "0 < v" "durationType s = Some DT_MONTHS"
    using v PlanDurationType.exhaust by (metis le_less option.exhaust)
  then show ?thesis
  proof cases
    case 1
    then have "startFromFinish fin s cal = Some (Inr occ)" by (auto simp: defs)
    then show ?thesis using r v o by auto
  next
    case 2
    then have "startFromFinish fin s cal = Some (Inr (addCalendarDays occ (- (v - 1))))" by (simp add: defs)
    then show ?thesis using r v o 2(1) by auto
  next
    case 3
    then have s: "startFromFinish fin s cal = subtractWorkingDays occ (v - 1) cal" by (simp add: defs)
    obtain m where "m \<le> walk_bound cal (nat (v - 1))"
      "subtractWorkingDays occ (v - 1) cal = Some (Inr (step_day (- 1) occ m))"
      using backward_span [OF assms(1), of occ "v - 1"] assms(3,4) w v o unfolding r by force
    then show ?thesis using r v w o s by (auto simp: day_of_step)
  next
    case 4
    then have "startFromFinish fin s cal = Some (Inr (addCalendarDays occ (- (v * 7 - 1))))" by (simp add: defs)
    then show ?thesis using r v o 4(1) by auto
  next
    case 5
    then have "startFromFinish fin s cal = Some (Inr (addCalendarDays (addMonths occ (- v)) 1))" by (simp add: defs)
    then show ?thesis
      using r v o 5(1) addMonths_backward [OF not_early [OF early] v(1)] addMonths_aligned [of occ "- v"] by auto
  qed
qed

section \<open>The forward pass\<close>

definition plan_reach :: "PlanningCalendar \<Rightarrow> PlanStageInput list \<Rightarrow> int" where
  "plan_reach cal ss = sum_list (map (\<lambda>s. stage_reach cal s + int (walk_bound cal 1)) ss)"

lemma stage_reach_pos: "sane s \<Longrightarrow> 0 \<le> stage_reach cal s"
  by (simp add: sane_def stage_reach_def Let_def)

lemma plan_reach_pos: "\<forall>s \<in> set ss. sane s \<Longrightarrow> 0 \<le> plan_reach cal ss"
  by (induction ss) (auto simp: plan_reach_def dest: stage_reach_pos [of _ cal])

definition planned_in :: "int \<Rightarrow> int \<Rightarrow> ForwardResult \<Rightarrow> bool" where
  "planned_in lo hi r \<longleftrightarrow> lo \<le> day_of (plannedStart r) \<and> day_of (plannedStart r) \<le> day_of (plannedFinish r)
     \<and> day_of (plannedFinish r) \<le> hi \<and> DAY_MS dvd plannedStart r \<and> DAY_MS dvd plannedFinish r"

lemma planned_in_mono: "planned_in lo hi r \<Longrightarrow> hi \<le> hi' \<Longrightarrow> planned_in lo hi' r"
  by (simp add: planned_in_def)

definition in_days :: "int \<Rightarrow> int \<Rightarrow> date \<Rightarrow> bool" where
  "in_days lo hi d \<longleftrightarrow> lo \<le> day_of d \<and> day_of d \<le> hi \<and> DAY_MS dvd d"

lemma plan_start_reaches:
  assumes "usable cal" "day_from_year 100 \<le> lo" "hi + int (walk_bound cal 1) < day_from_year 10000"
    and "in_days lo hi now" "\<And>t. startedAt s = Some t \<Longrightarrow> in_days lo hi (dateOnly t)" "\<forall>r \<in> set out. planned_in lo hi r"
  shows "\<exists>d. plan_start now cal out s = Some (Inr d) \<and> in_days lo (hi + int (walk_bound cal 1)) d"
proof (cases "startedAt s = None \<and> dependsOnPrevious s \<and> out \<noteq> []")
  case True
  let ?p = "plannedFinish (last out)"
  have p: "lo \<le> day_of ?p" "day_of ?p \<le> hi" "DAY_MS dvd ?p"
    using assms(6) True last_in_set [of out] by (fastforce simp: planned_in_def)+
  then obtain m where "m \<le> walk_bound cal 1" "addWorkingDays ?p 1 cal = Some (Inr (step_day 1 ?p m))"
    using forward_span [OF assms(1), of ?p 1] assms(2,3) by force
  then show ?thesis using True p by (auto simp: plan_start_def in_days_def day_of_step)
next
  case False
  then show ?thesis
    using assms(4,5) by (cases "startedAt s") (auto simp: plan_start_def in_days_def run_return_def split: if_splits intro: order_trans)
qed

lemma forward_loop_returns:
  assumes "usable cal" "day_from_year 100 \<le> lo" "hi + plan_reach cal ss < day_from_year 10000" "in_days lo hi now"
    and "\<forall>s \<in> set ss. sane s \<and> (\<forall>t. startedAt s = Some t \<longrightarrow> in_days lo hi (dateOnly t))"
    and "\<forall>r \<in> set out. planned_in lo hi r"
  shows "\<exists>res. forward_loop now cal out ss = Some (Inr res) \<and> (\<forall>r \<in> set res. planned_in lo (hi + plan_reach cal ss) r)"
  using assms(3-)
proof (induction ss arbitrary: out hi)
  case Nil
  then show ?case by (simp add: plan_reach_def run_return_def)
next
  case (Cons s ss)
  let ?w = "int (walk_bound cal 1)" and ?hi = "hi + int (walk_bound cal 1) + stage_reach cal s"
  have pr: "plan_reach cal (s # ss) = stage_reach cal s + ?w + plan_reach cal ss" by (simp add: plan_reach_def)
  have pos: "0 \<le> stage_reach cal s" "0 \<le> plan_reach cal ss"
    using Cons.prems(3) by (auto intro: stage_reach_pos plan_reach_pos)
  obtain d where d: "plan_start now cal out s = Some (Inr d)" "in_days lo (hi + ?w) d"
    using plan_start_reaches [OF assms(1,2), of hi now s out] Cons.prems pr pos by force
  then obtain e where e: "finish d s cal = Some (Inr e)" "day_of d \<le> day_of e"
      "day_of e \<le> day_of d + stage_reach cal s" "DAY_MS dvd e"
    using finish_reaches [OF assms(1), of s d] assms(2) Cons.prems(1,3) pr pos by (force simp: in_days_def)
  let ?out = "out @ [\<lparr>plannedStart = d, plannedFinish = e\<rparr>]"
  have "\<exists>res. forward_loop now cal ?out ss = Some (Inr res) \<and> (\<forall>r \<in> set res. planned_in lo (?hi + plan_reach cal ss) r)"
  proof (rule Cons.IH)
    show "?hi + plan_reach cal ss < day_from_year 10000" using Cons.prems(1) pr by simp
    show "in_days lo ?hi now" using Cons.prems(2) pos by (simp add: in_days_def)
    show "\<forall>s \<in> set ss. sane s \<and> (\<forall>t. startedAt s = Some t \<longrightarrow> in_days lo ?hi (dateOnly t))"
      using Cons.prems(3) pos by (fastforce simp: in_days_def)
    show "\<forall>r \<in> set ?out. planned_in lo ?hi r"
      using Cons.prems(4) pos d e by (auto simp: planned_in_def in_days_def)
  qed
  then show ?case using d e pr by (simp add: algebra_simps)
qed

lemma forward_loop_Inr:
  assumes "forward_loop now cal out ss = Some (Inr res)"
  shows "length res = length out + length ss \<and> take (length out) res = out
    \<and> (\<forall>j < length ss. plan_start now cal (take (length out + j) res) (ss ! j) = Some (Inr (plannedStart (res ! (length out + j))))
        \<and> finish (plannedStart (res ! (length out + j))) (ss ! j) cal = Some (Inr (plannedFinish (res ! (length out + j)))))"
  using assms
proof (induction ss arbitrary: out)
  case (Cons s ss)
  then obtain ps pf where s: "plan_start now cal out s = Some (Inr ps)" "finish ps s cal = Some (Inr pf)"
    and l: "forward_loop now cal (out @ [\<lparr>plannedStart = ps, plannedFinish = pf\<rparr>]) ss = Some (Inr res)"
    by (auto simp: run_bind_Inr)
  note IH = Cons.IH [OF l]
  have len: "length out < length res" using IH by simp
  have t: "take (length out) res = out" "res ! length out = \<lparr>plannedStart = ps, plannedFinish = pf\<rparr>"
    using IH len by (simp_all add: take_Suc_conv_app_nth)
  show ?case
  proof (intro conjI allI impI)
    show "length res = length out + length (s # ss)" using IH by simp
    show "take (length out) res = out" by (rule t)
    fix j assume j: "j < length (s # ss)"
    show "plan_start now cal (take (length out + j) res) ((s # ss) ! j) = Some (Inr (plannedStart (res ! (length out + j))))"
      using IH s t j by (cases j) auto
    show "finish (plannedStart (res ! (length out + j))) ((s # ss) ! j) cal = Some (Inr (plannedFinish (res ! (length out + j))))"
      using IH s t j by (cases j) auto
  qed
qed simp

section \<open>The reverse pass\<close>

definition latest_in :: "int \<Rightarrow> int \<Rightarrow> ReverseResult \<Rightarrow> bool" where
  "latest_in lo hi r \<longleftrightarrow> in_days lo hi (latestStart r) \<and> in_days lo hi (latestFinish r)"

lemma in_days_mono: "in_days lo hi d \<Longrightarrow> lo' \<le> lo \<Longrightarrow> hi \<le> hi' \<Longrightarrow> in_days lo' hi' d"
  by (auto simp: in_days_def)

lemma reverse_finish_reaches:
  assumes "usable cal" "day_from_year 100 \<le> lo - int (walk_bound cal 1)" "hi < day_from_year 10000"
    and "in_days lo hi target" "\<forall>r \<in> set out. latest_in lo hi r"
  shows "\<exists>d. reverse_finish target cal out = Some (Inr d) \<and> in_days (lo - int (walk_bound cal 1)) hi d"
proof (cases out)
  case Nil
  then show ?thesis using assms(4) by (auto simp: reverse_finish_def run_return_def intro: in_days_mono)
next
  case (Cons r rs)
  then have p: "in_days lo hi (latestStart r)" using assms(5) by (simp add: latest_in_def)
  then obtain m where "m \<le> walk_bound cal 1"
    "subtractWorkingDays (latestStart r) 1 cal = Some (Inr (step_day (- 1) (latestStart r) m))"
    using backward_span [OF assms(1), of "latestStart r" 1] assms(2,3) by (force simp: in_days_def)
  then show ?thesis using Cons p by (auto simp: reverse_finish_def in_days_def day_of_step)
qed

lemma reverse_loop_returns:
  assumes "usable cal" "day_from_year 100 \<le> lo - plan_reach cal ss" "hi + plan_reach cal ss < day_from_year 10000"
    and "in_days lo hi target" "\<forall>s \<in> set ss. sane s" "\<forall>r \<in> set out. latest_in lo hi r"
  shows "\<exists>res. reverse_loop target cal out ss = Some (Inr res)
    \<and> (\<forall>r \<in> set res. latest_in (lo - plan_reach cal ss) (hi + plan_reach cal ss) r)"
  using assms(2-)
proof (induction ss arbitrary: out lo hi)
  case Nil
  then show ?case by (simp add: plan_reach_def run_return_def)
next
  case (Cons s ss)
  define w where "w = int (walk_bound cal 1)"
  have pr: "plan_reach cal (s # ss) = stage_reach cal s + w + plan_reach cal ss" by (simp add: plan_reach_def w_def)
  have pos: "3 \<le> stage_reach cal s" "0 \<le> plan_reach cal ss" "0 \<le> w"
    using Cons.prems(4) plan_reach_pos [of ss cal] by (simp_all add: sane_def stage_reach_def Let_def w_def)
  obtain d where d: "reverse_finish target cal out = Some (Inr d)" "in_days (lo - w) hi d"
    using reverse_finish_reaches [OF assms(1), of lo hi target out] Cons.prems pr pos by (force simp: w_def)
  then obtain e where e: "startFromFinish d s cal = Some (Inr e)" "day_of e \<le> day_of d + 3"
      "day_of d - stage_reach cal s \<le> day_of e" "DAY_MS dvd e"
    using start_reaches [OF assms(1), of s d] Cons.prems pr pos by (force simp: in_days_def)
  let ?lo = "lo - w - stage_reach cal s" and ?hi = "hi + w + stage_reach cal s"
  let ?out = "\<lparr>latestStart = e, latestFinish = d\<rparr> # out"
  have "\<exists>res. reverse_loop target cal ?out ss = Some (Inr res)
      \<and> (\<forall>r \<in> set res. latest_in (?lo - plan_reach cal ss) (?hi + plan_reach cal ss) r)"
  proof (rule Cons.IH)
    show "day_from_year 100 \<le> ?lo - plan_reach cal ss" "?hi + plan_reach cal ss < day_from_year 10000"
      using Cons.prems(1,2) pr by simp_all
    show "in_days ?lo ?hi target" using Cons.prems(3) pos by (auto intro: in_days_mono)
    show "\<forall>s \<in> set ss. sane s" using Cons.prems(4) by simp
    show "\<forall>r \<in> set ?out. latest_in ?lo ?hi r"
      using Cons.prems(5) pos d e by (auto simp: latest_in_def in_days_def)
  qed
  then show ?case using d e pr by (simp add: algebra_simps)
qed

lemma reverse_loop_Inr:
  assumes "reverse_loop target cal out rs = Some (Inr res)"
  shows "length res = length rs + length out \<and> drop (length rs) res = out
    \<and> (\<forall>j < length rs. let i = length rs - Suc j
        in reverse_finish target cal (drop (Suc i) res) = Some (Inr (latestFinish (res ! i)))
         \<and> startFromFinish (latestFinish (res ! i)) (rs ! j) cal = Some (Inr (latestStart (res ! i))))"
  using assms
proof (induction rs arbitrary: out)
  case (Cons s rs)
  then obtain lf ls where s: "reverse_finish target cal out = Some (Inr lf)" "startFromFinish lf s cal = Some (Inr ls)"
    and l: "reverse_loop target cal (\<lparr>latestStart = ls, latestFinish = lf\<rparr> # out) rs = Some (Inr res)"
    by (auto simp: run_bind_Inr)
  note IH = Cons.IH [OF l]
  have len: "length rs < length res" using IH by simp
  then have "res ! length rs # drop (Suc (length rs)) res = drop (length rs) res" by (rule Cons_nth_drop_Suc)
  then have t: "drop (Suc (length rs)) res = out" "res ! length rs = \<lparr>latestStart = ls, latestFinish = lf\<rparr>"
    using IH by simp_all
  show ?case
  proof (intro conjI allI impI)
    show "length res = length (s # rs) + length out" using IH by simp
    show "drop (length (s # rs)) res = out" using t by simp
    fix j assume j: "j < length (s # rs)"
    show "let i = length (s # rs) - Suc j
        in reverse_finish target cal (drop (Suc i) res) = Some (Inr (latestFinish (res ! i)))
         \<and> startFromFinish (latestFinish (res ! i)) ((s # rs) ! j) cal = Some (Inr (latestStart (res ! i)))"
      using IH s t j by (cases j) (auto simp: Let_def)
  qed
qed simp

lemma reversePlan_Inr:
  assumes "reversePlan stages target cal = Some (Inr out)"
  shows "length out = length stages \<and> (\<forall>i < length stages.
      reverse_finish (dateOnly target) cal (drop (Suc i) out) = Some (Inr (latestFinish (out ! i)))
      \<and> startFromFinish (latestFinish (out ! i)) (stages ! i) cal = Some (Inr (latestStart (out ! i))))"
proof -
  note r = reverse_loop_Inr [OF assms [unfolded reversePlan_def]]
  show ?thesis
  proof (intro conjI allI impI)
    show "length out = length stages" using r by simp
    fix i assume i: "i < length stages"
    define j where "j = length stages - Suc i"
    have j: "j < length (rev stages)" "length (rev stages) - Suc j = i" "rev stages ! j = stages ! i"
      using i by (simp_all add: j_def rev_nth)
    then show "reverse_finish (dateOnly target) cal (drop (Suc i) out) = Some (Inr (latestFinish (out ! i)))"
      "startFromFinish (latestFinish (out ! i)) (stages ! i) cal = Some (Inr (latestStart (out ! i)))"
      using r [THEN conjunct2, THEN conjunct2, rule_format, OF j(1)] by (simp_all add: Let_def)
  qed
qed

lemma one_working_day:
  assumes "addWorkingDays d 1 cal = Some (Inr e)"
  shows "d < e \<and> isWorkingDay e cal \<and> workingDaysBetween d e cal = Some (Inr 1)"
proof -
  obtain m where m: "lands cal 1 d 1 m" "e = step_day 1 d m" using assms by (auto simp: addWorkingDays_def walk_Inr)
  then show ?thesis using between_steps [of 1 m d cal] by (auto simp: lands_def step_day_def)
qed

lemma one_working_day_back:
  assumes "subtractWorkingDays d 1 cal = Some (Inr e)"
  shows "e < d \<and> isWorkingDay e cal \<and> workingDaysBetween d e cal = Some (Inr (- 1))"
proof -
  obtain m where m: "lands cal (- 1) d 1 m" "e = step_day (- 1) d m" using assms by (auto simp: subtractWorkingDays_def walk_Inr)
  then show ?thesis using between_steps [of "- 1" m d cal] by (auto simp: lands_def step_day_def)
qed

lemma finish_occupied:
  "finish start s cal = Some (Inr f) \<longleftrightarrow>
     (\<exists>e. occupiedEnd start s cal = Some (Inr e) \<and> f = addCalendarDays e (or_else (bufferDays s) 0))"
  by (auto simp: finish_def run_bind_Inr run_return_def)

section \<open>Properties\<close>

text \<open>
  the forward plan keeps the order of the work. One result for each stage, in order. A
  stage already started keeps the day it started; a stage that depends on the one before it
  starts on the first working day strictly after that one's planned finish; any other stage
  starts today. Its planned finish is the finish computed from that start.
\<close>

theorem forward_chain:
  assumes "forwardPlan stages now cal = Some (Inr out)" "i < length stages"
  shows "length out = length stages
    \<and> finish (plannedStart (out ! i)) (stages ! i) cal = Some (Inr (plannedFinish (out ! i)))
    \<and> (\<forall>t. startedAt (stages ! i) = Some t \<longrightarrow> plannedStart (out ! i) = dateOnly t)
    \<and> (startedAt (stages ! i) = None \<and> dependsOnPrevious (stages ! i) \<and> 0 < i \<longrightarrow>
         plannedFinish (out ! (i - 1)) < plannedStart (out ! i) \<and> isWorkingDay (plannedStart (out ! i)) cal
         \<and> workingDaysBetween (plannedFinish (out ! (i - 1))) (plannedStart (out ! i)) cal = Some (Inr 1))
    \<and> (startedAt (stages ! i) = None \<and> \<not> (dependsOnPrevious (stages ! i) \<and> 0 < i) \<longrightarrow>
         plannedStart (out ! i) = dateOnly now)"
proof -
  note f = forward_loop_Inr [OF assms(1) [unfolded forwardPlan_def], simplified]
  from f assms(2) have s: "plan_start (dateOnly now) cal (take i out) (stages ! i) = Some (Inr (plannedStart (out ! i)))"
    "finish (plannedStart (out ! i)) (stages ! i) cal = Some (Inr (plannedFinish (out ! i)))" by simp_all
  have len: "length out = length stages" using f by simp
  have l: "0 < i \<Longrightarrow> take i out \<noteq> [] \<and> last (take i out) = out ! (i - 1)"
    using assms(2) len last_conv_nth [of "take i out"] by (cases "out = []") auto
  show ?thesis
    using s l len one_working_day by (auto simp: plan_start_def run_return_def split: if_splits)
qed

text \<open>
  planning forward always ends. With a working weekday in the calendar, durations and
  buffers that are not negative, and every given date between year 100 and a horizon that
  leaves room for the stages before year 10000, the forward plan is computed, and every
  planned stage starts no later than it finishes, inside that room, on whole days.
\<close>

theorem forward_returns:
  assumes "usable cal" "\<forall>s \<in> set stages. sane s"
    and "in_days lo hi (dateOnly now)" "\<forall>s \<in> set stages. \<forall>t. startedAt s = Some t \<longrightarrow> in_days lo hi (dateOnly t)"
    and "day_from_year 100 \<le> lo" "hi + plan_reach cal stages < day_from_year 10000"
  shows "\<exists>out. forwardPlan stages now cal = Some (Inr out) \<and> (\<forall>r \<in> set out.
      plannedStart r \<le> plannedFinish r \<and> in_days lo (hi + plan_reach cal stages) (plannedStart r)
      \<and> in_days lo (hi + plan_reach cal stages) (plannedFinish r))"
proof -
  obtain out where out: "forwardPlan stages now cal = Some (Inr out)"
    "\<forall>r \<in> set out. planned_in lo (hi + plan_reach cal stages) r"
    using forward_loop_returns [OF assms(1,5,6,3), of "[]"] assms(2,4) by (auto simp: forwardPlan_def)
  moreover have "planned_in lo h r \<Longrightarrow> plannedStart r \<le> plannedFinish r \<and> in_days lo h (plannedStart r) \<and> in_days lo h (plannedFinish r)" for h r
    by (auto simp: planned_in_def in_days_def day_of_def)
  ultimately show ?thesis by blast
qed

text \<open>
  the reverse plan always ends under the same conditions, and it is chained: the last
  stage may finish on the target date at the latest, every earlier one on the last working
  day strictly before the latest start of the stage after it, and its latest start is
  computed back from that.
\<close>

theorem reverse_chain:
  assumes "usable cal" "\<forall>s \<in> set stages. sane s"
    and "in_days lo hi (dateOnly target)"
    and "day_from_year 100 \<le> lo - plan_reach cal stages" "hi + plan_reach cal stages < day_from_year 10000"
  shows "\<exists>out. reversePlan stages target cal = Some (Inr out) \<and> length out = length stages \<and> (\<forall>i < length stages.
      startFromFinish (latestFinish (out ! i)) (stages ! i) cal = Some (Inr (latestStart (out ! i)))
      \<and> (Suc i = length stages \<longrightarrow> latestFinish (out ! i) = dateOnly target)
      \<and> (Suc i < length stages \<longrightarrow> latestFinish (out ! i) < latestStart (out ! Suc i) \<and> isWorkingDay (latestFinish (out ! i)) cal
           \<and> workingDaysBetween (latestStart (out ! Suc i)) (latestFinish (out ! i)) cal = Some (Inr (- 1))))"
proof -
  have rev: "plan_reach cal (rev stages) = plan_reach cal stages" by (simp add: plan_reach_def rev_map [symmetric])
  obtain out where out: "reversePlan stages target cal = Some (Inr out)"
    using reverse_loop_returns [OF assms(1), of lo "rev stages" hi "dateOnly target" "[]"] assms(2-)
    by (auto simp: reversePlan_def rev)
  note r = reversePlan_Inr [OF out]
  have "startFromFinish (latestFinish (out ! i)) (stages ! i) cal = Some (Inr (latestStart (out ! i)))
      \<and> (Suc i = length stages \<longrightarrow> latestFinish (out ! i) = dateOnly target)
      \<and> (Suc i < length stages \<longrightarrow> latestFinish (out ! i) < latestStart (out ! Suc i) \<and> isWorkingDay (latestFinish (out ! i)) cal
           \<and> workingDaysBetween (latestStart (out ! Suc i)) (latestFinish (out ! i)) cal = Some (Inr (- 1)))"
    if i: "i < length stages" for i
  proof -
    from r i have f: "reverse_finish (dateOnly target) cal (drop (Suc i) out) = Some (Inr (latestFinish (out ! i)))"
      "startFromFinish (latestFinish (out ! i)) (stages ! i) cal = Some (Inr (latestStart (out ! i)))"
      "length out = length stages" by simp_all
    have "Suc i < length stages \<Longrightarrow> drop (Suc i) out = out ! Suc i # drop (Suc (Suc i)) out"
      using f(3) Cons_nth_drop_Suc [of "Suc i" out] by simp
    then show ?thesis
      using f one_working_day_back by (auto simp: reverse_finish_def run_return_def)
  qed
  with out r show ?thesis by blast
qed

text \<open>
  for stages measured in days, weeks or nothing, going back from the finish recovers the
  start: always for calendar days, weeks and milestones, and for working days whenever the
  stage starts on one.
\<close>

theorem start_of_finish:
  assumes "finish start s cal = Some (Inr f)" "durationType s \<noteq> Some DT_MONTHS"
    and "durationType s = Some DT_DAYS \<and> \<not> externalWaiting s \<longrightarrow> isWorkingDay start cal"
  shows "startFromFinish f s cal = Some (Inr start)"
proof -
  have undo: "addCalendarDays (addCalendarDays d n) (- n) = d"
    "addCalendarDays (addCalendarDays d (n - 1)) (1 - n) = d" for d n by (simp_all add: addCalendarDays_def algebra_simps)
  show ?thesis
    using assms walk_back undo
    by (auto simp: finish_occupied occupiedEnd_def startFromFinish_def Let_def run_return_def
        split: if_splits option.splits PlanDurationType.splits)
qed

text \<open>
  a plan is feasible exactly when its final finish is no later than the target; the
  deficit is then 0, otherwise the number of working days after the target up to the final
  finish, which is never negative. Without a target or a stage nothing is claimed.
\<close>

theorem feasibility_correct:
  assumes "DAY_MS dvd t" "DAY_MS dvd f"
  shows "computeFeasibility None target cal = run_return \<lparr>feasible = None, deficitDays = None\<rparr>
    \<and> computeFeasibility final None cal = run_return \<lparr>feasible = None, deficitDays = None\<rparr>
    \<and> (\<exists>n. computeFeasibility (Some f) (Some t) cal = run_return \<lparr>feasible = Some (f \<le> t), deficitDays = Some n\<rparr>
         \<and> (f \<le> t \<longrightarrow> n = 0)
         \<and> n = int (card {k. 1 \<le> k \<and> t + int k * DAY_MS \<le> f \<and> isWorkingDay (t + int k * DAY_MS) cal}))"
proof -
  have "\<exists>n. computeFeasibility (Some f) (Some t) cal = run_return \<lparr>feasible = Some (f \<le> t), deficitDays = Some n\<rparr>
         \<and> (f \<le> t \<longrightarrow> n = 0)
         \<and> n = int (card {k. 1 \<le> k \<and> t + int k * DAY_MS \<le> f \<and> isWorkingDay (t + int k * DAY_MS) cal})"
  proof (cases "f \<le> t")
    case True
    then have e: "{k. 1 \<le> k \<and> t + int k * DAY_MS \<le> f \<and> isWorkingDay (t + int k * DAY_MS) cal} = {}" by auto
    show ?thesis unfolding e computeFeasibility_def using True by simp
  next
    case False
    obtain a b where "t = DAY_MS * a" "f = DAY_MS * b" using assms by blast
    then have m: "0 < nat (b - a)" "f = step_day 1 t (nat (b - a))" using False by (auto simp: step_day_def)
    define m where "m = nat (b - a)"
    have f: "f = step_day 1 t m" "0 < m" using m by (simp_all add: m_def)
    have "{k. 1 \<le> k \<and> k \<le> m \<and> isWorkingDay (step_day 1 t k) cal}
        = {k. 1 \<le> k \<and> t + int k * DAY_MS \<le> f \<and> isWorkingDay (t + int k * DAY_MS) cal}"
      using f by (auto simp: step_day_def)
    then show ?thesis
      using False between_steps [of 1 m t cal] f
      by (auto simp: computeFeasibility_def run_return_def work_count_def)
  qed
  then show ?thesis by (simp add: computeFeasibility_def split: option.splits)
qed

text \<open>
  Months are not undone: a stage of one month started on the last day of January finishes on
  27 February, from which the start computed back is 28 January.
\<close>

lemma months_not_undone:
  "let s = \<lparr>durationValue = Some 1, durationType = Some DT_MONTHS, externalWaiting = False, bufferDays = None,
            dependsOnPrevious = False, remainingDurationOverride = None, startedAt = None\<rparr>
   in finish 1769817600000 s cal_weekdays = Some (Inr 1772150400000)
    \<and> startFromFinish 1772150400000 s cal_weekdays = Some (Inr 1769558400000)"
  by code_simp

section \<open>A concrete plan\<close>

definition stage_collect :: PlanStageInput where
  "stage_collect = \<lparr>durationValue = Some 3, durationType = Some DT_DAYS, externalWaiting = False, bufferDays = Some 1,
     dependsOnPrevious = True, remainingDurationOverride = None, startedAt = None\<rparr>"

definition stage_review :: PlanStageInput where
  "stage_review = \<lparr>durationValue = Some 1, durationType = Some DT_WEEKS, externalWaiting = False, bufferDays = None,
     dependsOnPrevious = True, remainingDurationOverride = None, startedAt = None\<rparr>"

theorem forward_chain_witness:
  "\<exists>out. forwardPlan [stage_collect, stage_review] 1777550400000 cal_weekdays = Some (Inr out)
     \<and> plannedFinish (out ! 0) < plannedStart (out ! 1) \<and> isWorkingDay (plannedStart (out ! 1)) cal_weekdays"
proof -
  have o: "forwardPlan [stage_collect, stage_review] 1777550400000 cal_weekdays =
      Some (Inr [\<lparr>plannedStart = 1777507200000, plannedFinish = 1778025600000\<rparr>,
        \<lparr>plannedStart = 1778112000000, plannedFinish = 1778630400000\<rparr>])" by code_simp
  have s: "startedAt ([stage_collect, stage_review] ! 1) = None \<and> dependsOnPrevious ([stage_collect, stage_review] ! 1)"
    by code_simp
  from forward_chain [OF o, of 1] s o show ?thesis by fastforce
qed

theorem forward_returns_witness:
  "\<exists>out. forwardPlan [stage_collect, stage_review] 1777550400000 cal_weekdays = Some (Inr out)"
proof -
  have "usable cal_weekdays" by code_simp
  moreover have "\<forall>s \<in> set [stage_collect, stage_review]. sane s" by code_simp
  moreover have "in_days 20000 21000 (dateOnly 1777550400000)" by code_simp
  moreover have "\<forall>s \<in> set [stage_collect, stage_review]. \<forall>t. startedAt s = Some t \<longrightarrow> in_days 20000 21000 (dateOnly t)"
    by (simp add: stage_collect_def stage_review_def)
  moreover have "day_from_year 100 \<le> 20000" by code_simp
  moreover have "21000 + plan_reach cal_weekdays [stage_collect, stage_review] < day_from_year 10000" by code_simp
  ultimately show ?thesis using forward_returns [of cal_weekdays "[stage_collect, stage_review]" 20000 21000 1777550400000] by blast
qed

theorem reverse_chain_witness:
  "\<exists>out. reversePlan [stage_collect, stage_review] 1777550400000 cal_weekdays = Some (Inr out)
     \<and> latestFinish (out ! 0) < latestStart (out ! 1)"
proof -
  have "usable cal_weekdays" by code_simp
  moreover have "\<forall>s \<in> set [stage_collect, stage_review]. sane s" by code_simp
  moreover have "in_days 20000 21000 (dateOnly 1777550400000)" by code_simp
  moreover have "day_from_year 100 \<le> 20000 - plan_reach cal_weekdays [stage_collect, stage_review]" by code_simp
  moreover have "21000 + plan_reach cal_weekdays [stage_collect, stage_review] < day_from_year 10000" by code_simp
  ultimately obtain out where "reversePlan [stage_collect, stage_review] 1777550400000 cal_weekdays = Some (Inr out)"
    "\<forall>i < length [stage_collect, stage_review]. Suc i < length [stage_collect, stage_review] \<longrightarrow> latestFinish (out ! i) < latestStart (out ! Suc i)"
    using reverse_chain [of cal_weekdays "[stage_collect, stage_review]" 20000 21000 1777550400000] by blast
  then show ?thesis by fastforce
qed

theorem feasibility_correct_witness:
  "\<exists>n. computeFeasibility (Some 1778025600000) (Some 1777507200000) cal_weekdays
       = run_return \<lparr>feasible = Some False, deficitDays = Some n\<rparr>"
  using feasibility_correct [of 1777507200000 1778025600000 None cal_weekdays None] by fastforce

end
