(* ===== verification/Sla.thy ===== *)
theory Sla
  imports Planning
begin

text \<open>
  The deadline state of a stage, \<^verbatim>\<open>src/src/services/case-sla.compute.ts\<close>, and the statuses
  of a stage from the schema. Numbers of the source are doubles; \<open>rnd\<close> is the rounding of
  one operation to a double, of which only monotonicity is used.
\<close>

datatype CaseStageStatus =
  SS_PENDING | SS_READY | SS_IN_PROGRESS | SS_WAITING_EXTERNAL | SS_BLOCKED | SS_COMPLETED | SS_SKIPPED

datatype CaseStageSlaState =
  SLA_ON_TRACK | SLA_AT_RISK | SLA_OVERDUE | SLA_WAITING_EXTERNAL | SLA_COMPLETED_ON_TIME
  | SLA_COMPLETED_LATE | SLA_EXCEPTION_APPROVED

definition DEFAULT_AT_RISK_PERCENT :: int where "DEFAULT_AT_RISK_PERCENT = 80"
definition DEFAULT_WARN_DAYS_REMAINING :: int where "DEFAULT_WARN_DAYS_REMAINING = 2"

record SlaStageInput =
  sla_status :: CaseStageStatus
  sla_completedAt :: "date option"
  sla_plannedStart :: "date option"
  sla_plannedFinish :: "date option"
  sla_atRiskPercent :: "int option"
  sla_warnDaysRemaining :: "int option"
  sla_hardBlock :: bool
  sla_hardBlockUnlockedAt :: "date option"
  sla_exceptionApproved :: bool

definition elapsedPercent :: "(rat \<Rightarrow> rat) \<Rightarrow> date \<Rightarrow> date option \<Rightarrow> date \<Rightarrow> rat" where
  "elapsedPercent rnd today ps pf =
     (case ps of
        Some st \<Rightarrow> if st < pf then rnd (rnd (of_int (today - st) / of_int (pf - st)) * 100) else 100
      | None \<Rightarrow> 100)"

definition computeStageSlaState ::
  "(rat \<Rightarrow> rat) \<Rightarrow> SlaStageInput \<Rightarrow> date \<Rightarrow> PlanningCalendar \<Rightarrow> CaseStageSlaState option run" where
  "computeStageSlaState rnd stage now cal =
     (if sla_status stage = SS_COMPLETED
      then run_return (case sla_plannedFinish stage of
             None \<Rightarrow> None
           | Some pf \<Rightarrow>
               (case sla_completedAt stage of
                  None \<Rightarrow> Some SLA_COMPLETED_ON_TIME
                | Some c \<Rightarrow> Some (if dateOnly c \<le> pf then SLA_COMPLETED_ON_TIME else SLA_COMPLETED_LATE)))
      else if sla_status stage = SS_SKIPPED then run_return None
      else if sla_exceptionApproved stage then run_return (Some SLA_EXCEPTION_APPROVED)
      else if sla_status stage = SS_WAITING_EXTERNAL then run_return (Some SLA_WAITING_EXTERNAL)
      else if sla_status stage = SS_BLOCKED then run_return (Some SLA_OVERDUE)
      else case sla_plannedFinish stage of
             None \<Rightarrow> run_return None
           | Some pf \<Rightarrow>
               (let today = dateOnly now
                in if pf < today then run_return (Some SLA_OVERDUE)
                   else if of_int (or_else (sla_atRiskPercent stage) DEFAULT_AT_RISK_PERCENT)
                             \<le> elapsedPercent rnd today (sla_plannedStart stage) pf
                   then run_return (Some SLA_AT_RISK)
                   else run_bind (workingDaysBetween today pf cal) (\<lambda>n.
                     run_return (Some (if n \<le> or_else (sla_warnDaysRemaining stage) DEFAULT_WARN_DAYS_REMAINING
                                       then SLA_AT_RISK else SLA_ON_TRACK)))))"

definition shouldHardBlock :: "SlaStageInput \<Rightarrow> CaseStageSlaState option \<Rightarrow> bool" where
  "shouldHardBlock stage slaState \<longleftrightarrow>
     slaState = Some SLA_OVERDUE \<and> sla_hardBlock stage \<and> sla_hardBlockUnlockedAt stage = None
     \<and> sla_status stage \<noteq> SS_BLOCKED"

section \<open>Working days left\<close>

definition days_left :: "PlanningCalendar \<Rightarrow> date \<Rightarrow> date \<Rightarrow> nat" where
  "days_left cal t f = card {k. 1 \<le> k \<and> t + int k * DAY_MS \<le> f \<and> isWorkingDay (t + int k * DAY_MS) cal}"

lemma between_days_left:
  assumes "DAY_MS dvd t" "DAY_MS dvd f" "t \<le> f"
  shows "workingDaysBetween t f cal = Some (Inr (int (days_left cal t f)))"
proof (cases "t = f")
  case True
  then have e: "{k. 1 \<le> k \<and> t + int k * DAY_MS \<le> f \<and> isWorkingDay (t + int k * DAY_MS) cal} = {}" by auto
  show ?thesis unfolding days_left_def e using True by (simp add: workingDaysBetween_def run_return_def)
next
  case False
  obtain a b where "t = DAY_MS * a" "f = DAY_MS * b" using assms by blast
  then have m: "0 < nat (b - a)" "f = step_day 1 t (nat (b - a))" using False assms(3) by (auto simp: step_day_def)
  have e: "{k. 1 \<le> k \<and> t + int k * DAY_MS \<le> f \<and> isWorkingDay (t + int k * DAY_MS) cal}
      = {k. 1 \<le> k \<and> k \<le> nat (b - a) \<and> isWorkingDay (step_day 1 t k) cal}"
    unfolding m(2) by (auto simp: step_day_def)
  show ?thesis unfolding days_left_def e using between_steps [of 1 "nat (b - a)" t cal] m by (simp add: work_count_def)
qed

lemma days_left_antimono:
  assumes "DAY_MS dvd t" "DAY_MS dvd t'" "t \<le> t'"
  shows "days_left cal t' f \<le> days_left cal t f"
proof -
  obtain a b where ab: "t = DAY_MS * a" "t' = DAY_MS * b" using assms by blast
  then have t': "t' = t + int (nat (b - a)) * DAY_MS" using assms(3) by simp
  let ?S = "\<lambda>t. {k. 1 \<le> k \<and> t + int k * DAY_MS \<le> f \<and> isWorkingDay (t + int k * DAY_MS) cal}"
  have "finite (?S t)"
    by (rule finite_subset [of _ "{..nat (f - t)}"]) auto
  moreover have "(\<lambda>k. k + nat (b - a)) ` ?S t' \<subseteq> ?S t"
    unfolding t' by (auto simp: algebra_simps)
  ultimately have "card ((\<lambda>k. k + nat (b - a)) ` ?S t') \<le> card (?S t)" by (rule card_mono)
  moreover have "card ((\<lambda>k. k + nat (b - a)) ` ?S t') = card (?S t')" by (rule card_image) (simp add: inj_on_def)
  ultimately show ?thesis by (simp add: days_left_def)
qed

lemma dateOnly_mono:
  assumes "day_from_year 100 \<le> day_of s" "s \<le> t"
  shows "dateOnly s \<le> dateOnly t"
proof -
  have d: "day_of s \<le> day_of t" using assms(2) by (simp add: day_of_def zdiv_mono1)
  with assms(1) have "day_from_year 100 \<le> day_of t" by simp
  then show ?thesis using d dateOnly_eq [OF not_early [OF assms(1)]] dateOnly_eq [of t] not_early [of t] by simp
qed

lemma elapsed_mono:
  assumes "mono rnd" "t \<le> t'"
  shows "elapsedPercent rnd t ps pf \<le> elapsedPercent rnd t' ps pf"
proof -
  have "rnd (rnd (of_int (t - st) / of_int (pf - st)) * 100) \<le> rnd (rnd (of_int (t' - st) / of_int (pf - st)) * 100)"
    if "st < pf" for st
  proof -
    have "(of_int (t - st) :: rat) / of_int (pf - st) \<le> of_int (t' - st) / of_int (pf - st)"
      using assms(2) that by (intro divide_right_mono) simp_all
    then have "rnd (of_int (t - st) / of_int (pf - st)) \<le> rnd (of_int (t' - st) / of_int (pf - st))"
      using assms(1) by (rule monoD [rotated])
    then have "rnd (of_int (t - st) / of_int (pf - st)) * 100 \<le> rnd (of_int (t' - st) / of_int (pf - st)) * 100"
      by (rule mult_right_mono) simp
    then show ?thesis using assms(1) by (rule monoD [rotated])
  qed
  then show ?thesis by (auto simp: elapsedPercent_def split: option.splits)
qed

section \<open>Properties\<close>

definition running :: "SlaStageInput \<Rightarrow> bool" where
  "running s \<longleftrightarrow> sla_status s \<in> {SS_PENDING, SS_READY, SS_IN_PROGRESS} \<and> \<not> sla_exceptionApproved s"

fun severity :: "CaseStageSlaState \<Rightarrow> nat" where
  "severity SLA_ON_TRACK = 0"
| "severity SLA_AT_RISK = 1"
| "severity SLA_OVERDUE = 2"
| "severity _ = 3"

text \<open>The state of a running stage with a planned finish.\<close>

lemma running_state:
  assumes "running s" "sla_plannedFinish s = Some f" "DAY_MS dvd f"
  shows "computeStageSlaState rnd s now cal = Some (Inr (Some
    (if f < dateOnly now then SLA_OVERDUE
     else if of_int (or_else (sla_atRiskPercent s) DEFAULT_AT_RISK_PERCENT)
               \<le> elapsedPercent rnd (dateOnly now) (sla_plannedStart s) f
        \<or> int (days_left cal (dateOnly now) f) \<le> or_else (sla_warnDaysRemaining s) DEFAULT_WARN_DAYS_REMAINING
     then SLA_AT_RISK else SLA_ON_TRACK)))"
proof (cases "f < dateOnly now")
  case True
  then show ?thesis using assms by (auto simp: computeStageSlaState_def running_def Let_def run_return_def)
next
  case False
  then have "workingDaysBetween (dateOnly now) f cal = Some (Inr (int (days_left cal (dateOnly now) f)))"
    using assms(3) by (intro between_days_left dateOnly_aligned) simp_all
  then show ?thesis
    using assms(1,2) False by (auto simp: computeStageSlaState_def running_def Let_def run_return_def)
qed

text \<open>
  deadlines only get worse. For a stage that is pending, ready or in progress, with a
  planned finish and no approved exception, the state is always computed, it is one of on
  track, at risk and overdue, and a later moment never gives a better one.
\<close>

theorem sla_worsens:
  assumes "running s" "sla_plannedFinish s = Some f" "DAY_MS dvd f" "mono rnd"
    and "day_from_year 100 \<le> day_of now" "now \<le> now'"
  shows "\<exists>a b. computeStageSlaState rnd s now cal = Some (Inr (Some a))
     \<and> computeStageSlaState rnd s now' cal = Some (Inr (Some b)) \<and> severity a \<le> severity b \<and> severity b \<le> 2"
proof -
  have d: "dateOnly now \<le> dateOnly now'" by (rule dateOnly_mono [OF assms(5,6)])
  have "days_left cal (dateOnly now') f \<le> days_left cal (dateOnly now) f"
    by (rule days_left_antimono [OF dateOnly_aligned dateOnly_aligned d])
  moreover have "elapsedPercent rnd (dateOnly now) (sla_plannedStart s) f \<le> elapsedPercent rnd (dateOnly now') (sla_plannedStart s) f"
    by (rule elapsed_mono [OF assms(4) d])
  ultimately show ?thesis
    unfolding running_state [OF assms(1-3)] using d by auto
qed

theorem sla_worsens_witness:
  "\<exists>a b. computeStageSlaState (\<lambda>x. x)
       \<lparr>sla_status = SS_IN_PROGRESS, sla_completedAt = None, sla_plannedStart = Some 1777507200000,
        sla_plannedFinish = Some 1778025600000, sla_atRiskPercent = None, sla_warnDaysRemaining = Some 1,
        sla_hardBlock = True, sla_hardBlockUnlockedAt = None, sla_exceptionApproved = False\<rparr> 1777550400000 cal_weekdays
     = Some (Inr (Some a)) \<and> severity a \<le> severity b"
proof -
  let ?s = "\<lparr>sla_status = SS_IN_PROGRESS, sla_completedAt = None, sla_plannedStart = Some 1777507200000,
        sla_plannedFinish = Some 1778025600000, sla_atRiskPercent = None, sla_warnDaysRemaining = Some 1,
        sla_hardBlock = True, sla_hardBlockUnlockedAt = None, sla_exceptionApproved = False\<rparr>"
  have "running ?s" "sla_plannedFinish ?s = Some 1778025600000" "DAY_MS dvd (1778025600000 :: int)" "mono (\<lambda>x :: rat. x)"
    by (simp_all add: running_def mono_def)
  moreover have "day_from_year 100 \<le> day_of 1777550400000" by code_simp
  ultimately show ?thesis using sla_worsens [of ?s 1778025600000 "\<lambda>x. x" 1777550400000 1778112000000 cal_weekdays] by fastforce
qed

text \<open>
  only a stage that is late and running is ever blocked: it has a planned finish before
  today, is pending, ready or in progress, is marked to block and was not unlocked, and no
  exception was approved.
\<close>

theorem hard_block_only_when_late:
  "computeStageSlaState rnd s now cal = Some (Inr st) \<Longrightarrow> shouldHardBlock s st \<Longrightarrow>
     running s \<and> sla_hardBlock s \<and> sla_hardBlockUnlockedAt s = None
     \<and> (\<exists>f. sla_plannedFinish s = Some f \<and> f < dateOnly now)"
  by (cases "sla_status s")
    (auto simp: computeStageSlaState_def shouldHardBlock_def running_def Let_def run_return_def run_bind_Inr
      split: if_splits option.splits)

theorem hard_block_only_when_late_witness:
  "running \<lparr>sla_status = SS_IN_PROGRESS, sla_completedAt = None, sla_plannedStart = None,
        sla_plannedFinish = Some 1778025600000, sla_atRiskPercent = None, sla_warnDaysRemaining = None,
        sla_hardBlock = True, sla_hardBlockUnlockedAt = None, sla_exceptionApproved = False\<rparr>"
proof -
  let ?s = "\<lparr>sla_status = SS_IN_PROGRESS, sla_completedAt = None, sla_plannedStart = None,
        sla_plannedFinish = Some 1778025600000, sla_atRiskPercent = None, sla_warnDaysRemaining = None,
        sla_hardBlock = True, sla_hardBlockUnlockedAt = None, sla_exceptionApproved = False\<rparr>"
  have "computeStageSlaState (\<lambda>x. x) ?s 1778112000000 cal_weekdays = Some (Inr (Some SLA_OVERDUE))" by code_simp
  moreover have "shouldHardBlock ?s (Some SLA_OVERDUE)" by code_simp
  ultimately show ?thesis using hard_block_only_when_late by blast
qed

end
