(* ===== verification/Perf_Stats.thy ===== *)
theory Perf_Stats
  imports Sla "HOL-Library.Multiset"
begin

text \<open>
  The statistics over finished stages, \<^verbatim>\<open>src/src/services/case-performance.stats.ts\<close>, and
  the sampling of \<^verbatim>\<open>computeSummary\<close> in \<^verbatim>\<open>case-performance.service.ts\<close>. \<open>rnd\<close> rounds the
  result of one operation to a double.
\<close>

record StageEventLite =
  toStatus :: "CaseStageStatus option"
  evCreatedAt :: date

datatype Confidence = INSUFFICIENT | LOW | MODERATE | HIGH
datatype Trend = SLOWER | FASTER | NO_TREND

text \<open>The loop over neighbouring events; \<open>ms\<close> is the sum so far.\<close>

fun active_loop :: "StageEventLite list \<Rightarrow> int \<Rightarrow> int" where
  "active_loop (e # e' # es) ms =
     active_loop (e' # es) (if toStatus e = Some SS_IN_PROGRESS then ms + (evCreatedAt e' - evCreatedAt e) else ms)"
| "active_loop _ ms = ms"

definition activeTimeDays :: "(rat \<Rightarrow> rat) \<Rightarrow> StageEventLite list \<Rightarrow> rat" where
  "activeTimeDays rnd events = rnd (of_int (active_loop events 0) / of_int DAY_MS)"

text \<open>\<^verbatim>\<open>Math.round\<close> rounds halves up.\<close>

definition js_round :: "rat \<Rightarrow> int" where
  "js_round q = \<lfloor>q + 1 / 2\<rfloor>"

definition roundHalfDay :: "(rat \<Rightarrow> rat) \<Rightarrow> rat \<Rightarrow> rat" where
  "roundHalfDay rnd n = rnd (of_int (js_round (rnd (n * 2))) / 2)"

definition median :: "(rat \<Rightarrow> rat) \<Rightarrow> rat list \<Rightarrow> rat" where
  "median rnd nums =
     (if nums = [] then 0
      else let s = sort nums;
               m = length s div 2
           in if length s mod 2 \<noteq> 0 then s ! m else rnd (rnd (s ! (m - 1) + s ! m) / 2))"

definition confidenceFor :: "nat \<Rightarrow> Confidence" where
  "confidenceFor sampleCount =
     (if sampleCount < 5 then INSUFFICIENT else if sampleCount < 10 then LOW
      else if sampleCount < 25 then MODERATE else HIGH)"

definition trendFor :: "(rat \<Rightarrow> rat) \<Rightarrow> rat \<Rightarrow> rat \<Rightarrow> Trend" where
  "trendFor rnd medianVal recentMedian =
     (if \<not> 0 < medianVal then NO_TREND
      else if rnd (medianVal * rnd (12 / 10)) < recentMedian then SLOWER
      else if recentMedian < rnd (medianVal * rnd (8 / 10)) then FASTER
      else NO_TREND)"

record Sample =
  activeDays :: rat
  smCompletedAt :: date

record Summary =
  sampleCount :: nat
  medianDays :: rat
  recentMedianDays :: rat

definition summarize :: "(rat \<Rightarrow> rat) \<Rightarrow> Sample list \<Rightarrow> Summary" where
  "summarize rnd samples =
     (let recent = take 10 (sort_key (\<lambda>s. - smCompletedAt s) samples)
      in \<lparr>sampleCount = length samples,
          medianDays = roundHalfDay rnd (median rnd (map activeDays samples)),
          recentMedianDays = roundHalfDay rnd (median rnd (map activeDays recent))\<rparr>)"

section \<open>Lemmas\<close>

lemma active_loop_shift: "active_loop es (a + b) = active_loop es a + b"
proof (induction es a rule: active_loop.induct)
  case (1 e e' es ms)
  have "active_loop (e # e' # es) (ms + b) =
      active_loop (e' # es) ((if toStatus e = Some SS_IN_PROGRESS then ms + (evCreatedAt e' - evCreatedAt e) else ms) + b)"
    by (simp add: algebra_simps)
  also have "\<dots> = active_loop (e # e' # es) ms + b" using 1 by simp
  finally show ?case .
qed simp_all

lemma active_loop_bounds:
  assumes "sorted (map evCreatedAt (e # es))"
  shows "0 \<le> active_loop (e # es) 0 \<and> active_loop (e # es) 0 \<le> evCreatedAt (last (e # es)) - evCreatedAt e"
  using assms
proof (induction es arbitrary: e)
  case (Cons e' es)
  define d where "d = (if toStatus e = Some SS_IN_PROGRESS then evCreatedAt e' - evCreatedAt e else 0)"
  have "active_loop (e # e' # es) 0 = active_loop (e' # es) (0 + d)" by (simp add: d_def)
  then have "active_loop (e # e' # es) 0 = active_loop (e' # es) 0 + d" by (simp only: active_loop_shift)
  moreover have "0 \<le> d" "d \<le> evCreatedAt e' - evCreatedAt e" using Cons.prems by (simp_all add: d_def)
  moreover have "0 \<le> active_loop (e' # es) 0 \<and> active_loop (e' # es) 0 \<le> evCreatedAt (last (e' # es)) - evCreatedAt e'"
    using Cons by simp
  ultimately show ?case by simp
qed simp

section \<open>Properties\<close>

text \<open>
  a stage is never credited with more active time than its history spans. For a history
  in time order the active time is at least zero and at most the days from its first to its
  last event, up to the rounding of the division.
\<close>

theorem active_time_bounded:
  assumes "sorted (map evCreatedAt events)" "events \<noteq> []" "mono rnd"
  shows "rnd 0 \<le> activeTimeDays rnd events
    \<and> activeTimeDays rnd events \<le> rnd (of_int (evCreatedAt (last events) - evCreatedAt (hd events)) / of_int DAY_MS)"
proof -
  obtain e es where e: "events = e # es" using assms(2) by (cases events) auto
  have b: "0 \<le> active_loop events 0" "active_loop events 0 \<le> evCreatedAt (last events) - evCreatedAt (hd events)"
    using active_loop_bounds [of e es] assms(1) by (simp_all add: e)
  have "(0 :: rat) \<le> of_int (active_loop events 0) / of_int DAY_MS" using b(1) by simp
  moreover have "(of_int (active_loop events 0) :: rat) / of_int DAY_MS
      \<le> of_int (evCreatedAt (last events) - evCreatedAt (hd events)) / of_int DAY_MS"
    by (rule divide_right_mono) (use b(2) in \<open>simp_all only: of_int_le_iff of_int_0_le_iff zero_le_numeral\<close>)
  ultimately show ?thesis using assms(3) by (simp only: activeTimeDays_def monoD)
qed

theorem active_time_bounded_witness:
  "activeTimeDays (\<lambda>x. x) [\<lparr>toStatus = Some SS_IN_PROGRESS, evCreatedAt = 0\<rparr>, \<lparr>toStatus = Some SS_COMPLETED, evCreatedAt = 86400000\<rparr>]
     \<le> 1"
  using active_time_bounded [of "[\<lparr>toStatus = Some SS_IN_PROGRESS, evCreatedAt = 0\<rparr>, \<lparr>toStatus = Some SS_COMPLETED, evCreatedAt = 86400000\<rparr>]" "\<lambda>x. x"]
  by (simp add: mono_def)

text \<open>
  the median depends on the numbers and not on their order, and it lies between the
  smallest and the largest of them. The numbers are doubles, and so are their doubles.
\<close>

theorem median_correct:
  assumes "mono rnd" "\<And>x y. x \<in> set nums \<Longrightarrow> y \<in> set nums \<Longrightarrow> rnd (x + x) = x + x \<and> rnd x = x"
    and "nums \<noteq> []"
  shows "Min (set nums) \<le> median rnd nums \<and> median rnd nums \<le> Max (set nums)
    \<and> (mset nums = mset nums' \<longrightarrow> median rnd nums = median rnd nums')"
proof -
  define s where "s = sort nums"
  have s: "set s = set nums" "sorted s" "length s = length nums" "s \<noteq> []"
    using assms(3) by (simp_all add: s_def) (metis length_0_conv length_sort)
  have b: "Min (set nums) \<le> s ! i \<and> s ! i \<le> Max (set nums) \<and> s ! i \<in> set nums" if "i < length s" for i
    using that s(1) nth_mem [OF that] by (metis List.finite_set Max_ge Min_le)
  have "Min (set nums) \<le> median rnd nums \<and> median rnd nums \<le> Max (set nums)"
  proof (cases "length s mod 2 \<noteq> 0")
    case True
    then have "median rnd nums = s ! (length s div 2)" "length s div 2 < length s"
      using assms(3) s(4) by (simp_all add: median_def s_def [symmetric] Let_def)
    then show ?thesis using b by simp
  next
    case False
    define m where "m = length s div 2"
    have "length s \<noteq> 0" "length s = 2 * m" using False s(4) by (auto simp: m_def)
    then have m: "m < length s" "m - 1 < length s" "0 < m" by auto
    have med: "median rnd nums = rnd (rnd (s ! (m - 1) + s ! m) / 2)"
      using assms(3) False by (simp add: median_def s_def [symmetric] m_def Let_def)
    define x y where "x = s ! (m - 1)" and "y = s ! m"
    have xy: "x \<le> y" unfolding x_def y_def using s(2) m by (intro sorted_nth_mono) auto
    have e: "rnd (x + x) = x + x" "rnd (y + y) = y + y" "rnd x = x" "rnd y = y"
      using assms(2) b m by (auto simp: x_def y_def)
    have "x + x \<le> rnd (x + y)" "rnd (x + y) \<le> y + y"
      using monoD [OF assms(1), of "x + x" "x + y"] monoD [OF assms(1), of "x + y" "y + y"] xy e by simp_all
    then have "x \<le> rnd (rnd (x + y) / 2)" "rnd (rnd (x + y) / 2) \<le> y"
      using monoD [OF assms(1), of x "rnd (x + y) / 2"] monoD [OF assms(1), of "rnd (x + y) / 2" y] e by simp_all
    then show ?thesis unfolding med x_def [symmetric] y_def [symmetric]
      using b [OF m(1)] b [OF m(2)] unfolding x_def [symmetric] y_def [symmetric] by linarith
  qed
  moreover have "mset nums = mset nums' \<Longrightarrow> median rnd nums = median rnd nums'"
  proof -
    assume ms: "mset nums = mset nums'"
    then have "sort nums = sort nums'" by (intro properties_for_sort) simp_all
    moreover have "length nums = length nums'" "nums' \<noteq> []" using ms assms(3) by (auto dest: mset_eq_length)
    ultimately show ?thesis using assms(3) by (simp add: median_def Let_def)
  qed
  ultimately show ?thesis by blast
qed

theorem median_correct_witness:
  "1 \<le> median (\<lambda>x. x) [4, 1, 3] \<and> median (\<lambda>x. x) [4, 1, 3] \<le> 4"
  using median_correct [of "\<lambda>x. x" "[4, 1, 3]" "[1, 3, 4]"] by (simp add: mono_def)

end
