(* ===== verification/Handoff_Domain.thy ===== *)
theory Handoff_Domain
  imports Case_Number
begin

text \<open>
  \<^verbatim>\<open>src/src/domain/handoff.ts\<close> and \<^verbatim>\<open>src/src/domain/process-handoff.ts\<close>: the guards
  of the Sales to Documentation handoff and of the Documentation to Process handoff.
  Times are milliseconds since the epoch. Enum constructors carry a prefix, since several
  enums of the schema share member names.
\<close>

section \<open>Enums of the schema\<close>

datatype DocCaseStatus =
    DC_INCOMING | DC_ACTIVE | DC_RETURNED | DC_DOCUMENTATION_READY | DC_PENDING_PROCESS_REVIEW
  | DC_RETURNED_TO_DOCUMENTATION | DC_TRANSFERRED_TO_PROCESS | DC_CLOSED | DC_CANCELLED
  | DC_CLOSED_NO_DOCS

fun status_name :: "DocCaseStatus \<Rightarrow> string" where
  "status_name DC_INCOMING = ''INCOMING''"
| "status_name DC_ACTIVE = ''ACTIVE''"
| "status_name DC_RETURNED = ''RETURNED''"
| "status_name DC_DOCUMENTATION_READY = ''DOCUMENTATION_READY''"
| "status_name DC_PENDING_PROCESS_REVIEW = ''PENDING_PROCESS_REVIEW''"
| "status_name DC_RETURNED_TO_DOCUMENTATION = ''RETURNED_TO_DOCUMENTATION''"
| "status_name DC_TRANSFERRED_TO_PROCESS = ''TRANSFERRED_TO_PROCESS''"
| "status_name DC_CLOSED = ''CLOSED''"
| "status_name DC_CANCELLED = ''CANCELLED''"
| "status_name DC_CLOSED_NO_DOCS = ''CLOSED_NO_DOCS''"

datatype HandoffState =
    HS_NONE | HS_HANDED_OFF | HS_ACCEPTED | HS_RETURNED | HS_RESENT | HS_MANAGER_REVIEW_REQUIRED
  | HS_AUTO_DROPPED

datatype HandoffReturnReason =
    WRONG_OR_MISSING_CONTACT | WRONG_PRESET | INCOMPLETE_INFORMATION | DUPLICATE_CASE
  | COMPLIANCE_ISSUE | HR_OTHER

datatype ProcessHandoffState = PH_NONE | PH_PENDING_REVIEW | PH_ACCEPTED | PH_RETURNED

datatype ProcessReturnReason =
    MISSING_DOCUMENT | INCORRECT_DOCUMENT | DATA_MISMATCH | NEEDS_CLARIFICATION
  | PR_COMPLIANCE_ISSUE | PR_OTHER

section \<open>Ageing\<close>

datatype HandoffAge = FRESH | STALE | WARNING | CRITICAL | OVERDUE

definition AGE_FRESH :: rat where "AGE_FRESH = 24"
definition AGE_STALE :: rat where "AGE_STALE = 48"
definition AGE_WARNING :: rat where "AGE_WARNING = 96"
definition AGE_CRITICAL :: rat where "AGE_CRITICAL = 168"

definition getHandoffAge :: "int \<Rightarrow> int \<Rightarrow> HandoffAge" where
  "getHandoffAge handoffAt now =
     (let hours = of_int (now - handoffAt) / (3600000 :: rat)
      in if hours < AGE_FRESH then FRESH
         else if hours < AGE_STALE then STALE
         else if hours < AGE_WARNING then WARNING
         else if hours < AGE_CRITICAL then CRITICAL
         else OVERDUE)"

definition AUTO_DROP_DAYS :: int where "AUTO_DROP_DAYS = 7"

definition computeAutoDropAt :: "int \<Rightarrow> int" where
  "computeAutoDropAt returnedAt = returnedAt + AUTO_DROP_DAYS * 24 * 3600000"

section \<open>Manager review\<close>

definition MANAGER_REVIEW_RETURN_THRESHOLD :: int where
  "MANAGER_REVIEW_RETURN_THRESHOLD = 2"

definition shouldRequireManagerReview :: "int \<Rightarrow> bool" where
  "shouldRequireManagerReview returnCount \<longleftrightarrow> MANAGER_REVIEW_RETURN_THRESHOLD \<le> returnCount"

definition ALWAYS_MANAGER_REVIEW :: "HandoffReturnReason list" where
  "ALWAYS_MANAGER_REVIEW = [DUPLICATE_CASE, COMPLIANCE_ISSUE]"

definition requiresManagerReviewAfterReturn :: "int \<Rightarrow> HandoffReturnReason option \<Rightarrow> bool" where
  "requiresManagerReviewAfterReturn returnCount reason =
     (case reason of
        Some r \<Rightarrow> if r \<in> set ALWAYS_MANAGER_REVIEW then True else shouldRequireManagerReview returnCount
      | None \<Rightarrow> shouldRequireManagerReview returnCount)"

section \<open>Transition guards\<close>

datatype HandoffAction = CONFIRM | ACCEPT | REJECT | RETURN | RESEND | AUTO_DROP

record TransitionCheck =
  allowed :: bool
  reason :: "string option"

definition ALLOW :: TransitionCheck where
  "ALLOW = \<lparr>allowed = True, reason = None\<rparr>"

definition deny :: "string \<Rightarrow> TransitionCheck" where
  "deny why = \<lparr>allowed = False, reason = Some why\<rparr>"

lemma allowed_simps [simp]: "allowed ALLOW" "\<not> allowed (deny why)" "reason (deny why) = Some why"
  by (simp_all add: ALLOW_def deny_def)

text \<open>The em dash of a message, in UTF-8.\<close>
definition em_dash :: string where
  "em_dash = [char_of (226::nat), char_of (128::nat), char_of (148::nat)]"

fun canTransition :: "HandoffAction \<Rightarrow> DocCaseStatus \<Rightarrow> HandoffState \<Rightarrow> bool \<Rightarrow> TransitionCheck" where
  "canTransition CONFIRM status handoffState managerReviewRequired =
     (if handoffState \<noteq> HS_NONE then deny ''This lead has already been handed off.'' else ALLOW)"
| "canTransition ACCEPT status handoffState managerReviewRequired =
     (if status \<noteq> DC_INCOMING then deny ''Only an incoming handoff can be accepted.'' else ALLOW)"
| "canTransition REJECT status handoffState managerReviewRequired =
     (if status \<noteq> DC_INCOMING
      then deny (''This case has already been accepted '' @ em_dash @ '' use Return instead.'')
      else ALLOW)"
| "canTransition RETURN status handoffState managerReviewRequired =
     (if status = DC_TRANSFERRED_TO_PROCESS \<or> status = DC_PENDING_PROCESS_REVIEW
      then deny ''Process owns this case. Use a Process correction flow.''
      else if status = DC_CLOSED \<or> status = DC_CANCELLED then deny ''This case is closed.''
      else if status \<noteq> DC_ACTIVE \<and> status \<noteq> DC_DOCUMENTATION_READY \<and> status \<noteq> DC_RETURNED_TO_DOCUMENTATION
      then deny ''Only an accepted case can be returned.''
      else ALLOW)"
| "canTransition RESEND status handoffState managerReviewRequired =
     (if managerReviewRequired
      then deny ''Manager review is required before this case can be resent.''
      else if status \<noteq> DC_INCOMING \<and> status \<noteq> DC_RETURNED
      then deny ''Only a rejected or returned case can be resent.''
      else if handoffState \<noteq> HS_RETURNED \<and> handoffState \<noteq> HS_NONE
      then deny ''This case is not awaiting a fix.''
      else ALLOW)"
| "canTransition AUTO_DROP status handoffState managerReviewRequired =
     (if status \<noteq> DC_RETURNED then deny ''Only a returned case can auto-drop.'' else ALLOW)"

section \<open>Fix and resend\<close>

record ResendContext =
  returnReasonCode :: "HandoffReturnReason option"
  resolutionNote :: string
  phoneAtHandoff :: "string option"
  currentPhone :: "string option"
  hasApprovedContactOverride :: bool
  presetAtHandoff :: "string option"
  currentPreset :: "string option"

definition MIN_RESOLUTION_NOTE_LENGTH :: nat where
  "MIN_RESOLUTION_NOTE_LENGTH = 10"

text \<open>\<^verbatim>\<open>s ?? ''\<close>, and JavaScript's falsy strings.\<close>
definition or_empty :: "string option \<Rightarrow> string" where
  "or_empty s = (case s of None \<Rightarrow> [] | Some t \<Rightarrow> t)"

definition falsy :: "string option \<Rightarrow> bool" where
  "falsy s \<longleftrightarrow> s = None \<or> s = Some []"

definition checkResendAllowed :: "ResendContext \<Rightarrow> TransitionCheck" where
  "checkResendAllowed ctx =
     (if length (trim (resolutionNote ctx)) < MIN_RESOLUTION_NOTE_LENGTH
      then deny (''A resolution note of at least '' @ nat_str MIN_RESOLUTION_NOTE_LENGTH @ '' characters is required.'')
      else case returnReasonCode ctx of
        Some WRONG_OR_MISSING_CONTACT \<Rightarrow>
          (if hasApprovedContactOverride ctx then ALLOW
           else let before = digits_only (or_empty (phoneAtHandoff ctx));
                    now = digits_only (or_empty (currentPhone ctx))
                in if now = [] then deny ''A contact number is required before this case can be resent.''
                   else if before = now
                   then deny ''The contact number has not changed. Update it, or get an approved portal contact override.''
                   else ALLOW)
      | Some WRONG_PRESET \<Rightarrow>
          (if falsy (currentPreset ctx) then deny ''A document preset must be selected before resending.''
           else if presetAtHandoff ctx = currentPreset ctx then deny ''The document preset has not changed.''
           else ALLOW)
      | Some COMPLIANCE_ISSUE \<Rightarrow> deny ''Compliance issues require manager review before resending.''
      | Some DUPLICATE_CASE \<Rightarrow> deny ''Duplicate cases require manager review before resending.''
      | _ \<Rightarrow> ALLOW)"

section \<open>Documentation to Process\<close>

datatype ProcessHandoffAction = P_TRANSFER | P_ACCEPT | P_RETURN

definition TRANSFER_FROM_STATUS :: "DocCaseStatus list" where
  "TRANSFER_FROM_STATUS = [DC_ACTIVE, DC_DOCUMENTATION_READY, DC_RETURNED_TO_DOCUMENTATION]"

definition TRANSFER_FROM_PHSTATE :: "ProcessHandoffState list" where
  "TRANSFER_FROM_PHSTATE = [PH_NONE, PH_RETURNED]"

definition PENDING_STATUS :: "DocCaseStatus list" where
  "PENDING_STATUS = [DC_PENDING_PROCESS_REVIEW]"

definition PENDING_PHSTATE :: "ProcessHandoffState list" where
  "PENDING_PHSTATE = [PH_PENDING_REVIEW]"

record StatusPrecondition =
  pre_status :: "DocCaseStatus list"
  pre_processHandoffState :: "ProcessHandoffState list"

fun precondition :: "ProcessHandoffAction \<Rightarrow> StatusPrecondition" where
  "precondition P_TRANSFER = \<lparr>pre_status = TRANSFER_FROM_STATUS, pre_processHandoffState = TRANSFER_FROM_PHSTATE\<rparr>"
| "precondition P_ACCEPT = \<lparr>pre_status = PENDING_STATUS, pre_processHandoffState = PENDING_PHSTATE\<rparr>"
| "precondition P_RETURN = \<lparr>pre_status = PENDING_STATUS, pre_processHandoffState = PENDING_PHSTATE\<rparr>"

fun ph_canTransition :: "ProcessHandoffAction \<Rightarrow> DocCaseStatus \<Rightarrow> ProcessHandoffState \<Rightarrow> TransitionCheck" where
  "ph_canTransition P_TRANSFER status processHandoffState =
     (if status = DC_PENDING_PROCESS_REVIEW \<or> status = DC_TRANSFERRED_TO_PROCESS
      then deny ''This case is already with Process.''
      else if status = DC_CLOSED \<or> status = DC_CANCELLED \<or> status = DC_CLOSED_NO_DOCS
      then deny ''This case is closed.''
      else if status \<notin> set TRANSFER_FROM_STATUS \<or> processHandoffState \<notin> set TRANSFER_FROM_PHSTATE
      then deny ''Only a Documentation-owned case can be transferred to Process.''
      else ALLOW)"
| "ph_canTransition P_ACCEPT status processHandoffState =
     (if status \<notin> set PENDING_STATUS \<or> processHandoffState \<notin> set PENDING_PHSTATE
      then deny ''Only a case pending Process review can be accepted.''
      else ALLOW)"
| "ph_canTransition P_RETURN status processHandoffState =
     (if status \<notin> set PENDING_STATUS \<or> processHandoffState \<notin> set PENDING_PHSTATE
      then deny ''Only a case pending Process review can be returned to Documentation.''
      else ALLOW)"

text \<open>
  The reason arrives from the request as a string: \<open>process_reason\<close> is the member of the
  enum with that name, if there is one.
\<close>
definition process_reason :: "string \<Rightarrow> ProcessReturnReason option" where
  "process_reason s = map_of
     [(''MISSING_DOCUMENT'', MISSING_DOCUMENT), (''INCORRECT_DOCUMENT'', INCORRECT_DOCUMENT),
      (''DATA_MISMATCH'', DATA_MISMATCH), (''NEEDS_CLARIFICATION'', NEEDS_CLARIFICATION),
      (''COMPLIANCE_ISSUE'', PR_COMPLIANCE_ISSUE), (''OTHER'', PR_OTHER)] s"

definition checkReturnReason :: "string option \<Rightarrow> string option \<Rightarrow> TransitionCheck" where
  "checkReturnReason rsn note =
     (if falsy rsn then deny ''A return reason is required.''
      else if process_reason (or_empty rsn) = None then deny ''Invalid return reason.''
      else if rsn = Some ''OTHER'' \<and> \<not> (note \<noteq> None \<and> note \<noteq> Some [] \<and> 0 < length (trim (or_empty note)))
      then deny ''A note is required when the return reason is OTHER.''
      else ALLOW)"

section \<open>Lemmas\<close>

lemma process_sets [simp]:
  "s \<in> set TRANSFER_FROM_STATUS \<longleftrightarrow> s = DC_ACTIVE \<or> s = DC_DOCUMENTATION_READY \<or> s = DC_RETURNED_TO_DOCUMENTATION"
  "p \<in> set TRANSFER_FROM_PHSTATE \<longleftrightarrow> p = PH_NONE \<or> p = PH_RETURNED"
  "s \<in> set PENDING_STATUS \<longleftrightarrow> s = DC_PENDING_PROCESS_REVIEW"
  "p \<in> set PENDING_PHSTATE \<longleftrightarrow> p = PH_PENDING_REVIEW"
  by (auto simp: TRANSFER_FROM_STATUS_def TRANSFER_FROM_PHSTATE_def PENDING_STATUS_def PENDING_PHSTATE_def)

lemma can_accept_iff [simp]: "allowed (canTransition ACCEPT s h m) \<longleftrightarrow> s = DC_INCOMING"
  by simp

lemma can_reject_iff [simp]: "allowed (canTransition REJECT s h m) \<longleftrightarrow> s = DC_INCOMING"
  by simp

lemma can_return_iff:
  "allowed (canTransition RETURN s h m) \<longleftrightarrow> s \<in> {DC_ACTIVE, DC_DOCUMENTATION_READY, DC_RETURNED_TO_DOCUMENTATION}"
  by (cases s) auto

lemma can_resend_iff:
  "allowed (canTransition RESEND s h m) \<longleftrightarrow>
     \<not> m \<and> (s = DC_INCOMING \<or> s = DC_RETURNED) \<and> (h = HS_RETURNED \<or> h = HS_NONE)"
  by auto

lemma can_confirm_iff: "allowed (canTransition CONFIRM s h m) \<longleftrightarrow> h = HS_NONE"
  by simp

section \<open>Properties\<close>

text \<open>
  reject and return are never both open. A case can be returned to Sales exactly when
  Documentation owns it, and never while Process has it, whatever its handoff state.
\<close>

theorem reject_return_exclusive:
  "\<not> (allowed (canTransition REJECT s h m) \<and> allowed (canTransition RETURN s h' m'))
   \<and> (allowed (canTransition RETURN s h m) \<longleftrightarrow>
        s \<in> {DC_ACTIVE, DC_DOCUMENTATION_READY, DC_RETURNED_TO_DOCUMENTATION})
   \<and> (allowed (canTransition RETURN s h m) \<longleftrightarrow> (\<exists>p. allowed (ph_canTransition P_TRANSFER s p)))"
  by (cases s) (auto simp: can_return_iff)

text \<open>
  the guard of the Process handoff and the \<^verbatim>\<open>where\<close> clause built from
  \<^verbatim>\<open>precondition\<close> agree on every action, status and handoff state, so the in-memory
  check and the conditional update cannot drift apart.
\<close>

theorem process_guard_coherent:
  "allowed (ph_canTransition a s p) \<longleftrightarrow>
     s \<in> set (pre_status (precondition a)) \<and> p \<in> set (pre_processHandoffState (precondition a))"
  by (cases a; cases s) auto

fun age_rank :: "HandoffAge \<Rightarrow> nat" where
  "age_rank FRESH = 0" | "age_rank STALE = 1" | "age_rank WARNING = 2" | "age_rank CRITICAL = 3" | "age_rank OVERDUE = 4"

lemma handoff_age_ms:
  "getHandoffAge at0 now =
     (if now - at0 < 86400000 then FRESH else if now - at0 < 172800000 then STALE
      else if now - at0 < 345600000 then WARNING else if now - at0 < 604800000 then CRITICAL else OVERDUE)"
proof -
  have "(of_int d / 3600000 < (of_int h :: rat)) \<longleftrightarrow> d < h * 3600000" for d h :: int
    by (simp add: pos_divide_less_eq flip: of_int_less_iff [where 'a = rat])
  from this [of _ 24] this [of _ 48] this [of _ 96] this [of _ 168] show ?thesis
    by (simp add: getHandoffAge_def Let_def AGE_FRESH_def AGE_STALE_def AGE_WARNING_def AGE_CRITICAL_def)
qed

text \<open>
  the ageing ladder only climbs: an older handoff never shows a fresher badge, and the
  badge is OVERDUE exactly from seven days on, the moment the auto-drop date is reached.
\<close>

theorem handoff_age_monotone:
  "(t \<le> t' \<longrightarrow> age_rank (getHandoffAge at0 t) \<le> age_rank (getHandoffAge at0 t'))
   \<and> (getHandoffAge at0 t = OVERDUE \<longleftrightarrow> computeAutoDropAt at0 \<le> t)"
  by (simp add: handoff_age_ms computeAutoDropAt_def AUTO_DROP_DAYS_def)

theorem handoff_age_monotone_witness:
  "age_rank (getHandoffAge 0 86400000) \<le> age_rank (getHandoffAge 0 604800000)"
  using handoff_age_monotone [of 86400000 604800000 0] by simp

end
