(* ===== verification/Portal_Domain.thy ===== *)
theory Portal_Domain
  imports Handoff_Domain
begin

text \<open>
  \<^verbatim>\<open>src/src/domain/portal.ts\<close>: the rules of the client portal. The random token and the
  digest are parameters.
\<close>

definition PORTAL_MAX_ATTEMPTS :: nat where "PORTAL_MAX_ATTEMPTS = 5"
definition PORTAL_LOCKOUT_MINUTES :: int where "PORTAL_LOCKOUT_MINUTES = 30"
definition PORTAL_SESSION_MINUTES :: int where "PORTAL_SESSION_MINUTES = 15"

definition hashSessionToken :: "(string \<Rightarrow> string) \<Rightarrow> string \<Rightarrow> string" where
  "hashSessionToken sha256 token = sha256 token"

definition sessionExpiry :: "int \<Rightarrow> int" where
  "sessionExpiry from = from + PORTAL_SESSION_MINUTES * 60000"

definition safeCompareDigits :: "(string \<Rightarrow> string) \<Rightarrow> string \<Rightarrow> string \<Rightarrow> bool" where
  "safeCompareDigits sha256 a b \<longleftrightarrow> sha256 a = sha256 b"

definition PORTAL_CLOSED_STATUSES :: "DocCaseStatus list" where
  "PORTAL_CLOSED_STATUSES = [DC_CLOSED, DC_CANCELLED]"

record PortalAccessInput =
  pa_portalEnabledAt :: "int option"
  pa_portalPhoneLast4 :: "string option"
  pa_status :: DocCaseStatus

definition isPortalAccessible :: "PortalAccessInput \<Rightarrow> bool" where
  "isPortalAccessible inp =
     (if pa_portalEnabledAt inp = None then False
      else if falsy (pa_portalPhoneLast4 inp) then False
      else if pa_status inp \<in> set PORTAL_CLOSED_STATUSES then False
      else True)"

datatype ClientDocStatus = CD_RECEIVED | CD_PENDING

definition toClientDocStatus :: "string \<Rightarrow> ClientDocStatus" where
  "toClientDocStatus status =
     (if status \<in> set [''RECEIVED'', ''UNDER_VERIFICATION'', ''VERIFIED'', ''APPROVED'', ''MANAGER_APPROVED'']
      then CD_RECEIVED else CD_PENDING)"

definition PORTAL_PROGRESS_STAGES :: "(string \<times> string) list" where
  "PORTAL_PROGRESS_STAGES =
     [(''RECEIVED'', ''Application received''),
      (''IN_REVIEW'', ''Documents under review''),
      (''VERIFIED'', ''Verification complete''),
      (''PROCESSING'', ''Processing''),
      (''COMPLETED'', ''Case completed'')]"

fun progressStageFor :: "DocCaseStatus \<Rightarrow> string" where
  "progressStageFor DC_INCOMING = ''RECEIVED''"
| "progressStageFor DC_RETURNED = ''RECEIVED''"
| "progressStageFor DC_ACTIVE = ''IN_REVIEW''"
| "progressStageFor DC_DOCUMENTATION_READY = ''VERIFIED''"
| "progressStageFor DC_PENDING_PROCESS_REVIEW = ''PROCESSING''"
| "progressStageFor DC_TRANSFERRED_TO_PROCESS = ''PROCESSING''"
| "progressStageFor DC_RETURNED_TO_DOCUMENTATION = ''IN_REVIEW''"
| "progressStageFor DC_CLOSED = ''COMPLETED''"
| "progressStageFor _ = ''RECEIVED''"

lemma portal_accessible_iff:
  "isPortalAccessible i \<longleftrightarrow>
     pa_portalEnabledAt i \<noteq> None \<and> \<not> falsy (pa_portalPhoneLast4 i) \<and> pa_status i \<noteq> DC_CLOSED \<and> pa_status i \<noteq> DC_CANCELLED"
  by (simp add: isPortalAccessible_def PORTAL_CLOSED_STATUSES_def)

lemma progress_stage_known: "progressStageFor s \<in> fst ` set PORTAL_PROGRESS_STAGES"
  by (cases s) (simp_all add: PORTAL_PROGRESS_STAGES_def)

text \<open>
  what a client sees never tells a rejected document from a pending one, and the
  progress bar always points at one of its five stages, whatever the internal status.
\<close>

theorem client_projection_safe:
  "toClientDocStatus ''REJECTED'' = toClientDocStatus ''REQUESTED''
   \<and> (\<exists>!i. i < 5 \<and> fst (PORTAL_PROGRESS_STAGES ! i) = progressStageFor s)"
proof
  show "toClientDocStatus ''REJECTED'' = toClientDocStatus ''REQUESTED''"
    by (simp add: toClientDocStatus_def)
  have d: "distinct (List.map fst PORTAL_PROGRESS_STAGES)" and l: "length PORTAL_PROGRESS_STAGES = 5"
    by (simp_all add: PORTAL_PROGRESS_STAGES_def)
  from progress_stage_known [of s] l obtain i
    where i: "i < 5" "fst (PORTAL_PROGRESS_STAGES ! i) = progressStageFor s"
    by (auto simp: in_set_conv_nth)
  show "\<exists>!i. i < 5 \<and> fst (PORTAL_PROGRESS_STAGES ! i) = progressStageFor s"
  proof (rule ex1I [of _ i])
    fix j assume j: "j < 5 \<and> fst (PORTAL_PROGRESS_STAGES ! j) = progressStageFor s"
    then have "List.map fst PORTAL_PROGRESS_STAGES ! j = List.map fst PORTAL_PROGRESS_STAGES ! i"
      using i l by simp
    then show "j = i"
      using nth_eq_iff_index_eq [OF d, of j i] i(1) j l by simp
  qed (use i in simp)
qed

end
