(* ===== verification/Canonical_Json.thy ===== *)
theory Canonical_Json
  imports Js_Date "HOL-Library.Char_ord" "HOL-Library.List_Lexorder" "HOL-Library.Multiset"
begin

text \<open>
  JavaScript values as they reach \<^verbatim>\<open>canonicalJson\<close> in \<^verbatim>\<open>src/src/services/audit.service.ts\<close>:
  the canonical text, what a JSON column gives back for a value, and the two facts the audit
  chain needs of the text: it does not depend on the order of keys, and it determines the
  value up to that order. Numbers are kept as the text \<^verbatim>\<open>JSON.stringify\<close> prints for them.
\<close>

datatype jsval =
  JUndefined | JNull | JBool bool | JNum string | JStr string | JDate date
  | JArr "jsval list" | JObj "(string \<times> jsval) list"

section \<open>The canonical text\<close>

definition hex_digit :: "nat \<Rightarrow> char" where
  "hex_digit n = (if n < 10 then char_of (48 + n) else char_of (87 + n))"

text \<open>\<^verbatim>\<open>JSON.stringify\<close> of a string.\<close>

definition esc :: "char \<Rightarrow> string" where
  "esc c =
     (if c = CHR 0x22 then [CHR 0x5C, CHR 0x22]
      else if c = CHR 0x5C then [CHR 0x5C, CHR 0x5C]
      else if c = CHR 0x08 then [CHR 0x5C, CHR ''b'']
      else if c = CHR 0x0C then [CHR 0x5C, CHR ''f'']
      else if c = CHR 0x0A then [CHR 0x5C, CHR ''n'']
      else if c = CHR 0x0D then [CHR 0x5C, CHR ''r'']
      else if c = CHR 0x09 then [CHR 0x5C, CHR ''t'']
      else if code c < 32 then [CHR 0x5C, CHR ''u'', CHR ''0'', CHR ''0'', hex_digit (code c div 16), hex_digit (code c mod 16)]
      else [c])"

definition quote :: "string \<Rightarrow> string" where
  "quote s = CHR 0x22 # concat (map esc s) @ [CHR 0x22]"

text \<open>\<^verbatim>\<open>parts.join(',')\<close>\<close>
fun join :: "string list \<Rightarrow> string" where
  "join [] = []"
| "join [s] = s"
| "join (s # t # ss) = s @ CHR '','' # join (t # ss)"

text \<open>A date is an object without own keys to \<^verbatim>\<open>Object.keys\<close>.\<close>

fun canonicalJson :: "jsval \<Rightarrow> string" where
  "canonicalJson JUndefined = ''null''"
| "canonicalJson JNull = ''null''"
| "canonicalJson (JBool b) = (if b then ''true'' else ''false'')"
| "canonicalJson (JNum n) = n"
| "canonicalJson (JStr s) = quote s"
| "canonicalJson (JDate t) = ''{}''"
| "canonicalJson (JArr vs) = CHR ''['' # join (map canonicalJson vs) @ '']''"
| "canonicalJson (JObj kvs) =
     CHR ''{'' # join (map (\<lambda>(k, s). quote k @ CHR '':'' # s)
                        (sort_key fst (map (\<lambda>(k, v). (k, canonicalJson v)) kvs))) @ ''}''"

section \<open>What a JSON column keeps\<close>

text \<open>
  The value a JSON column holds for a value written to it (\<^verbatim>\<open>JSON.stringify\<close> and back):
  dates become their ISO text, undefined properties disappear. A column of type jsonb may
  return the keys in another order, which \<open>sort_keys\<close> below forgets.
\<close>

definition pad3 :: "int \<Rightarrow> string" where
  "pad3 n = [digit_char (nat (n div 100)), digit_char (nat (n div 10)), digit_char (nat n)]"

definition iso_string :: "date \<Rightarrow> string" where
  "iso_string t =
     (let ms = t mod DAY_MS
      in iso_date t @ ''T'' @ pad2 (ms div 3600000) @ '':'' @ pad2 (ms div 60000 mod 60) @ '':''
           @ pad2 (ms div 1000 mod 60) @ ''.'' @ pad3 (ms mod 1000) @ ''Z'')"

fun stored :: "jsval \<Rightarrow> jsval" where
  "stored JUndefined = JNull"
| "stored (JDate t) = JStr (iso_string t)"
| "stored (JArr vs) = JArr (map stored vs)"
| "stored (JObj kvs) = JObj (map (\<lambda>(k, v). (k, stored v)) (filter (\<lambda>(k, v). v \<noteq> JUndefined) kvs))"
| "stored v = v"

fun sort_keys :: "jsval \<Rightarrow> jsval" where
  "sort_keys (JArr vs) = JArr (map sort_keys vs)"
| "sort_keys (JObj kvs) = JObj (sort_key fst (map (\<lambda>(k, v). (k, sort_keys v)) kvs))"
| "sort_keys v = v"

definition num_chars :: string where
  "num_chars = ''0123456789+-.eE''"

text \<open>Values that a JSON column gives back as they were.\<close>

fun plain :: "jsval \<Rightarrow> bool" where
  "plain JUndefined = False"
| "plain (JDate t) = False"
| "plain (JNum n) = (n \<noteq> [] \<and> set n \<subseteq> set num_chars)"
| "plain (JArr vs) = list_all plain vs"
| "plain (JObj kvs) = (distinct (map fst kvs) \<and> list_all (\<lambda>(k, v). plain v) kvs)"
| "plain v = True"

lemma stored_plain: "plain v \<Longrightarrow> stored v = v"
proof (induction v)
  case (JArr vs)
  then show ?case by (auto simp: list_all_iff intro: map_idI)
next
  case (JObj kvs)
  have "filter (\<lambda>(k, v). v \<noteq> JUndefined) kvs = kvs"
    using JObj.prems by (auto simp: list_all_iff filter_id_conv)
  moreover have "map (\<lambda>(k, v). (k, stored v)) kvs = kvs"
    using JObj by (auto simp: list_all_iff intro!: map_idI)
  ultimately show ?case by simp
qed simp_all

section \<open>The text as a rendering of the sorted value\<close>

fun render :: "jsval \<Rightarrow> string" where
  "render (JArr vs) = CHR ''['' # join (map render vs) @ '']''"
| "render (JObj kvs) = CHR ''{'' # join (map (\<lambda>(k, v). quote k @ CHR '':'' # render v) kvs) @ ''}''"
| "render v = canonicalJson v"

lemma canonical_render: "canonicalJson v = render (sort_keys v)"
proof (induction v)
  case (JArr vs)
  then have "map canonicalJson vs = map (render \<circ> sort_keys) vs" by auto
  then show ?case by (simp only: canonicalJson.simps sort_keys.simps render.simps map_map)
next
  case (JObj kvs)
  have e: "map (\<lambda>(k, v). (k, canonicalJson v)) kvs = map (\<lambda>(k, v). (k, render v)) (map (\<lambda>(k, v). (k, sort_keys v)) kvs)"
    using JObj by auto
  have "sort_key fst (map (\<lambda>(k, v). (k, canonicalJson v)) kvs) =
      map (\<lambda>(k, v). (k, render v)) (sort_key fst (map (\<lambda>(k, v). (k, sort_keys v)) kvs))"
    unfolding e by (rule sort_key_map) (simp add: case_prod_beta)
  moreover have "map (\<lambda>(k, s). quote k @ CHR '':'' # s) (map (\<lambda>(k, v). (k, render v)) xs) =
      map (\<lambda>(k, v). quote k @ CHR '':'' # render v) xs" for xs
    by auto
  ultimately show ?case by (simp only: canonicalJson.simps sort_keys.simps render.simps)
qed simp_all

section \<open>Strings are self-delimiting\<close>

lemma code_lt_32:
  assumes "code c < 32"
  shows "c \<noteq> CHR 0x22 \<and> c \<noteq> CHR 0x5C"
  using assms by auto

lemma hex_digit_inj: "m < 16 \<Longrightarrow> n < 16 \<Longrightarrow> hex_digit m = hex_digit n \<Longrightarrow> m = n"
proof -
  assume mn: "m < 16" "n < 16" and "hex_digit m = hex_digit n"
  then have "(of_char (hex_digit m) :: nat) = of_char (hex_digit n)" by simp
  moreover have "k < 16 \<Longrightarrow> (of_char (hex_digit k) :: nat) = (if k < 10 then 48 + k else 87 + k)" for k
    by (simp add: hex_digit_def)
  ultimately show "m = n" using mn by (auto split: if_splits)
qed

definition esc_kind :: "char \<Rightarrow> char" where
  "esc_kind c =
     (if c = CHR 0x22 then CHR 0x22 else if c = CHR 0x5C then CHR 0x5C else if c = CHR 0x08 then CHR ''b''
      else if c = CHR 0x0C then CHR ''f'' else if c = CHR 0x0A then CHR ''n'' else if c = CHR 0x0D then CHR ''r''
      else if c = CHR 0x09 then CHR ''t'' else CHR ''u'')"

definition escaped :: "char \<Rightarrow> bool" where
  "escaped c \<longleftrightarrow> c = CHR 0x22 \<or> c = CHR 0x5C \<or> code c < 32"

lemma esc_plain: "\<not> escaped c \<Longrightarrow> esc c = [c]"
  by (auto simp: esc_def escaped_def)

lemma esc_escaped:
  assumes "escaped c"
  shows "\<exists>r. esc c = CHR 0x5C # esc_kind c # r \<and> (esc_kind c \<noteq> CHR ''u'' \<longrightarrow> r = [])
    \<and> (esc_kind c = CHR ''u'' \<longrightarrow> code c < 32 \<and> r = [CHR ''0'', CHR ''0'', hex_digit (code c div 16), hex_digit (code c mod 16)])"
  using assms by (auto simp: esc_def esc_kind_def escaped_def)

lemma esc_kind_inj:
  assumes "escaped c" "escaped d" "esc_kind c = esc_kind d" "esc_kind c \<noteq> CHR ''u''"
  shows "c = d"
  using assms by (auto simp: esc_kind_def split: if_splits)

lemma code_inj: "code c = code d \<Longrightarrow> c = d"
  by simp

lemma esc_prefix:
  assumes "esc c @ x = esc d @ y"
  shows "c = d \<and> x = y"
proof (cases "escaped c = escaped d")
  case False
  then consider "escaped c" "\<not> escaped d" | "escaped d" "\<not> escaped c" by blast
  then show ?thesis
  proof cases
    case 1
    then have "d = CHR 0x5C" using assms esc_escaped [OF 1(1)] by (auto simp: esc_plain)
    with 1 show ?thesis by (simp add: escaped_def)
  next
    case 2
    then have "c = CHR 0x5C" using assms esc_escaped [OF 2(1)] by (auto simp: esc_plain)
    with 2 show ?thesis by (simp add: escaped_def)
  qed
next
  case True
  show ?thesis
  proof (cases "escaped c")
    case False
    then show ?thesis using assms True by (simp add: esc_plain)
  next
    case c: True
    then have d: "escaped d" using True by simp
    obtain r s where r: "esc c = CHR 0x5C # esc_kind c # r" "esc d = CHR 0x5C # esc_kind d # s"
      "esc_kind c \<noteq> CHR ''u'' \<longrightarrow> r = []" "esc_kind d \<noteq> CHR ''u'' \<longrightarrow> s = []"
      "esc_kind c = CHR ''u'' \<longrightarrow> code c < 32 \<and> r = [CHR ''0'', CHR ''0'', hex_digit (code c div 16), hex_digit (code c mod 16)]"
      "esc_kind d = CHR ''u'' \<longrightarrow> code d < 32 \<and> s = [CHR ''0'', CHR ''0'', hex_digit (code d div 16), hex_digit (code d mod 16)]"
      using esc_escaped [OF c] esc_escaped [OF d] by blast
    have k: "esc_kind c = esc_kind d" "r @ x = s @ y" using assms r(1,2) by simp_all
    show ?thesis
    proof (cases "esc_kind c = CHR ''u''")
      case False
      then show ?thesis using r(3,4) k esc_kind_inj [OF c d] by simp
    next
      case True
      have b: "code c < 32" "code d < 32" using r(5,6) True k(1) by simp_all
      have "hex_digit (code c div 16) = hex_digit (code d div 16)" "hex_digit (code c mod 16) = hex_digit (code d mod 16)"
        and x: "x = y" using r(5,6) True k by simp_all
      then have "code c div 16 = code d div 16" "code c mod 16 = code d mod 16"
        using b hex_digit_inj [of "code c div 16" "code d div 16"] hex_digit_inj [of "code c mod 16" "code d mod 16"]
        by simp_all
      then have "code c = code d" by (metis div_mult_mod_eq)
      then show ?thesis using x code_inj by blast
    qed
  qed
qed

lemma esc_hd: "esc c \<noteq> [] \<and> hd (esc c) \<noteq> CHR 0x22"
proof (cases "escaped c")
  case True
  then show ?thesis using esc_escaped [OF True] by auto
next
  case False
  then show ?thesis by (auto simp: esc_plain escaped_def)
qed

lemma quote_prefix:
  assumes "quote s @ x = quote t @ y"
  shows "s = t \<and> x = y"
proof -
  have "concat (map esc s) @ CHR 0x22 # x = concat (map esc t) @ CHR 0x22 # y \<Longrightarrow> s = t \<and> x = y"
  proof (induction s arbitrary: t)
    case Nil
    then show ?case using esc_hd by (cases t) (auto simp: neq_Nil_conv, metis esc_hd append_Cons list.sel(1) neq_Nil_conv)
  next
    case (Cons c s)
    show ?case
    proof (cases t)
      case Nil
      then show ?thesis using Cons.prems esc_hd [of c] by (cases "esc c") auto
    next
      case (Cons d t')
      then have e: "esc c @ concat (map esc s) @ CHR 0x22 # x = esc d @ concat (map esc t') @ CHR 0x22 # y"
        using Cons.prems by simp
      show ?thesis using esc_prefix [OF e] Cons.IH [of t'] Cons by simp
    qed
  qed
  then show ?thesis using assms by (simp add: quote_def)
qed

section \<open>Values are self-delimiting\<close>

text \<open>A number ends where no character of a number follows.\<close>

definition stops :: "string \<Rightarrow> bool" where
  "stops x \<longleftrightarrow> x = [] \<or> hd x \<notin> set num_chars"

lemma stops_simps [simp]:
  "stops (CHR '','' # x)" "stops (CHR '']'' # x)" "stops (CHR ''}'' # x)" "stops []"
  by (simp_all add: stops_def num_chars_def)

lemma number_prefix:
  assumes "set m \<subseteq> set num_chars" "set n \<subseteq> set num_chars" "stops x" "stops y" "m @ x = n @ y"
  shows "m = n \<and> x = y"
  using assms
proof (induction m arbitrary: n)
  case Nil
  then show ?case by (cases n) (auto simp: stops_def)
next
  case (Cons c m)
  then show ?case by (cases n) (auto simp: stops_def)
qed

text \<open>Lists of self-delimiting parts between commas.\<close>

lemma join_Cons: "join (s # ss) = s @ (if ss = [] then [] else CHR '','' # join ss)"
  by (cases ss) auto

lemma hd_differs: "s \<noteq> [] \<Longrightarrow> hd s \<noteq> c \<Longrightarrow> s @ z \<noteq> c # x"
  by (cases s) auto

lemma join_prefix:
  fixes r :: "'a \<Rightarrow> string"
  assumes "\<And>a b x y. a \<in> set as \<Longrightarrow> ok b \<Longrightarrow> stops x \<Longrightarrow> stops y \<Longrightarrow> r a @ x = r b @ y \<Longrightarrow> a = b \<and> x = y"
    and "\<And>b. ok b \<Longrightarrow> r b \<noteq> [] \<and> hd (r b) \<noteq> c" "\<And>a. a \<in> set as \<Longrightarrow> ok a" "\<And>b. b \<in> set bs \<Longrightarrow> ok b"
    and "c \<noteq> CHR '',''" "\<And>x. stops (c # x)"
    and "join (map r as) @ c # x = join (map r bs) @ c # y"
  shows "as = bs \<and> x = y"
  using assms
proof (induction as arbitrary: bs)
  case Nil
  show ?case
  proof (cases bs)
    case Nil
    then show ?thesis using Nil.prems(7) by simp
  next
    case (Cons b bs')
    then have "r b \<noteq> []" "hd (r b) \<noteq> c" using Nil.prems(2,4) by auto
    from hd_differs [OF this] Nil.prems(7) have False unfolding Cons list.map join_Cons append_assoc by (metis append_Nil join.simps(1))
    then show ?thesis ..
  qed
next
  case (Cons a as)
  show ?case
  proof (cases bs)
    case Nil
    have "r a \<noteq> []" "hd (r a) \<noteq> c" using Cons.prems(2,3) by auto
    from hd_differs [OF this] Cons.prems(7) have False unfolding Nil list.map join_Cons append_assoc by (metis append_Nil join.simps(1))
    then show ?thesis ..
  next
    case bs: (Cons b bs')
    define X where "X = (if as = [] then c # x else CHR '','' # join (map r as) @ c # x)"
    define Y where "Y = (if bs' = [] then c # y else CHR '','' # join (map r bs') @ c # y)"
    have st: "stops X" "stops Y" using Cons.prems(6) by (simp_all add: X_def Y_def)
    have "r a @ X = r b @ Y"
      using Cons.prems(7) unfolding bs list.map join_Cons X_def Y_def by (simp split: if_splits)
    then have ab: "a = b" "X = Y"
      using Cons.prems(1) [of a b X Y] Cons.prems(4) [of b] st bs by simp_all
    show ?thesis
    proof (cases "as = []")
      case True
      then have "bs' = []" using ab(2) Cons.prems(5) unfolding X_def Y_def by (simp split: if_splits)
      then show ?thesis using True ab bs unfolding X_def Y_def by simp
    next
      case False
      then have n: "bs' \<noteq> []" using ab(2) Cons.prems(5) unfolding X_def Y_def by (auto split: if_splits)
      have e: "join (map r as) @ c # x = join (map r bs') @ c # y"
        using ab(2) False n unfolding X_def Y_def by simp
      have "as = bs' \<and> x = y"
      proof (rule Cons.IH)
        show "p = q \<and> u = v" if "p \<in> set as" "ok q" "stops u" "stops v" "r p @ u = r q @ v" for p q u v
          using Cons.prems(1) [of p q u v] that by simp
      qed (use Cons.prems e bs in auto)
      then show ?thesis using ab bs by simp
    qed
  qed
qed

text \<open>What the first character of a rendered value says.\<close>

lemma render_hd:
  assumes "plain v"
  shows "render v \<noteq> [] \<and> hd (render v) \<noteq> CHR '']'' \<and> hd (render v) \<noteq> CHR ''}''"
proof (cases v)
  case (JNum n)
  then have "n \<noteq> []" "hd n \<in> set num_chars" using assms by (auto dest: hd_in_set)
  then show ?thesis using JNum by (auto simp: num_chars_def)
qed (use assms in \<open>auto simp: quote_def\<close>)

definition number_start :: "char \<Rightarrow> bool" where
  "number_start c \<longleftrightarrow> c \<in> set num_chars"

fun kind :: "jsval \<Rightarrow> nat" where
  "kind JNull = 0" | "kind (JBool True) = 1" | "kind (JBool False) = 2" | "kind (JNum _) = 3"
| "kind (JStr _) = 4" | "kind (JArr _) = 5" | "kind (JObj _) = 6" | "kind _ = 7"

definition first_kind :: "char \<Rightarrow> nat" where
  "first_kind c =
     (if c = CHR ''n'' then 0 else if c = CHR ''t'' then 1 else if c = CHR ''f'' then 2
      else if c = CHR 0x22 then 4 else if c = CHR ''['' then 5 else if c = CHR ''{'' then 6 else 3)"

lemma render_kind: "plain v \<Longrightarrow> first_kind (hd (render v)) = kind v"
proof (cases v)
  case (JNum n)
  assume "plain v"
  then have "hd n \<in> set num_chars" using JNum by (auto dest: hd_in_set)
  then show ?thesis using JNum by (auto simp: num_chars_def first_kind_def)
next
  case (JBool b)
  then show ?thesis by (cases b) (simp_all add: first_kind_def)
qed (auto simp: quote_def first_kind_def)

lemma same_kind:
  assumes "plain a" "plain b" "render a @ x = render b @ y"
  shows "kind a = kind b"
  using assms render_kind [OF assms(1)] render_kind [OF assms(2)] render_hd [OF assms(1)] render_hd [OF assms(2)]
  by (metis hd_append2)

lemma render_prefix:
  assumes "plain a" "plain b" "kind a = 3 \<longrightarrow> stops x \<and> stops y" "render a @ x = render b @ y"
  shows "a = b \<and> x = y"
  using assms
proof (induction a arbitrary: b x y)
  case JNull
  then have "kind b = 0" using same_kind [OF JNull(1,2,4)] by simp
  then have "b = JNull" by (cases b rule: kind.cases) simp_all
  then show ?case using JNull by simp
next
  case (JBool c)
  then have "kind b = kind (JBool c)" using same_kind [OF JBool(1,2,4)] by simp
  then have "b = JBool c" by (cases b rule: kind.cases; cases c) simp_all
  then show ?case using JBool by simp
next
  case (JNum n)
  then have "kind b = 3" using same_kind [OF JNum(1,2,4)] by simp
  then obtain m where m: "b = JNum m" by (cases b rule: kind.cases) simp_all
  then show ?case using JNum number_prefix [of n m x y] by simp
next
  case (JStr s)
  then have "kind b = 4" using same_kind [OF JStr(1,2,4)] by simp
  then obtain t where t: "b = JStr t" by (cases b rule: kind.cases) simp_all
  then show ?case using JStr quote_prefix [of s x t y] by simp
next
  case (JArr vs)
  then have "kind b = 5" using same_kind [OF JArr.prems(1,2,4)] by simp
  then obtain ws where b: "b = JArr ws" by (cases b rule: kind.cases) simp_all
  have e: "join (map render vs) @ CHR '']'' # x = join (map render ws) @ CHR '']'' # y" using JArr.prems(4) b by simp
  have "vs = ws \<and> x = y"
  proof (rule join_prefix [where r = render and ok = plain, OF _ _ _ _ _ _ e])
    show "u = v \<and> p = q" if "u \<in> set vs" "plain v" "stops p" "stops q" "render u @ p = render v @ q" for u v p q
      using JArr.IH [OF that(1), of v p q] JArr.prems(1) that by (auto simp: list_all_iff)
  qed (use JArr.prems b render_hd in \<open>auto simp: list_all_iff\<close>)
  then show ?case using b by simp
next
  case (JObj kvs)
  then have "kind b = 6" using same_kind [OF JObj.prems(1,2,4)] by simp
  then obtain ws where b: "b = JObj ws" by (cases b rule: kind.cases) simp_all
  let ?r = "\<lambda>(k, v). quote k @ CHR '':'' # render v"
  have e: "join (map ?r kvs) @ CHR ''}'' # x = join (map ?r ws) @ CHR ''}'' # y" using JObj.prems(4) b by simp
  have "kvs = ws \<and> x = y"
  proof (rule join_prefix [where r = ?r and ok = "\<lambda>(k, v). plain v", OF _ _ _ _ _ _ e])
    fix u v :: "string \<times> jsval" and p q
    assume u: "u \<in> set kvs" and v: "case v of (k, w) \<Rightarrow> plain w" and pq: "stops p" "stops q"
      and eq: "?r u @ p = ?r v @ q"
    have "fst u = fst v \<and> CHR '':'' # render (snd u) @ p = CHR '':'' # render (snd v) @ q"
      by (rule quote_prefix) (use eq in \<open>simp add: case_prod_beta\<close>)
    moreover have "plain (snd u)" "plain (snd v)" using JObj.prems(1) u v by (auto simp: list_all_iff)
    moreover have "(fst u, snd u) \<in> set kvs" using u by simp
    ultimately show "u = v \<and> p = q"
      using JObj.IH [of "(fst u, snd u)" "snd u" "snd v" p q] pq by (auto simp: prod_eq_iff)
  qed (use JObj.prems b in \<open>auto simp: list_all_iff quote_def\<close>)
  then show ?case using b by simp
qed simp_all

lemma keys_kept: "map fst (map (\<lambda>(k, v). (k, f v)) kvs) = map fst kvs"
  by (induction kvs) auto

lemma distinct_sorted_keys:
  "distinct (map fst (sort_key fst (map (\<lambda>(k, v). (k, f v)) kvs))) \<longleftrightarrow> distinct (map fst kvs)"
proof (rule mset_eq_imp_distinct_iff)
  have "mset (map fst (sort_key fst (map (\<lambda>(k, v). (k, f v)) kvs))) = mset (map fst (map (\<lambda>(k, v). (k, f v)) kvs))"
    by (simp only: mset_map mset_sort)
  then show "mset (map fst (sort_key fst (map (\<lambda>(k, v). (k, f v)) kvs))) = mset (map fst kvs)"
    by (simp only: keys_kept)
qed

lemma plain_sort_keys: "plain v \<Longrightarrow> plain (sort_keys v)"
proof (induction v)
  case (JArr vs)
  then show ?case by (auto simp: list_all_iff)
next
  case (JObj kvs)
  then show ?case by (auto simp: list_all_iff distinct_sorted_keys)
qed simp_all

lemma sort_keys_perm:
  assumes "mset kvs = mset kvs'" "distinct (map fst kvs)"
  shows "sort_keys (JObj kvs) = sort_keys (JObj kvs')"
proof -
  let ?f = "map (\<lambda>(k, v). (k, sort_keys v))"
  have m: "mset (?f kvs) = mset (?f kvs')" using assms(1) by (metis mset_map)
  have "distinct (map fst (?f kvs))" unfolding keys_kept by (rule assms(2))
  then have "inj_on fst (set (?f kvs))" by (simp only: distinct_map)
  then have "sort_key fst (?f kvs) = sort_key fst (?f kvs')" 
    by (intro sort_key_inj_key_eq) (use m in \<open>simp_all del: mset_map add: mset_sort\<close>)
  then show ?thesis by simp
qed

section \<open>Properties\<close>

text \<open>
  C40: the canonical text identifies a stored value. Two values that a JSON column can hold
  have the same text exactly when they are the same up to the order of keys; the order in
  which an object lists its properties does not matter.
\<close>

theorem canonical_text:
  assumes "plain a" "plain b"
  shows "(canonicalJson a = canonicalJson b \<longleftrightarrow> sort_keys a = sort_keys b)
    \<and> (a = JObj kvs \<and> mset kvs = mset kvs' \<longrightarrow> canonicalJson a = canonicalJson (JObj kvs'))"
proof -
  have "canonicalJson a = canonicalJson b \<Longrightarrow> sort_keys a = sort_keys b"
    using render_prefix [OF plain_sort_keys [OF assms(1)] plain_sort_keys [OF assms(2)], of "[]" "[]"]
    by (simp add: canonical_render)
  moreover have "sort_keys a = sort_keys b \<Longrightarrow> canonicalJson a = canonicalJson b"
    by (simp add: canonical_render)
  moreover have "a = JObj kvs \<and> mset kvs = mset kvs' \<longrightarrow> canonicalJson a = canonicalJson (JObj kvs')"
    using sort_keys_perm [of kvs kvs'] assms(1) unfolding canonical_render by auto
  ultimately show ?thesis by blast
qed

theorem canonical_text_witness:
  "canonicalJson (JObj [(''b'', JNum ''1''), (''a'', JArr [JNull])]) = ''{\"a\":[null],\"b\":1}''
   \<and> canonicalJson (JObj [(''b'', JNum ''1''), (''a'', JArr [JNull])]) = canonicalJson (JObj [(''a'', JArr [JNull]), (''b'', JNum ''1'')])"
proof -
  have p: "plain (JObj [(''b'', JNum ''1''), (''a'', JArr [JNull])])" by code_simp
  have "mset [(''b'', JNum ''1''), (''a'', JArr [JNull])] = mset [(''a'', JArr [JNull]), (''b'', JNum ''1'')]" by simp
  with canonical_text [OF p p, of "[(''b'', JNum ''1''), (''a'', JArr [JNull])]" "[(''a'', JArr [JNull]), (''b'', JNum ''1'')]"]
  have "canonicalJson (JObj [(''b'', JNum ''1''), (''a'', JArr [JNull])]) = canonicalJson (JObj [(''a'', JArr [JNull]), (''b'', JNum ''1'')])"
    by simp
  moreover have "canonicalJson (JObj [(''b'', JNum ''1''), (''a'', JArr [JNull])]) = ''{\"a\":[null],\"b\":1}''" by code_simp
  ultimately show ?thesis by blast
qed

end
