(* ===== verification/Audit_Log.thy ===== *)
theory Audit_Log
  imports Canonical_Json
begin

text \<open>
  The audit log of \<^verbatim>\<open>src/src/services/audit.service.ts\<close>: a chain of hashes for each
  tenant. Rows are kept in the order of insertion. The hash function, the JSON column and the
  choice of the database among rows of the same millisecond are fields of \<open>audit_env\<close>;
  \<open>env_law\<close> states what is assumed of the last two, nothing is assumed of the hash.
\<close>

section \<open>Rows and inputs\<close>

record AuditLog =
  al_id :: string
  al_tenantId :: string
  al_eventType :: string
  al_entityType :: string
  al_entityId :: string
  al_actorUserId :: "string option"
  al_actorIp :: "string option"
  al_actorUserAgent :: "string option"
  al_operation :: string
  al_payload :: jsval
  al_beforeState :: jsval
  al_afterState :: jsval
  al_correlationId :: "string option"
  al_previousHash :: "string option"
  al_currentHash :: string
  al_hashVersion :: int
  al_createdAt :: date

record AuditAppendInput =
  au_tenantId :: string
  au_eventType :: string
  au_entityType :: string
  au_entityId :: string
  au_actorUserId :: "string option"
  au_actorIp :: "string option"
  au_actorUserAgent :: "string option"
  au_operation :: string
  au_payload :: jsval
  au_beforeState :: jsval
  au_afterState :: jsval

record audit_env =
  sha256 :: "string \<Rightarrow> string"
  column :: "jsval \<Rightarrow> jsval"
  newest :: "AuditLog list \<Rightarrow> AuditLog"

text \<open>What one append reads from outside: the new row's id, the clock, the request context.\<close>
record stamp =
  st_id :: string
  st_now :: date
  st_correlationId :: "string option"

definition env_law :: "audit_env \<Rightarrow> bool" where
  "env_law env \<longleftrightarrow> (\<forall>v. sort_keys (column env v) = sort_keys (stored v)) \<and> (\<forall>rs. rs \<noteq> [] \<longrightarrow> newest env rs \<in> set rs)"

definition tenant_log :: "AuditLog list \<Rightarrow> string \<Rightarrow> AuditLog list" where
  "tenant_log rows tenantId = filter (\<lambda>r. al_tenantId r = tenantId) rows"

section \<open>Appending\<close>

definition successors :: "AuditLog list \<Rightarrow> AuditLog \<Rightarrow> AuditLog list" where
  "successors rows r = filter (\<lambda>s. al_previousHash s = Some (al_currentHash r)) rows"

definition findLeaf :: "audit_env \<Rightarrow> AuditLog list \<Rightarrow> string \<Rightarrow> app_error + string option" where
  "findLeaf env rows tenantId =
     (let mine = tenant_log rows tenantId
      in if mine = [] then Inr None
         else let latest = Max (set (map al_createdAt mine));
                  tip = newest env (filter (\<lambda>r. al_createdAt r = latest) mine)
              in if successors mine tip = [] then Inr (Some (al_currentHash tip))
                 else case take 2 (filter (\<lambda>a. successors mine a = []) mine) of
                        [leaf] \<Rightarrow> Inr (Some (al_currentHash leaf))
                      | _ \<Rightarrow> Inl AuditChainBranchError)"

text \<open>\<^verbatim>\<open>v ?? null\<close>\<close>
fun or_null :: "jsval \<Rightarrow> jsval" where
  "or_null JUndefined = JNull"
| "or_null v = v"

definition hash_text :: "int \<Rightarrow> string option \<Rightarrow> jsval \<Rightarrow> jsval \<Rightarrow> jsval \<Rightarrow> date \<Rightarrow> string" where
  "hash_text version previousHash payload beforeState afterState now =
     int_str version @ (case previousHash of None \<Rightarrow> '''' | Some h \<Rightarrow> h)
       @ canonicalJson payload @ canonicalJson (or_null beforeState) @ canonicalJson (or_null afterState)
       @ iso_string now"

definition appendInTx ::
  "audit_env \<Rightarrow> stamp \<Rightarrow> AuditAppendInput \<Rightarrow> AuditLog list \<Rightarrow> app_error + AuditLog \<times> AuditLog list" where
  "appendInTx env st input rows =
     res_bind (findLeaf env rows (au_tenantId input)) (\<lambda>previousHash.
       let now = st_now st;
           hashInput = hash_text 1 previousHash (au_payload input) (au_beforeState input) (au_afterState input) now;
           currentHash = sha256 env hashInput;
           r = \<lparr>al_id = st_id st, al_tenantId = au_tenantId input, al_eventType = au_eventType input,
                al_entityType = au_entityType input, al_entityId = au_entityId input,
                al_actorUserId = au_actorUserId input, al_actorIp = au_actorIp input,
                al_actorUserAgent = au_actorUserAgent input, al_operation = au_operation input,
                al_payload = column env (au_payload input),
                al_beforeState = column env (or_null (au_beforeState input)),
                al_afterState = column env (or_null (au_afterState input)),
                al_correlationId = st_correlationId st, al_previousHash = previousHash,
                al_currentHash = currentHash, al_hashVersion = 1, al_createdAt = now\<rparr>
       in if (\<exists>q \<in> set rows. al_id q = al_id r \<or> al_tenantId q = al_tenantId r \<and> al_currentHash q = al_currentHash r)
          then Inl UniqueViolation
          else Inr (r, rows @ [r]))"

text \<open>The standalone entry point hides every failure but a branch.\<close>

definition audit_log :: "audit_env \<Rightarrow> stamp \<Rightarrow> AuditAppendInput \<Rightarrow> AuditLog list \<Rightarrow> app_error + unit \<times> AuditLog list" where
  "audit_log env st input rows =
     (case appendInTx env st input rows of
        Inr (_, rows') \<Rightarrow> Inr ((), rows')
      | Inl AuditChainBranchError \<Rightarrow> Inl AuditChainBranchError
      | Inl _ \<Rightarrow> Inl AuditWriteFailureError)"

section \<open>Verifying\<close>

datatype chain_error =
    NoGenesis
  | MultipleGenesis "string list"
  | ContentMismatch string string string
  | BranchAt string nat
  | CircularAt string
  | Disconnected "string list"

definition expected_hash :: "audit_env \<Rightarrow> AuditLog \<Rightarrow> string" where
  "expected_hash env r =
     sha256 env (hash_text 1 (al_previousHash r) (al_payload r) (al_beforeState r) (al_afterState r) (al_createdAt r))"

definition content_errors :: "audit_env \<Rightarrow> AuditLog \<Rightarrow> chain_error list" where
  "content_errors env r =
     (if al_hashVersion r = 1 \<and> expected_hash env r \<noteq> al_currentHash r
      then [ContentMismatch (al_id r) (expected_hash env r) (al_currentHash r)] else [])"

function verify_walk ::
  "audit_env \<Rightarrow> AuditLog list \<Rightarrow> string list \<Rightarrow> AuditLog \<Rightarrow> chain_error list \<Rightarrow> string list \<times> chain_error list" where
  "verify_walk env allRecords visited current errors =
     (let errors' = errors @ content_errors env current
      in case successors allRecords current of
           [] \<Rightarrow> (visited, errors')
         | [s] \<Rightarrow> if al_id s \<in> set visited then (visited, errors' @ [CircularAt (al_id s)])
                  else verify_walk env allRecords (al_id s # visited) s errors'
         | ss \<Rightarrow> (visited, errors' @ [BranchAt (al_id current) (length ss)]))"
  by pat_completeness auto

lemma successor_in: "successors rows r = s # ss \<Longrightarrow> s \<in> set rows"
  using filter_set [of "\<lambda>s. al_previousHash s = Some (al_currentHash r)" rows]
  by (metis successors_def filter_is_subset list.set_intros(1) subsetD)

termination verify_walk
proof (relation "measure (\<lambda>(env, allRecords, visited, current, errors). card (al_id ` set allRecords - set visited))")
  fix env allRecords visited current errors and x and s and xs :: "AuditLog list"
  assume s: "successors allRecords current = s # xs" "al_id s \<notin> set visited"
  then have "al_id s \<in> al_id ` set allRecords - set visited" using successor_in by blast
  then have "card (al_id ` set allRecords - set (al_id s # visited)) < card (al_id ` set allRecords - set visited)"
    by (intro psubset_card_mono) auto
  then show "((env, allRecords, al_id s # visited, s, x), env, allRecords, visited, current, errors)
      \<in> measure (\<lambda>(env, allRecords, visited, current, errors). card (al_id ` set allRecords - set visited))"
    by simp
qed simp_all

definition verifyChain :: "audit_env \<Rightarrow> AuditLog list \<Rightarrow> string \<Rightarrow> bool \<times> chain_error list" where
  "verifyChain env rows tenantId =
     (let allRecords = tenant_log rows tenantId;
          genesisRows = filter (\<lambda>r. al_previousHash r = None) allRecords
      in if allRecords = [] then (True, [])
         else case genesisRows of
             [] \<Rightarrow> (False, [NoGenesis])
           | [g] \<Rightarrow>
               (let (visited, errors) = verify_walk env allRecords [al_id g] g [];
                    errors' = (if length (remdups visited) \<noteq> length allRecords
                               then errors @ [Disconnected (map al_id (filter (\<lambda>r. al_id r \<notin> set visited) allRecords))]
                               else errors)
                in (errors' = [], errors'))
           | gs \<Rightarrow> (False, [MultipleGenesis (map al_id gs)]))"

section \<open>Linear chains\<close>

definition linked :: "AuditLog list \<Rightarrow> bool" where
  "linked rs \<longleftrightarrow> (\<forall>i < length rs. al_previousHash (rs ! i) = (if i = 0 then None else Some (al_currentHash (rs ! (i - 1)))))"

definition chain_ok :: "AuditLog list \<Rightarrow> bool" where
  "chain_ok rows \<longleftrightarrow> distinct (map al_id rows) \<and> (\<forall>t. linked (tenant_log rows t) \<and> distinct (map al_currentHash (tenant_log rows t)))"

lemma filter_only: "distinct xs \<Longrightarrow> a \<in> set xs \<Longrightarrow> (\<And>x. x \<in> set xs \<Longrightarrow> P x \<longleftrightarrow> x = a) \<Longrightarrow> filter P xs = [a]"
proof (induction xs)
  case (Cons x xs)
  show ?case
  proof (cases "x = a")
    case True
    then have "filter P xs = []" using Cons.prems(1,3) by (auto simp: filter_empty_conv)
    then show ?thesis using True Cons.prems(3) by simp
  next
    case False
    then show ?thesis using Cons by simp
  qed
qed simp

lemma successors_linked:
  assumes "linked rs" "distinct (map al_currentHash rs)" "i < length rs"
  shows "successors rs (rs ! i) = (if Suc i < length rs then [rs ! Suc i] else [])"
proof -
  have s: "al_previousHash (rs ! j) = Some (al_currentHash (rs ! i)) \<longleftrightarrow> j = Suc i" if j: "j < length rs" for j
  proof (cases j)
    case 0
    then show ?thesis using assms(1) j by (simp add: linked_def)
  next
    case (Suc k)
    have "al_currentHash (rs ! k) = al_currentHash (rs ! i) \<longleftrightarrow> k = i"
      using assms(2,3) j Suc nth_eq_iff_index_eq [OF assms(2), of k i] by simp
    then show ?thesis using assms(1) j Suc by (simp add: linked_def)
  qed
  show ?thesis
  proof (cases "Suc i < length rs")
    case True
    have "filter (\<lambda>s. al_previousHash s = Some (al_currentHash (rs ! i))) rs = [rs ! Suc i]"
    proof (rule filter_only)
      show "distinct rs" using assms(2) by (simp add: distinct_map)
      show "rs ! Suc i \<in> set rs" using True by simp
      fix x assume "x \<in> set rs"
      then obtain j where "j < length rs" "x = rs ! j" by (auto simp: in_set_conv_nth)
      then show "al_previousHash x = Some (al_currentHash (rs ! i)) \<longleftrightarrow> x = rs ! Suc i"
        using s [of j] s [of "Suc i"] True \<open>distinct rs\<close> by (auto simp: nth_eq_iff_index_eq)
    qed
    then show ?thesis using True by (simp add: successors_def)
  next
    case False
    then have "x \<in> set rs \<Longrightarrow> al_previousHash x \<noteq> Some (al_currentHash (rs ! i))" for x
      using s by (auto simp: in_set_conv_nth)
    then show ?thesis using False by (simp add: successors_def filter_empty_conv)
  qed
qed

text \<open>The leaf is the last row, whatever the clocks say and whichever row the database picks.\<close>

lemma findLeaf_linked:
  assumes "env_law env" "linked (tenant_log rows t)" "distinct (map al_currentHash (tenant_log rows t))"
  shows "findLeaf env rows t =
    Inr (if tenant_log rows t = [] then None else Some (al_currentHash (last (tenant_log rows t))))"
proof (cases "tenant_log rows t = []")
  case True
  then show ?thesis by (simp add: findLeaf_def)
next
  case False
  define mine where "mine = tenant_log rows t"
  define tip where "tip = newest env (filter (\<lambda>r. al_createdAt r = Max (set (map al_createdAt mine))) mine)"
  have ne: "mine \<noteq> []" using False by (simp add: mine_def)
  have suc: "i < length mine \<Longrightarrow> successors mine (mine ! i) = [] \<longleftrightarrow> i = length mine - 1" for i
    using successors_linked [OF assms(2,3)] by (auto simp: mine_def)
  have "Max (set (map al_createdAt mine)) \<in> set (map al_createdAt mine)" using ne by (intro Max_in) simp_all
  then have "filter (\<lambda>r. al_createdAt r = Max (set (map al_createdAt mine))) mine \<noteq> []"
    by (auto simp: filter_empty_conv)
  then have "tip \<in> set mine" using assms(1) by (auto simp: tip_def env_law_def)
  then obtain i where i: "i < length mine" "tip = mine ! i" by (auto simp: in_set_conv_nth)
  have last: "last mine = mine ! (length mine - 1)" using ne by (simp add: last_conv_nth)
  have "filter (\<lambda>a. successors mine a = []) mine = [last mine]"
  proof (rule filter_only)
    show d: "distinct mine" using assms(3) by (simp add: mine_def distinct_map)
    show "last mine \<in> set mine" using ne by simp
    fix x assume "x \<in> set mine"
    then obtain j where "j < length mine" "x = mine ! j" by (auto simp: in_set_conv_nth)
    then show "successors mine x = [] \<longleftrightarrow> x = last mine" using suc last d ne by (simp add: nth_eq_iff_index_eq)
  qed
  then show ?thesis
    using ne suc [OF i(1)] i last
    unfolding findLeaf_def Let_def mine_def [symmetric] tip_def [symmetric] by simp
qed

lemma tenant_log_append: "tenant_log (rows @ [r]) t = tenant_log rows t @ (if al_tenantId r = t then [r] else [])"
  by (simp add: tenant_log_def)

lemma linked_snoc:
  "linked rs \<Longrightarrow> al_previousHash r = (if rs = [] then None else Some (al_currentHash (last rs))) \<Longrightarrow> linked (rs @ [r])"
  unfolding linked_def
proof (intro allI impI)
  fix i
  assume rs: "\<forall>i<length rs. al_previousHash (rs ! i) = (if i = 0 then None else Some (al_currentHash (rs ! (i - 1))))"
    and r: "al_previousHash r = (if rs = [] then None else Some (al_currentHash (last rs)))" and i: "i < length (rs @ [r])"
  show "al_previousHash ((rs @ [r]) ! i) = (if i = 0 then None else Some (al_currentHash ((rs @ [r]) ! (i - 1))))"
  proof (cases "i < length rs")
    case True
    then have "(rs @ [r]) ! (i - 1) = rs ! (i - 1)" by (simp add: nth_append)
    then show ?thesis using True rs by (simp add: nth_append)
  next
    case False
    then have "i = length rs" using i by simp
    then show ?thesis using r by (cases "rs = []") (auto simp: nth_append last_conv_nth)
  qed
qed

lemma appendInTx_Inr:
  assumes "appendInTx env st input rows = Inr (r, rows')"
  shows "rows' = rows @ [r]" "al_tenantId r = au_tenantId input" "al_hashVersion r = 1" "al_id r = st_id st"
    "al_currentHash r = sha256 env (hash_text 1 (al_previousHash r) (au_payload input) (au_beforeState input) (au_afterState input) (al_createdAt r))"
    "al_payload r = column env (au_payload input)" "al_beforeState r = column env (or_null (au_beforeState input))"
    "al_afterState r = column env (or_null (au_afterState input))" "al_createdAt r = st_now st"
    "findLeaf env rows (au_tenantId input) = Inr (al_previousHash r)"
    "\<forall>q \<in> set rows. al_id q \<noteq> al_id r \<and> (al_tenantId q = al_tenantId r \<longrightarrow> al_currentHash q \<noteq> al_currentHash r)"
    "al_eventType r = au_eventType input" "al_entityType r = au_entityType input" "al_entityId r = au_entityId input"
    "al_actorUserId r = au_actorUserId input" "al_operation r = au_operation input"
  using assms by (auto simp: appendInTx_def res_bind_Inr_iff Let_def split: if_splits)

lemma append_entries:
  assumes "appendInTx env st input rows = Inr (r, rows')"
  shows "tenant_log rows' t = tenant_log rows t @ (if au_tenantId input = t then [r] else [])"
  using appendInTx_Inr(1,2) [OF assms] by (simp add: tenant_log_append)

lemma append_chain:
  assumes "env_law env" "chain_ok rows" "appendInTx env st input rows = Inr (r, rows')"
  shows "chain_ok rows'"
proof -
  note r = appendInTx_Inr [OF assms(3)]
  have "findLeaf env rows (al_tenantId r) =
      Inr (if tenant_log rows (al_tenantId r) = [] then None else Some (al_currentHash (last (tenant_log rows (al_tenantId r)))))"
    using assms(2) by (intro findLeaf_linked [OF assms(1)]) (simp_all add: chain_ok_def)
  then have p: "al_previousHash r =
      (if tenant_log rows (al_tenantId r) = [] then None else Some (al_currentHash (last (tenant_log rows (al_tenantId r)))))"
    using r(2,10) by simp
  have new: "al_currentHash r \<notin> al_currentHash ` set (tenant_log rows (al_tenantId r))" "al_id r \<notin> al_id ` set rows"
    using r(11) by (auto simp: tenant_log_def)
  show ?thesis
    unfolding chain_ok_def
  proof (intro conjI allI)
    show "distinct (map al_id rows')" using assms(2) new r(1) by (simp add: chain_ok_def)
    fix t
    show "linked (tenant_log rows' t)"
      using assms(2) r(1) p by (auto simp: tenant_log_append chain_ok_def intro: linked_snoc)
    show "distinct (map al_currentHash (tenant_log rows' t))"
      using assms(2) r(1) new by (auto simp: tenant_log_append chain_ok_def)
  qed
qed

section \<open>An interface for clients\<close>

text \<open>
  What the services rely on: an append adds one entry for its tenant and leaves the entries
  of other tenants, and the log stays well formed.
\<close>

locale append_log =
  fixes append :: "'i \<Rightarrow> 'log \<Rightarrow> 'e + ('r \<times> 'log)"
    and entries :: "'log \<Rightarrow> 't \<Rightarrow> 'r list"
    and tenant :: "'i \<Rightarrow> 't"
    and ok :: "'log \<Rightarrow> bool"
  assumes appends: "append i l = Inr (r, l') \<Longrightarrow> entries l' (tenant i) = entries l (tenant i) @ [r]"
    and others: "append i l = Inr (r, l') \<Longrightarrow> t \<noteq> tenant i \<Longrightarrow> entries l' t = entries l t"
    and keeps: "append i l = Inr (r, l') \<Longrightarrow> ok l \<Longrightarrow> ok l'"
begin

text \<open>Nothing that was logged is lost or reordered.\<close>

lemma extends: "append i l = Inr (r, l') \<Longrightarrow> \<exists>more. entries l' t = entries l t @ more"
  using appends [of i l r l'] others [of i l r l' t] by (cases "t = tenant i") auto

lemma grows_by_one: "append i l = Inr (r, l') \<Longrightarrow> length (entries l' (tenant i)) = Suc (length (entries l (tenant i)))"
  by (simp add: appends)

lemma last_entry: "append i l = Inr (r, l') \<Longrightarrow> last (entries l' (tenant i)) = r"
  by (simp add: appends)

end

interpretation audit: append_log
  "\<lambda>(st, input) rows. appendInTx env st input rows" tenant_log "\<lambda>(st, input). au_tenantId input"
  "\<lambda>rows. env_law env \<longrightarrow> chain_ok rows" for env
  by unfold_locales (auto simp: append_entries intro: append_chain)

section \<open>What verification finds\<close>

lemma linked_first: "linked rs \<Longrightarrow> rs \<noteq> [] \<Longrightarrow> filter (\<lambda>r. al_previousHash r = None) rs = [hd rs]"
proof (cases rs)
  case (Cons g gs)
  assume l: "linked rs"
  have "al_previousHash x \<noteq> None" if "x \<in> set gs" for x
  proof -
    from that obtain j where "j < length gs" "x = rs ! Suc j" using Cons by (auto simp: in_set_conv_nth)
    then show ?thesis using l Cons by (auto simp: linked_def)
  qed
  then have "filter (\<lambda>r. al_previousHash r = None) gs = []" by (auto simp: filter_empty_conv)
  moreover have "al_previousHash g = None" using l Cons by (auto simp: linked_def)
  ultimately show ?thesis using Cons by simp
qed simp

declare verify_walk.simps [simp del]

lemma verify_walk_linked:
  assumes "linked rs" "distinct (map al_currentHash rs)" "distinct (map al_id rs)" "\<forall>r \<in> set rs. content_errors env r = []"
    and "i < length rs"
  shows "verify_walk env rs (map al_id (rev (take (Suc i) rs))) (rs ! i) [] = (map al_id (rev rs), [])"
  using assms(5)
proof (induction "length rs - i" arbitrary: i)
  case 0
  then show ?case by simp
next
  case (Suc n)
  have c: "content_errors env (rs ! i) = []" using assms(4) Suc.prems by simp
  note s = successors_linked [OF assms(1,2) Suc.prems]
  show ?case
  proof (cases "Suc i < length rs")
    case False
    then have "take (Suc i) rs = rs" by simp
    then show ?thesis using s False c by (simp add: verify_walk.simps)
  next
    case True
    have "distinct (map al_id (take (Suc (Suc i)) rs))"
      using assms(3) by (metis distinct_take take_map)
    then have "al_id (rs ! Suc i) \<notin> set (map al_id (take (Suc i) rs))"
      unfolding take_Suc_conv_app_nth [OF True] by simp
    moreover have "rev (take (Suc (Suc i)) rs) = rs ! Suc i # rev (take (Suc i) rs)"
      using True by (simp add: take_Suc_conv_app_nth)
    moreover have "verify_walk env rs (map al_id (rev (take (Suc (Suc i)) rs))) (rs ! Suc i) [] = (map al_id (rev rs), [])"
      using Suc True by (intro Suc.hyps(1)) simp_all
    ultimately show ?thesis using s True c by (subst verify_walk.simps) (simp del: take_Suc)
  qed
qed

lemma verify_linked:
  assumes "linked (tenant_log rows t)" "distinct (map al_currentHash (tenant_log rows t))"
    "distinct (map al_id (tenant_log rows t))" "\<forall>r \<in> set (tenant_log rows t). content_errors env r = []"
  shows "verifyChain env rows t = (True, [])"
proof (cases "tenant_log rows t")
  case Nil
  then show ?thesis by (simp add: verifyChain_def)
next
  case (Cons g gs)
  then have "verify_walk env (g # gs) [al_id g] g [] = (map al_id (rev (g # gs)), [])"
    using verify_walk_linked [OF assms, of 0] by simp
  moreover have "distinct (map al_id (rev (g # gs)))" using assms(3) Cons by (simp add: rev_map [symmetric])
  then have "length (remdups (map al_id (rev (g # gs)))) = length (g # gs)" by (simp only: distinct_remdups_id length_map length_rev)
  moreover have "filter (\<lambda>r. al_previousHash r = None) (g # gs) = [g]"
    using linked_first [OF assms(1)] Cons by simp
  ultimately show ?thesis using Cons by (simp add: verifyChain_def Let_def)
qed

text \<open>Conversely, a walk without findings follows a chain of sealed rows.\<close>

lemma verify_walk_errors: "\<exists>more. snd (verify_walk env all visited cur errors) = errors @ more"
proof (induction env all visited cur errors rule: verify_walk.induct)
  case (1 env all visited cur errors)
  show ?case
  proof (cases "successors all cur")
    case Nil
    then show ?thesis by (simp add: verify_walk.simps)
  next
    case (Cons s ss)
    show ?thesis
    proof (cases "ss = [] \<and> al_id s \<notin> set visited")
      case True
      then show ?thesis using 1 [OF refl, of s] Cons by (subst verify_walk.simps) auto
    next
      case False
      then show ?thesis using Cons by (cases ss) (auto simp: verify_walk.simps)
    qed
  qed
qed

lemma verify_walk_content: "\<exists>more. snd (verify_walk env all visited cur errors) = errors @ content_errors env cur @ more"
proof (cases "successors all cur")
  case Nil
  then show ?thesis by (simp add: verify_walk.simps)
next
  case (Cons s ss)
  show ?thesis
  proof (cases "ss = [] \<and> al_id s \<notin> set visited")
    case True
    then show ?thesis
      using verify_walk_errors [of env all "al_id s # visited" s "errors @ content_errors env cur"] Cons
      by (subst verify_walk.simps) auto
  next
    case False
    then show ?thesis using Cons by (cases ss) (auto simp: verify_walk.simps)
  qed
qed

lemma verify_walk_clean:
  assumes "verify_walk env all visited cur [] = (visited', [])"
  shows "\<exists>path. path \<noteq> [] \<and> hd path = cur \<and> set path \<subseteq> insert cur (set all)
    \<and> (\<forall>i. Suc i < length path \<longrightarrow> al_previousHash (path ! Suc i) = Some (al_currentHash (path ! i)))
    \<and> (\<forall>r \<in> set path. content_errors env r = []) \<and> set visited' = set visited \<union> al_id ` set (tl path)
    \<and> distinct (map al_id (tl path)) \<and> al_id ` set (tl path) \<inter> set visited = {}"
  using assms
proof (induction env all visited cur "[] :: chain_error list" rule: verify_walk.induct)
  case (1 env all visited cur)
  have c: "content_errors env cur = []"
    using verify_walk_content [of env all visited cur "[]"] 1(2) by auto
  show ?case
  proof (cases "successors all cur")
    case Nil
    then show ?thesis using 1(2) c by (intro exI [of _ "[cur]"]) (simp add: verify_walk.simps)
  next
    case (Cons s ss)
    with 1(2) have s: "ss = []" "al_id s \<notin> set visited" "verify_walk env all (al_id s # visited) s [] = (visited', [])"
      by (auto simp: verify_walk.simps [of env all visited cur] c split: list.splits if_splits)
    then obtain path where p: "path \<noteq> []" "hd path = s" "set path \<subseteq> insert s (set all)"
      "\<forall>i. Suc i < length path \<longrightarrow> al_previousHash (path ! Suc i) = Some (al_currentHash (path ! i))"
      "\<forall>r \<in> set path. content_errors env r = []" "set visited' = set (al_id s # visited) \<union> al_id ` set (tl path)"
      "distinct (map al_id (tl path))" "al_id ` set (tl path) \<inter> set (al_id s # visited) = {}"
      using 1(1) [OF _ Cons] c Cons by fastforce
    have sa: "s \<in> set all" "al_previousHash s = Some (al_currentHash cur)"
      using Cons s(1) successor_in [OF Cons] by (auto simp: successors_def filter_eq_Cons_iff)
    have "al_previousHash ((cur # path) ! Suc i) = Some (al_currentHash ((cur # path) ! i))" if "Suc i < length (cur # path)" for i
      using that p(1,2,4) sa(2) by (cases i) (auto simp: hd_conv_nth)
    moreover have "al_id ` set path = insert (al_id s) (al_id ` set (tl path))"
      "distinct (map al_id path)" "al_id ` set path \<inter> set visited = {}"
      using p(1,2,7,8) s(2) by (cases path; auto)+
    ultimately show ?thesis
      using p sa c by (intro exI [of _ "cur # path"]) auto
  qed
qed

lemma verify_clean:
  assumes "verifyChain env rows t = (True, es)"
  shows "es = [] \<and> (\<exists>path. mset path = mset (tenant_log rows t) \<and> linked path \<and> distinct (map al_id path)
    \<and> (\<forall>r \<in> set path. content_errors env r = []))"
proof (cases "tenant_log rows t = []")
  case True
  then show ?thesis using assms by (auto simp: verifyChain_def linked_def)
next
  case False
  define mine where "mine = tenant_log rows t"
  obtain g where g: "filter (\<lambda>r. al_previousHash r = None) mine = [g]"
    using assms False unfolding verifyChain_def Let_def mine_def by (auto split: list.splits if_splits)
  obtain visited es' where w: "verify_walk env mine [al_id g] g [] = (visited, es')" by fastforce
  have e: "es' = []" "length (remdups visited) = length mine" "es = []"
    using assms False g w unfolding verifyChain_def Let_def mine_def [symmetric] by (auto split: if_splits)
  have gm: "g \<in> set mine" "al_previousHash g = None" using g by (auto simp: filter_eq_Cons_iff)
  obtain path where p: "path \<noteq> []" "hd path = g" "set path \<subseteq> insert g (set mine)"
    "\<forall>i. Suc i < length path \<longrightarrow> al_previousHash (path ! Suc i) = Some (al_currentHash (path ! i))"
    "\<forall>r \<in> set path. content_errors env r = []" "set visited = set [al_id g] \<union> al_id ` set (tl path)"
    "distinct (map al_id (tl path))" "al_id ` set (tl path) \<inter> set [al_id g] = {}"
    using verify_walk_clean [OF w [unfolded e(1)]] by blast
  have path: "set path \<subseteq> set mine" "set visited = al_id ` set path" "distinct (map al_id path)"
    using p(1,2,3,6,7,8) gm by (cases path; auto)+
  have "card (al_id ` set path) = length mine" using e(2) path(2) by (metis length_remdups_card_conv)
  moreover have "card (al_id ` set path) \<le> card (set path)" "card (set path) \<le> card (set mine)" "card (set mine) \<le> length mine"
    using path(1) by (auto intro: card_image_le card_mono card_length)
  ultimately have "card (set path) = card (set mine)" "card (set mine) = length mine" by simp_all
  then have "set path = set mine" "distinct mine" using path(1) by (simp_all add: card_subset_eq card_distinct)
  moreover have "distinct path" using path(3) by (simp add: distinct_map)
  ultimately have m: "mset path = mset mine" using set_eq_iff_mset_eq_distinct by blast
  have "linked path"
    unfolding linked_def
  proof (intro allI impI)
    fix i assume "i < length path"
    then show "al_previousHash (path ! i) = (if i = 0 then None else Some (al_currentHash (path ! (i - 1))))"
      using p(1,2,4) gm(2) by (cases i) (auto simp: hd_conv_nth)
  qed
  then show ?thesis using m path(3) p(5) e(3) unfolding mine_def by blast
qed

lemma clean_sealed: "verifyChain env rows t = (True, es) \<Longrightarrow> r \<in> set (tenant_log rows t) \<Longrightarrow> content_errors env r = []"
  using verify_clean [of env rows t es] by (metis set_mset_mset)

section \<open>What the column keeps of an input\<close>

definition plain_input :: "AuditAppendInput \<Rightarrow> bool" where
  "plain_input i \<longleftrightarrow> plain (au_payload i) \<and> plain (or_null (au_beforeState i)) \<and> plain (or_null (au_afterState i))"

lemma canonical_or_null [simp]: "canonicalJson (or_null v) = canonicalJson v"
  by (cases v) simp_all

lemma column_text: "env_law env \<Longrightarrow> plain v \<Longrightarrow> canonicalJson (column env v) = canonicalJson v"
  by (simp add: canonical_render env_law_def stored_plain)

lemma append_sealed:
  assumes "env_law env" "plain_input input" "appendInTx env st input rows = Inr (r, rows')"
  shows "content_errors env r = []"
proof -
  note r = appendInTx_Inr [OF assms(3)]
  have "hash_text 1 (al_previousHash r) (al_payload r) (al_beforeState r) (al_afterState r) (al_createdAt r)
      = hash_text 1 (al_previousHash r) (au_payload input) (au_beforeState input) (au_afterState input) (al_createdAt r)"
    using assms(1,2) column_text unfolding hash_text_def r(6-8) plain_input_def by auto
  then show ?thesis using r(5) by (simp add: content_errors_def expected_hash_def)
qed

text \<open>Logs that come about by appending.\<close>

inductive grown :: "audit_env \<Rightarrow> AuditLog list \<Rightarrow> bool" for env where
  grown_empty: "grown env []"
| grown_append: "grown env rows \<Longrightarrow> plain_input input \<Longrightarrow> appendInTx env st input rows = Inr (r, rows') \<Longrightarrow> grown env rows'"

lemma grown_invariant:
  assumes "env_law env" "grown env rows"
  shows "chain_ok rows \<and> (\<forall>r \<in> set rows. content_errors env r = [])"
  using assms(2)
proof (induction rule: grown.induct)
  case grown_empty
  show ?case by (simp add: chain_ok_def linked_def tenant_log_def)
next
  case (grown_append rows input st r rows')
  then show ?case
    using append_chain [OF assms(1)] append_sealed [OF assms(1)] appendInTx_Inr(1) by fastforce
qed

section \<open>The hashed text determines the content\<close>

definition record_shaped :: "jsval \<Rightarrow> bool" where
  "record_shaped v \<longleftrightarrow> plain v \<and> (v = JNull \<or> (\<exists>kvs. v = JObj kvs))"

definition hash_part :: "string option \<Rightarrow> string" where
  "hash_part p = (case p of None \<Rightarrow> [] | Some h \<Rightarrow> h)"

lemma canonical_prefix:
  assumes "record_shaped a" "record_shaped b" "canonicalJson a @ x = canonicalJson b @ y"
  shows "sort_keys a = sort_keys b \<and> x = y"
proof -
  have "kind (sort_keys a) \<noteq> 3" using assms(1) by (auto simp: record_shaped_def)
  then show ?thesis
    using render_prefix [OF plain_sort_keys plain_sort_keys, of a b x y] assms
    by (simp add: canonical_render record_shaped_def)
qed

lemma canonical_object: "\<exists>z. canonicalJson (JObj kvs) = CHR ''{'' # z"
  by simp

lemma split_first: "c \<notin> set p \<Longrightarrow> c \<notin> set q \<Longrightarrow> p @ c # x = q @ c # y \<Longrightarrow> p = q \<and> x = y"
proof (induction p arbitrary: q)
  case Nil
  then show ?case by (cases q) auto
next
  case (Cons a p)
  then show ?case by (cases q) auto
qed

lemma hash_text_inj:
  assumes "hash_text 1 p (JObj a) b c n = hash_text 1 p' (JObj a') b' c' n'"
    and "CHR ''{'' \<notin> set (hash_part p)" "CHR ''{'' \<notin> set (hash_part p')"
    and "plain (JObj a)" "plain (JObj a')" "record_shaped (or_null b)" "record_shaped (or_null b')"
    and "record_shaped (or_null c)" "record_shaped (or_null c')"
  shows "hash_part p = hash_part p' \<and> sort_keys (JObj a) = sort_keys (JObj a')
    \<and> sort_keys (or_null b) = sort_keys (or_null b') \<and> sort_keys (or_null c) = sort_keys (or_null c')
    \<and> iso_string n = iso_string n'"
proof -
  let ?r = "canonicalJson (or_null b) @ canonicalJson (or_null c) @ iso_string n"
  let ?r' = "canonicalJson (or_null b') @ canonicalJson (or_null c') @ iso_string n'"
  have e: "hash_part p @ canonicalJson (JObj a) @ ?r = hash_part p' @ canonicalJson (JObj a') @ ?r'"
    using assms(1) by (simp add: hash_text_def hash_part_def del: canonicalJson.simps)
  obtain z z' where z: "canonicalJson (JObj a) = CHR ''{'' # z" "canonicalJson (JObj a') = CHR ''{'' # z'"
    using canonical_object by blast
  have h: "hash_part p = hash_part p'"
    using split_first [OF assms(2,3), of "z @ ?r" "z' @ ?r'"] e unfolding z by simp
  have o: "record_shaped (JObj a)" "record_shaped (JObj a')" using assms(4,5) by (simp_all add: record_shaped_def)
  have 1: "sort_keys (JObj a) = sort_keys (JObj a') \<and> ?r = ?r'"
    by (rule canonical_prefix [OF o]) (use e h in \<open>simp del: canonicalJson.simps\<close>)
  then have 2: "sort_keys (or_null b) = sort_keys (or_null b')
      \<and> canonicalJson (or_null c) @ iso_string n = canonicalJson (or_null c') @ iso_string n'"
    by (intro canonical_prefix [OF assms(6,7)]) simp
  then have "sort_keys (or_null c) = sort_keys (or_null c') \<and> iso_string n = iso_string n'"
    by (intro canonical_prefix [OF assms(8,9)]) simp
  with 1 2 h show ?thesis by blast
qed

definition row_text :: "AuditLog \<Rightarrow> string" where
  "row_text r = hash_text 1 (al_previousHash r) (al_payload r) (al_beforeState r) (al_afterState r) (al_createdAt r)"

definition row_shaped :: "AuditLog \<Rightarrow> bool" where
  "row_shaped r \<longleftrightarrow> al_hashVersion r = 1 \<and> (\<exists>kvs. al_payload r = JObj kvs) \<and> plain (al_payload r)
     \<and> record_shaped (or_null (al_beforeState r)) \<and> record_shaped (or_null (al_afterState r))
     \<and> CHR ''{'' \<notin> set (hash_part (al_previousHash r))"

definition same_content :: "AuditLog \<Rightarrow> AuditLog \<Rightarrow> bool" where
  "same_content r r' \<longleftrightarrow> sort_keys (al_payload r) = sort_keys (al_payload r')
     \<and> sort_keys (or_null (al_beforeState r)) = sort_keys (or_null (al_beforeState r'))
     \<and> sort_keys (or_null (al_afterState r)) = sort_keys (or_null (al_afterState r'))
     \<and> iso_string (al_createdAt r) = iso_string (al_createdAt r')
     \<and> hash_part (al_previousHash r) = hash_part (al_previousHash r')"

lemma row_text_content:
  assumes "row_shaped r" "row_shaped r'" "row_text r = row_text r'"
  shows "same_content r r'"
proof -
  obtain a a' where a: "al_payload r = JObj a" "al_payload r' = JObj a'" using assms(1,2) by (auto simp: row_shaped_def)
  show ?thesis
    using hash_text_inj [OF assms(3) [unfolded row_text_def a]] assms(1,2) a
    unfolding row_shaped_def same_content_def by simp
qed

section \<open>Verification of a changed log\<close>

lemma relabel_verifies:
  assumes "env_law env" "grown env rows"
    and f: "\<And>r. al_id (f r) = al_id r \<and> al_tenantId (f r) = al_tenantId r \<and> al_previousHash (f r) = al_previousHash r
        \<and> al_currentHash (f r) = al_currentHash r \<and> (content_errors env r = [] \<longrightarrow> content_errors env (f r) = [])"
  shows "verifyChain env (map f rows) t = (True, [])"
proof -
  note g = grown_invariant [OF assms(1,2)]
  have tl: "tenant_log (map f rows) t = map f (tenant_log rows t)"
    using f by (simp add: tenant_log_def filter_map comp_def)
  have l: "linked (tenant_log rows t)" "distinct (map al_currentHash (tenant_log rows t))" "distinct (map al_id (tenant_log rows t))"
    using g unfolding chain_ok_def tenant_log_def by (simp_all add: distinct_map_filter)
  have "linked (map f (tenant_log rows t))" using l(1) f by (simp add: linked_def)
  moreover have "distinct (map al_currentHash (map f (tenant_log rows t)))" using l(2) f by (simp add: comp_def)
  moreover have "distinct (map al_id (map f (tenant_log rows t)))" using l(3) f by (simp add: comp_def)
  moreover have "\<forall>r \<in> set (map f (tenant_log rows t)). content_errors env r = []"
    using g f by (auto simp: tenant_log_def)
  ultimately show ?thesis using verify_linked [of "map f rows" t env] unfolding tl by blast
qed

section \<open>Values a column cannot keep\<close>

definition date_erased :: "jsval \<Rightarrow> jsval" where
  "date_erased v = (case v of JDate _ \<Rightarrow> JObj [] | _ \<Rightarrow> v)"

definition plain_or_date :: "jsval \<Rightarrow> bool" where
  "plain_or_date v \<longleftrightarrow> plain v \<or> (\<exists>d. v = JDate d)"

lemma stored_kept: "plain_or_date v \<Longrightarrow> stored v = (case v of JDate d \<Rightarrow> JStr (iso_string d) | _ \<Rightarrow> v)"
proof -
  assume "plain_or_date v"
  then consider "plain v" | d where "v = JDate d" by (auto simp: plain_or_date_def)
  then show ?thesis by cases (use stored_plain in \<open>auto split: jsval.splits\<close>)
qed

lemma dates_change_text:
  assumes "distinct (map fst kvs)" "\<forall>(k, v) \<in> set kvs. plain_or_date v" "(k, JDate d) \<in> set kvs"
  shows "canonicalJson (JObj kvs) \<noteq> canonicalJson (stored (JObj kvs))"
proof
  assume eq: "canonicalJson (JObj kvs) = canonicalJson (stored (JObj kvs))"
  let ?e = "map (\<lambda>(k, v). (k, date_erased v)) kvs" and ?s = "map (\<lambda>(k, v). (k, stored v)) kvs"
  have pd: "\<And>k v. (k, v) \<in> set kvs \<Longrightarrow> plain_or_date v" using assms(2) by auto
  have und: "v \<noteq> JUndefined" if "plain_or_date v" for v using that by (auto simp: plain_or_date_def)
  have "filter (\<lambda>(k, v). v \<noteq> JUndefined) kvs = kvs" by (rule filter_True) (use und pd in blast)
  then have st: "stored (JObj kvs) = JObj ?s" by simp
  have ec: "canonicalJson (date_erased v) = canonicalJson v" for v by (cases v) (simp_all add: date_erased_def)
  have "map (\<lambda>(k, v). (k, canonicalJson v)) kvs = map (\<lambda>(k, v). (k, canonicalJson v)) ?e"
    unfolding map_map by (rule map_cong [OF refl]) (simp add: ec split: prod.splits)
  then have er: "canonicalJson (JObj kvs) = canonicalJson (JObj ?e)" unfolding canonicalJson.simps by (rule arg_cong)
  have er_plain: "plain (date_erased v)" if "plain_or_date v" for v
    using that by (cases v) (simp_all add: date_erased_def plain_or_date_def)
  have st_plain: "plain (stored v)" if "plain_or_date v" for v
    unfolding stored_kept [OF that] using that by (cases v) (simp_all add: plain_or_date_def)
  have p: "plain (JObj ?e)" "plain (JObj ?s)"
    using assms(1) pd er_plain st_plain unfolding plain.simps keys_kept by (auto simp: list_all_iff)
  have "render (sort_keys (JObj ?e)) = render (sort_keys (JObj ?s))"
    using eq unfolding er st unfolding canonical_render .
  then have "sort_keys (JObj ?e) = sort_keys (JObj ?s)"
    using render_prefix [OF plain_sort_keys [OF p(1)] plain_sort_keys [OF p(2)], of "[]" "[]"] by (simp del: sort_keys.simps render.simps)
  then have "sort_key fst (map (\<lambda>(k, v). (k, sort_keys v)) ?e) = sort_key fst (map (\<lambda>(k, v). (k, sort_keys v)) ?s)"
    unfolding sort_keys.simps by (rule jsval.inject(6) [THEN iffD1])
  then have sets: "set (map (\<lambda>(k, v). (k, sort_keys v)) ?e) = set (map (\<lambda>(k, v). (k, sort_keys v)) ?s)"
    using set_sort [of fst "map (\<lambda>(k, v). (k, sort_keys v)) ?e"] set_sort [of fst "map (\<lambda>(k, v). (k, sort_keys v)) ?s"] by argo
  have "(\<lambda>(k, v). (k, sort_keys v)) ((\<lambda>(k, v). (k, date_erased v)) (k, JDate d)) \<in> set (map (\<lambda>(k, v). (k, sort_keys v)) ?e)"
    unfolding set_map by (intro imageI assms(3))
  then have "(k, JObj []) \<in> set (map (\<lambda>(k, v). (k, sort_keys v)) ?s)"
    unfolding sets by (simp add: date_erased_def)
  then obtain v where v: "(k, v) \<in> set kvs" "sort_keys (stored v) = JObj []" unfolding set_map by force
  then have "v = JDate d" using assms(1,3) by (metis eq_key_imp_eq_value)
  then show False using v(2) by simp
qed

section \<open>Properties\<close>

text \<open>
  C1: an append extends one chain at its end. On a log whose tenants each have one linear
  chain, an append can only fail on a duplicate hash or id; if it succeeds, it adds one row
  behind the last row of its tenant, linked to it, whatever the clocks of the rows say and
  whichever of the newest rows the database returns, and every chain is linear again.
\<close>

theorem append_extends_chain:
  assumes "env_law env" "chain_ok rows"
  shows "(\<forall>r rows'. appendInTx env st input rows = Inr (r, rows') \<longrightarrow>
           chain_ok rows' \<and> rows' = rows @ [r]
           \<and> al_previousHash r = (let mine = tenant_log rows (au_tenantId input)
                in if mine = [] then None else Some (al_currentHash (last mine)))
           \<and> (\<forall>t. t \<noteq> au_tenantId input \<longrightarrow> tenant_log rows' t = tenant_log rows t))
       \<and> (\<forall>e. appendInTx env st input rows = Inl e \<longrightarrow> e = UniqueViolation)"
proof -
  have leaf: "findLeaf env rows t = Inr (if tenant_log rows t = [] then None else Some (al_currentHash (last (tenant_log rows t))))" for t
    using assms(2) by (intro findLeaf_linked [OF assms(1)]) (simp_all add: chain_ok_def)
  have "chain_ok rows' \<and> rows' = rows @ [r]
      \<and> al_previousHash r = (let mine = tenant_log rows (au_tenantId input)
           in if mine = [] then None else Some (al_currentHash (last mine)))
      \<and> (\<forall>t. t \<noteq> au_tenantId input \<longrightarrow> tenant_log rows' t = tenant_log rows t)"
    if "appendInTx env st input rows = Inr (r, rows')" for r rows'
    using append_chain [OF assms that] appendInTx_Inr(1,2,10) [OF that] leaf by (simp add: tenant_log_append Let_def)
  moreover have "appendInTx env st input rows = Inl e \<Longrightarrow> e = UniqueViolation" for e
    by (auto simp: appendInTx_def leaf Let_def split: if_splits)
  ultimately show ?thesis by blast
qed

text \<open>
  C2: a log written by the service verifies. However the appends of all tenants interleave
  and whatever their clocks, as long as the logged values are JSON values, verification of
  every tenant's chain reports nothing.
\<close>

theorem grown_log_verifies:
  assumes "env_law env" "grown env rows"
  shows "verifyChain env rows t = (True, [])"
proof -
  have g: "chain_ok rows" "\<forall>r \<in> set rows. content_errors env r = []" using grown_invariant [OF assms] by simp_all
  have "distinct (map al_id (tenant_log rows t))"
    using g(1) unfolding chain_ok_def tenant_log_def by (simp add: distinct_map_filter)
  then show ?thesis using g by (intro verify_linked) (auto simp: chain_ok_def tenant_log_def)
qed

text \<open>
  C3: a log that verifies is one chain. If verification of a tenant's log reports nothing,
  its rows can be arranged in one sequence that starts at the only row without predecessor
  and in which each row names the hash of the one before; no row is outside it, and every
  row of hash version 1 has the hash of its content.
\<close>

theorem verified_log_is_chain:
  assumes "verifyChain env rows t = (True, es)"
  shows "es = [] \<and> (\<exists>path. mset path = mset (tenant_log rows t) \<and> linked path \<and> distinct (map al_id path)
    \<and> (\<forall>r \<in> set path. al_hashVersion r = 1 \<longrightarrow> al_currentHash r = expected_hash env r))"
  using verify_clean [OF assms] by (auto simp: content_errors_def split: if_splits)

text \<open>
  C4: changed content is found. Let two states of a tenant's log both verify, and let a row of
  version 1 keep its hash from one to the other. Then its payload, before and after states,
  time and predecessor are the same up to the order of keys, unless the two contents are a
  collision of the hash function: two different texts with one hash.
\<close>

theorem tampering_found:
  assumes "verifyChain env rows t = (True, es)" "verifyChain env rows' t = (True, es')"
    and "r \<in> set (tenant_log rows t)" "r' \<in> set (tenant_log rows' t)"
    and "row_shaped r" "row_shaped r'" "al_currentHash r' = al_currentHash r"
  shows "same_content r r' \<or> (row_text r \<noteq> row_text r' \<and> sha256 env (row_text r) = sha256 env (row_text r'))"
proof -
  have "al_currentHash r = sha256 env (row_text r)" "al_currentHash r' = sha256 env (row_text r')"
    using clean_sealed [OF assms(1,3)] clean_sealed [OF assms(2,4)] assms(5,6)
    by (auto simp: content_errors_def expected_hash_def row_text_def row_shaped_def split: if_splits)
  then show ?thesis using row_text_content [OF assms(5,6)] assms(7) by auto
qed

text \<open>
  what verification does not see. After any log that verifies because the service wrote it,
  it still verifies when the newest rows are gone, when event types, entities and actors are
  replaced, and when a row gets any other content together with hash version 0.
\<close>

theorem verification_blind_spots:
  assumes "env_law env" "grown env rows"
  shows "verifyChain env (take n rows) t = (True, [])
    \<and> verifyChain env (map (\<lambda>r. if al_id r = k then r\<lparr>al_eventType := ev, al_entityId := en, al_actorUserId := ac\<rparr> else r) rows) t = (True, [])
    \<and> verifyChain env (map (\<lambda>r. if al_id r = k then r\<lparr>al_payload := p, al_afterState := q, al_hashVersion := 0\<rparr> else r) rows) t = (True, [])"
proof -
  note g = grown_invariant [OF assms]
  note relabel = relabel_verifies [OF assms]
  have "verifyChain env (take n rows) t = (True, [])"
  proof -
    obtain m where m: "tenant_log (take n rows) t = take m (tenant_log rows t)"
    proof -
      have "tenant_log rows t = tenant_log (take n rows) t @ tenant_log (drop n rows) t"
        unfolding tenant_log_def filter_append [symmetric] by simp
      then show thesis using that [of "length (tenant_log (take n rows) t)"] by simp
    qed
    have "linked (take m rs)" if "linked rs" for rs using that by (auto simp: linked_def)
    moreover have "linked (tenant_log rows t)" "distinct (map al_currentHash (tenant_log rows t))" "distinct (map al_id (tenant_log rows t))"
      using g unfolding chain_ok_def tenant_log_def by (simp_all add: distinct_map_filter)
    ultimately have "linked (tenant_log (take n rows) t)" "distinct (map al_currentHash (tenant_log (take n rows) t))"
      "distinct (map al_id (tenant_log (take n rows) t))"
      unfolding m take_map [symmetric] by simp_all
    then show ?thesis using g by (intro verify_linked) (auto simp: tenant_log_def dest: in_set_takeD)
  qed
  moreover have "verifyChain env (map (\<lambda>r. if al_id r = k then r\<lparr>al_eventType := ev, al_entityId := en, al_actorUserId := ac\<rparr> else r) rows) t = (True, [])"
    by (rule relabel) (simp add: content_errors_def expected_hash_def)
  moreover have "verifyChain env (map (\<lambda>r. if al_id r = k then r\<lparr>al_payload := p, al_afterState := q, al_hashVersion := 0\<rparr> else r) rows) t = (True, [])"
    by (rule relabel) (simp add: content_errors_def)
  ultimately show ?thesis by blast
qed

text \<open>
  a logged date breaks the chain. When the after state of an append is an object with a
  \<^verbatim>\<open>Date\<close> among its properties, as the row of a new lead is, the text hashed and the text
  that verification hashes again are different, and verification reports the log as invalid
  unless these two texts have the same hash.
\<close>

theorem logged_date_breaks_chain:
  assumes "env_law env" "appendInTx env st input rows = Inr (r, rows')"
    and "plain (au_payload input)" "plain (or_null (au_beforeState input))"
    and "au_afterState input = JObj kvs" "distinct (map fst kvs)" "\<forall>(k, v) \<in> set kvs. plain_or_date v"
    and "(k, JDate d) \<in> set kvs"
  defines "hashed \<equiv> hash_text 1 (al_previousHash r) (au_payload input) (au_beforeState input) (au_afterState input) (st_now st)"
  shows "hashed \<noteq> row_text r \<and> (sha256 env hashed \<noteq> sha256 env (row_text r) \<longrightarrow> \<not> fst (verifyChain env rows' (au_tenantId input)))"
proof -
  note r = appendInTx_Inr [OF assms(2)]
  have "canonicalJson (al_afterState r) = canonicalJson (stored (JObj kvs))"
    using assms(1) r(8) assms(5) by (simp only: or_null.simps canonical_render env_law_def)
  then have after: "canonicalJson (al_afterState r) \<noteq> canonicalJson (JObj kvs)"
    using dates_change_text [OF assms(6-8)] by simp
  have "canonicalJson (al_payload r) = canonicalJson (au_payload input)"
    "canonicalJson (al_beforeState r) = canonicalJson (au_beforeState input)"
    using column_text [OF assms(1)] assms(3,4) r(6,7) by simp_all
  then have ne: "hashed \<noteq> row_text r"
    using after unfolding hashed_def row_text_def hash_text_def r(9) assms(5) canonical_or_null by (simp del: canonicalJson.simps)
  have "\<not> fst (verifyChain env rows' (au_tenantId input))" if s: "sha256 env hashed \<noteq> sha256 env (row_text r)"
  proof
    assume "fst (verifyChain env rows' (au_tenantId input))"
    then obtain es where v: "verifyChain env rows' (au_tenantId input) = (True, es)" by (metis prod.collapse)
    have "r \<in> set (tenant_log rows' (au_tenantId input))" using r(1,2) by (simp add: tenant_log_def)
    then have "content_errors env r = []" by (rule clean_sealed [OF v])
    then show False using s r(3,5,9) by (simp add: content_errors_def expected_hash_def row_text_def hashed_def split: if_splits)
  qed
  with ne show ?thesis by blast
qed

section \<open>A concrete log\<close>

text \<open>An environment with the identity in place of the hash function.\<close>

definition env_plain :: audit_env where
  "env_plain = \<lparr>sha256 = (\<lambda>s. s), column = stored, newest = hd\<rparr>"

lemma env_plain_law: "env_law env_plain"
  by (simp add: env_law_def env_plain_def)

definition input_case :: "jsval \<Rightarrow> AuditAppendInput" where
  "input_case after = \<lparr>au_tenantId = ''t1'', au_eventType = ''HANDOFF_ACCEPTED'', au_entityType = ''DocCase'', au_entityId = ''c1'',
     au_actorUserId = Some ''u1'', au_actorIp = None, au_actorUserAgent = None, au_operation = ''UPDATE'',
     au_payload = JObj [(''n'', JNum ''1'')], au_beforeState = JUndefined, au_afterState = after\<rparr>"

definition stamp_at :: "string \<Rightarrow> date \<Rightarrow> stamp" where
  "stamp_at i now = \<lparr>st_id = i, st_now = now, st_correlationId = None\<rparr>"

definition log_one :: "AuditLog list" where
  "log_one = snd (projr (appendInTx env_plain (stamp_at ''r1'' 5) (input_case JUndefined) []))"

definition log_two :: "AuditLog list" where
  "log_two = snd (projr (appendInTx env_plain (stamp_at ''r2'' 3) (input_case JUndefined) log_one))"

lemma log_one_append: "appendInTx env_plain (stamp_at ''r1'' 5) (input_case JUndefined) [] = Inr (hd log_one, log_one)"
  by (simp add: log_one_def appendInTx_def findLeaf_def tenant_log_def Let_def)

lemma log_one_row:
  "log_one = [hd log_one]" "al_tenantId (hd log_one) = ''t1''" "al_payload (hd log_one) = JObj [(''n'', JNum ''1'')]"
  "al_beforeState (hd log_one) = JNull" "al_afterState (hd log_one) = JNull" "al_previousHash (hd log_one) = None"
  "al_hashVersion (hd log_one) = 1"
  by (simp_all add: log_one_def appendInTx_def findLeaf_def tenant_log_def Let_def input_case_def env_plain_def)

lemma log_two_append: "appendInTx env_plain (stamp_at ''r2'' 3) (input_case JUndefined) log_one = Inr (log_two ! 1, log_two)"
  by code_simp

lemma input_case_plain: "plain_input (input_case JUndefined)"
  by code_simp

lemma log_two_grown: "grown env_plain log_two"
  by (rule grown_append [OF grown_append [OF grown_empty input_case_plain log_one_append] input_case_plain log_two_append])

theorem append_extends_chain_witness:
  "al_previousHash (log_two ! 1) = Some (al_currentHash (hd log_one)) \<and> chain_ok log_two"
proof -
  have one: "chain_ok log_one"
    using append_chain [OF env_plain_law _ log_one_append] by (simp add: chain_ok_def linked_def tenant_log_def)
  have mine: "tenant_log log_one ''t1'' = log_one" "log_one \<noteq> []" "last log_one = hd log_one"
  proof -
    obtain x where x: "log_one = [x]" using log_one_row(1) by blast
    show "tenant_log log_one ''t1'' = log_one" "log_one \<noteq> []" "last log_one = hd log_one"
      using log_one_row(2) unfolding x by (simp_all add: tenant_log_def)
  qed
  have "au_tenantId (input_case JUndefined) = ''t1''" by (simp add: input_case_def)
  then show ?thesis
    using append_extends_chain [OF env_plain_law one, of "stamp_at ''r2'' 3" "input_case JUndefined",
        THEN conjunct1, rule_format, OF log_two_append] mine
    unfolding Let_def by simp
qed

theorem grown_log_verifies_witness: "verifyChain env_plain log_two ''t1'' = (True, [])"
  by (rule grown_log_verifies [OF env_plain_law log_two_grown])

theorem verified_log_is_chain_witness:
  "\<exists>path. mset path = mset (tenant_log log_two ''t1'') \<and> linked path"
proof -
  have "verifyChain env_plain log_two ''t1'' = (True, [])" by code_simp
  from verified_log_is_chain [OF this] show ?thesis by blast
qed

theorem tampering_found_witness: "same_content (hd log_two) (hd log_two)"
proof -
  have v: "verifyChain env_plain log_two ''t1'' = (True, [])" by code_simp
  have ne: "log_one \<noteq> []" by (metis log_one_row(1) list.distinct(1))
  then have h: "hd log_two = hd log_one" "log_two \<noteq> []"
    by (subst appendInTx_Inr(1) [OF log_two_append]; simp)+
  have r: "hd log_two \<in> set (tenant_log log_two ''t1'')"
    using h log_one_row(2) hd_in_set [OF h(2)] by (simp add: tenant_log_def)
  note c = log_one_row(3-7) [folded h(1)]
  have "row_shaped (hd log_two)"
    unfolding row_shaped_def record_shaped_def hash_part_def c by (simp add: num_chars_def)
  then show ?thesis using tampering_found [OF v v r r] by blast
qed

theorem verification_blind_spots_witness:
  "verifyChain env_plain (take 1 log_two) ''t1'' = (True, [])"
  using verification_blind_spots [OF env_plain_law log_two_grown, of 1 "''t1''"] by blast

theorem logged_date_breaks_chain_witness:
  "\<exists>r rows'. appendInTx env_plain (stamp_at ''r1'' 5) (input_case (JObj [(''createdAt'', JDate 5)])) [] = Inr (r, rows')
     \<and> \<not> fst (verifyChain env_plain rows' ''t1'')"
proof -
  let ?i = "input_case (JObj [(''createdAt'', JDate 5)])"
  obtain r rows' where a: "appendInTx env_plain (stamp_at ''r1'' 5) ?i [] = Inr (r, rows')"
    by (simp add: appendInTx_def findLeaf_def tenant_log_def Let_def)
  have "au_tenantId ?i = ''t1''" "au_afterState ?i = JObj [(''createdAt'', JDate 5)]" "plain (au_payload ?i)"
    "plain (or_null (au_beforeState ?i))" by code_simp+
  then show ?thesis
    using logged_date_breaks_chain [OF env_plain_law a, of "[(''createdAt'', JDate 5)]" "''createdAt''" 5] a
    by (simp add: plain_or_date_def env_plain_def)
qed

end
