(* ===== verification/Field_Domain.thy ===== *)
theory Field_Domain
  imports Canonical_Json
begin

text \<open>
  Configuration-time checks of the custom fields of a case,
  \<^verbatim>\<open>src/src/services/case-field.validation.ts\<close>: the rules a type accepts, the operators of a
  condition, the shape of defaults, and the two graph checks that keep option parents and field
  rules free of cycles. Values that the code has as \<^verbatim>\<open>unknown\<close> are JavaScript values.
\<close>

section \<open>Types\<close>

datatype CaseFieldType =
    FT_TEXT | FT_TEXTAREA | FT_NUMBER | FT_DECIMAL | FT_CURRENCY | FT_PERCENTAGE | FT_DATE | FT_DATETIME | FT_TIME
  | FT_BOOLEAN | FT_SELECT | FT_MULTI_SELECT | FT_EMAIL | FT_PHONE | FT_URL
  | FT_USER_REFERENCE | FT_DEPARTMENT_REFERENCE | FT_CASE_REFERENCE | FT_DOCUMENT_REFERENCE

datatype CaseFieldConditionOperator =
    OP_EQUALS | OP_NOT_EQUALS | OP_IS_EMPTY | OP_IS_NOT_EMPTY | OP_GREATER_THAN | OP_LESS_THAN | OP_IN | OP_NOT_IN

fun field_type_name :: "CaseFieldType \<Rightarrow> string" where
  "field_type_name FT_TEXT = ''TEXT''"
| "field_type_name FT_TEXTAREA = ''TEXTAREA''"
| "field_type_name FT_NUMBER = ''NUMBER''"
| "field_type_name FT_DECIMAL = ''DECIMAL''"
| "field_type_name FT_CURRENCY = ''CURRENCY''"
| "field_type_name FT_PERCENTAGE = ''PERCENTAGE''"
| "field_type_name FT_DATE = ''DATE''"
| "field_type_name FT_DATETIME = ''DATETIME''"
| "field_type_name FT_TIME = ''TIME''"
| "field_type_name FT_BOOLEAN = ''BOOLEAN''"
| "field_type_name FT_SELECT = ''SELECT''"
| "field_type_name FT_MULTI_SELECT = ''MULTI_SELECT''"
| "field_type_name FT_EMAIL = ''EMAIL''"
| "field_type_name FT_PHONE = ''PHONE''"
| "field_type_name FT_URL = ''URL''"
| "field_type_name FT_USER_REFERENCE = ''USER_REFERENCE''"
| "field_type_name FT_DEPARTMENT_REFERENCE = ''DEPARTMENT_REFERENCE''"
| "field_type_name FT_CASE_REFERENCE = ''CASE_REFERENCE''"
| "field_type_name FT_DOCUMENT_REFERENCE = ''DOCUMENT_REFERENCE''"

definition NUMERIC_TYPES :: "CaseFieldType list" where
  "NUMERIC_TYPES = [FT_NUMBER, FT_DECIMAL, FT_CURRENCY, FT_PERCENTAGE]"

definition DATE_TYPES :: "CaseFieldType list" where
  "DATE_TYPES = [FT_DATE, FT_DATETIME]"

definition STRINGLIKE_TYPES :: "CaseFieldType list" where
  "STRINGLIKE_TYPES = [FT_TEXT, FT_TEXTAREA, FT_EMAIL, FT_PHONE, FT_URL]"

definition REFERENCE_TYPES :: "CaseFieldType list" where
  "REFERENCE_TYPES = [FT_USER_REFERENCE, FT_DEPARTMENT_REFERENCE, FT_CASE_REFERENCE, FT_DOCUMENT_REFERENCE]"

definition isSelectType :: "CaseFieldType \<Rightarrow> bool" where
  "isSelectType t \<longleftrightarrow> t = FT_SELECT \<or> t = FT_MULTI_SELECT"

text \<open>\<^verbatim>\<open>/^[a-z][a-z0-9_]*$/\<close>\<close>

definition KEY_RE :: "string \<Rightarrow> bool" where
  "KEY_RE s = (case s of [] \<Rightarrow> False | c # cs \<Rightarrow> is_lower c \<and> list_all (\<lambda>x. is_lower x \<or> is_digit x \<or> x = CHR ''_'') cs)"

section \<open>JavaScript values\<close>

fun js_typeof :: "jsval \<Rightarrow> string" where
  "js_typeof JUndefined = ''undefined''"
| "js_typeof (JBool b) = ''boolean''"
| "js_typeof (JNum n) = ''number''"
| "js_typeof (JStr s) = ''string''"
| "js_typeof _ = ''object''"

text \<open>
  The value of a number from its text. Two doubles compare as the shortest decimals that
  print them do, so comparisons on these values are those of the code.
\<close>

definition digits_val :: "string \<Rightarrow> int" where
  "digits_val s = foldl (\<lambda>a c. 10 * a + (int (code c) - 48)) 0 s"

definition js_num :: "string \<Rightarrow> rat" where
  "js_num s =
     (let neg = starts_with ''-'' s;
          s1 = (if neg then tl s else s);
          ip = takeWhile is_digit s1;
          s2 = dropWhile is_digit s1;
          fp = (if starts_with ''.'' s2 then takeWhile is_digit (tl s2) else []);
          s3 = (if starts_with ''.'' s2 then dropWhile is_digit (tl s2) else s2);
          es = (if starts_with ''e'' s3 then tl s3 else []);
          e = (if starts_with ''-'' es then - digits_val (tl es)
               else if starts_with ''+'' es then digits_val (tl es) else digits_val es) - int (length fp);
          m = of_int (digits_val (ip @ fp)) * (if 0 \<le> e then 10 ^ nat e else 1 / 10 ^ nat (- e))
      in if neg then - m else m)"

text \<open>A property of an object; absent ones are undefined.\<close>

definition prop_of :: "(string \<times> jsval) list \<Rightarrow> string \<Rightarrow> jsval" where
  "prop_of kvs k = (case map_of kvs k of Some v \<Rightarrow> v | None \<Rightarrow> JUndefined)"

definition has_prop :: "(string \<times> jsval) list \<Rightarrow> string \<Rightarrow> bool" where
  "has_prop kvs k \<longleftrightarrow> map_of kvs k \<noteq> None"

fun is_str :: "jsval \<Rightarrow> bool" where
  "is_str (JStr s) = True"
| "is_str _ = False"

fun num_of :: "jsval \<Rightarrow> rat option" where
  "num_of (JNum n) = Some (js_num n)"
| "num_of _ = None"

section \<open>Rules of a field\<close>

definition ruleSpecFor :: "CaseFieldType \<Rightarrow> (string \<times> string) list" where
  "ruleSpecFor t =
     (if t = FT_TEXT \<or> t = FT_TEXTAREA then [(''minLength'', ''number''), (''maxLength'', ''number''), (''pattern'', ''string'')]
      else if t \<in> set NUMERIC_TYPES then [(''min'', ''number''), (''max'', ''number'')]
      else if t \<in> set DATE_TYPES then [(''minDate'', ''string''), (''maxDate'', ''string'')]
      else if t = FT_MULTI_SELECT then [(''minSelections'', ''number''), (''maxSelections'', ''number'')]
      else [])"

fun check_rule_entries :: "CaseFieldType \<Rightarrow> (string \<times> string) list \<Rightarrow> (string \<times> jsval) list \<Rightarrow> app_error + unit" where
  "check_rule_entries t spec [] = Inr ()"
| "check_rule_entries t spec ((k, v) # kvs) =
     (case map_of spec k of
        None \<Rightarrow> Inl (ValidationError (''validationRules.'' @ k @ '' is not allowed for type '' @ field_type_name t @ ''.''))
      | Some ty \<Rightarrow>
          if js_typeof v \<noteq> ty then Inl (ValidationError (''validationRules.'' @ k @ '' must be a '' @ ty @ ''.''))
          else check_rule_entries t spec kvs)"

definition out_of_order :: "(string \<times> jsval) list \<Rightarrow> string \<Rightarrow> string \<Rightarrow> bool" where
  "out_of_order kvs lo hi =
     (case (num_of (prop_of kvs lo), num_of (prop_of kvs hi)) of (Some a, Some b) \<Rightarrow> b < a | _ \<Rightarrow> False)"

text \<open>A date is an object without entries.\<close>

fun entries_of :: "jsval \<Rightarrow> (string \<times> jsval) list option" where
  "entries_of (JObj kvs) = Some kvs"
| "entries_of (JDate t) = Some []"
| "entries_of _ = None"

definition nullish :: "jsval \<Rightarrow> bool" where
  "nullish v \<longleftrightarrow> v = JNull \<or> v = JUndefined"

definition validateValidationRules :: "CaseFieldType \<Rightarrow> jsval \<Rightarrow> app_error + unit" where
  "validateValidationRules t rules =
     (if nullish rules then Inr ()
      else case entries_of rules of
             None \<Rightarrow> Inl (ValidationError ''validationRules must be an object.'')
           | Some obj \<Rightarrow>
               res_bind (check_rule_entries t (ruleSpecFor t) obj) (\<lambda>_.
               res_bind (ensure (\<not> out_of_order obj ''minLength'' ''maxLength'')
                  (ValidationError ''validationRules.minLength must be <= maxLength.'')) (\<lambda>_.
               res_bind (ensure (\<not> out_of_order obj ''min'' ''max'')
                  (ValidationError ''validationRules.min must be <= max.'')) (\<lambda>_.
               ensure (\<not> out_of_order obj ''minSelections'' ''maxSelections'')
                  (ValidationError ''validationRules.minSelections must be <= maxSelections.'')))))"

definition str_array :: "jsval \<Rightarrow> bool" where
  "str_array v = (case v of JArr vs \<Rightarrow> list_all is_str vs | _ \<Rightarrow> False)"

definition validateVisibility :: "jsval \<Rightarrow> app_error + unit" where
  "validateVisibility visibility =
     (if nullish visibility then Inr ()
      else case entries_of visibility of
             None \<Rightarrow> Inl (ValidationError ''visibility must be an object.'')
           | Some obj \<Rightarrow>
               (case find_first (\<lambda>k. k \<notin> set [''hidden'', ''departmentIds'', ''roles'']) (List.map fst obj) of
                  Some k \<Rightarrow> Inl (ValidationError (''visibility.'' @ k @ '' is not allowed.''))
                | None \<Rightarrow>
                    res_bind (ensure (has_prop obj ''hidden'' \<longrightarrow> js_typeof (prop_of obj ''hidden'') = ''boolean'')
                       (ValidationError ''visibility.hidden must be a boolean.'')) (\<lambda>_.
                    res_bind (ensure (has_prop obj ''departmentIds'' \<longrightarrow> str_array (prop_of obj ''departmentIds''))
                       (ValidationError ''visibility.departmentIds must be an array of strings.'')) (\<lambda>_.
                    ensure (has_prop obj ''roles'' \<longrightarrow> str_array (prop_of obj ''roles''))
                       (ValidationError ''visibility.roles must be an array of strings.'')))))"

section \<open>Conditions\<close>

definition operatorAllowedForType :: "CaseFieldType \<Rightarrow> CaseFieldConditionOperator \<Rightarrow> bool" where
  "operatorAllowedForType t op =
     (if t = FT_MULTI_SELECT then op \<in> set [OP_IN, OP_NOT_IN, OP_IS_EMPTY, OP_IS_NOT_EMPTY]
      else if t = FT_BOOLEAN \<or> t = FT_SELECT then op \<in> set [OP_EQUALS, OP_NOT_EQUALS, OP_IS_EMPTY, OP_IS_NOT_EMPTY]
      else if t \<in> set NUMERIC_TYPES \<or> t \<in> set DATE_TYPES
      then op \<in> set [OP_EQUALS, OP_NOT_EQUALS, OP_GREATER_THAN, OP_LESS_THAN, OP_IS_EMPTY, OP_IS_NOT_EMPTY]
      else if t = FT_TIME \<or> t \<in> set STRINGLIKE_TYPES \<or> t \<in> set REFERENCE_TYPES
      then op \<in> set [OP_EQUALS, OP_NOT_EQUALS, OP_IS_EMPTY, OP_IS_NOT_EMPTY]
      else False)"

text \<open>Regular expressions of the module, as matchers that consume a prefix.\<close>

fun eat :: "(char \<Rightarrow> bool) list \<Rightarrow> string \<Rightarrow> string option" where
  "eat [] s = Some s"
| "eat (p # ps) [] = None"
| "eat (p # ps) (c # s) = (if p c then eat ps s else None)"

abbreviation dig :: "char \<Rightarrow> bool" where "dig \<equiv> is_digit"

definition is_c :: "char \<Rightarrow> char \<Rightarrow> bool" where
  "is_c c x \<longleftrightarrow> x = c"

text \<open>\<^verbatim>\<open>(Z|[+-]\d{2}:\d{2})?$\<close>\<close>

definition zone_end :: "string \<Rightarrow> bool" where
  "zone_end s \<longleftrightarrow> s = [] \<or> s = ''Z''
     \<or> eat [\<lambda>c. c = CHR ''+'' \<or> c = CHR ''-'', dig, dig, is_c (CHR '':''), dig, dig] s = Some []"

text \<open>\<^verbatim>\<open>(\.\d+)?\<close> and the rest\<close>

definition fraction_end :: "string \<Rightarrow> bool" where
  "fraction_end s \<longleftrightarrow>
     (if starts_with ''.'' s then takeWhile dig (tl s) \<noteq> [] \<and> zone_end (dropWhile dig (tl s)) else zone_end s)"

definition ISO_DATE_RE :: "string \<Rightarrow> bool" where
  "ISO_DATE_RE s =
     (case eat [dig, dig, dig, dig, is_c (CHR ''-''), dig, dig, is_c (CHR ''-''), dig, dig] s of
        None \<Rightarrow> False
      | Some [] \<Rightarrow> True
      | Some rest \<Rightarrow>
          (case eat [is_c (CHR ''T''), dig, dig, is_c (CHR '':''), dig, dig] rest of
             None \<Rightarrow> False
           | Some r2 \<Rightarrow>
               (case eat [is_c (CHR '':''), dig, dig] r2 of Some r3 \<Rightarrow> fraction_end r3 | None \<Rightarrow> fraction_end r2)))"

definition ISO_TIME_RE :: "string \<Rightarrow> bool" where
  "ISO_TIME_RE s =
     (case eat [dig, dig, is_c (CHR '':''), dig, dig] s of
        None \<Rightarrow> False
      | Some r \<Rightarrow> r = [] \<or> eat [is_c (CHR '':''), dig, dig] r = Some [])"

definition hex :: "char \<Rightarrow> bool" where
  "hex c \<longleftrightarrow> is_digit c \<or> 97 \<le> code c \<and> code c \<le> 102 \<or> 65 \<le> code c \<and> code c \<le> 70"

definition UUID_RE :: "string \<Rightarrow> bool" where
  "UUID_RE s \<longleftrightarrow> eat (replicate 8 hex @ [is_c (CHR ''-'')] @ replicate 4 hex @ [is_c (CHR ''-'')] @ replicate 4 hex
     @ [is_c (CHR ''-'')] @ replicate 4 hex @ [is_c (CHR ''-'')] @ replicate 12 hex) s = Some []"

definition str_and :: "(string \<Rightarrow> bool) \<Rightarrow> jsval \<Rightarrow> bool" where
  "str_and p v = (case v of JStr s \<Rightarrow> p s | _ \<Rightarrow> False)"

definition validateScalarConditionValue :: "CaseFieldType \<Rightarrow> jsval \<Rightarrow> app_error + unit" where
  "validateScalarConditionValue t v =
     (if t \<in> set NUMERIC_TYPES then ensure (js_typeof v = ''number'') (ValidationError ''conditionValue must be a number for this field type.'')
      else if t = FT_BOOLEAN then ensure (js_typeof v = ''boolean'') (ValidationError ''conditionValue must be a boolean.'')
      else if t \<in> set DATE_TYPES then ensure (str_and ISO_DATE_RE v) (ValidationError ''conditionValue must be an ISO date string.'')
      else if t = FT_TIME then ensure (str_and ISO_TIME_RE v) (ValidationError ''conditionValue must be an ISO time string.'')
      else if t \<in> set REFERENCE_TYPES then ensure (str_and UUID_RE v) (ValidationError ''conditionValue must be a uuid string.'')
      else if t \<in> set STRINGLIKE_TYPES then ensure (is_str v) (ValidationError ''conditionValue must be a string.'')
      else Inl (ValidationError ''Unsupported field type for a scalar condition value.''))"

definition validateDefaultPayload :: "CaseFieldType \<Rightarrow> jsval \<Rightarrow> app_error + unit" where
  "validateDefaultPayload t payload =
     (case entries_of payload of
        None \<Rightarrow> Inl (ValidationError ''defaultPayload must be an object.'')
      | Some p \<Rightarrow>
          if t = FT_SELECT
          then ensure (is_str (prop_of p ''optionId'')) (ValidationError ''defaultPayload.optionId must be a string for a SELECT field.'')
          else if t = FT_MULTI_SELECT
          then ensure (str_array (prop_of p ''optionIds'') \<and> prop_of p ''optionIds'' \<noteq> JArr [])
                 (ValidationError ''defaultPayload.optionIds must be a non-empty array of strings for a MULTI_SELECT field.'')
          else res_bind (ensure (has_prop p ''value'') (ValidationError ''defaultPayload.value is required.'')) (\<lambda>_.
               validateScalarConditionValue t (prop_of p ''value'')))"

section \<open>Cycles\<close>

text \<open>
  The walk up the parents of an option; \<open>parents\<close> are the entries of the map, \<open>seen\<close> the
  options passed so far. A cursor that is empty ends the loop.
\<close>

definition option_cycle :: app_error where
  "option_cycle = ValidationError ''Option parent relationship would create a cycle.''"

function option_walk :: "string option \<Rightarrow> (string \<times> string option) list \<Rightarrow> string list \<Rightarrow> string \<Rightarrow> app_error + unit" where
  "option_walk optionId parents seen cursor =
     (if cursor = [] then Inr ()
      else if optionId = Some cursor then Inl option_cycle
      else if cursor \<in> set seen then Inl option_cycle
      else case map_of parents cursor of
             Some (Some next_one) \<Rightarrow> option_walk optionId parents (cursor # seen) next_one
           | _ \<Rightarrow> Inr ())"
  by pat_completeness auto

termination option_walk
proof (relation "measure (\<lambda>(optionId, parents, seen, cursor). card (fst ` set parents - set seen))")
  fix optionId parents and seen :: "string list" and cursor and x2 next_one
  assume "cursor \<notin> set seen" "map_of parents cursor = Some x2"
  then have "cursor \<in> fst ` set parents - set seen" by (force dest: map_of_SomeD)
  then have "card (fst ` set parents - set (cursor # seen)) < card (fst ` set parents - set seen)"
    by (intro psubset_card_mono) auto
  then show "((optionId, parents, cursor # seen, next_one), optionId, parents, seen, cursor)
    \<in> measure (\<lambda>(optionId, parents, seen, cursor). card (fst ` set parents - set seen))" by simp
qed simp

declare option_walk.simps [simp del]

definition assertNoOptionCycle :: "string option \<Rightarrow> string option \<Rightarrow> (string \<times> string option) list \<Rightarrow> app_error + unit" where
  "assertNoOptionCycle optionId newParentId parents =
     (case newParentId of
        None \<Rightarrow> Inr ()
      | Some p \<Rightarrow>
          if p = [] then Inr ()
          else if optionId = Some p then Inl (ValidationError ''An option cannot be its own parent.'')
          else option_walk optionId parents [] p)"

text \<open>
  The search over rules: \<open>succs\<close> are the targets of a field in the order they were added, and
  the stack has its top at the head.
\<close>

definition succs :: "(string \<times> string) list \<Rightarrow> string \<Rightarrow> string list" where
  "succs edges n = List.map snd (filter (\<lambda>e. fst e = n) edges)"

function rule_search :: "(string \<times> string) list \<Rightarrow> string \<Rightarrow> string list \<Rightarrow> string list \<Rightarrow> bool" where
  "rule_search edges target seen [] = False"
| "rule_search edges target seen (n # stack) =
     (if n = target then True
      else if n \<in> set seen then rule_search edges target seen stack
      else rule_search edges target (n # seen) (rev (succs edges n) @ stack))"
  by pat_completeness auto

termination rule_search
proof (relation "measures [\<lambda>(edges, target, seen, stack). card (fst ` set edges - set seen), \<lambda>(edges, target, seen, stack). length stack]")
  fix edges and target n :: string and seen stack :: "string list"
  assume "n \<notin> set seen"
  show "((edges, target, n # seen, rev (succs edges n) @ stack), edges, target, seen, n # stack)
    \<in> measures [\<lambda>(edges, target, seen, stack). card (fst ` set edges - set seen), \<lambda>(edges, target, seen, stack). length stack]"
  proof (cases "n \<in> fst ` set edges")
    case True
    then have "card (fst ` set edges - set (n # seen)) < card (fst ` set edges - set seen)"
      using \<open>n \<notin> set seen\<close> by (intro psubset_card_mono) auto
    then show ?thesis by simp
  next
    case False
    then have "succs edges n = []" by (force simp: succs_def filter_empty_conv)
    moreover have "fst ` set edges - set (n # seen) = fst ` set edges - set seen" using False by auto
    ultimately show ?thesis by (simp add: measures_def)
  qed
qed simp_all

definition assertNoRuleCycle :: "(string \<times> string) list \<Rightarrow> string \<times> string \<Rightarrow> app_error + unit" where
  "assertNoRuleCycle edges newEdge =
     ensure (\<not> rule_search (edges @ [newEdge]) (fst newEdge) [] [snd newEdge])
       (BusinessRuleViolationError ''Rule dependency cycle detected.'')"

section \<open>The graph checks decide acyclicity\<close>

definition parent_rel :: "(string \<times> string option) list \<Rightarrow> (string \<times> string) set" where
  "parent_rel parents = {(a, b). map_of parents a = Some (Some b)}"

lemma option_walk_ok:
  assumes "acyclic (parent_rel parents)" "\<And>a b. (a, b) \<in> parent_rel parents \<Longrightarrow> b \<noteq> []"
    and "cursor \<noteq> []" "\<And>s. s \<in> set seen \<Longrightarrow> (s, cursor) \<in> (parent_rel parents)\<^sup>+"
  shows "option_walk (Some i) parents seen cursor = Inr () \<longleftrightarrow> (cursor, i) \<notin> (parent_rel parents)\<^sup>*"
  using assms
proof (induction "Some i" parents seen cursor rule: option_walk.induct)
  case (1 parents seen cursor)
  let ?R = "parent_rel parents"
  have fresh: "cursor \<notin> set seen" using 1(2,5) by (auto simp: acyclic_def)
  show ?case
  proof (cases "cursor = i")
    case True
    then show ?thesis using 1(4) by (simp add: option_walk.simps)
  next
    case False
    show ?thesis
    proof (cases "\<exists>nx. map_of parents cursor = Some (Some nx)")
      case True
      then obtain nx where nx: "map_of parents cursor = Some (Some nx)" by blast
      then have edge: "(cursor, nx) \<in> ?R" by (simp add: parent_rel_def)
      have walk: "option_walk (Some i) parents seen cursor = option_walk (Some i) parents (cursor # seen) nx"
        using 1(4) fresh nx False by (subst option_walk.simps) simp
      have "(s, nx) \<in> ?R\<^sup>+" if "s \<in> set (cursor # seen)" for s
        using that edge 1(5) by (auto intro: trancl_into_trancl)
      then have "option_walk (Some i) parents (cursor # seen) nx = Inr () \<longleftrightarrow> (nx, i) \<notin> ?R\<^sup>*"
        using False fresh nx edge 1(2,3,4) by (intro 1(1)) auto
      moreover have "(cursor, i) \<in> ?R\<^sup>* \<longleftrightarrow> (nx, i) \<in> ?R\<^sup>*"
      proof
        assume "(cursor, i) \<in> ?R\<^sup>*"
        then obtain y where "(cursor, y) \<in> ?R" "(y, i) \<in> ?R\<^sup>*" using False by (auto elim: converse_rtranclE)
        then show "(nx, i) \<in> ?R\<^sup>*" using nx by (simp add: parent_rel_def)
      qed (use edge in \<open>auto intro: converse_rtrancl_into_rtrancl\<close>)
      ultimately show ?thesis unfolding walk by blast
    next
      case no: False
      then have "(cursor, i) \<notin> ?R\<^sup>*" using False by (auto simp: parent_rel_def elim: converse_rtranclE)
      moreover have "option_walk (Some i) parents seen cursor = Inr ()"
        using 1(4) fresh no False by (subst option_walk.simps) (auto split: option.split)
      ultimately show ?thesis by blast
    qed
  qed
qed

text \<open>Paths to a node do not need its own outgoing edges.\<close>

lemma path_to_without:
  assumes "(a, i) \<in> r\<^sup>*"
  shows "(a, i) \<in> {(x, y) \<in> r. x \<noteq> i}\<^sup>*"
  using assms
proof (induction rule: converse_rtrancl_induct)
  case (step y z)
  then show ?case by (cases "y = i") (auto intro: converse_rtrancl_into_rtrancl)
qed simp

lemma rule_search_sound: "rule_search edges t seen stack \<Longrightarrow> \<exists>n \<in> set stack. (n, t) \<in> (set edges)\<^sup>*"
proof (induction edges t seen stack rule: rule_search.induct)
  case (2 edges t seen n stack)
  show ?case
  proof (cases "n = t")
    case False
    show ?thesis
    proof (cases "n \<in> set seen")
      case True
      then show ?thesis using 2 False by auto
    next
      case new: False
      then obtain m where m: "m \<in> set (rev (succs edges n) @ stack)" "(m, t) \<in> (set edges)\<^sup>*" using 2 False by auto
      show ?thesis
      proof (cases "m \<in> set stack")
        case False
        then have "(n, m) \<in> set edges" using m(1) by (auto simp: succs_def)
        then show ?thesis using m(2) by (auto intro: converse_rtrancl_into_rtrancl)
      qed (use m in auto)
    qed
  qed simp
qed simp

lemma rule_search_complete:
  assumes "\<not> rule_search edges t seen stack" "t \<notin> set seen"
    and "\<And>s m. s \<in> set seen \<Longrightarrow> (s, m) \<in> set edges \<Longrightarrow> m \<in> set seen \<union> set stack"
  shows "n \<in> set seen \<union> set stack \<Longrightarrow> (n, t) \<notin> (set edges)\<^sup>*"
  using assms
proof (induction edges t seen stack arbitrary: n rule: rule_search.induct)
  case (1 edges t seen)
  have "m \<in> set seen" if "(n, m) \<in> (set edges)\<^sup>*" for m
    using that by (induction rule: rtrancl_induct) (use 1 in auto)
  then show ?case using 1(3) by blast
next
  case (2 edges t seen x stack)
  have ne: "x \<noteq> t" using 2(4) by auto
  show ?case
  proof (cases "x \<in> set seen")
    case True
    then show ?thesis using 2(3,4,5,6) ne by (intro 2(1)) auto
  next
    case False
    have "(x, m) \<in> set edges \<Longrightarrow> m \<in> set (succs edges x)" for m by (force simp: succs_def)
    note succ = this
    have "\<not> rule_search edges t (x # seen) (rev (succs edges x) @ stack)" "t \<notin> set (x # seen)"
      using 2(4,5) ne False by auto
    moreover have "m \<in> set (x # seen) \<union> set (rev (succs edges x) @ stack)" if "s \<in> set (x # seen)" "(s, m) \<in> set edges" for s m
      using that succ 2(6) [of s m] by auto
    moreover have "n \<in> set (x # seen) \<union> set (rev (succs edges x) @ stack)" using 2(3) by auto
    ultimately show ?thesis using 2(2) [OF ne False] by blast
  qed
qed

lemma parent_rel_Cons: "parent_rel ((i, Some p) # parents) = insert (i, p) {(x, y) \<in> parent_rel parents. x \<noteq> i}"
proof -
  have "e \<in> parent_rel ((i, Some p) # parents) \<longleftrightarrow> e \<in> insert (i, p) {(x, y) \<in> parent_rel parents. x \<noteq> i}" for e
    by (cases e; cases "fst e = i") (auto simp: parent_rel_def)
  then show ?thesis by blast
qed

lemma option_check_exact:
  assumes "acyclic (parent_rel parents)" "\<And>a b. (a, b) \<in> parent_rel parents \<Longrightarrow> b \<noteq> []" "p \<noteq> []"
  shows "assertNoOptionCycle (Some i) (Some p) parents = Inr () \<longleftrightarrow> acyclic (parent_rel ((i, Some p) # parents))"
proof -
  let ?R = "parent_rel parents" and ?R' = "{(x, y) \<in> parent_rel parents. x \<noteq> i}"
  note new = parent_rel_Cons [of i p parents]
  have "acyclic ?R'" using assms(1) by (rule acyclic_subset) auto
  moreover have "?R'\<^sup>* \<subseteq> ?R\<^sup>*" by (rule rtrancl_mono) auto
  then have "(p, i) \<in> ?R'\<^sup>* \<longleftrightarrow> (p, i) \<in> ?R\<^sup>*" using path_to_without [of p i ?R] by blast
  ultimately have "acyclic (parent_rel ((i, Some p) # parents)) \<longleftrightarrow> (p, i) \<notin> ?R\<^sup>*"
    unfolding new acyclic_insert by simp
  moreover have "assertNoOptionCycle (Some i) (Some p) parents = Inr () \<longleftrightarrow> (p, i) \<notin> ?R\<^sup>*"
    using option_walk_ok [OF assms(1,2,3), where seen = "[]" and i = i] assms(3) by (auto simp: assertNoOptionCycle_def)
  ultimately show ?thesis by simp
qed

lemma rule_check_exact:
  assumes "acyclic (set edges)"
  shows "assertNoRuleCycle edges e = Inr () \<longleftrightarrow> acyclic (insert e (set edges))"
proof -
  obtain a b where e: "e = (a, b)" by (cases e)
  let ?E = "set (edges @ [e])"
  have "rule_search (edges @ [e]) a [] [b] \<longleftrightarrow> (b, a) \<in> ?E\<^sup>*"
  proof
    assume "rule_search (edges @ [e]) a [] [b]"
    from rule_search_sound [OF this] show "(b, a) \<in> ?E\<^sup>*" by simp
  next
    assume "(b, a) \<in> ?E\<^sup>*"
    then show "rule_search (edges @ [e]) a [] [b]" using rule_search_complete [of "edges @ [e]" a "[]" "[b]" b] by fastforce
  qed
  moreover have "(b, a) \<in> ?E\<^sup>* \<longleftrightarrow> (b, a) \<in> (set edges)\<^sup>*"
  proof
    assume "(b, a) \<in> ?E\<^sup>*"
    then have "(b, a) \<in> {(x, y) \<in> ?E. x \<noteq> a}\<^sup>*" by (rule path_to_without)
    moreover have "{(x, y) \<in> ?E. x \<noteq> a}\<^sup>* \<subseteq> (set edges)\<^sup>*" by (rule rtrancl_mono) (auto simp: e)
    ultimately show "(b, a) \<in> (set edges)\<^sup>*" by (rule subsetD [rotated])
  next
    assume "(b, a) \<in> (set edges)\<^sup>*"
    moreover have "(set edges)\<^sup>* \<subseteq> ?E\<^sup>*" by (rule rtrancl_mono) auto
    ultimately show "(b, a) \<in> ?E\<^sup>*" by (rule subsetD [rotated])
  qed
  ultimately show ?thesis
    using assms by (simp add: assertNoRuleCycle_def e acyclic_insert)
qed

section \<open>Properties\<close>

text \<open>
  C27: the two cycle checks decide acyclicity. On an acyclic table of option parents, giving an
  option a new parent is accepted exactly when the parents stay acyclic; on an acyclic set of
  rules, a new rule is accepted exactly when the rules stay acyclic.
\<close>

theorem cycle_checks_exact:
  assumes "acyclic (parent_rel parents)" "\<And>a b. (a, b) \<in> parent_rel parents \<Longrightarrow> b \<noteq> []" "p \<noteq> []"
    and "acyclic (set edges)"
  shows "(assertNoOptionCycle (Some i) (Some p) parents = Inr () \<longleftrightarrow> acyclic (parent_rel ((i, Some p) # parents)))
    \<and> (assertNoRuleCycle edges e = Inr () \<longleftrightarrow> acyclic (insert e (set edges)))"
  by (rule conjI [OF option_check_exact [OF assms(1,2,3)] rule_check_exact [OF assms(4)]])

theorem cycle_checks_exact_witness:
  "assertNoRuleCycle [(''a'', ''b''), (''b'', ''c'')] (''c'', ''a'') \<noteq> Inr () \<and> \<not> acyclic (insert (''c'', ''a'') (set [(''a'', ''b''), (''b'', ''c'')]))"
proof -
  let ?E = "[(''a'', ''b''), (''b'', ''c'')]"
  have "set ?E \<subseteq> measure (\<lambda>s. if s = ''a'' then 0 else if s = ''b'' then 1 else (2 :: nat))" by simp
  then have ac: "acyclic (set ?E)" by (rule acyclic_subset [OF wf_acyclic [OF wf_measure]])
  have "acyclic (parent_rel [])" by (simp add: parent_rel_def acyclic_def)
  note m = cycle_checks_exact [OF this _ _ ac, of "''p''" "''i''" "(''c'', ''a'')", THEN conjunct2]
  have "assertNoRuleCycle ?E (''c'', ''a'') \<noteq> Inr ()" by code_simp
  moreover have "assertNoRuleCycle ?E (''c'', ''a'') = Inr () \<longleftrightarrow> acyclic (insert (''c'', ''a'') (set ?E))"
    by (rule m) (simp_all add: parent_rel_def)
  ultimately show ?thesis by simp
qed

end
