(* ===== verification/Field_Values.thy ===== *)
theory Field_Values
  imports Field_Domain "HOL-Library.Product_Lexorder"
begin

text \<open>
  The values of custom fields, \<^verbatim>\<open>src/src/services/case-field-value.validation.ts\<close>: coercing an
  entry of a patch to the column of its type, conditions of rules, and the state a form shows
  (hidden, required, default). The parser of \<^verbatim>\<open>new Date(s)\<close>, which for texts that are not
  ISO dates depends on the engine and for texts without a zone on its time zone, and the engine of
  regular expressions are arguments: no result is an invalid date, or a pattern that does not
  compile.
\<close>

section \<open>Types\<close>

record js_engine =
  parse_date :: "string \<Rightarrow> date option"
  regex_test :: "string \<Rightarrow> string \<Rightarrow> bool option"

definition STRINGLIKE :: "CaseFieldType list" where
  "STRINGLIKE = [FT_TEXT, FT_TEXTAREA, FT_EMAIL, FT_PHONE, FT_URL, FT_TIME,
     FT_USER_REFERENCE, FT_DEPARTMENT_REFERENCE, FT_CASE_REFERENCE, FT_DOCUMENT_REFERENCE]"

definition isMultiSelect :: "CaseFieldType \<Rightarrow> bool" where
  "isMultiSelect t \<longleftrightarrow> t = FT_MULTI_SELECT"

definition isSingleSelect :: "CaseFieldType \<Rightarrow> bool" where
  "isSingleSelect t \<longleftrightarrow> t = FT_SELECT"

record TypedValue =
  isClear :: bool
  tv_text :: "string option"
  tv_number :: "string option"
  tv_boolean :: "bool option"
  tv_date :: "date option"
  tv_optionId :: "string option"
  tv_optionIds :: "string list option"

definition cleared :: TypedValue where
  "cleared = \<lparr>isClear = True, tv_text = None, tv_number = None, tv_boolean = None, tv_date = None,
     tv_optionId = None, tv_optionIds = None\<rparr>"

definition unset :: TypedValue where
  "unset = cleared\<lparr>isClear := False\<rparr>"

record RawEntry =
  re_value :: jsval
  re_optionId :: jsval
  re_optionIds :: jsval

definition rules_of :: "jsval \<Rightarrow> (string \<times> jsval) list" where
  "rules_of validationRules = (case entries_of validationRules of Some kvs \<Rightarrow> kvs | None \<Rightarrow> [])"

text \<open>\<^verbatim>\<open>[...new Set(xs)]\<close> keeps the first of equal elements.\<close>

fun uniq :: "'a list \<Rightarrow> 'a list" where
  "uniq [] = []"
| "uniq (x # xs) = x # uniq (filter (\<lambda>y. y \<noteq> x) xs)"

lemma uniq_facts: "set (uniq xs) = set xs \<and> distinct (uniq xs)"
proof (induction xs rule: length_induct)
  case (1 xs)
  show ?case
  proof (cases xs)
    case (Cons x ys)
    then have "length (filter (\<lambda>y. y \<noteq> x) ys) < length xs" by (simp add: le_imp_less_Suc)
    with 1 have "set (uniq (filter (\<lambda>y. y \<noteq> x) ys)) = set ys - {x} \<and> distinct (uniq (filter (\<lambda>y. y \<noteq> x) ys))" by auto
    then show ?thesis using Cons by auto
  qed simp
qed

fun str_of :: "jsval \<Rightarrow> string option" where
  "str_of (JStr s) = Some s"
| "str_of _ = None"

text \<open>The text of a number in a message.\<close>

fun num_text :: "jsval \<Rightarrow> string" where
  "num_text (JNum n) = n"
| "num_text (JStr s) = s"
| "num_text _ = []"

section \<open>Coercing an entry\<close>

text \<open>A bound of the rules, when it is a number, compared with a value.\<close>

definition below :: "(string \<times> jsval) list \<Rightarrow> string \<Rightarrow> rat \<Rightarrow> bool" where
  "below vr k x = (case num_of (prop_of vr k) of Some b \<Rightarrow> x < b | None \<Rightarrow> False)"

definition above :: "(string \<times> jsval) list \<Rightarrow> string \<Rightarrow> rat \<Rightarrow> bool" where
  "above vr k x = (case num_of (prop_of vr k) of Some b \<Rightarrow> b < x | None \<Rightarrow> False)"

text \<open>A bound that is a date: comparing with an invalid date is false.\<close>

definition date_bound :: "js_engine \<Rightarrow> (string \<times> jsval) list \<Rightarrow> string \<Rightarrow> (date \<Rightarrow> bool) \<Rightarrow> bool" where
  "date_bound J vr k cmp =
     (case str_of (prop_of vr k) of
        None \<Rightarrow> False
      | Some s \<Rightarrow> (case parse_date J s of Some b \<Rightarrow> cmp b | None \<Rightarrow> False))"

definition coerce_single :: "jsval \<Rightarrow> app_error + TypedValue" where
  "coerce_single opt =
     (if nullish opt \<or> opt = JStr [] then Inr cleared
      else case str_of opt of
             None \<Rightarrow> Inl (ValidationError ''optionId must be a string for a SELECT field.'')
           | Some s \<Rightarrow> Inr (unset\<lparr>tv_optionId := Some s\<rparr>))"

definition coerce_multi :: "(string \<times> jsval) list \<Rightarrow> jsval \<Rightarrow> app_error + TypedValue" where
  "coerce_multi vr ids =
     (if nullish ids \<or> ids = JArr [] then Inr (cleared\<lparr>tv_optionIds := Some []\<rparr>)
      else case ids of
        JArr vs \<Rightarrow>
          if \<not> list_all is_str vs then Inl (ValidationError ''optionIds must be an array of strings for a MULTI_SELECT field.'')
          else let xs = uniq (List.map_filter str_of vs); n = of_nat (length xs)
               in if below vr ''minSelections'' n
                  then Inl (ValidationError (''At least '' @ num_text (prop_of vr ''minSelections'') @ '' selection(s) required.''))
                  else if above vr ''maxSelections'' n
                  then Inl (ValidationError (''At most '' @ num_text (prop_of vr ''maxSelections'') @ '' selection(s) allowed.''))
                  else Inr (unset\<lparr>tv_optionIds := Some xs\<rparr>)
      | _ \<Rightarrow> Inl (ValidationError ''optionIds must be an array of strings for a MULTI_SELECT field.''))"

definition coerce_number :: "(string \<times> jsval) list \<Rightarrow> jsval \<Rightarrow> app_error + TypedValue" where
  "coerce_number vr raw =
     (case raw of
        JNum n \<Rightarrow>
          if below vr ''min'' (js_num n) then Inl (ValidationError (''value must be >= '' @ num_text (prop_of vr ''min'') @ ''.''))
          else if above vr ''max'' (js_num n) then Inl (ValidationError (''value must be <= '' @ num_text (prop_of vr ''max'') @ ''.''))
          else Inr (unset\<lparr>tv_number := Some n\<rparr>)
      | _ \<Rightarrow> Inl (ValidationError ''value must be a number.''))"

definition coerce_date :: "js_engine \<Rightarrow> (string \<times> jsval) list \<Rightarrow> jsval \<Rightarrow> app_error + TypedValue" where
  "coerce_date J vr raw =
     (case str_of raw of
        None \<Rightarrow> Inl (ValidationError ''value must be an ISO date string.'')
      | Some s \<Rightarrow>
          (case parse_date J s of
             None \<Rightarrow> Inl (ValidationError ''value must be a valid ISO date.'')
           | Some t \<Rightarrow>
               if date_bound J vr ''minDate'' (\<lambda>b. t < b)
               then Inl (ValidationError (''value must be on/after '' @ num_text (prop_of vr ''minDate'') @ ''.''))
               else if date_bound J vr ''maxDate'' (\<lambda>b. b < t)
               then Inl (ValidationError (''value must be on/before '' @ num_text (prop_of vr ''maxDate'') @ ''.''))
               else Inr (unset\<lparr>tv_date := Some t\<rparr>)))"

text \<open>A pattern that does not compile throws a syntax error of the engine.\<close>

definition coerce_text :: "js_engine \<Rightarrow> (string \<times> jsval) list \<Rightarrow> jsval \<Rightarrow> app_error + TypedValue" where
  "coerce_text J vr raw =
     (case str_of raw of
        None \<Rightarrow> Inl (ValidationError ''value must be a string.'')
      | Some s \<Rightarrow>
          if below vr ''minLength'' (of_nat (length s))
          then Inl (ValidationError (''value must be at least '' @ num_text (prop_of vr ''minLength'') @ '' characters.''))
          else if above vr ''maxLength'' (of_nat (length s))
          then Inl (ValidationError (''value must be at most '' @ num_text (prop_of vr ''maxLength'') @ '' characters.''))
          else case str_of (prop_of vr ''pattern'') of
                 None \<Rightarrow> Inr (unset\<lparr>tv_text := Some s\<rparr>)
               | Some pat \<Rightarrow>
                   (case regex_test J pat s of
                      None \<Rightarrow> Inl (Thrown ''SyntaxError'')
                    | Some True \<Rightarrow> Inr (unset\<lparr>tv_text := Some s\<rparr>)
                    | Some False \<Rightarrow> Inl (ValidationError ''value does not match the required pattern.'')))"

definition coerceValue :: "js_engine \<Rightarrow> CaseFieldType \<Rightarrow> jsval \<Rightarrow> RawEntry \<Rightarrow> app_error + TypedValue" where
  "coerceValue J t validationRules entry =
     (let vr = rules_of validationRules; raw = re_value entry
      in if isSingleSelect t then coerce_single (re_optionId entry)
         else if isMultiSelect t then coerce_multi vr (re_optionIds entry)
         else if nullish raw \<or> raw = JStr [] then Inr cleared
         else if t \<in> set NUMERIC_TYPES then coerce_number vr raw
         else if t = FT_BOOLEAN
         then (case raw of JBool b \<Rightarrow> Inr (unset\<lparr>tv_boolean := Some b\<rparr>) | _ \<Rightarrow> Inl (ValidationError ''value must be a boolean.''))
         else if t \<in> set DATE_TYPES then coerce_date J vr raw
         else if t \<in> set STRINGLIKE then coerce_text J vr raw
         else Inl (ValidationError (''Unsupported field type: '' @ field_type_name t @ ''.'')))"

section \<open>Conditions\<close>

record StoredValue =
  sv_fieldType :: CaseFieldType
  sv_text :: "string option"
  sv_number :: "rat option"
  sv_boolean :: "bool option"
  sv_date :: "date option"
  sv_optionId :: "string option"
  sv_optionIds :: "string list"

definition isPresent :: "StoredValue option \<Rightarrow> bool" where
  "isPresent v =
     (case v of
        None \<Rightarrow> False
      | Some v \<Rightarrow>
          if isMultiSelect (sv_fieldType v) then 0 < length (sv_optionIds v)
          else if isSingleSelect (sv_fieldType v) then sv_optionId v \<noteq> None
          else sv_text v \<noteq> None \<or> sv_number v \<noteq> None \<or> sv_boolean v \<noteq> None \<or> sv_date v \<noteq> None)"

text \<open>\<^verbatim>\<open>valueNumber ?? valueDate ?? valueBoolean ?? valueText\<close>, strictly equal to a JSON value\<close>

definition same_scalar :: "StoredValue \<Rightarrow> jsval \<Rightarrow> bool" where
  "same_scalar v c =
     (case sv_number v of
        Some n \<Rightarrow> num_of c = Some n
      | None \<Rightarrow>
          if sv_date v \<noteq> None then False
          else case sv_boolean v of
                 Some b \<Rightarrow> c = JBool b
               | None \<Rightarrow> (case sv_text v of Some s \<Rightarrow> c = JStr s | None \<Rightarrow> c = JNull))"

text \<open>The difference used by the order operators; no result is the \<^verbatim>\<open>null\<close> or the NaN of the code.\<close>

definition scalar_cmp :: "js_engine \<Rightarrow> StoredValue \<Rightarrow> jsval \<Rightarrow> rat option" where
  "scalar_cmp J v c =
     (case (sv_number v, num_of c) of
        (Some n, Some m) \<Rightarrow> Some (n - m)
      | _ \<Rightarrow>
          (case (sv_date v, str_of c) of
             (Some t, Some s) \<Rightarrow> map_option (\<lambda>u. of_int (t - u)) (parse_date J s)
           | _ \<Rightarrow> None))"

definition scalar_equal :: "js_engine \<Rightarrow> StoredValue \<Rightarrow> jsval \<Rightarrow> bool" where
  "scalar_equal J v c =
     (case (sv_date v, str_of c) of
        (Some t, Some s) \<Rightarrow> parse_date J s = Some t
      | _ \<Rightarrow> same_scalar v c)"

fun cond_single :: "CaseFieldConditionOperator \<Rightarrow> string option \<Rightarrow> string option \<Rightarrow> bool" where
  "cond_single OP_EQUALS want has = (has = want)"
| "cond_single OP_NOT_EQUALS want has = (has \<noteq> want)"
| "cond_single _ want has = False"

fun cond_multi :: "CaseFieldConditionOperator \<Rightarrow> bool \<Rightarrow> bool" where
  "cond_multi OP_IN intersects = intersects"
| "cond_multi OP_NOT_IN intersects = (\<not> intersects)"
| "cond_multi _ intersects = False"

fun cond_scalar :: "js_engine \<Rightarrow> CaseFieldConditionOperator \<Rightarrow> jsval \<Rightarrow> StoredValue \<Rightarrow> bool" where
  "cond_scalar J OP_EQUALS c v = scalar_equal J v c"
| "cond_scalar J OP_NOT_EQUALS c v = (\<not> scalar_equal J v c)"
| "cond_scalar J OP_GREATER_THAN c v = (case scalar_cmp J v c of Some x \<Rightarrow> 0 < x | None \<Rightarrow> False)"
| "cond_scalar J OP_LESS_THAN c v = (case scalar_cmp J v c of Some x \<Rightarrow> x < 0 | None \<Rightarrow> False)"
| "cond_scalar J _ c v = False"

definition wanted :: "jsval \<Rightarrow> string list" where
  "wanted c = (case c of JArr vs \<Rightarrow> List.map_filter str_of vs | _ \<Rightarrow> [])"

definition conditionMet ::
  "js_engine \<Rightarrow> CaseFieldConditionOperator \<Rightarrow> jsval \<Rightarrow> string option \<Rightarrow> StoredValue option \<Rightarrow> bool" where
  "conditionMet J operator conditionValue conditionOptionId stored_value =
     (if operator = OP_IS_EMPTY then \<not> isPresent stored_value
      else if operator = OP_IS_NOT_EMPTY then isPresent stored_value
      else case stored_value of
             None \<Rightarrow> False
           | Some v \<Rightarrow>
               if \<not> isPresent (Some v) then False
               else if isSingleSelect (sv_fieldType v) then cond_single operator conditionOptionId (sv_optionId v)
               else if isMultiSelect (sv_fieldType v)
               then cond_multi operator (list_ex (\<lambda>w. w \<in> set (sv_optionIds v)) (wanted conditionValue))
               else cond_scalar J operator conditionValue v)"

section \<open>The state of a form\<close>

datatype CaseFieldRuleEffectType = REQUIRE_FIELD | HIDE_FIELD | SET_DEFAULT

record RuntimeRule =
  rr_priority :: int
  rr_createdAt :: date
  rr_effectType :: CaseFieldRuleEffectType
  rr_conditionFieldId :: string
  rr_conditionOperator :: CaseFieldConditionOperator
  rr_conditionValue :: jsval
  rr_conditionOptionId :: "string option"
  rr_targetFieldId :: string
  rr_defaultPayload :: jsval

record FieldRuntime =
  fr_isHidden :: bool
  fr_isRequired :: bool
  fr_defaultPayload :: jsval

definition sort_rules :: "RuntimeRule list \<Rightarrow> RuntimeRule list" where
  "sort_rules rules = sort_key rr_priority (sort_key rr_createdAt rules)"

definition rule_fires :: "js_engine \<Rightarrow> (string \<rightharpoonup> StoredValue) \<Rightarrow> RuntimeRule \<Rightarrow> bool" where
  "rule_fires J vals r =
     conditionMet J (rr_conditionOperator r) (rr_conditionValue r) (rr_conditionOptionId r) (vals (rr_conditionFieldId r))"

fun hide_loop :: "(RuntimeRule \<Rightarrow> bool) \<Rightarrow> RuntimeRule list \<Rightarrow> string set \<Rightarrow> string set" where
  "hide_loop fires [] hidden = hidden"
| "hide_loop fires (r # rs) hidden =
     hide_loop fires rs
       (if rr_effectType r \<noteq> HIDE_FIELD then hidden
        else if rr_conditionFieldId r \<in> hidden then hidden
        else if fires r then insert (rr_targetFieldId r) hidden else hidden)"

definition effect_step ::
  "(RuntimeRule \<Rightarrow> bool) \<Rightarrow> (string \<rightharpoonup> StoredValue) \<Rightarrow> RuntimeRule \<Rightarrow> (string \<rightharpoonup> FieldRuntime) \<Rightarrow> (string \<rightharpoonup> FieldRuntime)" where
  "effect_step fires vals r out =
     (case out (rr_targetFieldId r) of
        None \<Rightarrow> out
      | Some rt \<Rightarrow>
          if fr_isHidden rt then out
          else case rr_effectType r of
                 REQUIRE_FIELD \<Rightarrow> if fires r then out(rr_targetFieldId r \<mapsto> rt\<lparr>fr_isRequired := True\<rparr>) else out
               | SET_DEFAULT \<Rightarrow>
                   if \<not> isPresent (vals (rr_targetFieldId r)) \<and> fires r
                   then out(rr_targetFieldId r \<mapsto> rt\<lparr>fr_defaultPayload := rr_defaultPayload r\<rparr>) else out
               | HIDE_FIELD \<Rightarrow> out)"

definition computeFieldRuntime ::
  "js_engine \<Rightarrow> string list \<Rightarrow> string list \<Rightarrow> (string \<rightharpoonup> StoredValue) \<Rightarrow> RuntimeRule list \<Rightarrow> (string \<rightharpoonup> FieldRuntime)" where
  "computeFieldRuntime J fieldIds staticHidden vals rules =
     (let sorted_rules = sort_rules rules;
          fires = rule_fires J vals;
          hidden = hide_loop fires sorted_rules (set staticHidden);
          out = map_of (List.map (\<lambda>i. (i, \<lparr>fr_isHidden = (i \<in> hidden), fr_isRequired = False, fr_defaultPayload = JNull\<rparr>)) fieldIds)
      in fold (effect_step fires vals) sorted_rules out)"

section \<open>Lemmas\<close>

lemma below_none [simp]: "prop_of vr k = JUndefined \<Longrightarrow> below vr k x = False"
  by (simp add: below_def)

text \<open>The rules in their order; with distinct keys it does not depend on how they arrive.\<close>

lemma sorted_lex:
  assumes "sorted (map p zs)" "\<And>k. sorted (map c (filter (\<lambda>y. p y = k) zs))"
  shows "sorted (map (\<lambda>x. (p x :: int, c x :: int)) zs)"
  using assms
proof (induction zs)
  case (Cons z zs)
  have "sorted (map c (filter (\<lambda>y. p y = k) zs))" for k using Cons.prems(2) [of k] by (simp split: if_splits)
  moreover have "(p z, c z) \<le> (p y, c y)" if "y \<in> set zs" for y
    using Cons.prems(1) Cons.prems(2) [of "p z"] that by (auto simp: less_le)
  ultimately show ?case using Cons by auto
qed simp

lemma sort_rules_lex: "sorted (map (\<lambda>r. (rr_priority r, rr_createdAt r)) (sort_rules rules))"
proof (rule sorted_lex)
  show "sorted (map rr_createdAt (filter (\<lambda>y. rr_priority y = k) (sort_rules rules)))" for k
    unfolding sort_rules_def sort_key_stable by (simp add: sorted_filter)
qed (simp add: sort_rules_def)

lemma sort_rules_perm:
  assumes "mset rules = mset rules'" "inj_on (\<lambda>r. (rr_priority r, rr_createdAt r)) (set rules)"
  shows "sort_rules rules = sort_rules rules'"
proof -
  let ?k = "\<lambda>r. (rr_priority r, rr_createdAt r)"
  have "mset rules = mset (sort_rules rules)" "mset rules = mset (sort_rules rules')"
    using assms(1) by (simp_all add: sort_rules_def)
  then have "sort_key ?k rules = sort_rules rules" "sort_key ?k rules = sort_rules rules'"
    using sort_rules_lex assms(2) by (auto intro: sort_key_inj_key_eq)
  then show ?thesis by simp
qed

text \<open>What the second pass keeps: the domain, and hidden fields in their first state.\<close>

definition bare :: "string set \<Rightarrow> string \<Rightarrow> FieldRuntime" where
  "bare hidden i = \<lparr>fr_isHidden = (i \<in> hidden), fr_isRequired = False, fr_defaultPayload = JNull\<rparr>"

definition runtime_ok :: "string set \<Rightarrow> string set \<Rightarrow> (string \<rightharpoonup> FieldRuntime) \<Rightarrow> bool" where
  "runtime_ok ids hidden out \<longleftrightarrow> dom out = ids
     \<and> (\<forall>i rt. out i = Some rt \<longrightarrow> fr_isHidden rt = (i \<in> hidden) \<and> (fr_isHidden rt \<longrightarrow> rt = bare hidden i))"

lemma effect_step_ok: "runtime_ok ids hidden out \<Longrightarrow> runtime_ok ids hidden (effect_step fires vals r out)"
  unfolding runtime_ok_def effect_step_def
  by (auto split: option.splits if_splits CaseFieldRuleEffectType.splits)

lemma fold_effect_ok: "runtime_ok ids hidden out \<Longrightarrow> runtime_ok ids hidden (fold (effect_step fires vals) rs out)"
  by (induction rs arbitrary: out) (simp_all add: effect_step_ok)

lemma computeFieldRuntime_ok:
  "runtime_ok (set fieldIds) (hide_loop (rule_fires J vals) (sort_rules rules) (set staticHidden))
     (computeFieldRuntime J fieldIds staticHidden vals rules)"
  unfolding computeFieldRuntime_def Let_def
proof (rule fold_effect_ok)
  let ?h = "hide_loop (rule_fires J vals) (sort_rules rules) (set staticHidden)"
  have "map_of (map (\<lambda>i. (i, bare ?h i)) fieldIds) i = (if i \<in> set fieldIds then Some (bare ?h i) else None)" for i
    by (induction fieldIds) auto
  then show "runtime_ok (set fieldIds) ?h (map_of (map (\<lambda>i. (i, \<lparr>fr_isHidden = (i \<in> ?h), fr_isRequired = False,
      fr_defaultPayload = JNull\<rparr>)) fieldIds))"
    unfolding runtime_ok_def bare_def [symmetric] by (auto simp: dom_def bare_def split: if_splits)
qed

lemma runtime_ok_dom: "runtime_ok ids hidden out \<Longrightarrow> dom out = ids"
  by (simp add: runtime_ok_def)

lemma runtime_ok_at:
  assumes "runtime_ok ids hidden out" "out i = Some rt"
  shows "fr_isHidden rt = (i \<in> hidden)" "fr_isHidden rt \<Longrightarrow> rt = bare hidden i"
  using assms by (simp_all add: runtime_ok_def)

lemma hide_loop_mono: "hidden \<subseteq> hide_loop fires rs hidden"
proof (induction rs arbitrary: hidden)
  case (Cons r rs)
  show ?case using Cons [of "insert (rr_targetFieldId r) hidden"] Cons [of hidden] by auto
qed simp

text \<open>
  Hiding is not transitive over priorities: a rule whose condition field is hidden only by a rule
  of a later priority has already hidden its target.
\<close>

lemma hidden_by_a_hidden_field:
  assumes "rr_effectType r1 = HIDE_FIELD" "rr_effectType r2 = HIDE_FIELD" "rr_priority r1 < rr_priority r2"
    and "rr_targetFieldId r2 = rr_conditionFieldId r1" "rule_fires J vals r1" "rule_fires J vals r2"
    and "rr_conditionFieldId r2 \<noteq> rr_targetFieldId r1" "rr_conditionFieldId r1 \<noteq> rr_conditionFieldId r2"
  shows "hide_loop (rule_fires J vals) (sort_rules [r2, r1]) {} = {rr_targetFieldId r1, rr_conditionFieldId r1}"
    and "hide_loop (rule_fires J vals) [r2, r1] {} = {rr_conditionFieldId r1}"
proof -
  have "sort_rules [r2, r1] = [r1, r2]" using assms(3) by (simp add: sort_rules_def)
  then show "hide_loop (rule_fires J vals) (sort_rules [r2, r1]) {} = {rr_targetFieldId r1, rr_conditionFieldId r1}"
    using assms by auto
  show "hide_loop (rule_fires J vals) [r2, r1] {} = {rr_conditionFieldId r1}" using assms by simp
qed

section \<open>Properties\<close>

text \<open>The stored form of a coerced value, as the service writes it for a field of type \<open>t\<close>.\<close>

definition stored_form :: "CaseFieldType \<Rightarrow> TypedValue \<Rightarrow> StoredValue" where
  "stored_form t v = \<lparr>sv_fieldType = t, sv_text = tv_text v, sv_number = map_option js_num (tv_number v),
     sv_boolean = tv_boolean v, sv_date = tv_date v, sv_optionId = tv_optionId v,
     sv_optionIds = (case tv_optionIds v of Some xs \<Rightarrow> xs | None \<Rightarrow> [])\<rparr>"

definition columns_used :: "TypedValue \<Rightarrow> nat" where
  "columns_used v = length (filter (\<lambda>b. b) [tv_text v \<noteq> None, tv_number v \<noteq> None, tv_boolean v \<noteq> None, tv_date v \<noteq> None,
     tv_optionId v \<noteq> None, \<exists>x xs. tv_optionIds v = Some (x # xs)])"

definition within_rules :: "js_engine \<Rightarrow> (string \<times> jsval) list \<Rightarrow> TypedValue \<Rightarrow> bool" where
  "within_rules J vr v \<longleftrightarrow>
     (\<forall>n. tv_number v = Some n \<longrightarrow> \<not> below vr ''min'' (js_num n) \<and> \<not> above vr ''max'' (js_num n))
     \<and> (\<forall>s. tv_text v = Some s \<longrightarrow> \<not> below vr ''minLength'' (of_nat (length s)) \<and> \<not> above vr ''maxLength'' (of_nat (length s))
          \<and> (\<forall>pat. prop_of vr ''pattern'' = JStr pat \<longrightarrow> regex_test J pat s = Some True))
     \<and> (\<forall>t. tv_date v = Some t \<longrightarrow> \<not> date_bound J vr ''minDate'' (\<lambda>b. t < b) \<and> \<not> date_bound J vr ''maxDate'' (\<lambda>b. b < t))
     \<and> (\<forall>x xs. tv_optionIds v = Some (x # xs) \<longrightarrow> distinct (x # xs)
          \<and> \<not> below vr ''minSelections'' (of_nat (length (x # xs))) \<and> \<not> above vr ''maxSelections'' (of_nat (length (x # xs))))"

lemma str_of_Some [simp]: "str_of v = Some s \<longleftrightarrow> v = JStr s"
  by (cases v) auto

lemma coerce_single_ok:
  "coerce_single opt = Inr v \<Longrightarrow> v = cleared \<or> (\<exists>s. s \<noteq> [] \<and> v = unset\<lparr>tv_optionId := Some s\<rparr>)"
  by (auto simp: coerce_single_def split: if_splits option.splits)

lemma coerce_multi_ok:
  assumes "coerce_multi vr ids = Inr v"
  shows "v = cleared\<lparr>tv_optionIds := Some []\<rparr> \<or> (\<exists>x xs. v = unset\<lparr>tv_optionIds := Some (x # xs)\<rparr> \<and> distinct (x # xs)
     \<and> \<not> below vr ''minSelections'' (of_nat (length (x # xs))) \<and> \<not> above vr ''maxSelections'' (of_nat (length (x # xs))))"
proof (cases "nullish ids \<or> ids = JArr []")
  case True
  then show ?thesis using assms by (auto simp: coerce_multi_def)
next
  case False
  with assms obtain vs where vs: "ids = JArr vs" "vs \<noteq> []" "list_all is_str vs"
    and v: "v = unset\<lparr>tv_optionIds := Some (uniq (List.map_filter str_of vs))\<rparr>"
    and b: "\<not> below vr ''minSelections'' (of_nat (length (uniq (List.map_filter str_of vs))))"
      "\<not> above vr ''maxSelections'' (of_nat (length (uniq (List.map_filter str_of vs))))"
    by (auto simp: coerce_multi_def Let_def split: jsval.splits if_splits)
  from vs(2) obtain w ws where "vs = w # ws" by (cases vs) auto
  moreover then have "is_str w" using vs(3) by simp
  then obtain s where "w = JStr s" by (cases w) auto
  ultimately have "List.map_filter str_of vs \<noteq> []" by (simp add: map_filter_simps)
  then obtain x xs where u: "uniq (List.map_filter str_of vs) = x # xs" by (cases "List.map_filter str_of vs") auto
  then have "distinct (x # xs)" using uniq_facts [of "List.map_filter str_of vs"] by simp
  then show ?thesis using v b unfolding u by (intro disjI2 exI conjI)
qed

lemma coerce_number_ok:
  "coerce_number vr raw = Inr v \<Longrightarrow> \<exists>n. v = unset\<lparr>tv_number := Some n\<rparr> \<and> \<not> below vr ''min'' (js_num n) \<and> \<not> above vr ''max'' (js_num n)"
  by (auto simp: coerce_number_def split: jsval.splits if_splits)

lemma coerce_date_ok:
  "coerce_date J vr raw = Inr v \<Longrightarrow> \<exists>t. v = unset\<lparr>tv_date := Some t\<rparr> \<and> \<not> date_bound J vr ''minDate'' (\<lambda>b. t < b)
     \<and> \<not> date_bound J vr ''maxDate'' (\<lambda>b. b < t)"
  by (auto simp: coerce_date_def split: option.splits if_splits)

lemma coerce_text_ok:
  "coerce_text J vr raw = Inr v \<Longrightarrow> \<exists>s. v = unset\<lparr>tv_text := Some s\<rparr> \<and> \<not> below vr ''minLength'' (of_nat (length s))
     \<and> \<not> above vr ''maxLength'' (of_nat (length s)) \<and> (\<forall>pat. prop_of vr ''pattern'' = JStr pat \<longrightarrow> regex_test J pat s = Some True)"
  by (auto simp: coerce_text_def split: option.splits if_splits bool.splits)

text \<open>
  what a patch can put into a field. A coerced entry is a clear, which uses no column and
  counts as absent, or it uses exactly the one column of the type, counts as present and lies
  within every rule of the field: the numeric range, the lengths and the pattern, the dates, and
  for several choices distinct options in the allowed number.
\<close>

theorem coerced_value_shape:
  assumes "coerceValue J t validationRules entry = Inr v"
  shows "(isPresent (Some (stored_form t v)) \<longleftrightarrow> \<not> isClear v) \<and> columns_used v = (if isClear v then 0 else 1)
    \<and> within_rules J (rules_of validationRules) v"
proof (cases "t = FT_SELECT \<or> t = FT_MULTI_SELECT")
  case True
  then show ?thesis
  proof
    assume t: "t = FT_SELECT"
    then have "coerce_single (re_optionId entry) = Inr v" using assms by (simp add: coerceValue_def isSingleSelect_def)
    from coerce_single_ok [OF this] show ?thesis
      by (auto simp: isPresent_def stored_form_def columns_used_def within_rules_def cleared_def unset_def t isMultiSelect_def isSingleSelect_def)
  next
    assume t: "t = FT_MULTI_SELECT"
    then have "coerce_multi (rules_of validationRules) (re_optionIds entry) = Inr v"
      using assms by (simp add: coerceValue_def isSingleSelect_def isMultiSelect_def)
    from coerce_multi_ok [OF this] show ?thesis
      by (elim disjE exE conjE)
         (simp_all add: isPresent_def stored_form_def columns_used_def within_rules_def cleared_def unset_def t isMultiSelect_def)
  qed
next
  case False
  let ?vr = "rules_of validationRules"
  have "v = cleared \<or> coerce_number ?vr (re_value entry) = Inr v \<or> (\<exists>b. v = unset\<lparr>tv_boolean := Some b\<rparr>)
      \<or> coerce_date J ?vr (re_value entry) = Inr v \<or> coerce_text J ?vr (re_value entry) = Inr v"
    using assms False by (auto simp: coerceValue_def isSingleSelect_def isMultiSelect_def Let_def split: if_splits jsval.splits)
  then have "v = cleared \<or> (\<exists>b. v = unset\<lparr>tv_boolean := Some b\<rparr>)
      \<or> (\<exists>n. v = unset\<lparr>tv_number := Some n\<rparr> \<and> \<not> below ?vr ''min'' (js_num n) \<and> \<not> above ?vr ''max'' (js_num n))
      \<or> (\<exists>t. v = unset\<lparr>tv_date := Some t\<rparr> \<and> \<not> date_bound J ?vr ''minDate'' (\<lambda>b. t < b) \<and> \<not> date_bound J ?vr ''maxDate'' (\<lambda>b. b < t))
      \<or> (\<exists>s. v = unset\<lparr>tv_text := Some s\<rparr> \<and> \<not> below ?vr ''minLength'' (of_nat (length s))
          \<and> \<not> above ?vr ''maxLength'' (of_nat (length s)) \<and> (\<forall>pat. prop_of ?vr ''pattern'' = JStr pat \<longrightarrow> regex_test J pat s = Some True))"
    using coerce_number_ok coerce_date_ok coerce_text_ok by blast
  then show ?thesis using False
    by (elim disjE exE conjE)
       (simp_all add: isPresent_def stored_form_def columns_used_def within_rules_def cleared_def unset_def isMultiSelect_def isSingleSelect_def)
qed

text \<open>
  conditions are consistent. On any stored value the two operators of each pair never hold
  together, an emptiness test is the negation of the other, and every operator but the test for
  emptiness needs a value to be present. On a present value of a plain or single choice field
  not-equals is the negation of equals, and on a multiple choice not-in is the negation of in.
\<close>

theorem condition_pairs:
  "\<not> (conditionMet J OP_EQUALS c i v \<and> conditionMet J OP_NOT_EQUALS c i v)
   \<and> \<not> (conditionMet J OP_IN c i v \<and> conditionMet J OP_NOT_IN c i v)
   \<and> \<not> (conditionMet J OP_GREATER_THAN c i v \<and> conditionMet J OP_LESS_THAN c i v)
   \<and> (conditionMet J OP_IS_EMPTY c i v = (\<not> conditionMet J OP_IS_NOT_EMPTY c i v))
   \<and> (op = OP_IS_EMPTY \<or> conditionMet J op c i v \<le> isPresent v)
   \<and> (\<not> isPresent v \<or> (if isMultiSelect (sv_fieldType (the v)) then conditionMet J OP_NOT_IN c i v = (\<not> conditionMet J OP_IN c i v)
        else conditionMet J OP_NOT_EQUALS c i v = (\<not> conditionMet J OP_EQUALS c i v)))"
proof (cases v)
  case None
  then show ?thesis by (auto simp: conditionMet_def isPresent_def)
next
  case (Some w)
  show ?thesis
  proof (cases "isPresent v")
    case True
    then have p: "isPresent (Some w)" unfolding Some .
    consider "isSingleSelect (sv_fieldType w)" "\<not> isMultiSelect (sv_fieldType w)" | "isMultiSelect (sv_fieldType w)" "\<not> isSingleSelect (sv_fieldType w)"
      | "\<not> isSingleSelect (sv_fieldType w)" "\<not> isMultiSelect (sv_fieldType w)"
      by (auto simp: isSingleSelect_def isMultiSelect_def)
    then show ?thesis
    proof cases
      case 1
      then show ?thesis unfolding Some using p by (simp add: conditionMet_def)
    next
      case 2
      then show ?thesis unfolding Some using p by (simp add: conditionMet_def)
    next
      case 3
      then show ?thesis unfolding Some using p by (cases "scalar_cmp J w c") (simp_all add: conditionMet_def)
    qed
  next
    case False
    then show ?thesis unfolding Some by (auto simp: conditionMet_def)
  qed
qed

text \<open>
  the state of a form is determined by the set of rules. It has an entry for exactly the
  fields of the form; a field is hidden when the first pass hides it, and then it is neither
  required nor given a default, whatever its other rules; a field hidden by its own settings stays
  hidden; and if no two rules share priority and time of creation, the order in which the
  database returns the rules makes no difference.
\<close>

theorem runtime_deterministic:
  assumes "mset rules = mset rules'" "inj_on (\<lambda>r. (rr_priority r, rr_createdAt r)) (set rules)"
  shows "computeFieldRuntime J fieldIds staticHidden vals rules = computeFieldRuntime J fieldIds staticHidden vals rules'
    \<and> dom (computeFieldRuntime J fieldIds staticHidden vals rules) = set fieldIds
    \<and> (\<forall>i \<in> set fieldIds. \<exists>rt. computeFieldRuntime J fieldIds staticHidden vals rules i = Some rt
          \<and> (i \<in> set staticHidden \<longrightarrow> fr_isHidden rt)
          \<and> (fr_isHidden rt \<longrightarrow> \<not> fr_isRequired rt \<and> fr_defaultPayload rt = JNull))"
proof (intro conjI)
  let ?h = "hide_loop (rule_fires J vals) (sort_rules rules) (set staticHidden)" and ?c = "computeFieldRuntime J fieldIds staticHidden vals rules"
  show "?c = computeFieldRuntime J fieldIds staticHidden vals rules'"
    unfolding computeFieldRuntime_def Let_def sort_rules_perm [OF assms] ..
  have ok: "runtime_ok (set fieldIds) ?h ?c" by (rule computeFieldRuntime_ok)
  then show d: "dom ?c = set fieldIds" by (rule runtime_ok_dom)
  show "\<forall>i \<in> set fieldIds. \<exists>rt. ?c i = Some rt \<and> (i \<in> set staticHidden \<longrightarrow> fr_isHidden rt)
      \<and> (fr_isHidden rt \<longrightarrow> \<not> fr_isRequired rt \<and> fr_defaultPayload rt = JNull)"
  proof
    fix i assume "i \<in> set fieldIds"
    then obtain rt where rt: "?c i = Some rt" using d by (metis domD)
    note h = runtime_ok_at [OF ok rt]
    have "set staticHidden \<subseteq> ?h" by (rule hide_loop_mono)
    then have "i \<in> set staticHidden \<longrightarrow> fr_isHidden rt" unfolding h(1) by (rule subsetD [THEN impI])
    moreover have "\<not> fr_isRequired rt \<and> fr_defaultPayload rt = JNull" if "fr_isHidden rt"
      by (subst h(2) [OF that], simp add: bare_def, subst h(2) [OF that], simp add: bare_def)
    ultimately show "\<exists>rt. ?c i = Some rt \<and> (i \<in> set staticHidden \<longrightarrow> fr_isHidden rt)
      \<and> (fr_isHidden rt \<longrightarrow> \<not> fr_isRequired rt \<and> fr_defaultPayload rt = JNull)"
      using rt by (intro exI [of _ rt]) simp
  qed
qed

section \<open>Concrete runs\<close>

definition no_engine :: js_engine where
  "no_engine = \<lparr>parse_date = (\<lambda>s. None), regex_test = (\<lambda>p s. Some (p = s))\<rparr>"

theorem coerced_value_shape_witness:
  "isPresent (Some (stored_form FT_NUMBER (unset\<lparr>tv_number := Some ''7.5''\<rparr>)))
   \<and> coerceValue no_engine FT_NUMBER (JObj [(''min'', JNum ''1''), (''max'', JNum ''10'')])
       \<lparr>re_value = JNum ''7.5'', re_optionId = JUndefined, re_optionIds = JUndefined\<rparr> = Inr (unset\<lparr>tv_number := Some ''7.5''\<rparr>)"
proof -
  have c: "coerceValue no_engine FT_NUMBER (JObj [(''min'', JNum ''1''), (''max'', JNum ''10'')])
       \<lparr>re_value = JNum ''7.5'', re_optionId = JUndefined, re_optionIds = JUndefined\<rparr> = Inr (unset\<lparr>tv_number := Some ''7.5''\<rparr>)"
    by code_simp
  show ?thesis using coerced_value_shape [OF c] c by (simp add: unset_def)
qed

definition chosen :: StoredValue where
  "chosen = \<lparr>sv_fieldType = FT_SELECT, sv_text = None, sv_number = None, sv_boolean = None, sv_date = None,
     sv_optionId = Some ''o1'', sv_optionIds = []\<rparr>"

theorem condition_pairs_witness:
  "isPresent (Some chosen) \<and> conditionMet no_engine OP_EQUALS JNull (Some ''o1'') (Some chosen)
   \<and> \<not> conditionMet no_engine OP_NOT_EQUALS JNull (Some ''o1'') (Some chosen)"
proof -
  have "isPresent (Some chosen)" "conditionMet no_engine OP_EQUALS JNull (Some ''o1'') (Some chosen)" by code_simp+
  then show ?thesis using condition_pairs [of no_engine JNull "Some ''o1''" "Some chosen"] by blast
qed

definition hide_rule :: "int \<Rightarrow> string \<Rightarrow> string \<Rightarrow> RuntimeRule" where
  "hide_rule p c t = \<lparr>rr_priority = p, rr_createdAt = 0, rr_effectType = HIDE_FIELD, rr_conditionFieldId = c,
     rr_conditionOperator = OP_IS_EMPTY, rr_conditionValue = JNull, rr_conditionOptionId = None, rr_targetFieldId = t, rr_defaultPayload = JNull\<rparr>"

theorem runtime_deterministic_witness:
  "computeFieldRuntime no_engine [''a'', ''b''] [] Map.empty [hide_rule 1 ''a'' ''b'', hide_rule 0 ''b'' ''a'']
   = computeFieldRuntime no_engine [''a'', ''b''] [] Map.empty [hide_rule 0 ''b'' ''a'', hide_rule 1 ''a'' ''b'']"
  by (rule runtime_deterministic [THEN conjunct1]) (simp_all add: hide_rule_def)

end
