(* ===== verification/Db.thy ===== *)
theory Db
  imports Handoff_Domain Portal_Domain Mandate_Domain Audit_Log Perf_Stats Sla Field_Values
begin

text \<open>
  The rows of \<^verbatim>\<open>prisma/schema.prisma\<close> that the modelled services read and write, the
  database as a record of tables, and the two kinds of service operations: transactions, whose
  error leaves the database as it was, and plain handlers, whose earlier writes stay. Fields
  carry a prefix for their table. Columns no modelled operation reads or writes are left out.
  The ids of new rows are taken to be fresh, except in the audit log, where a repeated id is
  reported; the unique columns of cases, portal sessions, timelines and stages are checked.
\<close>

section \<open>Rows\<close>

datatype LeadStage =
    LS_NEW | LS_QUALIFIED | LS_INTERESTED | LS_FOLLOW_UP | LS_CALL_BACK_REQUESTED
  | LS_CALL_NOT_RECEIVED | LS_OTHER | LS_DISQUALIFIED | LS_CONTACTED | LS_CONVERTED

record Lead =
  ld_id :: string
  ld_tenantId :: string
  ld_firstName :: string
  ld_lastName :: string
  ld_email :: "string option"
  ld_phone :: "string option"
  ld_ownerId :: "string option"
  ld_stage :: LeadStage
  ld_deletedAt :: "date option"

record User =
  us_id :: string
  us_tenantId :: string
  us_firstName :: "string option"
  us_lastName :: "string option"
  us_email :: string

text \<open>The counters of the requirements of a case, eight columns of its row.\<close>

record Progress =
  pg_totalDocs :: int
  pg_receivedDocs :: int
  pg_verifiedDocs :: int
  pg_approvedDocs :: int
  pg_rejectedDocs :: int
  pg_mandatoryDocs :: int
  pg_mandatoryApproved :: int
  pg_completionPercent :: int

definition no_progress :: Progress where
  "no_progress = \<lparr>pg_totalDocs = 0, pg_receivedDocs = 0, pg_verifiedDocs = 0, pg_approvedDocs = 0, pg_rejectedDocs = 0,
     pg_mandatoryDocs = 0, pg_mandatoryApproved = 0, pg_completionPercent = 0\<rparr>"

datatype PortalPhoneSource = LEAD_SNAPSHOT | NOMINATED_OVERRIDE

record DocCaseCore =
  dc_id :: string
  dc_tenantId :: string
  dc_leadId :: string
  dc_caseNumber :: "string option"
  dc_caseTypeId :: "string option"
  dc_presetId :: "string option"
  dc_presetVersion :: "int option"
  dc_priority :: int
  dc_dueDate :: "date option"
  dc_notes :: "string option"
  dc_assignedTo :: "string option"
  dc_status :: DocCaseStatus
  dc_closedAt :: "date option"
  dc_closedReason :: "string option"
  dc_closedByUserId :: "string option"
  dc_reopenedAt :: "date option"
  dc_reopenedByUserId :: "string option"
  dc_createdBy :: string
  dc_deletedAt :: "date option"

record DocCaseHandoff = DocCaseCore +
  dc_handoffState :: HandoffState
  dc_handoffAt :: "date option"
  dc_handoffBy :: "string option"
  dc_acceptedAt :: "date option"
  dc_acceptedBy :: "string option"
  dc_returnedAt :: "date option"
  dc_returnCount :: int
  dc_returnReasonCode :: "HandoffReturnReason option"
  dc_returnReasonNote :: "string option"
  dc_managerReviewRequired :: bool
  dc_autoDropAt :: "date option"
  dc_handoffPhoneSnapshot :: "string option"
  dc_handoffPresetSnapshot :: "string option"

record DocCaseProcess = DocCaseHandoff +
  dc_processHandoffState :: ProcessHandoffState
  dc_processHandoffAt :: "date option"
  dc_processHandoffBy :: "string option"
  dc_processAssignedTo :: "string option"
  dc_processAcceptedAt :: "date option"
  dc_processAcceptedBy :: "string option"
  dc_processReturnedAt :: "date option"
  dc_processReturnCount :: int
  dc_processReturnReasonCode :: "ProcessReturnReason option"
  dc_processReturnReasonNote :: "string option"
  dc_isReady :: bool
  dc_handoverRemarks :: "string option"
  dc_transferredAt :: "date option"
  dc_transferredBy :: "string option"

record DocCase = DocCaseProcess +
  dc_portalEnabledAt :: "date option"
  dc_portalPhoneSource :: PortalPhoneSource
  dc_portalPhoneSnapshot :: "string option"
  dc_portalPhoneLast4 :: "string option"
  dc_lastClientVisiblePublishAt :: "date option"
  dc_lastInternalChangeAt :: "date option"
  dc_progress :: Progress

datatype DocEventType =
    CASE_CREATED | PRESET_APPLIED | NOTE_ADDED | STORAGE_REF_ADDED
  | HANDOFF_CREATED | HANDOFF_ACCEPTED | HANDOFF_REJECTED | CASE_RETURNED | HANDOFF_RESENT
  | MANAGER_REVIEW_COMPLETED | MANAGER_OVERRIDE | PROCESS_REVIEW_REQUESTED | PROCESS_HANDOFF_ACCEPTED | PROCESS_HANDOFF_RETURNED
  | CLIENT_VISIBLE_PUBLISHED | PORTAL_CONTACT_CHANGE_APPROVED
  | MANDATE_SENT | MANDATE_UPLOADED | MANDATE_VERIFIED | MANDATE_REJECTED
  | MANDATE_LINK_REGENERATED | MANDATE_SUPERSEDED | MANDATE_VERIFIED_RETAINED
  | MANDATE_EXPIRED_BATCH | MANDATE_FIRM_UPLOADED
  | DOCUMENT_UPLOADED | DOCUMENT_STATUS_CHANGED | DOCUMENT_REPLACED | DOCUMENT_REMOVED
  | DOCUMENT_RECEIVED | DOCUMENT_VERIFIED | DOCUMENT_APPROVED | DOCUMENT_REJECTED | DOCUMENT_WAIVED

text \<open>The status of a requirement of a case, and its name in the database.\<close>

datatype DocDocumentStatus =
    DD_REQUESTED | DD_PENDING_COLLECTION | DD_RECEIVED | DD_UNDER_VERIFICATION | DD_APPROVED | DD_REJECTED
  | DD_RE_REQUESTED | DD_EXPIRED | DD_NOT_APPLICABLE | DD_WAIVED | DD_MANAGER_APPROVED

fun doc_status_name :: "DocDocumentStatus \<Rightarrow> string" where
  "doc_status_name DD_REQUESTED = ''REQUESTED''"
| "doc_status_name DD_PENDING_COLLECTION = ''PENDING_COLLECTION''"
| "doc_status_name DD_RECEIVED = ''RECEIVED''"
| "doc_status_name DD_UNDER_VERIFICATION = ''UNDER_VERIFICATION''"
| "doc_status_name DD_APPROVED = ''APPROVED''"
| "doc_status_name DD_REJECTED = ''REJECTED''"
| "doc_status_name DD_RE_REQUESTED = ''RE_REQUESTED''"
| "doc_status_name DD_EXPIRED = ''EXPIRED''"
| "doc_status_name DD_NOT_APPLICABLE = ''NOT_APPLICABLE''"
| "doc_status_name DD_WAIVED = ''WAIVED''"
| "doc_status_name DD_MANAGER_APPROVED = ''MANAGER_APPROVED''"

record DocCaseEvent =
  de_id :: string
  de_tenantId :: string
  de_caseId :: string
  de_eventType :: DocEventType
  de_actorUserId :: "string option"
  de_remarks :: "string option"
  de_payload :: jsval
  de_createdAt :: date
  de_documentId :: "string option"
  de_fromStatus :: "DocDocumentStatus option"
  de_toStatus :: "DocDocumentStatus option"

datatype DocNoteType = NOTE_INTERNAL | NOTE_CUSTOMER

record DocCaseNote =
  dn_id :: string
  dn_tenantId :: string
  dn_caseId :: string
  dn_content :: string
  dn_clientVisible :: bool
  dn_clientVisibleAt :: "date option"
  dn_createdAt :: date
  dn_deletedAt :: "date option"

record DocCaseDocumentCore =
  dd_id :: string
  dd_tenantId :: string
  dd_caseId :: string
  dd_name :: string
  dd_description :: "string option"
  dd_isMandatory :: bool
  dd_isBlocking :: bool
  dd_requireDate :: bool
  dd_requireNote :: bool
  dd_displayOrder :: int
  dd_verificationRequired :: bool
  dd_expiryTrackingEnabled :: bool
  dd_clientVisible :: bool
  dd_clientVisibleAt :: "date option"
  dd_deletedAt :: "date option"

record DocCaseDocumentReview = DocCaseDocumentCore +
  dd_status :: DocDocumentStatus
  dd_receivedAt :: "date option"
  dd_verifiedAt :: "date option"
  dd_verifiedBy :: "string option"
  dd_verificationRemarks :: "string option"
  dd_rejectionReason :: "string option"
  dd_expiryDate :: "date option"
  dd_metadataValues :: "(string \<times> jsval) list"
  dd_notes :: "string option"

text \<open>The columns of a requirement that tie it to the components of policies.\<close>

record DocCaseDocument = DocCaseDocumentReview +
  dd_isWaived :: bool
  dd_requirementDedupeKey :: "string option"
  dd_isComponentMerged :: bool
  dd_policyComponentId :: "string option"
  dd_policyAssignmentId :: "string option"
  dd_createdAt :: date
  dd_updatedAt :: date

record PortalSession =
  ps_id :: string
  ps_tenantId :: string
  ps_caseId :: string
  ps_tokenHash :: string
  ps_expiresAt :: date
  ps_lastSeenAt :: "date option"
  ps_ipAddress :: "string option"
  ps_userAgent :: "string option"
  ps_revokedAt :: "date option"

record PortalAuthAttempt =
  pt_caseNumber :: string
  pt_ipAddress :: string
  pt_succeeded :: bool
  pt_caseId :: "string option"
  pt_tenantId :: "string option"
  pt_attemptedAt :: date

datatype PortalContactChangeStatus = CC_PENDING | CC_APPROVED | CC_REJECTED

record PortalContactChangeRequest =
  cc_id :: string
  cc_tenantId :: string
  cc_caseId :: string
  cc_newPhone :: string
  cc_reason :: string
  cc_status :: PortalContactChangeStatus
  cc_requestedBy :: string
  cc_approvedBy :: "string option"
  cc_resolvedAt :: "date option"

record MandateRequest =
  mr_id :: string
  mr_tenantId :: string
  mr_caseId :: string
  mr_mandateType :: string
  mr_description :: "string option"
  mr_status :: MandateRequestStatus
  mr_uploadTokenHash :: string
  mr_tokenExpiresAt :: date
  mr_maxFileSizeBytes :: int
  mr_allowedTypes :: "string list"
  mr_sentToEmail :: "string option"
  mr_sentByUserId :: string
  mr_verifiedAt :: "date option"
  mr_verifiedBy :: "string option"
  mr_rejectedAt :: "date option"
  mr_rejectedBy :: "string option"
  mr_rejectionReason :: "string option"
  mr_supersededBy :: "string option"
  mr_createdAt :: date

record DocManagerOverride =
  mo_id :: string
  mo_tenantId :: string
  mo_caseId :: string
  mo_overriddenBy :: string
  mo_reason :: string
  mo_allowedAt :: date
  mo_expiresAt :: "date option"

datatype UploadedByParty = UP_CLIENT | UP_FIRM | UP_SYSTEM
datatype DocumentSourceChannel = CH_CLIENT_PORTAL | CH_WHATSAPP | CH_EMAIL | CH_PHYSICAL | CH_FIRM_UPLOAD | CH_OTHER

record MandateUpload =
  mu_id :: string
  mu_tenantId :: string
  mu_mandateRequestId :: string
  mu_storageKey :: string
  mu_fileName :: string
  mu_contentType :: string
  mu_fileSizeBytes :: int
  mu_uploadedAt :: date
  mu_uploadIp :: "string option"
  mu_uploadUserAgent :: "string option"
  mu_uploadId :: "string option"
  mu_uploadedByParty :: UploadedByParty
  mu_sourceChannel :: DocumentSourceChannel
  mu_uploadedByUserId :: "string option"
  mu_internalNote :: "string option"
  mu_expiresAt :: "date option"

section \<open>Files of a case\<close>

datatype DocumentCategory = CAT_MANDATE | CAT_REQUIREMENT | CAT_GENERAL | CAT_CUSTOM_GROUP_DOCUMENT | CAT_CUSTOM_FIELD_DOCUMENT

datatype DocumentStatus =
    FD_UPLOADING | FD_SCANNING | FD_RECEIVED | FD_UNDER_REVIEW | FD_VERIFIED | FD_REJECTED | FD_EXPIRED | FD_ARCHIVED
  | FD_MALWARE_DETECTED

record Document =
  do_id :: string
  do_tenantId :: string
  do_caseId :: string
  do_requirementId :: "string option"
  do_uploadId :: "string option"
  do_category :: DocumentCategory
  do_name :: string
  do_originalFilename :: string
  do_storageKey :: string
  do_mimeType :: string
  do_sizeBytes :: int
  do_checksum :: "string option"
  do_status :: DocumentStatus
  do_sourceChannel :: DocumentSourceChannel
  do_uploadedByParty :: UploadedByParty
  do_uploadedByUserId :: "string option"
  do_internalNote :: "string option"
  do_clientVisible :: bool
  do_versionOfId :: "string option"
  do_isActive :: bool
  do_receivedAt :: date
  do_verifiedAt :: "date option"
  do_verifiedByUserId :: "string option"
  do_rejectedAt :: "date option"
  do_rejectedByUserId :: "string option"
  do_rejectionReason :: "string option"
  do_expiresAt :: "date option"
  do_deletedAt :: "date option"

section \<open>Rows of case planning\<close>

datatype CaseTypeStatus = CT_DRAFT | CT_ACTIVE | CT_ARCHIVED

record CaseType =
  ct_id :: string
  ct_tenantId :: string
  ct_key :: string
  ct_name :: string
  ct_status :: CaseTypeStatus
  ct_description :: "string option"
  ct_displayOrder :: int
  ct_createdAt :: date
  ct_deletedAt :: "date option"

record CaseTypeComponent =
  co_id :: string
  co_tenantId :: string
  co_caseTypeId :: string
  co_name :: string
  co_description :: "string option"
  co_isMandatory :: bool
  co_displayOrder :: int
  co_isActive :: bool
  co_createdAt :: date
  co_deletedAt :: "date option"

record CaseTypeComponentDocument =
  cd_id :: string
  cd_tenantId :: string
  cd_caseTypeId :: string
  cd_componentId :: string
  cd_name :: string
  cd_dedupeKey :: string
  cd_description :: "string option"
  cd_isMandatory :: bool
  cd_requireDate :: bool
  cd_requireNote :: bool
  cd_displayOrder :: int
  cd_isActive :: bool
  cd_createdAt :: date
  cd_deletedAt :: "date option"

record DocCaseDocumentComponentSource =
  so_id :: string
  so_tenantId :: string
  so_caseId :: string
  so_documentId :: string
  so_policyAssignmentId :: string
  so_policyComponentId :: string
  so_componentId :: string
  so_componentDocumentId :: "string option"
  so_isMandatoryAtLink :: bool
  so_displayOrderAtLink :: int
  so_deletedAt :: "date option"

record DocCasePolicyAssignment =
  pa_id :: string
  pa_tenantId :: string
  pa_caseId :: string
  pa_caseTypeId :: string
  pa_proposalDate :: "date option"
  pa_actualDate :: "date option"
  pa_displayOrder :: int
  pa_createdBy :: "string option"
  pa_deletedAt :: "date option"

record DocCasePolicyComponent =
  sc_id :: string
  sc_tenantId :: string
  sc_caseId :: string
  sc_policyAssignmentId :: string
  sc_componentId :: string
  sc_displayOrder :: int
  sc_documentsMaterializedAt :: "date option"
  sc_createdBy :: "string option"
  sc_createdAt :: date
  sc_deletedAt :: "date option"

section \<open>Presets, references and reminders\<close>

datatype DocPresetCategory = GOVERNMENT | FINANCIAL | LEGAL | OPERATIONAL | COMPLIANCE | CUSTOM

record DocPreset =
  pr_id :: string
  pr_tenantId :: string
  pr_name :: string
  pr_description :: "string option"
  pr_category :: DocPresetCategory
  pr_color :: "string option"
  pr_icon :: "string option"
  pr_isActive :: bool
  pr_version :: int
  pr_usageCount :: int
  pr_createdBy :: string
  pr_updatedBy :: "string option"
  pr_deletedAt :: "date option"

record DocPresetItem =
  pi_id :: string
  pi_presetId :: string
  pi_tenantId :: string
  pi_name :: string
  pi_description :: "string option"
  pi_isMandatory :: bool
  pi_isBlocking :: bool
  pi_displayOrder :: int
  pi_verificationRequired :: bool
  pi_expiryTrackingEnabled :: bool
  pi_expiryDays :: "int option"
  pi_metadataFields :: jsval
  pi_notes :: "string option"
  pi_conditionRule :: jsval
  pi_deletedAt :: "date option"

text \<open>The snapshot of a version is JSON in the database, of the preset and its items.\<close>

record DocPresetVersion =
  pv_id :: string
  pv_presetId :: string
  pv_tenantId :: string
  pv_version :: int
  pv_snapshot :: "DocPreset \<times> DocPresetItem list"
  pv_changedBy :: string
  pv_changeNote :: "string option"
  pv_createdAt :: date

datatype DocStorageType =
    GOOGLE_DRIVE | ONEDRIVE | DROPBOX | SHAREPOINT | NAS_PATH | LOCAL_FOLDER | PHYSICAL_CABINET | REFERENCE_NUMBER
  | EMAIL_STORE | EXTERNAL_PORTAL | STORED_OFFLINE | OTHER_STORE

record DocStorageRef =
  sr_id :: string
  sr_tenantId :: string
  sr_documentId :: string
  sr_storageType :: DocStorageType
  sr_reference :: string
  sr_label :: "string option"
  sr_addedBy :: string
  sr_createdAt :: date

record DocReminder =
  rm_id :: string
  rm_tenantId :: string
  rm_caseId :: string
  rm_documentId :: "string option"
  rm_reminderDate :: date
  rm_dueDate :: "date option"
  rm_message :: "string option"
  rm_createdBy :: string

record CaseStageTemplate =
  tp_id :: string
  tp_tenantId :: string
  tp_caseTypeId :: string
  tp_key :: string
  tp_label :: string
  tp_sequence :: int
  tp_durationValue :: "int option"
  tp_durationType :: "PlanDurationType option"
  tp_externalWaiting :: bool
  tp_bufferDays :: "int option"
  tp_dependsOnPrevious :: bool
  tp_enforceRequiredOnComplete :: bool
  tp_atRiskPercent :: "int option"
  tp_warnDaysRemaining :: "int option"
  tp_hardBlock :: bool
  tp_createdAt :: date
  tp_deletedAt :: "date option"

datatype CaseTimelineStatus = TL_ACTIVE | TL_COMPLETED

record CaseTimeline =
  tl_id :: string
  tl_tenantId :: string
  tl_caseId :: string
  tl_caseTypeId :: string
  tl_status :: CaseTimelineStatus
  tl_targetDate :: "date option"
  tl_lastPlannedAt :: "date option"
  tl_feasible :: "bool option"
  tl_deficitDays :: "int option"
  tl_exceptionApproved :: bool
  tl_exceptionReason :: "string option"
  tl_exceptionApprovedBy :: "string option"
  tl_exceptionApprovedAt :: "date option"

record CaseStageCore =
  cs_id :: string
  cs_tenantId :: string
  cs_timelineId :: string
  cs_templateId :: "string option"
  cs_key :: string
  cs_label :: string
  cs_sequence :: int
  cs_status :: CaseStageStatus
  cs_enforceRequiredOnComplete :: bool
  cs_startedAt :: "date option"
  cs_completedAt :: "date option"

record CaseStagePlan = CaseStageCore +
  cs_durationValue :: "int option"
  cs_durationType :: "PlanDurationType option"
  cs_externalWaiting :: bool
  cs_bufferDays :: "int option"
  cs_dependsOnPrevious :: bool
  cs_remainingDurationOverride :: "int option"
  cs_plannedStart :: "date option"
  cs_plannedFinish :: "date option"
  cs_baselineStart :: "date option"
  cs_baselineFinish :: "date option"
  cs_latestStart :: "date option"
  cs_latestFinish :: "date option"

record CaseStage = CaseStagePlan +
  cs_atRiskPercent :: "int option"
  cs_warnDaysRemaining :: "int option"
  cs_hardBlock :: bool
  cs_slaState :: "CaseStageSlaState option"
  cs_slaNotifiedForState :: "CaseStageSlaState option"
  cs_hardBlockUnlockedAt :: "date option"
  cs_hardBlockUnlockedBy :: "string option"
  cs_hardBlockUnlockedReason :: "string option"

record CaseStageEvent =
  se_id :: string
  se_tenantId :: string
  se_caseId :: string
  se_stageId :: string
  se_eventType :: string
  se_fromStatus :: "CaseStageStatus option"
  se_toStatus :: "CaseStageStatus option"
  se_actorUserId :: "string option"
  se_note :: "string option"
  se_createdAt :: date

record WorkingCalendar =
  wc_id :: string
  wc_tenantId :: string
  wc_workingWeekdays :: "int list"
  wc_timezone :: "string option"

record CalendarHoliday =
  ch_id :: string
  ch_tenantId :: string
  ch_calendarId :: string
  ch_date :: date
  ch_label :: string

record StagePerformanceSummary =
  sp_tenantId :: string
  sp_caseTypeId :: "string option"
  sp_stageKey :: string
  sp_summary :: Summary

section \<open>Rows of custom fields\<close>

datatype CaseFieldStatus = FS_DRAFT | FS_ACTIVE | FS_READ_ONLY | FS_ARCHIVED

record CaseFieldDefinition =
  fd_id :: string
  fd_tenantId :: string
  fd_key :: string
  fd_name :: string
  fd_description :: "string option"
  fd_type :: CaseFieldType
  fd_status :: CaseFieldStatus
  fd_owningDepartmentId :: string
  fd_validationRules :: jsval
  fd_visibility :: jsval
  fd_reportable :: bool
  fd_filterable :: bool
  fd_sortable :: bool
  fd_isActive :: bool
  fd_displayOrder :: int
  fd_createdAt :: date
  fd_deletedAt :: "date option"

record CaseFieldOption =
  fo_id :: string
  fo_tenantId :: string
  fo_fieldId :: string
  fo_key :: string
  fo_label :: string
  fo_displayOrder :: int
  fo_isActive :: bool
  fo_parentOptionId :: "string option"
  fo_createdAt :: date
  fo_deletedAt :: "date option"

record CaseFieldRule =
  fu_id :: string
  fu_tenantId :: string
  fu_name :: string
  fu_description :: "string option"
  fu_isActive :: bool
  fu_priority :: int
  fu_conditionFieldId :: string
  fu_conditionOperator :: CaseFieldConditionOperator
  fu_conditionValue :: jsval
  fu_conditionOptionId :: "string option"
  fu_effectType :: CaseFieldRuleEffectType
  fu_targetFieldId :: string
  fu_defaultPayload :: jsval
  fu_createdAt :: date
  fu_deletedAt :: "date option"

record CaseFieldValue =
  fv_id :: string
  fv_tenantId :: string
  fv_caseId :: string
  fv_fieldId :: string
  fv_valueText :: "string option"
  fv_valueNumber :: "rat option"
  fv_valueBoolean :: "bool option"
  fv_valueDate :: "date option"
  fv_optionId :: "string option"
  fv_version :: int
  fv_deletedAt :: "date option"

record CaseFieldValueOption =
  fs_tenantId :: string
  fs_valueId :: string
  fs_optionId :: string

text \<open>The JSON of a history row is the snapshot of a stored value.\<close>

record CaseFieldValueHistory =
  fh_tenantId :: string
  fh_caseId :: string
  fh_fieldId :: string
  fh_valueId :: "string option"
  fh_operation :: string
  fh_beforeValue :: "StoredValue option"
  fh_afterValue :: "StoredValue option"
  fh_actorUserId :: "string option"
  fh_changedAt :: date

record CaseTypeFieldPlacement =
  pl_id :: string
  pl_tenantId :: string
  pl_caseTypeId :: string
  pl_fieldId :: string
  pl_displayOrder :: int
  pl_createdAt :: date

record Department =
  dp_id :: string
  dp_tenantId :: string

section \<open>The database\<close>

text \<open>The tables of case types, planning, policies and presets are grouped.\<close>

record plan_tables =
  caseTypes :: "CaseType list"
  stageTemplates :: "CaseStageTemplate list"
  timelines :: "CaseTimeline list"
  stages :: "CaseStage list"
  stageEvents :: "CaseStageEvent list"
  calendars :: "WorkingCalendar list"
  calendarHolidays :: "CalendarHoliday list"
  summaries :: "StagePerformanceSummary list"
  typeComponents :: "CaseTypeComponent list"
  componentDocuments :: "CaseTypeComponentDocument list"
  componentSources :: "DocCaseDocumentComponentSource list"
  policyAssignments :: "DocCasePolicyAssignment list"
  policySelections :: "DocCasePolicyComponent list"
  presets :: "DocPreset list"
  presetItems :: "DocPresetItem list"
  presetVersions :: "DocPresetVersion list"
  storageRefs :: "DocStorageRef list"
  reminders :: "DocReminder list"

record field_tables =
  fieldDefs :: "CaseFieldDefinition list"
  fieldOptions :: "CaseFieldOption list"
  fieldRules :: "CaseFieldRule list"
  fieldValues :: "CaseFieldValue list"
  valueOptions :: "CaseFieldValueOption list"
  valueHistory :: "CaseFieldValueHistory list"
  placements :: "CaseTypeFieldPlacement list"
  departments :: "Department list"

record db =
  users :: "User list"
  leads :: "Lead list"
  docCases :: "DocCase list"
  caseEvents :: "DocCaseEvent list"
  caseNotes :: "DocCaseNote list"
  caseDocuments :: "DocCaseDocument list"
  portalSessions :: "PortalSession list"
  authAttempts :: "PortalAuthAttempt list"
  contactRequests :: "PortalContactChangeRequest list"
  mandateRequests :: "MandateRequest list"
  mandateUploads :: "MandateUpload list"
  managerOverrides :: "DocManagerOverride list"
  planning :: plan_tables
  customFields :: field_tables
  documents :: "Document list"
  auditRows :: "AuditLog list"

text \<open>
  What a handler reads from outside: the clock and the source of ids, both by the number of
  the read inside the handler, so that any two reads may differ; the random source of case
  numbers and of tokens; the request context; the rounding of one operation to a double.
\<close>
record env =
  ev_audit :: audit_env
  ev_clock :: "nat \<Rightarrow> date"
  ev_uuid :: "nat \<Rightarrow> string"
  ev_randomInt :: "nat \<Rightarrow> nat \<Rightarrow> nat"
  ev_token :: string
  ev_correlationId :: "string option"
  ev_rnd :: "rat \<Rightarrow> rat"

record TenantContext =
  tenantId :: string
  userId :: string

text \<open>The context of the case engine, with the client of the actor.\<close>

record UserContext = TenantContext +
  actorIp :: "string option"
  actorUserAgent :: "string option"

text \<open>A transaction: an error rolls back, so it carries no database.\<close>
type_synonym 'a tx = "db \<Rightarrow> app_error + 'a \<times> db"

text \<open>A handler outside a transaction: what it wrote before an error stays.\<close>
type_synonym 'a handler = "db \<Rightarrow> (app_error + 'a) \<times> db"

text \<open>The database with no rows, which the concrete examples fill.\<close>

definition no_plan :: plan_tables where
  "no_plan = \<lparr>caseTypes = [], stageTemplates = [], timelines = [], stages = [], stageEvents = [], calendars = [],
     calendarHolidays = [], summaries = [], typeComponents = [], componentDocuments = [], componentSources = [],
     policyAssignments = [], policySelections = [], presets = [], presetItems = [], presetVersions = [], storageRefs = [], reminders = []\<rparr>"

definition no_fields :: field_tables where
  "no_fields = \<lparr>fieldDefs = [], fieldOptions = [], fieldRules = [], fieldValues = [], valueOptions = [],
     valueHistory = [], placements = [], departments = []\<rparr>"

definition empty_db :: db where
  "empty_db = \<lparr>users = [], leads = [], docCases = [], caseEvents = [], caseNotes = [], caseDocuments = [], portalSessions = [],
     authAttempts = [], contactRequests = [], mandateRequests = [], mandateUploads = [], managerOverrides = [],
     planning = no_plan, customFields = no_fields, documents = [], auditRows = []\<rparr>"

section \<open>Operations on rows\<close>

text \<open>\<^verbatim>\<open>tx.t.update({ where: { id } })\<close>: the first row that matches is the only one.\<close>

definition update_row :: "('r \<Rightarrow> bool) \<Rightarrow> ('r \<Rightarrow> 'r) \<Rightarrow> 'r list \<Rightarrow> app_error + 'r \<times> 'r list" where
  "update_row p f rs =
     (case find_first p rs of
        None \<Rightarrow> Inl (Thrown ''P2025'')
      | Some r \<Rightarrow> Inr (f r, fst (update_many p f rs)))"

definition or_throw :: "'a option \<Rightarrow> app_error \<Rightarrow> app_error + 'a" where
  "or_throw v e = (case v of None \<Rightarrow> Inl e | Some x \<Rightarrow> Inr x)"

lemma or_throw_simps [simp]:
  "or_throw None e = Inl e"
  "or_throw (Some x) e = Inr x"
  "or_throw v e = Inr x \<longleftrightarrow> v = Some x"
  by (simp_all add: or_throw_def split: option.split)

lemma update_row_Inr:
  "update_row p f rs = Inr (r, rs') \<longleftrightarrow> (\<exists>q. find_first p rs = Some q \<and> r = f q) \<and> rs' = fst (update_many p f rs)"
  by (auto simp: update_row_def split: option.splits)

section \<open>Appending to the log and the event list\<close>

definition jopt :: "string option \<Rightarrow> jsval" where
  "jopt v = (case v of None \<Rightarrow> JNull | Some s \<Rightarrow> JStr s)"

definition jint :: "int \<Rightarrow> jsval" where
  "jint n = JNum (int_str n)"

definition audit_input ::
  "string \<Rightarrow> string \<Rightarrow> string \<Rightarrow> string \<Rightarrow> string option \<Rightarrow> string \<Rightarrow> (string \<times> jsval) list \<Rightarrow> AuditAppendInput" where
  "audit_input tenant eventType entityType entityId actor operation payload =
     \<lparr>au_tenantId = tenant, au_eventType = eventType, au_entityType = entityType, au_entityId = entityId,
      au_actorUserId = actor, au_actorIp = None, au_actorUserAgent = None, au_operation = operation,
      au_payload = JObj payload, au_beforeState = JUndefined, au_afterState = JUndefined\<rparr>"

text \<open>The row of the services of the case engine; absent states are undefined.\<close>

definition user_audit ::
  "UserContext \<Rightarrow> string \<Rightarrow> string \<Rightarrow> string \<Rightarrow> string \<Rightarrow> (string \<times> jsval) list \<Rightarrow> jsval \<Rightarrow> jsval \<Rightarrow> AuditAppendInput" where
  "user_audit ctx eventType entityType entityId operation payload before after =
     \<lparr>au_tenantId = tenantId ctx, au_eventType = eventType, au_entityType = entityType, au_entityId = entityId,
      au_actorUserId = Some (userId ctx), au_actorIp = actorIp ctx, au_actorUserAgent = actorUserAgent ctx, au_operation = operation,
      au_payload = JObj payload, au_beforeState = before, au_afterState = after\<rparr>"

definition stamp_of :: "env \<Rightarrow> nat \<Rightarrow> stamp" where
  "stamp_of E k = \<lparr>st_id = ev_uuid E k, st_now = ev_clock E k, st_correlationId = ev_correlationId E\<rparr>"

text \<open>An append inside the transaction of a handler; \<open>k\<close> numbers its reads.\<close>

definition audit_tx :: "env \<Rightarrow> nat \<Rightarrow> AuditAppendInput \<Rightarrow> db \<Rightarrow> app_error + db" where
  "audit_tx E k input d =
     res_bind (appendInTx (ev_audit E) (stamp_of E k) input (auditRows d)) (\<lambda>(_, rows).
       Inr (d\<lparr>auditRows := rows\<rparr>))"

text \<open>The standalone entry point, called from inside a handler.\<close>

definition audit_log_tx :: "env \<Rightarrow> nat \<Rightarrow> AuditAppendInput \<Rightarrow> db \<Rightarrow> app_error + db" where
  "audit_log_tx E k input d =
     res_bind (audit_log (ev_audit E) (stamp_of E k) input (auditRows d)) (\<lambda>(_, rows).
       Inr (d\<lparr>auditRows := rows\<rparr>))"

definition case_event ::
  "env \<Rightarrow> nat \<Rightarrow> string \<Rightarrow> string \<Rightarrow> DocEventType \<Rightarrow> string option \<Rightarrow> (string \<times> jsval) list \<Rightarrow> db \<Rightarrow> db" where
  "case_event E k tenant caseId eventType actor payload d =
     d\<lparr>caseEvents := caseEvents d @
        [\<lparr>de_id = ev_uuid E k, de_tenantId = tenant, de_caseId = caseId, de_eventType = eventType,
          de_actorUserId = actor, de_remarks = None, de_payload = JObj payload, de_createdAt = ev_clock E k, de_documentId = None, de_fromStatus = None, de_toStatus = None\<rparr>]\<rparr>"

text \<open>An event of a requirement, with its move and the remarks.\<close>

definition doc_event ::
  "env \<Rightarrow> nat \<Rightarrow> string \<Rightarrow> string \<Rightarrow> string \<Rightarrow> DocEventType \<Rightarrow> string \<Rightarrow> (DocDocumentStatus \<times> DocDocumentStatus) option \<Rightarrow>
   string option \<Rightarrow> (string \<times> jsval) list \<Rightarrow> db \<Rightarrow> db" where
  "doc_event E k tenant caseId documentId eventType actor move remarks payload d =
     d\<lparr>caseEvents := caseEvents d @
        [\<lparr>de_id = ev_uuid E k, de_tenantId = tenant, de_caseId = caseId, de_eventType = eventType,
          de_actorUserId = Some actor, de_remarks = remarks, de_payload = JObj payload, de_createdAt = ev_clock E k,
          de_documentId = Some documentId, de_fromStatus = map_option fst move, de_toStatus = map_option snd move\<rparr>]\<rparr>"

section \<open>Lemmas on operations\<close>

text \<open>What an append inside a handler does to the database.\<close>

lemma audit_tx_Inr:
  assumes "audit_tx E k input d = Inr d'"
  shows "\<exists>r rows. appendInTx (ev_audit E) (stamp_of E k) input (auditRows d) = Inr (r, rows) \<and> d' = d\<lparr>auditRows := rows\<rparr>"
  using assms by (auto simp: audit_tx_def res_bind_Inr_iff)

lemma audit_tx_tables [simp]:
  assumes "audit_tx E k input d = Inr d'"
  shows "users d' = users d" "leads d' = leads d" "docCases d' = docCases d" "caseEvents d' = caseEvents d" "caseNotes d' = caseNotes d"
    "caseDocuments d' = caseDocuments d" "portalSessions d' = portalSessions d" "authAttempts d' = authAttempts d"
    "contactRequests d' = contactRequests d" "mandateRequests d' = mandateRequests d" "mandateUploads d' = mandateUploads d"
    "managerOverrides d' = managerOverrides d" "planning d' = planning d" "customFields d' = customFields d" "documents d' = documents d"
  using audit_tx_Inr [OF assms] by auto

lemma audit_log_Inr:
  "audit_log env st input rows = Inr (u, rows') \<longleftrightarrow> (\<exists>r. appendInTx env st input rows = Inr (r, rows'))"
proof (cases "appendInTx env st input rows")
  case (Inl e)
  then show ?thesis by (cases e) (simp_all add: audit_log_def)
next
  case (Inr p)
  then show ?thesis by (cases p) (simp add: audit_log_def)
qed

lemma audit_log_tx_Inr:
  "audit_log_tx E k input d = Inr d' \<longleftrightarrow> audit_tx E k input d = Inr d'"
  unfolding audit_log_tx_def audit_tx_def res_bind_Inr_iff by (auto simp: audit_log_Inr)

lemma case_event_tables [simp]:
  "users (case_event E k t c ev a p d) = users d"
  "leads (case_event E k t c ev a p d) = leads d" "docCases (case_event E k t c ev a p d) = docCases d"
  "caseNotes (case_event E k t c ev a p d) = caseNotes d" "caseDocuments (case_event E k t c ev a p d) = caseDocuments d"
  "portalSessions (case_event E k t c ev a p d) = portalSessions d" "authAttempts (case_event E k t c ev a p d) = authAttempts d"
  "contactRequests (case_event E k t c ev a p d) = contactRequests d" "mandateRequests (case_event E k t c ev a p d) = mandateRequests d"
  "mandateUploads (case_event E k t c ev a p d) = mandateUploads d" "managerOverrides (case_event E k t c ev a p d) = managerOverrides d"
  "planning (case_event E k t c ev a p d) = planning d" "customFields (case_event E k t c ev a p d) = customFields d"
  "documents (case_event E k t c ev a p d) = documents d" "auditRows (case_event E k t c ev a p d) = auditRows d"
  by (simp_all add: case_event_def)

lemma doc_event_tables [simp]:
  "users (doc_event E k t c i ev a m r p d) = users d"
  "leads (doc_event E k t c i ev a m r p d) = leads d" "docCases (doc_event E k t c i ev a m r p d) = docCases d"
  "caseNotes (doc_event E k t c i ev a m r p d) = caseNotes d" "caseDocuments (doc_event E k t c i ev a m r p d) = caseDocuments d"
  "planning (doc_event E k t c i ev a m r p d) = planning d" "documents (doc_event E k t c i ev a m r p d) = documents d"
  "auditRows (doc_event E k t c i ev a m r p d) = auditRows d"
  by (simp_all add: doc_event_def)

text \<open>
  What the log gains in an operation: \<open>logged d d' entries\<close> holds when the audit rows of
  \<open>d'\<close> are those of \<open>d\<close> and then one row for each entry, with its tenant, event type
  and entity.
\<close>

definition logged :: "db \<Rightarrow> db \<Rightarrow> (string \<times> string \<times> string) list \<Rightarrow> bool" where
  "logged d d' entries \<longleftrightarrow> (\<exists>rows. auditRows d' = auditRows d @ rows
     \<and> map (\<lambda>r. (al_tenantId r, al_eventType r, al_entityId r)) rows = entries)"

lemma logged_refl [simp]: "auditRows d' = auditRows d \<Longrightarrow> logged d d' []"
  by (simp add: logged_def)

lemma logged_trans: "logged d d' xs \<Longrightarrow> logged d' d'' ys \<Longrightarrow> logged d d'' (xs @ ys)"
  by (auto simp: logged_def)

lemma logged_audit:
  "audit_tx E k input d = Inr d' \<Longrightarrow> logged d d' [(au_tenantId input, au_eventType input, au_entityId input)]"
  using audit_tx_Inr appendInTx_Inr(1,2,12,14) by (fastforce simp: logged_def)

lemma logged_cong: "logged d d' xs \<Longrightarrow> auditRows e = auditRows d \<Longrightarrow> auditRows e' = auditRows d' \<Longrightarrow> logged e e' xs"
  by (simp add: logged_def)

text \<open>The chain of the log is kept by every append inside a handler.\<close>

lemma audit_tx_chain:
  "audit_tx E k input d = Inr d' \<Longrightarrow> env_law (ev_audit E) \<Longrightarrow> chain_ok (auditRows d) \<Longrightarrow> chain_ok (auditRows d')"
  using audit_tx_Inr append_chain by fastforce

end
