(* ===== verification/Case_Store.thy ===== *)
theory Case_Store
  imports Db
begin

text \<open>
  What the services share on the table of cases: looking a live case up, the write of a case with
  its event and its audit row, the keys of the table and what keeps them, and a concrete
  environment for the examples.
\<close>

section \<open>Looking up and writing a case\<close>

definition live_case :: "TenantContext \<Rightarrow> string \<Rightarrow> DocCase \<Rightarrow> bool" where
  "live_case ctx caseId c \<longleftrightarrow> dc_id c = caseId \<and> dc_tenantId c = tenantId ctx \<and> dc_deletedAt c = None"

definition loadCase :: "TenantContext \<Rightarrow> string \<Rightarrow> db \<Rightarrow> app_error + DocCase" where
  "loadCase ctx caseId d = or_throw (find_first (live_case ctx caseId) (docCases d)) ResourceNotFoundError"

text \<open>The three writes that end every method: the case, an event, the audit row.\<close>

definition write_case ::
  "env \<Rightarrow> TenantContext \<Rightarrow> string \<Rightarrow> (DocCase \<Rightarrow> DocCase) \<Rightarrow> DocEventType \<Rightarrow> (string \<times> jsval) list
     \<Rightarrow> string \<Rightarrow> (string \<times> jsval) list \<Rightarrow> DocCase tx" where
  "write_case E ctx caseId f eventType eventPayload auditEvent auditPayload d =
     res_bind (update_row (\<lambda>c. dc_id c = caseId) f (docCases d)) (\<lambda>(updated, cases).
     let d1 = case_event E 8 (tenantId ctx) caseId eventType (Some (userId ctx)) eventPayload (d\<lparr>docCases := cases\<rparr>)
     in res_bind (audit_tx E 9 (audit_input (tenantId ctx) auditEvent ''DocCase'' caseId (Some (userId ctx)) ''UPDATE'' auditPayload) d1) (\<lambda>d2.
     Inr (updated, d2)))"

section \<open>What the writes do\<close>

text \<open>
  \<open>wrote d d' caseId f ev\<close>: the case was replaced by its image under \<open>f\<close>, one event and
  one audit row were added for it, and nothing else changed.
\<close>

definition wrote :: "env \<Rightarrow> TenantContext \<Rightarrow> string \<Rightarrow> (DocCase \<Rightarrow> DocCase) \<Rightarrow> DocEventType \<Rightarrow> string \<Rightarrow> db \<Rightarrow> db \<Rightarrow> bool" where
  "wrote E ctx caseId f eventType auditEvent d d' \<longleftrightarrow>
     docCases d' = map (\<lambda>c. if dc_id c = caseId then f c else c) (docCases d)
     \<and> (\<exists>e. caseEvents d' = caseEvents d @ [e] \<and> de_tenantId e = tenantId ctx \<and> de_caseId e = caseId
          \<and> de_eventType e = eventType \<and> de_actorUserId e = Some (userId ctx))
     \<and> logged d d' [(tenantId ctx, auditEvent, caseId)]
     \<and> users d' = users d \<and> leads d' = leads d \<and> caseNotes d' = caseNotes d \<and> caseDocuments d' = caseDocuments d
     \<and> portalSessions d' = portalSessions d \<and> authAttempts d' = authAttempts d
     \<and> contactRequests d' = contactRequests d \<and> mandateRequests d' = mandateRequests d
     \<and> mandateUploads d' = mandateUploads d \<and> managerOverrides d' = managerOverrides d \<and> planning d' = planning d \<and> customFields d' = customFields d \<and> documents d' = documents d
     \<and> (env_law (ev_audit E) \<and> chain_ok (auditRows d) \<longrightarrow> chain_ok (auditRows d'))"

lemma write_case_Inr:
  assumes "write_case E ctx caseId f ev p au ap d = Inr (c, d')"
  shows "(\<exists>q. find_first (\<lambda>c. dc_id c = caseId) (docCases d) = Some q \<and> c = f q) \<and> wrote E ctx caseId f ev au d d'"
proof -
  from assms obtain q d1 where q: "find_first (\<lambda>c. dc_id c = caseId) (docCases d) = Some q" "c = f q"
    and d1: "d1 = case_event E 8 (tenantId ctx) caseId ev (Some (userId ctx)) p
        (d\<lparr>docCases := fst (update_many (\<lambda>c. dc_id c = caseId) f (docCases d))\<rparr>)"
    and a: "audit_tx E 9 (audit_input (tenantId ctx) au ''DocCase'' caseId (Some (userId ctx)) ''UPDATE'' ap) d1 = Inr d'"
    by (auto simp: write_case_def res_bind_Inr_iff update_row_Inr Let_def)
  have "logged d1 d' [(tenantId ctx, au, caseId)]" using logged_audit [OF a] by (simp add: audit_input_def)
  then have "logged d d' [(tenantId ctx, au, caseId)]" by (rule logged_cong) (simp_all add: d1)
  moreover have "caseEvents d' = caseEvents d @ [\<lparr>de_id = ev_uuid E 8, de_tenantId = tenantId ctx, de_caseId = caseId,
      de_eventType = ev, de_actorUserId = Some (userId ctx), de_remarks = None, de_payload = JObj p, de_createdAt = ev_clock E 8, de_documentId = None, de_fromStatus = None, de_toStatus = None\<rparr>]"
    using audit_tx_tables [OF a] by (simp add: d1 case_event_def)
  moreover have "env_law (ev_audit E) \<and> chain_ok (auditRows d) \<longrightarrow> chain_ok (auditRows d')"
    using audit_tx_chain [OF a] by (simp add: d1)
  ultimately show ?thesis
    using q audit_tx_tables [OF a] by (simp add: wrote_def d1 update_many_def)
qed

lemma loadCase_Inr: "loadCase ctx caseId d = Inr c \<longleftrightarrow> find_first (live_case ctx caseId) (docCases d) = Some c"
  by (simp add: loadCase_def)

section \<open>Well-formed tables of cases\<close>

definition numbers :: "DocCase list \<Rightarrow> string option list" where
  "numbers cases = filter (\<lambda>n. n \<noteq> None) (map dc_caseNumber cases)"

definition cases_ok :: "DocCase list \<Rightarrow> bool" where
  "cases_ok cases \<longleftrightarrow> distinct (map dc_id cases) \<and> distinct (map (\<lambda>c. (dc_tenantId c, dc_leadId c)) cases)
     \<and> distinct (numbers cases)"

text \<open>Updates of one case that leave its keys and the switch of its portal.\<close>

definition keeps_keys :: "(DocCase \<Rightarrow> DocCase) \<Rightarrow> bool" where
  "keeps_keys f \<longleftrightarrow> (\<forall>c. dc_id (f c) = dc_id c \<and> dc_tenantId (f c) = dc_tenantId c \<and> dc_leadId (f c) = dc_leadId c
     \<and> dc_caseNumber (f c) = dc_caseNumber c \<and> dc_deletedAt (f c) = dc_deletedAt c
     \<and> dc_portalEnabledAt (f c) = dc_portalEnabledAt c)"

lemma cases_ok_map_keys:
  assumes keep: "\<And>c. dc_id (f c) = dc_id c \<and> dc_tenantId (f c) = dc_tenantId c \<and> dc_leadId (f c) = dc_leadId c \<and> dc_caseNumber (f c) = dc_caseNumber c"
    and "cases_ok cases"
  shows "cases_ok (map (\<lambda>c. if p c then f c else c) cases)"
proof -
  let ?g = "\<lambda>c. if p c then f c else c"
  have "dc_id (?g c) = dc_id c \<and> dc_tenantId (?g c) = dc_tenantId c \<and> dc_leadId (?g c) = dc_leadId c \<and> dc_caseNumber (?g c) = dc_caseNumber c" for c
    using keep [of c] by simp
  then have "map dc_id (map ?g cases) = map dc_id cases"
    "map (\<lambda>c. (dc_tenantId c, dc_leadId c)) (map ?g cases) = map (\<lambda>c. (dc_tenantId c, dc_leadId c)) cases"
    "map dc_caseNumber (map ?g cases) = map dc_caseNumber cases"
    by (auto simp: comp_def)
  then show ?thesis using assms(2) unfolding cases_ok_def numbers_def by (simp del: map_map)
qed

lemma cases_ok_map: "keeps_keys f \<Longrightarrow> cases_ok cases \<Longrightarrow> cases_ok (map (\<lambda>c. if p c then f c else c) cases)"
  by (rule cases_ok_map_keys) (simp_all add: keeps_keys_def)

lemma find_first_id:
  assumes "distinct (map dc_id cases)" "c \<in> set cases" "dc_id c = i"
  shows "find_first (\<lambda>c. dc_id c = i) cases = Some c"
proof -
  have "find_first (\<lambda>c. dc_id c = i) cases \<noteq> None" using assms by (auto simp: find_first_None)
  then obtain q where "find_first (\<lambda>c. dc_id c = i) cases = Some q" by blast
  with find_first_SomeD [OF this] assms show ?thesis by (auto simp: distinct_map inj_on_def)
qed

lemma same_case:
  assumes "cases_ok cases" "c \<in> set cases" "q \<in> set cases" "dc_id q = dc_id c"
  shows "q = c"
proof -
  have "inj_on dc_id (set cases)" using assms(1) by (simp add: cases_ok_def distinct_map)
  from inj_onD [OF this assms(4,3,2)] show ?thesis .
qed

text \<open>One case replaced: the table as a map over the row instead of its id.\<close>

lemma map_one_case:
  assumes "cases_ok cases" "c \<in> set cases" "dc_id c = i"
  shows "map (\<lambda>q. if dc_id q = i then f q else q) cases = map (\<lambda>q. if q = c then f c else q) cases"
proof (rule map_cong [OF refl])
  fix q assume q: "q \<in> set cases"
  show "(if dc_id q = i then f q else q) = (if q = c then f c else q)"
  proof (cases "q = c")
    case True
    then show ?thesis using assms(3) by (simp only: if_True simp_thms)
  next
    case False
    then have "dc_id q \<noteq> i" using same_case [OF assms(1,2) q] assms(3) by metis
    with False show ?thesis by (simp only: if_False simp_thms)
  qed
qed

lemma live_case_found:
  assumes "cases_ok (docCases d)" "loadCase ctx caseId d = Inr c"
  shows "c \<in> set (docCases d)" "live_case ctx caseId c" "find_first (\<lambda>c. dc_id c = caseId) (docCases d) = Some c"
  using assms find_first_SomeD [of "live_case ctx caseId" "docCases d" c] find_first_id [of "docCases d" c caseId]
  by (auto simp: loadCase_Inr cases_ok_def live_case_def)

text \<open>\<^verbatim>\<open>[firstName, lastName].filter(Boolean).join(' ')\<close>\<close>

definition full_name :: "string \<Rightarrow> string \<Rightarrow> string" where
  "full_name firstName lastName =
     (if firstName = [] then lastName else if lastName = [] then firstName else firstName @ '' '' @ lastName)"

section \<open>A new case\<close>

text \<open>A new case with the defaults of the schema.\<close>

definition blank_case :: "string \<Rightarrow> TenantContext \<Rightarrow> string \<Rightarrow> string option \<Rightarrow> DocCase" where
  "blank_case i ctx leadId presetId =
     \<lparr>dc_id = i, dc_tenantId = tenantId ctx, dc_leadId = leadId, dc_caseNumber = None, dc_caseTypeId = None,
      dc_presetId = presetId, dc_presetVersion = None, dc_priority = 0, dc_dueDate = None, dc_notes = None, dc_assignedTo = None, dc_status = DC_ACTIVE, dc_closedAt = None,
      dc_closedReason = None, dc_closedByUserId = None, dc_reopenedAt = None, dc_reopenedByUserId = None,
      dc_createdBy = userId ctx, dc_deletedAt = None,
      dc_handoffState = HS_NONE, dc_handoffAt = None, dc_handoffBy = None, dc_acceptedAt = None,
      dc_acceptedBy = None, dc_returnedAt = None, dc_returnCount = 0, dc_returnReasonCode = None,
      dc_returnReasonNote = None, dc_managerReviewRequired = False, dc_autoDropAt = None,
      dc_handoffPhoneSnapshot = None, dc_handoffPresetSnapshot = None,
      dc_processHandoffState = PH_NONE, dc_processHandoffAt = None, dc_processHandoffBy = None,
      dc_processAssignedTo = None, dc_processAcceptedAt = None, dc_processAcceptedBy = None,
      dc_processReturnedAt = None, dc_processReturnCount = 0, dc_processReturnReasonCode = None,
      dc_processReturnReasonNote = None, dc_isReady = False, dc_handoverRemarks = None,
      dc_transferredAt = None, dc_transferredBy = None,
      dc_portalEnabledAt = None, dc_portalPhoneSource = LEAD_SNAPSHOT, dc_portalPhoneSnapshot = None,
      dc_portalPhoneLast4 = None, dc_lastClientVisiblePublishAt = None, dc_lastInternalChangeAt = None, dc_progress = no_progress\<rparr>"

section \<open>A concrete environment\<close>

definition env_one :: env where
  "env_one = \<lparr>ev_audit = env_plain, ev_clock = (\<lambda>k. 1777550400000 + int k), ev_uuid = (\<lambda>k. ''u'' @ nat_str k),
     ev_randomInt = (\<lambda>i k. (i + k) mod 32), ev_token = ''secret'', ev_correlationId = None, ev_rnd = id\<rparr>"

definition ctx_one :: TenantContext where
  "ctx_one = \<lparr>tenantId = ''t1'', userId = ''staff''\<rparr>"

text \<open>The same environment, with other ids for the \<open>n\<close>th call.\<close>

definition env_at :: "nat \<Rightarrow> env" where
  "env_at n = env_one\<lparr>ev_uuid := (\<lambda>k. ''u'' @ nat_str (100 * n + k))\<rparr>"

end
