(* ===== verification/Handoff_Service.thy ===== *)
theory Handoff_Service
  imports Case_Store
begin

text \<open>
  The Sales to Documentation handoff, \<^verbatim>\<open>src/src/services/handoff.service.ts\<close>: every method
  that changes state as a transaction on the database, with its guards in the order of the
  code. Then the shape that cases keep, and what each method does to a case, the events and
  the audit log.
\<close>

fun return_reason_name :: "HandoffReturnReason \<Rightarrow> string" where
  "return_reason_name WRONG_OR_MISSING_CONTACT = ''WRONG_OR_MISSING_CONTACT''"
| "return_reason_name WRONG_PRESET = ''WRONG_PRESET''"
| "return_reason_name INCOMPLETE_INFORMATION = ''INCOMPLETE_INFORMATION''"
| "return_reason_name DUPLICATE_CASE = ''DUPLICATE_CASE''"
| "return_reason_name COMPLIANCE_ISSUE = ''COMPLIANCE_ISSUE''"
| "return_reason_name HR_OTHER = ''OTHER''"

definition assertAllowed :: "TransitionCheck \<Rightarrow> app_error + unit" where
  "assertAllowed check = (if allowed check then Inr () else Inl (BusinessRuleViolationError (or_empty (reason check))))"

declare canTransition.simps [simp del]

section \<open>Helpers of the service\<close>

fun mint_loop :: "env \<Rightarrow> DocCase list \<Rightarrow> nat \<Rightarrow> nat \<Rightarrow> app_error + string" where
  "mint_loop E cases i 0 = Inl (BusinessRuleViolationError ''Could not allocate a case number. Please retry.'')"
| "mint_loop E cases i (Suc n) =
     (let candidate = generateCaseNumber (ev_randomInt E i)
      in if find_first (\<lambda>c. dc_caseNumber c = Some candidate) cases = None then Inr candidate
         else mint_loop E cases (Suc i) n)"

definition mintCaseNumber :: "env \<Rightarrow> DocCase list \<Rightarrow> app_error + string" where
  "mintCaseNumber E cases = mint_loop E cases 0 5"

section \<open>Methods\<close>

definition handed_off :: "TenantContext \<Rightarrow> string \<Rightarrow> string option \<Rightarrow> string option \<Rightarrow> date \<Rightarrow> DocCase \<Rightarrow> DocCase" where
  "handed_off ctx caseNumber presetId phone now c =
     c\<lparr>dc_caseNumber := Some caseNumber, dc_status := DC_INCOMING, dc_handoffState := HS_HANDED_OFF,
       dc_handoffAt := Some now, dc_handoffBy := Some (userId ctx), dc_handoffPhoneSnapshot := phone,
       dc_handoffPresetSnapshot := presetId, dc_portalPhoneSnapshot := phone,
       dc_portalPhoneLast4 := (if falsy phone then None else Some (phoneLast4 (or_empty phone))),
       dc_lastInternalChangeAt := Some now\<rparr>"

definition create_case :: "DocCase \<Rightarrow> DocCase list \<Rightarrow> app_error + DocCase \<times> DocCase list" where
  "create_case c cases =
     (if (\<exists>q \<in> set cases. dc_id q = dc_id c \<or> dc_tenantId q = dc_tenantId c \<and> dc_leadId q = dc_leadId c
            \<or> dc_caseNumber c \<noteq> None \<and> dc_caseNumber q = dc_caseNumber c)
      then Inl UniqueViolation else Inr (c, cases @ [c]))"

definition confirm_write ::
  "env \<Rightarrow> TenantContext \<Rightarrow> Lead \<Rightarrow> string option \<Rightarrow> DocCase option \<Rightarrow> DocCase tx" where
  "confirm_write E ctx lead presetId existing d =
     res_bind (assertAllowed (canTransition CONFIRM
         (case existing of Some c \<Rightarrow> dc_status c | None \<Rightarrow> DC_INCOMING)
         (case existing of Some c \<Rightarrow> dc_handoffState c | None \<Rightarrow> HS_NONE) False)) (\<lambda>_.
     res_bind (mintCaseNumber E (docCases d)) (\<lambda>caseNumber.
     let dat = handed_off ctx caseNumber presetId (ld_phone lead) (ev_clock E 1)
     in res_bind (case existing of
            Some c \<Rightarrow> update_row (\<lambda>q. dc_id q = dc_id c) dat (docCases d)
          | None \<Rightarrow> create_case (dat (blank_case (ev_uuid E 2) ctx (ld_id lead) presetId)) (docCases d)) (\<lambda>(docCase, cases).
     let payload = [(''caseNumber'', JStr caseNumber), (''leadId'', JStr (ld_id lead))];
         d1 = case_event E 3 (tenantId ctx) (dc_id docCase) HANDOFF_CREATED (Some (userId ctx)) payload (d\<lparr>docCases := cases\<rparr>)
     in res_bind (audit_tx E 4 (audit_input (tenantId ctx) ''HANDOFF_CREATED'' ''DocCase'' (dc_id docCase)
            (Some (userId ctx)) ''CREATE'' payload) d1) (\<lambda>d2.
     Inr (docCase, d2)))))"

definition confirmHandoff :: "env \<Rightarrow> TenantContext \<Rightarrow> string \<Rightarrow> string option \<Rightarrow> DocCase tx" where
  "confirmHandoff E ctx leadId presetId d =
     res_bind (or_throw (find_first (\<lambda>l. ld_id l = leadId \<and> ld_tenantId l = tenantId ctx \<and> ld_deletedAt l = None) (leads d))
        ResourceNotFoundError) (\<lambda>lead.
     res_bind (ensure (ld_stage lead = LS_QUALIFIED)
        (BusinessRuleViolationError ''Only a qualified lead can be handed off.'')) (\<lambda>_.
     case find_first (\<lambda>c. dc_tenantId c = tenantId ctx \<and> dc_leadId c = leadId \<and> dc_deletedAt c = None) (docCases d) of
       Some c \<Rightarrow> if \<not> falsy (dc_caseNumber c) then Inr (c, d) else confirm_write E ctx lead presetId (Some c) d
     | None \<Rightarrow> confirm_write E ctx lead presetId None d))"

definition accept_case :: "env \<Rightarrow> TenantContext \<Rightarrow> string \<Rightarrow> DocCase tx" where
  "accept_case E ctx caseId d =
     res_bind (loadCase ctx caseId d) (\<lambda>docCase.
     res_bind (assertAllowed (canTransition ACCEPT (dc_status docCase) (dc_handoffState docCase) (dc_managerReviewRequired docCase))) (\<lambda>_.
     write_case E ctx caseId
       (\<lambda>c. c\<lparr>dc_status := DC_ACTIVE, dc_handoffState := HS_ACCEPTED, dc_acceptedAt := Some (ev_clock E 1),
              dc_acceptedBy := Some (userId ctx),
              dc_assignedTo := (case dc_assignedTo docCase of Some u \<Rightarrow> Some u | None \<Rightarrow> Some (userId ctx)),
              dc_autoDropAt := None, dc_lastInternalChangeAt := Some (ev_clock E 2)\<rparr>)
       HANDOFF_ACCEPTED [] ''HANDOFF_ACCEPTED'' [(''caseNumber'', jopt (dc_caseNumber docCase))] d))"

definition reject_case :: "env \<Rightarrow> TenantContext \<Rightarrow> string \<Rightarrow> HandoffReturnReason \<Rightarrow> string \<Rightarrow> DocCase tx" where
  "reject_case E ctx caseId reasonCode note d =
     res_bind (ensure (trim note \<noteq> []) (ValidationError ''A rejection reason note is required.'')) (\<lambda>_.
     res_bind (loadCase ctx caseId d) (\<lambda>docCase.
     res_bind (assertAllowed (canTransition REJECT (dc_status docCase) (dc_handoffState docCase) (dc_managerReviewRequired docCase))) (\<lambda>_.
     let returnCount = dc_returnCount docCase + 1;
         managerReviewRequired = requiresManagerReviewAfterReturn returnCount (Some reasonCode)
     in write_case E ctx caseId
       (\<lambda>c. c\<lparr>dc_status := DC_INCOMING,
              dc_handoffState := (if managerReviewRequired then HS_MANAGER_REVIEW_REQUIRED else HS_RETURNED),
              dc_returnCount := returnCount, dc_returnReasonCode := Some reasonCode,
              dc_returnReasonNote := Some (trim note), dc_returnedAt := Some (ev_clock E 1),
              dc_managerReviewRequired := managerReviewRequired,
              dc_autoDropAt := Some (computeAutoDropAt (ev_clock E 2)),
              dc_lastInternalChangeAt := Some (ev_clock E 3)\<rparr>)
       HANDOFF_REJECTED
       [(''reasonCode'', JStr (return_reason_name reasonCode)), (''note'', JStr (trim note)),
        (''returnCount'', jint returnCount), (''managerReviewRequired'', JBool managerReviewRequired)]
       ''HANDOFF_REJECTED''
       [(''reasonCode'', JStr (return_reason_name reasonCode)), (''returnCount'', jint returnCount),
        (''managerReviewRequired'', JBool managerReviewRequired)] d)))"

definition returnAfterAcceptance :: "env \<Rightarrow> TenantContext \<Rightarrow> string \<Rightarrow> HandoffReturnReason \<Rightarrow> string \<Rightarrow> DocCase tx" where
  "returnAfterAcceptance E ctx caseId reasonCode note d =
     res_bind (ensure (trim note \<noteq> []) (ValidationError ''A return reason note is required.'')) (\<lambda>_.
     res_bind (loadCase ctx caseId d) (\<lambda>docCase.
     res_bind (assertAllowed (canTransition RETURN (dc_status docCase) (dc_handoffState docCase) (dc_managerReviewRequired docCase))) (\<lambda>_.
     let returnedAt = ev_clock E 1;
         returnCount = dc_returnCount docCase + 1;
         managerReviewRequired = requiresManagerReviewAfterReturn returnCount (Some reasonCode)
     in write_case E ctx caseId
       (\<lambda>c. c\<lparr>dc_status := DC_RETURNED,
              dc_handoffState := (if managerReviewRequired then HS_MANAGER_REVIEW_REQUIRED else HS_RETURNED),
              dc_returnedAt := Some returnedAt, dc_returnCount := returnCount,
              dc_returnReasonCode := Some reasonCode, dc_returnReasonNote := Some (trim note),
              dc_managerReviewRequired := managerReviewRequired,
              dc_autoDropAt := Some (computeAutoDropAt returnedAt),
              dc_lastInternalChangeAt := Some returnedAt\<rparr>)
       CASE_RETURNED
       [(''reasonCode'', JStr (return_reason_name reasonCode)), (''note'', JStr (trim note)),
        (''returnCount'', jint returnCount), (''managerReviewRequired'', JBool managerReviewRequired)]
       ''CASE_RETURNED''
       [(''reasonCode'', JStr (return_reason_name reasonCode)), (''returnCount'', jint returnCount),
        (''managerReviewRequired'', JBool managerReviewRequired)] d)))"

definition resend_context :: "DocCase \<Rightarrow> Lead \<Rightarrow> bool \<Rightarrow> string \<Rightarrow> ResendContext" where
  "resend_context docCase lead override note =
     \<lparr>returnReasonCode = dc_returnReasonCode docCase, resolutionNote = note,
      phoneAtHandoff = dc_handoffPhoneSnapshot docCase, currentPhone = ld_phone lead,
      hasApprovedContactOverride = override, presetAtHandoff = dc_handoffPresetSnapshot docCase,
      currentPreset = dc_presetId docCase\<rparr>"

definition resend_case :: "env \<Rightarrow> TenantContext \<Rightarrow> string \<Rightarrow> string \<Rightarrow> DocCase tx" where
  "resend_case E ctx caseId note d =
     res_bind (loadCase ctx caseId d) (\<lambda>docCase.
     res_bind (assertAllowed (canTransition RESEND (dc_status docCase) (dc_handoffState docCase) (dc_managerReviewRequired docCase))) (\<lambda>_.
     res_bind (or_throw (find_first (\<lambda>l. ld_id l = dc_leadId docCase \<and> ld_tenantId l = tenantId ctx \<and> ld_deletedAt l = None) (leads d))
        ResourceNotFoundError) (\<lambda>lead.
     let approvedOverride = find_first (\<lambda>r. cc_caseId r = caseId \<and> cc_status r = CC_APPROVED) (contactRequests d)
     in res_bind (assertAllowed (checkResendAllowed (resend_context docCase lead (approvedOverride \<noteq> None) note))) (\<lambda>_.
     let now = ev_clock E 1;
         prev = jopt (map_option return_reason_name (dc_returnReasonCode docCase))
     in write_case E ctx caseId
       (\<lambda>c. c\<lparr>dc_status := DC_INCOMING, dc_handoffState := HS_RESENT, dc_handoffAt := Some now,
              dc_handoffBy := Some (userId ctx), dc_handoffPhoneSnapshot := ld_phone lead,
              dc_handoffPresetSnapshot := dc_presetId docCase, dc_returnReasonCode := None,
              dc_returnReasonNote := None, dc_autoDropAt := None, dc_lastInternalChangeAt := Some now\<rparr>)
       HANDOFF_RESENT [(''resolutionNote'', JStr (trim note)), (''previousReason'', prev)]
       ''HANDOFF_RESENT'' [(''previousReason'', prev), (''returnCount'', jint (dc_returnCount docCase))] d))))"

definition clearManagerReview :: "env \<Rightarrow> TenantContext \<Rightarrow> string \<Rightarrow> string \<Rightarrow> DocCase tx" where
  "clearManagerReview E ctx caseId note d =
     res_bind (ensure (trim note \<noteq> []) (ValidationError ''A manager review note is required.'')) (\<lambda>_.
     res_bind (loadCase ctx caseId d) (\<lambda>docCase.
     res_bind (ensure (dc_managerReviewRequired docCase)
        (BusinessRuleViolationError ''This case is not awaiting manager review.'')) (\<lambda>_.
     write_case E ctx caseId
       (\<lambda>c. c\<lparr>dc_managerReviewRequired := False, dc_handoffState := HS_RETURNED,
              dc_lastInternalChangeAt := Some (ev_clock E 1)\<rparr>)
       MANAGER_REVIEW_COMPLETED [(''note'', JStr (trim note))]
       ''MANAGER_REVIEW_COMPLETED'' [(''note'', JStr (trim note))] d)))"

definition findByCaseNumber :: "TenantContext \<Rightarrow> string \<Rightarrow> db \<Rightarrow> app_error + DocCase option" where
  "findByCaseNumber ctx caseNumber d =
     res_bind (ensure (isValidCaseNumber caseNumber) (ValidationError ''Invalid case number format.'')) (\<lambda>_.
     Inr (find_first (\<lambda>c. dc_tenantId c = tenantId ctx \<and> dc_caseNumber c = Some (to_upper caseNumber) \<and> dc_deletedAt c = None)
        (docCases d)))"

text \<open>Rows without a handoff time come last in ascending order.\<close>

definition listIncoming :: "TenantContext \<Rightarrow> db \<Rightarrow> DocCase list" where
  "listIncoming ctx d =
     (let rows = filter (\<lambda>c. dc_tenantId c = tenantId ctx \<and> dc_status c = DC_INCOMING \<and> dc_deletedAt c = None) (docCases d)
      in sort_key (\<lambda>c. or_else (dc_handoffAt c) 0) (filter (\<lambda>c. dc_handoffAt c \<noteq> None) rows)
           @ filter (\<lambda>c. dc_handoffAt c = None) rows)"

lemma assertAllowed_simps [simp]:
  "assertAllowed check = Inr u \<longleftrightarrow> allowed check"
  by (simp add: assertAllowed_def)

section \<open>The methods as one operation\<close>

datatype handoff_call =
    Confirm string "string option"
  | Accept string
  | Reject string HandoffReturnReason string
  | Return_case string HandoffReturnReason string
  | Resend string string
  | Clear_review string string

fun run_handoff :: "env \<Rightarrow> TenantContext \<Rightarrow> handoff_call \<Rightarrow> DocCase tx" where
  "run_handoff E ctx (Confirm leadId presetId) = confirmHandoff E ctx leadId presetId"
| "run_handoff E ctx (Accept i) = accept_case E ctx i"
| "run_handoff E ctx (Reject i reasonCode note) = reject_case E ctx i reasonCode note"
| "run_handoff E ctx (Return_case i reasonCode note) = returnAfterAcceptance E ctx i reasonCode note"
| "run_handoff E ctx (Resend i note) = resend_case E ctx i note"
| "run_handoff E ctx (Clear_review i note) = clearManagerReview E ctx i note"

text \<open>
  The abstract machine of a handed-off case: its status, the state of the handoff, whether a
  manager has to look at it, how often it came back and why.
\<close>

record handoff_view =
  hv_status :: DocCaseStatus
  hv_state :: HandoffState
  hv_review :: bool
  hv_returns :: int
  hv_reason :: "HandoffReturnReason option"

definition view_of :: "DocCase \<Rightarrow> handoff_view" where
  "view_of c = \<lparr>hv_status = dc_status c, hv_state = dc_handoffState c, hv_review = dc_managerReviewRequired c,
     hv_returns = dc_returnCount c, hv_reason = dc_returnReasonCode c\<rparr>"

definition sent_back :: "DocCaseStatus \<Rightarrow> HandoffReturnReason \<Rightarrow> handoff_view \<Rightarrow> handoff_view" where
  "sent_back status reasonCode v =
     (let n = hv_returns v + 1;
          m = (2 \<le> n \<or> reasonCode \<in> {COMPLIANCE_ISSUE, DUPLICATE_CASE})
      in v\<lparr>hv_status := status, hv_state := (if m then HS_MANAGER_REVIEW_REQUIRED else HS_RETURNED),
           hv_review := m, hv_returns := n, hv_reason := Some reasonCode\<rparr>)"

fun handoff_spec :: "handoff_call \<Rightarrow> handoff_view \<Rightarrow> handoff_view option" where
  "handoff_spec (Accept i) v =
     (if hv_status v = DC_INCOMING then Some (v\<lparr>hv_status := DC_ACTIVE, hv_state := HS_ACCEPTED\<rparr>) else None)"
| "handoff_spec (Reject i reasonCode note) v =
     (if hv_status v = DC_INCOMING then Some (sent_back DC_INCOMING reasonCode v) else None)"
| "handoff_spec (Return_case i reasonCode note) v =
     (if hv_status v \<in> {DC_ACTIVE, DC_DOCUMENTATION_READY, DC_RETURNED_TO_DOCUMENTATION}
      then Some (sent_back DC_RETURNED reasonCode v) else None)"
| "handoff_spec (Resend i note) v =
     (if \<not> hv_review v \<and> hv_status v \<in> {DC_INCOMING, DC_RETURNED} \<and> hv_state v \<in> {HS_RETURNED, HS_NONE}
         \<and> hv_reason v \<notin> {Some COMPLIANCE_ISSUE, Some DUPLICATE_CASE}
      then Some (v\<lparr>hv_status := DC_INCOMING, hv_state := HS_RESENT, hv_reason := None\<rparr>) else None)"
| "handoff_spec (Clear_review i note) v =
     (if hv_review v then Some (v\<lparr>hv_review := False, hv_state := HS_RETURNED\<rparr>) else None)"
| "handoff_spec (Confirm leadId presetId) v = None"

fun call_case :: "handoff_call \<Rightarrow> string" where
  "call_case (Confirm l p) = l"
| "call_case (Accept i) = i"
| "call_case (Reject i r n) = i"
| "call_case (Return_case i r n) = i"
| "call_case (Resend i n) = i"
| "call_case (Clear_review i n) = i"

fun call_event :: "handoff_call \<Rightarrow> DocEventType \<times> string" where
  "call_event (Confirm l p) = (HANDOFF_CREATED, ''HANDOFF_CREATED'')"
| "call_event (Accept i) = (HANDOFF_ACCEPTED, ''HANDOFF_ACCEPTED'')"
| "call_event (Reject i r n) = (HANDOFF_REJECTED, ''HANDOFF_REJECTED'')"
| "call_event (Return_case i r n) = (CASE_RETURNED, ''CASE_RETURNED'')"
| "call_event (Resend i n) = (HANDOFF_RESENT, ''HANDOFF_RESENT'')"
| "call_event (Clear_review i n) = (MANAGER_REVIEW_COMPLETED, ''MANAGER_REVIEW_COMPLETED'')"

definition is_confirm :: "handoff_call \<Rightarrow> bool" where
  "is_confirm call \<longleftrightarrow> (\<exists>l p. call = Confirm l p)"

lemma review_rule: "requiresManagerReviewAfterReturn n (Some r) \<longleftrightarrow> 2 \<le> n \<or> r \<in> {COMPLIANCE_ISSUE, DUPLICATE_CASE}"
  by (auto simp: requiresManagerReviewAfterReturn_def shouldRequireManagerReview_def
      MANAGER_REVIEW_RETURN_THRESHOLD_def ALWAYS_MANAGER_REVIEW_def)

lemma resend_reason:
  "allowed (checkResendAllowed r) \<Longrightarrow> returnReasonCode r \<notin> {Some COMPLIANCE_ISSUE, Some DUPLICATE_CASE}"
  by (auto simp: checkResendAllowed_def split: if_splits)

text \<open>Every method but the confirmation is one guarded write.\<close>

definition one_write :: "env \<Rightarrow> TenantContext \<Rightarrow> handoff_call \<Rightarrow> db \<Rightarrow> DocCase \<Rightarrow> db \<Rightarrow> bool" where
  "one_write E ctx call d c' d' \<longleftrightarrow>
     (\<exists>c f. loadCase ctx (call_case call) d = Inr c \<and> keeps_keys f \<and> handoff_spec call (view_of c) = Some (view_of (f c))
      \<and> (\<exists>q. find_first (\<lambda>c. dc_id c = call_case call) (docCases d) = Some q \<and> c' = f q)
      \<and> wrote E ctx (call_case call) f (fst (call_event call)) (snd (call_event call)) d d')"

lemma one_writeI:
  assumes "write_case E ctx i f ev p au ap d = Inr (c', d')" "loadCase ctx i d = Inr c"
    and "call_case call = i" "call_event call = (ev, au)" "keeps_keys f"
    and "handoff_spec call (view_of c) = Some (view_of (f c))"
  shows "one_write E ctx call d c' d'"
  unfolding one_write_def using write_case_Inr [OF assms(1)] assms(2-) by auto

lemma run_handoff_write:
  assumes "\<not> is_confirm call" "run_handoff E ctx call d = Inr (c', d')"
  shows "one_write E ctx call d c' d'"
proof (cases call)
  case (Confirm l p)
  then show ?thesis using assms(1) by (simp add: is_confirm_def)
next
  case (Accept i)
  from assms(2) show ?thesis
    unfolding Accept run_handoff.simps accept_case_def res_bind_Inr_iff assertAllowed_simps can_accept_iff
    by (elim exE conjE, elim one_writeI) (simp_all add: keeps_keys_def view_of_def)
next
  case (Reject i r n)
  from assms(2) show ?thesis
    unfolding Reject run_handoff.simps reject_case_def res_bind_Inr_iff assertAllowed_simps can_reject_iff Let_def
    by (elim exE conjE, elim one_writeI) (auto simp: keeps_keys_def view_of_def sent_back_def review_rule Let_def)
next
  case (Return_case i r n)
  from assms(2) show ?thesis
    unfolding Return_case run_handoff.simps returnAfterAcceptance_def res_bind_Inr_iff assertAllowed_simps can_return_iff Let_def
    by (elim exE conjE, elim one_writeI) (auto simp: keeps_keys_def view_of_def sent_back_def review_rule Let_def)
next
  case (Resend i n)
  from assms(2) show ?thesis
    unfolding Resend run_handoff.simps resend_case_def res_bind_Inr_iff assertAllowed_simps can_resend_iff Let_def
    by (elim exE conjE, elim one_writeI) (auto simp: keeps_keys_def view_of_def resend_context_def dest!: resend_reason)
next
  case (Clear_review i n)
  from assms(2) show ?thesis
    unfolding Clear_review run_handoff.simps clearManagerReview_def res_bind_Inr_iff
    by (elim exE conjE, elim one_writeI) (simp_all add: keeps_keys_def view_of_def)
qed

section \<open>Confirmation\<close>

lemma mint_loop_fresh: "mint_loop E cases i n = Inr number \<Longrightarrow> \<forall>c \<in> set cases. dc_caseNumber c \<noteq> Some number"
  by (induction n arbitrary: i) (auto simp: Let_def find_first_None split: if_splits)

lemma mint_loop_generated: "mint_loop E cases i n = Inr number \<Longrightarrow> \<exists>j. number = generateCaseNumber (ev_randomInt E j)"
  by (induction n arbitrary: i) (auto simp: Let_def split: if_splits)

lemma generated_not_empty: "generateCaseNumber draw \<noteq> []"
  by (simp add: generateCaseNumber_def)

lemma handed_off_keys [simp]:
  "dc_id (handed_off ctx n p ph t c) = dc_id c" "dc_tenantId (handed_off ctx n p ph t c) = dc_tenantId c"
  "dc_leadId (handed_off ctx n p ph t c) = dc_leadId c" "dc_deletedAt (handed_off ctx n p ph t c) = dc_deletedAt c"
  "dc_caseNumber (handed_off ctx n p ph t c) = Some n" "dc_handoffState (handed_off ctx n p ph t c) = HS_HANDED_OFF"
  "dc_status (handed_off ctx n p ph t c) = DC_INCOMING"
  by (simp_all add: handed_off_def)

definition lead_case :: "TenantContext \<Rightarrow> string \<Rightarrow> DocCase \<Rightarrow> bool" where
  "lead_case ctx leadId c \<longleftrightarrow> dc_tenantId c = tenantId ctx \<and> dc_leadId c = leadId \<and> dc_deletedAt c = None"

definition live_lead :: "TenantContext \<Rightarrow> string \<Rightarrow> Lead \<Rightarrow> bool" where
  "live_lead ctx leadId l \<longleftrightarrow> ld_id l = leadId \<and> ld_tenantId l = tenantId ctx \<and> ld_deletedAt l = None"

text \<open>
  A successful confirmation either finds the number it gave before, or gives a new one: to the
  live case of the lead if there is one, else to a new case.
\<close>

definition confirmed :: "env \<Rightarrow> TenantContext \<Rightarrow> string \<Rightarrow> string option \<Rightarrow> db \<Rightarrow> DocCase \<Rightarrow> db \<Rightarrow> bool" where
  "confirmed E ctx leadId presetId d c d' \<longleftrightarrow>
     (\<exists>lead number f. find_first (live_lead ctx leadId) (leads d) = Some lead \<and> ld_stage lead = LS_QUALIFIED
        \<and> (\<exists>j. number = generateCaseNumber (ev_randomInt E j)) \<and> (\<forall>q \<in> set (docCases d). dc_caseNumber q \<noteq> Some number)
        \<and> f = handed_off ctx number presetId (ld_phone lead) (ev_clock E 1)
        \<and> ((\<exists>q. find_first (lead_case ctx leadId) (docCases d) = Some q \<and> falsy (dc_caseNumber q) \<and> dc_handoffState q = HS_NONE
              \<and> (\<exists>q'. find_first (\<lambda>r. dc_id r = dc_id q) (docCases d) = Some q' \<and> c = f q')
              \<and> docCases d' = map (\<lambda>r. if dc_id r = dc_id q then f r else r) (docCases d))
           \<or> (find_first (lead_case ctx leadId) (docCases d) = None \<and> c = f (blank_case (ev_uuid E 2) ctx leadId presetId)
              \<and> (\<forall>q \<in> set (docCases d). dc_id q \<noteq> dc_id c \<and> (dc_tenantId q, dc_leadId q) \<noteq> (dc_tenantId c, dc_leadId c))
              \<and> docCases d' = docCases d @ [c]))
        \<and> leads d' = leads d
        \<and> (\<exists>e. caseEvents d' = caseEvents d @ [e] \<and> de_caseId e = dc_id c \<and> de_eventType e = HANDOFF_CREATED)
        \<and> logged d d' [(tenantId ctx, ''HANDOFF_CREATED'', dc_id c)]
        \<and> (env_law (ev_audit E) \<and> chain_ok (auditRows d) \<longrightarrow> chain_ok (auditRows d')))"

lemma confirm_write_Inr:
  assumes "confirm_write E ctx lead presetId existing d = Inr (c, d')"
    and "find_first (live_lead ctx leadId) (leads d) = Some lead" "ld_stage lead = LS_QUALIFIED"
    and "find_first (lead_case ctx leadId) (docCases d) = existing" "\<forall>q. existing = Some q \<longrightarrow> falsy (dc_caseNumber q)"
  shows "confirmed E ctx leadId presetId d c d'"
proof -
  have l: "ld_id lead = leadId" using find_first_SomeD [OF assms(2)] by (simp add: live_lead_def)
  from assms(1) obtain number cases where mint: "mintCaseNumber E (docCases d) = Inr number"
    and st: "\<forall>q. existing = Some q \<longrightarrow> dc_handoffState q = HS_NONE"
    and wr: "(case existing of
            Some q \<Rightarrow> update_row (\<lambda>r. dc_id r = dc_id q) (handed_off ctx number presetId (ld_phone lead) (ev_clock E 1)) (docCases d)
          | None \<Rightarrow> create_case (handed_off ctx number presetId (ld_phone lead) (ev_clock E 1) (blank_case (ev_uuid E 2) ctx (ld_id lead) presetId)) (docCases d)) = Inr (c, cases)"
    and au: "audit_tx E 4 (audit_input (tenantId ctx) ''HANDOFF_CREATED'' ''DocCase'' (dc_id c) (Some (userId ctx)) ''CREATE''
          [(''caseNumber'', JStr number), (''leadId'', JStr (ld_id lead))])
        (case_event E 3 (tenantId ctx) (dc_id c) HANDOFF_CREATED (Some (userId ctx))
          [(''caseNumber'', JStr number), (''leadId'', JStr (ld_id lead))] (d\<lparr>docCases := cases\<rparr>)) = Inr d'"
    unfolding confirm_write_def assertAllowed_simps can_confirm_iff Let_def
    by (cases existing) (auto simp: res_bind_Inr_iff can_confirm_iff)
  let ?f = "handed_off ctx number presetId (ld_phone lead) (ev_clock E 1)"
  have t: "docCases d' = cases" "leads d' = leads d"
    "\<exists>e. caseEvents d' = caseEvents d @ [e] \<and> de_caseId e = dc_id c \<and> de_eventType e = HANDOFF_CREATED"
    using audit_tx_tables [OF au] by (simp_all add: case_event_def)
  have "logged (case_event E 3 (tenantId ctx) (dc_id c) HANDOFF_CREATED (Some (userId ctx))
          [(''caseNumber'', JStr number), (''leadId'', JStr (ld_id lead))] (d\<lparr>docCases := cases\<rparr>)) d'
      [(tenantId ctx, ''HANDOFF_CREATED'', dc_id c)]"
    using logged_audit [OF au] by (simp add: audit_input_def)
  then have lg: "logged d d' [(tenantId ctx, ''HANDOFF_CREATED'', dc_id c)]" by (rule logged_cong) simp_all
  have ch: "env_law (ev_audit E) \<and> chain_ok (auditRows d) \<longrightarrow> chain_ok (auditRows d')"
    using audit_tx_chain [OF au] by simp
  have num: "\<exists>j. number = generateCaseNumber (ev_randomInt E j)" "\<forall>q \<in> set (docCases d). dc_caseNumber q \<noteq> Some number"
    using mint mint_loop_generated mint_loop_fresh unfolding mintCaseNumber_def by blast+
  show ?thesis
  proof (cases existing)
    case None
    then have "c = ?f (blank_case (ev_uuid E 2) ctx leadId presetId)" "docCases d' = docCases d @ [c]"
      "\<forall>q \<in> set (docCases d). dc_id q \<noteq> dc_id c \<and> (dc_tenantId q, dc_leadId q) \<noteq> (dc_tenantId c, dc_leadId c)"
      using wr t(1) l by (auto simp: create_case_def split: if_splits)
    then show ?thesis
      unfolding confirmed_def using assms(2-4) None num t(2,3) lg ch by blast
  next
    case (Some q)
    then have "\<exists>q'. find_first (\<lambda>r. dc_id r = dc_id q) (docCases d) = Some q' \<and> c = ?f q'"
      "docCases d' = map (\<lambda>r. if dc_id r = dc_id q then ?f r else r) (docCases d)"
      using wr t(1) by (auto simp: update_row_Inr update_many_def)
    then show ?thesis
      unfolding confirmed_def using assms(2-5) Some num t(2,3) lg ch st by blast
  qed
qed

lemma confirmHandoff_Inr:
  assumes "confirmHandoff E ctx leadId presetId d = Inr (c, d')"
  shows "(d' = d \<and> find_first (lead_case ctx leadId) (docCases d) = Some c \<and> \<not> falsy (dc_caseNumber c))
    \<or> confirmed E ctx leadId presetId d c d'"
proof -
  obtain lead where l: "find_first (live_lead ctx leadId) (leads d) = Some lead" "ld_stage lead = LS_QUALIFIED"
    and b: "(case find_first (lead_case ctx leadId) (docCases d) of
       Some c \<Rightarrow> if \<not> falsy (dc_caseNumber c) then Inr (c, d) else confirm_write E ctx lead presetId (Some c) d
     | None \<Rightarrow> confirm_write E ctx lead presetId None d) = Inr (c, d')"
    using assms unfolding confirmHandoff_def live_lead_def [abs_def] lead_case_def [abs_def] by (auto simp: res_bind_Inr_iff)
  show ?thesis
  proof (cases "find_first (lead_case ctx leadId) (docCases d)")
    case None
    then show ?thesis using b confirm_write_Inr [OF _ l] by simp
  next
    case (Some q)
    then show ?thesis using b confirm_write_Inr [OF _ l] by (auto split: if_splits)
  qed
qed

lemma cases_ok_snoc:
  "cases_ok cases \<Longrightarrow> \<forall>q \<in> set cases. dc_id q \<noteq> dc_id c \<and> (dc_tenantId q, dc_leadId q) \<noteq> (dc_tenantId c, dc_leadId c)
     \<and> dc_caseNumber q \<noteq> dc_caseNumber c \<Longrightarrow> cases_ok (cases @ [c])"
  by (auto simp: cases_ok_def numbers_def)

lemma cases_ok_number:
  assumes "cases_ok cases" "\<forall>q \<in> set cases. dc_caseNumber q \<noteq> Some number"
  shows "cases_ok (map (\<lambda>r. if dc_id r = i then handed_off ctx number p ph t r else r) cases)"
proof -
  let ?g = "\<lambda>r. if dc_id r = i then handed_off ctx number p ph t r else r"
  have "map dc_id (map ?g cases) = map dc_id cases"
    "map (\<lambda>c. (dc_tenantId c, dc_leadId c)) (map ?g cases) = map (\<lambda>c. (dc_tenantId c, dc_leadId c)) cases"
    by auto
  moreover have "distinct (numbers (map ?g cases))"
    using assms unfolding cases_ok_def numbers_def
  proof (induction cases)
    case (Cons c cs)
    have tail: "distinct (map dc_id cs)" "distinct (map (\<lambda>c. (dc_tenantId c, dc_leadId c)) cs)"
      "distinct (filter (\<lambda>n. n \<noteq> None) (map dc_caseNumber cs))" using Cons.prems(1) by (auto split: if_splits)
    then have IH: "distinct (filter (\<lambda>n. n \<noteq> None) (map dc_caseNumber (map ?g cs)))" using Cons by simp
    show ?case
    proof (cases "dc_id c = i")
      case True
      have nin: "dc_id c \<notin> set (map dc_id cs)" using Cons.prems(1) by (simp del: set_map)
      have "dc_id x \<noteq> i" if "x \<in> set cs" for x
        using nin imageI [OF that, of dc_id] unfolding True set_map by (intro notI) simp
      then have id: "map ?g cs = cs" by (simp add: map_idI)
      have "Some number \<notin> set (filter (\<lambda>n. n \<noteq> None) (map dc_caseNumber cs))" using Cons.prems(2) by auto
      then show ?thesis using True tail(3) id by (simp del: set_filter)
    next
      case False
      have nn: "dc_caseNumber c \<noteq> Some number" using Cons.prems(2) by simp
      have "n \<in> set (map dc_caseNumber (map ?g cs)) \<Longrightarrow> n \<in> set (map dc_caseNumber cs) \<or> n = Some number" for n
        by auto
      then have "dc_caseNumber c \<noteq> None \<Longrightarrow> dc_caseNumber c \<notin> set (filter (\<lambda>n. n \<noteq> None) (map dc_caseNumber (map ?g cs)))"
        using Cons.prems(1) nn by (auto split: if_splits)
      then show ?thesis using False IH by simp
    qed
  qed simp
  ultimately show ?thesis using assms(1) unfolding cases_ok_def by (simp del: map_map)
qed

lemma confirmed_cases_ok: "confirmed E ctx leadId presetId d c d' \<Longrightarrow> cases_ok (docCases d) \<Longrightarrow> cases_ok (docCases d')"
  by (auto simp: confirmed_def intro!: cases_ok_snoc cases_ok_number)

lemma run_handoff_cases_ok:
  assumes "run_handoff E ctx call d = Inr (c, d')" "cases_ok (docCases d)"
  shows "cases_ok (docCases d')"
proof (cases "is_confirm call")
  case True
  then show ?thesis using assms confirmHandoff_Inr confirmed_cases_ok by (fastforce simp: is_confirm_def)
next
  case False
  then show ?thesis
    using run_handoff_write [OF False assms(1)] assms(2) cases_ok_map by (auto simp: one_write_def wrote_def)
qed

lemma find_lead_case:
  assumes "cases_ok cases" "c \<in> set cases" "lead_case ctx l c"
  shows "find_first (lead_case ctx l) cases = Some c"
proof -
  obtain q where q: "find_first (lead_case ctx l) cases = Some q"
    using assms(2,3) find_first_None [of "lead_case ctx l" cases] by blast
  have "q \<in> set cases" "lead_case ctx l q" using find_first_SomeD [OF q] by simp_all
  then have "q = c" using assms by (auto simp: cases_ok_def distinct_map inj_on_def lead_case_def)
  then show ?thesis using q by simp
qed

lemma confirmed_found:
  assumes "confirmed E ctx leadId presetId d c d'" "cases_ok (docCases d)"
  shows "c \<in> set (docCases d')" "lead_case ctx leadId c" "\<not> falsy (dc_caseNumber c)"
proof -
  have "c \<in> set (docCases d') \<and> lead_case ctx leadId c \<and> \<not> falsy (dc_caseNumber c)"
    using assms(1) unfolding confirmed_def
  proof (elim exE conjE disjE)
    fix lead number f q q' j
    assume f: "f = handed_off ctx number presetId (ld_phone lead) (ev_clock E 1)" and n: "number = generateCaseNumber (ev_randomInt E j)"
      and q: "find_first (lead_case ctx leadId) (docCases d) = Some q" "find_first (\<lambda>r. dc_id r = dc_id q) (docCases d) = Some q'"
      and c: "c = f q'" and d': "docCases d' = map (\<lambda>r. if dc_id r = dc_id q then f r else r) (docCases d)"
    have qm: "q \<in> set (docCases d)" "lead_case ctx leadId q" using find_first_SomeD [OF q(1)] by simp_all
    then have "q' = q" using q(2) assms(2) find_first_id [of "docCases d" q "dc_id q"] by (simp add: cases_ok_def)
    then show ?thesis
      using c f d' qm generated_not_empty n by (auto simp: lead_case_def falsy_def)
  next
    fix lead number f j
    assume "f = handed_off ctx number presetId (ld_phone lead) (ev_clock E 1)" "number = generateCaseNumber (ev_randomInt E j)"
      "c = f (blank_case (ev_uuid E 2) ctx leadId presetId)" "docCases d' = docCases d @ [c]"
    then show ?thesis using generated_not_empty by (auto simp: lead_case_def falsy_def blank_case_def handed_off_def)
  qed
  then show "c \<in> set (docCases d')" "lead_case ctx leadId c" "\<not> falsy (dc_caseNumber c)" by simp_all
qed

lemma confirmHandoff_again:
  assumes "find_first (live_lead ctx leadId) (leads d) = Some lead" "ld_stage lead = LS_QUALIFIED"
    and "find_first (lead_case ctx leadId) (docCases d) = Some c" "\<not> falsy (dc_caseNumber c)"
  shows "confirmHandoff E ctx leadId presetId d = Inr (c, d)"
  using assms unfolding confirmHandoff_def live_lead_def [abs_def] lead_case_def [abs_def] by simp

lemma confirmHandoff_lead:
  assumes "confirmHandoff E ctx leadId presetId d = Inr r"
  shows "\<exists>lead. find_first (live_lead ctx leadId) (leads d) = Some lead \<and> ld_stage lead = LS_QUALIFIED"
  using assms unfolding confirmHandoff_def live_lead_def [abs_def] by (auto simp: res_bind_Inr_iff)

lemma chain_after_handoff:
  assumes "run_handoff E ctx call d = Inr (c, d')" "env_law (ev_audit E)" "chain_ok (auditRows d)"
  shows "chain_ok (auditRows d')"
proof (cases "is_confirm call")
  case True
  then show ?thesis using assms confirmHandoff_Inr by (fastforce simp: is_confirm_def confirmed_def)
next
  case False
  then show ?thesis using run_handoff_write [OF False assms(1)] assms(2,3) by (auto simp: one_write_def wrote_def)
qed

section \<open>Properties\<close>

text \<open>
  C5: the handoff methods implement the abstract handoff machine. A method other than the
  confirmation that succeeds found the live case of the caller's tenant, and moved its view
  exactly as the machine prescribes; it returned the row it stored, left every other case
  alone, and wrote one event and one audit row for the case.
\<close>

theorem handoff_refines_spec:
  assumes "cases_ok (docCases d)" "\<not> is_confirm call" "run_handoff E ctx call d = Inr (c', d')"
  shows "\<exists>c. c \<in> set (docCases d) \<and> live_case ctx (call_case call) c
    \<and> handoff_spec call (view_of c) = Some (view_of c')
    \<and> docCases d' = map (\<lambda>q. if q = c then c' else q) (docCases d)
    \<and> (\<exists>e. caseEvents d' = caseEvents d @ [e] \<and> de_caseId e = call_case call \<and> de_eventType e = fst (call_event call))
    \<and> logged d d' [(tenantId ctx, snd (call_event call), call_case call)]"
proof -
  obtain c f q where c: "loadCase ctx (call_case call) d = Inr c" "handoff_spec call (view_of c) = Some (view_of (f c))"
    and q: "find_first (\<lambda>c. dc_id c = call_case call) (docCases d) = Some q" "c' = f q"
    and w: "wrote E ctx (call_case call) f (fst (call_event call)) (snd (call_event call)) d d'"
    using run_handoff_write [OF assms(2,3)] unfolding one_write_def by blast
  note l = live_case_found [OF assms(1) c(1)]
  have qc: "q = c" using l(3) q(1) by simp
  have "dc_id r = call_case call \<longleftrightarrow> r = c" if "r \<in> set (docCases d)" for r
    using that l(1,2) assms(1) by (auto simp: cases_ok_def distinct_map inj_on_def live_case_def)
  then have "docCases d' = map (\<lambda>q. if q = c then c' else q) (docCases d)"
    using w q(2) qc by (auto simp: wrote_def)
  then show ?thesis using l c q qc w unfolding wrote_def by blast
qed

text \<open>
  C6: confirming twice gives one case number. Whatever a confirmation returned, a later one
  for the same lead returns the same case and changes nothing, with any clock, random source
  or preset.
\<close>

theorem confirm_idempotent:
  assumes "cases_ok (docCases d)" "confirmHandoff E ctx leadId presetId d = Inr (c, d')"
  shows "confirmHandoff E' ctx leadId presetId' d' = Inr (c, d') \<and> \<not> falsy (dc_caseNumber c)"
proof -
  obtain lead where l: "find_first (live_lead ctx leadId) (leads d) = Some lead" "ld_stage lead = LS_QUALIFIED"
    using confirmHandoff_lead [OF assms(2)] by blast
  from confirmHandoff_Inr [OF assms(2)] show ?thesis
  proof
    assume "d' = d \<and> find_first (lead_case ctx leadId) (docCases d) = Some c \<and> \<not> falsy (dc_caseNumber c)"
    then show ?thesis using confirmHandoff_again [OF l] by simp
  next
    assume co: "confirmed E ctx leadId presetId d c d'"
    note f = confirmed_found [OF co assms(1)]
    have "leads d' = leads d" using co by (auto simp: confirmed_def)
    then show ?thesis
      using confirmHandoff_again [of ctx leadId d' lead c E' presetId'] l f
        find_lead_case [OF confirmed_cases_ok [OF co assms(1)] f(1,2)] by simp
  qed
qed

text \<open>
  a case returned as a duplicate or for compliance cannot be resent, not even after a
  manager has cleared the review: clearing keeps the reason, and the reason always denies.
\<close>

theorem cleared_review_still_blocks:
  assumes "cases_ok (docCases d)" "clearManagerReview E ctx i note d = Inr (c, d')"
    and "dc_returnReasonCode c = Some COMPLIANCE_ISSUE \<or> dc_returnReasonCode c = Some DUPLICATE_CASE"
  shows "\<exists>e. resend_case E' ctx i note' d' = Inl e"
proof (rule ccontr)
  assume "\<nexists>e. resend_case E' ctx i note' d' = Inl e"
  then obtain c2 d2 where r: "resend_case E' ctx i note' d' = Inr (c2, d2)"
    by (cases "resend_case E' ctx i note' d'") auto
  have ok: "cases_ok (docCases d')" using run_handoff_cases_ok [of E ctx "Clear_review i note" d c d'] assms(1,2) by simp
  obtain c0 f where c0: "loadCase ctx i d' = Inr c0" "handoff_spec (Resend i note') (view_of c0) = Some (view_of (f c0))"
    using run_handoff_write [of "Resend i note'" E' ctx d' c2 d2] r by (auto simp: is_confirm_def one_write_def)
  obtain g h q where q: "loadCase ctx i d = Inr g" "find_first (\<lambda>c. dc_id c = i) (docCases d) = Some q" "c = h q"
    "docCases d' = map (\<lambda>c. if dc_id c = i then h c else c) (docCases d)" "keeps_keys h"
    using run_handoff_write [of "Clear_review i note" E ctx d c d'] assms(2) by (auto simp: is_confirm_def one_write_def wrote_def)
  have "q \<in> set (docCases d)" "dc_id q = i" using find_first_SomeD [OF q(2)] by simp_all
  then have "c \<in> set (docCases d')" "dc_id c = i" using q(3,4,5) by (auto simp: keeps_keys_def)
  then have "find_first (\<lambda>c. dc_id c = i) (docCases d') = Some c" using ok by (intro find_first_id) (simp_all add: cases_ok_def)
  then have "c0 = c" using live_case_found(3) [OF ok c0(1)] by simp
  then show False using c0(2) assms(3) by (auto simp: view_of_def split: if_splits)
qed

text \<open>
  The guard of acceptance looks at the status alone. A handoff that Documentation rejected
  stays incoming, so it can be accepted without being resent, also while a manager has still
  to review it; clearing the review then marks a case that is being worked on as returned.
\<close>

lemma accepted_under_review:
  assumes "loadCase ctx i d = Inr c" "dc_status c = DC_INCOMING" "dc_handoffState c = HS_MANAGER_REVIEW_REQUIRED"
  shows "handoff_spec (Accept i) (view_of c) =
      Some ((view_of c)\<lparr>hv_status := DC_ACTIVE, hv_state := HS_ACCEPTED\<rparr>)
    \<and> (dc_managerReviewRequired c \<longrightarrow>
        handoff_spec (Clear_review i note) ((view_of c)\<lparr>hv_status := DC_ACTIVE, hv_state := HS_ACCEPTED\<rparr>) =
        Some ((view_of c)\<lparr>hv_status := DC_ACTIVE, hv_state := HS_RETURNED, hv_review := False\<rparr>))"
  using assms by (simp add: view_of_def)

section \<open>A concrete database\<close>

definition lead_one :: Lead where
  "lead_one = \<lparr>ld_id = ''l1'', ld_tenantId = ''t1'', ld_firstName = ''Ann'', ld_lastName = ''Lee'', ld_email = Some ''ann@x.org'',
     ld_phone = Some ''9876543210'', ld_ownerId = None, ld_stage = LS_QUALIFIED, ld_deletedAt = None\<rparr>"

definition db_one :: db where
  "db_one = empty_db\<lparr>leads := [lead_one]\<rparr>"

definition case_one :: DocCase where
  "case_one = handed_off ctx_one ''HPX-ABCD-2345'' None (Some ''9876543210'') 1777550400000 (blank_case ''c1'' ctx_one ''l1'' None)"

definition db_two :: db where
  "db_two = db_one\<lparr>docCases := [case_one]\<rparr>"

definition after_call :: "nat \<Rightarrow> handoff_call \<Rightarrow> db \<Rightarrow> db" where
  "after_call n call d = snd (projr (run_handoff (env_at n) ctx_one call d))"

lemma db_two_ok: "cases_ok (docCases db_two)"
  by code_simp

lemma accepts: "run_handoff (env_at 1) ctx_one (Accept ''c1'') db_two =
    Inr (hd (docCases (after_call 1 (Accept ''c1'') db_two)), after_call 1 (Accept ''c1'') db_two)"
  by code_simp

theorem handoff_refines_spec_witness:
  "\<exists>c'. docCases (after_call 1 (Accept ''c1'') db_two) = map (\<lambda>q. if q = case_one then c' else q) (docCases db_two)
     \<and> hv_status (view_of c') = DC_ACTIVE"
proof -
  have n: "\<not> is_confirm (Accept ''c1'')" by (simp add: is_confirm_def)
  have m: "docCases db_two = [case_one]" by (simp add: db_two_def)
  have s: "hv_status (view_of case_one) = DC_INCOMING" by code_simp
  let ?c' = "hd (docCases (after_call 1 (Accept ''c1'') db_two))"
  have "handoff_spec (Accept ''c1'') (view_of case_one) = Some (view_of ?c')
      \<and> docCases (after_call 1 (Accept ''c1'') db_two) = map (\<lambda>q. if q = case_one then ?c' else q) (docCases db_two)"
    using handoff_refines_spec [OF db_two_ok n accepts] m by auto
  moreover from this have "hv_status (view_of ?c') = DC_ACTIVE" using s by (metis handoff_view.select_convs(1) handoff_view.surjective handoff_view.update_convs(1,2) handoff_spec.simps(1) option.inject)
  ultimately show ?thesis by blast
qed

theorem confirm_idempotent_witness:
  "\<exists>c d'. confirmHandoff env_one ctx_one ''l1'' None db_one = Inr (c, d') \<and> confirmHandoff env_one ctx_one ''l1'' (Some ''p'') d' = Inr (c, d')"
proof -
  have ok: "cases_ok (docCases db_one)" by code_simp
  have "\<not> isl (confirmHandoff env_one ctx_one ''l1'' None db_one)" by code_simp
  then obtain c d' where c: "confirmHandoff env_one ctx_one ''l1'' None db_one = Inr (c, d')"
    by (cases "confirmHandoff env_one ctx_one ''l1'' None db_one") auto
  show ?thesis using confirm_idempotent [OF ok c] c by blast
qed

definition db_compliance :: db where
  "db_compliance = after_call 1 (Reject ''c1'' COMPLIANCE_ISSUE ''missing consent'') db_two"

text \<open>The sequence of methods that leaves an active case marked as returned.\<close>

lemma active_case_marked_returned:
  "map (\<lambda>c. (dc_status c, dc_handoffState c))
     (docCases (after_call 3 (Clear_review ''c1'' ''checked'') (after_call 2 (Accept ''c1'') db_compliance)))
   = [(DC_ACTIVE, HS_RETURNED)]"
  by code_simp

end
