(* ===== verification/Process_Service.thy ===== *)
theory Process_Service
  imports Case_Store
begin

text \<open>
  The Documentation to Process handover: \<^verbatim>\<open>src/src/services/process-handoff.service.ts\<close>
  and, from \<^verbatim>\<open>src/src/services/documentation.service.ts\<close>, the methods
  \<^verbatim>\<open>transferToProcess\<close> and \<^verbatim>\<open>managerOverride\<close>. Each method reads the case and checks
  it, and then writes with an update whose \<^verbatim>\<open>where\<close> clause repeats the check. The read and
  the write are separate definitions, because another transaction may commit between them.
\<close>

section \<open>The preconditioned write\<close>

definition ph_where :: "TenantContext \<Rightarrow> string \<Rightarrow> StatusPrecondition \<Rightarrow> DocCase \<Rightarrow> bool" where
  "ph_where ctx caseId pre c \<longleftrightarrow> live_case ctx caseId c
     \<and> dc_status c \<in> set (pre_status pre) \<and> dc_processHandoffState c \<in> set (pre_processHandoffState pre)"

definition claim_case ::
  "env \<Rightarrow> TenantContext \<Rightarrow> string \<Rightarrow> ProcessHandoffAction \<Rightarrow> (DocCase \<Rightarrow> DocCase) \<Rightarrow> DocEventType
     \<Rightarrow> (string \<times> jsval) list \<Rightarrow> string \<Rightarrow> (string \<times> jsval) list \<Rightarrow> DocCase option tx" where
  "claim_case E ctx caseId action f eventType eventPayload auditEvent auditPayload d =
     (let result = update_many (ph_where ctx caseId (precondition action)) f (docCases d)
      in if snd result = 0 then Inl ConflictError
         else let d1 = case_event E 8 (tenantId ctx) caseId eventType (Some (userId ctx)) eventPayload
                (d\<lparr>docCases := fst result\<rparr>)
              in res_bind (audit_tx E 9 (audit_input (tenantId ctx) auditEvent ''DocCase'' caseId (Some (userId ctx))
                   ''UPDATE'' auditPayload) d1) (\<lambda>d2.
                 Inr (find_first (\<lambda>c. dc_id c = caseId) (docCases d2), d2)))"

section \<open>Methods\<close>

text \<open>The read of a method: the case, when the state machine allows the action.\<close>

definition ph_check :: "ProcessHandoffAction \<Rightarrow> TenantContext \<Rightarrow> string \<Rightarrow> db \<Rightarrow> app_error + DocCase" where
  "ph_check action ctx caseId d =
     res_bind (loadCase ctx caseId d) (\<lambda>docCase.
     let check = ph_canTransition action (dc_status docCase) (dc_processHandoffState docCase)
     in res_bind (ensure (allowed check) (BusinessRuleViolationError (or_empty (reason check)))) (\<lambda>_.
     Inr docCase))"

definition accept_write :: "env \<Rightarrow> TenantContext \<Rightarrow> string \<Rightarrow> DocCase \<Rightarrow> DocCase option tx" where
  "accept_write E ctx caseId docCase =
     (let now = ev_clock E 1;
          assignee = or_else (dc_processAssignedTo docCase) (userId ctx)
      in claim_case E ctx caseId P_ACCEPT
           (\<lambda>c. c\<lparr>dc_status := DC_TRANSFERRED_TO_PROCESS, dc_processHandoffState := PH_ACCEPTED,
                  dc_processAcceptedAt := Some now, dc_processAcceptedBy := Some (userId ctx),
                  dc_processAssignedTo := Some assignee\<rparr>)
           PROCESS_HANDOFF_ACCEPTED [] ''PROCESS_HANDOFF_ACCEPTED''
           [(''caseNumber'', jopt (dc_caseNumber docCase)), (''processAssignedTo'', JStr assignee)])"

definition accept_process :: "env \<Rightarrow> TenantContext \<Rightarrow> string \<Rightarrow> DocCase option tx" where
  "accept_process E ctx caseId d =
     res_bind (ph_check P_ACCEPT ctx caseId d) (\<lambda>docCase. accept_write E ctx caseId docCase d)"

text \<open>The count is incremented in the row; the audit payload adds one to the count read before.\<close>

definition return_write :: "env \<Rightarrow> TenantContext \<Rightarrow> string \<Rightarrow> string \<Rightarrow> string \<Rightarrow> DocCase \<Rightarrow> DocCase option tx" where
  "return_write E ctx caseId reasonCode note docCase =
     (let now = ev_clock E 1
      in claim_case E ctx caseId P_RETURN
           (\<lambda>c. c\<lparr>dc_status := DC_RETURNED_TO_DOCUMENTATION, dc_processHandoffState := PH_RETURNED,
                  dc_processReturnedAt := Some now, dc_processReturnCount := dc_processReturnCount c + 1,
                  dc_processReturnReasonCode := process_reason reasonCode,
                  dc_processReturnReasonNote := (if trim note = [] then None else Some (trim note))\<rparr>)
           PROCESS_HANDOFF_RETURNED [(''reasonCode'', JStr reasonCode), (''hasNote'', JBool (trim note \<noteq> []))]
           ''PROCESS_HANDOFF_RETURNED''
           [(''caseNumber'', jopt (dc_caseNumber docCase)), (''reasonCode'', JStr reasonCode),
            (''processReturnCount'', jint (dc_processReturnCount docCase + 1))])"

definition returnToDocumentation :: "env \<Rightarrow> TenantContext \<Rightarrow> string \<Rightarrow> string \<Rightarrow> string \<Rightarrow> DocCase option tx" where
  "returnToDocumentation E ctx caseId reasonCode note d =
     (let reasonCheck = checkReturnReason (Some reasonCode) (Some note)
      in res_bind (ensure (allowed reasonCheck) (ValidationError (or_empty (reason reasonCheck)))) (\<lambda>_.
         res_bind (ph_check P_RETURN ctx caseId d) (\<lambda>docCase. return_write E ctx caseId reasonCode note docCase d)))"

definition transfer_check :: "TenantContext \<Rightarrow> string \<Rightarrow> db \<Rightarrow> app_error + DocCase" where
  "transfer_check ctx caseId d =
     res_bind (ph_check P_TRANSFER ctx caseId d) (\<lambda>docCase.
     res_bind (ensure (dc_isReady docCase
          \<or> find_first (\<lambda>m. mo_caseId m = caseId \<and> mo_tenantId m = tenantId ctx) (managerOverrides d) \<noteq> None)
        (BusinessRuleViolationError ''Case is not ready for Process and has no manager override.'')) (\<lambda>_.
     Inr docCase))"

definition transfer_write :: "env \<Rightarrow> TenantContext \<Rightarrow> string \<Rightarrow> string option \<Rightarrow> DocCase option tx" where
  "transfer_write E ctx caseId remarks =
     (let now = ev_clock E 1;
          trimmed = (if trim (or_empty remarks) = [] then None else Some (trim (or_empty remarks)))
      in claim_case E ctx caseId P_TRANSFER
           (\<lambda>c. c\<lparr>dc_status := DC_PENDING_PROCESS_REVIEW, dc_processHandoffState := PH_PENDING_REVIEW,
                  dc_processHandoffAt := Some now, dc_processHandoffBy := Some (userId ctx),
                  dc_handoverRemarks := trimmed, dc_transferredAt := Some now, dc_transferredBy := Some (userId ctx)\<rparr>)
           PROCESS_REVIEW_REQUESTED [(''transferredAt'', JStr (iso_string now)), (''remarks'', jopt trimmed)]
           ''DOC_CASE_PROCESS_REVIEW_REQUESTED''
           [(''status'', JStr ''PENDING_PROCESS_REVIEW''), (''hasRemarks'', JBool (trimmed \<noteq> None))])"

definition transferToProcess :: "env \<Rightarrow> TenantContext \<Rightarrow> string \<Rightarrow> string option \<Rightarrow> DocCase option tx" where
  "transferToProcess E ctx caseId remarks d =
     res_bind (transfer_check ctx caseId d) (\<lambda>_. transfer_write E ctx caseId remarks d)"

text \<open>The override asks for a reason and a live case, and for nothing of the state of the case.\<close>

definition managerOverride :: "env \<Rightarrow> TenantContext \<Rightarrow> string \<Rightarrow> string \<Rightarrow> date option \<Rightarrow> DocManagerOverride tx" where
  "managerOverride E ctx caseId note expiresAt d =
     res_bind (ensure (trim note \<noteq> []) (ValidationError ''Override reason is required.'')) (\<lambda>_.
     res_bind (loadCase ctx caseId d) (\<lambda>docCase.
     let override = \<lparr>mo_id = ev_uuid E 1, mo_tenantId = tenantId ctx, mo_caseId = caseId, mo_overriddenBy = userId ctx,
           mo_reason = trim note, mo_allowedAt = ev_clock E 1, mo_expiresAt = expiresAt\<rparr>
     in res_bind (update_row (\<lambda>c. dc_id c = caseId) (\<lambda>c. c\<lparr>dc_isReady := True, dc_status := DC_DOCUMENTATION_READY\<rparr>)
          (docCases d)) (\<lambda>(_, cases).
     let e = \<lparr>de_id = ev_uuid E 2, de_tenantId = tenantId ctx, de_caseId = caseId, de_eventType = MANAGER_OVERRIDE,
           de_actorUserId = Some (userId ctx), de_remarks = Some note, de_payload = JObj [], de_createdAt = ev_clock E 2, de_documentId = None, de_fromStatus = None, de_toStatus = None\<rparr>
     in res_bind (audit_log_tx E 3 (audit_input (tenantId ctx) ''DOC_MANAGER_OVERRIDE'' ''DocCase'' caseId (Some (userId ctx))
            ''UPDATE'' [(''reason'', JStr note)])
          (d\<lparr>managerOverrides := managerOverrides d @ [override], docCases := cases, caseEvents := caseEvents d @ [e]\<rparr>)) (\<lambda>d2.
     Inr (override, d2)))))"

section \<open>The queue of Process\<close>

record ProcessQueue =
  pq_cases :: "(DocCase \<times> string option) list"
  pq_incoming :: nat
  pq_processing :: nat
  pq_returned :: nat

definition nameOf :: "User \<Rightarrow> string" where
  "nameOf u =
     (let joined = full_name (or_empty (us_firstName u)) (or_empty (us_lastName u))
      in if joined = [] then us_email u else joined)"

definition with_status :: "TenantContext \<Rightarrow> DocCaseStatus \<Rightarrow> DocCase \<Rightarrow> bool" where
  "with_status ctx s c \<longleftrightarrow> dc_tenantId c = tenantId ctx \<and> dc_status c = s \<and> dc_deletedAt c = None"

definition listPendingForProcess :: "TenantContext \<Rightarrow> db \<Rightarrow> ProcessQueue" where
  "listPendingForProcess ctx d =
     (let rows = filter (with_status ctx DC_PENDING_PROCESS_REVIEW) (docCases d);
          cases = sort_key (\<lambda>c. or_else (dc_processHandoffAt c) 0) (filter (\<lambda>c. dc_processHandoffAt c \<noteq> None) rows)
                    @ filter (\<lambda>c. dc_processHandoffAt c = None) rows;
          byIds = remdups (filter (\<lambda>i. i \<noteq> []) (map (\<lambda>c. or_empty (dc_processHandoffBy c)) cases));
          us = filter (\<lambda>u. us_id u \<in> set byIds \<and> us_tenantId u = tenantId ctx) (users d);
          nameById = map_of (rev (map (\<lambda>u. (us_id u, nameOf u)) us));
          n = (\<lambda>s. count_rows (with_status ctx s) (docCases d))
      in \<lparr>pq_cases = map (\<lambda>c. (c, if falsy (dc_processHandoffBy c) then None else nameById (or_empty (dc_processHandoffBy c)))) cases,
          pq_incoming = n DC_PENDING_PROCESS_REVIEW, pq_processing = n DC_TRANSFERRED_TO_PROCESS,
          pq_returned = n DC_RETURNED_TO_DOCUMENTATION\<rparr>)"

section \<open>What a claim does\<close>

lemma ph_where_live: "ph_where ctx caseId pre c \<Longrightarrow> live_case ctx caseId c \<and> dc_id c = caseId"
  by (simp add: ph_where_def live_case_def)

lemma claim_case_Inr:
  assumes "claim_case E ctx caseId action f ev evp au aup d = Inr (r, d')"
    and ok: "cases_ok (docCases d)" and keys: "keeps_keys f"
  shows "\<exists>c \<in> set (docCases d). ph_where ctx caseId (precondition action) c \<and> r = Some (f c) \<and> wrote E ctx caseId f ev au d d'"
proof -
  let ?w = "ph_where ctx caseId (precondition action)"
  from assms(1) obtain d1 where n: "snd (update_many ?w f (docCases d)) \<noteq> 0"
    and d1: "d1 = case_event E 8 (tenantId ctx) caseId ev (Some (userId ctx)) evp (d\<lparr>docCases := fst (update_many ?w f (docCases d))\<rparr>)"
    and a: "audit_tx E 9 (audit_input (tenantId ctx) au ''DocCase'' caseId (Some (userId ctx)) ''UPDATE'' aup) d1 = Inr d'"
    and r: "r = find_first (\<lambda>c. dc_id c = caseId) (docCases d')"
    by (auto simp: claim_case_def Let_def res_bind_Inr_iff split: if_splits)
  from n obtain c where c: "c \<in> set (docCases d)" "?w c" by (auto simp: tbl.zero_iff)
  have only: "q = c" if "q \<in> set (docCases d)" "dc_id q = caseId" for q
    using that same_case [OF ok c(1), of q] ph_where_live [OF c(2)] by simp
  have same: "map (\<lambda>q. if ?w q then f q else q) (docCases d) = map (\<lambda>q. if dc_id q = caseId then f q else q) (docCases d)"
    using only c(2) ph_where_live by (intro map_cong) auto
  have tables: "docCases d' = map (\<lambda>q. if dc_id q = caseId then f q else q) (docCases d)"
    using audit_tx_tables [OF a] same by (simp add: d1 update_many_def)
  have "f c \<in> set (docCases d')" using c ph_where_live [OF c(2)] by (force simp: tables)
  moreover have "distinct (map dc_id (docCases d'))"
    using cases_ok_map [OF keys ok, of "\<lambda>q. dc_id q = caseId"] by (simp add: tables cases_ok_def)
  moreover have "dc_id (f c) = caseId" using keys ph_where_live [OF c(2)] by (simp add: keeps_keys_def)
  ultimately have "r = Some (f c)" using find_first_id r by blast
  moreover have "wrote E ctx caseId f ev au d d'"
    using audit_tx_tables [OF a] logged_cong [OF logged_audit [OF a], of d d'] audit_tx_chain [OF a]
    by (auto simp: wrote_def d1 case_event_def update_many_def same audit_input_def)
  ultimately show ?thesis using c by blast
qed

section \<open>The methods as one operation\<close>

datatype process_call = Transfer string "string option" | Accept_p string | Return_p string string string

fun pcall_case :: "process_call \<Rightarrow> string" where
  "pcall_case (Transfer i remarks) = i"
| "pcall_case (Accept_p i) = i"
| "pcall_case (Return_p i reasonCode memo) = i"

fun pcall_action :: "process_call \<Rightarrow> ProcessHandoffAction" where
  "pcall_action (Transfer i remarks) = P_TRANSFER"
| "pcall_action (Accept_p i) = P_ACCEPT"
| "pcall_action (Return_p i reasonCode memo) = P_RETURN"

text \<open>The write of a method, given the case its read returned.\<close>

fun process_write :: "env \<Rightarrow> TenantContext \<Rightarrow> process_call \<Rightarrow> DocCase \<Rightarrow> DocCase option tx" where
  "process_write E ctx (Transfer i remarks) c = transfer_write E ctx i remarks"
| "process_write E ctx (Accept_p i) c = accept_write E ctx i c"
| "process_write E ctx (Return_p i reasonCode memo) c = return_write E ctx i reasonCode memo c"

fun run_process :: "env \<Rightarrow> TenantContext \<Rightarrow> process_call \<Rightarrow> DocCase option tx" where
  "run_process E ctx (Transfer i remarks) = transferToProcess E ctx i remarks"
| "run_process E ctx (Accept_p i) = accept_process E ctx i"
| "run_process E ctx (Return_p i reasonCode memo) = returnToDocumentation E ctx i reasonCode memo"

text \<open>The contract: who owns the case, how often Process sent it back, who has it in Process.\<close>

record process_view =
  pv_status :: DocCaseStatus
  pv_state :: ProcessHandoffState
  pv_returns :: int
  pv_assignee :: "string option"

definition pview :: "DocCase \<Rightarrow> process_view" where
  "pview c = \<lparr>pv_status = dc_status c, pv_state = dc_processHandoffState c, pv_returns = dc_processReturnCount c,
     pv_assignee = dc_processAssignedTo c\<rparr>"

fun process_spec :: "string \<Rightarrow> process_call \<Rightarrow> process_view \<Rightarrow> process_view option" where
  "process_spec actor (Transfer i remarks) v =
     (if pv_status v \<in> {DC_ACTIVE, DC_DOCUMENTATION_READY, DC_RETURNED_TO_DOCUMENTATION} \<and> pv_state v \<in> {PH_NONE, PH_RETURNED}
      then Some (v\<lparr>pv_status := DC_PENDING_PROCESS_REVIEW, pv_state := PH_PENDING_REVIEW\<rparr>) else None)"
| "process_spec actor (Accept_p i) v =
     (if pv_status v = DC_PENDING_PROCESS_REVIEW \<and> pv_state v = PH_PENDING_REVIEW
      then Some (v\<lparr>pv_status := DC_TRANSFERRED_TO_PROCESS, pv_state := PH_ACCEPTED,
                  pv_assignee := Some (or_else (pv_assignee v) actor)\<rparr>) else None)"
| "process_spec actor (Return_p i reasonCode memo) v =
     (if pv_status v = DC_PENDING_PROCESS_REVIEW \<and> pv_state v = PH_PENDING_REVIEW
      then Some (v\<lparr>pv_status := DC_RETURNED_TO_DOCUMENTATION, pv_state := PH_RETURNED, pv_returns := pv_returns v + 1\<rparr>)
      else None)"

fun pcall_event :: "process_call \<Rightarrow> DocEventType \<times> string" where
  "pcall_event (Transfer i remarks) = (PROCESS_REVIEW_REQUESTED, ''DOC_CASE_PROCESS_REVIEW_REQUESTED'')"
| "pcall_event (Accept_p i) = (PROCESS_HANDOFF_ACCEPTED, ''PROCESS_HANDOFF_ACCEPTED'')"
| "pcall_event (Return_p i reasonCode memo) = (PROCESS_HANDOFF_RETURNED, ''PROCESS_HANDOFF_RETURNED'')"

lemma ph_check_Inr:
  "ph_check action ctx caseId d = Inr c \<longleftrightarrow>
     loadCase ctx caseId d = Inr c \<and> allowed (ph_canTransition action (dc_status c) (dc_processHandoffState c))"
  by (auto simp: ph_check_def res_bind_Inr_iff Let_def)

text \<open>Where each action leaves the handover.\<close>

fun lands_in :: "ProcessHandoffAction \<Rightarrow> ProcessHandoffState" where
  "lands_in P_TRANSFER = PH_PENDING_REVIEW"
| "lands_in P_ACCEPT = PH_ACCEPTED"
| "lands_in P_RETURN = PH_RETURNED"

fun owned_as :: "ProcessHandoffAction \<Rightarrow> DocCaseStatus" where
  "owned_as P_TRANSFER = DC_PENDING_PROCESS_REVIEW"
| "owned_as P_ACCEPT = DC_TRANSFERRED_TO_PROCESS"
| "owned_as P_RETURN = DC_RETURNED_TO_DOCUMENTATION"

text \<open>Every write is a claim with a fixed action, event and update.\<close>

definition claims :: "env \<Rightarrow> TenantContext \<Rightarrow> process_call \<Rightarrow> db \<Rightarrow> DocCase \<Rightarrow> DocCase \<Rightarrow> db \<Rightarrow> bool" where
  "claims E ctx call d c c' d' \<longleftrightarrow>
     c \<in> set (docCases d) \<and> live_case ctx (pcall_case call) c
     \<and> dc_processHandoffState c' = lands_in (pcall_action call) \<and> dc_status c' = owned_as (pcall_action call)
     \<and> (\<exists>f. c' = f c \<and> keeps_keys f \<and> wrote E ctx (pcall_case call) f (fst (pcall_event call)) (snd (pcall_event call)) d d')"

lemma claimI:
  assumes "claim_case E ctx i action f ev evp au aup d = Inr (r, d')" "cases_ok (docCases d)" "keeps_keys f"
    and call: "pcall_case call = i" "pcall_action call = action" "pcall_event call = (ev, au)"
    and lands: "\<And>c. dc_processHandoffState (f c) = lands_in action \<and> dc_status (f c) = owned_as action"
    and spec: "\<And>c. ph_where ctx i (precondition action) c \<Longrightarrow> P c \<Longrightarrow> process_spec (userId ctx) call (pview c) = Some (pview (f c))"
  shows "\<exists>c c'. claims E ctx call d c c' d' \<and> r = Some c' \<and> ph_where ctx (pcall_case call) (precondition (pcall_action call)) c
    \<and> (P c \<longrightarrow> process_spec (userId ctx) call (pview c) = Some (pview c'))"
proof -
  from claim_case_Inr [OF assms(1-3)] obtain c where c: "c \<in> set (docCases d)" "ph_where ctx i (precondition action) c"
    "r = Some (f c)" "wrote E ctx i f ev au d d'" by blast
  then have "claims E ctx call d c (f c) d'" using assms(3) call lands ph_where_live by (auto simp: claims_def)
  then show ?thesis using c call spec by blast
qed

lemma process_write_Inr:
  assumes "process_write E ctx call c0 d = Inr (r, d')" "cases_ok (docCases d)"
  shows "\<exists>c c'. claims E ctx call d c c' d' \<and> r = Some c' \<and> ph_where ctx (pcall_case call) (precondition (pcall_action call)) c
    \<and> (dc_processAssignedTo c0 = dc_processAssignedTo c \<longrightarrow> process_spec (userId ctx) call (pview c) = Some (pview c'))"
proof (cases call)
  case (Transfer i remarks)
  from assms(1) [unfolded Transfer process_write.simps transfer_write_def Let_def] show ?thesis
    by (rule claimI [OF _ assms(2)])
       (auto simp: Transfer keeps_keys_def ph_where_def pview_def)
next
  case (Accept_p i)
  from assms(1) [unfolded Accept_p process_write.simps accept_write_def Let_def] show ?thesis
    by (rule claimI [OF _ assms(2)])
       (auto simp: Accept_p keeps_keys_def ph_where_def pview_def)
next
  case (Return_p i reasonCode memo)
  from assms(1) [unfolded Return_p process_write.simps return_write_def Let_def] show ?thesis
    by (rule claimI [OF _ assms(2)])
       (auto simp: Return_p keeps_keys_def ph_where_def pview_def)
qed

lemma run_process_Inr:
  assumes "run_process E ctx call d = Inr (r, d')"
  shows "\<exists>c. loadCase ctx (pcall_case call) d = Inr c \<and> process_write E ctx call c d = Inr (r, d')"
proof (cases call)
  case (Transfer i remarks)
  from assms show ?thesis
    unfolding Transfer run_process.simps transferToProcess_def transfer_check_def res_bind_Inr_iff ph_check_Inr
    by (elim exE conjE) simp
next
  case (Accept_p i)
  from assms show ?thesis
    unfolding Accept_p run_process.simps accept_process_def res_bind_Inr_iff ph_check_Inr by (elim exE conjE) simp
next
  case (Return_p i reasonCode memo)
  from assms show ?thesis
    unfolding Return_p run_process.simps returnToDocumentation_def res_bind_Inr_iff ph_check_Inr Let_def
    by (elim exE conjE) simp
qed

lemma claims_map:
  assumes "claims E ctx call d c c' d'" "cases_ok (docCases d)"
  shows "docCases d' = map (\<lambda>q. if q = c then c' else q) (docCases d)" "cases_ok (docCases d')"
proof -
  from assms(1) obtain f where f: "c' = f c" "keeps_keys f" "c \<in> set (docCases d)" "dc_id c = pcall_case call"
    and d': "docCases d' = map (\<lambda>q. if dc_id q = pcall_case call then f q else q) (docCases d)"
    by (auto simp: claims_def wrote_def live_case_def)
  show "docCases d' = map (\<lambda>q. if q = c then c' else q) (docCases d)"
    unfolding d' f(1) by (rule map_one_case [OF assms(2) f(3,4)])
  show "cases_ok (docCases d')" unfolding d' by (rule cases_ok_map [OF f(2) assms(2)])
qed

text \<open>What lets a transfer through: an override counts whatever its expiry date.\<close>

lemma transfer_check_Inr:
  "transfer_check ctx i d = Inr c \<longleftrightarrow> ph_check P_TRANSFER ctx i d = Inr c
     \<and> (dc_isReady c \<or> (\<exists>m \<in> set (managerOverrides d). mo_caseId m = i \<and> mo_tenantId m = tenantId ctx))"
  by (auto simp: transfer_check_def res_bind_Inr_iff find_first_None)

lemma managerOverride_Inr:
  assumes "managerOverride E ctx i memo t d = Inr (m, d')"
  shows "\<exists>c. loadCase ctx i d = Inr c"
    and "docCases d' = map (\<lambda>c. if dc_id c = i then c\<lparr>dc_isReady := True, dc_status := DC_DOCUMENTATION_READY\<rparr> else c) (docCases d)"
    and "logged d d' [(tenantId ctx, ''DOC_MANAGER_OVERRIDE'', i)]"
    and "env_law (ev_audit E) \<and> chain_ok (auditRows d) \<longrightarrow> chain_ok (auditRows d')"
proof -
  let ?f = "\<lambda>c. c\<lparr>dc_isReady := True, dc_status := DC_DOCUMENTATION_READY\<rparr>"
  let ?m = "\<lparr>mo_id = ev_uuid E 1, mo_tenantId = tenantId ctx, mo_caseId = i, mo_overriddenBy = userId ctx,
      mo_reason = trim memo, mo_allowedAt = ev_clock E 1, mo_expiresAt = t\<rparr>"
  let ?e = "\<lparr>de_id = ev_uuid E 2, de_tenantId = tenantId ctx, de_caseId = i, de_eventType = MANAGER_OVERRIDE,
      de_actorUserId = Some (userId ctx), de_remarks = Some memo, de_payload = JObj [], de_createdAt = ev_clock E 2, de_documentId = None, de_fromStatus = None, de_toStatus = None\<rparr>"
  let ?d1 = "d\<lparr>managerOverrides := managerOverrides d @ [?m], docCases := fst (update_many (\<lambda>c. dc_id c = i) ?f (docCases d)),
      caseEvents := caseEvents d @ [?e]\<rparr>"
  from assms obtain c where c: "loadCase ctx i d = Inr c"
    and a: "audit_tx E 3 (audit_input (tenantId ctx) ''DOC_MANAGER_OVERRIDE'' ''DocCase'' i (Some (userId ctx)) ''UPDATE''
        [(''reason'', JStr memo)]) ?d1 = Inr d'"
    unfolding managerOverride_def res_bind_Inr_iff Let_def
    by (elim exE conjE) (auto simp: res_bind_Inr_iff update_row_Inr audit_log_tx_Inr)
  show "\<exists>c. loadCase ctx i d = Inr c" using c by blast
  show "docCases d' = map (\<lambda>c. if dc_id c = i then ?f c else c) (docCases d)"
    using audit_tx_tables [OF a] by (simp add: update_many_def)
  show "logged d d' [(tenantId ctx, ''DOC_MANAGER_OVERRIDE'', i)]"
    using logged_cong [OF logged_audit [OF a], of d d'] by (simp add: audit_input_def)
  show "env_law (ev_audit E) \<and> chain_ok (auditRows d) \<longrightarrow> chain_ok (auditRows d')"
    using audit_tx_chain [OF a] by simp
qed

section \<open>Properties\<close>

text \<open>
  C34: the handover methods implement the abstract ownership machine. A method that succeeds
  found a live case of the tenant in a state the machine allows, and that case alone moved: to
  pending review on a transfer, to Process on an acceptance, where the assignee chosen before is
  kept, and back to Documentation on a return, which is counted. One event and one audit row
  name the case, the keys of the table stay unique, and the chain of the log stays linear.
\<close>

theorem process_refines_spec:
  assumes "cases_ok (docCases d)" "run_process E ctx call d = Inr (r, d')"
  shows "\<exists>c c'. c \<in> set (docCases d) \<and> live_case ctx (pcall_case call) c \<and> r = Some c'
     \<and> process_spec (userId ctx) call (pview c) = Some (pview c')
     \<and> docCases d' = map (\<lambda>q. if q = c then c' else q) (docCases d) \<and> cases_ok (docCases d')
     \<and> logged d d' [(tenantId ctx, snd (pcall_event call), pcall_case call)]
     \<and> map de_eventType (caseEvents d') = map de_eventType (caseEvents d) @ [fst (pcall_event call)]
     \<and> (env_law (ev_audit E) \<and> chain_ok (auditRows d) \<longrightarrow> chain_ok (auditRows d'))"
proof -
  from run_process_Inr [OF assms(2)] obtain c0 where c0: "loadCase ctx (pcall_case call) d = Inr c0"
    and w: "process_write E ctx call c0 d = Inr (r, d')" by blast
  from process_write_Inr [OF w assms(1)] obtain c c' where c: "claims E ctx call d c c' d'" "r = Some c'"
    and s: "dc_processAssignedTo c0 = dc_processAssignedTo c \<longrightarrow> process_spec (userId ctx) call (pview c) = Some (pview c')"
    by blast
  have "c0 = c"
    using live_case_found(1,2) [OF assms(1) c0] c(1) same_case [OF assms(1), of c c0]
    by (simp add: claims_def live_case_def)
  then show ?thesis using c s claims_map [OF c(1) assms(1)] by (auto simp: claims_def wrote_def)
qed

text \<open>
  C35: two actors cannot move the same case twice. Whatever the two methods read before, once
  the write of the first has gone through, the write of the second on the same case fails with a
  conflict, unless it is the acceptance or return that follows a transfer, or the new transfer
  that follows a return. So of two acceptances, or an acceptance and a return, exactly one wins.
\<close>

theorem process_write_race:
  assumes "cases_ok (docCases d)" "process_write E1 ctx1 a c1 d = Inr (r, d1)" "pcall_case b = pcall_case a"
    and "(pcall_action a, pcall_action b) \<notin> {(P_TRANSFER, P_ACCEPT), (P_TRANSFER, P_RETURN), (P_RETURN, P_TRANSFER)}"
  shows "process_write E2 ctx2 b c2 d1 = Inl ConflictError"
proof -
  from process_write_Inr [OF assms(2,1)] obtain c c' where c: "claims E1 ctx1 a d c c' d1" by blast
  have shut: "\<not> ph_where ctx2 (pcall_case a) (precondition (pcall_action b)) q" if "q \<in> set (docCases d1)" for q
  proof (cases "q = c'")
    case True
    then have "dc_processHandoffState q = lands_in (pcall_action a)" "dc_status q = owned_as (pcall_action a)"
      using c by (simp_all add: claims_def)
    then show ?thesis using assms(4) by (cases "pcall_action a"; cases "pcall_action b") (auto simp: ph_where_def)
  next
    case False
    have "c' \<in> set (docCases d1)" "dc_id c' = pcall_case a"
      using claims_map(1) [OF c assms(1)] c by (auto simp: claims_def live_case_def keeps_keys_def)
    then show ?thesis using False that same_case [OF claims_map(2) [OF c assms(1)], of c' q] ph_where_live [of ctx2 "pcall_case a" _ q] by auto
  qed
  then have zero: "snd (update_many (ph_where ctx2 (pcall_case a) (precondition (pcall_action b))) f (docCases d1)) = 0" for f
    by (simp add: tbl.zero_iff)
  show ?thesis using zero assms(3)
    by (cases b) (simp_all add: transfer_write_def accept_write_def return_write_def Let_def claim_case_def)
qed

text \<open>
  an override during the handover strands the case. The override checks nothing of the
  state: given on a case that waits for Process, or that Process has accepted, it sets the
  status back to ready for documentation and leaves the handover state, and from then on every
  transfer, acceptance and return of the case fails, for every actor.
\<close>

theorem override_strands_case:
  assumes "cases_ok (docCases d)" "loadCase ctx i d = Inr c" "dc_processHandoffState c \<in> {PH_PENDING_REVIEW, PH_ACCEPTED}"
    and "managerOverride E ctx i memo t d = Inr (m, d')" "pcall_case call = i"
  shows "isl (run_process E' ctx' call d')"
proof (rule ccontr)
  let ?f = "\<lambda>c. c\<lparr>dc_isReady := True, dc_status := DC_DOCUMENTATION_READY\<rparr>"
  have d': "docCases d' = map (\<lambda>q. if dc_id q = i then ?f q else q) (docCases d)"
    by (rule managerOverride_Inr [OF assms(4)])
  have ok: "cases_ok (docCases d')" unfolding d' by (rule cases_ok_map [OF _ assms(1)]) (simp add: keeps_keys_def)
  assume "\<not> isl (run_process E' ctx' call d')"
  then obtain r d'' where run: "run_process E' ctx' call d' = Inr (r, d'')"
    by (cases "run_process E' ctx' call d'") (auto simp: isl_def)
  from run_process_Inr [OF run] process_write_Inr [OF _ ok] obtain q
    where q: "q \<in> set (docCases d')" "ph_where ctx' i (precondition (pcall_action call)) q"
    using assms(5) by (fastforce simp: claims_def)
  have "c \<in> set (docCases d)" "dc_id c = i" using live_case_found [OF assms(1,2)] by (auto simp: live_case_def)
  then have fc: "?f c \<in> set (docCases d')" "dc_id (?f c) = i" by (force simp: d')+
  have "q = ?f c" using same_case [OF ok fc(1) q(1)] ph_where_live [OF q(2)] fc(2) by simp
  then show False using q(2) assms(3) by (cases "pcall_action call") (auto simp: ph_where_def)
qed

text \<open>
  the header of the Process queue agrees with the list under it: the count of incoming
  cases is the length of the list, every listed case is live, of the tenant and waiting, each
  waiting case is listed as often as it is stored, and the oldest handover comes first.
\<close>

theorem process_queue_agrees:
  "pq_incoming (listPendingForProcess ctx d) = length (pq_cases (listPendingForProcess ctx d))
   \<and> mset (map fst (pq_cases (listPendingForProcess ctx d))) = mset (filter (with_status ctx DC_PENDING_PROCESS_REVIEW) (docCases d))
   \<and> sorted (map (\<lambda>c. the (dc_processHandoffAt c)) (takeWhile (\<lambda>c. dc_processHandoffAt c \<noteq> None) (map fst (pq_cases (listPendingForProcess ctx d)))))"
proof -
  let ?rows = "filter (with_status ctx DC_PENDING_PROCESS_REVIEW) (docCases d)"
  let ?timed = "filter (\<lambda>c. dc_processHandoffAt c \<noteq> None) ?rows" and ?rest = "filter (\<lambda>c. dc_processHandoffAt c = None) ?rows"
  let ?key = "\<lambda>c. or_else (dc_processHandoffAt c) 0"
  have q: "map fst (pq_cases (listPendingForProcess ctx d)) = sort_key ?key ?timed @ ?rest"
    by (simp add: listPendingForProcess_def Let_def comp_def)
  have split: "mset (filter (\<lambda>c. dc_processHandoffAt c \<noteq> None) cs) + mset (filter (\<lambda>c. dc_processHandoffAt c = None) cs) = mset cs" for cs
    by (induction cs) auto
  have m: "mset (sort_key ?key ?timed @ ?rest) = mset ?rows"
    using split [of ?rows] by (simp only: mset_append mset_sort)
  have len: "length (pq_cases (listPendingForProcess ctx d)) = length ?rows"
    using m q by (metis length_map mset_eq_length)
  have head: "pq_incoming (listPendingForProcess ctx d) = length ?rows"
    by (simp add: listPendingForProcess_def Let_def count_rows_def)
  have tw: "takeWhile (\<lambda>c. dc_processHandoffAt c \<noteq> None) (sort_key ?key ?timed @ ?rest) = sort_key ?key ?timed"
    by (cases "?rest") (auto simp: takeWhile_append filter_eq_Cons_iff)
  have the: "map (\<lambda>c. the (dc_processHandoffAt c)) (sort_key ?key ?timed) = map ?key (sort_key ?key ?timed)"
    by (rule map_cong) auto
  show ?thesis unfolding q tw the by (intro conjI head [folded len] m sorted_sort_key)
qed

section \<open>Concrete runs\<close>

definition case_ready :: DocCase where
  "case_ready = (blank_case ''c1'' ctx_one ''l1'' None)\<lparr>dc_caseNumber := Some ''HPX-ABCD-2345'', dc_isReady := True\<rparr>"

definition db_ready :: db where
  "db_ready = empty_db\<lparr>docCases := [case_ready]\<rparr>"

definition after_process :: "nat \<Rightarrow> process_call \<Rightarrow> db \<Rightarrow> db" where
  "after_process n call d = snd (projr (run_process (env_at n) ctx_one call d))"

lemma db_ready_ok: "cases_ok (docCases db_ready)"
  by code_simp

theorem process_refines_spec_witness:
  "\<exists>c'. docCases (after_process 1 (Transfer ''c1'' None) db_ready) = [c'] \<and> dc_processHandoffState c' = PH_PENDING_REVIEW"
proof -
  have run: "run_process (env_at 1) ctx_one (Transfer ''c1'' None) db_ready =
      Inr (Some (hd (docCases (after_process 1 (Transfer ''c1'' None) db_ready))), after_process 1 (Transfer ''c1'' None) db_ready)"
    by code_simp
  from process_refines_spec [OF db_ready_ok run] show ?thesis
    by (auto simp: db_ready_def pview_def split: if_splits)
qed

definition db_waiting :: db where
  "db_waiting = empty_db\<lparr>docCases :=
     [case_ready\<lparr>dc_status := DC_PENDING_PROCESS_REVIEW, dc_processHandoffState := PH_PENDING_REVIEW\<rparr>]\<rparr>"

theorem process_write_race_witness:
  "\<exists>c. loadCase ctx_one ''c1'' db_waiting = Inr c
     \<and> process_write (env_at 3) ctx_one (Return_p ''c1'' ''OTHER'' ''scan unreadable'') c
          (snd (projr (process_write (env_at 2) ctx_one (Accept_p ''c1'') c db_waiting))) = Inl ConflictError"
proof -
  let ?c = "hd (docCases db_waiting)"
  have ok: "cases_ok (docCases db_waiting)" and c: "loadCase ctx_one ''c1'' db_waiting = Inr ?c" by code_simp+
  have w: "process_write (env_at 2) ctx_one (Accept_p ''c1'') ?c db_waiting =
      Inr (projr (process_write (env_at 2) ctx_one (Accept_p ''c1'') ?c db_waiting))" by code_simp
  have w': "process_write (env_at 2) ctx_one (Accept_p ''c1'') ?c db_waiting =
      Inr (fst (projr (process_write (env_at 2) ctx_one (Accept_p ''c1'') ?c db_waiting)),
           snd (projr (process_write (env_at 2) ctx_one (Accept_p ''c1'') ?c db_waiting)))"
    using w by simp
  show ?thesis using process_write_race [OF ok w', of "Return_p ''c1'' ''OTHER'' ''scan unreadable''"] c by simp
qed

end
