(* ===== verification/Portal_Service.thy ===== *)
theory Portal_Service
  imports Case_Store Case_Number
begin

text \<open>
  The client portal, \<^verbatim>\<open>src/src/services/portal.service.ts\<close>: verification with its record of
  attempts and its lockout, sessions, the view of a case, publishing, the one place that turns a
  portal on and off, and the change of the portal contact. Methods that the code runs outside a
  transaction are handlers, whose earlier writes stay when a later step throws.
\<close>

section \<open>Verification\<close>

definition record_attempt ::
  "env \<Rightarrow> nat \<Rightarrow> string \<Rightarrow> string \<Rightarrow> bool \<Rightarrow> string option \<Rightarrow> string option \<Rightarrow> db \<Rightarrow> db" where
  "record_attempt E k caseNumber ip succeeded caseId tenant d =
     d\<lparr>authAttempts := authAttempts d @
        [\<lparr>pt_caseNumber = caseNumber, pt_ipAddress = ip, pt_succeeded = succeeded, pt_caseId = caseId,
          pt_tenantId = tenant, pt_attemptedAt = ev_clock E k\<rparr>]\<rparr>"

definition recent_failure :: "date \<Rightarrow> string \<Rightarrow> string \<Rightarrow> PortalAuthAttempt \<Rightarrow> bool" where
  "recent_failure since caseNumber ip a \<longleftrightarrow> pt_caseNumber a = caseNumber \<and> pt_ipAddress a = ip
     \<and> \<not> pt_succeeded a \<and> since \<le> pt_attemptedAt a"

definition isLockedOut :: "date \<Rightarrow> string \<Rightarrow> string \<Rightarrow> db \<Rightarrow> bool" where
  "isLockedOut now caseNumber ip d =
     (let since = now - PORTAL_LOCKOUT_MINUTES * 60000
      in PORTAL_MAX_ATTEMPTS \<le> count_rows (recent_failure since caseNumber ip) (authAttempts d))"

definition access_of :: "DocCase \<Rightarrow> PortalAccessInput" where
  "access_of c = \<lparr>pa_portalEnabledAt = dc_portalEnabledAt c, pa_portalPhoneLast4 = dc_portalPhoneLast4 c,
     pa_status = dc_status c\<rparr>"

text \<open>The token hash is a unique column.\<close>

definition create_session :: "PortalSession \<Rightarrow> db \<Rightarrow> app_error + db" where
  "create_session s d =
     (if (\<exists>q \<in> set (portalSessions d). ps_tokenHash q = ps_tokenHash s) then Inl UniqueViolation
      else Inr (d\<lparr>portalSessions := portalSessions d @ [s]\<rparr>))"

text \<open>
  The method runs without a transaction, so other calls can come between its queries. It has three
  phases. The first tests the form of the input and counts the recorded failures: the reason of a
  refusal, if there is one. The second reads the case and compares the digits: the reason and the
  case, if it was found, or the case to open. The third records the attempt.
\<close>

definition verify_count :: "env \<Rightarrow> string \<Rightarrow> string \<Rightarrow> string \<Rightarrow> db \<Rightarrow> string option" where
  "verify_count E caseNumber digits ip d =
     (if \<not> isValidCaseNumber caseNumber \<or> length digits \<noteq> 4 then Some ''malformed_input''
      else if isLockedOut (ev_clock E 1) caseNumber ip d then Some ''locked_out''
      else None)"

definition verify_lookup :: "env \<Rightarrow> string \<Rightarrow> string \<Rightarrow> db \<Rightarrow> string \<times> DocCase option + DocCase" where
  "verify_lookup E caseNumber digits d =
     (case find_first (\<lambda>c. dc_caseNumber c = Some caseNumber \<and> dc_deletedAt c = None) (docCases d) of
        None \<Rightarrow> Inl (''case_not_found'', None)
      | Some c \<Rightarrow>
          if \<not> isPortalAccessible (access_of c) then Inl (''portal_not_accessible'', Some c)
          else if \<not> safeCompareDigits (sha256 (ev_audit E)) (or_empty (dc_portalPhoneLast4 c)) digits
          then Inl (''digit_mismatch'', Some c)
          else Inr c)"

text \<open>The first two phases with nothing in between.\<close>

definition verify_check :: "env \<Rightarrow> string \<Rightarrow> string \<Rightarrow> string \<Rightarrow> db \<Rightarrow> string \<times> DocCase option + DocCase" where
  "verify_check E caseNumber digits ip d =
     (case verify_count E caseNumber digits ip d of
        Some why \<Rightarrow> Inl (why, None)
      | None \<Rightarrow> verify_lookup E caseNumber digits d)"

definition new_session :: "env \<Rightarrow> string \<Rightarrow> string option \<Rightarrow> DocCase \<Rightarrow> PortalSession" where
  "new_session E ip userAgent c =
     \<lparr>ps_id = ev_uuid E 3, ps_tenantId = dc_tenantId c, ps_caseId = dc_id c,
      ps_tokenHash = hashSessionToken (sha256 (ev_audit E)) (ev_token E), ps_expiresAt = sessionExpiry (ev_clock E 3),
      ps_lastSeenAt = None, ps_ipAddress = Some ip, ps_userAgent = userAgent, ps_revokedAt = None\<rparr>"

definition verify_record ::
  "env \<Rightarrow> string \<Rightarrow> string \<Rightarrow> string option \<Rightarrow> string \<times> DocCase option + DocCase \<Rightarrow> (string \<times> string) handler" where
  "verify_record E caseNumber ip userAgent checked d =
     (case checked of
        Inl (why, found) \<Rightarrow>
          (Inl (PortalVerificationFailed why),
           record_attempt E 2 caseNumber ip False (map_option dc_id found) (map_option dc_tenantId found) d)
      | Inr c \<Rightarrow>
          (case create_session (new_session E ip userAgent c) d of
             Inl e \<Rightarrow> (Inl e, d)
           | Inr d1 \<Rightarrow>
               (Inr (ev_token E, iso_string (sessionExpiry (ev_clock E 5))),
                record_attempt E 4 caseNumber ip True (Some (dc_id c)) (Some (dc_tenantId c)) d1)))"

text \<open>A call that nothing interrupts.\<close>

definition verify :: "env \<Rightarrow> string \<Rightarrow> string \<Rightarrow> string \<Rightarrow> string option \<Rightarrow> (string \<times> string) handler" where
  "verify E caseNumberRaw phoneDigits ip userAgent d =
     (let caseNumber = trim (to_upper caseNumberRaw);
          digits = digits_only phoneDigits
      in verify_record E caseNumber ip userAgent (verify_check E caseNumber digits ip d) d)"

section \<open>Sessions\<close>

definition resolveSession :: "env \<Rightarrow> string \<Rightarrow> PortalSession handler" where
  "resolveSession E token d =
     (if token = [] then (Inl (PortalVerificationFailed ''missing_token''), d)
      else let h = hashSessionToken (sha256 (ev_audit E)) token
           in case find_first (\<lambda>s. ps_tokenHash s = h) (portalSessions d) of
                None \<Rightarrow> (Inl (PortalVerificationFailed ''session_invalid''), d)
              | Some s \<Rightarrow>
                  if ps_revokedAt s \<noteq> None \<or> ps_expiresAt s \<le> ev_clock E 1
                  then (Inl (PortalVerificationFailed ''session_invalid''), d)
                  else case update_row (\<lambda>q. ps_id q = ps_id s) (\<lambda>q. q\<lparr>ps_lastSeenAt := Some (ev_clock E 2)\<rparr>) (portalSessions d) of
                         Inl e \<Rightarrow> (Inl e, d)
                       | Inr (_, ss) \<Rightarrow> (Inr s, d\<lparr>portalSessions := ss\<rparr>))"

definition signOut :: "env \<Rightarrow> string \<Rightarrow> unit handler" where
  "signOut E token d =
     (let h = hashSessionToken (sha256 (ev_audit E)) token
      in (Inr (), d\<lparr>portalSessions := fst (update_many (\<lambda>s. ps_tokenHash s = h \<and> ps_revokedAt s = None)
            (\<lambda>s. s\<lparr>ps_revokedAt := Some (ev_clock E 1)\<rparr>) (portalSessions d))\<rparr>))"

text \<open>The write shared by every revocation: the live sessions of a case, and how many they were.\<close>

definition revoke_case_sessions :: "date \<Rightarrow> string \<Rightarrow> db \<Rightarrow> db \<times> nat" where
  "revoke_case_sessions now caseId d =
     (let r = update_many (\<lambda>s. ps_caseId s = caseId \<and> ps_revokedAt s = None) (\<lambda>s. s\<lparr>ps_revokedAt := Some now\<rparr>) (portalSessions d)
      in (d\<lparr>portalSessions := fst r\<rparr>, snd r))"

section \<open>The view of a client\<close>

record PortalStage =
  pg_key :: string
  pg_label :: string
  pg_completedAt :: "string option"
  pg_isCurrent :: bool

record PortalDocument =
  pd_id :: string
  pd_name :: string
  pd_status :: ClientDocStatus
  pd_receivedAt :: "string option"

record PortalNote =
  pn_id :: string
  pn_content :: string
  pn_createdAt :: string

record PortalCaseView =
  vw_caseNumber :: "string option"
  vw_clientName :: string
  vw_status :: DocCaseStatus
  vw_portalActivatedAt :: "string option"
  vw_progressStages :: "PortalStage list"
  vw_documents :: "PortalDocument list"
  vw_notes :: "PortalNote list"

definition visible_docs :: "string \<Rightarrow> db \<Rightarrow> DocCaseDocument list" where
  "visible_docs caseId d = filter (\<lambda>x. dd_caseId x = caseId \<and> dd_clientVisible x \<and> dd_deletedAt x = None) (caseDocuments d)"

definition visible_notes :: "string \<Rightarrow> db \<Rightarrow> DocCaseNote list" where
  "visible_notes caseId d = filter (\<lambda>x. dn_caseId x = caseId \<and> dn_clientVisible x \<and> dn_deletedAt x = None) (caseNotes d)"

fun find_index :: "('a \<Rightarrow> bool) \<Rightarrow> 'a list \<Rightarrow> int" where
  "find_index p [] = - 1"
| "find_index p (x # xs) = (if p x then 0 else let i = find_index p xs in if i < 0 then i else i + 1)"

definition stage_views :: "DocCaseStatus \<Rightarrow> string option \<Rightarrow> PortalStage list" where
  "stage_views status enabled =
     (let currentIdx = find_index (\<lambda>s. fst s = progressStageFor status) PORTAL_PROGRESS_STAGES
      in map (\<lambda>(s, i). \<lparr>pg_key = fst s, pg_label = snd s,
                pg_completedAt = (if i < currentIdx then enabled else None), pg_isCurrent = (i = currentIdx)\<rparr>)
             (zip PORTAL_PROGRESS_STAGES (map int [0..<length PORTAL_PROGRESS_STAGES])))"

definition lead_name :: "DocCase \<Rightarrow> db \<Rightarrow> string" where
  "lead_name c d = (case find_first (\<lambda>l. ld_id l = dc_leadId c) (leads d) of
     None \<Rightarrow> [] | Some l \<Rightarrow> full_name (ld_firstName l) (ld_lastName l))"

definition getCaseView :: "string \<Rightarrow> db \<Rightarrow> app_error + PortalCaseView" where
  "getCaseView caseId d =
     res_bind (or_throw (find_first (\<lambda>c. dc_id c = caseId \<and> dc_deletedAt c = None) (docCases d))
        (PortalVerificationFailed ''case_missing_on_view'')) (\<lambda>c.
     res_bind (ensure (isPortalAccessible (access_of c)) (PortalVerificationFailed ''portal_deactivated_mid_session'')) (\<lambda>_.
     let enabled = map_option iso_string (dc_portalEnabledAt c)
     in Inr \<lparr>vw_caseNumber = dc_caseNumber c, vw_clientName = lead_name c d, vw_status = dc_status c,
          vw_portalActivatedAt = enabled, vw_progressStages = stage_views (dc_status c) enabled,
          vw_documents = map (\<lambda>x. \<lparr>pd_id = dd_id x, pd_name = dd_name x, pd_status = toClientDocStatus (doc_status_name (dd_status x)),
              pd_receivedAt = map_option iso_string (dd_receivedAt x)\<rparr>) (sort_key dd_displayOrder (visible_docs caseId d)),
          vw_notes = map (\<lambda>n. \<lparr>pn_id = dn_id n, pn_content = dn_content n, pn_createdAt = iso_string (dn_createdAt n)\<rparr>)
              (sort_key (\<lambda>n. - dn_createdAt n) (visible_notes caseId d))\<rparr>))"

section \<open>Turning a portal on and off\<close>

datatype ActivationType = MANUAL | AUTO

fun activation_name :: "ActivationType \<Rightarrow> string" where
  "activation_name MANUAL = ''MANUAL''"
| "activation_name AUTO = ''AUTO''"

definition portal_audit :: "string \<Rightarrow> string \<Rightarrow> string \<Rightarrow> string \<Rightarrow> (string \<times> jsval) list \<Rightarrow> AuditAppendInput" where
  "portal_audit tenant eventType caseId actor payload =
     audit_input tenant eventType ''DocCase'' caseId (Some actor) ''UPDATE'' payload"

text \<open>The result: whether it was enabled already, and since when.\<close>

definition enablePortalInTx ::
  "env \<Rightarrow> string \<Rightarrow> string \<Rightarrow> string \<Rightarrow> ActivationType \<Rightarrow> (bool \<times> date) tx" where
  "enablePortalInTx E caseId tenant actor activationType d =
     (let now = ev_clock E 20;
          r = update_many (\<lambda>c. dc_id c = caseId \<and> dc_tenantId c = tenant \<and> dc_deletedAt c = None
                \<and> dc_portalEnabledAt c = None \<and> dc_status c = DC_ACTIVE \<and> dc_portalPhoneLast4 c \<noteq> None)
              (\<lambda>c. c\<lparr>dc_portalEnabledAt := Some now\<rparr>) (docCases d);
          d1 = d\<lparr>docCases := fst r\<rparr>
      in if snd r = 1
         then res_bind (audit_tx E 21 (portal_audit tenant
                (if activationType = MANUAL then ''PORTAL_ACTIVATED'' else ''PORTAL_AUTO_ACTIVATED'') caseId actor
                [(''caseId'', JStr caseId), (''activationType'', JStr (activation_name activationType))]) d1) (\<lambda>d2.
              Inr ((False, now), d2))
         else case find_first (\<lambda>c. dc_id c = caseId \<and> dc_tenantId c = tenant \<and> dc_deletedAt c = None) (docCases d1) of
                None \<Rightarrow> Inr ((True, now), d1)
              | Some c \<Rightarrow> (case dc_portalEnabledAt c of Some t \<Rightarrow> Inr ((True, t), d1) | None \<Rightarrow> Inr ((True, now), d1)))"

text \<open>The result: whether it was disabled already.\<close>

definition disablePortalInTx :: "env \<Rightarrow> string \<Rightarrow> string \<Rightarrow> string \<Rightarrow> bool tx" where
  "disablePortalInTx E caseId tenant actor d =
     (let r = update_many (\<lambda>c. dc_id c = caseId \<and> dc_tenantId c = tenant \<and> dc_deletedAt c = None \<and> dc_portalEnabledAt c \<noteq> None)
              (\<lambda>c. c\<lparr>dc_portalEnabledAt := None\<rparr>) (docCases d);
          d1 = d\<lparr>docCases := fst r\<rparr>
      in if snd r = 0 then Inr (True, d1)
         else let d2 = fst (revoke_case_sessions (ev_clock E 22) caseId d1)
              in res_bind (audit_tx E 23 (portal_audit tenant ''PORTAL_DEACTIVATED'' caseId actor [(''caseId'', JStr caseId)]) d2) (\<lambda>d3.
                 Inr (False, d3)))"

section \<open>Publishing\<close>

definition portal_switch :: "env \<Rightarrow> TenantContext \<Rightarrow> string \<Rightarrow> DocCase \<Rightarrow> nat \<Rightarrow> db \<Rightarrow> app_error + db" where
  "portal_switch E ctx caseId docCase visibleCount d =
     (let canActivate = 0 < visibleCount \<and> \<not> falsy (dc_portalPhoneLast4 docCase) \<and> dc_status docCase = DC_ACTIVE
      in if canActivate \<and> dc_portalEnabledAt docCase = None
         then res_bind (enablePortalInTx E caseId (tenantId ctx) (userId ctx) AUTO d) (\<lambda>(_, d1). Inr d1)
         else if \<not> canActivate \<and> dc_portalEnabledAt docCase \<noteq> None
         then res_bind (disablePortalInTx E caseId (tenantId ctx) (userId ctx) d) (\<lambda>(_, d1). Inr d1)
         else Inr d)"

definition reconcilePortalActivation ::
  "env \<Rightarrow> TenantContext \<Rightarrow> string \<Rightarrow> bool \<Rightarrow> string \<Rightarrow> string \<Rightarrow> DocCase tx" where
  "reconcilePortalActivation E ctx caseId published entity entityId d =
     res_bind (or_throw (find_first (\<lambda>c. dc_id c = caseId \<and> dc_tenantId c = tenantId ctx) (docCases d)) ResourceNotFoundError) (\<lambda>docCase.
     let visibleCount = length (visible_notes caseId d) + length (visible_docs caseId d)
     in res_bind (portal_switch E ctx caseId docCase visibleCount d) (\<lambda>d1.
     res_bind (if published
        then res_bind (update_row (\<lambda>c. dc_id c = caseId)
               (\<lambda>c. c\<lparr>dc_lastClientVisiblePublishAt := Some (ev_clock E 24)\<rparr>) (docCases d1)) (\<lambda>(_, cases).
             Inr (case_event E 25 (tenantId ctx) caseId CLIENT_VISIBLE_PUBLISHED (Some (userId ctx))
               [(''entity'', JStr entity), (''entityId'', JStr entityId), (''visibleCount'', jint (int visibleCount))]
               (d1\<lparr>docCases := cases\<rparr>)))
        else Inr d1) (\<lambda>d2.
     res_bind (or_throw (find_first (\<lambda>c. dc_id c = caseId) (docCases d2)) (Thrown ''P2025'')) (\<lambda>c.
     Inr (c, d2)))))"

definition setNoteVisibility :: "env \<Rightarrow> TenantContext \<Rightarrow> string \<Rightarrow> bool \<Rightarrow> DocCase tx" where
  "setNoteVisibility E ctx noteId clientVisible d =
     res_bind (or_throw (find_first (\<lambda>n. dn_id n = noteId \<and> dn_tenantId n = tenantId ctx \<and> dn_deletedAt n = None) (caseNotes d))
        ResourceNotFoundError) (\<lambda>note.
     res_bind (update_row (\<lambda>n. dn_id n = noteId) (\<lambda>n. n\<lparr>dn_clientVisible := clientVisible,
        dn_clientVisibleAt := (if clientVisible then Some (ev_clock E 1) else None)\<rparr>) (caseNotes d)) (\<lambda>(_, ns).
     reconcilePortalActivation E ctx (dn_caseId note) clientVisible ''note'' noteId (d\<lparr>caseNotes := ns\<rparr>)))"

definition setDocumentVisibility :: "env \<Rightarrow> TenantContext \<Rightarrow> string \<Rightarrow> bool \<Rightarrow> DocCase tx" where
  "setDocumentVisibility E ctx documentId clientVisible d =
     res_bind (or_throw (find_first (\<lambda>x. dd_id x = documentId \<and> dd_tenantId x = tenantId ctx \<and> dd_deletedAt x = None) (caseDocuments d))
        ResourceNotFoundError) (\<lambda>doc.
     res_bind (update_row (\<lambda>x. dd_id x = documentId) (\<lambda>x. x\<lparr>dd_clientVisible := clientVisible,
        dd_clientVisibleAt := (if clientVisible then Some (ev_clock E 1) else None), dd_updatedAt := ev_clock E 90\<rparr>) (caseDocuments d)) (\<lambda>(_, xs).
     reconcilePortalActivation E ctx (dd_caseId doc) clientVisible ''document'' documentId (d\<lparr>caseDocuments := xs\<rparr>)))"

section \<open>The portal contact\<close>

definition requestContactChange ::
  "env \<Rightarrow> TenantContext \<Rightarrow> string \<Rightarrow> string \<Rightarrow> string \<Rightarrow> PortalContactChangeRequest handler" where
  "requestContactChange E ctx caseId newPhone note d =
     (if length (normalisePhone newPhone) < 10 then (Inl (ValidationError ''A valid phone number is required.''), d)
      else if trim note = [] then (Inl (ValidationError ''A reason is required.''), d)
      else if isl (loadCase ctx caseId d) then (Inl ResourceNotFoundError, d)
      else if find_first (\<lambda>r. cc_caseId r = caseId \<and> cc_status r = CC_PENDING) (contactRequests d) \<noteq> None
      then (Inl (BusinessRuleViolationError ''A contact change request is already pending for this case.''), d)
      else let request = \<lparr>cc_id = ev_uuid E 1, cc_tenantId = tenantId ctx, cc_caseId = caseId, cc_newPhone = trim newPhone,
                 cc_reason = trim note, cc_status = CC_PENDING, cc_requestedBy = userId ctx, cc_approvedBy = None, cc_resolvedAt = None\<rparr>;
               d1 = d\<lparr>contactRequests := contactRequests d @ [request]\<rparr>
           in case audit_log_tx E 2 (audit_input (tenantId ctx) ''PORTAL_CONTACT_CHANGE_REQUESTED'' ''PortalContactChangeRequest''
                  (cc_id request) (Some (userId ctx)) ''CREATE'' [(''caseId'', JStr caseId), (''reason'', JStr (trim note))]) d1 of
                Inl e \<Rightarrow> (Inl e, d1)
              | Inr d2 \<Rightarrow> (Inr request, d2))"

definition contact_swapped :: "date \<Rightarrow> string \<Rightarrow> DocCase \<Rightarrow> DocCase" where
  "contact_swapped now phone c =
     c\<lparr>dc_portalPhoneSnapshot := Some phone, dc_portalPhoneLast4 := Some (phoneLast4 phone),
       dc_portalPhoneSource := NOMINATED_OVERRIDE, dc_lastInternalChangeAt := Some now\<rparr>"

text \<open>The result: the number of sessions revoked.\<close>

definition approveContactChange :: "env \<Rightarrow> TenantContext \<Rightarrow> string \<Rightarrow> nat tx" where
  "approveContactChange E ctx requestId d =
     res_bind (or_throw (find_first (\<lambda>r. cc_id r = requestId \<and> cc_tenantId r = tenantId ctx) (contactRequests d))
        ResourceNotFoundError) (\<lambda>request.
     res_bind (ensure (cc_status request = CC_PENDING) (BusinessRuleViolationError ''This request has already been resolved.'')) (\<lambda>_.
     res_bind (ensure (cc_requestedBy request \<noteq> userId ctx)
        (BusinessRuleViolationError ''A contact change cannot be approved by its requester.'')) (\<lambda>_.
     let now = ev_clock E 1
     in res_bind (update_row (\<lambda>r. cc_id r = requestId) (\<lambda>r. r\<lparr>cc_status := CC_APPROVED, cc_approvedBy := Some (userId ctx),
          cc_resolvedAt := Some now\<rparr>) (contactRequests d)) (\<lambda>(_, requests).
     res_bind (update_row (\<lambda>c. dc_id c = cc_caseId request) (contact_swapped now (cc_newPhone request)) (docCases d)) (\<lambda>(_, cases).
     let r = revoke_case_sessions now (cc_caseId request) (d\<lparr>contactRequests := requests, docCases := cases\<rparr>);
         revoked = (''sessionsRevoked'', jint (int (snd r)));
         d1 = case_event E 2 (tenantId ctx) (cc_caseId request) PORTAL_CONTACT_CHANGE_APPROVED (Some (userId ctx))
                [(''requestId'', JStr requestId), revoked] (fst r)
     in res_bind (audit_log_tx E 3 (audit_input (tenantId ctx) ''PORTAL_CONTACT_CHANGE_APPROVED'' ''PortalContactChangeRequest''
            requestId (Some (userId ctx)) ''UPDATE'' [(''caseId'', JStr (cc_caseId request)), revoked]) d1) (\<lambda>d2.
     Inr (snd r, d2)))))))"

definition rejectContactChange :: "env \<Rightarrow> TenantContext \<Rightarrow> string \<Rightarrow> PortalContactChangeRequest handler" where
  "rejectContactChange E ctx requestId d =
     (case find_first (\<lambda>r. cc_id r = requestId \<and> cc_tenantId r = tenantId ctx) (contactRequests d) of
        None \<Rightarrow> (Inl ResourceNotFoundError, d)
      | Some request \<Rightarrow>
          if cc_status request \<noteq> CC_PENDING
          then (Inl (BusinessRuleViolationError ''This request has already been resolved.''), d)
          else case update_row (\<lambda>r. cc_id r = requestId) (\<lambda>r. r\<lparr>cc_status := CC_REJECTED, cc_approvedBy := Some (userId ctx),
                  cc_resolvedAt := Some (ev_clock E 1)\<rparr>) (contactRequests d) of
                 Inl e \<Rightarrow> (Inl e, d)
               | Inr (r, rs) \<Rightarrow> (Inr r, d\<lparr>contactRequests := rs\<rparr>))"

section \<open>Staff operations\<close>

definition revokeSessions :: "env \<Rightarrow> TenantContext \<Rightarrow> string \<Rightarrow> nat handler" where
  "revokeSessions E ctx caseId d =
     (case loadCase ctx caseId d of
        Inl e \<Rightarrow> (Inl e, d)
      | Inr _ \<Rightarrow>
          let r = revoke_case_sessions (ev_clock E 1) caseId d
          in case audit_log_tx E 2 (portal_audit (tenantId ctx) ''PORTAL_SESSION_REVOKED'' caseId (userId ctx)
                 [(''sessionsRevoked'', jint (int (snd r)))]) (fst r) of
               Inl e \<Rightarrow> (Inl e, fst r)
             | Inr d1 \<Rightarrow> (Inr (snd r), d1))"

definition activatePortal :: "env \<Rightarrow> TenantContext \<Rightarrow> string \<Rightarrow> (string \<times> bool) tx" where
  "activatePortal E ctx caseId d =
     res_bind (enablePortalInTx E caseId (tenantId ctx) (userId ctx) MANUAL d) (\<lambda>((alreadyEnabled, enabledAt), d1).
     if \<not> alreadyEnabled then Inr ((iso_string enabledAt, False), d1)
     else res_bind (loadCase ctx caseId d1) (\<lambda>docCase.
       case dc_portalEnabledAt docCase of
         Some t \<Rightarrow> Inr ((iso_string t, True), d1)
       | None \<Rightarrow>
           if dc_status docCase \<noteq> DC_ACTIVE
           then Inl (BusinessRuleViolationError (''Case must be in ACTIVE status to activate portal (current: ''
                  @ status_name (dc_status docCase) @ '').''))
           else if falsy (dc_portalPhoneLast4 docCase)
           then Inl (ValidationError ''Case has no portal phone number set. Cannot activate portal.'')
           else Inl (BusinessRuleViolationError ''Portal activation conditions not met.'')))"

definition activeSessionStats :: "env \<Rightarrow> TenantContext \<Rightarrow> db \<Rightarrow> nat \<times> nat" where
  "activeSessionStats E ctx d =
     (let now = ev_clock E 1
      in (count_rows (\<lambda>s. ps_tenantId s = tenantId ctx \<and> ps_revokedAt s = None \<and> now < ps_expiresAt s) (portalSessions d),
          count_rows (\<lambda>a. pt_tenantId a = Some (tenantId ctx) \<and> \<not> pt_succeeded a \<and> now - 24 * 3600000 \<le> pt_attemptedAt a)
            (authAttempts d)))"

end
