(* ===== verification/Portal_Props.thy ===== *)
theory Portal_Props
  imports Portal_Service
begin

text \<open>
  What the portal guarantees: the outcomes of a verification and the bound on guesses, the
  switch of a portal and its sessions, the change of contact, and what a client can see.
\<close>

section \<open>Verification\<close>

lemma record_attempt_tables [simp]:
  "portalSessions (record_attempt E k n ip b c t d) = portalSessions d"
  "docCases (record_attempt E k n ip b c t d) = docCases d"
  "auditRows (record_attempt E k n ip b c t d) = auditRows d"
  "authAttempts (record_attempt E k n ip b c t d) = authAttempts d @
     [\<lparr>pt_caseNumber = n, pt_ipAddress = ip, pt_succeeded = b, pt_caseId = c, pt_tenantId = t, pt_attemptedAt = ev_clock E k\<rparr>]"
  by (simp_all add: record_attempt_def)

lemma create_session_Inr:
  "create_session s d = Inr d' \<longleftrightarrow> d' = d\<lparr>portalSessions := portalSessions d @ [s]\<rparr>
     \<and> (\<forall>q \<in> set (portalSessions d). ps_tokenHash q \<noteq> ps_tokenHash s)"
proof (cases "\<exists>q \<in> set (portalSessions d). ps_tokenHash q = ps_tokenHash s")
  case True
  then show ?thesis unfolding create_session_def by (simp only: if_True sum.distinct simp_thms) blast
next
  case False
  then show ?thesis unfolding create_session_def by (simp only: if_False sum.inject simp_thms eq_commute [of d']) blast
qed

lemma create_session_Inl: "create_session s d = Inl e \<Longrightarrow> e = UniqueViolation"
  by (auto simp: create_session_def split: if_splits)

text \<open>Whom a verification lets in.\<close>

definition entitled :: "env \<Rightarrow> string \<Rightarrow> string \<Rightarrow> DocCase \<Rightarrow> bool" where
  "entitled E number digits c \<longleftrightarrow> dc_caseNumber c = Some number \<and> dc_deletedAt c = None \<and> isPortalAccessible (access_of c)
     \<and> safeCompareDigits (sha256 (ev_audit E)) (or_empty (dc_portalPhoneLast4 c)) digits"

lemma verify_check_Inr:
  assumes "verify_check E n digits ip d = Inr c"
  shows "c \<in> set (docCases d)" "entitled E n digits c" "\<not> isLockedOut (ev_clock E 1) n ip d"
  using assms by (auto simp: verify_check_def verify_count_def verify_lookup_def entitled_def dest!: find_first_SomeD split: if_splits option.splits)

lemma verify_check_mismatch:
  "verify_check E n digits ip d = Inl (''digit_mismatch'', x) \<Longrightarrow> \<not> isLockedOut (ev_clock E 1) n ip d"
  by (auto simp: verify_check_def verify_count_def verify_lookup_def split: if_splits option.splits)

lemma verify_Inr:
  assumes "verify E n p ip ua d = (Inr (tok, ex), d')"
  shows "\<exists>c. c \<in> set (docCases d) \<and> entitled E (trim (to_upper n)) (digits_only p) c
     \<and> \<not> isLockedOut (ev_clock E 1) (trim (to_upper n)) ip d \<and> tok = ev_token E
     \<and> (\<forall>q \<in> set (portalSessions d). ps_tokenHash q \<noteq> hashSessionToken (sha256 (ev_audit E)) tok)
     \<and> d' = record_attempt E 4 (trim (to_upper n)) ip True (Some (dc_id c)) (Some (dc_tenantId c))
          (d\<lparr>portalSessions := portalSessions d @ [new_session E ip ua c]\<rparr>)"
proof (cases "verify_check E (trim (to_upper n)) (digits_only p) ip d")
  case (Inl x)
  with assms show ?thesis by (cases x) (simp add: verify_def verify_record_def Let_def)
next
  case (Inr c)
  show ?thesis
  proof (cases "create_session (new_session E ip ua c) d")
    case (Inl e)
    with assms show ?thesis unfolding verify_def verify_record_def Let_def Inr
      by (simp only: sum.case prod.inject sum.distinct simp_thms)
  next
    case n: (Inr d1)
    from assms have "tok = ev_token E"
      "d' = record_attempt E 4 (trim (to_upper n)) ip True (Some (dc_id c)) (Some (dc_tenantId c)) d1"
      unfolding verify_def verify_record_def Let_def Inr by (simp_all only: n sum.case prod.inject sum.inject)
    moreover have "d1 = d\<lparr>portalSessions := portalSessions d @ [new_session E ip ua c]\<rparr>"
      "\<forall>q \<in> set (portalSessions d). ps_tokenHash q \<noteq> ps_tokenHash (new_session E ip ua c)"
      using n unfolding create_session_Inr by blast+
    ultimately show ?thesis using verify_check_Inr [OF Inr] by (auto simp: new_session_def simp del: record_attempt_tables)
  qed
qed

text \<open>A failure either is the rare clash of token hashes, or it records one failed attempt.\<close>

lemma verify_Inl:
  assumes "verify E n p ip ua d = (Inl e, d')"
  shows "e = UniqueViolation \<and> d' = d \<or>
    (\<exists>r c t. e = PortalVerificationFailed r \<and> d' = record_attempt E 2 (trim (to_upper n)) ip False c t d
       \<and> (r = ''digit_mismatch'' \<longrightarrow> \<not> isLockedOut (ev_clock E 1) (trim (to_upper n)) ip d))"
proof (cases "verify_check E (trim (to_upper n)) (digits_only p) ip d")
  case (Inl x)
  obtain r oc where x: "x = (r, oc)" by (cases x)
  from assms have e: "e = PortalVerificationFailed r"
    "d' = record_attempt E 2 (trim (to_upper n)) ip False (map_option dc_id oc) (map_option dc_tenantId oc) d"
    unfolding verify_def verify_record_def Let_def Inl x by (simp_all only: sum.case prod.case prod.inject sum.inject)
  have "\<not> isLockedOut (ev_clock E 1) (trim (to_upper n)) ip d" if "r = ''digit_mismatch''"
    by (rule verify_check_mismatch) (use Inl x that in \<open>simp only:\<close>)
  with e show ?thesis by (intro disjI2 exI conjI impI)
next
  case (Inr c)
  show ?thesis
  proof (cases "create_session (new_session E ip ua c) d")
    case n: (Inl e')
    from assms have "e = e'" "d' = d"
      unfolding verify_def verify_record_def Let_def Inr by (simp_all only: n sum.case prod.inject sum.inject)
    then show ?thesis using create_session_Inl [OF n] by simp
  next
    case n: (Inr d1)
    from assms show ?thesis
      unfolding verify_def verify_record_def Let_def Inr by (simp only: n sum.case prod.inject sum.distinct simp_thms)
  qed
qed

lemma verify_docCases: "docCases (snd (verify E n p ip ua d)) = docCases d"
proof (cases "verify E n p ip ua d")
  case (Pair r d')
  show ?thesis
  proof (cases r)
    case (Inl e)
    then show ?thesis using verify_Inl [of E n p ip ua d e d'] Pair by auto
  next
    case (Inr x)
    then show ?thesis using verify_Inr [of E n p ip ua d "fst x" "snd x" d'] Pair by auto
  qed
qed

section \<open>Guessing\<close>

text \<open>
  What a guesser and everyone else can do while half an hour passes. A call of the verification
  from one address on one case number counts the failures, compares its digits, and records its
  attempt, and anything may happen between the three. At most \<open>m\<close> calls are under way at a time;
  \<open>f\<close> of them have passed the count and not compared, \<open>g\<close> have found their digits wrong and not
  recorded it, and \<open>k\<close> comparisons so far found wrong digits. A call that is cut off before it
  records stays under way. Of the changes by others all that is asked is that no recorded attempt
  disappears.
\<close>

inductive probing :: "nat \<Rightarrow> string \<Rightarrow> string \<Rightarrow> date \<Rightarrow> db \<Rightarrow> nat \<Rightarrow> nat \<Rightarrow> nat \<Rightarrow> db \<Rightarrow> bool" for m n ip t0 d0 where
  none: "probing m n ip t0 d0 0 0 0 d0"
| count: "probing m n ip t0 d0 f g k d \<Longrightarrow> f + g < m \<Longrightarrow> verify_count E n digits ip d = None
    \<Longrightarrow> ev_clock E 1 \<le> t0 + 30 * 60000 \<Longrightarrow> probing m n ip t0 d0 (Suc f) g k d"
| compare: "probing m n ip t0 d0 (Suc f) g k d \<Longrightarrow> verify_lookup E n digits d = Inl (''digit_mismatch'', found)
    \<Longrightarrow> probing m n ip t0 d0 f (Suc g) (Suc k) d"
| leave: "probing m n ip t0 d0 (Suc f) g k d \<Longrightarrow> probing m n ip t0 d0 f g k d"
| recorded: "probing m n ip t0 d0 f (Suc g) k d \<Longrightarrow> t0 \<le> ev_clock E 2
    \<Longrightarrow> probing m n ip t0 d0 f g k (snd (verify_record E n ip ua (Inl (''digit_mismatch'', found)) d))"
| others: "probing m n ip t0 d0 f g k d \<Longrightarrow> authAttempts d' = authAttempts d @ new \<Longrightarrow> probing m n ip t0 d0 f g k d'"

definition failures :: "date \<Rightarrow> string \<Rightarrow> string \<Rightarrow> db \<Rightarrow> nat" where
  "failures t0 n ip d = count_rows (recent_failure t0 n ip) (authAttempts d)"

lemma failures_append:
  "authAttempts d' = authAttempts d @ new \<Longrightarrow> failures t0 n ip d \<le> failures t0 n ip d'"
  by (simp add: failures_def count_rows_def)

lemma count_passed:
  assumes "verify_count E n digits ip d = None" "ev_clock E 1 \<le> t0 + 30 * 60000"
  shows "failures t0 n ip d < 5"
proof -
  from assms(1) have lo: "\<not> isLockedOut (ev_clock E 1) n ip d" by (simp add: verify_count_def split: if_splits)
  have "filter (recent_failure t0 n ip) as = filter (recent_failure t0 n ip) (filter (recent_failure (ev_clock E 1 - 30 * 60000) n ip) as)" for as
    using assms(2) by (induction as) (auto simp: recent_failure_def)
  then have "failures t0 n ip d \<le> count_rows (recent_failure (ev_clock E 1 - 30 * 60000) n ip) (authAttempts d)"
    unfolding failures_def count_rows_def by (metis length_filter_le)
  also have "\<dots> < 5" using lo by (simp add: isLockedOut_def Let_def PORTAL_MAX_ATTEMPTS_def PORTAL_LOCKOUT_MINUTES_def)
  finally show ?thesis .
qed

lemma mismatch_recorded:
  "t0 \<le> ev_clock E 2 \<Longrightarrow>
    failures t0 n ip (snd (verify_record E n ip ua (Inl (''digit_mismatch'', found)) d)) = Suc (failures t0 n ip d)"
  by (simp add: verify_record_def failures_def count_rows_def recent_failure_def)

lemma probing_bound:
  assumes "probing m n ip t0 d0 f g k d"
  shows "k + f \<le> 4 + m \<and> k \<le> failures t0 n ip d + g \<and> f + g \<le> m"
  using assms
proof induction
  case (count f g k d E digits)
  then show ?case using count_passed [OF count.hyps(3,4)] by linarith
next
  case (recorded f g k d E ua found)
  then show ?case unfolding mismatch_recorded [OF recorded.hyps(2)] by linarith
next
  case (others f g k d d' new)
  then show ?case using failures_append [OF others.hyps(2), of t0 n ip] by linarith
qed simp_all

text \<open>
  Calls under way at the same time pass the count together: from any state without a lockout, as
  many calls as are let run in parallel compare their digits.
\<close>

lemma parallel_guesses:
  assumes "verify_count E n digits ip d = None" "ev_clock E 1 \<le> t0 + 30 * 60000"
    and "verify_lookup E n digits d = Inl (''digit_mismatch'', found)"
  shows "probing m n ip t0 d 0 m m d"
proof -
  have counted: "f \<le> m \<Longrightarrow> probing m n ip t0 d f 0 0 d" for f
  proof (induction f)
    case (Suc f)
    then show ?case using assms(1,2) by (intro probing.count) simp_all
  qed (rule probing.none)
  have "g \<le> m \<Longrightarrow> probing m n ip t0 d (m - g) g g d" for g
  proof (induction g)
    case (Suc g)
    then have "probing m n ip t0 d (Suc (m - Suc g)) g g d" by (simp add: Suc_diff_Suc)
    then show ?case using assms(3) by (rule probing.compare)
  qed (simp add: counted)
  from this [of m] show ?thesis by simp
qed

section \<open>Revoking\<close>

definition live_sessions :: "string \<Rightarrow> db \<Rightarrow> PortalSession list" where
  "live_sessions i d = filter (\<lambda>s. ps_caseId s = i \<and> ps_revokedAt s = None) (portalSessions d)"

lemma revoke_case_sessions_facts:
  "live_sessions i (fst (revoke_case_sessions now i d)) = []"
  "snd (revoke_case_sessions now i d) = length (live_sessions i d)"
  "j \<noteq> i \<Longrightarrow> live_sessions j (fst (revoke_case_sessions now i d)) = live_sessions j d"
  "ps_tokenHash ` set (portalSessions (fst (revoke_case_sessions now i d))) = ps_tokenHash ` set (portalSessions d)"
proof -
  let ?g = "\<lambda>s. if ps_caseId s = i \<and> ps_revokedAt s = None then s\<lparr>ps_revokedAt := Some now\<rparr> else s"
  have ss: "portalSessions (fst (revoke_case_sessions now i d)) = map ?g (portalSessions d)"
    by (simp add: revoke_case_sessions_def Let_def update_many_def)
  show "live_sessions i (fst (revoke_case_sessions now i d)) = []"
    unfolding live_sessions_def ss filter_map by (simp add: filter_empty_conv)
  show "snd (revoke_case_sessions now i d) = length (live_sessions i d)"
    by (simp add: revoke_case_sessions_def Let_def update_many_def live_sessions_def)
  show "live_sessions j (fst (revoke_case_sessions now i d)) = live_sessions j d" if "j \<noteq> i"
  proof -
    have "filter (\<lambda>s. ps_caseId s = j \<and> ps_revokedAt s = None) (map ?g xs) = filter (\<lambda>s. ps_caseId s = j \<and> ps_revokedAt s = None) xs" for xs
      using that by (induction xs) auto
    then show ?thesis unfolding live_sessions_def ss .
  qed
  show "ps_tokenHash ` set (portalSessions (fst (revoke_case_sessions now i d))) = ps_tokenHash ` set (portalSessions d)"
    unfolding ss set_map image_image by (rule image_cong [OF refl]) simp
qed

lemma revoke_tables [simp]:
  "docCases (fst (revoke_case_sessions now i d)) = docCases d" "auditRows (fst (revoke_case_sessions now i d)) = auditRows d"
  "contactRequests (fst (revoke_case_sessions now i d)) = contactRequests d" "mandateRequests (fst (revoke_case_sessions now i d)) = mandateRequests d"
  "caseEvents (fst (revoke_case_sessions now i d)) = caseEvents d" "authAttempts (fst (revoke_case_sessions now i d)) = authAttempts d"
  by (simp_all add: revoke_case_sessions_def Let_def)

lemma live_sessions_cong: "portalSessions d = portalSessions d' \<Longrightarrow> live_sessions i d = live_sessions i d'"
  by (simp add: live_sessions_def)

lemma resolveSession_Inr:
  assumes "resolveSession E tok d = (Inr s, d')"
  shows "s \<in> set (portalSessions d)" "ps_tokenHash s = hashSessionToken (sha256 (ev_audit E)) tok" "ps_revokedAt s = None"
    "ev_clock E 1 < ps_expiresAt s" "docCases d' = docCases d" "auditRows d' = auditRows d" "authAttempts d' = authAttempts d"
proof -
  let ?p = "\<lambda>s. ps_tokenHash s = hashSessionToken (sha256 (ev_audit E)) tok"
  from assms have "tok \<noteq> []" by (auto simp: resolveSession_def)
  then obtain q where q: "find_first ?p (portalSessions d) = Some q"
    using assms by (cases "find_first ?p (portalSessions d)") (simp_all add: resolveSession_def Let_def)
  have u: "ps_revokedAt q = None \<and> ev_clock E 1 < ps_expiresAt q"
    using assms q \<open>tok \<noteq> []\<close> by (auto simp: resolveSession_def Let_def split: if_splits)
  then obtain ss where "s = q" "d' = d\<lparr>portalSessions := ss\<rparr>"
    using assms q \<open>tok \<noteq> []\<close> by (auto simp: resolveSession_def Let_def split: sum.splits)
  then show "s \<in> set (portalSessions d)" "ps_tokenHash s = hashSessionToken (sha256 (ev_audit E)) tok" "ps_revokedAt s = None"
    "ev_clock E 1 < ps_expiresAt s" "docCases d' = docCases d" "auditRows d' = auditRows d" "authAttempts d' = authAttempts d"
    using u find_first_SomeD [OF q] by simp_all
qed

section \<open>The switch\<close>

text \<open>The gate: a case with a live session has its portal on.\<close>

definition portal_on :: "string \<Rightarrow> db \<Rightarrow> bool" where
  "portal_on i d \<longleftrightarrow> (\<exists>c \<in> set (docCases d). dc_id c = i \<and> dc_portalEnabledAt c \<noteq> None)"

definition portal_gate :: "db \<Rightarrow> bool" where
  "portal_gate d \<longleftrightarrow> (\<forall>i. live_sessions i d = [] \<or> portal_on i d)"

lemma gate_step:
  assumes "portal_gate d" "\<And>i. live_sessions i d = [] \<Longrightarrow> live_sessions i d' = [] \<or> portal_on i d'"
    and "\<And>i. portal_on i d \<Longrightarrow> live_sessions i d' = [] \<or> portal_on i d'"
  shows "portal_gate d'"
  using assms unfolding portal_gate_def by blast

lemma portal_on_map:
  assumes "docCases d' = map g (docCases d)" "\<And>c. dc_id (g c) = dc_id c \<and> (dc_portalEnabledAt c \<noteq> None \<longrightarrow> dc_portalEnabledAt (g c) \<noteq> None)"
  shows "portal_on i d \<Longrightarrow> portal_on i d'"
  using assms unfolding portal_on_def by force

text \<open>A write on cases that never switches a portal off, with the sessions left alone.\<close>

lemma gate_cases:
  assumes "portal_gate d" "portalSessions d' = portalSessions d" "docCases d' = map g (docCases d)"
    and "\<And>c. dc_id (g c) = dc_id c \<and> (dc_portalEnabledAt c \<noteq> None \<longrightarrow> dc_portalEnabledAt (g c) \<noteq> None)"
  shows "portal_gate d'"
  using gate_step [OF assms(1)] live_sessions_cong [OF assms(2)] portal_on_map [OF assms(3,4)] by metis

lemma gate_cong: "portal_gate d \<Longrightarrow> portalSessions d' = portalSessions d \<Longrightarrow> docCases d' = docCases d \<Longrightarrow> portal_gate d'"
  using gate_cases [of d d' "\<lambda>c. c"] by simp

text \<open>The write conditions of the switch, with unique ids.\<close>

definition switched :: "string \<Rightarrow> date option \<Rightarrow> DocCase \<Rightarrow> DocCase" where
  "switched i t c = (if dc_id c = i then c\<lparr>dc_portalEnabledAt := t\<rparr> else c)"

lemma filter_one_key: "distinct (map k xs) \<Longrightarrow> c \<in> set xs \<Longrightarrow> filter (\<lambda>q. k q = k c) xs = [c]"
proof (induction xs)
  case (Cons a xs)
  show ?case
  proof (cases "c \<in> set xs")
    case True
    then have "k a \<noteq> k c" using Cons.prems(1) by auto
    then show ?thesis using Cons True by simp
  next
    case False
    then have "a = c" "k c \<notin> k ` set xs" using Cons.prems by auto
    then have "filter (\<lambda>q. k q = k c) xs = []" by (metis (mono_tags, lifting) filter_False image_eqI)
    then show ?thesis using \<open>a = c\<close> by simp
  qed
qed simp

lemma update_one_case:
  assumes "cases_ok cases" "c \<in> set cases" "w c" "\<And>q. w q \<Longrightarrow> dc_id q = i"
  shows "update_many w f cases = (map (\<lambda>q. if dc_id q = i then f q else q) cases, 1)"
proof -
  have i: "dc_id c = i" using assms(3,4) by blast
  have wq: "w q \<longleftrightarrow> dc_id q = i" if "q \<in> set cases" for q
  proof
    assume "dc_id q = i"
    then have "q = c" using i by (intro same_case [OF assms(1,2) that]) simp
    then show "w q" using assms(3) by (simp only:)
  qed (rule assms(4))
  have "filter w cases = filter (\<lambda>q. dc_id q = dc_id c) cases" unfolding i using wq by (rule filter_cong [OF refl])
  also have "\<dots> = [c]" using assms(1,2) by (intro filter_one_key) (simp_all add: cases_ok_def)
  finally have "length (filter w cases) = 1" by simp
  moreover have "map (\<lambda>r. if w r then f r else r) cases = map (\<lambda>q. if dc_id q = i then f q else q) cases"
    by (rule map_cong [OF refl]) (simp only: wq)
  ultimately show ?thesis by (simp only: update_many_def)
qed

lemma update_no_case: "(\<And>q. q \<in> set cases \<Longrightarrow> \<not> w q) \<Longrightarrow> update_many w f cases = (cases, 0)"
  by (simp add: update_many_def filter_empty_conv map_idI)

lemma switched_map: "map (\<lambda>q. if dc_id q = i then q\<lparr>dc_portalEnabledAt := t\<rparr> else q) cases = map (switched i t) cases"
  by (simp add: switched_def)

text \<open>Turning a portal on either changes nothing or switches one case and writes one audit row.\<close>

definition can_enable :: "string \<Rightarrow> string \<Rightarrow> DocCase \<Rightarrow> bool" where
  "can_enable i t c \<longleftrightarrow> dc_id c = i \<and> dc_tenantId c = t \<and> dc_deletedAt c = None \<and> dc_portalEnabledAt c = None
     \<and> dc_status c = DC_ACTIVE \<and> dc_portalPhoneLast4 c \<noteq> None"

definition turned_on :: "env \<Rightarrow> string \<Rightarrow> string \<Rightarrow> string \<Rightarrow> ActivationType \<Rightarrow> db \<Rightarrow> db \<Rightarrow> bool" where
  "turned_on E i t a k d d' \<longleftrightarrow> (\<exists>c \<in> set (docCases d). can_enable i t c)
     \<and> audit_tx E 21 (portal_audit t (if k = MANUAL then ''PORTAL_ACTIVATED'' else ''PORTAL_AUTO_ACTIVATED'') i a
          [(''caseId'', JStr i), (''activationType'', JStr (activation_name k))])
        (d\<lparr>docCases := map (switched i (Some (ev_clock E 20))) (docCases d)\<rparr>) = Inr d'"

lemma enable_Inr:
  assumes "enablePortalInTx E i t a k d = Inr ((b, at0), d')" "cases_ok (docCases d)"
  shows "b \<and> d' = d \<and> \<not> (\<exists>c \<in> set (docCases d). can_enable i t c) \<or> \<not> b \<and> at0 = ev_clock E 20 \<and> turned_on E i t a k d d'"
proof (cases "\<exists>c \<in> set (docCases d). can_enable i t c")
  case True
  then obtain c where c: "c \<in> set (docCases d)" "can_enable i t c" by blast
  have u: "update_many (can_enable i t) (\<lambda>q. q\<lparr>dc_portalEnabledAt := Some (ev_clock E 20)\<rparr>) (docCases d)
      = (map (switched i (Some (ev_clock E 20))) (docCases d), 1)"
    unfolding switched_map [symmetric] by (rule update_one_case [OF assms(2) c(1)]) (rule c(2), simp only: can_enable_def)
  show ?thesis using assms(1) True
    unfolding enablePortalInTx_def Let_def can_enable_def [symmetric] u turned_on_def
    by (auto simp: res_bind_Inr_iff)
next
  case False
  then have u: "update_many (can_enable i t) (\<lambda>q. q\<lparr>dc_portalEnabledAt := Some (ev_clock E 20)\<rparr>) (docCases d) = (docCases d, 0)"
    by (intro update_no_case) blast
  show ?thesis using assms(1) False
    unfolding enablePortalInTx_def Let_def can_enable_def [symmetric] u
    by (auto split: option.splits)
qed

definition can_disable :: "string \<Rightarrow> string \<Rightarrow> DocCase \<Rightarrow> bool" where
  "can_disable i t c \<longleftrightarrow> dc_id c = i \<and> dc_tenantId c = t \<and> dc_deletedAt c = None \<and> dc_portalEnabledAt c \<noteq> None"

definition turned_off :: "env \<Rightarrow> string \<Rightarrow> string \<Rightarrow> string \<Rightarrow> db \<Rightarrow> db \<Rightarrow> bool" where
  "turned_off E i t a d d' \<longleftrightarrow> (\<exists>c \<in> set (docCases d). can_disable i t c)
     \<and> audit_tx E 23 (portal_audit t ''PORTAL_DEACTIVATED'' i a [(''caseId'', JStr i)])
        (fst (revoke_case_sessions (ev_clock E 22) i (d\<lparr>docCases := map (switched i None) (docCases d)\<rparr>))) = Inr d'"

lemma disable_Inr:
  assumes "disablePortalInTx E i t a d = Inr (b, d')" "cases_ok (docCases d)"
  shows "b \<and> d' = d \<and> \<not> (\<exists>c \<in> set (docCases d). can_disable i t c) \<or> \<not> b \<and> turned_off E i t a d d'"
proof (cases "\<exists>c \<in> set (docCases d). can_disable i t c")
  case True
  then obtain c where c: "c \<in> set (docCases d)" "can_disable i t c" by blast
  have u: "update_many (can_disable i t) (\<lambda>q. q\<lparr>dc_portalEnabledAt := None\<rparr>) (docCases d) = (map (switched i None) (docCases d), 1)"
    unfolding switched_map [symmetric] by (rule update_one_case [OF assms(2) c(1)]) (rule c(2), simp only: can_disable_def)
  show ?thesis using assms(1) True
    unfolding disablePortalInTx_def Let_def can_disable_def [symmetric] u turned_off_def
    by (auto simp: res_bind_Inr_iff)
next
  case False
  then have u: "update_many (can_disable i t) (\<lambda>q. q\<lparr>dc_portalEnabledAt := None\<rparr>) (docCases d) = (docCases d, 0)"
    by (intro update_no_case) blast
  show ?thesis using assms(1) False
    unfolding disablePortalInTx_def Let_def can_disable_def [symmetric] u by auto
qed

lemma switched_keys: "dc_id (switched i t c) = dc_id c" "dc_tenantId (switched i t c) = dc_tenantId c"
  "dc_deletedAt (switched i t c) = dc_deletedAt c" "dc_status (switched i t c) = dc_status c" "dc_portalPhoneLast4 (switched i t c) = dc_portalPhoneLast4 c"
  "dc_portalEnabledAt (switched i t c) = (if dc_id c = i then t else dc_portalEnabledAt c)"
  by (simp_all add: switched_def)

lemma switched_cases_ok: "cases_ok cases \<Longrightarrow> cases_ok (map (switched i t) cases)"
  unfolding switched_def by (rule cases_ok_map_keys) simp_all

lemma turned_on_facts:
  assumes "turned_on E i t a k d d'"
  shows "docCases d' = map (switched i (Some (ev_clock E 20))) (docCases d)" "portalSessions d' = portalSessions d"
    "caseNotes d' = caseNotes d" "caseDocuments d' = caseDocuments d" "caseEvents d' = caseEvents d" "contactRequests d' = contactRequests d"
    "logged d d' [(t, if k = MANUAL then ''PORTAL_ACTIVATED'' else ''PORTAL_AUTO_ACTIVATED'', i)]"
    "env_law (ev_audit E) \<Longrightarrow> chain_ok (auditRows d) \<Longrightarrow> chain_ok (auditRows d')"
    "cases_ok (docCases d) \<Longrightarrow> cases_ok (docCases d')" "portal_gate d \<Longrightarrow> portal_gate d'"
proof -
  let ?d1 = "d\<lparr>docCases := map (switched i (Some (ev_clock E 20))) (docCases d)\<rparr>"
  from assms have au: "audit_tx E 21 (portal_audit t (if k = MANUAL then ''PORTAL_ACTIVATED'' else ''PORTAL_AUTO_ACTIVATED'') i a
          [(''caseId'', JStr i), (''activationType'', JStr (activation_name k))]) ?d1 = Inr d'"
    unfolding turned_on_def by blast
  show docs: "docCases d' = map (switched i (Some (ev_clock E 20))) (docCases d)" and ss: "portalSessions d' = portalSessions d"
    and "caseNotes d' = caseNotes d" "caseDocuments d' = caseDocuments d" "caseEvents d' = caseEvents d" "contactRequests d' = contactRequests d"
    using audit_tx_tables [OF au] by simp_all
  show "logged d d' [(t, if k = MANUAL then ''PORTAL_ACTIVATED'' else ''PORTAL_AUTO_ACTIVATED'', i)]"
    using logged_cong [OF logged_audit [OF au], of d d'] by (simp add: portal_audit_def audit_input_def)
  show "env_law (ev_audit E) \<Longrightarrow> chain_ok (auditRows d) \<Longrightarrow> chain_ok (auditRows d')"
    using audit_tx_chain [OF au] by simp
  show "cases_ok (docCases d) \<Longrightarrow> cases_ok (docCases d')" unfolding docs by (rule switched_cases_ok)
  show "portal_gate d \<Longrightarrow> portal_gate d'" by (rule gate_cases [OF _ ss docs]) (simp_all add: switched_keys)
qed

lemma turned_off_facts:
  assumes "turned_off E i t a d d'"
  shows "docCases d' = map (switched i None) (docCases d)" "live_sessions i d' = []" "j \<noteq> i \<Longrightarrow> live_sessions j d' = live_sessions j d"
    "caseNotes d' = caseNotes d" "caseDocuments d' = caseDocuments d" "caseEvents d' = caseEvents d" "contactRequests d' = contactRequests d"
    "mandateRequests d' = mandateRequests d"
    "logged d d' [(t, ''PORTAL_DEACTIVATED'', i)]"
    "env_law (ev_audit E) \<Longrightarrow> chain_ok (auditRows d) \<Longrightarrow> chain_ok (auditRows d')"
    "cases_ok (docCases d) \<Longrightarrow> cases_ok (docCases d')" "portal_gate d \<Longrightarrow> portal_gate d'"
proof -
  let ?d0 = "d\<lparr>docCases := map (switched i None) (docCases d)\<rparr>"
  let ?d1 = "fst (revoke_case_sessions (ev_clock E 22) i ?d0)"
  from assms have au: "audit_tx E 23 (portal_audit t ''PORTAL_DEACTIVATED'' i a [(''caseId'', JStr i)]) ?d1 = Inr d'"
    unfolding turned_off_def by blast
  show docs: "docCases d' = map (switched i None) (docCases d)"
    and "caseNotes d' = caseNotes d" "caseDocuments d' = caseDocuments d" "caseEvents d' = caseEvents d" "contactRequests d' = contactRequests d"
    "mandateRequests d' = mandateRequests d"
    using audit_tx_tables [OF au] by (simp_all add: revoke_case_sessions_def Let_def)
  have ss: "live_sessions j d' = live_sessions j ?d1" for j by (rule live_sessions_cong) (simp add: audit_tx_tables [OF au])
  show off: "live_sessions i d' = []" unfolding ss by (rule revoke_case_sessions_facts)
  have other: "live_sessions j d' = live_sessions j d" if "j \<noteq> i" for j
    using revoke_case_sessions_facts(3) [OF that, of _ ?d0] ss live_sessions_cong [of ?d0 d j] by simp
  then show "j \<noteq> i \<Longrightarrow> live_sessions j d' = live_sessions j d" .
  show "logged d d' [(t, ''PORTAL_DEACTIVATED'', i)]"
    using logged_cong [OF logged_audit [OF au], of d d'] by (simp add: portal_audit_def audit_input_def)
  show "env_law (ev_audit E) \<Longrightarrow> chain_ok (auditRows d) \<Longrightarrow> chain_ok (auditRows d')"
    using audit_tx_chain [OF au] by simp
  show "cases_ok (docCases d) \<Longrightarrow> cases_ok (docCases d')" unfolding docs by (rule switched_cases_ok)
  show "portal_gate d'" if "portal_gate d"
  proof (rule gate_step [OF that])
    show "live_sessions j d' = [] \<or> portal_on j d'" if "live_sessions j d = []" for j
      using off other that by (cases "j = i") simp_all
    show "live_sessions j d' = [] \<or> portal_on j d'" if "portal_on j d" for j
    proof (cases "j = i")
      case False
      from that obtain c where "c \<in> set (docCases d)" "dc_id c = j" "dc_portalEnabledAt c \<noteq> None" by (auto simp: portal_on_def)
      then have "switched i None c \<in> set (docCases d')" "dc_id (switched i None c) = j" "dc_portalEnabledAt (switched i None c) \<noteq> None"
        using False by (simp_all add: docs switched_keys)
      then show ?thesis unfolding portal_on_def by blast
    qed (use off in simp)
  qed
qed

section \<open>The change of contact\<close>

lemma approveContactChange_Inr:
  assumes "approveContactChange E ctx r d = Inr (n, d')"
  shows "\<exists>q d1. find_first (\<lambda>x. cc_id x = r \<and> cc_tenantId x = tenantId ctx) (contactRequests d) = Some q
     \<and> cc_status q = CC_PENDING \<and> cc_requestedBy q \<noteq> userId ctx
     \<and> contactRequests d1 = map (\<lambda>x. if cc_id x = r then x\<lparr>cc_status := CC_APPROVED, cc_approvedBy := Some (userId ctx),
          cc_resolvedAt := Some (ev_clock E 1)\<rparr> else x) (contactRequests d)
     \<and> docCases d1 = map (\<lambda>c. if dc_id c = cc_caseId q then contact_swapped (ev_clock E 1) (cc_newPhone q) c else c) (docCases d)
     \<and> portalSessions d1 = portalSessions d \<and> auditRows d1 = auditRows d
     \<and> n = snd (revoke_case_sessions (ev_clock E 1) (cc_caseId q) d1)
     \<and> (\<exists>p p'. audit_tx E 3 (audit_input (tenantId ctx) ''PORTAL_CONTACT_CHANGE_APPROVED'' ''PortalContactChangeRequest''
            r (Some (userId ctx)) ''UPDATE'' p) (case_event E 2 (tenantId ctx) (cc_caseId q) PORTAL_CONTACT_CHANGE_APPROVED (Some (userId ctx)) p'
              (fst (revoke_case_sessions (ev_clock E 1) (cc_caseId q) d1))) = Inr d')"
proof -
  from assms obtain q rs cs where q: "find_first (\<lambda>x. cc_id x = r \<and> cc_tenantId x = tenantId ctx) (contactRequests d) = Some q"
      "cc_status q = CC_PENDING" "cc_requestedBy q \<noteq> userId ctx"
    and rs: "rs = fst (update_many (\<lambda>x. cc_id x = r) (\<lambda>x. x\<lparr>cc_status := CC_APPROVED, cc_approvedBy := Some (userId ctx),
          cc_resolvedAt := Some (ev_clock E 1)\<rparr>) (contactRequests d))"
    and cs: "cs = fst (update_many (\<lambda>c. dc_id c = cc_caseId q) (contact_swapped (ev_clock E 1) (cc_newPhone q)) (docCases d))"
    and n: "n = snd (revoke_case_sessions (ev_clock E 1) (cc_caseId q) (d\<lparr>contactRequests := rs, docCases := cs\<rparr>))"
    and a: "audit_tx E 3 (audit_input (tenantId ctx) ''PORTAL_CONTACT_CHANGE_APPROVED'' ''PortalContactChangeRequest''
            r (Some (userId ctx)) ''UPDATE'' [(''caseId'', JStr (cc_caseId q)), (''sessionsRevoked'', jint (int n))])
          (case_event E 2 (tenantId ctx) (cc_caseId q) PORTAL_CONTACT_CHANGE_APPROVED (Some (userId ctx))
             [(''requestId'', JStr r), (''sessionsRevoked'', jint (int n))]
              (fst (revoke_case_sessions (ev_clock E 1) (cc_caseId q) (d\<lparr>contactRequests := rs, docCases := cs\<rparr>)))) = Inr d'"
    unfolding approveContactChange_def Let_def res_bind_Inr_iff
    by (elim exE conjE) (auto simp: res_bind_Inr_iff update_row_Inr audit_log_tx_Inr)
  show ?thesis
    by (rule exI [of _ q], rule exI [of _ "d\<lparr>contactRequests := rs, docCases := cs\<rparr>"])
       (use q n a in \<open>auto simp: rs cs update_many_def\<close>)
qed

section \<open>Properties\<close>

text \<open>
  the outcome of a verification. It succeeds only for a live case with that number whose
  portal is accessible and whose stored digits have the digest of those given, and only when
  fewer than five failures from the address were recorded in the last half hour; then it opens
  one unrevoked session on that case, for a quarter of an hour, under the digest of the token it
  returns, and records the success. Every failure answers with the one status of the portal,
  opens nothing and records a failed attempt, except when the token clashes with an old one.
\<close>

theorem verify_outcome:
  assumes "verify E n p ip ua d = (res, d')"
  shows "docCases d' = docCases d \<and> (case res of
      Inr (tok, ex) \<Rightarrow> failures (ev_clock E 1 - 30 * 60000) (trim (to_upper n)) ip d < 5
        \<and> (\<exists>c \<in> set (docCases d). entitled E (trim (to_upper n)) (digits_only p) c
            \<and> (\<exists>s a. portalSessions d' = portalSessions d @ [s] \<and> authAttempts d' = authAttempts d @ [a] \<and> pt_succeeded a
                \<and> ps_caseId s = dc_id c \<and> ps_tokenHash s = hashSessionToken (sha256 (ev_audit E)) tok
                \<and> ps_revokedAt s = None \<and> ps_expiresAt s = ev_clock E 3 + 15 * 60000))
    | Inl e \<Rightarrow> portalSessions d' = portalSessions d
        \<and> (e = UniqueViolation \<and> d' = d
           \<or> httpStatus e = 401 \<and> (\<exists>a. authAttempts d' = authAttempts d @ [a] \<and> \<not> pt_succeeded a
                \<and> pt_caseNumber a = trim (to_upper n) \<and> pt_ipAddress a = ip)))"
proof (cases res)
  case (Inl e)
  from verify_Inl [OF assms [unfolded Inl]] verify_docCases [of E n p ip ua d] show ?thesis
    unfolding Inl using assms by auto
next
  case (Inr x)
  obtain tok ex where x: "x = (tok, ex)" by (cases x)
  from verify_Inr [OF assms [unfolded Inr x]] obtain c where c: "c \<in> set (docCases d)" "entitled E (trim (to_upper n)) (digits_only p) c"
    and lo: "\<not> isLockedOut (ev_clock E 1) (trim (to_upper n)) ip d" and tok: "tok = ev_token E"
    and d': "d' = record_attempt E 4 (trim (to_upper n)) ip True (Some (dc_id c)) (Some (dc_tenantId c))
          (d\<lparr>portalSessions := portalSessions d @ [new_session E ip ua c]\<rparr>)" by blast
  have "failures (ev_clock E 1 - 30 * 60000) (trim (to_upper n)) ip d < 5"
    using lo by (simp add: isLockedOut_def Let_def failures_def PORTAL_MAX_ATTEMPTS_def PORTAL_LOCKOUT_MINUTES_def)
  moreover have "ps_caseId (new_session E ip ua c) = dc_id c" "ps_revokedAt (new_session E ip ua c) = None"
    "ps_tokenHash (new_session E ip ua c) = hashSessionToken (sha256 (ev_audit E)) tok"
    "ps_expiresAt (new_session E ip ua c) = ev_clock E 3 + 15 * 60000"
    by (simp_all add: new_session_def tok sessionExpiry_def PORTAL_SESSION_MINUTES_def)
  ultimately show ?thesis using c unfolding Inr x by (auto simp: d')
qed

text \<open>
  C32: how many wrong guesses are compared in half an hour. Calls from one address on one case
  number count, compare and record in separate queries, in any interleaving with each other and with
  everything else, and with any digits. If at most \<open>m\<close> of them are under way at a time, at most
  \<open>4 + m\<close> of those whose count falls into the half hour learn that their digits were wrong: five,
  as documented, when the calls come one after the other.
\<close>

theorem guesses_bounded:
  assumes "probing m n ip t0 d0 f g k d"
  shows "k \<le> 4 + m"
  using probing_bound [OF assms] by linarith

text \<open>
  an approved change of contact shuts the old holder out. Who approves is not who asked, the
  request was pending and of the tenant, and is now approved, so that a second approval fails;
  the case answers to the digits of the new phone; none of its sessions is live any more, as many
  were revoked as were live, and the sessions of other cases are as they were.
\<close>

theorem contact_change_shuts_out:
  assumes "approveContactChange E ctx r d = Inr (n, d')"
  shows "\<exists>q \<in> set (contactRequests d). cc_id q = r \<and> cc_tenantId q = tenantId ctx \<and> cc_status q = CC_PENDING
     \<and> cc_requestedBy q \<noteq> userId ctx \<and> live_sessions (cc_caseId q) d' = [] \<and> n = length (live_sessions (cc_caseId q) d)
     \<and> (\<forall>j. j \<noteq> cc_caseId q \<longrightarrow> live_sessions j d' = live_sessions j d)
     \<and> (\<forall>c \<in> set (docCases d'). dc_id c = cc_caseId q \<longrightarrow> dc_portalPhoneLast4 c = Some (phoneLast4 (cc_newPhone q)))
     \<and> logged d d' [(tenantId ctx, ''PORTAL_CONTACT_CHANGE_APPROVED'', r)] \<and> isl (approveContactChange E' ctx' r d')"
proof -
  let ?up = "\<lambda>x. if cc_id x = r then x\<lparr>cc_status := CC_APPROVED, cc_approvedBy := Some (userId ctx), cc_resolvedAt := Some (ev_clock E 1)\<rparr> else x"
  from approveContactChange_Inr [OF assms] obtain q d1 p p' where
    q: "find_first (\<lambda>x. cc_id x = r \<and> cc_tenantId x = tenantId ctx) (contactRequests d) = Some q"
      "cc_status q = CC_PENDING" "cc_requestedBy q \<noteq> userId ctx"
    and rs: "contactRequests d1 = map ?up (contactRequests d)"
    and cs: "docCases d1 = map (\<lambda>c. if dc_id c = cc_caseId q then contact_swapped (ev_clock E 1) (cc_newPhone q) c else c) (docCases d)"
    and ss: "portalSessions d1 = portalSessions d" "auditRows d1 = auditRows d"
    and n: "n = snd (revoke_case_sessions (ev_clock E 1) (cc_caseId q) d1)"
    and au: "audit_tx E 3 (audit_input (tenantId ctx) ''PORTAL_CONTACT_CHANGE_APPROVED'' ''PortalContactChangeRequest''
            r (Some (userId ctx)) ''UPDATE'' p) (case_event E 2 (tenantId ctx) (cc_caseId q) PORTAL_CONTACT_CHANGE_APPROVED (Some (userId ctx)) p'
              (fst (revoke_case_sessions (ev_clock E 1) (cc_caseId q) d1))) = Inr d'"
    by blast
  let ?d2 = "fst (revoke_case_sessions (ev_clock E 1) (cc_caseId q) d1)"
  have live: "live_sessions j d' = live_sessions j ?d2" for j
    by (rule live_sessions_cong) (simp add: audit_tx_tables [OF au])
  have l: "live_sessions (cc_caseId q) d' = []" "n = length (live_sessions (cc_caseId q) d)"
    "\<forall>j. j \<noteq> cc_caseId q \<longrightarrow> live_sessions j d' = live_sessions j d"
    using live revoke_case_sessions_facts(1-3) live_sessions_cong [OF ss(1)] by (simp_all add: n)
  have docs: "\<forall>c \<in> set (docCases d'). dc_id c = cc_caseId q \<longrightarrow> dc_portalPhoneLast4 c = Some (phoneLast4 (cc_newPhone q))"
    using audit_tx_tables [OF au] by (auto simp: cs contact_swapped_def)
  have log: "logged d d' [(tenantId ctx, ''PORTAL_CONTACT_CHANGE_APPROVED'', r)]"
    using logged_cong [OF logged_audit [OF au], of d d'] ss(2) by (simp add: audit_input_def)
  have again: "isl (approveContactChange E' ctx' r d')"
  proof (rule ccontr)
    assume "\<not> isl (approveContactChange E' ctx' r d')"
    then obtain m d'' where "approveContactChange E' ctx' r d' = Inr (m, d'')"
      by (cases "approveContactChange E' ctx' r d'") (simp_all, metis surj_pair)
    from approveContactChange_Inr [OF this] obtain q' where
      "find_first (\<lambda>x. cc_id x = r \<and> cc_tenantId x = tenantId ctx') (contactRequests d') = Some q'" "cc_status q' = CC_PENDING" by blast
    with find_first_SomeD have q': "q' \<in> set (contactRequests d')" "cc_id q' = r" "cc_status q' = CC_PENDING" by fast+
    have "contactRequests d' = map ?up (contactRequests d)" using audit_tx_tables [OF au] by (simp add: rs)
    then have "q' \<in> ?up ` set (contactRequests d)" using q'(1) by (simp only: set_map)
    then obtain x where "q' = ?up x" by (rule imageE)
    then show False using q'(2,3) by (cases "cc_id x = r") simp_all
  qed
  have q0: "q \<in> set (contactRequests d)" "cc_id q = r" "cc_tenantId q = tenantId ctx" using find_first_SomeD [OF q(1)] by simp_all
  show ?thesis by (intro bexI [of _ q] conjI q0 q(2,3) l docs log again)
qed

text \<open>
  publishing on a case that is not active shuts its client out. When the portal of a live
  case is on and its status is no longer active, making one more note visible turns the portal
  off and revokes every session, and the view of the case then fails.
\<close>

theorem publish_closes_portal:
  assumes "cases_ok (docCases d)" "setNoteVisibility E ctx noteId True d = Inr (c', d')"
    and "find_first (\<lambda>n. dn_id n = noteId \<and> dn_tenantId n = tenantId ctx \<and> dn_deletedAt n = None) (caseNotes d) = Some note"
    and "loadCase ctx (dn_caseId note) d = Inr c" "dc_portalEnabledAt c \<noteq> None" "dc_status c \<noteq> DC_ACTIVE"
  shows "dc_portalEnabledAt c' = None \<and> live_sessions (dn_caseId note) d' = [] \<and> isl (getCaseView (dn_caseId note) d')"
proof -
  let ?i = "dn_caseId note"
  let ?ns = "fst (update_many (\<lambda>n. dn_id n = noteId) (\<lambda>n. n\<lparr>dn_clientVisible := True, dn_clientVisibleAt := Some (ev_clock E 1)\<rparr>) (caseNotes d))"
  let ?d0 = "d\<lparr>caseNotes := ?ns\<rparr>"
  let ?v = "length (visible_notes ?i ?d0) + length (visible_docs ?i ?d0)"
  from assms(2,3) have "reconcilePortalActivation E ctx ?i True ''note'' noteId ?d0 = Inr (c', d')"
    unfolding setNoteVisibility_def res_bind_Inr_iff by (auto simp: update_row_Inr)
  then obtain c0 d1 d2 cs p where c0: "find_first (\<lambda>c. dc_id c = ?i \<and> dc_tenantId c = tenantId ctx) (docCases d) = Some c0"
    and sw: "portal_switch E ctx ?i c0 ?v ?d0 = Inr d1"
    and cs: "cs = fst (update_many (\<lambda>c. dc_id c = ?i) (\<lambda>c. c\<lparr>dc_lastClientVisiblePublishAt := Some (ev_clock E 24)\<rparr>) (docCases d1))"
    and d2: "d2 = case_event E 25 (tenantId ctx) ?i CLIENT_VISIBLE_PUBLISHED (Some (userId ctx)) p (d1\<lparr>docCases := cs\<rparr>)"
    and c': "find_first (\<lambda>c. dc_id c = ?i) (docCases d2) = Some c'" "d' = d2"
    unfolding reconcilePortalActivation_def Let_def res_bind_Inr_iff if_True
    by (elim exE conjE) (auto simp: update_row_Inr res_bind_Inr_iff)
  have c: "c \<in> set (docCases d)" "dc_id c = ?i" "dc_tenantId c = tenantId ctx" "dc_deletedAt c = None"
    using live_case_found [OF assms(1,4)] by (simp_all add: live_case_def)
  have "c0 = c" using find_first_SomeD [OF c0] c(2) by (intro same_case [OF assms(1) c(1)]) simp_all
  then obtain b where "disablePortalInTx E ?i (tenantId ctx) (userId ctx) ?d0 = Inr (b, d1)"
    using sw assms(5,6) unfolding portal_switch_def Let_def by (auto simp: res_bind_Inr_iff)
  moreover have "\<exists>c \<in> set (docCases ?d0). can_disable ?i (tenantId ctx) c" using c assms(5) by (auto simp: can_disable_def)
  moreover have "cases_ok (docCases ?d0)" using assms(1) by simp
  ultimately have off: "turned_off E ?i (tenantId ctx) (userId ctx) ?d0 d1" using disable_Inr by blast
  have docs: "docCases d' = map (\<lambda>c. if dc_id c = ?i then c\<lparr>dc_lastClientVisiblePublishAt := Some (ev_clock E 24)\<rparr> else c) (docCases d1)"
    by (simp add: c'(2) d2 cs update_many_def)
  have none: "dc_portalEnabledAt q = None" if "q \<in> set (docCases d')" "dc_id q = ?i" for q
    using that turned_off_facts(1) [OF off] by (auto simp: docs switched_keys split: if_splits)
  have "live_sessions ?i d' = live_sessions ?i d1" by (rule live_sessions_cong) (simp add: c'(2) d2)
  then have live: "live_sessions ?i d' = []" using turned_off_facts(2) [OF off] by simp
  have "dc_portalEnabledAt c' = None" using none find_first_SomeD [OF c'(1)] c'(2) by auto
  moreover have "isl (getCaseView ?i d')"
  proof (cases "find_first (\<lambda>c. dc_id c = ?i \<and> dc_deletedAt c = None) (docCases d')")
    case (Some q)
    then have "dc_portalEnabledAt q = None" using none find_first_SomeD [OF Some] by auto
    then show ?thesis by (simp add: getCaseView_def Some access_of_def portal_accessible_iff)
  qed (simp add: getCaseView_def)
  ultimately show ?thesis using live by simp
qed

text \<open>
  activating a portal is idempotent. An activation that switched the portal on is reported by
  any later one of the tenant, with the time of the first, which changes nothing and logs nothing.
\<close>

theorem activate_once:
  assumes "cases_ok (docCases d)" "activatePortal E ctx i d = Inr ((t, False), d1)" "tenantId ctx' = tenantId ctx"
  shows "activatePortal E' ctx' i d1 = Inr ((t, True), d1)"
proof -
  from assms(2) obtain at0 where e: "enablePortalInTx E i (tenantId ctx) (userId ctx) MANUAL d = Inr ((False, at0), d1)"
    and t: "t = iso_string at0"
    unfolding activatePortal_def res_bind_Inr_iff by (auto simp: res_bind_Inr_iff split: if_splits option.splits)
  from enable_Inr [OF e assms(1)] have at0: "at0 = ev_clock E 20" and on: "turned_on E i (tenantId ctx) (userId ctx) MANUAL d d1" by simp_all
  then obtain c where c: "c \<in> set (docCases d)" "can_enable i (tenantId ctx) c" unfolding turned_on_def by blast
  let ?c = "switched i (Some at0) c"
  have docs: "docCases d1 = map (switched i (Some at0)) (docCases d)" unfolding at0 by (rule turned_on_facts(1) [OF on])
  have ok: "cases_ok (docCases d1)" by (rule turned_on_facts(9) [OF on assms(1)])
  have c1: "?c \<in> set (docCases d1)" "dc_id ?c = i" "live_case ctx' i ?c" "dc_portalEnabledAt ?c = Some at0"
    using c assms(3) by (simp_all add: docs can_enable_def switched_keys live_case_def)
  have "\<not> can_enable i (tenantId ctx') q" if "q \<in> set (docCases d1)" for q
    using same_case [OF ok c1(1) that] c1(2,4) by (auto simp: can_enable_def)
  then have u: "update_many (can_enable i (tenantId ctx')) f (docCases d1) = (docCases d1, 0)" for f by (rule update_no_case)
  have l: "find_first (live_case ctx' i) (docCases d1) = Some ?c"
  proof -
    have "find_first (live_case ctx' i) (docCases d1) \<noteq> None" using c1 by (auto simp: find_first_None)
    then obtain q where q: "find_first (live_case ctx' i) (docCases d1) = Some q" by blast
    have "q = ?c" using find_first_SomeD [OF q] c1(2) by (intro same_case [OF ok c1(1)]) (simp_all add: live_case_def)
    with q show ?thesis by simp
  qed
  have "enablePortalInTx E' i (tenantId ctx') (userId ctx') MANUAL d1 = Inr ((True, at0), d1)"
    unfolding enablePortalInTx_def Let_def can_enable_def [symmetric] u live_case_def [symmetric]
    using l c1(4) by simp
  then show ?thesis using l c1(4) by (simp add: activatePortal_def loadCase_def t)
qed

text \<open>What is public of a document and of a note.\<close>

definition public_doc :: "DocCaseDocument \<Rightarrow> int \<times> string \<times> string \<times> ClientDocStatus \<times> date option" where
  "public_doc x = (dd_displayOrder x, dd_id x, dd_name x, toClientDocStatus (doc_status_name (dd_status x)), dd_receivedAt x)"

definition public_note :: "DocCaseNote \<Rightarrow> int \<times> string \<times> string" where
  "public_note x = (dn_createdAt x, dn_id x, dn_content x)"

definition shown_docs :: "(int \<times> string \<times> string \<times> ClientDocStatus \<times> date option) list \<Rightarrow> PortalDocument list" where
  "shown_docs ps = map (\<lambda>(_, i, n, s, r). \<lparr>pd_id = i, pd_name = n, pd_status = s, pd_receivedAt = map_option iso_string r\<rparr>) (sort_key fst ps)"

definition shown_notes :: "(int \<times> string \<times> string) list \<Rightarrow> PortalNote list" where
  "shown_notes ps = map (\<lambda>(t, i, x). \<lparr>pn_id = i, pn_content = x, pn_createdAt = iso_string t\<rparr>) (sort_key (\<lambda>p. - fst p) ps)"

lemma shown_docs_map:
  "shown_docs (map public_doc xs) = map (\<lambda>x. \<lparr>pd_id = dd_id x, pd_name = dd_name x,
     pd_status = toClientDocStatus (doc_status_name (dd_status x)), pd_receivedAt = map_option iso_string (dd_receivedAt x)\<rparr>)
     (sort_key dd_displayOrder xs)"
proof -
  have k: "dd_displayOrder = (\<lambda>x. fst (public_doc x))" by (simp add: public_doc_def)
  show ?thesis unfolding shown_docs_def k sort_key_map [of fst public_doc, OF refl]
    by (simp add: public_doc_def)
qed

lemma shown_notes_map:
  "shown_notes (map public_note xs) = map (\<lambda>n. \<lparr>pn_id = dn_id n, pn_content = dn_content n, pn_createdAt = iso_string (dn_createdAt n)\<rparr>)
     (sort_key (\<lambda>n. - dn_createdAt n) xs)"
proof -
  have k: "(\<lambda>n. - dn_createdAt n) = (\<lambda>x. - fst (public_note x))" by (simp add: public_note_def)
  show ?thesis unfolding shown_notes_def k sort_key_map [of "\<lambda>p. - fst p" public_note, OF refl]
    by (simp add: public_note_def)
qed

text \<open>The view as a function of what is public.\<close>

lemma getCaseView_public:
  assumes "find_first (\<lambda>c. dc_id c = i \<and> dc_deletedAt c = None) (docCases d) = Some c"
  shows "getCaseView i d =
     (if isPortalAccessible (access_of c)
      then Inr \<lparr>vw_caseNumber = dc_caseNumber c, vw_clientName = lead_name c d, vw_status = dc_status c,
        vw_portalActivatedAt = map_option iso_string (dc_portalEnabledAt c),
        vw_progressStages = stage_views (dc_status c) (map_option iso_string (dc_portalEnabledAt c)),
        vw_documents = shown_docs (map public_doc (visible_docs i d)),
        vw_notes = shown_notes (map public_note (visible_notes i d))\<rparr>
      else Inl (PortalVerificationFailed ''portal_deactivated_mid_session''))"
  by (simp add: getCaseView_def assms shown_docs_map shown_notes_map Let_def)

text \<open>
  C33: the view of a client shows nothing internal. Two databases, with any other difference between
  them, show the same view of a case if the case agrees in number, status, activation time and in
  whether its portal can be entered, the client has the same name, and the documents and notes that are marked visible agree in
  their public part: for a document its position, id, name, time of receipt and whether it counts as
  received, for a note its id, text and time. Rejection reasons, the exact status of a document,
  storage references, requirements, assignees, the rows not marked visible and every other column and
  table make no difference. Every document and every note shown is a live row of the case marked visible.
\<close>

theorem view_depends_on_public:
  assumes "find_first (\<lambda>c. dc_id c = i \<and> dc_deletedAt c = None) (docCases d) = Some c"
    and "find_first (\<lambda>c. dc_id c = i \<and> dc_deletedAt c = None) (docCases d') = Some c'"
    and "dc_caseNumber c' = dc_caseNumber c" "dc_status c' = dc_status c" "dc_portalEnabledAt c' = dc_portalEnabledAt c"
    and "isPortalAccessible (access_of c') = isPortalAccessible (access_of c)" "lead_name c' d' = lead_name c d"
    and "map public_doc (visible_docs i d') = map public_doc (visible_docs i d)"
    and "map public_note (visible_notes i d') = map public_note (visible_notes i d)"
  shows "getCaseView i d' = getCaseView i d
     \<and> (\<forall>v n. getCaseView i d = Inr v \<and> n \<in> set (vw_notes v) \<longrightarrow>
          (\<exists>x \<in> set (caseNotes d). dn_id x = pn_id n \<and> dn_caseId x = i \<and> dn_clientVisible x \<and> dn_deletedAt x = None))
     \<and> (\<forall>v p. getCaseView i d = Inr v \<and> p \<in> set (vw_documents v) \<longrightarrow>
          (\<exists>x \<in> set (caseDocuments d). dd_id x = pd_id p \<and> dd_caseId x = i \<and> dd_clientVisible x \<and> dd_deletedAt x = None))"
proof (intro conjI)
  show "getCaseView i d' = getCaseView i d"
    unfolding getCaseView_public [OF assms(1)] getCaseView_public [OF assms(2)] assms(3-9) ..
  show "\<forall>v n. getCaseView i d = Inr v \<and> n \<in> set (vw_notes v) \<longrightarrow>
          (\<exists>x \<in> set (caseNotes d). dn_id x = pn_id n \<and> dn_caseId x = i \<and> dn_clientVisible x \<and> dn_deletedAt x = None)"
    by (fastforce simp: getCaseView_def res_bind_Inr_iff Let_def visible_notes_def)
  show "\<forall>v p. getCaseView i d = Inr v \<and> p \<in> set (vw_documents v) \<longrightarrow>
          (\<exists>x \<in> set (caseDocuments d). dd_id x = pd_id p \<and> dd_caseId x = i \<and> dd_clientVisible x \<and> dd_deletedAt x = None)"
    by (fastforce simp: getCaseView_def res_bind_Inr_iff Let_def visible_docs_def)
qed

section \<open>Concrete runs\<close>

definition case_client :: DocCase where
  "case_client = (blank_case ''c1'' ctx_one ''l1'' None)\<lparr>dc_caseNumber := Some ''HPX-ABCD-2345'', dc_portalPhoneLast4 := Some ''3210'',
     dc_portalEnabledAt := Some 1777550400000\<rparr>"

definition note_client :: DocCaseNote where
  "note_client = \<lparr>dn_id = ''n1'', dn_tenantId = ''t1'', dn_caseId = ''c1'', dn_content = ''welcome'', dn_clientVisible = False,
     dn_clientVisibleAt = None, dn_createdAt = 1777550400000, dn_deletedAt = None\<rparr>"

definition session_client :: PortalSession where
  "session_client = \<lparr>ps_id = ''s1'', ps_tenantId = ''t1'', ps_caseId = ''c1'', ps_tokenHash = ''old'', ps_expiresAt = 1777551000000,
     ps_lastSeenAt = None, ps_ipAddress = None, ps_userAgent = None, ps_revokedAt = None\<rparr>"

definition request_client :: PortalContactChangeRequest where
  "request_client = \<lparr>cc_id = ''r1'', cc_tenantId = ''t1'', cc_caseId = ''c1'', cc_newPhone = ''9123456789'', cc_reason = ''new phone'',
     cc_status = CC_PENDING, cc_requestedBy = ''agent'', cc_approvedBy = None, cc_resolvedAt = None\<rparr>"

definition db_client :: db where
  "db_client = empty_db\<lparr>docCases := [case_client], caseNotes := [note_client], portalSessions := [session_client],
     contactRequests := [request_client]\<rparr>"

theorem verify_outcome_witness:
  "\<exists>s. portalSessions (snd (verify env_one ''hpx-abcd-2345'' ''3210'' ''10.0.0.1'' None db_client)) = portalSessions db_client @ [s]
     \<and> ps_caseId s = ''c1''"
proof -
  let ?v = "verify env_one ''hpx-abcd-2345'' ''3210'' ''10.0.0.1'' None db_client"
  have "\<not> isl (fst ?v)" by code_simp
  note v = returned_handler [OF this]
  from verify_outcome [OF v, unfolded sum.case prod.case]
  have "\<exists>c \<in> set (docCases db_client). \<exists>s. portalSessions (snd ?v) = portalSessions db_client @ [s] \<and> ps_caseId s = dc_id c"
    by (elim conjE bexE exE) (intro bexI exI conjI)
  moreover have "dc_id c = ''c1''" if "c \<in> set (docCases db_client)" for c
    using that by (simp add: db_client_def case_client_def blank_case_def)
  ultimately show ?thesis by (elim bexE exE conjE) (intro exI conjI, assumption, simp only:)
qed

theorem guesses_bounded_witness:
  "\<exists>k d. probing 2 ''HPX-ABCD-2345'' ''10.0.0.1'' 1777550400000 db_client 0 2 k d \<and> k = 2 \<and> k \<le> 4 + 2"
proof -
  have c: "verify_count env_one ''HPX-ABCD-2345'' ''9999'' ''10.0.0.1'' db_client = None" by code_simp
  have l: "verify_lookup env_one ''HPX-ABCD-2345'' ''9999'' db_client = Inl (''digit_mismatch'', Some case_client)" by code_simp
  have t: "ev_clock env_one 1 \<le> 1777550400000 + 30 * 60000" by (simp add: env_one_def)
  have p: "probing 2 ''HPX-ABCD-2345'' ''10.0.0.1'' 1777550400000 db_client 0 2 2 db_client"
    by (rule parallel_guesses [OF c t l])
  show ?thesis using guesses_bounded [OF p] p by blast
qed

theorem contact_change_shuts_out_witness:
  "live_sessions ''c1'' (snd (projr (approveContactChange env_one ctx_one ''r1'' db_client))) = []"
proof -
  let ?a = "approveContactChange env_one ctx_one ''r1'' db_client"
  have "\<not> isl ?a" by code_simp
  note a = returned [OF this]
  have "q = request_client" if "q \<in> set (contactRequests db_client)" for q using that by (simp add: db_client_def)
  moreover have "cc_caseId request_client = ''c1''" by (simp add: request_client_def)
  ultimately show ?thesis using contact_change_shuts_out [OF a] by metis
qed

definition db_ready_client :: db where
  "db_ready_client = db_client\<lparr>docCases := [case_client\<lparr>dc_status := DC_DOCUMENTATION_READY\<rparr>]\<rparr>"

theorem publish_closes_portal_witness:
  "isl (getCaseView ''c1'' (snd (projr (setNoteVisibility env_one ctx_one ''n1'' True db_ready_client))))"
proof -
  let ?a = "setNoteVisibility env_one ctx_one ''n1'' True db_ready_client" and ?c = "case_client\<lparr>dc_status := DC_DOCUMENTATION_READY\<rparr>"
  have "\<not> isl ?a" by code_simp
  note a = returned [OF this]
  have ok: "cases_ok (docCases db_ready_client)" by code_simp
  have n: "find_first (\<lambda>n. dn_id n = ''n1'' \<and> dn_tenantId n = tenantId ctx_one \<and> dn_deletedAt n = None) (caseNotes db_ready_client) = Some note_client"
    by (simp add: db_ready_client_def db_client_def note_client_def ctx_one_def)
  have i: "dn_caseId note_client = ''c1''" by (simp add: note_client_def)
  have l: "loadCase ctx_one (dn_caseId note_client) db_ready_client = Inr ?c"
    by (simp add: loadCase_def db_ready_client_def case_client_def blank_case_def live_case_def ctx_one_def i)
  have on: "dc_portalEnabledAt ?c \<noteq> None" "dc_status ?c \<noteq> DC_ACTIVE" by (simp_all add: case_client_def)
  show ?thesis using publish_closes_portal [OF ok a n l on] unfolding i by blast
qed

definition db_dark_client :: db where
  "db_dark_client = db_client\<lparr>docCases := [case_client\<lparr>dc_portalEnabledAt := None\<rparr>]\<rparr>"

theorem activate_once_witness:
  "\<exists>t d1. activatePortal env_one ctx_one ''c1'' db_dark_client = Inr ((t, False), d1)
     \<and> activatePortal (env_at 2) ctx_one ''c1'' d1 = Inr ((t, True), d1)"
proof -
  let ?a = "activatePortal env_one ctx_one ''c1'' db_dark_client"
  let ?e = "enablePortalInTx env_one ''c1'' (tenantId ctx_one) (userId ctx_one) MANUAL db_dark_client"
  have n: "\<not> isl ?e" and off: "fst (fst (projr ?e)) = False" by code_simp+
  from returned [OF n] have e: "?e = Inr ((False, snd (fst (projr ?e))), snd (projr ?e))" using off by (metis prod.collapse)
  have a: "?a = Inr ((iso_string (snd (fst (projr ?e))), False), snd (projr ?e))"
    unfolding activatePortal_def by (subst e) (simp only: res_bind_simps prod.case not_False_eq_True if_True)
  have ok: "cases_ok (docCases db_dark_client)" by code_simp
  show ?thesis using activate_once [OF ok a refl] a by blast
qed

text \<open>A document that was asked for, and the same one refused, with the reason on file.\<close>

definition doc_client :: DocCaseDocument where
  "doc_client = \<lparr>dd_id = ''x1'', dd_tenantId = ''t1'', dd_caseId = ''c1'', dd_name = ''PAN'', dd_description = None,
     dd_isMandatory = True, dd_isBlocking = True, dd_requireDate = False, dd_requireNote = False, dd_displayOrder = 1,
     dd_verificationRequired = True, dd_expiryTrackingEnabled = False, dd_clientVisible = True, dd_clientVisibleAt = None,
     dd_deletedAt = None, dd_status = DD_REQUESTED, dd_receivedAt = None, dd_verifiedAt = None, dd_verifiedBy = None,
     dd_verificationRemarks = None, dd_rejectionReason = None, dd_expiryDate = None, dd_metadataValues = [], dd_notes = None,
     dd_isWaived = False, dd_requirementDedupeKey = None, dd_isComponentMerged = False, dd_policyComponentId = None,
     dd_policyAssignmentId = None, dd_createdAt = 0, dd_updatedAt = 0\<rparr>"

definition db_shown :: "DocCase \<Rightarrow> DocCaseDocument list \<Rightarrow> db" where
  "db_shown c xs = db_client\<lparr>docCases := [c], caseDocuments := xs\<rparr>"

theorem view_depends_on_public_witness:
  "getCaseView ''c1'' (db_shown (case_client\<lparr>dc_returnReasonNote := Some ''internal'', dc_assignedTo := Some ''staff''\<rparr>)
       [doc_client\<lparr>dd_status := DD_REJECTED, dd_rejectionReason := Some ''blurred'', dd_verifiedBy := Some ''staff''\<rparr>,
        doc_client\<lparr>dd_id := ''x2'', dd_clientVisible := False\<rparr>])
     = getCaseView ''c1'' (db_shown case_client [doc_client])"
  by (rule view_depends_on_public [of _ _ case_client _ "case_client\<lparr>dc_returnReasonNote := Some ''internal'', dc_assignedTo := Some ''staff''\<rparr>", THEN conjunct1])
     (simp_all add: db_shown_def db_client_def case_client_def blank_case_def access_of_def visible_notes_def visible_docs_def
       public_doc_def public_note_def doc_client_def toClientDocStatus_def isPortalAccessible_def lead_name_def empty_db_def)

end
