(* ===== verification/Lifecycle_Service.thy ===== *)
theory Lifecycle_Service
  imports Portal_Props Process_Service
begin

text \<open>
  Closing and reopening a case, \<^verbatim>\<open>src/src/services/case-lifecycle.service.ts\<close>: the close
  turns the portal off, revokes its sessions and supersedes the open upload links in one
  transaction.
\<close>

section \<open>Closing\<close>

datatype CaseClosedReason = CLIENT_FAILED_DOCS | CLIENT_UNRESPONSIVE | CLOSED_DUPLICATE_CASE | FIRM_DECISION

fun closed_reason_name :: "CaseClosedReason \<Rightarrow> string" where
  "closed_reason_name CLIENT_FAILED_DOCS = ''CLIENT_FAILED_DOCS''"
| "closed_reason_name CLIENT_UNRESPONSIVE = ''CLIENT_UNRESPONSIVE''"
| "closed_reason_name CLOSED_DUPLICATE_CASE = ''DUPLICATE_CASE''"
| "closed_reason_name FIRM_DECISION = ''FIRM_DECISION''"

record ClosedCase =
  cl_caseId :: string
  cl_caseNumber :: "string option"
  cl_status :: DocCaseStatus
  cl_closedAt :: date
  cl_closedReason :: string

definition closable :: "TenantContext \<Rightarrow> string \<Rightarrow> DocCase \<Rightarrow> bool" where
  "closable ctx caseId c \<longleftrightarrow> live_case ctx caseId c \<and> dc_status c \<in> set [DC_INCOMING, DC_ACTIVE] \<and> dc_closedAt c = None"

definition closed_row :: "date \<Rightarrow> string \<Rightarrow> string \<Rightarrow> DocCase \<Rightarrow> DocCase" where
  "closed_row now why actor c =
     c\<lparr>dc_status := DC_CLOSED_NO_DOCS, dc_closedAt := Some now, dc_closedReason := Some why,
       dc_closedByUserId := Some actor, dc_managerReviewRequired := False\<rparr>"

definition pending_link :: "TenantContext \<Rightarrow> string \<Rightarrow> MandateRequest \<Rightarrow> bool" where
  "pending_link ctx caseId m \<longleftrightarrow> mr_caseId m = caseId \<and> mr_tenantId m = tenantId ctx \<and> mr_status m = MR_PENDING_UPLOAD"

text \<open>One event and one audit row for each superseded link.\<close>

fun supersede_each :: "env \<Rightarrow> TenantContext \<Rightarrow> string \<Rightarrow> nat \<Rightarrow> string list \<Rightarrow> db \<Rightarrow> app_error + db" where
  "supersede_each E ctx caseId k [] d = Inr d"
| "supersede_each E ctx caseId k (i # is) d =
     (let payload = [(''supersededRequestId'', JStr i), (''reason'', JStr ''CASE_CLOSED'')];
          d1 = case_event E k (tenantId ctx) caseId MANDATE_SUPERSEDED (Some (userId ctx)) payload d
      in res_bind (audit_tx E (Suc k) (audit_input (tenantId ctx) ''MANDATE_SUPERSEDED'' ''MandateRequest'' i (Some (userId ctx))
           ''UPDATE'' payload) d1) (\<lambda>d2. supersede_each E ctx caseId (k + 2) is d2))"

definition supersede_links :: "env \<Rightarrow> TenantContext \<Rightarrow> string \<Rightarrow> db \<Rightarrow> app_error + db" where
  "supersede_links E ctx caseId d =
     (let pending = map mr_id (filter (pending_link ctx caseId) (mandateRequests d))
      in if 0 < length pending
         then supersede_each E ctx caseId 40 pending
                (d\<lparr>mandateRequests := fst (update_many (pending_link ctx caseId) (\<lambda>m. m\<lparr>mr_status := MR_SUPERSEDED\<rparr>) (mandateRequests d))\<rparr>)
         else Inr d)"

definition close_effects :: "env \<Rightarrow> TenantContext \<Rightarrow> string \<Rightarrow> CaseClosedReason \<Rightarrow> ClosedCase tx" where
  "close_effects E ctx caseId why d =
     res_bind (disablePortalInTx E caseId (tenantId ctx) (userId ctx) d) (\<lambda>(_, d1).
     res_bind (or_throw (find_first (\<lambda>c. dc_id c = caseId) (docCases d1)) (Thrown ''P2025'')) (\<lambda>updated.
     res_bind (audit_tx E 3 (audit_input (tenantId ctx) ''CASE_CLOSED_NO_DOCS'' ''DocCase'' caseId (Some (userId ctx)) ''UPDATE''
         [(''reason'', JStr (closed_reason_name why)), (''caseNumber'', jopt (dc_caseNumber updated))]) d1) (\<lambda>d2.
     res_bind (supersede_links E ctx caseId d2) (\<lambda>d3.
     Inr (\<lparr>cl_caseId = caseId, cl_caseNumber = dc_caseNumber updated, cl_status = dc_status updated,
           cl_closedAt = the (dc_closedAt updated),
           cl_closedReason = or_else (dc_closedReason updated) (closed_reason_name why)\<rparr>, d3)))))"

definition closeWithoutDocs :: "env \<Rightarrow> TenantContext \<Rightarrow> string \<Rightarrow> CaseClosedReason \<Rightarrow> ClosedCase tx" where
  "closeWithoutDocs E ctx caseId why d =
     (let result = update_many (closable ctx caseId) (closed_row (ev_clock E 1) (closed_reason_name why) (userId ctx)) (docCases d);
          d1 = d\<lparr>docCases := fst result\<rparr>
      in if snd result = 0
         then res_bind (loadCase ctx caseId d1) (\<lambda>existing.
                case dc_closedAt existing of
                  Some t \<Rightarrow> Inr (\<lparr>cl_caseId = caseId, cl_caseNumber = dc_caseNumber existing, cl_status = dc_status existing,
                      cl_closedAt = t, cl_closedReason = or_else (dc_closedReason existing) (closed_reason_name why)\<rparr>, d1)
                | None \<Rightarrow> Inl (BusinessRuleViolationError (''Case in status '' @ status_name (dc_status existing)
                      @ '' cannot be closed without documentation'')))
         else close_effects E ctx caseId why d1)"

section \<open>Reopening\<close>

record ReopenedCase =
  ro_caseId :: string
  ro_caseNumber :: "string option"
  ro_status :: DocCaseStatus
  ro_reopenedAt :: date

definition reopenable :: "TenantContext \<Rightarrow> string \<Rightarrow> DocCase \<Rightarrow> bool" where
  "reopenable ctx caseId c \<longleftrightarrow> live_case ctx caseId c \<and> dc_status c = DC_CLOSED_NO_DOCS"

definition reopened_row :: "date \<Rightarrow> string \<Rightarrow> DocCase \<Rightarrow> DocCase" where
  "reopened_row now actor c =
     c\<lparr>dc_status := DC_INCOMING, dc_reopenedAt := Some now, dc_reopenedByUserId := Some actor,
       dc_closedAt := None, dc_closedReason := None, dc_closedByUserId := None\<rparr>"

definition reopenCase :: "env \<Rightarrow> TenantContext \<Rightarrow> string \<Rightarrow> ReopenedCase tx" where
  "reopenCase E ctx caseId d =
     (let result = update_many (reopenable ctx caseId) (reopened_row (ev_clock E 1) (userId ctx)) (docCases d);
          d1 = d\<lparr>docCases := fst result\<rparr>
      in if snd result = 0
         then res_bind (loadCase ctx caseId d1) (\<lambda>existing.
                Inl (BusinessRuleViolationError (''Case in status '' @ status_name (dc_status existing)
                  @ '' cannot be reopened '' @ em_dash @ '' only CLOSED_NO_DOCS cases can be reopened'')))
         else res_bind (or_throw (find_first (\<lambda>c. dc_id c = caseId) (docCases d1)) (Thrown ''P2025'')) (\<lambda>updated.
              res_bind (audit_tx E 3 (audit_input (tenantId ctx) ''CASE_REOPENED'' ''DocCase'' caseId (Some (userId ctx)) ''UPDATE''
                [(''caseNumber'', jopt (dc_caseNumber updated)), (''reopenedToStatus'', JStr ''INCOMING'')]) d1) (\<lambda>d2.
              Inr (\<lparr>ro_caseId = caseId, ro_caseNumber = dc_caseNumber updated, ro_status = dc_status updated,
                     ro_reopenedAt = the (dc_reopenedAt updated)\<rparr>, d2))))"

section \<open>What a close writes\<close>

lemma supersede_each_Inr:
  assumes "supersede_each E ctx i k ms d = Inr d'"
  shows "docCases d' = docCases d \<and> portalSessions d' = portalSessions d \<and> mandateRequests d' = mandateRequests d
     \<and> mandateUploads d' = mandateUploads d
     \<and> logged d d' (map (\<lambda>m. (tenantId ctx, ''MANDATE_SUPERSEDED'', m)) ms)
     \<and> (env_law (ev_audit E) \<and> chain_ok (auditRows d) \<longrightarrow> chain_ok (auditRows d'))"
  using assms
proof (induction ms arbitrary: k d)
  case (Cons m ms)
  define pl where "pl = [(''supersededRequestId'', JStr m), (''reason'', JStr ''CASE_CLOSED'')]"
  define d1 where "d1 = case_event E k (tenantId ctx) i MANDATE_SUPERSEDED (Some (userId ctx)) pl d"
  from Cons.prems obtain d2 where a: "audit_tx E (Suc k) (audit_input (tenantId ctx) ''MANDATE_SUPERSEDED'' ''MandateRequest'' m
      (Some (userId ctx)) ''UPDATE'' pl) d1 = Inr d2" and r: "supersede_each E ctx i (k + 2) ms d2 = Inr d'"
    by (auto simp: Let_def res_bind_Inr_iff pl_def d1_def)
  have l: "logged d d2 [(tenantId ctx, ''MANDATE_SUPERSEDED'', m)]"
    using logged_cong [OF logged_audit [OF a], of d d2] by (simp add: audit_input_def d1_def)
  note IH = Cons.IH [OF r]
  have "logged d d' ([(tenantId ctx, ''MANDATE_SUPERSEDED'', m)] @ map (\<lambda>m. (tenantId ctx, ''MANDATE_SUPERSEDED'', m)) ms)"
    using IH by (intro logged_trans [OF l]) blast
  moreover have "env_law (ev_audit E) \<and> chain_ok (auditRows d) \<longrightarrow> chain_ok (auditRows d')"
    using IH audit_tx_chain [OF a] by (simp add: d1_def)
  ultimately show ?case using IH audit_tx_tables [OF a] by (simp add: d1_def)
qed (simp add: logged_def)

lemma supersede_links_Inr:
  assumes "supersede_links E ctx i d = Inr d'"
  shows "docCases d' = docCases d" "portalSessions d' = portalSessions d" "mandateUploads d' = mandateUploads d"
    "mandateRequests d' = map (\<lambda>m. if pending_link ctx i m then m\<lparr>mr_status := MR_SUPERSEDED\<rparr> else m) (mandateRequests d)"
    "logged d d' (map (\<lambda>m. (tenantId ctx, ''MANDATE_SUPERSEDED'', mr_id m)) (filter (pending_link ctx i) (mandateRequests d)))"
    "env_law (ev_audit E) \<Longrightarrow> chain_ok (auditRows d) \<Longrightarrow> chain_ok (auditRows d')"
proof -
  have "docCases d' = docCases d \<and> portalSessions d' = portalSessions d \<and> mandateUploads d' = mandateUploads d
    \<and> mandateRequests d' = map (\<lambda>m. if pending_link ctx i m then m\<lparr>mr_status := MR_SUPERSEDED\<rparr> else m) (mandateRequests d)
    \<and> logged d d' (map (\<lambda>m. (tenantId ctx, ''MANDATE_SUPERSEDED'', mr_id m)) (filter (pending_link ctx i) (mandateRequests d)))
    \<and> (env_law (ev_audit E) \<and> chain_ok (auditRows d) \<longrightarrow> chain_ok (auditRows d'))"
  proof (cases "filter (pending_link ctx i) (mandateRequests d) = []")
    case True
    then have "d' = d" using assms by (simp add: supersede_links_def)
    then show ?thesis using True by (simp add: map_idI filter_empty_conv)
  next
    case False
    let ?d1 = "d\<lparr>mandateRequests := fst (update_many (pending_link ctx i) (\<lambda>m. m\<lparr>mr_status := MR_SUPERSEDED\<rparr>) (mandateRequests d))\<rparr>"
    have "supersede_each E ctx i 40 (map mr_id (filter (pending_link ctx i) (mandateRequests d))) ?d1 = Inr d'"
      using assms False by (simp add: supersede_links_def)
    note f = supersede_each_Inr [OF this]
    have "logged ?d1 d' (map (\<lambda>m. (tenantId ctx, ''MANDATE_SUPERSEDED'', mr_id m)) (filter (pending_link ctx i) (mandateRequests d)))"
      using f by (simp add: comp_def)
    then have "logged d d' (map (\<lambda>m. (tenantId ctx, ''MANDATE_SUPERSEDED'', mr_id m)) (filter (pending_link ctx i) (mandateRequests d)))"
      by (rule logged_cong) simp_all
    then show ?thesis using f by (simp add: update_many_def)
  qed
  then show "docCases d' = docCases d" "portalSessions d' = portalSessions d" "mandateUploads d' = mandateUploads d"
    "mandateRequests d' = map (\<lambda>m. if pending_link ctx i m then m\<lparr>mr_status := MR_SUPERSEDED\<rparr> else m) (mandateRequests d)"
    "logged d d' (map (\<lambda>m. (tenantId ctx, ''MANDATE_SUPERSEDED'', mr_id m)) (filter (pending_link ctx i) (mandateRequests d)))"
    "env_law (ev_audit E) \<Longrightarrow> chain_ok (auditRows d) \<Longrightarrow> chain_ok (auditRows d')"
    by blast+
qed

text \<open>The portal after its switch was thrown inside another transaction.\<close>

lemma disable_facts:
  assumes "disablePortalInTx E i t a d = Inr (b, d')" "cases_ok (docCases d)" "portal_gate d"
    and c: "c \<in> set (docCases d)" "dc_id c = i" "dc_tenantId c = t" "dc_deletedAt c = None"
  shows "docCases d' = map (switched i None) (docCases d)" "live_sessions i d' = []" "mandateRequests d' = mandateRequests d"
    "logged d d' (if dc_portalEnabledAt c = None then [] else [(t, ''PORTAL_DEACTIVATED'', i)])"
    "cases_ok (docCases d')" "portal_gate d'"
    "env_law (ev_audit E) \<Longrightarrow> chain_ok (auditRows d) \<Longrightarrow> chain_ok (auditRows d')"
proof -
  have same: "q = c" if "q \<in> set (docCases d)" "dc_id q = i" for q using same_case [OF assms(2) c(1) that(1)] that(2) c(2) by simp
  have can: "(\<exists>q \<in> set (docCases d). can_disable i t q) \<longleftrightarrow> dc_portalEnabledAt c \<noteq> None"
    using c same unfolding can_disable_def by metis
  have "docCases d' = map (switched i None) (docCases d) \<and> live_sessions i d' = [] \<and> mandateRequests d' = mandateRequests d
    \<and> logged d d' (if dc_portalEnabledAt c = None then [] else [(t, ''PORTAL_DEACTIVATED'', i)])
    \<and> cases_ok (docCases d') \<and> portal_gate d' \<and> (env_law (ev_audit E) \<and> chain_ok (auditRows d) \<longrightarrow> chain_ok (auditRows d'))"
  proof (cases "dc_portalEnabledAt c = None")
    case True
    then have d': "d' = d" using disable_Inr [OF assms(1,2)] can unfolding turned_off_def by blast
    have "switched i None q = q" if "q \<in> set (docCases d)" for q
      using same [OF that] True by (cases "dc_id q = i") (auto simp: switched_def)
    then have "map (switched i None) (docCases d) = docCases d" by (rule map_idI)
    moreover have "\<not> portal_on i d" using same True unfolding portal_on_def by metis
    then have "live_sessions i d = []" using assms(3) unfolding portal_gate_def by blast
    ultimately show ?thesis using d' True assms(2,3) by simp
  next
    case False
    then have t: "turned_off E i t a d d'" using disable_Inr [OF assms(1,2)] can by blast
    show ?thesis using turned_off_facts(1,2,8,9,10,11,12) [OF t] assms(2,3) by (simp add: False)
  qed
  then show "docCases d' = map (switched i None) (docCases d)" "live_sessions i d' = []" "mandateRequests d' = mandateRequests d"
    "logged d d' (if dc_portalEnabledAt c = None then [] else [(t, ''PORTAL_DEACTIVATED'', i)])"
    "cases_ok (docCases d')" "portal_gate d'"
    "env_law (ev_audit E) \<Longrightarrow> chain_ok (auditRows d) \<Longrightarrow> chain_ok (auditRows d')"
    by blast+
qed

text \<open>The guarded write of a close: which case it takes, and what a second close sees.\<close>

lemma closed_keys: "dc_id (closed_row now why a c) = dc_id c" "dc_tenantId (closed_row now why a c) = dc_tenantId c"
  "dc_leadId (closed_row now why a c) = dc_leadId c" "dc_caseNumber (closed_row now why a c) = dc_caseNumber c"
  "dc_deletedAt (closed_row now why a c) = dc_deletedAt c" "dc_portalEnabledAt (closed_row now why a c) = dc_portalEnabledAt c"
  "dc_status (closed_row now why a c) = DC_CLOSED_NO_DOCS" "dc_closedAt (closed_row now why a c) = Some now"
  by (simp_all add: closed_row_def)

lemma close_write:
  assumes "cases_ok (docCases d)" "c \<in> set (docCases d)" "closable ctx i c"
  shows "update_many (closable ctx i) (closed_row now why a) (docCases d)
    = (map (\<lambda>q. if dc_id q = i then closed_row now why a q else q) (docCases d), 1)"
  by (rule update_one_case [OF assms(1,2)]) (rule assms(3), simp only: closable_def live_case_def)

lemma close_not_open:
  assumes "\<not> (\<exists>c \<in> set (docCases d). closable ctx i c)"
  shows "closeWithoutDocs E ctx i why d = res_bind (loadCase ctx i d) (\<lambda>existing.
      case dc_closedAt existing of
        Some t \<Rightarrow> Inr (\<lparr>cl_caseId = i, cl_caseNumber = dc_caseNumber existing, cl_status = dc_status existing,
            cl_closedAt = t, cl_closedReason = or_else (dc_closedReason existing) (closed_reason_name why)\<rparr>, d)
      | None \<Rightarrow> Inl (BusinessRuleViolationError (''Case in status '' @ status_name (dc_status existing)
            @ '' cannot be closed without documentation'')))"
proof -
  have u: "update_many (closable ctx i) f (docCases d) = (docCases d, 0)" for f
    by (rule update_no_case) (use assms in blast)
  have d: "d\<lparr>docCases := docCases d\<rparr> = d" by simp
  show ?thesis unfolding closeWithoutDocs_def Let_def u fst_conv snd_conv d by simp
qed

lemma close_open:
  assumes "cases_ok (docCases d)" "c \<in> set (docCases d)" "closable ctx i c"
  shows "closeWithoutDocs E ctx i why d = close_effects E ctx i why
    (d\<lparr>docCases := map (\<lambda>q. if dc_id q = i then closed_row (ev_clock E 1) (closed_reason_name why) (userId ctx) q else q) (docCases d)\<rparr>)"
  unfolding closeWithoutDocs_def Let_def close_write [OF assms] by simp

lemma close_effects_Inr:
  assumes "close_effects E ctx i why d = Inr (r, d')"
  shows "\<exists>b d1 u d2. disablePortalInTx E i (tenantId ctx) (userId ctx) d = Inr (b, d1)
     \<and> find_first (\<lambda>c. dc_id c = i) (docCases d1) = Some u
     \<and> audit_tx E 3 (audit_input (tenantId ctx) ''CASE_CLOSED_NO_DOCS'' ''DocCase'' i (Some (userId ctx)) ''UPDATE''
         [(''reason'', JStr (closed_reason_name why)), (''caseNumber'', jopt (dc_caseNumber u))]) d1 = Inr d2
     \<and> supersede_links E ctx i d2 = Inr d'
     \<and> cl_status r = dc_status u \<and> cl_closedAt r = the (dc_closedAt u)"
  using assms unfolding close_effects_def res_bind_Inr_iff or_throw_simps
  by (elim exE conjE) (auto simp: res_bind_Inr_iff)

lemma close_Inr:
  assumes ok: "cases_ok (docCases d)" "portal_gate d"
    and c: "c \<in> set (docCases d)" "closable ctx i c" and run: "closeWithoutDocs E ctx i why d = Inr (r, d')"
  shows "docCases d' = map (\<lambda>q. if dc_id q = i
        then (closed_row (ev_clock E 1) (closed_reason_name why) (userId ctx) q)\<lparr>dc_portalEnabledAt := None\<rparr> else q) (docCases d)
    \<and> cl_status r = DC_CLOSED_NO_DOCS \<and> cl_closedAt r = ev_clock E 1
    \<and> live_sessions i d' = [] \<and> cases_ok (docCases d') \<and> portal_gate d'
    \<and> mandateRequests d' = map (\<lambda>m. if pending_link ctx i m then m\<lparr>mr_status := MR_SUPERSEDED\<rparr> else m) (mandateRequests d)
    \<and> logged d d' ((if dc_portalEnabledAt c = None then [] else [(tenantId ctx, ''PORTAL_DEACTIVATED'', i)])
        @ [(tenantId ctx, ''CASE_CLOSED_NO_DOCS'', i)]
        @ map (\<lambda>m. (tenantId ctx, ''MANDATE_SUPERSEDED'', mr_id m)) (filter (pending_link ctx i) (mandateRequests d)))
    \<and> (env_law (ev_audit E) \<and> chain_ok (auditRows d) \<longrightarrow> chain_ok (auditRows d'))"
proof -
  let ?f = "closed_row (ev_clock E 1) (closed_reason_name why) (userId ctx)"
  let ?d1 = "d\<lparr>docCases := map (\<lambda>q. if dc_id q = i then ?f q else q) (docCases d)\<rparr>"
  have live: "dc_id c = i" "dc_tenantId c = tenantId ctx" "dc_deletedAt c = None" using c(2) by (simp_all add: closable_def live_case_def)
  have ok1: "cases_ok (docCases ?d1)" using cases_ok_map_keys [of ?f, OF _ ok(1)] by (simp add: closed_keys)
  have gate1: "portal_gate ?d1"
    by (rule gate_cases [OF ok(2), of _ "\<lambda>q. if dc_id q = i then ?f q else q"]) (simp_all add: closed_keys)
  have fc: "?f c \<in> set (docCases ?d1)" "dc_id (?f c) = i" "dc_tenantId (?f c) = tenantId ctx" "dc_deletedAt (?f c) = None"
    using c(1) live by (auto simp: closed_keys)
  from run [unfolded close_open [OF ok(1) c]] obtain b d2 u d3
    where p: "disablePortalInTx E i (tenantId ctx) (userId ctx) ?d1 = Inr (b, d2)"
      and u: "find_first (\<lambda>c. dc_id c = i) (docCases d2) = Some u"
      and a: "audit_tx E 3 (audit_input (tenantId ctx) ''CASE_CLOSED_NO_DOCS'' ''DocCase'' i (Some (userId ctx)) ''UPDATE''
         [(''reason'', JStr (closed_reason_name why)), (''caseNumber'', jopt (dc_caseNumber u))]) d2 = Inr d3"
      and s: "supersede_links E ctx i d3 = Inr d'" and r: "cl_status r = dc_status u" "cl_closedAt r = the (dc_closedAt u)"
    using close_effects_Inr by blast
  note pf = disable_facts [OF p ok1 gate1 fc] and af = audit_tx_tables [OF a] and sf = supersede_links_Inr [OF s]
  have row: "switched i None (if dc_id q = i then ?f q else q) = (if dc_id q = i then (?f q)\<lparr>dc_portalEnabledAt := None\<rparr> else q)" for q
    by (simp add: switched_def closed_keys)
  have docs: "docCases d' = map (\<lambda>q. if dc_id q = i then (?f q)\<lparr>dc_portalEnabledAt := None\<rparr> else q) (docCases d)"
    by (simp add: sf(1) af pf(1) comp_def row)
  have "u \<in> set (docCases d2)" "dc_id u = i" using find_first_SomeD [OF u] by simp_all
  then obtain q where q: "u = switched i None (if dc_id q = i then ?f q else q)" unfolding pf(1) by force
  have "dc_id q = i" using \<open>dc_id u = i\<close> unfolding q by (simp add: switched_keys closed_keys split: if_splits)
  with q have "dc_status u = DC_CLOSED_NO_DOCS \<and> dc_closedAt u = Some (ev_clock E 1)"
    by (simp add: switched_def closed_keys)
  moreover have "live_sessions i d' = []" using pf(2) live_sessions_cong [of d' d2 i] sf(2) af by simp
  moreover have "cases_ok (docCases d')" using pf(5) sf(1) af by simp
  moreover have "portal_gate d'" using gate_cong [OF pf(6), of d'] sf af by simp
  moreover have "mandateRequests d' = map (\<lambda>m. if pending_link ctx i m then m\<lparr>mr_status := MR_SUPERSEDED\<rparr> else m) (mandateRequests d)"
    by (simp add: sf(4) af pf(3))
  moreover have l: "logged d2 d3 [(tenantId ctx, ''CASE_CLOSED_NO_DOCS'', i)]" using logged_audit [OF a] by (simp add: audit_input_def)
  have m1: "mandateRequests ?d1 = mandateRequests d" by simp
  have "logged ?d1 d' ((if dc_portalEnabledAt c = None then [] else [(tenantId ctx, ''PORTAL_DEACTIVATED'', i)])
        @ [(tenantId ctx, ''CASE_CLOSED_NO_DOCS'', i)]
        @ map (\<lambda>m. (tenantId ctx, ''MANDATE_SUPERSEDED'', mr_id m)) (filter (pending_link ctx i) (mandateRequests d)))"
    using logged_trans [OF pf(4) logged_trans [OF l sf(5)]] by (simp only: closed_keys af pf(3) m1)
  then have "logged d d' ((if dc_portalEnabledAt c = None then [] else [(tenantId ctx, ''PORTAL_DEACTIVATED'', i)])
        @ [(tenantId ctx, ''CASE_CLOSED_NO_DOCS'', i)]
        @ map (\<lambda>m. (tenantId ctx, ''MANDATE_SUPERSEDED'', mr_id m)) (filter (pending_link ctx i) (mandateRequests d)))"
    by (rule logged_cong) simp_all
  moreover have "env_law (ev_audit E) \<and> chain_ok (auditRows d) \<longrightarrow> chain_ok (auditRows d')"
    using pf(7) sf(6) audit_tx_chain [OF a] by simp
  ultimately show ?thesis using docs r by simp
qed

text \<open>A reopen, with unique ids.\<close>

lemma reopen_Inr:
  assumes ok: "cases_ok (docCases d)" and c: "c \<in> set (docCases d)" "reopenable ctx i c" and run: "reopenCase E ctx i d = Inr (r, d')"
  shows "docCases d' = map (\<lambda>q. if dc_id q = i then reopened_row (ev_clock E 1) (userId ctx) q else q) (docCases d)"
    "portalSessions d' = portalSessions d" "mandateRequests d' = mandateRequests d" "logged d d' [(tenantId ctx, ''CASE_REOPENED'', i)]"
    "env_law (ev_audit E) \<Longrightarrow> chain_ok (auditRows d) \<Longrightarrow> chain_ok (auditRows d')"
proof -
  have u: "update_many (reopenable ctx i) (reopened_row (ev_clock E 1) (userId ctx)) (docCases d)
    = (map (\<lambda>q. if dc_id q = i then reopened_row (ev_clock E 1) (userId ctx) q else q) (docCases d), 1)"
    by (rule update_one_case [OF ok c(1)]) (rule c(2), simp only: reopenable_def live_case_def)
  let ?d1 = "d\<lparr>docCases := map (\<lambda>q. if dc_id q = i then reopened_row (ev_clock E 1) (userId ctx) q else q) (docCases d)\<rparr>"
  from run obtain p where a: "audit_tx E 3 (audit_input (tenantId ctx) ''CASE_REOPENED'' ''DocCase'' i (Some (userId ctx)) ''UPDATE'' p) ?d1 = Inr d'"
    unfolding reopenCase_def Let_def u by (auto simp: res_bind_Inr_iff)
  show "docCases d' = map (\<lambda>q. if dc_id q = i then reopened_row (ev_clock E 1) (userId ctx) q else q) (docCases d)"
    "portalSessions d' = portalSessions d" "mandateRequests d' = mandateRequests d" using audit_tx_tables [OF a] by simp_all
  show "logged d d' [(tenantId ctx, ''CASE_REOPENED'', i)]"
    by (rule logged_cong [OF logged_audit [OF a, unfolded audit_input_def, simplified]]) simp_all
  show "env_law (ev_audit E) \<Longrightarrow> chain_ok (auditRows d) \<Longrightarrow> chain_ok (auditRows d')" using audit_tx_chain [OF a] by simp
qed

section \<open>Properties\<close>

text \<open>
  C36: a close shuts every door of the case. When an open case is closed, its row says so with
  the time, its portal is off and none of its sessions is live, no upload link of the tenant on it
  is pending (the requests already uploaded, verified or rejected keep their status), the other
  cases are untouched, and the log gains exactly the entry of the portal if it was on, the entry
  of the close and one entry for each superseded link; the chain of the log and the gate of the
  portals hold again.
\<close>

theorem close_shuts_every_door:
  assumes ok: "cases_ok (docCases d)" "portal_gate d"
    and c: "c \<in> set (docCases d)" "closable ctx i c" and run: "closeWithoutDocs E ctx i why d = Inr (r, d')"
  shows "docCases d' = map (\<lambda>q. if dc_id q = i
        then (closed_row (ev_clock E 1) (closed_reason_name why) (userId ctx) q)\<lparr>dc_portalEnabledAt := None\<rparr> else q) (docCases d)
    \<and> cl_status r = DC_CLOSED_NO_DOCS \<and> cl_closedAt r = ev_clock E 1
    \<and> live_sessions i d' = [] \<and> cases_ok (docCases d') \<and> portal_gate d'
    \<and> mandateRequests d' = map (\<lambda>m. if pending_link ctx i m then m\<lparr>mr_status := MR_SUPERSEDED\<rparr> else m) (mandateRequests d)
    \<and> logged d d' ((if dc_portalEnabledAt c = None then [] else [(tenantId ctx, ''PORTAL_DEACTIVATED'', i)])
        @ [(tenantId ctx, ''CASE_CLOSED_NO_DOCS'', i)]
        @ map (\<lambda>m. (tenantId ctx, ''MANDATE_SUPERSEDED'', mr_id m)) (filter (pending_link ctx i) (mandateRequests d)))
    \<and> (env_law (ev_audit E) \<and> chain_ok (auditRows d) \<longrightarrow> chain_ok (auditRows d'))"
  by (rule close_Inr [OF assms])

text \<open>
  closing twice closes once, and reopening does not relight the portal. A close of a case
  that was just closed answers with the same time and status and changes nothing; a reopen of it
  sets the case back to incoming with the closing fields cleared, and its portal stays off, its
  sessions stay dead and its links stay superseded.
\<close>

theorem close_again_and_reopen:
  assumes ok: "cases_ok (docCases d)" "portal_gate d"
    and c: "c \<in> set (docCases d)" "closable ctx i c" and run: "closeWithoutDocs E ctx i why d = Inr (r, d1)"
  shows "(\<exists>r'. closeWithoutDocs E' ctx i why' d1 = Inr (r', d1) \<and> cl_closedAt r' = cl_closedAt r \<and> cl_status r' = cl_status r)
    \<and> (\<forall>r2 d2. reopenCase E' ctx i d1 = Inr (r2, d2) \<longrightarrow>
        docCases d2 = map (\<lambda>q. if dc_id q = i then reopened_row (ev_clock E' 1) (userId ctx) (q\<lparr>dc_managerReviewRequired := False,
            dc_portalEnabledAt := None\<rparr>) else q) (docCases d)
        \<and> live_sessions i d2 = [] \<and> mandateRequests d2 = mandateRequests d1
        \<and> logged d1 d2 [(tenantId ctx, ''CASE_REOPENED'', i)])"
proof -
  let ?f = "\<lambda>q. (closed_row (ev_clock E 1) (closed_reason_name why) (userId ctx) q)\<lparr>dc_portalEnabledAt := None\<rparr>"
  note f = close_Inr [OF assms]
  have live: "dc_id c = i" "dc_tenantId c = tenantId ctx" "dc_deletedAt c = None" using c(2) by (simp_all add: closable_def live_case_def)
  have docs: "docCases d1 = map (\<lambda>q. if dc_id q = i then ?f q else q) (docCases d)" and ok1: "cases_ok (docCases d1)"
    and r: "cl_status r = DC_CLOSED_NO_DOCS" "cl_closedAt r = ev_clock E 1" and dead: "live_sessions i d1 = []"
    using f by blast+
  have fc: "?f c \<in> set (docCases d1)" unfolding docs using c(1) live(1) by force
  have lc: "live_case ctx i (?f c)" using live by (simp add: live_case_def closed_keys)
  have same: "q = ?f c" if "q \<in> set (docCases d1)" "dc_id q = i" for q
    by (rule same_case [OF ok1 fc that(1)]) (simp add: that(2) closed_keys live(1))
  have "find_first (\<lambda>q. dc_id q = i) (docCases d1) = Some (?f c)"
    using find_first_id [of "docCases d1", OF _ fc] ok1 live(1) by (simp add: cases_ok_def closed_keys)
  moreover have "find_first (live_case ctx i) (docCases d1) \<noteq> None" using fc lc by (auto simp: find_first_None)
  then obtain q where q: "find_first (live_case ctx i) (docCases d1) = Some q" by blast
  then have "q = ?f c" using find_first_SomeD [OF q] by (intro same) (simp_all add: live_case_def)
  then have found: "loadCase ctx i d1 = Inr (?f c)" using q by (simp add: loadCase_Inr)
  have "\<not> closable ctx i q" if "q \<in> set (docCases d1)" for q
    using same [OF that] by (auto simp: closable_def live_case_def closed_keys)
  then have "closeWithoutDocs E' ctx i why' d1 = Inr (\<lparr>cl_caseId = i, cl_caseNumber = dc_caseNumber (?f c), cl_status = dc_status (?f c),
            cl_closedAt = ev_clock E 1, cl_closedReason = or_else (dc_closedReason (?f c)) (closed_reason_name why')\<rparr>, d1)"
    by (subst close_not_open) (blast, simp add: found closed_keys)
  moreover have "docCases d2 = map (\<lambda>q. if dc_id q = i then reopened_row (ev_clock E' 1) (userId ctx) (q\<lparr>dc_managerReviewRequired := False,
            dc_portalEnabledAt := None\<rparr>) else q) (docCases d)
        \<and> live_sessions i d2 = [] \<and> mandateRequests d2 = mandateRequests d1 \<and> logged d1 d2 [(tenantId ctx, ''CASE_REOPENED'', i)]"
    if "reopenCase E' ctx i d1 = Inr (r2, d2)" for r2 d2
  proof -
    from reopen_Inr [OF ok1 fc _ that] lc
    have g: "docCases d2 = map (\<lambda>q. if dc_id q = i then reopened_row (ev_clock E' 1) (userId ctx) q else q) (docCases d1)"
      "portalSessions d2 = portalSessions d1" "mandateRequests d2 = mandateRequests d1" "logged d1 d2 [(tenantId ctx, ''CASE_REOPENED'', i)]"
      by (simp_all add: reopenable_def closed_keys)
    have "reopened_row t a (?f q) = reopened_row t a (q\<lparr>dc_managerReviewRequired := False, dc_portalEnabledAt := None\<rparr>)" for t a q
      by (simp add: reopened_row_def closed_row_def)
    then have "docCases d2 = map (\<lambda>q. if dc_id q = i then reopened_row (ev_clock E' 1) (userId ctx) (q\<lparr>dc_managerReviewRequired := False,
            dc_portalEnabledAt := None\<rparr>) else q) (docCases d)"
      unfolding g(1) docs by (simp add: comp_def closed_keys)
    then show ?thesis using g dead live_sessions_cong [OF g(2), of i] by simp
  qed
  ultimately show ?thesis using r by (simp add: closed_keys)
qed

text \<open>
  An override on a closed case (which checks no state) gives it back the status of a ready case
  and leaves the time of its close: the next close then answers that it is closed already, with
  that status, and closes nothing.
\<close>

lemma override_reopens_closed:
  assumes ok: "cases_ok (docCases d)" and c: "c \<in> set (docCases d)" "live_case ctx i c" "dc_closedAt c = Some t"
    and run: "managerOverride E ctx i memo x d = Inr (m, d1)"
  shows "\<exists>r. closeWithoutDocs E' ctx i why d1 = Inr (r, d1) \<and> cl_status r = DC_DOCUMENTATION_READY \<and> cl_closedAt r = t"
proof -
  let ?f = "\<lambda>q. q\<lparr>dc_isReady := True, dc_status := DC_DOCUMENTATION_READY\<rparr>"
  have docs: "docCases d1 = map (\<lambda>q. if dc_id q = i then ?f q else q) (docCases d)" by (rule managerOverride_Inr [OF run])
  have ok1: "cases_ok (docCases d1)" unfolding docs by (rule cases_ok_map_keys [OF _ ok]) simp
  have live: "dc_id c = i" using c(2) by (simp add: live_case_def)
  have fc: "?f c \<in> set (docCases d1)" unfolding docs using c(1) live by force
  have same: "q = ?f c" if "q \<in> set (docCases d1)" "dc_id q = i" for q
    by (rule same_case [OF ok1 fc that(1)]) (simp add: that(2) live)
  have lc: "live_case ctx i (?f c)" using c(2) by (simp add: live_case_def)
  have "find_first (live_case ctx i) (docCases d1) \<noteq> None" using fc lc by (auto simp: find_first_None)
  then obtain q where q: "find_first (live_case ctx i) (docCases d1) = Some q" by blast
  then have "q = ?f c" using find_first_SomeD [OF q] by (intro same) (simp_all add: live_case_def)
  then have found: "loadCase ctx i d1 = Inr (?f c)" using q by (simp add: loadCase_Inr)
  have "\<not> closable ctx i q" if "q \<in> set (docCases d1)" for q
    using same [OF that] by (auto simp: closable_def live_case_def)
  then show ?thesis by (subst close_not_open) (blast, simp add: found c(3))
qed

section \<open>Concrete runs\<close>

definition link_client :: MandateRequest where
  "link_client = \<lparr>mr_id = ''m1'', mr_tenantId = ''t1'', mr_caseId = ''c1'', mr_mandateType = ''PAN'', mr_description = None,
     mr_status = MR_PENDING_UPLOAD, mr_uploadTokenHash = ''h1'', mr_tokenExpiresAt = 1777636800000, mr_maxFileSizeBytes = 1048576,
     mr_allowedTypes = [''application/pdf''], mr_sentToEmail = None, mr_sentByUserId = ''staff'', mr_verifiedAt = None, mr_verifiedBy = None,
     mr_rejectedAt = None, mr_rejectedBy = None, mr_rejectionReason = None, mr_supersededBy = None, mr_createdAt = 1777550400000\<rparr>"

definition db_open_case :: db where
  "db_open_case = db_client\<lparr>mandateRequests := [link_client, link_client\<lparr>mr_id := ''m2'', mr_status := MR_UPLOADED\<rparr>]\<rparr>"

lemma open_case: "cases_ok (docCases db_open_case)" "portal_gate db_open_case" "case_client \<in> set (docCases db_open_case)" "closable ctx_one ''c1'' case_client"
proof -
  show "cases_ok (docCases db_open_case)" by code_simp
  have on: "portal_on ''c1'' db_open_case" by code_simp
  have "live_sessions j db_open_case = [] \<or> j = ''c1''" for j
    by (auto simp: live_sessions_def db_open_case_def db_client_def session_client_def)
  then show "portal_gate db_open_case" using on unfolding portal_gate_def by metis
  show "case_client \<in> set (docCases db_open_case)" by (simp add: db_open_case_def db_client_def)
  show "closable ctx_one ''c1'' case_client" by code_simp
qed

theorem close_shuts_every_door_witness:
  "live_sessions ''c1'' (snd (projr (closeWithoutDocs env_one ctx_one ''c1'' CLIENT_UNRESPONSIVE db_open_case))) = []
   \<and> map mr_status (mandateRequests (snd (projr (closeWithoutDocs env_one ctx_one ''c1'' CLIENT_UNRESPONSIVE db_open_case)))) = [MR_SUPERSEDED, MR_UPLOADED]"
proof -
  let ?r = "closeWithoutDocs env_one ctx_one ''c1'' CLIENT_UNRESPONSIVE db_open_case"
  have "\<not> isl ?r" by code_simp
  note r = returned [OF this]
  have m: "map mr_status (map (\<lambda>m. if pending_link ctx_one ''c1'' m then m\<lparr>mr_status := MR_SUPERSEDED\<rparr> else m) (mandateRequests db_open_case))
      = [MR_SUPERSEDED, MR_UPLOADED]" by code_simp
  show ?thesis using close_shuts_every_door [OF open_case r] m by metis
qed

end
