(* ===== verification/Field_Service.thy ===== *)
theory Field_Service
  imports Case_Store
begin

text \<open>
  The catalogue of custom fields, their options and their rules,
  \<^verbatim>\<open>src/src/services/case-field.service.ts\<close>. Optional members of a request are options, and
  members that may also be null are options of options; free JSON is a JavaScript value. The
  properties are in \<open>Field_Props\<close>.
\<close>

section \<open>Enums and errors\<close>

fun field_status_name :: "CaseFieldStatus \<Rightarrow> string" where
  "field_status_name FS_DRAFT = ''DRAFT''"
| "field_status_name FS_ACTIVE = ''ACTIVE''"
| "field_status_name FS_READ_ONLY = ''READ_ONLY''"
| "field_status_name FS_ARCHIVED = ''ARCHIVED''"

definition all_field_types :: "CaseFieldType list" where
  "all_field_types = [FT_TEXT, FT_TEXTAREA, FT_NUMBER, FT_DECIMAL, FT_CURRENCY, FT_PERCENTAGE, FT_DATE, FT_DATETIME, FT_TIME,
     FT_BOOLEAN, FT_SELECT, FT_MULTI_SELECT, FT_EMAIL, FT_PHONE, FT_URL,
     FT_USER_REFERENCE, FT_DEPARTMENT_REFERENCE, FT_CASE_REFERENCE, FT_DOCUMENT_REFERENCE]"

definition field_type_of :: "string \<Rightarrow> CaseFieldType option" where
  "field_type_of s = find_first (\<lambda>t. field_type_name t = s) all_field_types"

fun operator_name :: "CaseFieldConditionOperator \<Rightarrow> string" where
  "operator_name OP_EQUALS = ''EQUALS''"
| "operator_name OP_NOT_EQUALS = ''NOT_EQUALS''"
| "operator_name OP_IS_EMPTY = ''IS_EMPTY''"
| "operator_name OP_IS_NOT_EMPTY = ''IS_NOT_EMPTY''"
| "operator_name OP_GREATER_THAN = ''GREATER_THAN''"
| "operator_name OP_LESS_THAN = ''LESS_THAN''"
| "operator_name OP_IN = ''IN''"
| "operator_name OP_NOT_IN = ''NOT_IN''"

definition operator_of :: "string \<Rightarrow> CaseFieldConditionOperator option" where
  "operator_of s = find_first (\<lambda>x. operator_name x = s)
     [OP_EQUALS, OP_NOT_EQUALS, OP_IS_EMPTY, OP_IS_NOT_EMPTY, OP_GREATER_THAN, OP_LESS_THAN, OP_IN, OP_NOT_IN]"

fun effect_name :: "CaseFieldRuleEffectType \<Rightarrow> string" where
  "effect_name REQUIRE_FIELD = ''REQUIRE_FIELD''"
| "effect_name HIDE_FIELD = ''HIDE_FIELD''"
| "effect_name SET_DEFAULT = ''SET_DEFAULT''"

definition effect_of :: "string \<Rightarrow> CaseFieldRuleEffectType option" where
  "effect_of s = find_first (\<lambda>x. effect_name x = s) [REQUIRE_FIELD, HIDE_FIELD, SET_DEFAULT]"

definition isFrozen :: "CaseFieldStatus \<Rightarrow> bool" where
  "isFrozen status \<longleftrightarrow> status = FS_READ_ONLY \<or> status = FS_ARCHIVED"

text \<open>Every violation of a unique constraint inside the transaction is reported as a duplicate.\<close>

definition mapP2002 :: "string \<Rightarrow> app_error + 'a \<Rightarrow> app_error + 'a" where
  "mapP2002 message r = (case r of Inl UniqueViolation \<Rightarrow> Inl (DuplicateResourceError message) | _ \<Rightarrow> r)"

lemma mapP2002_Inr [simp]: "mapP2002 message r = Inr x \<longleftrightarrow> r = Inr x"
  by (auto simp: mapP2002_def split: sum.splits app_error.splits)

text \<open>Checks on keys and on names or labels.\<close>

definition key_check :: "string \<Rightarrow> app_error + unit" where
  "key_check key = ensure (KEY_RE key \<and> length key \<le> 64)
     (ValidationError ''key must be lowercase snake_case (start with a letter), 64 chars max.'')"

definition text_check :: "string \<Rightarrow> string \<Rightarrow> app_error + unit" where
  "text_check what s = ensure (s \<noteq> [] \<and> length s \<le> 200)
     (ValidationError (what @ '' is required and must be 200 characters or fewer.''))"

text \<open>The same on an update: an absent member is fine, a present one is trimmed and checked.\<close>

definition text_check_opt :: "string \<Rightarrow> string option \<Rightarrow> app_error + unit" where
  "text_check_opt what v = (case v of None \<Rightarrow> Inr () | Some s \<Rightarrow> text_check what (trim s))"

definition same_key_check :: "string \<Rightarrow> string option \<Rightarrow> string \<Rightarrow> app_error + unit" where
  "same_key_check message v key = ensure (v = None \<or> map_option trim v = Some key) (ValidationError message)"

section \<open>Field definitions\<close>

definition by_display :: "('r \<Rightarrow> int) \<Rightarrow> ('r \<Rightarrow> date) \<Rightarrow> 'r list \<Rightarrow> 'r list" where
  "by_display ord created rs = sort_key ord (sort_key created rs)"

definition listFields :: "UserContext \<Rightarrow> bool \<Rightarrow> db \<Rightarrow> CaseFieldDefinition list" where
  "listFields ctx includeArchived d = by_display fd_displayOrder fd_createdAt
     (filter (\<lambda>f. fd_tenantId f = tenantId ctx \<and> (includeArchived \<or> fd_deletedAt f = None)) (fieldDefs (customFields d)))"

definition loadField :: "string \<Rightarrow> string \<Rightarrow> db \<Rightarrow> app_error + CaseFieldDefinition" where
  "loadField tenant i d =
     or_throw (find_first (\<lambda>f. fd_id f = i \<and> fd_tenantId f = tenant) (fieldDefs (customFields d))) ResourceNotFoundError"

definition getField :: "UserContext \<Rightarrow> string \<Rightarrow> db \<Rightarrow> app_error + CaseFieldDefinition" where
  "getField ctx i d = loadField (tenantId ctx) i d"

record FieldInput =
  fi_key :: "string option"
  fi_name :: "string option"
  fi_description :: "string option option"
  fi_type :: "string option"
  fi_owningDepartmentId :: "string option"
  fi_validationRules :: jsval
  fi_visibility :: jsval
  fi_reportable :: "bool option"
  fi_filterable :: "bool option"
  fi_sortable :: "bool option"
  fi_isActive :: "bool option"
  fi_displayOrder :: "int option"

definition flat :: "'a option option \<Rightarrow> 'a option" where
  "flat v = (case v of Some (Some x) \<Rightarrow> Some x | _ \<Rightarrow> None)"

definition or_object :: "jsval \<Rightarrow> jsval" where
  "or_object v = (if nullish v then JObj [] else v)"

definition create_field_row :: "string \<Rightarrow> date \<Rightarrow> UserContext \<Rightarrow> string \<Rightarrow> string \<Rightarrow> CaseFieldType \<Rightarrow> FieldInput \<Rightarrow> CaseFieldDefinition" where
  "create_field_row i now ctx key name t inp =
     \<lparr>fd_id = i, fd_tenantId = tenantId ctx, fd_key = key, fd_name = name, fd_description = flat (fi_description inp),
      fd_type = t, fd_status = FS_DRAFT, fd_owningDepartmentId = or_empty (fi_owningDepartmentId inp),
      fd_validationRules = or_object (fi_validationRules inp), fd_visibility = or_object (fi_visibility inp),
      fd_reportable = or_else (fi_reportable inp) False, fd_filterable = or_else (fi_filterable inp) False,
      fd_sortable = or_else (fi_sortable inp) False, fd_isActive = True, fd_displayOrder = or_else (fi_displayOrder inp) 0,
      fd_createdAt = now, fd_deletedAt = None\<rparr>"

definition insert_field :: "CaseFieldDefinition \<Rightarrow> db \<Rightarrow> app_error + db" where
  "insert_field r d =
     (if (\<exists>q \<in> set (fieldDefs (customFields d)). fd_tenantId q = fd_tenantId r \<and> fd_key q = fd_key r) then Inl UniqueViolation
      else Inr (d\<lparr>customFields := (customFields d)\<lparr>fieldDefs := fieldDefs (customFields d) @ [r]\<rparr>\<rparr>))"

definition createField :: "env \<Rightarrow> UserContext \<Rightarrow> FieldInput \<Rightarrow> CaseFieldDefinition tx" where
  "createField E ctx inp d =
     (let key = trim (or_empty (fi_key inp)); name = trim (or_empty (fi_name inp));
          taken = ''A case field with key '' @ [CHR 0x22] @ key @ [CHR 0x22] @ '' already exists.''
      in res_bind (key_check key) (\<lambda>_.
         res_bind (text_check ''name'' name) (\<lambda>_.
         res_bind (or_throw (field_type_of (or_empty (fi_type inp))) (ValidationError ''type is not a valid case field type.'')) (\<lambda>t.
         res_bind (ensure (\<not> falsy (fi_owningDepartmentId inp)) (ValidationError ''owningDepartmentId is required.'')) (\<lambda>_.
         res_bind (validateValidationRules t (or_object (fi_validationRules inp))) (\<lambda>_.
         res_bind (validateVisibility (or_object (fi_visibility inp))) (\<lambda>_.
         res_bind (ensure (find_first (\<lambda>x. dp_id x = or_empty (fi_owningDepartmentId inp) \<and> dp_tenantId x = tenantId ctx)
              (departments (customFields d)) \<noteq> None)
            (ValidationError ''owningDepartmentId does not reference a department in this organization.'')) (\<lambda>_.
         res_bind (ensure (find_first (\<lambda>f. fd_tenantId f = tenantId ctx \<and> fd_key f = key) (fieldDefs (customFields d)) = None)
            (DuplicateResourceError taken)) (\<lambda>_.
         mapP2002 taken
           (let field = create_field_row (ev_uuid E 1) (ev_clock E 1) ctx key name t inp
            in res_bind (insert_field field d) (\<lambda>d1.
               res_bind (audit_tx E 2 (user_audit ctx ''CASE_FIELD_CREATED'' ''CaseFieldDefinition'' (fd_id field) ''CREATE''
                  [(''key'', JStr key), (''name'', JStr name), (''type'', JStr (field_type_name t))] JUndefined
                  (JObj [(''status'', JStr ''DRAFT'')])) d1) (\<lambda>d2.
               Inr (field, d2)))))))))))))"

text \<open>The update of one definition with its audit row.\<close>

definition field_write ::
  "env \<Rightarrow> UserContext \<Rightarrow> string \<Rightarrow> (CaseFieldDefinition \<Rightarrow> CaseFieldDefinition) \<Rightarrow> string \<Rightarrow> (string \<times> jsval) list \<Rightarrow> jsval
     \<Rightarrow> CaseFieldDefinition tx" where
  "field_write E ctx i f eventType payload before d =
     res_bind (update_row (\<lambda>r. fd_id r = i) f (fieldDefs (customFields d))) (\<lambda>(updated, rs).
     res_bind (audit_tx E 2 (user_audit ctx eventType ''CaseFieldDefinition'' i ''UPDATE'' payload before JUndefined)
        (d\<lparr>customFields := (customFields d)\<lparr>fieldDefs := rs\<rparr>\<rparr>)) (\<lambda>d2.
     Inr (updated, d2)))"

definition upd_opt :: "'a option \<Rightarrow> 'a \<Rightarrow> 'a" where
  "upd_opt v old = (case v of Some x \<Rightarrow> x | None \<Rightarrow> old)"

definition upd_js :: "jsval \<Rightarrow> jsval \<Rightarrow> jsval" where
  "upd_js v old = (if v = JUndefined then old else v)"

definition field_updated :: "FieldInput \<Rightarrow> CaseFieldDefinition \<Rightarrow> CaseFieldDefinition" where
  "field_updated inp r =
     r\<lparr>fd_name := upd_opt (map_option trim (fi_name inp)) (fd_name r),
       fd_description := upd_opt (fi_description inp) (fd_description r),
       fd_validationRules := upd_js (fi_validationRules inp) (fd_validationRules r),
       fd_visibility := upd_js (fi_visibility inp) (fd_visibility r),
       fd_reportable := upd_opt (fi_reportable inp) (fd_reportable r),
       fd_filterable := upd_opt (fi_filterable inp) (fd_filterable r),
       fd_sortable := upd_opt (fi_sortable inp) (fd_sortable r),
       fd_isActive := upd_opt (fi_isActive inp) (fd_isActive r),
       fd_displayOrder := upd_opt (fi_displayOrder inp) (fd_displayOrder r)\<rparr>"

definition given :: "string \<Rightarrow> 'a option \<Rightarrow> ('a \<Rightarrow> jsval) \<Rightarrow> (string \<times> jsval) list" where
  "given k v f = (case v of Some x \<Rightarrow> [(k, f x)] | None \<Rightarrow> [])"

definition js_opt :: "jsval \<Rightarrow> jsval option" where
  "js_opt v = (if v = JUndefined then None else Some v)"

definition field_data :: "FieldInput \<Rightarrow> (string \<times> jsval) list" where
  "field_data inp =
     given ''name'' (fi_name inp) (\<lambda>s. JStr (trim s)) @ given ''description'' (fi_description inp) jopt
     @ given ''validationRules'' (js_opt (fi_validationRules inp)) (\<lambda>v. v) @ given ''visibility'' (js_opt (fi_visibility inp)) (\<lambda>v. v)
     @ given ''reportable'' (fi_reportable inp) JBool @ given ''filterable'' (fi_filterable inp) JBool
     @ given ''sortable'' (fi_sortable inp) JBool @ given ''isActive'' (fi_isActive inp) JBool
     @ given ''displayOrder'' (fi_displayOrder inp) jint"

definition updateField :: "env \<Rightarrow> UserContext \<Rightarrow> string \<Rightarrow> FieldInput \<Rightarrow> CaseFieldDefinition tx" where
  "updateField E ctx i inp d =
     res_bind (loadField (tenantId ctx) i d) (\<lambda>field.
     res_bind (ensure (\<not> isFrozen (fd_status field))
        (BusinessRuleViolationError (''A '' @ field_status_name (fd_status field) @ '' field cannot be edited.''))) (\<lambda>_.
     res_bind (same_key_check ''key is immutable and cannot be changed.'' (fi_key inp) (fd_key field)) (\<lambda>_.
     res_bind (ensure (fi_type inp = None \<or> fi_type inp = Some (field_type_name (fd_type field)))
        (ValidationError ''type is immutable and cannot be changed.'')) (\<lambda>_.
     res_bind (text_check_opt ''name'' (fi_name inp)) (\<lambda>_.
     res_bind (if fi_validationRules inp \<noteq> JUndefined then validateValidationRules (fd_type field) (fi_validationRules inp) else Inr ()) (\<lambda>_.
     res_bind (if fi_visibility inp \<noteq> JUndefined then validateVisibility (fi_visibility inp) else Inr ()) (\<lambda>_.
     field_write E ctx i (field_updated inp) ''CASE_FIELD_UPDATED'' (field_data inp)
       (JObj [(''name'', JStr (fd_name field)), (''status'', JStr (field_status_name (fd_status field)))]) d)))))))"

definition transitionField ::
  "env \<Rightarrow> UserContext \<Rightarrow> string \<Rightarrow> CaseFieldStatus list \<Rightarrow> CaseFieldStatus \<Rightarrow> bool option \<Rightarrow> string \<Rightarrow> string \<Rightarrow> CaseFieldDefinition tx" where
  "transitionField E ctx i from to active eventType illegal d =
     res_bind (loadField (tenantId ctx) i d) (\<lambda>field.
     res_bind (ensure (fd_status field \<in> set from) (BusinessRuleViolationError illegal)) (\<lambda>_.
     field_write E ctx i (\<lambda>r. r\<lparr>fd_status := to, fd_isActive := upd_opt active (fd_isActive r)\<rparr>) eventType
       [(''status'', JStr (field_status_name to))] (JObj [(''status'', JStr (field_status_name (fd_status field)))]) d))"

definition activateField :: "env \<Rightarrow> UserContext \<Rightarrow> string \<Rightarrow> CaseFieldDefinition tx" where
  "activateField E ctx i = transitionField E ctx i [FS_DRAFT] FS_ACTIVE (Some True) ''CASE_FIELD_ACTIVATED'' ''Only a DRAFT field can be activated.''"

definition setFieldReadOnly :: "env \<Rightarrow> UserContext \<Rightarrow> string \<Rightarrow> CaseFieldDefinition tx" where
  "setFieldReadOnly E ctx i = transitionField E ctx i [FS_ACTIVE] FS_READ_ONLY None ''CASE_FIELD_SET_READ_ONLY''
     ''Only an ACTIVE field can be set read-only.''"

definition refers_to :: "string \<Rightarrow> CaseFieldRule \<Rightarrow> bool" where
  "refers_to i r \<longleftrightarrow> fu_conditionFieldId r = i \<or> fu_targetFieldId r = i"

definition archiveField :: "env \<Rightarrow> UserContext \<Rightarrow> string \<Rightarrow> CaseFieldDefinition tx" where
  "archiveField E ctx i d =
     res_bind (loadField (tenantId ctx) i d) (\<lambda>field.
     res_bind (ensure (fd_status field \<noteq> FS_ARCHIVED) (BusinessRuleViolationError ''Field is already archived.'')) (\<lambda>_.
     res_bind (ensure (count_rows (\<lambda>r. fu_tenantId r = tenantId ctx \<and> fu_deletedAt r = None \<and> refers_to i r) (fieldRules (customFields d)) = 0)
        (BusinessRuleViolationError ''Field is referenced by an active rule; archive or remove those rules first.'')) (\<lambda>_.
     field_write E ctx i (\<lambda>r. r\<lparr>fd_status := FS_ARCHIVED, fd_isActive := False, fd_deletedAt := Some (ev_clock E 1)\<rparr>) ''CASE_FIELD_ARCHIVED''
       [(''status'', JStr ''ARCHIVED'')] (JObj [(''status'', JStr (field_status_name (fd_status field)))]) d)))"

text \<open>The delete violates a foreign key while values or placements refer to the field.\<close>

definition delete_field :: "string \<Rightarrow> db \<Rightarrow> app_error + db" where
  "delete_field i d =
     (if (\<exists>v \<in> set (fieldValues (customFields d)). fv_fieldId v = i) \<or> (\<exists>p \<in> set (placements (customFields d)). pl_fieldId p = i)
      then Inl (Thrown ''P2003'')
      else Inr (d\<lparr>customFields := (customFields d)\<lparr>fieldDefs := filter (\<lambda>r. fd_id r \<noteq> i) (fieldDefs (customFields d))\<rparr>\<rparr>))"

definition hardDeleteField :: "env \<Rightarrow> UserContext \<Rightarrow> string \<Rightarrow> unit tx" where
  "hardDeleteField E ctx i d =
     res_bind (loadField (tenantId ctx) i d) (\<lambda>field.
     res_bind (ensure (fd_status field = FS_DRAFT)
        (BusinessRuleViolationError ''Only a DRAFT field can be hard-deleted; archive it instead.'')) (\<lambda>_.
     res_bind (ensure (count_rows (\<lambda>x. fo_fieldId x = i) (fieldOptions (customFields d)) = 0
          \<and> count_rows (refers_to i) (fieldRules (customFields d)) = 0)
        (BusinessRuleViolationError ''Field is in use (options or rules exist); archive it instead.'')) (\<lambda>_.
     res_bind (delete_field i d) (\<lambda>d1.
     res_bind (audit_tx E 2 (user_audit ctx ''CASE_FIELD_DELETED'' ''CaseFieldDefinition'' i ''DELETE'' [(''key'', JStr (fd_key field))]
        (JObj [(''status'', JStr (field_status_name (fd_status field)))]) JUndefined) d1) (\<lambda>d2.
     Inr ((), d2))))))"

section \<open>Options\<close>

definition listOptions :: "UserContext \<Rightarrow> string \<Rightarrow> bool \<Rightarrow> db \<Rightarrow> app_error + CaseFieldOption list" where
  "listOptions ctx fieldId includeArchived d =
     res_bind (loadField (tenantId ctx) fieldId d) (\<lambda>_.
     Inr (by_display fo_displayOrder fo_createdAt (filter (\<lambda>x. fo_tenantId x = tenantId ctx \<and> fo_fieldId x = fieldId
        \<and> (includeArchived \<or> fo_deletedAt x = None)) (fieldOptions (customFields d)))))"

record OptionInput =
  oi_key :: "string option"
  oi_label :: "string option"
  oi_displayOrder :: "int option"
  oi_isActive :: "bool option"
  oi_parentOptionId :: "string option option"

definition live_option :: "string \<Rightarrow> string \<Rightarrow> string \<Rightarrow> CaseFieldOption \<Rightarrow> bool" where
  "live_option tenant fieldId i x \<longleftrightarrow> fo_id x = i \<and> fo_tenantId x = tenant \<and> fo_fieldId x = fieldId \<and> fo_deletedAt x = None"

definition option_parents :: "string \<Rightarrow> string \<Rightarrow> db \<Rightarrow> (string \<times> string option) list" where
  "option_parents tenant fieldId d = map (\<lambda>x. (fo_id x, fo_parentOptionId x))
     (filter (\<lambda>x. fo_tenantId x = tenant \<and> fo_fieldId x = fieldId) (fieldOptions (customFields d)))"

definition assertValidParent :: "string \<Rightarrow> string \<Rightarrow> string option \<Rightarrow> string \<Rightarrow> db \<Rightarrow> app_error + unit" where
  "assertValidParent tenant fieldId optionId parentOptionId d =
     res_bind (ensure (find_first (live_option tenant fieldId parentOptionId) (fieldOptions (customFields d)) \<noteq> None)
        (ValidationError ''parentOptionId must reference an active option on the same field.'')) (\<lambda>_.
     assertNoOptionCycle optionId (Some parentOptionId) (option_parents tenant fieldId d))"

text \<open>An empty text is no id.\<close>

definition insert_option :: "CaseFieldOption \<Rightarrow> db \<Rightarrow> app_error + db" where
  "insert_option r d =
     (if (\<exists>q \<in> set (fieldOptions (customFields d)). fo_tenantId q = fo_tenantId r \<and> fo_fieldId q = fo_fieldId r \<and> fo_key q = fo_key r)
      then Inl UniqueViolation
      else if fo_parentOptionId r = Some [] then Inl (Thrown ''P2023'')
      else Inr (d\<lparr>customFields := (customFields d)\<lparr>fieldOptions := fieldOptions (customFields d) @ [r]\<rparr>\<rparr>))"

definition create_option_row :: "env \<Rightarrow> UserContext \<Rightarrow> string \<Rightarrow> string \<Rightarrow> string \<Rightarrow> string option \<Rightarrow> OptionInput \<Rightarrow> CaseFieldOption" where
  "create_option_row E ctx fieldId key label parent inp =
     \<lparr>fo_id = ev_uuid E 1, fo_tenantId = tenantId ctx, fo_fieldId = fieldId, fo_key = key, fo_label = label,
      fo_displayOrder = or_else (oi_displayOrder inp) 0, fo_isActive = True, fo_parentOptionId = parent,
      fo_createdAt = ev_clock E 1, fo_deletedAt = None\<rparr>"

definition createOption :: "env \<Rightarrow> UserContext \<Rightarrow> string \<Rightarrow> OptionInput \<Rightarrow> CaseFieldOption tx" where
  "createOption E ctx fieldId inp d =
     (let key = trim (or_empty (oi_key inp)); label = trim (or_empty (oi_label inp)); parent = flat (oi_parentOptionId inp)
      in res_bind (key_check key) (\<lambda>_.
         res_bind (text_check ''label'' label) (\<lambda>_.
         mapP2002 (''An option with key '' @ [CHR 0x22] @ key @ [CHR 0x22] @ '' already exists on this field.'')
           (res_bind (loadField (tenantId ctx) fieldId d) (\<lambda>field.
            res_bind (ensure (\<not> isFrozen (fd_status field))
               (BusinessRuleViolationError (''Options cannot be added to a '' @ field_status_name (fd_status field) @ '' field.''))) (\<lambda>_.
            res_bind (ensure (isSelectType (fd_type field))
               (BusinessRuleViolationError ''Options are only allowed on SELECT and MULTI_SELECT fields.'')) (\<lambda>_.
            res_bind (if falsy parent then Inr () else assertValidParent (tenantId ctx) fieldId None (or_empty parent) d) (\<lambda>_.
            let opt = create_option_row E ctx fieldId key label parent inp
            in res_bind (insert_option opt d) (\<lambda>d1.
               res_bind (audit_tx E 2 (user_audit ctx ''CASE_FIELD_OPTION_CREATED'' ''CaseFieldOption'' (fo_id opt) ''CREATE''
                  [(''fieldId'', JStr fieldId), (''key'', JStr key), (''label'', JStr label)] JUndefined JUndefined) d1) (\<lambda>d2.
               Inr (opt, d2)))))))))))"

definition option_write ::
  "env \<Rightarrow> UserContext \<Rightarrow> string \<Rightarrow> string \<Rightarrow> (CaseFieldOption \<Rightarrow> CaseFieldOption) \<Rightarrow> string \<Rightarrow> jsval \<Rightarrow> CaseFieldOption tx" where
  "option_write E ctx fieldId i f eventType before d =
     res_bind (update_row (\<lambda>r. fo_id r = i) f (fieldOptions (customFields d))) (\<lambda>(updated, rs).
     res_bind (audit_tx E 2 (user_audit ctx eventType ''CaseFieldOption'' i ''UPDATE'' [(''fieldId'', JStr fieldId)] before JUndefined)
        (d\<lparr>customFields := (customFields d)\<lparr>fieldOptions := rs\<rparr>\<rparr>)) (\<lambda>d2.
     Inr (updated, d2)))"

definition loadOption :: "UserContext \<Rightarrow> string \<Rightarrow> string \<Rightarrow> db \<Rightarrow> app_error + CaseFieldOption" where
  "loadOption ctx fieldId i d =
     or_throw (find_first (\<lambda>x. fo_id x = i \<and> fo_tenantId x = tenantId ctx \<and> fo_fieldId x = fieldId) (fieldOptions (customFields d)))
       ResourceNotFoundError"

definition option_updated :: "OptionInput \<Rightarrow> CaseFieldOption \<Rightarrow> CaseFieldOption" where
  "option_updated inp r =
     r\<lparr>fo_label := upd_opt (map_option trim (oi_label inp)) (fo_label r),
       fo_displayOrder := upd_opt (oi_displayOrder inp) (fo_displayOrder r),
       fo_isActive := upd_opt (oi_isActive inp) (fo_isActive r),
       fo_parentOptionId := (case oi_parentOptionId inp of None \<Rightarrow> fo_parentOptionId r | Some p \<Rightarrow> if falsy p then None else p)\<rparr>"

definition updateOption :: "env \<Rightarrow> UserContext \<Rightarrow> string \<Rightarrow> string \<Rightarrow> OptionInput \<Rightarrow> CaseFieldOption tx" where
  "updateOption E ctx fieldId i inp d =
     res_bind (loadField (tenantId ctx) fieldId d) (\<lambda>field.
     res_bind (ensure (\<not> isFrozen (fd_status field))
        (BusinessRuleViolationError (''Options cannot be edited on a '' @ field_status_name (fd_status field) @ '' field.''))) (\<lambda>_.
     res_bind (loadOption ctx fieldId i d) (\<lambda>opt.
     res_bind (same_key_check ''option key is immutable and cannot be changed.'' (oi_key inp) (fo_key opt)) (\<lambda>_.
     res_bind (text_check_opt ''label'' (oi_label inp)) (\<lambda>_.
     res_bind (case flat (oi_parentOptionId inp) of None \<Rightarrow> Inr () | Some p \<Rightarrow> assertValidParent (tenantId ctx) fieldId (Some i) p d) (\<lambda>_.
     option_write E ctx fieldId i (option_updated inp) ''CASE_FIELD_OPTION_UPDATED''
       (JObj [(''label'', JStr (fo_label opt)), (''isActive'', JBool (fo_isActive opt))]) d))))))"

definition archiveOption :: "env \<Rightarrow> UserContext \<Rightarrow> string \<Rightarrow> string \<Rightarrow> CaseFieldOption tx" where
  "archiveOption E ctx fieldId i d =
     res_bind (loadField (tenantId ctx) fieldId d) (\<lambda>_.
     res_bind (loadOption ctx fieldId i d) (\<lambda>opt.
     res_bind (ensure (fo_deletedAt opt = None) (BusinessRuleViolationError ''Option is already archived.'')) (\<lambda>_.
     res_bind (ensure (count_rows (\<lambda>r. fu_tenantId r = tenantId ctx \<and> fu_deletedAt r = None \<and> fu_conditionOptionId r = Some i)
          (fieldRules (customFields d)) = 0)
        (BusinessRuleViolationError ''Option is referenced by an active rule; archive or remove those rules first.'')) (\<lambda>_.
     option_write E ctx fieldId i (\<lambda>r. r\<lparr>fo_isActive := False, fo_deletedAt := Some (ev_clock E 1)\<rparr>) ''CASE_FIELD_OPTION_ARCHIVED''
       (JObj [(''isActive'', JBool (fo_isActive opt))]) d))))"

section \<open>Rules\<close>

definition listRules :: "UserContext \<Rightarrow> bool \<Rightarrow> db \<Rightarrow> CaseFieldRule list" where
  "listRules ctx includeArchived d = by_display fu_priority fu_createdAt
     (filter (\<lambda>r. fu_tenantId r = tenantId ctx \<and> (includeArchived \<or> fu_deletedAt r = None)) (fieldRules (customFields d)))"

definition getRule :: "UserContext \<Rightarrow> string \<Rightarrow> db \<Rightarrow> app_error + CaseFieldRule" where
  "getRule ctx i d =
     or_throw (find_first (\<lambda>r. fu_id r = i \<and> fu_tenantId r = tenantId ctx) (fieldRules (customFields d))) ResourceNotFoundError"

record RuleInput =
  ri_name :: "string option"
  ri_description :: "string option option"
  ri_isActive :: "bool option"
  ri_priority :: "int option"
  ri_conditionFieldId :: "string option"
  ri_conditionOperator :: "string option"
  ri_conditionValue :: jsval
  ri_conditionOptionId :: "string option option"
  ri_effectType :: "string option"
  ri_targetFieldId :: "string option"
  ri_defaultPayload :: jsval

text \<open>What validation returns.\<close>

record ResolvedRule =
  rv_conditionFieldId :: string
  rv_conditionOperator :: CaseFieldConditionOperator
  rv_conditionValue :: jsval
  rv_conditionOptionId :: "string option"
  rv_targetFieldId :: string
  rv_effectType :: CaseFieldRuleEffectType
  rv_defaultPayload :: jsval

definition assertOptionBelongs :: "string \<Rightarrow> string \<Rightarrow> string \<Rightarrow> db \<Rightarrow> app_error + unit" where
  "assertOptionBelongs tenant fieldId optionId d =
     ensure (find_first (live_option tenant fieldId optionId) (fieldOptions (customFields d)) \<noteq> None)
       (ValidationError ''conditionOptionId must reference an active option on the condition field.'')"

fun assert_options :: "string \<Rightarrow> string \<Rightarrow> string list \<Rightarrow> db \<Rightarrow> app_error + unit" where
  "assert_options tenant fieldId [] d = Inr ()"
| "assert_options tenant fieldId (i # is) d =
     res_bind (assertOptionBelongs tenant fieldId i d) (\<lambda>_. assert_options tenant fieldId is d)"

definition strings_of :: "jsval \<Rightarrow> string list" where
  "strings_of v = (case v of JArr vs \<Rightarrow> List.map_filter str_of vs | _ \<Rightarrow> [])"

definition payload_prop :: "jsval \<Rightarrow> string \<Rightarrow> jsval" where
  "payload_prop v k = (case entries_of v of Some kvs \<Rightarrow> prop_of kvs k | None \<Rightarrow> JUndefined)"

text \<open>The condition of a rule: its value and its option.\<close>

definition resolve_condition ::
  "string \<Rightarrow> CaseFieldDefinition \<Rightarrow> CaseFieldConditionOperator \<Rightarrow> RuleInput \<Rightarrow> db \<Rightarrow> app_error + jsval \<times> string option" where
  "resolve_condition tenant conditionField operator inp d =
     (if operator = OP_IS_EMPTY \<or> operator = OP_IS_NOT_EMPTY then Inr (JNull, None)
      else if fd_type conditionField = FT_SELECT
      then (let i = or_empty (flat (ri_conditionOptionId inp))
            in res_bind (ensure (i \<noteq> []) (ValidationError ''conditionOptionId is required for a SELECT equality condition.'')) (\<lambda>_.
               res_bind (assertOptionBelongs tenant (fd_id conditionField) i d) (\<lambda>_. Inr (JNull, Some i))))
      else if fd_type conditionField = FT_MULTI_SELECT
      then res_bind (ensure (str_array (ri_conditionValue inp) \<and> ri_conditionValue inp \<noteq> JArr [])
              (ValidationError ''conditionValue must be a non-empty array of option ids for a MULTI_SELECT condition.'')) (\<lambda>_.
           res_bind (assert_options tenant (fd_id conditionField) (strings_of (ri_conditionValue inp)) d) (\<lambda>_.
           Inr (ri_conditionValue inp, None)))
      else res_bind (validateScalarConditionValue (fd_type conditionField) (ri_conditionValue inp)) (\<lambda>_.
           Inr (ri_conditionValue inp, None)))"

definition resolve_default :: "string \<Rightarrow> CaseFieldDefinition \<Rightarrow> CaseFieldRuleEffectType \<Rightarrow> jsval \<Rightarrow> db \<Rightarrow> app_error + jsval" where
  "resolve_default tenant targetField effectType payload d =
     (if effectType = SET_DEFAULT
      then res_bind (validateDefaultPayload (fd_type targetField) payload) (\<lambda>_.
           res_bind (if fd_type targetField = FT_SELECT
              then assertOptionBelongs tenant (fd_id targetField) (or_empty (str_of (payload_prop payload ''optionId''))) d
              else if fd_type targetField = FT_MULTI_SELECT
              then assert_options tenant (fd_id targetField) (strings_of (payload_prop payload ''optionIds'')) d
              else Inr ()) (\<lambda>_. Inr payload))
      else res_bind (ensure (nullish payload) (ValidationError ''defaultPayload is only allowed for a SET_DEFAULT rule.'')) (\<lambda>_. Inr JNull))"

definition usable :: "string \<Rightarrow> CaseFieldDefinition \<Rightarrow> app_error + unit" where
  "usable label field = ensure (\<not> isFrozen (fd_status field))
     (BusinessRuleViolationError (''The '' @ label @ '' field is '' @ field_status_name (fd_status field) @ '' and cannot be used in a rule.''))"

definition in_force :: "string \<Rightarrow> CaseFieldRule \<Rightarrow> bool" where
  "in_force tenant r \<longleftrightarrow> fu_tenantId r = tenant \<and> fu_deletedAt r = None \<and> fu_isActive r"

definition rule_edges :: "string \<Rightarrow> string option \<Rightarrow> db \<Rightarrow> (string \<times> string) list" where
  "rule_edges tenant excludeRuleId d = map (\<lambda>r. (fu_conditionFieldId r, fu_targetFieldId r))
     (filter (\<lambda>r. in_force tenant r \<and> (falsy excludeRuleId \<or> Some (fu_id r) \<noteq> excludeRuleId)) (fieldRules (customFields d)))"

definition validateRuleInput :: "string \<Rightarrow> RuleInput \<Rightarrow> string option \<Rightarrow> db \<Rightarrow> app_error + ResolvedRule" where
  "validateRuleInput tenant inp excludeRuleId d =
     res_bind (or_throw (effect_of (or_else (ri_effectType inp) ''REQUIRE_FIELD'')) (ValidationError ''effectType is not a valid rule effect.'')) (\<lambda>effectType.
     res_bind (ensure (\<not> falsy (ri_conditionFieldId inp) \<and> \<not> falsy (ri_targetFieldId inp))
        (ValidationError ''conditionFieldId and targetFieldId are required.'')) (\<lambda>_.
     res_bind (ensure (ri_conditionFieldId inp \<noteq> ri_targetFieldId inp)
        (BusinessRuleViolationError ''A rule cannot reference the same field as both condition and target.'')) (\<lambda>_.
     res_bind (or_throw (operator_of (or_empty (ri_conditionOperator inp))) (ValidationError ''conditionOperator is not a valid operator.'')) (\<lambda>operator.
     res_bind (loadField tenant (or_empty (ri_conditionFieldId inp)) d) (\<lambda>conditionField.
     res_bind (loadField tenant (or_empty (ri_targetFieldId inp)) d) (\<lambda>targetField.
     res_bind (usable ''condition'' conditionField) (\<lambda>_.
     res_bind (usable ''target'' targetField) (\<lambda>_.
     res_bind (ensure (operatorAllowedForType (fd_type conditionField) operator)
        (ValidationError (''Operator '' @ operator_name operator @ '' is not compatible with a '' @ field_type_name (fd_type conditionField) @ '' field.''))) (\<lambda>_.
     res_bind (resolve_condition tenant conditionField operator inp d) (\<lambda>(conditionValue, conditionOptionId).
     res_bind (resolve_default tenant targetField effectType (ri_defaultPayload inp) d) (\<lambda>defaultPayload.
     res_bind (assertNoRuleCycle (rule_edges tenant excludeRuleId d) (fd_id conditionField, fd_id targetField)) (\<lambda>_.
     Inr \<lparr>rv_conditionFieldId = fd_id conditionField, rv_conditionOperator = operator, rv_conditionValue = conditionValue,
          rv_conditionOptionId = conditionOptionId, rv_targetFieldId = fd_id targetField, rv_effectType = effectType,
          rv_defaultPayload = defaultPayload\<rparr>))))))))))))"

definition with_resolved :: "ResolvedRule \<Rightarrow> CaseFieldRule \<Rightarrow> CaseFieldRule" where
  "with_resolved v r =
     r\<lparr>fu_conditionFieldId := rv_conditionFieldId v, fu_conditionOperator := rv_conditionOperator v,
       fu_conditionValue := rv_conditionValue v, fu_conditionOptionId := rv_conditionOptionId v,
       fu_effectType := rv_effectType v, fu_targetFieldId := rv_targetFieldId v, fu_defaultPayload := rv_defaultPayload v\<rparr>"

definition new_rule :: "env \<Rightarrow> UserContext \<Rightarrow> string \<Rightarrow> RuleInput \<Rightarrow> ResolvedRule \<Rightarrow> CaseFieldRule" where
  "new_rule E ctx name inp v =
     \<lparr>fu_id = ev_uuid E 1, fu_tenantId = tenantId ctx, fu_name = name, fu_description = flat (ri_description inp), fu_isActive = True,
      fu_priority = or_else (ri_priority inp) 0, fu_conditionFieldId = rv_conditionFieldId v,
      fu_conditionOperator = rv_conditionOperator v, fu_conditionValue = rv_conditionValue v,
      fu_conditionOptionId = rv_conditionOptionId v, fu_effectType = rv_effectType v, fu_targetFieldId = rv_targetFieldId v,
      fu_defaultPayload = rv_defaultPayload v, fu_createdAt = ev_clock E 1, fu_deletedAt = None\<rparr>"

definition put_rules :: "CaseFieldRule list \<Rightarrow> db \<Rightarrow> db" where
  "put_rules rs d = d\<lparr>customFields := (customFields d)\<lparr>fieldRules := rs\<rparr>\<rparr>"

definition createRule :: "env \<Rightarrow> UserContext \<Rightarrow> RuleInput \<Rightarrow> CaseFieldRule tx" where
  "createRule E ctx inp d =
     (let name = trim (or_empty (ri_name inp))
      in res_bind (text_check ''name'' name) (\<lambda>_.
         res_bind (validateRuleInput (tenantId ctx) inp None d) (\<lambda>resolved.
         let rule = new_rule E ctx name inp resolved
         in res_bind (audit_tx E 2 (user_audit ctx ''CASE_FIELD_RULE_CREATED'' ''CaseFieldRule'' (fu_id rule) ''CREATE''
              [(''name'', JStr name), (''conditionFieldId'', JStr (rv_conditionFieldId resolved)),
               (''targetFieldId'', JStr (rv_targetFieldId resolved))] JUndefined JUndefined)
              (put_rules (fieldRules (customFields d) @ [rule]) d)) (\<lambda>d2.
            Inr (rule, d2)))))"

text \<open>The input of an update completed with the values of the rule.\<close>

definition merge_rule :: "RuleInput \<Rightarrow> CaseFieldRule \<Rightarrow> RuleInput" where
  "merge_rule inp r =
     inp\<lparr>ri_conditionFieldId := Some (or_else (ri_conditionFieldId inp) (fu_conditionFieldId r)),
         ri_conditionOperator := Some (or_else (ri_conditionOperator inp) (operator_name (fu_conditionOperator r))),
         ri_conditionValue := upd_js (ri_conditionValue inp) (fu_conditionValue r),
         ri_conditionOptionId := Some (upd_opt (ri_conditionOptionId inp) (fu_conditionOptionId r)),
         ri_effectType := Some (or_else (ri_effectType inp) (effect_name (fu_effectType r))),
         ri_targetFieldId := Some (or_else (ri_targetFieldId inp) (fu_targetFieldId r)),
         ri_defaultPayload := upd_js (ri_defaultPayload inp) (fu_defaultPayload r)\<rparr>"

definition rule_updated :: "RuleInput \<Rightarrow> ResolvedRule \<Rightarrow> CaseFieldRule \<Rightarrow> CaseFieldRule" where
  "rule_updated inp v r =
     with_resolved v (r\<lparr>fu_name := upd_opt (map_option trim (ri_name inp)) (fu_name r),
       fu_description := upd_opt (ri_description inp) (fu_description r),
       fu_isActive := upd_opt (ri_isActive inp) (fu_isActive r), fu_priority := upd_opt (ri_priority inp) (fu_priority r)\<rparr>)"

definition rule_write ::
  "env \<Rightarrow> UserContext \<Rightarrow> string \<Rightarrow> (CaseFieldRule \<Rightarrow> CaseFieldRule) \<Rightarrow> string \<Rightarrow> (string \<times> jsval) list \<Rightarrow> jsval \<Rightarrow> CaseFieldRule tx" where
  "rule_write E ctx i f eventType payload before d =
     res_bind (update_row (\<lambda>r. fu_id r = i) f (fieldRules (customFields d))) (\<lambda>(updated, rs).
     res_bind (audit_tx E 2 (user_audit ctx eventType ''CaseFieldRule'' i ''UPDATE'' payload before JUndefined) (put_rules rs d)) (\<lambda>d2.
     Inr (updated, d2)))"

definition updateRule :: "env \<Rightarrow> UserContext \<Rightarrow> string \<Rightarrow> RuleInput \<Rightarrow> CaseFieldRule tx" where
  "updateRule E ctx i inp d =
     res_bind (getRule ctx i d) (\<lambda>rule.
     res_bind (text_check_opt ''name'' (ri_name inp)) (\<lambda>_.
     res_bind (validateRuleInput (tenantId ctx) (merge_rule inp rule) (Some i) d) (\<lambda>resolved.
     rule_write E ctx i (rule_updated inp resolved) ''CASE_FIELD_RULE_UPDATED''
       [(''conditionFieldId'', JStr (rv_conditionFieldId resolved)), (''targetFieldId'', JStr (rv_targetFieldId resolved))]
       (JObj [(''name'', JStr (fu_name rule)), (''isActive'', JBool (fu_isActive rule))]) d)))"

definition archiveRule :: "env \<Rightarrow> UserContext \<Rightarrow> string \<Rightarrow> CaseFieldRule tx" where
  "archiveRule E ctx i d =
     res_bind (getRule ctx i d) (\<lambda>rule.
     res_bind (ensure (fu_deletedAt rule = None) (BusinessRuleViolationError ''Rule is already archived.'')) (\<lambda>_.
     rule_write E ctx i (\<lambda>r. r\<lparr>fu_isActive := False, fu_deletedAt := Some (ev_clock E 1)\<rparr>) ''CASE_FIELD_RULE_ARCHIVED'' []
       (JObj [(''isActive'', JBool (fu_isActive rule))]) d))"

end
