(* ===== verification/Field_Props.thy ===== *)
theory Field_Props
  imports Field_Service
begin

text \<open>
  What the catalogue of custom fields keeps: keys are unique, options never form a cycle of
  parents, the rules in force never form a cycle of dependencies, and a rule that was not archived
  refers to two fields of its tenant that exist and are not archived. The operations are the
  steps of a system, and the invariant holds in every state they reach.
\<close>

section \<open>The invariant\<close>

definition defs_ok :: "CaseFieldDefinition list \<Rightarrow> bool" where
  "defs_ok defs \<longleftrightarrow> distinct (map fd_id defs) \<and> distinct (map (\<lambda>f. (fd_tenantId f, fd_key f)) defs)"

definition parents_in :: "string \<Rightarrow> string \<Rightarrow> CaseFieldOption list \<Rightarrow> (string \<times> string) set" where
  "parents_in t fieldId opts =
     {(fo_id x, p) | x p. x \<in> set opts \<and> fo_tenantId x = t \<and> fo_fieldId x = fieldId \<and> fo_parentOptionId x = Some p}"

definition options_ok :: "CaseFieldOption list \<Rightarrow> bool" where
  "options_ok opts \<longleftrightarrow> distinct (map fo_id opts) \<and> distinct (map (\<lambda>x. (fo_tenantId x, fo_fieldId x, fo_key x)) opts)
     \<and> (\<forall>x \<in> set opts. \<forall>p. fo_parentOptionId x = Some p \<longrightarrow> p \<noteq> [] \<and> p \<in> fo_id ` set opts)
     \<and> (\<forall>t fieldId. acyclic (parents_in t fieldId opts))"

definition edges_in :: "string \<Rightarrow> CaseFieldRule list \<Rightarrow> (string \<times> string) set" where
  "edges_in t rs = {(fu_conditionFieldId r, fu_targetFieldId r) | r. r \<in> set rs \<and> in_force t r}"

definition rules_ok :: "CaseFieldRule list \<Rightarrow> bool" where
  "rules_ok rs \<longleftrightarrow> distinct (map fu_id rs) \<and> (\<forall>t. acyclic (edges_in t rs))"

definition open_field :: "CaseFieldDefinition list \<Rightarrow> string \<Rightarrow> string \<Rightarrow> bool" where
  "open_field defs t i \<longleftrightarrow> (\<exists>f \<in> set defs. fd_id f = i \<and> fd_tenantId f = t \<and> fd_status f \<noteq> FS_ARCHIVED)"

definition refs_ok :: "CaseFieldDefinition list \<Rightarrow> CaseFieldRule list \<Rightarrow> bool" where
  "refs_ok defs rs \<longleftrightarrow> (\<forall>r \<in> set rs. fu_deletedAt r = None \<longrightarrow>
     open_field defs (fu_tenantId r) (fu_conditionFieldId r) \<and> open_field defs (fu_tenantId r) (fu_targetFieldId r))"

definition catalogue_ok :: "field_tables \<Rightarrow> bool" where
  "catalogue_ok c \<longleftrightarrow> defs_ok (fieldDefs c) \<and> options_ok (fieldOptions c) \<and> rules_ok (fieldRules c) \<and> refs_ok (fieldDefs c) (fieldRules c)"

section \<open>The graphs the checks see\<close>

lemma option_parents_rel:
  assumes "distinct (map fo_id (fieldOptions (customFields d)))"
  shows "parent_rel (option_parents t fieldId d) = parents_in t fieldId (fieldOptions (customFields d))"
proof -
  let ?ps = "option_parents t fieldId d"
  have "distinct (map fst ?ps)" using assms
    by (simp add: option_parents_def comp_def distinct_map inj_on_def)
  then have "parent_rel ?ps = {(a, b). (a, Some b) \<in> set ?ps}" by (simp add: parent_rel_def map_of_eq_Some_iff)
  also have "\<dots> = parents_in t fieldId (fieldOptions (customFields d))"
    by (auto simp: option_parents_def parents_in_def)
  finally show ?thesis .
qed

lemma rule_edges_sub: "set (rule_edges t x d) \<subseteq> edges_in t (fieldRules (customFields d))"
  by (auto simp: rule_edges_def edges_in_def)

lemma rule_edges_none: "set (rule_edges t None d) = edges_in t (fieldRules (customFields d))"
  by (auto simp: rule_edges_def edges_in_def falsy_def)

section \<open>Changes of the tables\<close>

text \<open>Appending a definition, and replacing one by its image.\<close>

lemma distinct_map_keep:
  assumes "distinct (map k xs)" "\<And>x. k (f x) = k x"
  shows "distinct (map k (map (\<lambda>x. if p x then f x else x) xs))"
proof -
  have eq: "map k (map (\<lambda>x. if p x then f x else x) xs) = map k xs" using assms(2) by simp
  show ?thesis unfolding eq by (rule assms(1))
qed

lemma defs_map:
  assumes "defs_ok defs" "\<And>f. fd_id (g f) = fd_id f \<and> fd_tenantId (g f) = fd_tenantId f \<and> fd_key (g f) = fd_key f"
  shows "defs_ok (map (\<lambda>f. if fd_id f = i then g f else f) defs)"
  using assms distinct_map_keep [of fd_id defs g] distinct_map_keep [of "\<lambda>f. (fd_tenantId f, fd_key f)" defs g]
  unfolding defs_ok_def by simp

lemma defs_append:
  assumes "defs_ok defs" "fd_id r \<notin> fd_id ` set defs" "\<not> (\<exists>q \<in> set defs. fd_tenantId q = fd_tenantId r \<and> fd_key q = fd_key r)"
  shows "defs_ok (defs @ [r])"
  using assms unfolding defs_ok_def by auto

lemma refs_map:
  assumes "refs_ok defs rs" "\<And>f. fd_id (g f) = fd_id f \<and> fd_tenantId (g f) = fd_tenantId f"
    and "\<And>f r. f \<in> set defs \<Longrightarrow> fd_id f = i \<Longrightarrow> fd_status f \<noteq> FS_ARCHIVED \<Longrightarrow> fd_status (g f) \<noteq> FS_ARCHIVED
      \<or> (r \<in> set rs \<longrightarrow> fu_deletedAt r = None \<longrightarrow> fu_tenantId r = fd_tenantId f \<longrightarrow> \<not> refers_to i r)"
  shows "refs_ok (map (\<lambda>f. if fd_id f = i then g f else f) defs) rs"
  unfolding refs_ok_def
proof (intro ballI impI)
  fix r assume r: "r \<in> set rs" "fu_deletedAt r = None"
  let ?h = "\<lambda>f. if fd_id f = i then g f else f"
  have keep: "open_field (map ?h defs) (fu_tenantId r) j" if o: "open_field defs (fu_tenantId r) j" and j: "refers_to j r" for j
  proof -
    from o obtain f where f: "f \<in> set defs" "fd_id f = j" "fd_tenantId f = fu_tenantId r" "fd_status f \<noteq> FS_ARCHIVED"
      by (auto simp: open_field_def)
    have "fd_status (?h f) \<noteq> FS_ARCHIVED" using assms(3) [of f r] f r j by auto
    moreover have "fd_id (?h f) = j" "fd_tenantId (?h f) = fu_tenantId r" using f assms(2) by auto
    ultimately show ?thesis using f(1) unfolding open_field_def by force
  qed
  have "open_field defs (fu_tenantId r) (fu_conditionFieldId r)" "open_field defs (fu_tenantId r) (fu_targetFieldId r)"
    using assms(1) r by (auto simp: refs_ok_def)
  then show "open_field (map ?h defs) (fu_tenantId r) (fu_conditionFieldId r) \<and> open_field (map ?h defs) (fu_tenantId r) (fu_targetFieldId r)"
    using keep by (simp add: refers_to_def)
qed

lemma refs_more: "refs_ok defs rs \<Longrightarrow> refs_ok (defs @ [f]) rs"
  unfolding refs_ok_def open_field_def by fastforce

lemma refs_fewer:
  assumes "refs_ok defs rs" "\<And>r. r \<in> set rs \<Longrightarrow> \<not> refers_to i r"
  shows "refs_ok (filter (\<lambda>f. fd_id f \<noteq> i) defs) rs"
  using assms unfolding refs_ok_def open_field_def refers_to_def by fastforce

text \<open>Rules: a new one, or one replaced, whose edge the check has accepted.\<close>

lemma edges_append: "edges_in t (rs @ [r]) = edges_in t rs \<union> (if in_force t r then {(fu_conditionFieldId r, fu_targetFieldId r)} else {})"
  by (auto simp: edges_in_def)

lemma rules_map:
  assumes "rules_ok rs" "\<And>r. fu_id (g r) = fu_id r \<and> fu_tenantId (g r) = fu_tenantId r"
    and new: "\<And>t. acyclic (edges_in t (map (\<lambda>r. if fu_id r = i then g r else r) rs))"
  shows "rules_ok (map (\<lambda>r. if fu_id r = i then g r else r) rs)"
  using assms distinct_map_keep [of fu_id rs g "\<lambda>r. fu_id r = i"] unfolding rules_ok_def by simp

text \<open>Options.\<close>

lemma parents_append:
  "parents_in t fieldId (opts @ [x]) = parents_in t fieldId opts
     \<union> (if fo_tenantId x = t \<and> fo_fieldId x = fieldId then {(fo_id x, p) | p. fo_parentOptionId x = Some p} else {})"
  by (auto simp: parents_in_def)

lemma options_append:
  assumes ok: "options_ok opts" and new: "fo_id x \<notin> fo_id ` set opts"
    and key: "\<not> (\<exists>q \<in> set opts. fo_tenantId q = fo_tenantId x \<and> fo_fieldId q = fo_fieldId x \<and> fo_key q = fo_key x)"
    and parent: "\<And>p. fo_parentOptionId x = Some p \<Longrightarrow> p \<noteq> [] \<and> p \<in> fo_id ` set opts"
  shows "options_ok (opts @ [x])"
proof -
  have "acyclic (parents_in t fieldId (opts @ [x]))" for t fieldId
  proof -
    let ?R = "parents_in t fieldId opts"
    have ac: "acyclic ?R" using ok by (simp add: options_ok_def)
    have rng: "b \<in> fo_id ` set opts" if "(a, b) \<in> ?R" for a b using that ok by (auto simp: parents_in_def options_ok_def)
    show ?thesis
    proof (cases "fo_tenantId x = t \<and> fo_fieldId x = fieldId \<and> fo_parentOptionId x \<noteq> None")
      case True
      then obtain p where p: "fo_parentOptionId x = Some p" by blast
      then have "parents_in t fieldId (opts @ [x]) = insert (fo_id x, p) ?R" using True by (auto simp: parents_append)
      moreover have "(p, fo_id x) \<notin> ?R\<^sup>*"
      proof
        assume "(p, fo_id x) \<in> ?R\<^sup>*"
        then show False
        proof (cases rule: rtranclE)
          case base
          then show False using parent [OF p] new by simp
        next
          case (step y)
          then show False using rng new by blast
        qed
      qed
      ultimately show ?thesis using ac by (simp add: acyclic_insert)
    next
      case False
      then have "parents_in t fieldId (opts @ [x]) = ?R" by (auto simp: parents_append)
      then show ?thesis using ac by simp
    qed
  qed
  then show ?thesis using ok new key parent unfolding options_ok_def by auto
qed

lemma options_map:
  assumes ok: "options_ok opts"
    and keep: "\<And>x. fo_id (g x) = fo_id x \<and> fo_tenantId (g x) = fo_tenantId x \<and> fo_fieldId (g x) = fo_fieldId x \<and> fo_key (g x) = fo_key x"
    and parent: "\<And>x p. x \<in> set opts \<Longrightarrow> fo_id x = i \<Longrightarrow> fo_parentOptionId (g x) = Some p \<Longrightarrow> fo_parentOptionId x = Some p
      \<or> p \<noteq> [] \<and> p \<in> fo_id ` set opts
        \<and> acyclic (insert (i, p) {(a, b) \<in> parents_in (fo_tenantId x) (fo_fieldId x) opts. a \<noteq> i})"
  shows "options_ok (map (\<lambda>x. if fo_id x = i then g x else x) opts)"
proof -
  let ?h = "\<lambda>x. if fo_id x = i then g x else x"
  have ids: "fo_id ` set (map ?h opts) = fo_id ` set opts" unfolding set_map image_image using keep by (intro image_cong) auto
  have one: "y = x" if "x \<in> set opts" "y \<in> set opts" "fo_id x = i" "fo_id y = i" for x y
    using that ok by (auto simp: options_ok_def distinct_map inj_on_def)
  have "acyclic (parents_in t fieldId (map ?h opts))" for t fieldId
  proof -
    let ?R = "parents_in t fieldId opts" and ?N = "parents_in t fieldId (map ?h opts)"
    have ac: "acyclic ?R" using ok by (simp add: options_ok_def)
    have N: "(a, b) \<in> ?R \<or> a = i \<and> (\<exists>x \<in> set opts. fo_id x = i \<and> fo_tenantId x = t \<and> fo_fieldId x = fieldId \<and> fo_parentOptionId (g x) = Some b)"
      if "(a, b) \<in> ?N" for a b
      using that keep by (auto simp: parents_in_def split: if_splits)
    show ?thesis
    proof (cases "?N \<subseteq> ?R")
      case True
      then show ?thesis using ac acyclic_subset by blast
    next
      case False
      then obtain x p where x: "x \<in> set opts" "fo_id x = i" "fo_tenantId x = t" "fo_fieldId x = fieldId" "fo_parentOptionId (g x) = Some p"
        and np: "(i, p) \<notin> ?R" using N by fast
      then have "fo_parentOptionId x \<noteq> Some p" by (auto simp: parents_in_def)
      then have acn: "acyclic (insert (i, p) {(a, b) \<in> ?R. a \<noteq> i})" using parent [OF x(1,2,5)] x(3,4) by blast
      have "(a, b) \<in> insert (i, p) {(a, b) \<in> ?R. a \<noteq> i}" if ab: "(a, b) \<in> ?N" for a b
      proof (cases "a = i")
        case True
        from ab obtain y where y: "y \<in> set opts" "fo_id (?h y) = a" "fo_parentOptionId (?h y) = Some b" by (auto simp: parents_in_def)
        then have "y = x" using one x True keep by (metis (full_types))
        then show ?thesis using y x True by simp
      next
        case False
        then show ?thesis using N [OF ab] by blast
      qed
      then have "?N \<subseteq> insert (i, p) {(a, b) \<in> ?R. a \<noteq> i}" by auto
      with acn show ?thesis by (rule acyclic_subset)
    qed
  qed
  moreover have "p \<noteq> [] \<and> p \<in> fo_id ` set opts" if "x \<in> set (map ?h opts)" "fo_parentOptionId x = Some p" for x p
  proof -
    from that(1) obtain y where y: "y \<in> set opts" "x = ?h y" by auto
    show ?thesis
    proof (cases "fo_id y = i")
      case True
      then have "fo_parentOptionId y = Some p \<or> p \<noteq> [] \<and> p \<in> fo_id ` set opts" using parent [OF y(1)] y(2) that(2) by auto
      then show ?thesis using ok y(1) by (auto simp: options_ok_def)
    next
      case False
      then show ?thesis using ok y that(2) by (auto simp: options_ok_def)
    qed
  qed
  ultimately show ?thesis
    using ok distinct_map_keep [of fo_id opts g] distinct_map_keep [of "\<lambda>x. (fo_tenantId x, fo_fieldId x, fo_key x)" opts g] keep
    unfolding options_ok_def ids by simp
qed

section \<open>The operations\<close>

datatype field_call =
    CreateField FieldInput | UpdateField string FieldInput | ActivateField string | FreezeField string | ArchiveField string | DeleteField string
  | CreateOption string OptionInput | UpdateOption string string OptionInput | ArchiveOption string string
  | CreateRule RuleInput | UpdateRule string RuleInput | ArchiveRule string

definition state_of :: "app_error + 'a \<times> db \<Rightarrow> app_error + db" where
  "state_of r = res_bind r (\<lambda>(_, d). Inr d)"

lemma state_of_Inr [simp]: "state_of r = Inr d \<longleftrightarrow> (\<exists>x. r = Inr (x, d))"
  by (auto simp: state_of_def res_bind_Inr_iff)

fun run_field :: "env \<Rightarrow> UserContext \<Rightarrow> field_call \<Rightarrow> db \<Rightarrow> app_error + db" where
  "run_field E ctx (CreateField inp) d = state_of (createField E ctx inp d)"
| "run_field E ctx (UpdateField i inp) d = state_of (updateField E ctx i inp d)"
| "run_field E ctx (ActivateField i) d = state_of (activateField E ctx i d)"
| "run_field E ctx (FreezeField i) d = state_of (setFieldReadOnly E ctx i d)"
| "run_field E ctx (ArchiveField i) d = state_of (archiveField E ctx i d)"
| "run_field E ctx (DeleteField i) d = state_of (hardDeleteField E ctx i d)"
| "run_field E ctx (CreateOption f inp) d = state_of (createOption E ctx f inp d)"
| "run_field E ctx (UpdateOption f i inp) d = state_of (updateOption E ctx f i inp d)"
| "run_field E ctx (ArchiveOption f i) d = state_of (archiveOption E ctx f i d)"
| "run_field E ctx (CreateRule inp) d = state_of (createRule E ctx inp d)"
| "run_field E ctx (UpdateRule i inp) d = state_of (updateRule E ctx i inp d)"
| "run_field E ctx (ArchiveRule i) d = state_of (archiveRule E ctx i d)"

text \<open>The id a call gives to a new row is used by no row of the catalogue.\<close>

definition fresh_field_id :: "env \<Rightarrow> db \<Rightarrow> bool" where
  "fresh_field_id E d \<longleftrightarrow> ev_uuid E 1 \<notin> fd_id ` set (fieldDefs (customFields d)) \<union> fo_id ` set (fieldOptions (customFields d))
     \<union> fu_id ` set (fieldRules (customFields d))"

lemma loadField_Inr: "loadField t i d = Inr f \<longleftrightarrow> find_first (\<lambda>f. fd_id f = i \<and> fd_tenantId f = t) (fieldDefs (customFields d)) = Some f"
  by (simp add: loadField_def)

lemma update_row_map: "update_row p f rs = Inr (r, rs') \<Longrightarrow> rs' = map (\<lambda>r. if p r then f r else r) rs"
  by (auto simp: update_row_Inr update_many_def)

lemma field_write_tables:
  assumes "field_write E ctx i f ev pl bf d = Inr (r, d')"
  shows "customFields d' = (customFields d)\<lparr>fieldDefs := map (\<lambda>r. if fd_id r = i then f r else r) (fieldDefs (customFields d))\<rparr>"
proof -
  from assms obtain rs where u: "update_row (\<lambda>r. fd_id r = i) f (fieldDefs (customFields d)) = Inr (r, rs)"
    and a: "audit_tx E 2 (user_audit ctx ev ''CaseFieldDefinition'' i ''UPDATE'' pl bf JUndefined)
        (d\<lparr>customFields := (customFields d)\<lparr>fieldDefs := rs\<rparr>\<rparr>) = Inr d'"
    unfolding field_write_def res_bind_Inr_iff by (auto simp: res_bind_Inr_iff)
  show ?thesis using audit_tx_tables(14) [OF a] by (simp add: update_row_map [OF u])
qed

lemma option_write_tables:
  assumes "option_write E ctx fieldId i f ev bf d = Inr (r, d')"
  shows "customFields d' = (customFields d)\<lparr>fieldOptions := map (\<lambda>r. if fo_id r = i then f r else r) (fieldOptions (customFields d))\<rparr>"
proof -
  from assms obtain rs where u: "update_row (\<lambda>r. fo_id r = i) f (fieldOptions (customFields d)) = Inr (r, rs)"
    and a: "audit_tx E 2 (user_audit ctx ev ''CaseFieldOption'' i ''UPDATE'' [(''fieldId'', JStr fieldId)] bf JUndefined)
        (d\<lparr>customFields := (customFields d)\<lparr>fieldOptions := rs\<rparr>\<rparr>) = Inr d'"
    unfolding option_write_def res_bind_Inr_iff by (auto simp: res_bind_Inr_iff)
  show ?thesis using audit_tx_tables(14) [OF a] by (simp add: update_row_map [OF u])
qed

lemma rule_write_tables:
  assumes "rule_write E ctx i f ev pl bf d = Inr (r, d')"
  shows "customFields d' = (customFields d)\<lparr>fieldRules := map (\<lambda>r. if fu_id r = i then f r else r) (fieldRules (customFields d))\<rparr>"
proof -
  from assms obtain rs where u: "update_row (\<lambda>r. fu_id r = i) f (fieldRules (customFields d)) = Inr (r, rs)"
    and a: "audit_tx E 2 (user_audit ctx ev ''CaseFieldRule'' i ''UPDATE'' pl bf JUndefined) (put_rules rs d) = Inr d'"
    unfolding rule_write_def res_bind_Inr_iff by (auto simp: res_bind_Inr_iff)
  show ?thesis using audit_tx_tables(14) [OF a] by (simp add: update_row_map [OF u] put_rules_def)
qed

text \<open>Updates of one definition keep the invariant.\<close>

lemma catalogue_defs:
  assumes ok: "catalogue_ok c" and keep: "\<And>f. fd_id (g f) = fd_id f \<and> fd_tenantId (g f) = fd_tenantId f \<and> fd_key (g f) = fd_key f"
    and st: "\<And>f r. f \<in> set (fieldDefs c) \<Longrightarrow> fd_id f = i \<Longrightarrow> fd_status f \<noteq> FS_ARCHIVED \<Longrightarrow> fd_status (g f) \<noteq> FS_ARCHIVED
      \<or> (r \<in> set (fieldRules c) \<longrightarrow> fu_deletedAt r = None \<longrightarrow> fu_tenantId r = fd_tenantId f \<longrightarrow> \<not> refers_to i r)"
  shows "catalogue_ok (c\<lparr>fieldDefs := map (\<lambda>f. if fd_id f = i then g f else f) (fieldDefs c)\<rparr>)"
  using ok defs_map [of "fieldDefs c" g i] refs_map [of "fieldDefs c" "fieldRules c" g i] keep st
  unfolding catalogue_ok_def by simp

lemma insert_field_Inr:
  "insert_field r d = Inr d' \<longleftrightarrow> \<not> (\<exists>q \<in> set (fieldDefs (customFields d)). fd_tenantId q = fd_tenantId r \<and> fd_key q = fd_key r)
     \<and> d\<lparr>customFields := (customFields d)\<lparr>fieldDefs := fieldDefs (customFields d) @ [r]\<rparr>\<rparr> = d'"
  by (simp add: insert_field_def)

lemma createField_row:
  assumes "createField E ctx inp d = Inr (r, d')"
  shows "\<exists>t. let r = create_field_row (ev_uuid E 1) (ev_clock E 1) ctx (trim (or_empty (fi_key inp))) (trim (or_empty (fi_name inp))) t inp
     in insert_field r d = Inr (d\<lparr>customFields := customFields d'\<rparr>)"
proof -
  from assms obtain t d1 pl where
    i: "insert_field (create_field_row (ev_uuid E 1) (ev_clock E 1) ctx (trim (or_empty (fi_key inp))) (trim (or_empty (fi_name inp))) t inp) d = Inr d1"
    and a: "audit_tx E 2 (user_audit ctx ''CASE_FIELD_CREATED'' ''CaseFieldDefinition''
       (fd_id (create_field_row (ev_uuid E 1) (ev_clock E 1) ctx (trim (or_empty (fi_key inp))) (trim (or_empty (fi_name inp))) t inp))
       ''CREATE'' pl JUndefined (JObj [(''status'', JStr ''DRAFT'')])) d1 = Inr d'"
    unfolding createField_def Let_def res_bind_Inr_iff mapP2002_Inr prod.inject sum.inject
    by (elim exE conjE) (rule that, assumption, simp only:)
  have "d1 = d\<lparr>customFields := customFields d1\<rparr>" using i by (auto simp: insert_field_Inr)
  then have "d1 = d\<lparr>customFields := customFields d'\<rparr>" using audit_tx_tables(14) [OF a] by simp
  then show ?thesis unfolding Let_def using i by auto
qed

lemma step_createField:
  assumes "createField E ctx inp d = Inr (r, d')" "catalogue_ok (customFields d)" "fresh_field_id E d"
  shows "catalogue_ok (customFields d')"
proof -
  let ?c = "customFields d"
  obtain t where i: "insert_field (create_field_row (ev_uuid E 1) (ev_clock E 1) ctx (trim (or_empty (fi_key inp))) (trim (or_empty (fi_name inp))) t inp) d
      = Inr (d\<lparr>customFields := customFields d'\<rparr>)"
    using createField_row [OF assms(1)] unfolding Let_def by blast
  let ?r = "create_field_row (ev_uuid E 1) (ev_clock E 1) ctx (trim (or_empty (fi_key inp))) (trim (or_empty (fi_name inp))) t inp"
  have key: "\<not> (\<exists>q \<in> set (fieldDefs ?c). fd_tenantId q = fd_tenantId ?r \<and> fd_key q = fd_key ?r)"
    and "d\<lparr>customFields := ?c\<lparr>fieldDefs := fieldDefs ?c @ [?r]\<rparr>\<rparr> = d\<lparr>customFields := customFields d'\<rparr>"
    by (rule conjunct1 [OF i [unfolded insert_field_Inr]], rule conjunct2 [OF i [unfolded insert_field_Inr]])
  from arg_cong [OF this(2), of customFields] have new: "customFields d' = ?c\<lparr>fieldDefs := fieldDefs ?c @ [?r]\<rparr>" by simp
  have "fd_id ?r \<notin> fd_id ` set (fieldDefs ?c)" using assms(3) by (simp add: fresh_field_id_def create_field_row_def)
  then have "defs_ok (fieldDefs ?c @ [?r])" using assms(2) key by (intro defs_append) (simp_all add: catalogue_ok_def)
  then show ?thesis using assms(2) refs_more unfolding new by (simp add: catalogue_ok_def)
qed

lemma step_updateField:
  assumes "updateField E ctx i inp d = Inr (r, d')" "catalogue_ok (customFields d)"
  shows "catalogue_ok (customFields d')"
proof -
  from assms(1) obtain ev pl bf where w: "field_write E ctx i (field_updated inp) ev pl bf d = Inr (r, d')"
    unfolding updateField_def res_bind_Inr_iff by blast
  show ?thesis unfolding field_write_tables [OF w]
    by (intro catalogue_defs [OF assms(2)]) (simp_all add: field_updated_def)
qed

lemma step_transition:
  assumes "transitionField E ctx i from to active ev ill d = Inr (r, d')" "catalogue_ok (customFields d)" "to \<noteq> FS_ARCHIVED"
  shows "catalogue_ok (customFields d')"
proof -
  from assms(1) obtain pl bf where
    w: "field_write E ctx i (\<lambda>r. r\<lparr>fd_status := to, fd_isActive := upd_opt active (fd_isActive r)\<rparr>) ev pl bf d = Inr (r, d')"
    unfolding transitionField_def res_bind_Inr_iff by blast
  show ?thesis unfolding field_write_tables [OF w]
    using assms(3) by (intro catalogue_defs [OF assms(2)]) simp_all
qed

lemma field_one:
  assumes "catalogue_ok c" "find_first (\<lambda>f. fd_id f = i \<and> fd_tenantId f = t) (fieldDefs c) = Some f" "g \<in> set (fieldDefs c)" "fd_id g = i"
  shows "g = f"
proof -
  have "f \<in> set (fieldDefs c)" "fd_id f = i" using assms(2) by (auto dest!: find_first_SomeD)
  then show ?thesis using assms by (auto simp: catalogue_ok_def defs_ok_def distinct_map inj_on_def)
qed

lemma step_archiveField:
  assumes "archiveField E ctx i d = Inr (r, d')" "catalogue_ok (customFields d)"
  shows "catalogue_ok (customFields d')"
proof -
  let ?g = "\<lambda>r. r\<lparr>fd_status := FS_ARCHIVED, fd_isActive := False, fd_deletedAt := Some (ev_clock E 1)\<rparr>"
  from assms(1) obtain f ev pl bf where l: "loadField (tenantId ctx) i d = Inr f"
    and c: "count_rows (\<lambda>r. fu_tenantId r = tenantId ctx \<and> fu_deletedAt r = None \<and> refers_to i r) (fieldRules (customFields d)) = 0"
    and w: "field_write E ctx i ?g ev pl bf d = Inr (r, d')"
    unfolding archiveField_def res_bind_Inr_iff ensure_simps(3) by blast
  have t: "fd_tenantId g = tenantId ctx" if "g \<in> set (fieldDefs (customFields d))" "fd_id g = i" for g
    using field_one [OF assms(2) l [unfolded loadField_Inr] that] l by (auto simp: loadField_Inr dest!: find_first_SomeD)
  show ?thesis unfolding field_write_tables [OF w]
    using c t by (intro catalogue_defs [OF assms(2)]) (auto simp: count_rows_def filter_empty_conv)
qed

lemma step_deleteField:
  assumes "hardDeleteField E ctx i d = Inr (r, d')" "catalogue_ok (customFields d)"
  shows "catalogue_ok (customFields d')"
proof -
  let ?c = "customFields d"
  from assms(1) obtain d1 a where c: "count_rows (refers_to i) (fieldRules ?c) = 0"
    and del: "delete_field i d = Inr d1" and a: "audit_tx E 2 a d1 = Inr d'"
    unfolding hardDeleteField_def res_bind_Inr_iff ensure_simps(3) by blast
  have "customFields d1 = ?c\<lparr>fieldDefs := filter (\<lambda>r. fd_id r \<noteq> i) (fieldDefs ?c)\<rparr>"
    using del by (auto simp: delete_field_def split: if_splits)
  then have new: "customFields d' = ?c\<lparr>fieldDefs := filter (\<lambda>r. fd_id r \<noteq> i) (fieldDefs ?c)\<rparr>"
    using audit_tx_tables(14) [OF a] by simp
  have none: "\<not> refers_to i q" if "q \<in> set (fieldRules ?c)" for q
    using c that by (auto simp: count_rows_def filter_empty_conv)
  have "defs_ok (filter (\<lambda>r. fd_id r \<noteq> i) (fieldDefs ?c))"
    using assms(2) by (auto simp: catalogue_ok_def defs_ok_def distinct_map_filter)
  then show ?thesis using assms(2) refs_fewer [OF _ none] unfolding new catalogue_ok_def by simp
qed

text \<open>Options.\<close>

lemma insert_option_Inr:
  "insert_option r d = Inr d' \<longleftrightarrow> \<not> (\<exists>q \<in> set (fieldOptions (customFields d)). fo_tenantId q = fo_tenantId r \<and> fo_fieldId q = fo_fieldId r \<and> fo_key q = fo_key r)
     \<and> fo_parentOptionId r \<noteq> Some [] \<and> d\<lparr>customFields := (customFields d)\<lparr>fieldOptions := fieldOptions (customFields d) @ [r]\<rparr>\<rparr> = d'"
  by (auto simp: insert_option_def)

lemma parent_found:
  assumes "assertValidParent t fieldId x p d = Inr u"
  shows "p \<in> fo_id ` set (fieldOptions (customFields d)) \<and> assertNoOptionCycle x (Some p) (option_parents t fieldId d) = Inr ()"
  using assms unfolding assertValidParent_def res_bind_Inr_iff ensure_simps(3)
  by (auto simp: find_first_None live_option_def)

lemma createOption_row:
  assumes "createOption E ctx fieldId inp d = Inr (r, d')"
  shows "fo_id r = ev_uuid E 1 \<and> fo_parentOptionId r = flat (oi_parentOptionId inp)
    \<and> insert_option r d = Inr (d\<lparr>customFields := customFields d'\<rparr>)
    \<and> (falsy (fo_parentOptionId r) \<or> or_empty (fo_parentOptionId r) \<in> fo_id ` set (fieldOptions (customFields d)))"
proof -
  let ?parent = "flat (oi_parentOptionId inp)"
  from assms obtain u d1 a where
      opt: "create_option_row E ctx fieldId (trim (or_empty (oi_key inp))) (trim (or_empty (oi_label inp))) ?parent inp = r"
    and p: "(if falsy ?parent then Inr () else assertValidParent (tenantId ctx) fieldId None (or_empty ?parent) d) = Inr u"
    and i: "insert_option (create_option_row E ctx fieldId (trim (or_empty (oi_key inp))) (trim (or_empty (oi_label inp))) ?parent inp) d = Inr d1"
    and a: "audit_tx E 2 a d1 = Inr d'"
    unfolding createOption_def Let_def res_bind_Inr_iff mapP2002_Inr prod.inject sum.inject
    by (elim exE conjE) (rule that, assumption+, simp only:)
  have r: "fo_id r = ev_uuid E 1" "fo_parentOptionId r = ?parent" unfolding opt [symmetric] by (simp_all add: create_option_row_def)
  have "d1 = d\<lparr>customFields := customFields d1\<rparr>" using i by (auto simp: insert_option_Inr)
  then have "insert_option r d = Inr (d\<lparr>customFields := customFields d'\<rparr>)" using i audit_tx_tables(14) [OF a] opt by simp
  moreover have "falsy (fo_parentOptionId r) \<or> or_empty (fo_parentOptionId r) \<in> fo_id ` set (fieldOptions (customFields d))"
  proof (cases "falsy (flat (oi_parentOptionId inp))")
    case False
    then show ?thesis using p parent_found r by simp
  qed (use r in simp)
  ultimately show ?thesis using r by simp
qed

lemma step_createOption:
  assumes "createOption E ctx fieldId inp d = Inr (r, d')" "catalogue_ok (customFields d)" "fresh_field_id E d"
  shows "catalogue_ok (customFields d')"
proof -
  let ?c = "customFields d"
  obtain id: "fo_id r = ev_uuid E 1" and ins: "insert_option r d = Inr (d\<lparr>customFields := customFields d'\<rparr>)"
    and p: "falsy (fo_parentOptionId r) \<or> or_empty (fo_parentOptionId r) \<in> fo_id ` set (fieldOptions ?c)"
    using createOption_row [OF assms(1)] by blast
  note i = ins [unfolded insert_option_Inr]
  have ne: "fo_parentOptionId r \<noteq> Some []" and key: "\<not> (\<exists>q \<in> set (fieldOptions ?c). fo_tenantId q = fo_tenantId r \<and> fo_fieldId q = fo_fieldId r \<and> fo_key q = fo_key r)"
    using i by blast+
  have "d\<lparr>customFields := ?c\<lparr>fieldOptions := fieldOptions ?c @ [r]\<rparr>\<rparr> = d\<lparr>customFields := customFields d'\<rparr>" using i by blast
  from arg_cong [OF this, of customFields] have new: "customFields d' = ?c\<lparr>fieldOptions := fieldOptions ?c @ [r]\<rparr>" by simp
  have "options_ok (fieldOptions ?c @ [r])"
  proof (rule options_append [OF _ _ key])
    show "options_ok (fieldOptions ?c)" using assms(2) by (simp add: catalogue_ok_def)
    show "fo_id r \<notin> fo_id ` set (fieldOptions ?c)" using assms(3) by (simp add: fresh_field_id_def id)
    show "q \<noteq> [] \<and> q \<in> fo_id ` set (fieldOptions ?c)" if "fo_parentOptionId r = Some q" for q
      using p that ne by (simp add: falsy_def or_empty_def)
  qed
  then show ?thesis using assms(2) unfolding new by (simp add: catalogue_ok_def)
qed

lemma option_one:
  assumes "catalogue_ok c" "find_first (\<lambda>x. fo_id x = i \<and> fo_tenantId x = t \<and> fo_fieldId x = fieldId) (fieldOptions c) = Some x"
    and "y \<in> set (fieldOptions c)" "fo_id y = i"
  shows "fo_tenantId y = t \<and> fo_fieldId y = fieldId"
proof -
  have x: "x \<in> set (fieldOptions c)" "fo_id x = i" "fo_tenantId x = t" "fo_fieldId x = fieldId" using find_first_SomeD [OF assms(2)] by auto
  then have "y = x" using assms(1,3,4) by (auto simp: catalogue_ok_def options_ok_def distinct_map inj_on_def)
  then show ?thesis using x by simp
qed

lemma step_updateOption:
  assumes "updateOption E ctx fieldId i inp d = Inr (r, d')" "catalogue_ok (customFields d)"
  shows "catalogue_ok (customFields d')"
proof -
  let ?c = "customFields d"
  from assms(1) obtain x u ev bf where l: "loadOption ctx fieldId i d = Inr x"
    and p: "(case flat (oi_parentOptionId inp) of None \<Rightarrow> Inr () | Some p \<Rightarrow> assertValidParent (tenantId ctx) fieldId (Some i) p d) = Inr u"
    and w: "option_write E ctx fieldId i (option_updated inp) ev bf d = Inr (r, d')"
    unfolding updateOption_def res_bind_Inr_iff by blast
  have l': "find_first (\<lambda>x. fo_id x = i \<and> fo_tenantId x = tenantId ctx \<and> fo_fieldId x = fieldId) (fieldOptions ?c) = Some x"
    using l by (simp add: loadOption_def)
  have ok: "options_ok (fieldOptions ?c)" using assms(2) by (simp add: catalogue_ok_def)
  then have dist: "distinct (map fo_id (fieldOptions ?c))" by (simp add: options_ok_def)
  have "options_ok (map (\<lambda>x. if fo_id x = i then option_updated inp x else x) (fieldOptions ?c))"
  proof (rule options_map [OF ok])
    fix y q assume y: "y \<in> set (fieldOptions ?c)" "fo_id y = i" "fo_parentOptionId (option_updated inp y) = Some q"
    have t: "fo_tenantId y = tenantId ctx" "fo_fieldId y = fieldId" using option_one [OF assms(2) l' y(1,2)] by auto
    show "fo_parentOptionId y = Some q \<or> q \<noteq> [] \<and> q \<in> fo_id ` set (fieldOptions ?c)
        \<and> acyclic (insert (i, q) {(a, b) \<in> parents_in (fo_tenantId y) (fo_fieldId y) (fieldOptions ?c). a \<noteq> i})"
    proof (cases "oi_parentOptionId inp")
      case None
      then show ?thesis using y(3) by (simp add: option_updated_def)
    next
      case (Some pp)
      then have q: "pp = Some q" "q \<noteq> []" using y(3) by (auto simp: option_updated_def falsy_def split: if_splits)
      then have v: "assertValidParent (tenantId ctx) fieldId (Some i) q d = Inr u" using p Some by (simp add: flat_def)
      let ?P = "option_parents (tenantId ctx) fieldId d"
      note rel = option_parents_rel [OF dist, of "tenantId ctx" fieldId]
      have "acyclic (parent_rel ((i, Some q) # ?P))"
      proof (rule option_check_exact [THEN iffD1, OF _ _ q(2)])
        show "acyclic (parent_rel ?P)" unfolding rel using ok by (simp add: options_ok_def)
        show "b \<noteq> []" if "(a, b) \<in> parent_rel ?P" for a b using that ok unfolding rel by (auto simp: parents_in_def options_ok_def)
        show "assertNoOptionCycle (Some i) (Some q) ?P = Inr ()" using parent_found [OF v] by blast
      qed
      then show ?thesis using parent_found [OF v] q(2) unfolding parent_rel_Cons rel t by blast
    qed
  qed (simp add: option_updated_def)
  then show ?thesis using assms(2) unfolding option_write_tables [OF w] by (simp add: catalogue_ok_def)
qed

lemma step_archiveOption:
  assumes "archiveOption E ctx fieldId i d = Inr (r, d')" "catalogue_ok (customFields d)"
  shows "catalogue_ok (customFields d')"
proof -
  from assms(1) obtain ev bf where
    w: "option_write E ctx fieldId i (\<lambda>r. r\<lparr>fo_isActive := False, fo_deletedAt := Some (ev_clock E 1)\<rparr>) ev bf d = Inr (r, d')"
    unfolding archiveOption_def res_bind_Inr_iff by blast
  have "options_ok (map (\<lambda>x. if fo_id x = i then x\<lparr>fo_isActive := False, fo_deletedAt := Some (ev_clock E 1)\<rparr> else x) (fieldOptions (customFields d)))"
    using assms(2) by (intro options_map) (simp_all add: catalogue_ok_def)
  then show ?thesis using assms(2) unfolding option_write_tables [OF w] by (simp add: catalogue_ok_def)
qed

text \<open>Rules.\<close>

lemma loaded_open:
  assumes "loadField t i d = Inr f" "usable label f = Inr u"
  shows "open_field (fieldDefs (customFields d)) t (fd_id f)"
proof -
  have "f \<in> set (fieldDefs (customFields d))" "fd_tenantId f = t" using assms(1) find_first_SomeD unfolding loadField_Inr by fast+
  moreover have "fd_status f \<noteq> FS_ARCHIVED" using assms(2) unfolding usable_def ensure_simps(3) by (simp add: isFrozen_def)
  ultimately show ?thesis unfolding open_field_def by blast
qed

lemma validated:
  assumes "validateRuleInput t inp x d = Inr v"
  shows "open_field (fieldDefs (customFields d)) t (rv_conditionFieldId v) \<and> open_field (fieldDefs (customFields d)) t (rv_targetFieldId v)
     \<and> assertNoRuleCycle (rule_edges t x d) (rv_conditionFieldId v, rv_targetFieldId v) = Inr ()"
proof -
  from assms obtain cf tf u1 u2 u3 where l: "loadField t (or_empty (ri_conditionFieldId inp)) d = Inr cf" "loadField t (or_empty (ri_targetFieldId inp)) d = Inr tf"
    and us: "usable ''condition'' cf = Inr u1" "usable ''target'' tf = Inr u2"
    and cyc: "assertNoRuleCycle (rule_edges t x d) (fd_id cf, fd_id tf) = Inr u3"
    and v: "rv_conditionFieldId v = fd_id cf" "rv_targetFieldId v = fd_id tf"
    unfolding validateRuleInput_def res_bind_Inr_iff case_prod_beta sum.inject
    by (elim exE conjE) (rule that, assumption+, auto)
  show ?thesis using loaded_open [OF l(1) us(1)] loaded_open [OF l(2) us(2)] cyc unfolding v by simp
qed

lemma step_createRule:
  assumes "createRule E ctx inp d = Inr (r, d')" "catalogue_ok (customFields d)" "fresh_field_id E d"
  shows "catalogue_ok (customFields d')"
proof -
  let ?c = "customFields d"
  from assms(1) obtain v a where v: "validateRuleInput (tenantId ctx) inp None d = Inr v"
    and a: "audit_tx E 2 a (put_rules (fieldRules ?c @ [new_rule E ctx (trim (or_empty (ri_name inp))) inp v]) d) = Inr d'"
    unfolding createRule_def Let_def res_bind_Inr_iff by blast
  let ?r = "new_rule E ctx (trim (or_empty (ri_name inp))) inp v"
  note new = audit_tx_tables(14) [OF a]
  have r: "fu_id ?r = ev_uuid E 1" "fu_tenantId ?r = tenantId ctx" "fu_conditionFieldId ?r = rv_conditionFieldId v" "fu_targetFieldId ?r = rv_targetFieldId v"
    by (simp_all add: new_rule_def)
  have ac: "acyclic (edges_in t (fieldRules ?c))" for t using assms(2) by (simp add: catalogue_ok_def rules_ok_def)
  have "acyclic (insert (rv_conditionFieldId v, rv_targetFieldId v) (edges_in (tenantId ctx) (fieldRules ?c)))"
    using validated [OF v] rule_check_exact [of "rule_edges (tenantId ctx) None d"] ac by (simp add: rule_edges_none)
  then have "acyclic (edges_in t (fieldRules ?c @ [?r]))" for t
    using ac [of t] by (cases "t = tenantId ctx") (simp_all add: edges_append r in_force_def)
  moreover have "fu_id ?r \<notin> fu_id ` set (fieldRules ?c)" using assms(3) unfolding r fresh_field_id_def by blast
  ultimately have "rules_ok (fieldRules ?c @ [?r])" using assms(2) by (simp add: catalogue_ok_def rules_ok_def)
  moreover have "refs_ok (fieldDefs ?c) (fieldRules ?c @ [?r])"
    using assms(2) validated [OF v] by (simp add: catalogue_ok_def refs_ok_def r)
  ultimately show ?thesis using assms(2) unfolding new by (simp add: catalogue_ok_def put_rules_def)
qed

lemma rule_one:
  assumes "catalogue_ok c" "find_first (\<lambda>r. fu_id r = i \<and> fu_tenantId r = t) (fieldRules c) = Some r" "q \<in> set (fieldRules c)" "fu_id q = i"
  shows "q = r" "fu_tenantId q = t"
proof -
  have r: "r \<in> set (fieldRules c)" "fu_id r = i" "fu_tenantId r = t" using find_first_SomeD [OF assms(2)] by auto
  then show "q = r" using assms(1,3,4) by (auto simp: catalogue_ok_def rules_ok_def distinct_map inj_on_def)
  then show "fu_tenantId q = t" using r by simp
qed

lemma step_updateRule:
  assumes "updateRule E ctx i inp d = Inr (r, d')" "catalogue_ok (customFields d)"
  shows "catalogue_ok (customFields d')"
proof -
  let ?c = "customFields d"
  from assms(1) obtain q v ev pl bf where l: "getRule ctx i d = Inr q"
    and v: "validateRuleInput (tenantId ctx) (merge_rule inp q) (Some i) d = Inr v"
    and w: "rule_write E ctx i (rule_updated inp v) ev pl bf d = Inr (r, d')"
    unfolding updateRule_def res_bind_Inr_iff by blast
  let ?g = "rule_updated inp v" and ?rs = "fieldRules ?c"
  have l': "find_first (\<lambda>r. fu_id r = i \<and> fu_tenantId r = tenantId ctx) ?rs = Some q" using l by (simp add: getRule_def)
  note t = rule_one(2) [OF assms(2) l']
  have g: "fu_id (?g x) = fu_id x" "fu_tenantId (?g x) = fu_tenantId x" "fu_conditionFieldId (?g x) = rv_conditionFieldId v"
      "fu_targetFieldId (?g x) = rv_targetFieldId v" "fu_deletedAt (?g x) = fu_deletedAt x" for x
    by (simp_all add: rule_updated_def with_resolved_def)
  have ac: "acyclic (edges_in u ?rs)" for u using assms(2) by (simp add: catalogue_ok_def rules_ok_def)
  let ?new = "map (\<lambda>r. if fu_id r = i then ?g r else r) ?rs"
  have "acyclic (edges_in u ?new)" for u
  proof (cases "u = tenantId ctx")
    case True
    let ?E = "rule_edges (tenantId ctx) (Some i) d" and ?e = "(rv_conditionFieldId v, rv_targetFieldId v)"
    have "acyclic (insert ?e (set ?E))"
      using validated [OF v] rule_check_exact [OF acyclic_subset [OF ac rule_edges_sub], of _ _ ?e] by blast
    moreover have "edges_in u ?new \<subseteq> insert ?e (set ?E)"
      unfolding True by (auto simp: edges_in_def rule_edges_def in_force_def g split: if_splits)
    ultimately show ?thesis by (rule acyclic_subset)
  next
    case False
    then have "edges_in u ?new \<subseteq> edges_in u ?rs" using t by (auto simp: edges_in_def in_force_def g split: if_splits)
    with ac show ?thesis by (rule acyclic_subset)
  qed
  then have "rules_ok ?new" using assms(2) by (intro rules_map) (simp_all add: catalogue_ok_def g)
  moreover have "refs_ok (fieldDefs ?c) ?new"
    using assms(2) validated [OF v] t by (auto simp: catalogue_ok_def refs_ok_def g)
  ultimately show ?thesis using assms(2) unfolding rule_write_tables [OF w] by (simp add: catalogue_ok_def)
qed

lemma step_archiveRule:
  assumes "archiveRule E ctx i d = Inr (r, d')" "catalogue_ok (customFields d)"
  shows "catalogue_ok (customFields d')"
proof -
  let ?g = "\<lambda>r. r\<lparr>fu_isActive := False, fu_deletedAt := Some (ev_clock E 1)\<rparr>" and ?rs = "fieldRules (customFields d)"
  from assms(1) obtain ev pl bf where w: "rule_write E ctx i ?g ev pl bf d = Inr (r, d')"
    unfolding archiveRule_def res_bind_Inr_iff by blast
  let ?new = "map (\<lambda>r. if fu_id r = i then ?g r else r) ?rs"
  have sub: "edges_in t ?new \<subseteq> edges_in t ?rs" for t by (auto simp: edges_in_def in_force_def split: if_splits)
  have ac: "acyclic (edges_in t ?rs)" for t using assms(2) by (simp add: catalogue_ok_def rules_ok_def)
  have "acyclic (edges_in t ?new)" for t by (rule acyclic_subset [OF ac sub])
  then have "rules_ok ?new" using assms(2) by (intro rules_map) (simp_all add: catalogue_ok_def)
  moreover have "refs_ok (fieldDefs (customFields d)) ?new" using assms(2) by (auto simp: catalogue_ok_def refs_ok_def)
  ultimately show ?thesis using assms(2) unfolding rule_write_tables [OF w] by (simp add: catalogue_ok_def)
qed

section \<open>The system\<close>

text \<open>The states reached from empty tables by calls of any users, each call with a new id; a call that fails changes nothing.\<close>

inductive reached :: "db \<Rightarrow> db \<Rightarrow> bool" for d0 :: db where
  start: "reached d0 d0"
| call: "reached d0 d \<Longrightarrow> fresh_field_id E d \<Longrightarrow> run_field E ctx c d = Inr d' \<Longrightarrow> reached d0 d'"

lemma state_of_step: "state_of r = Inr d' \<Longrightarrow> (\<And>x. r = Inr (x, d') \<Longrightarrow> P) \<Longrightarrow> P"
  by auto

lemma run_field_ok:
  assumes "run_field E ctx c d = Inr d'" "catalogue_ok (customFields d)" "fresh_field_id E d"
  shows "catalogue_ok (customFields d')"
proof (cases c)
  case (CreateField inp)
  with assms(1) show ?thesis by (simp only: run_field.simps) (erule state_of_step, rule step_createField [OF _ assms(2,3)])
next
  case (UpdateField i inp)
  with assms(1) show ?thesis by (simp only: run_field.simps) (erule state_of_step, rule step_updateField [OF _ assms(2)])
next
  case (ActivateField i)
  with assms(1) show ?thesis
    by (simp only: run_field.simps activateField_def) (erule state_of_step, rule step_transition [OF _ assms(2)], assumption, simp)
next
  case (FreezeField i)
  with assms(1) show ?thesis
    by (simp only: run_field.simps setFieldReadOnly_def) (erule state_of_step, rule step_transition [OF _ assms(2)], assumption, simp)
next
  case (ArchiveField i)
  with assms(1) show ?thesis by (simp only: run_field.simps) (erule state_of_step, rule step_archiveField [OF _ assms(2)])
next
  case (DeleteField i)
  with assms(1) show ?thesis by (simp only: run_field.simps) (erule state_of_step, rule step_deleteField [OF _ assms(2)])
next
  case (CreateOption f inp)
  with assms(1) show ?thesis by (simp only: run_field.simps) (erule state_of_step, rule step_createOption [OF _ assms(2,3)])
next
  case (UpdateOption f i inp)
  with assms(1) show ?thesis by (simp only: run_field.simps) (erule state_of_step, rule step_updateOption [OF _ assms(2)])
next
  case (ArchiveOption f i)
  with assms(1) show ?thesis by (simp only: run_field.simps) (erule state_of_step, rule step_archiveOption [OF _ assms(2)])
next
  case (CreateRule inp)
  with assms(1) show ?thesis by (simp only: run_field.simps) (erule state_of_step, rule step_createRule [OF _ assms(2,3)])
next
  case (UpdateRule i inp)
  with assms(1) show ?thesis by (simp only: run_field.simps) (erule state_of_step, rule step_updateRule [OF _ assms(2)])
next
  case (ArchiveRule i)
  with assms(1) show ?thesis by (simp only: run_field.simps) (erule state_of_step, rule step_archiveRule [OF _ assms(2)])
qed

text \<open>C26: In every state the custom-field operations reach from an empty catalogue, keys of fields
  are unique in their organisation and keys of options in their field, no option is its own
  ancestor, the rules in force form no cycle, and no rule that is still there refers to a field
  that is missing or archived.\<close>

theorem catalogue_stays_ok:
  assumes "reached d0 d" "catalogue_ok (customFields d0)"
  shows "catalogue_ok (customFields d)"
  using assms by (induction rule: reached.induct) (auto intro: run_field_ok)

section \<open>The life of a field\<close>

text \<open>DRAFT, ACTIVE, READ_ONLY, ARCHIVED: only forward.\<close>

fun stage_of :: "CaseFieldStatus \<Rightarrow> nat" where
  "stage_of FS_DRAFT = 0"
| "stage_of FS_ACTIVE = 1"
| "stage_of FS_READ_ONLY = 2"
| "stage_of FS_ARCHIVED = 3"

definition succeeds :: "CaseFieldDefinition \<Rightarrow> CaseFieldDefinition \<Rightarrow> bool" where
  "succeeds f f' \<longleftrightarrow> fd_id f' = fd_id f \<and> fd_tenantId f' = fd_tenantId f \<and> fd_key f' = fd_key f \<and> fd_type f' = fd_type f
     \<and> fd_owningDepartmentId f' = fd_owningDepartmentId f \<and> fd_createdAt f' = fd_createdAt f \<and> stage_of (fd_status f) \<le> stage_of (fd_status f')
     \<and> (isFrozen (fd_status f) \<longrightarrow> f' = f\<lparr>fd_status := fd_status f', fd_isActive := fd_isActive f', fd_deletedAt := fd_deletedAt f'\<rparr>)"

lemma succeeds_refl: "succeeds f f"
  by (simp add: succeeds_def)

lemma write_succeeds:
  assumes w: "field_write E ctx i g ev pl bf d = Inr (r, d')" and f: "f \<in> set (fieldDefs (customFields d))"
    and g: "fd_id f = i \<Longrightarrow> succeeds f (g f)"
  shows "\<exists>f' \<in> set (fieldDefs (customFields d')). succeeds f f'"
proof -
  let ?h = "\<lambda>f. if fd_id f = i then g f else f"
  have "succeeds f (?h f)" using g succeeds_refl by simp
  moreover have "?h f \<in> set (fieldDefs (customFields d'))" using imageI [OF f, of ?h] by (simp add: field_write_tables [OF w])
  ultimately show ?thesis by blast
qed

lemma same_defs:
  "option_write E ctx fieldId i f ev bf d = Inr (x, d') \<Longrightarrow> fieldDefs (customFields d') = fieldDefs (customFields d)"
  "rule_write E ctx i h ev pl bf d = Inr (y, d') \<Longrightarrow> fieldDefs (customFields d') = fieldDefs (customFields d)"
  by (simp_all add: option_write_tables rule_write_tables)

lemma option_calls_defs:
  "createOption E ctx fieldId oi d = Inr (x, d') \<Longrightarrow> fieldDefs (customFields d') = fieldDefs (customFields d)"
  "updateOption E ctx fieldId i oi d = Inr (x, d') \<Longrightarrow> fieldDefs (customFields d') = fieldDefs (customFields d)"
  "archiveOption E ctx fieldId i d = Inr (x, d') \<Longrightarrow> fieldDefs (customFields d') = fieldDefs (customFields d)"
proof -
  assume "createOption E ctx fieldId oi d = Inr (x, d')"
  from createOption_row [OF this] have "insert_option x d = Inr (d\<lparr>customFields := customFields d'\<rparr>)" by blast
  from this [unfolded insert_option_Inr] have "d\<lparr>customFields := (customFields d)\<lparr>fieldOptions := fieldOptions (customFields d) @ [x]\<rparr>\<rparr>
      = d\<lparr>customFields := customFields d'\<rparr>" by blast
  from arg_cong [OF this, of "\<lambda>d. fieldDefs (customFields d)"] show "fieldDefs (customFields d') = fieldDefs (customFields d)" by simp
next
  assume "updateOption E ctx fieldId i oi d = Inr (x, d')"
  then obtain g ev bf where "option_write E ctx fieldId i g ev bf d = Inr (x, d')" unfolding updateOption_def res_bind_Inr_iff by blast
  then show "fieldDefs (customFields d') = fieldDefs (customFields d)" by (rule same_defs)
next
  assume "archiveOption E ctx fieldId i d = Inr (x, d')"
  then obtain g ev bf where "option_write E ctx fieldId i g ev bf d = Inr (x, d')" unfolding archiveOption_def res_bind_Inr_iff by blast
  then show "fieldDefs (customFields d') = fieldDefs (customFields d)" by (rule same_defs)
qed

lemma rule_calls_defs:
  "createRule E ctx ri d = Inr (x, d') \<Longrightarrow> fieldDefs (customFields d') = fieldDefs (customFields d)"
  "updateRule E ctx i ri d = Inr (x, d') \<Longrightarrow> fieldDefs (customFields d') = fieldDefs (customFields d)"
  "archiveRule E ctx i d = Inr (x, d') \<Longrightarrow> fieldDefs (customFields d') = fieldDefs (customFields d)"
proof -
  assume "createRule E ctx ri d = Inr (x, d')"
  then obtain rs a where "audit_tx E 2 a (put_rules rs d) = Inr d'" unfolding createRule_def Let_def res_bind_Inr_iff by blast
  from audit_tx_tables(14) [OF this] show "fieldDefs (customFields d') = fieldDefs (customFields d)" by (simp add: put_rules_def)
next
  assume "updateRule E ctx i ri d = Inr (x, d')"
  then obtain g ev pl bf where "rule_write E ctx i g ev pl bf d = Inr (x, d')" unfolding updateRule_def res_bind_Inr_iff by blast
  then show "fieldDefs (customFields d') = fieldDefs (customFields d)" by (rule same_defs)
next
  assume "archiveRule E ctx i d = Inr (x, d')"
  then obtain g ev pl bf where "rule_write E ctx i g ev pl bf d = Inr (x, d')" unfolding archiveRule_def res_bind_Inr_iff by blast
  then show "fieldDefs (customFields d') = fieldDefs (customFields d)" by (rule same_defs)
qed

text \<open>The six calls on definitions; the loaded row is the only one with the id.\<close>

lemma loaded_one:
  assumes "catalogue_ok (customFields d)" "loadField t i d = Inr q" "f \<in> set (fieldDefs (customFields d))" "fd_id f = i"
  shows "f = q"
  using field_one [OF assms(1) assms(2) [unfolded loadField_Inr] assms(3,4)] .

lemma transition_succeeds:
  assumes t: "transitionField E ctx i from to active ev ill d = Inr (r, d')" and ok: "catalogue_ok (customFields d)"
    and f: "f \<in> set (fieldDefs (customFields d))" and up: "\<And>s. s \<in> set from \<Longrightarrow> \<not> isFrozen s \<and> stage_of s \<le> stage_of to"
  shows "\<exists>f' \<in> set (fieldDefs (customFields d')). succeeds f f'"
proof -
  from t obtain q pl bf where l: "loadField (tenantId ctx) i d = Inr q" and st: "fd_status q \<in> set from"
    and w: "field_write E ctx i (\<lambda>r. r\<lparr>fd_status := to, fd_isActive := upd_opt active (fd_isActive r)\<rparr>) ev pl bf d = Inr (r, d')"
    unfolding transitionField_def res_bind_Inr_iff ensure_simps(3) by blast
  have "fd_id f = i \<Longrightarrow> f = q" by (rule loaded_one [OF ok l f])
  then show ?thesis using st up by (intro write_succeeds [OF w f]) (simp add: succeeds_def)
qed

lemma update_succeeds:
  assumes t: "updateField E ctx i inp d = Inr (r, d')" and ok: "catalogue_ok (customFields d)" and f: "f \<in> set (fieldDefs (customFields d))"
  shows "\<exists>f' \<in> set (fieldDefs (customFields d')). succeeds f f'"
proof -
  from t obtain q ev pl bf where l: "loadField (tenantId ctx) i d = Inr q" and st: "\<not> isFrozen (fd_status q)"
    and w: "field_write E ctx i (field_updated inp) ev pl bf d = Inr (r, d')"
    unfolding updateField_def res_bind_Inr_iff ensure_simps(3) by blast
  have "fd_id f = i \<Longrightarrow> f = q" by (rule loaded_one [OF ok l f])
  then show ?thesis using st by (intro write_succeeds [OF w f]) (simp add: succeeds_def field_updated_def)
qed

lemma archive_succeeds:
  assumes t: "archiveField E ctx i d = Inr (r, d')" and f: "f \<in> set (fieldDefs (customFields d))"
  shows "\<exists>f' \<in> set (fieldDefs (customFields d')). succeeds f f'"
proof -
  from t obtain ev pl bf where
    w: "field_write E ctx i (\<lambda>r. r\<lparr>fd_status := FS_ARCHIVED, fd_isActive := False, fd_deletedAt := Some (ev_clock E 1)\<rparr>) ev pl bf d = Inr (r, d')"
    unfolding archiveField_def res_bind_Inr_iff by blast
  show ?thesis by (rule write_succeeds [OF w f], cases "fd_status f") (simp_all add: succeeds_def)
qed

lemma create_defs:
  assumes "createField E ctx inp d = Inr (r, d')" "f \<in> set (fieldDefs (customFields d))"
  shows "f \<in> set (fieldDefs (customFields d'))"
proof -
  from createField_row [OF assms(1)] obtain q where "insert_field q d = Inr (d\<lparr>customFields := customFields d'\<rparr>)" unfolding Let_def by blast
  from this [unfolded insert_field_Inr] have "d\<lparr>customFields := (customFields d)\<lparr>fieldDefs := fieldDefs (customFields d) @ [q]\<rparr>\<rparr>
      = d\<lparr>customFields := customFields d'\<rparr>" by blast
  from arg_cong [OF this, of "\<lambda>d. fieldDefs (customFields d)"] have "fieldDefs (customFields d') = fieldDefs (customFields d) @ [q]" by simp
  then show ?thesis using assms(2) by simp
qed

lemma delete_defs:
  assumes t: "hardDeleteField E ctx i d = Inr (r, d')" and ok: "catalogue_ok (customFields d)" and f: "f \<in> set (fieldDefs (customFields d))"
  shows "f \<in> set (fieldDefs (customFields d')) \<or> fd_status f = FS_DRAFT \<and> fd_id f \<notin> fd_id ` set (fieldDefs (customFields d'))"
proof -
  from t obtain q d1 a where l: "loadField (tenantId ctx) i d = Inr q" and st: "fd_status q = FS_DRAFT"
    and del: "delete_field i d = Inr d1" and a: "audit_tx E 2 a d1 = Inr d'"
    unfolding hardDeleteField_def res_bind_Inr_iff ensure_simps(3) by blast
  have new: "fieldDefs (customFields d') = filter (\<lambda>r. fd_id r \<noteq> i) (fieldDefs (customFields d))"
    using del audit_tx_tables(14) [OF a] by (auto simp: delete_field_def split: if_splits)
  show ?thesis
  proof (cases "fd_id f = i")
    case True
    then have "f = q" by (rule loaded_one [OF ok l f])
    then show ?thesis using st True unfolding new by auto
  next
    case False
    then show ?thesis using f unfolding new by simp
  qed
qed

text \<open>C28: A field only moves forward. Whatever call succeeds, a field of the catalogue is still there with
  the same key, type, organisation and owner and with a status that is no earlier, unless it was a
  draft that was deleted; and of a read-only or archived field nothing but the status and the
  marks of archiving change.\<close>

theorem field_moves_forward:
  assumes "run_field E ctx c d = Inr d'" "catalogue_ok (customFields d)" "f \<in> set (fieldDefs (customFields d))"
  shows "(\<exists>f' \<in> set (fieldDefs (customFields d')). succeeds f f')
    \<or> fd_status f = FS_DRAFT \<and> fd_id f \<notin> fd_id ` set (fieldDefs (customFields d'))"
proof -
  have stay: ?thesis if "f \<in> set (fieldDefs (customFields d'))" using that succeeds_refl by blast
  have same: ?thesis if "fieldDefs (customFields d') = fieldDefs (customFields d)" using that stay assms(3) by simp
  note call = assms(1) [unfolded run_field.simps]
  show ?thesis
  proof (cases c)
    case (CreateField inp)
    with assms(1) obtain x where "createField E ctx inp d = Inr (x, d')" by auto
    from create_defs [OF this assms(3)] show ?thesis by (rule stay)
  next
    case (UpdateField i inp)
    with assms(1) obtain x where "updateField E ctx i inp d = Inr (x, d')" by auto
    from update_succeeds [OF this assms(2,3)] show ?thesis ..
  next
    case (ActivateField i)
    with assms(1) obtain x where "activateField E ctx i d = Inr (x, d')" by auto
    from transition_succeeds [OF this [unfolded activateField_def] assms(2,3)] show ?thesis by (simp add: isFrozen_def)
  next
    case (FreezeField i)
    with assms(1) obtain x where "setFieldReadOnly E ctx i d = Inr (x, d')" by auto
    from transition_succeeds [OF this [unfolded setFieldReadOnly_def] assms(2,3)] show ?thesis by (simp add: isFrozen_def)
  next
    case (ArchiveField i)
    with assms(1) obtain x where "archiveField E ctx i d = Inr (x, d')" by auto
    from archive_succeeds [OF this assms(3)] show ?thesis ..
  next
    case (DeleteField i)
    with assms(1) obtain x where "hardDeleteField E ctx i d = Inr (x, d')" by auto
    from delete_defs [OF this assms(2,3)] show ?thesis using stay by blast
  next
    case (CreateOption f inp)
    with assms(1) obtain x where "createOption E ctx f inp d = Inr (x, d')" by auto
    from option_calls_defs(1) [OF this] show ?thesis by (rule same)
  next
    case (UpdateOption f i inp)
    with assms(1) obtain x where "updateOption E ctx f i inp d = Inr (x, d')" by auto
    from option_calls_defs(2) [OF this] show ?thesis by (rule same)
  next
    case (ArchiveOption f i)
    with assms(1) obtain x where "archiveOption E ctx f i d = Inr (x, d')" by auto
    from option_calls_defs(3) [OF this] show ?thesis by (rule same)
  next
    case (CreateRule inp)
    with assms(1) obtain x where "createRule E ctx inp d = Inr (x, d')" by auto
    from rule_calls_defs(1) [OF this] show ?thesis by (rule same)
  next
    case (UpdateRule i inp)
    with assms(1) obtain x where "updateRule E ctx i inp d = Inr (x, d')" by auto
    from rule_calls_defs(2) [OF this] show ?thesis by (rule same)
  next
    case (ArchiveRule i)
    with assms(1) obtain x where "archiveRule E ctx i d = Inr (x, d')" by auto
    from rule_calls_defs(3) [OF this] show ?thesis by (rule same)
  qed
qed

section \<open>Concrete runs\<close>

definition user_one :: UserContext where
  "user_one = \<lparr>tenantId = ''t1'', userId = ''staff'', actorIp = None, actorUserAgent = None\<rparr>"

definition field_row :: "string \<Rightarrow> CaseFieldType \<Rightarrow> CaseFieldStatus \<Rightarrow> CaseFieldDefinition" where
  "field_row i t st = \<lparr>fd_id = i, fd_tenantId = ''t1'', fd_key = i, fd_name = ''Name'', fd_description = None, fd_type = t, fd_status = st,
     fd_owningDepartmentId = ''dep'', fd_validationRules = JObj [], fd_visibility = JObj [], fd_reportable = False, fd_filterable = False,
     fd_sortable = False, fd_isActive = True, fd_displayOrder = 0, fd_createdAt = 0, fd_deletedAt = None\<rparr>"

definition two_fields_db :: db where
  "two_fields_db = empty_db\<lparr>customFields := no_fields\<lparr>fieldDefs := [field_row ''a'' FT_TEXT FS_ACTIVE, field_row ''b'' FT_TEXT FS_DRAFT]\<rparr>\<rparr>"

lemma two_fields_ok: "catalogue_ok (customFields two_fields_db)"
  by (simp add: two_fields_db_def no_fields_def field_row_def catalogue_ok_def defs_ok_def options_ok_def rules_ok_def refs_ok_def
    parents_in_def edges_in_def acyclic_def)

definition require_input :: "string \<Rightarrow> string \<Rightarrow> RuleInput" where
  "require_input c t = \<lparr>ri_name = Some ''needs'', ri_description = None, ri_isActive = None, ri_priority = None,
     ri_conditionFieldId = Some c, ri_conditionOperator = Some ''IS_NOT_EMPTY'', ri_conditionValue = JUndefined,
     ri_conditionOptionId = None, ri_effectType = None, ri_targetFieldId = Some t, ri_defaultPayload = JUndefined\<rparr>"

definition after_fields :: "nat \<Rightarrow> field_call \<Rightarrow> db \<Rightarrow> db" where
  "after_fields n c d = projr (run_field (env_at n) user_one c d)"

lemma ran: "\<not> isl r \<Longrightarrow> r = Inr (projr r)"
  by (cases r) simp_all

theorem catalogue_stays_ok_witness:
  "catalogue_ok (customFields (after_fields 1 (CreateRule (require_input ''a'' ''b'')) two_fields_db))"
proof -
  have f: "fresh_field_id (env_at 1) two_fields_db" by code_simp
  have r: "\<not> isl (run_field (env_at 1) user_one (CreateRule (require_input ''a'' ''b'')) two_fields_db)" by code_simp
  have "reached two_fields_db (after_fields 1 (CreateRule (require_input ''a'' ''b'')) two_fields_db)"
    using call [OF start f ran [OF r]] by (simp add: after_fields_def)
  from catalogue_stays_ok [OF this two_fields_ok] show ?thesis .
qed

theorem field_moves_forward_witness:
  "\<exists>f' \<in> set (fieldDefs (customFields (after_fields 1 (FreezeField ''a'') two_fields_db))). succeeds (field_row ''a'' FT_TEXT FS_ACTIVE) f'"
proof -
  have r: "\<not> isl (run_field (env_at 1) user_one (FreezeField ''a'') two_fields_db)" by code_simp
  have f: "field_row ''a'' FT_TEXT FS_ACTIVE \<in> set (fieldDefs (customFields two_fields_db))" by (simp add: two_fields_db_def)
  from field_moves_forward [OF ran [OF r] two_fields_ok f] show ?thesis
    by (simp add: after_fields_def field_row_def)
qed

end
