(* ===== verification/Field_Value_Service.thy ===== *)
theory Field_Value_Service
  imports Field_Props
begin

text \<open>
  The values of custom fields on a case, \<^verbatim>\<open>src/src/services/case-field-value.service.ts\<close>: the form
  with its runtime state, the patch of a batch of values and the check of required fields. The
  column \<^verbatim>\<open>Decimal(20, 6)\<close> of numbers is a parameter \<open>col\<close>, none for a number it cannot hold;
  the date parser and the regular expressions of the engine are those of \<open>Field_Values\<close>.
\<close>

section \<open>The form of a case\<close>

definition load_live_case :: "UserContext \<Rightarrow> string \<Rightarrow> db \<Rightarrow> app_error + DocCase" where
  "load_live_case ctx caseId d = or_throw (find_first (live_case (TenantContext.truncate ctx) caseId) (docCases d)) ResourceNotFoundError"

definition selections_of :: "CaseFieldValue \<Rightarrow> db \<Rightarrow> string list" where
  "selections_of v d = map fs_optionId (filter (\<lambda>s. fs_valueId s = fv_id v) (valueOptions (customFields d)))"

definition toStored :: "CaseFieldType \<Rightarrow> CaseFieldValue \<Rightarrow> string list \<Rightarrow> StoredValue" where
  "toStored t v selections =
     \<lparr>sv_fieldType = t, sv_text = fv_valueText v, sv_number = fv_valueNumber v, sv_boolean = fv_valueBoolean v,
      sv_date = fv_valueDate v, sv_optionId = fv_optionId v, sv_optionIds = selections\<rparr>"

definition case_values :: "string \<Rightarrow> string \<Rightarrow> db \<Rightarrow> CaseFieldValue list" where
  "case_values tenant caseId d =
     filter (\<lambda>v. fv_tenantId v = tenant \<and> fv_caseId v = caseId \<and> fv_deletedAt v = None) (fieldValues (customFields d))"

definition shown :: "CaseFieldDefinition \<Rightarrow> bool" where
  "shown f \<longleftrightarrow> fd_deletedAt f = None \<and> fd_status f \<in> {FS_ACTIVE, FS_READ_ONLY}"

definition field_of :: "string \<Rightarrow> db \<Rightarrow> CaseFieldDefinition option" where
  "field_of i d = find_first (\<lambda>f. fd_id f = i) (fieldDefs (customFields d))"

definition applicableFields :: "string \<Rightarrow> string option \<Rightarrow> db \<Rightarrow> CaseFieldDefinition list" where
  "applicableFields tenant caseTypeId d =
     (if \<not> falsy caseTypeId
      then filter shown (List.map_filter (\<lambda>p. field_of (pl_fieldId p) d)
             (by_display pl_displayOrder pl_createdAt
                (filter (\<lambda>p. pl_tenantId p = tenant \<and> Some (pl_caseTypeId p) = caseTypeId) (placements (customFields d)))))
      else by_display fd_displayOrder fd_createdAt
             (filter (\<lambda>f. fd_tenantId f = tenant \<and> shown f) (fieldDefs (customFields d))))"

text \<open>\<^verbatim>\<open>(f.visibility)?.hidden === true\<close>\<close>

definition static_hidden :: "CaseFieldDefinition \<Rightarrow> bool" where
  "static_hidden f \<longleftrightarrow> payload_prop (fd_visibility f) ''hidden'' = JBool True"

definition runtime_rule :: "CaseFieldRule \<Rightarrow> RuntimeRule" where
  "runtime_rule r =
     \<lparr>rr_priority = fu_priority r, rr_createdAt = fu_createdAt r, rr_effectType = fu_effectType r,
      rr_conditionFieldId = fu_conditionFieldId r, rr_conditionOperator = fu_conditionOperator r,
      rr_conditionValue = fu_conditionValue r, rr_conditionOptionId = fu_conditionOptionId r,
      rr_targetFieldId = fu_targetFieldId r, rr_defaultPayload = fu_defaultPayload r\<rparr>"

text \<open>A JavaScript map built by setting the entries in order.\<close>

definition js_map :: "('k \<times> 'v) list \<Rightarrow> ('k \<rightharpoonup> 'v)" where
  "js_map kvs = map_of (rev kvs)"

definition in_scope :: "string \<Rightarrow> string list \<Rightarrow> db \<Rightarrow> CaseFieldRule list" where
  "in_scope tenant ids d =
     filter (\<lambda>r. in_force tenant r \<and> fu_conditionFieldId r \<in> set ids \<and> fu_targetFieldId r \<in> set ids) (fieldRules (customFields d))"

definition optionSelectable :: "string \<Rightarrow> string \<Rightarrow> string \<Rightarrow> db \<Rightarrow> bool" where
  "optionSelectable tenant fieldId optionId d \<longleftrightarrow>
     find_first (\<lambda>x. live_option tenant fieldId optionId x \<and> fo_isActive x) (fieldOptions (customFields d)) \<noteq> None"

text \<open>A default whose options are gone is dropped; stored defaults have the shape checked on their rule.\<close>

definition selectableDefault :: "string \<Rightarrow> string \<Rightarrow> CaseFieldType \<Rightarrow> jsval \<Rightarrow> db \<Rightarrow> jsval" where
  "selectableDefault tenant fieldId t payload d =
     (if isSingleSelect t
      then (if optionSelectable tenant fieldId (or_empty (str_of (payload_prop payload ''optionId''))) d then payload else JNull)
      else if isMultiSelect t
      then (if list_all (\<lambda>i. optionSelectable tenant fieldId i d) (strings_of (payload_prop payload ''optionIds'')) then payload else JNull)
      else payload)"

record FormField =
  ff_field :: CaseFieldDefinition
  ff_isHidden :: bool
  ff_isApplicable :: bool
  ff_isRequired :: bool
  ff_defaultValue :: jsval

text \<open>The values of the form by field; the type is that of the field in the form.\<close>

definition form_values :: "CaseFieldDefinition list \<Rightarrow> CaseFieldValue list \<Rightarrow> db \<Rightarrow> (string \<rightharpoonup> StoredValue)" where
  "form_values flds values d =
     (let typeById = js_map (map (\<lambda>f. (fd_id f, fd_type f)) flds)
      in js_map (List.map_filter (\<lambda>v. case typeById (fv_fieldId v) of None \<Rightarrow> None
           | Some t \<Rightarrow> Some (fv_fieldId v, toStored t v (selections_of v d))) values))"

definition computeRuntime :: "js_engine \<Rightarrow> string \<Rightarrow> CaseFieldDefinition list \<Rightarrow> CaseFieldValue list \<Rightarrow> db \<Rightarrow> (string \<rightharpoonup> FieldRuntime)" where
  "computeRuntime J tenant flds values d =
     computeFieldRuntime J (map fd_id flds) (map fd_id (filter static_hidden flds)) (form_values flds values d)
       (map runtime_rule (in_scope tenant (map fd_id flds) d))"

definition form_field :: "string \<Rightarrow> (string \<rightharpoonup> FieldRuntime) \<Rightarrow> db \<Rightarrow> CaseFieldDefinition \<Rightarrow> FormField" where
  "form_field tenant runtime d f =
     (case runtime (fd_id f) of
        None \<Rightarrow> \<lparr>ff_field = f, ff_isHidden = False, ff_isApplicable = True, ff_isRequired = False, ff_defaultValue = JNull\<rparr>
      | Some rt \<Rightarrow>
          \<lparr>ff_field = f, ff_isHidden = fr_isHidden rt, ff_isApplicable = (\<not> fr_isHidden rt), ff_isRequired = fr_isRequired rt,
           ff_defaultValue = (if nullish (fr_defaultPayload rt) then JNull
              else selectableDefault tenant (fd_id f) (fd_type f) (fr_defaultPayload rt) d)\<rparr>)"

definition getValues :: "js_engine \<Rightarrow> UserContext \<Rightarrow> string \<Rightarrow> db \<Rightarrow> app_error + FormField list \<times> (CaseFieldValue \<times> string list) list" where
  "getValues J ctx caseId d =
     res_bind (load_live_case ctx caseId d) (\<lambda>docCase.
     let values = case_values (tenantId ctx) caseId d;
         flds = applicableFields (tenantId ctx) (dc_caseTypeId docCase) d;
         runtime = computeRuntime J (tenantId ctx) flds values d
     in Inr (map (form_field (tenantId ctx) runtime d) flds, map (\<lambda>v. (v, selections_of v d)) values))"

section \<open>Patching values\<close>

record PatchEntry =
  pe_fieldId :: "string option"
  pe_value :: jsval
  pe_optionId :: jsval
  pe_optionIds :: jsval
  pe_version :: "int option"

fun check_entries :: "string list \<Rightarrow> PatchEntry list \<Rightarrow> app_error + unit" where
  "check_entries seen [] = Inr ()"
| "check_entries seen (e # es) =
     (case pe_fieldId e of
        None \<Rightarrow> Inl (ValidationError ''each entry requires a fieldId.'')
      | Some i \<Rightarrow>
          if i = [] then Inl (ValidationError ''each entry requires a fieldId.'')
          else if i \<in> set seen then Inl (ValidationError (''duplicate fieldId in batch: '' @ i))
          else check_entries (i # seen) es)"

definition assertSelectable :: "string \<Rightarrow> string \<Rightarrow> string \<Rightarrow> db \<Rightarrow> app_error + unit" where
  "assertSelectable tenant fieldId optionId d =
     ensure (optionSelectable tenant fieldId optionId d) (BusinessRuleViolationError ''Selected option is not an active option on this field.'')"

fun assert_selectable_all :: "string \<Rightarrow> string \<Rightarrow> string list \<Rightarrow> db \<Rightarrow> app_error + unit" where
  "assert_selectable_all tenant fieldId [] d = Inr ()"
| "assert_selectable_all tenant fieldId (i # is) d =
     res_bind (assertSelectable tenant fieldId i d) (\<lambda>_. assert_selectable_all tenant fieldId is d)"

definition existing_value :: "string \<Rightarrow> string \<Rightarrow> string \<Rightarrow> db \<Rightarrow> CaseFieldValue option" where
  "existing_value tenant caseId fieldId d =
     find_first (\<lambda>v. fv_tenantId v = tenant \<and> fv_caseId v = caseId \<and> fv_fieldId v = fieldId) (fieldValues (customFields d))"

text \<open>The columns a typed value writes; a number is stored as the column holds it.\<close>

definition stored_number :: "(rat \<Rightarrow> rat option) \<Rightarrow> TypedValue \<Rightarrow> app_error + rat option" where
  "stored_number col typed =
     (case tv_number typed of
        None \<Rightarrow> Inr None
      | Some n \<Rightarrow> (case col (js_num n) of None \<Rightarrow> Inl (Thrown ''P2020'') | Some x \<Rightarrow> Inr (Some x)))"

definition with_columns :: "TypedValue \<Rightarrow> rat option \<Rightarrow> CaseFieldValue \<Rightarrow> CaseFieldValue" where
  "with_columns typed n v =
     v\<lparr>fv_valueText := tv_text typed, fv_valueNumber := n, fv_valueBoolean := tv_boolean typed, fv_valueDate := tv_date typed,
       fv_optionId := tv_optionId typed\<rparr>"

definition new_value :: "string \<Rightarrow> string \<Rightarrow> string \<Rightarrow> string \<Rightarrow> CaseFieldValue" where
  "new_value i tenant caseId fieldId =
     \<lparr>fv_id = i, fv_tenantId = tenant, fv_caseId = caseId, fv_fieldId = fieldId, fv_valueText = None, fv_valueNumber = None,
      fv_valueBoolean = None, fv_valueDate = None, fv_optionId = None, fv_version = 1, fv_deletedAt = None\<rparr>"

definition put_values :: "CaseFieldValue list \<Rightarrow> db \<Rightarrow> db" where
  "put_values vs d = d\<lparr>customFields := (customFields d)\<lparr>fieldValues := vs\<rparr>\<rparr>"

text \<open>The write of the value row: by the id that was read, with the version that was read.\<close>

definition write_value ::
  "env \<Rightarrow> nat \<Rightarrow> UserContext \<Rightarrow> string \<Rightarrow> string \<Rightarrow> CaseFieldValue option \<Rightarrow> TypedValue \<Rightarrow> rat option \<Rightarrow> db \<Rightarrow> app_error + string \<times> db" where
  "write_value E k ctx caseId fieldId existing typed n d =
     (case existing of
        Some v \<Rightarrow>
          res_bind (update_row (\<lambda>r. fv_id r = fv_id v) (\<lambda>r. (with_columns typed n r)\<lparr>fv_version := fv_version v + 1, fv_deletedAt := None\<rparr>)
             (fieldValues (customFields d))) (\<lambda>(r, vs). Inr (fv_id r, put_values vs d))
      | None \<Rightarrow>
          let r = with_columns typed n (new_value (ev_uuid E k) (tenantId ctx) caseId fieldId)
          in Inr (fv_id r, put_values (fieldValues (customFields d) @ [r]) d))"

definition replace_selections :: "UserContext \<Rightarrow> string \<Rightarrow> TypedValue \<Rightarrow> db \<Rightarrow> db" where
  "replace_selections ctx valueId typed d =
     d\<lparr>customFields := (customFields d)\<lparr>valueOptions :=
        filter (\<lambda>s. fs_valueId s \<noteq> valueId) (valueOptions (customFields d))
        @ (if isClear typed then []
           else map (\<lambda>i. \<lparr>fs_tenantId = tenantId ctx, fs_valueId = valueId, fs_optionId = i\<rparr>)
                  (case tv_optionIds typed of Some is \<Rightarrow> is | None \<Rightarrow> []))\<rparr>\<rparr>"

definition add_history :: "CaseFieldValueHistory \<Rightarrow> db \<Rightarrow> db" where
  "add_history h d = d\<lparr>customFields := (customFields d)\<lparr>valueHistory := valueHistory (customFields d) @ [h]\<rparr>\<rparr>"

definition operation_of :: "TypedValue \<Rightarrow> CaseFieldValue option \<Rightarrow> string" where
  "operation_of typed existing = (if isClear typed then ''CLEAR'' else if existing \<noteq> None then ''UPDATE'' else ''SET'')"

definition raw_entry :: "PatchEntry \<Rightarrow> RawEntry" where
  "raw_entry e = \<lparr>re_value = pe_value e, re_optionId = pe_optionId e, re_optionIds = pe_optionIds e\<rparr>"

text \<open>The checks of one entry: what it writes.\<close>

definition check_entry :: "js_engine \<Rightarrow> UserContext \<Rightarrow> string \<Rightarrow> PatchEntry \<Rightarrow> db \<Rightarrow> app_error + CaseFieldDefinition \<times> TypedValue \<times> CaseFieldValue option" where
  "check_entry J ctx caseId e d =
     res_bind (or_throw (find_first (\<lambda>f. Some (fd_id f) = pe_fieldId e \<and> fd_tenantId f = tenantId ctx) (fieldDefs (customFields d)))
        (ValidationError (''Unknown field: '' @ or_empty (pe_fieldId e)))) (\<lambda>field.
     res_bind (ensure (fd_status field \<noteq> FS_ARCHIVED)
        (BusinessRuleViolationError (''Field '' @ [CHR 0x22] @ fd_key field @ [CHR 0x22] @ '' is archived and cannot accept new values.''))) (\<lambda>_.
     res_bind (coerceValue J (fd_type field) (fd_validationRules field) (raw_entry e)) (\<lambda>typed.
     res_bind (if \<not> isClear typed \<and> isSingleSelect (fd_type field) \<and> \<not> falsy (tv_optionId typed)
        then assertSelectable (tenantId ctx) (fd_id field) (or_empty (tv_optionId typed)) d else Inr ()) (\<lambda>_.
     res_bind (if \<not> isClear typed \<and> isMultiSelect (fd_type field)
        then assert_selectable_all (tenantId ctx) (fd_id field) (case tv_optionIds typed of Some is \<Rightarrow> is | None \<Rightarrow> []) d else Inr ()) (\<lambda>_.
     let existing = existing_value (tenantId ctx) caseId (fd_id field) d
     in res_bind (ensure (\<not> (case (existing, pe_version e) of (Some v, Some n) \<Rightarrow> n \<noteq> fv_version v | _ \<Rightarrow> False)) OptimisticLockError) (\<lambda>_.
        Inr (field, typed, existing)))))))"

definition history_row ::
  "env \<Rightarrow> nat \<Rightarrow> UserContext \<Rightarrow> string \<Rightarrow> CaseFieldDefinition \<Rightarrow> TypedValue \<Rightarrow> CaseFieldValue option \<Rightarrow> string \<Rightarrow> db \<Rightarrow> CaseFieldValueHistory" where
  "history_row E k ctx caseId field typed existing valueId d =
     \<lparr>fh_tenantId = tenantId ctx, fh_caseId = caseId, fh_fieldId = fd_id field, fh_valueId = Some valueId,
      fh_operation = operation_of typed existing,
      fh_beforeValue = map_option (\<lambda>v. toStored (fd_type field) v (selections_of v d)) existing,
      fh_afterValue = (if isClear typed then None else Some (stored_form (fd_type field) typed)),
      fh_actorUserId = Some (userId ctx), fh_changedAt = ev_clock E k\<rparr>"

definition patch_entry ::
  "env \<Rightarrow> js_engine \<Rightarrow> (rat \<Rightarrow> rat option) \<Rightarrow> nat \<Rightarrow> UserContext \<Rightarrow> string \<Rightarrow> PatchEntry \<Rightarrow> db \<Rightarrow> app_error + string \<times> db" where
  "patch_entry E J col k ctx caseId e d =
     res_bind (check_entry J ctx caseId e d) (\<lambda>(field, typed, existing).
     res_bind (stored_number col typed) (\<lambda>n.
     res_bind (write_value E k ctx caseId (fd_id field) existing typed n d) (\<lambda>(valueId, d1).
     let d2 = (if isMultiSelect (fd_type field) then replace_selections ctx valueId typed d1 else d1)
     in Inr (fd_id field, add_history (history_row E k ctx caseId field typed existing valueId d) d2))))"

fun patch_entries ::
  "env \<Rightarrow> js_engine \<Rightarrow> (rat \<Rightarrow> rat option) \<Rightarrow> nat \<Rightarrow> UserContext \<Rightarrow> string \<Rightarrow> PatchEntry list \<Rightarrow> db \<Rightarrow> app_error + string list \<times> db" where
  "patch_entries E J col k ctx caseId [] d = Inr ([], d)"
| "patch_entries E J col k ctx caseId (e # es) d =
     res_bind (patch_entry E J col k ctx caseId e d) (\<lambda>(i, d1).
     res_bind (patch_entries E J col (k + 1) ctx caseId es d1) (\<lambda>(is, d2).
     Inr (i # is, d2)))"

definition patchValues ::
  "env \<Rightarrow> js_engine \<Rightarrow> (rat \<Rightarrow> rat option) \<Rightarrow> UserContext \<Rightarrow> string \<Rightarrow> PatchEntry list \<Rightarrow> (CaseFieldValue \<times> string list) list tx" where
  "patchValues E J col ctx caseId entries d =
     res_bind (ensure (entries \<noteq> []) (ValidationError ''values must be a non-empty array.'')) (\<lambda>_.
     res_bind (check_entries [] entries) (\<lambda>_.
     res_bind (load_live_case ctx caseId d) (\<lambda>_.
     res_bind (patch_entries E J col 10 ctx caseId entries d) (\<lambda>(changed, d1).
     res_bind (audit_tx E 2 (user_audit ctx ''CASE_FIELD_VALUES_UPDATED'' ''CaseFieldValue'' caseId ''UPDATE''
        [(''caseId'', JStr caseId), (''changedFieldIds'', JArr (map JStr changed))] JUndefined JUndefined) d1) (\<lambda>d2.
     Inr (map (\<lambda>v. (v, selections_of v d2)) (case_values (tenantId ctx) caseId d2), d2))))))"

section \<open>Checking required fields\<close>

record ValidationResult =
  vr_valid :: bool
  vr_missing :: "(string \<times> string) list"

text \<open>Here the type of a value is that of its field.\<close>

definition joined_values :: "string list \<Rightarrow> CaseFieldValue list \<Rightarrow> db \<Rightarrow> (string \<rightharpoonup> StoredValue)" where
  "joined_values ids values d =
     js_map (List.map_filter (\<lambda>v. if fv_fieldId v \<in> set ids
        then map_option (\<lambda>f. (fv_fieldId v, toStored (fd_type f) v (selections_of v d))) (field_of (fv_fieldId v) d) else None) values)"

definition missing_of :: "js_engine \<Rightarrow> (string \<rightharpoonup> FieldRuntime) \<Rightarrow> (string \<rightharpoonup> StoredValue) \<Rightarrow> CaseFieldRule \<Rightarrow> bool" where
  "missing_of J runtime vals r \<longleftrightarrow> fu_effectType r = REQUIRE_FIELD
     \<and> \<not> (case runtime (fu_targetFieldId r) of Some rt \<Rightarrow> fr_isHidden rt | None \<Rightarrow> False)
     \<and> conditionMet J (fu_conditionOperator r) (fu_conditionValue r) (fu_conditionOptionId r) (vals (fu_conditionFieldId r))
     \<and> \<not> isPresent (vals (fu_targetFieldId r))"

definition validateValues :: "js_engine \<Rightarrow> UserContext \<Rightarrow> string \<Rightarrow> db \<Rightarrow> app_error + ValidationResult" where
  "validateValues J ctx caseId d =
     res_bind (load_live_case ctx caseId d) (\<lambda>docCase.
     let flds = applicableFields (tenantId ctx) (dc_caseTypeId docCase) d;
         ids = map fd_id flds;
         vals = joined_values ids (case_values (tenantId ctx) caseId d) d;
         scope = in_scope (tenantId ctx) ids d;
         runtime = computeFieldRuntime J ids (map fd_id (filter static_hidden flds)) vals (map runtime_rule scope);
         missing = map (\<lambda>r. (fu_id r, fu_targetFieldId r)) (filter (missing_of J runtime vals) scope)
     in Inr \<lparr>vr_valid = (missing = []), vr_missing = missing\<rparr>)"

definition getHistory :: "UserContext \<Rightarrow> string \<Rightarrow> db \<Rightarrow> app_error + CaseFieldValueHistory list" where
  "getHistory ctx caseId d =
     res_bind (load_live_case ctx caseId d) (\<lambda>_.
     Inr (sort_key (\<lambda>h. - fh_changedAt h) (filter (\<lambda>h. fh_tenantId h = tenantId ctx \<and> fh_caseId h = caseId) (valueHistory (customFields d)))))"

end
