(* ===== verification/Calendar_Service.thy ===== *)
theory Calendar_Service
  imports Case_Store
begin

text \<open>
  The working calendar of an organisation, \<^verbatim>\<open>src/src/services/case-calendar.service.ts\<close>: its
  weekdays and holidays, and the strict parser of dates that the planning shares.
\<close>

section \<open>Loading\<close>

definition DEFAULT_WEEKDAYS :: "int list" where
  "DEFAULT_WEEKDAYS = [1, 2, 3, 4, 5]"

definition calendar_of :: "string \<Rightarrow> db \<Rightarrow> WorkingCalendar option" where
  "calendar_of tenant d = find_first (\<lambda>c. wc_tenantId c = tenant) (calendars (planning d))"

definition holidays_of :: "string \<Rightarrow> WorkingCalendar \<Rightarrow> db \<Rightarrow> CalendarHoliday list" where
  "holidays_of tenant cal d = filter (\<lambda>h. ch_calendarId h = wc_id cal \<and> ch_tenantId h = tenant) (calendarHolidays (planning d))"

definition loadPlanningCalendar :: "string \<Rightarrow> db \<Rightarrow> PlanningCalendar" where
  "loadPlanningCalendar tenant d =
     (case calendar_of tenant d of
        None \<Rightarrow> \<lparr>workingWeekdays = DEFAULT_WEEKDAYS, holidays = []\<rparr>
      | Some cal \<Rightarrow> \<lparr>workingWeekdays = wc_workingWeekdays cal, holidays = map (\<lambda>h. toKey (ch_date h)) (holidays_of tenant cal d)\<rparr>)"

section \<open>Dates\<close>

text \<open>\<^verbatim>\<open>/^\d{4}-\d{2}-\d{2}$/\<close>\<close>

definition DATE_RE :: "string \<Rightarrow> bool" where
  "DATE_RE s \<longleftrightarrow> length s = 10 \<and> list_all is_digit (take 4 s) \<and> s ! 4 = CHR ''-'' \<and> list_all is_digit (take 2 (drop 5 s))
     \<and> s ! 7 = CHR ''-'' \<and> list_all is_digit (drop 8 s)"

definition number_of :: "string \<Rightarrow> int" where
  "number_of s = int (foldl (\<lambda>n c. 10 * n + (code c - 48)) 0 s)"

text \<open>
  The date of an ISO text at midnight UTC; none outside the months and days that exist in some
  year. A day past the end of its month runs into the next month; an engine that finds it invalid
  instead is refused by the comparison of the texts all the same.
\<close>

definition iso_midnight :: "string \<Rightarrow> date option" where
  "iso_midnight s =
     (let y = number_of (take 4 s); mo = number_of (take 2 (drop 5 s)); dd = number_of (drop 8 s)
      in if 1 \<le> mo \<and> mo \<le> 12 \<and> 1 \<le> dd \<and> dd \<le> 31
         then Some (DAY_MS * (day_from_year y + month_start (leap y) (mo - 1) + dd - 1)) else None)"

definition parseDateOnly :: "jsval \<Rightarrow> app_error + date" where
  "parseDateOnly input =
     (let s = (case input of JStr t \<Rightarrow> take 10 (trim t) | _ \<Rightarrow> [])
      in case (if DATE_RE s then iso_midnight s else None) of
           None \<Rightarrow> Inl (ValidationError ''date must be a valid YYYY-MM-DD date.'')
         | Some t \<Rightarrow> if toKey t \<noteq> s then Inl (ValidationError ''date must be a valid YYYY-MM-DD date.'') else Inr t)"

section \<open>The service\<close>

definition calendar_audit :: "UserContext \<Rightarrow> string \<Rightarrow> string \<Rightarrow> (string \<times> jsval) list \<Rightarrow> AuditAppendInput" where
  "calendar_audit ctx eventType entityId payload =
     user_audit ctx eventType ''WorkingCalendar'' entityId ''UPDATE'' payload JUndefined JUndefined"

record CalendarView =
  cv_id :: "string option"
  cv_workingWeekdays :: "int list"
  cv_timezone :: "string option"
  cv_holidays :: "CalendarHoliday list"

definition calendar_view :: "WorkingCalendar \<Rightarrow> db \<Rightarrow> string \<Rightarrow> CalendarView" where
  "calendar_view cal d tenant =
     \<lparr>cv_id = Some (wc_id cal), cv_workingWeekdays = wc_workingWeekdays cal, cv_timezone = wc_timezone cal,
      cv_holidays = sort_key ch_date (holidays_of tenant cal d)\<rparr>"

definition getCalendar :: "UserContext \<Rightarrow> db \<Rightarrow> CalendarView" where
  "getCalendar ctx d =
     (case calendar_of (tenantId ctx) d of
        Some cal \<Rightarrow> calendar_view cal d (tenantId ctx)
      | None \<Rightarrow> \<lparr>cv_id = None, cv_workingWeekdays = DEFAULT_WEEKDAYS, cv_timezone = None, cv_holidays = []\<rparr>)"

definition put_calendars :: "WorkingCalendar list \<Rightarrow> db \<Rightarrow> db" where
  "put_calendars cs d = d\<lparr>planning := (planning d)\<lparr>calendars := cs\<rparr>\<rparr>"

definition put_holidays :: "CalendarHoliday list \<Rightarrow> db \<Rightarrow> db" where
  "put_holidays hs d = d\<lparr>planning := (planning d)\<lparr>calendarHolidays := hs\<rparr>\<rparr>"

text \<open>\<^verbatim>\<open>upsert\<close> on the unique tenant.\<close>

definition upsert_calendar :: "string \<Rightarrow> string \<Rightarrow> (WorkingCalendar \<Rightarrow> WorkingCalendar) \<Rightarrow> WorkingCalendar \<Rightarrow> db \<Rightarrow> WorkingCalendar \<times> db" where
  "upsert_calendar i tenant f new d =
     (case calendar_of tenant d of
        Some cal \<Rightarrow> (f cal, put_calendars (map (\<lambda>c. if wc_tenantId c = tenant then f c else c) (calendars (planning d))) d)
      | None \<Rightarrow> (new\<lparr>wc_id := i, wc_tenantId := tenant\<rparr>,
                put_calendars (calendars (planning d) @ [new\<lparr>wc_id := i, wc_tenantId := tenant\<rparr>]) d))"

text \<open>\<^verbatim>\<open>Number.isInteger(n)\<close>\<close>

definition int_of_js :: "jsval \<Rightarrow> int option" where
  "int_of_js v = (case num_of v of Some q \<Rightarrow> if of_int \<lfloor>q\<rfloor> = q then Some \<lfloor>q\<rfloor> else None | None \<Rightarrow> None)"

definition weekdays_of :: "jsval \<Rightarrow> int list option" where
  "weekdays_of wd =
     (case wd of
        JArr vs \<Rightarrow> if vs \<noteq> [] \<and> list_all (\<lambda>v. case int_of_js v of Some n \<Rightarrow> 0 \<le> n \<and> n \<le> 6 | None \<Rightarrow> False) vs
                   then Some (sort (uniq (List.map_filter int_of_js vs))) else None
      | _ \<Rightarrow> None)"

definition upsertCalendar :: "env \<Rightarrow> UserContext \<Rightarrow> jsval \<Rightarrow> jsval \<Rightarrow> CalendarView tx" where
  "upsertCalendar E ctx wd tz d =
     res_bind (or_throw (weekdays_of wd) (ValidationError ''workingWeekdays must be a non-empty array of integers 0..6.'')) (\<lambda>days.
     res_bind (ensure (nullish tz \<or> (case str_of tz of Some s \<Rightarrow> length s \<le> 64 | None \<Rightarrow> False))
        (ValidationError ''timezone must be a string of 64 characters or fewer.'')) (\<lambda>_.
     let zone = str_of tz;
         (cal, d1) = upsert_calendar (ev_uuid E 1) (tenantId ctx) (\<lambda>c. c\<lparr>wc_workingWeekdays := days, wc_timezone := zone\<rparr>)
           \<lparr>wc_id = [], wc_tenantId = [], wc_workingWeekdays = days, wc_timezone = zone\<rparr> d
     in res_bind (audit_tx E 2 (calendar_audit ctx ''CASE_CALENDAR_UPDATED'' (wc_id cal)
           [(''workingWeekdays'', JArr (map jint days)), (''timezone'', jopt zone)]) d1) (\<lambda>d2.
        Inr (calendar_view cal d2 (tenantId ctx), d2))))"

definition insert_holiday :: "CalendarHoliday \<Rightarrow> db \<Rightarrow> app_error + db" where
  "insert_holiday h d =
     (if (\<exists>q \<in> set (calendarHolidays (planning d)). ch_tenantId q = ch_tenantId h \<and> ch_calendarId q = ch_calendarId h \<and> ch_date q = ch_date h)
      then Inl UniqueViolation else Inr (put_holidays (calendarHolidays (planning d) @ [h]) d))"

definition addHoliday :: "env \<Rightarrow> UserContext \<Rightarrow> jsval \<Rightarrow> jsval \<Rightarrow> CalendarHoliday tx" where
  "addHoliday E ctx day label d =
     res_bind (parseDateOnly day) (\<lambda>t.
     let name = (case str_of label of Some s \<Rightarrow> trim s | None \<Rightarrow> [])
     in res_bind (ensure (name \<noteq> [] \<and> length name \<le> 200) (ValidationError ''label is required and must be 200 characters or fewer.'')) (\<lambda>_.
        let (cal, d1) = upsert_calendar (ev_uuid E 1) (tenantId ctx) (\<lambda>c. c)
              \<lparr>wc_id = [], wc_tenantId = [], wc_workingWeekdays = DEFAULT_WEEKDAYS, wc_timezone = None\<rparr> d;
            h = \<lparr>ch_id = ev_uuid E 3, ch_tenantId = wc_tenantId cal, ch_calendarId = wc_id cal, ch_date = t, ch_label = name\<rparr>
        in case res_bind (insert_holiday h d1) (\<lambda>d2.
             res_bind (audit_tx E 2 (calendar_audit ctx ''CASE_CALENDAR_HOLIDAY_ADDED'' (wc_id cal)
               [(''holidayId'', JStr (ch_id h)), (''date'', JStr (toKey t)), (''label'', JStr name)]) d2) (\<lambda>d3. Inr (h, d3)))
           of Inl UniqueViolation \<Rightarrow> Inl (DuplicateResourceError (''A holiday on '' @ toKey t @ '' already exists.''))
            | r \<Rightarrow> r))"

definition removeHoliday :: "env \<Rightarrow> UserContext \<Rightarrow> string \<Rightarrow> string tx" where
  "removeHoliday E ctx holidayId d =
     res_bind (or_throw (find_first (\<lambda>h. ch_id h = holidayId \<and> ch_tenantId h = tenantId ctx) (calendarHolidays (planning d)))
        ResourceNotFoundError) (\<lambda>h.
     res_bind (audit_tx E 2 (calendar_audit ctx ''CASE_CALENDAR_HOLIDAY_REMOVED'' (ch_calendarId h)
        [(''holidayId'', JStr (ch_id h)), (''date'', JStr (toKey (ch_date h))), (''label'', JStr (ch_label h))])
        (put_holidays (filter (\<lambda>q. ch_id q \<noteq> ch_id h) (calendarHolidays (planning d))) d)) (\<lambda>d2.
     Inr (ch_id h, d2)))"

section \<open>Every stored calendar works\<close>

lemma weekdays_of_usable:
  assumes "weekdays_of wd = Some days"
  shows "days \<noteq> [] \<and> (\<forall>w \<in> set days. 0 \<le> w \<and> w \<le> 6)"
proof -
  from assms obtain vs where vs: "wd = JArr vs" "vs \<noteq> []" "list_all (\<lambda>v. case int_of_js v of Some n \<Rightarrow> 0 \<le> n \<and> n \<le> 6 | None \<Rightarrow> False) vs"
    and days: "days = sort (uniq (List.map_filter int_of_js vs))"
    by (auto simp: weekdays_of_def split: jsval.splits if_splits)
  have s: "set days = set (List.map_filter int_of_js vs)" using days conjunct1 [OF uniq_facts] by (simp only: set_sort)
  have all: "\<exists>n. int_of_js v = Some n \<and> 0 \<le> n \<and> n \<le> 6" if "v \<in> set vs" for v
    using vs(3) that by (auto simp: list_all_iff split: option.splits)
  have r: "0 \<le> w \<and> w \<le> 6" if "w \<in> set days" for w
    using that all unfolding s by (fastforce simp: List.map_filter_def)
  obtain v ws where "vs = v # ws" using vs(2) by (cases vs) auto
  then have "set days \<noteq> {}" using all [of v] unfolding s by (auto simp: List.map_filter_def)
  then show ?thesis using r by auto
qed

section \<open>Parsing and printing\<close>

lemma digit_code: "code (digit_char n) - 48 = n mod 10" "is_digit (digit_char n)" "\<not> is_space (digit_char n)"
proof -
  have "code (digit_char n) = 48 + n mod 10" by (simp add: digit_char_def of_char_of)
  moreover have "n mod 10 < 10" by simp
  ultimately show "code (digit_char n) - 48 = n mod 10" "is_digit (digit_char n)" "\<not> is_space (digit_char n)"
    unfolding is_digit_def is_space_def by auto
qed

lemma nat_div_int: "nat (int k div 10) = k div 10" "nat (int k div 100) = k div 100" "nat (int k div 1000) = k div 1000"
  by (simp_all add: nat_div_distrib)

lemma number_of_pad:
  "0 \<le> n \<Longrightarrow> n < 100 \<Longrightarrow> number_of (pad2 n) = n"
  "0 \<le> n \<Longrightarrow> n < 10000 \<Longrightarrow> number_of (pad4 n) = n"
proof -
  assume "0 \<le> n" "n < 100"
  then obtain k where k: "n = int k" "k < 100" by (cases n) auto
  have "number_of (pad2 (int k)) = int (10 * (k div 10 mod 10) + k mod 10)"
    by (simp only: number_of_def pad2_def nat_div_int nat_int foldl.simps digit_code(1) mult_0_right add_0)
  moreover have "k div 10 mod 10 = k div 10" using k(2) by simp
  ultimately show "number_of (pad2 n) = n" unfolding k(1) by simp
next
  assume "0 \<le> n" "n < 10000"
  then obtain k where k: "n = int k" "k < 10000" by (cases n) auto
  have "k div 1000 mod 10 = k div 1000" using k(2) by simp
  moreover have "10 * (k div 1000) + k div 100 mod 10 = k div 100" using mult_div_mod_eq [of 10 "k div 100"] by (simp add: div_mult2_eq [symmetric])
  moreover have "10 * (k div 100) + k div 10 mod 10 = k div 10" using mult_div_mod_eq [of 10 "k div 10"] by (simp add: div_mult2_eq [symmetric])
  moreover have "10 * (k div 10) + k mod 10 = k" by simp
  ultimately have "10 * (10 * (10 * (k div 1000 mod 10) + k div 100 mod 10) + k div 10 mod 10) + k mod 10 = k" by (simp only:)
  moreover have "number_of (pad4 (int k)) = int (10 * (10 * (10 * (k div 1000 mod 10) + k div 100 mod 10) + k div 10 mod 10) + k mod 10)"
    by (simp only: number_of_def pad4_def nat_div_int nat_int foldl.simps digit_code(1) mult_0_right add_0)
  ultimately show "number_of (pad4 n) = n" unfolding k(1) by (simp only:)
qed

lemma toKey_text:
  assumes "0 \<le> getUTCFullYear t" "getUTCFullYear t \<le> 9999"
  shows "toKey t = pad4 (getUTCFullYear t) @ ''-'' @ pad2 (getUTCMonth t + 1) @ ''-'' @ pad2 (getUTCDate t)"
  using assms by (simp add: toKey_def iso_date_def pad4_def pad2_def Let_def)

lemma civil_range: "0 \<le> getUTCMonth t" "getUTCMonth t < 12" "1 \<le> getUTCDate t" "getUTCDate t \<le> 31"
  using getUTCMonth_range [of t] getUTCDate_bounds [of t] days_in_month_range [OF getUTCMonth_range [of t], of "getUTCFullYear t"] by simp_all

text \<open>Dates go through text and back. A whole day of a year of four digits printed as a key is parsed to
  the same day, also with blanks around it or more text behind it; and whatever is parsed is a whole day
  whose key is the text it was parsed from.\<close>

theorem parse_key_roundtrip:
  "(0 \<le> getUTCFullYear t \<and> getUTCFullYear t \<le> 9999 \<and> DAY_MS dvd t \<longrightarrow> parseDateOnly (JStr (toKey t)) = Inr t)
   \<and> (\<forall>s u. parseDateOnly (JStr s) = Inr u \<longrightarrow> DAY_MS dvd u \<and> toKey u = take 10 (trim s))"
proof (intro conjI impI allI)
  assume "0 \<le> getUTCFullYear t \<and> getUTCFullYear t \<le> 9999 \<and> DAY_MS dvd t"
  then have y: "0 \<le> getUTCFullYear t" "getUTCFullYear t \<le> 9999" and al: "DAY_MS dvd t" by simp_all
  let ?y = "getUTCFullYear t" and ?m = "getUTCMonth t" and ?d = "getUTCDate t"
  note k = toKey_text [OF y]
  have parts: "take 4 (toKey t) = pad4 ?y" "take 2 (drop 5 (toKey t)) = pad2 (?m + 1)" "drop 8 (toKey t) = pad2 ?d"
    unfolding k by (simp_all add: pad4_def pad2_def)
  have "trim (toKey t) = toKey t"
    by (rule trim_id) (auto simp: k pad4_def pad2_def digit_code(3) is_space_def [of "CHR ''-''"])
  moreover have "take 10 (toKey t) = toKey t" by (simp add: toKey_def)
  moreover have "DATE_RE (toKey t)"
    unfolding DATE_RE_def parts by (simp add: k pad4_def pad2_def digit_code(2))
  moreover have "iso_midnight (toKey t) = Some t"
  proof -
    have "day_of t = day_from_year ?y + month_start (leap ?y) (?m + 1 - 1) + ?d - 1" using day_of_civil [of t] by simp
    moreover have "DAY_MS * day_of t = t" using al by (simp add: day_of_def)
    ultimately have "t = DAY_MS * (day_from_year ?y + month_start (leap ?y) (?m + 1 - 1) + ?d - 1)" by simp
    moreover have "number_of (pad4 ?y) = ?y" "number_of (pad2 (?m + 1)) = ?m + 1" "number_of (pad2 ?d) = ?d"
      using number_of_pad y civil_range [of t] by simp_all
    ultimately show ?thesis using civil_range [of t] unfolding iso_midnight_def parts Let_def by simp
  qed
  ultimately show "parseDateOnly (JStr (toKey t)) = Inr t" by (simp add: parseDateOnly_def)
next
  fix s u assume p: "parseDateOnly (JStr s) = Inr u"
  then show "DAY_MS dvd u" by (auto simp: parseDateOnly_def iso_midnight_def Let_def split: option.splits if_splits)
  show "toKey u = take 10 (trim s)" using p by (auto simp: parseDateOnly_def Let_def split: option.splits if_splits)
qed

theorem parse_key_roundtrip_witness: "parseDateOnly (JStr (toKey 1777507200000)) = Inr 1777507200000"
proof -
  have "0 \<le> getUTCFullYear 1777507200000 \<and> getUTCFullYear 1777507200000 \<le> 9999 \<and> DAY_MS dvd 1777507200000" by code_simp
  with parse_key_roundtrip [of 1777507200000] show ?thesis by blast
qed

end
