(* ===== verification/Timeline_Service.thy ===== *)
theory Timeline_Service
  imports Field_Value_Service Calendar_Service
begin

text \<open>
  The timeline of a case: \<^verbatim>\<open>src/src/services/case-timeline.service.ts\<close>, the row updates of
  \<^verbatim>\<open>case-planning.service.ts\<close> and \<^verbatim>\<open>case-performance.service.ts\<close>. A recalculation runs
  loops that need not end on every calendar, so an operation that recalculates has type
  \<open>plan_tx\<close>: none when it does not return, else an error or a result and the next database.
  \<open>rnd\<close> rounds one floating-point operation.
\<close>

type_synonym 'a plan_tx = "db \<Rightarrow> ('a \<times> db) run"

definition lift :: "app_error + 'a \<Rightarrow> 'a run" where
  "lift r = Some r"

lemma lift_Inr [simp]: "lift r = Some (Inr x) \<longleftrightarrow> r = Inr x"
  by (simp add: lift_def)

section \<open>Tables and audit rows\<close>

fun stage_status_name :: "CaseStageStatus \<Rightarrow> string" where
  "stage_status_name SS_PENDING = ''PENDING''"
| "stage_status_name SS_READY = ''READY''"
| "stage_status_name SS_IN_PROGRESS = ''IN_PROGRESS''"
| "stage_status_name SS_WAITING_EXTERNAL = ''WAITING_EXTERNAL''"
| "stage_status_name SS_BLOCKED = ''BLOCKED''"
| "stage_status_name SS_COMPLETED = ''COMPLETED''"
| "stage_status_name SS_SKIPPED = ''SKIPPED''"

definition TERMINAL :: "CaseStageStatus list" where
  "TERMINAL = [SS_COMPLETED, SS_SKIPPED]"

definition put_stages :: "CaseStage list \<Rightarrow> db \<Rightarrow> db" where
  "put_stages ss d = d\<lparr>planning := (planning d)\<lparr>stages := ss\<rparr>\<rparr>"

definition put_timelines :: "CaseTimeline list \<Rightarrow> db \<Rightarrow> db" where
  "put_timelines ts d = d\<lparr>planning := (planning d)\<lparr>timelines := ts\<rparr>\<rparr>"

definition put_templates :: "CaseStageTemplate list \<Rightarrow> db \<Rightarrow> db" where
  "put_templates ts d = d\<lparr>planning := (planning d)\<lparr>stageTemplates := ts\<rparr>\<rparr>"

definition update_stage :: "string \<Rightarrow> (CaseStage \<Rightarrow> CaseStage) \<Rightarrow> db \<Rightarrow> app_error + CaseStage \<times> db" where
  "update_stage i f d =
     res_bind (update_row (\<lambda>s. cs_id s = i) f (stages (planning d))) (\<lambda>(s, ss). Inr (s, put_stages ss d))"

definition update_timeline :: "string \<Rightarrow> (CaseTimeline \<Rightarrow> CaseTimeline) \<Rightarrow> db \<Rightarrow> app_error + CaseTimeline \<times> db" where
  "update_timeline i f d =
     res_bind (update_row (\<lambda>t. tl_id t = i) f (timelines (planning d))) (\<lambda>(t, ts). Inr (t, put_timelines ts d))"

definition auditRow :: "UserContext \<Rightarrow> string \<Rightarrow> string \<Rightarrow> string \<Rightarrow> (string \<times> jsval) list \<Rightarrow> jsval \<Rightarrow> AuditAppendInput" where
  "auditRow ctx eventType entityType entityId payload beforeState =
     user_audit ctx eventType entityType entityId ''UPDATE'' payload beforeState JUndefined"

definition loadType :: "string \<Rightarrow> string \<Rightarrow> db \<Rightarrow> app_error + CaseType" where
  "loadType tenant caseTypeId d =
     or_throw (find_first (\<lambda>t. ct_id t = caseTypeId \<and> ct_tenantId t = tenant) (caseTypes (planning d))) ResourceNotFoundError"

section \<open>Stage templates\<close>

record TemplateInput =
  ti_key :: "string option"
  ti_label :: "string option"
  ti_sequence :: "int option"
  ti_durationValue :: "int option option"
  ti_durationType :: "PlanDurationType option option"
  ti_externalWaiting :: "bool option"
  ti_bufferDays :: "int option option"
  ti_dependsOnPrevious :: "bool option"
  ti_enforceRequiredOnComplete :: "bool option"
  ti_atRiskPercent :: jsval
  ti_warnDaysRemaining :: jsval
  ti_hardBlock :: jsval

definition sla_int :: "jsval \<Rightarrow> (int \<Rightarrow> bool) \<Rightarrow> bool" where
  "sla_int v ok \<longleftrightarrow> nullish v \<or> (case int_of_js v of Some n \<Rightarrow> ok n | None \<Rightarrow> False)"

definition checkSla :: "TemplateInput \<Rightarrow> app_error + unit" where
  "checkSla inp =
     res_bind (ensure (sla_int (ti_atRiskPercent inp) (\<lambda>n. 0 \<le> n \<and> n \<le> 100)) (ValidationError ''atRiskPercent must be an integer 0-100 or null.'')) (\<lambda>_.
     res_bind (ensure (sla_int (ti_warnDaysRemaining inp) (\<lambda>n. 0 \<le> n)) (ValidationError ''warnDaysRemaining must be an integer >= 0 or null.'')) (\<lambda>_.
     ensure (case ti_hardBlock inp of JUndefined \<Rightarrow> True | JBool b \<Rightarrow> True | _ \<Rightarrow> False) (ValidationError ''hardBlock must be a boolean.'')))"

definition js_flag :: "jsval \<Rightarrow> bool option" where
  "js_flag v = (case v of JBool b \<Rightarrow> Some b | _ \<Rightarrow> None)"

definition by_sequence :: "('r \<Rightarrow> int) \<Rightarrow> ('r \<Rightarrow> date) \<Rightarrow> 'r list \<Rightarrow> 'r list" where
  "by_sequence sq created rs = sort_key sq (sort_key created rs)"

definition templates_of :: "string \<Rightarrow> string \<Rightarrow> db \<Rightarrow> CaseStageTemplate list" where
  "templates_of tenant caseTypeId d =
     filter (\<lambda>t. tp_tenantId t = tenant \<and> tp_caseTypeId t = caseTypeId \<and> tp_deletedAt t = None) (stageTemplates (planning d))"

definition listTemplates :: "UserContext \<Rightarrow> string \<Rightarrow> bool \<Rightarrow> db \<Rightarrow> app_error + CaseStageTemplate list" where
  "listTemplates ctx caseTypeId includeArchived d =
     res_bind (loadType (tenantId ctx) caseTypeId d) (\<lambda>_.
     Inr (by_sequence tp_sequence tp_createdAt (filter (\<lambda>t. tp_tenantId t = tenantId ctx \<and> tp_caseTypeId t = caseTypeId
        \<and> (includeArchived \<or> tp_deletedAt t = None)) (stageTemplates (planning d)))))"

definition new_template :: "env \<Rightarrow> UserContext \<Rightarrow> string \<Rightarrow> string \<Rightarrow> string \<Rightarrow> TemplateInput \<Rightarrow> CaseStageTemplate" where
  "new_template E ctx caseTypeId key label inp =
     \<lparr>tp_id = ev_uuid E 1, tp_tenantId = tenantId ctx, tp_caseTypeId = caseTypeId, tp_key = key, tp_label = label,
      tp_sequence = or_else (ti_sequence inp) 0, tp_durationValue = flat (ti_durationValue inp), tp_durationType = flat (ti_durationType inp),
      tp_externalWaiting = or_else (ti_externalWaiting inp) False, tp_bufferDays = flat (ti_bufferDays inp),
      tp_dependsOnPrevious = or_else (ti_dependsOnPrevious inp) True,
      tp_enforceRequiredOnComplete = or_else (ti_enforceRequiredOnComplete inp) False,
      tp_atRiskPercent = int_of_js (ti_atRiskPercent inp), tp_warnDaysRemaining = int_of_js (ti_warnDaysRemaining inp),
      tp_hardBlock = or_else (js_flag (ti_hardBlock inp)) False, tp_createdAt = ev_clock E 1, tp_deletedAt = None\<rparr>"

definition insert_template :: "CaseStageTemplate \<Rightarrow> db \<Rightarrow> app_error + db" where
  "insert_template r d =
     (if (\<exists>q \<in> set (stageTemplates (planning d)). tp_tenantId q = tp_tenantId r \<and> tp_caseTypeId q = tp_caseTypeId r \<and> tp_key q = tp_key r)
      then Inl UniqueViolation else Inr (put_templates (stageTemplates (planning d) @ [r]) d))"

definition createTemplate :: "env \<Rightarrow> UserContext \<Rightarrow> string \<Rightarrow> TemplateInput \<Rightarrow> CaseStageTemplate tx" where
  "createTemplate E ctx caseTypeId inp d =
     (let key = trim (or_empty (ti_key inp)); label = trim (or_empty (ti_label inp))
      in res_bind (key_check key) (\<lambda>_.
         res_bind (text_check ''label'' label) (\<lambda>_.
         res_bind (checkSla inp) (\<lambda>_.
         mapP2002 (''A stage template with key '' @ [CHR 0x22] @ key @ [CHR 0x22] @ '' already exists on this case type.'')
           (res_bind (loadType (tenantId ctx) caseTypeId d) (\<lambda>_.
            let t = new_template E ctx caseTypeId key label inp
            in res_bind (insert_template t d) (\<lambda>d1.
               res_bind (audit_tx E 2 (auditRow ctx ''CASE_STAGE_TEMPLATE_CREATED'' ''CaseStageTemplate'' (tp_id t)
                  [(''caseTypeId'', JStr caseTypeId), (''key'', JStr key)] JUndefined) d1) (\<lambda>d2.
               Inr (t, d2)))))))))"

definition find_template :: "UserContext \<Rightarrow> string \<Rightarrow> string \<Rightarrow> db \<Rightarrow> app_error + CaseStageTemplate" where
  "find_template ctx caseTypeId templateId d =
     or_throw (find_first (\<lambda>t. tp_id t = templateId \<and> tp_tenantId t = tenantId ctx \<and> tp_caseTypeId t = caseTypeId) (stageTemplates (planning d)))
       ResourceNotFoundError"

definition template_updated :: "TemplateInput \<Rightarrow> CaseStageTemplate \<Rightarrow> CaseStageTemplate" where
  "template_updated inp t =
     t\<lparr>tp_label := upd_opt (map_option trim (ti_label inp)) (tp_label t),
       tp_durationValue := upd_opt (ti_durationValue inp) (tp_durationValue t),
       tp_durationType := upd_opt (ti_durationType inp) (tp_durationType t),
       tp_externalWaiting := upd_opt (ti_externalWaiting inp) (tp_externalWaiting t),
       tp_bufferDays := upd_opt (ti_bufferDays inp) (tp_bufferDays t),
       tp_dependsOnPrevious := upd_opt (ti_dependsOnPrevious inp) (tp_dependsOnPrevious t),
       tp_enforceRequiredOnComplete := upd_opt (ti_enforceRequiredOnComplete inp) (tp_enforceRequiredOnComplete t),
       tp_atRiskPercent := (if ti_atRiskPercent inp = JUndefined then tp_atRiskPercent t else int_of_js (ti_atRiskPercent inp)),
       tp_warnDaysRemaining := (if ti_warnDaysRemaining inp = JUndefined then tp_warnDaysRemaining t else int_of_js (ti_warnDaysRemaining inp)),
       tp_hardBlock := upd_opt (js_flag (ti_hardBlock inp)) (tp_hardBlock t)\<rparr>"

text \<open>The update of one template with its audit row.\<close>

definition template_write :: "env \<Rightarrow> UserContext \<Rightarrow> string \<Rightarrow> string \<Rightarrow> (CaseStageTemplate \<Rightarrow> CaseStageTemplate) \<Rightarrow> string \<Rightarrow> CaseStageTemplate tx" where
  "template_write E ctx caseTypeId templateId f eventType d =
     res_bind (update_row (\<lambda>t. tp_id t = templateId) f (stageTemplates (planning d))) (\<lambda>(updated, ts).
     res_bind (audit_tx E 2 (auditRow ctx eventType ''CaseStageTemplate'' templateId [(''caseTypeId'', JStr caseTypeId)] JUndefined)
        (put_templates ts d)) (\<lambda>d2. Inr (updated, d2)))"

definition updateTemplate :: "env \<Rightarrow> UserContext \<Rightarrow> string \<Rightarrow> string \<Rightarrow> TemplateInput \<Rightarrow> CaseStageTemplate tx" where
  "updateTemplate E ctx caseTypeId templateId inp d =
     res_bind (checkSla inp) (\<lambda>_.
     res_bind (find_template ctx caseTypeId templateId d) (\<lambda>t.
     res_bind (ensure (tp_deletedAt t = None) (BusinessRuleViolationError ''An archived stage template cannot be edited.'')) (\<lambda>_.
     res_bind (same_key_check ''key is immutable and cannot be changed.'' (ti_key inp) (tp_key t)) (\<lambda>_.
     res_bind (text_check_opt ''label'' (ti_label inp)) (\<lambda>_.
     template_write E ctx caseTypeId templateId (template_updated inp) ''CASE_STAGE_TEMPLATE_UPDATED'' d)))))"

definition archiveTemplate :: "env \<Rightarrow> UserContext \<Rightarrow> string \<Rightarrow> string \<Rightarrow> CaseStageTemplate tx" where
  "archiveTemplate E ctx caseTypeId templateId d =
     res_bind (find_template ctx caseTypeId templateId d) (\<lambda>t.
     res_bind (ensure (tp_deletedAt t = None) (BusinessRuleViolationError ''Stage template is already archived.'')) (\<lambda>_.
     template_write E ctx caseTypeId templateId (\<lambda>t. t\<lparr>tp_deletedAt := Some (ev_clock E 1)\<rparr>) ''CASE_STAGE_TEMPLATE_ARCHIVED'' d))"

fun set_sequences :: "int \<Rightarrow> string list \<Rightarrow> db \<Rightarrow> app_error + db" where
  "set_sequences i [] d = Inr d"
| "set_sequences i (x # xs) d =
     res_bind (update_row (\<lambda>t. tp_id t = x) (\<lambda>t. t\<lparr>tp_sequence := i\<rparr>) (stageTemplates (planning d))) (\<lambda>(_, ts).
     set_sequences (i + 1) xs (put_templates ts d))"

definition reorderTemplates :: "env \<Rightarrow> UserContext \<Rightarrow> string \<Rightarrow> string list \<Rightarrow> CaseStageTemplate list tx" where
  "reorderTemplates E ctx caseTypeId orderedIds d =
     res_bind (ensure (orderedIds \<noteq> []) (ValidationError ''orderedIds must be a non-empty array.'')) (\<lambda>_.
     res_bind (loadType (tenantId ctx) caseTypeId d) (\<lambda>_.
     let existingIds = uniq (map tp_id (templates_of (tenantId ctx) caseTypeId d))
     in res_bind (ensure (length orderedIds = length existingIds \<and> list_all (\<lambda>i. i \<in> set existingIds) orderedIds)
          (ValidationError ''orderedIds must list exactly the non-archived stage templates of this case type.'')) (\<lambda>_.
        res_bind (set_sequences 0 orderedIds d) (\<lambda>d1.
        res_bind (audit_tx E 2 (auditRow ctx ''CASE_STAGE_TEMPLATE_REORDERED'' ''CaseStageTemplate'' caseTypeId
           [(''caseTypeId'', JStr caseTypeId), (''orderedIds'', JArr (map JStr orderedIds))] JUndefined) d1) (\<lambda>d2.
        Inr (sort_key tp_sequence (templates_of (tenantId ctx) caseTypeId d2), d2))))))"

section \<open>Readiness and the status of a timeline\<close>

definition stages_of :: "string \<Rightarrow> db \<Rightarrow> CaseStage list" where
  "stages_of timelineId d = sort_key cs_sequence (filter (\<lambda>s. cs_timelineId s = timelineId) (stages (planning d)))"

definition timeline_of :: "string \<Rightarrow> string \<Rightarrow> db \<Rightarrow> CaseTimeline option" where
  "timeline_of tenant caseId d = find_first (\<lambda>t. tl_caseId t = caseId \<and> tl_tenantId t = tenant) (timelines (planning d))"

definition eligible :: "CaseStage option \<Rightarrow> CaseStage \<Rightarrow> bool" where
  "eligible prev s \<longleftrightarrow> \<not> cs_dependsOnPrevious s \<or> (case prev of None \<Rightarrow> True | Some p \<Rightarrow> cs_status p \<in> set TERMINAL)"

fun readiness_loop :: "CaseStage option \<Rightarrow> CaseStage list \<Rightarrow> db \<Rightarrow> app_error + db" where
  "readiness_loop prev [] d = Inr d"
| "readiness_loop prev (s # ss) d =
     (if cs_status s \<noteq> SS_PENDING \<and> cs_status s \<noteq> SS_READY then readiness_loop (Some s) ss d
      else let desired = (if eligible prev s then SS_READY else SS_PENDING)
           in if cs_status s \<noteq> desired
              then res_bind (update_stage (cs_id s) (\<lambda>r. r\<lparr>cs_status := desired\<rparr>) d) (\<lambda>(_, d1). readiness_loop (Some s) ss d1)
              else readiness_loop (Some s) ss d)"

definition recomputeReadiness :: "string \<Rightarrow> db \<Rightarrow> app_error + db" where
  "recomputeReadiness timelineId d = readiness_loop None (stages_of timelineId d) d"

definition syncTimelineStatus :: "string \<Rightarrow> db \<Rightarrow> app_error + db" where
  "syncTimelineStatus timelineId d =
     (let ss = filter (\<lambda>s. cs_timelineId s = timelineId) (stages (planning d));
          allTerminal = (ss \<noteq> [] \<and> list_all (\<lambda>s. cs_status s \<in> set TERMINAL) ss)
      in res_bind (update_timeline timelineId (\<lambda>t. t\<lparr>tl_status := (if allTerminal then TL_COMPLETED else TL_ACTIVE)\<rparr>) d) (\<lambda>(_, d1). Inr d1))"

section \<open>The recalculation\<close>

record RecalcStage =
  rs_stageId :: string
  rs_key :: string
  rs_plannedStart :: date
  rs_plannedFinish :: date
  rs_latestStart :: "date option"
  rs_latestFinish :: "date option"
  rs_slackDays :: "int option"

record RecalcResponse =
  rc_feasible :: "bool option"
  rc_deficitDays :: "int option"
  rc_targetDate :: "date option"
  rc_stages :: "RecalcStage list"

definition toPlanInput :: "CaseStage \<Rightarrow> PlanStageInput" where
  "toPlanInput s =
     \<lparr>durationValue = cs_durationValue s, durationType = cs_durationType s, externalWaiting = cs_externalWaiting s,
      bufferDays = cs_bufferDays s, dependsOnPrevious = cs_dependsOnPrevious s,
      remainingDurationOverride = cs_remainingDurationOverride s, startedAt = cs_startedAt s\<rparr>"

definition planned_row :: "ForwardResult \<Rightarrow> ReverseResult option \<Rightarrow> CaseStage \<Rightarrow> CaseStage \<Rightarrow> CaseStage" where
  "planned_row f r old s =
     s\<lparr>cs_plannedStart := Some (plannedStart f), cs_plannedFinish := Some (plannedFinish f),
       cs_latestStart := map_option latestStart r, cs_latestFinish := map_option latestFinish r,
       cs_baselineStart := (if cs_baselineStart old = None then Some (plannedStart f) else cs_baselineStart s),
       cs_baselineFinish := (if cs_baselineFinish old = None then Some (plannedFinish f) else cs_baselineFinish s)\<rparr>"

fun recalc_rows :: "PlanningCalendar \<Rightarrow> CaseStage list \<Rightarrow> ForwardResult list \<Rightarrow> ReverseResult option list \<Rightarrow> RecalcStage list plan_tx" where
  "recalc_rows cal (row # rows) (f # fs) (r # rs) d =
     run_bind (lift (update_stage (cs_id row) (planned_row f r row) d)) (\<lambda>(_, d1).
     run_bind (case r of None \<Rightarrow> run_return None
        | Some q \<Rightarrow> run_bind (workingDaysBetween (plannedFinish f) (latestFinish q) cal) (\<lambda>n. run_return (Some n))) (\<lambda>slack.
     run_bind (recalc_rows cal rows fs rs d1) (\<lambda>(out, d2).
     run_return (\<lparr>rs_stageId = cs_id row, rs_key = cs_key row, rs_plannedStart = plannedStart f, rs_plannedFinish = plannedFinish f,
        rs_latestStart = map_option latestStart r, rs_latestFinish = map_option latestFinish r, rs_slackDays = slack\<rparr> # out, d2))))"
| "recalc_rows cal _ _ _ d = run_return ([], d)"

definition last_finish :: "ForwardResult list \<Rightarrow> date option" where
  "last_finish fs = (if fs = [] then None else Some (plannedFinish (last fs)))"

definition planned_timeline :: "Feasibility \<Rightarrow> date \<Rightarrow> CaseTimeline \<Rightarrow> CaseTimeline" where
  "planned_timeline fs now t = t\<lparr>tl_feasible := feasible fs, tl_deficitDays := deficitDays fs, tl_lastPlannedAt := Some now\<rparr>"

definition recalcInTx :: "string \<Rightarrow> string \<Rightarrow> date \<Rightarrow> RecalcResponse plan_tx" where
  "recalcInTx tenant caseId now d =
     run_bind (lift (or_throw (timeline_of tenant caseId d) ResourceNotFoundError)) (\<lambda>timeline.
     let calendar = loadPlanningCalendar tenant d;
         rows = stages_of (tl_id timeline) d;
         inputs = map toPlanInput rows;
         targetDate = map_option dateOnly (tl_targetDate timeline)
     in run_bind (forwardPlan inputs now calendar) (\<lambda>forward.
        run_bind (case targetDate of None \<Rightarrow> run_return (map (\<lambda>_. None) rows)
           | Some t \<Rightarrow> run_bind (reversePlan inputs t calendar) (\<lambda>rs. run_return (map Some rs))) (\<lambda>reverse.
        run_bind (computeFeasibility (last_finish forward) targetDate calendar) (\<lambda>fs.
        run_bind (recalc_rows calendar rows forward reverse d) (\<lambda>(out, d1).
        run_bind (lift (update_timeline (tl_id timeline)
           (planned_timeline fs now) d1)) (\<lambda>(_, d2).
        run_return (\<lparr>rc_feasible = feasible fs, rc_deficitDays = deficitDays fs, rc_targetDate = targetDate, rc_stages = out\<rparr>, d2)))))))"

section \<open>Performance summaries\<close>

definition sampled_stages :: "string \<Rightarrow> string option \<Rightarrow> string \<Rightarrow> db \<Rightarrow> CaseStage list" where
  "sampled_stages tenant caseTypeId stageKey d =
     filter (\<lambda>s. cs_tenantId s = tenant \<and> cs_key s = stageKey \<and> cs_status s = SS_COMPLETED \<and> cs_completedAt s \<noteq> None
       \<and> (falsy caseTypeId \<or> (\<exists>t \<in> set (timelines (planning d)). tl_id t = cs_timelineId s \<and> Some (tl_caseTypeId t) = caseTypeId)))
     (stages (planning d))"

definition history_of :: "string \<Rightarrow> string \<Rightarrow> db \<Rightarrow> StageEventLite list" where
  "history_of tenant stageId d =
     map (\<lambda>e. \<lparr>toStatus = se_toStatus e, evCreatedAt = se_createdAt e\<rparr>)
       (sort_key se_createdAt (filter (\<lambda>e. se_tenantId e = tenant \<and> se_stageId e = stageId) (stageEvents (planning d))))"

definition computeSummary :: "(rat \<Rightarrow> rat) \<Rightarrow> string \<Rightarrow> string option \<Rightarrow> string \<Rightarrow> db \<Rightarrow> Summary" where
  "computeSummary rnd tenant caseTypeId stageKey d =
     summarize rnd (map (\<lambda>s. \<lparr>activeDays = activeTimeDays rnd (history_of tenant (cs_id s) d), smCompletedAt = the (cs_completedAt s)\<rparr>)
       (sampled_stages tenant caseTypeId stageKey d))"

definition summary_key :: "string \<Rightarrow> string option \<Rightarrow> string \<Rightarrow> StagePerformanceSummary \<Rightarrow> bool" where
  "summary_key tenant caseTypeId stageKey s \<longleftrightarrow> sp_tenantId s = tenant \<and> sp_caseTypeId s = caseTypeId \<and> sp_stageKey s = stageKey"

definition refreshOne :: "(rat \<Rightarrow> rat) \<Rightarrow> string \<Rightarrow> string option \<Rightarrow> string \<Rightarrow> db \<Rightarrow> db" where
  "refreshOne rnd tenant caseTypeId stageKey d =
     (let key = (if falsy caseTypeId then None else caseTypeId);
          new = \<lparr>sp_tenantId = tenant, sp_caseTypeId = key, sp_stageKey = stageKey, sp_summary = computeSummary rnd tenant key stageKey d\<rparr>;
          rows = summaries (planning d)
      in d\<lparr>planning := (planning d)\<lparr>summaries :=
           (if (\<exists>s \<in> set rows. summary_key tenant key stageKey s)
            then map (\<lambda>s. if summary_key tenant key stageKey s then s\<lparr>sp_summary := sp_summary new\<rparr> else s) rows
            else rows @ [new])\<rparr>\<rparr>)"

definition refreshSummaryInTx :: "(rat \<Rightarrow> rat) \<Rightarrow> string \<Rightarrow> string option \<Rightarrow> string \<Rightarrow> db \<Rightarrow> db" where
  "refreshSummaryInTx rnd tenant caseTypeId stageKey d =
     refreshOne rnd tenant None stageKey (if falsy caseTypeId then d else refreshOne rnd tenant caseTypeId stageKey d)"

definition loadOrCreateSummary :: "(rat \<Rightarrow> rat) \<Rightarrow> string \<Rightarrow> string option \<Rightarrow> string \<Rightarrow> db \<Rightarrow> StagePerformanceSummary option \<times> db" where
  "loadOrCreateSummary rnd tenant caseTypeId stageKey d =
     (case find_first (summary_key tenant caseTypeId stageKey) (summaries (planning d)) of
        Some s \<Rightarrow> (Some s, d)
      | None \<Rightarrow> let d1 = refreshOne rnd tenant caseTypeId stageKey d
                in (find_first (summary_key tenant caseTypeId stageKey) (summaries (planning d1)), d1))"

section \<open>Reading and creating a timeline\<close>

definition getTimeline :: "UserContext \<Rightarrow> string \<Rightarrow> db \<Rightarrow> app_error + CaseTimeline option \<times> CaseStage list" where
  "getTimeline ctx caseId d =
     res_bind (load_live_case ctx caseId d) (\<lambda>_.
     let timeline = timeline_of (tenantId ctx) caseId d
     in Inr (timeline, case timeline of None \<Rightarrow> [] | Some t \<Rightarrow> stages_of (tl_id t) d))"

definition stage_row :: "env \<Rightarrow> UserContext \<Rightarrow> string \<Rightarrow> nat \<Rightarrow> CaseStageTemplate \<Rightarrow> CaseStage" where
  "stage_row E ctx timelineId i tpl =
     \<lparr>cs_id = ev_uuid E (100 + i), cs_tenantId = tenantId ctx, cs_timelineId = timelineId, cs_templateId = Some (tp_id tpl),
      cs_key = tp_key tpl, cs_label = tp_label tpl, cs_sequence = int i, cs_status = SS_PENDING,
      cs_enforceRequiredOnComplete = tp_enforceRequiredOnComplete tpl, cs_startedAt = None, cs_completedAt = None,
      cs_durationValue = tp_durationValue tpl, cs_durationType = tp_durationType tpl,
      cs_externalWaiting = tp_externalWaiting tpl, cs_bufferDays = tp_bufferDays tpl,
      cs_dependsOnPrevious = tp_dependsOnPrevious tpl, cs_remainingDurationOverride = None,
      cs_plannedStart = None, cs_plannedFinish = None, cs_baselineStart = None, cs_baselineFinish = None,
      cs_latestStart = None, cs_latestFinish = None,
      cs_atRiskPercent = tp_atRiskPercent tpl, cs_warnDaysRemaining = tp_warnDaysRemaining tpl, cs_hardBlock = tp_hardBlock tpl,
      cs_slaState = None, cs_slaNotifiedForState = None, cs_hardBlockUnlockedAt = None, cs_hardBlockUnlockedBy = None,
      cs_hardBlockUnlockedReason = None\<rparr>"

definition new_timeline :: "env \<Rightarrow> UserContext \<Rightarrow> string \<Rightarrow> string \<Rightarrow> CaseTimeline" where
  "new_timeline E ctx caseId caseTypeId =
     \<lparr>tl_id = ev_uuid E 1, tl_tenantId = tenantId ctx, tl_caseId = caseId, tl_caseTypeId = caseTypeId, tl_status = TL_ACTIVE,
      tl_targetDate = None, tl_lastPlannedAt = None, tl_feasible = None, tl_deficitDays = None, tl_exceptionApproved = False,
      tl_exceptionReason = None, tl_exceptionApprovedBy = None, tl_exceptionApprovedAt = None\<rparr>"

text \<open>The rows of a new timeline and its stages.\<close>

definition timeline_rows :: "env \<Rightarrow> UserContext \<Rightarrow> string \<Rightarrow> string \<Rightarrow> CaseStageTemplate list \<Rightarrow> db \<Rightarrow> db" where
  "timeline_rows E ctx caseId caseTypeId templates d =
     (let timeline = new_timeline E ctx caseId caseTypeId
      in put_stages (stages (planning d) @ map (\<lambda>(i, tpl). stage_row E ctx (tl_id timeline) i tpl) (enumerate 0 templates))
           (put_timelines (timelines (planning d) @ [timeline]) d))"

definition createTimeline :: "env \<Rightarrow> UserContext \<Rightarrow> string \<Rightarrow> (CaseTimeline \<times> CaseStage list) tx" where
  "createTimeline E ctx caseId d =
     res_bind (load_live_case ctx caseId d) (\<lambda>docCase.
     res_bind (ensure (\<not> falsy (dc_caseTypeId docCase))
        (BusinessRuleViolationError ''This case has no case type; a timeline cannot be created.'')) (\<lambda>_.
     res_bind (loadType (tenantId ctx) (or_empty (dc_caseTypeId docCase)) d) (\<lambda>ctype.
     res_bind (ensure (ct_status ctype = CT_ACTIVE)
        (BusinessRuleViolationError ''The case type is not ACTIVE; a timeline cannot be created.'')) (\<lambda>_.
     res_bind (ensure (find_first (\<lambda>t. tl_caseId t = caseId) (timelines (planning d)) = None)
        (DuplicateResourceError ''This case already has a timeline.'')) (\<lambda>_.
     let templates = by_sequence tp_sequence tp_createdAt (templates_of (tenantId ctx) (ct_id ctype) d);
         timeline = new_timeline E ctx caseId (ct_id ctype)
     in res_bind (ensure (templates \<noteq> [])
          (BusinessRuleViolationError ''The case type has no stage templates; a timeline cannot be created.'')) (\<lambda>_.
        res_bind (recomputeReadiness (tl_id timeline) (timeline_rows E ctx caseId (ct_id ctype) templates d)) (\<lambda>d1.
        res_bind (audit_tx E 2 (auditRow ctx ''CASE_TIMELINE_CREATED'' ''CaseTimeline'' (tl_id timeline)
           [(''caseId'', JStr caseId), (''caseTypeId'', JStr (ct_id ctype)), (''stageCount'', jint (int (length templates)))] JUndefined) d1) (\<lambda>d2.
        Inr ((timeline, stages_of (tl_id timeline) d2), d2)))))))))"

section \<open>Actions on a stage\<close>

definition loadStage :: "string \<Rightarrow> string \<Rightarrow> string \<Rightarrow> db \<Rightarrow> app_error + CaseStage" where
  "loadStage tenant caseId stageId d =
     or_throw (find_first (\<lambda>s. cs_id s = stageId \<and> cs_tenantId s = tenant
        \<and> (\<exists>t \<in> set (timelines (planning d)). tl_id t = cs_timelineId s \<and> tl_caseId t = caseId)) (stages (planning d)))
       ResourceNotFoundError"

definition stage_event ::
  "env \<Rightarrow> nat \<Rightarrow> string \<Rightarrow> string \<Rightarrow> string \<Rightarrow> string \<Rightarrow> CaseStageStatus \<Rightarrow> CaseStageStatus \<Rightarrow> string option \<Rightarrow> string option \<Rightarrow> db \<Rightarrow> db" where
  "stage_event E k tenant caseId stageId eventType from to actor note d =
     d\<lparr>planning := (planning d)\<lparr>stageEvents := stageEvents (planning d) @
        [\<lparr>se_id = ev_uuid E k, se_tenantId = tenant, se_caseId = caseId, se_stageId = stageId, se_eventType = eventType,
          se_fromStatus = Some from, se_toStatus = Some to, se_actorUserId = actor, se_note = note, se_createdAt = ev_clock E k\<rparr>]\<rparr>\<rparr>"

definition writeTransition ::
  "env \<Rightarrow> UserContext \<Rightarrow> string \<Rightarrow> CaseStage \<Rightarrow> CaseStageStatus \<Rightarrow> CaseStageStatus \<Rightarrow> string \<Rightarrow> string option \<Rightarrow> unit plan_tx" where
  "writeTransition E ctx caseId stage from to event note d =
     run_bind (lift (recomputeReadiness (cs_timelineId stage)
        (stage_event E 5 (tenantId ctx) caseId (cs_id stage) event from to (Some (userId ctx)) note d))) (\<lambda>d2.
     run_bind (lift (syncTimelineStatus (cs_timelineId stage) d2)) (\<lambda>d3.
     run_bind (recalcInTx (tenantId ctx) caseId (ev_clock E 6) d3) (\<lambda>(_, d4).
     run_bind (lift (audit_tx E 2 (auditRow ctx (''CASE_STAGE_'' @ event) ''CaseStage'' (cs_id stage)
        [(''caseId'', JStr caseId), (''toStatus'', JStr (stage_status_name to))]
        (JObj [(''status'', JStr (stage_status_name from))])) d4)) (\<lambda>d5.
     run_return ((), d5)))))"

text \<open>Every action writes the row of the stage and then its transition.\<close>

definition stage_write ::
  "env \<Rightarrow> UserContext \<Rightarrow> string \<Rightarrow> CaseStage \<Rightarrow> (CaseStage \<Rightarrow> CaseStage) \<Rightarrow> CaseStageStatus \<Rightarrow> string \<Rightarrow> string option \<Rightarrow> CaseStage plan_tx" where
  "stage_write E ctx caseId stage f to event note d =
     run_bind (lift (update_stage (cs_id stage) f d)) (\<lambda>(updated, d1).
     run_bind (writeTransition E ctx caseId stage (cs_status stage) to event note d1) (\<lambda>(_, d2).
     run_return (updated, d2)))"

definition startStage :: "env \<Rightarrow> UserContext \<Rightarrow> string \<Rightarrow> string \<Rightarrow> CaseStage plan_tx" where
  "startStage E ctx caseId stageId d =
     run_bind (lift (loadStage (tenantId ctx) caseId stageId d)) (\<lambda>stage.
     run_bind (lift (ensure (cs_status stage = SS_READY) (BusinessRuleViolationError ''Only a READY stage can be started.''))) (\<lambda>_.
     stage_write E ctx caseId stage (\<lambda>s. s\<lparr>cs_status := SS_IN_PROGRESS, cs_startedAt := Some (ev_clock E 1)\<rparr>)
       SS_IN_PROGRESS ''STARTED'' None d))"

definition has_text :: "string option \<Rightarrow> bool" where
  "has_text v \<longleftrightarrow> (case v of None \<Rightarrow> False | Some s \<Rightarrow> trim s \<noteq> [])"

definition completion_note :: "js_engine \<Rightarrow> UserContext \<Rightarrow> string \<Rightarrow> CaseStage \<Rightarrow> bool \<Rightarrow> string option \<Rightarrow> db \<Rightarrow> app_error + string option" where
  "completion_note J ctx caseId stage override why d =
     (if \<not> cs_enforceRequiredOnComplete stage then Inr None
      else res_bind (validateValues J ctx caseId d) (\<lambda>v.
        if vr_valid v then Inr None
        else res_bind (ensure override (BusinessRuleViolationError (''Required fields are not satisfied ('' @ nat_str (length (vr_missing v))
               @ ''); override required to complete.''))) (\<lambda>_.
             res_bind (ensure (has_text why) (ValidationError ''A reason is required to override required-field enforcement.'')) (\<lambda>_.
             Inr (Some (''OVERRIDE: '' @ trim (or_empty why)))))))"

definition final_sla :: "CaseStage \<Rightarrow> date \<Rightarrow> CaseStageSlaState option" where
  "final_sla stage completedAt =
     (case cs_plannedFinish stage of None \<Rightarrow> None
      | Some f \<Rightarrow> Some (if dateOnly completedAt \<le> f then SLA_COMPLETED_ON_TIME else SLA_COMPLETED_LATE))"

definition completeStage ::
  "js_engine \<Rightarrow> (rat \<Rightarrow> rat) \<Rightarrow> env \<Rightarrow> UserContext \<Rightarrow> string \<Rightarrow> string \<Rightarrow> bool \<Rightarrow> string option \<Rightarrow> CaseStage plan_tx" where
  "completeStage J rnd E ctx caseId stageId override why d =
     run_bind (lift (loadStage (tenantId ctx) caseId stageId d)) (\<lambda>stage.
     run_bind (lift (ensure (cs_status stage = SS_IN_PROGRESS) (BusinessRuleViolationError ''Only an IN_PROGRESS stage can be completed.''))) (\<lambda>_.
     run_bind (lift (completion_note J ctx caseId stage override why d)) (\<lambda>note.
     run_bind (stage_write E ctx caseId stage
        (\<lambda>s. s\<lparr>cs_status := SS_COMPLETED, cs_completedAt := Some (ev_clock E 1), cs_slaState := final_sla stage (ev_clock E 1)\<rparr>)
        SS_COMPLETED ''COMPLETED'' note d) (\<lambda>(updated, d1).
     run_return (updated, refreshSummaryInTx rnd (tenantId ctx)
        (map_option tl_caseTypeId (find_first (\<lambda>t. tl_id t = cs_timelineId stage \<and> tl_tenantId t = tenantId ctx) (timelines (planning d1))))
        (cs_key stage) d1)))))"

text \<open>The unlock does not recalculate, so it is a plain transaction.\<close>

definition unlock_write :: "env \<Rightarrow> UserContext \<Rightarrow> string \<Rightarrow> CaseStage \<Rightarrow> string \<Rightarrow> CaseStage tx" where
  "unlock_write E ctx caseId stage note d =
     (let to = (if cs_startedAt stage \<noteq> None then SS_IN_PROGRESS else SS_READY)
      in res_bind (update_stage (cs_id stage) (\<lambda>s. s\<lparr>cs_status := to, cs_hardBlockUnlockedAt := Some (ev_clock E 1),
           cs_hardBlockUnlockedBy := Some (userId ctx), cs_hardBlockUnlockedReason := Some note\<rparr>) d) (\<lambda>(_, d1).
        res_bind (recomputeReadiness (cs_timelineId stage) d1) (\<lambda>d2.
        res_bind (syncTimelineStatus (cs_timelineId stage) d2) (\<lambda>d3.
        res_bind (or_throw (find_first (\<lambda>s. cs_id s = cs_id stage) (stages (planning d3))) (Thrown ''P2025'')) (\<lambda>final.
        res_bind (audit_tx E 2 (auditRow ctx ''CASE_STAGE_UNBLOCKED'' ''CaseStage'' (cs_id stage)
           [(''caseId'', JStr caseId), (''toStatus'', JStr (stage_status_name (cs_status final))), (''reason'', JStr note)]
           (JObj [(''status'', JStr (stage_status_name SS_BLOCKED))]))
           (stage_event E 5 (tenantId ctx) caseId (cs_id stage) ''UNBLOCKED'' SS_BLOCKED (cs_status final) (Some (userId ctx)) (Some note) d3)) (\<lambda>d4.
        Inr (final, d4)))))))"

definition unlockStage :: "env \<Rightarrow> UserContext \<Rightarrow> string \<Rightarrow> string \<Rightarrow> string option \<Rightarrow> CaseStage tx" where
  "unlockStage E ctx caseId stageId why d =
     res_bind (ensure (has_text why) (BusinessRuleViolationError ''A reason is required to unlock a stage.'')) (\<lambda>_.
     res_bind (loadStage (tenantId ctx) caseId stageId d) (\<lambda>stage.
     res_bind (ensure (cs_status stage = SS_BLOCKED) (BusinessRuleViolationError ''Stage is not blocked.'')) (\<lambda>_.
     unlock_write E ctx caseId stage (trim (or_empty why)) d)))"

definition SKIPPABLE :: "CaseStageStatus list" where
  "SKIPPABLE = [SS_PENDING, SS_READY, SS_IN_PROGRESS, SS_WAITING_EXTERNAL]"

definition skipStage :: "env \<Rightarrow> UserContext \<Rightarrow> string \<Rightarrow> string \<Rightarrow> string option \<Rightarrow> CaseStage plan_tx" where
  "skipStage E ctx caseId stageId why d =
     run_bind (lift (ensure (has_text why) (ValidationError ''A reason is required to skip a stage.''))) (\<lambda>_.
     run_bind (lift (loadStage (tenantId ctx) caseId stageId d)) (\<lambda>stage.
     run_bind (lift (ensure (cs_status stage \<in> set SKIPPABLE)
        (BusinessRuleViolationError (''A '' @ stage_status_name (cs_status stage) @ '' stage cannot be skipped.'')))) (\<lambda>_.
     stage_write E ctx caseId stage (\<lambda>s. s\<lparr>cs_status := SS_SKIPPED\<rparr>) SS_SKIPPED ''SKIPPED'' (Some (trim (or_empty why))) d)))"

definition reopenStage :: "env \<Rightarrow> UserContext \<Rightarrow> string \<Rightarrow> string \<Rightarrow> CaseStage plan_tx" where
  "reopenStage E ctx caseId stageId d =
     run_bind (lift (loadStage (tenantId ctx) caseId stageId d)) (\<lambda>stage.
     if cs_status stage = SS_COMPLETED
     then stage_write E ctx caseId stage (\<lambda>s. s\<lparr>cs_status := SS_IN_PROGRESS, cs_completedAt := None\<rparr>) SS_IN_PROGRESS ''REOPENED'' None d
     else if cs_status stage = SS_SKIPPED
     then stage_write E ctx caseId stage (\<lambda>s. s\<lparr>cs_status := SS_READY\<rparr>) SS_READY ''REOPENED'' None d
     else lift (Inl (BusinessRuleViolationError ''Only a COMPLETED or SKIPPED stage can be reopened.'')))"

definition pauseStage :: "env \<Rightarrow> UserContext \<Rightarrow> string \<Rightarrow> string \<Rightarrow> CaseStage plan_tx" where
  "pauseStage E ctx caseId stageId d =
     run_bind (lift (loadStage (tenantId ctx) caseId stageId d)) (\<lambda>stage.
     run_bind (lift (ensure (cs_status stage = SS_IN_PROGRESS) (BusinessRuleViolationError ''Only an IN_PROGRESS stage can be paused.''))) (\<lambda>_.
     stage_write E ctx caseId stage (\<lambda>s. s\<lparr>cs_status := SS_WAITING_EXTERNAL\<rparr>) SS_WAITING_EXTERNAL ''PAUSED'' None d))"

definition resumeStage :: "env \<Rightarrow> UserContext \<Rightarrow> string \<Rightarrow> string \<Rightarrow> CaseStage plan_tx" where
  "resumeStage E ctx caseId stageId d =
     run_bind (lift (loadStage (tenantId ctx) caseId stageId d)) (\<lambda>stage.
     run_bind (lift (ensure (cs_status stage = SS_WAITING_EXTERNAL) (BusinessRuleViolationError ''Only a WAITING_EXTERNAL stage can be resumed.''))) (\<lambda>_.
     stage_write E ctx caseId stage (\<lambda>s. s\<lparr>cs_status := SS_IN_PROGRESS\<rparr>) SS_IN_PROGRESS ''RESUMED'' None d))"

section \<open>Planning\<close>

definition find_timeline :: "UserContext \<Rightarrow> string \<Rightarrow> db \<Rightarrow> app_error + CaseTimeline" where
  "find_timeline ctx caseId d = or_throw (timeline_of (tenantId ctx) caseId d) ResourceNotFoundError"

definition retarget :: "date option \<Rightarrow> CaseTimeline \<Rightarrow> CaseTimeline \<Rightarrow> CaseTimeline" where
  "retarget target old t =
     (if tl_targetDate old \<noteq> target
      then t\<lparr>tl_targetDate := target, tl_exceptionApproved := False, tl_exceptionReason := None,
             tl_exceptionApprovedBy := None, tl_exceptionApprovedAt := None\<rparr>
      else t\<lparr>tl_targetDate := target\<rparr>)"

definition parse_target :: "jsval \<Rightarrow> app_error + date option" where
  "parse_target targetDate =
     (case targetDate of JNull \<Rightarrow> Inr None
      | JStr s \<Rightarrow> res_bind (parseDateOnly (JStr s)) (\<lambda>t. Inr (Some t))
      | _ \<Rightarrow> Inl (ValidationError ''targetDate must be a YYYY-MM-DD string or null.''))"

definition setTarget :: "env \<Rightarrow> UserContext \<Rightarrow> string \<Rightarrow> jsval \<Rightarrow> RecalcResponse plan_tx" where
  "setTarget E ctx caseId targetDate d =
     run_bind (lift (parse_target targetDate)) (\<lambda>parsed.
     run_bind (lift (load_live_case ctx caseId d)) (\<lambda>_.
     run_bind (lift (find_timeline ctx caseId d)) (\<lambda>timeline.
     run_bind (lift (update_timeline (tl_id timeline) (retarget parsed timeline) d)) (\<lambda>(_, d1).
     run_bind (recalcInTx (tenantId ctx) caseId (ev_clock E 6) d1) (\<lambda>(result, d2).
     run_bind (lift (audit_tx E 2 (auditRow ctx (if parsed \<noteq> None then ''CASE_TIMELINE_TARGET_SET'' else ''CASE_TIMELINE_TARGET_CLEARED'')
        ''CaseTimeline'' (tl_id timeline) [(''caseId'', JStr caseId), (''targetDate'', jopt (map_option toKey parsed))] JUndefined) d2)) (\<lambda>d3.
     run_return (result, d3)))))))"

definition recalc :: "env \<Rightarrow> UserContext \<Rightarrow> string \<Rightarrow> RecalcResponse plan_tx" where
  "recalc E ctx caseId d =
     run_bind (lift (load_live_case ctx caseId d)) (\<lambda>_.
     run_bind (lift (find_timeline ctx caseId d)) (\<lambda>timeline.
     run_bind (recalcInTx (tenantId ctx) caseId (ev_clock E 6) d) (\<lambda>(result, d1).
     run_bind (lift (audit_tx E 2 (auditRow ctx ''CASE_TIMELINE_RECALCULATED'' ''CaseTimeline'' (tl_id timeline) [(''caseId'', JStr caseId)] JUndefined) d1)) (\<lambda>d2.
     run_return (result, d2)))))"

definition approveException :: "env \<Rightarrow> UserContext \<Rightarrow> string \<Rightarrow> string option \<Rightarrow> CaseTimeline tx" where
  "approveException E ctx caseId why d =
     res_bind (ensure (has_text why) (BusinessRuleViolationError ''A reason is required to approve an exception.'')) (\<lambda>_.
     res_bind (load_live_case ctx caseId d) (\<lambda>_.
     res_bind (find_timeline ctx caseId d) (\<lambda>timeline.
     res_bind (ensure (tl_feasible timeline = Some False)
        (BusinessRuleViolationError ''No exception needed: the timeline is not infeasible.'')) (\<lambda>_.
     res_bind (update_timeline (tl_id timeline) (\<lambda>t. t\<lparr>tl_exceptionApproved := True, tl_exceptionReason := Some (trim (or_empty why)),
        tl_exceptionApprovedBy := Some (userId ctx), tl_exceptionApprovedAt := Some (ev_clock E 1)\<rparr>) d) (\<lambda>(updated, d1).
     res_bind (audit_tx E 2 (auditRow ctx ''CASE_TIMELINE_EXCEPTION_APPROVED'' ''CaseTimeline'' (tl_id timeline)
        [(''caseId'', JStr caseId), (''reason'', JStr (trim (or_empty why)))] JUndefined) d1) (\<lambda>d2.
     Inr (updated, d2)))))))"

definition overrideDuration :: "env \<Rightarrow> UserContext \<Rightarrow> string \<Rightarrow> string \<Rightarrow> jsval \<Rightarrow> string option \<Rightarrow> RecalcResponse plan_tx" where
  "overrideDuration E ctx caseId stageId rd why d =
     run_bind (lift (or_throw (case int_of_js rd of Some n \<Rightarrow> if 0 \<le> n then Some n else None | None \<Rightarrow> None)
        (ValidationError ''remainingDuration must be a non-negative integer.''))) (\<lambda>n.
     run_bind (lift (ensure (has_text why) (BusinessRuleViolationError ''A reason is required to override a stage duration.''))) (\<lambda>_.
     run_bind (lift (loadStage (tenantId ctx) caseId stageId d)) (\<lambda>stage.
     run_bind (lift (ensure (cs_status stage \<in> {SS_READY, SS_IN_PROGRESS, SS_WAITING_EXTERNAL}) (BusinessRuleViolationError
        ''Only a READY, IN_PROGRESS, or WAITING_EXTERNAL stage can have its duration overridden.''))) (\<lambda>_.
     run_bind (lift (update_stage (cs_id stage) (\<lambda>s. s\<lparr>cs_remainingDurationOverride := Some n\<rparr>) d)) (\<lambda>(_, d1).
     run_bind (recalcInTx (tenantId ctx) caseId (ev_clock E 6)
        (stage_event E 5 (tenantId ctx) caseId (cs_id stage) ''DURATION_OVERRIDDEN'' (cs_status stage) (cs_status stage) (Some (userId ctx))
           (Some (''OVERRIDE '' @ int_str n @ '': '' @ trim (or_empty why))) d1)) (\<lambda>(result, d2).
     run_bind (lift (audit_tx E 2 (auditRow ctx ''CASE_STAGE_DURATION_OVERRIDDEN'' ''CaseStage'' (cs_id stage)
        [(''caseId'', JStr caseId), (''stageId'', JStr stageId), (''remainingDuration'', jint n), (''reason'', JStr (trim (or_empty why)))] JUndefined) d2)) (\<lambda>d3.
     run_return (result, d3))))))))"

definition listStageEvents :: "UserContext \<Rightarrow> string \<Rightarrow> string \<Rightarrow> db \<Rightarrow> app_error + CaseStageEvent list" where
  "listStageEvents ctx caseId stageId d =
     res_bind (loadStage (tenantId ctx) caseId stageId d) (\<lambda>_.
     Inr (sort_key (\<lambda>e. - se_createdAt e) (filter (\<lambda>e. se_tenantId e = tenantId ctx \<and> se_stageId e = stageId) (stageEvents (planning d)))))"

end
