(* ===== verification/Notification_Service.thy ===== *)
theory Notification_Service
  imports Db "HOL-Library.Multiset"
begin

text \<open>
  \<^verbatim>\<open>src/src/services/notification.service.ts\<close>: the in-app notifications of a user. The table is kept
  beside the other tables because its rows are written on a connection of their own, outside the
  transactions of the callers.
\<close>

section \<open>Rows\<close>

record CreateNotificationInput =
  nt_tenantId :: string
  nt_recipientUserId :: string
  nt_type :: string
  nt_title :: string
  nt_message :: string
  nt_actionUrl :: string

record Notification = CreateNotificationInput +
  nt_id :: string
  nt_readAt :: "date option"
  nt_createdAt :: date

definition notification_row :: "env \<Rightarrow> nat \<Rightarrow> CreateNotificationInput \<Rightarrow> Notification" where
  "notification_row E k inp =
     CreateNotificationInput.extend inp \<lparr>nt_id = ev_uuid E k, nt_readAt = None, nt_createdAt = ev_clock E k\<rparr>"

definition create :: "env \<Rightarrow> nat \<Rightarrow> CreateNotificationInput \<Rightarrow> Notification list \<Rightarrow> Notification list" where
  "create E k inp ns = ns @ [notification_row E k inp]"

definition createMany :: "env \<Rightarrow> nat \<Rightarrow> CreateNotificationInput list \<Rightarrow> Notification list \<Rightarrow> Notification list" where
  "createMany E k inputs ns = ns @ map (\<lambda>(i, inp). notification_row E (k + i) inp) (enumerate 0 inputs)"

section \<open>Reading\<close>

definition owned :: "string \<Rightarrow> string \<Rightarrow> Notification \<Rightarrow> bool" where
  "owned tenant user n \<longleftrightarrow> nt_tenantId n = tenant \<and> nt_recipientUserId n = user"

text \<open>
  The newest first. The query names no second column: rows of one instant come in the order in which
  the database scans the table for this query, which \<open>scan\<close> stands for.
\<close>

definition inbox :: "(Notification list \<Rightarrow> Notification list) \<Rightarrow> string \<Rightarrow> string \<Rightarrow> Notification list \<Rightarrow> Notification list" where
  "inbox scan tenant user ns = sort_key (\<lambda>n. - nt_createdAt n) (filter (owned tenant user) (scan ns))"

text \<open>
  A page. A cursor names the last row of the page before; a cursor outside the rows of the user
  gives an empty page. The limit is what the router parsed: it may be absent, no number, or any
  integer. A negative number of rows asks the database client for the rows before the cursor,
  counted from their end; no number at all is refused by it.
\<close>

datatype Limit = Absent | NotANumber | Rows int

record NotificationPage =
  np_notifications :: "Notification list"
  np_hasMore :: bool
  np_nextCursor :: "string option"

definition after_cursor :: "string option \<Rightarrow> Notification list \<Rightarrow> Notification list" where
  "after_cursor cursor ns =
     (case cursor of None \<Rightarrow> ns | Some [] \<Rightarrow> ns | Some c \<Rightarrow> drop 1 (dropWhile (\<lambda>n. nt_id n \<noteq> c) ns))"

definition before_cursor :: "string option \<Rightarrow> Notification list \<Rightarrow> Notification list" where
  "before_cursor cursor ns =
     (case cursor of None \<Rightarrow> ns | Some [] \<Rightarrow> ns
      | Some c \<Rightarrow> if c \<in> nt_id ` set ns then takeWhile (\<lambda>n. nt_id n \<noteq> c) ns else [])"

definition find_rows :: "int \<Rightarrow> string option \<Rightarrow> Notification list \<Rightarrow> Notification list" where
  "find_rows n cursor ns =
     (if 0 \<le> n then take (nat n) (after_cursor cursor ns)
      else let before = before_cursor cursor ns in drop (length before - nat (- n)) before)"

definition page_limit :: "Limit \<Rightarrow> int option" where
  "page_limit l = (case l of Absent \<Rightarrow> Some 20 | NotANumber \<Rightarrow> None | Rows n \<Rightarrow> Some (min n 50))"

definition list_page :: "(Notification list \<Rightarrow> Notification list) \<Rightarrow> string \<Rightarrow> string \<Rightarrow> string option \<Rightarrow> Limit \<Rightarrow> Notification list
    \<Rightarrow> app_error + NotificationPage" where
  "list_page scan tenant user cursor l ns =
     (case page_limit l of
        None \<Rightarrow> Inl (Thrown ''Invalid value for argument `take`'')
      | Some limit \<Rightarrow>
          let found = find_rows (limit + 1) cursor (inbox scan tenant user ns);
              more = (limit < int (length found));
              rows = (if more then butlast found else found)
          in Inr \<lparr>np_notifications = rows, np_hasMore = more,
              np_nextCursor = (if more \<and> rows \<noteq> [] then Some (nt_id (last rows)) else None)\<rparr>)"

definition unreadCount :: "string \<Rightarrow> string \<Rightarrow> Notification list \<Rightarrow> nat" where
  "unreadCount tenant user ns = count_rows (\<lambda>n. owned tenant user n \<and> nt_readAt n = None) ns"

section \<open>Marking\<close>

definition markRead :: "date \<Rightarrow> string \<Rightarrow> string \<Rightarrow> string \<Rightarrow> Notification list \<Rightarrow> Notification list \<times> nat" where
  "markRead now tenant user i ns =
     update_many (\<lambda>n. nt_id n = i \<and> owned tenant user n \<and> nt_readAt n = None) (\<lambda>n. n\<lparr>nt_readAt := Some now\<rparr>) ns"

definition markAllRead :: "date \<Rightarrow> string \<Rightarrow> string \<Rightarrow> Notification list \<Rightarrow> Notification list \<times> nat" where
  "markAllRead now tenant user ns =
     update_many (\<lambda>n. owned tenant user n \<and> nt_readAt n = None) (\<lambda>n. n\<lparr>nt_readAt := Some now\<rparr>) ns"

section \<open>Paging\<close>

text \<open>
  A client that follows the cursors: \<open>read_all\<close> asks for a page, then for the page after it until
  there is no more. The fuel is the number of requests; the number of rows is enough. Each request
  has a scan of its own.
\<close>

fun read_all :: "(nat \<Rightarrow> Notification list \<Rightarrow> Notification list) \<Rightarrow> nat \<Rightarrow> string \<Rightarrow> string \<Rightarrow> Limit \<Rightarrow> string option \<Rightarrow> Notification list
    \<Rightarrow> Notification list option" where
  "read_all scans 0 tenant user l cursor ns = None"
| "read_all scans (Suc fuel) tenant user l cursor ns =
     (case list_page (scans fuel) tenant user cursor l ns of
        Inl e \<Rightarrow> None
      | Inr p \<Rightarrow>
          if np_hasMore p
          then map_option (append (np_notifications p)) (read_all scans fuel tenant user l (np_nextCursor p) ns)
          else Some (np_notifications p))"

lemma dropWhile_id:
  assumes "distinct (map nt_id (xs @ n # ys))"
  shows "dropWhile (\<lambda>m. nt_id m \<noteq> nt_id n) (xs @ n # ys) = n # ys"
  using assms by (induction xs) auto

text \<open>The cursor of a page leads to the rows after it.\<close>

lemma after_cursor_last:
  assumes "distinct (map nt_id (xs @ ys))" "xs \<noteq> []" "nt_id (last xs) \<noteq> []"
  shows "after_cursor (Some (nt_id (last xs))) (xs @ ys) = ys"
proof -
  obtain zs n where xs: "xs = zs @ [n]" using assms(2) by (cases xs rule: rev_exhaust) auto
  have "dropWhile (\<lambda>m. nt_id m \<noteq> nt_id n) (zs @ n # ys) = n # ys"
    using assms(1) unfolding xs by (intro dropWhile_id) simp
  moreover have "nt_id n \<noteq> []" using assms(3) by (simp add: xs)
  ultimately show ?thesis by (cases "nt_id n") (simp_all add: after_cursor_def xs)
qed

lemma page_split:
  assumes "after_cursor cursor (inbox scan tenant user ns) = rest" "page_limit l = Some (int limit)"
  shows "list_page scan tenant user cursor l ns = Inr
     \<lparr>np_notifications = take limit rest, np_hasMore = limit < length rest,
      np_nextCursor = (if limit < length rest \<and> limit \<noteq> 0 then Some (nt_id (last (take limit rest))) else None)\<rparr>"
proof -
  have "find_rows (int limit + 1) cursor (inbox scan tenant user ns) = take (limit + 1) rest"
    using assms(1) by (simp add: find_rows_def nat_add_distrib)
  moreover have "butlast (take (limit + 1) rest) = take limit rest" if "limit < length rest" using that by (simp add: butlast_take)
  ultimately show ?thesis unfolding list_page_def assms(2) by (auto simp: Let_def)
qed

lemma inbox_ids:
  assumes "mset (scan ns) = mset ns" "distinct (map nt_id ns)"
  shows "distinct (map nt_id (inbox scan tenant user ns))"
proof -
  have "distinct (map nt_id (scan ns))" using assms by (metis mset_map mset_eq_imp_distinct_iff)
  then show ?thesis unfolding inbox_def by (auto simp: distinct_map intro: inj_on_subset)
qed

text \<open>When no two rows of the user have one instant, every scan gives the same order.\<close>

lemma inbox_scan:
  assumes "mset (scan ns) = mset ns" "inj_on nt_createdAt (set (filter (owned tenant user) ns))"
  shows "inbox scan tenant user ns = inbox id tenant user ns"
  unfolding inbox_def id_apply
proof (rule sort_key_inj_key_eq)
  have m: "mset (filter (owned tenant user) (scan ns)) = mset (filter (owned tenant user) ns)" by (simp add: assms(1) mset_filter)
  show "mset (filter (owned tenant user) (scan ns)) = mset (sort_key (\<lambda>n. - nt_createdAt n) (filter (owned tenant user) ns))"
    unfolding mset_sort by (rule m)
  show "inj_on (\<lambda>n. - nt_createdAt n) (set (filter (owned tenant user) (scan ns)))"
    using assms(2) unfolding mset_eq_setD [OF m] by (simp add: inj_on_def)
qed simp

lemma read_all_rest:
  assumes "distinct (map nt_id ns)" "\<forall>n \<in> set ns. nt_id n \<noteq> []" "\<forall>n. l = Rows n \<longrightarrow> 0 < n" "l \<noteq> NotANumber"
    and "\<And>k. mset (scans k ns) = mset ns" "inj_on nt_createdAt (set (filter (owned tenant user) ns))"
    and "inbox id tenant user ns = xs @ rest" "after_cursor cursor (xs @ rest) = rest" "length rest < fuel"
  shows "read_all scans fuel tenant user l cursor ns = Some rest"
  using assms(7-9)
proof (induction fuel arbitrary: xs rest cursor)
  case 0
  then show ?case by simp
next
  case (Suc fuel)
  obtain limit where limit: "page_limit l = Some (int limit)" and pos: "limit \<noteq> 0"
  proof (cases l)
    case (Rows n)
    then show ?thesis using assms(3) that [of "nat (min n 50)"] by (simp add: page_limit_def)
  qed (use assms(4) that [of 20] in \<open>simp_all add: page_limit_def\<close>)
  have box: "inbox (scans fuel) tenant user ns = xs @ rest" using inbox_scan [of "scans fuel" ns tenant user, OF assms(5,6)] Suc.prems(1) by (simp only: id_def)
  have page: "list_page (scans fuel) tenant user cursor l ns = Inr
     \<lparr>np_notifications = take limit rest, np_hasMore = limit < length rest,
      np_nextCursor = (if limit < length rest \<and> limit \<noteq> 0 then Some (nt_id (last (take limit rest))) else None)\<rparr>"
    by (rule page_split [OF _ limit]) (simp add: box Suc.prems(2))
  show ?case
  proof (cases "limit < length rest")
    case False
    then show ?thesis by (simp add: page)
  next
    case True
    let ?taken = "take limit rest"
    have ne: "?taken \<noteq> []" using True pos by auto
    have "set rest \<subseteq> set ns" using arg_cong [OF Suc.prems(1), of set] by (auto simp: inbox_def)
    then have "last ?taken \<in> set ns" using last_in_set [OF ne] by (auto dest: in_set_takeD)
    then have id: "nt_id (last (xs @ ?taken)) \<noteq> []" using assms(2) ne by simp
    have split: "inbox id tenant user ns = (xs @ ?taken) @ drop limit rest"
      unfolding append_assoc append_take_drop_id by (rule Suc.prems(1))
    have "distinct (map nt_id ((xs @ ?taken) @ drop limit rest))"
      using inbox_ids [OF _ assms(1), of id tenant user] unfolding split by simp
    from after_cursor_last [OF this _ id] ne
    have cur: "after_cursor (Some (nt_id (last ?taken))) ((xs @ ?taken) @ drop limit rest) = drop limit rest" by simp
    have "read_all scans fuel tenant user l (Some (nt_id (last ?taken))) ns = Some (drop limit rest)"
      by (rule Suc.IH [OF split cur]) (use True pos Suc.prems(3) in simp)
    then show ?thesis using True pos by (simp add: page)
  qed
qed

text \<open>C37: As long as the table stays as it is and no two notifications of the user have one instant,
following the cursors of the pages gives every notification of the user exactly once, the newest
first, whatever the positive size of the page and in whatever order each query scans the table, and
ends. With two rows of one instant it need not: see \<open>tie_lost\<close>.\<close>

theorem pages_cover_inbox:
  assumes "distinct (map nt_id ns)" "\<forall>n \<in> set ns. nt_id n \<noteq> []" "\<forall>n. l = Rows n \<longrightarrow> 0 < n" "l \<noteq> NotANumber"
    and "\<forall>k. mset (scans k ns) = mset ns" "inj_on nt_createdAt (set (filter (owned tenant user) ns))"
  shows "\<exists>box. read_all scans (length ns + 1) tenant user l None ns = Some box
     \<and> mset box = mset (filter (owned tenant user) ns) \<and> sorted_wrt (\<lambda>m n. nt_createdAt m > nt_createdAt n) box"
proof (intro exI conjI)
  have box: "sorted (map (\<lambda>n. - nt_createdAt n) (inbox id tenant user ns))" by (simp add: inbox_def)
  show "mset (inbox id tenant user ns) = mset (filter (owned tenant user) ns)" by (simp add: inbox_def)
  show "read_all scans (length ns + 1) tenant user l None ns = Some (inbox id tenant user ns)"
  proof (rule read_all_rest [OF assms(1-4) _ assms(6), of _ "[]"])
    show "mset (scans k ns) = mset ns" for k using assms(5) by simp
    show "after_cursor None ([] @ inbox id tenant user ns) = inbox id tenant user ns" by (simp add: after_cursor_def)
    show "length (inbox id tenant user ns) < length ns + 1" by (simp add: inbox_def less_Suc_eq_le)
  qed simp
  have "inj_on (\<lambda>n. - nt_createdAt n) (set (inbox id tenant user ns))"
    using assms(6) by (simp add: inbox_def inj_on_def)
  moreover have "distinct (inbox id tenant user ns)"
    using inbox_ids [OF _ assms(1), of id tenant user] by (simp add: distinct_map)
  ultimately have "distinct (map (\<lambda>n. - nt_createdAt n) (inbox id tenant user ns))" by (simp add: distinct_map)
  then have "sorted_wrt (<) (map (\<lambda>n. - nt_createdAt n) (inbox id tenant user ns))"
    using box by (simp add: strict_sorted_iff)
  then show "sorted_wrt (\<lambda>m n. nt_createdAt m > nt_createdAt n) (inbox id tenant user ns)" by (simp add: sorted_wrt_map)
qed

definition note_one :: "string \<Rightarrow> date \<Rightarrow> Notification" where
  "note_one i now = \<lparr>nt_tenantId = ''t1'', nt_recipientUserId = ''u1'', nt_type = ''CASE_STAGE_AT_RISK'', nt_title = ''a'',
     nt_message = ''b'', nt_actionUrl = ''/'', nt_id = i, nt_readAt = None, nt_createdAt = now\<rparr>"

definition three_notes :: "Notification list" where
  "three_notes = [note_one ''a'' 1, note_one ''b'' 3, note_one ''c'' 2]"

lemma pages_cover_inbox_witness:
  "\<exists>box. read_all (\<lambda>k. if k = 3 then rev else id) (length three_notes + 1) ''t1'' ''u1'' (Rows 2) None three_notes = Some box
     \<and> length box = 3"
proof -
  have "\<exists>box. read_all (\<lambda>k. if k = 3 then rev else id) (length three_notes + 1) ''t1'' ''u1'' (Rows 2) None three_notes = Some box
     \<and> mset box = mset (filter (owned ''t1'' ''u1'') three_notes) \<and> sorted_wrt (\<lambda>m n. nt_createdAt m > nt_createdAt n) box"
    by (rule pages_cover_inbox) (simp_all add: three_notes_def note_one_def owned_def)
  then obtain box where r: "read_all (\<lambda>k. if k = 3 then rev else id) (length three_notes + 1) ''t1'' ''u1'' (Rows 2) None three_notes = Some box"
    and m: "mset box = mset (filter (owned ''t1'' ''u1'') three_notes)" by blast
  have "length box = length (filter (owned ''t1'' ''u1'') three_notes)" by (rule mset_eq_length [OF m])
  also have "\<dots> = 3" by (simp add: three_notes_def note_one_def owned_def)
  finally show ?thesis using r by blast
qed

text \<open>
  Two rows of one instant: when the second query scans them in the other order, one row never comes.
\<close>

lemma tie_lost:
  "map_option (map nt_id) (read_all (\<lambda>k. if k = 2 then id else rev) 3 ''t1'' ''u1'' (Rows 1) None [note_one ''a'' 1, note_one ''b'' 1])
   = Some [''a'']"
  by code_simp

text \<open>Marking is per user: no row of another user or organisation changes, and a second mark hits nothing.\<close>

lemma markAllRead_once: "unreadCount tenant user (fst (markAllRead now tenant user ns)) = 0"
  unfolding unreadCount_def markAllRead_def count_rows_def update_many_def by (auto simp: filter_empty_conv owned_def)

end
