(* ===== verification/Sla_Worker.thy ===== *)
theory Sla_Worker
  imports Timeline_Service Notification_Service
begin

text \<open>
  The periodic sweep of \<^verbatim>\<open>src/src/workers/sla.worker.ts\<close>: it classifies the open stages of the
  active timelines, blocks the overdue ones that ask for it and notifies on the edge into an alert.
  \<open>sent i\<close> says whether the notifications of the stage \<open>i\<close> could be written.
\<close>

section \<open>Alerts\<close>

record Alert =
  al_stageId :: string
  al_caseId :: string
  al_caseRef :: string
  al_stageLabel :: string
  al_recipients :: "string list"
  al_state :: CaseStageSlaState

definition alert_notification :: "string \<Rightarrow> Alert \<Rightarrow> string \<Rightarrow> CreateNotificationInput" where
  "alert_notification tenant a u =
     (let risk = (al_state a = SLA_AT_RISK)
      in \<lparr>nt_tenantId = tenant, nt_recipientUserId = u,
          nt_type = (if risk then ''CASE_STAGE_AT_RISK'' else ''CASE_STAGE_OVERDUE''),
          nt_title = (if risk then ''Case stage at risk'' else ''Case stage overdue''),
          nt_message = ''Stage '' @ [CHR 0x22] @ al_stageLabel a @ [CHR 0x22] @ '' on case '' @ al_caseRef a @ '' is ''
            @ (if risk then ''at risk of breaching'' else ''past'') @ '' its SLA deadline.'',
          nt_actionUrl = ''/documentation/cases/'' @ al_caseId a\<rparr>)"

section \<open>The sweep of one stage\<close>

definition sla_input :: "bool \<Rightarrow> CaseStage \<Rightarrow> SlaStageInput" where
  "sla_input exception s =
     \<lparr>sla_status = cs_status s, sla_completedAt = cs_completedAt s, sla_plannedStart = cs_plannedStart s,
      sla_plannedFinish = cs_plannedFinish s, sla_atRiskPercent = cs_atRiskPercent s,
      sla_warnDaysRemaining = cs_warnDaysRemaining s, sla_hardBlock = cs_hardBlock s,
      sla_hardBlockUnlockedAt = cs_hardBlockUnlockedAt s, sla_exceptionApproved = exception\<rparr>"

definition alerting :: "CaseStageSlaState option \<Rightarrow> bool" where
  "alerting st \<longleftrightarrow> st = Some SLA_AT_RISK \<or> st = Some SLA_OVERDUE"

definition block_stage :: "env \<Rightarrow> nat \<Rightarrow> string \<Rightarrow> string \<Rightarrow> CaseStage \<Rightarrow> CaseStageSlaState option \<Rightarrow> db \<Rightarrow> app_error + db" where
  "block_stage E k tenant caseId s newState d =
     res_bind (update_stage (cs_id s) (\<lambda>r. r\<lparr>cs_status := SS_BLOCKED, cs_slaState := newState\<rparr>) d) (\<lambda>(_, d1).
     audit_tx E (k + 1)
       \<lparr>au_tenantId = tenant, au_eventType = ''CASE_STAGE_BLOCKED'', au_entityType = ''CaseStage'', au_entityId = cs_id s,
        au_actorUserId = None, au_actorIp = None, au_actorUserAgent = None, au_operation = ''UPDATE'',
        au_payload = JObj [(''caseId'', JStr caseId)], au_beforeState = JObj [(''status'', JStr (stage_status_name (cs_status s)))],
        au_afterState = JUndefined\<rparr>
       (stage_event E k tenant caseId (cs_id s) ''BLOCKED'' (cs_status s) SS_BLOCKED None None d1))"

definition write_sla :: "env \<Rightarrow> nat \<Rightarrow> string \<Rightarrow> string \<Rightarrow> bool \<Rightarrow> CaseStage \<Rightarrow> CaseStageSlaState option \<Rightarrow> db \<Rightarrow> app_error + db" where
  "write_sla E k tenant caseId exception s newState d =
     res_bind (if shouldHardBlock (sla_input exception s) newState then block_stage E k tenant caseId s newState d
        else if newState \<noteq> cs_slaState s
        then res_bind (update_stage (cs_id s) (\<lambda>r. r\<lparr>cs_slaState := newState\<rparr>) d) (\<lambda>(_, d1). Inr d1)
        else Inr d) (\<lambda>d1.
     if \<not> alerting newState \<and> cs_slaNotifiedForState s \<noteq> None
     then res_bind (update_stage (cs_id s) (\<lambda>r. r\<lparr>cs_slaNotifiedForState := None\<rparr>) d1) (\<lambda>(_, d2). Inr d2)
     else Inr d1)"

definition alert_of :: "string \<Rightarrow> string \<Rightarrow> string list \<Rightarrow> CaseStage \<Rightarrow> CaseStageSlaState option \<Rightarrow> Alert list" where
  "alert_of caseId caseRef recipients s newState =
     (case newState of
        Some st \<Rightarrow> if alerting newState \<and> cs_slaNotifiedForState s \<noteq> newState
          then [\<lparr>al_stageId = cs_id s, al_caseId = caseId, al_caseRef = caseRef,
                 al_stageLabel = (if cs_label s = [] then cs_key s else cs_label s), al_recipients = recipients, al_state = st\<rparr>]
          else []
      | None \<Rightarrow> [])"

section \<open>The sweep of one organisation\<close>

text \<open>What one sweep reads of a timeline.\<close>

record SweptTimeline =
  sw_tenantId :: string
  sw_caseId :: string
  sw_exceptionApproved :: bool
  sw_caseRef :: string
  sw_recipients :: "string list"
  sw_stages :: "CaseStage list"

definition open_stages :: "CaseTimeline \<Rightarrow> db \<Rightarrow> CaseStage list" where
  "open_stages t d = filter (\<lambda>s. cs_timelineId s = tl_id t \<and> cs_status s \<notin> set TERMINAL) (stages (planning d))"

definition case_row :: "string \<Rightarrow> db \<Rightarrow> DocCase option" where
  "case_row caseId d = find_first (\<lambda>c. dc_id c = caseId) (docCases d)"

definition swept :: "db \<Rightarrow> CaseTimeline \<Rightarrow> SweptTimeline" where
  "swept d t =
     \<lparr>sw_tenantId = tl_tenantId t, sw_caseId = tl_caseId t, sw_exceptionApproved = tl_exceptionApproved t,
      sw_caseRef = (case case_row (tl_caseId t) d of Some c \<Rightarrow> or_else (dc_caseNumber c) (tl_caseId t) | None \<Rightarrow> tl_caseId t),
      sw_recipients = (case case_row (tl_caseId t) d of
          Some c \<Rightarrow> uniq (filter (\<lambda>u. u \<noteq> []) [or_empty (dc_assignedTo c), dc_createdBy c]) | None \<Rightarrow> []),
      sw_stages = open_stages t d\<rparr>"

definition swept_timelines :: "db \<Rightarrow> SweptTimeline list" where
  "swept_timelines d =
     map (swept d) (filter (\<lambda>t. tl_status t = TL_ACTIVE \<and> open_stages t d \<noteq> []) (timelines (planning d)))"

fun sweep_stages ::
  "(rat \<Rightarrow> rat) \<Rightarrow> env \<Rightarrow> date \<Rightarrow> PlanningCalendar \<Rightarrow> nat \<Rightarrow> (SweptTimeline \<times> CaseStage) list \<Rightarrow> (int \<times> Alert list) plan_tx" where
  "sweep_stages rnd E now cal k [] d = run_return ((0, []), d)"
| "sweep_stages rnd E now cal k ((tm, s) # rest) d =
     run_bind (computeStageSlaState rnd (sla_input (sw_exceptionApproved tm) s) now cal) (\<lambda>newState.
     run_bind (lift (write_sla E k (sw_tenantId tm) (sw_caseId tm) (sw_exceptionApproved tm) s newState d)) (\<lambda>d1.
     run_bind (sweep_stages rnd E now cal (k + 2) rest d1) (\<lambda>((n, q), d2).
     run_return (((if newState \<noteq> cs_slaState s then n + 1 else n),
        alert_of (sw_caseId tm) (sw_caseRef tm) (sw_recipients tm) s newState @ q), d2))))"

definition mark_notified :: "string \<Rightarrow> CaseStageSlaState \<Rightarrow> db \<Rightarrow> db" where
  "mark_notified stageId st d =
     (case update_stage stageId (\<lambda>r. r\<lparr>cs_slaNotifiedForState := Some st\<rparr>) d of Inl e \<Rightarrow> d | Inr (_, d1) \<Rightarrow> d1)"

text \<open>A failed write of notifications is logged and leaves the stage unmarked for the next sweep.\<close>

fun emit_alerts :: "(string \<Rightarrow> bool) \<Rightarrow> env \<Rightarrow> nat \<Rightarrow> string \<Rightarrow> Alert list \<Rightarrow> db \<times> Notification list \<Rightarrow> db \<times> Notification list" where
  "emit_alerts sent E k tenant [] w = w"
| "emit_alerts sent E k tenant (a # as) (d, ns) =
     (if al_recipients a = [] then emit_alerts sent E k tenant as (mark_notified (al_stageId a) (al_state a) d, ns)
      else if sent (al_stageId a)
      then emit_alerts sent E (k + length (al_recipients a)) tenant as (mark_notified (al_stageId a) (al_state a) d,
             createMany E k (map (alert_notification tenant a) (al_recipients a)) ns)
      else emit_alerts sent E k tenant as (d, ns))"

text \<open>The pairs of timeline and stage in the order of the two loops.\<close>

definition work_of :: "SweptTimeline list \<Rightarrow> (SweptTimeline \<times> CaseStage) list" where
  "work_of tls = concat (map (\<lambda>tm. map (Pair tm) (sw_stages tm)) tls)"

text \<open>An error of one organisation rolls its transaction back, is logged, and the sweep goes on.\<close>

fun sweep_tenants ::
  "(rat \<Rightarrow> rat) \<Rightarrow> (string \<Rightarrow> bool) \<Rightarrow> env \<Rightarrow> date \<Rightarrow> nat \<Rightarrow> SweptTimeline list \<Rightarrow> string list \<Rightarrow> db \<times> Notification list
    \<Rightarrow> (int \<times> db \<times> Notification list) option" where
  "sweep_tenants rnd sent E now k tls [] w = Some (0, w)"
| "sweep_tenants rnd sent E now k tls (tenant # rest) (d, ns) =
     (let work = work_of (filter (\<lambda>tm. sw_tenantId tm = tenant) tls);
          k1 = k + 2 * length work
      in case sweep_stages rnd E now (loadPlanningCalendar tenant d) k work d of
           None \<Rightarrow> None
         | Some (Inl e) \<Rightarrow> sweep_tenants rnd sent E now k1 tls rest (d, ns)
         | Some (Inr ((n, q), d1)) \<Rightarrow>
             map_option (\<lambda>(m, w). (n + m, w))
               (sweep_tenants rnd sent E now (k1 + sum_list (map (\<lambda>a. length (al_recipients a)) q)) tls rest
                  (emit_alerts sent E k1 tenant q (d1, ns))))"

section \<open>The sweep\<close>

text \<open>
  The first argument is the flag \<open>isRunning\<close> of the process at the call; the call leaves it as it
  was. The result counts the stages whose state changed in a committed transaction.
\<close>

definition runSlaSweep ::
  "bool \<Rightarrow> (rat \<Rightarrow> rat) \<Rightarrow> (string \<Rightarrow> bool) \<Rightarrow> env \<Rightarrow> date \<Rightarrow> db \<times> Notification list \<Rightarrow> (int \<times> db \<times> Notification list) option" where
  "runSlaSweep isRunning rnd sent E now w =
     (if isRunning then Some (0, w)
      else let tls = swept_timelines (fst w)
           in sweep_tenants rnd sent E now 0 tls (uniq (map sw_tenantId tls)) w)"

end
