(* ===== verification/Timeline_Props.thy ===== *)
theory Timeline_Props
  imports Sla_Worker
begin

text \<open>
  The invariants of timelines over every operation of the timeline service and the sweep: the
  readiness of stages, the status of a timeline, the moves of a stage and its baseline.
\<close>

section \<open>Lists of rows\<close>

lemma update_stage_Inr:
  "update_stage i f d = Inr (u, d1) \<longleftrightarrow>
     (\<exists>q. find_first (\<lambda>s. cs_id s = i) (stages (planning d)) = Some q \<and> u = f q)
     \<and> d1 = put_stages (map (\<lambda>s. if cs_id s = i then f s else s) (stages (planning d))) d"
  unfolding update_stage_def res_bind_Inr_iff by (auto simp: update_row_Inr update_many_def)

lemma update_timeline_Inr:
  "update_timeline i f d = Inr (u, d1) \<longleftrightarrow>
     (\<exists>q. find_first (\<lambda>t. tl_id t = i) (timelines (planning d)) = Some q \<and> u = f q)
     \<and> d1 = put_timelines (map (\<lambda>t. if tl_id t = i then f t else t) (timelines (planning d))) d"
  unfolding update_timeline_def res_bind_Inr_iff by (auto simp: update_row_Inr update_many_def)

lemma plan_tables [simp]:
  "stages (planning (put_stages ss d)) = ss" "timelines (planning (put_stages ss d)) = timelines (planning d)"
  "stages (planning (put_timelines ts d)) = stages (planning d)" "timelines (planning (put_timelines ts d)) = ts"
  "put_stages ss (put_stages ss' d) = put_stages ss d"
  by (simp_all add: put_stages_def put_timelines_def)

section \<open>The readiness pass\<close>

definition startable :: "CaseStage \<Rightarrow> bool" where
  "startable s \<longleftrightarrow> cs_status s = SS_PENDING \<or> cs_status s = SS_READY"

definition terminal :: "CaseStage \<Rightarrow> bool" where
  "terminal s \<longleftrightarrow> cs_status s \<in> set TERMINAL"

lemma startable_open: "startable s \<Longrightarrow> \<not> terminal s"
  by (auto simp: startable_def terminal_def TERMINAL_def)

definition settled_status :: "CaseStage option \<Rightarrow> CaseStage \<Rightarrow> CaseStageStatus" where
  "settled_status prev s = (if startable s then if eligible prev s then SS_READY else SS_PENDING else cs_status s)"

fun settle :: "CaseStage option \<Rightarrow> CaseStage list \<Rightarrow> CaseStage list" where
  "settle prev [] = []"
| "settle prev (s # ss) = s\<lparr>cs_status := settled_status prev s\<rparr> # settle (Some s) ss"

fun want :: "CaseStage option \<Rightarrow> CaseStage list \<Rightarrow> string \<Rightarrow> CaseStageStatus option" where
  "want prev [] i = None"
| "want prev (s # ss) i = (if cs_id s = i then Some (settled_status prev s) else want (Some s) ss i)"

definition restatus :: "(string \<Rightarrow> CaseStageStatus option) \<Rightarrow> CaseStage \<Rightarrow> CaseStage" where
  "restatus w s = (case w (cs_id s) of None \<Rightarrow> s | Some st \<Rightarrow> s\<lparr>cs_status := st\<rparr>)"

lemma restatus_keeps [simp]:
  "cs_id (restatus w s) = cs_id s" "cs_timelineId (restatus w s) = cs_timelineId s" "cs_sequence (restatus w s) = cs_sequence s"
  "cs_dependsOnPrevious (restatus w s) = cs_dependsOnPrevious s"
  "cs_baselineStart (restatus w s) = cs_baselineStart s" "cs_baselineFinish (restatus w s) = cs_baselineFinish s"
  by (simp_all add: restatus_def split: option.split)

lemma restatus_none: "map (restatus (\<lambda>i. None)) rows = rows"
  by (intro map_idI) (simp add: restatus_def)

lemma want_None: "want prev ss i = None \<longleftrightarrow> i \<notin> cs_id ` set ss"
  by (induction ss arbitrary: prev) auto

lemma restatus_settle:
  assumes "distinct (map cs_id ss)"
  shows "map (restatus (want prev ss)) ss = settle prev ss"
  using assms
proof (induction ss arbitrary: prev)
  case (Cons s ss)
  have "map (restatus (want prev (s # ss))) ss = map (restatus (want (Some s) ss)) ss"
    using Cons.prems by (intro map_cong [OF refl]) (auto simp: restatus_def)
  moreover have "restatus (want prev (s # ss)) s = s\<lparr>cs_status := settled_status prev s\<rparr>" by (simp add: restatus_def)
  moreover have "map (restatus (want (Some s) ss)) ss = settle (Some s) ss" using Cons.prems by (intro Cons.IH) simp
  ultimately show ?case by (simp only: list.map settle.simps)
qed simp

lemma readiness_loop_step:
  "readiness_loop prev (s # ss) d =
     (if settled_status prev s = cs_status s then readiness_loop (Some s) ss d
      else res_bind (update_stage (cs_id s) (\<lambda>r. r\<lparr>cs_status := settled_status prev s\<rparr>) d) (\<lambda>(_, d1). readiness_loop (Some s) ss d1))"
  by (cases "eligible prev s"; cases "cs_status s") (simp_all add: settled_status_def startable_def)

lemma readiness_loop_idle:
  assumes "settled_status prev s = cs_status s" "readiness_loop prev (s # ss) d = Inr d1"
  shows "readiness_loop (Some s) ss d = Inr d1"
  using assms by (simp only: readiness_loop_step simp_thms if_True)

lemma readiness_loop_write:
  assumes "settled_status prev s \<noteq> cs_status s" "readiness_loop prev (s # ss) d = Inr d1"
  obtains u d0 where "update_stage (cs_id s) (\<lambda>r. r\<lparr>cs_status := settled_status prev s\<rparr>) d = Inr (u, d0)"
    "readiness_loop (Some s) ss d0 = Inr d1"
proof -
  have "res_bind (update_stage (cs_id s) (\<lambda>r. r\<lparr>cs_status := settled_status prev s\<rparr>) d) (\<lambda>(_, d1). readiness_loop (Some s) ss d1) = Inr d1"
    using assms by (simp only: readiness_loop_step if_False)
  then show ?thesis using that by (auto simp: res_bind_Inr_iff)
qed

text \<open>The rows that a pass over \<open>ss\<close> meets are those of the table.\<close>

lemma restatus_idle:
  assumes "\<forall>r \<in> set rows. cs_id r = cs_id s \<longrightarrow> cs_status r = cs_status s" "settled_status prev s = cs_status s" "cs_id s \<notin> cs_id ` set ss"
  shows "map (restatus (want prev (s # ss))) rows = map (restatus (want (Some s) ss)) rows"
proof (intro map_cong [OF refl])
  fix r assume r: "r \<in> set rows"
  show "restatus (want prev (s # ss)) r = restatus (want (Some s) ss) r"
  proof (cases "cs_id s = cs_id r")
    case True
    then have "want (Some s) ss (cs_id r) = None" using assms(3) by (simp add: want_None)
    then show ?thesis using True assms(1) r assms(2) by (simp add: restatus_def)
  qed (simp add: restatus_def)
qed

lemma restatus_write:
  assumes "cs_id s \<notin> cs_id ` set ss"
  shows "map (restatus (want prev (s # ss))) rows
     = map (restatus (want (Some s) ss)) (map (\<lambda>r. if cs_id r = cs_id s then r\<lparr>cs_status := settled_status prev s\<rparr> else r) rows)"
proof -
  have "restatus (want prev (s # ss)) r
      = restatus (want (Some s) ss) (if cs_id r = cs_id s then r\<lparr>cs_status := settled_status prev s\<rparr> else r)" for r
  proof (cases "cs_id r = cs_id s")
    case True
    moreover have "want (Some s) ss (cs_id s) = None" using assms by (simp add: want_None)
    ultimately show ?thesis by (simp add: restatus_def)
  qed (simp add: restatus_def)
  then show ?thesis by simp
qed

lemma put_same_stages [simp]: "put_stages (stages (planning d)) d = d"
  by (simp add: put_stages_def)

lemma readiness_loop_Inr:
  assumes "readiness_loop prev ss d = Inr d1" "distinct (map cs_id ss)"
    and "\<forall>s \<in> set ss. \<forall>r \<in> set (stages (planning d)). cs_id r = cs_id s \<longrightarrow> cs_status r = cs_status s"
  shows "d1 = put_stages (map (restatus (want prev ss)) (stages (planning d))) d"
  using assms
proof (induction ss arbitrary: prev d)
  case Nil
  then show ?case by (simp add: restatus_none)
next
  case (Cons s ss)
  have new: "cs_id s \<notin> cs_id ` set ss" and dist: "distinct (map cs_id ss)" using Cons.prems(2) by auto
  have rows: "\<forall>t \<in> set ss. \<forall>r \<in> set (stages (planning d)). cs_id r = cs_id t \<longrightarrow> cs_status r = cs_status t"
    and same: "\<forall>r \<in> set (stages (planning d)). cs_id r = cs_id s \<longrightarrow> cs_status r = cs_status s"
    using Cons.prems(3) unfolding list.set ball_simps by blast+
  show ?case
  proof (cases "settled_status prev s = cs_status s")
    case True
    then have "readiness_loop (Some s) ss d = Inr d1" using Cons.prems(1) by (rule readiness_loop_idle)
    from Cons.IH [OF this dist rows] show ?thesis unfolding restatus_idle [OF same True new] .
  next
    case False
    then obtain u d0 where u: "update_stage (cs_id s) (\<lambda>r. r\<lparr>cs_status := settled_status prev s\<rparr>) d = Inr (u, d0)"
      "readiness_loop (Some s) ss d0 = Inr d1"
      using Cons.prems(1) by (rule readiness_loop_write)
    then have d0: "d0 = put_stages (map (\<lambda>r. if cs_id r = cs_id s then r\<lparr>cs_status := settled_status prev s\<rparr> else r) (stages (planning d))) d"
      by (simp add: update_stage_Inr)
    have next_rows: "\<forall>t \<in> set ss. \<forall>r \<in> set (stages (planning d0)). cs_id r = cs_id t \<longrightarrow> cs_status r = cs_status t"
    proof (intro ballI impI)
      fix t r assume t: "t \<in> set ss" "r \<in> set (stages (planning d0))" "cs_id r = cs_id t"
      obtain q where q: "q \<in> set (stages (planning d))" "r = (if cs_id q = cs_id s then q\<lparr>cs_status := settled_status prev s\<rparr> else q)"
        using t(2) unfolding d0 plan_tables by auto
      then have "cs_id r = cs_id q" by simp
      then have "cs_id q \<noteq> cs_id s" using t new by (metis image_eqI)
      then have "r = q" using q(2) by simp
      then show "cs_status r = cs_status t" using rows t(1,3) q(1) by blast
    qed
    show ?thesis using Cons.IH [OF u(2) dist next_rows] unfolding d0 plan_tables restatus_write [OF new] .
  qed
qed

section \<open>The stages of a timeline\<close>

definition move_free :: "CaseStage \<Rightarrow> CaseStage \<Rightarrow> bool" where
  "move_free s s' \<longleftrightarrow> cs_id s' = cs_id s \<and> cs_timelineId s' = cs_timelineId s \<and> cs_sequence s' = cs_sequence s
     \<and> cs_dependsOnPrevious s' = cs_dependsOnPrevious s"

lemma stages_of_map:
  assumes "\<And>s. cs_timelineId (f s) = cs_timelineId s" "\<And>s. cs_sequence (f s) = cs_sequence s"
  shows "stages_of i (put_stages (map f (stages (planning d))) d) = map f (stages_of i d)"
  unfolding stages_of_def plan_tables filter_map by (simp add: sort_key_map [of cs_sequence f cs_sequence] assms comp_def)

lemma set_stages_of: "set (stages_of i d) = {s \<in> set (stages (planning d)). cs_timelineId s = i}"
  by (auto simp: stages_of_def)

lemma distinct_stages_of: "distinct (map cs_id (stages (planning d))) \<Longrightarrow> distinct (map cs_id (stages_of i d))"
  by (simp add: stages_of_def distinct_map_filter distinct_map inj_on_def)

lemma same_row: "distinct (map k rs) \<Longrightarrow> r \<in> set rs \<Longrightarrow> q \<in> set rs \<Longrightarrow> k r = k q \<Longrightarrow> r = q"
  by (simp add: distinct_map inj_on_def)

definition free_status :: "CaseStageStatus \<Rightarrow> bool" where
  "free_status st \<longleftrightarrow> st = SS_PENDING \<or> st = SS_READY"

text \<open>What the readiness pass may do to a status.\<close>

definition settles :: "CaseStageStatus \<Rightarrow> CaseStageStatus \<Rightarrow> bool" where
  "settles a b \<longleftrightarrow> a = b \<or> free_status a \<and> free_status b"

lemma settles_settled: "settles (cs_status s) (settled_status prev s)"
  by (auto simp: settles_def free_status_def settled_status_def startable_def)

lemma want_settles: "want prev ss i = Some st \<Longrightarrow> \<exists>s \<in> set ss. cs_id s = i \<and> settles (cs_status s) st"
  by (induction ss arbitrary: prev) (auto simp: settles_settled split: if_splits)

text \<open>What the pass of one timeline leaves in the table.\<close>

lemma recompute_Inr:
  assumes "recomputeReadiness i d = Inr d1" "distinct (map cs_id (stages (planning d)))"
  obtains w where "d1 = put_stages (map (restatus w) (stages (planning d))) d" "stages_of i d1 = settle None (stages_of i d)"
    "\<forall>j. j \<noteq> i \<longrightarrow> stages_of j d1 = stages_of j d"
    "\<forall>s \<in> set (stages (planning d)). settles (cs_status s) (cs_status (restatus w s))"
proof -
  let ?w = "want None (stages_of i d)"
  have same: "\<forall>s \<in> set (stages_of i d). \<forall>r \<in> set (stages (planning d)). cs_id r = cs_id s \<longrightarrow> cs_status r = cs_status s"
  proof (intro ballI impI)
    fix s r assume "s \<in> set (stages_of i d)" "r \<in> set (stages (planning d))" "cs_id r = cs_id s"
    then have "r = s" unfolding set_stages_of mem_Collect_eq by (intro same_row [OF assms(2)]) simp_all
    then show "cs_status r = cs_status s" by (simp only:)
  qed
  have d1: "d1 = put_stages (map (restatus ?w) (stages (planning d))) d"
    using readiness_loop_Inr [OF _ distinct_stages_of [OF assms(2)] same] assms(1) by (simp only: recomputeReadiness_def)
  have all: "stages_of j d1 = map (restatus ?w) (stages_of j d)" for j
    unfolding d1 by (rule stages_of_map) simp_all
  have here: "stages_of i d1 = settle None (stages_of i d)"
    unfolding all by (rule restatus_settle [OF distinct_stages_of [OF assms(2)]])
  have there: "stages_of j d1 = stages_of j d" if "j \<noteq> i" for j
    unfolding all
  proof (rule map_idI)
    fix s assume s: "s \<in> set (stages_of j d)"
    have "cs_id s \<notin> cs_id ` set (stages_of i d)"
    proof
      assume "cs_id s \<in> cs_id ` set (stages_of i d)"
      then obtain q where q: "cs_id s = cs_id q" "q \<in> set (stages_of i d)" by (elim imageE)
      then have "s = q" using s unfolding set_stages_of mem_Collect_eq by (intro same_row [OF assms(2)]) simp_all
      then show False using s q(2) that unfolding set_stages_of by simp
    qed
    then show "restatus ?w s = s" by (simp add: restatus_def want_None [THEN iffD2])
  qed
  have "settles (cs_status s) (cs_status (restatus ?w s))" if s: "s \<in> set (stages (planning d))" for s
  proof (cases "?w (cs_id s)")
    case (Some st)
    then obtain q where q: "q \<in> set (stages_of i d)" "cs_id q = cs_id s" "settles (cs_status q) st"
      using want_settles by blast
    then have "q = s" using same_row [OF assms(2), of q s] s by (simp add: set_stages_of)
    then show ?thesis using q Some by (simp add: restatus_def)
  qed (simp add: restatus_def settles_def)
  then show ?thesis using that [OF d1 here] there by blast
qed

section \<open>Stages that are ready\<close>

fun ready_from :: "CaseStage option \<Rightarrow> CaseStage list \<Rightarrow> bool" where
  "ready_from prev [] \<longleftrightarrow> True"
| "ready_from prev (s # ss) \<longleftrightarrow> (startable s \<longrightarrow> (cs_status s = SS_READY \<longleftrightarrow> eligible prev s)) \<and> ready_from (Some s) ss"

definition same_prev :: "CaseStage option \<Rightarrow> CaseStage option \<Rightarrow> bool" where
  "same_prev p q \<longleftrightarrow> (p = None \<longleftrightarrow> q = None) \<and> (\<forall>s t. p = Some s \<longrightarrow> q = Some t \<longrightarrow> (terminal s \<longleftrightarrow> terminal t))"

lemma eligible_prev: "same_prev p q \<Longrightarrow> cs_dependsOnPrevious s = cs_dependsOnPrevious t \<Longrightarrow> eligible p s \<longleftrightarrow> eligible q t"
  by (cases p; cases q) (auto simp: eligible_def same_prev_def terminal_def)

lemma settled_terminal [simp]: "terminal (s\<lparr>cs_status := settled_status prev s\<rparr>) \<longleftrightarrow> terminal s"
  by (auto simp: terminal_def settled_status_def startable_def TERMINAL_def)

lemma settled_startable: "startable (s\<lparr>cs_status := settled_status p s\<rparr>) \<Longrightarrow> startable s"
  by (simp add: startable_def settled_status_def split: if_splits)

lemma settled_ready: "startable s \<Longrightarrow> settled_status p s = SS_READY \<longleftrightarrow> eligible p s"
  by (simp add: settled_status_def)

lemma settle_ready: "same_prev p q \<Longrightarrow> ready_from q (settle p ss)"
proof (induction ss arbitrary: p q)
  case (Cons s ss)
  let ?s = "s\<lparr>cs_status := settled_status p s\<rparr>"
  have r: "ready_from (Some ?s) (settle (Some s) ss)" by (rule Cons.IH) (simp add: same_prev_def)
  have e: "eligible q ?s \<longleftrightarrow> eligible p s" using eligible_prev [OF Cons.prems, of s ?s] by simp
  have "cs_status ?s = SS_READY \<longleftrightarrow> eligible q ?s" if "startable ?s"
    unfolding e using settled_ready [OF settled_startable [OF that]] by simp
  then show ?case unfolding settle.simps ready_from.simps using r by blast
qed simp

definition stage_face :: "CaseStage \<Rightarrow> bool \<times> CaseStageStatus" where
  "stage_face s = (cs_dependsOnPrevious s, cs_status s)"

lemma ready_faces: "same_prev p q \<Longrightarrow> map stage_face ss = map stage_face ts \<Longrightarrow> ready_from p ss \<longleftrightarrow> ready_from q ts"
proof (induction ss arbitrary: p q ts)
  case (Cons s ss)
  then obtain t us where ts: "ts = t # us" and t: "stage_face s = stage_face t" "map stage_face ss = map stage_face us" by (cases ts) auto
  then have f: "cs_dependsOnPrevious s = cs_dependsOnPrevious t" "cs_status s = cs_status t" by (simp_all add: stage_face_def)
  then have "same_prev (Some s) (Some t)" by (simp add: same_prev_def terminal_def)
  from Cons.IH [OF this t(2)] eligible_prev [OF Cons.prems(1) f(1)] f show ?case by (simp add: ts startable_def)
qed simp

lemma ready_nth:
  assumes "ready_from prev ss" "i < length ss" "startable (ss ! i)"
  shows "cs_status (ss ! i) = SS_READY \<longleftrightarrow> eligible (if i = 0 then prev else Some (ss ! (i - 1))) (ss ! i)"
  using assms
proof (induction ss arbitrary: prev i)
  case (Cons s ss)
  show ?case
  proof (cases i)
    case 0
    then show ?thesis using Cons.prems by simp
  next
    case (Suc k)
    then show ?thesis using Cons.IH [of "Some s" k] Cons.prems by (cases k) auto
  qed
qed simp

section \<open>Well-formed plans\<close>

definition timeline_ok :: "CaseStage list \<Rightarrow> CaseTimeline \<Rightarrow> bool" where
  "timeline_ok ss t \<longleftrightarrow> ss \<noteq> [] \<and> ready_from None ss \<and> (tl_status t = TL_COMPLETED \<longleftrightarrow> list_all terminal ss)"

definition keys_ok :: "db \<Rightarrow> bool" where
  "keys_ok d \<longleftrightarrow> distinct (map cs_id (stages (planning d))) \<and> distinct (map tl_id (timelines (planning d)))
     \<and> distinct (map tl_caseId (timelines (planning d)))
     \<and> (\<forall>s \<in> set (stages (planning d)). cs_timelineId s \<in> tl_id ` set (timelines (planning d)))"

definition plan_ok :: "db \<Rightarrow> bool" where
  "plan_ok d \<longleftrightarrow> keys_ok d \<and> (\<forall>t \<in> set (timelines (planning d)). timeline_ok (stages_of (tl_id t) d) t)"

text \<open>The part of the rows that the invariant reads.\<close>

definition row_face :: "CaseStage \<Rightarrow> string \<times> string \<times> int \<times> bool \<times> CaseStageStatus" where
  "row_face s = (cs_id s, cs_timelineId s, cs_sequence s, cs_dependsOnPrevious s, cs_status s)"

definition timeline_face :: "CaseTimeline \<Rightarrow> string \<times> string \<times> CaseTimelineStatus" where
  "timeline_face t = (tl_id t, tl_caseId t, tl_status t)"

definition same_plan :: "db \<Rightarrow> db \<Rightarrow> bool" where
  "same_plan d d' \<longleftrightarrow> map row_face (stages (planning d')) = map row_face (stages (planning d))
     \<and> map timeline_face (timelines (planning d')) = map timeline_face (timelines (planning d))"

lemma row_face_eq:
  "row_face s = row_face t \<longleftrightarrow> cs_id s = cs_id t \<and> cs_timelineId s = cs_timelineId t \<and> cs_sequence s = cs_sequence t
     \<and> cs_dependsOnPrevious s = cs_dependsOnPrevious t \<and> cs_status s = cs_status t"
  by (simp add: row_face_def)

lemma timeline_face_eq:
  "timeline_face t = timeline_face u \<longleftrightarrow> tl_id t = tl_id u \<and> tl_caseId t = tl_caseId u \<and> tl_status t = tl_status u"
  by (simp add: timeline_face_def)

lemma map_face: "(\<And>x. k x = g (f x)) \<Longrightarrow> map f xs = map f ys \<Longrightarrow> map k xs = map k ys"
proof -
  assume k: "\<And>x. k x = g (f x)" and e: "map f xs = map f ys"
  have m: "map k zs = map g (map f zs)" for zs by (simp add: k)
  show ?thesis unfolding m [of xs] m [of ys] e ..
qed

lemma faces_stages_of:
  assumes "map row_face (stages (planning d')) = map row_face (stages (planning d))"
  shows "map row_face (stages_of i d') = map row_face (stages_of i d)"
proof -
  have "map row_face (stages_of i e)
      = sort_key (\<lambda>(_, _, q, _). q) (filter (\<lambda>(_, j, _). j = i) (map row_face (stages (planning e))))" for e
  proof -
    have "filter (\<lambda>(_, j, _). j = i) (map row_face rs) = map row_face (filter (\<lambda>s. cs_timelineId s = i) rs)" for rs
      by (simp add: filter_map comp_def row_face_def)
    then show ?thesis
      unfolding stages_of_def by (simp add: sort_key_map [of "\<lambda>(_, _, q, _). q" row_face cs_sequence] row_face_def)
  qed
  then show ?thesis using assms by simp
qed

lemma timeline_ok_faces:
  assumes "map row_face ss' = map row_face ss" "timeline_face t' = timeline_face t" "timeline_ok ss t"
  shows "timeline_ok ss' t'"
proof -
  have n: "ss' \<noteq> []" using assms(1,3) by (auto simp: timeline_ok_def)
  have "map stage_face ss' = map stage_face ss"
    by (rule map_face [OF _ assms(1), of _ "\<lambda>(_, _, _, b, st). (b, st)"]) (simp add: row_face_def stage_face_def)
  then have r: "ready_from None ss'" using ready_faces [of None None ss' ss] assms(3) by (simp add: same_prev_def timeline_ok_def)
  have "map terminal ss' = map terminal ss"
    by (rule map_face [OF _ assms(1), of _ "\<lambda>(_, _, _, _, st). st \<in> set TERMINAL"]) (simp add: row_face_def terminal_def)
  then have "list_all terminal ss' = list_all terminal ss"
    using list.pred_map [of id terminal ss'] list.pred_map [of id terminal ss] by (simp add: comp_def)
  then show ?thesis using n r assms(2,3) by (simp add: timeline_ok_def timeline_face_eq)
qed

lemma keys_ok_cong:
  assumes "keys_ok d" "map cs_id (stages (planning d')) = map cs_id (stages (planning d))"
    "map cs_timelineId (stages (planning d')) = map cs_timelineId (stages (planning d))"
    "map tl_id (timelines (planning d')) = map tl_id (timelines (planning d))"
    "map tl_caseId (timelines (planning d')) = map tl_caseId (timelines (planning d))"
  shows "keys_ok d'"
proof -
  have "cs_timelineId ` set (stages (planning d')) = cs_timelineId ` set (stages (planning d))"
    "tl_id ` set (timelines (planning d')) = tl_id ` set (timelines (planning d))"
    using assms(3,4) by (metis list.set_map)+
  moreover have "keys_ok e \<longleftrightarrow> distinct (map cs_id (stages (planning e))) \<and> distinct (map tl_id (timelines (planning e)))
     \<and> distinct (map tl_caseId (timelines (planning e)))
     \<and> cs_timelineId ` set (stages (planning e)) \<subseteq> tl_id ` set (timelines (planning e))" for e
    unfolding keys_ok_def image_subset_iff ..
  ultimately show ?thesis using assms(1,2,4,5) by (simp only:)
qed

lemma same_plan_ok:
  assumes "plan_ok d" "same_plan d d'"
  shows "plan_ok d'"
proof -
  have s: "map row_face (stages (planning d')) = map row_face (stages (planning d))"
    and t: "map timeline_face (timelines (planning d')) = map timeline_face (timelines (planning d))"
    using assms(2) by (simp_all add: same_plan_def)
  have ids: "map cs_id (stages (planning d')) = map cs_id (stages (planning d))"
    by (rule map_face [OF _ s, of _ fst]) (simp add: row_face_def)
  have tids: "map cs_timelineId (stages (planning d')) = map cs_timelineId (stages (planning d))"
    by (rule map_face [OF _ s, of _ "\<lambda>(_, j, _). j"]) (simp add: row_face_def)
  have tl: "map tl_id (timelines (planning d')) = map tl_id (timelines (planning d))"
    by (rule map_face [OF _ t, of _ fst]) (simp add: timeline_face_def)
  have tc: "map tl_caseId (timelines (planning d')) = map tl_caseId (timelines (planning d))"
    by (rule map_face [OF _ t, of _ "\<lambda>(_, c, _). c"]) (simp add: timeline_face_def)
  have "keys_ok d'" using assms(1) keys_ok_cong [OF _ ids tids tl tc] by (simp add: plan_ok_def)
  moreover have "timeline_ok (stages_of (tl_id t') d') t'" if t': "t' \<in> set (timelines (planning d'))" for t'
  proof -
    from t' have "timeline_face t' \<in> timeline_face ` set (timelines (planning d))" using t by (metis imageI list.set_map)
    then obtain u where u: "u \<in> set (timelines (planning d))" "timeline_face t' = timeline_face u" by (elim imageE)
    then have "timeline_ok (stages_of (tl_id u) d) u" using assms(1) by (simp add: plan_ok_def)
    moreover have "tl_id t' = tl_id u" using u(2) by (simp add: timeline_face_eq)
    ultimately show ?thesis using timeline_ok_faces [OF faces_stages_of [OF s] u(2)] by simp
  qed
  ultimately show ?thesis by (simp add: plan_ok_def)
qed

section \<open>Moves of the rows\<close>

definition base_kept :: "CaseStage \<Rightarrow> CaseStage \<Rightarrow> bool" where
  "base_kept s s' \<longleftrightarrow> (cs_baselineStart s \<noteq> None \<longrightarrow> cs_baselineStart s' = cs_baselineStart s)
     \<and> (cs_baselineFinish s \<noteq> None \<longrightarrow> cs_baselineFinish s' = cs_baselineFinish s)"

definition row_moves :: "(string \<Rightarrow> CaseStageStatus \<Rightarrow> CaseStageStatus \<Rightarrow> bool) \<Rightarrow> CaseStage \<Rightarrow> CaseStage \<Rightarrow> bool" where
  "row_moves m s s' \<longleftrightarrow> move_free s s' \<and> base_kept s s' \<and> m (cs_id s) (cs_status s) (cs_status s')"

text \<open>The rows of the first database move to those of the second, the status by \<open>m\<close> of its id.\<close>

definition rows_move :: "(string \<Rightarrow> CaseStageStatus \<Rightarrow> CaseStageStatus \<Rightarrow> bool) \<Rightarrow> db \<Rightarrow> db \<Rightarrow> bool" where
  "rows_move m d d' \<longleftrightarrow> list_all2 (row_moves m) (stages (planning d)) (stages (planning d'))"

lemma base_kept_refl [simp]: "base_kept s s"
  by (simp add: base_kept_def)

lemma move_free_refl [simp]: "move_free s s"
  by (simp add: move_free_def)

lemma base_kept_trans: "base_kept s t \<Longrightarrow> base_kept t u \<Longrightarrow> base_kept s u"
  unfolding base_kept_def by metis

lemma move_free_trans: "move_free s t \<Longrightarrow> move_free t u \<Longrightarrow> move_free s u"
  by (simp add: move_free_def)

lemma row_moves_trans:
  assumes "row_moves m s t" "row_moves n t u"
  shows "row_moves (\<lambda>j a c. \<exists>b. m j a b \<and> n j b c) s u"
proof -
  have "cs_id t = cs_id s" using assms(1) by (simp add: row_moves_def move_free_def)
  then have "m (cs_id s) (cs_status s) (cs_status t) \<and> n (cs_id s) (cs_status t) (cs_status u)"
    using assms by (simp add: row_moves_def)
  moreover have "move_free s u" "base_kept s u"
    using assms move_free_trans [of s t u] base_kept_trans [of s t u] by (simp_all add: row_moves_def)
  ultimately show ?thesis unfolding row_moves_def by blast
qed

lemma rows_move_trans:
  assumes "rows_move m d d1" "rows_move n d1 d2"
  shows "rows_move (\<lambda>j a c. \<exists>b. m j a b \<and> n j b c) d d2"
  unfolding rows_move_def
proof (rule list_all2_trans)
  fix s t u assume "row_moves m s t" "row_moves n t u"
  then show "row_moves (\<lambda>j a c. \<exists>b. m j a b \<and> n j b c) s u" by (rule row_moves_trans)
qed (rule assms [unfolded rows_move_def])+

lemma rows_move_mono:
  assumes "rows_move m d d'" "\<And>j a b. m j a b \<Longrightarrow> n j a b"
  shows "rows_move n d d'"
  using assms(1) unfolding rows_move_def by (rule list_all2_mono) (simp add: row_moves_def assms(2))

lemma rows_move_map:
  assumes "\<And>s. s \<in> set (stages (planning d)) \<Longrightarrow> row_moves m s (f s)"
  shows "rows_move m d (put_stages (map f (stages (planning d))) d)"
  unfolding rows_move_def plan_tables using assms by (simp add: list_all2_conv_all_nth)

lemma rows_same_stages: "stages (planning d') = stages (planning d) \<Longrightarrow> (\<And>j a. m j a a) \<Longrightarrow> rows_move m d d'"
  unfolding rows_move_def by (simp add: list_all2_same row_moves_def)

lemma rows_move_face:
  assumes "rows_move (\<lambda>j a b. a = b) d d'"
  shows "map row_face (stages (planning d')) = map row_face (stages (planning d))"
  using assms unfolding rows_move_def
  by (induction rule: list_all2_induct) (simp_all add: row_face_eq move_free_def row_moves_def)

section \<open>The recalculation keeps statuses and baselines\<close>

lemma planned_row_moves:
  assumes "cs_baselineStart old = cs_baselineStart s" "cs_baselineFinish old = cs_baselineFinish s"
  shows "move_free s (planned_row f r old s)" "base_kept s (planned_row f r old s)" "cs_status (planned_row f r old s) = cs_status s"
  using assms by (simp_all add: planned_row_def move_free_def base_kept_def)

definition bases_of :: "CaseStage list \<Rightarrow> db \<Rightarrow> bool" where
  "bases_of rows d \<longleftrightarrow> (\<forall>row \<in> set rows. \<forall>s \<in> set (stages (planning d)). cs_id s = cs_id row
     \<longrightarrow> cs_baselineStart row = cs_baselineStart s \<and> cs_baselineFinish row = cs_baselineFinish s)"

lemma update_planned:
  assumes "update_stage (cs_id row) (planned_row f r row) d = Inr (u, d1)" "bases_of (row # rows) d" "cs_id row \<notin> cs_id ` set rows"
  shows "rows_move (\<lambda>j a b. a = b) d d1" "bases_of rows d1" "timelines (planning d1) = timelines (planning d)"
proof -
  let ?g = "\<lambda>s. if cs_id s = cs_id row then planned_row f r row s else s"
  have d1: "d1 = put_stages (map ?g (stages (planning d))) d" using assms(1) by (simp add: update_stage_Inr)
  have b: "cs_baselineStart row = cs_baselineStart s \<and> cs_baselineFinish row = cs_baselineFinish s"
    if "s \<in> set (stages (planning d))" "cs_id s = cs_id row" for s using assms(2) that by (auto simp: bases_of_def)
  show "rows_move (\<lambda>j a b. a = b) d d1"
    unfolding d1 by (rule rows_move_map) (use planned_row_moves b in \<open>auto simp: row_moves_def\<close>)
  show "timelines (planning d1) = timelines (planning d)" by (simp add: d1)
  show "bases_of rows d1"
    unfolding bases_of_def d1 plan_tables
  proof (intro ballI impI)
    fix q s' assume q: "q \<in> set rows" "s' \<in> set (map ?g (stages (planning d)))" "cs_id s' = cs_id q"
    then have "s' \<in> ?g ` set (stages (planning d))" by (simp only: list.set_map)
    then obtain s where s: "s' = ?g s" "s \<in> set (stages (planning d))" by (elim imageE)
    have "cs_id (?g s) = cs_id s" by (simp add: planned_row_def)
    then have "cs_id s \<noteq> cs_id row" using q(1,3) assms(3) s(1) by (metis image_eqI)
    then have e: "s' = s" using s(1) by simp
    have "q \<in> set (row # rows)" using q(1) by simp
    then show "cs_baselineStart q = cs_baselineStart s' \<and> cs_baselineFinish q = cs_baselineFinish s'"
      using assms(2) q(3) s(2) unfolding bases_of_def e by blast
  qed
qed

lemma recalc_rows_Cons:
  assumes "recalc_rows cal (row # rows) (f # fs) (r # rs) d = Some (Inr (out, d'))"
  obtains u d1 out1 where "update_stage (cs_id row) (planned_row f r row) d = Inr (u, d1)"
    "recalc_rows cal rows fs rs d1 = Some (Inr (out1, d'))"
  using assms unfolding recalc_rows.simps run_bind_Inr lift_Inr by (auto simp: run_bind_Inr split: prod.splits)

lemma recalc_rows_moves:
  assumes "recalc_rows cal rows fs rs d = Some (Inr (out, d'))" "distinct (map cs_id rows)" "bases_of rows d"
  shows "rows_move (\<lambda>j a b. a = b) d d' \<and> timelines (planning d') = timelines (planning d)"
  using assms
proof (induction rows arbitrary: fs rs d out d')
  case (Cons row rows)
  show ?case
  proof (cases "fs = [] \<or> rs = []")
    case True
    then have "d' = d" using Cons.prems(1) by (auto simp: neq_Nil_conv)
    then show ?thesis by (simp add: rows_same_stages)
  next
    case False
    then obtain f fs1 r rs1 where e: "fs = f # fs1" "rs = r # rs1" by (metis list.exhaust)
    obtain u d1 out1 where u: "update_stage (cs_id row) (planned_row f r row) d = Inr (u, d1)"
      and rest: "recalc_rows cal rows fs1 rs1 d1 = Some (Inr (out1, d'))"
      using Cons.prems(1) unfolding e by (rule recalc_rows_Cons)
    have new: "cs_id row \<notin> cs_id ` set rows" "distinct (map cs_id rows)" using Cons.prems(2) by auto
    note up = update_planned [OF u Cons.prems(3) new(1)]
    from Cons.IH [OF rest new(2) up(2)] up(3) rows_move_trans [OF up(1)] show ?thesis by auto
  qed
qed (simp add: rows_same_stages)

lemma bases_of_stages:
  assumes "distinct (map cs_id (stages (planning d)))"
  shows "bases_of (stages_of i d) d"
  unfolding bases_of_def
proof (intro ballI impI)
  fix row s assume "row \<in> set (stages_of i d)" "s \<in> set (stages (planning d))" "cs_id s = cs_id row"
  then have "s = row" unfolding set_stages_of mem_Collect_eq by (intro same_row [OF assms]) simp_all
  then show "cs_baselineStart row = cs_baselineStart s \<and> cs_baselineFinish row = cs_baselineFinish s" by simp
qed

lemma update_timeline_face:
  assumes "update_timeline i f d = Inr (u, d1)" "\<And>t. timeline_face (f t) = timeline_face t"
  shows "stages (planning d1) = stages (planning d)" "map timeline_face (timelines (planning d1)) = map timeline_face (timelines (planning d))"
  using assms by (simp_all add: update_timeline_Inr)

lemma recalc_steps:
  assumes "recalcInTx tenant caseId now d = Some (Inr (out, d'))"
  obtains t :: CaseTimeline and cal forward reverse out1 fs d1 u where "recalc_rows cal (stages_of (tl_id t) d) forward reverse d = Some (Inr (out1, d1))"
    "update_timeline (tl_id t) (planned_timeline fs now) d1 = Inr (u, d')"
  using assms unfolding recalcInTx_def Let_def run_bind_Inr lift_Inr split_paired_Ex prod.case
  unfolding run_return_eq prod.inject by (elim exE conjE) (rule that, assumption, simp only:)

lemma recalc_moves:
  assumes "recalcInTx tenant caseId now d = Some (Inr (out, d'))" "distinct (map cs_id (stages (planning d)))"
  shows "rows_move (\<lambda>j a b. a = b) d d'" "map timeline_face (timelines (planning d')) = map timeline_face (timelines (planning d))"
proof -
  obtain t :: CaseTimeline and cal forward reverse out1 fs d1 u where r: "recalc_rows cal (stages_of (tl_id t) d) forward reverse d = Some (Inr (out1, d1))"
    and u: "update_timeline (tl_id t) (planned_timeline fs now) d1 = Inr (u, d')"
    using assms(1) by (rule recalc_steps)
  note m = recalc_rows_moves [OF r distinct_stages_of [OF assms(2)] bases_of_stages [OF assms(2)]]
  have f: "stages (planning d') = stages (planning d1)" "map timeline_face (timelines (planning d')) = map timeline_face (timelines (planning d1))"
    by (rule update_timeline_face [OF u], simp add: timeline_face_def planned_timeline_def)+
  show "map timeline_face (timelines (planning d')) = map timeline_face (timelines (planning d))" using f(2) m by simp
  show "rows_move (\<lambda>j a b. a = b) d d'" using m unfolding rows_move_def f(1) by blast
qed

lemma recalc_same_plan:
  assumes "recalcInTx tenant caseId now d = Some (Inr (out, d'))" "plan_ok d"
  shows "plan_ok d'" "rows_move (\<lambda>j a b. a = b) d d'"
proof -
  have "distinct (map cs_id (stages (planning d)))" using assms(2) by (simp add: plan_ok_def keys_ok_def)
  note m = recalc_moves [OF assms(1) this]
  show "rows_move (\<lambda>j a b. a = b) d d'" by (rule m)
  have "same_plan d d'" unfolding same_plan_def using rows_move_face [OF m(1)] m(2) by blast
  with assms(2) show "plan_ok d'" by (rule same_plan_ok)
qed

section \<open>The pass and the status of the timeline\<close>

definition ok_but :: "string \<Rightarrow> db \<Rightarrow> bool" where
  "ok_but i d \<longleftrightarrow> keys_ok d \<and> (\<forall>t \<in> set (timelines (planning d)). stages_of (tl_id t) d \<noteq> []
     \<and> (tl_id t \<noteq> i \<longrightarrow> timeline_ok (stages_of (tl_id t) d) t))"

lemma sync_Inr:
  assumes "syncTimelineStatus i d1 = Inr d2"
  obtains st where "d2 = put_timelines (map (\<lambda>t. if tl_id t = i then t\<lparr>tl_status := st\<rparr> else t) (timelines (planning d1))) d1"
    "stages_of i d1 \<noteq> [] \<longrightarrow> (st = TL_COMPLETED \<longleftrightarrow> list_all terminal (stages_of i d1))"
proof -
  let ?ss = "filter (\<lambda>s. cs_timelineId s = i) (stages (planning d1))"
  let ?st = "if ?ss \<noteq> [] \<and> list_all (\<lambda>s. cs_status s \<in> set TERMINAL) ?ss then TL_COMPLETED else TL_ACTIVE"
  obtain u where "update_timeline i (\<lambda>t. t\<lparr>tl_status := ?st\<rparr>) d1 = Inr (u, d2)"
    using assms unfolding syncTimelineStatus_def Let_def res_bind_Inr_iff split_paired_Ex prod.case Inr_inject by blast
  then have d2: "d2 = put_timelines (map (\<lambda>t. if tl_id t = i then t\<lparr>tl_status := ?st\<rparr> else t) (timelines (planning d1))) d1"
    unfolding update_timeline_Inr by blast
  have s: "set ?ss = set (stages_of i d1)" by (simp add: stages_of_def)
  then have "?ss = [] \<longleftrightarrow> stages_of i d1 = []" by (metis set_empty)
  moreover have "list_all (\<lambda>s. cs_status s \<in> set TERMINAL) ?ss \<longleftrightarrow> list_all terminal (stages_of i d1)"
    unfolding list_all_iff s terminal_def ..
  ultimately show ?thesis using that [OF d2] by simp
qed

text \<open>The timeline whose stages settled.\<close>

lemma settled_timeline:
  assumes "ss \<noteq> []" "st = TL_COMPLETED \<longleftrightarrow> list_all terminal (settle None ss)"
  shows "timeline_ok (settle None ss) (t\<lparr>tl_status := st\<rparr>)"
proof -
  have "settle None ss \<noteq> []" using assms(1) by (cases ss) simp_all
  then show ?thesis using settle_ready [of None None ss] assms(2) by (simp add: timeline_ok_def same_prev_def)
qed

lemma settle_rows:
  assumes "ok_but i d" "recomputeReadiness i d = Inr d1"
    and d2: "d2 = put_timelines (map (\<lambda>t. if tl_id t = i then t\<lparr>tl_status := st\<rparr> else t) (timelines (planning d1))) d1"
    and st: "stages_of i d1 \<noteq> [] \<longrightarrow> (st = TL_COMPLETED \<longleftrightarrow> list_all terminal (stages_of i d1))"
  shows "plan_ok d2" "rows_move (\<lambda>j. settles) d d2"
proof -
  have dist: "distinct (map cs_id (stages (planning d)))" using assms(1) by (simp add: ok_but_def keys_ok_def)
  obtain w where d1: "d1 = put_stages (map (restatus w) (stages (planning d))) d" and here: "stages_of i d1 = settle None (stages_of i d)"
    and there: "\<forall>j. j \<noteq> i \<longrightarrow> stages_of j d1 = stages_of j d"
    and moved: "\<forall>s \<in> set (stages (planning d)). settles (cs_status s) (cs_status (restatus w s))"
    using assms(2) dist by (rule recompute_Inr)
  have ss: "stages (planning d2) = map (restatus w) (stages (planning d))" unfolding d2 d1 plan_tables ..
  have tls: "timelines (planning d2) = map (\<lambda>t. if tl_id t = i then t\<lparr>tl_status := st\<rparr> else t) (timelines (planning d))"
    unfolding d2 d1 plan_tables ..
  have of2: "stages_of j d2 = stages_of j d1" for j by (simp add: stages_of_def d2)
  have "rows_move (\<lambda>j. settles) d (put_stages (map (restatus w) (stages (planning d))) d)"
    by (rule rows_move_map) (use moved in \<open>simp add: row_moves_def move_free_def base_kept_def\<close>)
  then show "rows_move (\<lambda>j. settles) d d2" unfolding rows_move_def ss plan_tables .
  have ids: "map cs_id (stages (planning d2)) = map cs_id (stages (planning d))"
    "map cs_timelineId (stages (planning d2)) = map cs_timelineId (stages (planning d))"
    unfolding ss by simp_all
  have tids: "map tl_id (timelines (planning d2)) = map tl_id (timelines (planning d))"
    "map tl_caseId (timelines (planning d2)) = map tl_caseId (timelines (planning d))"
    unfolding tls by simp_all
  have "keys_ok d2" using assms(1) keys_ok_cong [OF _ ids tids] by (simp add: ok_but_def)
  moreover have "timeline_ok (stages_of (tl_id t') d2) t'" if "t' \<in> set (timelines (planning d2))" for t'
  proof -
    from that obtain t where t: "t' = (if tl_id t = i then t\<lparr>tl_status := st\<rparr> else t)" "t \<in> set (timelines (planning d))"
      unfolding tls list.set_map by (elim imageE)
    have n: "stages_of (tl_id t) d \<noteq> []" and o: "tl_id t \<noteq> i \<longrightarrow> timeline_ok (stages_of (tl_id t) d) t"
      using assms(1) t(2) by (simp_all add: ok_but_def)
    show ?thesis
    proof (cases "tl_id t = i")
      case True
      have m: "settle None (stages_of i d) \<noteq> []" using n True by (cases "stages_of i d") simp_all
      have "t' = t\<lparr>tl_status := st\<rparr>" "tl_id t' = i" using t(1) True by simp_all
      then show ?thesis using settled_timeline [of "stages_of i d" st t] st n m True unfolding of2 by (simp add: here)
    next
      case False
      then have "t' = t" "stages_of (tl_id t) d1 = stages_of (tl_id t) d" using t(1) there by simp_all
      then show ?thesis using o False unfolding of2 by simp
    qed
  qed
  ultimately show "plan_ok d2" by (simp add: plan_ok_def)
qed

lemma settle_plan:
  assumes "ok_but i d" "recomputeReadiness i d = Inr d1" "syncTimelineStatus i d1 = Inr d2"
  shows "plan_ok d2" "rows_move (\<lambda>j. settles) d d2"
proof -
  obtain st where s: "d2 = put_timelines (map (\<lambda>t. if tl_id t = i then t\<lparr>tl_status := st\<rparr> else t) (timelines (planning d1))) d1"
    "stages_of i d1 \<noteq> [] \<longrightarrow> (st = TL_COMPLETED \<longleftrightarrow> list_all terminal (stages_of i d1))"
    using assms(3) by (rule sync_Inr)
  show "plan_ok d2" "rows_move (\<lambda>j. settles) d d2" by (rule settle_rows [OF assms(1,2) s])+
qed

section \<open>Writing one stage\<close>

lemma plan_cong:
  assumes "stages (planning d') = stages (planning d)" "timelines (planning d') = timelines (planning d)"
  shows "stages_of i d' = stages_of i d" "keys_ok d' = keys_ok d" "plan_ok d' = plan_ok d" "ok_but i d' = ok_but i d"
proof -
  show o: "stages_of i d' = stages_of i d" for i using assms by (simp add: stages_of_def)
  show k: "keys_ok d' = keys_ok d" using assms by (simp add: keys_ok_def)
  show "plan_ok d' = plan_ok d" by (simp add: plan_ok_def k o assms)
  show "ok_but i d' = ok_but i d" by (simp add: ok_but_def k o assms)
qed

lemma stage_event_tables [simp]:
  "stages (planning (stage_event E k t c i ev a b u n d)) = stages (planning d)"
  "timelines (planning (stage_event E k t c i ev a b u n d)) = timelines (planning d)"
  by (simp_all add: stage_event_def)

definition row_writer :: "CaseStageStatus \<Rightarrow> (CaseStage \<Rightarrow> CaseStage) \<Rightarrow> bool" where
  "row_writer to f \<longleftrightarrow> (\<forall>s. move_free s (f s) \<and> base_kept s (f s) \<and> cs_status (f s) = to)"

lemma write_ok_but:
  assumes "plan_ok d" "stage \<in> set (stages (planning d))" "row_writer to f" "update_stage (cs_id stage) f d = Inr (u, d1)"
  shows "ok_but (cs_timelineId stage) d1" "rows_move (\<lambda>j a b. if j = cs_id stage then a = cs_status stage \<and> b = to else a = b) d d1"
    "u = f stage"
proof -
  let ?g = "\<lambda>s. if cs_id s = cs_id stage then f s else s"
  have d1: "d1 = put_stages (map ?g (stages (planning d))) d" using assms(4) by (simp add: update_stage_Inr)
  have dist: "distinct (map cs_id (stages (planning d)))" using assms(1) by (simp add: plan_ok_def keys_ok_def)
  have row: "s = stage" if "s \<in> set (stages (planning d))" "cs_id s = cs_id stage" for s
    using same_row [OF dist that(1) assms(2) that(2)] .
  have f: "move_free s (f s)" "base_kept s (f s)" "cs_status (f s) = to" for s using assms(3) by (simp_all add: row_writer_def)
  have g: "cs_timelineId (?g s) = cs_timelineId s" "cs_sequence (?g s) = cs_sequence s" "cs_id (?g s) = cs_id s" for s
    using f(1) [of s] by (simp_all add: move_free_def)
  have ss: "stages (planning d1) = map ?g (stages (planning d))" unfolding d1 plan_tables ..
  have tls: "timelines (planning d1) = timelines (planning d)" unfolding d1 plan_tables ..
  have all: "stages_of j d1 = map ?g (stages_of j d)" for j unfolding d1 by (rule stages_of_map) (rule g)+
  have other: "stages_of j d1 = stages_of j d" if "j \<noteq> cs_timelineId stage" for j
    unfolding all
  proof (rule map_idI)
    fix s assume "s \<in> set (stages_of j d)"
    then have "s \<in> set (stages (planning d))" "cs_timelineId s = j" by (simp_all add: set_stages_of)
    then have "cs_id s \<noteq> cs_id stage" using row that by blast
    then show "?g s = s" by simp
  qed
  have ids: "map cs_id (stages (planning d1)) = map cs_id (stages (planning d))"
    "map cs_timelineId (stages (planning d1)) = map cs_timelineId (stages (planning d))"
    unfolding ss by (simp_all add: g)
  have k: "keys_ok d1" using assms(1) keys_ok_cong [OF _ ids] tls by (simp add: plan_ok_def)
  show "ok_but (cs_timelineId stage) d1"
    unfolding ok_but_def tls
  proof (intro conjI ballI impI k)
    fix t assume t: "t \<in> set (timelines (planning d))"
    then have ok: "timeline_ok (stages_of (tl_id t) d) t" using assms(1) by (simp add: plan_ok_def)
    then show "stages_of (tl_id t) d1 \<noteq> []" unfolding all by (simp add: timeline_ok_def)
    show "timeline_ok (stages_of (tl_id t) d1) t" if "tl_id t \<noteq> cs_timelineId stage" using ok other [OF that] by simp
  qed
  show "rows_move (\<lambda>j a b. if j = cs_id stage then a = cs_status stage \<and> b = to else a = b) d d1"
    unfolding d1
  proof (rule rows_move_map)
    fix s assume s: "s \<in> set (stages (planning d))"
    show "row_moves (\<lambda>j a b. if j = cs_id stage then a = cs_status stage \<and> b = to else a = b) s (?g s)"
    proof (cases "cs_id s = cs_id stage")
      case True
      then have "s = stage" using row [OF s] by blast
      then show ?thesis using f [of stage] by (simp add: row_moves_def)
    qed (simp add: row_moves_def)
  qed
  obtain q where q: "find_first (\<lambda>s. cs_id s = cs_id stage) (stages (planning d)) = Some q" "u = f q"
    using assms(4) unfolding update_stage_Inr by blast
  have "q = stage" by (rule row) (use find_first_SomeD [OF q(1)] in simp_all)
  then show "u = f stage" using q(2) by simp
qed

definition move_of :: "CaseStage \<Rightarrow> CaseStageStatus \<Rightarrow> string \<Rightarrow> CaseStageStatus \<Rightarrow> CaseStageStatus \<Rightarrow> bool" where
  "move_of stage to j a c \<longleftrightarrow> (if j = cs_id stage then a = cs_status stage \<and> settles to c else settles a c)"

lemma writeTransition_steps:
  assumes "writeTransition E ctx caseId stage from to event note d = Some (Inr (u, d'))"
  obtains d2 d3 out d4 where "recomputeReadiness (cs_timelineId stage)
      (stage_event E 5 (tenantId ctx) caseId (cs_id stage) event from to (Some (userId ctx)) note d) = Inr d2"
    "syncTimelineStatus (cs_timelineId stage) d2 = Inr d3" "recalcInTx (tenantId ctx) caseId (ev_clock E 6) d3 = Some (Inr (out, d4))"
    "planning d' = planning d4"
  using assms unfolding writeTransition_def run_bind_Inr lift_Inr split_paired_Ex prod.case run_return_eq prod.inject
  by (elim exE conjE) (rule that, assumption+, simp)

lemma writeTransition_plan:
  assumes "writeTransition E ctx caseId stage from to event note d = Some (Inr (u, d'))" "ok_but (cs_timelineId stage) d"
  shows "plan_ok d'" "rows_move (\<lambda>j. settles) d d'"
proof -
  let ?d = "stage_event E 5 (tenantId ctx) caseId (cs_id stage) event from to (Some (userId ctx)) note d"
  obtain d2 d3 out d4 where r: "recomputeReadiness (cs_timelineId stage) ?d = Inr d2"
    and s: "syncTimelineStatus (cs_timelineId stage) d2 = Inr d3" and c: "recalcInTx (tenantId ctx) caseId (ev_clock E 6) d3 = Some (Inr (out, d4))"
    and p: "planning d' = planning d4"
    using assms(1) by (rule writeTransition_steps)
  have e: "ok_but (cs_timelineId stage) ?d" using assms(2) plan_cong(4) [of ?d d] by simp
  note st = settle_plan [OF e r s]
  note rc = recalc_same_plan [OF c st(1)]
  show "plan_ok d'" using rc(1) plan_cong(3) [of d' d4] p by simp
  have "rows_move (\<lambda>j. settles) ?d d4"
    by (rule rows_move_mono [OF rows_move_trans [OF st(2) rc(2)]]) blast
  then show "rows_move (\<lambda>j. settles) d d'" by (simp add: rows_move_def p)
qed

lemma stage_write_plan:
  assumes "stage_write E ctx caseId stage f to event note d = Some (Inr (u, d'))" "plan_ok d"
    and "stage \<in> set (stages (planning d))" "row_writer to f"
  shows "plan_ok d'" "rows_move (move_of stage to) d d'" "u = f stage"
proof -
  obtain d1 where w: "update_stage (cs_id stage) f d = Inr (u, d1)"
    and t: "writeTransition E ctx caseId stage (cs_status stage) to event note d1 = Some (Inr ((), d'))"
    using assms(1) unfolding stage_write_def run_bind_Inr lift_Inr by (auto simp: run_bind_Inr)
  note a = write_ok_but [OF assms(2-4) w]
  note b = writeTransition_plan [OF t a(1)]
  show "plan_ok d'" by (rule b)
  show "u = f stage" by (rule a)
  show "rows_move (move_of stage to) d d'"
    by (rule rows_move_mono [OF rows_move_trans [OF a(2) b(2)]]) (auto simp: move_of_def split: if_splits)
qed

section \<open>The moves of a stage\<close>

definition may_move :: "CaseStageStatus \<Rightarrow> CaseStageStatus \<Rightarrow> bool" where
  "may_move a b \<longleftrightarrow> a = b \<or> (a, b) \<in> set [
     (SS_PENDING, SS_READY), (SS_READY, SS_PENDING), (SS_READY, SS_IN_PROGRESS),
     (SS_IN_PROGRESS, SS_WAITING_EXTERNAL), (SS_WAITING_EXTERNAL, SS_IN_PROGRESS), (SS_IN_PROGRESS, SS_COMPLETED),
     (SS_PENDING, SS_SKIPPED), (SS_READY, SS_SKIPPED), (SS_IN_PROGRESS, SS_SKIPPED), (SS_WAITING_EXTERNAL, SS_SKIPPED),
     (SS_COMPLETED, SS_IN_PROGRESS), (SS_SKIPPED, SS_READY), (SS_SKIPPED, SS_PENDING),
     (SS_PENDING, SS_BLOCKED), (SS_READY, SS_BLOCKED), (SS_IN_PROGRESS, SS_BLOCKED),
     (SS_BLOCKED, SS_IN_PROGRESS), (SS_BLOCKED, SS_READY), (SS_BLOCKED, SS_PENDING)]"

lemma settles_may: "settles a b \<Longrightarrow> may_move a b"
  by (auto simp: settles_def free_status_def may_move_def)

text \<open>What a step promises: the invariant, and allowed moves of the rows that were there.\<close>

definition step_keeps :: "db \<Rightarrow> db \<Rightarrow> bool" where
  "step_keeps d d' \<longleftrightarrow> plan_ok d' \<and>
     list_all2 (row_moves (\<lambda>j. may_move)) (stages (planning d)) (take (length (stages (planning d))) (stages (planning d')))"

lemma step_keepsI:
  assumes "plan_ok d'" "rows_move m d d'" "\<And>j a b. m j a b \<Longrightarrow> may_move a b"
  shows "step_keeps d d'"
proof -
  have "rows_move (\<lambda>j. may_move) d d'" using assms(2,3) by (rule rows_move_mono)
  then show ?thesis using assms(1) list_all2_lengthD unfolding step_keeps_def rows_move_def by fastforce
qed

lemma step_keeps_same: "plan_ok d \<Longrightarrow> planning d' = planning d \<Longrightarrow> step_keeps d d'"
  using plan_cong(3) [of d' d] by (simp add: step_keeps_def list_all2_same row_moves_def may_move_def)

lemma audit_same_plan: "audit_tx E k i d = Inr d' \<Longrightarrow> planning d' = planning d"
  by (rule audit_tx_tables(13))

lemma loadStage_Inr: "loadStage t c i d = Inr s \<Longrightarrow> s \<in> set (stages (planning d)) \<and> cs_id s = i"
  unfolding loadStage_def or_throw_simps by (drule find_first_SomeD) simp

lemma stage_write_keeps:
  assumes "stage_write E ctx caseId stage f to event note d = Some (Inr (u, d'))" "plan_ok d"
    and "loadStage t c i d = Inr stage" "row_writer to f" "\<And>b. settles to b \<Longrightarrow> may_move (cs_status stage) b"
  shows "step_keeps d d'"
proof -
  note w = stage_write_plan [OF assms(1,2) conjunct1 [OF loadStage_Inr [OF assms(3)]] assms(4)]
  have "may_move a b" if "move_of stage to j a b" for j a b
    using that assms(5) settles_may by (auto simp: move_of_def split: if_splits)
  with w(1,2) show ?thesis by (rule step_keepsI)
qed

lemmas stage_op = run_bind_Inr lift_Inr ensure_simps split_paired_Ex prod.case run_return_eq prod.inject

lemma settles_fixed:
  "settles SS_IN_PROGRESS b \<longleftrightarrow> b = SS_IN_PROGRESS" "settles SS_WAITING_EXTERNAL b \<longleftrightarrow> b = SS_WAITING_EXTERNAL"
  "settles SS_COMPLETED b \<longleftrightarrow> b = SS_COMPLETED" "settles SS_SKIPPED b \<longleftrightarrow> b = SS_SKIPPED"
  "settles SS_BLOCKED b \<longleftrightarrow> b = SS_BLOCKED" "settles SS_READY b \<longleftrightarrow> b = SS_READY \<or> b = SS_PENDING"
  by (auto simp: settles_def free_status_def)

lemma startStage_keeps:
  assumes "startStage E ctx caseId stageId d = Some (Inr (u, d'))" "plan_ok d"
  shows "step_keeps d d'"
proof -
  obtain stage where l: "loadStage (tenantId ctx) caseId stageId d = Inr stage" and s: "cs_status stage = SS_READY"
    and w: "stage_write E ctx caseId stage (\<lambda>s. s\<lparr>cs_status := SS_IN_PROGRESS, cs_startedAt := Some (ev_clock E 1)\<rparr>)
       SS_IN_PROGRESS ''STARTED'' None d = Some (Inr (u, d'))"
    using assms(1) unfolding startStage_def stage_op by blast
  show ?thesis
    by (rule stage_write_keeps [OF w assms(2) l])
      (simp_all add: row_writer_def move_free_def base_kept_def settles_fixed s may_move_def)
qed

lemma skipStage_keeps:
  assumes "skipStage E ctx caseId stageId why d = Some (Inr (u, d'))" "plan_ok d"
  shows "step_keeps d d'"
proof -
  obtain stage where l: "loadStage (tenantId ctx) caseId stageId d = Inr stage" and s: "cs_status stage \<in> set SKIPPABLE"
    and w: "stage_write E ctx caseId stage (\<lambda>s. s\<lparr>cs_status := SS_SKIPPED\<rparr>)
       SS_SKIPPED ''SKIPPED'' (Some (trim (or_empty why))) d = Some (Inr (u, d'))"
    using assms(1) unfolding skipStage_def stage_op by blast
  from s have "may_move (cs_status stage) SS_SKIPPED" by (auto simp: SKIPPABLE_def may_move_def)
  then show ?thesis
    by (intro stage_write_keeps [OF w assms(2) l]) (simp_all add: row_writer_def move_free_def base_kept_def settles_fixed)
qed

lemma pauseStage_keeps:
  assumes "pauseStage E ctx caseId stageId d = Some (Inr (u, d'))" "plan_ok d"
  shows "step_keeps d d'"
proof -
  obtain stage where l: "loadStage (tenantId ctx) caseId stageId d = Inr stage" and s: "cs_status stage = SS_IN_PROGRESS"
    and w: "stage_write E ctx caseId stage (\<lambda>s. s\<lparr>cs_status := SS_WAITING_EXTERNAL\<rparr>)
       SS_WAITING_EXTERNAL ''PAUSED'' None d = Some (Inr (u, d'))"
    using assms(1) unfolding pauseStage_def stage_op by blast
  show ?thesis
    by (rule stage_write_keeps [OF w assms(2) l])
      (simp_all add: row_writer_def move_free_def base_kept_def settles_fixed s may_move_def)
qed

lemma resumeStage_keeps:
  assumes "resumeStage E ctx caseId stageId d = Some (Inr (u, d'))" "plan_ok d"
  shows "step_keeps d d'"
proof -
  obtain stage where l: "loadStage (tenantId ctx) caseId stageId d = Inr stage" and s: "cs_status stage = SS_WAITING_EXTERNAL"
    and w: "stage_write E ctx caseId stage (\<lambda>s. s\<lparr>cs_status := SS_IN_PROGRESS\<rparr>)
       SS_IN_PROGRESS ''RESUMED'' None d = Some (Inr (u, d'))"
    using assms(1) unfolding resumeStage_def stage_op by blast
  show ?thesis
    by (rule stage_write_keeps [OF w assms(2) l])
      (simp_all add: row_writer_def move_free_def base_kept_def settles_fixed s may_move_def)
qed

lemma reopenStage_keeps:
  assumes "reopenStage E ctx caseId stageId d = Some (Inr (u, d'))" "plan_ok d"
  shows "step_keeps d d'"
proof -
  obtain stage where l: "loadStage (tenantId ctx) caseId stageId d = Inr stage"
    and w: "(if cs_status stage = SS_COMPLETED
       then stage_write E ctx caseId stage (\<lambda>s. s\<lparr>cs_status := SS_IN_PROGRESS, cs_completedAt := None\<rparr>) SS_IN_PROGRESS ''REOPENED'' None d
       else if cs_status stage = SS_SKIPPED
       then stage_write E ctx caseId stage (\<lambda>s. s\<lparr>cs_status := SS_READY\<rparr>) SS_READY ''REOPENED'' None d
       else lift (Inl (BusinessRuleViolationError ''Only a COMPLETED or SKIPPED stage can be reopened.''))) = Some (Inr (u, d'))"
    using assms(1) unfolding reopenStage_def stage_op by blast
  show ?thesis
  proof (cases "cs_status stage = SS_COMPLETED")
    case True
    show ?thesis
      by (rule stage_write_keeps [OF w [unfolded if_P [OF True]] assms(2) l])
        (simp_all add: row_writer_def move_free_def base_kept_def settles_fixed True may_move_def)
  next
    case False
    then have s: "cs_status stage = SS_SKIPPED" using w by (simp add: lift_def split: if_splits)
    show ?thesis
      by (rule stage_write_keeps [OF w [unfolded if_not_P [OF False] if_P [OF s]] assms(2) l])
        (auto simp: row_writer_def move_free_def base_kept_def settles_fixed s may_move_def)
  qed
qed

lemma completeStage_keeps:
  assumes "completeStage J rnd E ctx caseId stageId override why d = Some (Inr (u, d'))" "plan_ok d"
  shows "step_keeps d d'"
proof -
  obtain stage nt v d1 where l: "loadStage (tenantId ctx) caseId stageId d = Inr stage" and s: "cs_status stage = SS_IN_PROGRESS"
    and w: "stage_write E ctx caseId stage
        (\<lambda>s. s\<lparr>cs_status := SS_COMPLETED, cs_completedAt := Some (ev_clock E 1), cs_slaState := final_sla stage (ev_clock E 1)\<rparr>)
        SS_COMPLETED ''COMPLETED'' nt d = Some (Inr (v, d1))"
    and d': "\<exists>ty. d' = refreshSummaryInTx rnd (tenantId ctx) ty (cs_key stage) d1"
    using assms(1) unfolding completeStage_def stage_op by blast
  have k: "step_keeps d d1"
    by (rule stage_write_keeps [OF w assms(2) l])
      (simp_all add: row_writer_def move_free_def base_kept_def settles_fixed s may_move_def)
  have "stages (planning (refreshSummaryInTx rnd t ty key e)) = stages (planning e)"
    "timelines (planning (refreshSummaryInTx rnd t ty key e)) = timelines (planning e)" for t ty key e
    by (simp_all add: refreshSummaryInTx_def refreshOne_def Let_def)
  then have e: "stages (planning d') = stages (planning d1)" "timelines (planning d') = timelines (planning d1)" using d' by auto
  show ?thesis using k plan_cong(3) [OF e] by (simp add: step_keeps_def e)
qed

section \<open>Operations without a transition\<close>

text \<open>Steps that keep every status.\<close>

lemma keeps_eq: "plan_ok d' \<Longrightarrow> rows_move (\<lambda>j a b. a = b) d d' \<Longrightarrow> step_keeps d d'"
  by (rule step_keepsI [where m = "\<lambda>j a b. a = b"]) (assumption+, simp add: may_move_def)

lemma rows_move_same:
  assumes "stages (planning e) = stages (planning d)" "stages (planning e') = stages (planning d')"
  shows "rows_move m e e' = rows_move m d d'"
  by (simp add: rows_move_def assms)

lemma timeline_write_plan:
  assumes "update_timeline i f d = Inr (u, d1)" "\<And>t. timeline_face (f t) = timeline_face t" "plan_ok d"
  shows "plan_ok d1" "stages (planning d1) = stages (planning d)"
proof -
  note f = update_timeline_face [OF assms(1,2)]
  have "same_plan d d1" unfolding same_plan_def using f by simp
  with assms(3) show "plan_ok d1" by (rule same_plan_ok)
  show "stages (planning d1) = stages (planning d)" by (rule f)
qed

lemma setTarget_keeps:
  assumes "setTarget E ctx caseId target d = Some (Inr (u, d'))" "plan_ok d"
  shows "step_keeps d d'"
proof -
  obtain parsed and tm :: CaseTimeline and v d1 d2 where w: "update_timeline (tl_id tm) (retarget parsed tm) d = Inr (v, d1)"
    and r: "recalcInTx (tenantId ctx) caseId (ev_clock E 6) d1 = Some (Inr (u, d2))" and p: "\<exists>k i. audit_tx E k i d2 = Inr d'"
    using assms(1) unfolding setTarget_def stage_op by blast
  have "timeline_face (retarget parsed tm t) = timeline_face t" for t by (simp add: retarget_def timeline_face_def)
  note t = timeline_write_plan [OF w this assms(2)]
  note rc = recalc_same_plan [OF r t(1)]
  have e: "planning d' = planning d2" using p audit_same_plan by blast
  show ?thesis using keeps_eq [of d' d] rc plan_cong(3) [of d' d2] rows_move_same [of d d1 d' d2] t(2) by (simp add: e)
qed

lemma recalc_keeps:
  assumes "recalc E ctx caseId d = Some (Inr (u, d'))" "plan_ok d"
  shows "step_keeps d d'"
proof -
  obtain d2 where r: "recalcInTx (tenantId ctx) caseId (ev_clock E 6) d = Some (Inr (u, d2))" and p: "\<exists>k i. audit_tx E k i d2 = Inr d'"
    using assms(1) unfolding recalc_def stage_op by blast
  note rc = recalc_same_plan [OF r assms(2)]
  have e: "planning d' = planning d2" using p audit_same_plan by blast
  show ?thesis using keeps_eq [of d' d] rc plan_cong(3) [of d' d2] rows_move_same [of d d d' d2] by (simp add: e)
qed

lemma approveException_keeps:
  assumes "approveException E ctx caseId why d = Inr (u, d')" "plan_ok d"
  shows "step_keeps d d'"
proof -
  obtain tm :: CaseTimeline and f v d1 where w: "update_timeline (tl_id tm) f d = Inr (v, d1)"
    and f: "f = (\<lambda>t. t\<lparr>tl_exceptionApproved := True, tl_exceptionReason := Some (trim (or_empty why)),
        tl_exceptionApprovedBy := Some (userId ctx), tl_exceptionApprovedAt := Some (ev_clock E 1)\<rparr>)"
    and p: "\<exists>k i. audit_tx E k i d1 = Inr d'"
    using assms(1) unfolding approveException_def res_bind_Inr_iff ensure_simps split_paired_Ex prod.case Inr_inject prod.inject by blast
  have "timeline_face (f t) = timeline_face t" for t by (simp add: f timeline_face_def)
  note t = timeline_write_plan [OF w this assms(2)]
  have e: "planning d' = planning d1" using p audit_same_plan by blast
  show ?thesis
    using keeps_eq [of d' d] rows_same_stages [of d' d "\<lambda>j a b. a = b"] plan_cong(3) [of d' d1] t by (simp add: e)
qed

lemma overrideDuration_keeps:
  assumes "overrideDuration E ctx caseId stageId rd why d = Some (Inr (u, d'))" "plan_ok d"
  shows "step_keeps d d'"
proof -
  obtain n and stage :: CaseStage and v d1 ev d2 where w: "update_stage (cs_id stage) (\<lambda>s. s\<lparr>cs_remainingDurationOverride := Some n\<rparr>) d = Inr (v, d1)"
    and r: "recalcInTx (tenantId ctx) caseId (ev_clock E 6) (stage_event E 5 (tenantId ctx) caseId (cs_id stage) ''DURATION_OVERRIDDEN''
        (cs_status stage) (cs_status stage) (Some (userId ctx)) ev d1) = Some (Inr (u, d2))"
    and p: "\<exists>k i. audit_tx E k i d2 = Inr d'"
    using assms(1) unfolding overrideDuration_def stage_op by blast
  let ?g = "\<lambda>s. if cs_id s = cs_id stage then s\<lparr>cs_remainingDurationOverride := Some n\<rparr> else s"
  let ?e = "stage_event E 5 (tenantId ctx) caseId (cs_id stage) ''DURATION_OVERRIDDEN'' (cs_status stage) (cs_status stage) (Some (userId ctx)) ev d1"
  have d1: "d1 = put_stages (map ?g (stages (planning d))) d" using w by (simp add: update_stage_Inr)
  have m: "rows_move (\<lambda>j a b. a = b) d d1"
    unfolding d1 by (rule rows_move_map) (simp add: row_moves_def move_free_def base_kept_def)
  have "timelines (planning d1) = timelines (planning d)" by (simp add: d1)
  then have "same_plan d d1" unfolding same_plan_def using rows_move_face [OF m] by simp
  then have "plan_ok d1" by (rule same_plan_ok [OF assms(2)])
  then have "plan_ok ?e" using plan_cong(3) [of ?e d1] by simp
  note rc = recalc_same_plan [OF r this]
  have e: "planning d' = planning d2" using p audit_same_plan by blast
  have "rows_move (\<lambda>j a b. a = b) d1 d'" using rc(2) rows_move_same [of d1 ?e d' d2] by (simp add: e)
  from rows_move_trans [OF m this] have "rows_move (\<lambda>j a b. a = b) d d'" by simp
  moreover have "plan_ok d'" using rc(1) plan_cong(3) [of d' d2] by (simp add: e)
  ultimately show ?thesis by (intro keeps_eq)
qed

lemma unlock_write_plan:
  assumes "unlock_write E ctx caseId stage note d = Inr (u, d')" "plan_ok d" "stage \<in> set (stages (planning d))"
  shows "plan_ok d'" "rows_move (move_of stage (if cs_startedAt stage \<noteq> None then SS_IN_PROGRESS else SS_READY)) d d'"
proof -
  let ?to = "if cs_startedAt stage \<noteq> None then SS_IN_PROGRESS else SS_READY"
  obtain f v d1 d2 d3 where w: "update_stage (cs_id stage) f d = Inr (v, d1)" and r: "recomputeReadiness (cs_timelineId stage) d1 = Inr d2"
    and f: "f = (\<lambda>s. s\<lparr>cs_status := ?to, cs_hardBlockUnlockedAt := Some (ev_clock E 1),
           cs_hardBlockUnlockedBy := Some (userId ctx), cs_hardBlockUnlockedReason := Some note\<rparr>)"
    and s: "syncTimelineStatus (cs_timelineId stage) d2 = Inr d3"
    and p: "\<exists>k i e st n. audit_tx E k i (stage_event E 5 (tenantId ctx) caseId (cs_id stage) ''UNBLOCKED'' SS_BLOCKED st e n d3) = Inr d'"
    using assms(1) unfolding unlock_write_def Let_def res_bind_Inr_iff split_paired_Ex prod.case Inr_inject prod.inject by blast
  have "row_writer ?to f" by (simp add: row_writer_def f move_free_def base_kept_def)
  note a = write_ok_but [OF assms(2,3) this w]
  note st = settle_plan [OF a(1) r s]
  have e: "stages (planning d') = stages (planning d3)" "timelines (planning d') = timelines (planning d3)"
    using p audit_same_plan by fastforce+
  show "plan_ok d'" using st(1) plan_cong(3) [OF e] by simp
  have "rows_move (move_of stage ?to) d d3"
    by (rule rows_move_mono [OF rows_move_trans [OF a(2) st(2)]]) (auto simp: move_of_def split: if_splits)
  then show "rows_move (move_of stage ?to) d d'" by (simp add: rows_move_def e)
qed

lemma unlockStage_keeps:
  assumes "unlockStage E ctx caseId stageId why d = Inr (u, d')" "plan_ok d"
  shows "step_keeps d d'"
proof -
  obtain stage where l: "loadStage (tenantId ctx) caseId stageId d = Inr stage" and b: "cs_status stage = SS_BLOCKED"
    and w: "unlock_write E ctx caseId stage (trim (or_empty why)) d = Inr (u, d')"
    using assms(1) unfolding unlockStage_def res_bind_Inr_iff ensure_simps by blast
  note p = unlock_write_plan [OF w assms(2) conjunct1 [OF loadStage_Inr [OF l]]]
  have "may_move x y" if "move_of stage (if cs_startedAt stage \<noteq> None then SS_IN_PROGRESS else SS_READY) j x y" for j x y
    using that settles_may [of x y] by (auto simp: move_of_def b settles_fixed may_move_def split: if_splits)
  with p show ?thesis by (rule step_keepsI)
qed

text \<open>A stage of a timeline is found by the actions on it.\<close>

lemma stage_found:
  assumes "plan_ok d" "t \<in> set (timelines (planning d))" "s \<in> set (stages_of (tl_id t) d)"
  shows "loadStage (cs_tenantId s) (tl_caseId t) (cs_id s) d = Inr s"
proof -
  let ?p = "\<lambda>q. cs_id q = cs_id s \<and> cs_tenantId q = cs_tenantId s
        \<and> (\<exists>u \<in> set (timelines (planning d)). tl_id u = cs_timelineId q \<and> tl_caseId u = tl_caseId t)"
  have s: "s \<in> set (stages (planning d))" "cs_timelineId s = tl_id t" using assms(3) by (simp_all add: set_stages_of)
  then have "?p s" using assms(2) by auto
  then have "find_first ?p (stages (planning d)) \<noteq> None" unfolding find_first_def find_None_iff using s(1) by blast
  then obtain q where q: "find_first ?p (stages (planning d)) = Some q" by blast
  have "distinct (map cs_id (stages (planning d)))" using assms(1) by (simp add: plan_ok_def keys_ok_def)
  then have "q = s" using find_first_SomeD [OF q] s(1) by (intro same_row [of cs_id]) simp_all
  then show ?thesis using q by (simp add: loadStage_def)
qed

section \<open>A new timeline\<close>

lemma settle_terminal: "list_all terminal (settle prev ss) = list_all terminal ss"
  by (induction ss arbitrary: prev) simp_all

text \<open>A new timeline is active and has open stages, so its status needs no update.\<close>

lemma settle_active:
  assumes "ok_but i d" "recomputeReadiness i d = Inr d1" "\<forall>t \<in> set (timelines (planning d)). tl_id t = i \<longrightarrow> tl_status t = TL_ACTIVE"
    and "\<not> list_all terminal (stages_of i d)"
  shows "plan_ok d1" "rows_move (\<lambda>j. settles) d d1"
proof -
  have dist: "distinct (map cs_id (stages (planning d)))" using assms(1) by (simp add: ok_but_def keys_ok_def)
  obtain w where d1: "d1 = put_stages (map (restatus w) (stages (planning d))) d" and here: "stages_of i d1 = settle None (stages_of i d)"
    using assms(2) dist by (rule recompute_Inr)
  have "(if tl_id t = i then t\<lparr>tl_status := TL_ACTIVE\<rparr> else t) = t" if "t \<in> set (timelines (planning d))" for t :: CaseTimeline
    using assms(3) that by (cases t) auto
  then have "map (\<lambda>t. if tl_id t = i then t\<lparr>tl_status := TL_ACTIVE\<rparr> else t) (timelines (planning d1)) = timelines (planning d1)"
    unfolding d1 plan_tables by (intro map_idI)
  then have "d1 = put_timelines (map (\<lambda>t. if tl_id t = i then t\<lparr>tl_status := TL_ACTIVE\<rparr> else t) (timelines (planning d1))) d1"
    by (simp add: put_timelines_def)
  moreover have "stages_of i d1 \<noteq> [] \<longrightarrow> (TL_ACTIVE = TL_COMPLETED \<longleftrightarrow> list_all terminal (stages_of i d1))"
    using assms(4) unfolding here settle_terminal by simp
  ultimately show "plan_ok d1" "rows_move (\<lambda>j. settles) d d1" by (rule settle_rows [OF assms(1,2)])+
qed

definition fresh_rows :: "env \<Rightarrow> db \<Rightarrow> bool" where
  "fresh_rows E d \<longleftrightarrow> inj (ev_uuid E) \<and> (\<forall>k. ev_uuid E k \<notin> cs_id ` set (stages (planning d)))
     \<and> (\<forall>k. ev_uuid E k \<notin> tl_id ` set (timelines (planning d)))"

definition stage_rows :: "env \<Rightarrow> UserContext \<Rightarrow> CaseStageTemplate list \<Rightarrow> CaseStage list" where
  "stage_rows E ctx templates = map (\<lambda>(i, tpl). stage_row E ctx (ev_uuid E 1) i tpl) (enumerate 0 templates)"

lemma stage_rows_facts:
  assumes "inj (ev_uuid E)"
  shows "distinct (map cs_id (stage_rows E ctx templates))" "\<forall>s \<in> set (stage_rows E ctx templates). cs_timelineId s = ev_uuid E 1
     \<and> cs_id s \<in> range (ev_uuid E) \<and> \<not> terminal s" "stage_rows E ctx templates = [] \<longleftrightarrow> templates = []"
proof -
  have off: "inj (\<lambda>i. ev_uuid E (100 + i))" by (rule injI) (drule injD [OF assms], simp)
  have id: "cs_id (stage_row E ctx t i tpl) = ev_uuid E (100 + i)" for t i tpl by (simp add: stage_row_def)
  have "map cs_id (stage_rows E ctx templates) = map (\<lambda>i. ev_uuid E (100 + i)) (map fst (enumerate 0 templates))"
    unfolding stage_rows_def map_map comp_def case_prod_beta id ..
  also have "\<dots> = map (\<lambda>i. ev_uuid E (100 + i)) [0..<length templates]" by simp
  finally show "distinct (map cs_id (stage_rows E ctx templates))"
    using inj_on_subset [OF off subset_UNIV] by (simp add: distinct_map)
  show "\<forall>s \<in> set (stage_rows E ctx templates). cs_timelineId s = ev_uuid E 1 \<and> cs_id s \<in> range (ev_uuid E) \<and> \<not> terminal s"
    unfolding stage_rows_def by (auto simp: stage_row_def terminal_def TERMINAL_def)
  show "stage_rows E ctx templates = [] \<longleftrightarrow> templates = []"
    unfolding stage_rows_def by (metis length_0_conv length_enumerate length_map)
qed

lemma new_rows:
  assumes "plan_ok d" "fresh_rows E d" "templates \<noteq> []" "caseId \<notin> tl_caseId ` set (timelines (planning d))"
    and d0: "d0 = timeline_rows E ctx caseId caseTypeId templates d"
  shows "ok_but (ev_uuid E 1) d0" "\<not> list_all terminal (stages_of (ev_uuid E 1) d0)"
    "\<forall>t \<in> set (timelines (planning d0)). tl_id t = ev_uuid E 1 \<longrightarrow> tl_status t = TL_ACTIVE"
    "stages (planning d0) = stages (planning d) @ stage_rows E ctx templates"
proof -
  let ?i = "ev_uuid E 1"
  let ?new = "stage_rows E ctx templates"
  let ?t = "new_timeline E ctx caseId caseTypeId"
  have inj: "inj (ev_uuid E)" and fs: "\<forall>k. ev_uuid E k \<notin> cs_id ` set (stages (planning d))"
    and ft: "\<forall>k. ev_uuid E k \<notin> tl_id ` set (timelines (planning d))" using assms(2) by (simp_all add: fresh_rows_def)
  note nf = stage_rows_facts [OF inj, of ctx templates]
  have ti: "tl_id ?t = ?i" "tl_caseId ?t = caseId" "tl_status ?t = TL_ACTIVE" by (simp_all add: new_timeline_def)
  show ss: "stages (planning d0) = stages (planning d) @ ?new" by (simp add: d0 timeline_rows_def Let_def stage_rows_def ti)
  have tls: "timelines (planning d0) = timelines (planning d) @ [?t]" by (simp add: d0 timeline_rows_def Let_def)
  have k: "keys_ok d" using assms(1) by (simp add: plan_ok_def)
  have old: "cs_timelineId s \<in> tl_id ` set (timelines (planning d))" if "s \<in> set (stages (planning d))" for s
    using k that by (simp add: keys_ok_def)
  then have no_old: "cs_timelineId s \<noteq> ?i" if "s \<in> set (stages (planning d))" for s using ft that by metis
  have fo: "filter (\<lambda>s. cs_timelineId s = ?i) (stages (planning d)) = []" using no_old by (simp add: filter_empty_conv)
  have "filter (\<lambda>s. cs_timelineId s = ?i) ?new = ?new" using nf(2) by (simp add: filter_id_conv)
  then have here: "stages_of ?i d0 = sort_key cs_sequence ?new" using fo by (simp add: stages_of_def ss)
  have there: "stages_of j d0 = stages_of j d" if "j \<noteq> ?i" for j
  proof -
    have "filter (\<lambda>s. cs_timelineId s = j) ?new = []" using nf(2) that by (simp add: filter_empty_conv)
    then show ?thesis by (simp add: stages_of_def ss)
  qed
  have ne: "?new \<noteq> []" using nf(3) assms(3) by simp
  then obtain s where "s \<in> set ?new" by (cases ?new) auto
  then show "\<not> list_all terminal (stages_of ?i d0)" using nf(2) unfolding here by (auto simp: list_all_iff)
  show "\<forall>t \<in> set (timelines (planning d0)). tl_id t = ?i \<longrightarrow> tl_status t = TL_ACTIVE"
    using ft ti unfolding tls by (metis Un_iff empty_iff image_eqI list.set(1) list.set(2) insertE set_append)
  have "cs_id s \<noteq> cs_id q" if "s \<in> set (stages (planning d))" "q \<in> set ?new" for s q
  proof
    assume e: "cs_id s = cs_id q"
    have "cs_id q \<in> range (ev_uuid E)" using nf(2) that(2) by blast
    then obtain k where "cs_id q = ev_uuid E k" by (elim rangeE)
    then have "ev_uuid E k \<in> cs_id ` set (stages (planning d))" using e that(1) by (metis imageI)
    then show False using fs by blast
  qed
  then have "cs_id ` set (stages (planning d)) \<inter> cs_id ` set ?new = {}" by fastforce
  then have "distinct (map cs_id (stages (planning d0)))" using k nf(1) by (simp add: ss keys_ok_def)
  moreover have "distinct (map tl_id (timelines (planning d0)))" "distinct (map tl_caseId (timelines (planning d0)))"
    using k ft assms(4) by (simp_all add: tls ti keys_ok_def)
  moreover have "\<forall>s \<in> set (stages (planning d0)). cs_timelineId s \<in> tl_id ` set (timelines (planning d0))"
    using old nf(2) by (auto simp: ss tls ti)
  ultimately have k0: "keys_ok d0" by (simp add: keys_ok_def)
  have "stages_of (tl_id t) d0 \<noteq> [] \<and> (tl_id t \<noteq> ?i \<longrightarrow> timeline_ok (stages_of (tl_id t) d0) t)" if t: "t \<in> set (timelines (planning d0))" for t
  proof (cases "tl_id t = ?i")
    case True
    then show ?thesis using here ne by (metis length_0_conv length_sort)
  next
    case False
    then have "t \<in> set (timelines (planning d))" using t ti by (auto simp: tls)
    then show ?thesis using assms(1) there [OF False] by (simp add: plan_ok_def timeline_ok_def)
  qed
  then show "ok_but ?i d0" using k0 by (simp add: ok_but_def)
qed

lemma createTimeline_keeps:
  assumes "createTimeline E ctx caseId d = Inr (u, d')" "plan_ok d" "fresh_rows E d"
  shows "step_keeps d d'"
proof -
  have ti: "tl_id (new_timeline E ctx caseId ty) = ev_uuid E 1" for ty by (simp add: new_timeline_def)
  obtain ctype :: CaseType and templates d1 where n: "templates \<noteq> []" and c: "find_first (\<lambda>t. tl_caseId t = caseId) (timelines (planning d)) = None"
    and r: "recomputeReadiness (ev_uuid E 1) (timeline_rows E ctx caseId (ct_id ctype) templates d) = Inr d1" and p: "\<exists>k i. audit_tx E k i d1 = Inr d'"
    using assms(1) unfolding createTimeline_def Let_def res_bind_Inr_iff ensure_simps split_paired_Ex prod.case Inr_inject prod.inject ti
    by blast
  let ?d = "timeline_rows E ctx caseId (ct_id ctype) templates d"
  have "caseId \<notin> tl_caseId ` set (timelines (planning d))" using c by (auto simp: find_first_def find_None_iff)
  note nr = new_rows [OF assms(2,3) n this refl, of ctx "ct_id ctype"]
  note st = settle_active [OF nr(1) r nr(3,2)]
  have e: "planning d' = planning d1" using p audit_same_plan by blast
  have "plan_ok d'" using st(1) plan_cong(3) [of d' d1] e by simp
  moreover have "list_all2 (row_moves (\<lambda>j. may_move)) (stages (planning d) @ stage_rows E ctx templates) (stages (planning d'))"
    using rows_move_mono [OF st(2), of "\<lambda>j. may_move"] settles_may unfolding rows_move_def nr(4) e by blast
  then have "list_all2 (row_moves (\<lambda>j. may_move)) (stages (planning d)) (take (length (stages (planning d))) (stages (planning d')))"
    unfolding list_all2_append1 by (auto dest: list_all2_lengthD)
  ultimately show ?thesis by (simp add: step_keeps_def)
qed

section \<open>The sweep\<close>

definition blocks :: "CaseStageStatus \<Rightarrow> CaseStageStatus \<Rightarrow> bool" where
  "blocks a b \<longleftrightarrow> a = b \<or> (a = SS_PENDING \<or> a = SS_READY \<or> a = SS_IN_PROGRESS) \<and> b = SS_BLOCKED"

lemma blocks_may: "blocks a b \<Longrightarrow> may_move a b"
  by (auto simp: blocks_def may_move_def)

lemma blocks_trans: "blocks a b \<Longrightarrow> blocks b c \<Longrightarrow> blocks a c"
  by (auto simp: blocks_def)

definition blocked_row :: "CaseStage \<Rightarrow> CaseStage \<Rightarrow> bool" where
  "blocked_row s s' \<longleftrightarrow> move_free s s' \<and> blocks (cs_status s) (cs_status s')"

lemma blocked_terminal: "blocked_row s s' \<Longrightarrow> terminal s' \<longleftrightarrow> terminal s"
  by (auto simp: blocked_row_def blocks_def terminal_def TERMINAL_def)

text \<open>A blocked stage is not finished either, so nothing after it becomes ready.\<close>

lemma blocked_ready:
  assumes "list_all2 blocked_row ss ss'" "same_prev p q" "ready_from p ss"
  shows "ready_from q ss'"
  using assms
proof (induction arbitrary: p q rule: list_all2_induct)
  case (Cons s ss s' ss')
  have e: "eligible q s' \<longleftrightarrow> eligible p s" using eligible_prev [OF Cons.prems(1), of s s'] Cons.hyps(1) by (simp add: blocked_row_def move_free_def)
  have "same_prev (Some s) (Some s')" using blocked_terminal [OF Cons.hyps(1)] by (simp add: same_prev_def)
  then have "ready_from (Some s') ss'" using Cons.IH Cons.prems(2) by simp
  moreover have "cs_status s' = cs_status s \<or> \<not> startable s'"
    using Cons.hyps(1) by (auto simp: blocked_row_def blocks_def startable_def)
  ultimately show ?case using Cons.prems(2) e by (auto simp: startable_def)
qed simp

lemma list_all2_insort:
  assumes "\<And>x y. R x y \<Longrightarrow> k y = k x" "R x y" "list_all2 R xs ys"
  shows "list_all2 R (insort_key k x xs) (insort_key k y ys)"
  using assms(3)
proof (induction rule: list_all2_induct)
  case (Cons u us v vs)
  then show ?case using assms(1) [OF assms(2)] assms(1) [OF Cons.hyps(1)] assms(2) by auto
qed (simp add: assms(2))

lemma list_all2_sort:
  assumes "\<And>x y. R x y \<Longrightarrow> k y = k x" "list_all2 R xs ys"
  shows "list_all2 R (sort_key k xs) (sort_key k ys)"
  using assms(2) by (induction rule: list_all2_induct) (simp_all add: list_all2_insort [OF assms(1)])

lemma list_all2_filter:
  assumes "\<And>x y. R x y \<Longrightarrow> P y = P x" "list_all2 R xs ys"
  shows "list_all2 R (filter P xs) (filter P ys)"
  using assms(2) by (induction rule: list_all2_induct) (simp_all add: assms(1))

lemma blocked_stages:
  assumes "rows_move (\<lambda>j. blocks) d d'"
  shows "list_all2 blocked_row (stages_of i d) (stages_of i d')"
proof -
  have "list_all2 blocked_row (stages (planning d)) (stages (planning d'))"
    using assms unfolding rows_move_def by (rule list_all2_mono) (simp add: row_moves_def blocked_row_def)
  then have "list_all2 blocked_row (filter (\<lambda>s. cs_timelineId s = i) (stages (planning d))) (filter (\<lambda>s. cs_timelineId s = i) (stages (planning d')))"
    by (rule list_all2_filter [rotated]) (simp add: blocked_row_def move_free_def)
  then show ?thesis unfolding stages_of_def by (rule list_all2_sort [rotated]) (simp add: blocked_row_def move_free_def)
qed

lemma rows_move_ids:
  assumes "rows_move m d d'"
  shows "map cs_id (stages (planning d')) = map cs_id (stages (planning d))"
    "map cs_timelineId (stages (planning d')) = map cs_timelineId (stages (planning d))"
  using assms unfolding rows_move_def by (induction rule: list_all2_induct) (simp_all add: row_moves_def move_free_def)

lemma blocked_plan:
  assumes "plan_ok d" "rows_move (\<lambda>j. blocks) d d'" "timelines (planning d') = timelines (planning d)"
  shows "plan_ok d'"
proof -
  have "keys_ok d'" using assms(1) keys_ok_cong [OF _ rows_move_ids [OF assms(2)]] assms(3) by (simp add: plan_ok_def)
  moreover have "timeline_ok (stages_of (tl_id t) d') t" if t: "t \<in> set (timelines (planning d'))" for t
  proof -
    have b: "list_all2 blocked_row (stages_of (tl_id t) d) (stages_of (tl_id t) d')" by (rule blocked_stages [OF assms(2)])
    have ok: "timeline_ok (stages_of (tl_id t) d) t" using assms(1,3) t by (simp add: plan_ok_def)
    have "list_all terminal (stages_of (tl_id t) d') = list_all terminal (stages_of (tl_id t) d)"
      using b by (induction rule: list_all2_induct) (simp_all add: blocked_terminal)
    moreover have "stages_of (tl_id t) d' \<noteq> []" using b ok by (auto simp: timeline_ok_def)
    moreover have "ready_from None (stages_of (tl_id t) d')" using blocked_ready [OF b, of None None] ok by (simp add: same_prev_def timeline_ok_def)
    ultimately show ?thesis using ok by (simp add: timeline_ok_def)
  qed
  ultimately show ?thesis by (simp add: plan_ok_def)
qed

end
