(* ===== verification/Field_Value_Props.thy ===== *)
theory Field_Value_Props
  imports Field_Value_Service
begin

text \<open>
  What the values of custom fields keep: a patch writes exactly what its entries say, once, with a
  new version and one line of history each; a write prepared from an older version is refused; and
  the check of required fields agrees with the form.
\<close>

section \<open>Maps built in order\<close>

lemma js_map_distinct: "distinct (map fst kvs) \<Longrightarrow> js_map kvs k = Some v \<longleftrightarrow> (k, v) \<in> set kvs"
  by (simp add: js_map_def rev_map [symmetric])

lemma js_map_types:
  assumes "\<And>f. f \<in> set flds \<Longrightarrow> field_of (fd_id f) d = Some f"
  shows "js_map (map (\<lambda>f. (fd_id f, fd_type f)) flds) i = (if i \<in> fd_id ` set flds then map_option fd_type (field_of i d) else None)"
  using assms
proof (induction flds rule: rev_induct)
  case (snoc f flds)
  have "field_of (fd_id f) d = Some f" by (rule snoc.prems) simp
  then show ?case using snoc by (simp add: js_map_def)
qed (simp add: js_map_def)

lemma map_filter_keys:
  assumes "distinct (map k xs)" "\<And>x y. g x = Some y \<Longrightarrow> fst y = k x"
  shows "distinct (map fst (List.map_filter g xs))"
  using assms(1)
proof (induction xs)
  case (Cons x xs)
  have "fst ` set (List.map_filter g xs) \<subseteq> k ` set xs" using assms(2) by (force simp: List.map_filter_def)
  then show ?case using Cons assms(2) [of x] by (cases "g x") (auto simp: map_filter_simps)
qed (simp add: map_filter_simps)

section \<open>The form and the check\<close>

lemma find_first_key: "distinct (map k rs) \<Longrightarrow> r \<in> set rs \<Longrightarrow> find_first (\<lambda>q. k q = k r) rs = Some r"
  by (induction rs) force+

lemma field_of_one:
  "distinct (map fd_id (fieldDefs (customFields d))) \<Longrightarrow> f \<in> set (fieldDefs (customFields d)) \<Longrightarrow> field_of (fd_id f) d = Some f"
  unfolding field_of_def by (rule find_first_key)

lemma applicable_field:
  assumes "distinct (map fd_id (fieldDefs (customFields d)))" "f \<in> set (applicableFields tenant ct d)"
  shows "field_of (fd_id f) d = Some f"
proof (cases "falsy ct")
  case True
  then show ?thesis using assms field_of_one by (auto simp: applicableFields_def by_display_def)
next
  case False
  then have "\<exists>p :: CaseTypeFieldPlacement. field_of (pl_fieldId p) d = Some f"
    using assms(2) by (auto simp: applicableFields_def List.map_filter_def)
  then obtain p :: CaseTypeFieldPlacement where p: "field_of (pl_fieldId p) d = Some f" ..
  then have "fd_id f = pl_fieldId p" by (auto simp: field_of_def dest: find_first_SomeD)
  with p show ?thesis by simp
qed

text \<open>The two endpoints read the same values.\<close>

lemma same_values:
  assumes "\<And>f. f \<in> set flds \<Longrightarrow> field_of (fd_id f) d = Some f"
  shows "form_values flds values d = joined_values (map fd_id flds) values d"
proof -
  have "(case js_map (map (\<lambda>f. (fd_id f, fd_type f)) flds) (fv_fieldId v) of None \<Rightarrow> None
        | Some t \<Rightarrow> Some (fv_fieldId v, toStored t v (selections_of v d)))
      = (if fv_fieldId v \<in> set (map fd_id flds)
         then map_option (\<lambda>f. (fv_fieldId v, toStored (fd_type f) v (selections_of v d))) (field_of (fv_fieldId v) d) else None)" for v
  proof (cases "fv_fieldId v \<in> fd_id ` set flds")
    case True
    then obtain f where "f \<in> set flds" "fd_id f = fv_fieldId v" by auto
    then have "field_of (fv_fieldId v) d = Some f" using assms by metis
    then show ?thesis using True by (simp add: js_map_types [OF assms])
  next
    case False
    then show ?thesis by (simp add: js_map_types [OF assms])
  qed
  then show ?thesis unfolding form_values_def joined_values_def Let_def by simp
qed

text \<open>A field is required when a rule for it fires and it is not hidden.\<close>

lemma effect_step_required:
  assumes "out i = Some rt"
  shows "\<exists>rt'. effect_step fires vals r out i = Some rt' \<and> fr_isHidden rt' = fr_isHidden rt
    \<and> (fr_isRequired rt' \<longleftrightarrow> fr_isRequired rt
        \<or> \<not> fr_isHidden rt \<and> rr_targetFieldId r = i \<and> rr_effectType r = REQUIRE_FIELD \<and> fires r)"
  using assms unfolding effect_step_def
  by (cases "rr_targetFieldId r = i"; cases "rr_effectType r") (auto split: option.splits)

lemma fold_required:
  assumes "out i = Some rt"
  shows "\<exists>rt'. fold (effect_step fires vals) rs out i = Some rt' \<and> fr_isHidden rt' = fr_isHidden rt
    \<and> (fr_isRequired rt' \<longleftrightarrow> fr_isRequired rt
        \<or> \<not> fr_isHidden rt \<and> (\<exists>r \<in> set rs. rr_targetFieldId r = i \<and> rr_effectType r = REQUIRE_FIELD \<and> fires r))"
  using assms
proof (induction rs arbitrary: out rt)
  case (Cons r rs)
  obtain rt1 where s: "effect_step fires vals r out i = Some rt1" "fr_isHidden rt1 = fr_isHidden rt"
    "fr_isRequired rt1 \<longleftrightarrow> fr_isRequired rt \<or> \<not> fr_isHidden rt \<and> rr_targetFieldId r = i \<and> rr_effectType r = REQUIRE_FIELD \<and> fires r"
    using effect_step_required [where out = out and i = i, OF Cons.prems] by blast
  obtain rt2 where t: "fold (effect_step fires vals) rs (effect_step fires vals r out) i = Some rt2" "fr_isHidden rt2 = fr_isHidden rt1"
    "fr_isRequired rt2 \<longleftrightarrow> fr_isRequired rt1
        \<or> \<not> fr_isHidden rt1 \<and> (\<exists>r \<in> set rs. rr_targetFieldId r = i \<and> rr_effectType r = REQUIRE_FIELD \<and> fires r)"
    using Cons.IH [where out = "effect_step fires vals r out", OF s(1)] by blast
  show ?case using s t by (intro exI [of _ rt2]) auto
qed auto

lemma computed_required:
  assumes "i \<in> set ids"
  shows "\<exists>rt. computeFieldRuntime J ids hid vals rules i = Some rt
    \<and> (fr_isRequired rt \<longleftrightarrow> \<not> fr_isHidden rt
        \<and> (\<exists>r \<in> set rules. rr_targetFieldId r = i \<and> rr_effectType r = REQUIRE_FIELD \<and> rule_fires J vals r))"
proof -
  let ?h = "hide_loop (rule_fires J vals) (sort_rules rules) (set hid)"
  let ?out = "map_of (map (\<lambda>i. (i, \<lparr>fr_isHidden = (i \<in> ?h), fr_isRequired = False, fr_defaultPayload = JNull\<rparr>)) ids)"
  have o: "?out i = Some \<lparr>fr_isHidden = (i \<in> ?h), fr_isRequired = False, fr_defaultPayload = JNull\<rparr>"
    using assms by (induction ids) auto
  have "set (sort_rules rules) = set rules" by (simp add: sort_rules_def)
  then show ?thesis using fold_required [where out = ?out and i = i, OF o, of "rule_fires J vals" vals "sort_rules rules"]
    unfolding computeFieldRuntime_def Let_def by auto
qed

definition values_ok :: "CaseFieldValue list \<Rightarrow> bool" where
  "values_ok vs \<longleftrightarrow> distinct (map fv_id vs) \<and> distinct (map (\<lambda>v. (fv_tenantId v, fv_caseId v, fv_fieldId v)) vs)"

lemma case_values_distinct:
  assumes "values_ok (fieldValues (customFields d))"
  shows "distinct (map fv_fieldId (case_values t c d))"
  using assms by (auto simp: values_ok_def case_values_def distinct_map inj_on_def)

lemma joined_lookup:
  assumes "values_ok (fieldValues (customFields d))" "field_of i d = Some f" "i \<in> set ids"
  shows "joined_values ids (case_values t c d) d i = Some s
    \<longleftrightarrow> (\<exists>v \<in> set (case_values t c d). fv_fieldId v = i \<and> s = toStored (fd_type f) v (selections_of v d))"
proof -
  let ?g = "\<lambda>v. if fv_fieldId v \<in> set ids then map_option (\<lambda>f. (fv_fieldId v, toStored (fd_type f) v (selections_of v d))) (field_of (fv_fieldId v) d) else None"
  have "distinct (map fst (List.map_filter ?g (case_values t c d)))"
    by (rule map_filter_keys [OF case_values_distinct [OF assms(1)]]) (auto split: if_splits)
  from js_map_distinct [OF this] show ?thesis
    unfolding joined_values_def using assms(2,3) by (auto simp: List.map_filter_def split: if_splits) force
qed

text \<open>What a form shows as filled.\<close>

definition filled :: "(CaseFieldValue \<times> string list) list \<Rightarrow> CaseFieldDefinition \<Rightarrow> bool" where
  "filled vals f \<longleftrightarrow> (\<exists>(v, selections) \<in> set vals. fv_fieldId v = fd_id f \<and> isPresent (Some (toStored (fd_type f) v selections)))"

lemma filled_present:
  assumes "values_ok (fieldValues (customFields d))" "field_of (fd_id f) d = Some f" "fd_id f \<in> set ids"
  shows "filled (map (\<lambda>v. (v, selections_of v d)) (case_values t c d)) f
    \<longleftrightarrow> isPresent (joined_values ids (case_values t c d) d (fd_id f))"
proof (cases "joined_values ids (case_values t c d) d (fd_id f)")
  case None
  have "isPresent None = False" by (simp add: isPresent_def)
  then show ?thesis using joined_lookup [OF assms, of t c] None by (auto simp: filled_def)
next
  case (Some s)
  then obtain v where v: "v \<in> set (case_values t c d)" "fv_fieldId v = fd_id f" "s = toStored (fd_type f) v (selections_of v d)"
    using joined_lookup [OF assms, of t c s] by blast
  have one: "w = v" if "w \<in> set (case_values t c d)" "fv_fieldId w = fd_id f" for w
    using case_values_distinct [OF assms(1), of t c] v that by (auto simp: distinct_map inj_on_def)
  show ?thesis
  proof
    assume "isPresent (joined_values ids (case_values t c d) d (fd_id f))"
    then show "filled (map (\<lambda>v. (v, selections_of v d)) (case_values t c d)) f" using v Some by (auto simp: filled_def)
  next
    assume "filled (map (\<lambda>v. (v, selections_of v d)) (case_values t c d)) f"
    then show "isPresent (joined_values ids (case_values t c d) d (fd_id f))" using v(3) one unfolding Some filled_def by auto
  qed
qed

text \<open>C29: The check of required fields and the form agree: the fields the check reports as missing are
  exactly those the form shows as required and that have no value, and the case is valid exactly when
  there are none.\<close>

theorem validation_agrees_with_form:
  assumes "distinct (map fd_id (fieldDefs (customFields d)))" "values_ok (fieldValues (customFields d))"
    and "getValues J ctx caseId d = Inr (form, vals)" "validateValues J ctx caseId d = Inr r"
  shows "snd ` set (vr_missing r) = (\<lambda>f. fd_id (ff_field f)) ` {f \<in> set form. ff_isRequired f \<and> \<not> filled vals (ff_field f)}
    \<and> (vr_valid r \<longleftrightarrow> vr_missing r = [])"
proof -
  from assms(3) obtain c where c: "load_live_case ctx caseId d = Inr c" by (auto simp: getValues_def res_bind_Inr_iff)
  let ?t = "tenantId ctx"
  let ?flds = "applicableFields ?t (dc_caseTypeId c) d" and ?vs = "case_values ?t caseId d"
  let ?ids = "map fd_id ?flds"
  let ?vals = "joined_values ?ids ?vs d" and ?scope = "in_scope ?t ?ids d"
  let ?rt = "computeFieldRuntime J ?ids (map fd_id (filter static_hidden ?flds)) ?vals (map runtime_rule ?scope)"
  have fo: "field_of (fd_id f) d = Some f" if "f \<in> set ?flds" for f using applicable_field [OF assms(1) that] .
  have form: "form = map (form_field ?t ?rt d) ?flds" and vals: "vals = map (\<lambda>v. (v, selections_of v d)) ?vs"
    using assms(3) c same_values [of ?flds d ?vs, OF fo] by (auto simp: getValues_def computeRuntime_def Let_def)
  have miss: "vr_missing r = map (\<lambda>q. (fu_id q, fu_targetFieldId q)) (filter (missing_of J ?rt ?vals) ?scope)"
    and valid: "vr_valid r \<longleftrightarrow> vr_missing r = []"
    using assms(4) c by (auto simp: validateValues_def Let_def)
  have ff: "ff_field (form_field ?t ?rt d f) = f" for f by (simp add: form_field_def split: option.split)
  have req: "ff_isRequired (form_field ?t ?rt d f) \<longleftrightarrow> (\<exists>q \<in> set ?scope. fu_targetFieldId q = fd_id f \<and> fu_effectType q = REQUIRE_FIELD
      \<and> \<not> fr_isHidden (the (?rt (fd_id f)))
      \<and> conditionMet J (fu_conditionOperator q) (fu_conditionValue q) (fu_conditionOptionId q) (?vals (fu_conditionFieldId q)))"
    if "f \<in> set ?flds" for f
  proof -
    have "fd_id f \<in> set ?ids" using that by simp
    from computed_required [OF this, of J "map fd_id (filter static_hidden ?flds)" ?vals "map runtime_rule ?scope"] show ?thesis
      by (elim exE conjE) (simp only: form_field_def option.case FormField.select_convs option.sel, auto simp: runtime_rule_def rule_fires_def)
  qed
  have pres: "filled vals f \<longleftrightarrow> isPresent (?vals (fd_id f))" if "f \<in> set ?flds" for f
    unfolding vals using filled_present [OF assms(2) fo [OF that]] that by simp
  have mo: "missing_of J ?rt ?vals q \<longleftrightarrow> fu_effectType q = REQUIRE_FIELD \<and> \<not> fr_isHidden (the (?rt (fu_targetFieldId q)))
      \<and> conditionMet J (fu_conditionOperator q) (fu_conditionValue q) (fu_conditionOptionId q) (?vals (fu_conditionFieldId q))
      \<and> \<not> isPresent (?vals (fu_targetFieldId q))" if "q \<in> set ?scope" for q
  proof -
    have "fu_targetFieldId q \<in> set ?ids" using that by (simp add: in_scope_def)
    from computed_required [OF this, of J "map fd_id (filter static_hidden ?flds)" ?vals "map runtime_rule ?scope"] show ?thesis
      by (elim exE conjE) (simp only: missing_of_def option.case option.sel)
  qed
  have "snd ` set (vr_missing r) = fu_targetFieldId ` {q \<in> set ?scope. missing_of J ?rt ?vals q}"
    unfolding miss by (simp add: image_image)
  also have "\<dots> = fd_id ` {f \<in> set ?flds. ff_isRequired (form_field ?t ?rt d f) \<and> \<not> filled vals f}"
  proof (rule set_eqI, rule iffI)
    fix i assume "i \<in> fu_targetFieldId ` {q \<in> set ?scope. missing_of J ?rt ?vals q}"
    then obtain q where q: "q \<in> set ?scope" "missing_of J ?rt ?vals q" "i = fu_targetFieldId q" by blast
    then have "i \<in> fd_id ` set ?flds" by (auto simp: in_scope_def)
    then obtain f where f: "f \<in> set ?flds" "i = fd_id f" by blast
    have "ff_isRequired (form_field ?t ?rt d f)" "\<not> filled vals f"
      using req [OF f(1)] pres [OF f(1)] q f(2) unfolding mo [OF q(1)] by metis+
    then show "i \<in> fd_id ` {f \<in> set ?flds. ff_isRequired (form_field ?t ?rt d f) \<and> \<not> filled vals f}" using f by blast
  next
    fix i assume "i \<in> fd_id ` {f \<in> set ?flds. ff_isRequired (form_field ?t ?rt d f) \<and> \<not> filled vals f}"
    then obtain f where f: "f \<in> set ?flds" "i = fd_id f" "ff_isRequired (form_field ?t ?rt d f)" "\<not> filled vals f" by blast
    then obtain q where q: "q \<in> set ?scope" "fu_targetFieldId q = i" "missing_of J ?rt ?vals q" using req [OF f(1)] pres [OF f(1)] mo by metis
    then show "i \<in> fu_targetFieldId ` {q \<in> set ?scope. missing_of J ?rt ?vals q}" by blast
  qed
  also have "\<dots> = (\<lambda>f. fd_id (ff_field f)) ` {f \<in> set form. ff_isRequired f \<and> \<not> filled vals (ff_field f)}"
    unfolding form using ff by (force simp: image_iff)
  finally show ?thesis using valid by blast
qed

section \<open>One entry\<close>

definition key_of :: "CaseFieldValue \<Rightarrow> string \<times> string \<times> string" where
  "key_of v = (fv_tenantId v, fv_caseId v, fv_fieldId v)"

lemma values_ok_keys: "values_ok vs \<longleftrightarrow> distinct (map fv_id vs) \<and> distinct (map key_of vs)"
  by (simp add: values_ok_def key_of_def [abs_def])

lemma existing_key:
  "existing_value t c i d = find_first (\<lambda>v. key_of v = (t, c, i)) (fieldValues (customFields d))"
  by (simp add: existing_value_def key_of_def)

text \<open>What a write of one row does to the lookup by key.\<close>

lemma find_key_map:
  assumes "\<And>v. key_of (f v) = key_of v"
  shows "find_first (\<lambda>v. key_of v = k) (map f vs) = map_option f (find_first (\<lambda>v. key_of v = k) vs)"
  using assms by (induction vs) simp_all

lemma find_key_snoc:
  "find_first (\<lambda>v. key_of v = k) (vs @ [r])
     = (case find_first (\<lambda>v. key_of v = k) vs of Some v \<Rightarrow> Some v | None \<Rightarrow> if key_of r = k then Some r else None)"
  by (induction vs) simp_all

definition wrote_value :: "TypedValue \<Rightarrow> rat option \<Rightarrow> CaseFieldValue option \<Rightarrow> CaseFieldValue \<Rightarrow> bool" where
  "wrote_value typed n existing v \<longleftrightarrow> fv_valueText v = tv_text typed \<and> fv_valueNumber v = n \<and> fv_valueBoolean v = tv_boolean typed
     \<and> fv_valueDate v = tv_date typed \<and> fv_optionId v = tv_optionId typed \<and> fv_deletedAt v = None
     \<and> fv_version v = (case existing of Some q \<Rightarrow> fv_version q + 1 | None \<Rightarrow> 1) \<and> (\<forall>q. existing = Some q \<longrightarrow> fv_id v = fv_id q)"

lemma values_append:
  assumes "values_ok vs" "fv_id r \<notin> fv_id ` set vs" "find_first (\<lambda>v. key_of v = key_of r) vs = None"
  shows "values_ok (vs @ [r])"
  using assms unfolding values_ok_keys find_first_None by auto

lemma write_value_keys:
  assumes w: "write_value E k ctx c i existing typed n d = Inr (x, d')" and e: "existing = existing_value (tenantId ctx) c i d"
    and ok: "values_ok (fieldValues (customFields d))" and fresh: "ev_uuid E k \<notin> fv_id ` set (fieldValues (customFields d))"
  shows "values_ok (fieldValues (customFields d')) \<and> d' = put_values (fieldValues (customFields d')) d
    \<and> fv_id ` set (fieldValues (customFields d')) \<subseteq> insert (ev_uuid E k) (fv_id ` set (fieldValues (customFields d)))
    \<and> (\<exists>v. existing_value (tenantId ctx) c i d' = Some v \<and> wrote_value typed n existing v \<and> fv_id v = x)
    \<and> (\<forall>t c' j. (t, c', j) \<noteq> (tenantId ctx, c, i) \<longrightarrow> existing_value t c' j d' = existing_value t c' j d)"
proof (cases existing)
  case None
  let ?r = "with_columns typed n (new_value (ev_uuid E k) (tenantId ctx) c i)" and ?vs = "fieldValues (customFields d)"
  have d': "d' = put_values (?vs @ [?r]) d" "x = fv_id ?r" using w None by (auto simp: write_value_def Let_def)
  have r: "fv_id ?r = ev_uuid E k" "key_of ?r = (tenantId ctx, c, i)" "wrote_value typed n None ?r"
    by (simp_all add: with_columns_def new_value_def wrote_value_def key_of_def)
  have no: "find_first (\<lambda>v. key_of v = (tenantId ctx, c, i)) ?vs = None" using e None by (simp add: existing_key)
  have "values_ok (?vs @ [?r])" by (rule values_append [OF ok]) (simp_all only: r fresh no not_False_eq_True)
  moreover have "existing_value (tenantId ctx) c i d' = Some ?r"
    unfolding existing_key d'(1) using no r(2) by (simp add: find_key_snoc put_values_def)
  moreover have "existing_value t c' j d' = existing_value t c' j d" if "(t, c', j) \<noteq> (tenantId ctx, c, i)" for t c' j
    unfolding existing_key d'(1) using that r(2) by (auto simp: find_key_snoc put_values_def split: option.split)
  moreover have "fieldValues (customFields d') = ?vs @ [?r]" unfolding d'(1) by (simp add: put_values_def)
  ultimately show ?thesis unfolding None using r(1,3) d' by (intro conjI) simp_all
next
  case (Some v)
  let ?vs = "fieldValues (customFields d)" and ?g = "\<lambda>r. (with_columns typed n r)\<lparr>fv_version := fv_version v + 1, fv_deletedAt := None\<rparr>"
  let ?f = "\<lambda>r. if fv_id r = fv_id v then ?g r else r"
  have d': "d' = put_values (map ?f ?vs) d"
    using w Some by (auto simp: write_value_def res_bind_Inr_iff update_row_Inr update_many_def)
  have g: "fv_id (?g r) = fv_id r" "key_of (?g r) = key_of r" for r by (simp_all add: with_columns_def key_of_def)
  obtain q where q: "find_first (\<lambda>r. fv_id r = fv_id v) ?vs = Some q" "x = fv_id q"
    using w Some by (auto simp: write_value_def res_bind_Inr_iff update_row_Inr with_columns_def)
  have x: "x = fv_id v" using find_first_SomeD [OF q(1)] q(2) by simp
  have f: "fv_id (?f r) = fv_id r" "key_of (?f r) = key_of r" for r using g by simp_all
  have fnd: "find_first (\<lambda>v. key_of v = (tenantId ctx, c, i)) ?vs = Some v" using e Some by (simp add: existing_key)
  then have v: "v \<in> set ?vs" "key_of v = (tenantId ctx, c, i)" by (auto dest: find_first_SomeD)
  have m: "map fv_id (map ?f ?vs) = map fv_id ?vs" "map key_of (map ?f ?vs) = map key_of ?vs" using f by simp_all
  then have "values_ok (map ?f ?vs)" using ok unfolding values_ok_keys by (simp del: map_map)
  moreover have "fv_id ` set (map ?f ?vs) = fv_id ` set ?vs" using arg_cong [OF m(1), of set] by (simp only: set_map)
  moreover have "existing_value (tenantId ctx) c i d' = Some (?f v)"
    using find_key_map [of ?f "(tenantId ctx, c, i)" ?vs, OF f(2)] unfolding existing_key d' fnd by (simp add: put_values_def)
  moreover have "wrote_value typed n existing (?f v)" "fv_id (?f v) = x" using Some x g by (simp_all add: wrote_value_def with_columns_def)
  moreover have "existing_value t c' j d' = existing_value t c' j d" if ne: "(t, c', j) \<noteq> (tenantId ctx, c, i)" for t c' j
  proof -
    have "map_option ?f (existing_value t c' j d) = existing_value t c' j d"
    proof (cases "existing_value t c' j d")
      case (Some q)
      then have q: "q \<in> set ?vs" "key_of q = (t, c', j)" unfolding existing_key by (auto dest: find_first_SomeD)
      have "fv_id q \<noteq> fv_id v"
      proof
        assume "fv_id q = fv_id v"
        then have "q = v" using ok q(1) v(1) by (auto simp: values_ok_keys distinct_map inj_on_def)
        then show False using q(2) v(2) ne by simp
      qed
      then show ?thesis using Some by simp
    qed simp
    then show ?thesis using find_key_map [of ?f "(t, c', j)" ?vs, OF f(2)] unfolding existing_key d' by (simp add: put_values_def)
  qed
  moreover have "fieldValues (customFields d') = map ?f ?vs" unfolding d' by (simp add: put_values_def)
  ultimately show ?thesis using d' by (intro conjI) (simp_all only: simp_thms subset_insertI, blast+)
qed

text \<open>The whole entry: its row, and one line of history.\<close>

lemma check_entry_Inr:
  assumes "check_entry J ctx c e d = Inr (field, typed, existing)"
  shows "find_first (\<lambda>f. Some (fd_id f) = pe_fieldId e \<and> fd_tenantId f = tenantId ctx) (fieldDefs (customFields d)) = Some field
    \<and> pe_fieldId e = Some (fd_id field) \<and> coerceValue J (fd_type field) (fd_validationRules field) (raw_entry e) = Inr typed
    \<and> existing = existing_value (tenantId ctx) c (fd_id field) d \<and> fd_status field \<noteq> FS_ARCHIVED
    \<and> (\<forall>v n. existing = Some v \<and> pe_version e = Some n \<longrightarrow> n = fv_version v)"
proof -
  from assms have l: "find_first (\<lambda>f. Some (fd_id f) = pe_fieldId e \<and> fd_tenantId f = tenantId ctx) (fieldDefs (customFields d)) = Some field"
    and st: "fd_status field \<noteq> FS_ARCHIVED" and co: "coerceValue J (fd_type field) (fd_validationRules field) (raw_entry e) = Inr typed"
    and ex: "existing = existing_value (tenantId ctx) c (fd_id field) d"
    and lock: "\<not> (case (existing, pe_version e) of (Some v, Some n) \<Rightarrow> n \<noteq> fv_version v | _ \<Rightarrow> False)"
    unfolding check_entry_def res_bind_Inr_iff Let_def ensure_simps(3) by (auto simp: res_bind_Inr_iff)
  have "pe_fieldId e = Some (fd_id field)" using find_first_SomeD [OF l] by simp
  then show ?thesis using l st co ex lock by (auto split: option.splits)
qed

definition choices :: "string \<Rightarrow> db \<Rightarrow> CaseFieldValueOption list" where
  "choices i d = filter (\<lambda>s. fs_valueId s = i) (valueOptions (customFields d))"

definition picked :: "TypedValue \<Rightarrow> string list" where
  "picked typed = (if isClear typed then [] else case tv_optionIds typed of Some is \<Rightarrow> is | None \<Rightarrow> [])"

text \<open>The line of history: the value before with its selected options, the value after.\<close>

definition history_line :: "UserContext \<Rightarrow> string \<Rightarrow> CaseFieldDefinition \<Rightarrow> TypedValue \<Rightarrow> CaseFieldValue option \<Rightarrow> CaseFieldValue \<Rightarrow> db
    \<Rightarrow> CaseFieldValueHistory \<Rightarrow> bool" where
  "history_line ctx c field typed existing v d h \<longleftrightarrow> fh_tenantId h = tenantId ctx \<and> fh_caseId h = c \<and> fh_fieldId h = fd_id field
     \<and> fh_valueId h = Some (fv_id v) \<and> fh_actorUserId h = Some (userId ctx)
     \<and> fh_operation h = (if isClear typed then ''CLEAR'' else if existing = None then ''SET'' else ''UPDATE'')
     \<and> fh_beforeValue h = map_option (\<lambda>q. toStored (fd_type field) q (map fs_optionId (choices (fv_id q) d))) existing
     \<and> fh_afterValue h = (if isClear typed then None else Some (stored_form (fd_type field) typed))"

text \<open>The entry \<open>e\<close> was written and the history has the line \<open>h\<close> for it.\<close>

definition entry_written :: "js_engine \<Rightarrow> (rat \<Rightarrow> rat option) \<Rightarrow> UserContext \<Rightarrow> string \<Rightarrow> db \<Rightarrow> db \<Rightarrow> PatchEntry \<Rightarrow> CaseFieldValueHistory \<Rightarrow> bool" where
  "entry_written J col ctx c d d' e h \<longleftrightarrow> (\<exists>field typed n v.
     find_first (\<lambda>f. Some (fd_id f) = pe_fieldId e \<and> fd_tenantId f = tenantId ctx) (fieldDefs (customFields d)) = Some field
     \<and> coerceValue J (fd_type field) (fd_validationRules field) (raw_entry e) = Inr typed
     \<and> stored_number col typed = Inr n \<and> existing_value (tenantId ctx) c (fd_id field) d' = Some v
     \<and> wrote_value typed n (existing_value (tenantId ctx) c (fd_id field) d) v
     \<and> choices (fv_id v) d' = (if isMultiSelect (fd_type field)
          then map (\<lambda>o'. \<lparr>fs_tenantId = tenantId ctx, fs_valueId = fv_id v, fs_optionId = o'\<rparr>) (picked typed) else choices (fv_id v) d)
     \<and> history_line ctx c field typed (existing_value (tenantId ctx) c (fd_id field) d) v d h)"

text \<open>The ids of the rows of the fields, and all but the rows, options and history of values and the log.\<close>

definition ids_of :: "string \<Rightarrow> string \<Rightarrow> string option set \<Rightarrow> db \<Rightarrow> string set" where
  "ids_of t c is d = {i. \<exists>v \<in> set (fieldValues (customFields d)). fv_tenantId v = t \<and> fv_caseId v = c \<and> Some (fv_fieldId v) \<in> is \<and> i = fv_id v}"

definition beside_values :: "db \<Rightarrow> db" where
  "beside_values d = d\<lparr>auditRows := [], customFields := (customFields d)\<lparr>fieldValues := [], valueOptions := [], valueHistory := []\<rparr>\<rparr>"

definition others_kept :: "string \<Rightarrow> string \<Rightarrow> string option set \<Rightarrow> db \<Rightarrow> db \<Rightarrow> bool" where
  "others_kept t c is d d' \<longleftrightarrow> (\<forall>t' c' j. \<not> (t' = t \<and> c' = c \<and> Some j \<in> is) \<longrightarrow> existing_value t' c' j d' = existing_value t' c' j d)
     \<and> filter (\<lambda>s. fs_valueId s \<notin> ids_of t c is d') (valueOptions (customFields d'))
       = filter (\<lambda>s. fs_valueId s \<notin> ids_of t c is d') (valueOptions (customFields d))
     \<and> beside_values d' = beside_values d"

lemma beside_cols: "fieldDefs (customFields (beside_values d)) = fieldDefs (customFields d)"
  by (simp add: beside_values_def)

lemma beside_defs: "beside_values d' = beside_values d \<Longrightarrow> fieldDefs (customFields d') = fieldDefs (customFields d)"
  using arg_cong [of "beside_values d'" "beside_values d" "\<lambda>x. fieldDefs (customFields x)"] unfolding beside_cols .

lemma beside_writes [simp]:
  "beside_values (put_values vs d) = beside_values d" "beside_values (replace_selections ctx x typed d) = beside_values d"
  "beside_values (add_history h d) = beside_values d" "beside_values (d\<lparr>auditRows := rows\<rparr>) = beside_values d"
  by (simp_all add: beside_values_def put_values_def replace_selections_def add_history_def)

lemma existing_mem: "existing_value t c i d = Some v \<Longrightarrow> v \<in> set (fieldValues (customFields d)) \<and> key_of v = (t, c, i)"
  unfolding existing_key by (drule find_first_SomeD) simp

lemma same_value_row:
  assumes "values_ok (fieldValues (customFields d))" "v \<in> set (fieldValues (customFields d))" "w \<in> set (fieldValues (customFields d))"
  shows "fv_id v = fv_id w \<Longrightarrow> v = w" "key_of v = key_of w \<Longrightarrow> v = w"
  using assms by (auto simp: values_ok_keys distinct_map inj_on_def)

lemma existing_self:
  assumes "values_ok (fieldValues (customFields d))" "v \<in> set (fieldValues (customFields d))"
  shows "existing_value (fv_tenantId v) (fv_caseId v) (fv_fieldId v) d = Some v"
proof (cases "existing_value (fv_tenantId v) (fv_caseId v) (fv_fieldId v) d")
  case None
  then show ?thesis using assms(2) unfolding existing_value_def find_first_None by blast
next
  case (Some w)
  then have "w = v" using existing_mem [OF Some] by (intro same_value_row(2) [OF assms(1) _ assms(2)]) (simp_all add: key_of_def)
  then show ?thesis using Some by simp
qed

text \<open>A row of another field is not among them.\<close>

lemma not_written:
  assumes "values_ok (fieldValues (customFields d))" "existing_value t c i d = Some v" "Some i \<notin> is"
  shows "fv_id v \<notin> ids_of t c is d"
proof
  assume "fv_id v \<in> ids_of t c is d"
  then obtain w where w: "w \<in> set (fieldValues (customFields d))" "Some (fv_fieldId w) \<in> is" "fv_id v = fv_id w" unfolding ids_of_def by blast
  have "v = w" by (rule same_value_row(1) [OF assms(1) _ w(1) w(3)]) (use existing_mem [OF assms(2)] in blast)
  then show False using existing_mem [OF assms(2)] w(2) assms(3) by (simp add: key_of_def)
qed

lemma ids_later:
  assumes "others_kept t c js d d'" "is \<inter> js = {}" "values_ok (fieldValues (customFields d))"
  shows "ids_of t c is d \<subseteq> ids_of t c is d'"
proof
  fix i assume "i \<in> ids_of t c is d"
  then obtain v where v: "v \<in> set (fieldValues (customFields d))" "fv_tenantId v = t" "fv_caseId v = c" "Some (fv_fieldId v) \<in> is" "i = fv_id v"
    unfolding ids_of_def by blast
  have "Some (fv_fieldId v) \<notin> js" using v(4) assms(2) by blast
  then have "existing_value t c (fv_fieldId v) d' = Some v" using assms(1) existing_self [OF assms(3) v(1)] v(2,3) by (simp add: others_kept_def)
  then show "i \<in> ids_of t c is d'" using existing_mem v unfolding ids_of_def by blast
qed

lemma kept_choices:
  assumes "others_kept t c is d d'" "i \<notin> ids_of t c is d'"
  shows "choices i d' = choices i d"
proof -
  let ?P = "\<lambda>s. fs_valueId s \<notin> ids_of t c is d'"
  have thin: "choices i x = filter (\<lambda>s. fs_valueId s = i) (filter ?P (valueOptions (customFields x)))" for x
    using assms(2) by (simp add: choices_def, intro filter_cong) auto
  have "filter ?P (valueOptions (customFields d')) = filter ?P (valueOptions (customFields d))"
    using assms(1) by (simp only: others_kept_def)
  then show ?thesis unfolding thin by (rule arg_cong)
qed

lemma others_kept_trans:
  assumes k: "others_kept t c is d d1" and l: "others_kept t c js d1 d2" and dis: "is \<inter> js = {}" and ok: "values_ok (fieldValues (customFields d1))"
  shows "others_kept t c (is \<union> js) d d2"
  unfolding others_kept_def
proof (intro conjI allI impI)
  show "existing_value t' c' j d2 = existing_value t' c' j d" if "\<not> (t' = t \<and> c' = c \<and> Some j \<in> is \<union> js)" for t' c' j
    using k l that unfolding others_kept_def by (metis UnI1 UnI2)
  show "beside_values d2 = beside_values d" using k l by (simp add: others_kept_def)
  let ?Q = "\<lambda>s. fs_valueId s \<notin> ids_of t c (is \<union> js) d2"
  have sub: "ids_of t c js d2 \<subseteq> ids_of t c (is \<union> js) d2" "ids_of t c is d1 \<subseteq> ids_of t c (is \<union> js) d2"
    using ids_later [OF l dis ok] unfolding ids_of_def by blast+
  have thin: "filter ?Q xs = filter ?Q (filter (\<lambda>s. fs_valueId s \<notin> S) xs)" if "S \<subseteq> ids_of t c (is \<union> js) d2" for xs and S :: "string set"
    using that by (simp, intro filter_cong) auto
  have "filter ?Q (valueOptions (customFields d2)) = filter ?Q (valueOptions (customFields d1))"
    using l thin [OF sub(1)] unfolding others_kept_def by metis
  also have "\<dots> = filter ?Q (valueOptions (customFields d))" using k thin [OF sub(2)] unfolding others_kept_def by metis
  finally show "filter ?Q (valueOptions (customFields d2)) = filter ?Q (valueOptions (customFields d))" .
qed

lemma patch_entry_Inr:
  assumes p: "patch_entry E J col k ctx c e d = Inr (i, d')" and ok: "values_ok (fieldValues (customFields d))"
    and fresh: "ev_uuid E k \<notin> fv_id ` set (fieldValues (customFields d))"
  shows "pe_fieldId e = Some i \<and> values_ok (fieldValues (customFields d'))
    \<and> fv_id ` set (fieldValues (customFields d')) \<subseteq> insert (ev_uuid E k) (fv_id ` set (fieldValues (customFields d)))
    \<and> (\<exists>h. valueHistory (customFields d') = valueHistory (customFields d) @ [h] \<and> entry_written J col ctx c d d' e h)
    \<and> others_kept (tenantId ctx) c {Some i} d d'
    \<and> (\<forall>v m. existing_value (tenantId ctx) c i d = Some v \<and> pe_version e = Some m \<longrightarrow> m = fv_version v)"
proof -
  from p obtain field typed existing n x d1 where ch: "check_entry J ctx c e d = Inr (field, typed, existing)"
    and n: "stored_number col typed = Inr n" and w: "write_value E k ctx c (fd_id field) existing typed n d = Inr (x, d1)"
    and i: "i = fd_id field" and d': "d' = add_history (history_row E k ctx c field typed existing x d)
       (if isMultiSelect (fd_type field) then replace_selections ctx x typed d1 else d1)"
    unfolding patch_entry_def res_bind_Inr_iff Let_def by (auto simp: res_bind_Inr_iff)
  let ?h = "history_row E k ctx c field typed existing x d"
  note c = check_entry_Inr [OF ch]
  have ex: "existing = existing_value (tenantId ctx) c (fd_id field) d" using c by blast
  note wr = write_value_keys [OF w ex ok fresh]
  have d1: "d1 = put_values (fieldValues (customFields d1)) d" using wr by blast
  have tabs: "fieldValues (customFields d') = fieldValues (customFields d1)" "valueHistory (customFields d') = valueHistory (customFields d1) @ [?h]"
    "valueOptions (customFields d') = (if isMultiSelect (fd_type field) then valueOptions (customFields (replace_selections ctx x typed d1))
       else valueOptions (customFields d1))"
    unfolding d' by (simp_all add: add_history_def replace_selections_def)
  have same: "valueHistory (customFields d1) = valueHistory (customFields d)" "valueOptions (customFields d1) = valueOptions (customFields d)"
    by (subst d1, simp add: put_values_def)+
  have look: "existing_value t c' j d' = existing_value t c' j d1" for t c' j by (simp add: existing_value_def tabs(1))
  obtain v where v: "existing_value (tenantId ctx) c (fd_id field) d1 = Some v" "wrote_value typed n existing v" "fv_id v = x" using wr by blast
  have cho: "choices (fv_id v) d' = (if isMultiSelect (fd_type field)
          then map (\<lambda>o'. \<lparr>fs_tenantId = tenantId ctx, fs_valueId = fv_id v, fs_optionId = o'\<rparr>) (picked typed) else choices (fv_id v) d)"
    by (simp add: choices_def tabs(3) same v(3) replace_selections_def picked_def filter_empty_conv o_def)
  have line: "history_line ctx c field typed existing v d ?h"
    by (simp add: history_line_def history_row_def v(3) operation_of_def selections_of_def choices_def)
  have "entry_written J col ctx c d d' e ?h"
    unfolding entry_written_def look
    by (rule exI [of _ field], rule exI [of _ typed], rule exI [of _ n], rule exI [of _ v], unfold ex [symmetric], intro conjI, rule conjunct1 [OF c],
        rule c [THEN conjunct2, THEN conjunct2, THEN conjunct1], rule n, rule v(1), rule v(2), rule cho, rule line)
  moreover have "others_kept (tenantId ctx) c {Some i} d d'"
    unfolding others_kept_def
  proof (intro conjI allI impI)
    show "existing_value t' c' j d' = existing_value t' c' j d" if "\<not> (t' = tenantId ctx \<and> c' = c \<and> Some j \<in> {Some i})" for t' c' j
      using wr that unfolding look i by auto
    show "beside_values d' = beside_values d"
      unfolding d' by (subst d1, subst d1) simp
    have "x \<in> ids_of (tenantId ctx) c {Some i} d'"
      using existing_mem [OF v(1)] v(3) unfolding ids_of_def tabs(1) i key_of_def by auto
    then show "filter (\<lambda>s. fs_valueId s \<notin> ids_of (tenantId ctx) c {Some i} d') (valueOptions (customFields d'))
        = filter (\<lambda>s. fs_valueId s \<notin> ids_of (tenantId ctx) c {Some i} d') (valueOptions (customFields d))"
      by (auto simp: tabs(3) same replace_selections_def filter_empty_conv o_def intro!: filter_cong)
  qed
  moreover have "pe_fieldId e = Some i" unfolding i using c by blast
  moreover have "values_ok (fieldValues (customFields d'))"
    "fv_id ` set (fieldValues (customFields d')) \<subseteq> insert (ev_uuid E k) (fv_id ` set (fieldValues (customFields d)))"
    unfolding tabs using wr by blast+
  moreover have "m = fv_version v" if "existing_value (tenantId ctx) c i d = Some v" "pe_version e = Some m" for v m
    using c that unfolding i ex by blast
  ultimately show ?thesis using tabs(2) same(1) by auto
qed

text \<open>What was written stays written while other fields are, and does not depend on them.\<close>

lemma entry_written_mono:
  assumes "entry_written J col ctx c d1 d2 e h" "others_kept (tenantId ctx) c is d0 d1" "pe_fieldId e \<notin> is"
    and ok: "values_ok (fieldValues (customFields d1))" "values_ok (fieldValues (customFields d2))" "values_ok (fieldValues (customFields d0))"
    and later: "ids_of (tenantId ctx) c is d1 \<subseteq> ids_of (tenantId ctx) c is d2"
  shows "entry_written J col ctx c d0 d2 e h"
proof -
  from assms(1) obtain field typed n v where
    f: "find_first (\<lambda>f. Some (fd_id f) = pe_fieldId e \<and> fd_tenantId f = tenantId ctx) (fieldDefs (customFields d1)) = Some field"
    and r: "coerceValue J (fd_type field) (fd_validationRules field) (raw_entry e) = Inr typed" "stored_number col typed = Inr n"
      "existing_value (tenantId ctx) c (fd_id field) d2 = Some v" "wrote_value typed n (existing_value (tenantId ctx) c (fd_id field) d1) v"
    and cho: "choices (fv_id v) d2 = (if isMultiSelect (fd_type field)
          then map (\<lambda>o'. \<lparr>fs_tenantId = tenantId ctx, fs_valueId = fv_id v, fs_optionId = o'\<rparr>) (picked typed) else choices (fv_id v) d1)"
    and line: "history_line ctx c field typed (existing_value (tenantId ctx) c (fd_id field) d1) v d1 h"
    unfolding entry_written_def by blast
  have fi: "Some (fd_id field) \<notin> is" using find_first_SomeD [OF f] assms(3) by simp
  then have ex: "existing_value (tenantId ctx) c (fd_id field) d1 = existing_value (tenantId ctx) c (fd_id field) d0"
    using assms(2) by (simp add: others_kept_def)
  have "fv_id v \<notin> ids_of (tenantId ctx) c is d1" using not_written [OF ok(2) r(3) fi] later by blast
  then have cv: "choices (fv_id v) d1 = choices (fv_id v) d0" by (rule kept_choices [OF assms(2)])
  have cq: "choices (fv_id q) d1 = choices (fv_id q) d0" if "existing_value (tenantId ctx) c (fd_id field) d0 = Some q" for q
    by (rule kept_choices [OF assms(2)], rule not_written [OF ok(1) _ fi]) (simp add: ex that)
  have "history_line ctx c field typed (existing_value (tenantId ctx) c (fd_id field) d0) v d0 h"
    using line cq unfolding history_line_def ex by (cases "existing_value (tenantId ctx) c (fd_id field) d0") simp_all
  moreover have "fieldDefs (customFields d1) = fieldDefs (customFields d0)" using assms(2) by (intro beside_defs) (simp add: others_kept_def)
  ultimately show ?thesis unfolding entry_written_def
    by (intro exI conjI) (use f in simp, rule r(1), rule r(2), rule r(3), rule r(4) [unfolded ex], rule cho [unfolded cv], assumption)
qed

lemma entry_written_later:
  assumes "entry_written J col ctx c d0 d1 e h" "others_kept (tenantId ctx) c is d1 d2" "pe_fieldId e \<notin> is"
    and ok: "values_ok (fieldValues (customFields d2))"
  shows "entry_written J col ctx c d0 d2 e h"
proof -
  from assms(1) obtain field typed n v where
    f: "find_first (\<lambda>f. Some (fd_id f) = pe_fieldId e \<and> fd_tenantId f = tenantId ctx) (fieldDefs (customFields d0)) = Some field"
    and r: "coerceValue J (fd_type field) (fd_validationRules field) (raw_entry e) = Inr typed" "stored_number col typed = Inr n"
      "existing_value (tenantId ctx) c (fd_id field) d1 = Some v" "wrote_value typed n (existing_value (tenantId ctx) c (fd_id field) d0) v"
    and cho: "choices (fv_id v) d1 = (if isMultiSelect (fd_type field)
          then map (\<lambda>o'. \<lparr>fs_tenantId = tenantId ctx, fs_valueId = fv_id v, fs_optionId = o'\<rparr>) (picked typed) else choices (fv_id v) d0)"
    and line: "history_line ctx c field typed (existing_value (tenantId ctx) c (fd_id field) d0) v d0 h"
    unfolding entry_written_def by blast
  have fi: "Some (fd_id field) \<notin> is" using find_first_SomeD [OF f] assms(3) by simp
  then have ex: "existing_value (tenantId ctx) c (fd_id field) d2 = Some v" using assms(2) r(3) by (simp add: others_kept_def)
  have "choices (fv_id v) d2 = choices (fv_id v) d1" by (rule kept_choices [OF assms(2) not_written [OF ok ex fi]])
  then have "choices (fv_id v) d2 = (if isMultiSelect (fd_type field)
          then map (\<lambda>o'. \<lparr>fs_tenantId = tenantId ctx, fs_valueId = fv_id v, fs_optionId = o'\<rparr>) (picked typed) else choices (fv_id v) d0)"
    using cho by simp
  then show ?thesis unfolding entry_written_def
    by (intro exI conjI) (rule f, rule r(1), rule r(2), rule ex, rule r(4), assumption, rule line)
qed

section \<open>A batch\<close>

definition fresh_ids :: "env \<Rightarrow> nat \<Rightarrow> db \<Rightarrow> bool" where
  "fresh_ids E k d \<longleftrightarrow> inj_on (ev_uuid E) {k..} \<and> ev_uuid E ` {k..} \<inter> fv_id ` set (fieldValues (customFields d)) = {}"

lemma disjoint_insert: "x \<notin> S \<Longrightarrow> S \<inter> A = {} \<Longrightarrow> B \<subseteq> insert x A \<Longrightarrow> S \<inter> B = {}"
  by blast

lemma fresh_ids_next:
  assumes "fresh_ids E k d" "fv_id ` set (fieldValues (customFields d')) \<subseteq> insert (ev_uuid E k) (fv_id ` set (fieldValues (customFields d)))"
  shows "fresh_ids E (k + 1) d'"
proof -
  have inj: "inj_on (ev_uuid E) {k..}" using assms(1) by (simp add: fresh_ids_def)
  have "ev_uuid E k \<notin> ev_uuid E ` {k + 1..}"
  proof
    assume "ev_uuid E k \<in> ev_uuid E ` {k + 1..}"
    then obtain x where x: "k + 1 \<le> x" "ev_uuid E k = ev_uuid E x" by auto
    have "k = x" using inj_onD [OF inj x(2)] x(1) by simp
    then show False using x(1) by simp
  qed
  moreover have "ev_uuid E ` {k + 1..} \<inter> fv_id ` set (fieldValues (customFields d)) = {}"
  proof -
    have "ev_uuid E ` {k + 1..} \<subseteq> ev_uuid E ` {k..}" by auto
    then show ?thesis using assms(1) unfolding fresh_ids_def by blast
  qed
  ultimately have "ev_uuid E ` {k + 1..} \<inter> fv_id ` set (fieldValues (customFields d')) = {}"
    using assms(2) by (rule disjoint_insert)
  moreover have "inj_on (ev_uuid E) {k + 1..}" by (rule inj_on_subset [OF inj]) auto
  ultimately show ?thesis by (simp add: fresh_ids_def)
qed

lemma check_entries_ids:
  "check_entries seen es = Inr u \<Longrightarrow> distinct (map pe_fieldId es) \<and> None \<notin> pe_fieldId ` set es \<and> pe_fieldId ` set es \<inter> Some ` set seen = {}"
proof (induction seen es rule: check_entries.induct)
  case (2 seen e es)
  then obtain i where i: "pe_fieldId e = Some i" "i \<notin> set seen" "check_entries (i # seen) es = Inr u"
    by (auto split: option.splits if_splits)
  have "i \<noteq> []" using "2.prems" i(1) by (auto split: if_splits)
  from "2.IH" [OF i(1) this i(2,3)] show ?case using i by auto
qed simp

definition version_current :: "string \<Rightarrow> string \<Rightarrow> PatchEntry \<Rightarrow> db \<Rightarrow> bool" where
  "version_current t c e d \<longleftrightarrow> (\<forall>i v m. pe_fieldId e = Some i \<longrightarrow> existing_value t c i d = Some v \<longrightarrow> pe_version e = Some m \<longrightarrow> m = fv_version v)"

text \<open>Every entry written, with its line of history; everything else as before.\<close>

definition batch_written :: "js_engine \<Rightarrow> (rat \<Rightarrow> rat option) \<Rightarrow> UserContext \<Rightarrow> string \<Rightarrow> PatchEntry list \<Rightarrow> db \<Rightarrow> db \<Rightarrow> bool" where
  "batch_written J col ctx c es d d' \<longleftrightarrow> values_ok (fieldValues (customFields d'))
     \<and> (\<forall>e \<in> set es. version_current (tenantId ctx) c e d) \<and> others_kept (tenantId ctx) c (pe_fieldId ` set es) d d'
     \<and> (\<exists>hs. valueHistory (customFields d') = valueHistory (customFields d) @ hs \<and> list_all2 (entry_written J col ctx c d d') es hs)"

lemma patch_entries_Inr:
  assumes "patch_entries E J col k ctx c es d = Inr (is, d')" "values_ok (fieldValues (customFields d))" "fresh_ids E k d"
    and "distinct (map pe_fieldId es)"
  shows "batch_written J col ctx c es d d'"
  using assms
proof (induction es arbitrary: k d "is")
  case Nil
  then show ?case by (simp add: batch_written_def others_kept_def)
next
  case (Cons e es)
  from Cons.prems(1) obtain i d1 js where p: "patch_entry E J col k ctx c e d = Inr (i, d1)"
    and q: "patch_entries E J col (k + 1) ctx c es d1 = Inr (js, d')"
    by (auto simp: res_bind_Inr_iff)
  have "ev_uuid E k \<notin> fv_id ` set (fieldValues (customFields d))" using Cons.prems(3) by (auto simp: fresh_ids_def)
  note e = patch_entry_Inr [OF p Cons.prems(2) this]
  have ei: "pe_fieldId e = Some i" and o: "others_kept (tenantId ctx) c {Some i} d d1" using e by blast+
  obtain h where h: "valueHistory (customFields d1) = valueHistory (customFields d) @ [h]" and w: "entry_written J col ctx c d d1 e h" using e by blast
  have ok: "values_ok (fieldValues (customFields d1))" and fr: "fresh_ids E (k + 1) d1"
    using e fresh_ids_next [OF Cons.prems(3)] by blast+
  have dist: "distinct (map pe_fieldId es)" and ni: "pe_fieldId e \<notin> pe_fieldId ` set es" using Cons.prems(4) by auto
  from Cons.IH [OF q ok fr dist] obtain hs where o': "others_kept (tenantId ctx) c (pe_fieldId ` set es) d1 d'"
    and es: "list_all2 (entry_written J col ctx c d1 d') es hs" and vs: "\<And>x. x \<in> set es \<Longrightarrow> version_current (tenantId ctx) c x d1"
    and hs: "valueHistory (customFields d') = valueHistory (customFields d1) @ hs" and ok': "values_ok (fieldValues (customFields d'))"
    unfolding batch_written_def by blast
  have dis: "{Some i} \<inter> pe_fieldId ` set es = {}" using ni ei by auto
  have "entry_written J col ctx c d d' e h" by (rule entry_written_later [OF w o' ni ok'])
  moreover have "list_all2 (entry_written J col ctx c d d') es hs"
  proof (rule list.rel_mono_strong [OF es])
    fix x g assume x: "x \<in> set es" and g: "entry_written J col ctx c d1 d' x g"
    have "pe_fieldId x \<notin> {Some i}" using x dis by blast
    then show "entry_written J col ctx c d d' x g"
      by (rule entry_written_mono [OF g o _ ok ok' Cons.prems(2) ids_later [OF o' dis ok]])
  qed
  moreover have "version_current (tenantId ctx) c e d" using e ei unfolding version_current_def by auto
  moreover have "version_current (tenantId ctx) c x d" if "x \<in> set es" for x
  proof -
    have "pe_fieldId x \<noteq> Some i" using ni that ei by force
    then have "existing_value (tenantId ctx) c j d1 = existing_value (tenantId ctx) c j d" if "pe_fieldId x = Some j" for j
      using o that unfolding others_kept_def by simp
    then show ?thesis using vs [OF that] unfolding version_current_def by metis
  qed
  moreover have "others_kept (tenantId ctx) c (pe_fieldId ` set (e # es)) d d'" using others_kept_trans [OF o o' dis ok] by (simp add: ei)
  ultimately show ?case using ok' h hs unfolding batch_written_def by auto
qed

lemma patchValues_Inr:
  assumes "patchValues E J col ctx c es d = Inr (r, d')" "values_ok (fieldValues (customFields d))" "fresh_ids E 10 d"
  shows "batch_written J col ctx c es d d' \<and> distinct (map pe_fieldId es)"
proof -
  from assms(1) obtain u js d1 a where ch: "check_entries [] es = Inr u" and p: "patch_entries E J col 10 ctx c es d = Inr (js, d1)"
    and a: "audit_tx E 2 a d1 = Inr d'"
    unfolding patchValues_def res_bind_Inr_iff by (auto simp: res_bind_Inr_iff)
  have dist: "distinct (map pe_fieldId es)" using check_entries_ids [OF ch] by blast
  have b: "batch_written J col ctx c es d d1" using patch_entries_Inr [OF p assms(2,3) dist] .
  obtain rows where d': "d' = d1\<lparr>auditRows := rows\<rparr>" using audit_tx_Inr [OF a] by blast
  have "existing_value t c i d' = existing_value t c i d1" "choices i d' = choices i d1" "ids_of t c is d' = ids_of t c is d1"
    "valueOptions (customFields d') = valueOptions (customFields d1)" "valueHistory (customFields d') = valueHistory (customFields d1)"
    "fieldValues (customFields d') = fieldValues (customFields d1)" "beside_values d' = beside_values d1" for t c i "is"
    by (simp_all add: d' existing_value_def choices_def ids_of_def)
  note same = this
  have "entry_written J col ctx c d d' = entry_written J col ctx c d d1" by (intro ext) (simp only: entry_written_def same)
  then have "batch_written J col ctx c es d d'" using b unfolding batch_written_def others_kept_def same by simp
  then show ?thesis using dist by blast
qed

text \<open>C30: A patch that succeeds writes each entry once: the row of its field holds exactly the coerced value,
  in one column, with the next version or version one, and for a field of several choices the options
  of that row are exactly the coerced ones. The history gains one line for each entry, in order, with
  the value and options before and the value after. Every other row of every case, the options of every
  other row and every other table but the log are as before, and no case gets two rows for a field.\<close>

theorem patch_writes_batch:
  assumes "patchValues E J col ctx c es d = Inr (r, d')" "values_ok (fieldValues (customFields d))" "fresh_ids E 10 d"
  shows "batch_written J col ctx c es d d'"
  using patchValues_Inr [OF assms] by (rule conjunct1)

lemma batch_entry:
  assumes "batch_written J col ctx c es d d'" "e \<in> set es" "pe_fieldId e = Some i"
  shows "\<exists>v'. existing_value (tenantId ctx) c i d' = Some v'
    \<and> fv_version v' = (case existing_value (tenantId ctx) c i d of Some q \<Rightarrow> fv_version q + 1 | None \<Rightarrow> 1)"
proof -
  from assms(1,2) obtain h where "entry_written J col ctx c d d' e h"
    unfolding batch_written_def by (auto simp: list_all2_conv_all_nth in_set_conv_nth)
  then obtain field typed n v where
    f: "find_first (\<lambda>f. Some (fd_id f) = pe_fieldId e \<and> fd_tenantId f = tenantId ctx) (fieldDefs (customFields d)) = Some field"
    and r: "existing_value (tenantId ctx) c (fd_id field) d' = Some v" "wrote_value typed n (existing_value (tenantId ctx) c (fd_id field) d) v"
    unfolding entry_written_def by blast
  have "fd_id field = i" using find_first_SomeD [OF f] assms(3) by simp
  then show ?thesis using r by (auto simp: wrote_value_def)
qed

text \<open>C31: No update is lost between patches that follow each other: once a patch has written a field, a patch
  that was prepared from the version before it and says so is refused.\<close>

theorem stale_version_refused:
  assumes "patchValues E J col ctx c es d = Inr (r, d1)" "values_ok (fieldValues (customFields d))" "fresh_ids E 10 d"
    and "e \<in> set es" "pe_fieldId e = Some i" "existing_value (tenantId ctx) c i d = Some v"
    and "tenantId ctx' = tenantId ctx" "fresh_ids E' 10 d1"
    and "e' \<in> set es'" "pe_fieldId e' = Some i" "pe_version e' = Some (fv_version v)"
  shows "isl (patchValues E' J' col' ctx' c es' d1)"
proof (rule ccontr)
  assume "\<not> isl (patchValues E' J' col' ctx' c es' d1)"
  then obtain r' d2 where p: "patchValues E' J' col' ctx' c es' d1 = Inr (r', d2)" by (cases "patchValues E' J' col' ctx' c es' d1") auto
  have b: "batch_written J col ctx c es d d1" using patchValues_Inr [OF assms(1-3)] ..
  then have ok: "values_ok (fieldValues (customFields d1))" by (simp add: batch_written_def)
  from batch_entry [OF b assms(4,5)] obtain v' where v': "existing_value (tenantId ctx) c i d1 = Some v'" "fv_version v' = fv_version v + 1"
    using assms(6) by auto
  have "batch_written J' col' ctx' c es' d1 d2" using patchValues_Inr [OF p ok assms(8)] ..
  then have "version_current (tenantId ctx) c e' d1" using assms(9) unfolding batch_written_def assms(7) by blast
  then show False using v' assms(10,11) by (simp add: version_current_def)
qed

text \<open>
  Between transactions that overlap nothing protects an update: the version is compared with the
  row that was read, and the write asks for the id only. Of two writes prepared from the same row
  the second overwrites the first, with the same version.
\<close>

lemma overlapping_writes_lose:
  assumes "existing_value (tenantId ctx) c i d = Some v" "values_ok (fieldValues (customFields d))"
    and "ev_uuid E k \<notin> fv_id ` set (fieldValues (customFields d))"
    and "write_value E k ctx c i (Some v) typed n d = Inr (x, d1)"
  shows "\<exists>x' d2 v'. write_value E' k' ctx' c i (Some v) typed' n' d1 = Inr (x', d2) \<and> v' \<in> set (fieldValues (customFields d2))
    \<and> key_of v' = key_of v \<and> wrote_value typed' n' (Some v) v'"
proof -
  note w = write_value_keys [OF assms(4) assms(1) [symmetric] assms(2,3)]
  let ?vs = "fieldValues (customFields d)" and ?g = "\<lambda>t n r. (with_columns t n r)\<lparr>fv_version := fv_version v + 1, fv_deletedAt := None\<rparr>"
  have v: "v \<in> set ?vs" using assms(1) find_first_SomeD unfolding existing_value_def by fast
  have d1: "fieldValues (customFields d1) = map (\<lambda>r. if fv_id r = fv_id v then ?g typed n r else r) ?vs"
    using assms(4) by (auto simp: write_value_def res_bind_Inr_iff update_row_Inr update_many_def put_values_def)
  have g: "fv_id (?g t n r) = fv_id r" "key_of (?g t n r) = key_of r" for t n r by (simp_all add: with_columns_def key_of_def)
  have r: "?g typed n v \<in> set (fieldValues (customFields d1))" using imageI [OF v, of "\<lambda>r. if fv_id r = fv_id v then ?g typed n r else r"] by (simp add: d1)
  then have "find_first (\<lambda>r. fv_id r = fv_id v) (fieldValues (customFields d1)) \<noteq> None"
    using r g(1) [of typed n v] unfolding find_first_None by metis
  then obtain q where q: "find_first (\<lambda>r. fv_id r = fv_id v) (fieldValues (customFields d1)) = Some q" by blast
  let ?d2 = "put_values (map (\<lambda>r. if fv_id r = fv_id v then ?g typed' n' r else r) (fieldValues (customFields d1))) d1"
  have "write_value E' k' ctx' c i (Some v) typed' n' d1 = Inr (fv_id q, ?d2)"
    using q g(1) by (simp add: write_value_def update_row_def update_many_def)
  moreover have "?g typed' n' (?g typed n v) \<in> set (fieldValues (customFields ?d2))"
    using imageI [OF r, of "\<lambda>r. if fv_id r = fv_id v then ?g typed' n' r else r"] g(1) by (simp add: put_values_def)
  moreover have "key_of (?g typed' n' (?g typed n v)) = key_of v" by (simp only: g)
  moreover have "wrote_value typed' n' (Some v) (?g typed' n' (?g typed n v))" by (simp add: wrote_value_def with_columns_def)
  ultimately show ?thesis by blast
qed

section \<open>Concrete runs\<close>

definition env_ids :: env where
  "env_ids = env_one\<lparr>ev_uuid := (\<lambda>k. replicate (k + 1) (CHR ''u''))\<rparr>"

definition value_row :: "string \<Rightarrow> string \<Rightarrow> string option \<Rightarrow> CaseFieldValue" where
  "value_row i f s = \<lparr>fv_id = i, fv_tenantId = ''t1'', fv_caseId = ''c1'', fv_fieldId = f, fv_valueText = s, fv_valueNumber = None,
     fv_valueBoolean = None, fv_valueDate = None, fv_optionId = None, fv_version = 4, fv_deletedAt = None\<rparr>"

definition needs_rule :: CaseFieldRule where
  "needs_rule = \<lparr>fu_id = ''r1'', fu_tenantId = ''t1'', fu_name = ''needs'', fu_description = None, fu_isActive = True, fu_priority = 0,
     fu_conditionFieldId = ''a'', fu_conditionOperator = OP_IS_NOT_EMPTY, fu_conditionValue = JNull, fu_conditionOptionId = None,
     fu_effectType = REQUIRE_FIELD, fu_targetFieldId = ''b'', fu_defaultPayload = JNull, fu_createdAt = 0, fu_deletedAt = None\<rparr>"

definition form_db :: db where
  "form_db = empty_db\<lparr>docCases := [blank_case ''c1'' ctx_one ''l1'' None],
     customFields := no_fields\<lparr>fieldDefs := [field_row ''a'' FT_TEXT FS_ACTIVE, field_row ''b'' FT_TEXT FS_ACTIVE],
       fieldRules := [needs_rule], fieldValues := [value_row ''v1'' ''a'' (Some ''x'')]\<rparr>\<rparr>"

definition text_entry :: "string \<Rightarrow> int option \<Rightarrow> PatchEntry" where
  "text_entry f n = \<lparr>pe_fieldId = Some f, pe_value = JStr ''y'', pe_optionId = JUndefined, pe_optionIds = JUndefined, pe_version = n\<rparr>"

lemma form_db_ok: "values_ok (fieldValues (customFields form_db))" "distinct (map fd_id (fieldDefs (customFields form_db)))"
  by (simp_all add: form_db_def values_ok_def field_row_def)

lemma env_ids_fresh:
  assumes "map fv_id (fieldValues (customFields d)) = [''v1'']"
  shows "fresh_ids env_ids 10 d"
proof -
  have ids: "fv_id ` set (fieldValues (customFields d)) = {''v1''}" using arg_cong [OF assms, of set] by simp
  have inj: "inj_on (ev_uuid env_ids) {10..}" by (auto simp: inj_on_def env_ids_def dest: arg_cong [of _ _ length])
  have no: "''v1'' \<notin> ev_uuid env_ids ` {10..}"
  proof
    assume "''v1'' \<in> ev_uuid env_ids ` {10..}"
    then obtain k where k: "k \<in> {10..}" "''v1'' = ev_uuid env_ids k" by (rule imageE)
    from arg_cong [OF k(2), of length] k(1) show False by (simp add: env_ids_def)
  qed
  show ?thesis unfolding fresh_ids_def ids by (intro conjI inj) (simp only: Int_insert_right_if0 [OF no] Int_empty_right)
qed

lemma ran2: "\<not> isl r \<Longrightarrow> r = Inr (fst (projr r), snd (projr r))"
  by (cases r) simp_all

theorem validation_agrees_with_form_witness:
  "(\<lambda>f. fd_id (ff_field f)) ` {f \<in> set (fst (projr (getValues no_engine user_one ''c1'' form_db))).
     ff_isRequired f \<and> \<not> filled (snd (projr (getValues no_engine user_one ''c1'' form_db))) (ff_field f)} = {''b''}"
proof -
  let ?g = "getValues no_engine user_one ''c1'' form_db"
  have l: "load_live_case user_one ''c1'' form_db = Inr (blank_case ''c1'' ctx_one ''l1'' None)" by code_simp
  have g: "\<not> isl ?g" unfolding getValues_def l res_bind_simps Let_def by (rule sum.disc)
  have v: "validateValues no_engine user_one ''c1'' form_db = Inr \<lparr>vr_valid = False, vr_missing = [(''r1'', ''b'')]\<rparr>"
    by code_simp
  from validation_agrees_with_form [OF form_db_ok(2,1) ran2 [OF g] v] show ?thesis by simp
qed

theorem patch_writes_batch_witness:
  "batch_written no_engine Some user_one ''c1'' [text_entry ''b'' None] form_db
     (snd (projr (patchValues env_ids no_engine Some user_one ''c1'' [text_entry ''b'' None] form_db)))"
proof -
  have f: "fresh_ids env_ids 10 form_db" by (rule env_ids_fresh) (simp add: form_db_def value_row_def)
  have p: "\<not> isl (patchValues env_ids no_engine Some user_one ''c1'' [text_entry ''b'' None] form_db)" by code_simp
  from patch_writes_batch [OF ran2 [OF p] form_db_ok(1) f] show ?thesis .
qed

theorem stale_version_refused_witness:
  "isl (patchValues env_ids no_engine Some user_one ''c1'' [text_entry ''a'' (Some 4)]
     (snd (projr (patchValues env_ids no_engine Some user_one ''c1'' [text_entry ''a'' (Some 4)] form_db))))"
proof -
  let ?p = "patchValues env_ids no_engine Some user_one ''c1'' [text_entry ''a'' (Some 4)] form_db"
  have f: "fresh_ids env_ids 10 form_db" by (rule env_ids_fresh) (simp add: form_db_def value_row_def)
  have p: "\<not> isl ?p" by code_simp
  have f': "fresh_ids env_ids 10 (snd (projr ?p))" by (rule env_ids_fresh) code_simp
  have ex: "existing_value (tenantId user_one) ''c1'' ''a'' form_db = Some (value_row ''v1'' ''a'' (Some ''x''))" by code_simp
  show ?thesis
    by (rule stale_version_refused [where e = "text_entry ''a'' (Some 4)" and e' = "text_entry ''a'' (Some 4)", OF ran2 [OF p] form_db_ok(1) f _ _ ex refl f'])
       (simp_all add: text_entry_def value_row_def)
qed

end
