(* ===== verification/Timeline_System.thy ===== *)
theory Timeline_System
  imports Timeline_Props Field_Value_Props
begin

text \<open>
  The timelines of all organisations as one system: the operations of the timeline service, the
  sweep of the worker and everything that leaves the planning tables alone, and what holds in every
  reachable state.
\<close>

section \<open>The sweep of one stage\<close>

lemma overdue_status:
  assumes "computeStageSlaState rnd st now cal = Some (Inr (Some SLA_OVERDUE))"
  shows "sla_status st \<notin> {SS_COMPLETED, SS_SKIPPED, SS_WAITING_EXTERNAL}"
  using assms by (auto simp: computeStageSlaState_def split: if_splits option.splits)

definition swept_row :: "bool \<Rightarrow> CaseStage \<Rightarrow> CaseStageSlaState option \<Rightarrow> CaseStage \<Rightarrow> CaseStage" where
  "swept_row exception s newState r =
     (let r1 = (if shouldHardBlock (sla_input exception s) newState then r\<lparr>cs_status := SS_BLOCKED, cs_slaState := newState\<rparr>
                else if newState \<noteq> cs_slaState s then r\<lparr>cs_slaState := newState\<rparr> else r)
      in if \<not> alerting newState \<and> cs_slaNotifiedForState s \<noteq> None then r1\<lparr>cs_slaNotifiedForState := None\<rparr> else r1)"

definition on_row :: "string \<Rightarrow> (CaseStage \<Rightarrow> CaseStage) \<Rightarrow> db \<Rightarrow> db \<Rightarrow> bool" where
  "on_row i f d d' \<longleftrightarrow> stages (planning d') = map (\<lambda>r. if cs_id r = i then f r else r) (stages (planning d))
     \<and> timelines (planning d') = timelines (planning d)"

lemma on_row_update: "update_stage i f d = Inr (u, d1) \<Longrightarrow> on_row i f d d1"
  by (simp add: update_stage_Inr on_row_def)

lemma on_row_id: "planning d' = planning d \<Longrightarrow> on_row i (\<lambda>r. r) d d'"
  by (simp add: on_row_def)

lemma on_row_trans:
  assumes "on_row i f d d1" "on_row i g d1 d2" "\<And>r. cs_id (f r) = cs_id r"
  shows "on_row i (\<lambda>r. g (f r)) d d2"
  using assms by (simp add: on_row_def)

lemma on_row_tables: "on_row i f d d1 \<Longrightarrow> stages (planning d') = stages (planning d1) \<Longrightarrow> timelines (planning d') = timelines (planning d1) \<Longrightarrow> on_row i f d d'"
  by (simp add: on_row_def)

lemma block_stage_row:
  assumes "block_stage E k tenant caseId s newState d = Inr d1"
  shows "on_row (cs_id s) (\<lambda>r. r\<lparr>cs_status := SS_BLOCKED, cs_slaState := newState\<rparr>) d d1"
proof -
  obtain u d0 d2 where w: "update_stage (cs_id s) (\<lambda>r. r\<lparr>cs_status := SS_BLOCKED, cs_slaState := newState\<rparr>) d = Inr (u, d0)"
    and e: "d2 = stage_event E k tenant caseId (cs_id s) ''BLOCKED'' (cs_status s) SS_BLOCKED None None d0"
    and a: "\<exists>k i. audit_tx E k i d2 = Inr d1"
    using assms unfolding block_stage_def res_bind_Inr_iff split_paired_Ex prod.case by blast
  have "planning d1 = planning d2" using a audit_same_plan by blast
  then show ?thesis using on_row_tables [OF on_row_update [OF w], of d1] by (simp add: e)
qed

lemma write_sla_row:
  assumes "write_sla E k tenant caseId exception s newState d = Inr d'"
  shows "on_row (cs_id s) (swept_row exception s newState) d d'"
proof -
  let ?f = "\<lambda>r. if shouldHardBlock (sla_input exception s) newState then r\<lparr>cs_status := SS_BLOCKED, cs_slaState := newState\<rparr>
                else if newState \<noteq> cs_slaState s then r\<lparr>cs_slaState := newState\<rparr> else r"
  let ?g = "\<lambda>r. if \<not> alerting newState \<and> cs_slaNotifiedForState s \<noteq> None then r\<lparr>cs_slaNotifiedForState := None\<rparr> else r"
  obtain d1 where a: "(if shouldHardBlock (sla_input exception s) newState then block_stage E k tenant caseId s newState d
        else if newState \<noteq> cs_slaState s
        then res_bind (update_stage (cs_id s) (\<lambda>r. r\<lparr>cs_slaState := newState\<rparr>) d) (\<lambda>(_, d1). Inr d1)
        else Inr d) = Inr d1"
    and b: "(if \<not> alerting newState \<and> cs_slaNotifiedForState s \<noteq> None
     then res_bind (update_stage (cs_id s) (\<lambda>r. r\<lparr>cs_slaNotifiedForState := None\<rparr>) d1) (\<lambda>(_, d2). Inr d2)
     else Inr d1) = Inr d'"
    using assms unfolding write_sla_def res_bind_Inr_iff by blast
  have f: "on_row (cs_id s) ?f d d1"
  proof (cases "shouldHardBlock (sla_input exception s) newState")
    case True
    then show ?thesis using block_stage_row a by simp
  next
    case False
    show ?thesis
    proof (cases "newState = cs_slaState s")
      case True
      then show ?thesis using a False by (simp add: on_row_id)
    next
      case ne: False
      then obtain u where "update_stage (cs_id s) (\<lambda>r. r\<lparr>cs_slaState := newState\<rparr>) d = Inr (u, d1)"
        using a False by (auto simp: res_bind_Inr_iff)
      from on_row_update [OF this] False ne show ?thesis by simp
    qed
  qed
  have g: "on_row (cs_id s) ?g d1 d'"
  proof (cases "\<not> alerting newState \<and> cs_slaNotifiedForState s \<noteq> None")
    case True
    then obtain u where "update_stage (cs_id s) (\<lambda>r. r\<lparr>cs_slaNotifiedForState := None\<rparr>) d1 = Inr (u, d')"
      using b by (auto simp: res_bind_Inr_iff)
    from on_row_update [OF this] True show ?thesis by simp
  next
    case False
    have "d1 = d'" using b unfolding if_not_P [OF False] by (simp only: sum.inject)
    then show ?thesis unfolding if_not_P [OF False] by (simp add: on_row_id)
  qed
  from on_row_trans [OF f g] show ?thesis unfolding swept_row_def Let_def by simp
qed

section \<open>The sweep of the stages of an organisation\<close>

text \<open>A row moves by the sweep, and rows outside the work are those of before.\<close>

definition sweep_moves :: "string set \<Rightarrow> db \<Rightarrow> db \<Rightarrow> bool" where
  "sweep_moves ids d d' \<longleftrightarrow> rows_move (\<lambda>j. blocks) d d' \<and> timelines (planning d') = timelines (planning d)
     \<and> (\<forall>q \<in> set (stages (planning d')). cs_id q \<notin> ids \<longrightarrow> q \<in> set (stages (planning d)))"

lemma sweep_moves_refl: "planning d' = planning d \<Longrightarrow> sweep_moves ids d d'"
  by (simp add: sweep_moves_def rows_same_stages blocks_def)

lemma sweep_moves_trans:
  assumes "sweep_moves ids d d1" "sweep_moves ids' d1 d2"
  shows "sweep_moves (ids \<union> ids') d d2"
proof -
  have "rows_move (\<lambda>j. blocks) d d2"
    by (rule rows_move_mono [OF rows_move_trans]) (use assms blocks_trans in \<open>auto simp: sweep_moves_def\<close>)
  then show ?thesis using assms by (simp add: sweep_moves_def)
qed

lemma sweep_moves_mono: "sweep_moves ids d d' \<Longrightarrow> ids \<subseteq> ids' \<Longrightarrow> sweep_moves ids' d d'"
  unfolding sweep_moves_def by blast

lemma on_row_moves:
  assumes "on_row i f d d'" "\<And>r. r \<in> set (stages (planning d)) \<Longrightarrow> cs_id r = i \<Longrightarrow> row_moves (\<lambda>j. blocks) r (f r)"
  shows "sweep_moves {i} d d'"
proof -
  have ss: "stages (planning d') = map (\<lambda>r. if cs_id r = i then f r else r) (stages (planning d))"
    and tls: "timelines (planning d') = timelines (planning d)" using assms(1) by (simp_all add: on_row_def)
  have "list_all2 (row_moves (\<lambda>j. blocks)) (stages (planning d)) (stages (planning d'))"
    unfolding ss list_all2_map2 list_all2_same using assms(2) by (simp add: row_moves_def blocks_def)
  moreover have "q \<in> set (stages (planning d))" if q: "q \<in> set (stages (planning d'))" "cs_id q \<noteq> i" for q
  proof -
    obtain r where r: "r \<in> set (stages (planning d))" "q = (if cs_id r = i then f r else r)" using q(1) unfolding ss by auto
    have "cs_id r \<noteq> i"
    proof
      assume i: "cs_id r = i"
      then have "cs_id (f r) = i" using assms(2) [OF r(1) i] by (simp add: row_moves_def move_free_def)
      then show False using q(2) r(2) i by simp
    qed
    then show ?thesis using r by simp
  qed
  ultimately show ?thesis using tls by (simp add: sweep_moves_def rows_move_def)
qed

lemma swept_row_keeps [simp]:
  "move_free r (swept_row ex s st r)" "base_kept r (swept_row ex s st r)"
  "cs_status (swept_row ex s st r) = (if shouldHardBlock (sla_input ex s) st then SS_BLOCKED else cs_status r)"
  by (simp_all add: swept_row_def Let_def move_free_def base_kept_def)

lemma hard_block_open:
  assumes "computeStageSlaState rnd (sla_input ex s) now cal = Some (Inr st)" "shouldHardBlock (sla_input ex s) st"
  shows "cs_hardBlock s" "cs_status s \<notin> {SS_COMPLETED, SS_SKIPPED, SS_WAITING_EXTERNAL}"
proof -
  have "st = Some SLA_OVERDUE" "cs_hardBlock s" using assms(2) by (simp_all add: shouldHardBlock_def sla_input_def)
  then show "cs_hardBlock s" "cs_status s \<notin> {SS_COMPLETED, SS_SKIPPED, SS_WAITING_EXTERNAL}"
    using overdue_status [of rnd "sla_input ex s" now cal] assms(1) by (simp_all add: sla_input_def)
qed

lemma write_sla_moves:
  assumes "\<forall>r \<in> set (stages (planning d)). cs_id r = cs_id s \<longrightarrow> cs_status r = cs_status s"
    and "computeStageSlaState rnd (sla_input ex s) now cal = Some (Inr st)" "write_sla E k tenant c ex s st d = Inr d'"
  shows "sweep_moves {cs_id s} d d'"
proof (rule on_row_moves [OF write_sla_row [OF assms(3)]])
  fix r assume r: "r \<in> set (stages (planning d))" "cs_id r = cs_id s"
  have "blocks (cs_status s) SS_BLOCKED" if b: "shouldHardBlock (sla_input ex s) st"
    using hard_block_open(2) [OF assms(2) b] by (cases "cs_status s") (simp_all add: blocks_def)
  then show "row_moves (\<lambda>j. blocks) r (swept_row ex s st r)" using assms(1) r by (simp add: row_moves_def blocks_def)
qed

lemma sweep_plan: "plan_ok d \<Longrightarrow> sweep_moves ids d d' \<Longrightarrow> plan_ok d'"
  by (rule blocked_plan) (simp_all add: sweep_moves_def)

text \<open>
  The worker reads its stages before the transactions that write them. The rows it works with are
  current when no stage among them has changed its status since.
\<close>

definition work_ids :: "(SweptTimeline \<times> CaseStage) list \<Rightarrow> string list" where
  "work_ids work = map (\<lambda>p. cs_id (snd p)) work"

definition current_work :: "(SweptTimeline \<times> CaseStage) list \<Rightarrow> db \<Rightarrow> bool" where
  "current_work work d \<longleftrightarrow> distinct (work_ids work)
     \<and> (\<forall>p \<in> set work. \<forall>r \<in> set (stages (planning d)). cs_id r = cs_id (snd p) \<longrightarrow> cs_status r = cs_status (snd p))"

lemma current_kept:
  assumes "current_work work d" "sweep_moves ids d d'" "set (work_ids work) \<inter> ids = {}"
  shows "current_work work d'"
  unfolding current_work_def
proof (intro conjI ballI impI)
  show "distinct (work_ids work)" using assms(1) by (simp add: current_work_def)
  fix p r assume p: "p \<in> set work" and r: "r \<in> set (stages (planning d'))" "cs_id r = cs_id (snd p)"
  have "cs_id (snd p) \<in> set (work_ids work)" using p by (auto simp: work_ids_def)
  then have "cs_id r \<notin> ids" using assms(3) r(2) by (metis IntI empty_iff)
  then have "r \<in> set (stages (planning d))" using assms(2) r(1) by (simp add: sweep_moves_def)
  then show "cs_status r = cs_status (snd p)" using assms(1) p r(2) by (simp add: current_work_def)
qed

lemma sweep_stages_Cons:
  assumes "sweep_stages rnd E now cal k ((tm, s) # work) d = Some (Inr (out, d'))"
  obtains st d1 n q where "computeStageSlaState rnd (sla_input (sw_exceptionApproved tm) s) now cal = Some (Inr st)"
    "write_sla E k (sw_tenantId tm) (sw_caseId tm) (sw_exceptionApproved tm) s st d = Inr d1"
    "sweep_stages rnd E now cal (k + 2) work d1 = Some (Inr ((n, q), d'))"
    "((if st \<noteq> cs_slaState s then n + 1 else n), alert_of (sw_caseId tm) (sw_caseRef tm) (sw_recipients tm) s st @ q) = out"
  using assms unfolding sweep_stages.simps run_bind_Inr lift_Inr split_paired_Ex prod.case run_return_eq prod.inject
  by (elim exE conjE) (rule that, assumption, assumption, simp only:)

lemma sweep_stages_moves:
  assumes "sweep_stages rnd E now cal k work d = Some (Inr (out, d'))" "current_work work d"
  shows "sweep_moves (set (work_ids work)) d d'"
  using assms
proof (induction work arbitrary: k d out)
  case Nil
  then show ?case by (auto simp: sweep_moves_refl)
next
  case (Cons p work)
  obtain tm s where p: "p = (tm, s)" by (cases p)
  obtain st d1 n q where c: "computeStageSlaState rnd (sla_input (sw_exceptionApproved tm) s) now cal = Some (Inr st)"
    and w: "write_sla E k (sw_tenantId tm) (sw_caseId tm) (sw_exceptionApproved tm) s st d = Inr d1"
    and r: "sweep_stages rnd E now cal (k + 2) work d1 = Some (Inr ((n, q), d'))"
    using Cons.prems(1) unfolding p by (rule sweep_stages_Cons)
  have cur: "\<forall>r \<in> set (stages (planning d)). cs_id r = cs_id s \<longrightarrow> cs_status r = cs_status s"
    and rest: "current_work work d" and new: "cs_id s \<notin> set (work_ids work)"
    using Cons.prems(2) by (simp_all add: p current_work_def work_ids_def)
  note m = write_sla_moves [OF cur c w]
  have "current_work work d1" by (rule current_kept [OF rest m]) (use new in simp)
  from sweep_moves_trans [OF m Cons.IH [OF r this]] show ?case by (simp add: p work_ids_def)
qed

text \<open>
  Whatever happened since the read, a sweep leaves the status of a stage as it is or blocks a stage
  that was read as open and asks for the block.
\<close>

definition read_to_block :: "(SweptTimeline \<times> CaseStage) list \<Rightarrow> string \<Rightarrow> bool" where
  "read_to_block work i \<longleftrightarrow> (\<exists>p \<in> set work. cs_id (snd p) = i \<and> cs_hardBlock (snd p)
     \<and> cs_status (snd p) \<notin> {SS_COMPLETED, SS_SKIPPED, SS_WAITING_EXTERNAL})"

lemma stale_sweep_moves:
  assumes "sweep_stages rnd E now cal k work d = Some (Inr (out, d'))"
  shows "rows_move (\<lambda>j a b. b = a \<or> b = SS_BLOCKED \<and> read_to_block work j) d d'"
  using assms
proof (induction work arbitrary: k d out)
  case Nil
  then show ?case by (auto simp: rows_same_stages)
next
  case (Cons p work)
  obtain tm s where p: "p = (tm, s)" by (cases p)
  obtain st d1 n q where c: "computeStageSlaState rnd (sla_input (sw_exceptionApproved tm) s) now cal = Some (Inr st)"
    and w: "write_sla E k (sw_tenantId tm) (sw_caseId tm) (sw_exceptionApproved tm) s st d = Inr d1"
    and r: "sweep_stages rnd E now cal (k + 2) work d1 = Some (Inr ((n, q), d'))"
    using Cons.prems unfolding p by (rule sweep_stages_Cons)
  let ?m = "\<lambda>j a b. b = a \<or> b = SS_BLOCKED \<and> read_to_block (p # work) j"
  have "stages (planning d1) = map (\<lambda>r. if cs_id r = cs_id s then swept_row (sw_exceptionApproved tm) s st r else r) (stages (planning d))"
    using write_sla_row [OF w] by (simp add: on_row_def)
  moreover have "read_to_block (p # work) (cs_id s)" if "shouldHardBlock (sla_input (sw_exceptionApproved tm) s) st"
    using hard_block_open [OF c that] by (auto simp: read_to_block_def p)
  ultimately have one: "rows_move ?m d d1"
    by (auto simp: rows_move_def list_all2_map2 list_all2_same row_moves_def)
  have "rows_move ?m d1 d'"
    by (rule rows_move_mono [OF Cons.IH [OF r]]) (auto simp: read_to_block_def)
  from rows_move_trans [OF one this] show ?case by (rule rows_move_mono) auto
qed

section \<open>The marks of the notifications\<close>

lemma mark_notified_moves: "sweep_moves {i} d (mark_notified i st d) \<and> rows_move (\<lambda>j a b. b = a) d (mark_notified i st d)"
proof (cases "update_stage i (\<lambda>r. r\<lparr>cs_slaNotifiedForState := Some st\<rparr>) d")
  case (Inl e)
  then show ?thesis by (simp add: mark_notified_def sweep_moves_refl rows_same_stages)
next
  case (Inr p)
  obtain u d1 where "p = (u, d1)" by (cases p)
  then have m: "mark_notified i st d = d1" and w: "update_stage i (\<lambda>r. r\<lparr>cs_slaNotifiedForState := Some st\<rparr>) d = Inr (u, d1)"
    using Inr by (simp_all add: mark_notified_def)
  note r = on_row_update [OF w]
  have "rows_move (\<lambda>j a b. b = a) d d1"
    using r by (auto simp: on_row_def rows_move_def list_all2_map2 list_all2_same row_moves_def move_free_def base_kept_def)
  moreover have "sweep_moves {i} d d1"
    by (rule on_row_moves [OF r]) (simp add: row_moves_def move_free_def base_kept_def blocks_def)
  ultimately show ?thesis unfolding m by blast
qed

section \<open>The system\<close>

text \<open>
  One step is one transaction: a call that returned, with the reads of its request in the environment
  \<open>E\<close>; what a sweep writes for one organisation, from rows it read earlier and that are still
  current; the mark of a notification that was sent; or anything that leaves the stages and the
  timelines alone.
\<close>

inductive plan_step :: "js_engine \<Rightarrow> (rat \<Rightarrow> rat) \<Rightarrow> db \<Rightarrow> db \<Rightarrow> bool" for J rnd where
  create: "fresh_rows E d \<Longrightarrow> createTimeline E ctx c d = Inr (u, d') \<Longrightarrow> plan_step J rnd d d'"
| start: "startStage E ctx c s d = Some (Inr (v, d')) \<Longrightarrow> plan_step J rnd d d'"
| complete: "completeStage J rnd E ctx c s override why d = Some (Inr (v, d')) \<Longrightarrow> plan_step J rnd d d'"
| unlock: "unlockStage E ctx c s why d = Inr (v, d') \<Longrightarrow> plan_step J rnd d d'"
| skip: "skipStage E ctx c s why d = Some (Inr (v, d')) \<Longrightarrow> plan_step J rnd d d'"
| reopen: "reopenStage E ctx c s d = Some (Inr (v, d')) \<Longrightarrow> plan_step J rnd d d'"
| pause: "pauseStage E ctx c s d = Some (Inr (v, d')) \<Longrightarrow> plan_step J rnd d d'"
| resume: "resumeStage E ctx c s d = Some (Inr (v, d')) \<Longrightarrow> plan_step J rnd d d'"
| target: "setTarget E ctx c t d = Some (Inr (r, d')) \<Longrightarrow> plan_step J rnd d d'"
| recalculate: "recalc E ctx c d = Some (Inr (r, d')) \<Longrightarrow> plan_step J rnd d d'"
| approve: "approveException E ctx c why d = Inr (w, d') \<Longrightarrow> plan_step J rnd d d'"
| duration: "overrideDuration E ctx c s rd why d = Some (Inr (r, d')) \<Longrightarrow> plan_step J rnd d d'"
| sweep: "current_work work d \<Longrightarrow> sweep_stages rnd E now (loadPlanningCalendar tenant d) k work d = Some (Inr (out, d'))
    \<Longrightarrow> plan_step J rnd d d'"
| notified: "plan_step J rnd d (mark_notified i st d)"
| elsewhere: "stages (planning d') = stages (planning d) \<Longrightarrow> timelines (planning d') = timelines (planning d) \<Longrightarrow> plan_step J rnd d d'"

inductive plan_reached :: "js_engine \<Rightarrow> (rat \<Rightarrow> rat) \<Rightarrow> db \<Rightarrow> bool" for J rnd where
  init: "stages (planning d) = [] \<Longrightarrow> timelines (planning d) = [] \<Longrightarrow> plan_reached J rnd d"
| step: "plan_reached J rnd d \<Longrightarrow> plan_step J rnd d d' \<Longrightarrow> plan_reached J rnd d'"

lemma sweep_keeps:
  assumes "plan_ok d" "sweep_moves ids d d'"
  shows "step_keeps d d'"
proof -
  have "rows_move (\<lambda>j. blocks) d d'" using assms(2) by (simp add: sweep_moves_def)
  from sweep_plan [OF assms] this blocks_may show ?thesis by (rule step_keepsI)
qed

lemma plan_step_keeps: "plan_step J rnd d d' \<Longrightarrow> plan_ok d \<Longrightarrow> step_keeps d d'"
proof (induction rule: plan_step.induct)
  case (elsewhere d' d)
  then show ?case using plan_cong(3) [of d' d]
    by (simp add: step_keeps_def list_all2_same row_moves_def may_move_def)
next
  case (sweep work d E now tenant k out d')
  show ?case by (rule sweep_keeps [OF sweep.prems sweep_stages_moves [OF sweep.hyps(2,1)]])
next
  case (notified d i st)
  show ?case by (rule sweep_keeps [OF notified.prems conjunct1 [OF mark_notified_moves]])
qed (rule createTimeline_keeps startStage_keeps completeStage_keeps unlockStage_keeps skipStage_keeps reopenStage_keeps
  pauseStage_keeps resumeStage_keeps setTarget_keeps recalc_keeps approveException_keeps overrideDuration_keeps, assumption+)+

lemma reach_plan_ok: "plan_reached J rnd d \<Longrightarrow> plan_ok d"
proof (induction rule: plan_reached.induct)
  case (init d)
  then show ?case by (simp add: plan_ok_def keys_ok_def)
next
  case (step d d')
  then show ?case using plan_step_keeps [OF step.hyps(2) step.IH] by (simp add: step_keeps_def)
qed

lemma step_keeps_row:
  assumes "step_keeps d d'" "s \<in> set (stages (planning d))"
  obtains s' where "s' \<in> set (stages (planning d'))" "row_moves (\<lambda>j. may_move) s s'"
proof -
  obtain i where i: "i < length (stages (planning d))" "s = stages (planning d) ! i" using assms(2) by (auto simp: in_set_conv_nth)
  let ?ts = "take (length (stages (planning d))) (stages (planning d'))"
  have l: "list_all2 (row_moves (\<lambda>j. may_move)) (stages (planning d)) ?ts" using assms(1) by (simp add: step_keeps_def)
  then have n: "i < length ?ts" using i(1) list_all2_lengthD by metis
  have "row_moves (\<lambda>j. may_move) s (?ts ! i)" using list_all2_nthD [OF l i(1)] i(2) by simp
  moreover have "?ts ! i \<in> set (stages (planning d'))" using nth_mem [OF n] set_take_subset by fast
  ultimately show ?thesis using that by blast
qed

section \<open>A whole sweep\<close>

text \<open>
  A run of the worker that no other transaction interrupts is a sequence of these steps.
\<close>

lemma current_same:
  assumes "current_work work d" "rows_move (\<lambda>j a b. j \<in> set (work_ids work) \<longrightarrow> b = a) d d'"
  shows "current_work work d'"
  unfolding current_work_def
proof (intro conjI ballI impI)
  show "distinct (work_ids work)" using assms(1) by (simp add: current_work_def)
  fix p r assume p: "p \<in> set work" and r: "r \<in> set (stages (planning d'))" "cs_id r = cs_id (snd p)"
  note l = assms(2) [unfolded rows_move_def]
  obtain i where i: "i < length (stages (planning d'))" "r = stages (planning d') ! i" using r(1) by (auto simp: in_set_conv_nth)
  then have n: "i < length (stages (planning d))" using list_all2_lengthD [OF l] by simp
  have m: "row_moves (\<lambda>j a b. j \<in> set (work_ids work) \<longrightarrow> b = a) (stages (planning d) ! i) r"
    using list_all2_nthD [OF l n] i(2) by simp
  have "cs_id (snd p) \<in> set (work_ids work)" using p by (auto simp: work_ids_def)
  then have "cs_id (stages (planning d) ! i) = cs_id (snd p)" "cs_status r = cs_status (stages (planning d) ! i)"
    using m r(2) by (auto simp: row_moves_def move_free_def)
  then show "cs_status r = cs_status (snd p)" using assms(1) p nth_mem [OF n] by (simp add: current_work_def)
qed

lemma emit_steps:
  "(plan_step J rnd)\<^sup>*\<^sup>* d (fst (emit_alerts sent E k tenant as (d, ns)))
     \<and> rows_move (\<lambda>j a b. b = a) d (fst (emit_alerts sent E k tenant as (d, ns)))"
proof (induction as arbitrary: d ns k)
  case Nil
  then show ?case by (simp add: rows_same_stages)
next
  case (Cons a as)
  let ?d = "mark_notified (al_stageId a) (al_state a) d"
  have m: "(plan_step J rnd)\<^sup>*\<^sup>* d (fst (emit_alerts sent E k' tenant as (?d, ns')))
     \<and> rows_move (\<lambda>j a b. b = a) d (fst (emit_alerts sent E k' tenant as (?d, ns')))" for k' ns'
  proof
    show "(plan_step J rnd)\<^sup>*\<^sup>* d (fst (emit_alerts sent E k' tenant as (?d, ns')))"
      using plan_step.notified Cons.IH [THEN conjunct1] by (rule converse_rtranclp_into_rtranclp)
    show "rows_move (\<lambda>j a b. b = a) d (fst (emit_alerts sent E k' tenant as (?d, ns')))"
      by (rule rows_move_mono [OF rows_move_trans [OF conjunct2 [OF mark_notified_moves] Cons.IH [THEN conjunct2]]]) blast
  qed
  show ?case using m Cons.IH by simp
qed

definition tenant_work :: "SweptTimeline list \<Rightarrow> string \<Rightarrow> (SweptTimeline \<times> CaseStage) list" where
  "tenant_work tls tenant = work_of (filter (\<lambda>tm. sw_tenantId tm = tenant) tls)"

lemma work_of_filter: "work_of (filter P tls) = filter (\<lambda>p. P (fst p)) (work_of tls)"
proof (induction tls)
  case (Cons tm tls)
  have "filter (\<lambda>p. P (fst p)) (map (Pair tm) ss) = (if P tm then map (Pair tm) ss else [])" for ss :: "CaseStage list"
    by (induction ss) simp_all
  then show ?case using Cons by (simp add: work_of_def)
qed (simp add: work_of_def)

lemma work_disjoint:
  assumes "distinct (work_ids (work_of tls))" "t \<noteq> u"
  shows "set (work_ids (tenant_work tls t)) \<inter> set (work_ids (tenant_work tls u)) = {}"
proof (rule ccontr)
  assume "set (work_ids (tenant_work tls t)) \<inter> set (work_ids (tenant_work tls u)) \<noteq> {}"
  then obtain p q where p: "p \<in> set (tenant_work tls t)" and q: "q \<in> set (tenant_work tls u)" and e: "cs_id (snd p) = cs_id (snd q)"
    by (auto simp: work_ids_def)
  have pw: "p \<in> set (work_of tls)" "sw_tenantId (fst p) = t" "q \<in> set (work_of tls)" "sw_tenantId (fst q) = u"
    using p q by (auto simp: tenant_work_def work_of_filter)
  have "p = q" using same_row [OF assms(1) [unfolded work_ids_def] pw(1,3) e] .
  then show False using pw(2,4) assms(2) by simp
qed

lemma tenants_steps:
  assumes "sweep_tenants rnd sent E now k tls tenants (d, ns) = Some (n, w)" "distinct (work_ids (work_of tls))"
    and "distinct tenants" "\<forall>t \<in> set tenants. current_work (tenant_work tls t) d"
  shows "(plan_step J rnd)\<^sup>*\<^sup>* d (fst w)"
  using assms
proof (induction tenants arbitrary: k d ns n w)
  case Nil
  then show ?case by auto
next
  case (Cons tenant tenants)
  let ?work = "tenant_work tls tenant"
  have cur: "current_work ?work d" and others: "\<forall>t \<in> set tenants. current_work (tenant_work tls t) d" using Cons.prems(4) by simp_all
  note run = Cons.prems(1) [unfolded sweep_tenants.simps Let_def tenant_work_def [symmetric]]
  show ?case
  proof (cases "sweep_stages rnd E now (loadPlanningCalendar tenant d) k ?work d")
    case None
    then show ?thesis using run by simp
  next
    case (Some r)
    show ?thesis
    proof (cases r)
      case (Inl e)
      then have "sweep_tenants rnd sent E now (k + 2 * length ?work) tls tenants (d, ns) = Some (n, w)" using Some run by simp
      from Cons.IH [OF this Cons.prems(2) _ others] Cons.prems(3) show ?thesis by simp
    next
      case (Inr x)
      obtain c q d1 where x: "x = ((c, q), d1)" by (cases x) auto
      have st: "sweep_stages rnd E now (loadPlanningCalendar tenant d) k ?work d = Some (Inr ((c, q), d1))" using Some Inr x by simp
      let ?e = "emit_alerts sent E (k + 2 * length ?work) tenant q (d1, ns)"
      have e: "?e = (fst ?e, snd ?e)" by simp
      obtain n' k' where rest: "sweep_tenants rnd sent E now k' tls tenants (fst ?e, snd ?e) = Some (n', w)"
        using run st by auto
      have "current_work (tenant_work tls t) (fst ?e)" if t: "t \<in> set tenants" for t
      proof (rule current_same)
        show "current_work (tenant_work tls t) d" using others t by blast
        have "t \<noteq> tenant" using t Cons.prems(3) by auto
        from work_disjoint [OF Cons.prems(2) this] have "\<not> read_to_block ?work j" if "j \<in> set (work_ids (tenant_work tls t))" for j
          using that by (auto simp: read_to_block_def work_ids_def)
        then show "rows_move (\<lambda>j a b. j \<in> set (work_ids (tenant_work tls t)) \<longrightarrow> b = a) d (fst ?e)"
          by (intro rows_move_mono [OF rows_move_trans [OF stale_sweep_moves [OF st] conjunct2 [OF emit_steps [of no_engine rnd d1]]]]) blast
      qed
      then have "(plan_step J rnd)\<^sup>*\<^sup>* (fst ?e) (fst w)" using Cons.IH [OF rest Cons.prems(2)] Cons.prems(3) by simp
      moreover have "(plan_step J rnd)\<^sup>*\<^sup>* d1 (fst ?e)" using emit_steps by blast
      ultimately have "(plan_step J rnd)\<^sup>*\<^sup>* d1 (fst w)" by (rule rtranclp_trans [rotated])
      with plan_step.sweep [OF cur st] show ?thesis by (rule converse_rtranclp_into_rtranclp)
    qed
  qed
qed

lemma distinct_snapshot:
  assumes "distinct (map cs_id (stages (planning d)))" "distinct (map tl_id ts)"
  shows "distinct (work_ids (work_of (map (swept d) ts)))"
  using assms(2)
proof (induction ts)
  case (Cons t ts)
  have ids: "work_ids (work_of (map (swept d) (t # ts))) = map cs_id (open_stages t d) @ work_ids (work_of (map (swept d) ts))"
    by (simp add: work_ids_def work_of_def swept_def comp_def)
  have "distinct (map cs_id (open_stages t d))" unfolding open_stages_def by (rule distinct_map_filter [OF assms(1)])
  moreover have False if a: "i \<in> set (map cs_id (open_stages t d))" "i \<in> set (work_ids (work_of (map (swept d) ts)))" for i
  proof -
    obtain s where s: "s \<in> set (stages (planning d))" "cs_timelineId s = tl_id t" "cs_id s = i"
      using a(1) by (auto simp: open_stages_def)
    obtain u q where q: "u \<in> set ts" "q \<in> set (stages (planning d))" "cs_timelineId q = tl_id u" "cs_id q = i"
      using a(2) by (auto simp: work_ids_def work_of_def swept_def open_stages_def)
    have "s = q" by (rule same_row [OF assms(1) s(1) q(2)]) (simp add: s q)
    then show False using s(2) q(1,3) Cons.prems by (auto simp: image_iff)
  qed
  ultimately show ?case using Cons unfolding ids distinct_append by auto
qed (simp add: work_of_def work_ids_def)

lemma whole_sweep_steps:
  assumes "runSlaSweep isRunning rnd sent E now (d, ns) = Some (n, d', ns')" "plan_ok d"
  shows "(plan_step J rnd)\<^sup>*\<^sup>* d d'"
proof (cases isRunning)
  case True
  then show ?thesis using assms by (simp add: runSlaSweep_def)
next
  case False
  let ?tls = "swept_timelines d"
  have run: "sweep_tenants rnd sent E now 0 ?tls (uniq (map sw_tenantId ?tls)) (d, ns) = Some (n, d', ns')"
    using assms(1) False by (simp add: runSlaSweep_def Let_def)
  have k: "keys_ok d" using assms(2) by (simp add: plan_ok_def)
  then have ids: "distinct (map cs_id (stages (planning d)))" by (simp add: keys_ok_def)
  have dist: "distinct (work_ids (work_of ?tls))"
    unfolding swept_timelines_def using k by (intro distinct_snapshot distinct_map_filter) (simp_all add: keys_ok_def)
  have "current_work (tenant_work ?tls t) d" for t
    unfolding current_work_def
  proof (intro conjI ballI impI)
    show "distinct (work_ids (tenant_work ?tls t))"
      using dist unfolding tenant_work_def work_of_filter work_ids_def by (rule distinct_map_filter)
    fix p r assume "p \<in> set (tenant_work ?tls t)" and r: "r \<in> set (stages (planning d))" "cs_id r = cs_id (snd p)"
    then have "snd p \<in> set (stages (planning d))"
      by (auto simp: tenant_work_def work_of_filter swept_timelines_def work_of_def swept_def open_stages_def)
    from same_row [OF ids r(1) this r(2)] show "cs_status r = cs_status (snd p)" by simp
  qed
  then show ?thesis using tenants_steps [OF run dist conjunct2 [OF uniq_facts]] by simp
qed

section \<open>Readiness and completion\<close>

definition finished :: "CaseStage \<Rightarrow> bool" where
  "finished s \<longleftrightarrow> cs_status s = SS_COMPLETED \<or> cs_status s = SS_SKIPPED"

lemma terminal_finished: "terminal s = finished s"
  by (auto simp: terminal_def finished_def TERMINAL_def)

lemma eligible_nth:
  "eligible (if i = 0 then None else Some (ss ! (i - 1))) (ss ! i) \<longleftrightarrow> \<not> cs_dependsOnPrevious (ss ! i) \<or> i = 0 \<or> finished (ss ! (i - 1))"
  by (auto simp: eligible_def terminal_finished [symmetric] terminal_def)

text \<open>
  C20: In every reachable state, over all interleavings of the stage actions, the planning calls
  and the transactions of the sweep, as long as no stage changes its status between the read of a
  sweep and its write (else see \<open>stale_sweep_blocks_finished\<close>): a timeline has stages; a stage not yet
  begun is READY exactly when it does not depend on the one before, is the first, or the one before is
  completed or skipped, and PENDING otherwise; and the timeline is COMPLETED exactly when all its
  stages are completed or skipped.
\<close>

theorem timeline_readiness:
  assumes "plan_reached J rnd d" "t \<in> set (timelines (planning d))" "ss = stages_of (tl_id t) d"
  shows "ss \<noteq> [] \<and> (tl_status t = TL_COMPLETED \<longleftrightarrow> list_all finished ss)
    \<and> (\<forall>i < length ss. cs_status (ss ! i) \<in> {SS_PENDING, SS_READY} \<longrightarrow>
        (cs_status (ss ! i) = SS_READY \<longleftrightarrow> \<not> cs_dependsOnPrevious (ss ! i) \<or> i = 0 \<or> finished (ss ! (i - 1))))"
proof -
  have ok: "timeline_ok ss t" using reach_plan_ok [OF assms(1)] assms(2,3) by (simp add: plan_ok_def)
  have "list_all terminal ss = list_all finished ss" by (simp add: terminal_finished cong: list.pred_cong)
  then show ?thesis using ok ready_nth [of None ss] eligible_nth [of _ ss]
    by (auto simp: timeline_ok_def startable_def)
qed

lemma first_unfinished:
  assumes "timeline_ok ss t" "tl_status t = TL_ACTIVE"
  shows "\<exists>i < length ss. (\<forall>j < i. finished (ss ! j)) \<and> cs_status (ss ! i) \<in> {SS_READY, SS_IN_PROGRESS, SS_WAITING_EXTERNAL, SS_BLOCKED}"
proof -
  have "\<exists>i < length ss. \<not> finished (ss ! i)"
    using assms by (auto simp: timeline_ok_def list_all_length terminal_finished)
  then obtain i where i: "i < length ss" "\<not> finished (ss ! i)" and first: "\<forall>j < i. finished (ss ! j)"
    using exists_least_iff [of "\<lambda>i. i < length ss \<and> \<not> finished (ss ! i)"] less_trans by metis
  have "cs_status (ss ! i) \<noteq> SS_PENDING"
  proof
    assume p: "cs_status (ss ! i) = SS_PENDING"
    have "eligible (if i = 0 then None else Some (ss ! (i - 1))) (ss ! i)"
      unfolding eligible_nth using first by (cases i) simp_all
    then have "cs_status (ss ! i) = SS_READY" using ready_nth [of None ss i] assms(1) i(1) p by (simp add: timeline_ok_def startable_def)
    then show False using p by simp
  qed
  then have "cs_status (ss ! i) \<in> {SS_READY, SS_IN_PROGRESS, SS_WAITING_EXTERNAL, SS_BLOCKED}"
    using i(2) by (cases "cs_status (ss ! i)") (simp_all add: finished_def)
  then show ?thesis using i(1) first by blast
qed

text \<open>The action that takes a stage on from its status, with a reason where one is asked for.\<close>

definition next_action :: "env \<Rightarrow> UserContext \<Rightarrow> string \<Rightarrow> CaseStage \<Rightarrow> string option \<Rightarrow> CaseStage plan_tx" where
  "next_action E ctx caseId s why d =
     (case cs_status s of
        SS_READY \<Rightarrow> startStage E ctx caseId (cs_id s) d
      | SS_IN_PROGRESS \<Rightarrow> skipStage E ctx caseId (cs_id s) why d
      | SS_WAITING_EXTERNAL \<Rightarrow> resumeStage E ctx caseId (cs_id s) d
      | SS_BLOCKED \<Rightarrow> lift (unlockStage E ctx caseId (cs_id s) why d)
      | _ \<Rightarrow> lift (Inl ResourceNotFoundError))"

text \<open>What each of them does once its checks have passed.\<close>

definition next_write :: "env \<Rightarrow> UserContext \<Rightarrow> string \<Rightarrow> CaseStage \<Rightarrow> string option \<Rightarrow> CaseStage plan_tx" where
  "next_write E ctx caseId s why d =
     (case cs_status s of
        SS_READY \<Rightarrow> stage_write E ctx caseId s (\<lambda>s. s\<lparr>cs_status := SS_IN_PROGRESS, cs_startedAt := Some (ev_clock E 1)\<rparr>)
          SS_IN_PROGRESS ''STARTED'' None d
      | SS_IN_PROGRESS \<Rightarrow> stage_write E ctx caseId s (\<lambda>s. s\<lparr>cs_status := SS_SKIPPED\<rparr>) SS_SKIPPED ''SKIPPED'' (Some (trim (or_empty why))) d
      | SS_WAITING_EXTERNAL \<Rightarrow> stage_write E ctx caseId s (\<lambda>s. s\<lparr>cs_status := SS_IN_PROGRESS\<rparr>) SS_IN_PROGRESS ''RESUMED'' None d
      | SS_BLOCKED \<Rightarrow> lift (unlock_write E ctx caseId s (trim (or_empty why)) d)
      | _ \<Rightarrow> lift (Inl ResourceNotFoundError))"

lemma next_action_passes:
  assumes "loadStage (tenantId ctx) caseId (cs_id s) d = Inr s" "has_text why"
    and "cs_status s \<in> {SS_READY, SS_IN_PROGRESS, SS_WAITING_EXTERNAL, SS_BLOCKED}"
  shows "next_action E ctx caseId s why d = next_write E ctx caseId s why d"
  using assms(3) by (auto simp: next_action_def next_write_def startStage_def skipStage_def resumeStage_def unlockStage_def assms(1,2)
    SKIPPABLE_def lift_def run_return_def)

lemma next_write_moves:
  assumes "next_write E ctx caseId s why d = Some (Inr (u, d'))" "plan_ok d" "s \<in> set (stages (planning d))"
  shows "\<exists>q \<in> set (stages (planning d')). cs_id q = cs_id s \<and> cs_status q \<noteq> cs_status s"
proof -
  have moved: ?thesis if m: "rows_move (move_of s to) d d'" and n: "\<not> settles to (cs_status s)" for to
  proof -
    obtain i where i: "i < length (stages (planning d))" "s = stages (planning d) ! i" using assms(3) by (auto simp: in_set_conv_nth)
    have l: "list_all2 (row_moves (move_of s to)) (stages (planning d)) (stages (planning d'))" using m by (simp add: rows_move_def)
    have "row_moves (move_of s to) s (stages (planning d') ! i)" using list_all2_nthD [OF l i(1)] i(2) by simp
    moreover have "i < length (stages (planning d'))" using list_all2_lengthD [OF l] i(1) by simp
    ultimately show ?thesis using n nth_mem [of i "stages (planning d')"] by (auto simp: row_moves_def move_free_def move_of_def)
  qed
  have w: ?thesis if "stage_write E ctx caseId s f to ev why d = Some (Inr (u, d'))" "row_writer to f"
    "\<not> settles to (cs_status s)" for f to ev why
    by (rule moved [OF stage_write_plan(2) [OF that(1) assms(2,3) that(2)] that(3)])
  show ?thesis
  proof (cases "cs_status s")
    case SS_READY
    then have "stage_write E ctx caseId s (\<lambda>s. s\<lparr>cs_status := SS_IN_PROGRESS, cs_startedAt := Some (ev_clock E 1)\<rparr>) SS_IN_PROGRESS ''STARTED'' None d = Some (Inr (u, d'))"
      using assms(1) by (simp only: next_write_def CaseStageStatus.case)
    then show ?thesis by (rule w) (simp_all add: row_writer_def move_free_def base_kept_def settles_fixed SS_READY)
  next
    case SS_IN_PROGRESS
    then have "stage_write E ctx caseId s (\<lambda>s. s\<lparr>cs_status := SS_SKIPPED\<rparr>) SS_SKIPPED ''SKIPPED'' (Some (trim (or_empty why))) d = Some (Inr (u, d'))"
      using assms(1) by (simp only: next_write_def CaseStageStatus.case)
    then show ?thesis by (rule w) (simp_all add: row_writer_def move_free_def base_kept_def settles_fixed SS_IN_PROGRESS)
  next
    case SS_WAITING_EXTERNAL
    then have "stage_write E ctx caseId s (\<lambda>s. s\<lparr>cs_status := SS_IN_PROGRESS\<rparr>) SS_IN_PROGRESS ''RESUMED'' None d = Some (Inr (u, d'))"
      using assms(1) by (simp only: next_write_def CaseStageStatus.case)
    then show ?thesis by (rule w) (simp_all add: row_writer_def move_free_def base_kept_def settles_fixed SS_WAITING_EXTERNAL)
  next
    case SS_BLOCKED
    then have "unlock_write E ctx caseId s (trim (or_empty why)) d = Inr (u, d')"
      using assms(1) by (simp add: next_write_def lift_def)
    from moved [OF unlock_write_plan(2) [OF this assms(2,3)]] SS_BLOCKED show ?thesis by (simp add: settles_fixed)
  qed (use assms(1) in \<open>simp_all add: next_write_def lift_def\<close>)
qed

text \<open>
  C21: A timeline never gets stuck in any state reached as in C20: while it is ACTIVE, its first
  unfinished stage is READY, IN_PROGRESS, WAITING_EXTERNAL or BLOCKED, never one that waits as PENDING;
  the action for that status (start, skip, resume, unlock), called in the organisation of the stage
  and with a reason, passes all its checks and goes on to its writes; and if it returns, the stage has
  left its status.
\<close>

theorem timeline_never_stuck:
  assumes "plan_reached J rnd d" "t \<in> set (timelines (planning d))" "tl_status t = TL_ACTIVE"
  shows "\<exists>i < length (stages_of (tl_id t) d). (\<forall>j < i. finished (stages_of (tl_id t) d ! j))
    \<and> (\<exists>s. s = stages_of (tl_id t) d ! i \<and> cs_status s \<in> {SS_READY, SS_IN_PROGRESS, SS_WAITING_EXTERNAL, SS_BLOCKED}
      \<and> (\<forall>E ctx why. tenantId ctx = cs_tenantId s \<and> has_text why \<longrightarrow>
          next_action E ctx (tl_caseId t) s why d = next_write E ctx (tl_caseId t) s why d
          \<and> (\<forall>u d'. next_action E ctx (tl_caseId t) s why d = Some (Inr (u, d')) \<longrightarrow>
               (\<exists>q \<in> set (stages (planning d')). cs_id q = cs_id s \<and> cs_status q \<noteq> cs_status s))))"
proof -
  let ?ss = "stages_of (tl_id t) d"
  have ok: "plan_ok d" by (rule reach_plan_ok [OF assms(1)])
  then have "timeline_ok ?ss t" using assms(2) by (simp add: plan_ok_def)
  from first_unfinished [OF this assms(3)] obtain i where i: "i < length ?ss" "\<forall>j < i. finished (?ss ! j)"
    "cs_status (?ss ! i) \<in> {SS_READY, SS_IN_PROGRESS, SS_WAITING_EXTERNAL, SS_BLOCKED}" by blast
  have s: "?ss ! i \<in> set ?ss" using i(1) by (rule nth_mem)
  then have m: "?ss ! i \<in> set (stages (planning d))" by (simp add: set_stages_of)
  note load = stage_found [OF ok assms(2) s]
  have pass: "next_action E ctx (tl_caseId t) (?ss ! i) why d = next_write E ctx (tl_caseId t) (?ss ! i) why d"
    if "tenantId ctx = cs_tenantId (?ss ! i) \<and> has_text why" for E ctx why
    by (rule next_action_passes) (use that load i(3) in simp_all)
  show ?thesis
    using next_write_moves [OF _ ok m] by (intro exI [of _ i] exI [of _ "?ss ! i"] conjI allI impI refl i) (simp_all add: pass)
qed

text \<open>
  C22: From every well-formed state, a stage keeps its id and its timeline and moves only along the
  table \<open>may_move\<close> in every action, planning call and sweep whose stages kept their status since it
  read them: it is begun only when READY, completed only when IN_PROGRESS, blocked only before it is
  finished and not while it waits for others, and finished work is left only by a reopening. A sweep that
  writes from stages read earlier, whatever happened to them since, leaves the status of a stage or
  blocks one that it read as open and that asks for the block.
\<close>

theorem stage_moves_allowed:
  assumes "s \<in> set (stages (planning d))"
  shows "(plan_ok d \<and> plan_step J rnd d d' \<longrightarrow>
      (\<exists>s' \<in> set (stages (planning d')). cs_id s' = cs_id s \<and> cs_timelineId s' = cs_timelineId s
        \<and> may_move (cs_status s) (cs_status s')))
    \<and> (sweep_stages rnd E now cal k work d = Some (Inr (out, d')) \<longrightarrow>
      (\<exists>s' \<in> set (stages (planning d')). cs_id s' = cs_id s \<and> cs_timelineId s' = cs_timelineId s
        \<and> (cs_status s' = cs_status s \<or> cs_status s' = SS_BLOCKED \<and> read_to_block work (cs_id s))))"
proof (intro conjI impI)
  assume "plan_ok d \<and> plan_step J rnd d d'"
  then have "step_keeps d d'" using plan_step_keeps by blast
  from this assms show "\<exists>s' \<in> set (stages (planning d')). cs_id s' = cs_id s \<and> cs_timelineId s' = cs_timelineId s
    \<and> may_move (cs_status s) (cs_status s')"
    by (rule step_keeps_row) (auto simp: row_moves_def move_free_def)
next
  assume "sweep_stages rnd E now cal k work d = Some (Inr (out, d'))"
  note l = stale_sweep_moves [OF this, unfolded rows_move_def]
  obtain i where i: "i < length (stages (planning d))" "s = stages (planning d) ! i" using assms by (auto simp: in_set_conv_nth)
  have "i < length (stages (planning d'))" using list_all2_lengthD [OF l] i(1) by simp
  with list_all2_nthD [OF l i(1)] i(2) nth_mem [of i "stages (planning d')"]
  show "\<exists>s' \<in> set (stages (planning d')). cs_id s' = cs_id s \<and> cs_timelineId s' = cs_timelineId s
    \<and> (cs_status s' = cs_status s \<or> cs_status s' = SS_BLOCKED \<and> read_to_block work (cs_id s))"
    by (auto simp: row_moves_def move_free_def)
qed

section \<open>Baselines\<close>

text \<open>
  C23: The baseline of a stage is written by the first recalculation and never again: once set, both
  dates survive every later sequence of steps.
\<close>

theorem baseline_set_once:
  assumes "plan_ok d" "(plan_step J rnd)\<^sup>*\<^sup>* d d'" "s \<in> set (stages (planning d))"
    and "cs_baselineStart s \<noteq> None" "cs_baselineFinish s \<noteq> None"
  shows "\<exists>s' \<in> set (stages (planning d')). cs_id s' = cs_id s
    \<and> cs_baselineStart s' = cs_baselineStart s \<and> cs_baselineFinish s' = cs_baselineFinish s"
proof -
  have "plan_ok d' \<and> (\<exists>s' \<in> set (stages (planning d')). cs_id s' = cs_id s \<and> base_kept s s')"
    using assms(2)
  proof (induction rule: rtranclp_induct)
    case base
    show ?case using assms(1,3) base_kept_refl by blast
  next
    case (step e e')
    then obtain q where r: "plan_ok e" and q: "q \<in> set (stages (planning e))" "cs_id q = cs_id s" "base_kept s q" by blast
    note k = plan_step_keeps [OF step.hyps(2) r]
    obtain q' where q': "q' \<in> set (stages (planning e'))" "row_moves (\<lambda>j. may_move) q q'"
      using k q(1) by (rule step_keeps_row)
    then have "cs_id q' = cs_id s" "base_kept s q'"
      using q(2) base_kept_trans [OF q(3)] by (simp_all add: row_moves_def move_free_def)
    then show ?case using k q'(1) by (auto simp: step_keeps_def)
  qed
  then show ?thesis using assms(4,5) by (auto simp: base_kept_def)
qed

section \<open>A recalculation always ends\<close>

definition calendars_ok :: "db \<Rightarrow> bool" where
  "calendars_ok d \<longleftrightarrow> (\<forall>c \<in> set (calendars (planning d)). wc_workingWeekdays c \<noteq> []
     \<and> (\<forall>w \<in> set (wc_workingWeekdays c). 0 \<le> w \<and> w \<le> 6))"

lemma loaded_usable: "calendars_ok d \<Longrightarrow> Planning_Dates.usable (loadPlanningCalendar tenant d)"
proof (cases "calendar_of tenant d")
  case None
  then show ?thesis by (simp add: loadPlanningCalendar_def Planning_Dates.usable_def DEFAULT_WEEKDAYS_def)
next
  case (Some c)
  assume ok: "calendars_ok d"
  have "c \<in> set (calendars (planning d))" using find_first_SomeD [OF Some [unfolded calendar_of_def]] by (rule conjunct1)
  then have "wc_workingWeekdays c \<noteq> []" "\<forall>w \<in> set (wc_workingWeekdays c). 0 \<le> w \<and> w \<le> 6"
    using ok by (simp_all add: calendars_ok_def)
  then show ?thesis using Some by (cases "wc_workingWeekdays c") (simp_all add: loadPlanningCalendar_def Planning_Dates.usable_def)
qed

lemma upsert_calendars:
  assumes "upsert_calendar i tenant f new d = (c, d1)" "calendars_ok d"
    and "\<And>c. c \<in> set (calendars (planning d)) \<Longrightarrow> wc_workingWeekdays (f c) \<noteq> [] \<and> (\<forall>w \<in> set (wc_workingWeekdays (f c)). 0 \<le> w \<and> w \<le> 6)"
    and "wc_workingWeekdays new \<noteq> [] \<and> (\<forall>w \<in> set (wc_workingWeekdays new). 0 \<le> w \<and> w \<le> 6)"
  shows "calendars_ok d1"
  using assms by (auto simp: upsert_calendar_def calendars_ok_def put_calendars_def split: option.splits if_splits)

lemma calendars_ok_audit: "calendars_ok d \<Longrightarrow> audit_tx E k i d = Inr d' \<Longrightarrow> calendars_ok d'"
  unfolding calendars_ok_def by (simp only: audit_tx_tables(13))

lemma upsertCalendar_ok:
  assumes "upsertCalendar E ctx wd tz d = Inr (v, d')" "calendars_ok d"
  shows "calendars_ok d'"
proof -
  obtain days where days: "weekdays_of wd = Some days" using assms(1) by (cases "weekdays_of wd") (auto simp: upsertCalendar_def)
  let ?f = "\<lambda>c. c\<lparr>wc_workingWeekdays := days, wc_timezone := str_of tz\<rparr>"
  let ?new = "\<lparr>wc_id = [], wc_tenantId = [], wc_workingWeekdays = days, wc_timezone = str_of tz\<rparr>"
  obtain cal d1 where u: "upsert_calendar (ev_uuid E 1) (tenantId ctx) ?f ?new d = (cal, d1)" by fastforce
  have "\<exists>k i. audit_tx E k i d1 = Inr d'"
    using assms(1) unfolding upsertCalendar_def days or_throw_simps res_bind_simps Let_def u prod.case
    by (auto simp: res_bind_Inr_iff)
  moreover have "calendars_ok d1"
    by (rule upsert_calendars [OF u assms(2)]) (use weekdays_of_usable [OF days] in simp_all)
  ultimately show ?thesis using calendars_ok_audit by blast
qed

lemma unique_to_duplicate: "(case r of Inl UniqueViolation \<Rightarrow> Inl e | x \<Rightarrow> x) = Inr y \<longleftrightarrow> r = Inr y"
proof (cases r)
  case (Inl a)
  then show ?thesis by (cases a) simp_all
qed simp

lemma addHoliday_ok:
  assumes "addHoliday E ctx day label d = Inr (h, d')" "calendars_ok d"
  shows "calendars_ok d'"
proof -
  let ?new = "\<lparr>wc_id = [], wc_tenantId = [], wc_workingWeekdays = DEFAULT_WEEKDAYS, wc_timezone = None\<rparr>"
  obtain cal d1 where u: "upsert_calendar (ev_uuid E 1) (tenantId ctx) (\<lambda>c. c) ?new d = (cal, d1)" by fastforce
  have "\<exists>k i g d2. insert_holiday g d1 = Inr d2 \<and> audit_tx E k i d2 = Inr d'"
    using assms(1) unfolding addHoliday_def Let_def u prod.case res_bind_Inr_iff unique_to_duplicate Inr_inject prod.inject by blast
  moreover have "calendars_ok d1"
    by (rule upsert_calendars [OF u assms(2)]) (use assms(2) in \<open>auto simp: calendars_ok_def DEFAULT_WEEKDAYS_def\<close>)
  moreover have "calendars_ok d1 \<Longrightarrow> insert_holiday g d1 = Inr d2 \<Longrightarrow> calendars_ok d2" for g d2
    by (auto simp: insert_holiday_def calendars_ok_def put_holidays_def split: if_splits)
  ultimately show ?thesis using calendars_ok_audit by blast
qed

text \<open>
  C25: The calendar service keeps every stored calendar usable: whatever JSON a caller sends as weekdays
  or holiday, after a successful call every calendar has a weekday, all of them from 0 to 6.
\<close>

theorem calendars_stay_ok:
  assumes "calendars_ok d" "upsertCalendar E ctx wd tz d = Inr (v, d') \<or> addHoliday E ctx day label d = Inr (h, d')"
  shows "calendars_ok d'"
  using assms upsertCalendar_ok addHoliday_ok by blast

lemma between_aligned:
  assumes "DAY_MS dvd a" "DAY_MS dvd b"
  shows "\<exists>n. workingDaysBetween a b cal = Some (Inr n)"
proof (cases "a = b")
  case True
  then show ?thesis by (simp add: workingDaysBetween_def run_return_def)
next
  case False
  obtain k l where kl: "a = DAY_MS * k" "b = DAY_MS * l" using assms by blast
  let ?dir = "if k < l then 1 else - 1 :: int"
  let ?m = "nat (abs (l - k))"
  have ne: "k \<noteq> l" using False kl by auto
  have "b = step_day ?dir a ?m" unfolding step_day_def kl using ne by (auto simp: algebra_simps)
  moreover have "?dir = 1 \<or> ?dir = - 1" "0 < ?m" using ne by auto
  ultimately show ?thesis using between_steps [of ?dir ?m a cal] by metis
qed

lemma feasibility_returns:
  assumes "DAY_MS dvd f" "\<And>u. target = Some u \<Longrightarrow> DAY_MS dvd u"
  shows "\<exists>r. computeFeasibility (Some f) target cal = Some (Inr r)"
proof (cases target)
  case None
  then show ?thesis by (simp add: computeFeasibility_def run_return_def)
next
  case (Some u)
  obtain n where "workingDaysBetween u f cal = Some (Inr n)" using between_aligned [OF assms(2) [OF Some] assms(1)] by blast
  then show ?thesis using Some by (simp add: computeFeasibility_def run_return_def)
qed

lemma update_stage_returns: "i \<in> cs_id ` set (stages (planning d)) \<Longrightarrow> \<exists>u d1. update_stage i f d = Inr (u, d1)"
proof -
  assume "i \<in> cs_id ` set (stages (planning d))"
  then have "find_first (\<lambda>s. cs_id s = i) (stages (planning d)) \<noteq> None" by (auto simp: find_first_def find_None_iff)
  then show ?thesis unfolding update_stage_Inr by blast
qed

lemma recalc_rows_returns:
  assumes "\<forall>r \<in> set rows. cs_id r \<in> cs_id ` set (stages (planning d))" "\<forall>f \<in> set fs. DAY_MS dvd plannedFinish f"
    "\<forall>q. Some q \<in> set rs \<longrightarrow> DAY_MS dvd latestFinish q"
  shows "\<exists>out d'. recalc_rows cal rows fs rs d = Some (Inr (out, d')) \<and> timelines (planning d') = timelines (planning d)"
  using assms
proof (induction rows arbitrary: fs rs d)
  case (Cons row rows)
  show ?case
  proof (cases "fs = [] \<or> rs = []")
    case True
    then show ?thesis by (auto simp: neq_Nil_conv run_return_def)
  next
    case False
    then obtain f fs1 r rs1 where e: "fs = f # fs1" "rs = r # rs1" by (metis list.exhaust)
    have "cs_id row \<in> cs_id ` set (stages (planning d))" using Cons.prems(1) by simp
    then obtain u d1 where u: "update_stage (cs_id row) (planned_row f r row) d = Inr (u, d1)" using update_stage_returns by blast
    have d1: "d1 = put_stages (map (\<lambda>s. if cs_id s = cs_id row then planned_row f r row s else s) (stages (planning d))) d"
      using u by (simp add: update_stage_Inr)
    have "cs_id ` set (stages (planning d1)) = cs_id ` set (stages (planning d))"
      unfolding d1 plan_tables list.set_map image_image by (intro image_cong refl) (simp add: planned_row_def)
    then have rest: "\<forall>r \<in> set rows. cs_id r \<in> cs_id ` set (stages (planning d1))" using Cons.prems(1) by simp
    obtain out d2 where o: "recalc_rows cal rows fs1 rs1 d1 = Some (Inr (out, d2))" "timelines (planning d2) = timelines (planning d1)"
      using Cons.IH [OF rest, of fs1 rs1] Cons.prems(2,3) unfolding e by auto
    have "\<exists>n. (case r of None \<Rightarrow> run_return None
        | Some q \<Rightarrow> run_bind (workingDaysBetween (plannedFinish f) (latestFinish q) cal) (\<lambda>n. run_return (Some n))) = Some (Inr n)"
    proof (cases r)
      case (Some q)
      have "DAY_MS dvd plannedFinish f" "DAY_MS dvd latestFinish q" using Cons.prems(2,3) Some by (simp_all add: e)
      then obtain n where "workingDaysBetween (plannedFinish f) (latestFinish q) cal = Some (Inr n)" using between_aligned by blast
      then show ?thesis using Some by simp
    qed simp
    then obtain n where "(case r of None \<Rightarrow> run_return None
        | Some q \<Rightarrow> run_bind (workingDaysBetween (plannedFinish f) (latestFinish q) cal) (\<lambda>n. run_return (Some n))) = Some (Inr n)" by blast
    then show ?thesis using u o d1 by (simp add: e lift_def run_return_def)
  qed
qed (simp add: run_return_def)

text \<open>
  C24: A recalculation always comes back with a plan when the stored calendars are those the calendar
  service lets through, the durations are not negative and the dates stay within the years 100 to
  9999 with the room the stages can take: neither the walks over non-working days nor the counts of
  working days run away, and no row is missing.
\<close>

theorem recalc_returns:
  assumes "calendars_ok d" "timeline_of tenant caseId d = Some t"
    and inputs: "inputs = map toPlanInput (stages_of (tl_id t) d)" and cal: "cal = loadPlanningCalendar tenant d"
    and "\<forall>s \<in> set inputs. sane s" "in_days lo hi (dateOnly now)"
    and "\<forall>s \<in> set inputs. \<forall>u. startedAt s = Some u \<longrightarrow> in_days lo hi (dateOnly u)"
    and "\<forall>u. tl_targetDate t = Some u \<longrightarrow> in_days lo hi (dateOnly (dateOnly u)) \<and> DAY_MS dvd dateOnly u"
    and "day_from_year 100 \<le> lo - plan_reach cal inputs" "hi + plan_reach cal inputs < day_from_year 10000"
  shows "\<exists>r d'. recalcInTx tenant caseId now d = Some (Inr (r, d'))"
proof -
  have us: "Planning_Dates.usable cal" unfolding cal by (rule loaded_usable [OF assms(1)])
  have pos: "0 \<le> plan_reach cal inputs" by (rule plan_reach_pos [OF assms(5)])
  then have lo: "day_from_year 100 \<le> lo" using assms(9) by simp
  obtain fw where fw: "forwardPlan inputs now cal = Some (Inr fw)" "\<forall>r \<in> set fw. in_days lo (hi + plan_reach cal inputs) (plannedFinish r)"
    using forward_returns [OF us assms(5,6,7) lo assms(10)] by blast
  have fa: "\<forall>f \<in> set fw. DAY_MS dvd plannedFinish f" using fw(2) by (simp add: in_days_def)
  define target where "target = map_option dateOnly (tl_targetDate t)"
  obtain rv where rv: "(case target of None \<Rightarrow> run_return (map (\<lambda>_. None) (stages_of (tl_id t) d))
           | Some u \<Rightarrow> run_bind (reversePlan inputs u cal) (\<lambda>rs. run_return (map Some rs))) = Some (Inr rv)"
    "\<forall>q. Some q \<in> set rv \<longrightarrow> DAY_MS dvd latestFinish q"
  proof (cases "tl_targetDate t")
    case None
    then show ?thesis using that [of "map (\<lambda>_. None) (stages_of (tl_id t) d)"] by (auto simp: target_def)
  next
    case (Some u)
    have "in_days lo hi (dateOnly (dateOnly u))" using assms(8) Some by blast
    then obtain res where res: "reversePlan inputs (dateOnly u) cal = Some (Inr res)"
      "\<forall>r \<in> set res. latest_in (lo - plan_reach cal inputs) (hi + plan_reach cal inputs) r"
      using reverse_loop_returns [OF us, of lo "rev inputs" hi "dateOnly (dateOnly u)" "[]"] assms(5,9,10)
      by (auto simp: reversePlan_def plan_reach_def rev_map [symmetric])
    then show ?thesis using that [of "map Some res"] Some by (auto simp: target_def latest_in_def in_days_def)
  qed
  obtain fs where fs: "computeFeasibility (last_finish fw) target cal = Some (Inr fs)"
  proof (cases "last_finish fw")
    case None
    then have "computeFeasibility (last_finish fw) target cal = Some (Inr \<lparr>feasible = None, deficitDays = None\<rparr>)"
      by (simp add: computeFeasibility_def run_return_def split: option.split)
    then show ?thesis by (rule that)
  next
    case (Some f)
    then have "DAY_MS dvd f" using fa by (auto simp: last_finish_def split: if_splits)
    moreover have "DAY_MS dvd u" if "target = Some u" for u using assms(8) that by (auto simp: target_def)
    ultimately have "\<exists>r. computeFeasibility (Some f) target cal = Some (Inr r)" by (rule feasibility_returns)
    then show ?thesis using that unfolding Some by blast
  qed
  obtain out d1 where o: "recalc_rows cal (stages_of (tl_id t) d) fw rv d = Some (Inr (out, d1))" "timelines (planning d1) = timelines (planning d)"
    using recalc_rows_returns [of "stages_of (tl_id t) d" d fw rv cal] fa rv(2) by (auto simp: set_stages_of)
  have "t \<in> set (timelines (planning d1))" unfolding o(2) using find_first_SomeD [OF assms(2) [unfolded timeline_of_def]] by (rule conjunct1)
  then have "find_first (\<lambda>q. tl_id q = tl_id t) (timelines (planning d1)) \<noteq> None" by (auto simp: find_first_def find_None_iff)
  then obtain u d2 where u: "update_timeline (tl_id t) (planned_timeline fs now) d1 = Inr (u, d2)"
    unfolding update_timeline_Inr by blast
  show ?thesis
    unfolding recalcInTx_def Let_def assms(2) or_throw_simps lift_def run_simps
    using fw(1) rv(1) fs o(1) u unfolding inputs cal target_def by (simp add: lift_def run_return_def)
qed

section \<open>Concrete runs\<close>

definition template_row :: "string \<Rightarrow> int \<Rightarrow> CaseStageTemplate" where
  "template_row key n = \<lparr>tp_id = key, tp_tenantId = ''t1'', tp_caseTypeId = ''ty'', tp_key = key, tp_label = key, tp_sequence = n,
     tp_durationValue = Some 2, tp_durationType = Some DT_DAYS, tp_externalWaiting = False, tp_bufferDays = None, tp_dependsOnPrevious = True,
     tp_enforceRequiredOnComplete = False, tp_atRiskPercent = None, tp_warnDaysRemaining = None, tp_hardBlock = True,
     tp_createdAt = n, tp_deletedAt = None\<rparr>"

definition planless_db :: db where
  "planless_db = empty_db\<lparr>docCases := [(blank_case ''c1'' ctx_one ''l1'' None)\<lparr>dc_caseTypeId := Some ''ty''\<rparr>],
     planning := no_plan\<lparr>caseTypes := [\<lparr>ct_id = ''ty'', ct_tenantId = ''t1'', ct_key = ''k'', ct_name = ''Type'', ct_status = CT_ACTIVE,
         ct_description = None, ct_displayOrder = 0, ct_createdAt = 0, ct_deletedAt = None\<rparr>],
       stageTemplates := [template_row ''b'' 2, template_row ''a'' 1]\<rparr>\<rparr>"

definition timeline_db :: db where
  "timeline_db = snd (projr (createTimeline env_ids user_one ''c1'' planless_db))"

definition env_later :: env where
  "env_later = env_at 5\<lparr>ev_uuid := (\<lambda>k. replicate (k + 1) (CHR ''v''))\<rparr>"

definition planned_stage :: "nat \<Rightarrow> string \<Rightarrow> CaseStageStatus \<Rightarrow> CaseStage" where
  "planned_stage i key st = (stage_row env_ids user_one ''tl'' i (template_row key (int i)))
     \<lparr>cs_status := st, cs_baselineStart := Some 1777507200000, cs_baselineFinish := Some 1777593600000\<rparr>"

definition planned_db :: db where
  "planned_db = planless_db\<lparr>planning := no_plan\<lparr>timelines := [(new_timeline env_ids user_one ''c1'' ''ty'')\<lparr>tl_id := ''tl''\<rparr>],
     stages := [planned_stage 0 ''a'' SS_IN_PROGRESS, planned_stage 1 ''b'' SS_PENDING]\<rparr>\<rparr>"

definition paused_db :: db where
  "paused_db = snd (projr (the (pauseStage env_later user_one ''c1'' (cs_id (planned_stage 0 ''a'' SS_IN_PROGRESS)) planned_db)))"

definition returns :: "'a run \<Rightarrow> bool" where
  "returns r = (case r of Some (Inr x) \<Rightarrow> True | _ \<Rightarrow> False)"

lemma ran_run: "returns r \<Longrightarrow> r = Some (Inr (fst (projr (the r)), snd (projr (the r))))"
  by (auto simp: returns_def split: option.splits sum.splits)

lemma timeline_reached: "plan_reached no_engine id timeline_db"
proof (rule plan_reached.step)
  show "plan_reached no_engine id planless_db" by (rule plan_reached.init) (simp_all add: planless_db_def no_plan_def)
  have f: "fresh_rows env_ids planless_db"
    by (simp add: fresh_rows_def planless_db_def no_plan_def env_ids_def inj_def)
  have r: "\<not> isl (createTimeline env_ids user_one ''c1'' planless_db)" by code_simp
  show "plan_step no_engine id planless_db timeline_db"
    unfolding timeline_db_def by (rule plan_step.create [OF f ran2 [OF r]])
qed

lemma pause_step: "plan_step no_engine id planned_db paused_db"
  unfolding paused_db_def by (rule plan_step.pause [OF ran_run]) code_simp+

lemma planned_ok: "plan_ok planned_db"
  by code_simp

lemma new_timelines: "map tl_status (timelines (planning timeline_db)) = [TL_ACTIVE]"
  by code_simp

lemma one_timeline:
  "hd (timelines (planning timeline_db)) \<in> set (timelines (planning timeline_db))" "tl_status (hd (timelines (planning timeline_db))) = TL_ACTIVE"
  using new_timelines by (auto simp: map_eq_Cons_conv)

theorem timeline_readiness_witness:
  "tl_status (hd (timelines (planning timeline_db))) = TL_COMPLETED
     \<longleftrightarrow> list_all finished (stages_of (tl_id (hd (timelines (planning timeline_db)))) timeline_db)"
  using timeline_readiness [OF timeline_reached one_timeline(1) refl] by blast

theorem timeline_never_stuck_witness:
  "\<exists>i < length (stages_of (tl_id (hd (timelines (planning timeline_db)))) timeline_db).
     \<not> finished (stages_of (tl_id (hd (timelines (planning timeline_db)))) timeline_db ! i)"
proof -
  obtain i where "i < length (stages_of (tl_id (hd (timelines (planning timeline_db)))) timeline_db)"
    "cs_status (stages_of (tl_id (hd (timelines (planning timeline_db)))) timeline_db ! i) \<in> {SS_READY, SS_IN_PROGRESS, SS_WAITING_EXTERNAL, SS_BLOCKED}"
    using timeline_never_stuck [OF timeline_reached one_timeline(1,2)] by blast
  then show ?thesis by (auto simp: finished_def)
qed

theorem stage_moves_allowed_witness:
  "\<exists>s' \<in> set (stages (planning paused_db)). cs_id s' = cs_id (planned_stage 0 ''a'' SS_IN_PROGRESS)
     \<and> may_move SS_IN_PROGRESS (cs_status s')"
proof -
  have m: "planned_stage 0 ''a'' SS_IN_PROGRESS \<in> set (stages (planning planned_db))" by (simp add: planned_db_def)
  have "cs_status (planned_stage 0 ''a'' SS_IN_PROGRESS) = SS_IN_PROGRESS" by (simp add: planned_stage_def)
  then show ?thesis
    using stage_moves_allowed [OF m, of no_engine id paused_db, THEN conjunct1] planned_ok pause_step by auto
qed

theorem baseline_set_once_witness:
  "\<exists>s' \<in> set (stages (planning paused_db)). cs_id s' = cs_id (planned_stage 0 ''a'' SS_IN_PROGRESS)
     \<and> cs_baselineStart s' = Some 1777507200000"
proof -
  let ?s = "planned_stage 0 ''a'' SS_IN_PROGRESS"
  have m: "?s \<in> set (stages (planning planned_db))" by (simp add: planned_db_def)
  have b: "cs_baselineStart ?s = Some 1777507200000" "cs_baselineFinish ?s = Some 1777593600000" by (simp_all add: planned_stage_def)
  then have n: "cs_baselineStart ?s \<noteq> None" "cs_baselineFinish ?s \<noteq> None" by simp_all
  have "(plan_step no_engine id)\<^sup>*\<^sup>* planned_db paused_db" by (rule r_into_rtranclp) (rule pause_step)
  from baseline_set_once [OF planned_ok this m n] show ?thesis unfolding b by blast
qed

definition planned_inputs :: "PlanStageInput list" where
  "planned_inputs = map toPlanInput (stages_of ''tl'' planned_db)"

theorem recalc_returns_witness: "\<exists>r d'. recalcInTx ''t1'' ''c1'' 1777550400000 planned_db = Some (Inr (r, d'))"
proof -
  let ?t = "(new_timeline env_ids user_one ''c1'' ''ty'')\<lparr>tl_id := ''tl''\<rparr>"
  have c: "calendars_ok planned_db" by (simp add: calendars_ok_def planned_db_def no_plan_def)
  have t: "timeline_of ''t1'' ''c1'' planned_db = Some ?t"
    by (simp add: timeline_of_def planned_db_def find_first_def new_timeline_def user_one_def)
  have i: "planned_inputs = map toPlanInput (stages_of (tl_id ?t) planned_db)" by (simp add: planned_inputs_def)
  have "\<forall>s \<in> set planned_inputs. sane s" by code_simp
  moreover have "in_days 20000 21000 (dateOnly 1777550400000)" by code_simp
  moreover have "\<forall>s \<in> set planned_inputs. \<forall>u. startedAt s = Some u \<longrightarrow> in_days 20000 21000 (dateOnly u)"
  proof -
    have "map startedAt planned_inputs = [None, None]" by code_simp
    from arg_cong [OF this, of set] have "startedAt ` set planned_inputs = {None}" by simp
    then show ?thesis by force
  qed
  moreover have "\<forall>u. tl_targetDate ?t = Some u \<longrightarrow> in_days 20000 21000 (dateOnly (dateOnly u)) \<and> DAY_MS dvd dateOnly u"
    by (simp add: new_timeline_def)
  moreover have "day_from_year 100 \<le> 20000 - plan_reach (loadPlanningCalendar ''t1'' planned_db) planned_inputs" by code_simp
  moreover have "21000 + plan_reach (loadPlanningCalendar ''t1'' planned_db) planned_inputs < day_from_year 10000" by code_simp
  ultimately show ?thesis by (rule recalc_returns [OF c t i refl])
qed

theorem calendars_stay_ok_witness:
  "calendars_ok (snd (projr (upsertCalendar env_ids user_one (JArr [JNum ''6'', JNum ''0'']) JNull empty_db)))"
proof -
  have c: "calendars_ok empty_db" by (simp add: calendars_ok_def empty_db_def no_plan_def)
  have "\<not> isl (upsertCalendar env_ids user_one (JArr [JNum ''6'', JNum ''0'']) JNull empty_db)" by code_simp
  from calendars_stay_ok [OF c disjI1, OF ran2 [OF this]] show ?thesis .
qed

section \<open>A sweep over stale rows\<close>

definition late_db :: "CaseStageStatus \<Rightarrow> db" where
  "late_db st = planned_db\<lparr>planning := (planning planned_db)\<lparr>stages := [(planned_stage 0 ''a'' st)\<lparr>cs_plannedFinish := Some 0\<rparr>]\<rparr>\<rparr>"

text \<open>
  The sweep reads its stages before the transaction that writes them: a stage completed in between
  is blocked all the same.
\<close>

lemma stale_sweep_blocks_finished:
  "map cs_status (stages (planning (fst (snd (the (sweep_tenants id (\<lambda>_. False) env_later 1777550400000 0
     (swept_timelines (late_db SS_IN_PROGRESS)) [''t1''] (late_db SS_COMPLETED, []))))))) = [SS_BLOCKED]"
  by code_simp

end
