(* ===== verification/Redis_Client.thy ===== *)
theory Redis_Client
  imports Prelude
begin

text \<open>
  \<^verbatim>\<open>src/src/redis.ts\<close>: the client with its circuit breaker, a state machine of module variables.
  The server is a table of strings and counters behind a connection that may fail; \<open>redis_env\<close> says
  for each call whether the connection answered, whether the server carried the command out although
  no answer came, which keys it lost before the call, by a restart, an eviction or their expiry, and
  what the clocks read.
\<close>

section \<open>The circuit breaker\<close>

datatype CircuitState = CLOSED | OPEN | HALF_OPEN

record breaker =
  circuitState :: CircuitState
  consecutiveFailureCount :: nat
  lastFailureTime :: int
  halfOpenTestInProgress :: bool

record breaker_config =
  FAILURE_THRESHOLD :: nat
  RESET_MS :: int

definition fresh_breaker :: breaker where
  "fresh_breaker = \<lparr>circuitState = CLOSED, consecutiveFailureCount = 0, lastFailureTime = 0, halfOpenTestInProgress = False\<rparr>"

definition checkCircuit :: "breaker_config \<Rightarrow> int \<Rightarrow> breaker \<Rightarrow> bool \<times> breaker" where
  "checkCircuit C now b =
     (case circuitState b of
        CLOSED \<Rightarrow> (True, b)
      | OPEN \<Rightarrow> if now - lastFailureTime b > RESET_MS C then (True, b\<lparr>circuitState := HALF_OPEN\<rparr>) else (False, b)
      | HALF_OPEN \<Rightarrow> if halfOpenTestInProgress b then (False, b) else (True, b\<lparr>halfOpenTestInProgress := True\<rparr>))"

definition recordSuccess :: "breaker \<Rightarrow> breaker" where
  "recordSuccess b =
     (let b1 = b\<lparr>consecutiveFailureCount := 0\<rparr>
      in if circuitState b1 = HALF_OPEN then b1\<lparr>circuitState := CLOSED, halfOpenTestInProgress := False\<rparr> else b1)"

definition recordFailure :: "breaker_config \<Rightarrow> int \<Rightarrow> breaker \<Rightarrow> breaker" where
  "recordFailure C now b =
     (let b1 = b\<lparr>consecutiveFailureCount := consecutiveFailureCount b + 1, lastFailureTime := now\<rparr>
      in if circuitState b1 = HALF_OPEN then b1\<lparr>circuitState := OPEN, halfOpenTestInProgress := False\<rparr>
         else if circuitState b1 = CLOSED \<and> FAILURE_THRESHOLD C \<le> consecutiveFailureCount b1 then b1\<lparr>circuitState := OPEN\<rparr>
         else b1)"

section \<open>The commands\<close>

text \<open>
  \<open>rv_configured\<close>: the address of the server is set; \<open>rv_up k\<close>: the server answers the call
  \<open>k\<close>; \<open>rv_done k\<close>: a call without an answer was carried out; \<open>rv_lost k\<close>: the keys the
  server lost before it; the clock is read when a call starts and when its failure is recorded.
\<close>

record redis_env =
  rv_config :: breaker_config
  rv_configured :: bool
  rv_up :: "nat \<Rightarrow> bool"
  rv_done :: "nat \<Rightarrow> bool"
  rv_lost :: "nat \<Rightarrow> string \<Rightarrow> bool"
  rv_clock :: "nat \<Rightarrow> int"
  rv_failed_at :: "nat \<Rightarrow> int"

record redis =
  rd_breaker :: breaker
  rd_strings :: "string \<Rightarrow> string option"
  rd_counters :: "string \<Rightarrow> nat"

definition forget :: "(string \<Rightarrow> bool) \<Rightarrow> redis \<Rightarrow> redis" where
  "forget lost R = R\<lparr>rd_strings := (\<lambda>k. if lost k then None else rd_strings R k),
     rd_counters := (\<lambda>k. if lost k then 0 else rd_counters R k)\<rparr>"

text \<open>One command: nothing when the circuit refuses it, when there is no client, or when it fails.\<close>

definition command :: "redis_env \<Rightarrow> nat \<Rightarrow> (redis \<Rightarrow> 'a \<times> redis) \<Rightarrow> redis \<Rightarrow> 'a option \<times> redis" where
  "command V k run R0 =
     (let R = forget (rv_lost V k) R0 in
      case checkCircuit (rv_config V) (rv_clock V k) (rd_breaker R) of
        (False, b) \<Rightarrow> (None, R\<lparr>rd_breaker := b\<rparr>)
      | (True, b) \<Rightarrow>
          if \<not> rv_configured V then (None, R\<lparr>rd_breaker := b\<rparr>)
          else case run (R\<lparr>rd_breaker := b\<rparr>) of (x, R1) \<Rightarrow>
            if rv_up V k then (Some x, R1\<lparr>rd_breaker := recordSuccess b\<rparr>)
            else (None, (if rv_done V k then R1 else R)\<lparr>rd_breaker := recordFailure (rv_config V) (rv_failed_at V k) b\<rparr>))"

definition redisGet :: "redis_env \<Rightarrow> nat \<Rightarrow> string \<Rightarrow> redis \<Rightarrow> string option \<times> redis" where
  "redisGet V k key R =
     (case command V k (\<lambda>R. (rd_strings R key, R)) R of (None, R1) \<Rightarrow> (None, R1) | (Some v, R1) \<Rightarrow> (v, R1))"

definition redisSet :: "redis_env \<Rightarrow> nat \<Rightarrow> string \<Rightarrow> string \<Rightarrow> redis \<Rightarrow> redis" where
  "redisSet V k key v R = snd (command V k (\<lambda>R. ((), R\<lparr>rd_strings := (rd_strings R)(key \<mapsto> v)\<rparr>)) R)"

definition redisExpire :: "redis_env \<Rightarrow> nat \<Rightarrow> redis \<Rightarrow> redis" where
  "redisExpire V k R = snd (command V k (\<lambda>R. ((), R)) R)"

definition redisIncr :: "redis_env \<Rightarrow> nat \<Rightarrow> string \<Rightarrow> redis \<Rightarrow> nat option \<times> redis" where
  "redisIncr V k key R =
     command V k (\<lambda>R. (rd_counters R key + 1, R\<lparr>rd_counters := (rd_counters R)(key := rd_counters R key + 1)\<rparr>)) R"

text \<open>\<^verbatim>\<open>redisKeys\<close>\<close>

definition permVersion :: "string \<Rightarrow> string" where
  "permVersion tenant = ''tenant:'' @ tenant @ '':perm_version''"

definition userPerms :: "string \<Rightarrow> string \<Rightarrow> int \<Rightarrow> string" where
  "userPerms tenant user version = ''tenant:'' @ tenant @ '':user:'' @ user @ '':perms:v'' @ int_str version"

section \<open>Calls that overlap\<close>

text \<open>
  Calls are asynchronous, so the breaker sees the starts and the ends of calls in any order. A state
  carries the number of calls in flight and the number let through since the last probe began.
\<close>

record breaker_run =
  br_breaker :: breaker
  br_inflight :: nat
  br_probes :: nat

inductive breaker_step :: "breaker_config \<Rightarrow> breaker_run \<Rightarrow> breaker_run \<Rightarrow> bool" for C where
  refused: "checkCircuit C now (br_breaker s) = (False, b) \<Longrightarrow> breaker_step C s (s\<lparr>br_breaker := b\<rparr>)"
| started: "checkCircuit C now (br_breaker s) = (True, b) \<Longrightarrow>
    breaker_step C s \<lparr>br_breaker = b, br_inflight = br_inflight s + 1,
      br_probes = (if circuitState b \<noteq> HALF_OPEN then 0
                   else if circuitState (br_breaker s) = HALF_OPEN then br_probes s + 1 else 1)\<rparr>"
| succeeded: "0 < br_inflight s \<Longrightarrow>
    breaker_step C s (s\<lparr>br_breaker := recordSuccess (br_breaker s), br_inflight := br_inflight s - 1\<rparr>)"
| failed: "0 < br_inflight s \<Longrightarrow>
    breaker_step C s (s\<lparr>br_breaker := recordFailure C now (br_breaker s), br_inflight := br_inflight s - 1\<rparr>)"

inductive breaker_reach :: "breaker_config \<Rightarrow> breaker_run \<Rightarrow> bool" for C where
  init: "breaker_reach C \<lparr>br_breaker = fresh_breaker, br_inflight = 0, br_probes = 0\<rparr>"
| step: "breaker_reach C s \<Longrightarrow> breaker_step C s t \<Longrightarrow> breaker_reach C t"

definition breaker_ok :: "breaker_config \<Rightarrow> breaker_run \<Rightarrow> bool" where
  "breaker_ok C s \<longleftrightarrow>
     (circuitState (br_breaker s) = HALF_OPEN \<longrightarrow> 0 < br_inflight s \<and> 0 < br_probes s
        \<and> br_probes s \<le> (if halfOpenTestInProgress (br_breaker s) then 2 else 1))
     \<and> (halfOpenTestInProgress (br_breaker s) \<longrightarrow> circuitState (br_breaker s) = HALF_OPEN)
     \<and> (circuitState (br_breaker s) = CLOSED \<longrightarrow> consecutiveFailureCount (br_breaker s) < FAILURE_THRESHOLD C)"

lemmas breaker_defs = checkCircuit_def recordSuccess_def recordFailure_def breaker_ok_def Let_def

lemma breaker_ok_step: "breaker_step C s t \<Longrightarrow> 0 < FAILURE_THRESHOLD C \<Longrightarrow> breaker_ok C s \<Longrightarrow> breaker_ok C t"
proof (induction rule: breaker_step.induct)
  case (refused now s b)
  then show ?case by (auto simp: breaker_defs split: CircuitState.splits if_splits)
next
  case (started now s b)
  then show ?case by (auto simp: breaker_defs split: CircuitState.splits if_splits)
next
  case (succeeded s)
  then show ?case by (auto simp: breaker_defs split: CircuitState.splits if_splits)
next
  case (failed s now)
  then show ?case by (auto simp: breaker_defs split: CircuitState.splits if_splits)
qed

lemma breaker_reach_ok: "breaker_reach C s \<Longrightarrow> 0 < FAILURE_THRESHOLD C \<Longrightarrow> breaker_ok C s"
  by (induction rule: breaker_reach.induct) (auto simp: breaker_ok_step, simp add: breaker_ok_def fresh_breaker_def)

text \<open>C38: Whatever the order in which overlapping calls start and end, the breaker does not get stuck: with no
call in flight it is closed or open, never waiting for a probe; once the waiting time has passed it lets a
call through, and if that call succeeds the circuit is closed again. While it probes it lets at most two
calls through.\<close>

theorem breaker_recovers:
  assumes "breaker_reach C s" "0 < FAILURE_THRESHOLD C"
  shows "(circuitState (br_breaker s) = HALF_OPEN \<longrightarrow> br_probes s \<le> 2)
    \<and> (br_inflight s = 0 \<and> RESET_MS C < now - lastFailureTime (br_breaker s) \<longrightarrow>
      fst (checkCircuit C now (br_breaker s)) \<and> circuitState (recordSuccess (snd (checkCircuit C now (br_breaker s)))) = CLOSED)"
  using breaker_reach_ok [OF assms] by (auto simp: breaker_defs split: CircuitState.splits if_splits)

definition config_one :: breaker_config where
  "config_one = \<lparr>FAILURE_THRESHOLD = 1, RESET_MS = 30000\<rparr>"

text \<open>A failure trips the circuit; the state after it.\<close>

definition tripped :: breaker_run where
  "tripped = \<lparr>br_breaker = \<lparr>circuitState = OPEN, consecutiveFailureCount = 1, lastFailureTime = 10, halfOpenTestInProgress = False\<rparr>,
     br_inflight = 0, br_probes = 0\<rparr>"

lemma reach_tripped: "breaker_reach config_one tripped"
proof -
  let ?i = "\<lparr>br_breaker = fresh_breaker, br_inflight = 0, br_probes = 0\<rparr>"
  let ?c = "\<lparr>br_breaker = fresh_breaker, br_inflight = 1, br_probes = 0\<rparr>"
  have "breaker_step config_one ?i ?c"
    using breaker_step.started [of config_one 0 ?i fresh_breaker] by (simp add: checkCircuit_def fresh_breaker_def)
  from breaker_reach.step [OF breaker_reach.init this] have c: "breaker_reach config_one ?c" .
  have "breaker_step config_one ?c tripped"
    using breaker_step.failed [of ?c config_one 10] by (simp add: recordFailure_def fresh_breaker_def tripped_def config_one_def)
  from breaker_reach.step [OF c this] show ?thesis .
qed

lemma breaker_recovers_witness:
  "fst (checkCircuit config_one 40000 (br_breaker tripped))
   \<and> circuitState (recordSuccess (snd (checkCircuit config_one 40000 (br_breaker tripped)))) = CLOSED"
  using breaker_recovers [OF reach_tripped, of 40000] by (simp add: config_one_def tripped_def)

text \<open>
  The comment at the probe says that one test request is let through; two calls that start together
  after the waiting time are both let through, because the first leaves the flag unset.
\<close>

lemma two_probes_pass:
  "\<exists>s. breaker_reach config_one s \<and> circuitState (br_breaker s) = HALF_OPEN \<and> br_inflight s = 2 \<and> br_probes s = 2"
proof -
  let ?h = "\<lparr>circuitState = HALF_OPEN, consecutiveFailureCount = 1, lastFailureTime = 10, halfOpenTestInProgress = False\<rparr>"
  let ?a = "\<lparr>br_breaker = ?h, br_inflight = 1, br_probes = 1\<rparr>"
  let ?b = "\<lparr>br_breaker = ?h\<lparr>halfOpenTestInProgress := True\<rparr>, br_inflight = 2, br_probes = 2\<rparr>"
  have "breaker_step config_one tripped ?a"
    using breaker_step.started [of config_one 40000 tripped ?h] by (simp add: checkCircuit_def tripped_def config_one_def)
  from breaker_reach.step [OF reach_tripped this] have a: "breaker_reach config_one ?a" .
  have "breaker_step config_one ?a ?b"
    using breaker_step.started [of config_one 40001 ?a "?h\<lparr>halfOpenTestInProgress := True\<rparr>"] by (simp add: checkCircuit_def numeral_2_eq_2)
  from breaker_reach.step [OF a this] show ?thesis by (intro exI [of _ ?b]) simp
qed

end
