(* ===== verification/Rate_Limit.thy ===== *)
theory Rate_Limit
  imports Redis_Client
begin

text \<open>
  \<^verbatim>\<open>src/src/services/auth/RateLimitService.ts\<close>: the fixed-window counters that cap attempts, those
  that refuse when the counter cannot be read (fail closed) and those that let the attempt pass
  (fail open). Each limiter names its counter after the window of the clock.
\<close>

section \<open>One counter\<close>

datatype outage = FAIL_CLOSED | FAIL_OPEN

text \<open>The keys are tried in order; the first that is over its limit refuses.\<close>

fun check_limits :: "redis_env \<Rightarrow> outage \<Rightarrow> nat \<Rightarrow> (string \<times> nat) list \<Rightarrow> redis \<Rightarrow> (app_error + unit) \<times> redis" where
  "check_limits V mode k [] R = (Inr (), R)"
| "check_limits V mode k ((key, limit) # rest) R =
     (case redisIncr V k key R of
        (None, R1) \<Rightarrow> (case mode of FAIL_CLOSED \<Rightarrow> (Inl TemporaryServiceError, R1) | FAIL_OPEN \<Rightarrow> (Inr (), R1))
      | (Some count, R1) \<Rightarrow>
          let R2 = (if count = 1 then redisExpire V (k + 1) R1 else R1)
          in if count > limit then (Inl RateLimitExceededError, R2) else check_limits V mode (k + 2) rest R2)"

definition window :: "int \<Rightarrow> int \<Rightarrow> string" where
  "window now width = int_str (now div width)"

definition hour_ms :: int where "hour_ms = 3600000"
definition minute_ms :: int where "minute_ms = 60000"

definition limit_key :: "string \<Rightarrow> string \<Rightarrow> string \<Rightarrow> string" where
  "limit_key prefix who w = prefix @ '':'' @ who @ '':'' @ w"

section \<open>The limiters\<close>

definition checkInviteCreation :: "redis_env \<Rightarrow> int \<Rightarrow> string \<Rightarrow> string \<Rightarrow> string \<Rightarrow> redis \<Rightarrow> (app_error + unit) \<times> redis" where
  "checkInviteCreation V now actor tenant ip =
     (let hour = window now hour_ms
      in check_limits V FAIL_CLOSED 0
           [(limit_key ''invite:actor'' actor hour, 10), (limit_key ''invite:tenant'' tenant hour, 50), (limit_key ''invite:ip'' ip hour, 20)])"

definition checkInviteTokenLookup :: "redis_env \<Rightarrow> int \<Rightarrow> string \<Rightarrow> redis \<Rightarrow> (app_error + unit) \<times> redis" where
  "checkInviteTokenLookup V now ip = check_limits V FAIL_OPEN 0 [(limit_key ''invite:lookup'' ip (window now minute_ms), 5)]"

definition checkAcceptAttempts :: "redis_env \<Rightarrow> int \<Rightarrow> string \<Rightarrow> redis \<Rightarrow> (app_error + unit) \<times> redis" where
  "checkAcceptAttempts V now ip = check_limits V FAIL_CLOSED 0 [(limit_key ''invite:accept'' ip (window now minute_ms), 10)]"

text \<open>These two hand the count to their callers, which compare it.\<close>

definition checkResendLimit :: "redis_env \<Rightarrow> int \<Rightarrow> string \<Rightarrow> redis \<Rightarrow> (app_error + nat) \<times> redis" where
  "checkResendLimit V now email R =
     (case redisIncr V 0 (limit_key ''resend'' email (window now hour_ms)) R of
        (None, R1) \<Rightarrow> (Inl TemporaryServiceError, R1)
      | (Some attempts, R1) \<Rightarrow> (Inr attempts, if attempts = 1 then redisExpire V 1 R1 else R1))"

definition checkLoginAttempts :: "redis_env \<Rightarrow> int \<Rightarrow> string \<Rightarrow> redis \<Rightarrow> (app_error + nat) \<times> redis" where
  "checkLoginAttempts V now email R =
     (case redisIncr V 0 (limit_key ''login'' email (window now minute_ms)) R of
        (None, R1) \<Rightarrow> (Inr 1, R1)
      | (Some attempts, R1) \<Rightarrow> (Inr attempts, if attempts = 1 then redisExpire V 1 R1 else R1))"

definition checkRefreshAttempts :: "redis_env \<Rightarrow> int \<Rightarrow> string \<Rightarrow> string \<Rightarrow> redis \<Rightarrow> (app_error + unit) \<times> redis" where
  "checkRefreshAttempts V now session ip =
     (let hour = window now hour_ms
      in check_limits V FAIL_CLOSED 0 [(limit_key ''refresh:session'' session hour, 30), (limit_key ''refresh:ip'' ip hour, 30)])"

definition checkImportRateLimit :: "redis_env \<Rightarrow> int \<Rightarrow> string \<Rightarrow> string \<Rightarrow> redis \<Rightarrow> (app_error + unit) \<times> redis" where
  "checkImportRateLimit V now tenant ip =
     (let hour = window now hour_ms
      in check_limits V FAIL_OPEN 0 [(limit_key ''import:tenant'' tenant hour, 10), (limit_key ''import:ip'' ip hour, 20)])"

definition checkBulkOperationLimit :: "redis_env \<Rightarrow> int \<Rightarrow> string \<Rightarrow> string \<Rightarrow> redis \<Rightarrow> (app_error + unit) \<times> redis" where
  "checkBulkOperationLimit V now actor tenant =
     (let hour = window now hour_ms
      in check_limits V FAIL_OPEN 0 [(limit_key ''bulk:actor'' actor hour, 50), (limit_key ''bulk:tenant'' tenant hour, 200)])"

definition checkMandateUploadAttempts :: "redis_env \<Rightarrow> int \<Rightarrow> string \<Rightarrow> redis \<Rightarrow> (app_error + unit) \<times> redis" where
  "checkMandateUploadAttempts V now tokenHash = check_limits V FAIL_CLOSED 0 [(limit_key ''mandate:upload'' tokenHash (window now hour_ms), 5)]"

text \<open>The cap is read from the environment; 0 and anything that is no number stand for 100.\<close>

definition checkFirmUploadUrlAttempts :: "redis_env \<Rightarrow> nat option \<Rightarrow> int \<Rightarrow> string \<Rightarrow> string \<Rightarrow> redis \<Rightarrow> (app_error + unit) \<times> redis" where
  "checkFirmUploadUrlAttempts V cap now user tenant =
     (let limit = (case cap of None \<Rightarrow> 100 | Some n \<Rightarrow> if n = 0 then 100 else n)
      in check_limits V FAIL_OPEN 0 [(limit_key (''firm-upload-url:'' @ tenant) user (window now hour_ms), limit)])"

section \<open>What a command does to a counter\<close>

lemma redisIncr_counter:
  assumes "redisIncr V k key R = (c, R1)"
  shows "\<exists>n. rd_counters R1 = (\<lambda>x. if x = key then n else rd_counters (forget (rv_lost V k) R) x)
     \<and> rd_counters (forget (rv_lost V k) R) key \<le> n
     \<and> (\<forall>m. c = Some m \<longrightarrow> n = m \<and> m = rd_counters (forget (rv_lost V k) R) key + 1)"
  using assms unfolding redisIncr_def command_def Let_def
  by (auto simp: fun_eq_iff split: prod.splits bool.splits if_splits)

lemma redisExpire_counter: "rd_counters (redisExpire V k R) = rd_counters (forget (rv_lost V k) R)"
  by (auto simp: redisExpire_def command_def Let_def split: prod.splits bool.splits if_splits)

section \<open>A window of attempts\<close>

text \<open>
  Any number of attempts on one counter, each with its own outages and losses of the server. The
  increment is one atomic command of the server, and an attempt is decided by the answer to it alone,
  so attempts that overlap can be taken in the order of their increments.
  \<open>passes\<close> counts those let through, \<open>losses\<close> those during which the server lost the counter.
\<close>

fun passes :: "redis_env list \<Rightarrow> string \<Rightarrow> int list \<Rightarrow> redis \<Rightarrow> nat" where
  "passes (V # Vs) tokenHash (now # nows) R =
     (case checkMandateUploadAttempts V now tokenHash R of
        (Inr _, R1) \<Rightarrow> 1 + passes Vs tokenHash nows R1
      | (Inl _, R1) \<Rightarrow> passes Vs tokenHash nows R1)"
| "passes _ tokenHash _ R = 0"

definition upload_key :: "string \<Rightarrow> int \<Rightarrow> string" where
  "upload_key tokenHash w = limit_key ''mandate:upload'' tokenHash (int_str w)"

definition loses :: "string \<Rightarrow> int set \<Rightarrow> redis_env \<Rightarrow> bool" where
  "loses tokenHash W V \<longleftrightarrow> (\<exists>k \<in> {0, 1}. \<exists>w \<in> W. rv_lost V k (upload_key tokenHash w))"

definition losses :: "string \<Rightarrow> int set \<Rightarrow> redis_env list \<Rightarrow> nat" where
  "losses tokenHash W Vs = length (filter (loses tokenHash W) Vs)"

text \<open>The attempts the counters of some windows still allow.\<close>

definition allowance :: "string \<Rightarrow> int set \<Rightarrow> redis \<Rightarrow> nat" where
  "allowance tokenHash W R = (\<Sum>w \<in> W. 5 - rd_counters R (upload_key tokenHash w))"

lemma allowance_max: "finite W \<Longrightarrow> allowance tokenHash W R \<le> 5 * card W"
  unfolding allowance_def using sum_bounded_above [of W "\<lambda>w. 5 - rd_counters R (upload_key tokenHash w)" "5 :: nat"] by simp

lemma attempt_counter:
  assumes "checkMandateUploadAttempts V now tokenHash R = (r, R1)" "now div hour_ms \<in> W" "\<not> loses tokenHash W V" "w \<in> W"
  shows "rd_counters R (upload_key tokenHash w) \<le> rd_counters R1 (upload_key tokenHash w)"
    "w = now div hour_ms \<Longrightarrow> r = Inr () \<Longrightarrow> rd_counters R (upload_key tokenHash w) < 5
       \<and> rd_counters R (upload_key tokenHash w) < rd_counters R1 (upload_key tokenHash w)"
proof -
  let ?key = "upload_key tokenHash (now div hour_ms)"
  have kept: "rd_counters (forget (rv_lost V k) Q) (upload_key tokenHash v) = rd_counters Q (upload_key tokenHash v)"
    if "k = 0 \<or> k = 1" "v \<in> W" for k Q v
    using assms(3) that by (auto simp: forget_def loses_def)
  obtain c Q where i: "redisIncr V 0 ?key R = (c, Q)" by fastforce
  obtain n where n: "rd_counters Q = (\<lambda>x. if x = ?key then n else rd_counters (forget (rv_lost V 0) R) x)"
    "rd_counters (forget (rv_lost V 0) R) ?key \<le> n"
    "\<forall>m. c = Some m \<longrightarrow> n = m \<and> m = rd_counters (forget (rv_lost V 0) R) ?key + 1"
    using redisIncr_counter [OF i] by blast
  have run: "(case c of None \<Rightarrow> (Inl TemporaryServiceError, Q)
      | Some count \<Rightarrow> let R2 = (if count = 1 then redisExpire V 1 Q else Q)
          in if count > 5 then (Inl RateLimitExceededError, R2) else (Inr (), R2)) = (r, R1)"
    using assms(1) i by (cases c) (auto simp: checkMandateUploadAttempts_def window_def upload_key_def Let_def split: if_splits)
  have Q: "rd_counters R (upload_key tokenHash v) \<le> rd_counters Q (upload_key tokenHash v)" if "v \<in> W" for v
    using n(1,2) kept [of 0 v R] kept [of 0 "now div hour_ms" R] that assms(2) by (auto simp: upload_key_def)
  have R1: "rd_counters R1 (upload_key tokenHash v) = rd_counters Q (upload_key tokenHash v)" if "v \<in> W" for v
    using run kept [of 1 v Q] that by (auto simp: redisExpire_counter Let_def split: option.splits if_splits)
  show "rd_counters R (upload_key tokenHash w) \<le> rd_counters R1 (upload_key tokenHash w)" using Q R1 assms(4) by simp
  assume w: "w = now div hour_ms" and ok: "r = Inr ()"
  obtain m where c: "c = Some m" "m \<le> 5" using run ok by (auto simp: Let_def split: option.splits if_splits)
  then have "m = rd_counters R ?key + 1" "rd_counters Q ?key = m" using n kept [of 0 "now div hour_ms" R] assms(2) by auto
  then show "rd_counters R (upload_key tokenHash w) < 5 \<and> rd_counters R (upload_key tokenHash w) < rd_counters R1 (upload_key tokenHash w)"
    using c(2) R1 [OF assms(4)] by (simp add: w)
qed

lemma attempt_allowance:
  assumes "checkMandateUploadAttempts V now tokenHash R = (r, R1)" "now div hour_ms \<in> W" "\<not> loses tokenHash W V" "finite W"
  shows "((case r of Inl e \<Rightarrow> 0 | Inr u \<Rightarrow> 1) :: nat) + allowance tokenHash W R1 \<le> allowance tokenHash W R"
proof -
  note grows = attempt_counter(1) [OF assms(1-3)]
  show ?thesis
  proof (cases r)
    case (Inl e)
    then show ?thesis unfolding allowance_def using grows by (auto intro!: sum_mono diff_le_mono2)
  next
    case (Inr u)
    let ?f = "\<lambda>R w. 5 - rd_counters R (upload_key tokenHash w)"
    have "r = Inr ()" using Inr by simp
    from attempt_counter(2) [OF assms(1-3,2) refl this] have "?f R1 (now div hour_ms) < ?f R (now div hour_ms)" by linarith
    moreover have "?f R1 w \<le> ?f R w" if "w \<in> W" for w using grows [OF that] by simp
    ultimately have "sum (?f R1) W < sum (?f R) W" using assms(2,4) by (intro sum_strict_mono_ex1) auto
    then show ?thesis by (simp add: Inr allowance_def)
  qed
qed

lemma passes_allowance:
  assumes "finite W" "\<forall>now \<in> set nows. now div hour_ms \<in> W"
  shows "passes Vs tokenHash nows R \<le> allowance tokenHash W R + (5 * card W + 1) * losses tokenHash W Vs"
  using assms(2)
proof (induction Vs tokenHash nows R rule: passes.induct)
  case (1 V Vs tokenHash now nows R)
  obtain r R1 where r: "checkMandateUploadAttempts V now tokenHash R = (r, R1)" by fastforce
  have now: "now div hour_ms \<in> W" and later: "\<forall>now \<in> set nows. now div hour_ms \<in> W" using "1.prems" by simp_all
  let ?one = "(case r of Inl e \<Rightarrow> 0 | Inr u \<Rightarrow> 1) :: nat"
  have ih: "passes Vs tokenHash nows R1 \<le> allowance tokenHash W R1 + (5 * card W + 1) * losses tokenHash W Vs"
    using "1.IH" [OF r [symmetric]] later by (cases r) blast+
  have pass: "passes (V # Vs) tokenHash (now # nows) R = ?one + passes Vs tokenHash nows R1" by (cases r) (simp_all add: r)
  show ?case
  proof (cases "loses tokenHash W V")
    case True
    have "?one \<le> 1" by (cases r) simp_all
    with True ih allowance_max [OF assms(1), of tokenHash R1] show ?thesis unfolding pass by (simp add: losses_def)
  next
    case False
    with ih attempt_allowance [OF r now False assms(1)] show ?thesis unfolding pass by (simp add: losses_def)
  qed
qed simp_all

text \<open>C39: The attempts on an upload link that are let through are at most five for each clock hour they
fall into, so at most ten in any sixty minutes, however many are made and however the counter server
fails in between: an attempt without an answer is refused. Each attempt during which the server loses
the counter of the link, by a restart, an eviction or an early expiry, allows that many and one more.\<close>

theorem upload_attempts_capped:
  assumes "finite W" "\<forall>now \<in> set nows. now div hour_ms \<in> W"
  shows "passes Vs tokenHash nows R \<le> 5 * card W + (5 * card W + 1) * losses tokenHash W Vs"
  using passes_allowance [OF assms, of Vs tokenHash R] allowance_max [OF assms(1), of tokenHash R] by linarith

definition redis_one :: redis where
  "redis_one = \<lparr>rd_breaker = fresh_breaker, rd_strings = (\<lambda>_. None), rd_counters = (\<lambda>_. 0)\<rparr>"

definition redis_up :: "bool \<Rightarrow> redis_env" where
  "redis_up up = \<lparr>rv_config = \<lparr>FAILURE_THRESHOLD = 5, RESET_MS = 30000\<rparr>, rv_configured = True, rv_up = (\<lambda>_. up),
     rv_done = (\<lambda>_. False), rv_lost = (\<lambda>_ _. False), rv_clock = (\<lambda>_. 0), rv_failed_at = (\<lambda>_. 0)\<rparr>"

text \<open>Eight attempts, one of them during an outage: at most five pass.\<close>

lemma upload_attempts_capped_witness:
  "passes (redis_up True # redis_up False # replicate 6 (redis_up True)) ''h'' (replicate 8 7200001) redis_one \<le> 5
   \<and> passes [redis_up True, redis_up False] ''h'' [7200001, 7200001] redis_one = 1"
proof
  let ?Vs = "redis_up True # redis_up False # replicate 6 (redis_up True)"
  have none: "losses ''h'' {2} ?Vs = 0" by (simp add: losses_def loses_def redis_up_def)
  have "passes ?Vs ''h'' (replicate 8 7200001) redis_one \<le> 5 * card {2 :: int} + (5 * card {2 :: int} + 1) * losses ''h'' {2} ?Vs"
    by (rule upload_attempts_capped) (simp_all add: hour_ms_def)
  then show "passes ?Vs ''h'' (replicate 8 7200001) redis_one \<le> 5" by (simp add: none)
  show "passes [redis_up True, redis_up False] ''h'' [7200001, 7200001] redis_one = 1" by code_simp
qed

text \<open>
  The comment at \<open>checkLoginAttempts\<close> says that an outage blocks login; the code answers 1, which
  every caller lets through.
\<close>

lemma login_fails_open:
  "fst (redisIncr V 0 (limit_key ''login'' email (window now minute_ms)) R) = None \<Longrightarrow> fst (checkLoginAttempts V now email R) = Inr 1"
  by (auto simp: checkLoginAttempts_def split: prod.splits option.splits)

end
