(* ===== verification/Object_Store.thy ===== *)
theory Object_Store
  imports Db Notification_Service Rate_Limit
begin

text \<open>
  What the upload services reach beside the database: the object store behind
  \<^verbatim>\<open>src/src/services/storage.service.ts\<close>, the virus scanner behind
  \<^verbatim>\<open>src/src/services/virus-scan.service.ts\<close>, the counters of the rate limiter and the
  notifications. A \<open>world\<close> is the database with these; an action on it returns a value or an error
  and keeps whatever it wrote before the error.
\<close>

section \<open>The world\<close>

text \<open>An object of the bucket; the store reports its length and the type it was put with.\<close>

record StoredObject =
  ob_key :: string
  ob_bytes :: bytes
  ob_contentType :: "string option"
  ob_lastModified :: "date option"

record world =
  wd :: db
  wo :: "StoredObject list"
  wn :: "Notification list"
  wr :: redis

text \<open>
  The services around the program: the error of the storage call of a number, if it fails; the
  switch and the verdict of the scanner (nothing when it does not answer); the signer of links and
  the hash of upload tokens.
\<close>

record services =
  sv_env :: env
  sv_redis :: redis_env
  sv_storage :: "nat \<Rightarrow> app_error option"
  sv_scanEnabled :: bool
  sv_scan :: "bytes \<Rightarrow> bool option"
  sv_sign :: "string \<Rightarrow> string"
  sv_sha256 :: "string \<Rightarrow> string"

section \<open>Actions\<close>

type_synonym 'a act = "world \<Rightarrow> (app_error + 'a) \<times> world"

definition act_return :: "'a \<Rightarrow> 'a act" where
  "act_return x w = (Inr x, w)"

definition act_throw :: "app_error \<Rightarrow> 'a act" where
  "act_throw e w = (Inl e, w)"

definition act_bind :: "'a act \<Rightarrow> ('a \<Rightarrow> 'b act) \<Rightarrow> 'b act" where
  "act_bind m f w = (case m w of (Inl e, w1) \<Rightarrow> (Inl e, w1) | (Inr x, w1) \<Rightarrow> f x w1)"

definition act_ensure :: "bool \<Rightarrow> app_error \<Rightarrow> unit act" where
  "act_ensure c e w = (ensure c e, w)"

text \<open>A read of the database, and a transaction on it.\<close>

definition act_read :: "(db \<Rightarrow> app_error + 'a) \<Rightarrow> 'a act" where
  "act_read f w = (f (wd w), w)"

definition act_tx :: "'a tx \<Rightarrow> 'a act" where
  "act_tx t w = (case t (wd w) of Inl e \<Rightarrow> (Inl e, w) | Inr (x, d) \<Rightarrow> (Inr x, w\<lparr>wd := d\<rparr>))"

text \<open>An error caught, as a value.\<close>

definition act_try :: "'a act \<Rightarrow> (app_error + 'a) act" where
  "act_try m w = (case m w of (r, w1) \<Rightarrow> (Inr r, w1))"

section \<open>The object store\<close>

text \<open>The call number \<open>k\<close> of a request fails with its error or runs.\<close>

definition storage_call :: "services \<Rightarrow> nat \<Rightarrow> (StoredObject list \<Rightarrow> app_error + 'a \<times> StoredObject list) \<Rightarrow> 'a act" where
  "storage_call S k run w =
     (case sv_storage S k of
        Some e \<Rightarrow> (Inl e, w)
      | None \<Rightarrow> (case run (wo w) of Inl e \<Rightarrow> (Inl e, w) | Inr (x, os) \<Rightarrow> (Inr x, w\<lparr>wo := os\<rparr>)))"

definition object_at :: "string \<Rightarrow> StoredObject list \<Rightarrow> StoredObject option" where
  "object_at key os = find_first (\<lambda>b. ob_key b = key) os"

record Head =
  hd_contentLength :: int
  hd_contentType :: "string option"

definition head_of :: "StoredObject \<Rightarrow> Head" where
  "head_of b = \<lparr>hd_contentLength = int (length (ob_bytes b)), hd_contentType = ob_contentType b\<rparr>"

text \<open>No head stands for \<^verbatim>\<open>exists: false\<close>.\<close>

definition headObject :: "services \<Rightarrow> nat \<Rightarrow> string \<Rightarrow> Head option act" where
  "headObject S k key = storage_call S k (\<lambda>os. Inr (map_option head_of (object_at key os), os))"

definition getObjectBytes :: "services \<Rightarrow> nat \<Rightarrow> string \<Rightarrow> bytes act" where
  "getObjectBytes S k key =
     storage_call S k (\<lambda>os. case object_at key os of None \<Rightarrow> Inl (Thrown ''NoSuchKey'') | Some b \<Rightarrow> Inr (ob_bytes b, os))"

definition put_object :: "StoredObject \<Rightarrow> StoredObject list \<Rightarrow> StoredObject list" where
  "put_object b os = filter (\<lambda>q. ob_key q \<noteq> ob_key b) os @ [b]"

definition deleteObject :: "services \<Rightarrow> nat \<Rightarrow> string \<Rightarrow> unit act" where
  "deleteObject S k key = storage_call S k (\<lambda>os. Inr ((), filter (\<lambda>q. ob_key q \<noteq> key) os))"

definition copyObject :: "services \<Rightarrow> nat \<Rightarrow> string \<Rightarrow> string \<Rightarrow> unit act" where
  "copyObject S k sourceKey destKey =
     storage_call S k (\<lambda>os. case object_at sourceKey os of
        None \<Rightarrow> Inl (Thrown ''NoSuchKey'')
      | Some b \<Rightarrow> Inr ((), put_object (b\<lparr>ob_key := destKey, ob_lastModified := Some (ev_clock (sv_env S) (50 + k))\<rparr>) os))"

text \<open>A presigned link and when it ends; signing needs the credentials, so it may fail.\<close>

definition presign :: "services \<Rightarrow> nat \<Rightarrow> string \<Rightarrow> int \<Rightarrow> (string \<times> date) act" where
  "presign S k key seconds =
     storage_call S k (\<lambda>os. Inr ((sv_sign S key, ev_clock (sv_env S) (50 + k) + seconds * 1000), os))"

section \<open>The scanner\<close>

text \<open>Whether the bytes are infected; with the scanner switched off they pass unscanned.\<close>

definition scanOrBypass :: "services \<Rightarrow> bytes \<Rightarrow> app_error + bool" where
  "scanOrBypass S data =
     (if \<not> sv_scanEnabled S then Inr False
      else case sv_scan S data of None \<Rightarrow> Inl ScannerUnavailableError | Some infected \<Rightarrow> Inr infected)"

section \<open>The rate limiter\<close>

definition upload_limit :: "services \<Rightarrow> string \<Rightarrow> unit act" where
  "upload_limit S tokenHash w =
     (case checkMandateUploadAttempts (sv_redis S) (ev_clock (sv_env S) 90) tokenHash (wr w) of (r, R) \<Rightarrow> (r, w\<lparr>wr := R\<rparr>))"

section \<open>What an action may change\<close>

text \<open>
  \<open>along R m\<close>: the action moves the world along \<open>R\<close>, whether it returns or throws. For an
  \<open>R\<close> that is reflexive and transitive it is enough to look at the pieces of the action.
\<close>

definition along :: "(world \<Rightarrow> world \<Rightarrow> bool) \<Rightarrow> 'a act \<Rightarrow> bool" where
  "along R m \<longleftrightarrow> (\<forall>w. R w (snd (m w)))"

locale change =
  fixes R :: "world \<Rightarrow> world \<Rightarrow> bool"
  assumes refl: "R w w"
    and trans: "R u v \<Longrightarrow> R v w \<Longrightarrow> R u w"
begin

lemma along_pure: "along R (act_return x)" "along R (act_throw e)" "along R (act_ensure c e)" "along R (act_read f)"
  by (simp_all add: along_def act_return_def act_throw_def act_ensure_def act_read_def refl)

lemma along_bind:
  assumes "along R m" "\<And>x. along R (f x)"
  shows "along R (act_bind m f)"
proof -
  have "R w (snd (act_bind m f w))" for w
  proof (cases "m w")
    case (Pair r w1)
    have m: "R w w1" using assms(1) Pair unfolding along_def by (metis snd_conv)
    show ?thesis
    proof (cases r)
      case (Inl e)
      then show ?thesis using m Pair by (simp add: act_bind_def)
    next
      case (Inr x)
      have "R w1 (snd (f x w1))" using assms(2) unfolding along_def by blast
      then show ?thesis using trans [OF m] Pair Inr by (simp add: act_bind_def)
    qed
  qed
  then show ?thesis by (simp add: along_def)
qed

lemma along_try: "along R m \<Longrightarrow> along R (act_try m)"
  unfolding along_def act_try_def by (simp add: split_beta)

end

text \<open>One write among reads: an action that moves along \<open>R\<close> next to one that leaves what \<open>R\<close> speaks of.\<close>

lemma act_bind_cases:
  "(\<exists>e. fst (m w) = Inl e \<and> act_bind m f w = (Inl e, snd (m w))) \<or> (\<exists>x. fst (m w) = Inr x \<and> act_bind m f w = f x (snd (m w)))"
  by (cases "m w"; cases "fst (m w)") (auto simp: act_bind_def)

lemma act_bind_Inr:
  "act_bind m f w = (Inr y, w') \<longleftrightarrow> (\<exists>x w1. m w = (Inr x, w1) \<and> f x w1 = (Inr y, w'))"
  by (auto simp: act_bind_def split: prod.splits sum.splits)

lemma act_simps [simp]:
  "act_return x w = (Inr y, w') \<longleftrightarrow> y = x \<and> w' = w"
  "act_throw e w \<noteq> (Inr y, w')"
  "act_ensure c e w = (Inr u, w') \<longleftrightarrow> c \<and> w' = w"
  "act_read f w = (Inr y, w') \<longleftrightarrow> f (wd w) = Inr y \<and> w' = w"
  by (auto simp: act_return_def act_throw_def act_ensure_def act_read_def)

lemma act_tx_Inr: "act_tx t w = (Inr x, w') \<longleftrightarrow> (\<exists>d. t (wd w) = Inr (x, d) \<and> w' = w\<lparr>wd := d\<rparr>)"
  by (auto simp: act_tx_def split: sum.splits)

lemma along_tx: "(\<And>w x d. t (wd w) = Inr (x, d) \<Longrightarrow> R w (w\<lparr>wd := d\<rparr>)) \<Longrightarrow> (\<And>w. R w w) \<Longrightarrow> along R (act_tx t)"
  unfolding along_def act_tx_def by (simp split: sum.split)

lemma along_storage:
  "(\<And>w x os. run (wo w) = Inr (x, os) \<Longrightarrow> R w (w\<lparr>wo := os\<rparr>)) \<Longrightarrow> (\<And>w. R w w) \<Longrightarrow> along R (storage_call S k run)"
  unfolding along_def storage_call_def by (simp split: option.split sum.split)

end
