(* ===== verification/Upload_Gate.thy ===== *)
theory Upload_Gate
  imports Object_Store
begin

text \<open>
  The gate every upload passes before its file is kept, which
  \<^verbatim>\<open>src/src/services/mandate.service.ts\<close> and \<^verbatim>\<open>src/src/services/document.service.ts\<close> spell out
  alike: the staged object must exist, be small enough, have an accepted type, begin with the bytes
  of that type and pass the scanner. What differs is the limits and what is done with an infected
  file.
\<close>

definition reject_staged :: "services \<Rightarrow> nat \<Rightarrow> string \<Rightarrow> string \<Rightarrow> 'a act" where
  "reject_staged S k key message = act_bind (deleteObject S k key) (\<lambda>_. act_throw (ValidationError message))"

definition type_ok :: "(string \<Rightarrow> bool) \<Rightarrow> Head \<Rightarrow> bool" where
  "type_ok accepted head = (case hd_contentType head of None \<Rightarrow> False | Some t \<Rightarrow> accepted t)"

text \<open>
  The store is asked for the head of the object and then for its bytes; whoever holds the link of the
  upload can replace the object in between.
\<close>

definition gate_head :: "services \<Rightarrow> int \<Rightarrow> (string \<Rightarrow> bool) \<Rightarrow> string \<Rightarrow> Head act" where
  "gate_head S maxSize accepted key =
     act_bind (headObject S 0 key) (\<lambda>found. case found of
        None \<Rightarrow> act_throw ConflictError
      | Some head \<Rightarrow>
          if maxSize < hd_contentLength head then reject_staged S 1 key ''Uploaded file exceeds the size limit.''
          else if \<not> type_ok accepted head then reject_staged S 1 key ''Uploaded file type is not accepted.''
          else act_return head)"

definition gate_bytes :: "services \<Rightarrow> string \<Rightarrow> unit act \<Rightarrow> Head \<Rightarrow> (bytes \<times> Head) act" where
  "gate_bytes S key infected head =
     act_bind (getObjectBytes S 2 key) (\<lambda>data.
       if \<not> matchesMagicBytes (or_empty (hd_contentType head)) data
       then reject_staged S 3 key ''Uploaded file content does not match its declared type.''
       else case scanOrBypass S data of
           Inl _ \<Rightarrow> act_throw ScannerUnavailableError
         | Inr True \<Rightarrow> act_bind infected (\<lambda>_. act_throw InfectedFileError)
         | Inr False \<Rightarrow> act_return (data, head))"

definition gate_staged :: "services \<Rightarrow> int \<Rightarrow> (string \<Rightarrow> bool) \<Rightarrow> string \<Rightarrow> unit act \<Rightarrow> (bytes \<times> Head) act" where
  "gate_staged S maxSize accepted key infected =
     act_bind (gate_head S maxSize accepted key) (gate_bytes S key infected)"

text \<open>Promotion: the staged object is copied to its final key and removed.\<close>

definition promote :: "services \<Rightarrow> string \<Rightarrow> string \<Rightarrow> unit act" where
  "promote S stagingKey finalKey = act_bind (copyObject S 4 stagingKey finalKey) (\<lambda>_. deleteObject S 5 stagingKey)"

section \<open>What the gate lets through\<close>

definition clean_object :: "services \<Rightarrow> int \<Rightarrow> (string \<Rightarrow> bool) \<Rightarrow> StoredObject \<Rightarrow> bool" where
  "clean_object S maxSize accepted b \<longleftrightarrow> int (length (ob_bytes b)) \<le> maxSize
     \<and> (\<exists>t. ob_contentType b = Some t \<and> accepted t \<and> matchesMagicBytes t (ob_bytes b)) \<and> scanOrBypass S (ob_bytes b) = Inr False"

lemma storage_call_Inr:
  "storage_call S k run w = (Inr x, w') \<longleftrightarrow> sv_storage S k = None \<and> (\<exists>os. run (wo w) = Inr (x, os) \<and> w' = w\<lparr>wo := os\<rparr>)"
  by (auto simp: storage_call_def split: option.splits sum.splits)

lemma read_call: "w\<lparr>wo := wo w\<rparr> = (w :: world)"
  by simp

lemma reject_staged_Inr [simp]: "reject_staged S k key m w \<noteq> (Inr x, w')"
  by (simp add: reject_staged_def act_bind_Inr)

text \<open>What each half of the gate knows when it passes; it changed nothing then.\<close>

definition small_object :: "int \<Rightarrow> (string \<Rightarrow> bool) \<Rightarrow> StoredObject \<Rightarrow> bool" where
  "small_object maxSize accepted b \<longleftrightarrow> int (length (ob_bytes b)) \<le> maxSize \<and> (\<exists>t. ob_contentType b = Some t \<and> accepted t)"

lemma gate_head_Inr:
  assumes "gate_head S maxSize accepted key w = (Inr head, w')"
  shows "w' = w \<and> (\<exists>b. object_at key (wo w) = Some b \<and> small_object maxSize accepted b \<and> head = head_of b)"
proof -
  obtain found w1 where h: "headObject S 0 key w = (Inr found, w1)"
    and rest: "(case found of None \<Rightarrow> act_throw ConflictError
      | Some head \<Rightarrow>
          if maxSize < hd_contentLength head then reject_staged S 1 key ''Uploaded file exceeds the size limit.''
          else if \<not> type_ok accepted head then reject_staged S 1 key ''Uploaded file type is not accepted.''
          else act_return head) w1 = (Inr head, w')"
    using assms unfolding gate_head_def act_bind_Inr by (elim exE conjE) (rule that, assumption+)
  have w1: "w1 = w" and found: "found = map_option head_of (object_at key (wo w))"
    using h by (simp_all add: headObject_def storage_call_Inr)
  from rest obtain b where b: "object_at key (wo w) = Some b" unfolding found by (cases "object_at key (wo w)") simp_all
  have "\<not> maxSize < hd_contentLength (head_of b)" "type_ok accepted (head_of b)" "w' = w1" "head = head_of b"
    using rest unfolding found b by (auto split: if_splits)
  then show ?thesis using b w1 by (auto simp: small_object_def type_ok_def head_of_def split: option.splits)
qed

lemma gate_bytes_Inr:
  assumes "gate_bytes S key infected head w = (Inr (data, head'), w')"
  shows "w' = w \<and> head' = head \<and> (\<exists>b. object_at key (wo w) = Some b \<and> data = ob_bytes b)
    \<and> matchesMagicBytes (or_empty (hd_contentType head)) data \<and> scanOrBypass S data = Inr False"
proof -
  obtain data' w2 where g: "getObjectBytes S 2 key w = (Inr data', w2)"
    and r: "(if \<not> matchesMagicBytes (or_empty (hd_contentType head)) data'
            then reject_staged S 3 key ''Uploaded file content does not match its declared type.''
            else case scanOrBypass S data' of
                Inl _ \<Rightarrow> act_throw ScannerUnavailableError
              | Inr True \<Rightarrow> act_bind infected (\<lambda>_. act_throw InfectedFileError)
              | Inr False \<Rightarrow> act_return (data', head)) w2 = (Inr (data, head'), w')"
    using assms unfolding gate_bytes_def act_bind_Inr by (elim exE conjE) (rule that, assumption+)
  have "w2 = w" "\<exists>b. object_at key (wo w) = Some b \<and> data' = ob_bytes b"
    using g by (auto simp: getObjectBytes_def storage_call_Inr split: option.splits)
  moreover have magic: "matchesMagicBytes (or_empty (hd_contentType head)) data'"
    using r by (auto split: if_splits)
  moreover have scan: "scanOrBypass S data' = Inr False"
    using r magic by (auto simp: act_bind_Inr split: sum.splits bool.splits)
  moreover have "w' = w2" "data = data'" "head' = head" using r magic by (simp_all add: scan)
  ultimately show ?thesis by simp
qed

text \<open>A file that passes without interruption was found clean.\<close>

lemma gate_staged_Inr:
  assumes "gate_staged S maxSize accepted key infected w = (Inr (data, head), w')"
  shows "w' = w \<and> (\<exists>b. object_at key (wo w) = Some b \<and> clean_object S maxSize accepted b \<and> data = ob_bytes b \<and> head = head_of b)"
proof -
  obtain h w1 where h: "gate_head S maxSize accepted key w = (Inr h, w1)" and b: "gate_bytes S key infected h w1 = (Inr (data, head), w')"
    using assms unfolding gate_staged_def act_bind_Inr by blast
  obtain o1 where o1: "object_at key (wo w) = Some o1" "small_object maxSize accepted o1" "h = head_of o1" and w1: "w1 = w"
    using gate_head_Inr [OF h] by blast
  show ?thesis using gate_bytes_Inr [OF b] o1 by (auto simp: w1 clean_object_def small_object_def head_of_def or_empty_def)
qed

lemma promote_Inr:
  assumes "promote S stagingKey finalKey w = (Inr u, w')"
  shows "\<exists>b. object_at stagingKey (wo w) = Some b
    \<and> w' = w\<lparr>wo := filter (\<lambda>q. ob_key q \<noteq> stagingKey)
        (put_object (b\<lparr>ob_key := finalKey, ob_lastModified := Some (ev_clock (sv_env S) 54)\<rparr>) (wo w))\<rparr>"
  using assms by (auto simp: promote_def act_bind_Inr copyObject_def deleteObject_def storage_call_Inr split: option.splits)

text \<open>Whether it returns or throws, promotion adds no object but the copy of the staged one.\<close>

lemma promote_objects:
  assumes "b \<in> set (wo (snd (promote S stagingKey finalKey w)))" "b \<notin> set (wo w)"
  shows "\<exists>o1. object_at stagingKey (wo w) = Some o1 \<and> ob_key b = finalKey \<and> ob_bytes b = ob_bytes o1 \<and> ob_contentType b = ob_contentType o1"
  using assms
  by (auto simp: promote_def act_bind_def copyObject_def deleteObject_def storage_call_def put_object_def
      split: option.splits sum.splits prod.splits if_splits)

lemma promote_rest:
  "wd (snd (promote S stagingKey finalKey w)) = wd w" "wn (snd (promote S stagingKey finalKey w)) = wn w"
  by (auto simp: promote_def act_bind_def copyObject_def deleteObject_def storage_call_def split: option.splits sum.splits prod.splits)

lemma delete_objects: "set (wo (snd (deleteObject S k key w))) \<subseteq> set (wo w)" "wd (snd (deleteObject S k key w)) = wd w"
  by (auto simp: deleteObject_def storage_call_def split: option.splits)

text \<open>The gate itself adds no object, unless what is done with an infected file does.\<close>

lemma gate_objects:
  assumes "\<And>v. set (wo (snd (infected v))) \<subseteq> set (wo v)"
  shows "set (wo (snd (gate_staged S maxSize accepted key infected w))) \<subseteq> set (wo w)"
proof -
  have rej: "set (wo (snd (reject_staged S k key m v))) \<subseteq> set (wo v)" for k m v
    using delete_objects(1) [of S k key v] by (auto simp: reject_staged_def act_bind_def act_throw_def split: prod.splits sum.splits)
  have inf: "set (wo (snd (act_bind infected (\<lambda>_. act_throw InfectedFileError) v))) \<subseteq> set (wo v)" for v
    using assms [of v] by (auto simp: act_bind_def act_throw_def split: prod.splits sum.splits)
  have rd: "wo (snd (headObject S 0 key v)) = wo v" "wo (snd (getObjectBytes S 2 key v)) = wo v" for v
    by (auto simp: headObject_def getObjectBytes_def storage_call_def split: option.splits sum.splits)
  have head: "set (wo (snd (gate_head S maxSize accepted key v))) \<subseteq> set (wo v)" for v
  proof -
    obtain r w1 where g: "headObject S 0 key v = (r, w1)" by fastforce
    have "wo w1 = wo v" using rd(1) [of v] g by simp
    then show ?thesis
      using rej [of 1 _ w1] by (auto simp: gate_head_def act_bind_def g act_throw_def act_return_def split: sum.splits option.splits)
  qed
  have bytes: "set (wo (snd (gate_bytes S key infected h v))) \<subseteq> set (wo v)" for h v
  proof -
    obtain r w1 where g: "getObjectBytes S 2 key v = (r, w1)" by fastforce
    have "wo w1 = wo v" using rd(2) [of v] g by simp
    then show ?thesis
      using rej [of 3 _ w1] inf [of w1]
      by (auto simp: gate_bytes_def act_bind_def [of "getObjectBytes S 2 key"] g act_throw_def act_return_def split: sum.splits bool.splits)
  qed
  show ?thesis
    using head [of w] bytes unfolding gate_staged_def by (cases "gate_head S maxSize accepted key w"; cases "fst (gate_head S maxSize accepted key w)")
      (fastforce simp: act_bind_def)+
qed

end
