(* ===== verification/Mandate_Service.thy ===== *)
theory Mandate_Service
  imports Upload_Gate Case_Store
begin

text \<open>
  \<^verbatim>\<open>src/src/services/mandate.service.ts\<close> and the expiry worker
  \<^verbatim>\<open>src/src/workers/mandate-expiry.worker.ts\<close>: the requests for a signed mandate, the upload of
  the file by the client through a link or by the firm, its verification and rejection. Mails are
  sent after the writes and their failures are swallowed, so they are left out. The two halves of a
  client's confirmation, the conditional update that claims the request and the promotion that
  follows it, are separate definitions because other calls may run in between.
\<close>

section \<open>Cases that take uploads\<close>

definition OPEN_CASE_STATUSES :: "DocCaseStatus list" where
  "OPEN_CASE_STATUSES = [DC_INCOMING, DC_ACTIVE]"

definition SHUT_STATUSES :: "DocCaseStatus list" where
  "SHUT_STATUSES = [DC_CLOSED_NO_DOCS, DC_CLOSED, DC_CANCELLED]"

definition case_of :: "string \<Rightarrow> string \<Rightarrow> db \<Rightarrow> DocCase option" where
  "case_of caseId tenant d = find_first (\<lambda>c. dc_id c = caseId \<and> dc_tenantId c = tenant) (docCases d)"

definition accepts_uploads :: "string \<Rightarrow> string \<Rightarrow> db \<Rightarrow> bool" where
  "accepts_uploads caseId tenant d =
     (case case_of caseId tenant d of
        None \<Rightarrow> False
      | Some c \<Rightarrow> dc_deletedAt c = None \<and> dc_status c \<notin> set SHUT_STATUSES)"

definition assertCaseAcceptsUploads :: "string \<Rightarrow> string \<Rightarrow> db \<Rightarrow> app_error + unit" where
  "assertCaseAcceptsUploads caseId tenant d = ensure (accepts_uploads caseId tenant d) CaseClosedError"

definition lead_email :: "DocCase \<Rightarrow> db \<Rightarrow> string option" where
  "lead_email c d = (case find_first (\<lambda>l. ld_id l = dc_leadId c) (leads d) of None \<Rightarrow> None | Some l \<Rightarrow> ld_email l)"

definition masked :: "string option \<Rightarrow> string option" where
  "masked email = (if falsy email then None else map_option maskEmail email)"

section \<open>Requests\<close>

definition new_request :: "env \<Rightarrow> TenantContext \<Rightarrow> string \<Rightarrow> string \<Rightarrow> string option \<Rightarrow> string \<Rightarrow> string option \<Rightarrow> MandateRequest" where
  "new_request E ctx caseId mandateType description tokenHash email =
     \<lparr>mr_id = ev_uuid E 1, mr_tenantId = tenantId ctx, mr_caseId = caseId, mr_mandateType = mandateType,
      mr_description = description, mr_status = MR_PENDING_UPLOAD, mr_uploadTokenHash = tokenHash,
      mr_tokenExpiresAt = tokenExpiry (ev_clock E 0), mr_maxFileSizeBytes = 5242880,
      mr_allowedTypes = [''application/pdf'', ''image/jpeg'', ''image/png''], mr_sentToEmail = email, mr_sentByUserId = userId ctx,
      mr_verifiedAt = None, mr_verifiedBy = None, mr_rejectedAt = None, mr_rejectedBy = None, mr_rejectionReason = None,
      mr_supersededBy = None, mr_createdAt = ev_clock E 1\<rparr>"

text \<open>The hash of the token is a unique column.\<close>

definition insert_request :: "MandateRequest \<Rightarrow> db \<Rightarrow> app_error + db" where
  "insert_request r d =
     (if (\<exists>q \<in> set (mandateRequests d). mr_uploadTokenHash q = mr_uploadTokenHash r) then Inl UniqueViolation
      else Inr (d\<lparr>mandateRequests := mandateRequests d @ [r]\<rparr>))"

definition put_request :: "string \<Rightarrow> (MandateRequest \<Rightarrow> MandateRequest) \<Rightarrow> db \<Rightarrow> app_error + db" where
  "put_request i f d =
     res_bind (update_row (\<lambda>m. mr_id m = i) f (mandateRequests d)) (\<lambda>(_, ms). Inr (d\<lparr>mandateRequests := ms\<rparr>))"

definition uploads_of :: "string \<Rightarrow> db \<Rightarrow> MandateUpload list" where
  "uploads_of i d = filter (\<lambda>u. mu_mandateRequestId u = i) (mandateUploads d)"

definition loadRequest :: "TenantContext \<Rightarrow> string \<Rightarrow> db \<Rightarrow> app_error + MandateRequest" where
  "loadRequest ctx i d =
     or_throw (find_first (\<lambda>m. mr_id m = i \<and> mr_tenantId m = tenantId ctx) (mandateRequests d)) ResourceNotFoundError"

definition assertSingleUpload :: "string \<Rightarrow> db \<Rightarrow> app_error + unit" where
  "assertSingleUpload i d =
     ensure (length (uploads_of i d) \<le> 1) (Thrown ''INVARIANT VIOLATION: multiple uploads for a single mandate request'')"

definition mandate_audit :: "string \<Rightarrow> string \<Rightarrow> string \<Rightarrow> string option \<Rightarrow> string \<Rightarrow> (string \<times> jsval) list \<Rightarrow> AuditAppendInput" where
  "mandate_audit tenant eventType i actor operation payload =
     audit_input tenant eventType ''MandateRequest'' i actor operation payload"

text \<open>The row of a call without a user, which carries the address of the caller.\<close>

definition public_audit :: "string \<Rightarrow> string \<Rightarrow> string \<Rightarrow> string \<Rightarrow> string \<Rightarrow> (string \<times> jsval) list \<Rightarrow> AuditAppendInput" where
  "public_audit tenant eventType i ip agent payload =
     (mandate_audit tenant eventType i None ''UPDATE'' payload)\<lparr>au_actorIp := Some ip, au_actorUserAgent := Some agent\<rparr>"

section \<open>Sending a request\<close>

text \<open>The newest request of the case that is neither verified, superseded nor expired.\<close>

definition active_request :: "TenantContext \<Rightarrow> string \<Rightarrow> db \<Rightarrow> MandateRequest option" where
  "active_request ctx caseId d =
     find_first (\<lambda>_. True) (sort_key (\<lambda>m. - mr_createdAt m)
       (filter (\<lambda>m. mr_caseId m = caseId \<and> mr_tenantId m = tenantId ctx \<and> mr_status m \<notin> {MR_VERIFIED, MR_SUPERSEDED, MR_EXPIRED})
          (mandateRequests d)))"

definition supersede_active :: "env \<Rightarrow> TenantContext \<Rightarrow> string \<Rightarrow> db \<Rightarrow> app_error + db" where
  "supersede_active E ctx caseId d =
     (case active_request ctx caseId d of
        None \<Rightarrow> Inr d
      | Some old \<Rightarrow>
          res_bind (ensure (mr_status old \<noteq> MR_UPLOADED)
            (BusinessRuleViolationError ''Verify or reject the existing upload before sending a new mandate.'')) (\<lambda>_.
          res_bind (put_request (mr_id old) (\<lambda>m. m\<lparr>mr_status := MR_SUPERSEDED, mr_supersededBy := Some caseId\<rparr>) d) (\<lambda>d1.
          audit_tx E 3 (mandate_audit (tenantId ctx) ''MANDATE_SUPERSEDED'' (mr_id old) (Some (userId ctx)) ''UPDATE''
              [(''supersededRequestId'', JStr (mr_id old)), (''newStatus'', JStr ''SUPERSEDED'')])
            (case_event E 2 (tenantId ctx) caseId MANDATE_SUPERSEDED (Some (userId ctx))
               [(''supersededRequestId'', JStr (mr_id old))] d1))))"

definition send_tx :: "services \<Rightarrow> TenantContext \<Rightarrow> string \<Rightarrow> string \<Rightarrow> string option \<Rightarrow> MandateRequest tx" where
  "send_tx S ctx caseId mandateType description d =
     (let E = sv_env S in
      res_bind (loadCase ctx caseId d) (\<lambda>docCase.
      res_bind (ensure (dc_status docCase \<in> set OPEN_CASE_STATUSES) (BusinessRuleViolationError ''Mandates can only be sent for open cases.'')) (\<lambda>_.
      res_bind (supersede_active E ctx caseId d) (\<lambda>d1.
      let email = lead_email docCase d;
          request = new_request E ctx caseId mandateType description (hashUploadToken (sv_sha256 S) (ev_token E)) email
      in res_bind (insert_request request d1) (\<lambda>d2.
         res_bind (audit_tx E 5 (mandate_audit (tenantId ctx) ''MANDATE_SENT'' (mr_id request) (Some (userId ctx)) ''CREATE''
             [(''mandateType'', JStr mandateType), (''caseId'', JStr caseId), (''sentToEmail'', jopt (masked email))])
           (case_event E 4 (tenantId ctx) caseId MANDATE_SENT (Some (userId ctx))
              [(''mandateRequestId'', JStr (mr_id request)), (''mandateType'', JStr mandateType), (''sentToEmail'', jopt (masked email))] d2)) (\<lambda>d3.
         Inr (request, d3)))))))"

record SentLink =
  sl_mandateRequestId :: string
  sl_uploadToken :: string
  sl_expiresAt :: date

definition link_of :: "services \<Rightarrow> MandateRequest \<Rightarrow> SentLink" where
  "link_of S request =
     \<lparr>sl_mandateRequestId = mr_id request, sl_uploadToken = ev_token (sv_env S), sl_expiresAt = tokenExpiry (ev_clock (sv_env S) 0)\<rparr>"

definition sendMandateRequest :: "services \<Rightarrow> TenantContext \<Rightarrow> string \<Rightarrow> string \<Rightarrow> string option \<Rightarrow> SentLink act" where
  "sendMandateRequest S ctx caseId mandateType description =
     act_bind (act_tx (send_tx S ctx caseId mandateType description)) (\<lambda>request. act_return (link_of S request))"

section \<open>The upload of a client\<close>

definition request_of_token :: "string \<Rightarrow> db \<Rightarrow> app_error + MandateRequest" where
  "request_of_token tokenHash d =
     or_throw (find_first (\<lambda>m. mr_uploadTokenHash m = tokenHash) (mandateRequests d)) ResourceNotFoundError"

fun not_pending_message :: "MandateRequestStatus \<Rightarrow> string" where
  "not_pending_message MR_UPLOADED = ''Document already uploaded.''"
| "not_pending_message MR_VERIFIED = ''This mandate has been verified.''"
| "not_pending_message MR_EXPIRED = ''This upload link has expired.''"
| "not_pending_message _ = ''This mandate request is no longer active.''"

definition joined :: "string list \<Rightarrow> string" where
  "joined ts = concat (map (\<lambda>(i, t). (if i = 0 then [] else '', '') @ t) (enumerate 0 ts))"

record FileInfo =
  fi_fileName :: string
  fi_contentType :: string
  fi_fileSizeBytes :: int

definition check_file :: "string list \<Rightarrow> int \<Rightarrow> FileInfo \<Rightarrow> app_error + unit" where
  "check_file types maxSize info =
     res_bind (ensure (fi_contentType info \<in> set types)
       (ValidationError (''File type '' @ fi_contentType info @ '' is not accepted. Allowed: '' @ joined types))) (\<lambda>_.
     ensure (fi_fileSizeBytes info \<le> maxSize) (ValidationError (''File size exceeds the '' @ int_str maxSize @ '' byte limit.'')))"

record UploadUrl =
  uu_uploadUrl :: string
  uu_uploadId :: string
  uu_expiresAt :: date

definition generateUploadUrl :: "services \<Rightarrow> string \<Rightarrow> FileInfo \<Rightarrow> UploadUrl act" where
  "generateUploadUrl S tokenHash info =
     act_bind (upload_limit S tokenHash) (\<lambda>_.
     act_bind (act_read (request_of_token tokenHash)) (\<lambda>request.
     act_bind (act_read (assertCaseAcceptsUploads (mr_caseId request) (mr_tenantId request))) (\<lambda>_.
     act_bind (act_ensure (mr_status request = MR_PENDING_UPLOAD) (BusinessRuleViolationError (not_pending_message (mr_status request)))) (\<lambda>_.
     act_bind (act_ensure (\<not> isTokenExpired (ev_clock (sv_env S) 10) (mr_tokenExpiresAt request))
        (BusinessRuleViolationError ''This upload link has expired.'')) (\<lambda>_.
     act_bind (act_read (\<lambda>_. check_file (mr_allowedTypes request) (mr_maxFileSizeBytes request) info)) (\<lambda>_.
     let uploadId = ev_uuid (sv_env S) 11
     in act_bind (presign S 0 (mandateStagingKey (mr_tenantId request) (mr_id request) uploadId (fi_fileName info)) PRESIGNED_URL_SECONDS) (\<lambda>(url, ends).
        act_return \<lparr>uu_uploadUrl = url, uu_uploadId = uploadId, uu_expiresAt = ends\<rparr>)))))))"

text \<open>A notification to the staff member of a case, if it has one.\<close>

definition notify_staff :: "services \<Rightarrow> nat \<Rightarrow> string \<Rightarrow> string \<Rightarrow> string option \<Rightarrow> string \<Rightarrow> string \<Rightarrow> string \<Rightarrow> unit act" where
  "notify_staff S k tenant caseId skipUser title before after w =
     (case find_first (\<lambda>c. dc_id c = caseId) (docCases (wd w)) of
        Some c \<Rightarrow>
          if falsy (dc_assignedTo c) \<or> dc_assignedTo c = skipUser then (Inr (), w)
          else (Inr (), w\<lparr>wn := Notification_Service.create (sv_env S) k
            \<lparr>nt_tenantId = tenant, nt_recipientUserId = or_empty (dc_assignedTo c), nt_type = ''MANDATE_UPLOAD_RECEIVED'',
             nt_title = title,
             nt_message = before @ (if falsy (dc_caseNumber c) then caseId else or_empty (dc_caseNumber c)) @ after,
             nt_actionUrl = ''/documentation/cases/'' @ caseId\<rparr> (wn w)\<rparr>)
      | None \<Rightarrow> (Inr (), w))"

text \<open>\<^verbatim>\<open>updateMany\<close> on the request while it is still open: whether this call moved it.\<close>

definition claim :: "MandateRequest \<Rightarrow> (MandateRequest \<Rightarrow> MandateRequest) \<Rightarrow> bool act" where
  "claim request f w =
     (case update_many (\<lambda>m. mr_id m = mr_id request \<and> mr_tenantId m = mr_tenantId request \<and> mr_status m = MR_PENDING_UPLOAD)
         f (mandateRequests (wd w)) of
        (ms, n) \<Rightarrow> (Inr (n = 1), w\<lparr>wd := (wd w)\<lparr>mandateRequests := ms\<rparr>\<rparr>))"

definition infected_record :: "env \<Rightarrow> MandateRequest \<Rightarrow> string \<Rightarrow> string \<Rightarrow> string \<Rightarrow> string \<Rightarrow> bool \<Rightarrow> unit tx" where
  "infected_record E request uploadId safeName ip agent deleteFailed d =
     res_bind (audit_tx E 13 (public_audit (mr_tenantId request) ''MANDATE_UPLOAD_REJECTED_INFECTED'' (mr_id request) ip agent
         [(''uploadId'', JStr uploadId), (''reason'', JStr ''FAILED_SECURITY_SCAN''), (''fileName'', JStr safeName), (''stagingDeleteFailed'', JBool deleteFailed)])
       (case_event E 12 (mr_tenantId request) (mr_caseId request) MANDATE_REJECTED None
          [(''mandateRequestId'', JStr (mr_id request)), (''uploadId'', JStr uploadId), (''reason'', JStr ''FAILED_SECURITY_SCAN''),
           (''fileName'', JStr safeName)] d)) (\<lambda>d1. Inr ((), d1))"

definition handleInfectedUpload :: "services \<Rightarrow> MandateRequest \<Rightarrow> string \<Rightarrow> string \<Rightarrow> string \<Rightarrow> string \<Rightarrow> string \<Rightarrow> unit act" where
  "handleInfectedUpload S request stagingKey uploadId safeName ip agent =
     act_bind (act_try (deleteObject S 6 stagingKey)) (\<lambda>deleted.
     act_bind (claim request (\<lambda>m. m\<lparr>mr_status := MR_REJECTED, mr_rejectedAt := Some (ev_clock (sv_env S) 14),
        mr_rejectionReason := Some ''Uploaded file failed a security scan.''\<rparr>)) (\<lambda>rejected.
     if \<not> rejected then act_return ()
     else act_bind (act_tx (infected_record (sv_env S) request uploadId safeName ip agent (isl deleted))) (\<lambda>_.
       notify_staff S 15 (mr_tenantId request) (mr_caseId request) None ''Mandate upload rejected''
         ''A mandate upload for case '' '' was rejected by the security scanner.'')))"

text \<open>
  A confirmation runs without a transaction around it: it checks the request, checks the head and the
  bytes of the staged object, claims the request with one conditional update, copies the object and
  records the upload, and other calls can come between any two of these. The first three are the
  checks: the request, the key and the head of the staged object.
\<close>

definition confirm_request :: "services \<Rightarrow> string \<Rightarrow> MandateRequest act" where
  "confirm_request S tokenHash =
     act_bind (upload_limit S tokenHash) (\<lambda>_.
     act_bind (act_read (request_of_token tokenHash)) (\<lambda>request.
     act_bind (act_read (assertCaseAcceptsUploads (mr_caseId request) (mr_tenantId request))) (\<lambda>_.
     act_bind (act_ensure (mr_status request = MR_PENDING_UPLOAD \<and> \<not> isTokenExpired (ev_clock (sv_env S) 10) (mr_tokenExpiresAt request))
        (BusinessRuleViolationError ''This mandate request is no longer accepting uploads.'')) (\<lambda>_.
     act_return request))))"

definition confirm_gates :: "services \<Rightarrow> string \<Rightarrow> string \<Rightarrow> string \<Rightarrow> string \<Rightarrow> string \<Rightarrow> (MandateRequest \<times> string \<times> Head) act" where
  "confirm_gates S tokenHash uploadId fileName ip agent =
     act_bind (confirm_request S tokenHash) (\<lambda>request.
     let safeName = sanitizeFileName fileName;
         stagingKey = mandateStagingKey (mr_tenantId request) (mr_id request) uploadId safeName
     in act_bind (gate_staged S (mr_maxFileSizeBytes request) (\<lambda>t. t \<in> set (mr_allowedTypes request)) stagingKey
           (handleInfectedUpload S request stagingKey uploadId safeName ip agent)) (\<lambda>(_, head).
        act_return (request, stagingKey, head)))"

definition client_upload :: "env \<Rightarrow> MandateRequest \<Rightarrow> string \<Rightarrow> string \<Rightarrow> Head \<Rightarrow> string \<Rightarrow> string \<Rightarrow> MandateUpload" where
  "client_upload E request finalKey safeName head ip agent =
     \<lparr>mu_id = ev_uuid E 20, mu_tenantId = mr_tenantId request, mu_mandateRequestId = mr_id request, mu_storageKey = finalKey,
      mu_fileName = safeName, mu_contentType = or_empty (hd_contentType head), mu_fileSizeBytes = hd_contentLength head,
      mu_uploadedAt = ev_clock E 20, mu_uploadIp = Some ip, mu_uploadUserAgent = Some agent, mu_uploadId = None,
      mu_uploadedByParty = UP_CLIENT, mu_sourceChannel = CH_CLIENT_PORTAL, mu_uploadedByUserId = None, mu_internalNote = None,
      mu_expiresAt = None\<rparr>"

definition confirm_record :: "env \<Rightarrow> MandateRequest \<Rightarrow> string \<Rightarrow> string \<Rightarrow> string \<Rightarrow> Head \<Rightarrow> string \<Rightarrow> string \<Rightarrow> unit tx" where
  "confirm_record E request uploadId finalKey safeName head ip agent d =
     (let d1 = d\<lparr>mandateUploads := mandateUploads d @ [client_upload E request finalKey safeName head ip agent]\<rparr>;
          size = jint (hd_contentLength head)
      in res_bind (audit_tx E 22 (public_audit (mr_tenantId request) ''MANDATE_UPLOADED'' (mr_id request) ip agent
            [(''uploadId'', JStr uploadId), (''fileName'', JStr safeName), (''contentType'', JStr (or_empty (hd_contentType head))), (''fileSizeBytes'', size)])
          (case_event E 21 (mr_tenantId request) (mr_caseId request) MANDATE_UPLOADED None
             [(''mandateRequestId'', JStr (mr_id request)), (''uploadId'', JStr uploadId), (''fileName'', JStr safeName), (''fileSizeBytes'', size)] d1)) (\<lambda>d2.
         Inr ((), d2)))"

text \<open>What a confirmation that claimed the request does next.\<close>

definition confirm_finish :: "services \<Rightarrow> MandateRequest \<Rightarrow> string \<Rightarrow> string \<Rightarrow> string \<Rightarrow> Head \<Rightarrow> string \<Rightarrow> string \<Rightarrow> unit act" where
  "confirm_finish S request uploadId safeName stagingKey head ip agent =
     (let finalKey = mandateFinalKey (mr_tenantId request) (mr_id request) uploadId safeName
      in act_bind (promote S stagingKey finalKey) (\<lambda>_.
         act_bind (act_tx (confirm_record (sv_env S) request uploadId finalKey safeName head ip agent)) (\<lambda>_.
         notify_staff S 23 (mr_tenantId request) (mr_caseId request) None ''Mandate uploaded'' ''A mandate document was uploaded for case '' ''.'')))"

text \<open>The whole call, when nothing comes in between.\<close>

definition confirmUpload :: "services \<Rightarrow> string \<Rightarrow> string \<Rightarrow> string \<Rightarrow> string \<Rightarrow> string \<Rightarrow> (string \<times> string) act" where
  "confirmUpload S tokenHash uploadId fileName ip agent =
     act_bind (confirm_gates S tokenHash uploadId fileName ip agent) (\<lambda>(request, stagingKey, head).
     act_bind (claim request (\<lambda>m. m\<lparr>mr_status := MR_UPLOADED\<rparr>)) (\<lambda>won.
     if \<not> won then act_return (uploadId, ''CONFLICT'')
     else act_bind (confirm_finish S request uploadId (sanitizeFileName fileName) stagingKey head ip agent) (\<lambda>_.
       act_return (uploadId, ''UPLOADED''))))"

section \<open>The upload by the firm\<close>

definition case_exists :: "TenantContext \<Rightarrow> string \<Rightarrow> db \<Rightarrow> app_error + unit" where
  "case_exists ctx caseId d = res_bind (loadCase ctx caseId d) (\<lambda>_. Inr ())"

definition firmUploadUrl :: "services \<Rightarrow> TenantContext \<Rightarrow> string \<Rightarrow> FileInfo \<Rightarrow> UploadUrl act" where
  "firmUploadUrl S ctx caseId info =
     act_bind (act_read (case_exists ctx caseId)) (\<lambda>_.
     act_bind (act_read (assertCaseAcceptsUploads caseId (tenantId ctx))) (\<lambda>_.
     act_bind (act_read (\<lambda>_. check_file ALLOWED_CONTENT_TYPES MAX_FILE_SIZE_BYTES info)) (\<lambda>_.
     let uploadId = ev_uuid (sv_env S) 11
     in act_bind (presign S 0 (mandateFirmStagingKey (tenantId ctx) caseId uploadId (fi_fileName info)) PRESIGNED_URL_SECONDS) (\<lambda>(url, ends).
        act_return \<lparr>uu_uploadUrl = url, uu_uploadId = uploadId, uu_expiresAt = ends\<rparr>))))"

record FirmUpload =
  fm_uploadId :: string
  fm_fileName :: string
  fm_mandateType :: "string option"
  fm_sourceChannel :: DocumentSourceChannel
  fm_internalNote :: "string option"
  fm_expiresAt :: "date option"
  fm_verify :: bool

record FirmResult =
  fr_mandateRequestId :: string
  fr_uploadId :: string
  fr_status :: string

definition status_word :: "MandateRequestStatus option \<Rightarrow> string" where
  "status_word st = (if st = Some MR_VERIFIED then ''VERIFIED'' else ''UPLOADED'')"

text \<open>The result of an earlier confirmation of the same upload.\<close>

definition firm_replay :: "TenantContext \<Rightarrow> string \<Rightarrow> db \<Rightarrow> FirmResult option" where
  "firm_replay ctx uploadId d =
     map_option (\<lambda>u. \<lparr>fr_mandateRequestId = mu_mandateRequestId u, fr_uploadId = uploadId,
        fr_status = status_word (map_option mr_status (find_first (\<lambda>m. mr_id m = mu_mandateRequestId u) (mandateRequests d)))\<rparr>)
       (find_first (\<lambda>u. mu_uploadId u = Some uploadId \<and> mu_tenantId u = tenantId ctx) (mandateUploads d))"

definition firm_infected :: "services \<Rightarrow> TenantContext \<Rightarrow> string \<Rightarrow> FirmUpload \<Rightarrow> string \<Rightarrow> string \<Rightarrow> unit act" where
  "firm_infected S ctx caseId inp stagingKey safeName =
     act_bind (act_try (deleteObject S 6 stagingKey)) (\<lambda>_.
     act_tx (\<lambda>d. res_bind (audit_log_tx (sv_env S) 30 (audit_input (tenantId ctx) ''MANDATE_FIRM_UPLOAD_REJECTED_INFECTED'' ''DocCase'' caseId
        (Some (userId ctx)) ''CREATE'' [(''uploadId'', JStr (fm_uploadId inp)), (''reason'', JStr ''FAILED_SECURITY_SCAN''), (''fileName'', JStr safeName)]) d)
        (\<lambda>d1. Inr ((), d1))))"

definition SUPERSEDABLE :: "MandateRequestStatus list" where
  "SUPERSEDABLE = [MR_PENDING_UPLOAD, MR_UPLOADED, MR_REJECTED, MR_EXPIRED]"

definition of_case :: "TenantContext \<Rightarrow> string \<Rightarrow> MandateRequest \<Rightarrow> bool" where
  "of_case ctx caseId m \<longleftrightarrow> mr_caseId m = caseId \<and> mr_tenantId m = tenantId ctx"

definition firm_request :: "services \<Rightarrow> TenantContext \<Rightarrow> string \<Rightarrow> FirmUpload \<Rightarrow> bool \<Rightarrow> MandateRequest" where
  "firm_request S ctx caseId inp willVerify =
     (let E = sv_env S; wanted = trim (or_empty (fm_mandateType inp))
      in (new_request E ctx caseId (if wanted = [] then ''Mandate'' else wanted) None (hashUploadToken (sv_sha256 S) (ev_uuid E 31)) None)
         \<lparr>mr_tokenExpiresAt := ev_clock E 31, mr_status := (if willVerify then MR_VERIFIED else MR_UPLOADED),
          mr_verifiedAt := (if willVerify then Some (ev_clock E 32) else None), mr_verifiedBy := (if willVerify then Some (userId ctx) else None)\<rparr>)"

definition firm_upload :: "services \<Rightarrow> TenantContext \<Rightarrow> MandateRequest \<Rightarrow> FirmUpload \<Rightarrow> string \<Rightarrow> string \<Rightarrow> Head \<Rightarrow> MandateUpload" where
  "firm_upload S ctx request inp finalKey safeName head =
     \<lparr>mu_id = ev_uuid (sv_env S) 33, mu_tenantId = tenantId ctx, mu_mandateRequestId = mr_id request, mu_storageKey = finalKey,
      mu_fileName = safeName, mu_contentType = or_empty (hd_contentType head), mu_fileSizeBytes = hd_contentLength head,
      mu_uploadedAt = ev_clock (sv_env S) 33, mu_uploadIp = None, mu_uploadUserAgent = None, mu_uploadId = Some (fm_uploadId inp),
      mu_uploadedByParty = UP_FIRM, mu_sourceChannel = fm_sourceChannel inp, mu_uploadedByUserId = Some (userId ctx),
      mu_internalNote = fm_internalNote inp, mu_expiresAt = fm_expiresAt inp\<rparr>"

text \<open>The id of an upload is a unique column.\<close>

definition insert_upload :: "MandateUpload \<Rightarrow> db \<Rightarrow> app_error + db" where
  "insert_upload u d =
     (if mu_uploadId u \<noteq> None \<and> (\<exists>q \<in> set (mandateUploads d). mu_uploadId q = mu_uploadId u) then Inl UniqueViolation
      else Inr (d\<lparr>mandateUploads := mandateUploads d @ [u]\<rparr>))"

fun channel_name :: "DocumentSourceChannel \<Rightarrow> string" where
  "channel_name CH_CLIENT_PORTAL = ''CLIENT_PORTAL''"
| "channel_name CH_WHATSAPP = ''WHATSAPP''"
| "channel_name CH_EMAIL = ''EMAIL''"
| "channel_name CH_PHYSICAL = ''PHYSICAL''"
| "channel_name CH_FIRM_UPLOAD = ''FIRM_UPLOAD''"
| "channel_name CH_OTHER = ''OTHER''"

definition retained_events :: "services \<Rightarrow> TenantContext \<Rightarrow> string \<Rightarrow> MandateRequest \<Rightarrow> string list \<Rightarrow> db \<Rightarrow> app_error + db" where
  "retained_events S ctx caseId request retained d =
     (case retained of
        [] \<Rightarrow> Inr d
      | first # _ \<Rightarrow>
          let payload = [(''caseId'', JStr caseId), (''newRequestId'', JStr (mr_id request)), (''retainedRequestIds'', JArr (map JStr retained))]
          in audit_tx (sv_env S) 37 (mandate_audit (tenantId ctx) ''MANDATE_VERIFIED_RETAINED'' first (Some (userId ctx)) ''UPDATE'' payload)
               (case_event (sv_env S) 36 (tenantId ctx) caseId MANDATE_VERIFIED_RETAINED (Some (userId ctx)) payload d))"

definition firm_tx :: "services \<Rightarrow> TenantContext \<Rightarrow> string \<Rightarrow> FirmUpload \<Rightarrow> bool \<Rightarrow> string \<Rightarrow> string \<Rightarrow> Head \<Rightarrow> MandateRequest tx" where
  "firm_tx S ctx caseId inp willVerify finalKey safeName head d =
     res_bind (loadCase ctx caseId d) (\<lambda>_.
     let E = sv_env S;
         request = firm_request S ctx caseId inp willVerify;
         retained = map mr_id (filter (\<lambda>m. of_case ctx caseId m \<and> mr_status m = MR_VERIFIED) (mandateRequests d));
         d1 = d\<lparr>mandateRequests := fst (update_many (\<lambda>m. of_case ctx caseId m \<and> mr_status m \<in> set SUPERSEDABLE)
                (\<lambda>m. m\<lparr>mr_status := MR_SUPERSEDED, mr_supersededBy := Some (mr_id request)\<rparr>) (mandateRequests d))\<rparr>
     in res_bind (insert_request request d1) (\<lambda>d2.
        res_bind (insert_upload (firm_upload S ctx request inp finalKey safeName head) d2) (\<lambda>d3.
        res_bind (audit_tx E 35 (mandate_audit (tenantId ctx) ''MANDATE_FIRM_UPLOADED'' (mr_id request) (Some (userId ctx)) ''CREATE''
            [(''uploadId'', JStr (fm_uploadId inp)), (''sourceChannel'', JStr (channel_name (fm_sourceChannel inp))), (''verified'', JBool willVerify),
             (''previousStatus'', JNull), (''newStatus'', JStr (status_word (Some (mr_status request))))])
          (case_event E 34 (tenantId ctx) caseId MANDATE_FIRM_UPLOADED (Some (userId ctx))
            [(''mandateRequestId'', JStr (mr_id request)), (''uploadId'', JStr (fm_uploadId inp)), (''fileName'', JStr safeName),
             (''sourceChannel'', JStr (channel_name (fm_sourceChannel inp))), (''verified'', JBool willVerify)] d3)) (\<lambda>d4.
        res_bind (retained_events S ctx caseId request retained d4) (\<lambda>d5. Inr (request, d5))))))"

text \<open>
  The transaction with what follows it: when another call has confirmed the same upload first, its
  result is returned.
\<close>

definition firm_commit :: "services \<Rightarrow> TenantContext \<Rightarrow> string \<Rightarrow> FirmUpload \<Rightarrow> bool \<Rightarrow> string \<Rightarrow> string \<Rightarrow> Head \<Rightarrow> FirmResult act" where
  "firm_commit S ctx caseId inp willVerify finalKey safeName head =
     act_bind (act_try (act_tx (firm_tx S ctx caseId inp willVerify finalKey safeName head))) (\<lambda>r. case r of
        Inr request \<Rightarrow>
          act_bind (act_try (notify_staff S 38 (tenantId ctx) caseId (Some (userId ctx)) ''Mandate uploaded by firm''
             ''A mandate document was uploaded for case '' ''.'')) (\<lambda>_.
          act_return \<lparr>fr_mandateRequestId = mr_id request, fr_uploadId = fm_uploadId inp, fr_status = status_word (Some (mr_status request))\<rparr>)
      | Inl e \<Rightarrow>
          act_read (\<lambda>d. case (if e = UniqueViolation then firm_replay ctx (fm_uploadId inp) d else None) of
             Some won \<Rightarrow> Inr won | None \<Rightarrow> Inl e))"

definition firmConfirmUpload :: "services \<Rightarrow> TenantContext \<Rightarrow> string \<Rightarrow> FirmUpload \<Rightarrow> bool \<Rightarrow> FirmResult act" where
  "firmConfirmUpload S ctx caseId inp canVerify =
     act_bind (act_read (\<lambda>d. Inr (firm_replay ctx (fm_uploadId inp) d))) (\<lambda>replay. case replay of
        Some r \<Rightarrow> act_return r
      | None \<Rightarrow>
          act_bind (act_ensure (\<not> (fm_verify inp \<and> \<not> canVerify)) AuthorizationError) (\<lambda>_.
          act_bind (act_read (case_exists ctx caseId)) (\<lambda>_.
          act_bind (act_read (assertCaseAcceptsUploads caseId (tenantId ctx))) (\<lambda>_.
          let safeName = sanitizeFileName (fm_fileName inp);
              stagingKey = mandateFirmStagingKey (tenantId ctx) caseId (fm_uploadId inp) safeName;
              finalKey = mandateFinalKey (tenantId ctx) (ev_uuid (sv_env S) 1) (fm_uploadId inp) safeName
          in act_bind (gate_staged S MAX_FILE_SIZE_BYTES isAllowedContentType stagingKey (firm_infected S ctx caseId inp stagingKey safeName)) (\<lambda>(_, head).
             act_bind (promote S stagingKey finalKey) (\<lambda>_.
             firm_commit S ctx caseId inp (fm_verify inp \<and> canVerify) finalKey safeName head))))))"

section \<open>Verification and rejection\<close>

definition verify_tx :: "env \<Rightarrow> TenantContext \<Rightarrow> string \<Rightarrow> MandateRequestStatus tx" where
  "verify_tx E ctx i d =
     res_bind (loadRequest ctx i d) (\<lambda>request.
     res_bind (ensure (mr_status request = MR_UPLOADED) (BusinessRuleViolationError ''Only uploaded mandates can be verified.'')) (\<lambda>_.
     res_bind (assertSingleUpload i d) (\<lambda>_.
     res_bind (put_request i (\<lambda>m. m\<lparr>mr_status := MR_VERIFIED, mr_verifiedAt := Some (ev_clock E 40), mr_verifiedBy := Some (userId ctx)\<rparr>) d) (\<lambda>d1.
     res_bind (audit_tx E 42 (mandate_audit (tenantId ctx) ''MANDATE_VERIFIED'' i (Some (userId ctx)) ''UPDATE'' [(''mandateRequestId'', JStr i)])
        (case_event E 41 (tenantId ctx) (mr_caseId request) MANDATE_VERIFIED (Some (userId ctx)) [(''mandateRequestId'', JStr i)] d1)) (\<lambda>d2.
     Inr (MR_VERIFIED, d2))))))"

definition reject_tx :: "env \<Rightarrow> TenantContext \<Rightarrow> string \<Rightarrow> string \<Rightarrow> MandateRequestStatus tx" where
  "reject_tx E ctx i why d =
     res_bind (loadRequest ctx i d) (\<lambda>request.
     res_bind (ensure (mr_status request = MR_UPLOADED) (BusinessRuleViolationError ''Only uploaded mandates can be rejected.'')) (\<lambda>_.
     res_bind (assertSingleUpload i d) (\<lambda>_.
     res_bind (put_request i (\<lambda>m. m\<lparr>mr_status := MR_REJECTED, mr_rejectedAt := Some (ev_clock E 40), mr_rejectedBy := Some (userId ctx),
         mr_rejectionReason := Some why\<rparr>) d) (\<lambda>d1.
     res_bind (audit_tx E 42 (mandate_audit (tenantId ctx) ''MANDATE_REJECTED'' i (Some (userId ctx)) ''UPDATE'' [(''mandateRequestId'', JStr i), (''reason'', JStr why)])
        (case_event E 41 (tenantId ctx) (mr_caseId request) MANDATE_REJECTED (Some (userId ctx)) [(''mandateRequestId'', JStr i), (''reason'', JStr why)] d1)) (\<lambda>d2.
     Inr (MR_REJECTED, d2))))))"

definition verifyMandate :: "services \<Rightarrow> TenantContext \<Rightarrow> string \<Rightarrow> MandateRequestStatus act" where
  "verifyMandate S ctx i = act_tx (verify_tx (sv_env S) ctx i)"

definition rejectMandate :: "services \<Rightarrow> TenantContext \<Rightarrow> string \<Rightarrow> string \<Rightarrow> MandateRequestStatus act" where
  "rejectMandate S ctx i why = act_tx (reject_tx (sv_env S) ctx i why)"

section \<open>A new link\<close>

definition regenerate_tx :: "services \<Rightarrow> TenantContext \<Rightarrow> string \<Rightarrow> MandateRequest tx" where
  "regenerate_tx S ctx i d =
     (let E = sv_env S in
      res_bind (loadRequest ctx i d) (\<lambda>old.
      res_bind (ensure (accepts_uploads (mr_caseId old) (tenantId ctx) d) (BusinessRuleViolationError ''Cannot regenerate a link for a closed case.'')) (\<lambda>_.
      res_bind (ensure (mr_status old \<in> {MR_PENDING_UPLOAD, MR_EXPIRED, MR_REJECTED})
         (BusinessRuleViolationError ''Cannot regenerate link for this mandate request.'')) (\<lambda>_.
      res_bind (put_request i (\<lambda>m. m\<lparr>mr_status := MR_SUPERSEDED\<rparr>) d) (\<lambda>d1.
      let request = new_request E ctx (mr_caseId old) (mr_mandateType old) (mr_description old)
            (hashUploadToken (sv_sha256 S) (ev_token E)) (mr_sentToEmail old)
      in res_bind (insert_request request d1) (\<lambda>d2.
      let links = [(''oldRequestId'', JStr i), (''newRequestId'', JStr (mr_id request))];
          d3 = case_event E 51 (tenantId ctx) (mr_caseId old) MANDATE_SUPERSEDED (Some (userId ctx)) [(''supersededRequestId'', JStr i)]
                 (case_event E 50 (tenantId ctx) (mr_caseId old) MANDATE_LINK_REGENERATED (Some (userId ctx)) links d2)
      in res_bind (audit_tx E 52 (mandate_audit (tenantId ctx) ''MANDATE_LINK_REGENERATED'' (mr_id request) (Some (userId ctx)) ''CREATE'' links) d3) (\<lambda>d4.
      res_bind (audit_tx E 53 (mandate_audit (tenantId ctx) ''MANDATE_SUPERSEDED'' i (Some (userId ctx)) ''UPDATE'' [(''supersededBy'', JStr (mr_id request))]) d4) (\<lambda>d5.
      Inr (request, d5)))))))))"

definition regenerateLink :: "services \<Rightarrow> TenantContext \<Rightarrow> string \<Rightarrow> SentLink act" where
  "regenerateLink S ctx i = act_bind (act_tx (regenerate_tx S ctx i)) (\<lambda>request. act_return (link_of S request))"

section \<open>Reading\<close>

record MandateView =
  vu_viewUrl :: string
  vu_fileName :: string
  vu_contentType :: string
  vu_fileSizeBytes :: int
  vu_expiresAt :: date

definition getViewUrl :: "services \<Rightarrow> TenantContext \<Rightarrow> string \<Rightarrow> MandateView act" where
  "getViewUrl S ctx uploadId =
     act_bind (act_read (\<lambda>d. or_throw (find_first (\<lambda>u. mu_id u = uploadId \<and> mu_tenantId u = tenantId ctx) (mandateUploads d)) ResourceNotFoundError)) (\<lambda>u.
     act_bind (presign S 0 (mu_storageKey u) 900) (\<lambda>(url, ends).
     act_return \<lparr>vu_viewUrl = url, vu_fileName = mu_fileName u, vu_contentType = mu_contentType u, vu_fileSizeBytes = mu_fileSizeBytes u,
       vu_expiresAt = ends\<rparr>))"

record UploadRow =
  ur_id :: string
  ur_fileName :: string
  ur_contentType :: string
  ur_fileSizeBytes :: int
  ur_uploadedAt :: date
  ur_uploadedByParty :: UploadedByParty
  ur_sourceChannel :: DocumentSourceChannel
  ur_uploadedByUserId :: "string option"
  ur_internalNote :: "string option"
  ur_expiresAt :: "date option"

record RequestRow =
  rr_id :: string
  rr_mandateType :: string
  rr_status :: MandateRequestStatus
  rr_sentToEmail :: "string option"
  rr_sentByUserId :: string
  rr_verifiedAt :: "date option"
  rr_verifiedBy :: "string option"
  rr_rejectedAt :: "date option"
  rr_rejectedBy :: "string option"
  rr_rejectionReason :: "string option"
  rr_tokenExpiresAt :: date
  rr_createdAt :: date
  rr_uploads :: "UploadRow list"

definition upload_row :: "MandateUpload \<Rightarrow> UploadRow" where
  "upload_row u =
     \<lparr>ur_id = mu_id u, ur_fileName = mu_fileName u, ur_contentType = mu_contentType u, ur_fileSizeBytes = mu_fileSizeBytes u,
      ur_uploadedAt = mu_uploadedAt u, ur_uploadedByParty = mu_uploadedByParty u, ur_sourceChannel = mu_sourceChannel u,
      ur_uploadedByUserId = mu_uploadedByUserId u, ur_internalNote = mu_internalNote u, ur_expiresAt = mu_expiresAt u\<rparr>"

definition request_row :: "db \<Rightarrow> MandateRequest \<Rightarrow> RequestRow" where
  "request_row d m =
     \<lparr>rr_id = mr_id m, rr_mandateType = mr_mandateType m, rr_status = mr_status m, rr_sentToEmail = masked (mr_sentToEmail m),
      rr_sentByUserId = mr_sentByUserId m, rr_verifiedAt = mr_verifiedAt m, rr_verifiedBy = mr_verifiedBy m,
      rr_rejectedAt = mr_rejectedAt m, rr_rejectedBy = mr_rejectedBy m, rr_rejectionReason = mr_rejectionReason m,
      rr_tokenExpiresAt = mr_tokenExpiresAt m, rr_createdAt = mr_createdAt m, rr_uploads = map upload_row (uploads_of (mr_id m) d)\<rparr>"

definition listForCase :: "TenantContext \<Rightarrow> string \<Rightarrow> db \<Rightarrow> app_error + RequestRow list" where
  "listForCase ctx caseId d =
     res_bind (loadCase ctx caseId d) (\<lambda>_.
     Inr (map (request_row d) (sort_key (\<lambda>m. - mr_createdAt m) (filter (of_case ctx caseId) (mandateRequests d)))))"

section \<open>The workers\<close>

text \<open>
  The expiry worker: the requests are updated on their own and stay updated when the audit row after
  them fails; the result is then 0. The first argument is the flag of a run in progress.
\<close>

definition expirePendingMandates :: "bool \<Rightarrow> env \<Rightarrow> db \<Rightarrow> nat \<times> db" where
  "expirePendingMandates isRunning E d =
     (if isRunning then (0, d)
      else let now = ev_clock E 60 in
        case update_many (\<lambda>m. mr_status m = MR_PENDING_UPLOAD \<and> mr_tokenExpiresAt m < now) (\<lambda>m. m\<lparr>mr_status := MR_EXPIRED\<rparr>) (mandateRequests d) of
          (ms, n) \<Rightarrow>
            let d1 = d\<lparr>mandateRequests := ms\<rparr>
            in if n = 0 then (0, d1)
               else case audit_log_tx E 61 (audit_input ''00000000-0000-0000-0000-000000000000'' ''MANDATE_EXPIRED_BATCH'' ''MandateRequest'' ''batch'' None ''UPDATE''
                   [(''expiredCount'', jint (int n)), (''runAt'', JStr (iso_string now))]) d1 of
                 Inl e \<Rightarrow> (0, d1) | Inr d2 \<Rightarrow> (n, d2))"

definition STAGING_PREFIXES :: "string list" where
  "STAGING_PREFIXES = [''doc-staging/'', ''mandate-firm-staging/'', ''mandate-staging/'']"

definition stale :: "date \<Rightarrow> string \<Rightarrow> StoredObject \<Rightarrow> bool" where
  "stale cutoff prefix b \<longleftrightarrow> starts_with prefix (ob_key b)
     \<and> (case ob_lastModified b of None \<Rightarrow> False | Some t \<Rightarrow> t < cutoff)"

text \<open>
  The sweep of the staging area: the pages of a listing, one call each, together give every object
  under the prefix; a failed listing ends the run, a failed delete does not. The deletes are numbered
  by the object, the listings by the prefix.
\<close>

fun sweep_objects :: "services \<Rightarrow> nat \<Rightarrow> string list \<Rightarrow> StoredObject list \<Rightarrow> nat \<times> StoredObject list" where
  "sweep_objects S k [] os = (0, os)"
| "sweep_objects S k (key # keys) os =
     (if sv_storage S k = None
      then (case sweep_objects S (k + 1) keys (filter (\<lambda>b. ob_key b \<noteq> key) os) of (n, os1) \<Rightarrow> (n + 1, os1))
      else sweep_objects S (k + 1) keys os)"

fun sweep_prefixes :: "services \<Rightarrow> date \<Rightarrow> nat \<Rightarrow> string list \<Rightarrow> StoredObject list \<Rightarrow> nat \<times> StoredObject list" where
  "sweep_prefixes S cutoff k [] os = (0, os)"
| "sweep_prefixes S cutoff k (prefix # rest) os =
     (if sv_storage S k \<noteq> None then (0, os)
      else let keys = map ob_key (filter (stale cutoff prefix) os)
           in case sweep_objects S (k + 1) keys os of
                (n, os1) \<Rightarrow> case sweep_prefixes S cutoff (k + 1 + length keys) rest os1 of (n', os2) \<Rightarrow> (n + n', os2))"

definition sweepStaleStagingObjects :: "bool \<Rightarrow> services \<Rightarrow> int \<Rightarrow> StoredObject list \<Rightarrow> nat \<times> StoredObject list" where
  "sweepStaleStagingObjects sweepRunning S retentionHours os =
     (if sweepRunning then (0, os)
      else sweep_prefixes S (ev_clock (sv_env S) 70 - retentionHours * 3600000) 100 STAGING_PREFIXES os)"

end
