(* ===== verification/Mandate_System.thy ===== *)
theory Mandate_System
  imports Mandate_Service Lifecycle_Service
begin

text \<open>
  The mandate requests under every operation of the program, run in any order and with the halves of
  overlapping confirmations interleaved: how the status of a request moves, that no request ever has
  two uploads, and what reaches the final area of the object store.
\<close>

section \<open>How one operation changes the requests and uploads\<close>

text \<open>
  The moves of the table of the domain, and one more: a request whose file is infected is rejected
  though it was never uploaded.
\<close>

definition mandate_move :: "MandateRequestStatus \<Rightarrow> MandateRequestStatus \<Rightarrow> bool" where
  "mandate_move a b \<longleftrightarrow> a = b \<or> canTransitionMandate a b \<or> (a = MR_PENDING_UPLOAD \<and> b = MR_REJECTED)"

definition keeps_request :: "MandateRequest \<Rightarrow> MandateRequest \<Rightarrow> bool" where
  "keeps_request r r' \<longleftrightarrow> mr_id r' = mr_id r \<and> mr_tenantId r' = mr_tenantId r \<and> mr_caseId r' = mr_caseId r
     \<and> mr_uploadTokenHash r' = mr_uploadTokenHash r \<and> mandate_move (mr_status r) (mr_status r')"

text \<open>The statuses of a request whose file was confirmed.\<close>

definition confirmed :: "MandateRequestStatus \<Rightarrow> bool" where
  "confirmed st \<longleftrightarrow> st \<in> {MR_UPLOADED, MR_VERIFIED, MR_REJECTED, MR_SUPERSEDED}"

lemma move_refl [simp]: "mandate_move a a"
  by (simp add: mandate_move_def)

lemma keeps_refl [simp]: "keeps_request r r"
  by (simp add: keeps_request_def mandate_move_def)

lemma confirmed_stays: "confirmed a \<Longrightarrow> mandate_move a b \<Longrightarrow> confirmed b"
  by (cases a) (auto simp: confirmed_def mandate_move_def canTransitionMandate_def)

text \<open>
  The shape of a change: the old rows move, at most one request is added, under the fresh id, and
  with it at most its own upload.
\<close>

definition change_shape :: "string \<Rightarrow> db \<Rightarrow> db \<Rightarrow> bool" where
  "change_shape i d d' \<longleftrightarrow> (\<exists>f ns us. mandateRequests d' = map f (mandateRequests d) @ ns
     \<and> (\<forall>r \<in> set (mandateRequests d). keeps_request r (f r)) \<and> mandateUploads d' = mandateUploads d @ us
     \<and> (ns = [] \<and> us = [] \<or> (\<exists>n. ns = [n] \<and> mr_id n = i \<and> (us = [] \<or> (\<exists>u. us = [u] \<and> mu_mandateRequestId u = i \<and> confirmed (mr_status n))))))"

lemma shape_same: "mandateRequests d' = mandateRequests d \<Longrightarrow> mandateUploads d' = mandateUploads d \<Longrightarrow> change_shape i d d'"
  unfolding change_shape_def by (intro exI [of _ id] exI [of _ "[]"]) simp

lemma shape_moved:
  assumes "mandateRequests d' = map f (mandateRequests d)" "\<forall>r \<in> set (mandateRequests d). keeps_request r (f r)"
    and "mandateUploads d' = mandateUploads d"
  shows "change_shape i d d'"
  unfolding change_shape_def by (intro exI [of _ f] exI [of _ "[]"]) (simp add: assms)

lemma shape_added:
  assumes "mandateRequests d' = map f (mandateRequests d) @ [n]" "\<forall>r \<in> set (mandateRequests d). keeps_request r (f r)"
    and "mr_id n = i" "mandateUploads d' = mandateUploads d @ us" "us = [] \<or> (\<exists>u. us = [u] \<and> mu_mandateRequestId u = i \<and> confirmed (mr_status n))"
  shows "change_shape i d d'"
  unfolding change_shape_def by (intro exI [of _ f] exI [of _ "[n]"] exI [of _ us]) (simp add: assms)

section \<open>Writes of one request\<close>

lemma put_request_Inr:
  "put_request i f d = Inr d' \<longleftrightarrow> find_first (\<lambda>m. mr_id m = i) (mandateRequests d) \<noteq> None
     \<and> d' = d\<lparr>mandateRequests := map (\<lambda>m. if mr_id m = i then f m else m) (mandateRequests d)\<rparr>"
  by (auto simp: put_request_def res_bind_Inr_iff update_row_Inr update_many_def)

lemma insert_request_Inr:
  "insert_request r d = Inr d' \<longleftrightarrow> (\<forall>q \<in> set (mandateRequests d). mr_uploadTokenHash q \<noteq> mr_uploadTokenHash r)
     \<and> d' = d\<lparr>mandateRequests := mandateRequests d @ [r]\<rparr>"
  by (auto simp: insert_request_def)

lemma loadRequest_Inr:
  "loadRequest ctx i d = Inr r \<Longrightarrow> r \<in> set (mandateRequests d) \<and> mr_id r = i \<and> mr_tenantId r = tenantId ctx"
  using find_first_SomeD by (fastforce simp: loadRequest_def)

lemma same_request:
  assumes "distinct (map mr_id ms)" "r \<in> set ms" "q \<in> set ms" "mr_id r = mr_id q"
  shows "r = q"
  using assms by (auto simp: distinct_map inj_on_def)

text \<open>One request moved by a write that keeps it.\<close>

lemma keeps_one:
  assumes "distinct (map mr_id ms)" "q \<in> set ms" "mr_id q = i" "keeps_request q (f q)"
  shows "\<forall>r \<in> set ms. keeps_request r (if mr_id r = i then f r else r)"
proof
  fix r assume r: "r \<in> set ms"
  show "keeps_request r (if mr_id r = i then f r else r)"
  proof (cases "mr_id r = i")
    case True
    then have "r = q" using same_request [OF assms(1) r assms(2)] assms(3) by metis
    then show ?thesis using assms(3,4) True by (simp only: if_True)
  next
    case False
    then show ?thesis by (simp only: if_False keeps_refl)
  qed
qed

lemma move_simps:
  "mandate_move MR_UPLOADED MR_VERIFIED" "mandate_move MR_UPLOADED MR_REJECTED" "mandate_move MR_PENDING_UPLOAD MR_UPLOADED"
  "mandate_move MR_PENDING_UPLOAD MR_REJECTED" "mandate_move MR_PENDING_UPLOAD MR_EXPIRED"
  "st \<noteq> MR_VERIFIED \<Longrightarrow> mandate_move st MR_SUPERSEDED"
  by (cases st; simp add: mandate_move_def canTransitionMandate_def)+

section \<open>The operations\<close>

lemma supersede_shape:
  assumes "supersede_active E ctx caseId d = Inr d'" "distinct (map mr_id (mandateRequests d))"
  shows "\<exists>f. mandateRequests d' = map f (mandateRequests d) \<and> (\<forall>r \<in> set (mandateRequests d). keeps_request r (f r))
    \<and> mandateUploads d' = mandateUploads d"
proof (cases "active_request ctx caseId d")
  case None
  then have "d' = d" using assms(1) by (simp add: supersede_active_def)
  then show ?thesis by (intro exI [of _ id]) simp
next
  case (Some old)
  let ?f = "\<lambda>m. m\<lparr>mr_status := MR_SUPERSEDED, mr_supersededBy := Some caseId\<rparr>"
  have "old \<in> set (filter (\<lambda>m. mr_caseId m = caseId \<and> mr_tenantId m = tenantId ctx \<and> mr_status m \<notin> {MR_VERIFIED, MR_SUPERSEDED, MR_EXPIRED})
          (mandateRequests d))"
    using find_first_SomeD [OF Some [unfolded active_request_def]] unfolding set_sort by (rule conjunct1)
  then have old: "old \<in> set (mandateRequests d)" "mr_status old \<noteq> MR_VERIFIED" by auto
  from assms(1) obtain d1 where p: "put_request (mr_id old) ?f d = Inr d1"
    and a: "audit_tx E 3 (mandate_audit (tenantId ctx) ''MANDATE_SUPERSEDED'' (mr_id old) (Some (userId ctx)) ''UPDATE''
              [(''supersededRequestId'', JStr (mr_id old)), (''newStatus'', JStr ''SUPERSEDED'')])
            (case_event E 2 (tenantId ctx) caseId MANDATE_SUPERSEDED (Some (userId ctx))
               [(''supersededRequestId'', JStr (mr_id old))] d1) = Inr d'"
    unfolding supersede_active_def Some option.case res_bind_Inr_iff by (elim exE conjE) (rule that, assumption+)
  have "keeps_request old (?f old)" using old(2) by (simp add: keeps_request_def move_simps)
  from keeps_one [of _ old _ ?f, OF assms(2) old(1) refl this] audit_tx_tables [OF a] p show ?thesis
    by (intro exI [of _ "\<lambda>m. if mr_id m = mr_id old then ?f m else m"]) (simp add: put_request_Inr)
qed

lemma send_tx_Inr:
  assumes "send_tx S ctx caseId mandateType description d = Inr (r, d')" "distinct (map mr_id (mandateRequests d))"
  shows "change_shape (ev_uuid (sv_env S) 1) d d'"
proof -
  let ?E = "sv_env S"
  from assms(1) obtain c d1 d2 p q where d1: "supersede_active ?E ctx caseId d = Inr d1"
    and i: "insert_request (new_request ?E ctx caseId mandateType description (hashUploadToken (sv_sha256 S) (ev_token ?E)) (lead_email c d)) d1 = Inr d2"
    and a: "audit_tx ?E 5 q (case_event ?E 4 (tenantId ctx) caseId MANDATE_SENT (Some (userId ctx)) p d2) = Inr d'"
    unfolding send_tx_def Let_def res_bind_Inr_iff by blast
  obtain f where f: "mandateRequests d1 = map f (mandateRequests d)" "\<forall>r \<in> set (mandateRequests d). keeps_request r (f r)"
      "mandateUploads d1 = mandateUploads d"
    using supersede_shape [OF d1 assms(2)] by blast
  show ?thesis
    by (rule shape_added [of _ f _ "new_request ?E ctx caseId mandateType description (hashUploadToken (sv_sha256 S) (ev_token ?E)) (lead_email c d)" _ "[]"])
      (use f i audit_tx_tables [OF a] in \<open>simp_all add: insert_request_Inr new_request_def\<close>)
qed

lemma regenerate_tx_Inr:
  assumes "regenerate_tx S ctx i d = Inr (r, d')" "distinct (map mr_id (mandateRequests d))"
  shows "change_shape (ev_uuid (sv_env S) 1) d d'"
proof -
  let ?E = "sv_env S" and ?f = "\<lambda>m. m\<lparr>mr_status := MR_SUPERSEDED\<rparr>"
  from assms(1) obtain old d1 d2 d4 p p' q q' where old: "loadRequest ctx i d = Inr old"
    and st: "mr_status old \<in> {MR_PENDING_UPLOAD, MR_EXPIRED, MR_REJECTED}" and d1: "put_request i ?f d = Inr d1"
    and n: "insert_request (new_request ?E ctx (mr_caseId old) (mr_mandateType old) (mr_description old)
            (hashUploadToken (sv_sha256 S) (ev_token ?E)) (mr_sentToEmail old)) d1 = Inr d2"
    and a: "audit_tx ?E 52 q (case_event ?E 51 (tenantId ctx) (mr_caseId old) MANDATE_SUPERSEDED (Some (userId ctx)) p
        (case_event ?E 50 (tenantId ctx) (mr_caseId old) MANDATE_LINK_REGENERATED (Some (userId ctx)) p' d2)) = Inr d4"
    and b: "audit_tx ?E 53 q' d4 = Inr d'"
    unfolding regenerate_tx_def Let_def res_bind_Inr_iff ensure_simps by blast
  note o = loadRequest_Inr [OF old]
  have "keeps_request old (?f old)" using st by (auto simp: keeps_request_def move_simps)
  from keeps_one [of _ old i ?f, OF assms(2) _ _ this] o
  have k: "\<forall>r \<in> set (mandateRequests d). keeps_request r (if mr_id r = i then ?f r else r)" by blast
  show ?thesis
    by (rule shape_added [of _ "\<lambda>m. if mr_id m = i then ?f m else m" _ "new_request ?E ctx (mr_caseId old) (mr_mandateType old) (mr_description old)
            (hashUploadToken (sv_sha256 S) (ev_token ?E)) (mr_sentToEmail old)" _ "[]", OF _ k])
      (use d1 n audit_tx_tables [OF a] audit_tx_tables [OF b] in \<open>simp_all add: insert_request_Inr put_request_Inr new_request_def\<close>)
qed

text \<open>A verification and a rejection, alike up to the status they write.\<close>

lemma judged_shape:
  assumes "loadRequest ctx i d = Inr old" "mr_status old = MR_UPLOADED" "put_request i f d = Inr d1" "audit_tx E k q (case_event E k' t c ev u p d1) = Inr d'"
    and "distinct (map mr_id (mandateRequests d))" "keeps_request old (f old)"
  shows "change_shape j d d'"
proof -
  note o = loadRequest_Inr [OF assms(1)]
  from keeps_one [of _ old i f, OF assms(5) _ _ assms(6)] o
  have k: "\<forall>r \<in> set (mandateRequests d). keeps_request r (if mr_id r = i then f r else r)" by blast
  show ?thesis
    by (rule shape_moved [of _ "\<lambda>m. if mr_id m = i then f m else m", OF _ k])
      (use assms(3) audit_tx_tables [OF assms(4)] in \<open>simp_all add: put_request_Inr\<close>)
qed

lemma verify_tx_Inr:
  assumes "verify_tx E ctx i d = Inr (r, d')" "distinct (map mr_id (mandateRequests d))"
  shows "change_shape j d d'"
proof -
  let ?f = "\<lambda>m. m\<lparr>mr_status := MR_VERIFIED, mr_verifiedAt := Some (ev_clock E 40), mr_verifiedBy := Some (userId ctx)\<rparr>"
  from assms(1) obtain old d1 q p where o: "loadRequest ctx i d = Inr old" "mr_status old = MR_UPLOADED" "put_request i ?f d = Inr d1"
      "audit_tx E 42 q (case_event E 41 (tenantId ctx) (mr_caseId old) MANDATE_VERIFIED (Some (userId ctx)) p d1) = Inr d'"
    unfolding verify_tx_def res_bind_Inr_iff ensure_simps by blast
  show ?thesis by (rule judged_shape [OF o assms(2)]) (use o(2) in \<open>simp add: keeps_request_def move_simps\<close>)
qed

lemma reject_tx_Inr:
  assumes "reject_tx E ctx i why d = Inr (r, d')" "distinct (map mr_id (mandateRequests d))"
  shows "change_shape j d d'"
proof -
  let ?f = "\<lambda>m. m\<lparr>mr_status := MR_REJECTED, mr_rejectedAt := Some (ev_clock E 40), mr_rejectedBy := Some (userId ctx), mr_rejectionReason := Some why\<rparr>"
  from assms(1) obtain old d1 q p where o: "loadRequest ctx i d = Inr old" "mr_status old = MR_UPLOADED" "put_request i ?f d = Inr d1"
      "audit_tx E 42 q (case_event E 41 (tenantId ctx) (mr_caseId old) MANDATE_REJECTED (Some (userId ctx)) p d1) = Inr d'"
    unfolding reject_tx_def res_bind_Inr_iff ensure_simps by blast
  show ?thesis by (rule judged_shape [OF o assms(2)]) (use o(2) in \<open>simp add: keeps_request_def move_simps\<close>)
qed

lemma retained_events_Inr:
  assumes "retained_events S ctx caseId request retained d = Inr d'"
  shows "mandateRequests d' = mandateRequests d \<and> mandateUploads d' = mandateUploads d"
  using assms by (auto simp: retained_events_def Let_def split: list.splits dest: audit_tx_tables(10,11))

lemma firm_tx_Inr:
  assumes "firm_tx S ctx caseId inp v finalKey safeName head d = Inr (r, d')"
  shows "change_shape (ev_uuid (sv_env S) 1) d d'"
proof -
  let ?E = "sv_env S" and ?r = "firm_request S ctx caseId inp v"
  let ?p = "\<lambda>m. of_case ctx caseId m \<and> mr_status m \<in> set SUPERSEDABLE"
  let ?f = "\<lambda>m. m\<lparr>mr_status := MR_SUPERSEDED, mr_supersededBy := Some (mr_id ?r)\<rparr>"
  from assms obtain d2 d3 d4 q p rs where
      n: "insert_request ?r (d\<lparr>mandateRequests := fst (update_many ?p ?f (mandateRequests d))\<rparr>) = Inr d2"
    and u: "insert_upload (firm_upload S ctx ?r inp finalKey safeName head) d2 = Inr d3"
    and a: "audit_tx ?E 35 q (case_event ?E 34 (tenantId ctx) caseId MANDATE_FIRM_UPLOADED (Some (userId ctx)) p d3) = Inr d4"
    and e: "retained_events S ctx caseId ?r rs d4 = Inr d'"
    unfolding firm_tx_def Let_def res_bind_Inr_iff by blast
  have k: "\<forall>m \<in> set (mandateRequests d). keeps_request m (if ?p m then ?f m else m)"
    by (auto simp: keeps_request_def SUPERSEDABLE_def move_simps)
  have u2: "mandateRequests d3 = mandateRequests d2" "mandateUploads d3 = mandateUploads d2 @ [firm_upload S ctx ?r inp finalKey safeName head]"
    using u by (auto simp: insert_upload_def split: if_splits)
  have i: "mr_id ?r = ev_uuid ?E 1" "confirmed (mr_status ?r)" by (simp_all add: firm_request_def new_request_def Let_def confirmed_def)
  show ?thesis
  proof (rule shape_added [OF _ k i(1)])
    show "mandateRequests d' = map (\<lambda>m. if ?p m then ?f m else m) (mandateRequests d) @ [?r]"
      using n u2 audit_tx_tables [OF a] retained_events_Inr [OF e] by (simp add: insert_request_Inr update_many_def)
    show "mandateUploads d' = mandateUploads d @ [firm_upload S ctx ?r inp finalKey safeName head]"
      using n u2 audit_tx_tables [OF a] retained_events_Inr [OF e] by (simp add: insert_request_Inr)
    show "[firm_upload S ctx ?r inp finalKey safeName head] = [] \<or> (\<exists>u. [firm_upload S ctx ?r inp finalKey safeName head] = [u]
        \<and> mu_mandateRequestId u = ev_uuid ?E 1 \<and> confirmed (mr_status ?r))"
      using i by (simp add: firm_upload_def)
  qed
qed

lemma expire_shape: "change_shape j d (snd (expirePendingMandates busy E d))"
proof -
  let ?p = "\<lambda>m. mr_status m = MR_PENDING_UPLOAD \<and> mr_tokenExpiresAt m < ev_clock E 60"
  let ?f = "\<lambda>m. m\<lparr>mr_status := MR_EXPIRED\<rparr>"
  have k: "\<forall>m \<in> set (mandateRequests d). keeps_request m (if ?p m then ?f m else m)"
    by (auto simp: keeps_request_def move_simps)
  show ?thesis
  proof (cases busy)
    case True
    then show ?thesis by (intro shape_same) (simp_all add: expirePendingMandates_def)
  next
    case False
    have "mandateRequests (snd (expirePendingMandates busy E d)) = map (\<lambda>m. if ?p m then ?f m else m) (mandateRequests d)
      \<and> mandateUploads (snd (expirePendingMandates busy E d)) = mandateUploads d"
      using False by (auto simp: expirePendingMandates_def update_many_def Let_def audit_log_tx_Inr split: sum.split dest: audit_tx_tables)
    then show ?thesis by (intro shape_moved [OF _ k]) simp_all
  qed
qed

lemma closed_shape:
  assumes "supersede_links E ctx i d = Inr d'"
  shows "change_shape j d d'"
proof -
  have k: "\<forall>m \<in> set (mandateRequests d). keeps_request m (if pending_link ctx i m then m\<lparr>mr_status := MR_SUPERSEDED\<rparr> else m)"
    by (auto simp: keeps_request_def pending_link_def move_simps)
  show ?thesis by (rule shape_moved [OF supersede_links_Inr(4) [OF assms] k supersede_links_Inr(3) [OF assms]])
qed

section \<open>Actions\<close>

lemma tx_shape:
  assumes "\<And>x d'. t (wd w) = Inr (x, d') \<Longrightarrow> change_shape j (wd w) d'"
  shows "change_shape j (wd w) (wd (snd (act_tx t w)))"
proof (cases "t (wd w)")
  case (Inl e)
  then show ?thesis by (intro shape_same) (simp_all add: act_tx_def)
next
  case (Inr p)
  then show ?thesis using assms [of "fst p" "snd p"] by (cases p) (simp add: act_tx_def)
qed

lemma claim_shape:
  assumes "\<And>m. mr_status m = MR_PENDING_UPLOAD \<Longrightarrow> keeps_request m (f m)"
  shows "change_shape j (wd w) (wd (snd (claim request f w)))"
proof -
  let ?p = "\<lambda>m. mr_id m = mr_id request \<and> mr_tenantId m = mr_tenantId request \<and> mr_status m = MR_PENDING_UPLOAD"
  have k: "\<forall>m \<in> set (mandateRequests (wd w)). keeps_request m (if ?p m then f m else m)" using assms by auto
  show ?thesis by (rule shape_moved [OF _ k]) (simp_all add: claim_def update_many_def)
qed

lemma notify_db [simp]: "wd (snd (notify_staff S k t c u a b e w)) = wd w" "wo (snd (notify_staff S k t c u a b e w)) = wo w"
  by (auto simp: notify_staff_def split: option.split)

lemma delete_db [simp]: "wd (snd (deleteObject S k key w)) = wd w"
  by (rule delete_objects)

lemma act_bind_fst: "fst (m w) = Inr x \<Longrightarrow> act_bind m f w = f x (snd (m w))"
  by (cases "m w") (simp add: act_bind_def)

lemma claim_returns: "\<exists>x. fst (claim request f w) = Inr x"
  by (auto simp: claim_def split: prod.split)

text \<open>An action whose first part leaves the database.\<close>

lemma bind_db:
  assumes "wd (snd (m w)) = wd w" "\<And>x. change_shape j (wd w) (wd (snd (f x (snd (m w)))))"
  shows "change_shape j (wd w) (wd (snd (act_bind m f w)))"
proof (cases "fst (m w)")
  case (Inl e)
  then have "snd (act_bind m f w) = snd (m w)" by (cases "m w") (simp add: act_bind_def)
  then show ?thesis using assms(1) by (intro shape_same) simp_all
next
  case (Inr x)
  then have "act_bind m f w = f x (snd (m w))" by (rule act_bind_fst)
  then show ?thesis using assms(2) [of x] by simp
qed

text \<open>And one whose rest leaves it.\<close>

lemma bind_then:
  assumes "change_shape j (wd w) (wd (snd (m w)))" "\<And>x v. wd (snd (f x v)) = wd v"
  shows "change_shape j (wd w) (wd (snd (act_bind m f w)))"
proof (cases "fst (m w)")
  case (Inl e)
  then have "snd (act_bind m f w) = snd (m w)" by (cases "m w") (simp add: act_bind_def)
  then show ?thesis using assms(1) by simp
next
  case (Inr x)
  then have "act_bind m f w = f x (snd (m w))" by (rule act_bind_fst)
  then show ?thesis using assms by simp
qed

lemma confirm_record_Inr:
  assumes "confirm_record E request uploadId finalKey safeName head ip agent d = Inr (u, d')"
  shows "mandateRequests d' = mandateRequests d
    \<and> mandateUploads d' = mandateUploads d @ [client_upload E request finalKey safeName head ip agent]"
  using assms by (auto simp: confirm_record_def Let_def res_bind_Inr_iff dest: audit_tx_tables(10,11))

text \<open>The end of a confirmation records the upload or leaves the tables alone.\<close>

lemma confirm_finish_db:
  "\<exists>us. mandateRequests (wd (snd (confirm_finish S request uploadId safeName stagingKey head ip agent w))) = mandateRequests (wd w)
     \<and> mandateUploads (wd (snd (confirm_finish S request uploadId safeName stagingKey head ip agent w))) = mandateUploads (wd w) @ us
     \<and> (us = [] \<or> (\<exists>u. us = [u] \<and> mu_mandateRequestId u = mr_id request))"
proof -
  let ?key = "mandateFinalKey (mr_tenantId request) (mr_id request) uploadId safeName"
  let ?tx = "confirm_record (sv_env S) request uploadId ?key safeName head ip agent"
  let ?ok = "\<lambda>d d'. \<exists>us. mandateRequests d' = mandateRequests d \<and> mandateUploads d' = mandateUploads d @ us
     \<and> (us = [] \<or> (\<exists>u. us = [u] \<and> mu_mandateRequestId u = mr_id request))"
  let ?n = "\<lambda>_. notify_staff S 23 (mr_tenantId request) (mr_caseId request) None ''Mandate uploaded'' ''A mandate document was uploaded for case '' ''.''"
  have tx: "?ok (wd v) (wd (snd (act_bind (act_tx ?tx) ?n v)))" for v
  proof (cases "?tx (wd v)")
    case (Inl e)
    then show ?thesis by (simp add: act_bind_def act_tx_def)
  next
    case (Inr p)
    obtain u d' where p: "p = (u, d')" by (rule prod.exhaust)
    from confirm_record_Inr [of _ _ _ _ _ _ _ _ _ u d'] Inr p have "mandateRequests d' = mandateRequests (wd v)"
      "mandateUploads d' = mandateUploads (wd v) @ [client_upload (sv_env S) request ?key safeName head ip agent]" by blast+
    then show ?thesis using Inr p by (simp add: act_bind_def act_tx_def client_upload_def)
  qed
  show ?thesis
  proof (cases "promote S stagingKey ?key w")
    case (Pair r v)
    have v: "wd v = wd w" using promote_rest(1) [of S stagingKey ?key w] Pair by simp
    show ?thesis
    proof (cases r)
      case (Inl e)
      then show ?thesis using v Pair by (simp add: confirm_finish_def Let_def act_bind_def [of "promote S stagingKey ?key"])
    next
      case (Inr x)
      then show ?thesis using tx [of v] v Pair by (simp add: confirm_finish_def Let_def act_bind_def [of "promote S stagingKey ?key"])
    qed
  qed
qed

lemma infected_record_Inr:
  assumes "infected_record E request uploadId safeName ip agent b d = Inr (u, d')"
  shows "mandateRequests d' = mandateRequests d \<and> mandateUploads d' = mandateUploads d"
  using assms by (auto simp: infected_record_def res_bind_Inr_iff dest: audit_tx_tables(10,11))

lemma tables_shape:
  "change_shape j d d1 \<Longrightarrow> mandateRequests d' = mandateRequests d1 \<Longrightarrow> mandateUploads d' = mandateUploads d1 \<Longrightarrow> change_shape j d d'"
  by (simp add: change_shape_def)

lemma infected_shape: "change_shape j (wd w) (wd (snd (handleInfectedUpload S request stagingKey uploadId safeName ip agent w)))"
proof -
  let ?f = "\<lambda>m. m\<lparr>mr_status := MR_REJECTED, mr_rejectedAt := Some (ev_clock (sv_env S) 14),
        mr_rejectionReason := Some ''Uploaded file failed a security scan.''\<rparr>"
  let ?rest = "\<lambda>deleted rejected. if \<not> rejected then act_return ()
     else act_bind (act_tx (infected_record (sv_env S) request uploadId safeName ip agent (isl (deleted :: app_error + unit)))) (\<lambda>_.
       notify_staff S 15 (mr_tenantId request) (mr_caseId request) None ''Mandate upload rejected''
         ''A mandate upload for case '' '' was rejected by the security scanner.'')"
  have rest: "mandateRequests (wd (snd (?rest b r v))) = mandateRequests (wd v) \<and> mandateUploads (wd (snd (?rest b r v))) = mandateUploads (wd v)" for b r v
  proof (cases "infected_record (sv_env S) request uploadId safeName ip agent (isl b) (wd v)")
    case (Inl e)
    then show ?thesis by (simp add: act_return_def act_bind_def act_tx_def)
  next
    case (Inr p)
    then show ?thesis using infected_record_Inr [of _ _ _ _ _ _ _ _ "fst p" "snd p"] by (cases p) (simp add: act_return_def act_bind_def act_tx_def)
  qed
  have c: "change_shape j (wd v) (wd (snd (claim request ?f v)))" for v
    by (rule claim_shape) (simp add: keeps_request_def move_simps)
  have "change_shape j (wd v) (wd (snd (act_bind (claim request ?f) (?rest b) v)))" for b v
  proof -
    obtain x where "fst (claim request ?f v) = Inr x" using claim_returns by blast
    then have x: "act_bind (claim request ?f) (?rest b) v = ?rest b x (snd (claim request ?f v))" by (rule act_bind_fst)
    show ?thesis unfolding x by (rule tables_shape [OF c]) (use rest in blast)+
  qed
  then have "change_shape j (wd w) (wd (snd (act_bind (act_try (deleteObject S 6 stagingKey)) (\<lambda>b. act_bind (claim request ?f) (?rest b)) w)))"
    by (intro bind_db) (simp_all add: act_try_def split_beta, metis delete_db)
  then show ?thesis by (simp add: handleInfectedUpload_def)
qed

lemma firm_commit_shape:
  "change_shape (ev_uuid (sv_env S) 1) (wd w) (wd (snd (firm_commit S ctx caseId inp v finalKey safeName head w)))"
  unfolding firm_commit_def
proof (rule bind_then)
  have "change_shape (ev_uuid (sv_env S) 1) (wd w) (wd (snd (act_tx (firm_tx S ctx caseId inp v finalKey safeName head) w)))"
    by (rule tx_shape) (rule firm_tx_Inr)
  then show "change_shape (ev_uuid (sv_env S) 1) (wd w) (wd (snd (act_try (act_tx (firm_tx S ctx caseId inp v finalKey safeName head)) w)))"
    by (simp add: act_try_def split_beta)
next
  fix x :: "app_error + MandateRequest" and u
  show "wd (snd ((case x of Inr request \<Rightarrow>
          act_bind (act_try (notify_staff S 38 (tenantId ctx) caseId (Some (userId ctx)) ''Mandate uploaded by firm''
             ''A mandate document was uploaded for case '' ''.'')) (\<lambda>_.
          act_return \<lparr>fr_mandateRequestId = mr_id request, fr_uploadId = fm_uploadId inp, fr_status = status_word (Some (mr_status request))\<rparr>)
      | Inl e \<Rightarrow>
          act_read (\<lambda>d. case (if e = UniqueViolation then firm_replay ctx (fm_uploadId inp) d else None) of
             Some won \<Rightarrow> Inr won | None \<Rightarrow> Inl e)) u)) = wd u"
    by (cases x) (simp_all add: act_read_def act_bind_def act_try_def act_return_def split_beta)
qed

section \<open>The system\<close>

text \<open>
  A state is the world with the requests that a confirmation has claimed and whose upload is not
  recorded yet. New requests get an id no request, upload or claim has. A step may also be anything
  that leaves the requests and uploads alone, such as a client writing to the staging area.
\<close>

record mandate_state =
  ms_world :: world
  ms_claimed :: "string list"

definition fresh_id :: "services \<Rightarrow> mandate_state \<Rightarrow> bool" where
  "fresh_id S s \<longleftrightarrow> ev_uuid (sv_env S) 1 \<notin> set (map mr_id (mandateRequests (wd (ms_world s)))) \<union> set (map mu_mandateRequestId (mandateUploads (wd (ms_world s))))
     \<union> set (ms_claimed s)"

inductive mandate_step :: "mandate_state \<Rightarrow> mandate_state \<Rightarrow> bool" where
  sent: "fresh_id S s \<Longrightarrow> mandate_step s (s\<lparr>ms_world := snd (sendMandateRequest S ctx caseId mandateType description (ms_world s))\<rparr>)"
| regenerated: "fresh_id S s \<Longrightarrow> mandate_step s (s\<lparr>ms_world := snd (regenerateLink S ctx i (ms_world s))\<rparr>)"
| verified: "mandate_step s (s\<lparr>ms_world := snd (verifyMandate S ctx i (ms_world s))\<rparr>)"
| rejected: "mandate_step s (s\<lparr>ms_world := snd (rejectMandate S ctx i why (ms_world s))\<rparr>)"
| infected: "mandate_step s (s\<lparr>ms_world := snd (handleInfectedUpload S request stagingKey uploadId safeName ip agent (ms_world s))\<rparr>)"
| claimed: "claim request (\<lambda>m. m\<lparr>mr_status := MR_UPLOADED\<rparr>) (ms_world s) = (Inr True, w) \<Longrightarrow>
    mandate_step s \<lparr>ms_world = w, ms_claimed = mr_id request # ms_claimed s\<rparr>"
| finished: "mr_id request \<in> set (ms_claimed s) \<Longrightarrow>
    mandate_step s \<lparr>ms_world = snd (confirm_finish S request uploadId safeName stagingKey head ip agent (ms_world s)),
      ms_claimed = remove1 (mr_id request) (ms_claimed s)\<rparr>"
| died: "mandate_step s (s\<lparr>ms_claimed := remove1 i (ms_claimed s)\<rparr>)"
| by_firm: "fresh_id S s \<Longrightarrow> mandate_step s (s\<lparr>ms_world := snd (firm_commit S ctx caseId inp v finalKey safeName head (ms_world s))\<rparr>)"
| expired: "mandate_step s (s\<lparr>ms_world := (ms_world s)\<lparr>wd := snd (expirePendingMandates busy E (wd (ms_world s)))\<rparr>\<rparr>)"
| closed: "supersede_links E ctx caseId (wd (ms_world s)) = Inr d \<Longrightarrow> mandate_step s (s\<lparr>ms_world := (ms_world s)\<lparr>wd := d\<rparr>\<rparr>)"
| other: "mandateRequests (wd w) = mandateRequests (wd (ms_world s)) \<Longrightarrow> mandateUploads (wd w) = mandateUploads (wd (ms_world s)) \<Longrightarrow>
    mandate_step s (s\<lparr>ms_world := w\<rparr>)"

inductive mandate_reach :: "mandate_state \<Rightarrow> bool" where
  init: "mandateRequests (wd w) = [] \<Longrightarrow> mandateUploads (wd w) = [] \<Longrightarrow> mandate_reach \<lparr>ms_world = w, ms_claimed = []\<rparr>"
| step: "mandate_reach s \<Longrightarrow> mandate_step s t \<Longrightarrow> mandate_reach t"

definition taken :: "mandate_state \<Rightarrow> string list" where
  "taken s = map mu_mandateRequestId (mandateUploads (wd (ms_world s))) @ ms_claimed s"

definition mandates_ok :: "mandate_state \<Rightarrow> bool" where
  "mandates_ok s \<longleftrightarrow> distinct (map mr_id (mandateRequests (wd (ms_world s)))) \<and> distinct (taken s)
     \<and> (\<forall>i \<in> set (taken s). \<exists>r \<in> set (mandateRequests (wd (ms_world s))). mr_id r = i \<and> confirmed (mr_status r))"

text \<open>A change of the known shape keeps the invariant.\<close>

lemma shape_ok:
  assumes "mandates_ok s" "change_shape i (wd (ms_world s)) (wd w)"
    and "i \<notin> set (map mr_id (mandateRequests (wd (ms_world s)))) \<union> set (map mu_mandateRequestId (mandateUploads (wd (ms_world s)))) \<union> set (ms_claimed s)"
  shows "mandates_ok (s\<lparr>ms_world := w\<rparr>)"
proof -
  let ?d = "wd (ms_world s)"
  obtain f ns us where rows: "mandateRequests (wd w) = map f (mandateRequests ?d) @ ns"
    and keep: "\<And>r. r \<in> set (mandateRequests ?d) \<Longrightarrow> keeps_request r (f r)" and ups: "mandateUploads (wd w) = mandateUploads ?d @ us"
    and new: "ns = [] \<and> us = [] \<or> (\<exists>n. ns = [n] \<and> mr_id n = i \<and> (us = [] \<or> (\<exists>u. us = [u] \<and> mu_mandateRequestId u = i \<and> confirmed (mr_status n))))"
    using assms(2) unfolding change_shape_def by blast
  have ids: "map mr_id (map f (mandateRequests ?d)) = map mr_id (mandateRequests ?d)"
    using keep by (simp add: keeps_request_def)
  have tk: "taken (s\<lparr>ms_world := w\<rparr>) = map mu_mandateRequestId (mandateUploads ?d) @ map mu_mandateRequestId us @ ms_claimed s"
    by (simp add: taken_def ups)
  have d1: "distinct (map mr_id (mandateRequests (wd w)))"
    unfolding rows map_append ids using assms(1,3) new by (auto simp: mandates_ok_def image_iff)
  have d2: "distinct (taken (s\<lparr>ms_world := w\<rparr>))"
    unfolding tk using assms(1,3) new by (auto simp: mandates_ok_def taken_def image_iff)
  have "\<exists>r \<in> set (mandateRequests (wd w)). mr_id r = j \<and> confirmed (mr_status r)" if j: "j \<in> set (taken (s\<lparr>ms_world := w\<rparr>))" for j
  proof (cases "j \<in> set (taken s)")
    case True
    then obtain r where r: "r \<in> set (mandateRequests ?d)" "mr_id r = j" "confirmed (mr_status r)" using assms(1) by (auto simp: mandates_ok_def)
    have "mr_id (f r) = j" "confirmed (mr_status (f r))" using keep [OF r(1)] r confirmed_stays by (auto simp: keeps_request_def)
    moreover have "f r \<in> set (mandateRequests (wd w))" unfolding rows using r(1) by simp
    ultimately show ?thesis by blast
  next
    case False
    then have "j \<in> set (map mu_mandateRequestId us)" using j unfolding tk by (auto simp: taken_def)
    then obtain n where "ns = [n]" "mr_id n = j" "confirmed (mr_status n)" using new by auto
    then show ?thesis unfolding rows by (intro bexI [of _ n]) simp_all
  qed
  then show ?thesis using d1 d2 by (simp add: mandates_ok_def)
qed

text \<open>Most steps have the known shape.\<close>

lemma link_bind:
  assumes "\<And>x d'. t (wd w) = Inr (x, d') \<Longrightarrow> change_shape j (wd w) d'"
  shows "change_shape j (wd w) (wd (snd (act_bind (act_tx t) (\<lambda>x. act_return (g x)) w)))"
proof (rule bind_then)
  show "change_shape j (wd w) (wd (snd (act_tx t w)))" by (rule tx_shape) (rule assms)
qed (simp add: act_return_def)

lemma unused_id: "\<exists>i. i \<notin> set (xs :: string list)"
proof -
  have "replicate (Suc (sum_list (map length xs))) (CHR ''a'') \<notin> set xs"
  proof
    assume "replicate (Suc (sum_list (map length xs))) (CHR ''a'') \<in> set xs"
    then have "Suc (sum_list (map length xs)) \<in> set (map length xs)" by (metis imageI length_replicate list.set_map)
    then show False using member_le_sum_list by fastforce
  qed
  then show ?thesis by blast
qed

lemma step_shape:
  assumes "mandate_step s t" "mandates_ok s"
  shows "(\<exists>i. i \<notin> set (map mr_id (mandateRequests (wd (ms_world s)))) \<union> set (map mu_mandateRequestId (mandateUploads (wd (ms_world s)))) \<union> set (ms_claimed s)
        \<and> change_shape i (wd (ms_world s)) (wd (ms_world t)) \<and> ms_claimed t = ms_claimed s)
    \<or> (\<exists>request. claim request (\<lambda>m. m\<lparr>mr_status := MR_UPLOADED\<rparr>) (ms_world s) = (Inr True, ms_world t) \<and> ms_claimed t = mr_id request # ms_claimed s)
    \<or> mandateRequests (wd (ms_world t)) = mandateRequests (wd (ms_world s))
      \<and> (\<exists>us j. mandateUploads (wd (ms_world t)) = mandateUploads (wd (ms_world s)) @ us
          \<and> (us = [] \<or> j \<in> set (ms_claimed s) \<and> (\<exists>u. us = [u] \<and> mu_mandateRequestId u = j)) \<and> ms_claimed t = remove1 j (ms_claimed s))"
    (is "?A \<or> ?B \<or> ?C")
proof -
  have d: "distinct (map mr_id (mandateRequests (wd (ms_world s))))" using assms(2) by (simp add: mandates_ok_def)
  obtain k where "k \<notin> set (map mr_id (mandateRequests (wd (ms_world s))) @ map mu_mandateRequestId (mandateUploads (wd (ms_world s))) @ ms_claimed s)"
    using unused_id by blast
  then have k: "k \<notin> set (map mr_id (mandateRequests (wd (ms_world s)))) \<union> set (map mu_mandateRequestId (mandateUploads (wd (ms_world s)))) \<union> set (ms_claimed s)"
    by simp
  have A: ?A if "change_shape k (wd (ms_world s)) (wd (ms_world t))" "ms_claimed t = ms_claimed s" using that k by blast
  have F: ?A if "fresh_id S s" "change_shape (ev_uuid (sv_env S) 1) (wd (ms_world s)) (wd (ms_world t))" "ms_claimed t = ms_claimed s" for S
    using that unfolding fresh_id_def by blast
  from assms(1) show ?thesis
  proof cases
    case (sent S ctx caseId mandateType description)
    have "change_shape (ev_uuid (sv_env S) 1) (wd (ms_world s)) (wd (ms_world t))"
      using sent link_bind [of "send_tx S ctx caseId mandateType description" "ms_world s", OF send_tx_Inr [OF _ d]] by (simp add: sendMandateRequest_def)
    then show ?thesis using F sent by simp
  next
    case (regenerated S ctx i)
    have "change_shape (ev_uuid (sv_env S) 1) (wd (ms_world s)) (wd (ms_world t))"
      using regenerated link_bind [of "regenerate_tx S ctx i" "ms_world s", OF regenerate_tx_Inr [OF _ d]] by (simp add: regenerateLink_def)
    then show ?thesis using F regenerated by simp
  next
    case (verified S ctx i)
    have "change_shape k (wd (ms_world s)) (wd (ms_world t))"
      using verified tx_shape [of "verify_tx (sv_env S) ctx i" "ms_world s", OF verify_tx_Inr [OF _ d]] by (simp add: verifyMandate_def)
    then show ?thesis using A verified by simp
  next
    case (rejected S ctx i why)
    have "change_shape k (wd (ms_world s)) (wd (ms_world t))"
      using rejected tx_shape [of "reject_tx (sv_env S) ctx i why" "ms_world s", OF reject_tx_Inr [OF _ d]] by (simp add: rejectMandate_def)
    then show ?thesis using A rejected by simp
  next
    case (infected S request stagingKey uploadId safeName ip agent)
    then show ?thesis using A infected_shape [of k "ms_world s"] by simp
  next
    case (claimed request w)
    then show ?thesis by auto
  next
    case (finished request S uploadId safeName stagingKey head ip agent)
    then show ?thesis using confirm_finish_db [of S request uploadId safeName stagingKey head ip agent "ms_world s"] by fastforce
  next
    case (died i)
    then show ?thesis by auto
  next
    case (by_firm S ctx caseId inp v finalKey safeName head)
    then show ?thesis using F [of S] firm_commit_shape [of S "ms_world s"] by simp
  next
    case (expired busy E)
    then show ?thesis using A expire_shape [of k "wd (ms_world s)"] by simp
  next
    case (closed E ctx caseId d)
    then show ?thesis using A closed_shape [of E ctx caseId "wd (ms_world s)" d k] by simp
  next
    case (other w)
    then show ?thesis using A shape_same [of "wd w" "wd (ms_world s)" k] by simp
  qed
qed

text \<open>A claim that wins takes a request that was open, so it was not taken before.\<close>

lemma claim_ok:
  assumes "claim request (\<lambda>m. m\<lparr>mr_status := MR_UPLOADED\<rparr>) (ms_world s) = (Inr True, w)" "mandates_ok s"
  shows "mandates_ok \<lparr>ms_world = w, ms_claimed = mr_id request # ms_claimed s\<rparr>"
proof -
  let ?ms = "mandateRequests (wd (ms_world s))"
  let ?p = "\<lambda>m. mr_id m = mr_id request \<and> mr_tenantId m = mr_tenantId request \<and> mr_status m = MR_PENDING_UPLOAD"
  let ?f = "\<lambda>m :: MandateRequest. if ?p m then m\<lparr>mr_status := MR_UPLOADED\<rparr> else m"
  have w: "mandateRequests (wd w) = map ?f ?ms" "mandateUploads (wd w) = mandateUploads (wd (ms_world s))" and n: "length (filter ?p ?ms) = 1"
    using assms(1) by (auto simp: claim_def update_many_def)
  have "filter ?p ?ms \<noteq> []" using n by auto
  then obtain r where r: "r \<in> set ?ms" "?p r" by (auto simp: filter_empty_conv)
  have dist: "distinct (map mr_id ?ms)" using assms(2) by (simp add: mandates_ok_def)
  have free: "mr_id request \<notin> set (taken s)"
  proof
    assume "mr_id request \<in> set (taken s)"
    then obtain q where q: "q \<in> set ?ms" "mr_id q = mr_id request" "confirmed (mr_status q)" using assms(2) by (auto simp: mandates_ok_def)
    have "q = r" by (rule same_request [OF dist q(1) r(1)]) (simp add: q r)
    then show False using q(3) r(2) by (simp add: confirmed_def)
  qed
  have tk: "taken \<lparr>ms_world = w, ms_claimed = mr_id request # ms_claimed s\<rparr>
      = map mu_mandateRequestId (mandateUploads (wd (ms_world s))) @ mr_id request # ms_claimed s"
    by (simp add: taken_def w)
  have "distinct (taken \<lparr>ms_world = w, ms_claimed = mr_id request # ms_claimed s\<rparr>)"
    unfolding tk using free assms(2) by (auto simp: mandates_ok_def taken_def)
  moreover have ids: "map mr_id (map ?f ?ms) = map mr_id ?ms" by simp
  have "distinct (map mr_id (mandateRequests (wd w)))" unfolding w ids by (rule dist)
  moreover have "\<exists>q \<in> set (mandateRequests (wd w)). mr_id q = j \<and> confirmed (mr_status q)"
    if j: "j \<in> set (taken \<lparr>ms_world = w, ms_claimed = mr_id request # ms_claimed s\<rparr>)" for j
  proof (cases "j = mr_id request")
    case True
    have "?f r \<in> set (mandateRequests (wd w))" unfolding w using r(1) by (simp del: if_split)
    moreover have "mr_id (?f r) = j" "confirmed (mr_status (?f r))" using r(2) True by (simp_all add: confirmed_def)
    ultimately show ?thesis by blast
  next
    case False
    then have "j \<in> set (taken s)" using j unfolding tk by (auto simp: taken_def)
    then obtain q where q: "q \<in> set ?ms" "mr_id q = j" "confirmed (mr_status q)" using assms(2) by (auto simp: mandates_ok_def)
    have "?f q = q" using q False by simp
    then have "q \<in> set (mandateRequests (wd w))" unfolding w using image_eqI [of q ?f q "set ?ms"] q(1) by (simp only: set_map)
    then show ?thesis using q by blast
  qed
  ultimately show ?thesis by (simp add: mandates_ok_def)
qed

lemma mandates_ok_step:
  assumes "mandate_step s t" "mandates_ok s"
  shows "mandates_ok t"
  using step_shape [OF assms]
proof (elim disjE exE conjE)
  fix i assume i: "i \<notin> set (map mr_id (mandateRequests (wd (ms_world s)))) \<union> set (map mu_mandateRequestId (mandateUploads (wd (ms_world s)))) \<union> set (ms_claimed s)"
    "change_shape i (wd (ms_world s)) (wd (ms_world t))" "ms_claimed t = ms_claimed s"
  have "t = s\<lparr>ms_world := ms_world t\<rparr>" using i(3) by (cases s; cases t) simp
  then show ?thesis using shape_ok [OF assms(2) i(2,1)] by simp
next
  fix request assume c: "claim request (\<lambda>m. m\<lparr>mr_status := MR_UPLOADED\<rparr>) (ms_world s) = (Inr True, ms_world t)" "ms_claimed t = mr_id request # ms_claimed s"
  have "t = \<lparr>ms_world = ms_world t, ms_claimed = mr_id request # ms_claimed s\<rparr>" using c(2) by (cases t) simp
  then show ?thesis using claim_ok [OF c(1) assms(2)] by simp
next
  fix us j assume m: "mandateRequests (wd (ms_world t)) = mandateRequests (wd (ms_world s))"
    and u: "mandateUploads (wd (ms_world t)) = mandateUploads (wd (ms_world s)) @ us" and cl: "ms_claimed t = remove1 j (ms_claimed s)" and "us = []"
  have tk: "taken t = map mu_mandateRequestId (mandateUploads (wd (ms_world s))) @ remove1 j (ms_claimed s)" using u cl \<open>us = []\<close> by (simp add: taken_def)
  have "distinct (taken t)" "set (taken t) \<subseteq> set (taken s)"
    unfolding tk using assms(2) by (auto simp: mandates_ok_def taken_def dest: in_set_remove1 [THEN iffD1, rotated] notin_set_remove1 set_mp [OF set_remove1_subset])
  then show ?thesis using assms(2) unfolding mandates_ok_def m by blast
next
  fix us j u assume m: "mandateRequests (wd (ms_world t)) = mandateRequests (wd (ms_world s))"
    and up: "mandateUploads (wd (ms_world t)) = mandateUploads (wd (ms_world s)) @ us" and cl: "ms_claimed t = remove1 j (ms_claimed s)"
    and j: "j \<in> set (ms_claimed s)" and u: "us = [u]" "mu_mandateRequestId u = j"
  have tk: "taken t = map mu_mandateRequestId (mandateUploads (wd (ms_world s))) @ j # remove1 j (ms_claimed s)" using u up cl by (simp add: taken_def)
  have d: "distinct (map mu_mandateRequestId (mandateUploads (wd (ms_world s)))  @ ms_claimed s)" using assms(2) by (simp add: mandates_ok_def taken_def)
  have "set (remove1 j (ms_claimed s)) = set (ms_claimed s) - {j}" using d by (simp add: set_remove1_eq)
  then have "distinct (taken t)" "set (taken t) = set (taken s)"
    unfolding tk using d j by (auto simp: taken_def)
  then show ?thesis using assms(2) unfolding mandates_ok_def m by blast
qed

lemma mandate_reach_ok: "mandate_reach s \<Longrightarrow> mandates_ok s"
proof (induction rule: mandate_reach.induct)
  case (init w)
  then show ?case by (simp add: mandates_ok_def taken_def)
next
  case (step s t)
  then show ?case using mandates_ok_step by blast
qed

lemma at_most_one: "distinct (map k us) \<Longrightarrow> length (filter (\<lambda>u. k u = i) us) \<le> 1"
  by (induction us) (auto simp: filter_empty_conv image_iff)

text \<open>The moves of a step.\<close>

lemma claim_keeps:
  assumes "claim request (\<lambda>m. m\<lparr>mr_status := MR_UPLOADED\<rparr>) w = (Inr b, w')"
  shows "\<forall>r \<in> set (mandateRequests (wd w)). \<exists>r' \<in> set (mandateRequests (wd w')). keeps_request r r'"
proof -
  have "change_shape [] (wd w) (wd w')" using claim_shape [of "\<lambda>m. m\<lparr>mr_status := MR_UPLOADED\<rparr>" "[]" w request] assms
    by (simp add: keeps_request_def move_simps)
  then show ?thesis unfolding change_shape_def by fastforce
qed

lemma step_keeps:
  assumes "mandate_step s t" "mandates_ok s" "r \<in> set (mandateRequests (wd (ms_world s)))"
  shows "\<exists>r' \<in> set (mandateRequests (wd (ms_world t))). keeps_request r r'"
  using step_shape [OF assms(1,2)]
proof (elim disjE exE conjE)
  fix i assume "change_shape i (wd (ms_world s)) (wd (ms_world t))"
  then obtain f ns where f: "mandateRequests (wd (ms_world t)) = map f (mandateRequests (wd (ms_world s))) @ ns"
      "\<forall>r \<in> set (mandateRequests (wd (ms_world s))). keeps_request r (f r)"
    unfolding change_shape_def by blast
  show ?thesis by (rule bexI [of _ "f r"]) (use f assms(3) in simp_all)
next
  fix request assume "claim request (\<lambda>m. m\<lparr>mr_status := MR_UPLOADED\<rparr>) (ms_world s) = (Inr True, ms_world t)"
  from claim_keeps [OF this] assms(3) show ?thesis by blast
next
  assume "mandateRequests (wd (ms_world t)) = mandateRequests (wd (ms_world s))"
  then show ?thesis using assms(3) by (intro bexI [of _ r]) simp_all
next
  assume "mandateRequests (wd (ms_world t)) = mandateRequests (wd (ms_world s))"
  then show ?thesis using assms(3) by (intro bexI [of _ r]) simp_all
qed

text \<open>C18: Under every operation a mandate request keeps its case and its link, and its status moves along the
table of the domain, except that a request whose file is infected goes from PENDING_UPLOAD to REJECTED,
which the table does not list. In particular a verified or superseded request never changes again.\<close>

theorem mandate_moves_allowed:
  assumes "mandate_reach s" "mandate_step s t" "r \<in> set (mandateRequests (wd (ms_world s)))"
  shows "\<exists>r' \<in> set (mandateRequests (wd (ms_world t))). mr_id r' = mr_id r \<and> mr_caseId r' = mr_caseId r
     \<and> mr_uploadTokenHash r' = mr_uploadTokenHash r
     \<and> (mr_status r' = mr_status r \<or> canTransitionMandate (mr_status r) (mr_status r')
        \<or> mr_status r = MR_PENDING_UPLOAD \<and> mr_status r' = MR_REJECTED)"
  using step_keeps [OF assms(2) mandate_reach_ok [OF assms(1)] assms(3)] by (auto simp: keeps_request_def mandate_move_def)

text \<open>C16: However confirmations overlap, a request never gets a second upload: of two that pass the checks one
claims the request. So the check for several uploads in the verification and the rejection never fails.\<close>

theorem one_upload_per_request:
  assumes "mandate_reach s"
  shows "length (uploads_of i (wd (ms_world s))) \<le> 1 \<and> assertSingleUpload i (wd (ms_world s)) = Inr ()"
proof -
  have "distinct (map mu_mandateRequestId (mandateUploads (wd (ms_world s))))"
    using mandate_reach_ok [OF assms] by (simp add: mandates_ok_def taken_def)
  from at_most_one [OF this, of i] show ?thesis by (simp add: uploads_of_def assertSingleUpload_def ensure_def)
qed

section \<open>What reaches the final area\<close>

definition no_new_objects :: "world \<Rightarrow> world \<Rightarrow> bool" where
  "no_new_objects w w' \<longleftrightarrow> set (wo w') \<subseteq> set (wo w)"

interpretation shrinks: change no_new_objects
  by unfold_locales (auto simp: no_new_objects_def)

lemma tx_objects [simp]: "wo (snd (act_tx t w)) = wo w"
  by (auto simp: act_tx_def split: sum.split)

lemma limit_world: "wo (snd (upload_limit S h w)) = wo w" "wd (snd (upload_limit S h w)) = wd w"
  by (simp_all add: upload_limit_def split_beta)

lemma claim_objects [simp]: "wo (snd (claim request f w)) = wo w"
  by (simp add: claim_def split: prod.split)

lemma shrinks_parts:
  "along no_new_objects (upload_limit S h)" "along no_new_objects (deleteObject S k key)" "along no_new_objects (act_tx t)"
  "along no_new_objects (claim request f)" "along no_new_objects (notify_staff S k c d e x y z)"
  using delete_objects(1) by (simp_all add: along_def no_new_objects_def limit_world)

lemma infected_shrinks: "along no_new_objects (handleInfectedUpload S request stagingKey uploadId safeName ip agent)"
  unfolding handleInfectedUpload_def by (intro shrinks.along_bind shrinks.along_try shrinks_parts) (simp add: shrinks.along_pure shrinks.along_bind shrinks_parts)

lemma gates_shrink: "along no_new_objects (confirm_gates S h uploadId fileName ip agent)"
proof -
  have g: "along no_new_objects (gate_staged S m a key (handleInfectedUpload S request key' uploadId safeName ip agent))" for m a key request key' safeName
    using infected_shrinks unfolding along_def no_new_objects_def by (intro allI gate_objects) blast
  show ?thesis
    unfolding confirm_gates_def confirm_request_def Let_def
    by (intro shrinks.along_bind shrinks_parts shrinks.along_pure g) (simp add: shrinks.along_pure split_beta)
qed







section \<open>Repeated confirmations by the firm\<close>

lemma find_first_append: "find_first p (xs @ ys) = (case find_first p xs of None \<Rightarrow> find_first p ys | Some x \<Rightarrow> Some x)"
  by (induction xs) simp_all

lemma firm_commit_Inr:
  assumes "firm_commit S ctx caseId inp v finalKey safeName head w = (Inr r, w')" "firm_replay ctx (fm_uploadId inp) (wd w) = None"
  shows "\<exists>request d. firm_tx S ctx caseId inp v finalKey safeName head (wd w) = Inr (request, d) \<and> wd w' = d
     \<and> r = \<lparr>fr_mandateRequestId = mr_id request, fr_uploadId = fm_uploadId inp, fr_status = status_word (Some (mr_status request))\<rparr>"
proof (cases "firm_tx S ctx caseId inp v finalKey safeName head (wd w)")
  case (Inl e)
  then have "act_try (act_tx (firm_tx S ctx caseId inp v finalKey safeName head)) w = (Inr (Inl e), w)"
    by (simp add: act_try_def act_tx_def)
  then show ?thesis using assms by (auto simp: firm_commit_def act_bind_def act_read_def split: if_splits option.splits)
next
  case (Inr p)
  obtain request d where p: "p = (request, d)" by (rule prod.exhaust)
  have t: "act_try (act_tx (firm_tx S ctx caseId inp v finalKey safeName head)) w = (Inr (Inr request), w\<lparr>wd := d\<rparr>)"
    using Inr p by (simp add: act_try_def act_tx_def)
  let ?n = "notify_staff S 38 (tenantId ctx) caseId (Some (userId ctx)) ''Mandate uploaded by firm'' ''A mandate document was uploaded for case '' ''.''"
  have "firm_commit S ctx caseId inp v finalKey safeName head w = act_bind (act_try ?n) (\<lambda>_.
      act_return \<lparr>fr_mandateRequestId = mr_id request, fr_uploadId = fm_uploadId inp, fr_status = status_word (Some (mr_status request))\<rparr>) (w\<lparr>wd := d\<rparr>)"
    by (simp add: firm_commit_def act_bind_def [of "act_try (act_tx (firm_tx S ctx caseId inp v finalKey safeName head))"] t)
  also have "\<dots> = (Inr \<lparr>fr_mandateRequestId = mr_id request, fr_uploadId = fm_uploadId inp, fr_status = status_word (Some (mr_status request))\<rparr>,
      snd (?n (w\<lparr>wd := d\<rparr>)))"
    by (simp add: act_bind_def act_try_def act_return_def split_beta)
  finally have "r = \<lparr>fr_mandateRequestId = mr_id request, fr_uploadId = fm_uploadId inp, fr_status = status_word (Some (mr_status request))\<rparr>"
      "w' = snd (?n (w\<lparr>wd := d\<rparr>))" using assms(1) by simp_all
  then show ?thesis using Inr p by simp
qed

lemma firm_tx_replay:
  assumes "firm_tx S ctx caseId inp v finalKey safeName head d = Inr (request, d')" "firm_replay ctx (fm_uploadId inp) d = None"
    and "ev_uuid (sv_env S) 1 \<notin> set (map mr_id (mandateRequests d))"
  shows "firm_replay ctx (fm_uploadId inp) d'
    = Some \<lparr>fr_mandateRequestId = mr_id request, fr_uploadId = fm_uploadId inp, fr_status = status_word (Some (mr_status request))\<rparr>"
proof -
  let ?E = "sv_env S" and ?r = "firm_request S ctx caseId inp v"
  let ?f = "\<lambda>m. m\<lparr>mr_status := MR_SUPERSEDED, mr_supersededBy := Some (mr_id ?r)\<rparr>"
  let ?g = "\<lambda>m. if of_case ctx caseId m \<and> mr_status m \<in> set SUPERSEDABLE then ?f m else m"
  let ?u = "firm_upload S ctx ?r inp finalKey safeName head"
  from assms(1) obtain d2 d3 d4 q p rs where
      n: "insert_request ?r (d\<lparr>mandateRequests := fst (update_many (\<lambda>m. of_case ctx caseId m \<and> mr_status m \<in> set SUPERSEDABLE) ?f (mandateRequests d))\<rparr>) = Inr d2"
    and u: "insert_upload ?u d2 = Inr d3"
    and a: "audit_tx ?E 35 q (case_event ?E 34 (tenantId ctx) caseId MANDATE_FIRM_UPLOADED (Some (userId ctx)) p d3) = Inr d4"
    and e: "retained_events S ctx caseId ?r rs d4 = Inr d'" and r: "request = ?r"
    unfolding firm_tx_def Let_def res_bind_Inr_iff by blast
  have u2: "mandateRequests d3 = mandateRequests d2" "mandateUploads d3 = mandateUploads d2 @ [?u]"
    using u by (auto simp: insert_upload_def split: if_splits)
  have rows: "mandateRequests d' = map ?g (mandateRequests d) @ [?r]" and ups: "mandateUploads d' = mandateUploads d @ [?u]"
    using n u2 audit_tx_tables [OF a] retained_events_Inr [OF e] by (simp_all add: insert_request_Inr update_many_def)
  have none: "find_first (\<lambda>u. mu_uploadId u = Some (fm_uploadId inp) \<and> mu_tenantId u = tenantId ctx) (mandateUploads d) = None"
    using assms(2) by (simp add: firm_replay_def)
  have id: "mr_id ?r = ev_uuid ?E 1" by (simp add: firm_request_def new_request_def Let_def)
  have "find_first (\<lambda>m. mr_id m = mr_id ?r) (map ?g (mandateRequests d)) = None"
    unfolding find_first_None id using assms(3) by (auto simp: image_iff)
  then have "find_first (\<lambda>m. mr_id m = mr_id ?r) (mandateRequests d') = Some ?r" unfolding rows by (simp add: find_first_append)
  moreover have "find_first (\<lambda>u. mu_uploadId u = Some (fm_uploadId inp) \<and> mu_tenantId u = tenantId ctx) (mandateUploads d') = Some ?u"
    unfolding ups by (simp add: find_first_append none firm_upload_def)
  moreover have "mu_mandateRequestId ?u = mr_id ?r" by (simp add: firm_upload_def)
  ultimately show ?thesis unfolding firm_replay_def r by simp
qed

text \<open>The firm's checks leave the database when they pass.\<close>

lemma firm_run_Inr:
  assumes "firmConfirmUpload S ctx caseId inp cv w = (Inr r, w')" "firm_replay ctx (fm_uploadId inp) (wd w) = None"
  shows "\<exists>v finalKey safeName head. firm_commit S ctx caseId inp (fm_verify inp \<and> cv) finalKey safeName head v = (Inr r, w') \<and> wd v = wd w"
proof -
  let ?name = "sanitizeFileName (fm_fileName inp)"
  let ?key = "mandateFirmStagingKey (tenantId ctx) caseId (fm_uploadId inp) ?name"
  let ?final = "mandateFinalKey (tenantId ctx) (ev_uuid (sv_env S) 1) (fm_uploadId inp) ?name"
  have run: "firmConfirmUpload S ctx caseId inp cv w =
      act_bind (act_ensure (\<not> (fm_verify inp \<and> \<not> cv)) AuthorizationError) (\<lambda>_.
      act_bind (act_read (case_exists ctx caseId)) (\<lambda>_.
      act_bind (act_read (assertCaseAcceptsUploads caseId (tenantId ctx))) (\<lambda>_.
      act_bind (gate_staged S MAX_FILE_SIZE_BYTES isAllowedContentType ?key (firm_infected S ctx caseId inp ?key ?name)) (\<lambda>(_, head).
      act_bind (promote S ?key ?final) (\<lambda>_. firm_commit S ctx caseId inp (fm_verify inp \<and> cv) ?final ?name head))))) w"
    using assms(2) by (simp add: firmConfirmUpload_def Let_def act_bind_def [of "act_read (\<lambda>d. Inr (firm_replay ctx (fm_uploadId inp) d))"] act_read_def [of "\<lambda>d. Inr (firm_replay ctx (fm_uploadId inp) d)"])
  obtain data head w1 u w2 where
      g: "gate_staged S MAX_FILE_SIZE_BYTES isAllowedContentType ?key (firm_infected S ctx caseId inp ?key ?name) w = (Inr (data, head), w1)"
    and p: "promote S ?key ?final w1 = (Inr u, w2)"
    and c: "firm_commit S ctx caseId inp (fm_verify inp \<and> cv) ?final ?name head w2 = (Inr r, w')"
    using assms(1) unfolding run by (auto simp: act_bind_Inr split: prod.splits)
  have "wd w2 = wd w1" using promote_rest(1) [of S ?key ?final w1] p by simp
  moreover have "w1 = w" using gate_staged_Inr [OF g] by blast
  ultimately show ?thesis using c by blast
qed

lemma firm_replay_found: "firm_replay ctx uploadId (wd w) = Some r \<Longrightarrow> fm_uploadId inp = uploadId \<Longrightarrow>
    firmConfirmUpload S ctx caseId inp cv w = (Inr r, w)"
  by (simp add: firmConfirmUpload_def act_bind_def act_read_def act_return_def)

text \<open>
  C19: The first confirmation of an upload by the firm wins. A later one, by whomever of the
  organisation, with whatever file name, case or wish to verify, in any state in which the uploads of
  then are still on record, changes nothing and names the same request and upload, with the status
  the request has by then; nothing in between, and the whole answer is the same.
\<close>

theorem firm_confirm_idempotent:
  assumes "firmConfirmUpload S ctx caseId inp cv w = (Inr r, w')" "tenantId ctx' = tenantId ctx" "fm_uploadId inp' = fm_uploadId inp"
    and "ev_uuid (sv_env S) 1 \<notin> set (map mr_id (mandateRequests (wd w)))"
    and "mandateUploads (wd v) = mandateUploads (wd w') @ later"
  shows "\<exists>q. firmConfirmUpload S' ctx' caseId' inp' cv' v = (Inr q, v)
     \<and> fr_mandateRequestId q = fr_mandateRequestId r \<and> fr_uploadId q = fr_uploadId r
     \<and> fr_status q = status_word (map_option mr_status (find_first (\<lambda>m. mr_id m = fr_mandateRequestId r) (mandateRequests (wd v))))
     \<and> (mandateRequests (wd v) = mandateRequests (wd w') \<longrightarrow> q = r)"
proof -
  have replay: "firm_replay ctx (fm_uploadId inp) (wd w') = Some r"
  proof (cases "firm_replay ctx (fm_uploadId inp) (wd w)")
    case None
    obtain v finalKey safeName head where c: "firm_commit S ctx caseId inp (fm_verify inp \<and> cv) finalKey safeName head v = (Inr r, w')" "wd v = wd w"
      using firm_run_Inr [OF assms(1) None] by blast
    obtain request where "firm_tx S ctx caseId inp (fm_verify inp \<and> cv) finalKey safeName head (wd v) = Inr (request, wd w')"
      and "r = \<lparr>fr_mandateRequestId = mr_id request, fr_uploadId = fm_uploadId inp, fr_status = status_word (Some (mr_status request))\<rparr>"
      using firm_commit_Inr [OF c(1)] None c(2) by auto
    with firm_tx_replay [of S ctx caseId inp] None assms(4) c(2) show ?thesis by metis
  next
    case (Some q)
    then have "r = q" "w' = w" using assms(1) by (simp_all add: firmConfirmUpload_def act_bind_def act_read_def act_return_def)
    then show ?thesis using Some by simp
  qed
  then obtain u where u: "find_first (\<lambda>u. mu_uploadId u = Some (fm_uploadId inp) \<and> mu_tenantId u = tenantId ctx) (mandateUploads (wd w')) = Some u"
    and r: "r = \<lparr>fr_mandateRequestId = mu_mandateRequestId u, fr_uploadId = fm_uploadId inp,
        fr_status = status_word (map_option mr_status (find_first (\<lambda>m. mr_id m = mu_mandateRequestId u) (mandateRequests (wd w'))))\<rparr>"
    by (auto simp: firm_replay_def)
  have "find_first (\<lambda>u. mu_uploadId u = Some (fm_uploadId inp) \<and> mu_tenantId u = tenantId ctx) (mandateUploads (wd v)) = Some u"
    by (simp add: assms(5) find_first_append u)
  then have "firm_replay ctx' (fm_uploadId inp) (wd v) = Some \<lparr>fr_mandateRequestId = mu_mandateRequestId u, fr_uploadId = fm_uploadId inp,
        fr_status = status_word (map_option mr_status (find_first (\<lambda>m. mr_id m = mu_mandateRequestId u) (mandateRequests (wd v))))\<rparr>"
    by (simp add: firm_replay_def assms(2))
  from firm_replay_found [OF this assms(3)] show ?thesis by (simp add: r)
qed

section \<open>A concrete run\<close>

text \<open>A scanner that takes any file with the byte 0x58 for infected, and a client's file in the staging area.\<close>

definition services_one :: services where
  "services_one = \<lparr>sv_env = env_one\<lparr>ev_clock := int\<rparr>, sv_redis = redis_up True, sv_storage = (\<lambda>_. None), sv_scanEnabled = True,
     sv_scan = (\<lambda>data. Some (0x58 \<in> set data)), sv_sign = (\<lambda>k. ''https://store/'' @ k), sv_sha256 = (\<lambda>t. ''sha:'' @ t)\<rparr>"

definition staged_one :: StoredObject where
  "staged_one = \<lparr>ob_key = ''mandate-staging/t1/u1/up1/deed.pdf'', ob_bytes = [0x25, 0x50, 0x44, 0x46, 0x2d, 0x31],
     ob_contentType = Some ''application/pdf'', ob_lastModified = None\<rparr>"

definition open_world :: world where
  "open_world = \<lparr>wd = empty_db\<lparr>docCases := [blank_case ''c1'' ctx_one ''l1'' None]\<rparr>, wo = [staged_one], wn = [], wr = redis_one\<rparr>"

definition request_one :: MandateRequest where
  "request_one = \<lparr>mr_id = ''u1'', mr_tenantId = ''t1'', mr_caseId = ''c1'', mr_mandateType = ''Power of attorney'',
      mr_description = None, mr_status = MR_PENDING_UPLOAD, mr_uploadTokenHash = ''sha:secret'',
      mr_tokenExpiresAt = 604800000, mr_maxFileSizeBytes = 5242880,
      mr_allowedTypes = [''application/pdf'', ''image/jpeg'', ''image/png''], mr_sentToEmail = None, mr_sentByUserId = ''staff'',
      mr_verifiedAt = None, mr_verifiedBy = None, mr_rejectedAt = None, mr_rejectedBy = None, mr_rejectionReason = None,
      mr_supersededBy = None, mr_createdAt = 1\<rparr>"

definition sent_world :: world where
  "sent_world = open_world\<lparr>wd := (wd open_world)\<lparr>mandateRequests := [request_one]\<rparr>\<rparr>"

definition sent_state :: mandate_state where
  "sent_state = \<lparr>ms_world = snd (sendMandateRequest services_one ctx_one ''c1'' ''Power of attorney'' None open_world), ms_claimed = []\<rparr>"

lemma sent_reach: "mandate_reach sent_state"
proof -
  have r: "mandate_reach \<lparr>ms_world = open_world, ms_claimed = []\<rparr>"
    by (rule mandate_reach.init) (simp_all add: open_world_def empty_db_def)
  have f: "fresh_id services_one \<lparr>ms_world = open_world, ms_claimed = []\<rparr>"
    by (simp add: fresh_id_def open_world_def empty_db_def)
  show ?thesis using mandate_reach.step [OF r mandate_step.sent [OF f]] by (simp add: sent_state_def)
qed

lemma sent_rows: "mandateRequests (wd (ms_world sent_state)) = [request_one]"
  by code_simp

lemma mandate_moves_allowed_witness:
  "\<exists>r'. mandateRequests (snd (expirePendingMandates False (env_one\<lparr>ev_clock := \<lambda>k. 700000000\<rparr>) (wd (ms_world sent_state)))) = [r']
     \<and> mr_status r' = MR_EXPIRED \<and> mr_id r' = ''u1''"
proof -
  let ?d = "snd (expirePendingMandates False (env_one\<lparr>ev_clock := \<lambda>k. 700000000\<rparr>) (wd (ms_world sent_state)))"
  have m: "request_one \<in> set (mandateRequests (wd (ms_world sent_state)))" unfolding sent_rows by simp
  have rows: "map mr_status (mandateRequests ?d) = [MR_EXPIRED]" by code_simp
  then obtain r' where r: "mandateRequests ?d = [r']" "mr_status r' = MR_EXPIRED" by (cases "mandateRequests ?d") auto
  from mandate_moves_allowed [OF sent_reach mandate_step.expired m, of False "env_one\<lparr>ev_clock := \<lambda>k. 700000000\<rparr>"]
  have "mr_id r' = mr_id request_one" using r by auto
  then show ?thesis using r by (simp add: request_one_def)
qed

text \<open>A request that was claimed and recorded.\<close>

definition head_one :: Head where
  "head_one = head_of staged_one"

definition claimed_world :: world where
  "claimed_world = snd (claim request_one (\<lambda>m. m\<lparr>mr_status := MR_UPLOADED\<rparr>) (ms_world sent_state))"

definition finished_world :: world where
  "finished_world = snd (confirm_finish services_one request_one ''up1'' ''deed.pdf'' ''mandate-staging/t1/u1/up1/deed.pdf'' head_one
     ''10.0.0.1'' ''ua'' claimed_world)"

lemma claim_one: "claim request_one (\<lambda>m. m\<lparr>mr_status := MR_UPLOADED\<rparr>) (ms_world sent_state) = (Inr True, claimed_world)"
proof -
  have "fst (claim request_one (\<lambda>m. m\<lparr>mr_status := MR_UPLOADED\<rparr>) (ms_world sent_state)) = Inr True"
    by (simp add: claim_def sent_rows update_many_def request_one_def)
  then show ?thesis by (simp add: claimed_world_def prod_eq_iff)
qed


lemma one_upload_per_request_witness:
  "length (uploads_of ''u1'' (wd finished_world)) \<le> 1 \<and> length (uploads_of ''u1'' (wd finished_world)) = 1"
proof -
  from mandate_reach.step [OF sent_reach mandate_step.claimed [OF claim_one]]
  have c: "mandate_reach \<lparr>ms_world = claimed_world, ms_claimed = mr_id request_one # ms_claimed sent_state\<rparr>" .
  have m: "mr_id request_one \<in> set (ms_claimed \<lparr>ms_world = claimed_world, ms_claimed = mr_id request_one # ms_claimed sent_state\<rparr>)" by simp
  from mandate_reach.step [OF c mandate_step.finished [OF m, of services_one "''up1''" "''deed.pdf''" "''mandate-staging/t1/u1/up1/deed.pdf''" head_one "''10.0.0.1''" "''ua''"]]
  have "mandate_reach \<lparr>ms_world = finished_world, ms_claimed = []\<rparr>" by (simp add: finished_world_def sent_state_def)
  from one_upload_per_request [OF this, of "''u1''"] have "length (uploads_of ''u1'' (wd finished_world)) \<le> 1" by simp
  moreover have "length (uploads_of ''u1'' (wd finished_world)) = 1" by code_simp
  ultimately show ?thesis by simp
qed

definition firm_input :: FirmUpload where
  "firm_input = \<lparr>fm_uploadId = ''up1'', fm_fileName = ''deed.pdf'', fm_mandateType = None, fm_sourceChannel = CH_PHYSICAL, fm_internalNote = None,
     fm_expiresAt = None, fm_verify = True\<rparr>"

definition firm_world :: world where
  "firm_world = open_world\<lparr>wo := [staged_one\<lparr>ob_key := ''mandate-firm-staging/t1/c1/up1/deed.pdf''\<rparr>]\<rparr>"

lemma firm_confirm_idempotent_witness:
  "\<exists>r w'. firmConfirmUpload services_one ctx_one ''c1'' firm_input True firm_world = (Inr r, w') \<and> fr_status r = ''VERIFIED''
     \<and> firmConfirmUpload services_one ctx_one ''c2'' (firm_input\<lparr>fm_verify := False\<rparr>) False w' = (Inr r, w')"
proof -
  let ?a = "firmConfirmUpload services_one ctx_one ''c1'' firm_input True firm_world"
  have s: "(case fst ?a of Inl _ \<Rightarrow> None | Inr r \<Rightarrow> Some (fr_status r)) = Some ''VERIFIED''" by code_simp
  then obtain r where r: "fst ?a = Inr r" "fr_status r = ''VERIFIED''" by (cases "fst ?a") auto
  then have a: "?a = (Inr r, snd ?a)" by (simp add: prod_eq_iff)
  have "ev_uuid (sv_env services_one) 1 \<notin> set (map mr_id (mandateRequests (wd firm_world)))"
    by (simp add: firm_world_def open_world_def empty_db_def)
  from firm_confirm_idempotent [OF a refl _ this, of "firm_input\<lparr>fm_verify := False\<rparr>" "snd ?a" "[]" services_one "''c2''" False] a r
  show ?thesis by (intro exI [of _ r] exI [of _ "snd ?a"]) auto
qed

section \<open>Two gaps of the confirmation\<close>

text \<open>
  The staged object may be overwritten through the presigned link after it was scanned: the copy
  then takes bytes the scanner calls infected.
\<close>

definition overwritten_world :: world where
  "overwritten_world = sent_world\<lparr>wo := put_object (staged_one\<lparr>ob_bytes := [0x58]\<rparr>) (wo sent_world)\<rparr>"

lemma overwritten_after_scan:
  "fst (confirm_gates services_one ''sha:secret'' ''up1'' ''deed.pdf'' ''10.0.0.1'' ''ua'' sent_world)
      = Inr (request_one, ''mandate-staging/t1/u1/up1/deed.pdf'', head_one)
   \<and> map ob_bytes (wo (snd (confirm_finish services_one request_one ''up1'' ''deed.pdf'' ''mandate-staging/t1/u1/up1/deed.pdf'' head_one
        ''10.0.0.1'' ''ua'' overwritten_world))) = [[0x58]]
   \<and> scanOrBypass services_one [0x58] = Inr True"
  by (intro conjI; code_simp)

text \<open>A claimed request whose copy failed has no upload and can be verified all the same.\<close>

lemma verified_without_upload:
  "fst (confirmUpload (services_one\<lparr>sv_storage := \<lambda>k. if k = 4 then Some (Thrown ''timeout'') else None\<rparr>) ''sha:secret'' ''up1'' ''deed.pdf'' ''10.0.0.1'' ''ua'' sent_world)
      = Inl (Thrown ''timeout'')
   \<and> fst (verifyMandate services_one ctx_one ''u1'' (snd (confirmUpload (services_one\<lparr>sv_storage := \<lambda>k. if k = 4 then Some (Thrown ''timeout'') else None\<rparr>)
        ''sha:secret'' ''up1'' ''deed.pdf'' ''10.0.0.1'' ''ua'' sent_world))) = Inr MR_VERIFIED"
  by (intro conjI; code_simp)

end
