(* ===== verification/Requirement_Service.thy ===== *)
theory Requirement_Service
  imports Case_Store
begin

text \<open>
  The requirements of a case in \<^verbatim>\<open>src/src/services/documentation.service.ts\<close>: the table of
  status moves, the progress of a case and its recalculation, creating a case from a preset, adding
  a requirement, the review of a requirement, notes, references and reminders. The file uploads of
  \<^verbatim>\<open>document.service.ts\<close> and the documents of policies build on it.
\<close>

section \<open>The table of status moves\<close>

fun REQUIREMENT_TRANSITIONS :: "DocDocumentStatus \<Rightarrow> DocDocumentStatus list" where
  "REQUIREMENT_TRANSITIONS DD_PENDING_COLLECTION = [DD_UNDER_VERIFICATION]"
| "REQUIREMENT_TRANSITIONS DD_UNDER_VERIFICATION = [DD_APPROVED, DD_REJECTED]"
| "REQUIREMENT_TRANSITIONS DD_REJECTED = [DD_UNDER_VERIFICATION]"
| "REQUIREMENT_TRANSITIONS _ = []"

definition assertValidTransition :: "DocDocumentStatus \<Rightarrow> DocDocumentStatus \<Rightarrow> app_error + unit" where
  "assertValidTransition from to =
     ensure (to \<in> set (REQUIREMENT_TRANSITIONS from)) (BusinessRuleViolationError ''Operation is not allowed.'')"

section \<open>Progress\<close>

definition counted :: "DocCaseDocument \<Rightarrow> bool" where
  "counted x \<longleftrightarrow> dd_deletedAt x = None \<and> dd_status x \<noteq> DD_NOT_APPLICABLE"

definition received :: "DocCaseDocument \<Rightarrow> bool" where
  "received x \<longleftrightarrow> dd_status x \<in> {DD_RECEIVED, DD_UNDER_VERIFICATION, DD_APPROVED, DD_MANAGER_APPROVED, DD_WAIVED}"

definition approved :: "DocCaseDocument \<Rightarrow> bool" where
  "approved x \<longleftrightarrow> dd_status x \<in> {DD_APPROVED, DD_MANAGER_APPROVED}"

definition mandatory_approved :: "DocCaseDocument \<Rightarrow> bool" where
  "mandatory_approved x \<longleftrightarrow> dd_isMandatory x \<and> dd_status x \<in> {DD_APPROVED, DD_MANAGER_APPROVED, DD_WAIVED}"

text \<open>The counters, and whether the case is ready; \<open>rnd\<close> rounds one operation to a double.\<close>

definition calcProgress :: "(rat \<Rightarrow> rat) \<Rightarrow> DocCaseDocument list \<Rightarrow> Progress \<times> bool" where
  "calcProgress rnd docs =
     (let active = filter counted docs;
          total = int (length active);
          mandatory = int (length (filter dd_isMandatory active));
          approvedDocs = int (length (filter approved active));
          mandatoryApproved = int (length (filter mandatory_approved active))
      in (\<lparr>pg_totalDocs = total,
           pg_receivedDocs = int (length (filter received active)),
           pg_verifiedDocs = int (length (filter (\<lambda>x. dd_status x \<in> {DD_UNDER_VERIFICATION, DD_APPROVED}) active)),
           pg_approvedDocs = approvedDocs,
           pg_rejectedDocs = int (length (filter (\<lambda>x. dd_status x = DD_REJECTED) active)),
           pg_mandatoryDocs = mandatory,
           pg_mandatoryApproved = mandatoryApproved,
           pg_completionPercent = (if 0 < total then js_round (rnd (rnd (of_int approvedDocs / of_int total) * 100)) else 0)\<rparr>,
          mandatory = 0 \<or> mandatory \<le> mandatoryApproved))"

text \<open>What the readiness of a case means.\<close>

lemma calc_ready:
  "snd (calcProgress rnd docs) \<longleftrightarrow>
     (\<forall>x \<in> set docs. counted x \<and> dd_isMandatory x \<longrightarrow> dd_status x \<in> {DD_APPROVED, DD_MANAGER_APPROVED, DD_WAIVED})"
proof -
  let ?a = "filter dd_isMandatory (filter counted docs)"
  let ?st = "\<lambda>x. dd_status x \<in> {DD_APPROVED, DD_MANAGER_APPROVED, DD_WAIVED}"
  have m: "filter mandatory_approved (filter counted docs) = filter ?st ?a"
    unfolding filter_filter by (rule arg_cong2 [where f = filter]) (auto simp: mandatory_approved_def)
  have le: "length (filter ?st ?a) \<le> length ?a" by (rule length_filter_le)
  have "snd (calcProgress rnd docs) \<longleftrightarrow> length ?a \<le> length (filter ?st ?a)"
    unfolding calcProgress_def Let_def snd_conv m by auto
  also have "\<dots> \<longleftrightarrow> length (filter ?st ?a) = length ?a" using le by linarith
  also have "\<dots> \<longleftrightarrow> (\<forall>x \<in> set ?a. ?st x)"
    by (metis filter_True length_filter_less less_irrefl_nat)
  also have "\<dots> \<longleftrightarrow> (\<forall>x \<in> set docs. counted x \<and> dd_isMandatory x \<longrightarrow> ?st x)"
    by auto
  finally show ?thesis .
qed

definition RECALC_MUTABLE_STATUSES :: "DocCaseStatus list" where
  "RECALC_MUTABLE_STATUSES = [DC_ACTIVE, DC_DOCUMENTATION_READY]"

definition TERMINAL_STATUSES :: "DocCaseStatus list" where
  "TERMINAL_STATUSES = [DC_CLOSED, DC_CANCELLED, DC_CLOSED_NO_DOCS]"

definition requirements_of :: "TenantContext \<Rightarrow> string \<Rightarrow> db \<Rightarrow> DocCaseDocument list" where
  "requirements_of ctx caseId d = filter (\<lambda>x. dd_caseId x = caseId \<and> dd_tenantId x = tenantId ctx) (caseDocuments d)"

text \<open>
  The recalculation: the first update is conditioned on a status that may change, the second on one
  that is not terminal and leaves the status.
\<close>

definition recalcAndUpdateCase :: "env \<Rightarrow> TenantContext \<Rightarrow> string \<Rightarrow> db \<Rightarrow> db" where
  "recalcAndUpdateCase E ctx caseId d =
     (case find_first (live_case ctx caseId) (docCases d) of
        None \<Rightarrow> d
      | Some current \<Rightarrow>
          if dc_status current \<in> set TERMINAL_STATUSES then d
          else case calcProgress (ev_rnd E) (requirements_of ctx caseId d) of
            (progress, ready) \<Rightarrow>
              (case update_many (\<lambda>c. live_case ctx caseId c \<and> dc_status c \<in> set RECALC_MUTABLE_STATUSES)
                  (\<lambda>c. c\<lparr>dc_progress := progress, dc_isReady := ready,
                     dc_status := (if ready then DC_DOCUMENTATION_READY else DC_ACTIVE)\<rparr>) (docCases d) of
                (cs, n) \<Rightarrow>
                  if n \<noteq> 0 then d\<lparr>docCases := cs\<rparr>
                  else d\<lparr>docCases := fst (update_many (\<lambda>c. live_case ctx caseId c \<and> dc_status c \<notin> set TERMINAL_STATUSES)
                         (\<lambda>c. c\<lparr>dc_progress := progress, dc_isReady := ready\<rparr>) (docCases d))\<rparr>))"

section \<open>New requirements\<close>

text \<open>A row with the defaults of the schema.\<close>

definition blank_requirement :: "env \<Rightarrow> nat \<Rightarrow> TenantContext \<Rightarrow> string \<Rightarrow> string \<Rightarrow> DocCaseDocument" where
  "blank_requirement E k ctx caseId name =
     \<lparr>dd_id = ev_uuid E k, dd_tenantId = tenantId ctx, dd_caseId = caseId, dd_name = name, dd_description = None,
      dd_isMandatory = True, dd_isBlocking = False, dd_requireDate = False, dd_requireNote = False, dd_displayOrder = 0,
      dd_verificationRequired = True, dd_expiryTrackingEnabled = False, dd_clientVisible = False, dd_clientVisibleAt = None,
      dd_deletedAt = None, dd_status = DD_PENDING_COLLECTION, dd_receivedAt = None, dd_verifiedAt = None, dd_verifiedBy = None,
      dd_verificationRemarks = None, dd_rejectionReason = None, dd_expiryDate = None, dd_metadataValues = [], dd_notes = None,
      dd_isWaived = False, dd_requirementDedupeKey = None, dd_isComponentMerged = False, dd_policyComponentId = None,
      dd_policyAssignmentId = None, dd_createdAt = ev_clock E k, dd_updatedAt = ev_clock E k\<rparr>"

text \<open>One more than the largest order of the live requirements of the case.\<close>

definition next_order :: "string \<Rightarrow> db \<Rightarrow> int" where
  "next_order caseId d =
     (case map dd_displayOrder (filter (\<lambda>x. dd_caseId x = caseId \<and> dd_deletedAt x = None) (caseDocuments d)) of
        [] \<Rightarrow> 1
      | n # ns \<Rightarrow> foldl max n ns + 1)"

record RequirementInput =
  rq_name :: string
  rq_description :: "string option"
  rq_isMandatory :: "bool option"
  rq_isBlocking :: "bool option"
  rq_displayOrder :: "int option"
  rq_verificationRequired :: "bool option"
  rq_expiryTrackingEnabled :: "bool option"
  rq_notes :: "string option"

definition given :: "'a option \<Rightarrow> 'a \<Rightarrow> 'a" where
  "given v fallback = (case v of None \<Rightarrow> fallback | Some x \<Rightarrow> x)"

definition requirement_row :: "env \<Rightarrow> TenantContext \<Rightarrow> string \<Rightarrow> RequirementInput \<Rightarrow> db \<Rightarrow> DocCaseDocument" where
  "requirement_row E ctx caseId inp d =
     (blank_requirement E 1 ctx caseId (rq_name inp))
       \<lparr>dd_description := rq_description inp, dd_isMandatory := given (rq_isMandatory inp) True,
        dd_isBlocking := given (rq_isBlocking inp) False, dd_displayOrder := given (rq_displayOrder inp) (next_order caseId d),
        dd_verificationRequired := given (rq_verificationRequired inp) True,
        dd_expiryTrackingEnabled := given (rq_expiryTrackingEnabled inp) False, dd_notes := rq_notes inp\<rparr>"

definition addDocumentToCase :: "env \<Rightarrow> TenantContext \<Rightarrow> string \<Rightarrow> RequirementInput \<Rightarrow> DocCaseDocument tx" where
  "addDocumentToCase E ctx caseId inp d =
     res_bind (loadCase ctx caseId d) (\<lambda>docCase.
     res_bind (ensure (dc_status docCase \<in> {DC_ACTIVE, DC_DOCUMENTATION_READY}) (BusinessRuleViolationError ''Operation is not allowed.'')) (\<lambda>_.
     let row = requirement_row E ctx caseId inp d
     in Inr (row, recalcAndUpdateCase E ctx caseId (d\<lparr>caseDocuments := caseDocuments d @ [row]\<rparr>))))"

section \<open>The review of a requirement\<close>

record ReviewInput =
  rv_status :: DocDocumentStatus
  rv_remarks :: "string option"
  rv_rejectionReason :: "string option"
  rv_expiryDate :: "date option"
  rv_documentDate :: "string option"

text \<open>The active file of a requirement, and the files of it that are active.\<close>

definition active_file :: "TenantContext \<Rightarrow> string \<Rightarrow> Document \<Rightarrow> bool" where
  "active_file ctx requirementId f \<longleftrightarrow> do_tenantId f = tenantId ctx \<and> do_requirementId f = Some requirementId
     \<and> do_category f = CAT_REQUIREMENT \<and> do_isActive f \<and> do_deletedAt f = None"

definition live_requirement :: "TenantContext \<Rightarrow> string \<Rightarrow> DocCaseDocument \<Rightarrow> bool" where
  "live_requirement ctx i x \<longleftrightarrow> dd_id x = i \<and> dd_tenantId x = tenantId ctx \<and> dd_deletedAt x = None"

definition load_requirement :: "TenantContext \<Rightarrow> string \<Rightarrow> db \<Rightarrow> app_error + DocCaseDocument" where
  "load_requirement ctx i d = or_throw (find_first (live_requirement ctx i) (caseDocuments d)) ResourceNotFoundError"

definition json_put :: "string \<Rightarrow> jsval \<Rightarrow> (string \<times> jsval) list \<Rightarrow> (string \<times> jsval) list" where
  "json_put key v kvs =
     (if key \<in> set (map fst kvs) then map (\<lambda>(k, x). (k, if k = key then v else x)) kvs else kvs @ [(key, v)])"

text \<open>The checks of an approval; the result is the date of the document, if one is required.\<close>

definition approval_check :: "js_engine \<Rightarrow> TenantContext \<Rightarrow> ReviewInput \<Rightarrow> DocCaseDocument \<Rightarrow> db \<Rightarrow> app_error + string option" where
  "approval_check J ctx inp x d =
     res_bind (ensure (\<exists>f \<in> set (documents d). active_file ctx (dd_id x) f)
        (ValidationError ''Cannot approve: no document has been uploaded for this requirement.'')) (\<lambda>_.
     res_bind (ensure (\<not> (dd_requireNote x \<and> trim (or_empty (rv_remarks inp)) = []))
        (ValidationError ''A verification note is required to approve this document.'')) (\<lambda>_.
     if \<not> dd_requireDate x then Inr None
     else case (if falsy (rv_documentDate inp) then None else parse_date J (or_empty (rv_documentDate inp))) of
         None \<Rightarrow> Inl (ValidationError ''A valid document date is required to approve this document.'')
       | Some t \<Rightarrow> Inr (Some (iso_string t))))"

definition reviewed :: "env \<Rightarrow> TenantContext \<Rightarrow> ReviewInput \<Rightarrow> string option \<Rightarrow> DocCaseDocument \<Rightarrow> DocCaseDocument" where
  "reviewed E ctx inp documentDate x =
     (let st = rv_status inp in x\<lparr>dd_status := st,
        dd_notes := (if falsy (rv_remarks inp) then dd_notes x
                     else Some (if falsy (dd_notes x) then or_empty (rv_remarks inp)
                                else or_empty (dd_notes x) @ [CHR 0x0A] @ or_empty (rv_remarks inp))),
        dd_verifiedAt := (if st = DD_APPROVED then Some (ev_clock E 1) else dd_verifiedAt x),
        dd_verifiedBy := (if st = DD_APPROVED \<or> st = DD_UNDER_VERIFICATION then Some (userId ctx) else dd_verifiedBy x),
        dd_verificationRemarks := (if st = DD_APPROVED then map_option trim (rv_remarks inp) else dd_verificationRemarks x),
        dd_rejectionReason := (if st = DD_REJECTED then Some (trim (or_empty (rv_rejectionReason inp))) else dd_rejectionReason x),
        dd_expiryDate := (if rv_expiryDate inp = None then dd_expiryDate x else rv_expiryDate inp),
        dd_metadataValues := (case documentDate of None \<Rightarrow> dd_metadataValues x
           | Some t \<Rightarrow> json_put ''documentDate'' (JStr t) (dd_metadataValues x)),
        dd_updatedAt := ev_clock E 2\<rparr>)"

fun status_event :: "DocDocumentStatus \<Rightarrow> DocEventType" where
  "status_event DD_RECEIVED = DOCUMENT_RECEIVED"
| "status_event DD_UNDER_VERIFICATION = DOCUMENT_VERIFIED"
| "status_event DD_APPROVED = DOCUMENT_APPROVED"
| "status_event DD_REJECTED = DOCUMENT_REJECTED"
| "status_event DD_WAIVED = DOCUMENT_WAIVED"
| "status_event _ = DOCUMENT_STATUS_CHANGED"

definition status_json :: "DocDocumentStatus \<Rightarrow> jsval" where
  "status_json st = JObj [(''status'', JStr (doc_status_name st))]"

definition status_audit :: "TenantContext \<Rightarrow> string \<Rightarrow> (string \<times> jsval) list \<Rightarrow> DocDocumentStatus \<Rightarrow> DocDocumentStatus \<Rightarrow> AuditAppendInput" where
  "status_audit ctx i payload from to =
     (audit_input (tenantId ctx) ''DOC_DOCUMENT_STATUS_CHANGED'' ''DocCaseDocument'' i (Some (userId ctx)) ''UPDATE'' payload)
       \<lparr>au_beforeState := status_json from, au_afterState := status_json to\<rparr>"

definition put_requirement :: "string \<Rightarrow> (DocCaseDocument \<Rightarrow> DocCaseDocument) \<Rightarrow> db \<Rightarrow> app_error + db" where
  "put_requirement i f d =
     res_bind (update_row (\<lambda>x. dd_id x = i) f (caseDocuments d)) (\<lambda>(_, xs). Inr (d\<lparr>caseDocuments := xs\<rparr>))"

definition deactivate_files :: "TenantContext \<Rightarrow> string \<Rightarrow> db \<Rightarrow> db" where
  "deactivate_files ctx requirementId d =
     d\<lparr>documents := fst (update_many (active_file ctx requirementId) (\<lambda>f. f\<lparr>do_isActive := False\<rparr>) (documents d))\<rparr>"

definition updateDocumentStatus :: "js_engine \<Rightarrow> env \<Rightarrow> TenantContext \<Rightarrow> string \<Rightarrow> ReviewInput \<Rightarrow> bool \<Rightarrow> DocCaseDocument tx" where
  "updateDocumentStatus J E ctx i inp canVerify d =
     res_bind (load_requirement ctx i d) (\<lambda>x.
     res_bind (assertValidTransition (dd_status x) (rv_status inp)) (\<lambda>_.
     res_bind (ensure (rv_status inp \<in> {DD_APPROVED, DD_REJECTED} \<longrightarrow> canVerify) AuthorizationError) (\<lambda>_.
     res_bind (if rv_status inp = DD_APPROVED then approval_check J ctx inp x d else Inr None) (\<lambda>documentDate.
     res_bind (ensure (rv_status inp = DD_REJECTED \<longrightarrow> trim (or_empty (rv_rejectionReason inp)) \<noteq> [])
        (ValidationError ''A rejection reason is required to reject this document.'')) (\<lambda>_.
     res_bind (put_requirement i (reviewed E ctx inp documentDate) d) (\<lambda>d1.
     let d2 = (if rv_status inp = DD_REJECTED then deactivate_files ctx i d1 else d1);
         d3 = doc_event E 3 (tenantId ctx) (dd_caseId x) i (status_event (rv_status inp)) (userId ctx)
                (Some (dd_status x, rv_status inp)) (rv_remarks inp) [] d2;
         d4 = recalcAndUpdateCase E ctx (dd_caseId x) d3
     in res_bind (audit_log_tx E 4 (status_audit ctx i [(''documentName'', JStr (dd_name x)),
            (''fromStatus'', JStr (doc_status_name (dd_status x))), (''toStatus'', JStr (doc_status_name (rv_status inp)))]
            (dd_status x) (rv_status inp)) d4) (\<lambda>d5.
        res_bind (or_throw (find_first (\<lambda>y. dd_id y = i) (caseDocuments d5)) ResourceNotFoundError) (\<lambda>y. Inr (y, d5)))))))))"

section \<open>Moves inside the transaction of an upload\<close>

text \<open>Whether the move was applied or found nothing to do; \<open>k\<close> numbers the reads.\<close>

definition transitionRequirementInTx :: "env \<Rightarrow> nat \<Rightarrow> TenantContext \<Rightarrow> string \<Rightarrow> DocDocumentStatus \<Rightarrow> bool tx" where
  "transitionRequirementInTx E k ctx i target d =
     res_bind (load_requirement ctx i d) (\<lambda>x.
     if dd_status x = target then Inr (False, d)
     else
       res_bind (assertValidTransition (dd_status x) target) (\<lambda>_.
       res_bind (put_requirement i (\<lambda>y. y\<lparr>dd_status := target,
          dd_receivedAt := (if target = DD_RECEIVED then Some (ev_clock E k) else dd_receivedAt y),
          dd_verifiedAt := (if target = DD_APPROVED then Some (ev_clock E k) else dd_verifiedAt y),
          dd_verifiedBy := (if target = DD_APPROVED then Some (userId ctx) else dd_verifiedBy y),
          dd_updatedAt := ev_clock E (k + 1)\<rparr>) d) (\<lambda>d1.
       let d2 = doc_event E (k + 2) (tenantId ctx) (dd_caseId x) i (status_event target) (userId ctx) (Some (dd_status x, target)) None [] d1
       in res_bind (audit_tx E (k + 3) (status_audit ctx i [(''fromStatus'', JStr (doc_status_name (dd_status x))),
              (''toStatus'', JStr (doc_status_name target)), (''trigger'', JStr ''FILE_UPLOAD'')] (dd_status x) target) d2) (\<lambda>d3.
          Inr (True, recalcAndUpdateCase E ctx (dd_caseId x) d3)))))"

definition resetRequirementToPendingInTx :: "env \<Rightarrow> nat \<Rightarrow> TenantContext \<Rightarrow> string \<Rightarrow> bool tx" where
  "resetRequirementToPendingInTx E k ctx i d =
     (case find_first (live_requirement ctx i) (caseDocuments d) of
        None \<Rightarrow> Inr (False, d)
      | Some x \<Rightarrow>
          if dd_status x = DD_PENDING_COLLECTION then Inr (False, d)
          else
            res_bind (put_requirement i (\<lambda>y. y\<lparr>dd_status := DD_PENDING_COLLECTION, dd_verifiedAt := None, dd_verifiedBy := None,
               dd_verificationRemarks := None, dd_rejectionReason := None, dd_receivedAt := None, dd_updatedAt := ev_clock E k\<rparr>) d) (\<lambda>d1.
            Inr (True, recalcAndUpdateCase E ctx (dd_caseId x)
              (doc_event E (k + 1) (tenantId ctx) (dd_caseId x) i DOCUMENT_STATUS_CHANGED (userId ctx)
                 (Some (dd_status x, DD_PENDING_COLLECTION)) None [] d1))))"

section \<open>References, notes and reminders\<close>

fun storage_type_name :: "DocStorageType \<Rightarrow> string" where
  "storage_type_name GOOGLE_DRIVE = ''GOOGLE_DRIVE''"
| "storage_type_name ONEDRIVE = ''ONEDRIVE''"
| "storage_type_name DROPBOX = ''DROPBOX''"
| "storage_type_name SHAREPOINT = ''SHAREPOINT''"
| "storage_type_name NAS_PATH = ''NAS_PATH''"
| "storage_type_name LOCAL_FOLDER = ''LOCAL_FOLDER''"
| "storage_type_name PHYSICAL_CABINET = ''PHYSICAL_CABINET''"
| "storage_type_name REFERENCE_NUMBER = ''REFERENCE_NUMBER''"
| "storage_type_name EMAIL_STORE = ''EMAIL''"
| "storage_type_name EXTERNAL_PORTAL = ''EXTERNAL_PORTAL''"
| "storage_type_name STORED_OFFLINE = ''STORED_OFFLINE''"
| "storage_type_name OTHER_STORE = ''OTHER''"

definition addStorageRef :: "env \<Rightarrow> TenantContext \<Rightarrow> string \<Rightarrow> DocStorageType \<Rightarrow> string \<Rightarrow> string option \<Rightarrow> DocStorageRef tx" where
  "addStorageRef E ctx documentId storageType reference label d =
     res_bind (load_requirement ctx documentId d) (\<lambda>x.
     let ref = \<lparr>sr_id = ev_uuid E 1, sr_tenantId = tenantId ctx, sr_documentId = documentId, sr_storageType = storageType,
           sr_reference = reference, sr_label = label, sr_addedBy = userId ctx, sr_createdAt = ev_clock E 1\<rparr>
     in Inr (ref, doc_event E 2 (tenantId ctx) (dd_caseId x) documentId STORAGE_REF_ADDED (userId ctx) None None
          [(''storageType'', JStr (storage_type_name storageType)), (''label'', jopt label)]
          (d\<lparr>planning := (planning d)\<lparr>storageRefs := storageRefs (planning d) @ [ref]\<rparr>\<rparr>)))"

definition note_type_name :: "DocNoteType \<Rightarrow> string" where
  "note_type_name ty = (case ty of NOTE_INTERNAL \<Rightarrow> ''INTERNAL'' | NOTE_CUSTOMER \<Rightarrow> ''CUSTOMER'')"

text \<open>No transaction: the note and its event are two writes. The type of a note is not read anywhere.\<close>

definition addNote :: "env \<Rightarrow> TenantContext \<Rightarrow> string \<Rightarrow> DocNoteType \<Rightarrow> string \<Rightarrow> DocCaseNote handler" where
  "addNote E ctx caseId noteType content d =
     (case loadCase ctx caseId d of
        Inl e \<Rightarrow> (Inl e, d)
      | Inr _ \<Rightarrow>
          let row = \<lparr>dn_id = ev_uuid E 1, dn_tenantId = tenantId ctx, dn_caseId = caseId, dn_content = content, dn_clientVisible = False,
                dn_clientVisibleAt = None, dn_createdAt = ev_clock E 1, dn_deletedAt = None\<rparr>
          in (Inr row, case_event E 2 (tenantId ctx) caseId NOTE_ADDED (Some (userId ctx)) [(''noteType'', JStr (note_type_name noteType))]
                (d\<lparr>caseNotes := caseNotes d @ [row]\<rparr>)))"

definition addReminder :: "env \<Rightarrow> TenantContext \<Rightarrow> string \<Rightarrow> date \<Rightarrow> date option \<Rightarrow> string option \<Rightarrow> string option \<Rightarrow> DocReminder handler" where
  "addReminder E ctx caseId reminderDate dueDate message documentId d =
     (case loadCase ctx caseId d of
        Inl e \<Rightarrow> (Inl e, d)
      | Inr _ \<Rightarrow>
          let row = \<lparr>rm_id = ev_uuid E 1, rm_tenantId = tenantId ctx, rm_caseId = caseId, rm_documentId = documentId,
                rm_reminderDate = reminderDate, rm_dueDate = dueDate, rm_message = message, rm_createdBy = userId ctx\<rparr>
          in (Inr row, d\<lparr>planning := (planning d)\<lparr>reminders := reminders (planning d) @ [row]\<rparr>\<rparr>))"

section \<open>Concrete environments\<close>

definition small_env :: "nat \<Rightarrow> env" where
  "small_env n = (env_at n)\<lparr>ev_clock := int\<rparr>"

lemma small_env_simps [simp]:
  "ev_audit (small_env n) = env_plain" "ev_clock (small_env n) = int" "ev_uuid (small_env n) k = ''u'' @ nat_str (100 * n + k)"
  "ev_rnd (small_env n) = id"
  by (simp_all add: small_env_def env_at_def env_one_def)

text \<open>A log of one tenant whose hashes grow, as an identity in place of the hash function leaves it.\<close>

definition growing :: "AuditLog list \<Rightarrow> string \<Rightarrow> bool" where
  "growing rows t \<longleftrightarrow> chain_ok rows \<and> tenant_log rows t = rows
     \<and> (\<forall>r \<in> set rows. length (al_currentHash r) \<le> length (al_currentHash (last rows)))"

lemma growing_empty: "growing [] t"
  by (simp add: growing_def chain_ok_def tenant_log_def linked_def)

lemma longer_hash: "length h < length (hash_text 1 (Some h) a b c n)"
  by (simp add: hash_text_def int_str_def nat_str.simps [of "Suc 0"])

lemma plain_append:
  assumes "growing rows (au_tenantId input)" "st_id st \<notin> al_id ` set rows"
  shows "\<exists>r. appendInTx env_plain st input rows = Inr (r, rows @ [r]) \<and> al_id r = st_id st \<and> growing (rows @ [r]) (au_tenantId input)"
proof -
  have g: "chain_ok rows" "tenant_log rows (au_tenantId input) = rows"
    "\<forall>r \<in> set rows. length (al_currentHash r) \<le> length (al_currentHash (last rows))" using assms(1) by (simp_all add: growing_def)
  let ?prev = "if rows = [] then None else Some (al_currentHash (last rows))"
  have leaf: "findLeaf env_plain rows (au_tenantId input) = Inr ?prev"
  proof -
    have "linked (tenant_log rows (au_tenantId input))" "distinct (map al_currentHash (tenant_log rows (au_tenantId input)))"
      using g(1) by (simp_all add: chain_ok_def)
    from findLeaf_linked [OF env_plain_law this] show ?thesis unfolding g(2) .
  qed
  let ?h = "hash_text 1 ?prev (au_payload input) (au_beforeState input) (au_afterState input) (st_now st)"
  have long: "length (al_currentHash q) < length ?h" if "q \<in> set rows" for q
  proof -
    have "length (al_currentHash q) \<le> length (al_currentHash (last rows))" using g(3) that by blast
    also have "length (al_currentHash (last rows)) < length ?h"
    proof -
      have "?prev = Some (al_currentHash (last rows))" using that by auto
      then show ?thesis using longer_hash by metis
    qed
    finally show ?thesis .
  qed
  have "\<not> (al_id q = st_id st \<or> al_tenantId q = au_tenantId input \<and> al_currentHash q = ?h)" if q: "q \<in> set rows" for q
  proof -
    have "al_id q \<noteq> st_id st" using assms(2) q by (metis image_eqI)
    moreover have "al_currentHash q \<noteq> ?h" using long [OF q] by (metis less_irrefl)
    ultimately show ?thesis by blast
  qed
  then have new: "(\<exists>q \<in> set rows. al_id q = st_id st \<or> al_tenantId q = au_tenantId input \<and> al_currentHash q = ?h) = False" by blast
  have plain: "sha256 env_plain x = x" for x by (simp add: env_plain_def)
  have "\<exists>r. appendInTx env_plain st input rows = Inr (r, rows @ [r]) \<and> al_id r = st_id st \<and> al_currentHash r = ?h \<and> al_tenantId r = au_tenantId input"
    unfolding appendInTx_def leaf res_bind_simps Let_def plain by (simp add: new)
  then obtain r where r: "appendInTx env_plain st input rows = Inr (r, rows @ [r])" "al_id r = st_id st" "al_currentHash r = ?h"
    "al_tenantId r = au_tenantId input" by blast
  have "chain_ok (rows @ [r])" using append_chain [OF env_plain_law g(1) r(1)] .
  moreover have "tenant_log (rows @ [r]) (au_tenantId input) = rows @ [r]" using g(2) r(4) by (simp add: tenant_log_def)
  moreover have "\<forall>q \<in> set (rows @ [r]). length (al_currentHash q) \<le> length (al_currentHash (last (rows @ [r])))"
    unfolding last_snoc r(3) using long r(3) by (simp add: less_imp_le ball_Un)
  ultimately have "growing (rows @ [r]) (au_tenantId input)" unfolding growing_def by (intro conjI)
  then show ?thesis using r(1,2) by blast
qed

lemma plain_audit:
  assumes "ev_audit E = env_plain" "growing (auditRows d) (au_tenantId input)" "ev_uuid E k \<notin> al_id ` set (auditRows d)"
  shows "\<exists>r. audit_tx E k input d = Inr (d\<lparr>auditRows := auditRows d @ [r]\<rparr>) \<and> al_id r = ev_uuid E k
     \<and> growing (auditRows d @ [r]) (au_tenantId input)"
  using plain_append [OF assms(2), of "stamp_of E k"] assms(1,3) by (auto simp: audit_tx_def stamp_of_def)
end
