(* ===== verification/Preset_Service.thy ===== *)
theory Preset_Service
  imports Requirement_Service Handoff_Service
begin

text \<open>
  The presets of requirements in \<^verbatim>\<open>src/src/services/documentation.service.ts\<close>: creating, updating
  and deleting a preset, its versions, and the creation of a case from a preset. The unique indexes
  of the tables count deleted rows too.
\<close>

section \<open>Rows\<close>

record ItemInput =
  ii_name :: string
  ii_description :: "string option"
  ii_isMandatory :: "bool option"
  ii_isBlocking :: "bool option"
  ii_displayOrder :: "int option"
  ii_verificationRequired :: "bool option"
  ii_expiryTrackingEnabled :: "bool option"
  ii_expiryDays :: "int option"
  ii_metadataFields :: "jsval option"
  ii_notes :: "string option"
  ii_conditionRule :: "jsval option"

text \<open>Item number \<open>i\<close> of an input, whose id is number \<open>k + i\<close> of the call.\<close>

definition item_row :: "env \<Rightarrow> nat \<Rightarrow> TenantContext \<Rightarrow> string \<Rightarrow> nat \<times> ItemInput \<Rightarrow> DocPresetItem" where
  "item_row E k ctx presetId p =
     (case p of (i, inp) \<Rightarrow>
       \<lparr>pi_id = ev_uuid E (k + i), pi_presetId = presetId, pi_tenantId = tenantId ctx, pi_name = ii_name inp,
        pi_description = ii_description inp, pi_isMandatory = given (ii_isMandatory inp) True,
        pi_isBlocking = given (ii_isBlocking inp) False, pi_displayOrder = given (ii_displayOrder inp) (int i),
        pi_verificationRequired = given (ii_verificationRequired inp) True,
        pi_expiryTrackingEnabled = given (ii_expiryTrackingEnabled inp) False, pi_expiryDays = ii_expiryDays inp,
        pi_metadataFields = given (ii_metadataFields inp) (JArr []), pi_notes = ii_notes inp,
        pi_conditionRule = given (ii_conditionRule inp) JNull, pi_deletedAt = None\<rparr>)"

definition item_rows :: "env \<Rightarrow> nat \<Rightarrow> TenantContext \<Rightarrow> string \<Rightarrow> ItemInput list \<Rightarrow> DocPresetItem list" where
  "item_rows E k ctx presetId items = map (item_row E k ctx presetId) (enumerate 0 items)"

definition items_of :: "string \<Rightarrow> db \<Rightarrow> DocPresetItem list" where
  "items_of presetId d =
     sort_key pi_displayOrder (filter (\<lambda>i. pi_presetId i = presetId \<and> pi_deletedAt i = None) (presetItems (planning d)))"

definition insert_preset :: "DocPreset \<Rightarrow> db \<Rightarrow> app_error + db" where
  "insert_preset p d =
     (if (\<exists>q \<in> set (presets (planning d)). pr_id q = pr_id p \<or> pr_tenantId q = pr_tenantId p \<and> pr_name q = pr_name p) then Inl UniqueViolation
      else Inr (d\<lparr>planning := (planning d)\<lparr>presets := presets (planning d) @ [p]\<rparr>\<rparr>))"

definition insert_version :: "DocPresetVersion \<Rightarrow> db \<Rightarrow> app_error + db" where
  "insert_version v d =
     (if (\<exists>q \<in> set (presetVersions (planning d)). pv_presetId q = pv_presetId v \<and> pv_version q = pv_version v) then Inl UniqueViolation
      else Inr (d\<lparr>planning := (planning d)\<lparr>presetVersions := presetVersions (planning d) @ [v]\<rparr>\<rparr>))"

text \<open>An update that may rename a preset, under the same unique index.\<close>

definition put_preset :: "string \<Rightarrow> (DocPreset \<Rightarrow> DocPreset) \<Rightarrow> db \<Rightarrow> app_error + DocPreset \<times> db" where
  "put_preset i f d =
     res_bind (update_row (\<lambda>p. pr_id p = i) f (presets (planning d))) (\<lambda>(p, ps).
     if (\<exists>q \<in> set (presets (planning d)). pr_id q \<noteq> i \<and> pr_tenantId q = pr_tenantId p \<and> pr_name q = pr_name p) then Inl UniqueViolation
     else Inr (p, d\<lparr>planning := (planning d)\<lparr>presets := ps\<rparr>\<rparr>))"

definition put_items :: "DocPresetItem list \<Rightarrow> db \<Rightarrow> db" where
  "put_items is d = d\<lparr>planning := (planning d)\<lparr>presetItems := is\<rparr>\<rparr>"

definition find_preset :: "TenantContext \<Rightarrow> string \<Rightarrow> db \<Rightarrow> app_error + DocPreset" where
  "find_preset ctx i d =
     or_throw (find_first (\<lambda>p. pr_id p = i \<and> pr_tenantId p = tenantId ctx \<and> pr_deletedAt p = None) (presets (planning d)))
       ResourceNotFoundError"

definition preset_named :: "TenantContext \<Rightarrow> string \<Rightarrow> DocPreset \<Rightarrow> bool" where
  "preset_named ctx name p \<longleftrightarrow> pr_tenantId p = tenantId ctx \<and> pr_name p = name \<and> pr_deletedAt p = None"

fun category_name :: "DocPresetCategory \<Rightarrow> string" where
  "category_name GOVERNMENT = ''GOVERNMENT''"
| "category_name FINANCIAL = ''FINANCIAL''"
| "category_name LEGAL = ''LEGAL''"
| "category_name OPERATIONAL = ''OPERATIONAL''"
| "category_name COMPLIANCE = ''COMPLIANCE''"
| "category_name CUSTOM = ''CUSTOM''"

section \<open>Creating a preset\<close>

record PresetInput =
  pn_name :: "string option"
  pn_description :: "string option"
  pn_category :: "DocPresetCategory option"
  pn_color :: "string option"
  pn_icon :: "string option"
  pn_items :: "ItemInput list"

definition new_preset :: "env \<Rightarrow> TenantContext \<Rightarrow> string \<Rightarrow> PresetInput \<Rightarrow> DocPreset" where
  "new_preset E ctx name inp =
     \<lparr>pr_id = ev_uuid E 1, pr_tenantId = tenantId ctx, pr_name = name, pr_description = pn_description inp,
      pr_category = given (pn_category inp) CUSTOM, pr_color = pn_color inp, pr_icon = pn_icon inp, pr_isActive = True,
      pr_version = 1, pr_usageCount = 0, pr_createdBy = userId ctx, pr_updatedBy = None, pr_deletedAt = None\<rparr>"

definition version_row :: "env \<Rightarrow> TenantContext \<Rightarrow> DocPreset \<Rightarrow> DocPresetItem list \<Rightarrow> string \<Rightarrow> DocPresetVersion" where
  "version_row E ctx p is changeNote =
     \<lparr>pv_id = ev_uuid E 2, pv_presetId = pr_id p, pv_tenantId = tenantId ctx, pv_version = pr_version p, pv_snapshot = (p, is),
      pv_changedBy = userId ctx, pv_changeNote = Some changeNote, pv_createdAt = ev_clock E 2\<rparr>"

definition preset_audit :: "TenantContext \<Rightarrow> string \<Rightarrow> string \<Rightarrow> string \<Rightarrow> (string \<times> jsval) list \<Rightarrow> AuditAppendInput" where
  "preset_audit ctx eventType i operation payload =
     audit_input (tenantId ctx) eventType ''DocPreset'' i (Some (userId ctx)) operation payload"

definition createPreset :: "env \<Rightarrow> TenantContext \<Rightarrow> PresetInput \<Rightarrow> DocPreset tx" where
  "createPreset E ctx inp d =
     (let name = trim (or_empty (pn_name inp)) in
      res_bind (ensure (name \<noteq> []) (ValidationError ''Preset name is required.'')) (\<lambda>_.
      res_bind (ensure (\<forall>p \<in> set (presets (planning d)). \<not> preset_named ctx name p) (DuplicateResourceError ''Resource already exists.'')) (\<lambda>_.
      let p = new_preset E ctx name inp
      in res_bind (insert_preset p d) (\<lambda>d1.
         let d2 = put_items (presetItems (planning d1) @ item_rows E 10 ctx (pr_id p) (pn_items inp)) d1
         in res_bind (insert_version (version_row E ctx p (items_of (pr_id p) d2) ''Initial version'') d2) (\<lambda>d3.
         res_bind (audit_log_tx E 3 (preset_audit ctx ''DOC_PRESET_CREATED'' (pr_id p) ''CREATE''
              [(''name'', JStr (pr_name p)), (''category'', JStr (category_name (pr_category p)))]) d3) (\<lambda>d4.
         Inr (p, d4)))))))"

section \<open>Updating and deleting a preset\<close>

text \<open>A field that is absent is kept; \<open>Some None\<close> is an explicit null.\<close>

record PresetUpdate =
  pu_name :: "string option"
  pu_description :: "string option option"
  pu_category :: "DocPresetCategory option"
  pu_color :: "string option option"
  pu_icon :: "string option option"
  pu_isActive :: "bool option"
  pu_changeNote :: "string option"
  pu_items :: "ItemInput list option"

definition updated_preset :: "TenantContext \<Rightarrow> PresetUpdate \<Rightarrow> DocPreset \<Rightarrow> DocPreset" where
  "updated_preset ctx inp p =
     p\<lparr>pr_name := (case pu_name inp of None \<Rightarrow> pr_name p | Some n \<Rightarrow> trim n),
       pr_description := given (pu_description inp) (pr_description p), pr_category := given (pu_category inp) (pr_category p),
       pr_color := given (pu_color inp) (pr_color p), pr_icon := given (pu_icon inp) (pr_icon p),
       pr_isActive := given (pu_isActive inp) (pr_isActive p), pr_version := pr_version p + 1, pr_updatedBy := Some (userId ctx)\<rparr>"

definition replace_items :: "env \<Rightarrow> TenantContext \<Rightarrow> string \<Rightarrow> ItemInput list \<Rightarrow> db \<Rightarrow> db" where
  "replace_items E ctx presetId items d =
     put_items (fst (update_many (\<lambda>i. pi_presetId i = presetId \<and> pi_tenantId i = tenantId ctx \<and> pi_deletedAt i = None)
         (\<lambda>i. i\<lparr>pi_deletedAt := Some (ev_clock E 4)\<rparr>) (presetItems (planning d))) @ item_rows E 10 ctx presetId items) d"

definition version_json :: "int \<Rightarrow> jsval" where
  "version_json n = JObj [(''version'', jint n)]"

definition updatePreset :: "env \<Rightarrow> TenantContext \<Rightarrow> string \<Rightarrow> PresetUpdate \<Rightarrow> DocPreset tx" where
  "updatePreset E ctx i inp d =
     res_bind (find_preset ctx i d) (\<lambda>p.
     let name = trim (or_empty (pu_name inp)) in
     res_bind (ensure (falsy (pu_name inp) \<or> name = pr_name p \<or> (\<forall>q \<in> set (presets (planning d)). \<not> (preset_named ctx name q \<and> pr_id q \<noteq> i)))
        (DuplicateResourceError ''Resource already exists.'')) (\<lambda>_.
     let changeNote = given (pu_changeNote inp) (''Updated to v'' @ int_str (pr_version p + 1));
         old = filter (\<lambda>x. pi_presetId x = i \<and> pi_deletedAt x = None) (presetItems (planning d))
     in res_bind (insert_version (version_row E ctx p old changeNote) d) (\<lambda>d1.
     let d2 = (case pu_items inp of None \<Rightarrow> d1 | Some items \<Rightarrow> replace_items E ctx i items d1)
     in res_bind (put_preset i (updated_preset ctx inp) d2) (\<lambda>(p', d3).
     res_bind (audit_log_tx E 5 ((preset_audit ctx ''DOC_PRESET_UPDATED'' i ''UPDATE''
            [(''name'', JStr (pr_name p')), (''newVersion'', jint (pr_version p + 1))])
          \<lparr>au_beforeState := version_json (pr_version p), au_afterState := version_json (pr_version p + 1)\<rparr>) d3) (\<lambda>d4.
     Inr (p', d4))))))"

definition getPreset :: "TenantContext \<Rightarrow> string \<Rightarrow> db \<Rightarrow> app_error + DocPreset \<times> DocPresetItem list \<times> DocPresetVersion list" where
  "getPreset ctx i d =
     res_bind (find_preset ctx i d) (\<lambda>p.
     Inr (p, items_of i d, take 20 (sort_key (\<lambda>v. - pv_version v) (filter (\<lambda>v. pv_presetId v = i) (presetVersions (planning d))))))"

definition deletePreset :: "env \<Rightarrow> TenantContext \<Rightarrow> string \<Rightarrow> unit tx" where
  "deletePreset E ctx i d =
     res_bind (find_preset ctx i d) (\<lambda>p.
     res_bind (ensure (filter (\<lambda>c. dc_presetId c = Some i) (docCases d) = []) (BusinessRuleViolationError ''Operation is not allowed.'')) (\<lambda>_.
     res_bind (put_preset i (\<lambda>q. q\<lparr>pr_deletedAt := Some (ev_clock E 1), pr_updatedBy := Some (userId ctx)\<rparr>) d) (\<lambda>(_, d1).
     res_bind (audit_log_tx E 2 (preset_audit ctx ''DOC_PRESET_DELETED'' i ''DELETE'' [(''name'', JStr (pr_name p))]) d1) (\<lambda>d2.
     Inr ((), d2)))))"

section \<open>A case from a preset\<close>

record CaseInput =
  cn_leadId :: "string option"
  cn_presetId :: "string option"
  cn_assignedTo :: "string option"
  cn_dueDate :: "date option"
  cn_priority :: "int option"
  cn_notes :: "string option"

definition active_preset :: "TenantContext \<Rightarrow> string \<Rightarrow> DocPreset \<Rightarrow> bool" where
  "active_preset ctx i p \<longleftrightarrow> pr_id p = i \<and> pr_tenantId p = tenantId ctx \<and> pr_deletedAt p = None \<and> pr_isActive p"

definition case_row :: "env \<Rightarrow> TenantContext \<Rightarrow> CaseInput \<Rightarrow> int option \<Rightarrow> DocCase" where
  "case_row E ctx inp version =
     (blank_case (ev_uuid E 1) ctx (or_empty (cn_leadId inp)) (cn_presetId inp))
       \<lparr>dc_presetVersion := version, dc_assignedTo := cn_assignedTo inp, dc_dueDate := cn_dueDate inp,
        dc_priority := given (cn_priority inp) 0, dc_notes := cn_notes inp\<rparr>"

definition item_requirement :: "env \<Rightarrow> TenantContext \<Rightarrow> string \<Rightarrow> nat \<times> DocPresetItem \<Rightarrow> DocCaseDocument" where
  "item_requirement E ctx caseId p =
     (case p of (i, x) \<Rightarrow> (blank_requirement E (10 + i) ctx caseId (pi_name x))
        \<lparr>dd_description := pi_description x, dd_isMandatory := pi_isMandatory x, dd_isBlocking := pi_isBlocking x,
         dd_displayOrder := pi_displayOrder x, dd_verificationRequired := pi_verificationRequired x,
         dd_expiryTrackingEnabled := pi_expiryTrackingEnabled x\<rparr>)"

text \<open>The requirements of the preset, the first progress of the case and the use of the preset.\<close>

definition apply_preset :: "env \<Rightarrow> TenantContext \<Rightarrow> string \<Rightarrow> DocPreset \<Rightarrow> db \<Rightarrow> app_error + db" where
  "apply_preset E ctx caseId p d =
     (let d1 = d\<lparr>caseDocuments := caseDocuments d @ map (item_requirement E ctx caseId) (enumerate 0 (items_of (pr_id p) d))\<rparr>;
          docs = filter (\<lambda>x. dd_caseId x = caseId \<and> dd_deletedAt x = None) (caseDocuments d1)
      in case calcProgress (ev_rnd E) docs of (progress, ready) \<Rightarrow>
         res_bind (update_row (\<lambda>c. dc_id c = caseId) (\<lambda>c. c\<lparr>dc_progress := progress, dc_isReady := ready\<rparr>) (docCases d1)) (\<lambda>(_, cs).
         res_bind (put_preset (pr_id p) (\<lambda>q. q\<lparr>pr_usageCount := pr_usageCount q + 1\<rparr>) (d1\<lparr>docCases := cs\<rparr>)) (\<lambda>(_, d2). Inr d2)))"

definition case_created :: "env \<Rightarrow> TenantContext \<Rightarrow> string \<Rightarrow> CaseInput \<Rightarrow> int option \<Rightarrow> db \<Rightarrow> db" where
  "case_created E ctx caseId inp version d =
     (let refs = [(''leadId'', jopt (cn_leadId inp)), (''presetId'', jopt (cn_presetId inp))];
          d1 = case_event E 2 (tenantId ctx) caseId CASE_CREATED (Some (userId ctx)) refs d
      in if falsy (cn_presetId inp) then d1
         else case_event E 3 (tenantId ctx) caseId PRESET_APPLIED (Some (userId ctx))
                [(''presetId'', jopt (cn_presetId inp)), (''version'', case version of None \<Rightarrow> JNull | Some v \<Rightarrow> jint v)] d1)"

text \<open>The case with its requirements, without the final read of the whole case.\<close>

definition createCase :: "env \<Rightarrow> TenantContext \<Rightarrow> CaseInput \<Rightarrow> string tx" where
  "createCase E ctx inp d =
     res_bind (ensure (\<not> falsy (cn_leadId inp)) (ValidationError ''leadId is required.'')) (\<lambda>_.
     res_bind (or_throw (find_first (\<lambda>l. ld_id l = or_empty (cn_leadId inp) \<and> ld_tenantId l = tenantId ctx \<and> ld_deletedAt l = None) (leads d))
        ResourceNotFoundError) (\<lambda>_.
     res_bind (ensure (\<forall>c \<in> set (docCases d). \<not> (dc_tenantId c = tenantId ctx \<and> Some (dc_leadId c) = cn_leadId inp \<and> dc_deletedAt c = None))
        (DuplicateResourceError ''Resource already exists.'')) (\<lambda>_.
     res_bind (if falsy (cn_presetId inp) then Inr None
        else map_sum id Some (or_throw (find_first (active_preset ctx (or_empty (cn_presetId inp))) (presets (planning d))) ResourceNotFoundError)) (\<lambda>preset.
     let row = case_row E ctx inp (map_option pr_version preset)
     in res_bind (create_case row (docCases d)) (\<lambda>(_, cs).
        let d1 = d\<lparr>docCases := cs\<rparr>
        in res_bind (case preset of None \<Rightarrow> Inr d1 | Some p \<Rightarrow> apply_preset E ctx (dc_id row) p d1) (\<lambda>d2.
        res_bind (audit_log_tx E 4 (audit_input (tenantId ctx) ''DOC_CASE_CREATED'' ''DocCase'' (dc_id row) (Some (userId ctx)) ''CREATE''
            [(''leadId'', jopt (cn_leadId inp)), (''presetId'', jopt (cn_presetId inp)),
             (''documentCount'', jint (case preset of None \<Rightarrow> 0 | Some p \<Rightarrow> int (length (items_of (pr_id p) d))))])
          (case_created E ctx (dc_id row) inp (map_option pr_version preset) d2)) (\<lambda>d3.
        Inr (dc_id row, d3))))))))"

end
