(* ===== verification/Preset_System.thy ===== *)
theory Preset_System
  imports Preset_Service
begin

text \<open>
  Presets over time: which updates can succeed, which names can be taken, and what a case created
  from a preset holds.
\<close>

section \<open>What the operations leave\<close>

definition versions :: "db \<Rightarrow> DocPresetVersion list" where
  "versions d = presetVersions (planning d)"

text \<open>Every preset has a version row of the version it is at.\<close>

definition version_logged :: "db \<Rightarrow> bool" where
  "version_logged d \<longleftrightarrow>
     (\<forall>p \<in> set (presets (planning d)). \<exists>v \<in> set (versions d). pv_presetId v = pr_id p \<and> pv_version v = pr_version p)"

lemma version_loggedD:
  "version_logged d \<Longrightarrow> p \<in> set (presets (planning d)) \<Longrightarrow> \<exists>v \<in> set (versions d). pv_presetId v = pr_id p \<and> pv_version v = pr_version p"
  by (simp add: version_logged_def)

lemma insert_preset_Inr:
  "insert_preset p d = Inr d' \<longleftrightarrow> (\<forall>q \<in> set (presets (planning d)). pr_id q \<noteq> pr_id p \<and> (pr_tenantId q, pr_name q) \<noteq> (pr_tenantId p, pr_name p))
     \<and> d' = d\<lparr>planning := (planning d)\<lparr>presets := presets (planning d) @ [p]\<rparr>\<rparr>"
  by (auto simp: insert_preset_def)

lemma insert_version_Inr:
  "insert_version v d = Inr d' \<longleftrightarrow> (\<forall>q \<in> set (versions d). \<not> (pv_presetId q = pv_presetId v \<and> pv_version q = pv_version v))
     \<and> d' = d\<lparr>planning := (planning d)\<lparr>presetVersions := versions d @ [v]\<rparr>\<rparr>"
  by (auto simp: insert_version_def versions_def)

lemma find_preset_Inr:
  "find_preset ctx i d = Inr p \<Longrightarrow> p \<in> set (presets (planning d)) \<and> pr_id p = i \<and> pr_tenantId p = tenantId ctx \<and> pr_deletedAt p = None"
  by (auto simp: find_preset_def or_throw_def split: option.splits dest: find_first_SomeD)

text \<open>What a successful creation leaves.\<close>

lemma createPreset_Inr:
  assumes "createPreset E ctx inp d = Inr (p, d')"
  shows "p = new_preset E ctx (trim (or_empty (pn_name inp))) inp
     \<and> presets (planning d') = presets (planning d) @ [p]
     \<and> (\<exists>v. versions d' = versions d @ [v] \<and> pv_presetId v = pr_id p \<and> pv_version v = pr_version p)
     \<and> presetItems (planning d') = presetItems (planning d) @ item_rows E 10 ctx (pr_id p) (pn_items inp)"
  using assms unfolding createPreset_def Let_def res_bind_Inr_iff
  by (auto simp: insert_preset_Inr insert_version_Inr audit_log_tx_Inr versions_def put_items_def version_row_def)

lemma put_preset_Inr:
  "put_preset i f d = Inr (p, d') \<Longrightarrow> d' = d\<lparr>planning := (planning d)\<lparr>presets := fst (update_many (\<lambda>p. pr_id p = i) f (presets (planning d)))\<rparr>\<rparr>"
  by (auto simp: put_preset_def res_bind_Inr_iff update_row_Inr split: if_splits)

lemma deletePreset_Inr:
  assumes "deletePreset E ctx i d = Inr (u, d')"
  shows "presets (planning d') = fst (update_many (\<lambda>p. pr_id p = i)
       (\<lambda>q. q\<lparr>pr_deletedAt := Some (ev_clock E 1), pr_updatedBy := Some (userId ctx)\<rparr>) (presets (planning d)))
     \<and> versions d' = versions d"
  using assms unfolding deletePreset_def
  by (auto simp: res_bind_Inr_iff audit_log_tx_Inr versions_def dest!: put_preset_Inr)

lemma version_logged_create:
  assumes "version_logged d" "createPreset E ctx inp d = Inr (p, d')"
  shows "version_logged d'"
  using assms(1) createPreset_Inr [OF assms(2)] unfolding version_logged_def by auto

text \<open>The keys of the presets.\<close>

definition preset_keys :: "db \<Rightarrow> bool" where
  "preset_keys d \<longleftrightarrow> distinct (map pr_id (presets (planning d)))
     \<and> distinct (map (\<lambda>p. (pr_tenantId p, pr_name p)) (presets (planning d)))"

lemma preset_keys_create:
  assumes "preset_keys d" "createPreset E ctx inp d = Inr (p, d')"
  shows "preset_keys d'"
proof -
  from assms(2) obtain d1 where "insert_preset p d = Inr d1"
    unfolding createPreset_def Let_def by (auto simp: res_bind_Inr_iff)
  then have new: "pr_id p \<notin> pr_id ` set (presets (planning d))"
      "(pr_tenantId p, pr_name p) \<notin> (\<lambda>p. (pr_tenantId p, pr_name p)) ` set (presets (planning d))"
    unfolding insert_preset_Inr image_iff by metis+
  have "presets (planning d') = presets (planning d) @ [p]" using createPreset_Inr [OF assms(2)] by blast
  then show ?thesis using assms(1) new unfolding preset_keys_def by simp
qed

lemma preset_keys_map:
  assumes "preset_keys d" "presets (planning d') = fst (update_many P f (presets (planning d)))"
    "\<And>p. pr_id (f p) = pr_id p \<and> pr_tenantId (f p) = pr_tenantId p \<and> pr_name (f p) = pr_name p"
  shows "preset_keys d'"
proof -
  have "map pr_id (fst (update_many P f (presets (planning d)))) = map pr_id (presets (planning d))"
    "map (\<lambda>p. (pr_tenantId p, pr_name p)) (fst (update_many P f (presets (planning d)))) = map (\<lambda>p. (pr_tenantId p, pr_name p)) (presets (planning d))"
    using assms(3) by (simp_all add: update_many_def)
  then show ?thesis using assms(1,2) by (simp add: preset_keys_def)
qed

text \<open>An update of some presets that keeps their ids and versions.\<close>

lemma version_logged_map:
  assumes "version_logged d" "versions d' = versions d"
    "presets (planning d') = fst (update_many P f (presets (planning d)))" "\<And>p. pr_id (f p) = pr_id p \<and> pr_version (f p) = pr_version p"
  shows "version_logged d'"
  unfolding version_logged_def assms(2,3) set_update_many
proof
  fix r assume "r \<in> (\<lambda>r. if P r then f r else r) ` set (presets (planning d))"
  then obtain p where p: "p \<in> set (presets (planning d))" "r = (if P p then f p else p)" by blast
  have "pr_id r = pr_id p \<and> pr_version r = pr_version p" using p(2) assms(4) by simp
  then show "\<exists>v \<in> set (versions d). pv_presetId v = pr_id r \<and> pv_version v = pr_version r"
    using version_loggedD [OF assms(1) p(1)] by simp
qed

text \<open>An update inserts the row of the current version before it raises the version.\<close>

lemma updatePreset_refused:
  assumes "version_logged d" "find_preset ctx i d = Inr p"
  shows "updatePreset E ctx i inp d = Inl UniqueViolation
     \<or> pu_name inp \<noteq> None \<and> updatePreset E ctx i inp d = Inl (DuplicateResourceError ''Resource already exists.'')"
proof -
  have p: "p \<in> set (presets (planning d))" "pr_id p = i" using find_preset_Inr [OF assms(2)] by simp_all
  have "insert_version (version_row E ctx p xs n) d = Inl UniqueViolation" for xs n
    using version_loggedD [OF assms(1) p(1)] by (auto simp: insert_version_def version_row_def versions_def)
  then show ?thesis using assms(2) by (auto simp: updatePreset_def Let_def ensure_def falsy_def)
qed

section \<open>Reachable tables\<close>

text \<open>The transactions on presets that committed; one that fails changes nothing.\<close>

inductive preset_step :: "db \<Rightarrow> db \<Rightarrow> bool" where
  ps_create: "createPreset E ctx inp d = Inr (p, d') \<Longrightarrow> preset_step d d'"
| ps_update: "updatePreset E ctx i upd d = Inr (p, d') \<Longrightarrow> preset_step d d'"
| ps_delete: "deletePreset E ctx i d = Inr (u, d') \<Longrightarrow> preset_step d d'"
| ps_case: "createCase E ctx ci d = Inr (c, d') \<Longrightarrow> preset_step d d'"

inductive_cases preset_stepE: "preset_step d d'"

inductive preset_reach :: "db \<Rightarrow> bool" where
  pr_start: "presets (planning d) = [] \<Longrightarrow> preset_reach d"
| pr_next: "preset_reach d \<Longrightarrow> preset_step d d' \<Longrightarrow> preset_reach d'"

lemma case_event_planning: "planning (case_event E k t c ev a p d) = planning d"
  by simp

lemma apply_preset_Inr:
  assumes "apply_preset E ctx c p d = Inr d'"
  shows "versions d' = versions d \<and> presets (planning d') = fst (update_many (\<lambda>q. pr_id q = pr_id p)
       (\<lambda>q. q\<lparr>pr_usageCount := pr_usageCount q + 1\<rparr>) (presets (planning d)))"
  using assms by (auto simp: apply_preset_def res_bind_Inr_iff versions_def Let_def split: prod.splits dest!: put_preset_Inr)

lemma case_created_planning: "planning (case_created E ctx c inp v d) = planning d"
  by (simp add: case_created_def Let_def)

lemma createCase_Inr:
  assumes "createCase E ctx inp d = Inr (c, d')"
  shows "\<exists>preset d2. c = ev_uuid E 1
     \<and> (preset = None \<and> falsy (cn_presetId inp)
        \<or> (\<exists>p \<in> set (presets (planning d)). preset = Some p \<and> active_preset ctx (or_empty (cn_presetId inp)) p \<and> \<not> falsy (cn_presetId inp)))
     \<and> create_case (case_row E ctx inp (map_option pr_version preset)) (docCases d)
         = Inr (case_row E ctx inp (map_option pr_version preset), docCases d @ [case_row E ctx inp (map_option pr_version preset)])
     \<and> (case preset of None \<Rightarrow> Inr (d\<lparr>docCases := docCases d @ [case_row E ctx inp (map_option pr_version preset)]\<rparr>)
         | Some p \<Rightarrow> apply_preset E ctx c p (d\<lparr>docCases := docCases d @ [case_row E ctx inp (map_option pr_version preset)]\<rparr>)) = Inr d2
     \<and> (\<exists>a. audit_tx E 4 a (case_created E ctx c inp (map_option pr_version preset) d2) = Inr d')"
proof -
  from assms obtain preset cs d2 a where
    p: "(if falsy (cn_presetId inp) then Inr None
        else map_sum id Some (or_throw (find_first (active_preset ctx (or_empty (cn_presetId inp))) (presets (planning d))) ResourceNotFoundError))
        = (Inr preset :: app_error + DocPreset option)"
    and cs: "create_case (case_row E ctx inp (map_option pr_version preset)) (docCases d) = Inr cs"
    and d2: "(case preset of None \<Rightarrow> Inr (d\<lparr>docCases := snd cs\<rparr>)
         | Some p \<Rightarrow> apply_preset E ctx (dc_id (case_row E ctx inp (map_option pr_version preset))) p (d\<lparr>docCases := snd cs\<rparr>)) = Inr d2"
    and a: "audit_tx E 4 a (case_created E ctx (dc_id (case_row E ctx inp (map_option pr_version preset))) inp (map_option pr_version preset) d2) = Inr d'"
    and c: "c = dc_id (case_row E ctx inp (map_option pr_version preset))"
    unfolding createCase_def Let_def res_bind_Inr_iff audit_log_tx_Inr case_prod_beta
    by (elim exE conjE) (simp only: sum.inject prod.inject)
  have i: "dc_id (case_row E ctx inp v) = ev_uuid E 1" for v by (simp add: case_row_def blank_case_def)
  from cs have "cs = (case_row E ctx inp (map_option pr_version preset), docCases d @ [case_row E ctx inp (map_option pr_version preset)])"
    by (simp add: create_case_def split: if_splits)
  moreover have "preset = None \<and> falsy (cn_presetId inp)
      \<or> (\<exists>p \<in> set (presets (planning d)). preset = Some p \<and> active_preset ctx (or_empty (cn_presetId inp)) p \<and> \<not> falsy (cn_presetId inp))"
  proof (cases "falsy (cn_presetId inp)")
    case True
    then show ?thesis using p by simp
  next
    case False
    with p obtain q where q: "find_first (active_preset ctx (or_empty (cn_presetId inp))) (presets (planning d)) = Some q" "preset = Some q"
      by (auto simp: or_throw_def split: option.splits)
    with False find_first_SomeD [OF q(1)] show ?thesis by blast
  qed
  ultimately show ?thesis using cs d2 a c i by (metis snd_conv)
qed

text \<open>Creating a case changes the presets by one use at most.\<close>

lemma createCase_presets:
  assumes "createCase E ctx ci d = Inr (c, d')"
  shows "versions d' = versions d \<and> (\<exists>P. presets (planning d') = fst (update_many P (\<lambda>q. q\<lparr>pr_usageCount := pr_usageCount q + 1\<rparr>) (presets (planning d))))"
proof -
  from createCase_Inr [OF assms] obtain preset d1 d2 a where
    d2: "(case preset of None \<Rightarrow> Inr d1 | Some p \<Rightarrow> apply_preset E ctx c p d1) = Inr d2" and d1: "planning d1 = planning d"
    and a: "audit_tx E 4 a (case_created E ctx c ci (map_option pr_version preset) d2) = Inr d'"
    by (elim exE conjE) (rule that, assumption, simp, assumption)
  have pl: "planning d' = planning d2" using audit_tx_tables(13) [OF a] by (simp add: case_created_planning)
  have v1: "versions d1 = versions d" using d1 by (simp add: versions_def)
  show ?thesis
  proof (cases preset)
    case None
    then have "presets (planning d') = fst (update_many (\<lambda>_. False) (\<lambda>q. q\<lparr>pr_usageCount := pr_usageCount q + 1\<rparr>) (presets (planning d)))"
      using d2 pl d1 by (simp add: update_many_def)
    then show ?thesis using None d2 pl d1 by (auto simp: versions_def)
  next
    case (Some p)
    then have "apply_preset E ctx c p d1 = Inr d2" using d2 by simp
    note ap = apply_preset_Inr [OF this]
    then show ?thesis using pl v1 d1 by (auto simp: versions_def)
  qed
qed

text \<open>A step that changes the presets keeps their keys and their versions.\<close>

lemma preset_step_keeps:
  assumes "preset_step d d'" "preset_keys d \<and> version_logged d"
  shows "preset_keys d' \<and> version_logged d'"
  using assms(1)
proof cases
  case (ps_create E ctx inp p)
  then show ?thesis using assms(2) by (blast intro: version_logged_create preset_keys_create)
next
  case (ps_update E ctx i upd p)
  then obtain q where "find_preset ctx i d = Inr q" by (auto simp: updatePreset_def res_bind_Inr_iff)
  from updatePreset_refused [OF conjunct2 [OF assms(2)] this] ps_update show ?thesis by (metis Inl_Inr_False)
next
  case (ps_delete E ctx i u)
  note del = deletePreset_Inr [OF ps_delete]
  show ?thesis
    by (intro conjI preset_keys_map [OF conjunct1 [OF assms(2)] conjunct1 [OF del]]
        version_logged_map [OF conjunct2 [OF assms(2)] conjunct2 [OF del] conjunct1 [OF del]]) simp_all
next
  case (ps_case E ctx ci c)
  from createCase_presets [OF this] obtain P where v: "versions d' = versions d"
    and p: "presets (planning d') = fst (update_many P (\<lambda>q. q\<lparr>pr_usageCount := pr_usageCount q + 1\<rparr>) (presets (planning d)))" by blast
  show ?thesis
    by (intro conjI preset_keys_map [OF conjunct1 [OF assms(2)] p] version_logged_map [OF conjunct2 [OF assms(2)] v p]) simp_all
qed

lemma reach_presets: "preset_reach d \<Longrightarrow> preset_keys d \<and> version_logged d"
  by (induction rule: preset_reach.induct) (simp add: preset_keys_def version_logged_def, rule preset_step_keeps)

lemmas reach_version_logged = conjunct2 [OF reach_presets]
lemmas reach_keys = conjunct1 [OF reach_presets]

text \<open>C15: No preset can ever be updated: whatever was created, deleted or used before, an update of a
  live preset ends in a violated unique index or in a duplicate name, because creating a preset already
  wrote the row of its current version, which an update writes again before it raises the version.\<close>

theorem preset_update_fails:
  assumes "preset_reach d" "find_preset ctx i d = Inr p"
  shows "updatePreset E ctx i inp d = Inl UniqueViolation
     \<or> pu_name inp \<noteq> None \<and> updatePreset E ctx i inp d = Inl (DuplicateResourceError ''Resource already exists.'')"
  by (rule updatePreset_refused [OF reach_version_logged [OF assms(1)] assms(2)])

text \<open>The name of a deleted preset is lost: once a preset has been deleted, creating one of its name
  in the tenant ends in a violated unique index, although the check for duplicates passes.\<close>

theorem deleted_name_lost:
  assumes "preset_reach d" "find_preset ctx i d = Inr p" "deletePreset E ctx i d = Inr (u, d')"
    "trim (or_empty (pn_name inp)) = pr_name p" "pr_name p \<noteq> []"
  shows "createPreset E' ctx inp d' = Inl UniqueViolation"
proof -
  note p = find_preset_Inr [OF assms(2)]
  note k = reach_keys [OF assms(1)]
  have ps: "presets (planning d') = map (\<lambda>q. if pr_id q = i then q\<lparr>pr_deletedAt := Some (ev_clock E 1), pr_updatedBy := Some (userId ctx)\<rparr> else q) (presets (planning d))"
    using deletePreset_Inr [OF assms(3)] by (simp add: update_many_def)
  have "\<not> preset_named ctx (pr_name p) q" if q: "q \<in> set (presets (planning d'))" for q
  proof -
    from q obtain q0 where q0: "q0 \<in> set (presets (planning d))"
      "q = (if pr_id q0 = i then q0\<lparr>pr_deletedAt := Some (ev_clock E 1), pr_updatedBy := Some (userId ctx)\<rparr> else q0)"
      unfolding ps by auto
    have "q0 = p" if "pr_tenantId q0 = tenantId ctx" "pr_name q0 = pr_name p"
      using k p q0(1) that by (auto simp: preset_keys_def distinct_map inj_on_def)
    then show ?thesis using q0(2) p by (auto simp: preset_named_def)
  qed
  moreover have "insert_preset (new_preset E' ctx (pr_name p) inp) d' = Inl UniqueViolation"
  proof -
    have "\<exists>q \<in> set (presets (planning d')). pr_tenantId q = tenantId ctx \<and> pr_name q = pr_name p"
      unfolding ps using p by (intro bexI [of _ "p\<lparr>pr_deletedAt := Some (ev_clock E 1), pr_updatedBy := Some (userId ctx)\<rparr>"]) auto
    then show ?thesis by (auto simp: insert_preset_def new_preset_def)
  qed
  ultimately show ?thesis using assms(4,5) by (simp add: createPreset_def Let_def)
qed

section \<open>A case from a preset\<close>

lemma apply_preset_rows:
  assumes "apply_preset E ctx c p d = Inr d'"
  shows "\<exists>reqs. reqs = map (item_requirement E ctx c) (enumerate 0 (items_of (pr_id p) d))
     \<and> caseDocuments d' = caseDocuments d @ reqs
     \<and> docCases d' = fst (update_many (\<lambda>q. dc_id q = c)
         (\<lambda>q. q\<lparr>dc_progress := fst (calcProgress (ev_rnd E) (filter (\<lambda>x. dd_caseId x = c \<and> dd_deletedAt x = None) (caseDocuments d @ reqs))),
            dc_isReady := snd (calcProgress (ev_rnd E) (filter (\<lambda>x. dd_caseId x = c \<and> dd_deletedAt x = None) (caseDocuments d @ reqs)))\<rparr>) (docCases d))"
  using assms unfolding apply_preset_def
  by (auto simp: Let_def res_bind_Inr_iff update_row_Inr split: prod.splits dest!: put_preset_Inr)

definition case_items :: "CaseInput \<Rightarrow> db \<Rightarrow> DocPresetItem list" where
  "case_items inp d = (if falsy (cn_presetId inp) then [] else items_of (or_empty (cn_presetId inp)) d)"

lemma item_requirement_simps [simp]:
  "dd_caseId (item_requirement E ctx c ix) = c" "dd_deletedAt (item_requirement E ctx c ix) = None"
  "dd_name (item_requirement E ctx c ix) = pi_name (snd ix)" "dd_isMandatory (item_requirement E ctx c ix) = pi_isMandatory (snd ix)"
  "dd_status (item_requirement E ctx c ix) = DD_PENDING_COLLECTION"
  by (cases ix; simp add: item_requirement_def blank_requirement_def)+

lemma map_enumerate_snd: "map (\<lambda>ix. f (snd ix)) (enumerate n xs) = map f xs"
  by (induction xs arbitrary: n) auto

lemma items_of_planning: "planning d' = planning d \<Longrightarrow> items_of i d' = items_of i d"
  by (simp add: items_of_def)

lemma case_row_simps [simp]:
  "dc_id (case_row E ctx inp v) = ev_uuid E 1" "dc_tenantId (case_row E ctx inp v) = tenantId ctx"
  "dc_leadId (case_row E ctx inp v) = or_empty (cn_leadId inp)" "dc_status (case_row E ctx inp v) = DC_ACTIVE"
  "dc_isReady (case_row E ctx inp v) = False" "dc_progress (case_row E ctx inp v) = no_progress"
  "dc_presetVersion (case_row E ctx inp v) = v"
  by (simp_all add: case_row_def blank_case_def)

text \<open>The new requirements, and the row of the new case.\<close>

lemma createCase_rows:
  assumes "createCase E ctx inp d = Inr (c, d')"
  shows "\<exists>reqs r. caseDocuments d' = caseDocuments d @ reqs \<and> r \<in> set (docCases d') \<and> dc_id r = c \<and> dc_status r = DC_ACTIVE
     \<and> reqs = map (item_requirement E ctx c) (enumerate 0 (case_items inp d))
     \<and> (if falsy (cn_presetId inp) then dc_progress r = no_progress \<and> \<not> dc_isReady r
        else (dc_progress r, dc_isReady r)
          = calcProgress (ev_rnd E) (filter (\<lambda>x. dd_caseId x = c \<and> dd_deletedAt x = None) (caseDocuments d @ reqs)))"
proof -
  from createCase_Inr [OF assms] obtain preset d2 row a where c: "c = ev_uuid E 1"
    and pre: "preset = None \<and> falsy (cn_presetId inp)
        \<or> (\<exists>p \<in> set (presets (planning d)). preset = Some p \<and> active_preset ctx (or_empty (cn_presetId inp)) p \<and> \<not> falsy (cn_presetId inp))"
    and row: "row = case_row E ctx inp (map_option pr_version preset)"
    and d2: "(case preset of None \<Rightarrow> Inr (d\<lparr>docCases := docCases d @ [row]\<rparr>)
         | Some p \<Rightarrow> apply_preset E ctx c p (d\<lparr>docCases := docCases d @ [row]\<rparr>)) = Inr d2"
    and a: "audit_tx E 4 a (case_created E ctx c inp (map_option pr_version preset) d2) = Inr d'"
    by (elim exE conjE) (rule that, assumption, assumption, rule refl, assumption, assumption)
  have same: "caseDocuments d' = caseDocuments d2" "docCases d' = docCases d2"
    using audit_tx_tables [OF a] by (simp_all add: case_created_def Let_def)
  show ?thesis
  proof (cases preset)
    case None
    then have "falsy (cn_presetId inp)" using pre by blast
    then show ?thesis using None d2 same row c by (intro exI [of _ "[]"] exI [of _ row]) (auto simp: case_items_def)
  next
    case (Some p)
    then have f: "\<not> falsy (cn_presetId inp)" and p: "pr_id p = or_empty (cn_presetId inp)" using pre by (auto simp: active_preset_def)
    have ap: "apply_preset E ctx c p (d\<lparr>docCases := docCases d @ [row]\<rparr>) = Inr d2" using Some d2 by simp
    have it: "items_of (pr_id p) (d\<lparr>docCases := docCases d @ [row]\<rparr>) = case_items inp d"
      using f p by (simp add: case_items_def items_of_def)
    define reqs where "reqs = map (item_requirement E ctx c) (enumerate 0 (case_items inp d))"
    define res where "res = calcProgress (ev_rnd E) (filter (\<lambda>x. dd_caseId x = c \<and> dd_deletedAt x = None) (caseDocuments d @ reqs))"
    define r where "r = row\<lparr>dc_progress := fst res, dc_isReady := snd res\<rparr>"
    note rows = apply_preset_rows [OF ap, unfolded it, folded reqs_def]
    have cd: "caseDocuments d2 = caseDocuments d @ reqs" using rows by (simp add: reqs_def)
    have "docCases d2 = fst (update_many (\<lambda>q. dc_id q = c) (\<lambda>q. q\<lparr>dc_progress := fst res, dc_isReady := snd res\<rparr>) (docCases d @ [row]))"
      using rows unfolding res_def by (simp add: reqs_def)
    then have "r \<in> set (docCases d2)" using row c by (simp add: update_many_def r_def)
    moreover have "dc_id r = c" "dc_status r = DC_ACTIVE" "(dc_progress r, dc_isReady r) = res" using row c by (simp_all add: r_def)
    ultimately show ?thesis using f cd same unfolding res_def reqs_def by (intro exI conjI) (assumption | simp)+
  qed
qed

text \<open>C14: A case created from a preset has exactly one open requirement for each live item of the
  preset, in their order; no case of its lead was there before; its counters are those of its
  requirements; and it is ready if and only if no item is mandatory, although its status is always
  \<open>ACTIVE\<close>.\<close>

theorem case_from_preset:
  assumes "createCase E ctx inp d = Inr (c, d')" "\<forall>x \<in> set (caseDocuments d). dd_caseId x \<noteq> c"
  shows "(\<forall>q \<in> set (docCases d). \<not> (dc_tenantId q = tenantId ctx \<and> dc_leadId q = or_empty (cn_leadId inp)))
     \<and> map (\<lambda>x. (dd_name x, dd_isMandatory x, dd_status x)) (filter (\<lambda>x. dd_caseId x = c) (caseDocuments d'))
         = map (\<lambda>i. (pi_name i, pi_isMandatory i, DD_PENDING_COLLECTION)) (case_items inp d)
     \<and> (\<exists>r \<in> set (docCases d'). dc_id r = c \<and> dc_status r = DC_ACTIVE
         \<and> (\<not> falsy (cn_presetId inp) \<longrightarrow>
              (dc_progress r, dc_isReady r) = calcProgress (ev_rnd E) (filter (\<lambda>x. dd_caseId x = c) (caseDocuments d'))
              \<and> dc_isReady r = list_all (\<lambda>i. \<not> pi_isMandatory i) (case_items inp d)))"
proof -
  from createCase_rows [OF assms(1)] obtain reqs r where cd: "caseDocuments d' = caseDocuments d @ reqs"
    and r: "r \<in> set (docCases d')" "dc_id r = c" "dc_status r = DC_ACTIVE"
    and reqs: "reqs = map (item_requirement E ctx c) (enumerate 0 (case_items inp d))"
    and prog: "if falsy (cn_presetId inp) then dc_progress r = no_progress \<and> \<not> dc_isReady r
        else (dc_progress r, dc_isReady r)
          = calcProgress (ev_rnd E) (filter (\<lambda>x. dd_caseId x = c \<and> dd_deletedAt x = None) (caseDocuments d @ reqs))"
    by blast
  from createCase_Inr [OF assms(1)] obtain v cs where "create_case (case_row E ctx inp v) (docCases d) = Inr cs" by blast
  then have one: "\<forall>q \<in> set (docCases d). \<not> (dc_tenantId q = tenantId ctx \<and> dc_leadId q = or_empty (cn_leadId inp))"
    by (auto simp: create_case_def split: if_splits)
  have old: "filter (\<lambda>x. dd_caseId x = c) (caseDocuments d) = []" "filter (\<lambda>x. dd_caseId x = c \<and> dd_deletedAt x = None) (caseDocuments d) = []"
    using assms(2) by (auto simp: filter_empty_conv)
  have new: "filter (\<lambda>x. dd_caseId x = c) (caseDocuments d') = reqs"
    "filter (\<lambda>x. dd_caseId x = c \<and> dd_deletedAt x = None) (caseDocuments d @ reqs) = reqs"
    using old by (simp_all add: cd reqs filter_map comp_def)
  have shape: "map (\<lambda>x. (dd_name x, dd_isMandatory x, dd_status x)) reqs
      = map (\<lambda>i. (pi_name i, pi_isMandatory i, DD_PENDING_COLLECTION)) (case_items inp d)"
    by (simp add: reqs comp_def map_enumerate_snd [of "\<lambda>i. (pi_name i, pi_isMandatory i, DD_PENDING_COLLECTION)"])
  have ready: "snd (calcProgress (ev_rnd E) reqs) = list_all (\<lambda>i. \<not> pi_isMandatory i) (case_items inp d)"
  proof -
    have "snd (calcProgress (ev_rnd E) reqs) \<longleftrightarrow> (\<forall>x \<in> set reqs. \<not> dd_isMandatory x)"
      unfolding calc_ready by (auto simp: reqs counted_def)
    also have "\<dots> \<longleftrightarrow> (\<forall>b \<in> set (map dd_isMandatory reqs). \<not> b)" by simp
    also have "map dd_isMandatory reqs = map pi_isMandatory (case_items inp d)"
      by (simp add: reqs comp_def map_enumerate_snd [of pi_isMandatory])
    finally show ?thesis by (simp add: list_all_iff)
  qed
  have "(dc_progress r, dc_isReady r) = calcProgress (ev_rnd E) reqs" if "\<not> falsy (cn_presetId inp)"
    using prog that new(2) by simp
  then have last: "\<not> falsy (cn_presetId inp) \<longrightarrow> (dc_progress r, dc_isReady r) = calcProgress (ev_rnd E) reqs
      \<and> dc_isReady r = list_all (\<lambda>i. \<not> pi_isMandatory i) (case_items inp d)"
    using ready by (metis snd_conv)
  show ?thesis
    unfolding new(1) by (intro conjI bexI [of _ r]) (rule one shape r(1) r(2) r(3) last)+
qed

section \<open>An example\<close>

definition item_one :: ItemInput where
  "item_one = \<lparr>ii_name = ''PAN'', ii_description = None, ii_isMandatory = None, ii_isBlocking = None, ii_displayOrder = Some 2,
     ii_verificationRequired = None, ii_expiryTrackingEnabled = None, ii_expiryDays = None, ii_metadataFields = None, ii_notes = None,
     ii_conditionRule = None\<rparr>"

definition preset_one :: PresetInput where
  "preset_one = \<lparr>pn_name = Some '' Loan '', pn_description = None, pn_category = None, pn_color = None, pn_icon = None,
     pn_items = [item_one, item_one\<lparr>ii_name := ''Photo'', ii_isMandatory := Some False, ii_displayOrder := None\<rparr>]\<rparr>"

definition leads_db :: db where
  "leads_db = empty_db\<lparr>leads := [lead_one]\<rparr>"

definition preset_db :: db where
  "preset_db = snd (projr (createPreset (small_env 0) ctx_one preset_one leads_db))"

definition no_change :: PresetUpdate where
  "no_change = \<lparr>pu_name = None, pu_description = None, pu_category = None, pu_color = None, pu_icon = None, pu_isActive = Some False,
     pu_changeNote = None, pu_items = None\<rparr>"

definition loan_case :: CaseInput where
  "loan_case = \<lparr>cn_leadId = Some ''l1'', cn_presetId = Some ''u1'', cn_assignedTo = None, cn_dueDate = None, cn_priority = None, cn_notes = None\<rparr>"

text \<open>The calls of the example return.\<close>

lemma createPreset_runs:
  assumes "ev_audit E = env_plain" "auditRows d = []" "presets (planning d) = []" "presetVersions (planning d) = []"
    "trim (or_empty (pn_name inp)) \<noteq> []"
  shows "\<exists>p d' r. createPreset E ctx inp d = Inr (p, d') \<and> auditRows d' = [r] \<and> al_id r = ev_uuid E 3 \<and> growing [r] (tenantId ctx)
     \<and> docCases d' = docCases d \<and> leads d' = leads d \<and> caseDocuments d' = caseDocuments d"
proof -
  have run: "\<exists>r. audit_log_tx E 3 (preset_audit ctx ev i operation payload) d1 = Inr (d1\<lparr>auditRows := [r]\<rparr>) \<and> al_id r = ev_uuid E 3
      \<and> growing [r] (tenantId ctx)" if "auditRows d1 = []" for d1 ev i operation payload
    using plain_audit [OF assms(1), of d1 "preset_audit ctx ev i operation payload" 3] that growing_empty
    by (simp add: audit_log_tx_Inr preset_audit_def audit_input_def)
  define p where "p = new_preset E ctx (trim (or_empty (pn_name inp))) inp"
  define d1 where "d1 = d\<lparr>planning := (planning d)\<lparr>presets := presets (planning d) @ [p]\<rparr>\<rparr>"
  define d2 where "d2 = put_items (presetItems (planning d1) @ item_rows E 10 ctx (pr_id p) (pn_items inp)) d1"
  define v where "v = version_row E ctx p (items_of (pr_id p) d2) ''Initial version''"
  define d3 where "d3 = d2\<lparr>planning := (planning d2)\<lparr>presetVersions := presetVersions (planning d2) @ [v]\<rparr>\<rparr>"
  have i: "insert_preset p d = Inr d1" using assms(3) by (simp add: insert_preset_def d1_def)
  have w: "insert_version v d2 = Inr d3" using assms(4) by (simp add: insert_version_def d3_def d2_def d1_def put_items_def)
  have a: "auditRows d3 = []" using assms(2) by (simp add: d3_def d2_def d1_def put_items_def)
  obtain r where r: "audit_log_tx E 3 (preset_audit ctx ''DOC_PRESET_CREATED'' (pr_id p) ''CREATE''
      [(''name'', JStr (pr_name p)), (''category'', JStr (category_name (pr_category p)))]) d3 = Inr (d3\<lparr>auditRows := [r]\<rparr>)"
    "al_id r = ev_uuid E 3" "growing [r] (tenantId ctx)" using run [OF a] by blast
  have "createPreset E ctx inp d = Inr (p, d3\<lparr>auditRows := [r]\<rparr>)"
    using assms(3,5) i w r(1) by (simp add: createPreset_def Let_def flip: p_def d2_def v_def)
  then show ?thesis using r(2,3) by (simp add: d3_def d2_def d1_def put_items_def)
qed

lemma deletePreset_runs:
  assumes "ev_audit E = env_plain" "growing (auditRows d) (tenantId ctx)" "ev_uuid E 2 \<notin> al_id ` set (auditRows d)"
    "find_preset ctx i d = Inr p" "docCases d = []" "preset_keys d"
  shows "\<not> isl (deletePreset E ctx i d)"
proof -
  let ?f = "\<lambda>q. q\<lparr>pr_deletedAt := Some (ev_clock E 1), pr_updatedBy := Some (userId ctx)\<rparr>"
  have p: "p \<in> set (presets (planning d))" "pr_id p = i" using find_preset_Inr [OF assms(4)] by simp_all
  obtain q where q: "find_first (\<lambda>p. pr_id p = i) (presets (planning d)) = Some q"
    using p by (cases "find_first (\<lambda>p. pr_id p = i) (presets (planning d))") (auto simp: find_first_None)
  have qi: "q \<in> set (presets (planning d))" "pr_id q = i" using find_first_SomeD [OF q] by simp_all
  have "pr_id r = i" if "r \<in> set (presets (planning d))" "pr_tenantId r = pr_tenantId q" "pr_name r = pr_name q" for r
    using assms(6) that qi by (auto simp: preset_keys_def distinct_map inj_on_def)
  then have "(\<exists>r \<in> set (presets (planning d)). pr_id r \<noteq> i \<and> pr_tenantId r = pr_tenantId (?f q) \<and> pr_name r = pr_name (?f q)) = False"
    by auto
  then have "\<exists>u d1. put_preset i ?f d = Inr (u, d1) \<and> auditRows d1 = auditRows d"
    using q by (simp add: put_preset_def update_row_def)
  then obtain u d1 where d1: "put_preset i ?f d = Inr (u, d1)" "auditRows d1 = auditRows d" by blast
  obtain d2 where "audit_log_tx E 2 (preset_audit ctx ''DOC_PRESET_DELETED'' i ''DELETE'' [(''name'', JStr (pr_name p))]) d1 = Inr d2"
    using plain_audit [OF assms(1), of d1 "preset_audit ctx ''DOC_PRESET_DELETED'' i ''DELETE'' [(''name'', JStr (pr_name p))]" 2] assms(2,3) d1(2)
    by (auto simp: audit_log_tx_Inr preset_audit_def audit_input_def)
  then show ?thesis using assms(4,5) d1(1) by (simp add: deletePreset_def)
qed

lemma small_ids: "ev_uuid (small_env 0) 1 = ''u1'' \<and> ev_uuid (small_env 0) 3 = ''u3'' \<and> ev_uuid (small_env 2) 2 = ''u202''"
  by code_simp

lemma preset_db_made:
  "\<exists>r. createPreset (small_env 0) ctx_one preset_one leads_db = Inr (new_preset (small_env 0) ctx_one ''Loan'' preset_one, preset_db)
     \<and> auditRows preset_db = [r] \<and> al_id r = ''u3'' \<and> growing [r] ''t1'' \<and> docCases preset_db = []"
proof -
  have name: "trim (or_empty (pn_name preset_one)) = ''Loan''"
    by (simp add: preset_one_def or_empty_def trim_def is_space_def)
  have e: "auditRows leads_db = []" "presets (planning leads_db) = []" "presetVersions (planning leads_db) = []" "docCases leads_db = []"
    by (simp_all add: leads_db_def empty_db_def no_plan_def)
  from createPreset_runs [of "small_env 0" leads_db preset_one ctx_one] e name obtain p d' r where
    c: "createPreset (small_env 0) ctx_one preset_one leads_db = Inr (p, d')" "auditRows d' = [r]" "al_id r = ev_uuid (small_env 0) 3"
    "growing [r] (tenantId ctx_one)" "docCases d' = docCases leads_db" by auto
  have "p = new_preset (small_env 0) ctx_one ''Loan'' preset_one" using createPreset_Inr [OF c(1)] name by simp
  moreover have "d' = preset_db" by (simp add: preset_db_def c(1))
  ultimately show ?thesis using c e small_ids by (simp add: ctx_one_def del: small_env_simps)
qed

lemma preset_db_reach: "preset_reach preset_db"
proof -
  have "preset_reach leads_db" by (rule pr_start) (simp add: leads_db_def empty_db_def no_plan_def)
  moreover have "preset_step leads_db preset_db" using preset_db_made by (blast intro: ps_create)
  ultimately show ?thesis by (rule pr_next)
qed

lemma preset_db_presets: "presets (planning preset_db) = [new_preset (small_env 0) ctx_one ''Loan'' preset_one]"
proof -
  have "presets (planning leads_db) = []" by (simp add: leads_db_def empty_db_def no_plan_def)
  then show ?thesis using createPreset_Inr [of "small_env 0" ctx_one preset_one leads_db] preset_db_made by (metis append_Nil)
qed

lemma preset_db_found: "find_preset ctx_one ''u1'' preset_db = Inr (new_preset (small_env 0) ctx_one ''Loan'' preset_one)"
  using small_ids by (simp add: find_preset_def preset_db_presets new_preset_def ctx_one_def del: small_env_simps)

theorem preset_update_fails_witness: "updatePreset (small_env 2) ctx_one ''u1'' no_change preset_db = Inl UniqueViolation"
  using preset_update_fails [OF preset_db_reach preset_db_found, of "small_env 2" no_change] by (simp add: no_change_def)

theorem deleted_name_lost_witness:
  "createPreset (small_env 3) ctx_one preset_one (snd (projr (deletePreset (small_env 2) ctx_one ''u1'' preset_db))) = Inl UniqueViolation"
proof -
  have d: "\<not> isl (deletePreset (small_env 2) ctx_one ''u1'' preset_db)"
    using preset_db_made by (intro deletePreset_runs [OF _ _ _ preset_db_found _ reach_keys [OF preset_db_reach]])
      (use small_ids in \<open>auto simp: ctx_one_def simp del: small_env_simps(3)\<close>)
  have n: "trim (or_empty (pn_name preset_one)) = pr_name (new_preset (small_env 0) ctx_one ''Loan'' preset_one)"
    "pr_name (new_preset (small_env 0) ctx_one ''Loan'' preset_one) \<noteq> []"
    by (simp_all add: preset_one_def new_preset_def or_empty_def trim_def is_space_def)
  show ?thesis by (rule deleted_name_lost [OF preset_db_reach preset_db_found returned [OF d] n])
qed

definition stocked_db :: db where
  "stocked_db = leads_db\<lparr>planning := no_plan\<lparr>presets := [new_preset (small_env 0) ctx_one ''Loan'' preset_one],
     presetItems := item_rows (small_env 0) 10 ctx_one ''u1'' (pn_items preset_one)\<rparr>\<rparr>"

theorem case_from_preset_witness:
  "map (\<lambda>x. (dd_name x, dd_isMandatory x, dd_status x))
     (filter (\<lambda>x. dd_caseId x = ''u301'') (caseDocuments (snd (projr (createCase (small_env 3) ctx_one loan_case stocked_db)))))
   = [(''Photo'', False, DD_PENDING_COLLECTION), (''PAN'', True, DD_PENDING_COLLECTION)]"
proof -
  have c: "\<not> isl (createCase (small_env 3) ctx_one loan_case stocked_db) \<and> fst (projr (createCase (small_env 3) ctx_one loan_case stocked_db)) = ''u301''"
    by code_simp
  have r: "createCase (small_env 3) ctx_one loan_case stocked_db = Inr (''u301'', snd (projr (createCase (small_env 3) ctx_one loan_case stocked_db)))"
    using returned [OF conjunct1 [OF c]] unfolding conjunct2 [OF c] .
  have f: "\<forall>x \<in> set (caseDocuments stocked_db). dd_caseId x \<noteq> ''u301''" by (simp add: stocked_db_def leads_db_def empty_db_def)
  have t: "map (\<lambda>i. (pi_name i, pi_isMandatory i, DD_PENDING_COLLECTION)) (case_items loan_case stocked_db)
      = [(''Photo'', False, DD_PENDING_COLLECTION), (''PAN'', True, DD_PENDING_COLLECTION)]" by code_simp
  show ?thesis using case_from_preset [OF r f] unfolding t by blast
qed

end
