(* ===== verification/Document_Service.thy ===== *)
theory Document_Service
  imports Requirement_Service Upload_Gate
begin

text \<open>
  \<^verbatim>\<open>src/src/services/document.service.ts\<close>: the files uploaded for the requirements of a case and
  beside them, with their own status machine, their versions and their removal. An upload onto a
  requirement moves the requirement in the same transaction.
\<close>

section \<open>Policy\<close>

fun DOCUMENT_STATUS_TRANSITIONS :: "DocumentStatus \<Rightarrow> DocumentStatus list" where
  "DOCUMENT_STATUS_TRANSITIONS FD_UPLOADING = [FD_SCANNING, FD_RECEIVED, FD_MALWARE_DETECTED]"
| "DOCUMENT_STATUS_TRANSITIONS FD_SCANNING = [FD_RECEIVED, FD_MALWARE_DETECTED]"
| "DOCUMENT_STATUS_TRANSITIONS FD_RECEIVED = [FD_UNDER_REVIEW, FD_VERIFIED, FD_REJECTED, FD_EXPIRED, FD_ARCHIVED]"
| "DOCUMENT_STATUS_TRANSITIONS FD_UNDER_REVIEW = [FD_VERIFIED, FD_REJECTED, FD_EXPIRED, FD_ARCHIVED]"
| "DOCUMENT_STATUS_TRANSITIONS FD_VERIFIED = [FD_EXPIRED, FD_ARCHIVED]"
| "DOCUMENT_STATUS_TRANSITIONS FD_REJECTED = []"
| "DOCUMENT_STATUS_TRANSITIONS FD_EXPIRED = [FD_ARCHIVED]"
| "DOCUMENT_STATUS_TRANSITIONS FD_ARCHIVED = []"
| "DOCUMENT_STATUS_TRANSITIONS FD_MALWARE_DETECTED = []"

fun file_status_name :: "DocumentStatus \<Rightarrow> string" where
  "file_status_name FD_UPLOADING = ''UPLOADING''"
| "file_status_name FD_SCANNING = ''SCANNING''"
| "file_status_name FD_RECEIVED = ''RECEIVED''"
| "file_status_name FD_UNDER_REVIEW = ''UNDER_REVIEW''"
| "file_status_name FD_VERIFIED = ''VERIFIED''"
| "file_status_name FD_REJECTED = ''REJECTED''"
| "file_status_name FD_EXPIRED = ''EXPIRED''"
| "file_status_name FD_ARCHIVED = ''ARCHIVED''"
| "file_status_name FD_MALWARE_DETECTED = ''MALWARE_DETECTED''"

fun source_name :: "DocumentSourceChannel \<Rightarrow> string" where
  "source_name CH_CLIENT_PORTAL = ''CLIENT_PORTAL''"
| "source_name CH_WHATSAPP = ''WHATSAPP''"
| "source_name CH_EMAIL = ''EMAIL''"
| "source_name CH_PHYSICAL = ''PHYSICAL''"
| "source_name CH_FIRM_UPLOAD = ''FIRM_UPLOAD''"
| "source_name CH_OTHER = ''OTHER''"

definition docStagingKey :: "string \<Rightarrow> string \<Rightarrow> string \<Rightarrow> string \<Rightarrow> string" where
  "docStagingKey tenant caseId uploadId fileName = storage_key ''doc-staging'' tenant caseId uploadId (sanitizeFileName fileName)"

definition docFinalKey :: "string \<Rightarrow> string \<Rightarrow> string \<Rightarrow> string \<Rightarrow> string" where
  "docFinalKey tenant caseId documentId fileName = storage_key ''doc-uploads'' tenant caseId documentId (sanitizeFileName fileName)"

text \<open>The digest of the bytes, as the hash of the text with these character codes.\<close>

definition checksum_of :: "services \<Rightarrow> bytes \<Rightarrow> string" where
  "checksum_of S data = sv_sha256 S (map (\<lambda>b. char_of (unat b)) data)"

definition assertCaseExists :: "TenantContext \<Rightarrow> string \<Rightarrow> db \<Rightarrow> app_error + unit" where
  "assertCaseExists ctx caseId d = res_bind (loadCase ctx caseId d) (\<lambda>_. Inr ())"

section \<open>Presigning\<close>

definition joined_types :: "string list \<Rightarrow> string" where
  "joined_types ts = concat (map (\<lambda>(i, t). (if i = 0 then [] else '', '') @ t) (enumerate 0 ts))"

definition check_upload :: "string \<Rightarrow> int \<Rightarrow> app_error + unit" where
  "check_upload contentType sizeBytes =
     res_bind (ensure (isAllowedContentType contentType)
        (ValidationError (''File type '' @ contentType @ '' is not accepted. Allowed: '' @ joined_types ALLOWED_CONTENT_TYPES))) (\<lambda>_.
     ensure (sizeBytes \<le> MAX_FILE_SIZE_BYTES) (ValidationError (''File size exceeds the '' @ int_str MAX_FILE_SIZE_BYTES @ '' byte limit.'')))"

text \<open>The link, the id of the upload and the end of the link.\<close>

definition uploadUrl :: "services \<Rightarrow> TenantContext \<Rightarrow> string \<Rightarrow> string \<Rightarrow> string \<Rightarrow> int \<Rightarrow> (string \<times> string \<times> date) act" where
  "uploadUrl S ctx caseId fileName contentType sizeBytes =
     act_bind (act_read (assertCaseExists ctx caseId)) (\<lambda>_.
     act_bind (act_read (\<lambda>_. check_upload contentType sizeBytes)) (\<lambda>_.
     let uploadId = ev_uuid (sv_env S) 1
     in act_bind (presign S 0 (docStagingKey (tenantId ctx) caseId uploadId fileName) PRESIGNED_URL_SECONDS) (\<lambda>(url, ends).
        act_return (url, uploadId, ends))))"

section \<open>Files in the table\<close>

text \<open>The two unique indexes: the id of the upload, and one active file for each requirement.\<close>

definition insert_document :: "Document \<Rightarrow> db \<Rightarrow> app_error + db" where
  "insert_document f d =
     (if do_uploadId f \<noteq> None \<and> (\<exists>q \<in> set (documents d). do_uploadId q = do_uploadId f) then Inl (UniqueTarget ''uploadId'')
      else if do_requirementId f \<noteq> None \<and> do_category f = CAT_REQUIREMENT \<and> do_isActive f \<and> do_deletedAt f = None
        \<and> (\<exists>q \<in> set (documents d). do_tenantId q = do_tenantId f \<and> do_requirementId q = do_requirementId f
             \<and> do_category q = CAT_REQUIREMENT \<and> do_isActive q \<and> do_deletedAt q = None) then Inl (UniqueTarget ''requirementId'')
      else Inr (d\<lparr>documents := documents d @ [f]\<rparr>))"

definition put_document :: "string \<Rightarrow> (Document \<Rightarrow> Document) \<Rightarrow> db \<Rightarrow> app_error + Document \<times> db" where
  "put_document i f d =
     res_bind (update_row (\<lambda>q. do_id q = i) f (documents d)) (\<lambda>(q, fs). Inr (q, d\<lparr>documents := fs\<rparr>))"

definition doc_replay :: "TenantContext \<Rightarrow> string \<Rightarrow> db \<Rightarrow> Document option" where
  "doc_replay ctx uploadId d = find_first (\<lambda>f. do_uploadId f = Some uploadId \<and> do_tenantId f = tenantId ctx) (documents d)"

definition load_document :: "TenantContext \<Rightarrow> string \<Rightarrow> db \<Rightarrow> app_error + Document" where
  "load_document ctx i d =
     or_throw (find_first (\<lambda>f. do_id f = i \<and> do_tenantId f = tenantId ctx \<and> do_deletedAt f = None) (documents d)) ResourceNotFoundError"

definition doc_infected :: "services \<Rightarrow> string \<Rightarrow> unit act" where
  "doc_infected S stagingKey = act_bind (act_try (deleteObject S 6 stagingKey)) (\<lambda>_. act_return ())"

definition duplicate_file :: app_error where
  "duplicate_file = Conflict ''An active document already exists for this requirement; replace it instead.''"

section \<open>Confirming an upload\<close>

record ConfirmInput =
  cf_uploadId :: string
  cf_fileName :: string
  cf_category :: DocumentCategory
  cf_name :: "string option"
  cf_requirementId :: "string option"
  cf_sourceChannel :: DocumentSourceChannel
  cf_internalNote :: "string option"
  cf_clientVisible :: "bool option"
  cf_expiresAt :: "date option"
  cf_receivedAt :: "date option"
  cf_verify :: bool

definition resolve_name :: "TenantContext \<Rightarrow> string \<Rightarrow> ConfirmInput \<Rightarrow> db \<Rightarrow> app_error + string" where
  "resolve_name ctx caseId inp d =
     (let wanted = trim (or_empty (cf_name inp)) in
      res_bind (if cf_category inp \<noteq> CAT_REQUIREMENT then Inr wanted
        else if falsy (cf_requirementId inp) then Inl (ValidationError ''requirementId is required for a REQUIREMENT document.'')
        else res_bind (or_throw (find_first (\<lambda>x. live_requirement ctx (or_empty (cf_requirementId inp)) x \<and> dd_caseId x = caseId) (caseDocuments d))
               ResourceNotFoundError) (\<lambda>x. Inr (if wanted = [] then dd_name x else wanted))) (\<lambda>name.
      res_bind (ensure (name \<noteq> []) (ValidationError ''name is required for a GENERAL document.'')) (\<lambda>_. Inr name)))"

definition file_row :: "services \<Rightarrow> TenantContext \<Rightarrow> string \<Rightarrow> ConfirmInput \<Rightarrow> bool \<Rightarrow> string \<Rightarrow> bytes \<Rightarrow> Head \<Rightarrow> Document" where
  "file_row S ctx caseId inp willVerify name data head =
     (let E = sv_env S in
      \<lparr>do_id = ev_uuid E 1, do_tenantId = tenantId ctx, do_caseId = caseId,
       do_requirementId = (if cf_category inp = CAT_REQUIREMENT then cf_requirementId inp else None), do_uploadId = Some (cf_uploadId inp),
       do_category = cf_category inp, do_name = name, do_originalFilename = cf_fileName inp,
       do_storageKey = docFinalKey (tenantId ctx) caseId (ev_uuid E 1) (sanitizeFileName (cf_fileName inp)),
       do_mimeType = or_empty (hd_contentType head), do_sizeBytes = hd_contentLength head, do_checksum = Some (checksum_of S data),
       do_status = (if willVerify then FD_VERIFIED else FD_RECEIVED), do_sourceChannel = cf_sourceChannel inp,
       do_uploadedByParty = UP_FIRM, do_uploadedByUserId = Some (userId ctx), do_internalNote = cf_internalNote inp,
       do_clientVisible = given (cf_clientVisible inp) (cf_category inp = CAT_REQUIREMENT), do_versionOfId = None, do_isActive = True,
       do_receivedAt = given (cf_receivedAt inp) (ev_clock E 2), do_verifiedAt = (if willVerify then Some (ev_clock E 2) else None),
       do_verifiedByUserId = (if willVerify then Some (userId ctx) else None), do_rejectedAt = None, do_rejectedByUserId = None,
       do_rejectionReason = None, do_expiresAt = cf_expiresAt inp, do_deletedAt = None\<rparr>)"

fun file_category_name :: "DocumentCategory \<Rightarrow> string" where
  "file_category_name CAT_MANDATE = ''MANDATE''"
| "file_category_name CAT_REQUIREMENT = ''REQUIREMENT''"
| "file_category_name CAT_GENERAL = ''GENERAL''"
| "file_category_name CAT_CUSTOM_GROUP_DOCUMENT = ''CUSTOM_GROUP_DOCUMENT''"
| "file_category_name CAT_CUSTOM_FIELD_DOCUMENT = ''CUSTOM_FIELD_DOCUMENT''"

text \<open>An upload moves its requirement; a file that belongs to none moves nothing.\<close>

definition move_requirement :: "env \<Rightarrow> TenantContext \<Rightarrow> DocumentCategory \<Rightarrow> string option \<Rightarrow> db \<Rightarrow> app_error + db" where
  "move_requirement E ctx category requirementId d =
     (if category = CAT_REQUIREMENT \<and> \<not> falsy requirementId
      then map_sum id snd (transitionRequirementInTx E 10 ctx (or_empty requirementId) DD_UNDER_VERIFICATION d)
      else Inr d)"

definition file_audit :: "TenantContext \<Rightarrow> string \<Rightarrow> string \<Rightarrow> string \<Rightarrow> (string \<times> jsval) list \<Rightarrow> AuditAppendInput" where
  "file_audit ctx eventType i operation payload = audit_input (tenantId ctx) eventType ''Document'' i (Some (userId ctx)) operation payload"

definition confirm_tx :: "services \<Rightarrow> TenantContext \<Rightarrow> string \<Rightarrow> ConfirmInput \<Rightarrow> Document \<Rightarrow> bool \<Rightarrow> Document tx" where
  "confirm_tx S ctx caseId inp f willVerify d =
     (let E = sv_env S in
      res_bind (loadCase ctx caseId d) (\<lambda>_.
      res_bind (insert_document f d) (\<lambda>d1.
      res_bind (move_requirement E ctx (cf_category inp) (cf_requirementId inp) d1) (\<lambda>d2.
      let common = [(''sourceChannel'', JStr (source_name (cf_sourceChannel inp))), (''verified'', JBool willVerify)];
          d3 = case_event E 3 (tenantId ctx) caseId DOCUMENT_UPLOADED (Some (userId ctx))
            ([(''fileId'', JStr (do_id f)), (''category'', JStr (file_category_name (cf_category inp))), (''name'', JStr (do_name f))] @ common
             @ [(''requirementId'', jopt (cf_requirementId inp))]) d2
      in res_bind (audit_tx E 4 (file_audit ctx ''DOCUMENT_UPLOADED'' (do_id f) ''CREATE''
            ([(''category'', JStr (file_category_name (cf_category inp)))] @ common
             @ [(''caseId'', JStr caseId), (''requirementId'', jopt (cf_requirementId inp))])) d3) (\<lambda>d4.
         Inr (f, d4))))))"

text \<open>What a clash of an index is turned into: the result of the call that won, or a conflict.\<close>

definition lost_upload :: "TenantContext \<Rightarrow> string \<Rightarrow> app_error \<Rightarrow> db \<Rightarrow> app_error + Document" where
  "lost_upload ctx uploadId e d =
     (case e of
        UniqueTarget target \<Rightarrow>
          (case (if target = ''uploadId'' then doc_replay ctx uploadId d else None) of Some won \<Rightarrow> Inr won | None \<Rightarrow> Inl duplicate_file)
      | UniqueViolation \<Rightarrow> Inl duplicate_file
      | _ \<Rightarrow> Inl e)"

definition commit_upload :: "Document tx \<Rightarrow> (app_error \<Rightarrow> db \<Rightarrow> app_error + Document) \<Rightarrow> Document act" where
  "commit_upload t lost =
     act_bind (act_try (act_tx t)) (\<lambda>r. case r of Inr f \<Rightarrow> act_return f | Inl e \<Rightarrow> act_read (lost e))"

definition confirmDocument :: "services \<Rightarrow> TenantContext \<Rightarrow> string \<Rightarrow> ConfirmInput \<Rightarrow> bool \<Rightarrow> (string \<times> DocumentStatus) act" where
  "confirmDocument S ctx caseId inp canVerify =
     act_bind (act_read (\<lambda>d. Inr (doc_replay ctx (cf_uploadId inp) d))) (\<lambda>replay. case replay of
        Some f \<Rightarrow> act_return (do_id f, do_status f)
      | None \<Rightarrow>
          let safeName = sanitizeFileName (cf_fileName inp);
              stagingKey = docStagingKey (tenantId ctx) caseId (cf_uploadId inp) safeName
          in if cf_verify inp \<and> \<not> canVerify then act_bind (act_try (deleteObject S 7 stagingKey)) (\<lambda>_. act_throw AuthorizationError)
             else act_bind (act_read (assertCaseExists ctx caseId)) (\<lambda>_.
               act_bind (gate_staged S MAX_FILE_SIZE_BYTES isAllowedContentType stagingKey (doc_infected S stagingKey)) (\<lambda>(data, head).
               act_bind (act_read (resolve_name ctx caseId inp)) (\<lambda>name.
               let willVerify = cf_verify inp \<and> canVerify; f = file_row S ctx caseId inp willVerify name data head
               in act_bind (promote S stagingKey (do_storageKey f)) (\<lambda>_.
                  act_bind (commit_upload (confirm_tx S ctx caseId inp f willVerify) (lost_upload ctx (cf_uploadId inp))) (\<lambda>r.
                  act_return (do_id r, do_status r)))))))"

section \<open>Viewing and reviewing a file\<close>

text \<open>The cases a caller without the wider permission sees: assigned, handed to Process, or of an own lead.\<close>

definition in_queue :: "string \<Rightarrow> db \<Rightarrow> string \<Rightarrow> bool" where
  "in_queue user d caseId \<longleftrightarrow> (\<exists>c \<in> set (docCases d). dc_id c = caseId \<and> (dc_assignedTo c = Some user \<or> dc_processAssignedTo c = Some user
     \<or> (\<exists>l \<in> set (leads d). ld_id l = dc_leadId c \<and> ld_ownerId l = Some user)))"

definition viewable :: "TenantContext \<Rightarrow> string option \<Rightarrow> db \<Rightarrow> string \<Rightarrow> Document \<Rightarrow> bool" where
  "viewable ctx restrict d i f \<longleftrightarrow> do_id f = i \<and> do_tenantId f = tenantId ctx \<and> do_deletedAt f = None
     \<and> (falsy restrict \<or> in_queue (or_empty restrict) d (do_caseId f))"

record FileView =
  dv_viewUrl :: string
  dv_fileName :: string
  dv_contentType :: string
  dv_sizeBytes :: int
  dv_linkEnds :: date

definition viewFile :: "services \<Rightarrow> TenantContext \<Rightarrow> string \<Rightarrow> string option \<Rightarrow> FileView act" where
  "viewFile S ctx i restrict =
     act_bind (act_read (\<lambda>d. or_throw (find_first (viewable ctx restrict d i) (documents d)) ResourceNotFoundError)) (\<lambda>f.
     act_bind (presign S 0 (do_storageKey f) PRESIGNED_URL_SECONDS) (\<lambda>(url, ends).
     act_return \<lparr>dv_viewUrl = url, dv_fileName = do_name f, dv_contentType = do_mimeType f, dv_sizeBytes = do_sizeBytes f, dv_linkEnds = ends\<rparr>))"

definition status_changed :: "env \<Rightarrow> TenantContext \<Rightarrow> DocumentStatus \<Rightarrow> string option \<Rightarrow> Document \<Rightarrow> Document" where
  "status_changed E ctx st why f =
     (let f1 = (if st = FD_VERIFIED then f\<lparr>do_verifiedAt := Some (ev_clock E 1), do_verifiedByUserId := Some (userId ctx)\<rparr> else f);
          f2 = (if st \<in> {FD_REJECTED, FD_EXPIRED} \<and> do_status f = FD_VERIFIED then f1\<lparr>do_verifiedAt := None, do_verifiedByUserId := None\<rparr> else f1);
          f3 = (if st = FD_REJECTED then f2\<lparr>do_rejectedAt := Some (ev_clock E 1), do_rejectedByUserId := Some (userId ctx),
                  do_rejectionReason := Some (trim (or_empty why))\<rparr> else f2)
      in f3\<lparr>do_status := st\<rparr>)"

definition file_status_json :: "DocumentStatus \<Rightarrow> jsval" where
  "file_status_json st = JObj [(''status'', JStr (file_status_name st))]"

text \<open>The arrow of the message is no character below 256 and is written as two.\<close>

definition bad_transition :: "DocumentStatus \<Rightarrow> DocumentStatus \<Rightarrow> app_error" where
  "bad_transition from to =
     (let moves = joined_types (map file_status_name (DOCUMENT_STATUS_TRANSITIONS from)) in
      BusinessRuleViolationError (''Invalid status transition '' @ file_status_name from @ '' -> '' @ file_status_name to
        @ ''. Allowed: '' @ (if moves = [] then ''(none)'' else moves)))"

definition updateFileStatus :: "env \<Rightarrow> TenantContext \<Rightarrow> string \<Rightarrow> DocumentStatus \<Rightarrow> string option \<Rightarrow> bool \<Rightarrow> (string \<times> DocumentStatus) tx" where
  "updateFileStatus E ctx i st why canVerify d =
     res_bind (ensure (\<not> (st = FD_VERIFIED \<and> \<not> canVerify)) AuthorizationError) (\<lambda>_.
     res_bind (ensure (\<not> (st = FD_REJECTED \<and> trim (or_empty why) = [])) (ValidationError ''rejectionReason is required when rejecting a document.'')) (\<lambda>_.
     res_bind (load_document ctx i d) (\<lambda>f.
     res_bind (or_throw (find_first (\<lambda>q. do_id q = i) (documents d)) ResourceNotFoundError) (\<lambda>fresh.
     res_bind (ensure (do_isActive fresh) (Conflict ''Document has been replaced; act on the current version.'')) (\<lambda>_.
     res_bind (ensure (st \<in> set (DOCUMENT_STATUS_TRANSITIONS (do_status fresh))) (bad_transition (do_status fresh) st)) (\<lambda>_.
     res_bind (put_document i (status_changed E ctx st why) d) (\<lambda>(q, d1).
     let moves = [(''fromStatus'', JStr (file_status_name (do_status fresh))), (''toStatus'', JStr (file_status_name st))];
         d2 = case_event E 2 (tenantId ctx) (do_caseId f) DOCUMENT_STATUS_CHANGED (Some (userId ctx)) ((''fileId'', JStr i) # moves) d1
     in res_bind (audit_tx E 3 ((file_audit ctx ''DOCUMENT_STATUS_CHANGED'' i ''UPDATE'' moves)
            \<lparr>au_beforeState := file_status_json (do_status fresh), au_afterState := file_status_json st\<rparr>) d2) (\<lambda>d3.
        Inr ((do_id q, do_status q), d3)))))))))"

section \<open>Replacing a file\<close>

record ReplaceInput =
  rp_uploadId :: string
  rp_fileName :: string
  rp_sourceChannel :: DocumentSourceChannel
  rp_internalNote :: "string option"
  rp_clientVisible :: "bool option"
  rp_verify :: bool
  rp_name :: "string option"
  rp_receivedAt :: "date option"
  rp_expiresAt :: "date option"

text \<open>The new version is the row of an upload with the columns it takes from the old one.\<close>

definition version_of :: "services \<Rightarrow> TenantContext \<Rightarrow> ReplaceInput \<Rightarrow> bool \<Rightarrow> Document \<Rightarrow> bytes \<Rightarrow> Head \<Rightarrow> Document" where
  "version_of S ctx inp willVerify old data head =
     (let name = trim (or_empty (rp_name inp));
          confirm = \<lparr>cf_uploadId = rp_uploadId inp, cf_fileName = rp_fileName inp, cf_category = do_category old, cf_name = rp_name inp,
            cf_requirementId = do_requirementId old, cf_sourceChannel = rp_sourceChannel inp, cf_internalNote = rp_internalNote inp,
            cf_clientVisible = Some (given (rp_clientVisible inp) (do_clientVisible old)), cf_expiresAt = rp_expiresAt inp,
            cf_receivedAt = rp_receivedAt inp, cf_verify = rp_verify inp\<rparr>
      in (file_row S ctx (do_caseId old) confirm willVerify (if name = [] then do_name old else name) data head)
           \<lparr>do_requirementId := do_requirementId old, do_versionOfId := Some (do_id old)\<rparr>)"

definition replace_tx :: "services \<Rightarrow> TenantContext \<Rightarrow> Document \<Rightarrow> ReplaceInput \<Rightarrow> Document \<Rightarrow> Document tx" where
  "replace_tx S ctx old inp f d =
     (let E = sv_env S; i = do_id old in
      res_bind (load_document ctx i d) (\<lambda>fresh.
      res_bind (ensure (do_isActive fresh) (Conflict ''Document has already been replaced.'')) (\<lambda>_.
      res_bind (put_document i (\<lambda>q. q\<lparr>do_isActive := False\<rparr>) d) (\<lambda>(_, d1).
      res_bind (insert_document f d1) (\<lambda>d2.
      res_bind (move_requirement E ctx (do_category old) (do_requirementId old) d2) (\<lambda>d3.
      let d4 = case_event E 3 (tenantId ctx) (do_caseId old) DOCUMENT_REPLACED (Some (userId ctx))
            [(''fileId'', JStr (do_id f)), (''oldId'', JStr i), (''newId'', JStr (do_id f)), (''sourceChannel'', JStr (source_name (rp_sourceChannel inp)))] d3
      in res_bind (audit_tx E 4 (file_audit ctx ''DOCUMENT_REPLACED'' (do_id f) ''CREATE''
            [(''oldId'', JStr i), (''newId'', JStr (do_id f)), (''caseId'', JStr (do_caseId old))]) d4) (\<lambda>d5.
         Inr (f, d5))))))))"

definition lost_version :: "TenantContext \<Rightarrow> string \<Rightarrow> app_error \<Rightarrow> db \<Rightarrow> app_error + Document" where
  "lost_version ctx uploadId e d =
     (if e = UniqueViolation \<or> (\<exists>t. e = UniqueTarget t)
      then (case doc_replay ctx uploadId d of Some won \<Rightarrow> Inr won | None \<Rightarrow> Inl duplicate_file)
      else Inl e)"

definition replaceDocument :: "services \<Rightarrow> TenantContext \<Rightarrow> string \<Rightarrow> ReplaceInput \<Rightarrow> bool \<Rightarrow> (string \<times> string option \<times> DocumentStatus) act" where
  "replaceDocument S ctx i inp canVerify =
     act_bind (act_read (\<lambda>d. Inr (doc_replay ctx (rp_uploadId inp) d))) (\<lambda>replay. case replay of
        Some f \<Rightarrow> act_return (do_id f, do_versionOfId f, do_status f)
      | None \<Rightarrow>
          act_bind (act_ensure (\<not> (rp_verify inp \<and> \<not> canVerify)) AuthorizationError) (\<lambda>_.
          act_bind (act_read (load_document ctx i)) (\<lambda>old.
          let stagingKey = docStagingKey (tenantId ctx) (do_caseId old) (rp_uploadId inp) (sanitizeFileName (rp_fileName inp))
          in act_bind (gate_staged S MAX_FILE_SIZE_BYTES isAllowedContentType stagingKey (doc_infected S stagingKey)) (\<lambda>(data, head).
             let f = version_of S ctx inp (rp_verify inp \<and> canVerify) old data head
             in act_bind (promote S stagingKey (do_storageKey f)) (\<lambda>_.
                act_bind (commit_upload (replace_tx S ctx old inp f) (lost_version ctx (rp_uploadId inp))) (\<lambda>r.
                act_return (do_id r, do_versionOfId r, do_status r)))))))"

section \<open>Removing a file\<close>

definition softDelete :: "env \<Rightarrow> TenantContext \<Rightarrow> string \<Rightarrow> string tx" where
  "softDelete E ctx i d =
     res_bind (load_document ctx i d) (\<lambda>f.
     res_bind (put_document i (\<lambda>q. q\<lparr>do_deletedAt := Some (ev_clock E 1), do_isActive := False\<rparr>) d) (\<lambda>(_, d1).
     res_bind (if do_category f = CAT_REQUIREMENT \<and> \<not> falsy (do_requirementId f)
          \<and> filter (active_file ctx (or_empty (do_requirementId f))) (documents d1) = []
        then map_sum id snd (resetRequirementToPendingInTx E 10 ctx (or_empty (do_requirementId f)) d1) else Inr d1) (\<lambda>d2.
     res_bind (audit_tx E 3 (file_audit ctx ''DOCUMENT_REMOVED'' i ''DELETE'' [(''caseId'', JStr (do_caseId f))])
        (case_event E 2 (tenantId ctx) (do_caseId f) DOCUMENT_REMOVED (Some (userId ctx)) [(''fileId'', JStr i)] d2)) (\<lambda>d3.
     Inr (i, d3)))))"

end
