(* ===== verification/Document_System.thy ===== *)
theory Document_System
  imports Document_Service
begin

text \<open>
  The requirements of the cases together with their files: what each committed transaction of
  \<^verbatim>\<open>documentation.service.ts\<close> and \<^verbatim>\<open>document.service.ts\<close> leaves, and what therefore holds in every
  reachable database, whatever the order of the transactions.
\<close>

section \<open>The recalculation as one map\<close>

definition reqs_of :: "string \<Rightarrow> string \<Rightarrow> DocCaseDocument list \<Rightarrow> DocCaseDocument list" where
  "reqs_of t c xs = filter (\<lambda>x. dd_caseId x = c \<and> dd_tenantId x = t) xs"

definition open_status :: "DocCaseStatus \<Rightarrow> bool" where
  "open_status st \<longleftrightarrow> st \<notin> set TERMINAL_STATUSES"

definition settled :: "(rat \<Rightarrow> rat) \<Rightarrow> DocCaseDocument list \<Rightarrow> DocCase \<Rightarrow> DocCase" where
  "settled rnd xs c =
     (case calcProgress rnd (reqs_of (dc_tenantId c) (dc_id c) xs) of (progress, ready) \<Rightarrow>
       c\<lparr>dc_progress := progress, dc_isReady := ready,
         dc_status := (if dc_status c \<in> set RECALC_MUTABLE_STATUSES then (if ready then DC_DOCUMENTATION_READY else DC_ACTIVE) else dc_status c)\<rparr>)"

definition recalculated :: "(rat \<Rightarrow> rat) \<Rightarrow> TenantContext \<Rightarrow> string \<Rightarrow> DocCaseDocument list \<Rightarrow> DocCase list \<Rightarrow> DocCase list" where
  "recalculated rnd ctx caseId xs cs =
     map (\<lambda>c. if live_case ctx caseId c \<and> open_status (dc_status c) then settled rnd xs c else c) cs"

lemma mutable_open: "st \<in> set RECALC_MUTABLE_STATUSES \<Longrightarrow> open_status st"
  by (auto simp: RECALC_MUTABLE_STATUSES_def open_status_def TERMINAL_STATUSES_def)

lemma the_live_case:
  assumes "distinct (map dc_id cs)" "find_first (live_case ctx i) cs = Some c" "q \<in> set cs" "live_case ctx i q"
  shows "q = c"
  using assms find_first_SomeD [OF assms(2)] by (auto simp: live_case_def distinct_map inj_on_def)

lemma recalc_only_cases: "\<exists>cs. recalcAndUpdateCase E ctx caseId d = d\<lparr>docCases := cs\<rparr>"
proof -
  have same: "\<exists>cs. d = d\<lparr>docCases := cs\<rparr>" by (rule exI [of _ "docCases d"]) simp
  have either: "\<exists>cs. (if b then d\<lparr>docCases := x\<rparr> else d\<lparr>docCases := y\<rparr>) = d\<lparr>docCases := cs\<rparr>" for b x y
    by (cases b) auto
  show ?thesis
  proof (cases "find_first (live_case ctx caseId) (docCases d)")
    case None
    show ?thesis unfolding recalcAndUpdateCase_def None option.case by (rule same)
  next
    case (Some c)
    show ?thesis
    proof (cases "dc_status c \<in> set TERMINAL_STATUSES")
      case True
      show ?thesis unfolding recalcAndUpdateCase_def Some option.case if_P [OF True] by (rule same)
    next
      case False
      show ?thesis unfolding recalcAndUpdateCase_def Some option.case if_not_P [OF False] case_prod_beta by (rule either)
    qed
  qed
qed

lemma recalc_tables [simp]:
  "caseDocuments (recalcAndUpdateCase E ctx c d) = caseDocuments d" "documents (recalcAndUpdateCase E ctx c d) = documents d"
  "planning (recalcAndUpdateCase E ctx c d) = planning d" "auditRows (recalcAndUpdateCase E ctx c d) = auditRows d"
  "caseEvents (recalcAndUpdateCase E ctx c d) = caseEvents d"
proof -
  obtain cs where "recalcAndUpdateCase E ctx c d = d\<lparr>docCases := cs\<rparr>" using recalc_only_cases by blast
  then show "caseDocuments (recalcAndUpdateCase E ctx c d) = caseDocuments d" "documents (recalcAndUpdateCase E ctx c d) = documents d"
    "planning (recalcAndUpdateCase E ctx c d) = planning d" "auditRows (recalcAndUpdateCase E ctx c d) = auditRows d"
    "caseEvents (recalcAndUpdateCase E ctx c d) = caseEvents d" by simp_all
qed

lemma recalc_open:
  assumes "find_first (live_case ctx caseId) (docCases d) = Some c" "open_status (dc_status c)"
    "calcProgress (ev_rnd E) (requirements_of ctx caseId d) = (progress, ready)"
  shows "docCases (recalcAndUpdateCase E ctx caseId d) =
    (if \<not> (\<forall>q \<in> set (docCases d). \<not> (live_case ctx caseId q \<and> dc_status q \<in> set RECALC_MUTABLE_STATUSES))
     then map (\<lambda>c. if live_case ctx caseId c \<and> dc_status c \<in> set RECALC_MUTABLE_STATUSES
            then c\<lparr>dc_progress := progress, dc_isReady := ready, dc_status := (if ready then DC_DOCUMENTATION_READY else DC_ACTIVE)\<rparr> else c) (docCases d)
     else map (\<lambda>c. if live_case ctx caseId c \<and> open_status (dc_status c) then c\<lparr>dc_progress := progress, dc_isReady := ready\<rparr> else c) (docCases d))"
proof -
  have ns: "(dc_status c \<in> set TERMINAL_STATUSES) = False" using assms(2) by (simp add: open_status_def)
  have map_eq: "fst (update_many p f cs) = map (\<lambda>r. if p r then f r else r) cs" for p f and cs :: "DocCase list"
    by (simp add: update_many_def)
  have dist: "docCases (if b then d\<lparr>docCases := x\<rparr> else d\<lparr>docCases := y\<rparr>) = (if b then x else y)" for b x y by simp
  show ?thesis
    unfolding recalcAndUpdateCase_def assms(1,3) option.case prod.case ns if_False case_prod_beta dist update_many_none map_eq open_status_def fst_conv snd_conv ..
qed

text \<open>With one row per id the two conditional updates are one map over the cases.\<close>

lemma recalc_refines:
  assumes "distinct (map dc_id (docCases d))"
  shows "docCases (recalcAndUpdateCase E ctx caseId d) = recalculated (ev_rnd E) ctx caseId (caseDocuments d) (docCases d)"
proof (cases "find_first (live_case ctx caseId) (docCases d)")
  case None
  then have "recalculated (ev_rnd E) ctx caseId (caseDocuments d) (docCases d) = docCases d"
    unfolding recalculated_def by (intro map_idI) (auto simp: find_first_None)
  with None show ?thesis by (simp add: recalcAndUpdateCase_def)
next
  case (Some c)
  note one = the_live_case [OF assms Some]
  have live: "c \<in> set (docCases d)" "live_case ctx caseId c" using find_first_SomeD [OF Some] by simp_all
  obtain progress ready where calc: "calcProgress (ev_rnd E) (requirements_of ctx caseId d) = (progress, ready)" by (metis surj_pair)
  have set_c: "settled (ev_rnd E) (caseDocuments d) c = c\<lparr>dc_progress := progress, dc_isReady := ready,
      dc_status := (if dc_status c \<in> set RECALC_MUTABLE_STATUSES then (if ready then DC_DOCUMENTATION_READY else DC_ACTIVE) else dc_status c)\<rparr>"
    using live(2) calc by (simp add: settled_def live_case_def reqs_of_def requirements_of_def)
  show ?thesis
  proof (cases "open_status (dc_status c)")
    case False
    have "recalculated (ev_rnd E) ctx caseId (caseDocuments d) (docCases d) = docCases d"
      unfolding recalculated_def
    proof (rule map_idI)
      fix q assume "q \<in> set (docCases d)"
      then show "(if live_case ctx caseId q \<and> open_status (dc_status q) then settled (ev_rnd E) (caseDocuments d) q else q) = q"
        using one [of q] False by (cases "live_case ctx caseId q") simp_all
    qed
    with Some False show ?thesis by (simp add: recalcAndUpdateCase_def open_status_def)
  next
    case unclosed: True
    note form = recalc_open [OF Some unclosed calc]
    show ?thesis
    proof (cases "dc_status c \<in> set RECALC_MUTABLE_STATUSES")
      case True
      then have m: "\<not> (\<forall>q \<in> set (docCases d). \<not> (live_case ctx caseId q \<and> dc_status q \<in> set RECALC_MUTABLE_STATUSES))" using live by blast
      have set_c': "settled (ev_rnd E) (caseDocuments d) c
          = c\<lparr>dc_progress := progress, dc_isReady := ready, dc_status := (if ready then DC_DOCUMENTATION_READY else DC_ACTIVE)\<rparr>"
        using set_c True by simp
      show ?thesis unfolding form if_P [OF m] recalculated_def
      proof (rule map_cong [OF refl])
        fix q assume q: "q \<in> set (docCases d)"
        show "(if live_case ctx caseId q \<and> dc_status q \<in> set RECALC_MUTABLE_STATUSES
            then q\<lparr>dc_progress := progress, dc_isReady := ready, dc_status := (if ready then DC_DOCUMENTATION_READY else DC_ACTIVE)\<rparr> else q)
          = (if live_case ctx caseId q \<and> open_status (dc_status q) then settled (ev_rnd E) (caseDocuments d) q else q)"
          using one [OF q] True unclosed set_c' by (cases "live_case ctx caseId q") (simp_all only: simp_thms if_True if_False)
      qed
    next
      case False
      then have m: "\<not> \<not> (\<forall>q \<in> set (docCases d). \<not> (live_case ctx caseId q \<and> dc_status q \<in> set RECALC_MUTABLE_STATUSES))" using one by blast
      have set_c': "settled (ev_rnd E) (caseDocuments d) c = c\<lparr>dc_progress := progress, dc_isReady := ready\<rparr>"
        using set_c False by simp
      show ?thesis unfolding form if_not_P [OF m] recalculated_def
      proof (rule map_cong [OF refl])
        fix q assume q: "q \<in> set (docCases d)"
        show "(if live_case ctx caseId q \<and> open_status (dc_status q) then q\<lparr>dc_progress := progress, dc_isReady := ready\<rparr> else q)
          = (if live_case ctx caseId q \<and> open_status (dc_status q) then settled (ev_rnd E) (caseDocuments d) q else q)"
          using one [OF q] unclosed set_c' by (cases "live_case ctx caseId q") (simp_all only: simp_thms if_True if_False)
      qed
    qed
  qed
qed

section \<open>Counters in step\<close>

text \<open>The counters, the readiness and the derived status of the cases that are not closed.\<close>

definition case_in_step :: "(rat \<Rightarrow> rat) \<Rightarrow> DocCaseDocument list \<Rightarrow> DocCase \<Rightarrow> bool" where
  "case_in_step rnd xs c \<longleftrightarrow> (dc_deletedAt c = None \<and> open_status (dc_status c) \<longrightarrow>
     (dc_progress c, dc_isReady c) = calcProgress rnd (reqs_of (dc_tenantId c) (dc_id c) xs)
     \<and> (dc_status c \<in> set RECALC_MUTABLE_STATUSES \<longrightarrow> dc_status c = (if dc_isReady c then DC_DOCUMENTATION_READY else DC_ACTIVE)))"

text \<open>
  What a transaction promises about every case: its counters are right, or neither it nor one of its
  requirements was touched.
\<close>

definition fresh_counts :: "(rat \<Rightarrow> rat) \<Rightarrow> db \<Rightarrow> db \<Rightarrow> bool" where
  "fresh_counts rnd d d' \<longleftrightarrow> (\<forall>c \<in> set (docCases d'). case_in_step rnd (caseDocuments d') c
     \<or> c \<in> set (docCases d) \<and> reqs_of (dc_tenantId c) (dc_id c) (caseDocuments d') = reqs_of (dc_tenantId c) (dc_id c) (caseDocuments d))"

lemma settled_in_step: "case_in_step rnd xs (settled rnd xs c)"
  by (auto simp: case_in_step_def settled_def split: prod.splits)

lemma recalculated_keys:
  "map dc_id (recalculated rnd ctx i xs cs) = map dc_id cs"
  by (auto simp: recalculated_def settled_def split: prod.splits)

text \<open>A write to the requirements of one case, and its recalculation.\<close>

lemma recalculated_counts:
  assumes "docCases d' = recalculated rnd ctx caseId (caseDocuments d') (docCases d)"
    and "\<And>t c. (t, c) \<noteq> (tenantId ctx, caseId) \<Longrightarrow> reqs_of t c (caseDocuments d') = reqs_of t c (caseDocuments d)"
  shows "fresh_counts rnd d d'"
  unfolding fresh_counts_def assms(1) recalculated_def set_map
proof (intro ballI, elim imageE, simp only:)
  fix c assume c: "c \<in> set (docCases d)"
  let ?q = "if live_case ctx caseId c \<and> open_status (dc_status c) then settled rnd (caseDocuments d') c else c"
  show "case_in_step rnd (caseDocuments d') ?q
     \<or> ?q \<in> set (docCases d) \<and> reqs_of (dc_tenantId ?q) (dc_id ?q) (caseDocuments d') = reqs_of (dc_tenantId ?q) (dc_id ?q) (caseDocuments d)"
  proof (cases "live_case ctx caseId c \<and> open_status (dc_status c)")
    case True
    then show ?thesis using settled_in_step by simp
  next
    case not: False
    show ?thesis
    proof (cases "(dc_tenantId c, dc_id c) = (tenantId ctx, caseId)")
      case True
      then have "case_in_step rnd (caseDocuments d') c" using not by (auto simp: case_in_step_def live_case_def)
      then show ?thesis unfolding if_not_P [OF not] by (rule disjI1)
    next
      case False
      then show ?thesis unfolding if_not_P [OF not] using c assms(2) by blast
    qed
  qed
qed

lemma same_counts: "caseDocuments d' = caseDocuments d \<Longrightarrow> docCases d' = docCases d \<Longrightarrow> fresh_counts rnd d d'"
  by (simp add: fresh_counts_def)

text \<open>One requirement written: the requirements of the other cases are the same.\<close>

definition keeps_place :: "(DocCaseDocument \<Rightarrow> DocCaseDocument) \<Rightarrow> bool" where
  "keeps_place f \<longleftrightarrow> (\<forall>x. dd_id (f x) = dd_id x \<and> dd_tenantId (f x) = dd_tenantId x \<and> dd_caseId (f x) = dd_caseId x \<and> dd_deletedAt (f x) = dd_deletedAt x)"

lemma reqs_of_update:
  assumes "distinct (map dd_id xs)" "x \<in> set xs" "dd_id x = i" "keeps_place f" "(t, c) \<noteq> (dd_tenantId x, dd_caseId x)"
  shows "reqs_of t c (map (\<lambda>y. if dd_id y = i then f y else y) xs) = reqs_of t c xs"
proof -
  have "y = x" if "y \<in> set xs" "dd_id y = i" for y using assms(1-3) that by (auto simp: distinct_map inj_on_def)
  then have "\<And>y. y \<in> set xs \<Longrightarrow> dd_id y = i \<Longrightarrow> \<not> (dd_caseId y = c \<and> dd_tenantId y = t)" using assms(5) by blast
  then show ?thesis unfolding reqs_of_def using assms(4) by (induction xs) (auto simp: keeps_place_def)
qed

section \<open>What each transaction leaves\<close>

definition rewritten :: "string \<Rightarrow> (DocCaseDocument \<Rightarrow> DocCaseDocument) \<Rightarrow> DocCaseDocument list \<Rightarrow> DocCaseDocument list" where
  "rewritten i f xs = map (\<lambda>y. if dd_id y = i then f y else y) xs"

text \<open>
  One requirement written and its case recalculated: \<open>x\<close> is the row before, \<open>f\<close> the write.
\<close>

definition wrote_requirement :: "(rat \<Rightarrow> rat) \<Rightarrow> TenantContext \<Rightarrow> string \<Rightarrow> DocCaseDocument \<Rightarrow> (DocCaseDocument \<Rightarrow> DocCaseDocument) \<Rightarrow> db \<Rightarrow> db \<Rightarrow> bool" where
  "wrote_requirement rnd ctx i x f d d' \<longleftrightarrow> find_first (live_requirement ctx i) (caseDocuments d) = Some x \<and> keeps_place f
     \<and> caseDocuments d' = rewritten i f (caseDocuments d)
     \<and> (distinct (map dc_id (docCases d)) \<longrightarrow> docCases d' = recalculated rnd ctx (dd_caseId x) (caseDocuments d') (docCases d))"

lemma put_requirement_Inr:
  "put_requirement i f d = Inr d' \<Longrightarrow> d' = d\<lparr>caseDocuments := rewritten i f (caseDocuments d)\<rparr>"
  by (auto simp: put_requirement_def res_bind_Inr_iff update_row_Inr update_many_def rewritten_def)

lemma load_requirement_Inr: "load_requirement ctx i d = Inr x \<longleftrightarrow> find_first (live_requirement ctx i) (caseDocuments d) = Some x"
  by (simp add: load_requirement_def or_throw_def split: option.splits)

lemma assertValid_Inr: "assertValidTransition a b = Inr u \<longleftrightarrow> b \<in> set (REQUIREMENT_TRANSITIONS a)"
  by (simp add: assertValidTransition_def)

text \<open>A new requirement.\<close>

lemma add_Inr:
  assumes "addDocumentToCase E ctx c inp d = Inr (r, d')"
  shows "r = requirement_row E ctx c inp d \<and> caseDocuments d' = caseDocuments d @ [r] \<and> documents d' = documents d
     \<and> (distinct (map dc_id (docCases d)) \<longrightarrow> docCases d' = recalculated (ev_rnd E) ctx c (caseDocuments d') (docCases d))"
proof -
  have r: "r = requirement_row E ctx c inp d" "d' = recalcAndUpdateCase E ctx c (d\<lparr>caseDocuments := caseDocuments d @ [r]\<rparr>)"
    using assms by (auto simp: addDocumentToCase_def res_bind_Inr_iff Let_def)
  show ?thesis using r(1) by (simp add: r(2) recalc_refines)
qed

text \<open>A review.\<close>

lemma deactivate_files_tables [simp]:
  "caseDocuments (deactivate_files ctx i d) = caseDocuments d" "docCases (deactivate_files ctx i d) = docCases d"
  "documents (deactivate_files ctx i d) = map (\<lambda>f. if active_file ctx i f then f\<lparr>do_isActive := False\<rparr> else f) (documents d)"
  by (simp_all add: deactivate_files_def update_many_def)

lemma reviewed_place: "keeps_place (reviewed E ctx inp date)"
  by (simp add: keeps_place_def reviewed_def Let_def)

lemma reviewed_status [simp]: "dd_status (reviewed E ctx inp date x) = rv_status inp"
  by (simp add: reviewed_def Let_def)

lemma review_Inr:
  assumes "updateDocumentStatus J E ctx i inp cv d = Inr (y, d')"
  shows "\<exists>x date. wrote_requirement (ev_rnd E) ctx i x (reviewed E ctx inp date) d d'
     \<and> rv_status inp \<in> set (REQUIREMENT_TRANSITIONS (dd_status x))
     \<and> documents d' = (if rv_status inp = DD_REJECTED then documents (deactivate_files ctx i d) else documents d)
     \<and> (rv_status inp = DD_APPROVED \<longrightarrow> (\<exists>f \<in> set (documents d). active_file ctx i f))"
proof -
  from assms obtain x date d1 a d5 where x: "find_first (live_requirement ctx i) (caseDocuments d) = Some x"
    and tr: "rv_status inp \<in> set (REQUIREMENT_TRANSITIONS (dd_status x))"
    and ap: "(if rv_status inp = DD_APPROVED then approval_check J ctx inp x d else Inr None) = Inr date"
    and d1: "put_requirement i (reviewed E ctx inp date) d = Inr d1"
    and a: "audit_log_tx E 4 a (recalcAndUpdateCase E ctx (dd_caseId x) (doc_event E 3 (tenantId ctx) (dd_caseId x) i (status_event (rv_status inp)) (userId ctx)
                (Some (dd_status x, rv_status inp)) (rv_remarks inp) [] (if rv_status inp = DD_REJECTED then deactivate_files ctx i d1 else d1))) = Inr d5"
    and d5: "d5 = d'"
    unfolding updateDocumentStatus_def Let_def res_bind_Inr_iff load_requirement_Inr assertValid_Inr
    by (elim exE conjE) (rule that, assumption, assumption, assumption, assumption, assumption, simp)
  have d1': "d1 = d\<lparr>caseDocuments := rewritten i (reviewed E ctx inp date) (caseDocuments d)\<rparr>" by (rule put_requirement_Inr [OF d1])
  note tab = audit_tx_tables [OF a [unfolded audit_log_tx_Inr]]
  define d3 where "d3 = doc_event E 3 (tenantId ctx) (dd_caseId x) i (status_event (rv_status inp)) (userId ctx)
                (Some (dd_status x, rv_status inp)) (rv_remarks inp) [] (if rv_status inp = DD_REJECTED then deactivate_files ctx i d1 else d1)"
  have d3: "caseDocuments d3 = rewritten i (reviewed E ctx inp date) (caseDocuments d)" "docCases d3 = docCases d"
    "documents d3 = (if rv_status inp = DD_REJECTED then documents (deactivate_files ctx i d) else documents d)"
    by (simp_all add: d3_def d1')
  have cds: "caseDocuments d' = caseDocuments d3" "documents d' = documents d3"
    "docCases d' = docCases (recalcAndUpdateCase E ctx (dd_caseId x) d3)"
    using tab unfolding d5 d3_def by simp_all
  have "dd_id x = i" using find_first_SomeD [OF x] by (simp add: live_requirement_def)
  then have "rv_status inp = DD_APPROVED \<longrightarrow> (\<exists>f \<in> set (documents d). active_file ctx i f)"
    using ap by (auto simp: approval_check_def res_bind_Inr_iff)
  moreover have "wrote_requirement (ev_rnd E) ctx i x (reviewed E ctx inp date) d d'"
    unfolding wrote_requirement_def using x reviewed_place cds d3 recalc_refines [of d3 E ctx "dd_caseId x"] by simp
  ultimately show ?thesis using tr trans [OF cds(2) d3(3)] by (intro exI conjI) assumption+
qed

text \<open>A move by an upload, and the reset after the last file is gone.\<close>

definition moved_to :: "env \<Rightarrow> nat \<Rightarrow> TenantContext \<Rightarrow> DocDocumentStatus \<Rightarrow> DocCaseDocument \<Rightarrow> DocCaseDocument" where
  "moved_to E k ctx st y = y\<lparr>dd_status := st,
     dd_receivedAt := (if st = DD_RECEIVED then Some (ev_clock E k) else dd_receivedAt y),
     dd_verifiedAt := (if st = DD_APPROVED then Some (ev_clock E k) else dd_verifiedAt y),
     dd_verifiedBy := (if st = DD_APPROVED then Some (userId ctx) else dd_verifiedBy y), dd_updatedAt := ev_clock E (k + 1)\<rparr>"

lemma transition_Inr:
  assumes "transitionRequirementInTx E k ctx i st d = Inr (b, d')"
  shows "documents d' = documents d \<and> (\<exists>x. find_first (live_requirement ctx i) (caseDocuments d) = Some x
     \<and> (if dd_status x = st then d' = d
        else st \<in> set (REQUIREMENT_TRANSITIONS (dd_status x)) \<and> wrote_requirement (ev_rnd E) ctx i x (moved_to E k ctx st) d d'))"
proof -
  from assms obtain x where x: "find_first (live_requirement ctx i) (caseDocuments d) = Some x"
    and rest: "(if dd_status x = st then Inr (False, d) else
       res_bind (assertValidTransition (dd_status x) st) (\<lambda>_.
       res_bind (put_requirement i (moved_to E k ctx st) d) (\<lambda>d1.
       let d2 = doc_event E (k + 2) (tenantId ctx) (dd_caseId x) i (status_event st) (userId ctx) (Some (dd_status x, st)) None [] d1
       in res_bind (audit_tx E (k + 3) (status_audit ctx i [(''fromStatus'', JStr (doc_status_name (dd_status x))),
              (''toStatus'', JStr (doc_status_name st)), (''trigger'', JStr ''FILE_UPLOAD'')] (dd_status x) st) d2) (\<lambda>d3.
          Inr (True, recalcAndUpdateCase E ctx (dd_caseId x) d3))))) = Inr (b, d')"
    unfolding transitionRequirementInTx_def res_bind_Inr_iff [of "load_requirement ctx i d"] load_requirement_Inr moved_to_def [abs_def] by blast
  show ?thesis
  proof (cases "dd_status x = st")
    case True
    then show ?thesis using rest x by simp
  next
    case False
    from rest obtain d1 a d3 where tr: "st \<in> set (REQUIREMENT_TRANSITIONS (dd_status x))"
      and d1: "put_requirement i (moved_to E k ctx st) d = Inr d1"
      and a: "audit_tx E (k + 3) a (doc_event E (k + 2) (tenantId ctx) (dd_caseId x) i (status_event st) (userId ctx) (Some (dd_status x, st)) None [] d1) = Inr d3"
      and d': "d' = recalcAndUpdateCase E ctx (dd_caseId x) d3"
      unfolding if_not_P [OF False] Let_def res_bind_Inr_iff assertValid_Inr
      by (elim exE conjE) (rule that, assumption, assumption, assumption, simp)
    have d1': "d1 = d\<lparr>caseDocuments := rewritten i (moved_to E k ctx st) (caseDocuments d)\<rparr>" by (rule put_requirement_Inr [OF d1])
    have t: "caseDocuments d3 = rewritten i (moved_to E k ctx st) (caseDocuments d)" "docCases d3 = docCases d" "documents d3 = documents d"
      using audit_tx_tables [OF a] by (simp_all add: d1')
    have "wrote_requirement (ev_rnd E) ctx i x (moved_to E k ctx st) d d'"
      unfolding wrote_requirement_def using x t recalc_refines [of d3 E ctx "dd_caseId x"] by (simp add: d' keeps_place_def moved_to_def)
    then show ?thesis using x False tr t(3) by (simp add: d')
  qed
qed

definition reset :: "env \<Rightarrow> nat \<Rightarrow> DocCaseDocument \<Rightarrow> DocCaseDocument" where
  "reset E k y = y\<lparr>dd_status := DD_PENDING_COLLECTION, dd_verifiedAt := None, dd_verifiedBy := None,
     dd_verificationRemarks := None, dd_rejectionReason := None, dd_receivedAt := None, dd_updatedAt := ev_clock E k\<rparr>"

lemma reset_status: "dd_status (reset E k y) = DD_PENDING_COLLECTION"
  by (simp add: reset_def)

lemma reset_Inr:
  assumes "resetRequirementToPendingInTx E k ctx i d = Inr (b, d')"
  shows "documents d' = documents d \<and> (case find_first (live_requirement ctx i) (caseDocuments d) of
       None \<Rightarrow> d' = d
     | Some x \<Rightarrow> if dd_status x = DD_PENDING_COLLECTION then d' = d else wrote_requirement (ev_rnd E) ctx i x (reset E k) d d')"
proof (cases "find_first (live_requirement ctx i) (caseDocuments d)")
  case None
  then show ?thesis using assms by (simp add: resetRequirementToPendingInTx_def)
next
  case (Some x)
  show ?thesis
  proof (cases "dd_status x = DD_PENDING_COLLECTION")
    case True
    then show ?thesis using assms Some by (simp add: resetRequirementToPendingInTx_def)
  next
    case False
    from assms obtain d1 where d1: "put_requirement i (reset E k) d = Inr d1"
      and d': "d' = recalcAndUpdateCase E ctx (dd_caseId x) (doc_event E (k + 1) (tenantId ctx) (dd_caseId x) i DOCUMENT_STATUS_CHANGED (userId ctx)
                 (Some (dd_status x, DD_PENDING_COLLECTION)) None [] d1)"
      unfolding resetRequirementToPendingInTx_def Some option.case if_not_P [OF False] res_bind_Inr_iff by (auto simp: reset_def [abs_def])
    have d1': "d1 = d\<lparr>caseDocuments := rewritten i (reset E k) (caseDocuments d)\<rparr>" by (rule put_requirement_Inr [OF d1])
    have "wrote_requirement (ev_rnd E) ctx i x (reset E k) d d'"
      unfolding wrote_requirement_def d' using Some by (simp add: d1' keeps_place_def reset_def recalc_refines)
    then show ?thesis using Some False by (simp add: d' d1')
  qed
qed

text \<open>The files. What an upload may do to a requirement beside them.\<close>

definition moved_requirement :: "(rat \<Rightarrow> rat) \<Rightarrow> TenantContext \<Rightarrow> DocDocumentStatus \<Rightarrow> db \<Rightarrow> db \<Rightarrow> bool" where
  "moved_requirement rnd ctx st d d' \<longleftrightarrow> caseDocuments d' = caseDocuments d \<and> docCases d' = docCases d
     \<or> (\<exists>i x f. wrote_requirement rnd ctx i x f d d' \<and> (\<forall>y. dd_status (f y) = st)
          \<and> st \<in> set (REQUIREMENT_TRANSITIONS (dd_status x)))"

lemma wrote_cong:
  "caseDocuments d1 = caseDocuments d \<Longrightarrow> docCases d1 = docCases d \<Longrightarrow> caseDocuments d2 = caseDocuments d' \<Longrightarrow> docCases d2 = docCases d'
     \<Longrightarrow> wrote_requirement rnd ctx i x f d d' = wrote_requirement rnd ctx i x f d1 d2"
  by (simp add: wrote_requirement_def)

lemma moved_cong:
  assumes "caseDocuments d1 = caseDocuments d" "docCases d1 = docCases d" "caseDocuments d2 = caseDocuments d'" "docCases d2 = docCases d'"
  shows "moved_requirement rnd ctx st d d' = moved_requirement rnd ctx st d1 d2"
  by (simp add: moved_requirement_def wrote_cong [OF assms] assms)

lemma map_sum_snd: "map_sum id snd m = Inr y \<Longrightarrow> \<exists>b. m = Inr (b, y)"
  by (cases m) auto

lemma movedI:
  assumes "wrote_requirement rnd ctx i x f d d'" "\<And>y. dd_status (f y) = st"
    "st \<in> set (REQUIREMENT_TRANSITIONS (dd_status x))"
  shows "moved_requirement rnd ctx st d d'"
  unfolding moved_requirement_def by (rule disjI2, intro exI conjI allI, (rule assms)+)

lemma move_requirement_Inr:
  assumes "move_requirement E ctx cat req d = Inr d'"
  shows "documents d' = documents d \<and> moved_requirement (ev_rnd E) ctx DD_UNDER_VERIFICATION d d'"
proof (cases "cat = CAT_REQUIREMENT \<and> \<not> falsy req")
  case True
  have "\<exists>b. transitionRequirementInTx E 10 ctx (or_empty req) DD_UNDER_VERIFICATION d = Inr (b, d')"
    using assms unfolding move_requirement_def if_P [OF True] by (rule map_sum_snd)
  then obtain b where "transitionRequirementInTx E 10 ctx (or_empty req) DD_UNDER_VERIFICATION d = Inr (b, d')" by (elim exE)
  from transition_Inr [OF this] obtain x where doc: "documents d' = documents d"
    and x: "if dd_status x = DD_UNDER_VERIFICATION then d' = d
      else DD_UNDER_VERIFICATION \<in> set (REQUIREMENT_TRANSITIONS (dd_status x))
        \<and> wrote_requirement (ev_rnd E) ctx (or_empty req) x (moved_to E 10 ctx DD_UNDER_VERIFICATION) d d'"
    by (elim conjE exE) (rule that)
  have "moved_requirement (ev_rnd E) ctx DD_UNDER_VERIFICATION d d'"
  proof (cases "dd_status x = DD_UNDER_VERIFICATION")
    case True
    then show ?thesis using x by (simp add: moved_requirement_def)
  next
    case False
    then have "wrote_requirement (ev_rnd E) ctx (or_empty req) x (moved_to E 10 ctx DD_UNDER_VERIFICATION) d d'"
      and "DD_UNDER_VERIFICATION \<in> set (REQUIREMENT_TRANSITIONS (dd_status x))" using x by simp_all
    then show ?thesis by (intro movedI) (assumption, simp add: moved_to_def, assumption)
  qed
  with doc show ?thesis by (rule conjI)
next
  case False
  have "d' = d" using assms unfolding move_requirement_def if_not_P [OF False] by simp
  then show ?thesis by (simp add: moved_requirement_def)
qed

definition active_of :: "string \<Rightarrow> string \<Rightarrow> Document \<Rightarrow> bool" where
  "active_of t i f \<longleftrightarrow> do_tenantId f = t \<and> do_requirementId f = Some i \<and> do_category f = CAT_REQUIREMENT \<and> do_isActive f \<and> do_deletedAt f = None"

lemma active_file_of: "active_file ctx i f = active_of (tenantId ctx) i f"
  by (simp add: active_file_def active_of_def)

lemma insert_document_Inr:
  "insert_document f d = Inr d' \<Longrightarrow> d' = d\<lparr>documents := documents d @ [f]\<rparr>
     \<and> (\<forall>i t. active_of t i f \<longrightarrow> (\<forall>q \<in> set (documents d). \<not> active_of t i q))"
  by (auto simp: insert_document_def active_of_def split: if_splits)

definition altered :: "string \<Rightarrow> (Document \<Rightarrow> Document) \<Rightarrow> Document list \<Rightarrow> Document list" where
  "altered i g fs = map (\<lambda>q. if do_id q = i then g q else q) fs"

lemma put_document_Inr:
  "put_document i g d = Inr (q, d') \<Longrightarrow> d' = d\<lparr>documents := altered i g (documents d)\<rparr>"
  by (auto simp: put_document_def res_bind_Inr_iff update_row_Inr update_many_def altered_def)

lemma load_document_Inr:
  "load_document ctx i d = Inr f \<Longrightarrow> f \<in> set (documents d) \<and> do_id f = i \<and> do_tenantId f = tenantId ctx \<and> do_deletedAt f = None"
  by (auto simp: load_document_def or_throw_def split: option.splits dest: find_first_SomeD)

lemma case_event_rows [simp]:
  "caseDocuments (case_event E k t c ev a p d) = caseDocuments d" "documents (case_event E k t c ev a p d) = documents d"
  by simp_all

lemma confirm_Inr:
  assumes "confirm_tx S ctx c inp f wv d = Inr (r, d')"
  shows "r = f \<and> documents d' = documents d @ [f] \<and> moved_requirement (ev_rnd (sv_env S)) ctx DD_UNDER_VERIFICATION d d'
     \<and> (\<forall>i t. active_of t i f \<longrightarrow> (\<forall>q \<in> set (documents d). \<not> active_of t i q))"
proof -
  from assms obtain d1 d2 e a d3 where d1: "insert_document f d = Inr d1"
    and d2: "move_requirement (sv_env S) ctx (cf_category inp) (cf_requirementId inp) d1 = Inr d2"
    and a: "audit_tx (sv_env S) 4 a (case_event (sv_env S) 3 (tenantId ctx) c DOCUMENT_UPLOADED (Some (userId ctx)) e d2) = Inr d3"
    and r: "r = f" "d3 = d'"
    unfolding confirm_tx_def Let_def res_bind_Inr_iff by (elim exE conjE) (rule that, assumption, assumption, assumption, simp, simp)
  have t: "documents d' = documents d2" "caseDocuments d' = caseDocuments d2" "docCases d' = docCases d2"
    using audit_tx_tables [OF a] r(2) by simp_all
  note ins = insert_document_Inr [OF d1]
  note mv = move_requirement_Inr [OF d2]
  have "moved_requirement (ev_rnd (sv_env S)) ctx DD_UNDER_VERIFICATION d d'"
    using mv moved_cong [of d d1 d' d2] ins t by simp
  then show ?thesis using r(1) ins mv t by simp
qed

lemma replace_Inr:
  assumes "replace_tx S ctx old inp f d = Inr (r, d')"
  shows "r = f \<and> (\<exists>q \<in> set (documents d). do_id q = do_id old \<and> do_tenantId q = tenantId ctx \<and> do_deletedAt q = None \<and> do_isActive q)
     \<and> documents d' = altered (do_id old) (\<lambda>q. q\<lparr>do_isActive := False\<rparr>) (documents d) @ [f]
     \<and> moved_requirement (ev_rnd (sv_env S)) ctx DD_UNDER_VERIFICATION d d'
     \<and> (\<forall>i t. active_of t i f \<longrightarrow> (\<forall>q \<in> set (altered (do_id old) (\<lambda>q. q\<lparr>do_isActive := False\<rparr>) (documents d)). \<not> active_of t i q))"
proof -
  from assms obtain q u p1 d2 d3 e a d4 where q: "load_document ctx (do_id old) d = Inr q" "ensure (do_isActive q) (Conflict ''Document has already been replaced.'') = Inr u"
    and d1: "put_document (do_id old) (\<lambda>q. q\<lparr>do_isActive := False\<rparr>) d = Inr p1"
    and d2: "insert_document f (snd p1) = Inr d2"
    and d3: "move_requirement (sv_env S) ctx (do_category old) (do_requirementId old) d2 = Inr d3"
    and a: "audit_tx (sv_env S) 4 a (case_event (sv_env S) 3 (tenantId ctx) (do_caseId old) DOCUMENT_REPLACED (Some (userId ctx)) e d3) = Inr d4"
    and r: "r = f" "d4 = d'"
    unfolding replace_tx_def Let_def res_bind_Inr_iff case_prod_beta
    apply (elim exE conjE)
    subgoal premises p
      using p(8) by (intro that [OF p(2-7)]) (simp_all only: sum.inject prod.inject)
    done
  have t: "documents d' = documents d3" "caseDocuments d' = caseDocuments d3" "docCases d' = docCases d3"
    using audit_tx_tables [OF a] r(2) by simp_all
  have "put_document (do_id old) (\<lambda>q. q\<lparr>do_isActive := False\<rparr>) d = Inr (fst p1, snd p1)" using d1 by simp
  note put = put_document_Inr [OF this]
  note ins = insert_document_Inr [OF d2]
  note mv = move_requirement_Inr [OF d3]
  have doc: "documents d2 = altered (do_id old) (\<lambda>q. q\<lparr>do_isActive := False\<rparr>) (documents d) @ [f]"
    "caseDocuments d2 = caseDocuments d" "docCases d2 = docCases d"
    using put conjunct1 [OF ins] by simp_all
  have "moved_requirement (ev_rnd (sv_env S)) ctx DD_UNDER_VERIFICATION d d'"
    unfolding moved_cong [OF doc(2,3) t(2,3) [symmetric]] by (rule conjunct2 [OF mv])
  moreover have "documents d' = altered (do_id old) (\<lambda>q. q\<lparr>do_isActive := False\<rparr>) (documents d) @ [f]"
    using t(1) conjunct1 [OF mv] doc(1) by simp
  moreover have "\<forall>i t. active_of t i f \<longrightarrow> (\<forall>q \<in> set (altered (do_id old) (\<lambda>q. q\<lparr>do_isActive := False\<rparr>) (documents d)). \<not> active_of t i q)"
    using conjunct2 [OF ins] put by simp
  moreover have "\<exists>q \<in> set (documents d). do_id q = do_id old \<and> do_tenantId q = tenantId ctx \<and> do_deletedAt q = None \<and> do_isActive q"
    using load_document_Inr [OF q(1)] q(2) by (intro bexI [of _ q]) simp_all
  ultimately show ?thesis using r(1) by (intro conjI)
qed

lemma file_status_Inr:
  assumes "updateFileStatus E ctx i st why cv d = Inr (r, d')"
  shows "caseDocuments d' = caseDocuments d \<and> docCases d' = docCases d \<and> documents d' = altered i (status_changed E ctx st why) (documents d)
     \<and> (\<exists>g. load_document ctx i d = Inr g) \<and> (\<exists>f. find_first (\<lambda>q. do_id q = i) (documents d) = Some f \<and> do_isActive f \<and> st \<in> set (DOCUMENT_STATUS_TRANSITIONS (do_status f)))"
proof -
  from assms obtain g f u1 u2 p1 e a d3 where g: "load_document ctx i d = Inr g" and f: "or_throw (find_first (\<lambda>q. do_id q = i) (documents d)) ResourceNotFoundError = Inr f"
      "ensure (do_isActive f) (Conflict ''Document has been replaced; act on the current version.'') = Inr u1"
      "ensure (st \<in> set (DOCUMENT_STATUS_TRANSITIONS (do_status f))) (bad_transition (do_status f) st) = Inr u2"
    and p1: "put_document i (status_changed E ctx st why) d = Inr p1"
    and a: "audit_tx E 3 a (case_event E 2 (tenantId ctx) e DOCUMENT_STATUS_CHANGED (Some (userId ctx))
       ((''fileId'', JStr i) # [(''fromStatus'', JStr (file_status_name (do_status f))), (''toStatus'', JStr (file_status_name st))]) (snd p1)) = Inr d3"
    and d': "d3 = d'"
    unfolding updateFileStatus_def Let_def res_bind_Inr_iff case_prod_beta
    apply (elim exE conjE)
    subgoal premises p
      using p(10) by (intro that [OF p(4-9)]) (simp_all only: sum.inject prod.inject)
    done
  have "put_document i (status_changed E ctx st why) d = Inr (fst p1, snd p1)" using p1 by simp
  note put = put_document_Inr [OF this]
  have "documents d' = altered i (status_changed E ctx st why) (documents d)" "caseDocuments d' = caseDocuments d" "docCases d' = docCases d"
    using audit_tx_tables [OF a] put unfolding d' by simp_all
  moreover have "find_first (\<lambda>q. do_id q = i) (documents d) = Some f" using f(1) by (auto simp: or_throw_def split: option.splits)
  ultimately show ?thesis using f(2,3) g by simp
qed

definition same_rows :: "db \<Rightarrow> db \<Rightarrow> bool" where
  "same_rows d d' \<longleftrightarrow> caseDocuments d' = caseDocuments d \<and> docCases d' = docCases d"

text \<open>The requirement whose last active file a removal takes, as the code finds it.\<close>

definition left_empty :: "TenantContext \<Rightarrow> Document \<Rightarrow> Document list \<Rightarrow> bool" where
  "left_empty ctx f fs \<longleftrightarrow> do_category f = CAT_REQUIREMENT \<and> \<not> falsy (do_requirementId f)
     \<and> filter (active_file ctx (or_empty (do_requirementId f))) fs = []"

definition removed :: "env \<Rightarrow> Document \<Rightarrow> Document" where
  "removed E q = q\<lparr>do_deletedAt := Some (ev_clock E 1), do_isActive := False\<rparr>"

definition was_reset :: "env \<Rightarrow> TenantContext \<Rightarrow> string \<Rightarrow> db \<Rightarrow> db \<Rightarrow> bool" where
  "was_reset E ctx i d d' \<longleftrightarrow> (case find_first (live_requirement ctx i) (caseDocuments d) of
       None \<Rightarrow> same_rows d d'
     | Some x \<Rightarrow> if dd_status x = DD_PENDING_COLLECTION then same_rows d d' else wrote_requirement (ev_rnd E) ctx i x (reset E 10) d d')"

lemma softDelete_Inr:
  assumes "softDelete E ctx i d = Inr (r, d')"
  shows "\<exists>f. load_document ctx i d = Inr f \<and> documents d' = altered i (removed E) (documents d)
     \<and> (if left_empty ctx f (documents d') then was_reset E ctx (or_empty (do_requirementId f)) d d' else same_rows d d')"
proof -
  have r: "(\<lambda>q. q\<lparr>do_deletedAt := Some (ev_clock E 1), do_isActive := False\<rparr>) = removed E"
    by (simp add: fun_eq_iff removed_def)
  have l: "(do_category f = CAT_REQUIREMENT \<and> \<not> falsy (do_requirementId f)
      \<and> filter (active_file ctx (or_empty (do_requirementId f))) fs = []) = left_empty ctx f fs" for f fs
    by (simp add: left_empty_def)
  from assms obtain f p1 d2 a d3 where f: "load_document ctx i d = Inr f"
    and p1: "put_document i (removed E) d = Inr p1"
    and d2: "(if left_empty ctx f (documents (snd p1))
        then map_sum id snd (resetRequirementToPendingInTx E 10 ctx (or_empty (do_requirementId f)) (snd p1)) else Inr (snd p1)) = Inr d2"
    and a: "audit_tx E 3 a (case_event E 2 (tenantId ctx) (do_caseId f) DOCUMENT_REMOVED (Some (userId ctx)) [(''fileId'', JStr i)] d2) = Inr d3"
    and d': "d3 = d'"
    unfolding softDelete_def res_bind_Inr_iff case_prod_beta r l
    apply (elim exE conjE)
    subgoal premises p
      using p(6) by (intro that [OF p(2-5)]) (simp_all only: sum.inject prod.inject)
    done
  have "put_document i (removed E) d = Inr (fst p1, snd p1)" using p1 by simp
  note put = put_document_Inr [OF this]
  have t: "documents d' = documents d2" "caseDocuments d' = caseDocuments d2" "docCases d' = docCases d2"
    using audit_tx_tables [OF a] unfolding d' by simp_all
  let ?d1 = "snd p1" and ?req = "or_empty (do_requirementId f)"
  have d1: "documents ?d1 = altered i (removed E) (documents d)" "caseDocuments ?d1 = caseDocuments d" "docCases ?d1 = docCases d"
    using put by simp_all
  show ?thesis
  proof (cases "left_empty ctx f (documents ?d1)")
    case True
    from d2 have "map_sum id snd (resetRequirementToPendingInTx E 10 ctx ?req ?d1) = Inr d2" unfolding if_P [OF True] .
    from map_sum_snd [OF this] obtain b where b: "resetRequirementToPendingInTx E 10 ctx ?req ?d1 = Inr (b, d2)" by (elim exE)
    note r = reset_Inr [OF b]
    have docs: "documents d' = altered i (removed E) (documents d)" using t(1) r d1(1) by simp
    have "was_reset E ctx ?req d d'"
    proof (cases "find_first (live_requirement ctx ?req) (caseDocuments d)")
      case None
      then have "d2 = ?d1" using r d1(2) by simp
      then show ?thesis using None t d1 by (simp add: was_reset_def same_rows_def)
    next
      case (Some x)
      show ?thesis
      proof (cases "dd_status x = DD_PENDING_COLLECTION")
        case True
        then have "d2 = ?d1" using r d1(2) Some by simp
        then show ?thesis using Some True t d1 by (simp add: was_reset_def same_rows_def)
      next
        case False
        then have "wrote_requirement (ev_rnd E) ctx ?req x (reset E 10) ?d1 d2" using r d1(2) Some by simp
        then have "wrote_requirement (ev_rnd E) ctx ?req x (reset E 10) d d'"
          using wrote_cong [OF d1(2,3) t(2,3) [symmetric]] by simp
        then show ?thesis using Some False by (simp add: was_reset_def)
      qed
    qed
    then show ?thesis using f docs True d1(1) by (intro exI [of _ f]) simp
  next
    case False
    from d2 have "d2 = ?d1" unfolding if_not_P [OF False] by simp
    then show ?thesis using f t d1 False by (intro exI [of _ f]) (simp add: same_rows_def)
  qed
qed

section \<open>The invariant\<close>

definition keys_ok :: "db \<Rightarrow> bool" where
  "keys_ok d \<longleftrightarrow> distinct (map dc_id (docCases d)) \<and> distinct (map dd_id (caseDocuments d)) \<and> distinct (map do_id (documents d))
     \<and> [] \<notin> set (map dd_id (caseDocuments d))"

definition one_active :: "Document list \<Rightarrow> bool" where
  "one_active fs \<longleftrightarrow> (\<forall>t i. \<forall>f \<in> set fs. \<forall>g \<in> set fs. active_of t i f \<and> active_of t i g \<longrightarrow> f = g)"

definition has_file :: "Document list \<Rightarrow> DocCaseDocument \<Rightarrow> bool" where
  "has_file fs x \<longleftrightarrow> (\<exists>f \<in> set fs. active_of (dd_tenantId x) (dd_id x) f)"

definition approved_live :: "DocCaseDocument \<Rightarrow> bool" where
  "approved_live x \<longleftrightarrow> dd_deletedAt x = None \<and> dd_status x = DD_APPROVED"

definition well_kept :: "db \<Rightarrow> bool" where
  "well_kept d \<longleftrightarrow> keys_ok d \<and> one_active (documents d)
     \<and> (\<forall>x \<in> set (caseDocuments d). approved_live x \<longrightarrow> has_file (documents d) x)"

text \<open>A write that approves nothing: the rows stay sound and no requirement is newly approved.\<close>

definition calm :: "db \<Rightarrow> db \<Rightarrow> bool" where
  "calm d d' \<longleftrightarrow> map dc_id (docCases d') = map dc_id (docCases d) \<and> map dd_id (caseDocuments d') = map dd_id (caseDocuments d)
     \<and> (\<forall>x \<in> set (caseDocuments d'). approved_live x \<longrightarrow> x \<in> set (caseDocuments d))"

lemma rewritten_ids: "keeps_place f \<Longrightarrow> map dd_id (rewritten i f xs) = map dd_id xs"
  by (simp add: rewritten_def keeps_place_def)

lemma wrote_found:
  assumes "wrote_requirement rnd ctx i x f d d'"
  shows "x \<in> set (caseDocuments d)" "dd_id x = i" "dd_tenantId x = tenantId ctx" "dd_deletedAt x = None"
  using assms find_first_SomeD [of "live_requirement ctx i" "caseDocuments d" x] by (auto simp: wrote_requirement_def live_requirement_def)

lemma wrote_rows:
  assumes "wrote_requirement rnd ctx i x f d d'" "keys_ok d"
  shows "map dc_id (docCases d') = map dc_id (docCases d)" "map dd_id (caseDocuments d') = map dd_id (caseDocuments d)"
    "fresh_counts rnd d d'"
proof -
  have w: "keeps_place f" "caseDocuments d' = rewritten i f (caseDocuments d)"
    "docCases d' = recalculated rnd ctx (dd_caseId x) (caseDocuments d') (docCases d)"
    using assms(1,2) by (simp_all add: wrote_requirement_def keys_ok_def)
  note x = wrote_found [OF assms(1)]
  show "map dc_id (docCases d') = map dc_id (docCases d)" using w(3) by (simp add: recalculated_keys)
  show "map dd_id (caseDocuments d') = map dd_id (caseDocuments d)" using w(1,2) by (simp add: rewritten_ids)
  have "reqs_of t c (caseDocuments d') = reqs_of t c (caseDocuments d)" if "(t, c) \<noteq> (tenantId ctx, dd_caseId x)" for t c
    unfolding w(2) rewritten_def
    by (rule reqs_of_update [OF _ x(1,2) w(1)]) (use assms(2) that x(3) in \<open>auto simp: keys_ok_def\<close>)
  then show "fresh_counts rnd d d'" by (rule recalculated_counts [OF w(3)])
qed

lemma wrote_calm:
  assumes "wrote_requirement rnd ctx i x f d d'" "keys_ok d" "\<And>y. dd_status (f y) \<noteq> DD_APPROVED"
  shows "calm d d'"
proof -
  have "y \<in> set (caseDocuments d)" if "y \<in> set (caseDocuments d')" "approved_live y" for y
    using that assms(1,3) by (auto simp: wrote_requirement_def rewritten_def approved_live_def split: if_splits)
  then show ?thesis using wrote_rows [OF assms(1,2)] by (simp add: calm_def)
qed

lemma same_calm: "same_rows d d' \<Longrightarrow> calm d d'"
  by (simp add: calm_def same_rows_def)

lemma moved_wrote:
  assumes "moved_requirement rnd ctx st d d'" "\<not> (caseDocuments d' = caseDocuments d \<and> docCases d' = docCases d)"
  obtains i x f where "wrote_requirement rnd ctx i x f d d'" "\<And>y. dd_status (f y) = st"
    "st \<in> set (REQUIREMENT_TRANSITIONS (dd_status x))"
proof -
  have "\<exists>i x f. wrote_requirement rnd ctx i x f d d' \<and> (\<forall>y. dd_status (f y) = st) \<and> st \<in> set (REQUIREMENT_TRANSITIONS (dd_status x))"
    using assms unfolding moved_requirement_def by (elim disjE) (erule notE, assumption, assumption)
  then obtain i x f where w: "wrote_requirement rnd ctx i x f d d'" and st: "\<forall>y. dd_status (f y) = st"
    and tr: "st \<in> set (REQUIREMENT_TRANSITIONS (dd_status x))" by (elim exE conjE)
  show ?thesis by (rule that [OF w _ tr]) (use st in simp)
qed

lemma moved_counts:
  assumes "moved_requirement rnd ctx st d d'" "keys_ok d"
  shows "fresh_counts rnd d d'"
proof (cases "caseDocuments d' = caseDocuments d \<and> docCases d' = docCases d")
  case True
  then show ?thesis by (simp add: same_counts)
next
  case False
  with assms(1) obtain i x f where "wrote_requirement rnd ctx i x f d d'" by (rule moved_wrote)
  then show ?thesis using assms(2) by (rule wrote_rows(3))
qed

lemma moved_calm:
  assumes "moved_requirement rnd ctx st d d'" "keys_ok d" "st \<noteq> DD_APPROVED"
  shows "calm d d'"
proof (cases "caseDocuments d' = caseDocuments d \<and> docCases d' = docCases d")
  case True
  then show ?thesis by (simp add: calm_def)
next
  case False
  with assms(1) obtain i x f where w: "wrote_requirement rnd ctx i x f d d'" and st: "\<And>y. dd_status (f y) = st" by (rule moved_wrote) (rule that)
  show ?thesis by (rule wrote_calm [OF w assms(2)]) (use st assms(3) in simp)
qed

text \<open>A reset writes the requirement, if it was not open already.\<close>

lemma reset_cases:
  assumes "was_reset E ctx i d d'"
  obtains "same_rows d d'" | x where "wrote_requirement (ev_rnd E) ctx i x (reset E 10) d d'"
proof (cases "find_first (live_requirement ctx i) (caseDocuments d)")
  case None
  then show ?thesis using assms that(1) by (simp add: was_reset_def)
next
  case (Some x)
  then show ?thesis using assms that by (cases "dd_status x = DD_PENDING_COLLECTION") (simp_all add: was_reset_def)
qed

lemma reset_calm:
  assumes "was_reset E ctx i d d'" "keys_ok d"
  shows "calm d d'"
  using assms(1)
proof (cases rule: reset_cases)
  case 1
  then show ?thesis by (rule same_calm)
next
  case (2 x)
  then show ?thesis by (rule wrote_calm [OF _ assms(2)]) (simp add: reset_def)
qed

lemma reset_counts:
  assumes "was_reset E ctx i d d'" "keys_ok d"
  shows "fresh_counts (ev_rnd E) d d'"
  using assms(1)
proof (cases rule: reset_cases)
  case 1
  then show ?thesis by (simp add: same_rows_def same_counts)
next
  case (2 x)
  then show ?thesis using assms(2) by (rule wrote_rows(3))
qed

text \<open>A calm write keeps the invariant if the files stay sound and every approved requirement keeps one.\<close>

lemma calm_well_kept:
  assumes "well_kept d" "calm d d'" "distinct (map do_id (documents d'))" "one_active (documents d')"
    "\<And>x. x \<in> set (caseDocuments d) \<Longrightarrow> x \<in> set (caseDocuments d') \<Longrightarrow> approved_live x \<Longrightarrow> has_file (documents d) x \<Longrightarrow> has_file (documents d') x"
  shows "well_kept d'"
proof -
  have "map dc_id (docCases d') = map dc_id (docCases d)" "map dd_id (caseDocuments d') = map dd_id (caseDocuments d)"
    using assms(2) by (simp_all add: calm_def)
  then have "keys_ok d'" using assms(1,3) unfolding keys_ok_def well_kept_def by (simp only: simp_thms)
  moreover have "has_file (documents d') x" if x: "x \<in> set (caseDocuments d')" "approved_live x" for x
  proof -
    have old: "x \<in> set (caseDocuments d)" using assms(2) x by (simp add: calm_def)
    then have "has_file (documents d) x" using assms(1) x(2) by (simp add: well_kept_def)
    with old x show ?thesis by (intro assms(5))
  qed
  ultimately show ?thesis using assms(2,4) by (simp add: well_kept_def calm_def)
qed

section \<open>Each transaction keeps it\<close>

lemma well_keptD:
  assumes "well_kept d"
  shows "keys_ok d" "one_active (documents d)"
    "\<And>x. x \<in> set (caseDocuments d) \<Longrightarrow> approved_live x \<Longrightarrow> has_file (documents d) x"
  using assms by (simp_all add: well_kept_def)

lemma add_well_kept:
  assumes "well_kept d" "addDocumentToCase E ctx c inp d = Inr (r, d')" "ev_rnd E = rnd"
    "ev_uuid E 1 \<notin> set (map dd_id (caseDocuments d))" "ev_uuid E 1 \<noteq> []"
  shows "well_kept d'"
proof -
  note w = well_keptD [OF assms(1)]
  note a = add_Inr [OF assms(2)]
  have r: "dd_id r = ev_uuid E 1" "dd_caseId r = c" "dd_tenantId r = tenantId ctx" "dd_status r = DD_PENDING_COLLECTION"
    using conjunct1 [OF a] by (simp_all add: requirement_row_def blank_requirement_def)
  have cs: "docCases d' = recalculated rnd ctx c (caseDocuments d') (docCases d)" and xs: "caseDocuments d' = caseDocuments d @ [r]"
    and fs: "documents d' = documents d"
    using a w(1) assms(3) by (simp_all add: keys_ok_def)
  have "keys_ok d'" unfolding keys_ok_def cs xs fs using w(1) r(1) assms(4,5) by (simp add: recalculated_keys keys_ok_def)
  moreover have "\<forall>x \<in> set (caseDocuments d'). approved_live x \<longrightarrow> has_file (documents d') x"
    unfolding xs fs using w(3) r(4) by (simp add: approved_live_def)
  ultimately show ?thesis using w(2) fs by (simp add: well_kept_def)
qed

text \<open>Rewriting files: the keys stay and none becomes active.\<close>

definition tame :: "(Document \<Rightarrow> Document) \<Rightarrow> bool" where
  "tame g \<longleftrightarrow> (\<forall>f. do_id (g f) = do_id f \<and> (\<forall>t i. active_of t i (g f) \<longrightarrow> active_of t i f))"

lemma one_active_map:
  assumes "one_active fs" "tame g"
  shows "one_active (map g fs)"
  unfolding one_active_def set_map
proof (intro allI ballI impI, elim imageE conjE)
  fix t i f' g' f1 g1
  assume "active_of t i f'" "active_of t i g'" "f' = g f1" "f1 \<in> set fs" "g' = g g1" "g1 \<in> set fs"
  then have "active_of t i f1" "active_of t i g1" "f1 \<in> set fs" "g1 \<in> set fs" using assms(2) by (simp_all add: tame_def)
  then have "f1 = g1" using assms(1) by (simp add: one_active_def)
  then show "f' = g'" using \<open>f' = g f1\<close> \<open>g' = g g1\<close> by simp
qed

lemma tame_ids: "tame g \<Longrightarrow> map do_id (map g fs) = map do_id fs"
  by (simp add: tame_def)

lemma one_active_snoc:
  assumes "one_active fs" "\<And>t i. active_of t i f \<Longrightarrow> \<forall>q \<in> set fs. \<not> active_of t i q"
  shows "one_active (fs @ [f])"
  using assms unfolding one_active_def by simp blast

lemma tame_if: "tame g \<Longrightarrow> tame (\<lambda>q. if P q then g q else q)"
  by (simp add: tame_def)

lemma review_well_kept:
  assumes "well_kept d" "updateDocumentStatus J E ctx i inp cv d = Inr (y, d')" "ev_rnd E = rnd"
  shows "well_kept d'"
proof -
  note w = well_keptD [OF assms(1)]
  from review_Inr [OF assms(2)] obtain x date where wr: "wrote_requirement rnd ctx i x (reviewed E ctx inp date) d d'"
    and fs: "documents d' = (if rv_status inp = DD_REJECTED then documents (deactivate_files ctx i d) else documents d)"
    and ap: "rv_status inp = DD_APPROVED \<longrightarrow> (\<exists>f \<in> set (documents d). active_file ctx i f)"
    unfolding assms(3) by (elim exE conjE) (rule that)
  show ?thesis
  proof (cases "rv_status inp = DD_APPROVED")
    case False
    let ?g = "\<lambda>f. if active_file ctx i f then f\<lparr>do_isActive := False\<rparr> else f"
    have tame: "tame ?g" by (rule tame_if) (simp add: tame_def active_of_def)
    have either: "documents d' = map ?g (documents d) \<or> documents d' = documents d"
      unfolding fs deactivate_files_tables by (cases "rv_status inp = DD_REJECTED") simp_all
    have "map do_id (documents d') = map do_id (documents d)"
      using either by (elim disjE) (simp_all only: tame_ids [OF tame])
    then have ids: "distinct (map do_id (documents d'))" using w(1) by (simp only: keys_ok_def)
    have one: "one_active (documents d')"
      using either by (elim disjE) (simp_all only: w(2) one_active_map [OF w(2) tame])
    have calm: "calm d d'" by (rule wrote_calm [OF wr w(1)]) (use False in simp)
    show ?thesis
    proof (rule calm_well_kept [OF assms(1) calm ids one])
      fix z assume z: "z \<in> set (caseDocuments d)" "z \<in> set (caseDocuments d')" "approved_live z" "has_file (documents d) z"
      have "dd_id z \<noteq> i"
      proof
        assume "dd_id z = i"
        then have "dd_status z = rv_status inp" using z(2) wr by (auto simp: wrote_requirement_def rewritten_def)
        with False z(3) show False by (simp add: approved_live_def)
      qed
      moreover from z(4) obtain f where f: "f \<in> set (documents d)" "active_of (dd_tenantId z) (dd_id z) f" by (auto simp: has_file_def)
      ultimately have "\<not> active_file ctx i f" by (auto simp: active_file_def active_of_def)
      then have "?g f = f" by simp
      then have "f \<in> set (map ?g (documents d))" unfolding set_map using f(1) by (intro image_eqI [of _ _ f]) (simp_all only: simp_thms)
      then have "f \<in> set (documents d')" using f(1) either by (elim disjE) (simp_all only:)
      with f(2) show "has_file (documents d') z" by (auto simp: has_file_def)
    qed
  next
    case True
    note wx = wrote_found [OF wr]
    note rows = wrote_rows [OF wr w(1)]
    have fs': "documents d' = documents d" using True fs by simp
    have "keys_ok d'" using w(1) rows(1,2) fs' unfolding keys_ok_def by (simp only: simp_thms)
    moreover have "has_file (documents d') z" if z: "z \<in> set (caseDocuments d')" "approved_live z" for z
    proof -
      have "z \<in> (\<lambda>y. if dd_id y = i then reviewed E ctx inp date y else y) ` set (caseDocuments d)"
        using z(1) wr by (simp add: wrote_requirement_def rewritten_def)
      then obtain y0 where y0: "y0 \<in> set (caseDocuments d)" "z = (if dd_id y0 = i then reviewed E ctx inp date y0 else y0)" by blast
      show ?thesis
      proof (cases "dd_id y0 = i")
        case same: True
        have "y0 = x" using w(1) wx(1,2) y0(1) same by (auto simp: keys_ok_def distinct_map inj_on_def)
        then have "dd_tenantId z = tenantId ctx" "dd_id z = i" using y0(2) wx reviewed_place [of E ctx inp date] by (simp_all add: keeps_place_def)
        then show ?thesis using ap True by (simp add: has_file_def fs' active_file_of)
      next
        case False
        then have "has_file (documents d) y0" using y0 z(2) by (intro w(3)) simp_all
        then show ?thesis using y0(2) False fs' by simp
      qed
    qed
    ultimately show ?thesis using w(2) fs' by (simp add: well_kept_def)
  qed
qed

lemma has_file_mono: "set fs \<subseteq> set fs' \<Longrightarrow> has_file fs x \<Longrightarrow> has_file fs' x"
  unfolding has_file_def by blast

lemma confirm_well_kept:
  assumes "well_kept d" "confirm_tx S ctx c inp f wv d = Inr (r, d')" "ev_rnd (sv_env S) = rnd" "do_id f \<notin> set (map do_id (documents d))"
  shows "well_kept d'"
proof -
  note w = well_keptD [OF assms(1)]
  from confirm_Inr [OF assms(2)] have fs: "documents d' = documents d @ [f]" and mv: "moved_requirement rnd ctx DD_UNDER_VERIFICATION d d'"
    and new: "\<forall>i t. active_of t i f \<longrightarrow> (\<forall>q \<in> set (documents d). \<not> active_of t i q)"
    unfolding assms(3) by simp_all
  show ?thesis
  proof (rule calm_well_kept [OF assms(1) moved_calm [OF mv w(1)]])
    show "distinct (map do_id (documents d'))" using w(1) assms(4) by (simp add: fs keys_ok_def)
    show "one_active (documents d')" unfolding fs using new by (intro one_active_snoc [OF w(2)]) simp
  next
    fix x assume "has_file (documents d) x"
    then show "has_file (documents d') x" by (rule has_file_mono [rotated]) (auto simp: fs)
  qed simp
qed

lemma tame_off: "tame (\<lambda>q. q\<lparr>do_isActive := False\<rparr>)"
  by (simp add: tame_def active_of_def)

lemma altered_map: "altered i g fs = map (\<lambda>q. if do_id q = i then g q else q) fs"
  by (simp add: altered_def)

text \<open>The new version takes the place of the old one for its requirement.\<close>

lemma replace_well_kept:
  assumes "well_kept d" "replace_tx S ctx old inp f d = Inr (r, d')" "ev_rnd (sv_env S) = rnd" "do_id f \<notin> set (map do_id (documents d))"
    and old: "\<And>q t i. q \<in> set (documents d) \<Longrightarrow> do_id q = do_id old \<Longrightarrow> active_of t i q \<Longrightarrow> active_of t i f"
  shows "well_kept d'"
proof -
  note w = well_keptD [OF assms(1)]
  let ?g = "\<lambda>q. q\<lparr>do_isActive := False\<rparr>"
  let ?fs = "altered (do_id old) ?g (documents d)"
  from replace_Inr [OF assms(2)] have fs: "documents d' = ?fs @ [f]" and mv: "moved_requirement rnd ctx DD_UNDER_VERIFICATION d d'"
    and new: "\<forall>i t. active_of t i f \<longrightarrow> (\<forall>q \<in> set ?fs. \<not> active_of t i q)"
    unfolding assms(3) by simp_all
  have ids: "map do_id ?fs = map do_id (documents d)" unfolding altered_map by (rule tame_ids [OF tame_if [OF tame_off]])
  have one: "one_active ?fs" unfolding altered_map by (rule one_active_map [OF w(2) tame_if [OF tame_off]])
  show ?thesis
  proof (rule calm_well_kept [OF assms(1) moved_calm [OF mv w(1)]])
    show "distinct (map do_id (documents d'))" using w(1) assms(4) unfolding fs map_append ids by (simp add: keys_ok_def)
    show "one_active (documents d')" unfolding fs using new by (intro one_active_snoc [OF one]) simp
  next
    fix x assume "has_file (documents d) x"
    then obtain q where q: "q \<in> set (documents d)" "active_of (dd_tenantId x) (dd_id x) q" by (auto simp: has_file_def)
    show "has_file (documents d') x"
    proof (cases "do_id q = do_id old")
      case True
      from old [OF q(1) True q(2)] show ?thesis by (simp add: has_file_def fs)
    next
      case False
      then have "q \<in> set ?fs" using q(1) unfolding altered_map set_map by (intro image_eqI [of _ _ q]) (simp_all only: simp_thms if_False)
      with q(2) show ?thesis unfolding has_file_def fs by (intro bexI [of _ q]) simp_all
    qed
  qed simp
qed

lemma status_changed_active: "active_of t i (status_changed E ctx st why f) = active_of t i f"
  by (simp add: status_changed_def Let_def active_of_def)

lemma status_changed_id: "do_id (status_changed E ctx st why f) = do_id f"
  by (simp add: status_changed_def Let_def)

lemma file_status_well_kept:
  assumes "well_kept d" "updateFileStatus E ctx i st why cv d = Inr (r, d')"
  shows "well_kept d'"
proof -
  note w = well_keptD [OF assms(1)]
  from file_status_Inr [OF assms(2)] have same: "same_rows d d'" and fs: "documents d' = altered i (status_changed E ctx st why) (documents d)"
    by (simp_all add: same_rows_def)
  have tame: "tame (status_changed E ctx st why)" by (simp add: tame_def status_changed_active status_changed_id)
  show ?thesis
  proof (rule calm_well_kept [OF assms(1) same_calm [OF same]])
    show "distinct (map do_id (documents d'))"
      unfolding fs altered_map tame_ids [OF tame_if [OF tame]] using w(1) by (simp add: keys_ok_def)
    show "one_active (documents d')" unfolding fs altered_map by (rule one_active_map [OF w(2) tame_if [OF tame]])
  next
    fix x assume "has_file (documents d) x"
    then obtain q where q: "q \<in> set (documents d)" "active_of (dd_tenantId x) (dd_id x) q" by (auto simp: has_file_def)
    let ?q = "if do_id q = i then status_changed E ctx st why q else q"
    have "?q \<in> set (documents d')" unfolding fs altered_map set_map by (rule imageI [OF q(1)])
    moreover have "active_of (dd_tenantId x) (dd_id x) ?q" using q(2) by (simp add: status_changed_active)
    ultimately show "has_file (documents d') x" unfolding has_file_def by (rule bexI [rotated])
  qed
qed

text \<open>Removing the last file of an approved requirement resets the requirement.\<close>

lemma remove_well_kept:
  assumes "well_kept d" "softDelete E ctx i d = Inr (r, d')" "ev_rnd E = rnd"
  shows "well_kept d'"
proof -
  note w = well_keptD [OF assms(1)]
  from softDelete_Inr [OF assms(2)] obtain f where f: "load_document ctx i d = Inr f" and fs: "documents d' = altered i (removed E) (documents d)"
    and rest: "if left_empty ctx f (documents d') then was_reset E ctx (or_empty (do_requirementId f)) d d' else same_rows d d'"
    by (elim exE conjE)
  note lf = load_document_Inr [OF f]
  have tame: "tame (removed E)" by (simp add: tame_def removed_def active_of_def)
  have calm: "calm d d'"
  proof (cases "left_empty ctx f (documents d')")
    case True
    then have "was_reset E ctx (or_empty (do_requirementId f)) d d'" using rest by simp
    from reset_calm [OF this w(1)] show ?thesis .
  next
    case False
    then show ?thesis using rest same_calm by simp
  qed
  show ?thesis
  proof (rule calm_well_kept [OF assms(1) calm])
    show "distinct (map do_id (documents d'))"
      unfolding fs altered_map tame_ids [OF tame_if [OF tame]] using w(1) by (simp add: keys_ok_def)
    show "one_active (documents d')" unfolding fs altered_map by (rule one_active_map [OF w(2) tame_if [OF tame]])
  next
    fix x assume x: "x \<in> set (caseDocuments d)" "x \<in> set (caseDocuments d')" "approved_live x" "has_file (documents d) x"
    from x(4) obtain q where q: "q \<in> set (documents d)" "active_of (dd_tenantId x) (dd_id x) q" by (auto simp: has_file_def)
    show "has_file (documents d') x"
    proof (cases "do_id q = i")
      case False
      then have "q \<in> set (documents d')" using q(1) unfolding fs altered_map set_map by (intro image_eqI [of _ _ q]) (simp_all only: simp_thms if_False)
      with q(2) show ?thesis unfolding has_file_def by (intro bexI [of _ q])
    next
      case True
      have "q = f" using w(1) q(1) lf True by (auto simp: keys_ok_def distinct_map inj_on_def)
      then have af: "do_category f = CAT_REQUIREMENT" "do_requirementId f = Some (dd_id x)" "dd_tenantId x = tenantId ctx"
        using q(2) lf by (simp_all add: active_of_def)
      have ne: "dd_id x \<noteq> []" using w(1) x(1) by (force simp: keys_ok_def)
      show ?thesis
      proof (rule ccontr)
        assume none: "\<not> has_file (documents d') x"
        have "left_empty ctx f (documents d')"
          unfolding left_empty_def using none af ne by (simp add: falsy_def or_empty_def filter_empty_conv has_file_def active_file_of)
        then have reset: "was_reset E ctx (dd_id x) d d'" using rest af(2) by (simp add: or_empty_def)
        have live: "live_requirement ctx (dd_id x) x" using x(3) af(3) by (simp add: live_requirement_def approved_live_def)
        obtain y where y: "find_first (live_requirement ctx (dd_id x)) (caseDocuments d) = Some y"
          using x(1) live by (cases "find_first (live_requirement ctx (dd_id x)) (caseDocuments d)") (auto simp: find_first_None)
        have "y = x" using find_first_SomeD [OF y] w(1) x(1) by (auto simp: live_requirement_def keys_ok_def distinct_map inj_on_def)
        then have "wrote_requirement (ev_rnd E) ctx (dd_id x) x (reset E 10) d d'"
          using reset y x(3) by (simp add: was_reset_def approved_live_def)
        then have "caseDocuments d' = rewritten (dd_id x) (reset E 10) (caseDocuments d)" by (simp add: wrote_requirement_def)
        with x(2) have "x \<in> (\<lambda>y. if dd_id y = dd_id x then reset E 10 y else y) ` set (caseDocuments d)" by (simp add: rewritten_def)
        then obtain y0 where y0: "x = (if dd_id y0 = dd_id x then reset E 10 y0 else y0)" by (elim imageE)
        have "dd_status x = DD_PENDING_COLLECTION"
        proof (cases "dd_id y0 = dd_id x")
          case True
          have "x = reset E 10 y0" using y0 unfolding if_P [OF True] .
          then show ?thesis by (metis reset_status)
        next
          case False
          have "x = y0" using y0 unfolding if_not_P [OF False] .
          with False show ?thesis by simp
        qed
        with x(3) show False by (simp add: approved_live_def)
      qed
    qed
  qed
qed

section \<open>Reachable databases\<close>

text \<open>
  The transactions that committed. An upload is committed after its file was checked, copied and its
  row built, so its row is that of \<open>file_row\<close> or \<open>version_of\<close> for some bytes; the file a
  replacement starts from was read before its transaction, and its row may have changed since in what
  \<open>known_file\<close> does not mention.
\<close>

definition known_file :: "Document \<Rightarrow> db \<Rightarrow> bool" where
  "known_file old d \<longleftrightarrow> (\<exists>q \<in> set (documents d). do_id q = do_id old \<and> do_tenantId q = do_tenantId old \<and> do_category q = do_category old
     \<and> do_requirementId q = do_requirementId old)"

definition new_document :: "env \<Rightarrow> db \<Rightarrow> bool" where
  "new_document E d \<longleftrightarrow> ev_uuid E 1 \<notin> set (map do_id (documents d))"

definition new_requirement :: "env \<Rightarrow> db \<Rightarrow> bool" where
  "new_requirement E d \<longleftrightarrow> ev_uuid E 1 \<notin> set (map dd_id (caseDocuments d)) \<and> ev_uuid E 1 \<noteq> []"

inductive doc_op :: "(rat \<Rightarrow> rat) \<Rightarrow> db \<Rightarrow> db \<Rightarrow> bool" for rnd where
  ds_add: "addDocumentToCase E ctx c inp d = Inr (r, d') \<Longrightarrow> ev_rnd E = rnd \<Longrightarrow> new_requirement E d \<Longrightarrow> doc_op rnd d d'"
| ds_review: "updateDocumentStatus J E ctx i rin cv d = Inr (y, d') \<Longrightarrow> ev_rnd E = rnd \<Longrightarrow> doc_op rnd d d'"
| ds_confirm: "confirm_tx S ctx c cinp (file_row S ctx c cinp wv name data head) wv d = Inr (f, d') \<Longrightarrow> ev_rnd (sv_env S) = rnd
    \<Longrightarrow> new_document (sv_env S) d \<Longrightarrow> doc_op rnd d d'"
| ds_replace: "replace_tx S ctx old rinp (version_of S ctx rinp wv old data head) d = Inr (f, d') \<Longrightarrow> ev_rnd (sv_env S) = rnd
    \<Longrightarrow> new_document (sv_env S) d \<Longrightarrow> known_file old d \<Longrightarrow> doc_op rnd d d'"
| ds_status: "updateFileStatus E ctx i st why cv d = Inr (p, d') \<Longrightarrow> doc_op rnd d d'"
| ds_remove: "softDelete E ctx i d = Inr (s, d') \<Longrightarrow> ev_rnd E = rnd \<Longrightarrow> doc_op rnd d d'"
| ds_reference: "addStorageRef E ctx i ty ref label d = Inr (sr, d') \<Longrightarrow> doc_op rnd d d'"

text \<open>
  What every other transaction may do: anything to the cases (a manager's override, a close, a
  reopening, a new case), new requirements that are not approved, and any change of the requirements
  that keeps their place and status and revives none that was deleted. It leaves the files alone.
\<close>

definition elsewhere :: "db \<Rightarrow> db \<Rightarrow> bool" where
  "elsewhere d d' \<longleftrightarrow> documents d' = documents d \<and> keys_ok d'
     \<and> (\<exists>g xs. caseDocuments d' = map g (caseDocuments d) @ xs \<and> (\<forall>x \<in> set xs. dd_status x \<noteq> DD_APPROVED)
          \<and> (\<forall>x. dd_id (g x) = dd_id x \<and> dd_tenantId (g x) = dd_tenantId x \<and> dd_caseId (g x) = dd_caseId x
               \<and> dd_status (g x) = dd_status x \<and> (dd_deletedAt (g x) = None \<longrightarrow> dd_deletedAt x = None)))"

inductive doc_step :: "(rat \<Rightarrow> rat) \<Rightarrow> db \<Rightarrow> db \<Rightarrow> bool" for rnd where
  ds_own: "doc_op rnd d d' \<Longrightarrow> doc_step rnd d d'"
| ds_other: "elsewhere d d' \<Longrightarrow> doc_step rnd d d'"

inductive doc_reach :: "(rat \<Rightarrow> rat) \<Rightarrow> db \<Rightarrow> bool" for rnd where
  dr_start: "well_kept d \<Longrightarrow> doc_reach rnd d"
| dr_next: "doc_reach rnd d \<Longrightarrow> doc_step rnd d d' \<Longrightarrow> doc_reach rnd d'"

lemma version_active:
  assumes "keys_ok d" "known_file old d" "q \<in> set (documents d)" "do_id q = do_id old" "active_of t i q" "replace_tx S ctx old inp f d = Inr (r, d')"
  shows "active_of t i (version_of S ctx rinp wv old data head)"
proof -
  obtain p where p: "p \<in> set (documents d)" "do_id p = do_id old" "do_category p = do_category old" "do_requirementId p = do_requirementId old"
    using assms(2) by (auto simp: known_file_def)
  from replace_Inr [OF assms(6)] obtain u where u: "u \<in> set (documents d)" "do_id u = do_id old" "do_tenantId u = tenantId ctx" by blast
  have inj: "inj_on do_id (set (documents d))" using assms(1) by (simp add: keys_ok_def distinct_map)
  have "q = p" by (rule inj_onD [OF inj]) (use p assms(3,4) in simp_all)
  moreover have "q = u" by (rule inj_onD [OF inj]) (use u assms(3,4) in simp_all)
  ultimately show ?thesis using p(3,4) u(3) assms(5) by (simp add: active_of_def version_of_def file_row_def Let_def)
qed

lemma addStorageRef_rows:
  "addStorageRef E ctx i ty ref label d = Inr (sr, d') \<Longrightarrow> same_rows d d' \<and> documents d' = documents d"
  by (auto simp: addStorageRef_def res_bind_Inr_iff Let_def same_rows_def)

lemma op_well_kept:
  assumes "doc_op rnd d d'" "well_kept d"
  shows "well_kept d'"
  using assms(1)
proof cases
  case (ds_add E ctx c inp r)
  then show ?thesis using add_well_kept [OF assms(2) ds_add(1,2)] by (simp add: new_requirement_def)
next
  case (ds_review J E ctx i rin cv y)
  then show ?thesis using review_well_kept [OF assms(2)] by simp
next
  case (ds_confirm S ctx c cinp wv name data head f)
  have "do_id (file_row S ctx c cinp wv name data head) \<notin> set (map do_id (documents d))"
    using ds_confirm(3) by (simp add: file_row_def Let_def new_document_def)
  then show ?thesis by (rule confirm_well_kept [OF assms(2) ds_confirm(1,2)])
next
  case (ds_replace S ctx old rinp wv data head f)
  have new: "do_id (version_of S ctx rinp wv old data head) \<notin> set (map do_id (documents d))"
    using ds_replace(3) by (simp add: version_of_def file_row_def Let_def new_document_def)
  show ?thesis
    by (rule replace_well_kept [OF assms(2) ds_replace(1,2) new])
      (rule version_active [OF well_keptD(1) [OF assms(2)] ds_replace(4) _ _ _ ds_replace(1)])
next
  case (ds_status E ctx i st why cv p)
  then show ?thesis using file_status_well_kept [OF assms(2)] by simp
next
  case (ds_remove E ctx i s)
  then show ?thesis using remove_well_kept [OF assms(2)] by simp
next
  case (ds_reference E ctx i ty ref label sr)
  note same = addStorageRef_rows [OF ds_reference]
  show ?thesis
    by (rule calm_well_kept [OF assms(2) same_calm [OF conjunct1 [OF same]]])
      (use same well_keptD(1,2) [OF assms(2)] in \<open>simp_all add: keys_ok_def\<close>)
qed

lemma elsewhere_well_kept:
  assumes "elsewhere d d'" "well_kept d"
  shows "well_kept d'"
proof -
  obtain g xs where xs: "caseDocuments d' = map g (caseDocuments d) @ xs" "\<forall>x \<in> set xs. dd_status x \<noteq> DD_APPROVED"
    and g: "\<And>x. dd_id (g x) = dd_id x \<and> dd_tenantId (g x) = dd_tenantId x \<and> dd_status (g x) = dd_status x
      \<and> (dd_deletedAt (g x) = None \<longrightarrow> dd_deletedAt x = None)" and d: "documents d' = documents d" "keys_ok d'"
    using assms(1) unfolding elsewhere_def by blast
  have "has_file (documents d') x" if x: "x \<in> set (caseDocuments d')" "approved_live x" for x
  proof -
    have "x \<notin> set xs" using xs(2) x(2) by (auto simp: approved_live_def)
    then obtain y where y: "y \<in> set (caseDocuments d)" "x = g y" using x(1) unfolding xs(1) by auto
    then have "approved_live y" using x(2) g [of y] by (simp add: approved_live_def)
    from well_keptD(3) [OF assms(2) y(1) this] show ?thesis using g [of y] by (simp add: has_file_def d(1) y(2))
  qed
  then show ?thesis using d well_keptD(2) [OF assms(2)] by (simp add: well_kept_def)
qed

lemma step_well_kept: "doc_step rnd d d' \<Longrightarrow> well_kept d \<Longrightarrow> well_kept d'"
  by (induction rule: doc_step.induct) (rule op_well_kept elsewhere_well_kept, assumption+)+

lemma reach_well_kept: "doc_reach rnd d \<Longrightarrow> well_kept d"
  by (induction rule: doc_reach.induct) (assumption, rule step_well_kept)

section \<open>Properties\<close>

text \<open>C7: However uploads, replacements, removals and reviews interleave, a live requirement that is
  approved has exactly one active file: it was there when the requirement was approved, no second one
  gets in, and removing it resets the requirement.\<close>

theorem approved_has_one_file:
  assumes "doc_reach rnd d" "x \<in> set (caseDocuments d)" "dd_deletedAt x = None" "dd_status x = DD_APPROVED"
  shows "\<exists>!f. f \<in> set (documents d) \<and> active_of (dd_tenantId x) (dd_id x) f"
proof -
  note w = well_keptD [OF reach_well_kept [OF assms(1)]]
  have "has_file (documents d) x" using w(3) assms(2-4) by (simp add: approved_live_def)
  then obtain f where f: "f \<in> set (documents d)" "active_of (dd_tenantId x) (dd_id x) f" by (auto simp: has_file_def)
  show ?thesis
  proof (rule ex1I [of _ f])
    fix g assume "g \<in> set (documents d) \<and> active_of (dd_tenantId x) (dd_id x) g"
    then show "g = f" using w(2) f unfolding one_active_def by blast
  qed (use f in simp)
qed

lemma op_counts:
  assumes "doc_op rnd d d'" "keys_ok d"
  shows "fresh_counts rnd d d'"
  using assms(1)
proof cases
  case (ds_add E ctx c inp r)
  note a = add_Inr [OF ds_add(1)]
  have r: "dd_caseId r = c" "dd_tenantId r = tenantId ctx" using conjunct1 [OF a] by (simp_all add: requirement_row_def blank_requirement_def)
  have cs: "docCases d' = recalculated rnd ctx c (caseDocuments d') (docCases d)" and xs: "caseDocuments d' = caseDocuments d @ [r]"
    using a assms(2) ds_add(2) by (simp_all add: keys_ok_def)
  show ?thesis by (rule recalculated_counts [OF cs]) (auto simp: xs reqs_of_def r)
next
  case (ds_review J E ctx i rin cv z)
  from review_Inr [OF ds_review(1)] obtain x date where "wrote_requirement (ev_rnd E) ctx i x (reviewed E ctx rin date) d d'" by (elim exE conjE)
  from wrote_rows(3) [OF this assms(2)] show ?thesis by (simp add: ds_review(2))
next
  case (ds_confirm S ctx c cinp wv name data head f)
  from confirm_Inr [OF ds_confirm(1)] have "moved_requirement (ev_rnd (sv_env S)) ctx DD_UNDER_VERIFICATION d d'" by (elim conjE)
  from moved_counts [OF this assms(2)] show ?thesis by (simp add: ds_confirm(2))
next
  case (ds_replace S ctx old rinp wv data head f)
  from replace_Inr [OF ds_replace(1)] have "moved_requirement (ev_rnd (sv_env S)) ctx DD_UNDER_VERIFICATION d d'" by (elim conjE)
  from moved_counts [OF this assms(2)] show ?thesis by (simp add: ds_replace(2))
next
  case (ds_status E ctx i st why cv p)
  from file_status_Inr [OF this] show ?thesis by (simp add: same_counts)
next
  case (ds_remove E ctx i s)
  from softDelete_Inr [OF ds_remove(1)] obtain f where r: "if left_empty ctx f (documents d') then was_reset E ctx (or_empty (do_requirementId f)) d d' else same_rows d d'"
    by (elim exE conjE)
  show ?thesis
  proof (cases "left_empty ctx f (documents d')")
    case True
    then have "was_reset E ctx (or_empty (do_requirementId f)) d d'" using r by simp
    from reset_counts [OF this assms(2)] show ?thesis by (simp add: ds_remove(2))
  next
    case False
    then show ?thesis using r by (simp add: same_rows_def same_counts)
  qed
next
  case (ds_reference E ctx i ty ref label sr)
  from addStorageRef_rows [OF this] show ?thesis by (simp add: same_rows_def same_counts)
qed

text \<open>C8: Whatever was done to the cases before, by overrides, closes, reopenings or creations, each
  transaction on requirements and files leaves every case in one of two ways: neither the case nor any
  of its requirements is touched; or, unless the case is closed or deleted, it shows the progress of its
  requirements, is ready if and only if every mandatory one that counts is approved or waived, and
  while its status is derived, the status says the same. This is about transactions that do not
  overlap on one case: reviews that do, see \<open>overlapping_reviews\<close>.\<close>

theorem counters_never_lie:
  assumes "keys_ok d" "doc_op rnd d d'" "c \<in> set (docCases d')"
  shows "c \<in> set (docCases d) \<and> reqs_of (dc_tenantId c) (dc_id c) (caseDocuments d') = reqs_of (dc_tenantId c) (dc_id c) (caseDocuments d)
     \<or> dc_deletedAt c \<noteq> None \<or> dc_status c \<in> set TERMINAL_STATUSES
     \<or> (dc_progress c, dc_isReady c) = calcProgress rnd (reqs_of (dc_tenantId c) (dc_id c) (caseDocuments d'))
       \<and> dc_isReady c = (\<forall>x \<in> set (reqs_of (dc_tenantId c) (dc_id c) (caseDocuments d')). counted x \<and> dd_isMandatory x
            \<longrightarrow> dd_status x \<in> {DD_APPROVED, DD_MANAGER_APPROVED, DD_WAIVED})
       \<and> (dc_status c \<in> {DC_ACTIVE, DC_DOCUMENTATION_READY} \<longrightarrow> (dc_status c = DC_DOCUMENTATION_READY) = dc_isReady c)"
proof (cases "case_in_step rnd (caseDocuments d') c \<and> dc_deletedAt c = None \<and> open_status (dc_status c)")
  case False
  have "case_in_step rnd (caseDocuments d') c
      \<or> c \<in> set (docCases d) \<and> reqs_of (dc_tenantId c) (dc_id c) (caseDocuments d') = reqs_of (dc_tenantId c) (dc_id c) (caseDocuments d)"
    using op_counts [OF assms(2,1)] assms(3) unfolding fresh_counts_def by blast
  then show ?thesis
  proof
    assume "case_in_step rnd (caseDocuments d') c"
    then have "dc_deletedAt c \<noteq> None \<or> dc_status c \<in> set TERMINAL_STATUSES" using False by (auto simp: open_status_def)
    then show ?thesis by (elim disjE) (simp_all only: simp_thms)
  qed (rule disjI1)
next
  case True
  then have c: "case_in_step rnd (caseDocuments d') c" and o: "dc_deletedAt c = None" "open_status (dc_status c)" by simp_all
  then have eq: "(dc_progress c, dc_isReady c) = calcProgress rnd (reqs_of (dc_tenantId c) (dc_id c) (caseDocuments d'))"
    by (simp add: case_in_step_def)
  then have "dc_isReady c = snd (calcProgress rnd (reqs_of (dc_tenantId c) (dc_id c) (caseDocuments d')))" by (metis snd_conv)
  note ready = this [unfolded calc_ready]
  have "dc_status c \<in> {DC_ACTIVE, DC_DOCUMENTATION_READY} \<longrightarrow> (dc_status c = DC_DOCUMENTATION_READY) = dc_isReady c"
  proof
    assume "dc_status c \<in> {DC_ACTIVE, DC_DOCUMENTATION_READY}"
    then have "dc_status c = (if dc_isReady c then DC_DOCUMENTATION_READY else DC_ACTIVE)"
      using c o by (auto simp: case_in_step_def RECALC_MUTABLE_STATUSES_def)
    then show "(dc_status c = DC_DOCUMENTATION_READY) = dc_isReady c" by (cases "dc_isReady c") simp_all
  qed
  with eq ready show ?thesis by (intro disjI2 conjI)
qed











definition file_moved :: "Document \<Rightarrow> Document \<Rightarrow> bool" where
  "file_moved f f' \<longleftrightarrow> do_id f' = do_id f \<and> do_tenantId f' = do_tenantId f \<and> do_caseId f' = do_caseId f \<and> do_requirementId f' = do_requirementId f
     \<and> do_category f' = do_category f \<and> do_storageKey f' = do_storageKey f \<and> do_checksum f' = do_checksum f \<and> do_versionOfId f' = do_versionOfId f
     \<and> (do_status f' = do_status f \<or> do_status f' \<in> set (DOCUMENT_STATUS_TRANSITIONS (do_status f)))
     \<and> (do_isActive f' \<longrightarrow> do_isActive f) \<and> (do_deletedAt f \<noteq> None \<longrightarrow> f' = f)"

lemma file_moved_refl: "file_moved f f"
  by (simp add: file_moved_def)

lemma altered_moves:
  assumes "keys_ok d" "f \<in> set (documents d)" "q \<in> set (documents d)" "do_id q = i" "file_moved q (g q)"
  shows "\<exists>f' \<in> set (altered i g (documents d)). file_moved f f'"
proof -
  have mem: "(if do_id f = i then g f else f) \<in> set (altered i g (documents d))"
    unfolding altered_map set_map by (rule imageI [OF assms(2)])
  show ?thesis
  proof (cases "do_id f = i")
    case True
    have "inj_on do_id (set (documents d))" using assms(1) by (simp add: keys_ok_def distinct_map)
    then have "f = q" by (rule inj_onD) (use True assms(2-4) in simp_all)
    then show ?thesis using mem assms(5) True by (intro bexI [of _ "g f"]) simp_all
  next
    case False
    then show ?thesis using mem file_moved_refl by (intro bexI [of _ f]) simp_all
  qed
qed

text \<open>C10: A file moves only along the table of its status: what was rejected, archived or infected stays
  so; its content, its key and its place never change; one that is not active never becomes active
  again; and one that was removed never changes.\<close>

theorem file_moves:
  assumes "doc_reach rnd d" "doc_step rnd d d'" "f \<in> set (documents d)"
  shows "\<exists>f' \<in> set (documents d'). file_moved f f'"
proof -
  note k = well_keptD(1) [OF reach_well_kept [OF assms(1)]]
  have kept: "documents d' = documents d \<Longrightarrow> ?thesis" using assms(3) file_moved_refl by (intro bexI [of _ f]) simp_all
  have own: ?thesis if "doc_op rnd d d'"
    using that
  proof cases
    case (ds_add E ctx c inp r)
    then show ?thesis using add_Inr kept by blast
  next
    case (ds_review J E ctx i rin cv z)
    from review_Inr [OF ds_review(1)] have fs: "documents d' = (if rv_status rin = DD_REJECTED then documents (deactivate_files ctx i d) else documents d)"
      by (elim exE conjE)
    show ?thesis
    proof (cases "rv_status rin = DD_REJECTED")
      case True
      have "(if active_file ctx i f then f\<lparr>do_isActive := False\<rparr> else f) \<in> set (documents d')"
        unfolding fs if_P [OF True] deactivate_files_tables set_map by (rule imageI [OF assms(3)])
      moreover have "file_moved f (if active_file ctx i f then f\<lparr>do_isActive := False\<rparr> else f)"
        by (simp add: file_moved_def active_file_def)
      ultimately show ?thesis by (rule bexI [rotated])
    next
      case False
      then show ?thesis using fs kept by simp
    qed
  next
    case (ds_confirm S ctx c cinp wv name data head g)
    then have "documents d' = documents d @ [file_row S ctx c cinp wv name data head]" using confirm_Inr by blast
    then show ?thesis using assms(3) file_moved_refl by (intro bexI [of _ f]) simp_all
  next
    case (ds_replace S ctx old rinp wv data head g)
    from replace_Inr [OF ds_replace(1)] obtain q where q: "q \<in> set (documents d)" "do_id q = do_id old" "do_deletedAt q = None"
      and fs: "documents d' = altered (do_id old) (\<lambda>q. q\<lparr>do_isActive := False\<rparr>) (documents d) @ [version_of S ctx rinp wv old data head]" by blast
    have "\<exists>f' \<in> set (altered (do_id old) (\<lambda>q. q\<lparr>do_isActive := False\<rparr>) (documents d)). file_moved f f'"
      by (rule altered_moves [OF k assms(3) q(1,2)]) (simp add: file_moved_def q(3))
    then show ?thesis unfolding fs set_append by blast
  next
    case (ds_status E ctx i st why cv p)
    from file_status_Inr [OF this] obtain g h where fs: "documents d' = altered i (status_changed E ctx st why) (documents d)"
      and g: "load_document ctx i d = Inr g" and h: "find_first (\<lambda>q. do_id q = i) (documents d) = Some h"
        "st \<in> set (DOCUMENT_STATUS_TRANSITIONS (do_status h))" by (elim exE conjE)
    note lg = load_document_Inr [OF g]
    have "inj_on do_id (set (documents d))" using k by (simp add: keys_ok_def distinct_map)
    then have hg: "h = g" by (rule inj_onD) (use find_first_SomeD [OF h(1)] lg in simp_all)
    have "file_moved g (status_changed E ctx st why g)"
      using h(2) lg unfolding hg by (simp add: file_moved_def status_changed_def Let_def)
    then show ?thesis unfolding fs by (rule altered_moves [OF k assms(3), rotated 2]) (use lg in simp_all)
  next
    case (ds_remove E ctx i s)
    from softDelete_Inr [OF ds_remove(1)] obtain g where g: "load_document ctx i d = Inr g" and fs: "documents d' = altered i (removed E) (documents d)"
      by (elim exE conjE)
    note lg = load_document_Inr [OF g]
    have "file_moved g (removed E g)" using lg by (simp add: file_moved_def removed_def)
    then show ?thesis unfolding fs by (rule altered_moves [OF k assms(3), rotated 2]) (use lg in simp_all)
  next
    case (ds_reference E ctx i ty ref label sr)
    then show ?thesis using addStorageRef_rows kept by blast
  qed
  show ?thesis
    using assms(2)
  proof cases
    case ds_own
    then show ?thesis by (rule own)
  next
    case ds_other
    then have "documents d' = documents d" by (simp add: elsewhere_def)
    then show ?thesis by (rule kept)
  qed
qed

end
