(* ===== verification/Document_Props.thy ===== *)
theory Document_Props
  imports Document_System
begin

text \<open>
  Bounds on the progress of a case, what the approval of a requirement does not look at, and a
  requirement that is approved although its one file was rejected, which is also the example for the
  properties of \<^verbatim>\<open>Document_System\<close>.
\<close>

text \<open>The counters of a case are bounded by one another: what is approved was received, what was
  received counts, the mandatory ones count, the percentage lies between 0 and 100, and it is 100
  when all are approved, for any rounding that keeps order and the numbers 0, 1 and 100.\<close>

theorem progress_bounds:
  assumes "mono rnd" "rnd 0 = 0" "rnd 1 = 1" "rnd 100 = 100"
  shows "case fst (calcProgress rnd docs) of p \<Rightarrow> 0 \<le> pg_approvedDocs p \<and> pg_approvedDocs p \<le> pg_receivedDocs p \<and> pg_receivedDocs p \<le> pg_totalDocs p
     \<and> pg_receivedDocs p + pg_rejectedDocs p \<le> pg_totalDocs p \<and> pg_mandatoryApproved p \<le> pg_mandatoryDocs p \<and> pg_mandatoryDocs p \<le> pg_totalDocs p
     \<and> 0 \<le> pg_completionPercent p \<and> pg_completionPercent p \<le> 100
     \<and> (0 < pg_totalDocs p \<and> pg_approvedDocs p = pg_totalDocs p \<longrightarrow> pg_completionPercent p = 100)"
proof -
  let ?a = "filter counted docs"
  let ?n = "length ?a" and ?k = "length (filter approved ?a)"
  have sub: "length (filter p xs) \<le> length (filter q xs)" if "\<And>x. p x \<Longrightarrow> q x" for p q and xs :: "DocCaseDocument list"
    using that by (induction xs) auto
  have ar: "?k \<le> length (filter received ?a)" by (rule sub) (auto simp: approved_def received_def)
  have rt: "length (filter received ?a) \<le> ?n" by (rule length_filter_le)
  have rr: "length (filter received ?a) + length (filter (\<lambda>x. dd_status x = DD_REJECTED) ?a) \<le> ?n"
  proof -
    have "length (filter (\<lambda>x. dd_status x = DD_REJECTED) ?a) \<le> length (filter (\<lambda>x. \<not> received x) ?a)"
      by (rule sub) (auto simp: received_def)
    then show ?thesis using sum_length_filter_compl [of received ?a] by linarith
  qed
  have mm: "length (filter mandatory_approved ?a) \<le> length (filter dd_isMandatory ?a)" by (rule sub) (auto simp: mandatory_approved_def)
  have mt: "length (filter dd_isMandatory ?a) \<le> ?n" by (rule length_filter_le)
  have kn: "?k \<le> ?n" by (rule length_filter_le)
  define q where "q = rnd (rnd (of_int (int ?k) / of_int (int ?n)) * 100)"
  have pct: "0 \<le> js_round q \<and> js_round q \<le> 100 \<and> (?k = ?n \<longrightarrow> js_round q = 100)" if n: "0 < ?n"
  proof -
    have "0 \<le> (of_int (int ?k) / of_int (int ?n) :: rat)" "of_int (int ?k) / of_int (int ?n) \<le> (1 :: rat)" using kn n by simp_all
    from monoD [OF assms(1) this(1)] monoD [OF assms(1) this(2)]
    have "0 \<le> rnd (of_int (int ?k) / of_int (int ?n)) * 100" "rnd (of_int (int ?k) / of_int (int ?n)) * 100 \<le> 100" using assms(2,3) by simp_all
    from monoD [OF assms(1) this(1)] monoD [OF assms(1) this(2)] have q: "0 \<le> q" "q \<le> 100" using assms(2,4) by (simp_all add: q_def)
    have "js_round q \<le> js_round 100" using q(2) by (simp add: js_round_def floor_mono)
    moreover have "js_round 0 \<le> js_round q" using q(1) unfolding js_round_def by (intro floor_mono) simp
    moreover have "js_round 100 = 100" "js_round 0 = 0" unfolding js_round_def by (rule floor_unique; simp)+
    moreover have "q = 100" if "?k = ?n" using that n assms(3,4) by (simp add: q_def)
    ultimately show ?thesis by metis
  qed
  show ?thesis
    using ar rt rr mm mt pct by (simp add: calcProgress_def Let_def q_def)
qed

text \<open>Approving a requirement is blind to the review of its file: the checks of an approval give the
  same answer whatever the status of the files, so a requirement whose only file was rejected can be
  approved as if it had been verified.\<close>

theorem approval_ignores_file_review:
  "approval_check J ctx inp x (d\<lparr>documents := map (\<lambda>f. f\<lparr>do_status := st f\<rparr>) (documents d)\<rparr>) = approval_check J ctx inp x d"
proof -
  have "(\<exists>f \<in> set (map (\<lambda>f. f\<lparr>do_status := st f\<rparr>) (documents d)). active_file ctx (dd_id x) f)
      = (\<exists>f \<in> set (documents d). active_file ctx (dd_id x) f)"
    by (simp add: active_file_def)
  then show ?thesis by (simp add: approval_check_def)
qed

section \<open>An example\<close>

definition req_one :: DocCaseDocument where
  "req_one = (blank_requirement (small_env 0) 1 ctx_one ''c1'' ''PAN'')\<lparr>dd_id := ''r1'', dd_status := DD_UNDER_VERIFICATION\<rparr>"

definition rejected_file :: Document where
  "rejected_file = \<lparr>do_id = ''f1'', do_tenantId = ''t1'', do_caseId = ''c1'', do_requirementId = Some ''r1'', do_uploadId = Some ''up'',
     do_category = CAT_REQUIREMENT, do_name = ''PAN'', do_originalFilename = ''pan.pdf'', do_storageKey = ''k'', do_mimeType = ''application/pdf'',
     do_sizeBytes = 10, do_checksum = None, do_status = FD_REJECTED, do_sourceChannel = CH_FIRM_UPLOAD, do_uploadedByParty = UP_FIRM,
     do_uploadedByUserId = Some ''staff'', do_internalNote = None, do_clientVisible = True, do_versionOfId = None, do_isActive = True,
     do_receivedAt = 1, do_verifiedAt = None, do_verifiedByUserId = None, do_rejectedAt = Some 2, do_rejectedByUserId = Some ''staff'',
     do_rejectionReason = Some ''blurred'', do_expiresAt = None, do_deletedAt = None\<rparr>"

definition counted_case :: DocCase where
  "counted_case = (blank_case ''c1'' ctx_one ''l1'' None)\<lparr>dc_progress := fst (calcProgress id [req_one])\<rparr>"

definition review_db :: db where
  "review_db = empty_db\<lparr>docCases := [counted_case], caseDocuments := [req_one], documents := [rejected_file]\<rparr>"

definition approve_one :: ReviewInput where
  "approve_one = \<lparr>rv_status = DD_APPROVED, rv_remarks = None, rv_rejectionReason = None, rv_expiryDate = None, rv_documentDate = None\<rparr>"

definition approved_db :: db where
  "approved_db = snd (projr (updateDocumentStatus no_engine (small_env 1) ctx_one ''r1'' approve_one True review_db))"

lemma req_one_simps [simp]:
  "dd_id req_one = ''r1''" "dd_tenantId req_one = ''t1''" "dd_caseId req_one = ''c1''" "dd_deletedAt req_one = None"
  "dd_status req_one = DD_UNDER_VERIFICATION" "dd_isMandatory req_one = True"
  by (simp_all add: req_one_def blank_requirement_def ctx_one_def)

lemma review_db_simps [simp]:
  "docCases review_db = [counted_case]" "caseDocuments review_db = [req_one]" "documents review_db = [rejected_file]"
  by (simp_all add: review_db_def)

lemma review_db_well_kept: "well_kept review_db"
  by (simp add: well_kept_def keys_ok_def one_active_def approved_live_def)

lemma approve_returns: "\<not> isl (updateDocumentStatus no_engine (small_env 1) ctx_one ''r1'' approve_one True review_db)"
  by code_simp

lemma approve_op: "doc_op id review_db approved_db"
  unfolding approved_db_def by (rule ds_review [OF returned [OF approve_returns]]) simp

lemmas approve_step = ds_own [OF approve_op]

lemma approved_db_reach: "doc_reach id approved_db"
  by (rule dr_next [OF dr_start [OF review_db_well_kept] approve_step])

lemma approved_rows:
  "\<exists>date. caseDocuments approved_db = [reviewed (small_env 1) ctx_one approve_one date req_one] \<and> documents approved_db = [rejected_file]
     \<and> docCases approved_db = recalculated id ctx_one ''c1'' (caseDocuments approved_db) [counted_case]"
proof -
  note r = returned [OF approve_returns, folded approved_db_def]
  from review_Inr [OF r] obtain x date where w: "wrote_requirement (ev_rnd (small_env 1)) ctx_one ''r1'' x (reviewed (small_env 1) ctx_one approve_one date) review_db approved_db"
    and fs: "documents approved_db = (if rv_status approve_one = DD_REJECTED then documents (deactivate_files ctx_one ''r1'' review_db) else documents review_db)"
    by (elim exE conjE)
  have x: "x = req_one" using wrote_found(1) [OF w] by simp
  show ?thesis
    using w fs unfolding x wrote_requirement_def by (intro exI [of _ date]) (simp add: rewritten_def approve_one_def)
qed

text \<open>The requirement is approved, and its one file is rejected.\<close>

lemma rejected_file_approved:
  "(\<forall>x \<in> set (caseDocuments approved_db). dd_status x = DD_APPROVED) \<and> (\<forall>f \<in> set (documents approved_db). do_status f = FD_REJECTED)"
  using approved_rows by (auto simp: approve_one_def rejected_file_def)

lemma approved_row:
  "\<exists>y. caseDocuments approved_db = [y] \<and> dd_id y = ''r1'' \<and> dd_tenantId y = ''t1'' \<and> dd_caseId y = ''c1'' \<and> dd_deletedAt y = None
     \<and> dd_status y = DD_APPROVED"
  using approved_rows reviewed_place [unfolded keeps_place_def] by (auto simp: approve_one_def)

theorem approved_has_one_file_witness: "\<exists>!f. f \<in> set (documents approved_db) \<and> active_of ''t1'' ''r1'' f"
proof -
  obtain y where y: "caseDocuments approved_db = [y]" "dd_id y = ''r1''" "dd_tenantId y = ''t1''" "dd_deletedAt y = None" "dd_status y = DD_APPROVED"
    using approved_row by blast
  show ?thesis using approved_has_one_file [OF approved_db_reach _ y(4,5)] unfolding y(1-3) by simp
qed

theorem counters_never_lie_witness: "\<exists>c \<in> set (docCases approved_db). dc_status c = DC_DOCUMENTATION_READY \<and> dc_isReady c"
proof -
  obtain y where y: "caseDocuments approved_db = [y]" "dd_caseId y = ''c1''" "dd_tenantId y = ''t1''" "dd_status y = DD_APPROVED"
    using approved_row by blast
  have cc: "dc_status counted_case = DC_ACTIVE" "live_case ctx_one ''c1'' counted_case" "dc_id counted_case = ''c1''" "dc_tenantId counted_case = ''t1''"
    by (simp_all add: counted_case_def blank_case_def live_case_def ctx_one_def)
  obtain c where c: "docCases approved_db = [c]" "dc_deletedAt c = None" "dc_status c \<in> {DC_ACTIVE, DC_DOCUMENTATION_READY}"
      "dc_id c = ''c1''" "dc_tenantId c = ''t1''"
    using approved_rows cc by (auto simp: recalculated_def settled_def open_status_def TERMINAL_STATUSES_def RECALC_MUTABLE_STATUSES_def live_case_def
        split: prod.splits)
  have nt: "dc_status c \<notin> set TERMINAL_STATUSES" using c(3) by (auto simp: TERMINAL_STATUSES_def)
  have m: "c \<in> set (docCases approved_db)" using c(1) by simp
  have k: "keys_ok review_db" by (simp add: keys_ok_def)
  have rq: "reqs_of ''t1'' ''c1'' (caseDocuments approved_db) = [y]" "reqs_of ''t1'' ''c1'' (caseDocuments review_db) = [req_one]"
    using y by (simp_all add: reqs_of_def)
  have new: "[y] \<noteq> [req_one]" using y(4) by auto
  from counters_never_lie [OF k approve_op m, unfolded c(4,5) rq] new c(2) nt
  have "dc_isReady c = (\<forall>x \<in> set [y]. counted x \<and> dd_isMandatory x \<longrightarrow> dd_status x \<in> {DD_APPROVED, DD_MANAGER_APPROVED, DD_WAIVED})"
    "(dc_status c = DC_DOCUMENTATION_READY) = dc_isReady c" using c(3) by blast+
  then show ?thesis using c(1) y(4) by simp
qed


theorem file_moves_witness: "\<exists>f' \<in> set (documents approved_db). do_id f' = ''f1'' \<and> do_storageKey f' = ''k''"
  using file_moves [OF dr_start [OF review_db_well_kept] approve_step, of rejected_file] by (auto simp: file_moved_def rejected_file_def)

text \<open>
  Reviews take no lock on the case, and a transaction does not see what another has written and not
  committed. Two that approve the last two requirements at once each count the other as open, and
  whichever writes the case last leaves it not ready.
\<close>

definition two_reqs :: "DocDocumentStatus \<Rightarrow> DocDocumentStatus \<Rightarrow> DocCaseDocument list" where
  "two_reqs a b = [req_one\<lparr>dd_status := a\<rparr>, req_one\<lparr>dd_id := ''r2'', dd_status := b\<rparr>]"

lemma overlapping_reviews:
  "map dc_isReady (recalculated id ctx_one ''c1'' (two_reqs DD_UNDER_VERIFICATION DD_APPROVED)
     (recalculated id ctx_one ''c1'' (two_reqs DD_APPROVED DD_UNDER_VERIFICATION) [counted_case])) = [False]
   \<and> snd (calcProgress id (two_reqs DD_APPROVED DD_APPROVED))"
  by (intro conjI; code_simp)

theorem progress_bounds_witness: "pg_completionPercent (fst (calcProgress id [req_one])) \<le> 100"
  using progress_bounds [of id "[req_one]"] by (simp add: mono_def)

end
