(* ===== verification/Policy_Documents.thy ===== *)
theory Policy_Documents
  imports Requirement_Service Calendar_Service "HOL-Library.List_Lexorder" "HOL-Library.Char_ord"
begin

text \<open>
  The requirements a case gets from its policies, in \<^verbatim>\<open>src/src/services/documentation.service.ts\<close>:
  every document line of a selected component becomes a requirement of the case, lines with one key
  share it, and a requirement no component asks for any longer is retired if nothing happened to it.
  The rows found in a transaction are written by their id, so these writes do not fail.
\<close>

section \<open>Keys\<close>

definition lower_char :: "char \<Rightarrow> char" where
  "lower_char c = (if is_upper c then char_of (code c + 32) else c)"

text \<open>\<^verbatim>\<open>replace(/\s+/g, ' ')\<close>; the flag says that the character before was a space.\<close>

fun collapse_spaces :: "bool \<Rightarrow> string \<Rightarrow> string" where
  "collapse_spaces sp [] = []"
| "collapse_spaces sp (c # s) =
     (if is_space c then (if sp then collapse_spaces True s else CHR '' '' # collapse_spaces True s)
      else c # collapse_spaces False s)"

definition normalizeDedupeKey :: "string \<Rightarrow> string" where
  "normalizeDedupeKey name = collapse_spaces False (map lower_char (trim name))"

definition merge_key :: "CaseTypeComponentDocument \<Rightarrow> string" where
  "merge_key preset = ''compdoc:'' @ cd_dedupeKey preset"

section \<open>Writes\<close>

definition set_requirement :: "string \<Rightarrow> (DocCaseDocument \<Rightarrow> DocCaseDocument) \<Rightarrow> db \<Rightarrow> db" where
  "set_requirement i f d = d\<lparr>caseDocuments := fst (update_many (\<lambda>x. dd_id x = i) f (caseDocuments d))\<rparr>"

definition put_sources :: "DocCaseDocumentComponentSource list \<Rightarrow> db \<Rightarrow> db" where
  "put_sources ls d = d\<lparr>planning := (planning d)\<lparr>componentSources := ls\<rparr>\<rparr>"

definition put_selections :: "DocCasePolicyComponent list \<Rightarrow> db \<Rightarrow> db" where
  "put_selections ss d = d\<lparr>planning := (planning d)\<lparr>policySelections := ss\<rparr>\<rparr>"

definition put_assignments :: "DocCasePolicyAssignment list \<Rightarrow> db \<Rightarrow> db" where
  "put_assignments as d = d\<lparr>planning := (planning d)\<lparr>policyAssignments := as\<rparr>\<rparr>"

text \<open>A set that keeps the order of insertion.\<close>

definition touch :: "'a \<Rightarrow> 'a list \<Rightarrow> 'a list" where
  "touch x xs = (if x \<in> set xs then xs else xs @ [x])"

section \<open>Removal\<close>

definition links_of :: "TenantContext \<Rightarrow> DocCasePolicyComponent \<Rightarrow> db \<Rightarrow> DocCaseDocumentComponentSource list" where
  "links_of ctx s d = filter (\<lambda>l. so_tenantId l = tenantId ctx \<and> so_policyComponentId l = sc_id s \<and> so_deletedAt l = None)
     (componentSources (planning d))"

fun drop_links :: "env \<Rightarrow> nat \<Rightarrow> DocCaseDocumentComponentSource list \<Rightarrow> db \<Rightarrow> db" where
  "drop_links E k [] d = d"
| "drop_links E k (l # ls) d =
     drop_links E (k + 1) ls (put_sources (fst (update_many (\<lambda>q. so_id q = so_id l)
        (\<lambda>q. q\<lparr>so_deletedAt := Some (ev_clock E k)\<rparr>) (componentSources (planning d)))) d)"

definition legacy_docs :: "TenantContext \<Rightarrow> string \<Rightarrow> DocCasePolicyComponent \<Rightarrow> db \<Rightarrow> DocCaseDocument list" where
  "legacy_docs ctx caseId s d = filter (\<lambda>x. dd_tenantId x = tenantId ctx \<and> dd_caseId x = caseId
     \<and> dd_policyComponentId x = Some (sc_id s) \<and> dd_deletedAt x = None) (caseDocuments d)"

fun drop_selections :: "env \<Rightarrow> nat \<Rightarrow> TenantContext \<Rightarrow> string \<Rightarrow> DocCasePolicyComponent list \<Rightarrow> string list \<Rightarrow> db \<Rightarrow> string list \<times> db" where
  "drop_selections E k ctx caseId [] touched d = (touched, d)"
| "drop_selections E k ctx caseId (s # ss) touched d =
     (let links = links_of ctx s d;
          d1 = drop_links E k links d;
          touched1 = fold touch (map so_documentId links @ map dd_id (legacy_docs ctx caseId s d1)) touched
      in drop_selections E (k + length links) ctx caseId ss touched1 d1)"

definition selections_of :: "TenantContext \<Rightarrow> string \<Rightarrow> db \<Rightarrow> DocCasePolicyComponent list" where
  "selections_of ctx caseId d = filter (\<lambda>s. sc_tenantId s = tenantId ctx \<and> sc_caseId s = caseId) (policySelections (planning d))"

section \<open>Materialisation\<close>

definition of_key :: "TenantContext \<Rightarrow> string \<Rightarrow> string \<Rightarrow> DocCaseDocument \<Rightarrow> bool" where
  "of_key ctx caseId key x \<longleftrightarrow> dd_tenantId x = tenantId ctx \<and> dd_caseId x = caseId \<and> dd_requirementDedupeKey x = Some key"

definition doc_order :: "DocCaseDocument \<Rightarrow> int \<times> date \<times> string" where
  "doc_order x = (dd_displayOrder x, dd_createdAt x, dd_id x)"

definition keyed_doc :: "TenantContext \<Rightarrow> string \<Rightarrow> string \<Rightarrow> db \<Rightarrow> DocCaseDocument option" where
  "keyed_doc ctx caseId key d =
     find_first (\<lambda>_. True) (sort_key doc_order (filter (\<lambda>x. of_key ctx caseId key x \<and> dd_deletedAt x = None) (caseDocuments d)))"

definition revivable_doc :: "TenantContext \<Rightarrow> string \<Rightarrow> string \<Rightarrow> db \<Rightarrow> DocCaseDocument option" where
  "revivable_doc ctx caseId key d =
     find_first (\<lambda>_. True) (rev (sort_key (\<lambda>x. (dd_updatedAt x, dd_id x))
       (filter (\<lambda>x. of_key ctx caseId key x \<and> dd_deletedAt x \<noteq> None) (caseDocuments d))))"

definition adoptable :: "TenantContext \<Rightarrow> string \<Rightarrow> DocCaseDocument \<Rightarrow> bool" where
  "adoptable ctx caseId x \<longleftrightarrow> dd_tenantId x = tenantId ctx \<and> dd_caseId x = caseId \<and> dd_deletedAt x = None
     \<and> dd_requirementDedupeKey x = None \<and> dd_policyComponentId x = None \<and> dd_policyAssignmentId x = None \<and> \<not> dd_isComponentMerged x"

definition manual_doc :: "TenantContext \<Rightarrow> string \<Rightarrow> string \<Rightarrow> db \<Rightarrow> DocCaseDocument option" where
  "manual_doc ctx caseId dedupeKey d =
     find_first (\<lambda>x. normalizeDedupeKey (dd_name x) = dedupeKey) (sort_key doc_order (filter (adoptable ctx caseId) (caseDocuments d)))"

definition merged_row :: "env \<Rightarrow> nat \<Rightarrow> TenantContext \<Rightarrow> string \<Rightarrow> CaseTypeComponentDocument \<Rightarrow> db \<Rightarrow> DocCaseDocument" where
  "merged_row E k ctx caseId preset d =
     (blank_requirement E k ctx caseId (cd_name preset))
       \<lparr>dd_description := cd_description preset, dd_isMandatory := cd_isMandatory preset, dd_requireDate := cd_requireDate preset,
        dd_requireNote := cd_requireNote preset, dd_displayOrder := next_order caseId d,
        dd_requirementDedupeKey := Some (merge_key preset), dd_isComponentMerged := True\<rparr>"

text \<open>Find, revive, adopt or create the requirement of a line.\<close>

definition shared_doc :: "env \<Rightarrow> nat \<Rightarrow> TenantContext \<Rightarrow> string \<Rightarrow> CaseTypeComponentDocument \<Rightarrow> db \<Rightarrow> string \<times> db" where
  "shared_doc E k ctx caseId preset d =
     (case keyed_doc ctx caseId (merge_key preset) d of
        Some x \<Rightarrow> (dd_id x, d)
      | None \<Rightarrow>
     (case revivable_doc ctx caseId (merge_key preset) d of
        Some x \<Rightarrow> (dd_id x, set_requirement (dd_id x) (\<lambda>y. y\<lparr>dd_deletedAt := None, dd_updatedAt := ev_clock E k\<rparr>) d)
      | None \<Rightarrow>
     (case manual_doc ctx caseId (cd_dedupeKey preset) d of
        Some x \<Rightarrow> (dd_id x, set_requirement (dd_id x)
           (\<lambda>y. y\<lparr>dd_requirementDedupeKey := Some (merge_key preset), dd_updatedAt := ev_clock E k\<rparr>) d)
      | None \<Rightarrow> (ev_uuid E k, d\<lparr>caseDocuments := caseDocuments d @ [merged_row E k ctx caseId preset d]\<rparr>))))"

definition is_link :: "TenantContext \<Rightarrow> DocCasePolicyComponent \<Rightarrow> CaseTypeComponentDocument \<Rightarrow> DocCaseDocumentComponentSource \<Rightarrow> bool" where
  "is_link ctx s preset l \<longleftrightarrow> so_tenantId l = tenantId ctx \<and> so_policyComponentId l = sc_id s \<and> so_componentDocumentId l = Some (cd_id preset)"

definition link_row :: "env \<Rightarrow> nat \<Rightarrow> TenantContext \<Rightarrow> string \<Rightarrow> DocCasePolicyComponent \<Rightarrow> CaseTypeComponentDocument \<Rightarrow> string
    \<Rightarrow> DocCaseDocumentComponentSource" where
  "link_row E k ctx caseId s preset documentId =
     \<lparr>so_id = ev_uuid E k, so_tenantId = tenantId ctx, so_caseId = caseId, so_documentId = documentId,
      so_policyAssignmentId = sc_policyAssignmentId s, so_policyComponentId = sc_id s, so_componentId = sc_componentId s,
      so_componentDocumentId = Some (cd_id preset), so_isMandatoryAtLink = cd_isMandatory preset,
      so_displayOrderAtLink = cd_displayOrder preset, so_deletedAt = None\<rparr>"

definition upsert_link :: "env \<Rightarrow> nat \<Rightarrow> TenantContext \<Rightarrow> string \<Rightarrow> DocCasePolicyComponent \<Rightarrow> CaseTypeComponentDocument \<Rightarrow> string \<Rightarrow> db \<Rightarrow> db" where
  "upsert_link E k ctx caseId s preset documentId d =
     (let ls = componentSources (planning d) in
      case find_first (is_link ctx s preset) ls of
        Some l \<Rightarrow> put_sources (fst (update_many (\<lambda>q. so_id q = so_id l)
          (\<lambda>q. q\<lparr>so_documentId := documentId, so_policyAssignmentId := sc_policyAssignmentId s, so_componentId := sc_componentId s,
             so_isMandatoryAtLink := cd_isMandatory preset, so_displayOrderAtLink := cd_displayOrder preset, so_deletedAt := None\<rparr>) ls)) d
      | None \<Rightarrow> put_sources (ls @ [link_row E k ctx caseId s preset documentId]) d)"

definition materializePresetForSelection ::
  "env \<Rightarrow> nat \<Rightarrow> TenantContext \<Rightarrow> string \<Rightarrow> DocCasePolicyComponent \<Rightarrow> CaseTypeComponentDocument \<Rightarrow> db \<Rightarrow> string \<times> db" where
  "materializePresetForSelection E k ctx caseId s preset d =
     (case shared_doc E k ctx caseId preset d of (i, d1) \<Rightarrow> (i, upsert_link E (k + 1) ctx caseId s preset i d1))"

definition presets_of :: "TenantContext \<Rightarrow> string \<Rightarrow> db \<Rightarrow> CaseTypeComponentDocument list" where
  "presets_of ctx componentId d =
     sort_key (\<lambda>p. (cd_displayOrder p, cd_createdAt p)) (filter (\<lambda>p. cd_tenantId p = tenantId ctx \<and> cd_componentId p = componentId
       \<and> cd_isActive p \<and> cd_deletedAt p = None) (componentDocuments (planning d)))"

fun materialize_presets ::
  "env \<Rightarrow> nat \<Rightarrow> TenantContext \<Rightarrow> string \<Rightarrow> DocCasePolicyComponent \<Rightarrow> CaseTypeComponentDocument list \<Rightarrow> string list \<Rightarrow> db \<Rightarrow> string list \<times> db" where
  "materialize_presets E k ctx caseId s [] touched d = (touched, d)"
| "materialize_presets E k ctx caseId s (p # ps) touched d =
     (case materializePresetForSelection E k ctx caseId s p d of
        (i, d1) \<Rightarrow> materialize_presets E (k + 2) ctx caseId s ps (touch i touched) d1)"

definition mark_materialized :: "env \<Rightarrow> nat \<Rightarrow> DocCasePolicyComponent \<Rightarrow> db \<Rightarrow> db" where
  "mark_materialized E k s d =
     (if sc_documentsMaterializedAt s \<noteq> None then d
      else put_selections (fst (update_many (\<lambda>q. sc_id q = sc_id s)
             (\<lambda>q. q\<lparr>sc_documentsMaterializedAt := Some (ev_clock E k)\<rparr>) (policySelections (planning d)))) d)"

fun materialize_selections ::
  "env \<Rightarrow> nat \<Rightarrow> TenantContext \<Rightarrow> string \<Rightarrow> DocCasePolicyComponent list \<Rightarrow> string list \<Rightarrow> db \<Rightarrow> string list \<times> db" where
  "materialize_selections E k ctx caseId [] touched d = (touched, d)"
| "materialize_selections E k ctx caseId (s # ss) touched d =
     (let ps = presets_of ctx (sc_componentId s) d in
      case materialize_presets E k ctx caseId s ps touched d of
        (touched1, d1) \<Rightarrow>
          materialize_selections E (k + 2 * length ps + 1) ctx caseId ss touched1 (mark_materialized E (k + 2 * length ps) s d1))"

text \<open>The active selections in the order of their assignments; the sort is stable.\<close>

definition assignment_order :: "DocCasePolicyComponent \<Rightarrow> db \<Rightarrow> int" where
  "assignment_order s d =
     (case find_first (\<lambda>a. pa_id a = sc_policyAssignmentId s) (policyAssignments (planning d)) of None \<Rightarrow> 0 | Some a \<Rightarrow> pa_displayOrder a)"

definition active_selections :: "TenantContext \<Rightarrow> string \<Rightarrow> db \<Rightarrow> DocCasePolicyComponent list" where
  "active_selections ctx caseId d =
     sort_key (\<lambda>s. (assignment_order s d, sc_displayOrder s)) (sort_key (\<lambda>s. (sc_displayOrder s, sc_createdAt s))
       (filter (\<lambda>s. sc_deletedAt s = None) (selections_of ctx caseId d)))"

section \<open>Reconciliation\<close>

definition DESELECT_SAFE_STATUSES :: "DocDocumentStatus list" where
  "DESELECT_SAFE_STATUSES = [DD_REQUESTED, DD_PENDING_COLLECTION]"

definition sources_of :: "TenantContext \<Rightarrow> string \<Rightarrow> db \<Rightarrow> DocCaseDocumentComponentSource list" where
  "sources_of ctx documentId d =
     filter (\<lambda>l. so_tenantId l = tenantId ctx \<and> so_documentId l = documentId \<and> so_deletedAt l = None) (componentSources (planning d))"

text \<open>Nothing has happened to a requirement.\<close>

definition untouched :: "TenantContext \<Rightarrow> DocCaseDocument \<Rightarrow> db \<Rightarrow> bool" where
  "untouched ctx x d \<longleftrightarrow>
     filter (\<lambda>f. do_tenantId f = tenantId ctx \<and> do_requirementId f = Some (dd_id x) \<and> do_deletedAt f = None \<and> do_isActive f) (documents d) = []
     \<and> filter (\<lambda>r. sr_documentId r = dd_id x) (storageRefs (planning d)) = []
     \<and> filter (\<lambda>e. de_documentId e = Some (dd_id x)) (caseEvents d) = []
     \<and> falsy (dd_notes x) \<and> \<not> dd_clientVisible x \<and> dd_clientVisibleAt x = None \<and> dd_receivedAt x = None \<and> dd_verifiedAt x = None
     \<and> \<not> dd_isWaived x \<and> dd_status x \<in> set DESELECT_SAFE_STATUSES"

definition reconcilePolicyDocument :: "env \<Rightarrow> nat \<Rightarrow> TenantContext \<Rightarrow> string \<Rightarrow> db \<Rightarrow> db" where
  "reconcilePolicyDocument E k ctx i d =
     (case find_first (\<lambda>x. dd_id x = i \<and> dd_tenantId x = tenantId ctx) (caseDocuments d) of
        None \<Rightarrow> d
      | Some x \<Rightarrow>
          let sources = sources_of ctx i d in
          if sources \<noteq> []
          then set_requirement i (\<lambda>y. y\<lparr>dd_isMandatory := list_ex so_isMandatoryAtLink sources, dd_deletedAt := None,
                 dd_updatedAt := ev_clock E k\<rparr>) d
          else
            let d1 = set_requirement i (\<lambda>y. y\<lparr>dd_isMandatory := False, dd_updatedAt := ev_clock E k\<rparr>) d
            in if \<not> (dd_isComponentMerged x \<or> dd_policyComponentId x \<noteq> None) \<or> falsy (dd_requirementDedupeKey x) \<or> dd_deletedAt x \<noteq> None
               then d1
               else if untouched ctx x d1
               then set_requirement i (\<lambda>y. y\<lparr>dd_deletedAt := Some (ev_clock E (k + 1)), dd_updatedAt := ev_clock E (k + 1)\<rparr>) d1
               else d1)"

fun reconcile_docs :: "env \<Rightarrow> nat \<Rightarrow> TenantContext \<Rightarrow> string list \<Rightarrow> db \<Rightarrow> db" where
  "reconcile_docs E k ctx [] d = d"
| "reconcile_docs E k ctx (i # is) d = reconcile_docs E (k + 2) ctx is (reconcilePolicyDocument E k ctx i d)"

text \<open>The three phases, each with the reads of its own environment.\<close>

definition syncPolicyDocuments :: "(nat \<Rightarrow> env) \<Rightarrow> TenantContext \<Rightarrow> string \<Rightarrow> db \<Rightarrow> db" where
  "syncPolicyDocuments Es ctx caseId d =
     (let dropped = filter (\<lambda>s. sc_deletedAt s \<noteq> None) (selections_of ctx caseId d) in
      case drop_selections (Es 0) 0 ctx caseId dropped [] d of (touched1, d1) \<Rightarrow>
      case materialize_selections (Es 1) 0 ctx caseId (active_selections ctx caseId d1) touched1 d1 of (touched2, d2) \<Rightarrow>
      reconcile_docs (Es 2) 0 ctx touched2 d2)"

section \<open>Entry points\<close>

definition ASSIGN_ALLOWED_STATUSES :: "DocCaseStatus list" where
  "ASSIGN_ALLOWED_STATUSES = [DC_INCOMING, DC_RETURNED, DC_ACTIVE, DC_DOCUMENTATION_READY, DC_RETURNED_TO_DOCUMENTATION]"

definition live_count :: "TenantContext \<Rightarrow> string \<Rightarrow> db \<Rightarrow> int" where
  "live_count ctx caseId d =
     int (length (filter (\<lambda>x. dd_caseId x = caseId \<and> dd_tenantId x = tenantId ctx \<and> dd_deletedAt x = None) (caseDocuments d)))"

definition materialized_audit :: "TenantContext \<Rightarrow> string \<Rightarrow> (string \<times> jsval) list \<Rightarrow> AuditAppendInput" where
  "materialized_audit ctx caseId payload =
     audit_input (tenantId ctx) ''COMPONENT_DOCUMENT_MATERIALIZED'' ''DocCase'' caseId (Some (userId ctx)) ''UPDATE'' payload"

text \<open>The counts before and after, or nothing when the case is skipped.\<close>

definition reconcileCaseComponentDocuments :: "(nat \<Rightarrow> env) \<Rightarrow> TenantContext \<Rightarrow> string \<Rightarrow> (int \<times> int) option tx" where
  "reconcileCaseComponentDocuments Es ctx caseId d =
     res_bind (loadCase ctx caseId d) (\<lambda>c.
     if dc_status c \<notin> set ASSIGN_ALLOWED_STATUSES then Inr (None, d)
     else
       let before = live_count ctx caseId d;
           d1 = recalcAndUpdateCase (Es 3) ctx caseId (syncPolicyDocuments Es ctx caseId d);
           after = live_count ctx caseId d1
       in res_bind (if after = before then Inr d1
            else audit_tx (Es 3) 1 (materialized_audit ctx caseId [(''reconcile'', JBool True), (''before'', jint before), (''after'', jint after)]) d1) (\<lambda>d2.
          Inr (Some (before, after), d2)))"

fun materialize_each ::
  "env \<Rightarrow> nat \<Rightarrow> TenantContext \<Rightarrow> string \<Rightarrow> CaseTypeComponentDocument \<Rightarrow> DocCasePolicyComponent list \<Rightarrow> db \<Rightarrow> db" where
  "materialize_each E k ctx caseId preset [] d = d"
| "materialize_each E k ctx caseId preset (s # ss) d =
     (case materializePresetForSelection E k ctx caseId s preset d of
        (i, d1) \<Rightarrow> materialize_each E (k + 4) ctx caseId preset ss (reconcilePolicyDocument E (k + 2) ctx i d1))"

text \<open>The transaction of one case: a case that is gone or frozen is left alone.\<close>

definition propagate_case :: "env \<Rightarrow> TenantContext \<Rightarrow> CaseTypeComponentDocument \<Rightarrow> string \<Rightarrow> DocCasePolicyComponent list \<Rightarrow> db \<Rightarrow> app_error + db" where
  "propagate_case E ctx preset caseId sels d =
     (case find_first (live_case ctx caseId) (docCases d) of
        None \<Rightarrow> Inr d
      | Some c \<Rightarrow>
          if dc_status c \<notin> set ASSIGN_ALLOWED_STATUSES then Inr d
          else audit_tx E 1 (materialized_audit ctx caseId [(''componentId'', JStr (cd_componentId preset)), (''componentDocumentId'', JStr (cd_id preset))])
                 (recalcAndUpdateCase E ctx caseId (materialize_each E 10 ctx caseId preset sels d)))"

text \<open>One transaction after the other; the first that fails ends the call and keeps those before it.\<close>

fun propagate_cases ::
  "(nat \<Rightarrow> env) \<Rightarrow> nat \<Rightarrow> TenantContext \<Rightarrow> CaseTypeComponentDocument \<Rightarrow> DocCasePolicyComponent list \<Rightarrow> string list \<Rightarrow> db \<Rightarrow> (app_error + unit) \<times> db" where
  "propagate_cases Es n ctx preset sels [] d = (Inr (), d)"
| "propagate_cases Es n ctx preset sels (c # cs) d =
     (case propagate_case (Es n) ctx preset c (filter (\<lambda>s. sc_caseId s = c) sels) d of
        Inl e \<Rightarrow> (Inl e, d)
      | Inr d1 \<Rightarrow> propagate_cases Es (n + 1) ctx preset sels cs d1)"

definition propagateActiveComponentDocument :: "(nat \<Rightarrow> env) \<Rightarrow> TenantContext \<Rightarrow> string \<Rightarrow> string \<Rightarrow> unit handler" where
  "propagateActiveComponentDocument Es ctx componentId componentDocumentId d =
     (case find_first (\<lambda>p. cd_id p = componentDocumentId \<and> cd_tenantId p = tenantId ctx \<and> cd_componentId p = componentId
         \<and> cd_isActive p \<and> cd_deletedAt p = None) (componentDocuments (planning d)) of
        None \<Rightarrow> (Inr (), d)
      | Some preset \<Rightarrow>
          let sels = filter (\<lambda>s. sc_tenantId s = tenantId ctx \<and> sc_componentId s = componentId \<and> sc_deletedAt s = None) (policySelections (planning d))
          in propagate_cases Es 0 ctx preset sels (fold touch (map sc_caseId sels) []) d)"

end
