(* ===== verification/Policy_Service.thy ===== *)
theory Policy_Service
  imports Policy_Documents
begin

text \<open>
  \<^verbatim>\<open>assignPolicies\<close> of \<^verbatim>\<open>src/src/services/documentation.service.ts\<close>: the policies of a case, the
  components selected in each, and with them the requirements. The types of the request body, which
  the code checks field by field, are those of the input records.
\<close>

section \<open>The checks of the input\<close>

definition is_hex :: "char \<Rightarrow> bool" where
  "is_hex c \<longleftrightarrow> is_digit c \<or> (97 \<le> code c \<and> code c \<le> 102) \<or> (65 \<le> code c \<and> code c \<le> 70)"

definition UUID_RE :: "string \<Rightarrow> bool" where
  "UUID_RE s \<longleftrightarrow> length s = 36
     \<and> list_all (\<lambda>(i, c). if i \<in> {8, 13, 18, 23} then c = CHR ''-'' else is_hex c) (enumerate 0 s)"

text \<open>A field that is absent, null or a text.\<close>

record PolicyInput =
  pc_caseTypeId :: string
  pc_componentIds :: "string list option"
  pc_proposalDate :: "string option option"
  pc_actualDate :: "string option option"

record AssignPoliciesInput =
  ap_policies :: "PolicyInput list"
  ap_primaryCaseTypeId :: "string option"

definition parseDateInput :: "string option option \<Rightarrow> app_error + date option" where
  "parseDateInput v =
     (case v of
        Some (Some s) \<Rightarrow>
          if s = [] then Inr None
          else if \<not> DATE_RE s then Inl (ValidationError ''Dates must be a YYYY-MM-DD string, null, or empty.'')
          else (case iso_midnight s of None \<Rightarrow> Inl (ValidationError ''Invalid date.'') | Some t \<Rightarrow> Inr (Some t))
      | _ \<Rightarrow> Inr None)"

definition sameSet :: "string list \<Rightarrow> string list \<Rightarrow> bool" where
  "sameSet a b \<longleftrightarrow> length a = length b \<and> list_all (\<lambda>x. x \<in> set a) b"

fun validate_components :: "string list \<Rightarrow> string list \<Rightarrow> app_error + unit" where
  "validate_components seen [] = Inr ()"
| "validate_components seen (c # cs) =
     res_bind (ensure (UUID_RE c) (ValidationError ''Each componentId must be a UUID.'')) (\<lambda>_.
     res_bind (ensure (c \<notin> set seen) (ValidationError ''Duplicate componentId in a policy.'')) (\<lambda>_.
     validate_components (c # seen) cs))"

definition validate_policy :: "PolicyInput \<Rightarrow> app_error + unit" where
  "validate_policy p =
     res_bind (case pc_componentIds p of
        None \<Rightarrow> Inr ()
      | Some cs \<Rightarrow> res_bind (ensure (length cs \<le> 100) (ValidationError ''A policy may have at most 100 components.'')) (\<lambda>_.
          validate_components [] cs)) (\<lambda>_.
     res_bind (parseDateInput (pc_proposalDate p)) (\<lambda>_.
     res_bind (parseDateInput (pc_actualDate p)) (\<lambda>_. Inr ())))"

fun validate_policies :: "string list \<Rightarrow> PolicyInput list \<Rightarrow> app_error + unit" where
  "validate_policies seen [] = Inr ()"
| "validate_policies seen (p # ps) =
     res_bind (ensure (UUID_RE (pc_caseTypeId p)) (ValidationError ''Each policy.caseTypeId must be a UUID.'')) (\<lambda>_.
     res_bind (ensure (pc_caseTypeId p \<notin> set seen) (ValidationError ''Duplicate caseTypeId in policies.'')) (\<lambda>_.
     res_bind (validate_policy p) (\<lambda>_.
     validate_policies (pc_caseTypeId p # seen) ps)))"

definition validate_assign :: "string \<Rightarrow> AssignPoliciesInput \<Rightarrow> app_error + unit" where
  "validate_assign caseId inp =
     res_bind (ensure (UUID_RE caseId) (ValidationError ''caseId must be a UUID.'')) (\<lambda>_.
     res_bind (ensure (ap_policies inp \<noteq> []) (ValidationError ''policies must be a non-empty array.'')) (\<lambda>_.
     res_bind (ensure (length (ap_policies inp) \<le> 25) (ValidationError ''A case may have at most 25 policies.'')) (\<lambda>_.
     res_bind (validate_policies [] (ap_policies inp)) (\<lambda>_.
     case ap_primaryCaseTypeId inp of
        None \<Rightarrow> Inr ()
      | Some i \<Rightarrow>
          res_bind (ensure (UUID_RE i) (ValidationError ''primaryCaseTypeId must be a UUID.'')) (\<lambda>_.
          ensure (i \<in> set (map pc_caseTypeId (ap_policies inp))) (ValidationError ''primaryCaseTypeId must be one of the submitted policies.''))))))"

section \<open>What the case has\<close>

definition current_assignments :: "TenantContext \<Rightarrow> string \<Rightarrow> db \<Rightarrow> DocCasePolicyAssignment list" where
  "current_assignments ctx caseId d =
     filter (\<lambda>a. pa_tenantId a = tenantId ctx \<and> pa_caseId a = caseId \<and> pa_deletedAt a = None) (policyAssignments (planning d))"

definition assignment_for :: "DocCasePolicyAssignment list \<Rightarrow> string \<Rightarrow> DocCasePolicyAssignment option" where
  "assignment_for current typeId = find_first (\<lambda>a. pa_caseTypeId a = typeId) current"

definition selected_components :: "DocCasePolicyAssignment \<Rightarrow> db \<Rightarrow> string list" where
  "selected_components a d =
     map sc_componentId (filter (\<lambda>s. sc_policyAssignmentId s = pa_id a \<and> sc_deletedAt s = None) (policySelections (planning d)))"

definition find_type :: "TenantContext \<Rightarrow> string \<Rightarrow> db \<Rightarrow> CaseType option" where
  "find_type ctx i d = find_first (\<lambda>t. ct_id t = i \<and> ct_tenantId t = tenantId ctx) (caseTypes (planning d))"

definition active_type :: "TenantContext \<Rightarrow> db \<Rightarrow> string \<Rightarrow> bool" where
  "active_type ctx d i \<longleftrightarrow> (case find_type ctx i d of None \<Rightarrow> False | Some t \<Rightarrow> ct_status t = CT_ACTIVE)"

definition active_components :: "TenantContext \<Rightarrow> string \<Rightarrow> db \<Rightarrow> CaseTypeComponent list" where
  "active_components ctx typeId d =
     filter (\<lambda>c. co_tenantId c = tenantId ctx \<and> co_caseTypeId c = typeId \<and> co_isActive c \<and> co_deletedAt c = None) (typeComponents (planning d))"

section \<open>The primary policy\<close>

definition choose_primary :: "TenantContext \<Rightarrow> AssignPoliciesInput \<Rightarrow> db \<Rightarrow> app_error + string" where
  "choose_primary ctx inp d =
     (let ids = map pc_caseTypeId (ap_policies inp) in
      if \<not> falsy (ap_primaryCaseTypeId inp)
      then res_bind (ensure (\<not> (list_ex (active_type ctx d) ids \<and> \<not> active_type ctx d (or_empty (ap_primaryCaseTypeId inp))))
             (BusinessRuleViolationError ''The primary policy must be ACTIVE.'')) (\<lambda>_. Inr (or_empty (ap_primaryCaseTypeId inp)))
      else Inr (case find_first (active_type ctx d) ids of Some i \<Rightarrow> i | None \<Rightarrow> hd ids))"

definition ordered_types :: "string \<Rightarrow> PolicyInput list \<Rightarrow> string list" where
  "ordered_types primary ps = primary # filter (\<lambda>i. i \<noteq> primary) (map pc_caseTypeId ps)"

fun position :: "string \<Rightarrow> string list \<Rightarrow> int" where
  "position x [] = 0"
| "position x (y # ys) = (if x = y then 0 else 1 + position x ys)"

section \<open>One policy\<close>

text \<open>The components selected after the save.\<close>

definition incoming_of :: "bool \<Rightarrow> string list \<Rightarrow> PolicyInput \<Rightarrow> string list" where
  "incoming_of retained currentSel p =
     (case pc_componentIds p of Some cs \<Rightarrow> cs | None \<Rightarrow> if retained then currentSel else [])"

fun check_components :: "TenantContext \<Rightarrow> string \<Rightarrow> string list \<Rightarrow> string list \<Rightarrow> db \<Rightarrow> app_error + unit" where
  "check_components ctx typeId currentSel [] d = Inr ()"
| "check_components ctx typeId currentSel (i # is) d =
     (case find_first (\<lambda>c. co_id c = i \<and> co_tenantId c = tenantId ctx) (typeComponents (planning d)) of
        None \<Rightarrow> Inl (ValidationError ''A selected component does not belong to its policy.'')
      | Some c \<Rightarrow>
          res_bind (ensure (co_caseTypeId c = typeId) (ValidationError ''A selected component does not belong to its policy.'')) (\<lambda>_.
          res_bind (ensure (i \<in> set currentSel \<or> co_isActive c \<and> co_deletedAt c = None)
             (BusinessRuleViolationError ''A newly selected component is inactive.'')) (\<lambda>_.
          check_components ctx typeId currentSel is d)))"

definition check_selection :: "TenantContext \<Rightarrow> CaseType \<Rightarrow> bool \<Rightarrow> string list \<Rightarrow> string list \<Rightarrow> db \<Rightarrow> app_error + unit" where
  "check_selection ctx type retained currentSel incoming d =
     (let unchanged = sameSet incoming currentSel;
          archived = ct_status type = CT_ARCHIVED \<or> ct_deletedAt type \<noteq> None;
          active = map co_id (active_components ctx (ct_id type) d)
      in res_bind (ensure (\<not> (retained \<and> archived \<and> \<not> unchanged))
           (BusinessRuleViolationError ''Component selection for an archived retained policy cannot be changed.'')) (\<lambda>_.
         if retained \<and> unchanged then Inr ()
         else res_bind (check_components ctx (ct_id type) currentSel incoming d) (\<lambda>_.
           ensure (active = [] \<or> list_ex (\<lambda>i. i \<in> set active) incoming)
             (BusinessRuleViolationError ''Select at least one active component for this policy.''))))"

definition date_given :: "string option option \<Rightarrow> date option \<Rightarrow> app_error + date option" where
  "date_given v old = (if v = None then Inr old else parseDateInput v)"

text \<open>The assignment of a type to a case is unique, deleted or not.\<close>

definition upsert_assignment :: "env \<Rightarrow> TenantContext \<Rightarrow> string \<Rightarrow> PolicyInput \<Rightarrow> int \<Rightarrow> db \<Rightarrow> app_error + string \<times> db" where
  "upsert_assignment E ctx caseId p displayOrder d =
     (let as = policyAssignments (planning d) in
      case find_first (\<lambda>a. pa_tenantId a = tenantId ctx \<and> pa_caseId a = caseId \<and> pa_caseTypeId a = pc_caseTypeId p) as of
        Some a \<Rightarrow>
          res_bind (date_given (pc_proposalDate p) (pa_proposalDate a)) (\<lambda>proposal.
          res_bind (date_given (pc_actualDate p) (pa_actualDate a)) (\<lambda>actual.
          Inr (pa_id a, put_assignments (fst (update_many (\<lambda>q. pa_id q = pa_id a)
            (\<lambda>q. q\<lparr>pa_deletedAt := None, pa_displayOrder := displayOrder, pa_proposalDate := proposal, pa_actualDate := actual\<rparr>) as)) d)))
      | None \<Rightarrow>
          res_bind (date_given (pc_proposalDate p) None) (\<lambda>proposal.
          res_bind (date_given (pc_actualDate p) None) (\<lambda>actual.
          Inr (ev_uuid E 0, put_assignments (as @ [\<lparr>pa_id = ev_uuid E 0, pa_tenantId = tenantId ctx, pa_caseId = caseId,
             pa_caseTypeId = pc_caseTypeId p, pa_proposalDate = proposal, pa_actualDate = actual, pa_displayOrder = displayOrder,
             pa_createdBy = Some (userId ctx), pa_deletedAt = None\<rparr>]) d))))"

text \<open>Selected components are revived or added, the others removed; the rows of the assignment are read once.\<close>

definition order_of :: "CaseTypeComponent list \<Rightarrow> string \<Rightarrow> int" where
  "order_of comps i = (case find_first (\<lambda>c. co_id c = i) comps of None \<Rightarrow> 0 | Some c \<Rightarrow> co_displayOrder c)"

fun select_components ::
  "env \<Rightarrow> nat \<Rightarrow> TenantContext \<Rightarrow> string \<Rightarrow> string \<Rightarrow> CaseTypeComponent list \<Rightarrow> DocCasePolicyComponent list \<Rightarrow> string list \<Rightarrow> db \<Rightarrow> db" where
  "select_components E k ctx caseId assignment comps rows [] d = d"
| "select_components E k ctx caseId assignment comps rows (i # is) d =
     select_components E (k + 1) ctx caseId assignment comps rows is
       (case find_first (\<lambda>s. sc_componentId s = i) rows of
          Some s \<Rightarrow>
            if sc_deletedAt s = None then d
            else put_selections (fst (update_many (\<lambda>q. sc_id q = sc_id s)
                   (\<lambda>q. q\<lparr>sc_deletedAt := None, sc_documentsMaterializedAt := None\<rparr>) (policySelections (planning d)))) d
        | None \<Rightarrow> put_selections (policySelections (planning d) @ [\<lparr>sc_id = ev_uuid E k, sc_tenantId = tenantId ctx, sc_caseId = caseId,
             sc_policyAssignmentId = assignment, sc_componentId = i, sc_displayOrder = order_of comps i, sc_documentsMaterializedAt = None,
             sc_createdBy = Some (userId ctx), sc_createdAt = ev_clock E k, sc_deletedAt = None\<rparr>]) d)"

fun deselect_components :: "env \<Rightarrow> nat \<Rightarrow> DocCasePolicyComponent list \<Rightarrow> string list \<Rightarrow> db \<Rightarrow> db" where
  "deselect_components E k [] incoming d = d"
| "deselect_components E k (s # ss) incoming d =
     deselect_components E (k + 1) ss incoming
       (if sc_deletedAt s = None \<and> sc_componentId s \<notin> set incoming
        then put_selections (fst (update_many (\<lambda>q. sc_id q = sc_id s) (\<lambda>q. q\<lparr>sc_deletedAt := Some (ev_clock E k)\<rparr>)
               (policySelections (planning d)))) d
        else d)"

definition assign_policy ::
  "env \<Rightarrow> TenantContext \<Rightarrow> string \<Rightarrow> string list \<Rightarrow> DocCasePolicyAssignment list \<Rightarrow> (string \<Rightarrow> bool) \<Rightarrow> PolicyInput \<Rightarrow> db \<Rightarrow> db \<Rightarrow> app_error + db" where
  "assign_policy E ctx caseId order current retains p d0 d =
     (case find_type ctx (pc_caseTypeId p) d of
        None \<Rightarrow> Inl ResourceNotFoundError
      | Some type \<Rightarrow>
          let retained = retains (pc_caseTypeId p);
              currentSel = (case assignment_for current (pc_caseTypeId p) of None \<Rightarrow> [] | Some a \<Rightarrow> selected_components a d0);
              incoming = incoming_of retained currentSel p
          in res_bind (check_selection ctx type retained currentSel incoming d) (\<lambda>_.
             res_bind (upsert_assignment E ctx caseId p (position (pc_caseTypeId p) order) d) (\<lambda>(assignment, d1).
             if retained \<and> sameSet incoming currentSel then Inr d1
             else
               let rows = filter (\<lambda>s. sc_tenantId s = tenantId ctx \<and> sc_policyAssignmentId s = assignment) (policySelections (planning d1));
                   d2 = select_components E 1 ctx caseId assignment (active_components ctx (pc_caseTypeId p) d) rows incoming d1
               in Inr (deselect_components E (1 + length incoming) rows incoming d2))))"

fun assign_each ::
  "(nat \<Rightarrow> env) \<Rightarrow> nat \<Rightarrow> TenantContext \<Rightarrow> string \<Rightarrow> string list \<Rightarrow> DocCasePolicyAssignment list \<Rightarrow> (string \<Rightarrow> bool) \<Rightarrow> PolicyInput list \<Rightarrow> db \<Rightarrow> db \<Rightarrow> app_error + db" where
  "assign_each Es n ctx caseId order current retains [] d0 d = Inr d"
| "assign_each Es n ctx caseId order current retains (p # ps) d0 d =
     res_bind (assign_policy (Es n) ctx caseId order current retains p d0 d) (\<lambda>d1.
     assign_each Es (n + 1) ctx caseId order current retains ps d0 d1)"

section \<open>The whole save\<close>

text \<open>An assignment that is no longer submitted is removed with its selections.\<close>

fun drop_assignments :: "env \<Rightarrow> nat \<Rightarrow> TenantContext \<Rightarrow> string list \<Rightarrow> DocCasePolicyAssignment list \<Rightarrow> db \<Rightarrow> db" where
  "drop_assignments E k ctx keep [] d = d"
| "drop_assignments E k ctx keep (a # as) d =
     drop_assignments E (k + 2) ctx keep as
       (if pa_caseTypeId a \<in> set keep then d
        else put_assignments (fst (update_many (\<lambda>q. pa_id q = pa_id a) (\<lambda>q. q\<lparr>pa_deletedAt := Some (ev_clock E (k + 1))\<rparr>)
               (policyAssignments (planning d))))
             (put_selections (fst (update_many (\<lambda>s. sc_tenantId s = tenantId ctx \<and> sc_policyAssignmentId s = pa_id a \<and> sc_deletedAt s = None)
               (\<lambda>s. s\<lparr>sc_deletedAt := Some (ev_clock E k)\<rparr>) (policySelections (planning d)))) d))"

definition assign_tx :: "(nat \<Rightarrow> env) \<Rightarrow> TenantContext \<Rightarrow> string \<Rightarrow> AssignPoliciesInput \<Rightarrow> string tx" where
  "assign_tx Es ctx caseId inp d =
     (let ids = map pc_caseTypeId (ap_policies inp) in
      res_bind (loadCase ctx caseId d) (\<lambda>docCase.
      res_bind (ensure (dc_status docCase \<in> set ASSIGN_ALLOWED_STATUSES)
         (BusinessRuleViolationError (''Policies cannot be assigned to a case with status '' @ status_name (dc_status docCase) @ ''.''))) (\<lambda>_.
      let current = current_assignments ctx caseId d;
          retains = (\<lambda>i. assignment_for current i \<noteq> None \<or> Some i = dc_caseTypeId docCase)
      in res_bind (ensure (list_all (\<lambda>i. find_type ctx i d \<noteq> None) ids) ResourceNotFoundError) (\<lambda>_.
         res_bind (ensure (list_all (\<lambda>i. retains i \<or> active_type ctx d i) ids) (BusinessRuleViolationError ''Policy must be ACTIVE.'')) (\<lambda>_.
         res_bind (choose_primary ctx inp d) (\<lambda>primary.
         res_bind (assign_each (\<lambda>n. Es (n + 5)) 0 ctx caseId (ordered_types primary (ap_policies inp)) current retains (ap_policies inp) d d) (\<lambda>d1.
         let d2 = syncPolicyDocuments Es ctx caseId (drop_assignments (Es 4) 0 ctx ids current d1)
         in res_bind (update_row (\<lambda>c. dc_id c = caseId) (\<lambda>c. c\<lparr>dc_caseTypeId := Some primary\<rparr>) (docCases d2)) (\<lambda>(_, cs).
            res_bind (audit_tx (Es 3) 1 ((audit_input (tenantId ctx) ''DOC_CASE_POLICY_ASSIGNMENT_UPDATED'' ''DocCase'' caseId (Some (userId ctx)) ''UPDATE''
                [(''primaryCaseTypeId'', JStr primary), (''caseTypeIds'', JArr (map JStr ids))])
                \<lparr>au_beforeState := JObj [(''caseTypeId'', jopt (dc_caseTypeId docCase))]\<rparr>)
              (recalcAndUpdateCase (Es 3) ctx caseId (d2\<lparr>docCases := cs\<rparr>))) (\<lambda>d3.
            Inr (primary, d3))))))))))"

text \<open>The primary policy of the case, without the final read of the whole case.\<close>

definition assignPolicies :: "(nat \<Rightarrow> env) \<Rightarrow> TenantContext \<Rightarrow> string \<Rightarrow> AssignPoliciesInput \<Rightarrow> string tx" where
  "assignPolicies Es ctx caseId inp d = res_bind (validate_assign caseId inp) (\<lambda>_. assign_tx Es ctx caseId inp d)"

end
