(* ===== verification/Policy_Props.thy ===== *)
theory Policy_Props
  imports Policy_Service
begin

text \<open>
  What the synchronisation of the policies of a case leaves: every document line of a selected
  component has a live requirement of its key linked to it, no two live requirements of a case share
  a key, and no active link points to a removed requirement.
\<close>

section \<open>One requirement for each key\<close>

definition live_doc :: "DocCaseDocument \<Rightarrow> bool" where
  "live_doc x \<longleftrightarrow> dd_deletedAt x = None"

definition keyed_once :: "DocCaseDocument list \<Rightarrow> bool" where
  "keyed_once xs \<longleftrightarrow> (\<forall>x \<in> set xs. \<forall>y \<in> set xs. live_doc x \<and> live_doc y \<and> dd_requirementDedupeKey x \<noteq> None
     \<and> dd_tenantId y = dd_tenantId x \<and> dd_caseId y = dd_caseId x \<and> dd_requirementDedupeKey y = dd_requirementDedupeKey x \<longrightarrow> x = y)"

definition on_id :: "string \<Rightarrow> (DocCaseDocument \<Rightarrow> DocCaseDocument) \<Rightarrow> DocCaseDocument list \<Rightarrow> DocCaseDocument list" where
  "on_id i f xs = map (\<lambda>x. if dd_id x = i then f x else x) xs"

lemma set_requirement_rows [simp]:
  "caseDocuments (set_requirement i f d) = on_id i f (caseDocuments d)" "planning (set_requirement i f d) = planning d"
  "documents (set_requirement i f d) = documents d" "caseEvents (set_requirement i f d) = caseEvents d"
  by (simp_all add: set_requirement_def update_many_def on_id_def)

lemma on_id_mem: "x \<in> set xs \<Longrightarrow> (if dd_id x = i then f x else x) \<in> set (on_id i f xs)"
  unfolding on_id_def set_map by (rule imageI)

lemma on_id_other: "x \<in> set xs \<Longrightarrow> dd_id x \<noteq> i \<Longrightarrow> x \<in> set (on_id i f xs)"
  using on_id_mem [of x xs i f] by simp

lemma on_idE:
  assumes "x \<in> set (on_id i f xs)"
  obtains (same) "x \<in> set xs" "dd_id x \<noteq> i" | (changed) y where "y \<in> set xs" "dd_id y = i" "x = f y"
  using assms by (auto simp: on_id_def split: if_splits)

lemma first_any: "find_first (\<lambda>_. True) xs = (case xs of [] \<Rightarrow> None | x # _ \<Rightarrow> Some x)"
  by (cases xs) simp_all

lemma find_first_True_Some: "find_first (\<lambda>_. True) xs = Some x \<Longrightarrow> x \<in> set xs"
  using find_first_SomeD by fast

lemma keyed_doc_Some: "keyed_doc ctx c key d = Some x \<Longrightarrow> x \<in> set (caseDocuments d) \<and> of_key ctx c key x \<and> live_doc x"
  unfolding keyed_doc_def by (drule find_first_True_Some) (simp add: live_doc_def)

lemma keyed_doc_None: "keyed_doc ctx c key d = None \<Longrightarrow> x \<in> set (caseDocuments d) \<Longrightarrow> of_key ctx c key x \<Longrightarrow> \<not> live_doc x"
  by (auto simp: keyed_doc_def find_first_None live_doc_def)

lemma revivable_doc_Some: "revivable_doc ctx c key d = Some x \<Longrightarrow> x \<in> set (caseDocuments d) \<and> of_key ctx c key x \<and> \<not> live_doc x"
  unfolding revivable_doc_def by (drule find_first_True_Some) (simp add: live_doc_def)

lemma manual_doc_Some: "manual_doc ctx c key d = Some x \<Longrightarrow> x \<in> set (caseDocuments d) \<and> adoptable ctx c x"
  unfolding manual_doc_def by (drule find_first_SomeD) simp

text \<open>What a change of the requirements must keep for the links and keys to stay sound.\<close>

definition evolved :: "DocCaseDocument list \<Rightarrow> DocCaseDocument list \<Rightarrow> bool" where
  "evolved xs xs' \<longleftrightarrow> (\<forall>x \<in> set xs. live_doc x \<and> dd_requirementDedupeKey x \<noteq> None \<longrightarrow> x \<in> set xs')
     \<and> (\<forall>x \<in> set xs'. \<not> live_doc x \<longrightarrow> x \<in> set xs)"

lemma unique_id:
  assumes "distinct (map dd_id xs)" "x \<in> set xs" "y \<in> set xs" "dd_id x = dd_id y"
  shows "x = y"
  using assms by (auto simp: distinct_map inj_on_def)

lemma merged_row_simps [simp]:
  "dd_id (merged_row E k ctx c p d) = ev_uuid E k" "live_doc (merged_row E k ctx c p d)" "of_key ctx c (merge_key p) (merged_row E k ctx c p d)"
  by (simp_all add: merged_row_def blank_requirement_def live_doc_def of_key_def)

lemma on_id_ids: "(\<And>x. dd_id (f x) = dd_id x) \<Longrightarrow> map dd_id (on_id i f xs) = map dd_id xs"
  by (simp add: on_id_def)

text \<open>Exactly one row of the key is live after one was found, revived, adopted or created.\<close>

lemma keyed_once_change:
  assumes "keyed_once xs" "distinct (map dd_id xs)" "x \<in> set xs" "\<And>y. y \<in> set xs \<Longrightarrow> of_key ctx c key y \<Longrightarrow> \<not> live_doc y"
    "of_key ctx c key (f x)"
  shows "keyed_once (on_id (dd_id x) f xs)"
  unfolding keyed_once_def
proof (intro ballI impI, elim conjE)
  fix y z
  assume y: "y \<in> set (on_id (dd_id x) f xs)" and z: "z \<in> set (on_id (dd_id x) f xs)"
    and l: "live_doc y" "live_doc z" "dd_requirementDedupeKey y \<noteq> None" "dd_tenantId z = dd_tenantId y" "dd_caseId z = dd_caseId y"
      "dd_requirementDedupeKey z = dd_requirementDedupeKey y"
  have one: "w = f x \<or> w \<in> set xs \<and> dd_id w \<noteq> dd_id x" if "w \<in> set (on_id (dd_id x) f xs)" for w
    using that
  proof (cases rule: on_idE)
    case (changed v)
    then have "v = x" using unique_id [OF assms(2) _ assms(3)] by simp
    with changed show ?thesis by simp
  qed simp
  have no: "\<not> of_key ctx c key w" if "w \<in> set xs" "live_doc w" for w using assms(4) that by blast
  consider "y = f x" "z = f x" | "y = f x" "z \<in> set xs" | "y \<in> set xs" "z = f x" | "y \<in> set xs" "z \<in> set xs" using one [OF y] one [OF z] by blast
  then show "y = z"
  proof cases
    case 2
    then have "of_key ctx c key z" using assms(5) l by (simp add: of_key_def)
    with no 2 l show ?thesis by blast
  next
    case 3
    then have "of_key ctx c key y" using assms(5) l by (simp add: of_key_def)
    with no 3 l show ?thesis by blast
  next
    case 4
    then show ?thesis using assms(1) l by (simp add: keyed_once_def)
  qed simp
qed

lemma shared_doc_rows:
  assumes "shared_doc E k ctx c p d = (i, d1)" "distinct (map dd_id (caseDocuments d))" "ev_uuid E k \<notin> dd_id ` set (caseDocuments d)"
  shows "planning d1 = planning d \<and> distinct (map dd_id (caseDocuments d1)) \<and> set (map dd_id (caseDocuments d1)) \<subseteq> insert (ev_uuid E k) (set (map dd_id (caseDocuments d)))
     \<and> evolved (caseDocuments d) (caseDocuments d1) \<and> (\<exists>x \<in> set (caseDocuments d1). dd_id x = i \<and> of_key ctx c (merge_key p) x \<and> live_doc x)
     \<and> (keyed_once (caseDocuments d) \<longrightarrow> keyed_once (caseDocuments d1))"
proof (cases "keyed_doc ctx c (merge_key p) d")
  case (Some x)
  then have "i = dd_id x" "d1 = d" using assms(1) by (simp_all add: shared_doc_def)
  then show ?thesis using assms(2) keyed_doc_Some [OF Some] by (auto simp: evolved_def)
next
  case none: None
  note dead = keyed_doc_None [OF none]
  let ?xs = "caseDocuments d"
  show ?thesis
  proof (cases "revivable_doc ctx c (merge_key p) d")
    case (Some x)
    note x = revivable_doc_Some [OF Some]
    let ?f = "\<lambda>y. y\<lparr>dd_deletedAt := None, dd_updatedAt := ev_clock E k\<rparr>"
    have i: "i = dd_id x" "d1 = set_requirement (dd_id x) ?f d" using assms(1) unfolding shared_doc_def none Some by auto
    have "evolved ?xs (on_id (dd_id x) ?f ?xs)"
      unfolding evolved_def
    proof (intro conjI ballI impI)
      fix y assume y: "y \<in> set ?xs" "live_doc y \<and> dd_requirementDedupeKey y \<noteq> None"
      then have "y \<noteq> x" using x by blast
      then have "dd_id y \<noteq> dd_id x" using unique_id [OF assms(2) y(1)] x by blast
      then show "y \<in> set (on_id (dd_id x) ?f ?xs)" using y(1) by (rule on_id_other [rotated])
    next
      fix y assume "y \<in> set (on_id (dd_id x) ?f ?xs)" "\<not> live_doc y"
      then show "y \<in> set ?xs" by (cases rule: on_idE) (simp_all add: live_doc_def)
    qed
    moreover have "?f x \<in> set (on_id (dd_id x) ?f ?xs)" using on_id_mem [of x ?xs "dd_id x" ?f] x by simp
    moreover have key: "of_key ctx c (merge_key p) (?f x)" "live_doc (?f x)" using x by (simp_all add: of_key_def live_doc_def)
    moreover have "keyed_once ?xs \<longrightarrow> keyed_once (on_id (dd_id x) ?f ?xs)"
      by (intro impI keyed_once_change [OF _ assms(2) conjunct1 [OF x], of ctx c "merge_key p"] dead key)
    moreover have "map dd_id (on_id (dd_id x) ?f ?xs) = map dd_id ?xs" by (rule on_id_ids) simp
    ultimately show ?thesis using i assms(2) by (auto intro!: bexI [of _ "?f x"])
  next
    case none2: None
    show ?thesis
    proof (cases "manual_doc ctx c (cd_dedupeKey p) d")
      case (Some x)
      note x = manual_doc_Some [OF Some]
      let ?f = "\<lambda>y. y\<lparr>dd_requirementDedupeKey := Some (merge_key p), dd_updatedAt := ev_clock E k\<rparr>"
      have i: "i = dd_id x" "d1 = set_requirement (dd_id x) ?f d" using assms(1) unfolding shared_doc_def none none2 Some by auto
      have "evolved ?xs (on_id (dd_id x) ?f ?xs)"
        unfolding evolved_def
      proof (intro conjI ballI impI)
        fix y assume y: "y \<in> set ?xs" "live_doc y \<and> dd_requirementDedupeKey y \<noteq> None"
        then have "y \<noteq> x" using x by (auto simp: adoptable_def)
        then have "dd_id y \<noteq> dd_id x" using unique_id [OF assms(2) y(1)] x by blast
        then show "y \<in> set (on_id (dd_id x) ?f ?xs)" using y(1) by (rule on_id_other [rotated])
      next
        fix y assume "y \<in> set (on_id (dd_id x) ?f ?xs)" "\<not> live_doc y"
        then show "y \<in> set ?xs"
        proof (cases rule: on_idE)
          case (changed v)
          then have "v = x" using unique_id [OF assms(2)] x by blast
          then show ?thesis using changed x \<open>\<not> live_doc y\<close> by (simp add: adoptable_def live_doc_def)
        qed simp
      qed
      moreover have "?f x \<in> set (on_id (dd_id x) ?f ?xs)" using on_id_mem [of x ?xs "dd_id x" ?f] x by simp
      moreover have key: "of_key ctx c (merge_key p) (?f x)" "live_doc (?f x)" using x by (simp_all add: of_key_def live_doc_def adoptable_def)
      moreover have "keyed_once ?xs \<longrightarrow> keyed_once (on_id (dd_id x) ?f ?xs)"
        by (intro impI keyed_once_change [OF _ assms(2) conjunct1 [OF x], of ctx c "merge_key p"] dead key)
      moreover have "map dd_id (on_id (dd_id x) ?f ?xs) = map dd_id ?xs" by (rule on_id_ids) simp
      ultimately show ?thesis using i assms(2) by (auto intro!: bexI [of _ "?f x"])
    next
      case None
      have i: "i = ev_uuid E k" "d1 = d\<lparr>caseDocuments := ?xs @ [merged_row E k ctx c p d]\<rparr>"
        using assms(1) unfolding shared_doc_def none none2 None by auto
      have "keyed_once ?xs \<longrightarrow> keyed_once (?xs @ [merged_row E k ctx c p d])"
      proof
        assume k: "keyed_once ?xs"
        have "\<not> (live_doc y \<and> of_key ctx c (merge_key p) y)" if "y \<in> set ?xs" for y using dead that by blast
        then show "keyed_once (?xs @ [merged_row E k ctx c p d])"
          using k merged_row_simps(3) [of ctx c p E k d] unfolding keyed_once_def of_key_def by auto
      qed
      then show ?thesis using i assms(2,3) by (auto simp: evolved_def)
    qed
  qed
qed

section \<open>Links\<close>

definition sources :: "db \<Rightarrow> DocCaseDocumentComponentSource list" where
  "sources d = componentSources (planning d)"

definition linked_live :: "TenantContext \<Rightarrow> db \<Rightarrow> bool" where
  "linked_live ctx d \<longleftrightarrow> (\<forall>l \<in> set (sources d). so_tenantId l = tenantId ctx \<and> so_deletedAt l = None
     \<longrightarrow> (\<forall>x \<in> set (caseDocuments d). dd_id x = so_documentId l \<longrightarrow> live_doc x))"

definition sound :: "TenantContext \<Rightarrow> db \<Rightarrow> bool" where
  "sound ctx d \<longleftrightarrow> distinct (map dd_id (caseDocuments d)) \<and> distinct (map so_id (sources d)) \<and> linked_live ctx d \<and> keyed_once (caseDocuments d)"

definition unused :: "env \<Rightarrow> nat \<Rightarrow> db \<Rightarrow> bool" where
  "unused E k d \<longleftrightarrow> inj (ev_uuid E) \<and> (\<forall>j \<ge> k. ev_uuid E j \<notin> set (map dd_id (caseDocuments d)) \<and> ev_uuid E j \<notin> set (map so_id (sources d)))"

text \<open>The line \<open>p\<close> of the selection \<open>s\<close> has a link to a live requirement of its key that was touched.\<close>

definition cover :: "TenantContext \<Rightarrow> string \<Rightarrow> string list \<Rightarrow> db \<Rightarrow> DocCasePolicyComponent \<Rightarrow> CaseTypeComponentDocument \<Rightarrow> bool" where
  "cover ctx c T d s p \<longleftrightarrow> (\<exists>l \<in> set (sources d). is_link ctx s p l \<and> so_deletedAt l = None \<and> so_isMandatoryAtLink l = cd_isMandatory p
     \<and> so_documentId l \<in> set T \<and> (\<exists>x \<in> set (caseDocuments d). dd_id x = so_documentId l \<and> of_key ctx c (merge_key p) x \<and> live_doc x))"

definition relinked :: "string \<Rightarrow> DocCasePolicyComponent \<Rightarrow> CaseTypeComponentDocument \<Rightarrow> DocCaseDocumentComponentSource \<Rightarrow> DocCaseDocumentComponentSource" where
  "relinked i s p q = q\<lparr>so_documentId := i, so_policyAssignmentId := sc_policyAssignmentId s, so_componentId := sc_componentId s,
     so_isMandatoryAtLink := cd_isMandatory p, so_displayOrderAtLink := cd_displayOrder p, so_deletedAt := None\<rparr>"

lemma relinked_simps [simp]:
  "so_id (relinked i s p q) = so_id q" "so_documentId (relinked i s p q) = i" "so_deletedAt (relinked i s p q) = None"
  "so_isMandatoryAtLink (relinked i s p q) = cd_isMandatory p" "is_link ctx s' p' (relinked i s p q) = is_link ctx s' p' q"
  by (simp_all add: relinked_def is_link_def)

lemma link_row_simps [simp]:
  "so_id (link_row E k ctx c s p i) = ev_uuid E k" "so_documentId (link_row E k ctx c s p i) = i" "so_deletedAt (link_row E k ctx c s p i) = None"
  "so_isMandatoryAtLink (link_row E k ctx c s p i) = cd_isMandatory p" "is_link ctx s p (link_row E k ctx c s p i)"
  by (simp_all add: link_row_def is_link_def)

lemma put_sources_rows [simp]:
  "sources (put_sources ls d) = ls" "caseDocuments (put_sources ls d) = caseDocuments d" "documents (put_sources ls d) = documents d"
  "componentDocuments (planning (put_sources ls d)) = componentDocuments (planning d)"
  "policySelections (planning (put_sources ls d)) = policySelections (planning d)"
  "policyAssignments (planning (put_sources ls d)) = policyAssignments (planning d)"
  by (simp_all add: put_sources_def sources_def)

lemma upsert_link_rows:
  assumes "distinct (map so_id (sources d))" "ev_uuid E k \<notin> set (map so_id (sources d))"
  shows "\<exists>ls. upsert_link E k ctx c s p i d = put_sources ls d \<and> distinct (map so_id ls) \<and> set (map so_id ls) \<subseteq> insert (ev_uuid E k) (set (map so_id (sources d)))
     \<and> (\<exists>l \<in> set ls. is_link ctx s p l \<and> so_deletedAt l = None \<and> so_isMandatoryAtLink l = cd_isMandatory p \<and> so_documentId l = i)
     \<and> (\<forall>l \<in> set (sources d). \<not> is_link ctx s p l \<longrightarrow> l \<in> set ls)
     \<and> (\<forall>l \<in> set ls. l \<in> set (sources d) \<or> so_documentId l = i)"
proof (cases "find_first (is_link ctx s p) (sources d)")
  case None
  have "upsert_link E k ctx c s p i d = put_sources (sources d @ [link_row E k ctx c s p i]) d"
    using None by (simp add: upsert_link_def sources_def)
  then show ?thesis using assms by (intro exI [of _ "sources d @ [link_row E k ctx c s p i]"]) simp
next
  case (Some l)
  let ?g = "\<lambda>q. if so_id q = so_id l then relinked i s p q else q"
  have l: "l \<in> set (sources d)" "is_link ctx s p l" using find_first_SomeD [OF Some] by simp_all
  have only: "q = l" if "q \<in> set (sources d)" "so_id q = so_id l" for q using assms(1) l(1) that by (auto simp: distinct_map inj_on_def)
  have up: "upsert_link E k ctx c s p i d = put_sources (map ?g (sources d)) d"
    unfolding relinked_def using Some by (simp add: upsert_link_def sources_def update_many_def)
  have ids: "map so_id (map ?g (sources d)) = map so_id (sources d)" by simp
  have mem: "?g q \<in> set (map ?g (sources d))" if "q \<in> set (sources d)" for q unfolding set_map by (rule imageI [OF that])
  show ?thesis
  proof (intro exI [of _ "map ?g (sources d)"] conjI)
    show "distinct (map so_id (map ?g (sources d)))" unfolding ids by (rule assms(1))
    show "set (map so_id (map ?g (sources d))) \<subseteq> insert (ev_uuid E k) (set (map so_id (sources d)))" unfolding ids by (rule subset_insertI)
    show "\<exists>l \<in> set (map ?g (sources d)). is_link ctx s p l \<and> so_deletedAt l = None \<and> so_isMandatoryAtLink l = cd_isMandatory p \<and> so_documentId l = i"
      using mem [OF l(1)] l(2) by (intro bexI [of _ "relinked i s p l"]) simp_all
    show "\<forall>q \<in> set (sources d). \<not> is_link ctx s p q \<longrightarrow> q \<in> set (map ?g (sources d))"
    proof (intro ballI impI)
      fix q assume q: "q \<in> set (sources d)" "\<not> is_link ctx s p q"
      then have "so_id q \<noteq> so_id l" using only l(2) by blast
      then show "q \<in> set (map ?g (sources d))" using mem [OF q(1)] by simp
    qed
    show "\<forall>q \<in> set (map ?g (sources d)). q \<in> set (sources d) \<or> so_documentId q = i" by auto
  qed (rule up)
qed

text \<open>One line materialised.\<close>

lemma materialize_step:
  assumes "materializePresetForSelection E k ctx c s p d = (i, d')" "sound ctx d" "unused E k d"
  shows "sound ctx d' \<and> unused E (k + 2) d' \<and> cover ctx c (touch i T) d' s p
     \<and> (\<forall>s2 p2. cover ctx c T d s2 p2 \<and> (cd_id p2 = cd_id p \<longrightarrow> p2 = p) \<longrightarrow> cover ctx c (touch i T) d' s2 p2)
     \<and> componentDocuments (planning d') = componentDocuments (planning d)"
proof -
  obtain i1 d1 where sd: "shared_doc E k ctx c p d = (i1, d1)" by (metis surj_pair)
  have i: "i1 = i" and d': "d' = upsert_link E (k + 1) ctx c s p i d1" using assms(1) unfolding materializePresetForSelection_def sd by auto
  have un: "ev_uuid E k \<notin> dd_id ` set (caseDocuments d)" "ev_uuid E (k + 1) \<notin> set (map so_id (sources d))"
    using assms(3) by (auto simp: unused_def)
  from shared_doc_rows [OF sd _ un(1)] assms(2) have rows: "planning d1 = planning d" "distinct (map dd_id (caseDocuments d1))"
    "set (map dd_id (caseDocuments d1)) \<subseteq> insert (ev_uuid E k) (set (map dd_id (caseDocuments d)))"
    "evolved (caseDocuments d) (caseDocuments d1)" "\<exists>x \<in> set (caseDocuments d1). dd_id x = i \<and> of_key ctx c (merge_key p) x \<and> live_doc x"
    "keyed_once (caseDocuments d1)"
    unfolding i sound_def by blast+
  have src1: "sources d1 = sources d" using rows(1) by (simp add: sources_def)
  have dso: "distinct (map so_id (sources d1))" using assms(2) src1 by (simp add: sound_def)
  have un2: "ev_uuid E (k + 1) \<notin> set (map so_id (sources d1))" using un(2) src1 by simp
  from upsert_link_rows [OF dso un2, of ctx c s p i] obtain ls where up: "d' = put_sources ls d1" and
    ls: "distinct (map so_id ls)" "set (map so_id ls) \<subseteq> insert (ev_uuid E (k + 1)) (set (map so_id (sources d)))"
    and made: "\<exists>l \<in> set ls. is_link ctx s p l \<and> so_deletedAt l = None \<and> so_isMandatoryAtLink l = cd_isMandatory p \<and> so_documentId l = i"
    and kept: "\<forall>l \<in> set (sources d). \<not> is_link ctx s p l \<longrightarrow> l \<in> set ls"
    and new: "\<forall>l \<in> set ls. l \<in> set (sources d) \<or> so_documentId l = i"
    unfolding src1 d' by (elim exE conjE)
  have cds: "caseDocuments d' = caseDocuments d1" "sources d' = ls" by (simp_all add: up)
  obtain x where x: "x \<in> set (caseDocuments d1)" "dd_id x = i" "of_key ctx c (merge_key p) x" "live_doc x" using rows(5) by blast
  have linked: "linked_live ctx d'"
    unfolding linked_live_def cds
  proof (intro ballI impI)
    fix l y assume l: "l \<in> set ls" "so_tenantId l = tenantId ctx \<and> so_deletedAt l = None" and y: "y \<in> set (caseDocuments d1)" "dd_id y = so_documentId l"
    from new l(1) consider "l \<in> set (sources d)" | "so_documentId l = i" by blast
    then show "live_doc y"
    proof cases
      case 1
      show ?thesis
      proof (rule ccontr)
        assume dead: "\<not> live_doc y"
        then have "y \<in> set (caseDocuments d)" using rows(4) y(1) by (simp add: evolved_def)
        then show False using assms(2) 1 l(2) y(2) dead by (simp add: sound_def linked_live_def)
      qed
    next
      case 2
      then have "y = x" using unique_id [OF rows(2) y(1) x(1)] x(2) y(2) by simp
      then show ?thesis using x(4) by simp
    qed
  qed
  have here: "cover ctx c (touch i T) d' s2 p" if "sc_id s2 = sc_id s" for s2
  proof -
    obtain l where l: "l \<in> set ls" "is_link ctx s p l" "so_deletedAt l = None" "so_isMandatoryAtLink l = cd_isMandatory p" "so_documentId l = i" using made by blast
    moreover have "is_link ctx s2 p l" using l(2) that by (simp add: is_link_def)
    moreover have "i \<in> set (touch i T)" by (simp add: touch_def)
    ultimately show ?thesis unfolding cover_def cds using x by blast
  qed
  have "cover ctx c (touch i T) d' s2 p2" if old: "cover ctx c T d s2 p2" "cd_id p2 = cd_id p \<longrightarrow> p2 = p" for s2 p2
  proof -
    from old(1) obtain l y where l: "l \<in> set (sources d)" "is_link ctx s2 p2 l" "so_deletedAt l = None" "so_isMandatoryAtLink l = cd_isMandatory p2"
      "so_documentId l \<in> set T" and y: "y \<in> set (caseDocuments d)" "dd_id y = so_documentId l" "of_key ctx c (merge_key p2) y" "live_doc y"
      by (auto simp: cover_def)
    show ?thesis
    proof (cases "is_link ctx s p l")
      case True
      have same: "sc_id s2 = sc_id s" "cd_id p2 = cd_id p" using True l(2) unfolding is_link_def by simp_all
      have "p2 = p" using old(2) same(2) by (rule mp)
      then show ?thesis using here [OF same(1)] by (simp only:)
    next
      case False
      then have "l \<in> set ls" using kept l(1) by blast
      moreover have "y \<in> set (caseDocuments d1)" using rows(4) y by (simp add: evolved_def of_key_def)
      moreover have "so_documentId l \<in> set (touch i T)" using l(5) by (simp add: touch_def)
      ultimately show ?thesis unfolding cover_def cds using l(2-4) y(2-4) by blast
    qed
  qed
  moreover have "sound ctx d'" using linked ls(1) rows(2,6) by (simp add: sound_def cds)
  moreover have "unused E (k + 2) d'"
  proof -
    have inj: "inj (ev_uuid E)" using assms(3) by (simp add: unused_def)
    have "ev_uuid E j \<notin> set (map dd_id (caseDocuments d1)) \<and> ev_uuid E j \<notin> set (map so_id ls)" if j: "k + 2 \<le> j" for j
    proof -
      have "ev_uuid E j \<noteq> ev_uuid E k" "ev_uuid E j \<noteq> ev_uuid E (k + 1)" using inj j by (simp_all add: inj_eq)
      moreover have "ev_uuid E j \<notin> set (map dd_id (caseDocuments d))" "ev_uuid E j \<notin> set (map so_id (sources d))" using assms(3) j by (simp_all add: unused_def)
      ultimately show ?thesis using rows(3) ls(2) by blast
    qed
    then show ?thesis using inj by (simp add: unused_def cds)
  qed
  moreover have "componentDocuments (planning d') = componentDocuments (planning d)" using rows(1) by (simp add: up)
  ultimately show ?thesis using here [OF refl] by blast
qed

text \<open>All lines of all selections.\<close>

definition same_presets :: "db \<Rightarrow> bool" where
  "same_presets d \<longleftrightarrow> distinct (map cd_id (componentDocuments (planning d)))"

lemma preset_by_id:
  assumes "same_presets d" "p \<in> set (presets_of ctx a d)" "q \<in> set (presets_of ctx b d)" "cd_id p = cd_id q"
  shows "p = q"
  using assms by (auto simp: same_presets_def presets_of_def distinct_map inj_on_def)

lemma presets_of_cong: "componentDocuments (planning d') = componentDocuments (planning d) \<Longrightarrow> presets_of ctx a d' = presets_of ctx a d"
  by (simp add: presets_of_def)

text \<open>What a phase keeps: soundness, the catalogue, unused ids, and every line covered before.\<close>

definition phase_kept :: "TenantContext \<Rightarrow> string \<Rightarrow> env \<Rightarrow> nat \<Rightarrow> string list \<Rightarrow> string list \<Rightarrow> db \<Rightarrow> db \<Rightarrow> bool" where
  "phase_kept ctx c E k T T' d d' \<longleftrightarrow> sound ctx d' \<and> unused E k d' \<and> componentDocuments (planning d') = componentDocuments (planning d)
     \<and> (\<forall>s a. \<forall>p \<in> set (presets_of ctx a d). cover ctx c T d s p \<longrightarrow> cover ctx c T' d' s p)"

lemma materialize_presets_covers:
  assumes "materialize_presets E k ctx c s ps T d = (T', d')" "sound ctx d" "unused E k d" "same_presets d" "set ps \<subseteq> set (presets_of ctx a d)"
  shows "phase_kept ctx c E (k + 2 * length ps) T T' d d' \<and> (\<forall>p \<in> set ps. cover ctx c T' d' s p)"
  using assms
proof (induction ps arbitrary: k T d)
  case Nil
  then show ?case by (simp add: phase_kept_def)
next
  case (Cons p ps)
  obtain i d1 where m: "materializePresetForSelection E k ctx c s p d = (i, d1)" by (metis surj_pair)
  from Cons.prems(1) have r: "materialize_presets E (k + 2) ctx c s ps (touch i T) d1 = (T', d')" by (simp add: m)
  note st = materialize_step [OF m Cons.prems(2,3), of T]
  have cat: "componentDocuments (planning d1) = componentDocuments (planning d)" using st by blast
  have same: "same_presets d1" using Cons.prems(4) cat by (simp add: same_presets_def)
  have sub: "set ps \<subseteq> set (presets_of ctx a d1)" using Cons.prems(5) presets_of_cong [OF cat] by simp
  have ih: "phase_kept ctx c E (k + 2 + 2 * length ps) (touch i T) T' d1 d' \<and> (\<forall>p \<in> set ps. cover ctx c T' d' s p)"
    by (rule Cons.IH [OF r _ _ same sub]) (use st in blast)+
  have p: "p \<in> set (presets_of ctx a d)" using Cons.prems(5) by simp
  have keep: "cover ctx c (touch i T) d1 s2 q" if "q \<in> set (presets_of ctx b d)" "cover ctx c T d s2 q" for s2 b q
  proof -
    have "cd_id q = cd_id p \<longrightarrow> q = p" using preset_by_id [OF Cons.prems(4) that(1) p] by blast
    with st that(2) show ?thesis by blast
  qed
  have all: "\<forall>s2 b. \<forall>q \<in> set (presets_of ctx b d). cover ctx c (touch i T) d1 s2 q \<longrightarrow> cover ctx c T' d' s2 q"
    using ih presets_of_cong [OF cat] by (simp add: phase_kept_def)
  have here: "cover ctx c T' d' s p" using all p st by blast
  have "\<forall>s2 b. \<forall>q \<in> set (presets_of ctx b d). cover ctx c T d s2 q \<longrightarrow> cover ctx c T' d' s2 q"
    using all keep by blast
  then show ?case using ih here cat by (simp add: phase_kept_def algebra_simps)
qed

lemma mark_materialized_rows [simp]:
  "caseDocuments (mark_materialized E k s d) = caseDocuments d" "sources (mark_materialized E k s d) = sources d"
  "componentDocuments (planning (mark_materialized E k s d)) = componentDocuments (planning d)"
  by (simp_all add: mark_materialized_def put_selections_def sources_def)

lemma mark_cover [simp]: "cover ctx c T (mark_materialized E k s d) s2 p = cover ctx c T d s2 p"
  by (simp add: cover_def)

lemma mark_sound [simp]: "sound ctx (mark_materialized E k s d) = sound ctx d" "unused E j (mark_materialized E k s d) = unused E j d"
  by (simp_all add: sound_def linked_live_def unused_def)

lemma unused_mono: "unused E k d \<Longrightarrow> k \<le> j \<Longrightarrow> unused E j d"
  by (simp add: unused_def)

lemma materialize_selections_covers:
  assumes "materialize_selections E k ctx c ss T d = (T', d')" "sound ctx d" "unused E k d" "same_presets d"
  shows "sound ctx d' \<and> componentDocuments (planning d') = componentDocuments (planning d)
     \<and> (\<forall>s a. \<forall>p \<in> set (presets_of ctx a d). cover ctx c T d s p \<longrightarrow> cover ctx c T' d' s p)
     \<and> (\<forall>s \<in> set ss. \<forall>p \<in> set (presets_of ctx (sc_componentId s) d). cover ctx c T' d' s p)"
  using assms
proof (induction ss arbitrary: k T d)
  case Nil
  then show ?case by simp
next
  case (Cons s ss)
  let ?ps = "presets_of ctx (sc_componentId s) d"
  obtain T1 d1 where m: "materialize_presets E k ctx c s ?ps T d = (T1, d1)" by (metis surj_pair)
  let ?d2 = "mark_materialized E (k + 2 * length ?ps) s d1"
  from Cons.prems(1) have r: "materialize_selections E (k + 2 * length ?ps + 1) ctx c ss T1 ?d2 = (T', d')" by (simp add: m Let_def)
  have st: "phase_kept ctx c E (k + 2 * length ?ps) T T1 d d1 \<and> (\<forall>p \<in> set ?ps. cover ctx c T1 d1 s p)"
    by (rule materialize_presets_covers [OF m Cons.prems(2-4) subset_refl])
  have cat: "componentDocuments (planning ?d2) = componentDocuments (planning d)" using st by (simp add: phase_kept_def)
  have same: "same_presets ?d2" using Cons.prems(4) cat by (simp add: same_presets_def)
  have snd2: "sound ctx ?d2" using st by (simp add: phase_kept_def)
  have un2: "unused E (k + 2 * length ?ps + 1) ?d2" using st unused_mono [of E "k + 2 * length ?ps" d1] by (simp add: phase_kept_def)
  note ih = Cons.IH [OF r snd2 un2 same, unfolded presets_of_cong [OF cat] cat mark_cover]
  have old: "\<forall>s2 a. \<forall>p \<in> set (presets_of ctx a d). cover ctx c T d s2 p \<longrightarrow> cover ctx c T1 d1 s2 p"
    using st by (simp add: phase_kept_def)
  have "cover ctx c T' d' s p" if "p \<in> set ?ps" for p using st ih that by blast
  moreover have "\<forall>s2 a. \<forall>p \<in> set (presets_of ctx a d). cover ctx c T d s2 p \<longrightarrow> cover ctx c T' d' s2 p" using old ih by blast
  ultimately show ?case using ih by simp
qed

section \<open>Removing links\<close>

text \<open>Phase A only removes links.\<close>

definition shrunk :: "db \<Rightarrow> db \<Rightarrow> bool" where
  "shrunk d d' \<longleftrightarrow> caseDocuments d' = caseDocuments d \<and> policySelections (planning d') = policySelections (planning d)
     \<and> policyAssignments (planning d') = policyAssignments (planning d) \<and> componentDocuments (planning d') = componentDocuments (planning d)
     \<and> documents d' = documents d \<and> storageRefs (planning d') = storageRefs (planning d) \<and> caseEvents d' = caseEvents d
     \<and> map so_id (sources d') = map so_id (sources d) \<and> (\<forall>l \<in> set (sources d'). so_deletedAt l = None \<longrightarrow> l \<in> set (sources d))"

lemma shrunk_refl: "shrunk d d"
  by (simp add: shrunk_def)

lemma shrunk_trans: "shrunk d d1 \<Longrightarrow> shrunk d1 d2 \<Longrightarrow> shrunk d d2"
  by (simp add: shrunk_def)

lemma put_sources_beside [simp]:
  "documents (put_sources ls d) = documents d" "storageRefs (planning (put_sources ls d)) = storageRefs (planning d)"
  "caseEvents (put_sources ls d) = caseEvents d"
  by (simp_all add: put_sources_def)

lemma drop_links_shrunk: "shrunk d (drop_links E k ls d)"
proof (induction ls arbitrary: k d)
  case Nil
  then show ?case by (simp add: shrunk_refl)
next
  case (Cons l ls)
  let ?g = "\<lambda>q. if so_id q = so_id l then q\<lparr>so_deletedAt := Some (ev_clock E k)\<rparr> else q"
  have "shrunk d (put_sources (map ?g (sources d)) d)"
    by (auto simp: shrunk_def)
  then have "shrunk d (put_sources (fst (update_many (\<lambda>q. so_id q = so_id l) (\<lambda>q. q\<lparr>so_deletedAt := Some (ev_clock E k)\<rparr>) (componentSources (planning d)))) d)"
    by (simp add: update_many_def sources_def)
  from shrunk_trans [OF this Cons.IH] show ?case by simp
qed

lemma drop_selections_shrunk: "drop_selections E k ctx c ss T d = (T', d') \<Longrightarrow> shrunk d d'"
proof (induction ss arbitrary: k T d)
  case Nil
  then show ?case by (simp add: shrunk_refl)
next
  case (Cons s ss)
  let ?d1 = "drop_links E k (links_of ctx s d) d"
  have "shrunk ?d1 d'" by (rule Cons.IH) (use Cons.prems in \<open>simp add: Let_def\<close>)
  then show ?case by (rule shrunk_trans [OF drop_links_shrunk])
qed

lemma shrunk_sound:
  assumes "shrunk d d'" "sound ctx d"
  shows "sound ctx d'"
proof -
  have "linked_live ctx d'"
    using assms unfolding sound_def linked_live_def shrunk_def by metis
  then show ?thesis using assms by (simp add: sound_def shrunk_def)
qed

lemma shrunk_unused: "shrunk d d' \<Longrightarrow> unused E k d \<Longrightarrow> unused E k d'"
  by (simp add: shrunk_def unused_def del: set_map)

lemma shrunk_lists:
  "shrunk d d' \<Longrightarrow> active_selections ctx c d' = active_selections ctx c d \<and> presets_of ctx a d' = presets_of ctx a d"
  by (simp add: shrunk_def active_selections_def selections_of_def assignment_order_def presets_of_def)

section \<open>Reconciliation\<close>

lemma keyed_once_on_id:
  assumes "keyed_once xs" "\<And>x. dd_tenantId (f x) = dd_tenantId x \<and> dd_caseId (f x) = dd_caseId x
     \<and> dd_requirementDedupeKey (f x) = dd_requirementDedupeKey x" "\<And>x. x \<in> set xs \<Longrightarrow> dd_id x = i \<Longrightarrow> live_doc (f x) \<Longrightarrow> live_doc x"
  shows "keyed_once (on_id i f xs)"
  unfolding keyed_once_def
proof (intro ballI impI, elim conjE)
  fix x y
  assume x: "x \<in> set (on_id i f xs)" and y: "y \<in> set (on_id i f xs)" and l: "live_doc x" "live_doc y" "dd_requirementDedupeKey x \<noteq> None"
    "dd_tenantId y = dd_tenantId x" "dd_caseId y = dd_caseId x" "dd_requirementDedupeKey y = dd_requirementDedupeKey x"
  have from_old: "\<exists>v \<in> set xs. w = (if dd_id v = i then f v else v) \<and> live_doc v \<and> dd_tenantId v = dd_tenantId w \<and> dd_caseId v = dd_caseId w
      \<and> dd_requirementDedupeKey v = dd_requirementDedupeKey w" if "w \<in> set (on_id i f xs)" "live_doc w" for w
    using that(1)
  proof (cases rule: on_idE)
    case same
    then show ?thesis using that(2) by (intro bexI [of _ w]) simp_all
  next
    case (changed v)
    then have "live_doc v" using assms(3) that(2) by blast
    with changed show ?thesis using assms(2) [of v] by (intro bexI [of _ v]) simp_all
  qed
  from from_old [OF x l(1)] obtain v where v: "v \<in> set xs" "x = (if dd_id v = i then f v else v)" "live_doc v" "dd_tenantId v = dd_tenantId x"
    "dd_caseId v = dd_caseId x" "dd_requirementDedupeKey v = dd_requirementDedupeKey x" by blast
  from from_old [OF y l(2)] obtain w where w: "w \<in> set xs" "y = (if dd_id w = i then f w else w)" "live_doc w" "dd_tenantId w = dd_tenantId y"
    "dd_caseId w = dd_caseId y" "dd_requirementDedupeKey w = dd_requirementDedupeKey y" by blast
  have "live_doc v \<and> live_doc w \<and> dd_requirementDedupeKey v \<noteq> None \<and> dd_tenantId w = dd_tenantId v \<and> dd_caseId w = dd_caseId v
      \<and> dd_requirementDedupeKey w = dd_requirementDedupeKey v"
    using v(3-6) w(3-6) l(3-6) by (simp only: simp_thms)
  then have "v = w" using assms(1) v(1) w(1) unfolding keyed_once_def by blast
  then show "x = y" using v(2) w(2) by (simp only:)
qed

text \<open>A write by id that keeps the row in place, and revives it only if it was live.\<close>

definition tidy :: "(DocCaseDocument \<Rightarrow> DocCaseDocument) \<Rightarrow> bool" where
  "tidy f \<longleftrightarrow> (\<forall>x. dd_id (f x) = dd_id x \<and> dd_tenantId (f x) = dd_tenantId x \<and> dd_caseId (f x) = dd_caseId x
     \<and> dd_requirementDedupeKey (f x) = dd_requirementDedupeKey x)"

lemma tidy_sound:
  assumes "sound ctx d" "tidy f" "\<And>x. x \<in> set (caseDocuments d) \<Longrightarrow> dd_id x = i \<Longrightarrow> live_doc (f x) \<Longrightarrow> live_doc x"
    "sources_of ctx i d \<noteq> [] \<Longrightarrow> (\<And>x. live_doc x \<Longrightarrow> live_doc (f x))"
  shows "sound ctx (set_requirement i f d)"
proof -
  let ?xs = "caseDocuments d"
  have src: "sources (set_requirement i f d) = sources d" by (simp add: sources_def)
  have "keyed_once (on_id i f ?xs)"
    by (rule keyed_once_on_id) (use assms(1-3) in \<open>simp_all add: sound_def tidy_def\<close>)
  moreover have "map dd_id (on_id i f ?xs) = map dd_id ?xs" by (rule on_id_ids) (use assms(2) in \<open>simp add: tidy_def\<close>)
  moreover have "linked_live ctx (set_requirement i f d)"
    unfolding linked_live_def src set_requirement_rows
  proof (intro ballI impI)
    fix l x assume l: "l \<in> set (sources d)" "so_tenantId l = tenantId ctx \<and> so_deletedAt l = None"
      and x: "x \<in> set (on_id i f ?xs)" "dd_id x = so_documentId l"
    have old: "live_doc y" if "y \<in> set ?xs" "dd_id y = so_documentId l" for y
      using assms(1) l that by (simp add: sound_def linked_live_def)
    from x(1) show "live_doc x"
    proof (cases rule: on_idE)
      case same
      then show ?thesis using old x(2) by blast
    next
      case (changed y)
      then have y: "dd_id y = so_documentId l" "dd_id y = i" using x(2) assms(2) by (simp_all add: tidy_def)
      have "l \<in> set (sources_of ctx i d)" using l y by (simp add: sources_of_def flip: sources_def)
      then have "sources_of ctx i d \<noteq> []" by auto
      from assms(4) [OF this old [OF changed(1) y(1)]] show ?thesis using changed(3) by simp
    qed
  qed
  ultimately show ?thesis using assms(1) src by (simp add: sound_def)
qed

text \<open>All of a requirement but the three columns the synchronisation may set in it, and the rows of other
  tables it looks at before it removes one; a requirement something happened to stays.\<close>

definition bare :: "DocCaseDocument \<Rightarrow> DocCaseDocument" where
  "bare x = x\<lparr>dd_isMandatory := False, dd_requirementDedupeKey := None, dd_updatedAt := 0\<rparr>"

definition side :: "db \<Rightarrow> Document list \<times> DocStorageRef list \<times> DocCaseEvent list" where
  "side d = (documents d, storageRefs (planning d), caseEvents d)"

lemma bare_cols:
  assumes "bare x = bare y"
  shows "dd_id x = dd_id y" "dd_notes x = dd_notes y" "dd_clientVisible x = dd_clientVisible y" "dd_clientVisibleAt x = dd_clientVisibleAt y"
    "dd_receivedAt x = dd_receivedAt y" "dd_verifiedAt x = dd_verifiedAt y" "dd_isWaived x = dd_isWaived y" "dd_status x = dd_status y"
    "dd_deletedAt x = dd_deletedAt y"
  using arg_cong [where f = dd_id, OF assms] arg_cong [where f = dd_notes, OF assms] arg_cong [where f = dd_clientVisible, OF assms]
    arg_cong [where f = dd_clientVisibleAt, OF assms] arg_cong [where f = dd_receivedAt, OF assms] arg_cong [where f = dd_verifiedAt, OF assms]
    arg_cong [where f = dd_isWaived, OF assms] arg_cong [where f = dd_status, OF assms] arg_cong [where f = dd_deletedAt, OF assms]
  by (simp_all add: bare_def)

lemma untouched_bare: "bare x = bare y \<Longrightarrow> side d = side d' \<Longrightarrow> untouched ctx x d = untouched ctx y d'"
  by (simp only: untouched_def side_def prod.inject bare_cols [of x y])

definition keeps_work :: "TenantContext \<Rightarrow> db \<Rightarrow> DocCaseDocument list \<Rightarrow> DocCaseDocument list \<Rightarrow> bool" where
  "keeps_work ctx d0 xs xs' \<longleftrightarrow>
     (\<forall>x \<in> set xs. live_doc x \<and> \<not> untouched ctx x d0 \<longrightarrow> (\<exists>x' \<in> set xs'. bare x' = bare x))"

lemma live_bare: "bare x = bare y \<Longrightarrow> live_doc x = live_doc y"
  by (simp only: live_doc_def bare_cols(9) [of x y])

lemma keeps_work_refl: "keeps_work ctx d0 xs xs"
  unfolding keeps_work_def by blast

lemma keeps_work_trans: "keeps_work ctx d0 xs ys \<Longrightarrow> keeps_work ctx d0 ys zs \<Longrightarrow> keeps_work ctx d0 xs zs"
  unfolding keeps_work_def
proof (intro ballI impI)
  fix x assume a: "\<forall>x \<in> set xs. live_doc x \<and> \<not> untouched ctx x d0 \<longrightarrow> (\<exists>x' \<in> set ys. bare x' = bare x)"
    "\<forall>x \<in> set ys. live_doc x \<and> \<not> untouched ctx x d0 \<longrightarrow> (\<exists>x' \<in> set zs. bare x' = bare x)" "x \<in> set xs" "live_doc x \<and> \<not> untouched ctx x d0"
  then obtain y where y: "y \<in> set ys" "bare y = bare x" by blast
  have "live_doc y \<and> \<not> untouched ctx y d0" using a(4) live_bare [OF y(2)] untouched_bare [OF y(2) refl] by simp
  with a(2) y(1) obtain z where "z \<in> set zs" "bare z = bare y" by blast
  then show "\<exists>x' \<in> set zs. bare x' = bare x" unfolding y(2) by (rule bexI [rotated])
qed

lemma keeps_work_snoc: "keeps_work ctx d0 xs (xs @ ys)"
  unfolding keeps_work_def by (metis UnCI set_append)

lemma keeps_work_on_id:
  assumes "\<And>x. x \<in> set xs \<Longrightarrow> dd_id x = i \<Longrightarrow> live_doc x \<Longrightarrow> \<not> untouched ctx x d0 \<Longrightarrow> bare (f x) = bare x"
  shows "keeps_work ctx d0 xs (on_id i f xs)"
  unfolding keeps_work_def
proof (intro ballI impI)
  fix x assume x: "x \<in> set xs" "live_doc x \<and> \<not> untouched ctx x d0"
  show "\<exists>x' \<in> set (on_id i f xs). bare x' = bare x"
    by (rule bexI [OF _ on_id_mem [OF x(1)]]) (use assms [OF x(1)] x(2) in simp)
qed

lemma shared_doc_work:
  assumes "shared_doc E k ctx c p d = (i, d1)"
  shows "keeps_work ctx d0 (caseDocuments d) (caseDocuments d1)"
proof (cases "keyed_doc ctx c (merge_key p) d")
  case (Some x)
  then have "d1 = d" using assms unfolding shared_doc_def Some by auto
  then show ?thesis by (simp add: keeps_work_refl)
next
  case none: None
  show ?thesis
  proof (cases "revivable_doc ctx c (merge_key p) d")
    case (Some x)
    then have "d1 = set_requirement (dd_id x) (\<lambda>y. y\<lparr>dd_deletedAt := None, dd_updatedAt := ev_clock E k\<rparr>) d"
      using assms unfolding shared_doc_def none Some by auto
    then show ?thesis by (simp only: set_requirement_rows) (rule keeps_work_on_id, simp add: bare_def live_doc_def)
  next
    case none2: None
    show ?thesis
    proof (cases "manual_doc ctx c (cd_dedupeKey p) d")
      case (Some x)
      then have "d1 = set_requirement (dd_id x) (\<lambda>y. y\<lparr>dd_requirementDedupeKey := Some (merge_key p), dd_updatedAt := ev_clock E k\<rparr>) d"
        using assms unfolding shared_doc_def none none2 Some by auto
      then show ?thesis by (simp only: set_requirement_rows) (rule keeps_work_on_id, simp add: bare_def live_doc_def)
    next
      case None
      then have "d1 = d\<lparr>caseDocuments := caseDocuments d @ [merged_row E k ctx c p d]\<rparr>"
        using assms unfolding shared_doc_def none none2 None by auto
      then show ?thesis by (simp add: keeps_work_snoc)
    qed
  qed
qed

lemma upsert_link_docs: "caseDocuments (upsert_link E k ctx c s p i d) = caseDocuments d"
  by (simp add: upsert_link_def Let_def split: option.splits)

lemma materialize_presets_work:
  "materialize_presets E k ctx c s ps T d = (T', d') \<Longrightarrow> keeps_work ctx d0 (caseDocuments d) (caseDocuments d')"
proof (induction ps arbitrary: k T d)
  case Nil
  then show ?case by (simp add: keeps_work_refl)
next
  case (Cons p ps)
  obtain i d1 where sd: "shared_doc E k ctx c p d = (i, d1)" by (metis surj_pair)
  let ?d2 = "upsert_link E (k + 1) ctx c s p i d1"
  have "keeps_work ctx d0 (caseDocuments ?d2) (caseDocuments d')"
    by (rule Cons.IH) (use Cons.prems sd in \<open>simp add: materializePresetForSelection_def\<close>)
  then show ?case using keeps_work_trans [OF shared_doc_work [OF sd]] by (simp add: upsert_link_docs)
qed

lemma materialize_selections_work:
  "materialize_selections E k ctx c ss T d = (T', d') \<Longrightarrow> keeps_work ctx d0 (caseDocuments d) (caseDocuments d')"
proof (induction ss arbitrary: k T d)
  case Nil
  then show ?case by (simp add: keeps_work_refl)
next
  case (Cons s ss)
  let ?ps = "presets_of ctx (sc_componentId s) d"
  obtain T1 d1 where m: "materialize_presets E k ctx c s ?ps T d = (T1, d1)" by (metis surj_pair)
  let ?d2 = "mark_materialized E (k + 2 * length ?ps) s d1"
  have "keeps_work ctx d0 (caseDocuments ?d2) (caseDocuments d')" by (rule Cons.IH) (use Cons.prems m in \<open>simp add: Let_def\<close>)
  then show ?case using keeps_work_trans [OF materialize_presets_work [OF m]] by simp
qed

text \<open>One requirement reconciled.\<close>

definition reconciled_cover :: "TenantContext \<Rightarrow> string \<Rightarrow> string list \<Rightarrow> string set \<Rightarrow> db \<Rightarrow> DocCasePolicyComponent \<Rightarrow> CaseTypeComponentDocument \<Rightarrow> bool" where
  "reconciled_cover ctx c T D d s p \<longleftrightarrow> (\<exists>l \<in> set (sources d). is_link ctx s p l \<and> so_deletedAt l = None \<and> so_isMandatoryAtLink l = cd_isMandatory p
     \<and> so_documentId l \<in> set T \<and> (\<exists>x \<in> set (caseDocuments d). dd_id x = so_documentId l \<and> of_key ctx c (merge_key p) x \<and> live_doc x
        \<and> (so_documentId l \<in> D \<and> cd_isMandatory p \<longrightarrow> dd_isMandatory x)))"

lemma cover_reconciled: "cover ctx c T d s p \<Longrightarrow> reconciled_cover ctx c T {} d s p"
  unfolding cover_def reconciled_cover_def by simp

definition recounted :: "env \<Rightarrow> nat \<Rightarrow> DocCaseDocumentComponentSource list \<Rightarrow> DocCaseDocument \<Rightarrow> DocCaseDocument" where
  "recounted E k ls y = y\<lparr>dd_isMandatory := list_ex so_isMandatoryAtLink ls, dd_deletedAt := None, dd_updatedAt := ev_clock E k\<rparr>"

definition optional :: "env \<Rightarrow> nat \<Rightarrow> DocCaseDocument \<Rightarrow> DocCaseDocument" where
  "optional E k y = y\<lparr>dd_isMandatory := False, dd_updatedAt := ev_clock E k\<rparr>"

definition retired :: "env \<Rightarrow> nat \<Rightarrow> DocCaseDocument \<Rightarrow> DocCaseDocument" where
  "retired E k y = y\<lparr>dd_deletedAt := Some (ev_clock E (k + 1)), dd_updatedAt := ev_clock E (k + 1)\<rparr>"

lemma side_set_requirement [simp]: "side (set_requirement i f d) = side d"
  by (simp add: side_def set_requirement_def)

lemma reconcile_cases:
  obtains (none) "\<forall>x \<in> set (caseDocuments d). \<not> (dd_id x = i \<and> dd_tenantId x = tenantId ctx)" "reconcilePolicyDocument E k ctx i d = d"
  | (linked) "sources_of ctx i d \<noteq> []" "reconcilePolicyDocument E k ctx i d = set_requirement i (recounted E k (sources_of ctx i d)) d"
  | (kept) "sources_of ctx i d = []" "reconcilePolicyDocument E k ctx i d = set_requirement i (optional E k) d"
  | (gone) x where "sources_of ctx i d = []" "x \<in> set (caseDocuments d)" "dd_id x = i" "untouched ctx x d"
      "reconcilePolicyDocument E k ctx i d = set_requirement i (retired E k) (set_requirement i (optional E k) d)"
proof (cases "find_first (\<lambda>x. dd_id x = i \<and> dd_tenantId x = tenantId ctx) (caseDocuments d)")
  case None
  have "reconcilePolicyDocument E k ctx i d = d" unfolding reconcilePolicyDocument_def None option.case ..
  then show ?thesis using that(1) None unfolding find_first_None by simp
next
  case (Some x)
  note x = find_first_SomeD [OF Some]
  have form: "reconcilePolicyDocument E k ctx i d =
      (if sources_of ctx i d \<noteq> [] then set_requirement i (recounted E k (sources_of ctx i d)) d
       else if \<not> (dd_isComponentMerged x \<or> dd_policyComponentId x \<noteq> None) \<or> falsy (dd_requirementDedupeKey x) \<or> dd_deletedAt x \<noteq> None
       then set_requirement i (optional E k) d
       else if untouched ctx x (set_requirement i (optional E k) d)
       then set_requirement i (retired E k) (set_requirement i (optional E k) d) else set_requirement i (optional E k) d)"
    unfolding reconcilePolicyDocument_def Some option.case Let_def recounted_def [abs_def] optional_def [abs_def] retired_def [abs_def] ..
  show ?thesis
  proof (cases "sources_of ctx i d = []")
    case False
    with form that(2) show ?thesis by simp
  next
    case none: True
    show ?thesis
    proof (cases "untouched ctx x (set_requirement i (optional E k) d)")
      case True
      then have "untouched ctx x d" using untouched_bare [OF refl side_set_requirement] by blast
      with form none that(3,4) x True show ?thesis by (auto split: if_splits)
    next
      case False
      with form none that(3) show ?thesis by simp
    qed
  qed
qed

lemma set_requirement_sources [simp]: "sources (set_requirement i f d) = sources d" "sources_of ctx j (set_requirement i f d) = sources_of ctx j d"
  by (simp_all add: sources_def sources_of_def)

lemma reconcile_sources: "sources (reconcilePolicyDocument E k ctx i d) = sources d"
  by (cases rule: reconcile_cases [of d i ctx E k]) simp_all

lemma link_source: "is_link ctx s p l \<Longrightarrow> so_deletedAt l = None \<Longrightarrow> l \<in> set (sources d) \<Longrightarrow> l \<in> set (sources_of ctx (so_documentId l) d)"
  by (simp add: sources_of_def is_link_def sources_def)

lemma linked_rows_live:
  assumes "sound ctx d" "sources_of ctx i d \<noteq> []" "x \<in> set (caseDocuments d)" "dd_id x = i"
  shows "live_doc x"
proof -
  obtain l where "l \<in> set (sources_of ctx i d)" using assms(2) by (cases "sources_of ctx i d") auto
  then have "l \<in> set (sources d)" "so_tenantId l = tenantId ctx" "so_documentId l = i" "so_deletedAt l = None"
    by (simp_all add: sources_of_def sources_def)
  then show ?thesis using assms(1,3,4) by (simp add: sound_def linked_live_def)
qed

lemma reconcile_sound:
  assumes "sound ctx d"
  shows "sound ctx (reconcilePolicyDocument E k ctx i d)"
proof (cases rule: reconcile_cases [of d i ctx E k])
  case none
  then show ?thesis using assms by simp
next
  case linked
  show ?thesis unfolding linked(2)
    by (rule tidy_sound [OF assms]) (use linked_rows_live [OF assms linked(1)] in \<open>simp_all add: tidy_def recounted_def live_doc_def\<close>)
next
  case kept
  show ?thesis unfolding kept(2)
    by (rule tidy_sound [OF assms]) (simp_all add: kept(1) tidy_def optional_def live_doc_def)
next
  case (gone x)
  have "sound ctx (set_requirement i (optional E k) d)"
    by (rule tidy_sound [OF assms]) (simp_all add: gone(1) tidy_def optional_def live_doc_def)
  then show ?thesis unfolding gone(5)
    by (rule tidy_sound) (simp_all add: gone(1) tidy_def retired_def live_doc_def)
qed

lemma reconcile_side: "side (reconcilePolicyDocument E k ctx i d) = side d"
  by (simp add: reconcilePolicyDocument_def Let_def split: option.split)

lemma reconcile_work:
  assumes "distinct (map dd_id (caseDocuments d))" "side d0 = side d"
  shows "keeps_work ctx d0 (caseDocuments d) (caseDocuments (reconcilePolicyDocument E k ctx i d))"
proof (cases rule: reconcile_cases [of d i ctx E k])
  case none
  then show ?thesis by (simp add: keeps_work_refl)
next
  case linked
  show ?thesis unfolding linked(2) set_requirement_rows by (rule keeps_work_on_id) (simp add: bare_def recounted_def live_doc_def)
next
  case kept
  show ?thesis unfolding kept(2) set_requirement_rows by (rule keeps_work_on_id) (simp add: bare_def optional_def live_doc_def)
next
  case (gone x)
  have idle: "untouched ctx y d0" if "y \<in> set (caseDocuments d)" "dd_id y = i" for y
    using unique_id [OF assms(1) that(1) gone(2)] that(2) gone(3,4) by (simp add: untouched_bare [OF refl assms(2)])
  have idle2: "untouched ctx y d0" if "y \<in> set (on_id i (optional E k) (caseDocuments d))" "dd_id y = i" for y
    using that(1)
  proof (cases rule: on_idE)
    case same
    show ?thesis using same(2) that(2) by contradiction
  next
    case (changed z)
    then have "bare y = bare z" by (simp add: bare_def optional_def)
    then show ?thesis using idle changed untouched_bare by metis
  qed
  have "keeps_work ctx d0 (caseDocuments d) (on_id i (optional E k) (caseDocuments d))"
    by (rule keeps_work_on_id) (use idle in blast)
  moreover have "keeps_work ctx d0 (on_id i (optional E k) (caseDocuments d)) (on_id i (retired E k) (on_id i (optional E k) (caseDocuments d)))"
    by (rule keeps_work_on_id) (use idle2 in blast)
  ultimately show ?thesis unfolding gone(5) set_requirement_rows by (rule keeps_work_trans)
qed

lemma reconcile_cover:
  assumes "sound ctx d" "reconciled_cover ctx c T D d s p"
  shows "reconciled_cover ctx c T (insert i D) (reconcilePolicyDocument E k ctx i d) s p"
proof -
  from assms(2) obtain l x where l: "l \<in> set (sources d)" "is_link ctx s p l" "so_deletedAt l = None" "so_isMandatoryAtLink l = cd_isMandatory p"
    "so_documentId l \<in> set T" and x: "x \<in> set (caseDocuments d)" "dd_id x = so_documentId l" "of_key ctx c (merge_key p) x" "live_doc x"
      "so_documentId l \<in> D \<and> cd_isMandatory p \<longrightarrow> dd_isMandatory x"
    unfolding reconciled_cover_def by (elim bexE conjE)
  let ?d' = "reconcilePolicyDocument E k ctx i d"
  have "\<exists>x' \<in> set (caseDocuments ?d'). dd_id x' = so_documentId l \<and> of_key ctx c (merge_key p) x' \<and> live_doc x'
      \<and> (so_documentId l \<in> insert i D \<and> cd_isMandatory p \<longrightarrow> dd_isMandatory x')"
  proof (cases "so_documentId l = i")
    case True
    have src: "l \<in> set (sources_of ctx i d)" using link_source [OF l(2,3,1)] True by simp
    then have ne: "sources_of ctx i d \<noteq> []" by auto
    have "?d' = set_requirement i (recounted E k (sources_of ctx i d)) d"
    proof (cases rule: reconcile_cases [of d i ctx E k])
      case none
      then show ?thesis using x(1-3) True by (auto simp: of_key_def)
    qed (use ne in simp_all)
    then have "recounted E k (sources_of ctx i d) x \<in> set (caseDocuments ?d')"
      using on_id_mem [OF x(1), of i "recounted E k (sources_of ctx i d)"] x(2) True by simp
    moreover have "cd_isMandatory p \<longrightarrow> list_ex so_isMandatoryAtLink (sources_of ctx i d)" using src l(4) by (auto simp: list_ex_iff)
    ultimately show ?thesis using x(2,3) by (intro bexI [of _ "recounted E k (sources_of ctx i d) x"]) (simp_all add: recounted_def of_key_def live_doc_def)
  next
    case False
    have "x \<in> set (caseDocuments ?d')"
    proof (cases rule: reconcile_cases [of d i ctx E k])
      case none
      then show ?thesis using x(1) by simp
    qed (use x(1,2) False in \<open>simp_all add: on_id_other\<close>)
    then show ?thesis using x(2-5) False by (intro bexI [of _ x]) simp_all
  qed
  then show ?thesis unfolding reconciled_cover_def reconcile_sources using l by (intro bexI [of _ l]) simp_all
qed

lemma reconcile_docs_keeps:
  assumes "sound ctx d" "side d0 = side d"
  shows "sound ctx (reconcile_docs E k ctx is d) \<and> keeps_work ctx d0 (caseDocuments d) (caseDocuments (reconcile_docs E k ctx is d))
     \<and> (\<forall>s p. reconciled_cover ctx c T D d s p \<longrightarrow> reconciled_cover ctx c T (D \<union> set is) (reconcile_docs E k ctx is d) s p)"
  using assms
proof (induction "is" arbitrary: k d D)
  case Nil
  then show ?case by (simp add: keeps_work_refl)
next
  case (Cons i "is")
  let ?d1 = "reconcilePolicyDocument E k ctx i d"
  note ih = Cons.IH [where k = "k + 2" and d = ?d1 and D = "insert i D", OF reconcile_sound [OF Cons.prems(1)]]
  have sd: "side d0 = side ?d1" using Cons.prems(2) by (simp add: reconcile_side)
  have w: "keeps_work ctx d0 (caseDocuments d) (caseDocuments ?d1)" using Cons.prems by (intro reconcile_work) (simp_all add: sound_def)
  show ?case
    using ih [OF sd] keeps_work_trans [OF w] reconcile_cover [OF Cons.prems(1), of c T D _ _ i E k] by simp
qed

section \<open>The synchronisation\<close>

lemma put_side [simp]: "side (put_sources ls d) = side d" "side (put_selections ss d) = side d" "side (d\<lparr>caseDocuments := xs\<rparr>) = side d"
  by (simp_all add: side_def put_sources_def put_selections_def)

lemma shared_doc_side: "shared_doc E k ctx c p d = (i, d1) \<Longrightarrow> side d1 = side d"
  by (auto simp: shared_doc_def split: option.splits)

lemma upsert_link_side: "side (upsert_link E k ctx c s p i d) = side d"
  by (simp add: upsert_link_def Let_def split: option.split)

lemma materialize_presets_side: "materialize_presets E k ctx c s ps T d = (T', d') \<Longrightarrow> side d' = side d"
proof (induction ps arbitrary: k T d)
  case (Cons p ps)
  obtain i d1 where sd: "shared_doc E k ctx c p d = (i, d1)" by (metis surj_pair)
  have "side d' = side (upsert_link E (k + 1) ctx c s p i d1)"
    by (rule Cons.IH) (use Cons.prems sd in \<open>simp add: materializePresetForSelection_def\<close>)
  then show ?case using shared_doc_side [OF sd] by (simp add: upsert_link_side)
qed simp

lemma mark_side: "side (mark_materialized E k s d) = side d"
  by (simp add: mark_materialized_def)

lemma materialize_selections_side: "materialize_selections E k ctx c ss T d = (T', d') \<Longrightarrow> side d' = side d"
proof (induction ss arbitrary: k T d)
  case (Cons s ss)
  let ?ps = "presets_of ctx (sc_componentId s) d"
  obtain T1 d1 where m: "materialize_presets E k ctx c s ?ps T d = (T1, d1)" by (metis surj_pair)
  have "side d' = side (mark_materialized E (k + 2 * length ?ps) s d1)"
    by (rule Cons.IH) (use Cons.prems m in \<open>simp add: Let_def\<close>)
  then show ?case using materialize_presets_side [OF m] by (simp add: mark_side)
qed simp

lemma sync_result:
  assumes "sound ctx d" "same_presets d" "unused (Es 1) 0 d"
  shows "sound ctx (syncPolicyDocuments Es ctx c d) \<and> keeps_work ctx d (caseDocuments d) (caseDocuments (syncPolicyDocuments Es ctx c d))
     \<and> (\<forall>s \<in> set (active_selections ctx c d). \<forall>p \<in> set (presets_of ctx (sc_componentId s) d). \<exists>T.
          reconciled_cover ctx c T (set T) (syncPolicyDocuments Es ctx c d) s p)"
proof -
  obtain T1 d1 where a: "drop_selections (Es 0) 0 ctx c (filter (\<lambda>s. sc_deletedAt s \<noteq> None) (selections_of ctx c d)) [] d = (T1, d1)" by (metis surj_pair)
  obtain T2 d2 where b: "materialize_selections (Es 1) 0 ctx c (active_selections ctx c d1) T1 d1 = (T2, d2)" by (metis surj_pair)
  have sync: "syncPolicyDocuments Es ctx c d = reconcile_docs (Es 2) 0 ctx T2 d2"
    unfolding syncPolicyDocuments_def Let_def a prod.case b ..
  note sh = drop_selections_shrunk [OF a]
  have pre: "sound ctx d1" "unused (Es 1) 0 d1" "same_presets d1"
    using shrunk_sound [OF sh assms(1)] shrunk_unused [OF sh assms(3)] assms(2) sh by (simp_all add: same_presets_def shrunk_def)
  note mat = materialize_selections_covers [OF b pre]
  have sound2: "sound ctx d2" using mat by blast
  have sd: "side d = side d2" using materialize_selections_side [OF b] sh by (simp add: shrunk_def side_def)
  note rec = reconcile_docs_keeps [OF sound2 sd, of "Es 2" 0 T2 c T2 "{}"]
  have "keeps_work ctx d (caseDocuments d) (caseDocuments d2)"
    using materialize_selections_work [OF b] sh by (simp add: shrunk_def)
  then have work: "keeps_work ctx d (caseDocuments d) (caseDocuments (reconcile_docs (Es 2) 0 ctx T2 d2))"
    using rec keeps_work_trans by blast
  have cov: "reconciled_cover ctx c T2 (set T2) (reconcile_docs (Es 2) 0 ctx T2 d2) s p"
    if "s \<in> set (active_selections ctx c d)" "p \<in> set (presets_of ctx (sc_componentId s) d)" for s p
  proof -
    have "s \<in> set (active_selections ctx c d1)" "p \<in> set (presets_of ctx (sc_componentId s) d1)" using that shrunk_lists [OF sh] by simp_all
    then have "cover ctx c T2 d2 s p" using mat by blast
    from rec cover_reconciled [OF this] show ?thesis by simp
  qed
  show ?thesis unfolding sync using rec work cov by blast
qed

text \<open>C11: After the policies of a case are synchronised, every document line of every selected component
  has a link that is not removed, and the link leads to a live requirement of the case that carries the
  key of the line and is mandatory if the line is.\<close>

theorem sync_covers_selections:
  assumes "sound ctx d" "same_presets d" "unused (Es 1) 0 d" "s \<in> set (active_selections ctx c d)" "p \<in> set (presets_of ctx (sc_componentId s) d)"
  shows "\<exists>l \<in> set (componentSources (planning (syncPolicyDocuments Es ctx c d))). is_link ctx s p l \<and> so_deletedAt l = None
     \<and> (\<exists>x \<in> set (caseDocuments (syncPolicyDocuments Es ctx c d)). dd_id x = so_documentId l \<and> of_key ctx c (merge_key p) x
          \<and> dd_deletedAt x = None \<and> (cd_isMandatory p \<longrightarrow> dd_isMandatory x))"
proof -
  obtain T where "reconciled_cover ctx c T (set T) (syncPolicyDocuments Es ctx c d) s p"
    using sync_result [where Es = Es and c = c, OF assms(1-3)] assms(4,5) by blast
  then show ?thesis unfolding reconciled_cover_def sources_def live_doc_def by blast
qed

text \<open>C12: The synchronisation never leaves two live requirements of one key in a case, and never an active
  link to a removed requirement, if there were none before.\<close>

theorem sync_one_per_key:
  assumes "sound ctx d" "same_presets d" "unused (Es 1) 0 d"
  shows "keyed_once (caseDocuments (syncPolicyDocuments Es ctx c d)) \<and> linked_live ctx (syncPolicyDocuments Es ctx c d)"
  using sync_result [where Es = Es and c = c, OF assms] by (simp add: sound_def)

text \<open>C13: The synchronisation never removes a requirement something has happened to (a file that is
  active, a storage link, an entry of the history, a note, a date of receipt, verification or
  publication, a waiver, or a status past the first two), even when its component is deselected.
  Such a requirement keeps every column but three: whether it is mandatory, its key, which a line of the
  same name may give it, and the time of the last update.\<close>

theorem sync_keeps_work:
  assumes "sound ctx d" "same_presets d" "unused (Es 1) 0 d" "x \<in> set (caseDocuments d)" "dd_deletedAt x = None"
    "dd_status x \<notin> {DD_REQUESTED, DD_PENDING_COLLECTION} \<or> dd_receivedAt x \<noteq> None \<or> dd_verifiedAt x \<noteq> None \<or> dd_isWaived x
     \<or> dd_clientVisible x \<or> dd_clientVisibleAt x \<noteq> None \<or> \<not> falsy (dd_notes x)
     \<or> (\<exists>f \<in> set (documents d). do_tenantId f = tenantId ctx \<and> do_requirementId f = Some (dd_id x) \<and> do_deletedAt f = None \<and> do_isActive f)
     \<or> (\<exists>r \<in> set (storageRefs (planning d)). sr_documentId r = dd_id x) \<or> (\<exists>e \<in> set (caseEvents d). de_documentId e = Some (dd_id x))"
  shows "\<exists>x' \<in> set (caseDocuments (syncPolicyDocuments Es ctx c d)).
     x = x'\<lparr>dd_isMandatory := dd_isMandatory x, dd_requirementDedupeKey := dd_requirementDedupeKey x, dd_updatedAt := dd_updatedAt x\<rparr>"
proof -
  have "\<not> untouched ctx x d" using assms(6) unfolding untouched_def filter_empty_conv DESELECT_SAFE_STATUSES_def by auto
  moreover have "live_doc x" using assms(5) by (simp add: live_doc_def)
  ultimately obtain x' where x': "x' \<in> set (caseDocuments (syncPolicyDocuments Es ctx c d))" "bare x' = bare x"
    using sync_result [where Es = Es and c = c, OF assms(1-3)] assms(4) unfolding keeps_work_def by blast
  have "(bare x)\<lparr>dd_isMandatory := dd_isMandatory x, dd_requirementDedupeKey := dd_requirementDedupeKey x, dd_updatedAt := dd_updatedAt x\<rparr>
      = (bare x')\<lparr>dd_isMandatory := dd_isMandatory x, dd_requirementDedupeKey := dd_requirementDedupeKey x, dd_updatedAt := dd_updatedAt x\<rparr>"
    unfolding x'(2) ..
  then have "x = x'\<lparr>dd_isMandatory := dd_isMandatory x, dd_requirementDedupeKey := dd_requirementDedupeKey x, dd_updatedAt := dd_updatedAt x\<rparr>"
    by (simp add: bare_def)
  then show ?thesis using x'(1) by (rule bexI)
qed

section \<open>An example\<close>

definition line_one :: CaseTypeComponentDocument where
  "line_one = \<lparr>cd_id = ''p1'', cd_tenantId = ''t1'', cd_caseTypeId = ''ct'', cd_componentId = ''k1'', cd_name = ''PAN card'',
     cd_dedupeKey = ''pan card'', cd_description = None, cd_isMandatory = True, cd_requireDate = False, cd_requireNote = False,
     cd_displayOrder = 1, cd_isActive = True, cd_createdAt = 0, cd_deletedAt = None\<rparr>"

definition selection_one :: DocCasePolicyComponent where
  "selection_one = \<lparr>sc_id = ''s1'', sc_tenantId = ''t1'', sc_caseId = ''c1'', sc_policyAssignmentId = ''a1'', sc_componentId = ''k1'',
     sc_displayOrder = 0, sc_documentsMaterializedAt = None, sc_createdBy = None, sc_createdAt = 0, sc_deletedAt = None\<rparr>"

text \<open>An approved requirement of a component that is deselected.\<close>

definition old_requirement :: DocCaseDocument where
  "old_requirement = (blank_requirement (small_env 0) 1 ctx_one ''c1'' ''Photo'')
     \<lparr>dd_id := ''r0'', dd_status := DD_APPROVED, dd_requirementDedupeKey := Some ''compdoc:photo'', dd_isComponentMerged := True\<rparr>"

definition old_link :: DocCaseDocumentComponentSource where
  "old_link = \<lparr>so_id = ''l0'', so_tenantId = ''t1'', so_caseId = ''c1'', so_documentId = ''r0'', so_policyAssignmentId = ''a1'',
     so_policyComponentId = ''s0'', so_componentId = ''k0'', so_componentDocumentId = Some ''p0'', so_isMandatoryAtLink = True,
     so_displayOrderAtLink = 0, so_deletedAt = None\<rparr>"

definition policy_db :: db where
  "policy_db = empty_db\<lparr>caseDocuments := [old_requirement], planning := no_plan\<lparr>componentDocuments := [line_one],
     policySelections := [selection_one, selection_one\<lparr>sc_id := ''s0'', sc_componentId := ''k0'', sc_deletedAt := Some 1\<rparr>],
     componentSources := [old_link]\<rparr>\<rparr>"

definition unary_env :: env where
  "unary_env = env_one\<lparr>ev_uuid := (\<lambda>k. replicate (Suc k) CHR ''z'')\<rparr>"

lemma policy_db_sound: "sound ctx_one policy_db"
  by (simp add: sound_def policy_db_def sources_def linked_live_def keyed_once_def old_requirement_def old_link_def blank_requirement_def live_doc_def)

lemma policy_db_presets: "same_presets policy_db"
  by (simp add: same_presets_def policy_db_def)

lemma policy_db_unused: "unused unary_env 0 policy_db"
proof -
  have "inj (ev_uuid unary_env)"
  proof (rule injI)
    fix j k assume "ev_uuid unary_env j = ev_uuid unary_env k"
    then have "length (ev_uuid unary_env j) = length (ev_uuid unary_env k)" by simp
    then show "j = k" by (simp add: unary_env_def)
  qed
  moreover have "ev_uuid unary_env j \<noteq> ''r0'' \<and> ev_uuid unary_env j \<noteq> ''l0''" for j by (simp add: unary_env_def)
  ultimately show ?thesis by (auto simp: unused_def policy_db_def sources_def old_requirement_def old_link_def)
qed

lemma policy_db_selected: "selection_one \<in> set (active_selections ctx_one ''c1'' policy_db)"
  by (simp add: active_selections_def selections_of_def policy_db_def selection_one_def ctx_one_def)

lemma policy_db_line: "line_one \<in> set (presets_of ctx_one (sc_componentId selection_one) policy_db)"
  by (simp add: presets_of_def policy_db_def line_one_def selection_one_def ctx_one_def)

theorem sync_covers_selections_witness:
  "\<exists>x \<in> set (caseDocuments (syncPolicyDocuments (\<lambda>_. unary_env) ctx_one ''c1'' policy_db)).
     dd_requirementDedupeKey x = Some ''compdoc:pan card'' \<and> dd_deletedAt x = None \<and> dd_isMandatory x"
proof -
  have key: "merge_key line_one = ''compdoc:pan card''" "cd_isMandatory line_one" by (simp_all add: merge_key_def line_one_def)
  show ?thesis
    using sync_covers_selections [where Es = "\<lambda>_. unary_env", OF policy_db_sound policy_db_presets policy_db_unused policy_db_selected policy_db_line]
    unfolding of_key_def key(1) by (elim bexE conjE) (intro bexI conjI; (assumption | erule mp, rule key(2)))
qed

theorem sync_one_per_key_witness: "keyed_once (caseDocuments (syncPolicyDocuments (\<lambda>_. unary_env) ctx_one ''c1'' policy_db))"
  using sync_one_per_key [where Es = "\<lambda>_. unary_env" and c = "''c1''", OF policy_db_sound policy_db_presets policy_db_unused] by blast

theorem sync_keeps_work_witness:
  "\<exists>x \<in> set (caseDocuments (syncPolicyDocuments (\<lambda>_. unary_env) ctx_one ''c1'' policy_db)).
     dd_id x = ''r0'' \<and> dd_deletedAt x = None \<and> dd_status x = DD_APPROVED \<and> dd_name x = ''Photo''"
proof -
  have x: "old_requirement \<in> set (caseDocuments policy_db)" by (simp add: policy_db_def)
  have f: "dd_id old_requirement = ''r0''" "dd_deletedAt old_requirement = None" "dd_status old_requirement = DD_APPROVED" "dd_name old_requirement = ''Photo''"
    by (simp_all add: old_requirement_def blank_requirement_def)
  have "dd_status old_requirement \<notin> {DD_REQUESTED, DD_PENDING_COLLECTION}" by (simp add: f)
  from sync_keeps_work [where Es = "\<lambda>_. unary_env" and c = "''c1''", OF policy_db_sound policy_db_presets policy_db_unused x f(2) disjI1, OF this]
  obtain x' where x': "x' \<in> set (caseDocuments (syncPolicyDocuments (\<lambda>_. unary_env) ctx_one ''c1'' policy_db))"
    and eq: "old_requirement = x'\<lparr>dd_isMandatory := dd_isMandatory old_requirement,
      dd_requirementDedupeKey := dd_requirementDedupeKey old_requirement, dd_updatedAt := dd_updatedAt old_requirement\<rparr>" by (elim bexE)
  have "dd_id x' = ''r0'' \<and> dd_deletedAt x' = None \<and> dd_status x' = DD_APPROVED \<and> dd_name x' = ''Photo''"
    using arg_cong [where f = dd_id, OF eq] arg_cong [where f = dd_deletedAt, OF eq] arg_cong [where f = dd_status, OF eq]
      arg_cong [where f = dd_name, OF eq] unfolding f by simp
  then show ?thesis using x' by (rule bexI)
qed

end
