(* ===== verification/Spec2Isabelle.thy ===== *)
theory Spec2Isabelle
  imports Case_Number Mandate_Domain Perf_Stats Sla Handoff_Service Process_Service Portal_Props Lifecycle_Service Timeline_System Mandate_System Preset_System Document_Props
    Policy_Props
begin

text \<open>
  A verification library for the case management back end under \<^verbatim>\<open>src/\<close>, a multi-tenant
  TypeScript server on Prisma: leads become document cases, cases are handed from Sales to
  Documentation and from Documentation to Process, clients see their case through a portal and
  send documents through upload links, and every change is written to a hash-chained audit log.

  \<^bold>\<open>How the model reads the code.\<close> The database is the record \<open>db\<close> of \<open>Db\<close>, one
  list of rows for each table in order of insertion; a row is a record with the columns the
  modelled code reads or writes. A method that runs in one transaction has type \<open>'a tx\<close>, a
  function from a database to an error or a result and the next database, so that an error
  leaves nothing behind. A method that writes outside a transaction has type
  \<open>'a handler\<close>, whose next database is there after an error too. The clock, the random
  ids and tokens, the hash function and the JSON column are fields of the environment
  \<open>env\<close>: \<open>ev_clock E k\<close> is the \<open>k\<close>-th read of the clock in a call, and nothing is
  assumed of it unless a theorem says so. Errors are the constructors of \<open>app_error\<close>.
  Dates are milliseconds since the epoch as integers; numbers that the code keeps in doubles are
  integers or rationals with a rounding parameter.

  \<^bold>\<open>Theories and the code they model.\<close>
  \<^item> \<open>Prelude\<close>: the error classes of \<^verbatim>\<open>types/exceptions.ts\<close>, the result monad, finding,
    filtering and updating rows, strings; the locales \<open>lookup\<close> and its extensions for tables.
  \<^item> \<open>Case_Number\<close>: \<^verbatim>\<open>domain/caseNumber.ts\<close>, \<^verbatim>\<open>utils/phone*.ts\<close>.
  \<^item> \<open>Handoff_Domain\<close>: \<^verbatim>\<open>domain/handoff.ts\<close> and \<^verbatim>\<open>domain/process-handoff.ts\<close>.
  \<^item> \<open>Mandate_Domain\<close>, \<open>Portal_Domain\<close>: \<^verbatim>\<open>domain/mandate.ts\<close>, \<^verbatim>\<open>domain/portal.ts\<close>.
  \<^item> \<open>Js_Date\<close>, \<open>Planning_Dates\<close>, \<open>Planning\<close>: the calendar of JavaScript dates,
    \<^verbatim>\<open>services/case-planning.dates.ts\<close> and the pure part of \<^verbatim>\<open>case-planning.service.ts\<close>.
    Loops that may not end return an option, and the theorems say when they return.
  \<^item> \<open>Sla\<close>, \<open>Perf_Stats\<close>: \<^verbatim>\<open>case-sla.compute.ts\<close>, \<^verbatim>\<open>case-performance.stats.ts\<close>.
  \<^item> \<open>Canonical_Json\<close>, \<open>Audit_Log\<close>: \<^verbatim>\<open>services/audit.service.ts\<close>.
  \<^item> \<open>Db\<close>, \<open>Case_Store\<close>: the tables of \<^verbatim>\<open>prisma/schema.prisma\<close> and what the services
    share on the table of cases.
  \<^item> \<open>Handoff_Service\<close>, \<open>Process_Service\<close>: \<^verbatim>\<open>handoff.service.ts\<close>,
    \<^verbatim>\<open>process-handoff.service.ts\<close> and the transfer and the override of
    \<^verbatim>\<open>documentation.service.ts\<close>.
  \<^item> \<open>Portal_Service\<close>, \<open>Portal_Props\<close>: \<^verbatim>\<open>portal.service.ts\<close> and what it guarantees.
  \<^item> \<open>Lifecycle_Service\<close>: \<^verbatim>\<open>case-lifecycle.service.ts\<close>.
  \<^item> \<open>Field_Domain\<close>, \<open>Field_Service\<close>, \<open>Field_Props\<close>: custom fields,
    \<^verbatim>\<open>case-field.validation.ts\<close> and \<^verbatim>\<open>case-field.service.ts\<close>, and the invariant of the catalogue.
  \<^item> \<open>Field_Values\<close>, \<open>Field_Value_Service\<close>, \<open>Field_Value_Props\<close>: the values of a
    case, \<^verbatim>\<open>case-field-value.validation.ts\<close> and \<^verbatim>\<open>case-field-value.service.ts\<close>. JSON is
    \<open>jsval\<close>; \<open>js_engine\<close> holds the regular expressions and the date parser of the engine.
  \<^item> \<open>Calendar_Service\<close>: \<^verbatim>\<open>case-calendar.service.ts\<close>.
  \<^item> \<open>Timeline_Service\<close>: \<^verbatim>\<open>case-timeline.service.ts\<close>, \<open>recalcInTx\<close> of
    \<^verbatim>\<open>case-planning.service.ts\<close> and \<^verbatim>\<open>case-performance.service.ts\<close>. An operation that
    recalculates is a \<open>plan_tx\<close>: none when it does not return.
  \<^item> \<open>Sla_Worker\<close>: \<^verbatim>\<open>workers/sla.worker.ts\<close>, with the rows of notifications beside the database.
  \<^item> \<open>Notification_Service\<close>, \<open>Redis_Client\<close>, \<open>Rate_Limit\<close>:
    \<^verbatim>\<open>notification.service.ts\<close>, \<^verbatim>\<open>redis.ts\<close> with its circuit breaker, and
    \<^verbatim>\<open>auth/RateLimitService.ts\<close>.
  \<^item> \<open>Object_Store\<close>, \<open>Upload_Gate\<close>: \<^verbatim>\<open>storage.service.ts\<close>, the switch of
    \<^verbatim>\<open>virus-scan.service.ts\<close> and the gate every upload passes. A \<open>world\<close> is the database with
    the objects, the notifications and the counters; an \<open>act\<close> is an action on it that returns
    or throws and keeps what it wrote.
  \<^item> \<open>Mandate_Service\<close>, \<open>Mandate_System\<close>: \<^verbatim>\<open>mandate.service.ts\<close> and
    \<^verbatim>\<open>workers/mandate-expiry.worker.ts\<close>, and the step relation over all of it.
  \<^item> \<open>Requirement_Service\<close>: the required documents of a case in
    \<^verbatim>\<open>documentation.service.ts\<close>: \<open>addDocumentToCase\<close>, \<open>updateDocumentStatus\<close>, the moves of
    the other services, notes, storage references, reminders, and the counters of
    \<open>recalcAndUpdateCase\<close>.
  \<^item> \<open>Preset_Service\<close>, \<open>Preset_System\<close>: \<open>createPreset\<close>, \<open>updatePreset\<close>,
    \<open>deletePreset\<close> and \<open>createCase\<close> of the same file, with the unique indexes of the
    tables, and what they do to each other.
  \<^item> \<open>Document_Service\<close>, \<open>Document_System\<close>, \<open>Document_Props\<close>: the files of a
    requirement in \<^verbatim>\<open>document.service.ts\<close>, the step relation over files and requirements, and
    its invariants.
  \<^item> \<open>Policy_Documents\<close>, \<open>Policy_Service\<close>, \<open>Policy_Props\<close>: the policies and
    components chosen for a case, \<open>assignPolicies\<close>, \<open>syncPolicyDocuments\<close> and the
    propagation of a catalogue change in \<^verbatim>\<open>documentation.service.ts\<close>.
  \<^item> \<open>Timeline_Props\<close>, \<open>Timeline_System\<close>: the step relation over every timeline operation
    and the sweep, its reachable states and their invariants.

  \<^bold>\<open>What happens between the parts of a call.\<close> A method that is one transaction is one step.
  Where the code spreads a call over several transactions or queries, its parts are definitions of
  their own and the properties allow anything between them: the count, the comparison and the
  record of a verification (\<open>verify_count\<close>, \<open>verify_lookup\<close>, \<open>verify_record\<close>, with
  \<open>probing\<close> for the calls under way), the check of the request, the head, the bytes, the claim and the
  rest of a confirmation (\<open>confirm_request\<close> to \<open>confirm_finish\<close>), and the transactions of
  the sweep, one for each organisation, on stages read earlier. The step relation of the timelines takes
  such a transaction when its stages still have the status they were read with; what a staler one can
  do is a lemma. Transactions themselves do not overlap in the step relations; where the isolation
  of the database lets them and it matters, a lemma shows the damage (overlapping reviews of one case,
  overlapping writes of one value). \<open>doc_step\<close> has a step for anything elsewhere in the program
  that leaves files and requirements alone, whatever it does to the cases.

  \<^bold>\<open>What the lemmas show.\<close> The audit log stays one chain per tenant under any interleaving
  of appends, verification accepts what the service wrote from plain JSON and, of a row that keeps its hash,
  pins the fields that the hash covers. Each handover method refines an abstract machine over the owner and the state
  of a case, and writes exactly one event and one audit row. Of two racing Process writes one
  fails. With at most \<open>m\<close> verifications under way the portal compares at most \<open>4 + m\<close> wrong digits per half hour; its view
  depends on the public part of public rows only, and a close or a change of contact leaves no live session. A plan is a chain of
  dates that returns on every usable calendar while the dates stay in range. A mandate request gets at most one upload however
  confirmations overlap; what is promoted was waited for, and passed every check unless the staged object
  was replaced meanwhile. A later confirmation of an upload by the firm changes nothing. An active timeline can always be moved on
  by the action of its first unfinished stage. A live
  requirement that is approved has exactly one active file, and a transaction on requirements or files
  leaves each case it touches with the counters of its requirements. Synchronising the
  policies of a case gives every preset document of every selected component one requirement per
  deduplication key, and keeps every requirement something happened to, but for its mandatory mark, key and
  time of update. A patch of custom fields writes its entries, their options and their history and nothing
  else. At most five attempts on an upload link pass in a clock hour while the server keeps the counter. The pages of the notifications give each once while no two share an instant.

  \<^bold>\<open>Not modelled.\<close> HTTP routing, authentication and middleware, the connections to the object
  store and the verdict of the virus scanner (parameters of the services), mail, job queues, start-up and configuration; the manifest lists each part.
\<close>

end
